(* ===== verification/TilibsPrelude.thy ===== *)
theory TilibsPrelude
  imports Main "HOL-Library.Word"
begin

text \<open>
  Shared vocabulary of the development: the machine types of the C++ sources, the
  byte-splitting macros of \<^verbatim>\<open>libticalcs/trunk/src/macros.h\<close> and their inverses, return
  codes, bounds-checked buffer copies, and the collections of rewrite rules
  (\<open>byte_simps\<close>, \<open>link_simps\<close>) that the component theories extend.
\<close>

unbundle bit_operations_syntax

named_theorems byte_simps "splitting machine words into bytes and joining them again"
named_theorems link_simps "behaviour of the transport operations on a well-behaved link"

section \<open>Machine types\<close>

type_synonym u8 = "8 word"
type_synonym u16 = "16 word"
type_synonym u32 = "32 word"
type_synonym bytes = "8 word list"

section \<open>Return codes\<close>

text \<open>
  The libraries return an \<open>int\<close>: zero for success, an enumerator of \<^verbatim>\<open>error.h\<close>
  otherwise. \<open>ret\<close> is \<open>None\<close> for zero; \<open>ERR_OTHER n\<close> is any other non-zero integer
  (a callback or a driver may return one). \<open>UNDEFINED_BEHAVIOUR\<close> is no code of the
  library: it is the outcome of an execution that reads or writes outside of an array. Nor is
  \<open>OUT_OF_FUEL\<close>, the outcome of a loop without a bound of its own that was cut off.
  \<open>ERR_CALC_ERROR1 n\<close> is the base code plus \<open>n\<close>, a code reported by the calculator.
\<close>

datatype errcode =
    ERR_BUSY | ERR_ILLEGAL_ARG | ERR_READ_ERROR | ERR_READ_TIMEOUT
  | ERR_WRITE_ERROR | ERR_WRITE_TIMEOUT | ERR_NOT_OPEN | ERR_RAW_IO_UNSUPPORTED
  | ERR_ABORT | ERR_CHECKSUM | ERR_INVALID_CMD | ERR_INVALID_PACKET
  | ERR_INVALID_HANDLE | ERR_INVALID_PARAMETER | ERR_MALLOC
  | ERR_EOT | ERR_VAR_REJECTED | ERR_CTS_ERROR | ERR_NACK | ERR_UNSUPPORTED
  | ERR_INVALID_PARAM | ERR_CERT_TRUNCATED
  | ERR_CALC_ERROR1 nat | ERR_CALC_ERROR2 nat | ERR_CALC_ERROR3 nat
  | ERR_NO_MORE_TO_LIST | ERR_EVO_ERROR | ERR_NOT_READY | ERR_OUT_OF_MEMORY | ERR_NO_VARS
  | ERR_MISSING_VAR | ERR_VAR_VERSION | ERR_INVALID_SCREENSHOT | ERR_ROM_ERROR | ERR_FATAL_ERROR
  | ERR_OPEN_FILE | ERR_SAVE_FILE | ERR_FILE_IO | ERR_INVALID_FILE | ERR_BAD_CALC
  | ERR_VOID_FUNCTION | ERR_FILE_OPEN | ERR_NO_CALC | ERR_CLOCK_UNSTABLE | ERR_LIST_FAILED | ERR_OUT_OF_RANGE
  | ERR_VTI_IPCKEY | ERR_VTI_SHMGET | ERR_VTI_SHMAT | ERR_VTI_SHMDT | ERR_VTI_SHMCTL
  | ERR_OTHER int
  | UNDEFINED_BEHAVIOUR | OUT_OF_FUEL

type_synonym ret = "errcode option"

section \<open>Bytes of words\<close>

definition LSW :: "'a::len word \<Rightarrow> u16" where
  "LSW l = ucast (l AND 0x0000FFFF)"

definition MSW :: "'a::len word \<Rightarrow> u16" where
  "MSW l = ucast (drop_bit 16 (l AND 0xFFFF0000))"

definition LSB :: "'a::len word \<Rightarrow> u8" where
  "LSB w = ucast (w AND 0x00FF)"

definition MSB :: "'a::len word \<Rightarrow> u8" where
  "MSB w = ucast (drop_bit 8 (w AND 0xFF00))"

text \<open>The reading side, written out inline by the sources as shifts and ors.\<close>

definition be16 :: "u8 \<Rightarrow> u8 \<Rightarrow> u16" where
  "be16 b0 b1 = push_bit 8 (ucast b0) OR ucast b1"

definition be32 :: "u8 \<Rightarrow> u8 \<Rightarrow> u8 \<Rightarrow> u8 \<Rightarrow> u32" where
  "be32 b0 b1 b2 b3 =
     push_bit 24 (ucast b0) OR push_bit 16 (ucast b1) OR push_bit 8 (ucast b2) OR ucast b3"

text \<open>Each macro truncates a shifted word; the masks are redundant.\<close>

lemma mask_numerals:
  "(0xFF :: 'a::len word) = mask 8" "(0xFFFF :: 'a::len word) = mask 16"
  "(0xFF00 :: 'a::len word) = push_bit 8 (mask 8)"
  "(0xFFFF0000 :: 'a::len word) = push_bit 16 (mask 16)"
  by (simp_all add: mask_eq_exp_minus_1 push_bit_eq_mult)

lemma LSB_ucast: "LSB w = ucast w"
  unfolding LSB_def mask_numerals by (rule bit_word_eqI) (auto simp: bit_simps dest: bit_imp_le_length)

lemma MSB_ucast: "MSB w = ucast (drop_bit 8 w)"
  unfolding MSB_def mask_numerals by (rule bit_word_eqI) (auto simp: bit_simps dest: bit_imp_le_length)

lemma LSW_ucast: "LSW w = ucast w"
  unfolding LSW_def mask_numerals by (rule bit_word_eqI) (auto simp: bit_simps dest: bit_imp_le_length)

lemma MSW_ucast: "MSW w = ucast (drop_bit 16 w)"
  unfolding MSW_def mask_numerals by (rule bit_word_eqI) (auto simp: bit_simps dest: bit_imp_le_length)

text \<open>Joining the bytes of a word gives the word back, and the other way round.\<close>

lemma be16_MSB_LSB [byte_simps]: "be16 (MSB w) (LSB w) = (w :: u16)"
  unfolding be16_def MSB_ucast LSB_ucast by (rule bit_word_eqI) (auto simp: bit_simps)

lemma be16_MSB_LSB_wide [byte_simps]: "be16 (MSB w) (LSB w) = LSW (w :: u32)"
  unfolding be16_def MSB_ucast LSB_ucast LSW_ucast by (rule bit_word_eqI) (auto simp: bit_simps)

lemma MSB_be16 [byte_simps]: "MSB (be16 a b) = a"
  unfolding be16_def MSB_ucast by (rule bit_word_eqI) (auto simp: bit_simps dest: bit_imp_le_length)

lemma LSB_be16 [byte_simps]: "LSB (be16 a b) = b"
  unfolding be16_def LSB_ucast by (rule bit_word_eqI) (auto simp: bit_simps dest: bit_imp_le_length)

lemma be32_bytes [byte_simps]:
  "be32 (MSB (MSW w)) (LSB (MSW w)) (MSB (LSW w)) (LSB (LSW w)) = (w :: u32)"
  unfolding be32_def MSB_ucast LSB_ucast MSW_ucast LSW_ucast
  by (rule bit_word_eqI) (auto simp: bit_simps)

text \<open>Some writers spell the bytes with shifts instead of the macros.\<close>

lemma shift_bytes [byte_simps]:
  fixes w :: u32
  shows "ucast (drop_bit 24 w AND 0xFF) = MSB (MSW w)"
    and "ucast (drop_bit 16 w AND 0xFF) = LSB (MSW w)"
    and "ucast (drop_bit 8 w AND 0xFF) = MSB (LSW w)"
    and "ucast (w AND 0xFF) = LSB (LSW w)"
  unfolding MSB_ucast LSB_ucast MSW_ucast LSW_ucast mask_numerals
  by (rule bit_word_eqI; auto simp: bit_simps)+

lemma unat_LSW: "unat (LSW (w :: u32)) = unat w mod 65536"
  unfolding LSW_ucast by (simp add: unsigned_ucast_eq take_bit_eq_mod)

section \<open>Arrays\<close>

text \<open>
  \<open>memcpy_at buf off bs\<close> copies \<open>bs\<close> into the array \<open>buf\<close> at index \<open>off\<close>;
  \<open>None\<close> when the copy would leave the array. \<open>memcpy_from src off n\<close> reads \<open>n\<close> bytes
  from index \<open>off\<close>, \<open>None\<close> when that reads past the end.
\<close>

definition memcpy_at :: "bytes \<Rightarrow> nat \<Rightarrow> bytes \<Rightarrow> bytes option" where
  "memcpy_at buf off bs =
     (if off + length bs \<le> length buf
      then Some (take off buf @ bs @ drop (off + length bs) buf) else None)"

definition memcpy_from :: "bytes \<Rightarrow> nat \<Rightarrow> nat \<Rightarrow> bytes option" where
  "memcpy_from src off n =
     (if off + n \<le> length src then Some (take n (drop off src)) else None)"

text \<open>
  An automatic array of the sources starts with whatever the stack holds: \<open>junk\<close>, an argument
  of the definitions that declare one. \<open>memcpy\<close> copies between two arrays, \<open>memset_rest\<close>
  clears an array from an index on. \<open>strlen\<close> has no value on an array without a terminator.
\<close>

definition local_array :: "nat \<Rightarrow> bytes \<Rightarrow> bytes" where
  "local_array n junk = take n (junk @ replicate n 0)"

definition memcpy :: "bytes \<Rightarrow> nat \<Rightarrow> bytes \<Rightarrow> nat \<Rightarrow> nat \<Rightarrow> bytes option" where
  "memcpy dst off src start n = Option.bind (memcpy_from src start n) (memcpy_at dst off)"

definition memset_rest :: "bytes \<Rightarrow> nat \<Rightarrow> bytes option" where
  "memset_rest buf off =
     (if off \<le> length buf then Some (take off buf @ replicate (length buf - off) 0) else None)"

definition strlen :: "bytes \<Rightarrow> nat option" where
  "strlen s = (if 0 \<in> set s then Some (length (takeWhile (\<lambda>b. b \<noteq> 0) s)) else None)"

lemma local_array_length [simp]: "length (local_array n junk) = n"
  by (simp add: local_array_def)

lemma memcpy_some_iff:
  "memcpy dst off src start n \<noteq> None \<longleftrightarrow> start + n \<le> length src \<and> off + n \<le> length dst"
  by (auto simp: memcpy_def memcpy_from_def memcpy_at_def)

lemma memcpy_length: "memcpy dst off src start n = Some dst' \<Longrightarrow> length dst' = length dst"
  by (auto simp: memcpy_def memcpy_from_def memcpy_at_def split: bind_splits if_splits)

lemma memcpy_eq:
  "start + n \<le> length src \<Longrightarrow> off + n \<le> length dst \<Longrightarrow>
     memcpy dst off src start n
       = Some (take off dst @ take n (drop start src) @ drop (off + n) dst)"
  by (simp add: memcpy_def memcpy_from_def memcpy_at_def)

lemma strlen_bound:
  assumes "strlen s = Some n"
  shows "n < length s" "take n s = takeWhile (\<lambda>b. b \<noteq> 0) s"
proof -
  have n: "n = length (takeWhile (\<lambda>b. b \<noteq> 0) s)" and zero: "0 \<in> set s"
    using assms by (auto simp: strlen_def split: if_splits)
  have "takeWhile (\<lambda>b. b \<noteq> 0) s \<noteq> s" using zero by (auto simp: takeWhile_eq_all_conv)
  then show "n < length s"
    using n length_takeWhile_le [of "\<lambda>b. b \<noteq> 0" s] takeWhile_eq_take [of "\<lambda>b. b \<noteq> 0" s]
    by (metis le_neq_implies_less take_all)
  show "take n s = takeWhile (\<lambda>b. b \<noteq> 0) s" unfolding n by (rule takeWhile_eq_take [symmetric])
qed

lemma memcpy_at_length: "memcpy_at buf off bs = Some buf' \<Longrightarrow> length buf' = length buf"
  by (auto simp: memcpy_at_def split: if_splits)

lemma memcpy_from_length: "memcpy_from src off n = Some bs \<Longrightarrow> length bs = n"
  by (auto simp: memcpy_from_def split: if_splits)

lemma memcpy_at_read_back:
  "memcpy_at buf off bs = Some buf' \<Longrightarrow> take (length bs) (drop off buf') = bs"
  by (auto simp: memcpy_at_def split: if_splits)

lemma memcpy_at_split:
  "length pre = off \<Longrightarrow> length mid = length bs \<Longrightarrow>
     memcpy_at (pre @ mid @ post) off bs = Some (pre @ bs @ post)"
  by (auto simp: memcpy_at_def)

lemma xor_cancel:
  "x XOR c = y XOR c \<longleftrightarrow> x = (y :: 'a::len word)" "c XOR x = c XOR y \<longleftrightarrow> x = y"
  by (metis xor.assoc xor_self_eq xor.right_neutral, metis xor.assoc xor_self_eq xor.left_neutral)

section \<open>Text\<close>

text \<open>
  What \<^verbatim>\<open>printf\<close> makes of a number: \<open>hex_pad k\<close> is \<^verbatim>\<open>%0kX\<close> of a number that has at most \<open>k\<close>
  digits, \<open>to_hex\<close> is \<^verbatim>\<open>%X\<close>, \<open>to_dec\<close> is \<^verbatim>\<open>%u\<close>.
\<close>

definition hex_digit :: "nat \<Rightarrow> char" where
  "hex_digit n = (if n < 10 then char_of (48 + n) else char_of (55 + n))"

primrec hex_pad :: "nat \<Rightarrow> nat \<Rightarrow> string" where
  "hex_pad 0 n = []"
| "hex_pad (Suc k) n = hex_pad k (n div 16) @ [hex_digit (n mod 16)]"

fun to_hex :: "nat \<Rightarrow> string" where
  "to_hex n = (if n < 16 then [hex_digit n] else to_hex (n div 16) @ [hex_digit (n mod 16)])"

fun to_dec :: "nat \<Rightarrow> string" where
  "to_dec n = (if n < 10 then [hex_digit n] else to_dec (n div 10) @ [hex_digit (n mod 10)])"

declare to_hex.simps [simp del] to_dec.simps [simp del]

abbreviation newline :: char where "newline \<equiv> CHR 0x0A"
abbreviation tab :: char where "tab \<equiv> CHR 0x09"

lemma hex_pad_length [simp]: "length (hex_pad k n) = k"
  by (induction k arbitrary: n) simp_all

end
