(* ===== verification/CableLayer.thy ===== *)
theory CableLayer
  imports TilibsPrelude
begin

text \<open>
  The cable layer of libticables (\<^verbatim>\<open>link_xxx.cc\<close>, with the event functions of
  \<^verbatim>\<open>internal.h\<close>): every public cable operation checks the handle's flags, fires
  events, takes the busy flag around the driver's function and releases it. A driver
  (\<^verbatim>\<open>CableFncts\<close>) is a record of optional functions over its own device state \<open>'d\<close>.
  The event hook belongs to the application: it is a function from the event counter and
  the event to a return code. The data log, the transfer clock and the optional
  driver-specific settings are not part of the model.
\<close>

section \<open>State\<close>

datatype cable_model =
    CABLE_NUL | CABLE_GRY | CABLE_BLK | CABLE_PAR | CABLE_SLV | CABLE_USB
  | CABLE_VTI | CABLE_TIE | CABLE_ILP | CABLE_DEV | CABLE_TCPC | CABLE_TCPS

datatype cable_event_type =
    CABLE_EVENT_TYPE_UNKNOWN
  | CABLE_EVENT_TYPE_BEFORE_OPEN | CABLE_EVENT_TYPE_AFTER_OPEN
  | CABLE_EVENT_TYPE_BEFORE_CLOSE | CABLE_EVENT_TYPE_AFTER_CLOSE
  | CABLE_EVENT_TYPE_BEFORE_RESET | CABLE_EVENT_TYPE_AFTER_RESET
  | CABLE_EVENT_TYPE_BEFORE_SEND | CABLE_EVENT_TYPE_AFTER_SEND
  | CABLE_EVENT_TYPE_BEFORE_RECV | CABLE_EVENT_TYPE_AFTER_RECV
  | CABLE_EVENT_TYPE_BEFORE_GENERIC_OPERATION | CABLE_EVENT_TYPE_AFTER_GENERIC_OPERATION
  | CABLE_EVENT_TYPE_USER

datatype cable_fnct =
    CABLE_FNCT_PREPARE | CABLE_FNCT_OPEN | CABLE_FNCT_CLOSE | CABLE_FNCT_RESET
  | CABLE_FNCT_PROBE | CABLE_FNCT_SEND | CABLE_FNCT_RECV | CABLE_FNCT_CHECK
  | CABLE_FNCT_SET_D0 | CABLE_FNCT_SET_D1 | CABLE_FNCT_GET_D0 | CABLE_FNCT_GET_D1
  | CABLE_FNCT_TIMEOUT | CABLE_FNCT_SET_RAW | CABLE_FNCT_GET_RAW | CABLE_FNCT_GET_DEVICE_INFO
  | CABLE_FNCT_LAST

text \<open>What a cable knows of the device at its other end.\<close>

datatype cable_family =
    CABLE_FAMILY_UNKNOWN | CABLE_FAMILY_DBUS | CABLE_FAMILY_USB_TI8X | CABLE_FAMILY_USB_TI9X
  | CABLE_FAMILY_USB_NSPIRE | CABLE_FAMILY_USB_NSPIRE_CRADLE | CABLE_FAMILY_USB_NSPIRE_CXII
  | CABLE_FAMILY_USB_LABPRO | CABLE_FAMILY_USB_EASYTEMP_GOTEMP | CABLE_FAMILY_USB_EASYLINK_GOLINK
  | CABLE_FAMILY_USB_CBR2_GOMOTION | CABLE_FAMILY_USB_GODIRECT | CABLE_FAMILY_USB_EVO

datatype cable_variant =
    CABLE_VARIANT_UNKNOWN | CABLE_VARIANT_TIGLUSB | CABLE_VARIANT_TI84P | CABLE_VARIANT_TI84PSE
  | CABLE_VARIANT_TI84PCSE | CABLE_VARIANT_TI84PCE | CABLE_VARIANT_TI83PCE | CABLE_VARIANT_TI82A
  | CABLE_VARIANT_TI89TM | CABLE_VARIANT_NSPIRE | CABLE_VARIANT_TI84PT | CABLE_VARIANT_NSPIRE_CAS
  | CABLE_VARIANT_NSPIRE_CRADLE | CABLE_VARIANT_NSPIRE_CXII | CABLE_VARIANT_TI82AEP
  | CABLE_VARIANT_LABPRO | CABLE_VARIANT_EASYTEMP_GOTEMP | CABLE_VARIANT_EASYLINK_GOLINK
  | CABLE_VARIANT_CBR2_GOMOTION | CABLE_VARIANT_GODIRECT | CABLE_VARIANT_TI84EVO
  | CABLE_VARIANT_TI84EVOT | CABLE_VARIANT_TI83EVO

record cable_device_info =
  di_family :: cable_family
  di_variant :: cable_variant

datatype cable_payload =
    NoPayload | DataPayload "bytes option" | IntPayload int | InfoPayload cable_device_info

record cable_event =
  cev_type :: cable_event_type
  cev_retval :: ret
  cev_open :: bool
  cev_operation :: cable_fnct
  cev_data :: cable_payload

text \<open>
  A driver. A missing function is \<open>None\<close>, as the null pointer is in the source. Receiving
  takes the number of bytes wanted and returns the bytes placed in the caller's buffer.
\<close>

record 'd cable_fncts =
  cf_need_open :: bool
  cf_prepare :: "('d \<Rightarrow> ret \<times> 'd) option"
  cf_open :: "('d \<Rightarrow> ret \<times> 'd) option"
  cf_close :: "('d \<Rightarrow> ret \<times> 'd) option"
  cf_reset :: "('d \<Rightarrow> ret \<times> 'd) option"
  cf_probe :: "('d \<Rightarrow> ret \<times> 'd) option"
  cf_send :: "('d \<Rightarrow> bytes \<Rightarrow> ret \<times> 'd) option"
  cf_recv :: "('d \<Rightarrow> nat \<Rightarrow> ret \<times> bytes \<times> 'd) option"
  cf_check :: "('d \<Rightarrow> ret \<times> int \<times> 'd) option"
  cf_set_d0 :: "('d \<Rightarrow> int \<Rightarrow> ret \<times> 'd) option"
  cf_set_d1 :: "('d \<Rightarrow> int \<Rightarrow> ret \<times> 'd) option"
  cf_get_d0 :: "('d \<Rightarrow> ret \<times> 'd) option"
  cf_get_d1 :: "('d \<Rightarrow> ret \<times> 'd) option"
  cf_set_raw :: "('d \<Rightarrow> int \<Rightarrow> ret \<times> 'd) option"
  cf_get_raw :: "('d \<Rightarrow> ret \<times> int \<times> 'd) option"
  cf_timeout :: "('d \<Rightarrow> ret \<times> 'd) option"
  cf_get_device_info :: "('d \<Rightarrow> ret \<times> cable_device_info \<times> 'd) option"

text \<open>
  The driver keeps its part of the handle (\<^verbatim>\<open>device\<close>, \<^verbatim>\<open>address\<close>, \<^verbatim>\<open>priv\<close>) in \<open>'d\<close>;
  \<open>ce_free_device\<close> and \<open>ce_free_priv2\<close> are the effect on it of releasing and clearing the
  two pointers that the cable layer itself frees.
\<close>

record 'd cable_env =
  ce_fncts :: "'d cable_fncts"
  ce_free_device :: "'d \<Rightarrow> 'd"
  ce_free_priv2 :: "'d \<Rightarrow> 'd"
  ce_hook :: "(u32 \<Rightarrow> cable_event \<Rightarrow> ret) option"

record 'd cable_handle =
  cb_model :: cable_model
  cb_dev :: 'd
  cb_open :: bool
  cb_busy :: bool
  cb_count :: int
  cb_event_count :: u32
  cb_timeout :: u32

section \<open>Events\<close>

definition ticables_event_fill_header ::
    "'d cable_handle \<Rightarrow> cable_event_type \<Rightarrow> ret \<Rightarrow> cable_fnct \<Rightarrow> cable_event" where
  "ticables_event_fill_header h type retval operation =
     \<lparr>cev_type = type, cev_retval = retval, cev_open = cb_open h,
      cev_operation = operation, cev_data = NoPayload\<rparr>"

definition ticables_event_fill_data :: "cable_event \<Rightarrow> bytes option \<Rightarrow> cable_event" where
  "ticables_event_fill_data ev data = ev\<lparr>cev_data := DataPayload data\<rparr>"

text \<open>Without a hook an event's verdict is its own return value.\<close>

definition ticables_event_send ::
    "('d, 'z) cable_env_scheme \<Rightarrow> 'd cable_handle \<Rightarrow> cable_event \<Rightarrow> ret \<times> 'd cable_handle" where
  "ticables_event_send E h ev =
     (case ce_hook E of
        None \<Rightarrow> (cev_retval ev, h)
      | Some hook \<Rightarrow>
          (let h = h\<lparr>cb_event_count := cb_event_count h + 1\<rparr>
           in (hook (cb_event_count h) ev, h)))"

definition ticables_event_send_simple_generic ::
    "('d, 'z) cable_env_scheme \<Rightarrow> 'd cable_handle \<Rightarrow> cable_event_type \<Rightarrow> ret \<Rightarrow> cable_fnct
       \<Rightarrow> ret \<times> 'd cable_handle" where
  "ticables_event_send_simple_generic E h type retval operation =
     ticables_event_send E h (ticables_event_fill_header h type retval operation)"

definition ticables_event_send_simple ::
    "('d, 'z) cable_env_scheme \<Rightarrow> 'd cable_handle \<Rightarrow> cable_event_type \<Rightarrow> ret
       \<Rightarrow> ret \<times> 'd cable_handle" where
  "ticables_event_send_simple E h type retval =
     ticables_event_send_simple_generic E h type retval CABLE_FNCT_LAST"

text \<open>
  The calling sequence shared by the operations: the event before, the driver's function
  unless the hook vetoes it, the event after with the function's result. \<open>x0\<close> is the value
  of the caller's output variable, which the driver may replace; \<open>pl\<close> gives the payload of
  the event after from it.
\<close>

definition driver_call ::
    "('d, 'z) cable_env_scheme \<Rightarrow> cable_fnct \<Rightarrow> cable_payload \<Rightarrow> ('x \<Rightarrow> cable_payload) \<Rightarrow> 'x
       \<Rightarrow> ('d \<Rightarrow> ret \<times> 'x \<times> 'd) \<Rightarrow> 'd cable_handle \<Rightarrow> ret \<times> 'x \<times> 'd cable_handle" where
  "driver_call E op pl0 pl x0 f h =
     (let (r, h) = ticables_event_send E h
            ((ticables_event_fill_header h CABLE_EVENT_TYPE_BEFORE_GENERIC_OPERATION None op)
               \<lparr>cev_data := pl0\<rparr>);
          (r, x, h) = (case r of
             Some e \<Rightarrow> (Some e, x0, h)
           | None \<Rightarrow> (let (r, x, d) = f (cb_dev h) in (r, x, h\<lparr>cb_dev := d\<rparr>)));
          (r, h) = ticables_event_send E h
            ((ticables_event_fill_header h CABLE_EVENT_TYPE_AFTER_GENERIC_OPERATION r op)
               \<lparr>cev_data := pl x\<rparr>)
      in (r, x, h))"

text \<open>The same for a function that exchanges no value.\<close>

definition driver_call_simple ::
    "('d, 'z) cable_env_scheme \<Rightarrow> cable_fnct \<Rightarrow> cable_payload \<Rightarrow> ('d \<Rightarrow> ret \<times> 'd)
       \<Rightarrow> 'd cable_handle \<Rightarrow> ret \<times> 'd cable_handle" where
  "driver_call_simple E op pl f h =
     (let (r, _, h) = driver_call E op pl (\<lambda>_. pl) () (\<lambda>d. let (r, d) = f d in (r, (), d)) h
      in (r, h))"

section \<open>Operations\<close>

definition ticables_cable_open ::
    "('d, 'z) cable_env_scheme \<Rightarrow> 'd cable_handle \<Rightarrow> ret \<times> 'd cable_handle" where
  "ticables_cable_open E h =
     (let (r, h) = ticables_event_send_simple E h CABLE_EVENT_TYPE_BEFORE_OPEN None;
          (r, h) = (case r of Some e \<Rightarrow> (Some e, h) | None \<Rightarrow>
            (let (r, h) = (case cf_prepare (ce_fncts E) of
                   None \<Rightarrow> (None, h)
                 | Some f \<Rightarrow> driver_call_simple E CABLE_FNCT_PREPARE NoPayload f h)
             in (case r of Some e \<Rightarrow> (Some e, h) | None \<Rightarrow>
               (let (r, h) = (case cf_open (ce_fncts E) of
                      None \<Rightarrow> (None, h)
                    | Some f \<Rightarrow> driver_call_simple E CABLE_FNCT_OPEN NoPayload f h)
                in (case r of Some e \<Rightarrow> (Some e, h) | None \<Rightarrow> (None, h\<lparr>cb_open := True\<rparr>))))))
      in ticables_event_send_simple E h CABLE_EVENT_TYPE_AFTER_OPEN r)"

definition ticables_cable_close ::
    "('d, 'z) cable_env_scheme \<Rightarrow> 'd cable_handle \<Rightarrow> ret \<times> 'd cable_handle" where
  "ticables_cable_close E h =
     (let (r, h) = ticables_event_send_simple E h CABLE_EVENT_TYPE_BEFORE_CLOSE None;
          (r, h) = (case r of Some e \<Rightarrow> (Some e, h) | None \<Rightarrow>
            (if cb_open h then
               (let (r, h) = (case cf_close (ce_fncts E) of
                      None \<Rightarrow> (None, h)
                    | Some f \<Rightarrow> driver_call_simple E CABLE_FNCT_CLOSE NoPayload f h)
                in (r, h\<lparr>cb_open := False, cb_dev := ce_free_device E (cb_dev h)\<rparr>))
             else (None, h)))
      in ticables_event_send_simple E h CABLE_EVENT_TYPE_AFTER_CLOSE r)"

text \<open>
  The operations on an open cable start with the same two guards; \<open>guarded\<close> is the pair of
  macros \<^verbatim>\<open>RETURN_IF_HANDLE_NOT_OPEN\<close> and \<^verbatim>\<open>RETURN_IF_HANDLE_BUSY\<close>.
\<close>

definition guarded :: "'d cable_handle \<Rightarrow> ret \<times> 'd cable_handle \<Rightarrow> ret \<times> 'd cable_handle" where
  "guarded h k =
     (if \<not> cb_open h then (Some ERR_NOT_OPEN, h)
      else if cb_busy h then (Some ERR_BUSY, h) else k)"

definition ticables_cable_reset ::
    "('d, 'z) cable_env_scheme \<Rightarrow> 'd cable_handle \<Rightarrow> ret \<times> 'd cable_handle" where
  "ticables_cable_reset E h = guarded h
     (let (r, h) = ticables_event_send_simple E h CABLE_EVENT_TYPE_BEFORE_RESET None;
          (r, h) = (case r of Some e \<Rightarrow> (Some e, h) | None \<Rightarrow>
            (let h = h\<lparr>cb_busy := True\<rparr>;
                 (r, h) = (case cf_reset (ce_fncts E) of
                    None \<Rightarrow> (None, h)
                  | Some f \<Rightarrow> driver_call_simple E CABLE_FNCT_RESET NoPayload f h)
             in (r, h\<lparr>cb_busy := False\<rparr>)))
      in ticables_event_send_simple E h CABLE_EVENT_TYPE_AFTER_RESET r)"

text \<open>
  \<open>result\<close> is the caller's \<open>*result\<close>, \<open>None\<close> when it passes the null pointer; the new
  value is part of the outcome. Closing after a probe that opened the cable replaces the
  probe's return code by the one of the close.
\<close>

definition ticables_cable_probe ::
    "('d, 'z) cable_env_scheme \<Rightarrow> bool option \<Rightarrow> 'd cable_handle
       \<Rightarrow> ret \<times> bool option \<times> 'd cable_handle" where
  "ticables_cable_probe E result h =
     (let opened = cb_open h; need_open = cf_need_open (ce_fncts E);
          (r, h) = (if \<not> opened \<and> need_open then ticables_cable_open E h
                    else if \<not> opened \<and> \<not> need_open then
                      (case cf_prepare (ce_fncts E) of
                         None \<Rightarrow> (None, h)
                       | Some f \<Rightarrow> driver_call_simple E CABLE_FNCT_PREPARE NoPayload f h)
                    else (None, h))
      in (case r of Some e \<Rightarrow> (Some e, result, h) | None \<Rightarrow>
           (case cf_probe (ce_fncts E) of
              None \<Rightarrow> (None, result, h)
            | Some f \<Rightarrow>
                (let (r, h) = driver_call_simple E CABLE_FNCT_PROBE NoPayload f h;
                     result = map_option (\<lambda>_. r = None) result
                 in (if \<not> opened \<and> need_open then
                       (let (r, h) = ticables_cable_close E h in (r, result, h))
                     else if \<not> opened \<and> \<not> need_open then
                       (r, result, h\<lparr>cb_dev := ce_free_priv2 E (ce_free_device E (cb_dev h))\<rparr>)
                     else (r, result, h))))))"

definition ticables_cable_send ::
    "('d, 'z) cable_env_scheme \<Rightarrow> bytes option \<Rightarrow> 'd cable_handle \<Rightarrow> ret \<times> 'd cable_handle" where
  "ticables_cable_send E data h = guarded h
     (let (r, h) = ticables_event_send E h (ticables_event_fill_data
            (ticables_event_fill_header h CABLE_EVENT_TYPE_BEFORE_SEND None CABLE_FNCT_LAST) data);
          (r, h) = (case r of Some e \<Rightarrow> (Some e, h) | None \<Rightarrow>
            (let h = h\<lparr>cb_busy := True\<rparr>;
                 (r, h) = (case data of
                    None \<Rightarrow> (None, h)
                  | Some bs \<Rightarrow>
                      (let h = h\<lparr>cb_count := cb_count h + int (length bs)\<rparr>
                       in (case cf_send (ce_fncts E) of
                             None \<Rightarrow> (None, h)
                           | Some f \<Rightarrow> driver_call_simple E CABLE_FNCT_SEND (DataPayload data)
                                        (\<lambda>d. f d bs) h)))
             in (r, h\<lparr>cb_busy := False\<rparr>)))
      in ticables_event_send E h (ticables_event_fill_data
            (ticables_event_fill_header h CABLE_EVENT_TYPE_AFTER_SEND r CABLE_FNCT_LAST) data))"

text \<open>
  \<open>ticables_cable_recv E n h\<close> asks for \<open>n\<close> bytes and returns the bytes the driver placed in
  the buffer (none when the driver is not reached). A null buffer does not occur: the
  callers pass the address of an array.
\<close>

definition ticables_cable_recv ::
    "('d, 'z) cable_env_scheme \<Rightarrow> nat \<Rightarrow> 'd cable_handle \<Rightarrow> ret \<times> bytes \<times> 'd cable_handle" where
  "ticables_cable_recv E n h =
     (if \<not> cb_open h then (Some ERR_NOT_OPEN, [], h)
      else if cb_busy h then (Some ERR_BUSY, [], h)
      else
        (let (r, h) = ticables_event_send E h (ticables_event_fill_data
               (ticables_event_fill_header h CABLE_EVENT_TYPE_BEFORE_RECV None CABLE_FNCT_LAST)
               (Some []));
             (r, bs, h) = (case r of Some e \<Rightarrow> (Some e, [], h) | None \<Rightarrow>
               (let h = h\<lparr>cb_busy := True\<rparr>;
                    h = h\<lparr>cb_count := cb_count h + int n\<rparr>;
                    (r, bs, h) = (case cf_recv (ce_fncts E) of
                       None \<Rightarrow> (None, [], h)
                     | Some f \<Rightarrow> driver_call E CABLE_FNCT_RECV (DataPayload (Some []))
                                  (\<lambda>bs. DataPayload (Some bs)) [] (\<lambda>d. f d n) h)
                in (r, bs, h\<lparr>cb_busy := False\<rparr>)));
             (r, h) = ticables_event_send E h (ticables_event_fill_data
               (ticables_event_fill_header h CABLE_EVENT_TYPE_AFTER_RECV r CABLE_FNCT_LAST)
               (Some bs))
         in (r, bs, h)))"

text \<open>Taking and releasing the busy flag around one driver call.\<close>

definition busy_call :: "('d cable_handle \<Rightarrow> ret \<times> 'd cable_handle) \<Rightarrow> 'd cable_handle \<Rightarrow> ret \<times> 'd cable_handle" where
  "busy_call f h = (let (r, h) = f (h\<lparr>cb_busy := True\<rparr>) in (r, h\<lparr>cb_busy := False\<rparr>))"

definition ticables_cable_set_d0 ::
    "('d, 'z) cable_env_scheme \<Rightarrow> int \<Rightarrow> 'd cable_handle \<Rightarrow> ret \<times> 'd cable_handle" where
  "ticables_cable_set_d0 E state h = guarded h (busy_call (\<lambda>h.
     (case cf_set_d0 (ce_fncts E) of None \<Rightarrow> (None, h)
      | Some f \<Rightarrow> driver_call_simple E CABLE_FNCT_SET_D0 (IntPayload state) (\<lambda>d. f d state) h)) h)"

definition ticables_cable_set_d1 ::
    "('d, 'z) cable_env_scheme \<Rightarrow> int \<Rightarrow> 'd cable_handle \<Rightarrow> ret \<times> 'd cable_handle" where
  "ticables_cable_set_d1 E state h = guarded h (busy_call (\<lambda>h.
     (case cf_set_d1 (ce_fncts E) of None \<Rightarrow> (None, h)
      | Some f \<Rightarrow> driver_call_simple E CABLE_FNCT_SET_D1 (IntPayload state) (\<lambda>d. f d state) h)) h)"

text \<open>The level of a wire is returned as the return code, so \<open>ERR_OTHER 1\<close> is a high wire.\<close>

definition ticables_cable_get_d0 ::
    "('d, 'z) cable_env_scheme \<Rightarrow> 'd cable_handle \<Rightarrow> ret \<times> 'd cable_handle" where
  "ticables_cable_get_d0 E h = guarded h (busy_call (\<lambda>h.
     (case cf_get_d0 (ce_fncts E) of None \<Rightarrow> (None, h)
      | Some f \<Rightarrow> driver_call_simple E CABLE_FNCT_GET_D0 NoPayload f h)) h)"

definition ticables_cable_get_d1 ::
    "('d, 'z) cable_env_scheme \<Rightarrow> 'd cable_handle \<Rightarrow> ret \<times> 'd cable_handle" where
  "ticables_cable_get_d1 E h = guarded h (busy_call (\<lambda>h.
     (case cf_get_d1 (ce_fncts E) of None \<Rightarrow> (None, h)
      | Some f \<Rightarrow> driver_call_simple E CABLE_FNCT_GET_D1 NoPayload f h)) h)"

definition ticables_cable_set_raw ::
    "('d, 'z) cable_env_scheme \<Rightarrow> int \<Rightarrow> 'd cable_handle \<Rightarrow> ret \<times> 'd cable_handle" where
  "ticables_cable_set_raw E state h = guarded h
     (case cf_set_raw (ce_fncts E) of
        None \<Rightarrow> (Some ERR_RAW_IO_UNSUPPORTED, h)
      | Some f \<Rightarrow> busy_call (driver_call_simple E CABLE_FNCT_SET_RAW (IntPayload state)
                    (\<lambda>d. f d state)) h)"

definition ticables_cable_get_raw ::
    "('d, 'z) cable_env_scheme \<Rightarrow> int \<Rightarrow> 'd cable_handle \<Rightarrow> ret \<times> int \<times> 'd cable_handle" where
  "ticables_cable_get_raw E state h =
     (if \<not> cb_open h then (Some ERR_NOT_OPEN, state, h)
      else if cb_busy h then (Some ERR_BUSY, state, h)
      else (case cf_get_raw (ce_fncts E) of
              None \<Rightarrow> (Some ERR_RAW_IO_UNSUPPORTED, state, h)
            | Some f \<Rightarrow>
                (let (r, state, h) = driver_call E CABLE_FNCT_GET_RAW (IntPayload 0) IntPayload
                       state f (h\<lparr>cb_busy := True\<rparr>)
                 in (r, state, h\<lparr>cb_busy := False\<rparr>))))"

text \<open>\<open>status\<close> is the caller's variable; a missing \<open>check\<close> function leaves it alone.\<close>

definition ticables_cable_check ::
    "('d, 'z) cable_env_scheme \<Rightarrow> int option \<Rightarrow> 'd cable_handle \<Rightarrow> ret \<times> int option \<times> 'd cable_handle" where
  "ticables_cable_check E status h =
     (if \<not> cb_open h then (Some ERR_NOT_OPEN, status, h)
      else if cb_busy h then (Some ERR_BUSY, status, h)
      else
        (let h = h\<lparr>cb_busy := True\<rparr>;
             (r, status, h) = (case (status, cf_check (ce_fncts E)) of
                (Some s, Some f) \<Rightarrow>
                  (let (r, s, h) = driver_call E CABLE_FNCT_CHECK (IntPayload 0) IntPayload s f h
                   in (r, Some s, h))
              | _ \<Rightarrow> (None, status, h))
         in (r, status, h\<lparr>cb_busy := False\<rparr>)))"

definition ticables_progress_reset :: "'d cable_handle \<Rightarrow> ret \<times> 'd cable_handle" where
  "ticables_progress_reset h = (None, h\<lparr>cb_count := 0\<rparr>)"

definition ticables_cable_put ::
    "('d, 'z) cable_env_scheme \<Rightarrow> u8 \<Rightarrow> 'd cable_handle \<Rightarrow> ret \<times> 'd cable_handle" where
  "ticables_cable_put E data h = ticables_cable_send E (Some [data]) h"

definition ticables_cable_get ::
    "('d, 'z) cable_env_scheme \<Rightarrow> 'd cable_handle \<Rightarrow> ret \<times> bytes \<times> 'd cable_handle" where
  "ticables_cable_get E h = ticables_cable_recv E 1 h"

text \<open>\<open>info\<close> is the caller's variable; a driver without the function reports the traditional protocol.\<close>

definition ticables_cable_get_device_info ::
    "('d, 'z) cable_env_scheme \<Rightarrow> cable_device_info \<Rightarrow> 'd cable_handle
       \<Rightarrow> ret \<times> cable_device_info \<times> 'd cable_handle" where
  "ticables_cable_get_device_info E info h =
     (if \<not> cb_open h then (Some ERR_NOT_OPEN, info, h)
      else if cb_busy h then (Some ERR_BUSY, info, h)
      else
        (let h = h\<lparr>cb_busy := True\<rparr>;
             (r, info, h) = (case cf_get_device_info (ce_fncts E) of
                Some f \<Rightarrow> driver_call E CABLE_FNCT_GET_DEVICE_INFO (InfoPayload info) InfoPayload info f h
              | None \<Rightarrow> (None, \<lparr>di_family = CABLE_FAMILY_DBUS, di_variant = CABLE_VARIANT_UNKNOWN\<rparr>, h))
         in (r, info, h\<lparr>cb_busy := False\<rparr>)))"

text \<open>
  The timeout is stored before anything is checked. The value returned is the previous timeout,
  or a code in its place when the cable is closed (-1) or busy (\<^verbatim>\<open>ERR_BUSY\<close>, which is 1).
\<close>

definition ticables_options_set_timeout ::
    "('d, 'z) cable_env_scheme \<Rightarrow> u32 \<Rightarrow> 'd cable_handle \<Rightarrow> u32 \<times> 'd cable_handle" where
  "ticables_options_set_timeout E timeout h =
     (let old_timeout = cb_timeout h; h = h\<lparr>cb_timeout := timeout\<rparr>
      in if \<not> cb_open h then (-1, h)
         else if cb_busy h then (1, h)
         else
           (case cf_timeout (ce_fncts E) of
              None \<Rightarrow> (old_timeout, h)
            | Some f \<Rightarrow> (old_timeout, h\<lparr>cb_dev := snd (f (cb_dev h))\<rparr>)))"

definition ticables_get_timeout :: "'d cable_handle \<Rightarrow> u32" where
  "ticables_get_timeout h = cb_timeout h"

definition ticables_get_model :: "'d cable_handle \<Rightarrow> cable_model" where
  "ticables_get_model h = cb_model h"

section \<open>The flags of the handle\<close>

text \<open>Whatever hook and driver do, firing an event or calling a driver keeps both flags.\<close>

lemma event_send_flags:
  "ticables_event_send E h ev = (r, h') \<Longrightarrow>
     cb_open h' = cb_open h \<and> cb_busy h' = cb_busy h \<and> cb_dev h' = cb_dev h"
  by (auto simp: ticables_event_send_def Let_def split: option.splits)

lemma event_simple_flags:
  "ticables_event_send_simple E h ty r0 = (r, h') \<Longrightarrow>
     cb_open h' = cb_open h \<and> cb_busy h' = cb_busy h \<and> cb_dev h' = cb_dev h"
  by (auto simp: ticables_event_send_simple_def ticables_event_send_simple_generic_def
           dest: event_send_flags)

lemma driver_call_flags:
  "driver_call E op pl0 pl x0 f h = (r, x, h') \<Longrightarrow>
     cb_open h' = cb_open h \<and> cb_busy h' = cb_busy h"
  by (auto simp: driver_call_def Let_def split: prod.splits option.splits
           dest!: event_send_flags)

lemma driver_call_simple_flags:
  "driver_call_simple E op pl f h = (r, h') \<Longrightarrow>
     cb_open h' = cb_open h \<and> cb_busy h' = cb_busy h"
  by (auto simp: driver_call_simple_def split: prod.splits dest!: driver_call_flags)

lemmas cable_flags =
  event_send_flags event_simple_flags driver_call_flags driver_call_simple_flags

text \<open>Opening and closing decide the open flag and leave the busy flag alone.\<close>

lemma cable_open_flags:
  "ticables_cable_open E h = (r, h') \<Longrightarrow> cb_busy h' = cb_busy h"
  by (auto simp: ticables_cable_open_def Let_def split: prod.splits option.splits
           dest!: cable_flags)

lemma cable_close_flags:
  "ticables_cable_close E h = (r, h') \<Longrightarrow> cb_busy h' = cb_busy h"
  by (auto simp: ticables_cable_close_def Let_def
           split: prod.splits option.splits if_splits dest!: cable_flags)

lemma busy_call_flags:
  assumes "\<And>h r h'. f h = (r, h') \<Longrightarrow> cb_open h' = cb_open h"
  shows "busy_call f h = (r, h') \<Longrightarrow> \<not> cb_busy h' \<and> cb_open h' = cb_open h"
  using assms by (auto simp: busy_call_def split: prod.splits)

section \<open>Calls of the application\<close>

text \<open>
  The public operations as data, and one call executed on a handle. The values returned
  through pointers are dropped here; the operations above have them.
\<close>

datatype cable_call =
    Open | Close | Reset | Probe "bool option" | Send "bytes option" | Recv nat
  | Check "int option" | SetD0 int | SetD1 int | GetD0 | GetD1 | SetRaw int | GetRaw int
  | ProgressReset

fun cable_exec ::
    "('d, 'z) cable_env_scheme \<Rightarrow> cable_call \<Rightarrow> 'd cable_handle \<Rightarrow> ret \<times> 'd cable_handle" where
  "cable_exec E Open h = ticables_cable_open E h"
| "cable_exec E Close h = ticables_cable_close E h"
| "cable_exec E Reset h = ticables_cable_reset E h"
| "cable_exec E (Probe res) h = (let (r, _, h) = ticables_cable_probe E res h in (r, h))"
| "cable_exec E (Send data) h = ticables_cable_send E data h"
| "cable_exec E (Recv n) h = (let (r, _, h) = ticables_cable_recv E n h in (r, h))"
| "cable_exec E (Check st) h = (let (r, _, h) = ticables_cable_check E st h in (r, h))"
| "cable_exec E (SetD0 v) h = ticables_cable_set_d0 E v h"
| "cable_exec E (SetD1 v) h = ticables_cable_set_d1 E v h"
| "cable_exec E GetD0 h = ticables_cable_get_d0 E h"
| "cable_exec E GetD1 h = ticables_cable_get_d1 E h"
| "cable_exec E (SetRaw v) h = ticables_cable_set_raw E v h"
| "cable_exec E (GetRaw v) h = (let (r, _, h) = ticables_cable_get_raw E v h in (r, h))"
| "cable_exec E ProgressReset h = ticables_progress_reset h"

text \<open>The calls that need an open, idle cable.\<close>

fun needs_open :: "cable_call \<Rightarrow> bool" where
  "needs_open Open = False"
| "needs_open Close = False"
| "needs_open (Probe _) = False"
| "needs_open ProgressReset = False"
| "needs_open _ = True"

text \<open>A handle as \<^verbatim>\<open>ticables_handle_new\<close> leaves it, and the handles calls lead to.\<close>

definition fresh_cable :: "cable_model \<Rightarrow> 'd \<Rightarrow> 'd cable_handle" where
  "fresh_cable m d = \<lparr>cb_model = m, cb_dev = d, cb_open = False, cb_busy = False,
                      cb_count = 0, cb_event_count = 0, cb_timeout = 15\<rparr>"

inductive cable_reachable :: "('d, 'z) cable_env_scheme \<Rightarrow> 'd cable_handle \<Rightarrow> bool"
  for E where
  fresh: "cable_reachable E (fresh_cable m d)"
| call: "cable_reachable E h \<Longrightarrow> cable_exec E c h = (r, h') \<Longrightarrow> cable_reachable E h'"

lemma cable_exec_idle:
  "cable_exec E c h = (r, h') \<Longrightarrow> \<not> cb_busy h \<Longrightarrow> \<not> cb_busy h'"
proof (cases c)
  case (Probe res)
  then show "cable_exec E c h = (r, h') \<Longrightarrow> \<not> cb_busy h \<Longrightarrow> \<not> cb_busy h'"
    by (auto simp: ticables_cable_probe_def Let_def
             split: prod.splits option.splits if_splits
             dest!: cable_flags cable_open_flags cable_close_flags)
qed (auto simp: ticables_cable_reset_def ticables_cable_send_def ticables_cable_recv_def
        ticables_cable_check_def ticables_cable_set_d0_def ticables_cable_set_d1_def
        ticables_cable_get_d0_def ticables_cable_get_d1_def ticables_cable_set_raw_def
        ticables_cable_get_raw_def ticables_progress_reset_def
        guarded_def busy_call_def Let_def
      split: prod.splits option.splits if_splits
      dest!: cable_flags cable_open_flags cable_close_flags)

lemma cable_reachable_idle: "cable_reachable E h \<Longrightarrow> \<not> cb_busy h"
proof (induction rule: cable_reachable.induct)
  case (fresh m d)
  then show ?case by (simp add: fresh_cable_def)
next
  case (call h c r h')
  then show ?case by (blast dest: cable_exec_idle)
qed

section \<open>What the guards, the flags and the hook guarantee\<close>

text \<open>A guarded call that gets past its guards returns the open flag it found.\<close>

lemma guarded_call_flags:
  "cable_exec E c h = (r, h') \<Longrightarrow> needs_open c \<Longrightarrow> cb_open h' = cb_open h"
  by (cases c) (auto simp: ticables_cable_reset_def ticables_cable_send_def ticables_cable_recv_def
        ticables_cable_check_def ticables_cable_set_d0_def ticables_cable_set_d1_def
        ticables_cable_get_d0_def ticables_cable_get_d1_def ticables_cable_set_raw_def
        ticables_cable_get_raw_def guarded_def busy_call_def Let_def
      split: prod.splits option.splits if_splits dest!: cable_flags)

text \<open>Without a hook an event is its own verdict and a driver call is the driver's function.\<close>

lemma no_hook_simps:
  fixes E :: "('d, 'z) cable_env_scheme"
  assumes "ce_hook E = None"
  shows "ticables_event_send E h ev = (cev_retval ev, h)"
    and "ticables_event_send_simple E h ty r = (r, h)"
    and "driver_call E op pl0 pl x0 f h =
      (let (r, x, d) = f (cb_dev h) in (r, x, h\<lparr>cb_dev := d\<rparr>))"
    and "driver_call_simple E op p g h = (let (r, d) = g (cb_dev h) in (r, h\<lparr>cb_dev := d\<rparr>))"
proof -
  show ev: "ticables_event_send E h ev = (cev_retval ev, h)" for h ev
    using assms by (simp add: ticables_event_send_def)
  show "ticables_event_send_simple E h ty r = (r, h)"
    by (simp add: ticables_event_send_simple_def ticables_event_send_simple_generic_def ev
        ticables_event_fill_header_def)
  show dc: "driver_call E op pl0 pl x0 f h =
      (let (r, x, d) = f (cb_dev h) in (r, x, h\<lparr>cb_dev := d\<rparr>))"
    for pl0 and pl :: "'y \<Rightarrow> cable_payload" and x0 h
      and f :: "'d \<Rightarrow> ret \<times> 'y \<times> 'd"
    by (simp add: driver_call_def ev ticables_event_fill_header_def split_def Let_def)
  show "driver_call_simple E op p g h = (let (r, d) = g (cb_dev h) in (r, h\<lparr>cb_dev := d\<rparr>))"
    by (simp add: driver_call_simple_def dc split_def Let_def)
qed

lemma open_flag_no_hook:
  assumes "ce_hook E = None" "ticables_cable_open E h = (r, h')"
  shows "cb_open h' \<longleftrightarrow> cb_open h \<or> r = None"
  using assms(2)
  by (auto simp: ticables_cable_open_def no_hook_simps [OF assms(1)] Let_def
      split: prod.splits option.splits)

lemma close_flag_no_hook:
  "ce_hook E = None \<Longrightarrow> ticables_cable_close E h = (r, h') \<Longrightarrow> \<not> cb_open h'"
  by (auto simp: ticables_cable_close_def no_hook_simps Let_def split: prod.splits if_splits option.splits)

text \<open>
  The operations on an open cable are refused, and change nothing in the handle or in
  the driver, when the cable is closed (\<open>ERR_NOT_OPEN\<close>) or when it is busy (\<open>ERR_BUSY\<close>).
\<close>
theorem cable_guards:
  assumes "needs_open c" "\<not> cb_open h \<or> cb_busy h"
  shows "cable_exec E c h = (Some (if cb_open h then ERR_BUSY else ERR_NOT_OPEN), h)"
  using assms
  by (cases c) (auto simp: ticables_cable_reset_def ticables_cable_send_def
      ticables_cable_recv_def ticables_cable_check_def ticables_cable_set_d0_def
      ticables_cable_set_d1_def ticables_cable_get_d0_def ticables_cable_get_d1_def
      ticables_cable_set_raw_def ticables_cable_get_raw_def guarded_def)

text \<open>
  C30: Whatever the hook and the driver do, a handle is idle between two calls of the
  application (the busy flag taken inside a call is released on every path), and only
  opening, closing and probing change whether it is open.
\<close>
theorem cable_flags_between_calls:
  assumes "cable_reachable E h" "cable_exec E c h = (r, h')"
  shows "\<not> cb_busy h' \<and> (needs_open c \<or> c = ProgressReset \<longrightarrow> cb_open h' = cb_open h)"
  using cable_exec_idle [OF assms(2) cable_reachable_idle [OF assms(1)]]
    guarded_call_flags [OF assms(2)] assms(2)
  by (auto simp: ticables_progress_reset_def)

text \<open>
  Probing borrows the cable: with no hook installed the open flag afterwards is the one
  before, whether opening the cable for the probe, the driver's probe or closing the cable
  fails or not. The one exception is a driver that needs opening but has no probe function:
  the cable opened for it then stays open.
\<close>
theorem cable_probe_restores:
  assumes "ce_hook E = None" "ticables_cable_probe E result h = (r, result', h')"
  shows "cb_open h' \<longleftrightarrow> cb_open h
     \<or> (cf_need_open (ce_fncts E) \<and> cf_probe (ce_fncts E) = None \<and> r = None)"
proof -
  have open_fails: "ticables_cable_open E h = (Some e, h1) \<Longrightarrow> cb_open h1 = cb_open h" for e h1
    using open_flag_no_hook [OF assms(1)] by auto
  show ?thesis
    using assms(2) close_flag_no_hook [OF assms(1)] open_flag_no_hook [OF assms(1)]
    by (auto simp: ticables_cable_probe_def Let_def no_hook_simps [OF assms(1)]
        split: prod.splits option.splits if_splits dest: open_fails)
qed

text \<open>A driver that counts what it is asked to do, for concrete runs.\<close>

definition counting_fncts :: "bool \<Rightarrow> nat cable_fncts" where
  "counting_fncts need_open =
     \<lparr>cf_need_open = need_open, cf_prepare = None, cf_open = Some (\<lambda>d. (None, d + 1)),
      cf_close = Some (\<lambda>d. (None, d + 1)), cf_reset = None,
      cf_probe = Some (\<lambda>d. (Some ERR_READ_TIMEOUT, d + 1)), cf_send = None, cf_recv = None,
      cf_check = None, cf_set_d0 = None, cf_set_d1 = None, cf_get_d0 = None, cf_get_d1 = None,
      cf_set_raw = None, cf_get_raw = None, cf_timeout = None, cf_get_device_info = None\<rparr>"

definition counting_env :: "bool \<Rightarrow> nat cable_env" where
  "counting_env need_open = \<lparr>ce_fncts = counting_fncts need_open, ce_free_device = (\<lambda>d. d),
     ce_free_priv2 = (\<lambda>d. d), ce_hook = None\<rparr>"

theorem cable_guards_witness:
  "cable_exec (counting_env True) (Send (Some [1])) (fresh_cable CABLE_SLV 0)
     = (Some ERR_NOT_OPEN, fresh_cable CABLE_SLV 0)"
  by (subst cable_guards) (simp_all add: fresh_cable_def)

theorem cable_flags_between_calls_witness:
  "\<not> cb_busy (snd (cable_exec (counting_env True) Open (fresh_cable CABLE_SLV 0)))"
  using cable_flags_between_calls [OF cable_reachable.fresh, of "counting_env True" Open
      CABLE_SLV 0 "fst (cable_exec (counting_env True) Open (fresh_cable CABLE_SLV 0))"]
  by simp

theorem cable_probe_restores_witness:
  "\<exists>h'. ticables_cable_probe (counting_env True) (Some True) (fresh_cable CABLE_SLV 0)
       = (None, Some False, h') \<and> \<not> cb_open h' \<and> cb_dev h' = 3"
proof -
  obtain r res h' where run:
    "ticables_cable_probe (counting_env True) (Some True) (fresh_cable CABLE_SLV 0) = (r, res, h')"
    by (metis prod_cases3)
  have "ce_hook (counting_env True) = None" by (simp add: counting_env_def)
  from cable_probe_restores [OF this run] have "\<not> cb_open h'"
    by (simp add: fresh_cable_def counting_env_def counting_fncts_def)
  then show ?thesis using run
    by (auto simp: ticables_cable_probe_def ticables_cable_open_def ticables_cable_close_def
        driver_call_simple_def driver_call_def ticables_event_send_def
        ticables_event_send_simple_def ticables_event_send_simple_generic_def
        ticables_event_fill_header_def counting_env_def counting_fncts_def fresh_cable_def Let_def)
qed

end
