(* ===== verification/LinkVti.thy ===== *)
theory LinkVti
  imports CableLayer
begin

text \<open>
  The interface a cable driver offers to the layers above (\<open>byte_link\<close>), and the driver of
  the repository that is plain code rather than system calls: the virtual link
  \<^verbatim>\<open>linux/link_vti.cc\<close>, two circular buffers in memory shared by an emulator and a linking
  program. The shared memory is the model's state; the outcomes of the system calls that
  attach and detach the segments are a parameter.
\<close>

section \<open>The interface of a transport\<close>

text \<open>
  \<open>sent d\<close> are the bytes on their way to the peer, \<open>avail d\<close> the bytes from the peer that
  have not been read, \<open>room d\<close> the number of bytes the transport still takes. Sending and
  receiving within these bounds succeed and move exactly the bytes asked for; a receive
  beyond them fails.
\<close>

locale byte_link =
  fixes send :: "'d \<Rightarrow> bytes \<Rightarrow> ret \<times> 'd"
    and recv :: "'d \<Rightarrow> nat \<Rightarrow> ret \<times> bytes \<times> 'd"
    and sent :: "'d \<Rightarrow> bytes"
    and avail :: "'d \<Rightarrow> bytes"
    and room :: "'d \<Rightarrow> nat"
    and ok :: "'d \<Rightarrow> bool"
  assumes send_ok: "ok d \<Longrightarrow> length bs \<le> room d \<Longrightarrow>
      \<exists>d'. send d bs = (None, d') \<and> ok d' \<and> sent d' = sent d @ bs \<and> avail d' = avail d
           \<and> room d' = room d - length bs"
    and recv_ok: "ok d \<Longrightarrow> n \<le> length (avail d) \<Longrightarrow>
      \<exists>d'. recv d n = (None, take n (avail d), d') \<and> ok d' \<and> sent d' = sent d
           \<and> avail d' = drop n (avail d) \<and> room d' = room d"
    and recv_short: "ok d \<Longrightarrow> length (avail d) < n \<Longrightarrow>
      \<exists>e bs d'. recv d n = (Some e, bs, d') \<and> ok d'"
begin

definition after_send :: "'d \<Rightarrow> bytes \<Rightarrow> 'd" where
  "after_send d bs = snd (send d bs)"

definition after_recv :: "'d \<Rightarrow> nat \<Rightarrow> 'd" where
  "after_recv d n = snd (snd (recv d n))"

lemma send_eq:
  assumes "ok d" "length bs \<le> room d"
  shows "send d bs = (None, after_send d bs)" "ok (after_send d bs)"
    "sent (after_send d bs) = sent d @ bs" "avail (after_send d bs) = avail d"
    "room (after_send d bs) = room d - length bs"
  using send_ok [OF assms] by (auto simp: after_send_def)

lemma recv_eq:
  assumes "ok d" "n \<le> length (avail d)"
  shows "recv d n = (None, take n (avail d), after_recv d n)" "ok (after_recv d n)"
    "sent (after_recv d n) = sent d" "avail (after_recv d n) = drop n (avail d)"
    "room (after_recv d n) = room d"
  using recv_ok [OF assms] by (auto simp: after_recv_def)

end

section \<open>The circular buffer\<close>

record link_buffer =
  lb_buf :: bytes
  lb_start :: nat
  lb_end :: nat

definition lb_full :: "link_buffer \<Rightarrow> bool" where
  "lb_full b \<longleftrightarrow> (lb_end b + 1) AND 255 = lb_start b"

definition lb_empty :: "link_buffer \<Rightarrow> bool" where
  "lb_empty b \<longleftrightarrow> lb_start b = lb_end b"

definition lb_push :: "link_buffer \<Rightarrow> u8 \<Rightarrow> link_buffer" where
  "lb_push b x = b\<lparr>lb_buf := (lb_buf b)[lb_end b := x], lb_end := (lb_end b + 1) AND 255\<rparr>"

definition lb_front :: "link_buffer \<Rightarrow> u8" where
  "lb_front b = lb_buf b ! lb_start b"

definition lb_pop :: "link_buffer \<Rightarrow> link_buffer" where
  "lb_pop b = b\<lparr>lb_start := (lb_start b + 1) AND 255\<rparr>"

definition lb_reset :: "link_buffer \<Rightarrow> link_buffer" where
  "lb_reset b = b\<lparr>lb_start := 0, lb_end := 0\<rparr>"

text \<open>What the buffer holds, oldest byte first, and the invariant of its indices.\<close>

definition lb_used :: "link_buffer \<Rightarrow> nat" where
  "lb_used b = (lb_end b + 256 - lb_start b) mod 256"

definition lb_contents :: "link_buffer \<Rightarrow> bytes" where
  "lb_contents b = map (\<lambda>i. lb_buf b ! ((lb_start b + i) mod 256)) [0..<lb_used b]"

definition lb_inv :: "link_buffer \<Rightarrow> bool" where
  "lb_inv b \<longleftrightarrow> length (lb_buf b) = 1024 \<and> lb_start b < 256 \<and> lb_end b < 256"

lemma and_255: "(n::nat) AND 255 = n mod 256"
  using take_bit_eq_mask [of 8 n] by (simp add: take_bit_eq_mod mask_eq_exp_minus_1)

lemma lb_contents_length [simp]: "length (lb_contents b) = lb_used b"
  by (simp add: lb_contents_def)

lemma lb_used_bound: "lb_used b \<le> 255"
  using mod_less_divisor [of 256 "lb_end b + 256 - lb_start b"] by (simp add: lb_used_def)

text \<open>The modular formulas as a case distinction on where the indices are.\<close>

lemma lb_used_if:
  "lb_inv b \<Longrightarrow> lb_used b =
     (if lb_start b \<le> lb_end b then lb_end b - lb_start b else lb_end b + 256 - lb_start b)"
  by (auto simp: lb_used_def lb_inv_def mod_if)

lemma next_index_if:
  "n < 256 \<Longrightarrow> (n + 1) AND 255 = (if n = 255 then 0 else n + 1)"
  "n < 256 \<Longrightarrow> Suc n AND 255 = (if n = 255 then 0 else Suc n)"
  by (simp_all add: and_255 mod_if)

lemma wrap_if: "n < 512 \<Longrightarrow> n mod 256 = (if n < 256 then n else n - 256)" for n :: nat
  by (simp add: mod_if)

lemma lb_full_iff: "lb_inv b \<Longrightarrow> lb_full b \<longleftrightarrow> lb_used b = 255"
  unfolding lb_full_def by (subst next_index_if(1)) (auto simp: lb_used_if lb_inv_def)

lemma lb_empty_iff: "lb_inv b \<Longrightarrow> lb_empty b \<longleftrightarrow> lb_contents b = []"
proof -
  assume inv: "lb_inv b"
  then have "lb_start b = lb_end b \<longleftrightarrow> lb_used b = 0"
    by (auto simp: lb_used_if) (auto simp: lb_inv_def)
  then show ?thesis by (simp add: lb_empty_def lb_contents_def)
qed

lemma lb_push_ok:
  assumes inv: "lb_inv b" and room: "\<not> lb_full b"
  shows "lb_inv (lb_push b x)" "lb_contents (lb_push b x) = lb_contents b @ [x]"
proof -
  show inv': "lb_inv (lb_push b x)" using inv by (simp add: lb_push_def lb_inv_def and_255)
  have used: "lb_used (lb_push b x) = lb_used b + 1"
    using inv room inv' by (auto simp: lb_used_if lb_full_iff lb_push_def next_index_if lb_inv_def)
  have last: "(lb_start b + lb_used b) mod 256 = lb_end b"
    using inv by (auto simp: lb_used_if lb_inv_def)
  have old: "(lb_start b + i) mod 256 \<noteq> lb_end b" if "i < lb_used b" for i
    using that inv lb_used_bound [of b]
    by (subst wrap_if) (auto simp: lb_used_if lb_inv_def split: if_splits)
  have len: "lb_end b < length (lb_buf b)" using inv by (simp add: lb_inv_def)
  have "lb_contents (lb_push b x)
      = map (\<lambda>i. (lb_buf b)[lb_end b := x] ! ((lb_start b + i) mod 256)) [0..<lb_used b + 1]"
    by (simp add: lb_contents_def used) (simp add: lb_push_def)
  also have "\<dots> = lb_contents b @ [x]"
    using old [THEN not_sym] len by (simp add: lb_contents_def last)
  finally show "lb_contents (lb_push b x) = lb_contents b @ [x]" .
qed

lemma lb_pop_ok:
  assumes inv: "lb_inv b" and some: "\<not> lb_empty b"
  shows "lb_inv (lb_pop b)" "lb_contents b = lb_front b # lb_contents (lb_pop b)"
proof -
  show inv': "lb_inv (lb_pop b)" using inv by (simp add: lb_pop_def lb_inv_def and_255)
  have used: "lb_used b = Suc (lb_used (lb_pop b))"
    using inv some inv' by (auto simp: lb_used_if lb_empty_def lb_pop_def next_index_if lb_inv_def)
  have next_byte: "(lb_start (lb_pop b) + i) mod 256 = (lb_start b + Suc i) mod 256" for i
    by (simp add: lb_pop_def and_255 mod_simps)
  have "lb_contents b = lb_buf b ! (lb_start b mod 256)
      # map (\<lambda>i. lb_buf b ! ((lb_start b + Suc i) mod 256)) [0..<lb_used (lb_pop b)]"
    unfolding lb_contents_def used
    by (simp only: upt_conv_Cons zero_less_Suc list.map map_Suc_upt [symmetric] map_map o_def
          add_0_right)
  also have "\<dots> = lb_front b # lb_contents (lb_pop b)"
    using inv by (simp add: lb_contents_def next_byte) (simp add: lb_front_def lb_pop_def lb_inv_def)
  finally show "lb_contents b = lb_front b # lb_contents (lb_pop b)" .
qed

lemma lb_reset_ok: "lb_inv b \<Longrightarrow> lb_inv (lb_reset b)" "lb_contents (lb_reset b) = []"
  by (simp_all add: lb_inv_def lb_reset_def lb_contents_def lb_used_def)

section \<open>The driver\<close>

text \<open>
  The handle's \<^verbatim>\<open>address\<close> says which of the two processes this is; the other one has the
  same segments with sending and receiving swapped.
\<close>

datatype cable_port = PORT_0 | PORT_1 | PORT_2 | PORT_3 | PORT_4 | PORT_MAX

record vti_dev =
  vd_port :: cable_port
  vd_address :: nat
  vd_device :: "string option"
  vd_shm0 :: link_buffer
  vd_shm1 :: link_buffer

definition send_buf :: "vti_dev \<Rightarrow> link_buffer" where
  "send_buf d = (if vd_address d = 0 then vd_shm0 d else vd_shm1 d)"

definition recv_buf :: "vti_dev \<Rightarrow> link_buffer" where
  "recv_buf d = (if vd_address d = 0 then vd_shm1 d else vd_shm0 d)"

definition set_send_buf :: "link_buffer \<Rightarrow> vti_dev \<Rightarrow> vti_dev" where
  "set_send_buf b d = (if vd_address d = 0 then d\<lparr>vd_shm0 := b\<rparr> else d\<lparr>vd_shm1 := b\<rparr>)"

definition set_recv_buf :: "link_buffer \<Rightarrow> vti_dev \<Rightarrow> vti_dev" where
  "set_recv_buf b d = (if vd_address d = 0 then d\<lparr>vd_shm1 := b\<rparr> else d\<lparr>vd_shm0 := b\<rparr>)"

lemma vti_bufs [simp]:
  "send_buf (set_send_buf b d) = b" "recv_buf (set_send_buf b d) = recv_buf d"
  "recv_buf (set_recv_buf b d) = b" "send_buf (set_recv_buf b d) = send_buf d"
  by (simp_all add: send_buf_def recv_buf_def set_send_buf_def set_recv_buf_def)

text \<open>Whether each system call on segment \<open>i\<close> succeeds.\<close>

record vti_sys =
  vs_ftok :: "nat \<Rightarrow> bool"
  vs_shmget :: "nat \<Rightarrow> bool"
  vs_shmat :: "nat \<Rightarrow> bool"
  vs_shmdt :: "nat \<Rightarrow> bool"
  vs_shmctl :: "nat \<Rightarrow> bool"

definition vti_prepare :: "vti_dev \<Rightarrow> ret \<times> vti_dev" where
  "vti_prepare d =
     (case vd_port d of
        PORT_0 \<Rightarrow> (None, d\<lparr>vd_address := 0\<rparr>)
      | PORT_1 \<Rightarrow> (None, d\<lparr>vd_address := 0, vd_device := Some ''0->1''\<rparr>)
      | PORT_3 \<Rightarrow> (None, d\<lparr>vd_address := 0, vd_device := Some ''0->1''\<rparr>)
      | PORT_2 \<Rightarrow> (None, d\<lparr>vd_address := 1, vd_device := Some ''1->0''\<rparr>)
      | PORT_4 \<Rightarrow> (None, d\<lparr>vd_address := 1, vd_device := Some ''1->0''\<rparr>)
      | PORT_MAX \<Rightarrow> (Some ERR_ILLEGAL_ARG, d))"

definition vti_open :: "vti_sys \<Rightarrow> vti_dev \<Rightarrow> ret \<times> vti_dev" where
  "vti_open S d =
     (if \<not> (vs_ftok S 0 \<and> vs_ftok S 1) then (Some ERR_VTI_IPCKEY, d)
      else if \<not> (vs_shmget S 0 \<and> vs_shmget S 1) then (Some ERR_VTI_SHMGET, d)
      else if \<not> (vs_shmat S 0 \<and> vs_shmat S 1) then (Some ERR_VTI_SHMAT, d)
      else (None, d\<lparr>vd_shm0 := lb_reset (vd_shm0 d), vd_shm1 := lb_reset (vd_shm1 d)\<rparr>))"

definition vti_close :: "vti_sys \<Rightarrow> vti_dev \<Rightarrow> ret \<times> vti_dev" where
  "vti_close S d =
     (if \<not> vs_shmdt S 0 then (Some ERR_VTI_SHMDT, d)
      else if \<not> vs_shmctl S 0 then (Some ERR_VTI_SHMCTL, d)
      else if \<not> vs_shmdt S 1 then (Some ERR_VTI_SHMDT, d)
      else if \<not> vs_shmctl S 1 then (Some ERR_VTI_SHMCTL, d)
      else (None, d))"

text \<open>
  One process at a time: the wait for room (or for a byte) sees a buffer nobody else
  touches, so it either passes at once or runs into the timeout. Interleavings of the two
  processes are the subject of the step relation further down.
\<close>

fun vti_put :: "vti_dev \<Rightarrow> bytes \<Rightarrow> ret \<times> vti_dev" where
  "vti_put d [] = (None, d)"
| "vti_put d (x # xs) =
     (if lb_full (send_buf d) then (Some ERR_WRITE_TIMEOUT, d)
      else vti_put (set_send_buf (lb_push (send_buf d) x) d) xs)"

fun vti_get :: "vti_dev \<Rightarrow> nat \<Rightarrow> ret \<times> bytes \<times> vti_dev" where
  "vti_get d 0 = (None, [], d)"
| "vti_get d (Suc n) =
     (if lb_empty (recv_buf d) then (Some ERR_READ_TIMEOUT, [], d)
      else (let (r, bs, d') = vti_get (set_recv_buf (lb_pop (recv_buf d)) d) n
            in (r, lb_front (recv_buf d) # bs, d')))"

definition vti_reset :: "vti_dev \<Rightarrow> ret \<times> vti_dev" where
  "vti_reset d = (None, d\<lparr>vd_shm0 := lb_reset (vd_shm0 d), vd_shm1 := lb_reset (vd_shm1 d)\<rparr>)"

definition vti_check :: "vti_dev \<Rightarrow> ret \<times> int \<times> vti_dev" where
  "vti_check d = (None, (if lb_empty (recv_buf d) then 0 else 1), d)"

definition vti_probe :: "vti_dev \<Rightarrow> ret \<times> vti_dev" where
  "vti_probe d = (None, d)"

text \<open>The functions that \<^verbatim>\<open>link_nul.cc\<close> provides for cables without wires.\<close>

definition noop_set_wire :: "'d \<Rightarrow> int \<Rightarrow> ret \<times> 'd" where
  "noop_set_wire d b = (None, d)"

definition noop_get_wire :: "'d \<Rightarrow> ret \<times> 'd" where
  "noop_get_wire d = (Some (ERR_OTHER 1), d)"

definition cable_vti :: "vti_sys \<Rightarrow> vti_dev cable_fncts" where
  "cable_vti S =
     \<lparr>cf_need_open = False, cf_prepare = Some vti_prepare,
      cf_open = Some (vti_open S), cf_close = Some (vti_close S),
      cf_reset = Some vti_reset, cf_probe = Some vti_probe,
      cf_send = Some vti_put, cf_recv = Some vti_get, cf_check = Some vti_check,
      cf_set_d0 = Some noop_set_wire, cf_set_d1 = Some noop_set_wire,
      cf_get_d0 = Some noop_get_wire, cf_get_d1 = Some noop_get_wire,
      cf_set_raw = None, cf_get_raw = None, cf_timeout = None, cf_get_device_info = None\<rparr>"

subsection \<open>The driver provides the interface\<close>

definition vti_ok :: "vti_dev \<Rightarrow> bool" where
  "vti_ok d \<longleftrightarrow> lb_inv (vd_shm0 d) \<and> lb_inv (vd_shm1 d)"

definition vti_sent :: "vti_dev \<Rightarrow> bytes" where
  "vti_sent d = lb_contents (send_buf d)"

definition vti_avail :: "vti_dev \<Rightarrow> bytes" where
  "vti_avail d = lb_contents (recv_buf d)"

definition vti_room :: "vti_dev \<Rightarrow> nat" where
  "vti_room d = 255 - lb_used (send_buf d)"

lemma vti_ok_bufs:
  "vti_ok d \<longleftrightarrow> lb_inv (send_buf d) \<and> lb_inv (recv_buf d)"
  by (auto simp: vti_ok_def send_buf_def recv_buf_def)

lemma vti_put_ok:
  "vti_ok d \<Longrightarrow> length bs \<le> vti_room d \<Longrightarrow>
     \<exists>d'. vti_put d bs = (None, d') \<and> vti_ok d' \<and> vti_sent d' = vti_sent d @ bs
        \<and> vti_avail d' = vti_avail d \<and> vti_room d' = vti_room d - length bs"
proof (induction bs arbitrary: d)
  case Nil
  then show ?case by simp
next
  case (Cons x xs)
  let ?d = "set_send_buf (lb_push (send_buf d) x) d"
  have inv: "lb_inv (send_buf d)" and room: "\<not> lb_full (send_buf d)"
    using Cons.prems by (auto simp: vti_ok_bufs lb_full_iff vti_room_def)
  note push = lb_push_ok [OF inv room, of x]
  have "vti_room ?d = vti_room d - 1"
    using arg_cong [OF push(2), of length] by (simp add: vti_room_def)
  moreover have "vti_ok ?d" using Cons.prems(1) push(1) by (simp add: vti_ok_bufs)
  ultimately show ?case
    using Cons.IH [of ?d] Cons.prems(2) room
    by (auto simp: vti_sent_def vti_avail_def push(2))
qed

lemma vti_get_ok:
  "vti_ok d \<Longrightarrow> n \<le> length (vti_avail d) \<Longrightarrow>
     \<exists>d'. vti_get d n = (None, take n (vti_avail d), d') \<and> vti_ok d' \<and> vti_sent d' = vti_sent d
        \<and> vti_avail d' = drop n (vti_avail d) \<and> vti_room d' = vti_room d"
proof (induction n arbitrary: d)
  case 0
  then show ?case by simp
next
  case (Suc n)
  let ?d = "set_recv_buf (lb_pop (recv_buf d)) d"
  have inv: "lb_inv (recv_buf d)" using Suc.prems by (simp add: vti_ok_bufs)
  have some: "\<not> lb_empty (recv_buf d)"
    using Suc.prems(2) by (auto simp: lb_empty_iff [OF inv] vti_avail_def simp del: lb_contents_length)
  note pop = lb_pop_ok [OF inv some]
  have "vti_ok ?d" using Suc.prems(1) pop(1) by (simp add: vti_ok_bufs)
  moreover have avail: "vti_avail d = lb_front (recv_buf d) # vti_avail ?d"
    by (simp add: vti_avail_def pop(2))
  ultimately show ?case
    using Suc.IH [of ?d] Suc.prems(2) some by (auto simp: vti_sent_def vti_room_def)
qed

lemma vti_get_short:
  "vti_ok d \<Longrightarrow> length (vti_avail d) < n \<Longrightarrow>
     \<exists>bs d'. vti_get d n = (Some ERR_READ_TIMEOUT, bs, d') \<and> vti_ok d'"
proof (induction n arbitrary: d)
  case 0
  then show ?case by simp
next
  case (Suc n)
  show ?case
  proof (cases "lb_empty (recv_buf d)")
    case True
    then show ?thesis using Suc.prems by auto
  next
    case False
    have inv: "lb_inv (recv_buf d)" using Suc.prems by (simp add: vti_ok_bufs)
    note pop = lb_pop_ok [OF inv False]
    let ?d = "set_recv_buf (lb_pop (recv_buf d)) d"
    have "vti_ok ?d" using Suc.prems(1) pop(1) by (simp add: vti_ok_bufs)
    moreover have "length (vti_avail ?d) < n"
      using Suc.prems(2) by (simp add: vti_avail_def pop(2))
    ultimately show ?thesis using Suc.IH [of ?d] False by auto
  qed
qed

interpretation vti: byte_link vti_put vti_get vti_sent vti_avail vti_room vti_ok
  by unfold_locales (use vti_put_ok vti_get_ok vti_get_short in blast)+

text \<open>
  What a call that runs out of room, or of bytes, leaves behind: the bytes that fit are
  sent, the bytes there are read.
\<close>

lemma vti_put_result:
  "vti_ok d \<Longrightarrow> \<exists>d'. vti_put d bs =
       (if length bs \<le> vti_room d then None else Some ERR_WRITE_TIMEOUT, d')
     \<and> vti_ok d' \<and> vti_sent d' = vti_sent d @ take (vti_room d) bs \<and> vti_avail d' = vti_avail d"
proof (cases "length bs \<le> vti_room d")
  case True
  then show "vti_ok d \<Longrightarrow> ?thesis" using vti_put_ok [of d bs] by auto
next
  case False
  have "vti_put d (xs @ ys) = (case vti_put d xs of (None, d') \<Rightarrow> vti_put d' ys | (r, d') \<Rightarrow> (r, d'))"
    for d xs ys by (induction d xs rule: vti_put.induct) auto
  note append = this [of d "take (vti_room d) bs" "drop (vti_room d) bs"]
  assume ok: "vti_ok d"
  obtain d' where d': "vti_put d (take (vti_room d) bs) = (None, d')" "vti_ok d'"
    "vti_sent d' = vti_sent d @ take (vti_room d) bs" "vti_avail d' = vti_avail d" "vti_room d' = 0"
    using vti_put_ok [OF ok, of "take (vti_room d) bs"] False by auto
  obtain y ys where rest: "drop (vti_room d) bs = y # ys"
    using False by (metis drop_eq_Nil neq_Nil_conv)
  have "lb_full (send_buf d')"
    using d'(2,5) lb_used_bound [of "send_buf d'"]
    by (auto simp: vti_ok_bufs lb_full_iff vti_room_def)
  then have "vti_put d bs = (Some ERR_WRITE_TIMEOUT, d')" using append [unfolded append_take_drop_id] d'(1) rest by simp
  then show ?thesis using d' False by simp
qed

lemma vti_get_result:
  "vti_ok d \<Longrightarrow> \<exists>d'. vti_get d n =
       (if n \<le> length (vti_avail d) then None else Some ERR_READ_TIMEOUT, take n (vti_avail d), d')
     \<and> vti_ok d' \<and> vti_avail d' = drop n (vti_avail d) \<and> vti_sent d' = vti_sent d"
proof (induction n arbitrary: d)
  case 0
  then show ?case by simp
next
  case (Suc n)
  have inv: "lb_inv (recv_buf d)" using Suc.prems by (simp add: vti_ok_bufs)
  show ?case
  proof (cases "lb_empty (recv_buf d)")
    case True
    then have "vti_avail d = []" by (simp add: vti_avail_def lb_empty_iff [OF inv])
    then show ?thesis using True Suc.prems by simp
  next
    case False
    note pop = lb_pop_ok [OF inv False]
    let ?d = "set_recv_buf (lb_pop (recv_buf d)) d"
    have "vti_ok ?d" using Suc.prems pop(1) by (simp add: vti_ok_bufs)
    moreover have "vti_avail d = lb_front (recv_buf d) # vti_avail ?d"
      by (simp add: vti_avail_def pop(2))
    ultimately show ?thesis using Suc.IH [of ?d] False by (auto simp: vti_sent_def)
  qed
qed

text \<open>
  Both transfer functions on every input, with a peer that does not run meanwhile:
  \<open>vti_put\<close> appends the bytes that fit and succeeds exactly when all fit (a timeout
  otherwise); \<open>vti_get\<close> takes the oldest bytes there are, in order, and succeeds exactly
  when there are enough; neither touches the other direction.
\<close>
theorem vti_transfer_exact:
  assumes "vti_ok d"
  shows "(\<exists>d'. vti_put d bs = (if length bs \<le> vti_room d then None else Some ERR_WRITE_TIMEOUT, d')
        \<and> vti_ok d' \<and> vti_sent d' = vti_sent d @ take (vti_room d) bs \<and> vti_avail d' = vti_avail d)
     \<and> (\<exists>d'. vti_get d n = (if n \<le> length (vti_avail d) then None else Some ERR_READ_TIMEOUT,
                              take n (vti_avail d), d')
        \<and> vti_ok d' \<and> vti_avail d' = drop n (vti_avail d) \<and> vti_sent d' = vti_sent d)"
  using vti_put_result [OF assms] vti_get_result [OF assms] by blast

definition nearly_full :: vti_dev where
  "nearly_full = \<lparr>vd_port = PORT_1, vd_address = 0, vd_device = None,
     vd_shm0 = \<lparr>lb_buf = replicate 1024 0, lb_start = 250, lb_end = 247\<rparr>,
     vd_shm1 = \<lparr>lb_buf = replicate 1024 0, lb_start = 0, lb_end = 0\<rparr>\<rparr>"

theorem vti_transfer_exact_witness:
  "\<exists>d'. vti_put nearly_full [1, 2, 3] = (Some ERR_WRITE_TIMEOUT, d')
     \<and> drop 253 (vti_sent d') = [1, 2]"
proof -
  have d: "vti_ok nearly_full" "vti_room nearly_full = 2" "length (vti_sent nearly_full) = 253"
    by (simp_all add: nearly_full_def vti_ok_def lb_inv_def vti_room_def vti_sent_def
        send_buf_def lb_used_def)
  from vti_transfer_exact [OF d(1), of "[1, 2, 3]" 0] d(2,3) show ?thesis
    by (auto simp del: vti_put.simps)
qed

section \<open>Two processes on one segment\<close>

text \<open>
  The writer's loop (\<open>vti_put\<close>) and the reader's loop (\<open>vti_get\<close>) run in different processes
  on the same segment with no lock between them. Each iteration is three accesses to shared
  memory: poll the indices, move the byte, move the index. The step relation interleaves
  the two loops at that grain; the counters of each side say which access comes next.
\<close>

datatype writer_pc = W_Poll | W_Store u8 | W_Advance u8
datatype reader_pc = R_Poll | R_Load | R_Advance u8

text \<open>\<open>vs_wrote\<close> and \<open>vs_read\<close> record the bytes of the iterations finished so far.\<close>

record vti_seg =
  vg_buf :: link_buffer
  vg_wpc :: writer_pc
  vg_rpc :: reader_pc
  vg_wrote :: bytes
  vg_read :: bytes

definition lb_store :: "link_buffer \<Rightarrow> u8 \<Rightarrow> link_buffer" where
  "lb_store b x = b\<lparr>lb_buf := (lb_buf b)[lb_end b := x]\<rparr>"

definition lb_advance_end :: "link_buffer \<Rightarrow> link_buffer" where
  "lb_advance_end b = b\<lparr>lb_end := (lb_end b + 1) AND 255\<rparr>"

inductive vti_step :: "vti_seg \<Rightarrow> vti_seg \<Rightarrow> bool" where
  w_poll: "vg_wpc s = W_Poll \<Longrightarrow> \<not> lb_full (vg_buf s) \<Longrightarrow> vti_step s (s\<lparr>vg_wpc := W_Store x\<rparr>)"
| w_store: "vg_wpc s = W_Store x \<Longrightarrow>
     vti_step s (s\<lparr>vg_buf := lb_store (vg_buf s) x, vg_wpc := W_Advance x\<rparr>)"
| w_advance: "vg_wpc s = W_Advance x \<Longrightarrow>
     vti_step s (s\<lparr>vg_buf := lb_advance_end (vg_buf s), vg_wpc := W_Poll,
                   vg_wrote := vg_wrote s @ [x]\<rparr>)"
| r_poll: "vg_rpc s = R_Poll \<Longrightarrow> \<not> lb_empty (vg_buf s) \<Longrightarrow> vti_step s (s\<lparr>vg_rpc := R_Load\<rparr>)"
| r_load: "vg_rpc s = R_Load \<Longrightarrow>
     vti_step s (s\<lparr>vg_rpc := R_Advance (lb_front (vg_buf s))\<rparr>)"
| r_advance: "vg_rpc s = R_Advance x \<Longrightarrow>
     vti_step s (s\<lparr>vg_buf := lb_pop (vg_buf s), vg_rpc := R_Poll, vg_read := vg_read s @ [x]\<rparr>)"

text \<open>The segment as \<open>vti_open\<close> leaves it, and the states both loops lead to.\<close>

definition vti_attached :: "link_buffer \<Rightarrow> vti_seg" where
  "vti_attached b = \<lparr>vg_buf = lb_reset b, vg_wpc = W_Poll, vg_rpc = R_Poll,
                      vg_wrote = [], vg_read = []\<rparr>"

inductive vti_reachable :: "vti_seg \<Rightarrow> bool" where
  attached: "length (lb_buf b) = 1024 \<Longrightarrow> vti_reachable (vti_attached b)"
| step: "vti_reachable s \<Longrightarrow> vti_step s s' \<Longrightarrow> vti_reachable s'"

text \<open>
  Past its poll the writer owns the cell at \<open>end\<close>, which the reader cannot reach, and the
  reader owns the cell at \<open>start\<close>, which the writer cannot.
\<close>

definition writer_ok :: "vti_seg \<Rightarrow> bool" where
  "writer_ok s \<longleftrightarrow> (case vg_wpc s of
       W_Poll \<Rightarrow> True
     | W_Store x \<Rightarrow> \<not> lb_full (vg_buf s)
     | W_Advance x \<Rightarrow> \<not> lb_full (vg_buf s) \<and> lb_store (vg_buf s) x = vg_buf s)"

definition reader_ok :: "vti_seg \<Rightarrow> bool" where
  "reader_ok s \<longleftrightarrow> (case vg_rpc s of
       R_Poll \<Rightarrow> True
     | R_Load \<Rightarrow> \<not> lb_empty (vg_buf s)
     | R_Advance x \<Rightarrow> \<not> lb_empty (vg_buf s) \<and> x = lb_front (vg_buf s))"

definition seg_inv :: "vti_seg \<Rightarrow> bool" where
  "seg_inv s \<longleftrightarrow> lb_inv (vg_buf s) \<and> writer_ok s \<and> reader_ok s
     \<and> vg_wrote s = vg_read s @ lb_contents (vg_buf s)"

lemma lb_advance_store: "lb_advance_end (lb_store b x) = lb_push b x"
  by (simp add: lb_advance_end_def lb_store_def lb_push_def)

lemma lb_store_indices [simp]:
  "lb_full (lb_store b x) = lb_full b" "lb_empty (lb_store b x) = lb_empty b"
  "lb_inv (lb_store b x) = lb_inv b" "lb_store (lb_store b x) x = lb_store b x"
  "lb_used (lb_store b x) = lb_used b"
  by (simp_all add: lb_store_def lb_full_def lb_empty_def lb_inv_def lb_used_def)

text \<open>Storing at \<open>end\<close> touches none of the cells the buffer holds.\<close>

lemma lb_store_contents:
  assumes "lb_inv b" "\<not> lb_full b"
  shows "lb_contents (lb_store b x) = lb_contents b"
proof -
  have "lb_end b \<noteq> (lb_start b + i) mod 256" if "i < lb_used b" for i
    using that assms lb_used_bound [of b]
    by (subst wrap_if) (auto simp: lb_used_if lb_inv_def split: if_splits)
  then have "lb_buf (lb_store b x) ! ((lb_start b + i) mod 256)
      = lb_buf b ! ((lb_start b + i) mod 256)" if "i < lb_used b" for i
    using that by (simp add: lb_store_def)
  moreover have "lb_start (lb_store b x) = lb_start b" by (simp add: lb_store_def)
  ultimately show ?thesis by (simp add: lb_contents_def)
qed

lemma lb_contents_front: "lb_inv b \<Longrightarrow> \<not> lb_empty b \<Longrightarrow> hd (lb_contents b) = lb_front b"
  by (simp add: lb_pop_ok)

lemma lb_empty_contents: "lb_inv b \<Longrightarrow> lb_empty b \<longleftrightarrow> lb_used b = 0"
  using lb_empty_iff [of b] lb_contents_length [of b] by (metis length_0_conv)

text \<open>Each side's move keeps what the other side relies on.\<close>

lemma lb_push_reader:
  assumes "lb_inv b" "\<not> lb_full b" "\<not> lb_empty b"
  shows "\<not> lb_empty (lb_push b x)" "lb_front (lb_push b x) = lb_front b"
proof -
  note push = lb_push_ok [OF assms(1,2), of x]
  show ne: "\<not> lb_empty (lb_push b x)" using lb_empty_iff [OF push(1)] push(2) by simp
  show "lb_front (lb_push b x) = lb_front b"
    using lb_contents_front [OF push(1) ne] lb_contents_front [OF assms(1,3)] push(2)
      lb_empty_iff [OF assms(1)] assms(3) by simp
qed

lemma lb_pop_writer:
  assumes "lb_inv b" "\<not> lb_empty b"
  shows "\<not> lb_full (lb_pop b)"
proof -
  have "lb_used b = Suc (lb_used (lb_pop b))"
    using arg_cong [OF lb_pop_ok(2) [OF assms], of length] by simp
  with lb_used_bound [of b] show ?thesis
    by (simp add: lb_full_iff [OF lb_pop_ok(1) [OF assms]])
qed

lemma lb_pop_store: "lb_store b x = b \<Longrightarrow> lb_store (lb_pop b) x = lb_pop b"
  by (cases b) (simp add: lb_store_def lb_pop_def)

lemma lb_store_front:
  "lb_inv b \<Longrightarrow> \<not> lb_empty b \<Longrightarrow> lb_front (lb_store b x) = lb_front b"
  by (simp add: lb_front_def lb_store_def lb_empty_def)

lemma seg_step_inv: "vti_step s s' \<Longrightarrow> seg_inv s \<Longrightarrow> seg_inv s'"
proof (induction rule: vti_step.induct)
  case (w_poll s x)
  then show ?case by (auto simp: seg_inv_def writer_ok_def reader_ok_def split: reader_pc.splits)
next
  case (w_store s x)
  then show ?case
    by (auto simp: seg_inv_def writer_ok_def reader_ok_def lb_store_contents lb_store_front
        split: reader_pc.splits)
next
  case (w_advance s x)
  then have inv: "lb_inv (vg_buf s)" and room: "\<not> lb_full (vg_buf s)"
    and adv: "lb_advance_end (vg_buf s) = lb_push (vg_buf s) x"
    by (auto simp: seg_inv_def writer_ok_def lb_advance_store [symmetric])
  show ?case using w_advance lb_push_ok [OF inv room] lb_push_reader [OF inv room]
    by (auto simp: seg_inv_def writer_ok_def reader_ok_def adv split: reader_pc.splits)
next
  case (r_poll s)
  then show ?case by (auto simp: seg_inv_def writer_ok_def reader_ok_def split: writer_pc.splits)
next
  case (r_load s)
  then show ?case by (auto simp: seg_inv_def writer_ok_def reader_ok_def split: writer_pc.splits)
next
  case (r_advance s x)
  then have inv: "lb_inv (vg_buf s)" and some: "\<not> lb_empty (vg_buf s)"
    and x: "x = lb_front (vg_buf s)" by (auto simp: seg_inv_def reader_ok_def)
  show ?case using r_advance lb_pop_ok [OF inv some] lb_pop_writer [OF inv some]
    by (auto simp: seg_inv_def writer_ok_def reader_ok_def x lb_pop_store split: writer_pc.splits)
qed

lemma seg_reachable_inv: "vti_reachable s \<Longrightarrow> seg_inv s"
proof (induction rule: vti_reachable.induct)
  case (attached b)
  then show ?case
    by (simp add: seg_inv_def vti_attached_def writer_ok_def reader_ok_def lb_reset_ok lb_inv_def)
      (simp add: lb_reset_def)
next
  case (step s s')
  then show ?case by (rule_tac seg_step_inv)
qed

text \<open>
  C25: The lock-free buffer is a FIFO under every interleaving of the two processes' memory
  accesses: what the reader has taken is a prefix of what the writer has written, the bytes
  between are exactly the buffer's contents, and there are never more than 255 of them (of
  the 1024 cells only 256 are used).
\<close>
theorem vti_interleaving_fifo:
  assumes "vti_reachable s"
  shows "vg_wrote s = vg_read s @ lb_contents (vg_buf s) \<and> length (lb_contents (vg_buf s)) \<le> 255"
  using seg_reachable_inv [OF assms] lb_used_bound by (simp add: seg_inv_def)

theorem vti_interleaving_fifo_witness:
  "\<exists>s. vti_reachable s \<and> vg_wrote s = [7] \<and> vg_rpc s = R_Load \<and> lb_contents (vg_buf s) = [7]"
proof -
  obtain b :: link_buffer where len: "length (lb_buf b) = 1024"
    using length_replicate [of 1024 "0::u8"] link_buffer.select_convs(1) by metis
  define s0 where "s0 = vti_attached b"
  define s1 where "s1 = s0\<lparr>vg_wpc := W_Store 7\<rparr>"
  define s2 where "s2 = s1\<lparr>vg_buf := lb_store (vg_buf s1) 7, vg_wpc := W_Advance 7\<rparr>"
  define s3 where "s3 = s2\<lparr>vg_buf := lb_advance_end (vg_buf s2), vg_wpc := W_Poll,
                            vg_wrote := vg_wrote s2 @ [7]\<rparr>"
  define s4 where "s4 = s3\<lparr>vg_rpc := R_Load\<rparr>"
  note defs = s0_def s1_def s2_def s3_def s4_def vti_attached_def lb_reset_def lb_full_def
    lb_empty_def lb_store_def lb_advance_end_def
  have "vti_reachable s0" unfolding s0_def by (rule vti_reachable.attached) (rule len)
  then have "vti_reachable s1"
    by (rule vti_reachable.step) (unfold s1_def, rule w_poll, simp_all add: defs)
  then have "vti_reachable s2"
    by (rule vti_reachable.step) (unfold s2_def, rule w_store, simp add: s1_def)
  then have "vti_reachable s3"
    by (rule vti_reachable.step) (unfold s3_def, rule w_advance, simp add: s2_def)
  then have s4: "vti_reachable s4"
    by (rule vti_reachable.step) (unfold s4_def, rule r_poll, simp_all add: defs)
  have "vg_wrote s4 = [7]" "vg_rpc s4 = R_Load" "vg_read s4 = []" by (simp_all add: defs)
  with vti_interleaving_fifo [OF s4] s4 show ?thesis by (intro exI [of _ s4]) simp
qed

end
