(* ===== verification/Checksum.thy ===== *)
theory Checksum
  imports TilibsPrelude "HOL-Library.Multiset"
begin

text \<open>
  The two integrity checks of the packet formats: the 16-bit byte sum of libtifiles
  (\<^verbatim>\<open>misc.cc\<close>), used by D-BUS packets, file formats and the header of Nspire packets, and
  the 16-bit CRC of the Nspire packet data, which libticalcs has in two copies
  (\<^verbatim>\<open>nsp_rpkt.cc\<close>, \<^verbatim>\<open>nsp_vpkt.cc\<close>). The lemmas say which corruptions each one detects.
\<close>

section \<open>The byte sum\<close>

text \<open>The source's loop over the first \<open>size\<close> bytes; a null buffer has checksum zero.\<close>

fun checksum_loop :: "bytes \<Rightarrow> u16 \<Rightarrow> u16" where
  "checksum_loop [] c = c"
| "checksum_loop (b # bs) c = checksum_loop bs (c + ucast b)"

definition tifiles_checksum :: "bytes \<Rightarrow> u16" where
  "tifiles_checksum buffer = checksum_loop buffer 0"

lemma checksum_loop_sum: "checksum_loop bs c = c + (\<Sum>b\<leftarrow>bs. ucast b)"
  by (induction bs arbitrary: c) (simp_all add: add.assoc)

lemma tifiles_checksum_sum: "tifiles_checksum bs = (\<Sum>b\<leftarrow>bs. ucast b)"
  by (simp add: tifiles_checksum_def checksum_loop_sum)

lemma tifiles_checksum_append:
  "tifiles_checksum (xs @ ys) = tifiles_checksum xs + tifiles_checksum ys"
  by (simp add: tifiles_checksum_sum)

lemma unat_checksum: "unat (tifiles_checksum bs) = (\<Sum>b\<leftarrow>bs. unat b) mod 65536"
proof (induction bs)
  case Nil
  then show ?case by (simp add: tifiles_checksum_sum)
next
  case (Cons b bs)
  have "unat b < 2 ^ 8" using unsigned_less [of b] by simp
  then have "unat (ucast b :: u16) = unat b" by (simp add: unsigned_ucast_eq take_bit_nat_eq_self)
  then show ?case using Cons
    by (simp add: tifiles_checksum_sum unat_word_ariths mod_simps)
qed

lemma checksum_mset: "mset xs = mset ys \<Longrightarrow> tifiles_checksum xs = tifiles_checksum ys"
  unfolding tifiles_checksum_sum
  by (metis mset_map sum_mset_sum_list)

lemma byte_widening_inj:
  assumes "ucast (a :: u8) = (ucast b :: u16)"
  shows "a = b"
proof -
  have "ucast (ucast a :: u16) = a" "ucast (ucast b :: u16) = b"
    by (rule bit_word_eqI; auto simp: bit_simps dest: bit_imp_le_length)+
  then show ?thesis using assms by metis
qed

lemma checksum_byte_inj:
  "tifiles_checksum (xs @ a # ys) = tifiles_checksum (xs @ b # ys) \<Longrightarrow> a = b"
  by (simp add: tifiles_checksum_sum byte_widening_inj)

section \<open>The Nspire CRC\<close>

text \<open>One round of the loop, common to both copies; every intermediate value has 16 bits.\<close>

definition crc_round :: "u16 \<Rightarrow> u8 \<Rightarrow> u16" where
  "crc_round acc b =
     (let first = push_bit 8 (ucast b) OR drop_bit 8 acc;
          acc = acc AND 0xff;
          second = push_bit 8 (push_bit 4 (acc AND 0x0f) XOR acc);
          third = drop_bit 5 second;
          acc = drop_bit 7 third
      in acc XOR first XOR second XOR third)"

fun crc_loop :: "bytes \<Rightarrow> u16 \<Rightarrow> u16" where
  "crc_loop [] acc = acc"
| "crc_loop (b # bs) acc = crc_loop bs (crc_round acc b)"

definition compute_crc :: "bytes \<Rightarrow> u16" where
  "compute_crc data = (if length data = 0 then 0 else crc_loop data 0)"

definition nsp_compute_crc :: "bytes \<Rightarrow> u16" where
  "nsp_compute_crc data = crc_loop data 0"

lemma compute_crc_same: "compute_crc data = nsp_compute_crc data"
  by (simp add: compute_crc_def nsp_compute_crc_def)

lemma crc_loop_append: "crc_loop (xs @ ys) acc = crc_loop ys (crc_loop xs acc)"
  by (induction xs arbitrary: acc) simp_all

text \<open>
  The round is linear over exclusive or: the data byte enters the upper half of the
  accumulator, and what the round does to the accumulator alone (\<open>crc_mix\<close>) has a trivial
  kernel, read off bit by bit. So the CRC is injective in each single byte.
\<close>

definition crc_mix :: "u16 \<Rightarrow> u16" where
  "crc_mix acc = crc_round acc 0"

lemma crc_masks: "(0x0f :: u16) = mask 4" "(0xff :: u16) = mask 8"
  by (simp_all add: mask_eq_exp_minus_1)

lemma first_xor:
  "push_bit 8 (ucast (b::u8)) OR drop_bit 8 (acc::u16) = push_bit 8 (ucast b) XOR drop_bit 8 acc"
  by (rule bit_word_eqI) (auto simp: bit_simps dest: bit_imp_le_length)

lemma crc_round_data: "crc_round acc b = crc_mix acc XOR push_bit 8 (ucast b)"
  unfolding crc_mix_def crc_round_def Let_def first_xor
  by (simp add: xor.assoc xor.commute xor.left_commute)

lemma crc_mix_xor: "crc_mix (x XOR y) = crc_mix x XOR crc_mix y"
  unfolding crc_mix_def crc_round_def Let_def first_xor
  by (simp add: push_bit_xor drop_bit_xor bit.conj_xor_distrib2 xor.assoc xor.commute xor.left_commute)


lemma mix_masks: "z AND 0xff AND 0x0f = take_bit 4 (z::u16)" "z AND 0xff = take_bit 8 (z::u16)"
  unfolding crc_masks by (rule bit_word_eqI; auto simp: bit_simps)+

lemma crc_mix_bits:
  assumes "crc_mix z = 0"
  shows "\<not> bit z n"
proof -
  have z: "\<not> bit (crc_mix z) n" for n using assms by simp
  note rules = crc_mix_def crc_round_def Let_def mix_masks bit_simps bit_push_bit_iff bit_take_bit_iff bit_xor_iff bit_or_iff bit_drop_bit_eq
  have out: "\<not> bit z k" if "16 \<le> k" for k
    using that by (auto dest: bit_imp_le_length)
  have hi: "bit z 7 = bit z 3" "bit z 6 = bit z 2" "bit z 5 = bit z (Suc 0)" "bit z 4 = bit z 0"
    using z [of 15] z [of 14] z [of 13] z [of 12] by (auto simp: rules out)
  have lo: "\<not> bit z 3" "\<not> bit z 2" "\<not> bit z (Suc 0)" "\<not> bit z 0"
    using hi z [of 11] z [of 10] z [of 9] z [of 8] by (auto simp: rules out)
  have top: "\<not> bit z 15" "\<not> bit z 14" "\<not> bit z 13" "\<not> bit z 12" "\<not> bit z 11" "\<not> bit z 10"
    "\<not> bit z 9" "\<not> bit z 8"
    using hi lo z [of 7] z [of 6] z [of 5] z [of 4] z [of 3] z [of 2] z [of 1] z [of 0]
    by (simp_all add: rules out)
  have "n \<in> {0, 1, 2, 3, 4, 5, 6, 7, 8, 9, 10, 11, 12, 13, 14, 15} \<or> 16 \<le> n"
    by (simp, presburger)
  then show ?thesis using hi lo top out by (elim disjE insertE; simp)
qed

lemma crc_mix_inj: "crc_mix x = crc_mix y \<Longrightarrow> x = y"
proof -
  assume "crc_mix x = crc_mix y"
  then have "crc_mix (x XOR y) = 0" by (simp add: crc_mix_xor)
  then have "bit x n = bit y n" for n using crc_mix_bits [of "x XOR y" n] by (simp add: bit_xor_iff)
  then show "x = y" by (rule bit_eqI)
qed

lemma crc_round_inj: 
  "crc_round a b = crc_round a' b \<Longrightarrow> a = a'" and  crc_round_inj_data: "crc_round a b = crc_round a b' \<Longrightarrow> b = b'"
proof -
  show "crc_round a b = crc_round a' b \<Longrightarrow> a = a'"
   by (simp add: crc_round_data [of a] crc_round_data [of a']) (metis crc_mix_inj xor_cancel(1))
  assume "crc_round a b = crc_round a b'"
  then have *: "push_bit 8 (ucast b :: u16) = push_bit 8 (ucast b')"
    by (simp add: crc_round_data [of _ b] crc_round_data [of _ b'] xor.commute [of "crc_mix a"] xor_cancel)
  have "bit b n = bit b' n" for n 
    using arg_cong [OF *, of "\<lambda>w. bit w (n + 8)"] by (auto simp: bit_simps dest: bit_imp_le_length)
  then show "b = b'" by (rule bit_eqI)
qed

lemma crc_loop_inj: "crc_loop bs a = crc_loop bs a' \<Longrightarrow> a = a'"
  by (induction bs arbitrary: a a') (auto dest: crc_round_inj)

lemma crc_byte_inj:
  "nsp_compute_crc (xs @ a # ys) = nsp_compute_crc (xs @ b # ys) \<Longrightarrow> a = b"
  by (auto simp: nsp_compute_crc_def crc_loop_append dest!: crc_loop_inj crc_round_inj_data)

section \<open>Properties\<close>

text \<open>
  The 16-bit sum notices every change of a single byte, but no change of the order of
  the bytes: packets with the same bytes in another order have the same checksum.
\<close>

theorem checksum_detection:
  "(tifiles_checksum (xs @ a # ys) = tifiles_checksum (xs @ b # ys) \<longleftrightarrow> a = b)
   \<and> (mset us = mset vs \<longrightarrow> tifiles_checksum us = tifiles_checksum vs)"
  using checksum_byte_inj checksum_mset by blast

lemma checksum_detection_witness:
  "(tifiles_checksum ([1] @ 2 # [3]) = tifiles_checksum ([1] @ 2 # [3]) \<longleftrightarrow> (2 :: u8) = 2)
   \<and> tifiles_checksum [1, 2, 3] = tifiles_checksum [3, 1, 2]"
proof -
  have "mset [1, 2, 3] = mset [3, 1, 2 :: u8]" by (simp add: add_mset_commute)
  then show ?thesis
    using checksum_detection [of "[1]" 2 "[3]" 2 "[1, 2, 3]" "[3, 1, 2]"] by simp
qed

text \<open>
  the two copies of the CRC agree on every input (the empty one included), and either
  notices every change of a single byte of the data.
\<close>

theorem crc_detection:
  "compute_crc data = nsp_compute_crc data
   \<and> (nsp_compute_crc (xs @ a # ys) = nsp_compute_crc (xs @ b # ys) \<longleftrightarrow> a = b)"
  using compute_crc_same crc_byte_inj by blast

end
