(* ===== verification/CalcHandle.thy ===== *)
theory CalcHandle
  imports LinkVti
begin

text \<open>
  The calculator handle of libticalcs and the functions of \<^verbatim>\<open>internal.h\<close> that every packet
  layer uses: the event functions, the busy flag taken when it is free, the progress
  callbacks. The cable below is the one of \<^verbatim>\<open>CableLayer\<close>. The handle is valid and a cable is
  attached to it; the null checks of the handle itself are not part of the model.
\<close>

section \<open>State\<close>

datatype calc_model =
    CALC_NONE | CALC_TI73 | CALC_TI82 | CALC_TI83 | CALC_TI83P | CALC_TI84P | CALC_TI85
  | CALC_TI86 | CALC_TI89 | CALC_TI89T | CALC_TI92 | CALC_TI92P | CALC_V200
  | CALC_TI84P_USB | CALC_TI89T_USB | CALC_NSPIRE | CALC_TI80
  | CALC_TI84PC | CALC_TI84PC_USB | CALC_TI83PCE_USB | CALC_TI84PCE_USB | CALC_TI82A_USB
  | CALC_TI84PT_USB | CALC_NSPIRE_CRADLE
  | CALC_NSPIRE_CLICKPAD | CALC_NSPIRE_CLICKPAD_CAS | CALC_NSPIRE_TOUCHPAD
  | CALC_NSPIRE_TOUCHPAD_CAS | CALC_NSPIRE_CX | CALC_NSPIRE_CX_CAS | CALC_NSPIRE_CMC
  | CALC_NSPIRE_CMC_CAS | CALC_NSPIRE_CXII | CALC_NSPIRE_CXII_CAS | CALC_NSPIRE_CXIIT
  | CALC_NSPIRE_CXIIT_CAS | CALC_TI82AEP_USB
  | CALC_TIPRESENTER | CALC_CBL | CALC_CBR | CALC_CBL2 | CALC_CBR2 | CALC_LABPRO
  | CALC_LABPRO_USB | CALC_EASYTEMP_GOTEMP_USB | CALC_EASYLINK_GOLINK_USB
  | CALC_CBR2_GOMOTION_USB | CALC_GODIRECT_USB
  | CALC_TI84EVO_USB | CALC_TI84EVOT_USB | CALC_TI83EVO_USB | CALC_MAX

text \<open>The event types of the packet layers.\<close>

datatype calc_event_type =
    CALC_EVENT_TYPE_BEFORE_SEND_DBUS_PKT | CALC_EVENT_TYPE_AFTER_SEND_DBUS_PKT
  | CALC_EVENT_TYPE_BEFORE_RECV_DBUS_PKT_HEADER | CALC_EVENT_TYPE_AFTER_RECV_DBUS_PKT_HEADER
  | CALC_EVENT_TYPE_BEFORE_RECV_DBUS_PKT_DATA | CALC_EVENT_TYPE_AFTER_RECV_DBUS_PKT_DATA
  | CALC_EVENT_TYPE_BEFORE_SEND_DUSB_RPKT | CALC_EVENT_TYPE_AFTER_SEND_DUSB_RPKT
  | CALC_EVENT_TYPE_BEFORE_RECV_DUSB_RPKT | CALC_EVENT_TYPE_AFTER_RECV_DUSB_RPKT
  | CALC_EVENT_TYPE_BEFORE_SEND_DUSB_VPKT | CALC_EVENT_TYPE_AFTER_SEND_DUSB_VPKT
  | CALC_EVENT_TYPE_BEFORE_RECV_DUSB_VPKT | CALC_EVENT_TYPE_AFTER_RECV_DUSB_VPKT
  | CALC_EVENT_TYPE_BEFORE_SEND_NSP_RPKT | CALC_EVENT_TYPE_AFTER_SEND_NSP_RPKT
  | CALC_EVENT_TYPE_BEFORE_RECV_NSP_RPKT | CALC_EVENT_TYPE_AFTER_RECV_NSP_RPKT
  | CALC_EVENT_TYPE_BEFORE_SEND_NSP_VPKT | CALC_EVENT_TYPE_AFTER_SEND_NSP_VPKT
  | CALC_EVENT_TYPE_BEFORE_RECV_NSP_VPKT | CALC_EVENT_TYPE_AFTER_RECV_NSP_VPKT
  | CALC_EVENT_TYPE_BEFORE_SEND_ROMDUMP_PKT | CALC_EVENT_TYPE_AFTER_SEND_ROMDUMP_PKT
  | CALC_EVENT_TYPE_BEFORE_RECV_ROMDUMP_PKT | CALC_EVENT_TYPE_AFTER_RECV_ROMDUMP_PKT

datatype calc_event_data =
    DBUSPacketData u16 u8 u8 "bytes option"
  | DUSBRawPacketData u32 u8 bytes
  | DUSBVirtualPacketData u32 u16 "bytes option"
  | NSPRawPacketData u16 u16 u16 u16 u16 u8 u8 u8 u8 bytes
  | NSPVirtualPacketData u16 u16 u16 u16 u8 u32 "bytes option"
  | ROMDumpPacketData u16 u16 bytes

record calc_event =
  kev_type :: calc_event_type
  kev_retval :: ret
  kev_attached :: bool
  kev_open :: bool
  kev_model :: calc_model
  kev_data :: calc_event_data

text \<open>
  The progress structure shared with the application. Its callbacks may change any of it;
  \<open>up_calls\<close> counts them, so that what a callback does may depend on the time of the call.
\<close>

record calc_updat =
  up_cancel :: bool
  up_cnt1 :: int
  up_max1 :: int
  up_calls :: nat

text \<open>
  The environment of a calculator handle: the one of its cable, the event hook and the two
  callbacks the packet layers call.
\<close>

record 'd calc_env = "'d cable_env" +
  ke_hook :: "(u32 \<Rightarrow> calc_event \<Rightarrow> ret) option"
  ke_pbar :: "calc_updat \<Rightarrow> calc_updat"
  ke_refresh :: "calc_updat \<Rightarrow> calc_updat"

text \<open>
  What the handle keeps for the NSpire layers, its fields \<^verbatim>\<open>nsp_*\<close>: the sequence numbers of both
  sides, the ports of the session, a status that came while another packet was waited for, and
  the state of the NNSE framing: the mode (0 as long as it is not known, 1 for plain NavNet, 2
  for NNSE), the handshake, sequence numbers, an additional port, bytes received ahead and
  payloads waiting to be delivered.
\<close>

record nsp_state =
  ns_seq_pc :: u8
  ns_seq :: u8
  ns_src_port :: u16
  ns_dst_port :: u16
  ns_pending_cmd :: u8
  ns_pending_status :: u8
  ns_has_pending_status :: bool
  ns_nnse_mode :: nat
  ns_handshake_done :: bool
  ns_seqno :: u16
  ns_last_stream_seqno :: u16
  ns_has_last_stream_seqno :: bool
  ns_passive_port :: u16
  ns_rx_buffer :: bytes
  ns_pending :: "bytes list"

text \<open>
  \<open>kh_buffer\<close> is \<^verbatim>\<open>handle->buffer\<close> (\<open>None\<close> for the null pointer);
  \<open>kh_send_ref\<close> and \<open>kh_recv_ref\<close> are the static counters of \<open>dbus_send\<close> and \<open>dbus_recv\<close>;
  \<open>kh_needs_mode_set\<close> is \<^verbatim>\<open>priv.dusb_needs_mode_set\<close>.
\<close>

record 'd calc_handle =
  kh_model :: calc_model
  kh_updat :: calc_updat
  kh_buffer :: "bytes option"
  kh_open :: bool
  kh_busy :: bool
  kh_cable :: "'d cable_handle"
  kh_attached :: bool
  kh_event_count :: u32
  kh_maxlen :: u32
  kh_blk_size :: nat
  kh_min_size :: nat
  kh_send_ref :: nat
  kh_recv_ref :: nat
  kh_needs_mode_set :: bool
  kh_nsp :: nsp_state

section \<open>Sequencing\<close>

text \<open>Continue after a call that may have failed: the \<^verbatim>\<open>if (!ret) ...\<close> of the sources.\<close>

definition andthen :: "ret \<times> 'h \<Rightarrow> ('h \<Rightarrow> ret \<times> 'h) \<Rightarrow> ret \<times> 'h" where
  "andthen rh k = (case rh of (None, h) \<Rightarrow> k h | (Some e, h) \<Rightarrow> (Some e, h))"

definition andthen_val ::
    "ret \<times> 'x \<times> 'h \<Rightarrow> ('x \<Rightarrow> 'h \<Rightarrow> ret \<times> 'x \<times> 'h) \<Rightarrow> ret \<times> 'x \<times> 'h" where
  "andthen_val rxh k = (case rxh of (None, x, h) \<Rightarrow> k x h | (Some e, x, h) \<Rightarrow> (Some e, x, h))"

lemma andthen_simps [simp]:
  "andthen (None, h) k = k h" "andthen (Some e, h) k = (Some e, h)"
  "andthen_val (None, x, h) k' = k' x h" "andthen_val (Some e, x, h) k' = (Some e, x, h)"
  by (simp_all add: andthen_def andthen_val_def)

section \<open>Events, flags and callbacks\<close>

definition ticalcs_event_fill_header ::
    "'d calc_handle \<Rightarrow> calc_event_type \<Rightarrow> ret \<Rightarrow> calc_event_data \<Rightarrow> calc_event" where
  "ticalcs_event_fill_header h type retval data =
     \<lparr>kev_type = type, kev_retval = retval, kev_attached = kh_attached h,
      kev_open = kh_open h, kev_model = kh_model h, kev_data = data\<rparr>"

definition ticalcs_event_send ::
    "'d calc_env \<Rightarrow> 'd calc_handle \<Rightarrow> calc_event \<Rightarrow> ret \<times> 'd calc_handle" where
  "ticalcs_event_send E h event =
     (case ke_hook E of
        None \<Rightarrow> (kev_retval event, h)
      | Some hook \<Rightarrow>
          (let h = h\<lparr>kh_event_count := kh_event_count h + 1\<rparr>
           in (hook (kh_event_count h) event, h)))"

definition fire ::
    "'d calc_env \<Rightarrow> calc_event_type \<Rightarrow> ret \<Rightarrow> calc_event_data \<Rightarrow> 'd calc_handle
       \<Rightarrow> ret \<times> 'd calc_handle" where
  "fire E type retval data h =
     ticalcs_event_send E h (ticalcs_event_fill_header h type retval data)"

text \<open>
  \<^verbatim>\<open>SET_HANDLE_BUSY_IF_NECESSARY\<close> and \<^verbatim>\<open>CLEAR_HANDLE_BUSY_IF_NECESSARY\<close>: the flag is taken
  unless a caller already holds it, and only who took it releases it.
\<close>

definition set_busy_if_necessary :: "'d calc_handle \<Rightarrow> bool \<times> 'd calc_handle" where
  "set_busy_if_necessary h =
     (kh_busy h, if \<not> kh_busy h then h\<lparr>kh_busy := True\<rparr> else h)"

definition clear_busy_if_necessary :: "bool \<Rightarrow> 'd calc_handle \<Rightarrow> 'd calc_handle" where
  "clear_busy_if_necessary busy h = (if \<not> busy then h\<lparr>kh_busy := False\<rparr> else h)"

text \<open>A function body between the two macros.\<close>

definition with_busy ::
    "'d calc_handle \<Rightarrow> ('d calc_handle \<Rightarrow> ret \<times> 'd calc_handle) \<Rightarrow> ret \<times> 'd calc_handle" where
  "with_busy h body =
     (let (busy, h) = set_busy_if_necessary h; (r, h) = body h
      in (r, clear_busy_if_necessary busy h))"

definition with_busy_val ::
    "'d calc_handle \<Rightarrow> ('d calc_handle \<Rightarrow> ret \<times> 'x \<times> 'd calc_handle)
       \<Rightarrow> ret \<times> 'x \<times> 'd calc_handle" where
  "with_busy_val h body =
     (let (busy, h) = set_busy_if_necessary h; (r, x, h) = body h
      in (r, x, clear_busy_if_necessary busy h))"

definition ticalcs_update_pbar :: "'d calc_env \<Rightarrow> 'd calc_handle \<Rightarrow> 'd calc_handle" where
  "ticalcs_update_pbar E h =
     h\<lparr>kh_updat := ke_pbar E ((kh_updat h)\<lparr>up_calls := up_calls (kh_updat h) + 1\<rparr>)\<rparr>"

definition ticalcs_update_refresh :: "'d calc_env \<Rightarrow> 'd calc_handle \<Rightarrow> 'd calc_handle" where
  "ticalcs_update_refresh E h =
     h\<lparr>kh_updat := ke_refresh E ((kh_updat h)\<lparr>up_calls := up_calls (kh_updat h) + 1\<rparr>)\<rparr>"

definition set_cnt1 :: "int \<Rightarrow> 'd calc_handle \<Rightarrow> 'd calc_handle" where
  "set_cnt1 n h = h\<lparr>kh_updat := (kh_updat h)\<lparr>up_cnt1 := n\<rparr>\<rparr>"

definition set_max1 :: "int \<Rightarrow> 'd calc_handle \<Rightarrow> 'd calc_handle" where
  "set_max1 n h = h\<lparr>kh_updat := (kh_updat h)\<lparr>up_max1 := n\<rparr>\<rparr>"

definition check_cancel :: "'d calc_handle \<Rightarrow> ret \<times> 'd calc_handle" where
  "check_cancel h = (if up_cancel (kh_updat h) then (Some ERR_ABORT, h) else (None, h))"

section \<open>The cable below\<close>

definition cable_send :: "'d calc_env \<Rightarrow> bytes \<Rightarrow> 'd calc_handle \<Rightarrow> ret \<times> 'd calc_handle" where
  "cable_send E bs h =
     (let (r, c) = ticables_cable_send E (Some bs) (kh_cable h) in (r, h\<lparr>kh_cable := c\<rparr>))"

text \<open>
  Every caller reads all the bytes it asked for. A driver that reports success without
  having filled the buffer makes it read memory nobody wrote.
\<close>

definition cable_recv :: "'d calc_env \<Rightarrow> nat \<Rightarrow> 'd calc_handle \<Rightarrow> ret \<times> bytes \<times> 'd calc_handle" where
  "cable_recv E n h =
     (let (r, bs, c) = ticables_cable_recv E n (kh_cable h)
      in (if r = None \<and> length bs \<noteq> n then Some UNDEFINED_BEHAVIOUR else r,
          bs, h\<lparr>kh_cable := c\<rparr>))"

definition progress_reset :: "'d calc_handle \<Rightarrow> 'd calc_handle" where
  "progress_reset h = h\<lparr>kh_cable := snd (ticables_progress_reset (kh_cable h))\<rparr>"

section \<open>The busy flag\<close>

text \<open>
  None of the helpers touches the busy flag; a body that keeps it, run between the two
  macros, leaves it as it was before them. The collection \<open>busy_keeps\<close> has one rule of the
  form \<open>f h = (r, h') \<Longrightarrow> kh_busy h' = kh_busy h\<close> per operation.
\<close>

named_theorems busy_keeps "operations that leave the busy flag as they found it"

lemma fire_busy [busy_keeps]: "fire E ty r0 d h = (r, h') \<Longrightarrow> kh_busy h' = kh_busy h"
  by (auto simp: fire_def ticalcs_event_send_def Let_def split: option.splits)

lemma cable_send_busy [busy_keeps]: "cable_send E bs h = (r, h') \<Longrightarrow> kh_busy h' = kh_busy h"
  by (auto simp: cable_send_def split: prod.splits)

lemma cable_recv_busy [busy_keeps]: "cable_recv E n h = (r, bs, h') \<Longrightarrow> kh_busy h' = kh_busy h"
  by (auto simp: cable_recv_def split: prod.splits)

lemma check_cancel_busy [busy_keeps]: "check_cancel h = (r, h') \<Longrightarrow> kh_busy h' = kh_busy h"
  by (auto simp: check_cancel_def split: if_splits)

lemma callback_busy [simp]:
  "kh_busy (ticalcs_update_pbar E h) = kh_busy h"
  "kh_busy (ticalcs_update_refresh E h) = kh_busy h"
  "kh_busy (set_cnt1 n h) = kh_busy h" "kh_busy (set_max1 n h) = kh_busy h"
  "kh_busy (progress_reset h) = kh_busy h"
  by (simp_all add: ticalcs_update_pbar_def ticalcs_update_refresh_def set_cnt1_def set_max1_def
        progress_reset_def)

lemma andthen_busy:
  "andthen (r0, h0) k = (r, h') \<Longrightarrow> kh_busy h0 = b \<Longrightarrow>
     (\<And>r h'. k h0 = (r, h') \<Longrightarrow> kh_busy h' = kh_busy h0) \<Longrightarrow> kh_busy h' = b"
  by (cases r0) auto

lemma busy_taken: "set_busy_if_necessary h = (kh_busy h, h\<lparr>kh_busy := True\<rparr>)"
  by (simp add: set_busy_if_necessary_def)

lemma with_busy_keeps:
  assumes "\<And>h r h'. body h = (r, h') \<Longrightarrow> kh_busy h' = kh_busy h"
  shows "with_busy h body = (r, h') \<Longrightarrow> kh_busy h' = kh_busy h"
  using assms by (auto simp: with_busy_def set_busy_if_necessary_def clear_busy_if_necessary_def
      split: prod.splits if_splits)

lemma with_busy_val_keeps:
  assumes "\<And>h r x h'. body h = (r, x, h') \<Longrightarrow> kh_busy h' = kh_busy h"
  shows "with_busy_val h body = (r, x, h') \<Longrightarrow> kh_busy h' = kh_busy h"
  using assms by (auto simp: with_busy_val_def set_busy_if_necessary_def clear_busy_if_necessary_def
      split: prod.splits if_splits)

section \<open>Operations on a link\<close>

text \<open>
  When a handle can transfer (open idle cable, driver in a good state, no pending cancel),
  and what a transfer does: bytes sent, bytes consumed, the flags as before.
\<close>

definition link_ready :: "('d \<Rightarrow> bool) \<Rightarrow> 'd calc_handle \<Rightarrow> bool" where
  "link_ready ok h \<longleftrightarrow> cb_open (kh_cable h) \<and> \<not> cb_busy (kh_cable h) \<and> ok (cb_dev (kh_cable h))
     \<and> \<not> up_cancel (kh_updat h)"

definition transfer ::
    "('d \<Rightarrow> bytes) \<Rightarrow> ('d \<Rightarrow> bytes) \<Rightarrow> ('d \<Rightarrow> bool) \<Rightarrow> 'd calc_handle \<Rightarrow> bytes \<Rightarrow> nat \<Rightarrow> 'd calc_handle \<Rightarrow> bool"
  where
  "transfer sent avail ok h out n h' \<longleftrightarrow> link_ready ok h' \<and> kh_busy h' = kh_busy h
     \<and> sent (cb_dev (kh_cable h')) = sent (cb_dev (kh_cable h)) @ out
     \<and> avail (cb_dev (kh_cable h')) = drop n (avail (cb_dev (kh_cable h)))"

section \<open>A quiet environment\<close>

text \<open>
  The environment in which the packet layers are used normally: no hooks installed, an
  application that does not cancel, a cable driver that provides the byte link. What the
  layers send and receive is stated over the link's \<open>sent\<close>, \<open>avail\<close> and \<open>room\<close>.
\<close>

locale quiet_link = byte_link send recv sent avail room ok
  for send :: "'d \<Rightarrow> bytes \<Rightarrow> ret \<times> 'd" and recv :: "'d \<Rightarrow> nat \<Rightarrow> ret \<times> bytes \<times> 'd"
    and sent avail :: "'d \<Rightarrow> bytes" and room :: "'d \<Rightarrow> nat" and ok :: "'d \<Rightarrow> bool" +
  fixes E :: "'d calc_env"
  assumes no_cable_hook: "ce_hook E = None"
    and no_calc_hook: "ke_hook E = None"
    and driver_send: "cf_send (ce_fncts E) = Some send"
    and driver_recv: "cf_recv (ce_fncts E) = Some recv"
    and pbar_quiet: "up_cancel (ke_pbar E u) = up_cancel u"
    and refresh_quiet: "up_cancel (ke_refresh E u) = up_cancel u"
begin

text \<open>A cable that is open, idle and on a link in a good state; what it will have after a transfer.\<close>

definition cable_ready :: "'d cable_handle \<Rightarrow> bool" where
  "cable_ready c \<longleftrightarrow> cb_open c \<and> \<not> cb_busy c \<and> ok (cb_dev c)"

definition c_sent :: "'d cable_handle \<Rightarrow> bytes" where "c_sent c = sent (cb_dev c)"
definition c_avail :: "'d cable_handle \<Rightarrow> bytes" where "c_avail c = avail (cb_dev c)"
definition c_room :: "'d cable_handle \<Rightarrow> nat" where "c_room c = room (cb_dev c)"

definition c_put :: "'d cable_handle \<Rightarrow> bytes \<Rightarrow> 'd cable_handle" where
  "c_put c bs = c\<lparr>cb_dev := after_send (cb_dev c) bs, cb_count := cb_count c + int (length bs)\<rparr>"

definition c_get :: "'d cable_handle \<Rightarrow> nat \<Rightarrow> 'd cable_handle" where
  "c_get c n = c\<lparr>cb_dev := after_recv (cb_dev c) n, cb_count := cb_count c + int n\<rparr>"

lemma cable_send_quiet:
  assumes "cable_ready (kh_cable h)" "length bs \<le> c_room (kh_cable h)"
  shows "cable_send E bs h = (None, h\<lparr>kh_cable := c_put (kh_cable h) bs\<rparr>)"
  using assms send_eq(1) [of "cb_dev (kh_cable h)" bs]
  by (simp add: cable_send_def ticables_cable_send_def guarded_def cable_ready_def Let_def
      ticables_event_send_def no_cable_hook driver_send driver_call_simple_def driver_call_def
      ticables_event_fill_data_def ticables_event_fill_header_def c_room_def c_put_def)

lemma cable_recv_quiet:
  assumes "cable_ready (kh_cable h)" "n \<le> length (c_avail (kh_cable h))"
  shows "cable_recv E n h =
      (None, take n (c_avail (kh_cable h)), h\<lparr>kh_cable := c_get (kh_cable h) n\<rparr>)"
  using assms recv_eq(1) [of "cb_dev (kh_cable h)" n]
  by (simp add: cable_recv_def ticables_cable_recv_def cable_ready_def Let_def
      ticables_event_send_def no_cable_hook driver_recv driver_call_def
      ticables_event_fill_data_def ticables_event_fill_header_def c_avail_def c_get_def)

lemma c_put_simps:
  assumes "cable_ready c" "length bs \<le> c_room c"
  shows "cable_ready (c_put c bs)" "c_sent (c_put c bs) = c_sent c @ bs"
    "c_avail (c_put c bs) = c_avail c" "c_room (c_put c bs) = c_room c - length bs"
  using assms send_eq [of "cb_dev c" bs]
  by (auto simp: cable_ready_def c_put_def c_sent_def c_avail_def c_room_def)

lemma c_get_simps:
  assumes "cable_ready c" "n \<le> length (c_avail c)"
  shows "cable_ready (c_get c n)" "c_sent (c_get c n) = c_sent c"
    "c_avail (c_get c n) = drop n (c_avail c)" "c_room (c_get c n) = c_room c"
  using assms recv_eq [of "cb_dev c" n]
  by (auto simp: cable_ready_def c_get_def c_sent_def c_avail_def c_room_def)

lemma c_model [simp]: "cb_model (c_put c bs) = cb_model c" "cb_model (c_get c n) = cb_model c"
  by (simp_all add: c_put_def c_get_def)

lemma progress_reset_quiet:
  "kh_cable (progress_reset h) = (kh_cable h)\<lparr>cb_count := 0\<rparr>"
  "cable_ready (c\<lparr>cb_count := n\<rparr>) = cable_ready c" "c_sent (c\<lparr>cb_count := n\<rparr>) = c_sent c"
  "c_avail (c\<lparr>cb_count := n\<rparr>) = c_avail c" "c_room (c\<lparr>cb_count := n\<rparr>) = c_room c"
  by (simp_all add: progress_reset_def ticables_progress_reset_def cable_ready_def c_sent_def
      c_avail_def c_room_def)

lemma fire_quiet: "fire E ty r d h = (r, h)"
  by (simp add: fire_def ticalcs_event_send_def ticalcs_event_fill_header_def no_calc_hook)

lemma check_cancel_quiet: "\<not> up_cancel (kh_updat h) \<Longrightarrow> check_cancel h = (None, h)"
  by (simp add: check_cancel_def)

text \<open>
  The effect of an operation on a quiet link: it sent \<open>out\<close>, consumed \<open>n\<close> bytes, and left the
  handle ready and its configuration alone. Effects compose.
\<close>

definition ready :: "'d calc_handle \<Rightarrow> bool" where
  "ready h \<longleftrightarrow> cable_ready (kh_cable h) \<and> \<not> up_cancel (kh_updat h)"

definition moved :: "'d calc_handle \<Rightarrow> bytes \<Rightarrow> nat \<Rightarrow> 'd calc_handle \<Rightarrow> bool" where
  "moved h out n h' \<longleftrightarrow> ready h'
     \<and> length out \<le> c_room (kh_cable h) \<and> n \<le> length (c_avail (kh_cable h))
     \<and> c_sent (kh_cable h') = c_sent (kh_cable h) @ out
     \<and> c_avail (kh_cable h') = drop n (c_avail (kh_cable h))
     \<and> c_room (kh_cable h') = c_room (kh_cable h) - length out
     \<and> cb_model (kh_cable h') = cb_model (kh_cable h)
     \<and> kh_model h' = kh_model h \<and> kh_busy h' = kh_busy h \<and> kh_maxlen h' = kh_maxlen h
     \<and> kh_needs_mode_set h' = kh_needs_mode_set h"

definition stepped :: "'d calc_handle \<Rightarrow> bytes \<Rightarrow> nat \<Rightarrow> 'd calc_handle \<Rightarrow> bool" where
  "stepped h out n h' \<longleftrightarrow> moved h out n h' \<and> kh_buffer h' = kh_buffer h
     \<and> kh_blk_size h' = kh_blk_size h \<and> kh_min_size h' = kh_min_size h \<and> kh_nsp h' = kh_nsp h"

lemma moved_trans:
  "moved h out n h1 \<Longrightarrow> moved h1 out' n' h2 \<Longrightarrow> moved h (out @ out') (n + n') h2"
  by (auto simp: moved_def add.commute)

lemma stepped_trans:
  "stepped h out n h1 \<Longrightarrow> stepped h1 out' n' h2 \<Longrightarrow> stepped h (out @ out') (n + n') h2"
  using moved_trans by (auto simp: stepped_def)

lemma stepped_refl: "ready h \<Longrightarrow> stepped h [] 0 h"
  by (simp add: stepped_def moved_def)

lemma moved_ready: "moved h out n h' \<Longrightarrow> ready h'"
  by (simp add: moved_def)

lemma callbacks_ready [simp]:
  "ready (ticalcs_update_pbar E h) = ready h" "ready (ticalcs_update_refresh E h) = ready h"
  "ready (set_cnt1 k h) = ready h" "ready (set_max1 k h) = ready h"
  "ready (progress_reset h) = ready h"
  by (simp_all add: ready_def ticalcs_update_pbar_def ticalcs_update_refresh_def set_cnt1_def
      set_max1_def pbar_quiet refresh_quiet progress_reset_quiet) (simp add: progress_reset_def)

lemma send_stepped:
  assumes "ready h" "length bs \<le> c_room (kh_cable h)"
  shows "\<exists>h'. cable_send E bs h = (None, h') \<and> stepped h bs 0 h'"
  using assms cable_send_quiet [of h bs] c_put_simps [of "kh_cable h" bs]
  by (auto simp: ready_def stepped_def moved_def)

lemma recv_stepped:
  assumes "ready h" "n \<le> length (c_avail (kh_cable h))"
  shows "\<exists>h'. cable_recv E n h = (None, take n (c_avail (kh_cable h)), h') \<and> stepped h [] n h'"
  using assms cable_recv_quiet [of h n] c_get_simps [of "kh_cable h" n]
  by (auto simp: ready_def stepped_def moved_def)

lemma link_ready_iff: "link_ready ok h = ready h"
  by (simp add: link_ready_def ready_def cable_ready_def)

lemma moved_transfer: "moved h out n h' \<Longrightarrow> transfer sent avail ok h out n h'"
  by (simp add: moved_def transfer_def link_ready_iff c_sent_def c_avail_def)

text \<open>The busy flag is set inside and given back outside.\<close>

lemma with_busy_moved:
  assumes "\<exists>h'. body (h\<lparr>kh_busy := True\<rparr>) = (None, h') \<and> moved (h\<lparr>kh_busy := True\<rparr>) out n h'"
  shows "\<exists>h'. with_busy h body = (None, h') \<and> moved h out n h'"
  using assms by (auto simp: with_busy_def busy_taken clear_busy_if_necessary_def moved_def ready_def)

lemma with_busy_val_moved:
  assumes "\<exists>h'. body (h\<lparr>kh_busy := True\<rparr>) = (r, x, h') \<and> moved (h\<lparr>kh_busy := True\<rparr>) out n h'"
  shows "\<exists>h'. with_busy_val h body = (r, x, h') \<and> moved h out n h'"
  using assms by (auto simp: with_busy_val_def busy_taken clear_busy_if_necessary_def moved_def ready_def)

lemma ready_update [simp]:
  "ready (h\<lparr>kh_busy := b\<rparr>) = ready h" "ready (h\<lparr>kh_buffer := u\<rparr>) = ready h"
  "ready (h\<lparr>kh_send_ref := k\<rparr>) = ready h" "ready (h\<lparr>kh_recv_ref := k\<rparr>) = ready h"
  "ready (h\<lparr>kh_maxlen := m\<rparr>) = ready h"
  by (simp_all add: ready_def)

lemmas quiet_simps =
  cable_send_quiet cable_recv_quiet c_put_simps c_get_simps progress_reset_quiet fire_quiet
  check_cancel_quiet

end

text \<open>The virtual link, with an application that only looks at the progress, is one.\<close>

definition vti_env :: "vti_sys \<Rightarrow> vti_dev calc_env" where
  "vti_env S =
     \<lparr>ce_fncts = cable_vti S, ce_free_device = (\<lambda>d. d\<lparr>vd_device := None\<rparr>),
      ce_free_priv2 = (\<lambda>d. d), ce_hook = None, ke_hook = None, ke_pbar = (\<lambda>u. u),
      ke_refresh = (\<lambda>u. u)\<rparr>"

interpretation quiet_vti: quiet_link vti_put vti_get vti_sent vti_avail vti_room vti_ok "vti_env S"
  for S
  by unfold_locales (simp_all add: vti_env_def cable_vti_def)

section \<open>Concrete handles\<close>

text \<open>
  Handles on the virtual link: segments with nothing in them, a segment holding given bytes
  for the reader, and the other end of the same pair of segments.
\<close>

definition loaded_buffer :: "bytes \<Rightarrow> link_buffer" where
  "loaded_buffer bs =
     \<lparr>lb_buf = bs @ replicate (1024 - length bs) 0, lb_start = 0, lb_end = length bs\<rparr>"

definition vti_loaded :: "bytes \<Rightarrow> vti_dev" where
  "vti_loaded bs = \<lparr>vd_port = PORT_1, vd_address = 0, vd_device = None,
     vd_shm0 = loaded_buffer [], vd_shm1 = loaded_buffer bs\<rparr>"

definition vti_peer :: "vti_dev \<Rightarrow> vti_dev" where
  "vti_peer d = d\<lparr>vd_address := (if vd_address d = 0 then 1 else 0)\<rparr>"

definition nsp_reset_state :: nsp_state where
  "nsp_reset_state =
     \<lparr>ns_seq_pc = 0, ns_seq = 0, ns_src_port = 0, ns_dst_port = 0, ns_pending_cmd = 0,
      ns_pending_status = 0, ns_has_pending_status = False, ns_nnse_mode = 0,
      ns_handshake_done = False, ns_seqno = 0, ns_last_stream_seqno = 0,
      ns_has_last_stream_seqno = False, ns_passive_port = 0, ns_rx_buffer = [], ns_pending = []\<rparr>"

definition vti_handle :: "calc_model \<Rightarrow> vti_dev \<Rightarrow> vti_dev calc_handle" where
  "vti_handle m d =
     \<lparr>kh_model = m, kh_updat = \<lparr>up_cancel = False, up_cnt1 = 0, up_max1 = 0, up_calls = 0\<rparr>,
      kh_buffer = Some (replicate 65542 0), kh_open = True, kh_busy = False,
      kh_cable = \<lparr>cb_model = CABLE_VTI, cb_dev = d, cb_open = True, cb_busy = False,
                  cb_count = 0, cb_event_count = 0, cb_timeout = 15\<rparr>,
      kh_attached = True, kh_event_count = 0, kh_maxlen = 250, kh_blk_size = 0,
      kh_min_size = 0, kh_send_ref = 0, kh_recv_ref = 0,
      kh_needs_mode_set = False, kh_nsp = nsp_reset_state\<rparr>"

definition vti_works :: vti_sys where
  "vti_works = \<lparr>vs_ftok = (\<lambda>_. True), vs_shmget = (\<lambda>_. True), vs_shmat = (\<lambda>_. True),
     vs_shmdt = (\<lambda>_. True), vs_shmctl = (\<lambda>_. True)\<rparr>"

lemma loaded_buffer_ok:
  assumes "length bs \<le> 255"
  shows "lb_inv (loaded_buffer bs)" "lb_used (loaded_buffer bs) = length bs"
    "lb_contents (loaded_buffer bs) = bs"
proof -
  show inv: "lb_inv (loaded_buffer bs)" using assms by (simp add: lb_inv_def loaded_buffer_def)
  show used: "lb_used (loaded_buffer bs) = length bs"
    using inv by (simp add: lb_used_if) (simp add: loaded_buffer_def)
  show "lb_contents (loaded_buffer bs) = bs"
    unfolding lb_contents_def used
    by (rule nth_equalityI) (use assms in \<open>simp_all add: loaded_buffer_def nth_append\<close>)
qed

lemma vti_loaded_simps [simp]:
  assumes "length bs \<le> 255"
  shows "vti_ok (vti_loaded bs)" "vti_avail (vti_loaded bs) = bs" "vti_sent (vti_loaded bs) = []"
    "vti_room (vti_loaded bs) = 255"
  using assms loaded_buffer_ok [of bs] loaded_buffer_ok [of "[]"]
  by (simp_all add: vti_ok_def vti_loaded_def vti_avail_def vti_sent_def vti_room_def
      send_buf_def recv_buf_def)

lemma vti_peer_simps [simp]:
  "vti_ok (vti_peer d) = vti_ok d" "vti_sent (vti_peer d) = vti_avail d"
  "vti_avail (vti_peer d) = vti_sent d"
  by (simp_all add: vti_peer_def vti_ok_def vti_sent_def vti_avail_def send_buf_def recv_buf_def)

lemma vti_handle_simps [simp]:
  "link_ready vti_ok (vti_handle m d) = vti_ok d"
  "kh_buffer (vti_handle m d) = Some (replicate 65542 0)"
  "cb_dev (kh_cable (vti_handle m d)) = d" "kh_busy (vti_handle m d) = False"
  "kh_model (vti_handle m d) = m" "kh_maxlen (vti_handle m d) = 250"
  by (simp_all add: vti_handle_def link_ready_def)

end
