(* ===== verification/DbusPkt.thy ===== *)
theory DbusPkt
  imports CalcHandle Checksum
begin

text \<open>
  The packet layer of the link-cable protocol, \<^verbatim>\<open>libticalcs/trunk/src/dbus_pkt.cc\<close>: the
  tables of commands and machines, sending a packet in chunks, receiving its header and its
  data, and the consistency checks of the packet dissector. The formatted output of the
  dissector is represented by the values it prints.
\<close>

section \<open>Commands and machines\<close>

abbreviation "DBUS_MID_PC_TI80 \<equiv> (0x00 :: u8)"
abbreviation "DBUS_MID_TI80_PC \<equiv> (0x80 :: u8)"

abbreviation "DBUS_CMD_VAR \<equiv> (0x06 :: u8)"
abbreviation "DBUS_CMD_CTS \<equiv> (0x09 :: u8)"
abbreviation "DBUS_CMD_XDP \<equiv> (0x15 :: u8)"
abbreviation "DBUS_CMD_SKP \<equiv> (0x36 :: u8)"
abbreviation "DBUS_CMD_SID \<equiv> (0x47 :: u8)"
abbreviation "DBUS_CMD_ACK \<equiv> (0x56 :: u8)"
abbreviation "DBUS_CMD_ERR \<equiv> (0x5A :: u8)"
abbreviation "DBUS_CMD_RDY \<equiv> (0x68 :: u8)"
abbreviation "DBUS_CMD_SCR \<equiv> (0x6D :: u8)"
abbreviation "DBUS_CMD_RID \<equiv> (0x74 :: u8)"
abbreviation "DBUS_CMD_CNT \<equiv> (0x78 :: u8)"
abbreviation "DBUS_CMD_KEY \<equiv> (0x87 :: u8)"
abbreviation "DBUS_CMD_EOT \<equiv> (0x92 :: u8)"
abbreviation "DBUS_CMD_REQ \<equiv> (0xA2 :: u8)"
abbreviation "DBUS_CMD_ERR2 \<equiv> (0xB4 :: u8)"
abbreviation "DBUS_CMD_IND \<equiv> (0xB7 :: u8)"
abbreviation "DBUS_CMD_RTS \<equiv> (0xC9 :: u8)"

record dbus_cmd_info =
  dci_id :: u8
  dci_has_data :: bool
  dci_name :: string
  dci_officialname :: string
  dci_description :: string

definition cmd_info :: "u8 \<Rightarrow> nat \<Rightarrow> string \<Rightarrow> string \<Rightarrow> string \<Rightarrow> dbus_cmd_info" where
  "cmd_info i d n o' s = \<lparr>dci_id = i, dci_has_data = (d = 1), dci_name = n,
     dci_officialname = o', dci_description = s\<rparr>"

definition cmd_types :: "dbus_cmd_info list" where
  "cmd_types =
    [cmd_info 0x06 1 ''VAR'' ''RTS'' ''Variable header'',
     cmd_info 0x09 0 ''CTS'' ''RDY'' ''Continue To Send'',
     cmd_info 0x15 1 ''XDP'' ''XDP'' ''Data Packet'',
     cmd_info 0x29 0 ''ELD'' ''EBL'' ''Enable LockDown'',
     cmd_info 0x2A 0 ''DLD'' ''DBL'' ''Disable LockDown'',
     cmd_info 0x2B 0 ''EKE'' ''EKE'' ''Enable Key Echo'',
     cmd_info 0x2C 0 ''DKE'' ''DKE'' ''Disable Key Echo'',
     cmd_info 0x2D 0 ''VER'' ''RDI'' ''Request version'',
     cmd_info 0x36 1 ''SKP'' ''EOR'' ''Skip/Exit'',
     cmd_info 0x47 1 ''SID'' ''SIOA'' ''Send calc ID'',
     cmd_info 0x56 0 ''ACK'' ''ACK'' ''Acknowledge'',
     cmd_info 0x5A 1 ''ERR'' ''CHK'' ''Checksum error'',
     cmd_info 0x68 0 ''RDY'' ''RDC'' ''Test calculator ready'',
     cmd_info 0x6D 0 ''SCR'' ''REQ'' ''Request screenshot'',
     cmd_info 0x6E 0 ''GID'' ''???'' ''Get calculator ID (from cert)'',
     cmd_info 0x6F 1 ''DMP'' ''???'' ''Request memory page dump'',
     cmd_info 0x70 1 ''TG2'' ''???'' ''TestGuard 2 packet'',
     cmd_info 0x74 0 ''RID'' ''RIOA'' ''Request calc ID'',
     cmd_info 0x78 0 ''CNT'' ''RTC'' ''Continue'',
     cmd_info 0x87 0 ''KEY'' ''SKY'' ''Send key'',
     cmd_info 0x88 1 ''DEL'' ''DVL'' ''Delete variable / app'',
     cmd_info 0x89 1 ''RUN'' ''EPL'' ''Run variable / app'',
     cmd_info 0x92 0 ''EOT'' ''DONE'' ''End Of Transmission'',
     cmd_info 0xA2 1 ''REQ'' ''GET'' ''Request variable'',
     cmd_info 0xB4 1 ''ERR2'' ''???'' ''Checksum error'',
     cmd_info 0xB7 1 ''IND'' ''GTE'' ''Request variable index'',
     cmd_info 0xC9 1 ''RTS'' ''SEND'' ''Request To Send'',
     cmd_info 0xCA 1 ''RSE'' ''SETP'' ''Request to Send and Execute'']"

definition machine_types :: "(u8 \<times> string) list" where
  "machine_types =
    [(0x00, ''PC>TI''), (0x02, ''PC>TI''), (0x03, ''PC>TI''), (0x05, ''PC>TI''),
     (0x06, ''PC>TI''), (0x07, ''PC>TI''), (0x08, ''PC>TI''), (0x09, ''PC>TI''),
     (0x12, ''CBL>TI''), (0x15, ''CBL>TI''), (0x19, ''CBL>TI''), (0x23, ''PC>TI''),
     (0x42, ''CBL2>PC''), (0x43, ''TIPR>PC''), (0x73, ''TI>PC''), (0x74, ''TI>PC''),
     (0x80, ''TI>PC''), (0x82, ''TI>PC|TI_CBL''), (0x83, ''TI>PC''),
     (0x85, ''TI>PC|TI>CBL''), (0x86, ''TI>PC''), (0x88, ''TI>PC''),
     (0x89, ''TI>PC|TI>CBL''), (0x95, ''TI>CBL''), (0x98, ''TI>PC'')]"

definition cmd_lookup :: "(dbus_cmd_info \<Rightarrow> string) \<Rightarrow> u8 \<Rightarrow> string" where
  "cmd_lookup f cid = (case find (\<lambda>c. cid = dci_id c) cmd_types of None \<Rightarrow> '''' | Some c \<Rightarrow> f c)"

definition dbus_cmd2name :: "u8 \<Rightarrow> string" where
  "dbus_cmd2name cid = cmd_lookup dci_name cid"

definition dbus_cmd2officialname :: "u8 \<Rightarrow> string" where
  "dbus_cmd2officialname cid = cmd_lookup dci_officialname cid"

definition dbus_cmd2desc :: "u8 \<Rightarrow> string" where
  "dbus_cmd2desc cid = cmd_lookup dci_description cid"

definition dbus_mid2direction :: "u8 \<Rightarrow> string" where
  "dbus_mid2direction cid =
     (case find (\<lambda>m. cid = fst m) machine_types of None \<Rightarrow> '''' | Some m \<Rightarrow> snd m)"

section \<open>Sending\<close>

text \<open>The packet is laid out in the handle's buffer; the copies stay inside it or the outcome is \<open>None\<close>.\<close>

definition dbus_fill_buffer :: "bytes \<Rightarrow> u8 \<Rightarrow> u8 \<Rightarrow> nat \<Rightarrow> bytes \<Rightarrow> bytes option" where
  "dbus_fill_buffer buf target cmd nlen data =
     (let l = of_nat nlen :: u32 in
      Option.bind (memcpy_at buf 0 [target, cmd, LSB l, MSB l]) (\<lambda>buf.
      Option.bind (memcpy_from data 0 nlen) (\<lambda>d.
      Option.bind (memcpy_at buf 4 d) (\<lambda>buf.
        (let sum = tifiles_checksum d
         in memcpy_at buf (nlen + 4) [LSB sum, MSB sum])))))"

text \<open>After each chunk: advance the progress, show it for long packets, stop when cancelled.\<close>

definition chunk_done :: "'d calc_env \<Rightarrow> nat \<Rightarrow> int \<Rightarrow> 'd calc_handle \<Rightarrow> ret \<times> 'd calc_handle" where
  "chunk_done E nlen n h =
     (let h = set_cnt1 (up_cnt1 (kh_updat h) + n) h;
          h = (if kh_min_size h < nlen then ticalcs_update_pbar E h else h)
      in check_cancel h)"

fun dbus_send_chunks ::
    "'d calc_env \<Rightarrow> bytes \<Rightarrow> nat \<Rightarrow> nat \<Rightarrow> nat \<Rightarrow> 'd calc_handle \<Rightarrow> ret \<times> nat \<times> 'd calc_handle" where
  "dbus_send_chunks E buf nlen 0 i h = (None, i, h)"
| "dbus_send_chunks E buf nlen (Suc q) i h =
     (let blk = kh_blk_size h;
          (r, h) = andthen (cable_send E (take blk (drop (i * blk) buf)) h)
                     (chunk_done E nlen (int blk))
      in (case r of None \<Rightarrow> dbus_send_chunks E buf nlen q (i + 1) h
          | Some e \<Rightarrow> (Some e, i, h)))"

definition dbus_min_size :: "'d calc_handle \<Rightarrow> nat" where
  "dbus_min_size h = (if cb_model (kh_cable h) = CABLE_GRY then 512 else 2048)"

definition dbus_send_blk :: "nat \<Rightarrow> nat" where
  "dbus_send_blk nlen =
     (let blk = (nlen + 6) div 20;
          blk = (if blk = 0 then nlen + 6 else blk)
      in if blk < 32 then 128 else blk)"

definition dbus_send_std ::
    "'d calc_env \<Rightarrow> bytes \<Rightarrow> nat \<Rightarrow> 'd calc_handle \<Rightarrow> ret \<times> 'd calc_handle" where
  "dbus_send_std E buf nlen h =
     (let h = h\<lparr>kh_min_size := dbus_min_size h, kh_blk_size := dbus_send_blk nlen\<rparr>;
          q = (nlen + 6) div kh_blk_size h;
          m = (nlen + 6) mod kh_blk_size h;
          h = set_cnt1 0 (set_max1 (int nlen + 6) h);
          (r, i, h) = dbus_send_chunks E buf nlen q 0 h
      in (case r of Some e \<Rightarrow> (Some e, h)
          | None \<Rightarrow> andthen (cable_send E (take m (drop (i * kh_blk_size h) buf)) h)
                      (chunk_done E nlen 1)))"

definition dbus_send_packet ::
    "'d calc_env \<Rightarrow> bytes \<Rightarrow> u8 \<Rightarrow> u8 \<Rightarrow> nat \<Rightarrow> bytes option \<Rightarrow> 'd calc_handle \<Rightarrow> ret \<times> 'd calc_handle" where
  "dbus_send_packet E buf target cmd nlen data h =
     (case data of
        None \<Rightarrow>
          (case memcpy_at buf 0 [target, cmd, 0x00, 0x00] of
             None \<Rightarrow> (Some UNDEFINED_BEHAVIOUR, h)
           | Some buf \<Rightarrow>
               cable_send E (take (if target = DBUS_MID_PC_TI80 then 2 else 4) buf)
                 (h\<lparr>kh_buffer := Some buf\<rparr>))
      | Some d \<Rightarrow>
          (case dbus_fill_buffer buf target cmd nlen d of
             None \<Rightarrow> (Some UNDEFINED_BEHAVIOUR, h)
           | Some buf \<Rightarrow> dbus_send_std E buf nlen (h\<lparr>kh_buffer := Some buf\<rparr>)))"

definition dbus_send ::
    "'d calc_env \<Rightarrow> u8 \<Rightarrow> u8 \<Rightarrow> u16 \<Rightarrow> bytes option \<Rightarrow> 'd calc_handle \<Rightarrow> ret \<times> 'd calc_handle" where
  "dbus_send E target cmd len data h =
     (let nlen = (if len = 0 then 65536 else unat len) in
      case kh_buffer h of None \<Rightarrow> (Some ERR_INVALID_HANDLE, h)
      | Some buf \<Rightarrow> with_busy h (\<lambda>h.
         (let h = progress_reset h;
              ev = DBUSPacketData (of_nat nlen) target cmd data;
              (r, h) = andthen (fire E CALC_EVENT_TYPE_BEFORE_SEND_DBUS_PKT None ev h) (\<lambda>h.
                andthen (dbus_send_packet E buf target cmd nlen data h) (\<lambda>h.
                  (None, (if kh_send_ref h mod 4 = 0 then ticalcs_update_refresh E else id)
                            (h\<lparr>kh_send_ref := kh_send_ref h + 1\<rparr>))))
          in fire E CALC_EVENT_TYPE_AFTER_SEND_DBUS_PKT r ev h)))"

section \<open>Receiving\<close>

text \<open>
  \<open>host\<close>, \<open>cmd\<close> and \<open>len\<close> are the caller's variables; they keep their value where the
  function fails before writing them.
\<close>

definition dbus_recv_header ::
    "'d calc_env \<Rightarrow> u8 \<times> u8 \<times> u16 \<Rightarrow> 'd calc_handle \<Rightarrow> ret \<times> (u8 \<times> u8 \<times> u16) \<times> 'd calc_handle" where
  "dbus_recv_header E hcl h = with_busy_val h (\<lambda>h.
     (let (r, h) = fire E CALC_EVENT_TYPE_BEFORE_RECV_DBUS_PKT_HEADER None
            (DBUSPacketData 0 0 0 None) h;
          (r, hcl, h) = (case r of Some e \<Rightarrow> (Some e, hcl, h) | None \<Rightarrow>
            (let (r, bs, h) = cable_recv E 2 h
             in (case r of Some e \<Rightarrow> (Some e, hcl, h) | None \<Rightarrow>
               (let host = bs ! 0; cmd = bs ! 1
                in if host \<noteq> DBUS_MID_TI80_PC \<or> cmd = DBUS_CMD_XDP then
                     (let (r, bs, h) = cable_recv E 2 h
                      in (case r of Some e \<Rightarrow> (Some e, (host, cmd, snd (snd hcl)), h)
                          | None \<Rightarrow> (None, (host, cmd, ucast (bs ! 0) OR push_bit 8 (ucast (bs ! 1))), h)))
                   else (None, (host, cmd, 0), h)))));
          (host, cmd, len) = hcl;
          (r, h) = fire E CALC_EVENT_TYPE_AFTER_RECV_DBUS_PKT_HEADER r
            (DBUSPacketData len host cmd None) h
      in (r, hcl, h)))"

text \<open>The chunks are written to the caller's array one after the other.\<close>

fun dbus_recv_chunks ::
    "'d calc_env \<Rightarrow> nat \<Rightarrow> nat \<Rightarrow> nat \<Rightarrow> bytes \<Rightarrow> 'd calc_handle
       \<Rightarrow> ret \<times> (nat \<times> bytes) \<times> 'd calc_handle" where
  "dbus_recv_chunks E nlen 0 i data h = (None, (i, data), h)"
| "dbus_recv_chunks E nlen (Suc q) i data h =
     (let blk = kh_blk_size h; (r, bs, h) = cable_recv E blk h
      in (case memcpy_at data (i * blk) bs of
            None \<Rightarrow> (Some UNDEFINED_BEHAVIOUR, (i, data), h)
          | Some data \<Rightarrow>
              (let (r, h) = andthen (r, h) (chunk_done E nlen (int blk))
               in (case r of None \<Rightarrow> dbus_recv_chunks E nlen q (i + 1) data h
                   | Some e \<Rightarrow> (Some e, (i, data), h)))))"

text \<open>The last, shorter chunk, and the two bytes of the checksum.\<close>

definition dbus_recv_last ::
    "'d calc_env \<Rightarrow> nat \<Rightarrow> nat \<Rightarrow> nat \<Rightarrow> bytes \<Rightarrow> 'd calc_handle \<Rightarrow> ret \<times> bytes \<times> 'd calc_handle" where
  "dbus_recv_last E nlen m i data h =
     (let (r, bs, h) = cable_recv E m h
      in (case memcpy_at data (i * kh_blk_size h) bs of
            None \<Rightarrow> (Some UNDEFINED_BEHAVIOUR, data, h)
          | Some data \<Rightarrow> (case r of Some e \<Rightarrow> (Some e, data, h) | None \<Rightarrow>
              (let (r, sum, h) = cable_recv E 2 h;
                   (r, h) = andthen (r, h) (chunk_done E nlen 1)
               in (case r of Some e \<Rightarrow> (Some e, data, h) | None \<Rightarrow>
                 (if ucast (sum ! 0) OR push_bit 8 (ucast (sum ! 1))
                       \<noteq> tifiles_checksum (take nlen data)
                  then (Some ERR_CHECKSUM, data, h) else (None, data, h)))))))"

definition dbus_recv_blk :: "nat \<Rightarrow> nat" where
  "dbus_recv_blk nlen = (let blk = nlen div 20 in if blk = 0 then 1 else blk)"

definition dbus_recv_data ::
    "'d calc_env \<Rightarrow> u16 \<Rightarrow> bytes \<Rightarrow> 'd calc_handle \<Rightarrow> ret \<times> bytes \<times> 'd calc_handle" where
  "dbus_recv_data E len data h = with_busy_val h (\<lambda>h.
     (let nlen = unat len;
          (r, h) = fire E CALC_EVENT_TYPE_BEFORE_RECV_DBUS_PKT_DATA None
            (DBUSPacketData len 0 0 (Some data)) h;
          (r, data, h) = (case r of Some e \<Rightarrow> (Some e, data, h) | None \<Rightarrow>
            (let h = h\<lparr>kh_min_size := dbus_min_size h,
                       kh_blk_size := dbus_recv_blk nlen\<rparr>;
                 q = nlen div kh_blk_size h;
                 m = nlen mod kh_blk_size h;
                 h = set_cnt1 0 (set_max1 (int nlen) h);
                 (r, (i, data), h) = dbus_recv_chunks E nlen q 0 data h
             in (case r of Some e \<Rightarrow> (Some e, data, h)
                 | None \<Rightarrow> dbus_recv_last E nlen m i data h)));
          (r, h) = fire E CALC_EVENT_TYPE_AFTER_RECV_DBUS_PKT_DATA r
            (DBUSPacketData len 0 0 (Some data)) h
      in (r, data, h)))"

text \<open>The commands that \<open>dbus_recv\<close> knows: the ones with data and the short ones.\<close>

definition dbus_data_cmds :: "u8 list" where
  "dbus_data_cmds = [DBUS_CMD_VAR, DBUS_CMD_XDP, DBUS_CMD_SKP, DBUS_CMD_SID, DBUS_CMD_REQ,
                     DBUS_CMD_IND, DBUS_CMD_RTS]"

definition dbus_short_cmds :: "u8 list" where
  "dbus_short_cmds = [DBUS_CMD_CTS, DBUS_CMD_ACK, DBUS_CMD_ERR, DBUS_CMD_ERR2, DBUS_CMD_RDY,
                      DBUS_CMD_SCR, DBUS_CMD_RID, DBUS_CMD_KEY, DBUS_CMD_EOT, DBUS_CMD_CNT]"

text \<open>
  \<open>data\<close> is \<open>None\<close> when the caller passes the null pointer, which \<open>dbus_recv_data\<close> rejects.
  A command in neither list leaves by a \<^verbatim>\<open>return\<close> before the macro that releases the busy flag.
\<close>

definition dbus_recv ::
    "'d calc_env \<Rightarrow> u8 \<times> u8 \<times> u16 \<Rightarrow> bytes option \<Rightarrow> 'd calc_handle
       \<Rightarrow> ret \<times> ((u8 \<times> u8 \<times> u16) \<times> bytes option) \<times> 'd calc_handle" where
  "dbus_recv E hcl data h =
     (let (busy, h) = set_busy_if_necessary h;
          (r, hcl, h) = dbus_recv_header E hcl h;
          (host, cmd, len) = hcl
      in (case r of Some e \<Rightarrow> (Some e, (hcl, data), clear_busy_if_necessary busy h)
          | None \<Rightarrow>
            if cmd = DBUS_CMD_ERR \<or> cmd = DBUS_CMD_ERR2 then
              (Some ERR_CHECKSUM, (hcl, data), clear_busy_if_necessary busy h)
            else if cmd \<notin> set dbus_data_cmds \<and> cmd \<notin> set dbus_short_cmds then
              (Some ERR_INVALID_CMD, (hcl, data), h)
            else
              (let (r, data, h) = (if cmd \<in> set dbus_data_cmds then
                     (case data of None \<Rightarrow> (Some ERR_INVALID_PARAMETER, None, h)
                      | Some d \<Rightarrow> (let (r, d, h) = dbus_recv_data E len d h in (r, Some d, h)))
                   else (None, data, h));
                   (r, h) = andthen (r, h) (\<lambda>h.
                     (None, (if kh_recv_ref h mod 4 = 0 then ticalcs_update_refresh E else id)
                               (h\<lparr>kh_recv_ref := kh_recv_ref h + 1\<rparr>)))
               in (r, (hcl, data), clear_busy_if_necessary busy h))))"

section \<open>The dissector\<close>

text \<open>What the dissector prints about a packet it accepts.\<close>

record dbus_dissected =
  dd_length :: u16
  dd_mid :: u8
  dd_cmd :: u8
  dd_mismatch :: bool
  dd_dump :: bytes

text \<open>The label \<^verbatim>\<open>read_length\<close>: the length field and the packet length it implies.\<close>

definition dbus_read_length :: "bytes \<Rightarrow> u16 \<times> nat" where
  "dbus_read_length data =
     (let len = (if 4 \<le> length data then push_bit 8 (ucast (data ! 3)) OR ucast (data ! 2) else 0)
      in (len, if len = 0 then 4 else 6 + unat len))"

definition dbus_expected_length :: "bytes \<Rightarrow> errcode + u16 \<times> nat" where
  "dbus_expected_length data =
     (let mid = data ! 0; cmd = data ! 1 in
      if mid = DBUS_MID_PC_TI80 then
        (if cmd = DBUS_CMD_SCR then
           (if length data = 2 then Inr (0, 2) else Inr (dbus_read_length data))
         else Inr (dbus_read_length data))
      else if mid = DBUS_MID_TI80_PC then
        (if cmd = DBUS_CMD_ACK then
           (if length data \<noteq> 2 then Inl ERR_INVALID_PACKET else Inr (0, 2))
         else if cmd = DBUS_CMD_XDP then Inr (dbus_read_length data)
         else Inl ERR_INVALID_PACKET)
      else Inr (dbus_read_length data))"

definition dbus_dissect :: "bytes \<Rightarrow> errcode + dbus_dissected" where
  "dbus_dissect data =
     (if length data < 2 \<or> length data = 3 \<or> 65536 + 6 < length data then Inl ERR_INVALID_PACKET
      else (case dbus_expected_length data of
              Inl e \<Rightarrow> Inl e
            | Inr (len, expected) \<Rightarrow>
                if length data \<noteq> expected then Inl ERR_INVALID_PACKET
                else Inr \<lparr>dd_length = len, dd_mid = data ! 0, dd_cmd = data ! 1,
                  dd_mismatch = (4 < length data \<and>
                    push_bit 8 (ucast (data ! (4 + unat len + 1))) OR ucast (data ! (4 + unat len))
                      \<noteq> tifiles_checksum (take (unat len) (drop 4 data))),
                  dd_dump = (if 4 < length data then drop 4 data else [])\<rparr>))"

section \<open>The packet as a specification\<close>

text \<open>
  What a packet is on the wire. A packet to machine 0 without data has only two bytes: the
  TI-80 packets carry no length, and the generic machine has the same number.
\<close>

definition dbus_packet :: "u8 \<Rightarrow> u8 \<Rightarrow> bytes option \<Rightarrow> bytes" where
  "dbus_packet target cmd data =
     (case data of
        None \<Rightarrow> if target = 0 then [target, cmd] else [target, cmd, 0, 0]
      | Some d \<Rightarrow> [target, cmd, LSB (of_nat (length d) :: u32), MSB (of_nat (length d) :: u32)]
                  @ d @ [LSB (tifiles_checksum d), MSB (tifiles_checksum d)])"

lemma dbus_fill_buffer_some:
  "dbus_fill_buffer buf target cmd n data \<noteq> None \<longleftrightarrow>
     n + 6 \<le> length buf \<and> n \<le> length data"
  by (auto simp: dbus_fill_buffer_def memcpy_at_def memcpy_from_def Let_def split: bind_splits)

lemma dbus_fill_buffer_packet:
  assumes "n + 6 \<le> length buf" "n \<le> length data"
  shows "\<exists>buf'. dbus_fill_buffer buf target cmd n data = Some buf' \<and> length buf' = length buf
     \<and> take (n + 6) buf' = dbus_packet target cmd (Some (take n data))"
proof -
  let ?hdr = "[target, cmd, LSB (of_nat n :: u32), MSB (of_nat n :: u32)]"
  let ?d = "take n data" let ?sum = "[LSB (tifiles_checksum ?d), MSB (tifiles_checksum ?d)]"
  define a b c where abc: "a = take n (drop 4 buf)" "b = take 2 (drop (4 + n) buf)"
    "c = drop (n + 6) buf"
  have buf: "buf = take 4 buf @ a @ b @ c"
  proof -
    have "drop (2 + (4 + n)) buf = c" by (simp add: abc add.commute)
    then show ?thesis unfolding abc(1,2)
      by (metis append_take_drop_id drop_drop add.commute)
  qed
  have len: "length a = n" "length b = 2" "length ?d = n" "length (take 4 buf) = 4"
    using assms by (auto simp: abc)
  have "memcpy_at buf 0 ?hdr = Some (?hdr @ a @ b @ c)"
    using memcpy_at_split [of "[]" 0 "take 4 buf" ?hdr "a @ b @ c"] len(4) buf by simp
  moreover have "memcpy_from data 0 n = Some ?d" using assms by (simp add: memcpy_from_def)
  moreover have "memcpy_at (?hdr @ a @ b @ c) 4 ?d = Some (?hdr @ ?d @ b @ c)"
    by (rule memcpy_at_split) (use len(1) assms in simp_all)
  moreover have "memcpy_at (?hdr @ ?d @ b @ c) (n + 4) ?sum = Some (?hdr @ ?d @ ?sum @ c)"
    using memcpy_at_split [of "?hdr @ ?d" "n + 4" b ?sum c] len by simp
  ultimately have "dbus_fill_buffer buf target cmd n data = Some (?hdr @ ?d @ ?sum @ c)"
    by (simp only: dbus_fill_buffer_def Let_def bind.bind_lunit)
  moreover have "take (n + 6) (?hdr @ ?d @ ?sum @ c) = dbus_packet target cmd (Some ?d)"
  proof -
    have "length (?hdr @ ?d @ ?sum) = n + 6" using assms(2) by simp
    then have "take (n + 6) ((?hdr @ ?d @ ?sum) @ c) = ?hdr @ ?d @ ?sum"
      by (metis append_eq_conv_conj)
    then show ?thesis by (simp add: dbus_packet_def len(3) del: length_take)
  qed
  moreover have "length (?hdr @ ?d @ ?sum @ c) = length buf"
    using assms len by (simp add: abc)
  ultimately show ?thesis by blast
qed

section \<open>Sending on a quiet link\<close>

context quiet_link
begin

lemma chunk_done_quiet:
  "ready h \<Longrightarrow> \<exists>h'. chunk_done E n k h = (None, h') \<and> stepped h [] 0 h'"
  by (auto simp: chunk_done_def check_cancel_def Let_def ready_def stepped_def moved_def
      ticalcs_update_pbar_def set_cnt1_def pbar_quiet)

lemma chunk_sent:
  assumes "ready h" "length bs \<le> c_room (kh_cable h)"
  shows "\<exists>h'. andthen (cable_send E bs h) (chunk_done E n k) = (None, h') \<and> stepped h bs 0 h'"
proof -
  obtain h1 where h1: "cable_send E bs h = (None, h1)" "stepped h bs 0 h1"
    using send_stepped [OF assms] by blast
  obtain h2 where "chunk_done E n k h1 = (None, h2)" "stepped h1 [] 0 h2"
    using chunk_done_quiet h1(2) by (metis stepped_def moved_ready)
  then show ?thesis using h1 stepped_trans [of h bs 0 h1 "[]" 0 h2] by auto
qed

lemma dbus_send_chunks_quiet:
  "ready h \<Longrightarrow> q * kh_blk_size h \<le> c_room (kh_cable h) \<Longrightarrow>
     (i + q) * kh_blk_size h \<le> length buf \<Longrightarrow>
     \<exists>h'. dbus_send_chunks E buf n q i h = (None, i + q, h')
        \<and> stepped h (take (q * kh_blk_size h) (drop (i * kh_blk_size h) buf)) 0 h'"
proof (induction q arbitrary: i h)
  case 0
  then show ?case by (simp add: stepped_refl)
next
  case (Suc q)
  let ?b = "kh_blk_size h" let ?c = "take ?b (drop (i * ?b) buf)"
  have len: "length ?c = ?b" using Suc.prems(3) by (simp add: algebra_simps)
  obtain h1 where h1: "andthen (cable_send E ?c h) (chunk_done E n (int ?b)) = (None, h1)"
      "stepped h ?c 0 h1"
    using chunk_sent [of h ?c n "int ?b"] Suc.prems(1,2) len by auto
  have "ready h1" "kh_blk_size h1 = ?b" "q * ?b \<le> c_room (kh_cable h1)"
    using h1(2) Suc.prems(2) len by (auto simp: stepped_def moved_def)
  then obtain h2 where h2: "dbus_send_chunks E buf n q (i + 1) h1 = (None, i + 1 + q, h2)"
      "stepped h1 (take (q * ?b) (drop ((i + 1) * ?b) buf)) 0 h2"
    using Suc.IH [of h1 "i + 1"] Suc.prems(3) by (auto simp: algebra_simps)
  have "?c @ take (q * ?b) (drop ((i + 1) * ?b) buf) = take (Suc q * ?b) (drop (i * ?b) buf)"
    by (simp add: take_add add.commute)
  then show ?case
    using h1(1) h2(1) stepped_trans [OF h1(2) h2(2)] by (simp add: Let_def)
qed

lemma dbus_send_blk_pos: "0 < dbus_send_blk n"
  by (simp add: dbus_send_blk_def Let_def)

lemma dbus_send_std_quiet:
  assumes "ready h" "n + 6 \<le> c_room (kh_cable h)" "n + 6 \<le> length buf"
  shows "\<exists>h'. dbus_send_std E buf n h = (None, h') \<and> moved h (take (n + 6) buf) 0 h'"
proof -
  let ?b = "dbus_send_blk n" let ?q = "(n + 6) div ?b" let ?m = "(n + 6) mod ?b"
  let ?h = "set_cnt1 0 (set_max1 (int n + 6) (h\<lparr>kh_min_size := dbus_min_size h, kh_blk_size := ?b\<rparr>))"
  have split: "?q * ?b + ?m = n + 6" by simp
  have upto: "?q * ?b \<le> n + 6" by (rule div_times_less_eq_dividend)
  have h0: "ready ?h" "kh_blk_size ?h = ?b" "kh_cable ?h = kh_cable h"
    using assms(1) by (simp add: ready_def set_cnt1_def set_max1_def)
      (simp_all add: set_cnt1_def set_max1_def)
  obtain h1 where h1: "dbus_send_chunks E buf n ?q 0 ?h = (None, ?q, h1)"
      "stepped ?h (take (?q * ?b) buf) 0 h1"
    using dbus_send_chunks_quiet [of ?h ?q 0 buf n] assms upto h0 by auto
  have "ready h1" "kh_blk_size h1 = ?b"
    using h1(2) h0 by (auto simp: stepped_def moved_def)
  moreover have "length (take ?m (drop (?q * ?b) buf)) \<le> c_room (kh_cable h1)"
  proof -
    have "c_room (kh_cable h1) = c_room (kh_cable h) - ?q * ?b"
      using h1(2) h0(3) assms(3) upto by (simp add: stepped_def moved_def)
    then have "?m \<le> c_room (kh_cable h1)" using split assms(2) by linarith
    then show ?thesis by (simp add: min.coboundedI2)
  qed
  ultimately obtain h2 where
      h2: "andthen (cable_send E (take ?m (drop (?q * ?b) buf)) h1) (chunk_done E n 1) = (None, h2)"
      "stepped h1 (take ?m (drop (?q * ?b) buf)) 0 h2"
    using chunk_sent by blast
  have "take (?q * ?b) buf @ take ?m (drop (?q * ?b) buf) = take (n + 6) buf"
    by (metis take_add split)
  then have "moved ?h (take (n + 6) buf) 0 h2"
    using stepped_trans [OF h1(2) h2(2)] by (simp add: stepped_def)
  then have "moved h (take (n + 6) buf) 0 h2" by (simp add: moved_def set_cnt1_def set_max1_def)
  moreover have "dbus_send_std E buf n h = (None, h2)"
    using h1(1) h2(1) h0(2) \<open>kh_blk_size h1 = ?b\<close>
    by (simp add: dbus_send_std_def Let_def)
  ultimately show ?thesis by blast
qed

lemma dbus_send_packet_quiet:
  assumes "ready h" "length buf = 65542" "nlen \<le> 65536"
    and data: "\<And>d. data = Some d \<Longrightarrow> nlen \<le> length d"
    and pkt: "pkt = dbus_packet target cmd (map_option (take nlen) data)"
    and room: "length pkt \<le> c_room (kh_cable h)"
  shows "\<exists>h'. dbus_send_packet E buf target cmd nlen data h = (None, h') \<and> moved h pkt 0 h'"
proof (cases data)
  case None
  let ?buf = "[target, cmd, 0, 0] @ drop 4 buf"
  have "memcpy_at buf 0 [target, cmd, 0, 0] = Some ?buf"
    using memcpy_at_split [of "[]" 0 "take 4 buf" "[target, cmd, 0, 0]" "drop 4 buf"] assms(2)
    by simp
  moreover have "take (if target = 0 then 2 else 4) ?buf = pkt"
    using None pkt by (simp add: dbus_packet_def)
  ultimately show ?thesis
    using None send_stepped [of "h\<lparr>kh_buffer := Some ?buf\<rparr>" pkt] assms(1) room
    by (auto simp: dbus_send_packet_def stepped_def moved_def)
next
  case (Some d)
  have n6: "nlen + 6 \<le> length buf" using assms(2,3) by simp
  obtain buf' where buf': "dbus_fill_buffer buf target cmd nlen d = Some buf'"
      "length buf' = length buf" "take (nlen + 6) buf' = pkt"
    using dbus_fill_buffer_packet [OF n6 data [OF Some]] Some pkt by auto
  have "nlen + 6 = length pkt" using buf' n6 by auto
  then show ?thesis
    using Some buf' n6 assms(1) room dbus_send_std_quiet [of "h\<lparr>kh_buffer := Some buf'\<rparr>" nlen buf']
    by (auto simp: dbus_send_packet_def moved_def)
qed

lemma dbus_send_quiet:
  assumes "ready h" "kh_buffer h = Some buf" "length buf = 65542"
    and nlen: "nlen = (if len = 0 then 65536 else unat len)"
    and data: "\<And>d. data = Some d \<Longrightarrow> nlen \<le> length d"
    and pkt: "pkt = dbus_packet target cmd (map_option (take nlen) data)"
    and room: "length pkt \<le> c_room (kh_cable h)"
  shows "\<exists>h'. dbus_send E target cmd len data h = (None, h') \<and> moved h pkt 0 h'"
proof -
  have "unat len < 65536" using unsigned_less [of len] by simp
  then have n: "nlen \<le> 65536" using nlen by simp
  let ?h = "progress_reset (h\<lparr>kh_busy := True\<rparr>)"
  obtain h1 where h1: "dbus_send_packet E buf target cmd nlen data ?h = (None, h1)" "moved ?h pkt 0 h1"
    using dbus_send_packet_quiet [OF _ assms(3) n data pkt, of ?h] assms(1) room
    by (auto simp: progress_reset_quiet)
  have "moved (h\<lparr>kh_busy := True\<rparr>) pkt 0 h1"
    using h1(2) by (simp add: moved_def progress_reset_quiet) (simp add: progress_reset_def)
  then show ?thesis
    unfolding dbus_send_def Let_def nlen [symmetric] assms(2) option.case
    by (intro with_busy_moved)
      (use h1(1) in \<open>simp add: fire_quiet moved_def ticalcs_update_refresh_def refresh_quiet ready_def\<close>)
qed

end

section \<open>Receiving on a quiet link\<close>

lemma le16: "ucast b0 OR push_bit 8 (ucast b1) = be16 b1 b0"
  "push_bit 8 (ucast b1) OR ucast b0 = be16 b1 b0"
  by (simp_all add: be16_def or.commute)

context quiet_link
begin

lemma dbus_recv_chunks_quiet:
  "ready h \<Longrightarrow> kh_blk_size h = b \<Longrightarrow> q * b \<le> length (c_avail (kh_cable h)) \<Longrightarrow>
     (i + q) * b \<le> length data \<Longrightarrow>
     \<exists>h'. dbus_recv_chunks E n q i data h =
        (None, (i + q, take (i * b) data @ take (q * b) (c_avail (kh_cable h)) @ drop ((i + q) * b) data), h')
        \<and> stepped h [] (q * b) h'"
proof (induction q arbitrary: i data h)
  case 0
  then show ?case by (simp add: stepped_refl)
next
  case (Suc q)
  let ?av = "c_avail (kh_cable h)"
  obtain h1 where h1: "cable_recv E b h = (None, take b ?av, h1)" "stepped h [] b h1"
    using recv_stepped [of h b] Suc.prems by auto
  obtain h2 where h2: "chunk_done E n (int b) h1 = (None, h2)" "stepped h1 [] 0 h2"
    using chunk_done_quiet h1(2) by (metis stepped_def moved_ready)
  have st: "stepped h [] b h2" using stepped_trans [OF h1(2) h2(2)] by simp
  let ?data = "take (i * b) data @ take b ?av @ drop (Suc i * b) data"
  have put: "memcpy_at data (i * b) (take b ?av) = Some ?data"
  proof -
    have "length (take b ?av) = b" using Suc.prems(3) by simp
    moreover have "i * b + b \<le> length data" using Suc.prems(4) by (simp add: algebra_simps)
    ultimately show ?thesis by (simp add: memcpy_at_def add.commute del: length_take)
  qed
  have r2: "ready h2" "kh_blk_size h2 = b" and av2: "c_avail (kh_cable h2) = drop b ?av"
    using st Suc.prems(2) by (auto simp: stepped_def moved_def)
  have "q * b \<le> length (c_avail (kh_cable h2))" using Suc.prems(3) av2 by simp
  moreover have "(Suc i + q) * b \<le> length ?data"
    using memcpy_at_length [OF put] Suc.prems(4) by simp
  ultimately obtain h3 where h3: "dbus_recv_chunks E n q (Suc i) ?data h2 =
        (None, (Suc i + q, take (Suc i * b) ?data @ take (q * b) (drop b ?av) @ drop ((Suc i + q) * b) ?data), h3)"
      "stepped h2 [] (q * b) h3"
    using Suc.IH [OF r2, of "Suc i" ?data] unfolding av2 by blast
  have len: "length (take (i * b) data @ take b ?av) = Suc i * b"
  proof -
    have "b \<le> length ?av" using Suc.prems(3) by simp
    moreover have "i * b \<le> length data"
      using mult_le_mono1 [of i "i + Suc q" b] Suc.prems(4) by linarith
    ultimately show ?thesis by simp
  qed
  have "take (Suc i * b) ?data = take (i * b) data @ take b ?av"
    using len by (metis append.assoc append_eq_conv_conj)
  moreover have "drop (Suc i * b) ?data = drop (Suc i * b) data"
    using len by (metis append.assoc append_eq_conv_conj)
  then have "drop ((Suc i + q) * b) ?data = drop ((Suc i + q) * b) data"
    by (metis add_mult_distrib add.commute drop_drop)
  moreover have "take b ?av @ take (q * b) (drop b ?av) = take (Suc q * b) ?av"
    by (simp add: take_add)
  ultimately have "take (Suc i * b) ?data @ take (q * b) (drop b ?av) @ drop ((Suc i + q) * b) ?data
      = take (i * b) data @ take (Suc q * b) ?av @ drop ((i + Suc q) * b) data"
    by (metis append.assoc add_Suc_shift)
  then show ?case
    using h1(1) h2(1) h3(1) put Suc.prems(2) stepped_trans [OF st h3(2)] by (simp add: Let_def)
qed

lemma dbus_recv_last_quiet:
  assumes "ready h" "c_avail (kh_cable h) = tl_bytes @ [s0, s1] @ rest" "length tl_bytes = m"
    and "i * kh_blk_size h + m = n" "n \<le> length data"
    and d: "d = take (i * kh_blk_size h) data @ tl_bytes"
  shows "\<exists>h'. dbus_recv_last E n m i data h =
        (if be16 s1 s0 = tifiles_checksum d then None else Some ERR_CHECKSUM, d @ drop n data, h')
     \<and> stepped h [] (m + 2) h'"
proof -
  let ?k = "i * kh_blk_size h"
  obtain h1 where h1: "cable_recv E m h = (None, tl_bytes, h1)" "stepped h [] m h1"
    using recv_stepped [of h m] assms(1,2,3) by auto
  have "ready h1" "c_avail (kh_cable h1) = [s0, s1] @ rest"
    using h1(2) assms(2,3) by (auto simp: stepped_def moved_def)
  then obtain h2 where h2: "cable_recv E 2 h1 = (None, [s0, s1], h2)" "stepped h1 [] 2 h2"
    using recv_stepped [of h1 2] by (auto simp: numeral_2_eq_2)
  obtain h3 where h3: "chunk_done E n 1 h2 = (None, h3)" "stepped h2 [] 0 h3"
    using chunk_done_quiet h2(2) by (metis stepped_def moved_ready)
  have "memcpy_at data ?k tl_bytes = Some (d @ drop n data)"
    using assms(3-6) by (simp add: memcpy_at_def)
  moreover have "length d = n" using assms(3-6) by simp
  moreover have "kh_blk_size h1 = kh_blk_size h" using h1(2) by (simp add: stepped_def)
  ultimately show ?thesis
    using h1(1) h2(1) h3(1) stepped_trans [OF h1(2) stepped_trans [OF h2(2) h3(2)]]
    by (simp add: dbus_recv_last_def Let_def le16)
qed

lemma dbus_recv_header_quiet:
  assumes "ready h" "c_avail (kh_cable h) = [host, cmd, l0, l1] @ rest"
    and "host \<noteq> 0x80 \<or> cmd = DBUS_CMD_XDP"
  shows "\<exists>h'. dbus_recv_header E hcl h = (None, (host, cmd, be16 l1 l0), h') \<and> moved h [] 4 h'"
  unfolding dbus_recv_header_def
proof (rule with_busy_val_moved)
  let ?h = "h\<lparr>kh_busy := True\<rparr>"
  obtain h1 where h1: "cable_recv E 2 ?h = (None, [host, cmd], h1)" "stepped ?h [] 2 h1"
    using recv_stepped [of ?h 2] assms(1,2) by auto
  have "ready h1" "c_avail (kh_cable h1) = [l0, l1] @ rest"
    using h1(2) assms(2) by (auto simp: stepped_def moved_def)
  then obtain h2 where h2: "cable_recv E 2 h1 = (None, [l0, l1], h2)" "stepped h1 [] 2 h2"
    using recv_stepped [of h1 2] by auto
  have "moved ?h [] 4 h2" using stepped_trans [OF h1(2) h2(2)] by (simp add: stepped_def)
  then show "\<exists>h'. (let (r, h) = fire E CALC_EVENT_TYPE_BEFORE_RECV_DBUS_PKT_HEADER None
            (DBUSPacketData 0 0 0 None) ?h;
          (r, hcl, h) = (case r of Some e \<Rightarrow> (Some e, hcl, h) | None \<Rightarrow>
            (let (r, bs, h) = cable_recv E 2 h
             in (case r of Some e \<Rightarrow> (Some e, hcl, h) | None \<Rightarrow>
               (let host = bs ! 0; cmd = bs ! 1
                in if host \<noteq> DBUS_MID_TI80_PC \<or> cmd = DBUS_CMD_XDP then
                     (let (r, bs, h) = cable_recv E 2 h
                      in (case r of Some e \<Rightarrow> (Some e, (host, cmd, snd (snd hcl)), h)
                          | None \<Rightarrow> (None, (host, cmd, ucast (bs ! 0) OR push_bit 8 (ucast (bs ! 1))), h)))
                   else (None, (host, cmd, 0), h)))));
          (host, cmd, len) = hcl;
          (r, h) = fire E CALC_EVENT_TYPE_AFTER_RECV_DBUS_PKT_HEADER r
            (DBUSPacketData len host cmd None) h
      in (r, hcl, h)) = (None, (host, cmd, be16 l1 l0), h') \<and> moved ?h [] 4 h'"
    using h1(1) h2(1) assms(3) by (auto simp: fire_quiet le16)
qed

lemma dbus_recv_data_quiet:
  assumes "ready h" "c_avail (kh_cable h) = d @ [s0, s1] @ rest"
    and "length d = unat len" "length d \<le> length data"
  shows "\<exists>h'. dbus_recv_data E len data h =
        (if be16 s1 s0 = tifiles_checksum d then None else Some ERR_CHECKSUM,
         d @ drop (length d) data, h')
     \<and> moved h [] (length d + 2) h'"
proof -
  define n where "n = unat len"
  define b where "b = dbus_recv_blk n"
  define q m k where "q = n div b" and "m = n mod b" and "k = q * b"
  define h0 where
    "h0 = set_cnt1 0 (set_max1 (int n) (h\<lparr>kh_busy := True, kh_min_size := dbus_min_size h, kh_blk_size := b\<rparr>))"
  have split: "k + m = n" by (simp add: k_def q_def m_def)
  have len: "length d = n" "n \<le> length data" using assms(3,4) n_def by simp_all
  have h0: "ready h0" "kh_blk_size h0 = b" "kh_cable h0 = kh_cable h"
    using assms(1) by (simp_all add: h0_def ready_def) (simp_all add: set_cnt1_def set_max1_def)
  have qa: "q * b \<le> length (c_avail (kh_cable h0))" "(0 + q) * b \<le> length data"
    using split len assms(2) h0(3) by (simp_all add: k_def [symmetric])
  have got: "take k (c_avail (kh_cable h0)) = take k d"
    using split len assms(2) h0(3) by simp
  let ?data = "take k d @ drop k data"
  obtain h1 where h1: "dbus_recv_chunks E n q 0 data h0 = (None, (q, ?data), h1)" "stepped h0 [] k h1"
    using dbus_recv_chunks_quiet [OF h0(1,2) qa, of n] by (auto simp: k_def [symmetric] got)
  have r1: "ready h1" "c_avail (kh_cable h1) = drop k d @ [s0, s1] @ rest"
    using h1(2) h0(3) split assms(2) len by (simp_all add: stepped_def moved_def)
  have k1: "q * kh_blk_size h1 = k" using h1(2) h0(2) by (simp add: stepped_def k_def)
  have lens: "length (drop k d) = m" "q * kh_blk_size h1 + m = n" "n \<le> length ?data"
    unfolding k1 using split len by simp_all
  have dd: "d = take (q * kh_blk_size h1) ?data @ drop k d"
    unfolding k1 using split len by simp
  have tail: "drop n ?data = drop (length d) data" using split len by simp
  obtain h2 where h2: "dbus_recv_last E n m q ?data h1 =
        (if be16 s1 s0 = tifiles_checksum d then None else Some ERR_CHECKSUM, d @ drop (length d) data, h2)"
      "stepped h1 [] (m + 2) h2"
    using dbus_recv_last_quiet [OF r1 lens dd] unfolding tail by blast
  have "moved h0 [] (length d + 2) h2"
    using stepped_trans [OF h1(2) h2(2)] split len by (simp add: stepped_def add.assoc [symmetric])
  then have mv: "moved (h\<lparr>kh_busy := True\<rparr>) [] (length d + 2) h2"
    by (simp add: moved_def h0(3)) (simp add: h0_def set_cnt1_def set_max1_def)
  have min: "dbus_min_size (h\<lparr>kh_busy := True\<rparr>) = dbus_min_size h" by (simp add: dbus_min_size_def)
  have h0': "set_cnt1 0 (set_max1 (int n)
      (h\<lparr>kh_busy := True, kh_min_size := dbus_min_size h, kh_blk_size := b\<rparr>)) = h0"
    by (simp add: h0_def)
  show ?thesis
    unfolding dbus_recv_data_def n_def [symmetric] Let_def b_def [symmetric]
    by (rule with_busy_val_moved)
      (use h1(1) h2(1) mv h0(2) in \<open>simp add: fire_quiet min h0' q_def [symmetric] m_def [symmetric]\<close>)
qed

lemma dbus_recv_data_cmd_quiet:
  assumes "ready h" "c_avail (kh_cable h) = [host, cmd, l0, l1] @ d @ [s0, s1] @ rest"
    and "host \<noteq> 0x80 \<or> cmd = DBUS_CMD_XDP" "cmd \<in> set dbus_data_cmds"
    and "unat (be16 l1 l0) = length d" "length d \<le> length buf"
  shows "\<exists>h'. dbus_recv E hcl (Some buf) h =
        (if be16 s1 s0 = tifiles_checksum d then None else Some ERR_CHECKSUM,
         ((host, cmd, be16 l1 l0), Some (d @ drop (length d) buf)), h')
     \<and> moved h [] (length d + 6) h'"
proof -
  let ?r = "if be16 s1 s0 = tifiles_checksum d then None else Some ERR_CHECKSUM"
  let ?h = "h\<lparr>kh_busy := True\<rparr>"
  obtain h1 where h1: "dbus_recv_header E hcl ?h = (None, (host, cmd, be16 l1 l0), h1)" "moved ?h [] 4 h1"
    using dbus_recv_header_quiet [of ?h host cmd l0 l1 "d @ [s0, s1] @ rest" hcl] assms(1-3) by auto
  have "ready h1" "c_avail (kh_cable h1) = d @ [s0, s1] @ rest"
    using h1(2) assms(2) by (auto simp: moved_def)
  then obtain h2 where h2: "dbus_recv_data E (be16 l1 l0) buf h1 = (?r, d @ drop (length d) buf, h2)"
      "moved h1 [] (length d + 2) h2"
    using dbus_recv_data_quiet [of h1 d s0 s1 rest "be16 l1 l0" buf] assms(5,6) by auto
  have cmd: "cmd \<noteq> DBUS_CMD_ERR" "cmd \<noteq> DBUS_CMD_ERR2" using assms(4) by (auto simp: dbus_data_cmds_def)
  have "moved ?h [] (length d + 6) h2"
    using moved_trans [OF h1(2) h2(2)] by (simp add: add.commute)
  then show ?thesis
    using h1(1) h2(1) cmd assms(4)
    by (auto simp: dbus_recv_def busy_taken clear_busy_if_necessary_def Let_def moved_def ready_def
        ticalcs_update_refresh_def refresh_quiet)
qed

lemma dbus_recv_short_cmd_quiet:
  assumes "ready h" "c_avail (kh_cable h) = [host, cmd, l0, l1] @ rest" "host \<noteq> 0x80"
    and "cmd \<in> set dbus_short_cmds" "cmd \<noteq> DBUS_CMD_ERR" "cmd \<noteq> DBUS_CMD_ERR2"
  shows "\<exists>h'. dbus_recv E hcl data h = (None, ((host, cmd, be16 l1 l0), data), h')
     \<and> moved h [] 4 h'"
proof -
  let ?h = "h\<lparr>kh_busy := True\<rparr>"
  obtain h1 where h1: "dbus_recv_header E hcl ?h = (None, (host, cmd, be16 l1 l0), h1)" "moved ?h [] 4 h1"
    using dbus_recv_header_quiet [of ?h host cmd l0 l1 rest hcl] assms(1-3) by auto
  have "cmd \<notin> set dbus_data_cmds" using assms(4) by (auto simp: dbus_data_cmds_def dbus_short_cmds_def)
  then show ?thesis
    using h1 assms(4-6)
    by (auto simp: dbus_recv_def busy_taken clear_busy_if_necessary_def Let_def moved_def ready_def
        ticalcs_update_refresh_def refresh_quiet)
qed

end

section \<open>The busy flag\<close>

text \<open>In any environment, the operations leave the flag as they found it.\<close>

lemma chunk_done_busy [busy_keeps]: "chunk_done E n k h = (r, h') \<Longrightarrow> kh_busy h' = kh_busy h"
  by (auto simp: chunk_done_def Let_def split: if_splits dest!: check_cancel_busy)

lemma chunk_call_busy [busy_keeps]:
  "andthen (cable_send E bs h) (chunk_done E n k) = (r, h') \<Longrightarrow> kh_busy h' = kh_busy h"
  by (cases "cable_send E bs h"; cases "fst (cable_send E bs h)")
    (auto dest!: cable_send_busy chunk_done_busy)

lemma dbus_send_chunks_busy [busy_keeps]:
  "dbus_send_chunks E buf n q i h = (r, j, h') \<Longrightarrow> kh_busy h' = kh_busy h"
proof (induction q arbitrary: i h)
  case (Suc q)
  then show ?case
    by (auto simp: Let_def split: prod.splits option.splits dest!: chunk_call_busy)
qed simp

lemma dbus_send_std_busy [busy_keeps]:
  "dbus_send_std E buf n h = (r, h') \<Longrightarrow> kh_busy h' = kh_busy h"
  by (auto simp: dbus_send_std_def Let_def split: prod.splits option.splits
      dest!: chunk_call_busy dbus_send_chunks_busy)

lemma dbus_send_packet_busy [busy_keeps]:
  "dbus_send_packet E buf t c n d h = (r, h') \<Longrightarrow> kh_busy h' = kh_busy h"
  by (auto simp: dbus_send_packet_def split: option.splits dest!: cable_send_busy dbus_send_std_busy)

lemma dbus_send_busy [busy_keeps]:
  "dbus_send E t c len d h = (r, h') \<Longrightarrow> kh_busy h' = kh_busy h"
  by (auto simp: dbus_send_def Let_def andthen_def split: option.splits prod.splits if_splits
      elim!: with_busy_keeps [rotated] dest!: fire_busy dbus_send_packet_busy)

lemma dbus_recv_header_busy [busy_keeps]:
  "dbus_recv_header E hcl h = (r, x, h') \<Longrightarrow> kh_busy h' = kh_busy h"
  unfolding dbus_recv_header_def
  by (erule with_busy_val_keeps [rotated])
    (auto simp: Let_def split: option.splits prod.splits if_splits dest!: fire_busy cable_recv_busy)

lemma dbus_recv_chunks_busy [busy_keeps]:
  "dbus_recv_chunks E n q i data h = (r, x, h') \<Longrightarrow> kh_busy h' = kh_busy h"
proof (induction q arbitrary: i data h)
  case (Suc q)
  then show ?case
    by (auto simp: Let_def andthen_def split: prod.splits option.splits
        dest!: cable_recv_busy chunk_done_busy)
qed simp

lemma dbus_recv_last_busy [busy_keeps]:
  "dbus_recv_last E n m i data h = (r, x, h') \<Longrightarrow> kh_busy h' = kh_busy h"
  by (auto simp: dbus_recv_last_def Let_def andthen_def split: prod.splits option.splits if_splits
      dest!: cable_recv_busy chunk_done_busy)

lemma dbus_recv_data_busy [busy_keeps]:
  "dbus_recv_data E len data h = (r, x, h') \<Longrightarrow> kh_busy h' = kh_busy h"
  unfolding dbus_recv_data_def
  by (erule with_busy_val_keeps [rotated])
    (auto simp: Let_def split: option.splits prod.splits if_splits
      dest!: fire_busy dbus_recv_chunks_busy dbus_recv_last_busy)

section \<open>Properties of the packet layer\<close>

lemma LSW_of_nat: "n < 65536 \<Longrightarrow> unat (LSW (of_nat n :: u32)) = n"
  by (simp add: unat_LSW unat_of_nat take_bit_eq_mod)

lemma dbus_packet_data:
  "dbus_packet t c (Some d) = [t, c, LSB (of_nat (length d) :: u32), MSB (of_nat (length d) :: u32)]
     @ d @ [LSB (tifiles_checksum d), MSB (tifiles_checksum d)]"
  by (simp add: dbus_packet_def)

lemma dbus_packet_parts:
  "take 4 (dbus_packet t c (Some d)) = [t, c, LSB (of_nat (length d) :: u32), MSB (of_nat (length d) :: u32)]"
  "take (length d) (drop 4 (dbus_packet t c (Some d))) = d"
  "drop (4 + length d) (dbus_packet t c (Some d)) = [LSB (tifiles_checksum d), MSB (tifiles_checksum d)]"
  "length (dbus_packet t c (Some d)) = 6 + length d"
  "dbus_packet t c (Some d) ! 0 = t" "dbus_packet t c (Some d) ! Suc 0 = c"
  "dbus_packet t c (Some d) ! (4 + length d) = LSB (tifiles_checksum d)"
  "dbus_packet t c (Some d) ! Suc (4 + length d) = MSB (tifiles_checksum d)"
proof -
  let ?hdr = "[t, c, LSB (of_nat (length d) :: u32), MSB (of_nat (length d) :: u32)]"
  have "dbus_packet t c (Some d) = (?hdr @ d) @ [LSB (tifiles_checksum d), MSB (tifiles_checksum d)]"
    by (simp add: dbus_packet_data)
  moreover have "length (?hdr @ d) = 4 + length d" by simp
  ultimately show "drop (4 + length d) (dbus_packet t c (Some d))
      = [LSB (tifiles_checksum d), MSB (tifiles_checksum d)]"
    by (metis append_eq_conv_conj)
qed (simp_all add: dbus_packet_data nth_append)

text \<open>
  on a quiet link \<open>dbus_send\<close> puts exactly the packet on the wire (header, data and
  checksum, for every length from 1 to 65536, whatever the chunk size the length leads to),
  reads nothing, and leaves the handle's busy flag as it was.
\<close>

theorem dbus_send_wire:
  assumes "quiet_link send recv sent avail room ok E"
    and "link_ready ok h" "kh_buffer h = Some buf" "length buf = 65542"
    and "length d = (if len = 0 then 65536 else unat len)"
    and "length d + 6 \<le> room (cb_dev (kh_cable h))"
  shows "\<exists>h'. dbus_send E target cmd len (Some d) h = (None, h')
     \<and> transfer sent avail ok h (dbus_packet target cmd (Some d)) 0 h'"
proof -
  have "quiet_link.ready ok h" using assms(2) quiet_link.link_ready_iff [OF assms(1)] by blast
  then show ?thesis
    using quiet_link.dbus_send_quiet [OF assms(1) _ assms(3,4,5), of "Some d"
        "dbus_packet target cmd (Some d)" target cmd] assms(6)
    by (auto simp: quiet_link.c_room_def [OF assms(1)] dbus_packet_data
        dest: quiet_link.moved_transfer [OF assms(1)])
qed

lemma dbus_send_wire_witness:
  "\<exists>h'. dbus_send (vti_env vti_works) 0x73 DBUS_CMD_XDP 3 (Some [1, 2, 3]) (vti_handle CALC_TI83P (vti_loaded [])) = (None, h')
     \<and> transfer vti_sent vti_avail vti_ok (vti_handle CALC_TI83P (vti_loaded []))
         (dbus_packet 0x73 DBUS_CMD_XDP (Some [1, 2, 3])) 0 h'"
  by (rule dbus_send_wire [OF quiet_vti.quiet_link_axioms, where buf = "replicate 65542 0"]) simp_all

text \<open>
  C3: what \<open>dbus_send\<close> sends, \<open>dbus_recv\<close> on another link receives: for every command with
  data and every length from 1 to 65535, if the bytes that reach the receiver are the ones
  that the sender put on its link, the receiver returns the sender's command and data, puts
  the data at the start of its array and consumes the packet and nothing behind it. The target
  is any but 0x80, the machine whose headers have no length field unless they announce data; for data it may be that one too.
\<close>

theorem dbus_roundtrip:
  assumes "quiet_link send recv sent avail room ok E"
    and "link_ready ok h" "kh_buffer h = Some buf" "length buf = 65542"
    and "length d + 6 \<le> room (cb_dev (kh_cable h))" "sent (cb_dev (kh_cable h)) = []"
    and "quiet_link send' recv' sent' avail' room' ok' E'" "link_ready ok' g"
    and "0 < length d" "length d < 65536" "length d \<le> length array"
    and "cmd \<in> set dbus_data_cmds" "target \<noteq> 0x80 \<or> cmd = DBUS_CMD_XDP"
    and "dbus_send E target cmd (of_nat (length d)) (Some d) h = (r, h')"
    and "avail' (cb_dev (kh_cable g)) = sent (cb_dev (kh_cable h')) @ rest"
  shows "r = None \<and> (\<exists>g'. dbus_recv E' hcl (Some array) g =
            (None, ((target, cmd, of_nat (length d)), Some (d @ drop (length d) array)), g')
          \<and> transfer sent' avail' ok' g [] (length d + 6) g')"
proof -
  have len: "unat (of_nat (length d) :: u16) = length d"
    using assms(10) by (simp add: unat_of_nat take_bit_eq_mod)
  moreover have "(of_nat (length d) :: u16) \<noteq> 0" using len assms(9) by auto
  ultimately obtain h'' where h'': "dbus_send E target cmd (of_nat (length d)) (Some d) h = (None, h'')"
      "quiet_link.moved sent avail room ok h (dbus_packet target cmd (Some d)) 0 h''"
    using quiet_link.dbus_send_quiet [OF assms(1) _ assms(3,4) refl, where len = "of_nat (length d)"
        and data = "Some d" and pkt = "dbus_packet target cmd (Some d)" and target = target and cmd = cmd] assms(2,5) quiet_link.link_ready_iff [OF assms(1)]
    by (auto simp: quiet_link.c_room_def [OF assms(1)] dbus_packet_data)
  have "avail' (cb_dev (kh_cable g)) = dbus_packet target cmd (Some d) @ rest"
    using h'' assms(6,14,15) by (auto simp: quiet_link.moved_def [OF assms(1)] quiet_link.c_sent_def [OF assms(1)])
  then have av: "quiet_link.c_avail avail' (kh_cable g) =
      [target, cmd, LSB (of_nat (length d) :: u32), MSB (of_nat (length d) :: u32)] @ d
        @ [LSB (tifiles_checksum d), MSB (tifiles_checksum d)] @ rest"
    by (simp add: quiet_link.c_avail_def [OF assms(7)] dbus_packet_data)
  have lsw: "be16 (MSB (of_nat (length d) :: u32)) (LSB (of_nat (length d) :: u32)) = of_nat (length d)"
    using LSW_of_nat [OF assms(10)] len by (metis be16_MSB_LSB_wide word_unat_eq_iff)
  have "quiet_link.ready ok' g" using assms(8) quiet_link.link_ready_iff [OF assms(7)] by blast
  from quiet_link.dbus_recv_data_cmd_quiet [OF assms(7) this av assms(13,12) _ assms(11), of hcl] show ?thesis
    using h''(1) assms(14) len by (auto simp: lsw be16_MSB_LSB dest: quiet_link.moved_transfer [OF assms(7)])
qed

lemma dbus_roundtrip_witness:
  "\<exists>h' g'. dbus_send (vti_env vti_works) 0x73 DBUS_CMD_XDP (of_nat (length [1, 2, 3 :: u8])) (Some [1, 2, 3])
              (vti_handle CALC_TI83P (vti_loaded [])) = (None, h')
     \<and> dbus_recv (vti_env vti_works) (0, 0, 0) (Some [9, 9, 9, 9])
         (vti_handle CALC_TI83P (vti_loaded (vti_sent (cb_dev (kh_cable h')))))
         = (None, ((0x73, DBUS_CMD_XDP, of_nat (length [1, 2, 3 :: u8])), Some [1, 2, 3, 9]), g')"
proof -
  let ?E = "vti_env vti_works" let ?h = "vti_handle CALC_TI83P (vti_loaded [])"
  let ?send = "dbus_send ?E 0x73 DBUS_CMD_XDP (of_nat (length [1, 2, 3 :: u8])) (Some [1, 2, 3]) ?h"
  obtain h' where h': "?send = (None, h')"
      "vti_sent (cb_dev (kh_cable h')) = dbus_packet 0x73 DBUS_CMD_XDP (Some [1, 2, 3])"
    using quiet_vti.dbus_send_quiet [of ?h "replicate 65542 0" 3 3 "Some [1, 2, 3]"
        "dbus_packet 0x73 DBUS_CMD_XDP (Some [1, 2, 3])" "0x73" DBUS_CMD_XDP vti_works]
    by (auto simp: quiet_vti.link_ready_iff [symmetric] quiet_vti.moved_def quiet_vti.c_room_def
        quiet_vti.c_sent_def dbus_packet_data)
  let ?g = "vti_handle CALC_TI83P (vti_loaded (vti_sent (cb_dev (kh_cable h'))))"
  have len: "length (vti_sent (cb_dev (kh_cable h'))) \<le> 255" by (simp add: h'(2) dbus_packet_data)
  have "None = (None :: ret) \<and> (\<exists>g'. dbus_recv ?E (0, 0, 0) (Some [9, 9, 9, 9]) ?g =
            (None, ((0x73, DBUS_CMD_XDP, of_nat (length [1, 2, 3 :: u8])), Some ([1, 2, 3] @ drop (length [1, 2, 3 :: u8]) [9, 9, 9, 9])), g')
          \<and> transfer vti_sent vti_avail vti_ok ?g [] (length [1, 2, 3 :: u8] + 6) g')"
    by (rule dbus_roundtrip [OF quiet_vti.quiet_link_axioms _ _ _ _ _ quiet_vti.quiet_link_axioms _ _ _ _ _ _ h'(1),
          where rest = "[]" and buf = "replicate 65542 0"])
      (use len in \<open>simp_all add: dbus_data_cmds_def vti_loaded_simps [OF len]\<close>)
  then show ?thesis using h'(1) by auto
qed

text \<open>
  a packet in which one byte of the data was changed on the way is refused with the
  checksum error, after the whole packet has been taken off the link.
\<close>

theorem dbus_corruption:
  assumes "quiet_link send recv sent avail room ok E" "link_ready ok h"
    and "d = xs @ a # ys" "d' = xs @ b # ys" "a \<noteq> b" "length d < 65536" "length d \<le> length array"
    and "cmd \<in> set dbus_data_cmds" "host \<noteq> 0x80 \<or> cmd = DBUS_CMD_XDP"
    and "avail (cb_dev (kh_cable h)) = take 4 (dbus_packet host cmd (Some d)) @ d'
           @ drop (4 + length d) (dbus_packet host cmd (Some d)) @ rest"
  shows "\<exists>out h'. dbus_recv E hcl (Some array) h = (Some ERR_CHECKSUM, out, h')
     \<and> transfer sent avail ok h [] (length d + 6) h'"
proof -
  have "unat (of_nat (length d) :: u16) = length d"
    using assms(6) by (simp add: unat_of_nat take_bit_eq_mod)
  moreover have "length d' = length d" using assms(3,4) by simp
  ultimately have len: "unat (of_nat (length d) :: u16) = length d" "length d' = length d" by auto
  have lsw: "be16 (MSB (of_nat (length d) :: u32)) (LSB (of_nat (length d) :: u32)) = of_nat (length d)"
    using LSW_of_nat [OF assms(6)] len by (metis be16_MSB_LSB_wide word_unat_eq_iff)
  have "quiet_link.c_avail avail (kh_cable h) =
      [host, cmd, LSB (of_nat (length d) :: u32), MSB (of_nat (length d) :: u32)] @ d'
        @ [LSB (tifiles_checksum d), MSB (tifiles_checksum d)] @ rest"
    using assms(10) by (simp add: quiet_link.c_avail_def [OF assms(1)] dbus_packet_parts)
  moreover have "quiet_link.ready ok h" using assms(2) quiet_link.link_ready_iff [OF assms(1)] by blast
  moreover have "tifiles_checksum d \<noteq> tifiles_checksum d'"
    using assms(3,4,5) checksum_byte_inj by blast
  ultimately show ?thesis
    using quiet_link.dbus_recv_data_cmd_quiet [OF assms(1) _ _ assms(9,8), where d = d' and buf = array and hcl = hcl]
      len assms(7) quiet_link.moved_transfer [OF assms(1)]
    by (fastforce simp: lsw be16_MSB_LSB)
qed

lemma dbus_corruption_witness:
  "\<exists>out h'. dbus_recv (vti_env vti_works) (0, 0, 0) (Some [0, 0])
       (vti_handle CALC_TI83P (vti_loaded [0x73, DBUS_CMD_XDP, 2, 0, 7, 6, 11, 0])) = (Some ERR_CHECKSUM, out, h')
     \<and> transfer vti_sent vti_avail vti_ok
         (vti_handle CALC_TI83P (vti_loaded [0x73, DBUS_CMD_XDP, 2, 0, 7, 6, 11, 0])) [] (length [7, 4 :: u8] + 6) h'"
  by (rule dbus_corruption [OF quiet_vti.quiet_link_axioms, where xs = "[7]" and a = 4 and b = 6 and ys = "[]"
        and host = "0x73" and cmd = DBUS_CMD_XDP and rest = "[]"])
    (simp_all add: dbus_data_cmds_def dbus_packet_data tifiles_checksum_def LSB_def MSB_def)

text \<open>
  C29: whatever the hooks, the application and the driver do, sending a packet and receiving a
  header or the data of one leave the handle's busy flag as they found it. \<open>dbus_recv\<close> does
  so too, with one exception: after the header of a command it does not know it returns
  without releasing the flag, and an idle handle stays busy.
\<close>

theorem dbus_busy_flag:
  "kh_busy (snd (dbus_send E target cmd len data h)) = kh_busy h
   \<and> kh_busy (snd (snd (dbus_recv_header E hcl h))) = kh_busy h
   \<and> kh_busy (snd (snd (dbus_recv_data E len array h))) = kh_busy h
   \<and> (kh_busy (snd (snd (dbus_recv E hcl data h))) \<longleftrightarrow>
        kh_busy h \<or> (case dbus_recv_header E hcl (h\<lparr>kh_busy := True\<rparr>) of (r, (_, cmd, _), _) \<Rightarrow>
          r = None \<and> cmd \<notin> set dbus_data_cmds \<and> cmd \<notin> set dbus_short_cmds))"
proof (intro conjI)
  show "kh_busy (snd (dbus_send E target cmd len data h)) = kh_busy h"
    by (cases "dbus_send E target cmd len data h") (simp add: dbus_send_busy)
  show "kh_busy (snd (snd (dbus_recv_header E hcl h))) = kh_busy h"
    by (cases "dbus_recv_header E hcl h") (simp add: dbus_recv_header_busy)
  show "kh_busy (snd (snd (dbus_recv_data E len array h))) = kh_busy h"
    by (cases "dbus_recv_data E len array h") (simp add: dbus_recv_data_busy)
  obtain r host cmd l h1 where hdr:
      "dbus_recv_header E hcl (h\<lparr>kh_busy := True\<rparr>) = (r, (host, cmd, l), h1)"
    by (metis prod.exhaust)
  have b1: "kh_busy h1" using dbus_recv_header_busy [OF hdr] by simp
  have err: "cmd = DBUS_CMD_ERR \<or> cmd = DBUS_CMD_ERR2 \<Longrightarrow> cmd \<in> set dbus_short_cmds"
    by (auto simp: dbus_short_cmds_def)
  show "kh_busy (snd (snd (dbus_recv E hcl data h))) \<longleftrightarrow>
        kh_busy h \<or> (case dbus_recv_header E hcl (h\<lparr>kh_busy := True\<rparr>) of (r, (_, cmd, _), _) \<Rightarrow>
          r = None \<and> cmd \<notin> set dbus_data_cmds \<and> cmd \<notin> set dbus_short_cmds)"
    using b1 err
    by (auto simp: dbus_recv_def busy_taken hdr clear_busy_if_necessary_def Let_def andthen_def
        split: option.splits prod.splits if_splits dest!: dbus_recv_data_busy)
qed

text \<open>
  the packets that \<open>dbus_send\<close> builds are accepted by the dissector: with data for every
  machine but the TI-80, and the checksum is found to match; without data when they have the
  four bytes of the packets that carry a length. The two-byte packet for machine 0 is
  accepted for the screenshot command only; the dissector wants four bytes of a ready check,
  which \<open>dbus_send\<close> never sends to this machine.
\<close>

theorem dbus_dissect_packets:
  "(0 < length d \<and> length d < 65536 \<and> target \<noteq> 0x80 \<longrightarrow>
      dbus_dissect (dbus_packet target cmd (Some d)) =
        Inr \<lparr>dd_length = of_nat (length d), dd_mid = target, dd_cmd = cmd, dd_mismatch = False,
             dd_dump = drop 4 (dbus_packet target cmd (Some d))\<rparr>)
   \<and> (target \<noteq> 0 \<and> target \<noteq> 0x80 \<longrightarrow>
      dbus_dissect (dbus_packet target cmd None) =
        Inr \<lparr>dd_length = 0, dd_mid = target, dd_cmd = cmd, dd_mismatch = False, dd_dump = []\<rparr>)
   \<and> ((\<exists>x. dbus_dissect (dbus_packet 0 cmd None) = Inr x) \<longleftrightarrow> cmd = DBUS_CMD_SCR)"
proof (intro conjI impI)
  assume a: "0 < length d \<and> length d < 65536 \<and> target \<noteq> 0x80"
  let ?p = "dbus_packet target cmd (Some d)" let ?l = "of_nat (length d) :: u16"
  have n: "unat ?l = length d" using a by (simp add: unat_of_nat take_bit_eq_mod)
  then have nz: "?l \<noteq> 0" using a by auto
  have lsw: "be16 (MSB (of_nat (length d) :: u32)) (LSB (of_nat (length d) :: u32)) = ?l"
    using LSW_of_nat [of "length d"] a n by (metis be16_MSB_LSB_wide word_unat_eq_iff)
  note parts = dbus_packet_parts [where t = target and c = cmd and d = d]
  have "push_bit 8 (ucast (?p ! 3)) OR ucast (?p ! 2) = ?l"
    by (simp add: dbus_packet_data le16 lsw)
  then have rl: "dbus_read_length ?p = (?l, length ?p)"
    using parts(4) n nz by (simp add: dbus_read_length_def)
  have "dbus_expected_length p = Inr (?l, length p)"
    if "p ! 0 = target" "p ! Suc 0 = cmd" "length p = 6 + length d" "dbus_read_length p = (?l, length p)"
    for p using that a by (simp add: dbus_expected_length_def Let_def)
  then have e: "dbus_expected_length ?p = Inr (?l, length ?p)" using parts(4-6) rl by blast
  show "dbus_dissect ?p = Inr \<lparr>dd_length = of_nat (length d), dd_mid = target, dd_cmd = cmd,
      dd_mismatch = False, dd_dump = drop 4 ?p\<rparr>"
    using a parts by (simp add: dbus_dissect_def e n le16 be16_MSB_LSB)
next
  assume "target \<noteq> 0 \<and> target \<noteq> 0x80"
  then show "dbus_dissect (dbus_packet target cmd None) =
      Inr \<lparr>dd_length = 0, dd_mid = target, dd_cmd = cmd, dd_mismatch = False, dd_dump = []\<rparr>"
    by (simp add: dbus_dissect_def dbus_expected_length_def dbus_read_length_def dbus_packet_def)
next
  show "(\<exists>x. dbus_dissect (dbus_packet 0 cmd None) = Inr x) \<longleftrightarrow> cmd = DBUS_CMD_SCR"
    by (simp add: dbus_dissect_def dbus_expected_length_def dbus_read_length_def dbus_packet_def)
qed

lemma dbus_dissect_packets_witness:
  "dbus_dissect (dbus_packet 0x73 DBUS_CMD_XDP (Some [1, 2])) =
     Inr \<lparr>dd_length = of_nat (length [1, 2 :: u8]), dd_mid = 0x73, dd_cmd = DBUS_CMD_XDP,
          dd_mismatch = False, dd_dump = drop 4 (dbus_packet 0x73 DBUS_CMD_XDP (Some [1, 2]))\<rparr>
   \<and> dbus_dissect (dbus_packet 0x73 DBUS_CMD_ACK None) =
     Inr \<lparr>dd_length = 0, dd_mid = 0x73, dd_cmd = DBUS_CMD_ACK, dd_mismatch = False, dd_dump = []\<rparr>"
  using dbus_dissect_packets [of "[1, 2]" "0x73" DBUS_CMD_XDP]
    dbus_dissect_packets [of "[1, 2]" "0x73" DBUS_CMD_ACK] by simp

end
