(* ===== verification/DusbRpkt.thy ===== *)
theory DusbRpkt
  imports CalcHandle
begin

text \<open>
  Raw packets of the direct USB protocol, \<^verbatim>\<open>libticalcs/trunk/src/dusb_rpkt.cc\<close>: a 32-bit
  size, a type and up to 1023 bytes of data. Sending, receiving and the dissector's
  consistency checks; the dissection of the command data (\<^verbatim>\<open>dusb_cmd.cc\<close>) is a parameter.
\<close>

section \<open>Packets\<close>

abbreviation "DUSB_RPKT_BUF_SIZE_REQ \<equiv> (1 :: u8)"
abbreviation "DUSB_RPKT_BUF_SIZE_ALLOC \<equiv> (2 :: u8)"
abbreviation "DUSB_RPKT_VIRT_DATA \<equiv> (3 :: u8)"
abbreviation "DUSB_RPKT_VIRT_DATA_LAST \<equiv> (4 :: u8)"
abbreviation "DUSB_RPKT_VIRT_DATA_ACK \<equiv> (5 :: u8)"

text \<open>The size of the data array, and of the header of a virtual packet.\<close>

abbreviation "DUSB_DATA_SIZE \<equiv> (1023 :: nat)"
abbreviation "DUSB_DH_SIZE \<equiv> (6 :: nat)"

record dusb_raw =
  rw_size :: u32
  rw_type :: u8
  rw_data :: bytes

definition raw_inv :: "dusb_raw \<Rightarrow> bool" where
  "raw_inv raw \<longleftrightarrow> length (rw_data raw) = DUSB_DATA_SIZE"

text \<open>A packet after \<^verbatim>\<open>memset(&raw, 0, sizeof(raw))\<close>.\<close>

definition raw_zero :: dusb_raw where
  "raw_zero = \<lparr>rw_size = 0, rw_type = 0, rw_data = replicate DUSB_DATA_SIZE 0\<rparr>"

text \<open>Identifier, whether a data header follows, the least data size and the name of each type.\<close>

definition dusbrawpackets :: "(u8 \<times> nat \<times> nat \<times> string) list" where
  "dusbrawpackets =
    [(DUSB_RPKT_BUF_SIZE_REQ, 0, 4, ''Buffer Size Request''),
     (DUSB_RPKT_BUF_SIZE_ALLOC, 0, 4, ''Buffer Size Allocation''),
     (DUSB_RPKT_VIRT_DATA, 1, 6, ''Virtual Packet Data with Continuation''),
     (DUSB_RPKT_VIRT_DATA_LAST, 1, 6, ''Virtual Packet Data Final''),
     (DUSB_RPKT_VIRT_DATA_ACK, 0, 2, ''Virtual Packet Data Acknowledgement'')]"

definition dusb_rpkt_type2name :: "u8 \<Rightarrow> string" where
  "dusb_rpkt_type2name i =
     (case find (\<lambda>p. i = fst p) dusbrawpackets of None \<Rightarrow> '''' | Some (_, _, _, n) \<Rightarrow> n)"

definition be32_out :: "u32 \<Rightarrow> bytes" where
  "be32_out w = [MSB (MSW w), LSB (MSW w), MSB (LSW w), LSB (LSW w)]"

text \<open>A raw packet on the wire.\<close>

definition raw_bytes :: "u8 \<Rightarrow> bytes \<Rightarrow> bytes" where
  "raw_bytes ty d = be32_out (of_nat (length d)) @ ty # d"

section \<open>Sending and receiving\<close>

definition dusb_send :: "'d calc_env \<Rightarrow> dusb_raw \<Rightarrow> 'd calc_handle \<Rightarrow> ret \<times> 'd calc_handle" where
  "dusb_send E pkt h = with_busy h (\<lambda>h.
     (let ev = DUSBRawPacketData (rw_size pkt) (rw_type pkt) (rw_data pkt);
          (r, h) = andthen (fire E CALC_EVENT_TYPE_BEFORE_SEND_DUSB_RPKT None ev h) (\<lambda>h.
            (let nbytes = (if of_nat (length (rw_data pkt)) < rw_size pkt
                           then of_nat (length (rw_data pkt)) else rw_size pkt);
                 buf = be32_out nbytes @ rw_type pkt # take (unat nbytes) (rw_data pkt)
             in andthen (cable_send E buf (progress_reset h)) check_cancel))
      in fire E CALC_EVENT_TYPE_AFTER_SEND_DUSB_RPKT r ev h))"

definition dusb_recv ::
    "'d calc_env \<Rightarrow> dusb_raw \<Rightarrow> 'd calc_handle \<Rightarrow> ret \<times> dusb_raw \<times> 'd calc_handle" where
  "dusb_recv E pkt h = with_busy_val h (\<lambda>h.
     (let (r, h) = fire E CALC_EVENT_TYPE_BEFORE_RECV_DUSB_RPKT None
            (DUSBRawPacketData 0 0 (rw_data pkt)) h;
          (r, pkt, h) = (case r of Some e \<Rightarrow> (Some e, pkt, h) | None \<Rightarrow>
            (let (r, buf, h) = cable_recv E 5 (progress_reset h)
             in (case r of Some e \<Rightarrow> (Some e, pkt, h) | None \<Rightarrow>
               (let pkt = pkt\<lparr>rw_size := be32 (buf ! 0) (buf ! 1) (buf ! 2) (buf ! 3), rw_type := buf ! 4\<rparr>
                in if length (rw_data pkt) < unat (rw_size pkt) then (Some ERR_INVALID_PACKET, pkt, h)
                   else
                     (let (r, bs, h) = cable_recv E (unat (rw_size pkt)) h
                      in (case memcpy_at (rw_data pkt) 0 bs of
                            None \<Rightarrow> (Some UNDEFINED_BEHAVIOUR, pkt, h)
                          | Some d \<Rightarrow>
                              (let (r, h) = andthen (r, h) check_cancel
                               in (r, pkt\<lparr>rw_data := d\<rparr>, h))))))));
          (r, h) = fire E CALC_EVENT_TYPE_AFTER_RECV_DUSB_RPKT r
            (DUSBRawPacketData (rw_size pkt) (rw_type pkt) (rw_data pkt)) h
      in (r, pkt, h)))"

lemma dusb_send_busy [busy_keeps]: "dusb_send E pkt h = (r, h') \<Longrightarrow> kh_busy h' = kh_busy h"
  unfolding dusb_send_def
  by (erule with_busy_keeps [rotated])
    (auto simp: Let_def andthen_def split: option.splits prod.splits
      dest!: fire_busy cable_send_busy check_cancel_busy)

lemma dusb_recv_busy [busy_keeps]: "dusb_recv E pkt h = (r, x, h') \<Longrightarrow> kh_busy h' = kh_busy h"
  unfolding dusb_recv_def
  by (erule with_busy_val_keeps [rotated])
    (auto simp: Let_def andthen_def split: option.splits prod.splits if_splits
      dest!: fire_busy cable_recv_busy check_cancel_busy)

lemma dusb_recv_inv: "raw_inv pkt \<Longrightarrow> dusb_recv E pkt h = (r, pkt', h') \<Longrightarrow> raw_inv pkt'"
  by (auto simp: dusb_recv_def with_busy_val_def raw_inv_def Let_def
      split: option.splits prod.splits if_splits dest!: memcpy_at_length)

lemma raw_zero_inv [simp]: "raw_inv raw_zero"
  by (simp add: raw_inv_def raw_zero_def)

section \<open>On a quiet link\<close>

lemma be32_out_read: "be32_out w ! 0 = MSB (MSW w)" "be32_out w ! Suc 0 = LSB (MSW w)"
  "be32_out w ! 2 = MSB (LSW w)" "be32_out w ! 3 = LSB (LSW w)" "length (be32_out w) = 4"
  by (simp_all add: be32_out_def)

lemma raw_bytes_length [simp]: "length (raw_bytes ty d) = length d + 5"
  by (simp add: raw_bytes_def be32_out_read)

context quiet_link
begin

lemma moved_progress_reset:
  "moved (progress_reset h) out n h' \<longleftrightarrow> moved h out n h'"
  by (simp add: moved_def progress_reset_quiet) (simp add: progress_reset_def)

lemma dusb_send_quiet:
  assumes "ready h" "raw_inv pkt" "rw_size pkt = of_nat (length d)" "length d \<le> 1023"
    and "take (length d) (rw_data pkt) = d" "length d + 5 \<le> c_room (kh_cable h)"
  shows "\<exists>h'. dusb_send E pkt h = (None, h') \<and> moved h (raw_bytes (rw_type pkt) d) 0 h'"
proof -
  let ?h = "progress_reset (h\<lparr>kh_busy := True\<rparr>)"
  have n: "unat (rw_size pkt) = length d"
    using assms(3,4) by (simp add: unat_of_nat take_bit_eq_mod)
  then have small: "\<not> of_nat (length (rw_data pkt)) < rw_size pkt"
    using assms(2,4) by (simp add: raw_inv_def word_less_nat_alt)
  obtain h1 where h1: "cable_send E (raw_bytes (rw_type pkt) d) ?h = (None, h1)"
      "stepped ?h (raw_bytes (rw_type pkt) d) 0 h1"
    using send_stepped [of ?h "raw_bytes (rw_type pkt) d"] assms(1,6)
    by (auto simp: progress_reset_quiet)
  have mv: "moved (h\<lparr>kh_busy := True\<rparr>) (raw_bytes (rw_type pkt) d) 0 h1"
    using h1(2) by (simp add: stepped_def moved_progress_reset)
  then have "check_cancel h1 = (None, h1)" by (simp add: moved_def ready_def check_cancel_quiet)
  then show ?thesis
    unfolding dusb_send_def
    by (intro with_busy_moved)
      (use h1(1) mv n small assms(3,5) in \<open>simp add: fire_quiet Let_def raw_bytes_def\<close>)
qed

lemma dusb_recv_quiet:
  assumes "ready h" "raw_inv pkt" "c_avail (kh_cable h) = raw_bytes ty d @ rest" "length d \<le> 1023"
  shows "\<exists>h'. dusb_recv E pkt h = (None, pkt\<lparr>rw_size := of_nat (length d), rw_type := ty,
           rw_data := d @ drop (length d) (rw_data pkt)\<rparr>, h') \<and> moved h [] (length d + 5) h'"
proof -
  let ?h = "progress_reset (h\<lparr>kh_busy := True\<rparr>)" let ?sz = "of_nat (length d) :: u32"
  let ?hdr = "be32_out ?sz @ [ty]"
  have n: "unat ?sz = length d" using assms(4) by (simp add: unat_of_nat take_bit_eq_mod)
  obtain h1 where h1: "cable_recv E 5 ?h = (None, ?hdr, h1)" "stepped ?h [] 5 h1"
    using recv_stepped [of ?h 5] assms(1,3) by (auto simp: progress_reset_quiet raw_bytes_def be32_out_read)
  have "ready h1" "c_avail (kh_cable h1) = d @ rest"
    using h1(2) assms(3) by (auto simp: stepped_def moved_def progress_reset_quiet raw_bytes_def be32_out_read)
  then obtain h2 where h2: "cable_recv E (length d) h1 = (None, d, h2)" "stepped h1 [] (length d) h2"
    using recv_stepped [of h1 "length d"] by auto
  have "moved ?h [] (length d + 5) h2"
    using stepped_trans [OF h1(2) h2(2)] by (simp add: stepped_def add.commute)
  then have mv: "moved (h\<lparr>kh_busy := True\<rparr>) [] (length d + 5) h2"
    by (simp add: moved_progress_reset)
  then have "check_cancel h2 = (None, h2)" by (simp add: moved_def ready_def check_cancel_quiet)
  moreover have "be32 (?hdr ! 0) (?hdr ! Suc 0) (?hdr ! 2) (?hdr ! 3) = ?sz" "?hdr ! 4 = ty"
    by (simp_all add: be32_out_def be32_bytes)
  moreover have "memcpy_at (rw_data pkt) 0 d = Some (d @ drop (length d) (rw_data pkt))"
    using assms(2,4) by (simp add: memcpy_at_def raw_inv_def)
  ultimately show ?thesis
    unfolding dusb_recv_def
    by (intro with_busy_val_moved)
      (use h1(1) h2(1) mv n assms(2,4) in \<open>simp add: fire_quiet Let_def raw_inv_def\<close>)
qed

end

section \<open>The dissector\<close>

text \<open>
  \<open>inner\<close> stands for \<open>dusb_dissect_cmd_data\<close> of \<^verbatim>\<open>dusb_cmd.cc\<close>: it gets the position in
  \<open>data\<close> its pointer has (the pointer is advanced over the printed bytes and then moved back
  by the declared size), the remaining length, and the declared size and type. The outcome
  has the return code and the new value of \<open>*first\<close>.
\<close>

type_synonym dissect_inner = "int \<Rightarrow> nat \<Rightarrow> u32 \<Rightarrow> u16 \<Rightarrow> ret"

definition dusb_dissect_virt :: "dissect_inner \<Rightarrow> bytes \<Rightarrow> bool \<Rightarrow> ret" where
  "dusb_dissect_virt inner data first =
     (if first then
        (let vtl_size = be32 (data ! 5) (data ! 6) (data ! 7) (data ! 8);
             vtl_type = be16 (data ! 9) (data ! 10)
         in if vtl_size = 0 then None
            else inner (int (length data) - int (unat vtl_size)) (length data - 11) vtl_size vtl_type)
      else None)"

definition dusb_dissect :: "dissect_inner \<Rightarrow> bytes \<Rightarrow> bool \<Rightarrow> ret \<times> bool" where
  "dusb_dissect inner data first =
     (if length data < 5 \<or> DUSB_DATA_SIZE < length data then (Some ERR_INVALID_PACKET, first)
      else
        (let raw_size = be32 (data ! 0) (data ! 1) (data ! 2) (data ! 3); raw_type = data ! 4
         in if DUSB_DATA_SIZE - 5 < unat raw_size then (Some ERR_INVALID_PACKET, first)
            else if raw_type < 1 \<or> 5 < raw_type then (Some ERR_INVALID_PACKET, first)
            else if length data < 5 + fst (snd (snd (dusbrawpackets ! (unat raw_type - 1)))) then
              (Some ERR_INVALID_PACKET, first)
            else if raw_type = DUSB_RPKT_VIRT_DATA \<or> raw_type = DUSB_RPKT_VIRT_DATA_LAST then
              (dusb_dissect_virt inner data first, raw_type \<noteq> DUSB_RPKT_VIRT_DATA)
            else (None, first)))"

section \<open>Properties of raw packets\<close>

text \<open>
  a raw packet of any type with up to 1023 bytes, sent on a quiet link, is on the wire as
  size (big endian), type and data; received on another link it has the same size, type and
  data, and exactly its bytes are consumed.
\<close>

theorem dusb_raw_roundtrip:
  assumes "quiet_link send recv sent avail room ok E" "link_ready ok h"
    and "raw_inv pkt" "unat (rw_size pkt) \<le> 1023" "sent (cb_dev (kh_cable h)) = []"
    and "unat (rw_size pkt) + 5 \<le> room (cb_dev (kh_cable h))"
    and "quiet_link send' recv' sent' avail' room' ok' E'" "link_ready ok' g" "raw_inv pkt'"
    and "dusb_send E pkt h = (r, h')"
    and "avail' (cb_dev (kh_cable g)) = sent (cb_dev (kh_cable h')) @ rest"
  shows "r = None
     \<and> sent (cb_dev (kh_cable h')) = raw_bytes (rw_type pkt) (take (unat (rw_size pkt)) (rw_data pkt))
     \<and> (\<exists>got g'. dusb_recv E' pkt' g = (None, got, g') \<and> rw_size got = rw_size pkt
          \<and> rw_type got = rw_type pkt
          \<and> take (unat (rw_size got)) (rw_data got) = take (unat (rw_size pkt)) (rw_data pkt)
          \<and> transfer sent' avail' ok' g [] (unat (rw_size pkt) + 5) g')"
proof -
  let ?n = "unat (rw_size pkt)" let ?d = "take ?n (rw_data pkt)"
  have len: "length ?d = ?n" using assms(3,4) by (simp add: raw_inv_def)
  have sz: "rw_size pkt = of_nat (length ?d)" unfolding len by simp
  have h: "quiet_link.ready ok h" "quiet_link.ready ok' g"
    using assms(2,8) quiet_link.link_ready_iff [OF assms(1)] quiet_link.link_ready_iff [OF assms(7)] by blast+
  obtain h'' where "dusb_send E pkt h = (None, h'')"
      "quiet_link.moved sent avail room ok h (raw_bytes (rw_type pkt) ?d) 0 h''"
    using quiet_link.dusb_send_quiet [OF assms(1) h(1) assms(3) sz] assms(4,6) len
    by (auto simp: quiet_link.c_room_def [OF assms(1)])
  then have s: "r = None" "sent (cb_dev (kh_cable h')) = raw_bytes (rw_type pkt) ?d"
    using assms(5,10) by (auto simp: quiet_link.moved_def [OF assms(1)] quiet_link.c_sent_def [OF assms(1)])
  obtain g' where "dusb_recv E' pkt' g = (None, pkt'\<lparr>rw_size := of_nat (length ?d), rw_type := rw_type pkt,
           rw_data := ?d @ drop (length ?d) (rw_data pkt')\<rparr>, g')"
      "quiet_link.moved sent' avail' room' ok' g [] (length ?d + 5) g'"
    using quiet_link.dusb_recv_quiet [OF assms(7) h(2) assms(9), of "rw_type pkt" ?d rest] assms(4,11) len s(2)
    by (auto simp: quiet_link.c_avail_def [OF assms(7)])
  then show ?thesis
    using s len sz quiet_link.moved_transfer [OF assms(7)] by auto
qed

lemma dusb_raw_roundtrip_witness:
  "\<exists>h'. dusb_send (vti_env vti_works) (raw_zero\<lparr>rw_size := 2, rw_type := 5\<rparr>)
          (vti_handle CALC_TI84P_USB (vti_loaded [])) = (None, h')
     \<and> (\<exists>got g'. dusb_recv (vti_env vti_works) raw_zero
            (vti_handle CALC_TI84P_USB (vti_loaded (raw_bytes 5 [0, 0]))) = (None, got, g')
          \<and> rw_size got = 2 \<and> rw_type got = 5)"
proof -
  let ?h = "vti_handle CALC_TI84P_USB (vti_loaded [])"
  let ?pkt = "raw_zero\<lparr>rw_size := 2, rw_type := 5\<rparr>"
  have two: "take 2 (replicate 1023 0) = [0, 0 :: u8]" by (simp add: numeral_2_eq_2)
  have inv: "raw_inv ?pkt" by (simp add: raw_inv_def raw_zero_def)
  obtain h' where h': "dusb_send (vti_env vti_works) ?pkt ?h = (None, h')"
      "vti_sent (cb_dev (kh_cable h')) = raw_bytes 5 [0, 0]"
    using quiet_vti.dusb_send_quiet [of ?h ?pkt "[0, 0]" vti_works] inv two
    by (auto simp: quiet_vti.link_ready_iff [symmetric] quiet_vti.moved_def quiet_vti.c_room_def
        quiet_vti.c_sent_def raw_zero_def)
  show ?thesis
    using dusb_raw_roundtrip [OF quiet_vti.quiet_link_axioms [of vti_works] _ inv _ _ _
        quiet_vti.quiet_link_axioms [of vti_works] _ raw_zero_inv h'(1),
        where rest = "[]" and g = "vti_handle CALC_TI84P_USB (vti_loaded (raw_bytes 5 [0, 0]))"]
      h' by auto
qed

text \<open>
  a header that announces more than the array holds is refused: the invalid-packet error,
  the array untouched, no byte read behind the header, for every such size.
\<close>

theorem dusb_recv_oversize:
  assumes "quiet_link send recv sent avail room ok E" "link_ready ok h" "raw_inv pkt"
    and "1023 < unat sz" "avail (cb_dev (kh_cable h)) = be32_out sz @ ty # rest"
  shows "\<exists>h'. dusb_recv E pkt h =
           (Some ERR_INVALID_PACKET, pkt\<lparr>rw_size := sz, rw_type := ty\<rparr>, h')
     \<and> transfer sent avail ok h [] 5 h'"
proof -
  note q = assms(1)
  let ?h = "progress_reset (h\<lparr>kh_busy := True\<rparr>)" let ?hdr = "be32_out sz @ [ty]"
  have r: "quiet_link.ready ok h" using assms(2) quiet_link.link_ready_iff [OF q] by blast
  obtain h1 where h1: "cable_recv E 5 ?h = (None, ?hdr, h1)"
      "quiet_link.stepped sent avail room ok ?h [] 5 h1"
    using quiet_link.recv_stepped [OF q, of ?h 5] r assms(5)
    by (auto simp: quiet_link.progress_reset_quiet [OF q] be32_out_read quiet_link.c_avail_def [OF q]
        quiet_link.callbacks_ready [OF q] quiet_link.ready_update [OF q])
  have mv: "quiet_link.moved sent avail room ok (h\<lparr>kh_busy := True\<rparr>) [] 5 h1"
    using h1(2) by (simp add: quiet_link.stepped_def [OF q] quiet_link.moved_progress_reset [OF q])
  have "be32 (?hdr ! 0) (?hdr ! Suc 0) (?hdr ! 2) (?hdr ! 3) = sz" "?hdr ! 4 = ty"
    by (simp_all add: be32_out_def be32_bytes)
  then have "\<exists>h'. dusb_recv E pkt h = (Some ERR_INVALID_PACKET, pkt\<lparr>rw_size := sz, rw_type := ty\<rparr>, h')
      \<and> quiet_link.moved sent avail room ok h [] 5 h'"
    unfolding dusb_recv_def
    by (intro quiet_link.with_busy_val_moved [OF q])
      (use h1(1) mv assms(3,4) in \<open>simp add: quiet_link.fire_quiet [OF q] Let_def raw_inv_def\<close>)
  then show ?thesis using quiet_link.moved_transfer [OF q] by blast
qed

lemma dusb_recv_oversize_witness:
  "\<exists>h'. dusb_recv (vti_env vti_works) raw_zero
          (vti_handle CALC_TI84P_USB (vti_loaded (be32_out 1024 @ 3 # [7, 7]))) =
           (Some ERR_INVALID_PACKET, raw_zero\<lparr>rw_size := 1024, rw_type := 3\<rparr>, h')
     \<and> transfer vti_sent vti_avail vti_ok
         (vti_handle CALC_TI84P_USB (vti_loaded (be32_out 1024 @ 3 # [7, 7]))) [] 5 h'"
  by (rule dusb_recv_oversize [OF quiet_vti.quiet_link_axioms, where rest = "[7, 7]"])
    (simp_all add: be32_out_read)

text \<open>
  the dissector accepts the raw packet that starts a virtual packet of \<open>vs\<close> bytes and
  calls the inner dissector with the position \<open>11 + length d - vs\<close>, where \<open>d\<close> is the data the
  raw packet has. It is the start of the data, 11, exactly when the virtual packet ends in
  this raw packet; for one that continues, the position is before the data, and before the
  buffer when more than 11 bytes are still to come.
\<close>

theorem dusb_dissect_first_packet:
  assumes "length d \<le> 1012" "ty = DUSB_RPKT_VIRT_DATA \<or> ty = DUSB_RPKT_VIRT_DATA_LAST" "vs \<noteq> 0"
  shows "dusb_dissect inner (raw_bytes ty (be32_out vs @ [MSB vt, LSB vt] @ d)) True =
     (inner (11 + int (length d) - int (unat vs)) (length d) vs vt, ty = DUSB_RPKT_VIRT_DATA_LAST)"
proof -
  let ?p = "be32_out vs @ [MSB vt, LSB vt] @ d"
  let ?w = "of_nat (6 + length d) :: u32" let ?data = "raw_bytes ty ?p"
  have plen: "length ?p = 6 + length d" by (simp add: be32_out_read)
  have data: "?data = [MSB (MSW ?w), LSB (MSW ?w), MSB (LSW ?w), LSB (LSW ?w), ty,
      MSB (MSW vs), LSB (MSW vs), MSB (LSW vs), LSB (LSW vs), MSB vt, LSB vt] @ d"
    unfolding raw_bytes_def plen by (simp add: be32_out_def)
  have len: "length ?data = 11 + length d" by (simp add: be32_out_read)
  have n: "unat ?w = 6 + length d" using assms(1) by (simp add: unat_of_nat take_bit_eq_mod del: of_nat_add)
  have reads: "be32 (?data ! 0) (?data ! 1) (?data ! 2) (?data ! 3) = ?w" "?data ! 4 = ty"
    "be32 (?data ! 5) (?data ! 6) (?data ! 7) (?data ! 8) = vs" "be16 (?data ! 9) (?data ! 10) = vt"
    unfolding data by (simp_all only: nth_append) (simp_all add: be32_bytes be16_MSB_LSB)
  have "dusb_dissect inner x True =
     (inner (11 + int (length d) - int (unat vs)) (length d) vs vt, ty = DUSB_RPKT_VIRT_DATA_LAST)"
    if x: "be32 (x ! 0) (x ! 1) (x ! 2) (x ! 3) = ?w" "x ! 4 = ty"
      "be32 (x ! 5) (x ! 6) (x ! 7) (x ! 8) = vs" "be16 (x ! 9) (x ! 10) = vt"
      "length x = 11 + length d" for x
    using assms n unfolding dusb_dissect_def dusb_dissect_virt_def Let_def x
    by (auto simp: dusbrawpackets_def)
  from this [OF reads len] show ?thesis .
qed

lemma dusb_dissect_first_packet_witness:
  "dusb_dissect (\<lambda>p n s t. if p < 0 then Some UNDEFINED_BEHAVIOUR else None)
     (raw_bytes 3 (be32_out 2000 @ [MSB (0x000D :: u16), LSB (0x000D :: u16)] @ [1, 2, 3])) True
   = (Some UNDEFINED_BEHAVIOUR, False)"
  using dusb_dissect_first_packet [of "[1, 2, 3]" 3 2000
      "\<lambda>p n s t. if p < 0 then Some UNDEFINED_BEHAVIOUR else None" "0x000D"] by simp

end
