(* ===== verification/DusbVpkt.thy ===== *)
theory DusbVpkt
  imports DusbRpkt
begin

text \<open>
  Virtual packets of the direct USB protocol, \<^verbatim>\<open>libticalcs/trunk/src/dusb_vpkt.cc\<close>: the
  negotiation of the buffer size, acknowledgements, the fragmentation of a virtual packet
  into raw packets and its reassembly, with the models' workarounds.
\<close>

section \<open>Virtual packets\<close>

text \<open>\<open>vt_data\<close> is \<open>None\<close> for the null pointer, otherwise the bytes of the block that hold data.\<close>

record dusb_vtl =
  vt_size :: u32
  vt_type :: u16
  vt_data :: "bytes option"

definition vpkt_types :: "(u16 \<times> string) list" where
  "vpkt_types =
    [(0x0000, ''''), (0x0001, ''Ping / Set Mode''), (0x0002, ''Begin OS Transfer''),
     (0x0003, ''Acknowledgement of OS Transfer''), (0x0004, ''OS Header''), (0x0005, ''OS Data''),
     (0x0006, ''Acknowledgement of EOT''), (0x0007, ''Parameter Request''),
     (0x0008, ''Parameter Data''), (0x0009, ''Request Directory Listing''),
     (0x000A, ''Variable Header''), (0x000B, ''Request to Send''),
     (0x000C, ''Request Variable''), (0x000D, ''Variable Contents''),
     (0x000E, ''Parameter Set''), (0x000F, ''''), (0x0010, ''Modify Variable''),
     (0x0011, ''Remote Control''), (0x0012, ''Acknowledgement of Mode Setting''),
     (0xAA00, ''Acknowledgement of Data''), (0xBB00, ''Delay Acknowledgment''),
     (0xDD00, ''End of Transmission''), (0xEE00, ''Error'')]"

definition dusb_vpkt_type2name :: "u16 \<Rightarrow> string" where
  "dusb_vpkt_type2name i =
     (case find (\<lambda>p. fst p = i) vpkt_types of None \<Rightarrow> ''unknown: not listed'' | Some p \<Rightarrow> snd p)"

definition dusb_vtl_pkt_new_ex :: "u32 \<Rightarrow> u16 \<Rightarrow> bytes option \<Rightarrow> dusb_vtl" where
  "dusb_vtl_pkt_new_ex n ty data = \<lparr>vt_size = n, vt_type = ty, vt_data = data\<rparr>"

definition dusb_vtl_pkt_new :: dusb_vtl where
  "dusb_vtl_pkt_new = dusb_vtl_pkt_new_ex 0 0 None"

definition dusb_vtl_pkt_fill :: "dusb_vtl \<Rightarrow> u32 \<Rightarrow> u16 \<Rightarrow> bytes option \<Rightarrow> dusb_vtl" where
  "dusb_vtl_pkt_fill vtl n ty data = vtl\<lparr>vt_size := n, vt_type := ty, vt_data := data\<rparr>"

definition dusb_vtl_pkt_alloc_data :: "nat \<Rightarrow> bytes" where
  "dusb_vtl_pkt_alloc_data n = replicate (n + DUSB_DH_SIZE) 0"

text \<open>
  \<open>n\<close> is a 64-bit size; the block had \<open>vt_size + 6\<close> bytes. The new part is cleared from the
  old end on. The size field stays as it is.
\<close>

definition dusb_vtl_pkt_realloc_data :: "dusb_vtl \<Rightarrow> nat \<Rightarrow> dusb_vtl option" where
  "dusb_vtl_pkt_realloc_data vtl n =
     (if n + DUSB_DH_SIZE < 2 ^ 64 then
        (let d = (case vt_data vtl of None \<Rightarrow> [] | Some d \<Rightarrow> d)
         in Some (vtl\<lparr>vt_data := Some (take (n + DUSB_DH_SIZE) d @ replicate (n - unat (vt_size vtl)) 0)\<rparr>))
      else None)"

section \<open>Buffer sizes and acknowledgements\<close>

text \<open>A packet with the four bytes of a size, and the size such a packet carries.\<close>

definition size_packet :: "u8 \<Rightarrow> u32 \<Rightarrow> dusb_raw" where
  "size_packet ty n = raw_zero\<lparr>rw_size := 4, rw_type := ty,
     rw_data := [ucast (drop_bit 24 n AND 0xFF), ucast (drop_bit 16 n AND 0xFF),
                 ucast (drop_bit 8 n AND 0xFF), ucast (n AND 0xFF)]
                @ drop 4 (rw_data raw_zero)\<rparr>"

definition raw_be32 :: "dusb_raw \<Rightarrow> u32" where
  "raw_be32 raw = be32 (rw_data raw ! 0) (rw_data raw ! 1) (rw_data raw ! 2) (rw_data raw ! 3)"

definition clamp_size :: "u32 \<Rightarrow> u32" where
  "clamp_size n = (if of_nat (DUSB_DATA_SIZE + 1) < n then of_nat (DUSB_DATA_SIZE + 1) else n)"

definition dusb_send_buf_size_request :: "'d calc_env \<Rightarrow> u32 \<Rightarrow> 'd calc_handle \<Rightarrow> ret \<times> 'd calc_handle" where
  "dusb_send_buf_size_request E n h = dusb_send E (size_packet DUSB_RPKT_BUF_SIZE_REQ (clamp_size n)) h"

definition dusb_model_limits :: "calc_model list" where
  "dusb_model_limits = [CALC_TI83PCE_USB, CALC_TI84PCE_USB, CALC_TI82AEP_USB]"

text \<open>The value is the caller's \<open>*size\<close>, \<open>None\<close> when it passes the null pointer.\<close>

definition dusb_recv_buf_size_alloc ::
    "'d calc_env \<Rightarrow> u32 option \<Rightarrow> 'd calc_handle \<Rightarrow> ret \<times> u32 option \<times> 'd calc_handle" where
  "dusb_recv_buf_size_alloc E out h =
     (let (r, raw, h) = dusb_recv E raw_zero h
      in (case r of Some e \<Rightarrow> (Some e, out, h) | None \<Rightarrow>
           if rw_size raw \<noteq> 4 \<or> rw_type raw \<noteq> DUSB_RPKT_BUF_SIZE_ALLOC then (Some ERR_INVALID_PACKET, out, h)
           else
             (let tmp = raw_be32 raw;
                  tmp = (if of_nat DUSB_DATA_SIZE < tmp then of_nat DUSB_DATA_SIZE else tmp);
                  tmp = (if kh_model h \<in> set dusb_model_limits \<and> 1018 < tmp then 1018 else tmp)
              in (None, map_option (\<lambda>_. tmp) out, h\<lparr>kh_maxlen := tmp\<rparr>))))"

text \<open>The wrong packet sets the error code and goes on to report a size.\<close>

definition dusb_recv_buf_size_request ::
    "'d calc_env \<Rightarrow> u32 option \<Rightarrow> 'd calc_handle \<Rightarrow> ret \<times> u32 option \<times> 'd calc_handle" where
  "dusb_recv_buf_size_request E out h =
     (let (r, raw, h) = dusb_recv E raw_zero h
      in (case r of Some e \<Rightarrow> (Some e, out, h) | None \<Rightarrow>
           (let r = (if rw_size raw \<noteq> 4 \<or> rw_type raw \<noteq> DUSB_RPKT_BUF_SIZE_REQ
                     then Some ERR_INVALID_PACKET else None)
            in (r, map_option (\<lambda>_. raw_be32 raw) out, h))))"

definition dusb_send_buf_size_alloc :: "'d calc_env \<Rightarrow> u32 \<Rightarrow> 'd calc_handle \<Rightarrow> ret \<times> 'd calc_handle" where
  "dusb_send_buf_size_alloc E n h =
     (let n = clamp_size n;
          (r, h) = dusb_send E (size_packet DUSB_RPKT_BUF_SIZE_ALLOC n) h
      in (r, h\<lparr>kh_maxlen := n\<rparr>))"

definition dusb_get_buf_size :: "'d calc_handle \<Rightarrow> ret \<times> u32" where
  "dusb_get_buf_size h = (None, kh_maxlen h)"

definition dusb_set_buf_size :: "u32 \<Rightarrow> 'd calc_handle \<Rightarrow> ret \<times> 'd calc_handle" where
  "dusb_set_buf_size n h = (None, h\<lparr>kh_maxlen := clamp_size n\<rparr>)"

definition ack_packet :: dusb_raw where
  "ack_packet = raw_zero\<lparr>rw_size := 2, rw_type := DUSB_RPKT_VIRT_DATA_ACK,
     rw_data := [0xE0, 0x00] @ drop 2 (rw_data raw_zero)\<rparr>"

definition dusb_send_acknowledge :: "'d calc_env \<Rightarrow> 'd calc_handle \<Rightarrow> ret \<times> 'd calc_handle" where
  "dusb_send_acknowledge E h = dusb_send E ack_packet h"

text \<open>The final checks of \<open>dusb_recv_acknowledge\<close>, with the source's conjunction.\<close>

definition check_acknowledge :: "dusb_raw \<Rightarrow> ret" where
  "check_acknowledge raw =
     (if rw_type raw \<noteq> DUSB_RPKT_VIRT_DATA_ACK then Some ERR_INVALID_PACKET
      else if rw_data raw ! 0 \<noteq> 0xE0 \<and> rw_data raw ! 1 \<noteq> 0x00 then Some ERR_INVALID_PACKET
      else None)"

definition dusb_recv_acknowledge :: "'d calc_env \<Rightarrow> 'd calc_handle \<Rightarrow> ret \<times> 'd calc_handle" where
  "dusb_recv_acknowledge E h = with_busy h (\<lambda>h.
     (let (r, raw, h) = dusb_recv E raw_zero h
      in (case r of Some e \<Rightarrow> (Some e, h) | None \<Rightarrow>
           if rw_size raw \<noteq> 2 \<and> rw_size raw \<noteq> 4 then (Some ERR_INVALID_PACKET, h)
           else if rw_type raw = DUSB_RPKT_BUF_SIZE_REQ then
             (if rw_size raw \<noteq> 4 then (Some ERR_INVALID_PACKET, h)
              else andthen (dusb_send_buf_size_alloc E (raw_be32 raw) h) (\<lambda>h.
                (let (r, raw, h) = dusb_recv E raw h
                 in (case r of Some e \<Rightarrow> (Some e, h) | None \<Rightarrow> (check_acknowledge raw, h)))))
           else (check_acknowledge raw, h))))"

section \<open>Fragmentation\<close>

definition dusb_84p_models :: "calc_model list" where
  "dusb_84p_models = [CALC_TI84P_USB, CALC_TI84PC_USB, CALC_TI82A_USB, CALC_TI84PT_USB]"

text \<open>An empty bulk transfer after the last raw packet; its return code is ignored.\<close>

definition workaround_send ::
    "'d calc_env \<Rightarrow> dusb_raw \<Rightarrow> dusb_vtl \<Rightarrow> 'd calc_handle \<Rightarrow> 'd calc_handle" where
  "workaround_send E raw vtl h =
     (let extra =
        (if kh_model h = CALC_TI89T_USB then
           1076 < vt_size vtl \<and> (rw_size raw + 5) mod 64 = 0
         else if kh_model h \<in> set dusb_84p_models then
           rw_type raw = DUSB_RPKT_VIRT_DATA_LAST \<and> 244 < vt_size vtl \<and> vt_size vtl mod 250 = 244
         else if kh_model h \<in> set dusb_model_limits then
           rw_type raw = DUSB_RPKT_VIRT_DATA_LAST \<and> (rw_size raw + 5) mod 64 = 0
         else False)
      in if extra then snd (cable_send E [] h) else h)"

text \<open>The header of a virtual packet: size and type, big endian.\<close>

definition vtl_header :: "dusb_vtl \<Rightarrow> bytes" where
  "vtl_header vtl = be32_out (vt_size vtl) @ [MSB (vt_type vtl), LSB (vt_type vtl)]"

definition vtl_bytes :: "dusb_vtl \<Rightarrow> bytes" where
  "vtl_bytes vtl = (case vt_data vtl of None \<Rightarrow> [] | Some d \<Rightarrow> d)"

text \<open>Fill the start of a raw packet: header, then \<open>n\<close> bytes of data.\<close>

definition fill_first :: "dusb_raw \<Rightarrow> dusb_vtl \<Rightarrow> nat \<Rightarrow> bytes option" where
  "fill_first raw vtl n =
     Option.bind (memcpy_at (rw_data raw) 0 (vtl_header vtl)) (\<lambda>d.
       (if vt_data vtl = None \<and> n = 0 then Some d
        else Option.bind (memcpy_from (vtl_bytes vtl) 0 n) (memcpy_at d DUSB_DH_SIZE)))"

definition dusb_send_single ::
    "'d calc_env \<Rightarrow> dusb_vtl \<Rightarrow> 'd calc_handle \<Rightarrow> ret \<times> 'd calc_handle" where
  "dusb_send_single E vtl h =
     (case fill_first raw_zero vtl (unat (vt_size vtl)) of
        None \<Rightarrow> (Some UNDEFINED_BEHAVIOUR, h)
      | Some d \<Rightarrow>
          (let raw = raw_zero\<lparr>rw_size := vt_size vtl + of_nat DUSB_DH_SIZE,
                              rw_type := DUSB_RPKT_VIRT_DATA_LAST, rw_data := d\<rparr>
           in andthen (dusb_send E raw h) (\<lambda>h.
                dusb_recv_acknowledge E (workaround_send E raw vtl h))))"

text \<open>
  The chunks without a header: \<open>n\<close> of the \<open>q\<close> are left, the next is number \<open>i\<close>; \<open>m\<close> bytes
  remain for the last, shorter one.
\<close>

fun dusb_send_chunks ::
    "'d calc_env \<Rightarrow> dusb_vtl \<Rightarrow> nat \<Rightarrow> nat \<Rightarrow> nat \<Rightarrow> nat \<Rightarrow> nat \<Rightarrow> dusb_raw \<Rightarrow> 'd calc_handle
       \<Rightarrow> ret \<times> (dusb_raw \<times> nat) \<times> 'd calc_handle" where
  "dusb_send_chunks E vtl q m 0 i offset raw h = (None, (raw, offset), h)"
| "dusb_send_chunks E vtl q m (Suc n) i offset raw h =
     (let blk = unat (kh_maxlen h) in
      case Option.bind (memcpy_from (vtl_bytes vtl) offset blk) (memcpy_at (rw_data raw) 0) of
        None \<Rightarrow> (Some UNDEFINED_BEHAVIOUR, (raw, offset), h)
      | Some d \<Rightarrow>
          (let raw = raw\<lparr>rw_size := kh_maxlen h,
                         rw_type := (if i \<noteq> q \<or> m \<noteq> 0 then DUSB_RPKT_VIRT_DATA else DUSB_RPKT_VIRT_DATA_LAST),
                         rw_data := d\<rparr>;
               offset = offset + blk;
               (r, h) = andthen (dusb_send E raw h) (dusb_recv_acknowledge E)
           in (case r of Some e \<Rightarrow> (Some e, (raw, offset), h)
               | None \<Rightarrow>
                   (let h = set_max1 (sint (vt_size vtl)) h;
                        h = set_cnt1 (up_cnt1 (kh_updat h) + int blk) h
                    in dusb_send_chunks E vtl q m n (i + 1) offset raw (ticalcs_update_pbar E h)))))"

definition dusb_send_tail ::
    "'d calc_env \<Rightarrow> dusb_vtl \<Rightarrow> nat \<Rightarrow> nat \<Rightarrow> dusb_raw \<Rightarrow> 'd calc_handle \<Rightarrow> ret \<times> 'd calc_handle" where
  "dusb_send_tail E vtl m offset raw h =
     (if m = 0 then (None, h)
      else (case Option.bind (memcpy_from (vtl_bytes vtl) offset m) (memcpy_at (rw_data raw) 0) of
              None \<Rightarrow> (Some UNDEFINED_BEHAVIOUR, h)
            | Some d \<Rightarrow>
                (let raw = raw\<lparr>rw_size := of_nat m, rw_type := DUSB_RPKT_VIRT_DATA_LAST, rw_data := d\<rparr>
                 in andthen (dusb_send E raw h) (\<lambda>h.
                      dusb_recv_acknowledge E
                        (if kh_model h \<notin> set dusb_84p_models then workaround_send E raw vtl h else h)))))"

text \<open>
  The buffer size may change while the first acknowledgement is waited for: the calculator can ask for another
  one. A size of 0 is a division by zero.
\<close>

definition dusb_send_multi ::
    "'d calc_env \<Rightarrow> dusb_vtl \<Rightarrow> 'd calc_handle \<Rightarrow> ret \<times> 'd calc_handle" where
  "dusb_send_multi E vtl h =
     (let offset = unat (kh_maxlen h - of_nat DUSB_DH_SIZE) in
      case fill_first raw_zero vtl offset of
        None \<Rightarrow> (Some UNDEFINED_BEHAVIOUR, h)
      | Some d \<Rightarrow>
          (let raw = raw_zero\<lparr>rw_size := kh_maxlen h, rw_type := DUSB_RPKT_VIRT_DATA, rw_data := d\<rparr>
           in andthen (andthen (dusb_send E raw h) (dusb_recv_acknowledge E)) (\<lambda>h.
                if kh_maxlen h = 0 then (Some UNDEFINED_BEHAVIOUR, h)
                else
                  (let q = (unat (vt_size vtl) - offset) div unat (kh_maxlen h);
                       m = (unat (vt_size vtl) - offset) mod unat (kh_maxlen h);
                       (r, (raw, offset), h) = dusb_send_chunks E vtl q m q 1 offset raw h
                   in (case r of Some e \<Rightarrow> (Some e, h)
                       | None \<Rightarrow> dusb_send_tail E vtl m offset raw h)))))"

definition dusb_send_data :: "'d calc_env \<Rightarrow> dusb_vtl \<Rightarrow> 'd calc_handle \<Rightarrow> ret \<times> 'd calc_handle" where
  "dusb_send_data E vtl h =
     (if vt_size vtl \<noteq> 0 \<and> vt_data vtl = None then (Some ERR_INVALID_PARAMETER, h)
      else with_busy h (\<lambda>h.
        (let ev = DUSBVirtualPacketData (vt_size vtl) (vt_type vtl) (vt_data vtl);
             (r, h) = andthen (fire E CALC_EVENT_TYPE_BEFORE_SEND_DUSB_VPKT None ev h) (\<lambda>h.
               if vt_size vtl \<le> kh_maxlen h - of_nat DUSB_DH_SIZE then dusb_send_single E vtl h
               else dusb_send_multi E vtl h)
         in fire E CALC_EVENT_TYPE_AFTER_SEND_DUSB_VPKT r ev h)))"

section \<open>Reassembly\<close>

definition workaround_recv ::
    "'d calc_env \<Rightarrow> dusb_raw \<Rightarrow> 'd calc_handle \<Rightarrow> 'd calc_handle" where
  "workaround_recv E raw h =
     (let extra =
        (if kh_model h = CALC_TI89T_USB then rw_size raw mod 64 = 0
         else if kh_model h \<in> set dusb_84p_models then (rw_size raw + 5) mod 64 = 0
         else False)
      in if extra then snd (snd (cable_recv E 0 h)) else h)"

text \<open>
  The variables of the loop: the raw packet, the virtual packet, \<open>*declared_size\<close>, the size
  of the allocated block, and whether the next raw packet is the first. The block's bytes
  behind the data are not represented; \<open>alloc\<close> says how many it has.
\<close>

record dusb_rx =
  rx_raw :: dusb_raw
  rx_vtl :: dusb_vtl
  rx_declared :: u32
  rx_alloc :: nat
  rx_first :: bool

text \<open>The size of the first block: at most 10000 bytes are believed, and the data at hand fits.\<close>

definition rx_alloc_first :: "u32 \<Rightarrow> nat \<Rightarrow> nat" where
  "rx_alloc_first declared body =
     (let alloc = (if 10000 < declared then 10000 else unat declared)
      in if alloc < body then body else alloc)"

definition rx_first_packet :: "dusb_rx \<Rightarrow> errcode + dusb_rx" where
  "rx_first_packet s =
     (let raw = rx_raw s in
      if unat (rw_size raw) < DUSB_DH_SIZE then Inl ERR_INVALID_PACKET
      else if length (rw_data raw) < unat (rw_size raw) then Inl ERR_INVALID_PACKET
      else
        (let declared = raw_be32 raw; body = unat (rw_size raw) - DUSB_DH_SIZE;
             alloc = rx_alloc_first declared body;
             ty = be16 (rw_data raw ! 4) (rw_data raw ! 5)
         in case memcpy_from (rw_data raw) DUSB_DH_SIZE body of
              None \<Rightarrow> Inl UNDEFINED_BEHAVIOUR
            | Some d \<Rightarrow>
                if 0 < alloc \<and> alloc < 2 \<and> ty = 0xEE00 then Inl UNDEFINED_BEHAVIOUR
                else Inr (s\<lparr>rx_declared := declared, rx_alloc := alloc, rx_first := False,
                  rx_vtl := \<lparr>vt_size = of_nat body, vt_type = ty,
                             vt_data = (if alloc = 0 then None else Some d)\<rparr>\<rparr>)))"

definition rx_next_packet :: "u32 \<Rightarrow> dusb_rx \<Rightarrow> errcode + dusb_rx" where
  "rx_next_packet est s =
     (let raw = rx_raw s; vtl = rx_vtl s; new = vt_size vtl + rw_size raw;
          alloc = (if rx_alloc s < unat new
                   then (if new \<le> est then unat est else unat (new * 2)) else rx_alloc s)
      in case memcpy_from (rw_data raw) 0 (unat (rw_size raw)) of
           None \<Rightarrow> Inl UNDEFINED_BEHAVIOUR
         | Some d \<Rightarrow>
             if alloc < unat (vt_size vtl) + unat (rw_size raw) then Inl UNDEFINED_BEHAVIOUR
             else Inr (s\<lparr>rx_alloc := alloc,
               rx_vtl := vtl\<lparr>vt_size := new,
                             vt_data := (if alloc = 0 then vt_data vtl else Some (vtl_bytes vtl @ d))\<rparr>\<rparr>))"

definition rx_progress :: "u32 \<Rightarrow> bool \<Rightarrow> dusb_rx \<Rightarrow> u32" where
  "rx_progress est was_first s =
     (let n = vt_size (rx_vtl s) in
      if was_first then (if rx_declared s \<noteq> 0 then rx_declared s else n)
      else if rw_type (rx_raw s) = DUSB_RPKT_VIRT_DATA_LAST then n
      else if n < rx_declared s then rx_declared s
      else if n < est then est
      else n + rw_size (rx_raw s))"

text \<open>One iteration of the loop.\<close>

definition rx_step ::
    "'d calc_env \<Rightarrow> u32 \<Rightarrow> dusb_rx \<Rightarrow> 'd calc_handle \<Rightarrow> ret \<times> dusb_rx \<times> 'd calc_handle" where
  "rx_step E est s h =
     (let (r, raw, h) = dusb_recv E (rx_raw s) h; s = s\<lparr>rx_raw := raw\<rparr>; was_first = rx_first s
      in (case r of Some e \<Rightarrow> (Some e, s, h) | None \<Rightarrow>
           if rw_type raw \<noteq> DUSB_RPKT_VIRT_DATA \<and> rw_type raw \<noteq> DUSB_RPKT_VIRT_DATA_LAST
           then (Some ERR_INVALID_PACKET, s, h)
           else (case (if was_first then rx_first_packet s else rx_next_packet est s) of
                   Inl e \<Rightarrow> (Some e, s, h)
                 | Inr s \<Rightarrow>
                     (let h = set_max1 (sint (rx_progress est was_first s)) h;
                          h = set_cnt1 (sint (vt_size (rx_vtl s))) h;
                          h = ticalcs_update_pbar E h;
                          (r, h) = dusb_send_acknowledge E (workaround_recv E raw h)
                      in (r, s, h)))))"

text \<open>
  The peer decides when the loop ends; \<open>None\<close> means that \<open>fuel\<close> raw packets were not enough.
\<close>

fun rx_loop ::
    "nat \<Rightarrow> 'd calc_env \<Rightarrow> u32 \<Rightarrow> dusb_rx \<Rightarrow> 'd calc_handle \<Rightarrow> (ret \<times> dusb_rx \<times> 'd calc_handle) option" where
  "rx_loop 0 E est s h = None"
| "rx_loop (Suc fuel) E est s h =
     (let (r, s, h) = rx_step E est s h
      in if r \<noteq> None \<or> rw_type (rx_raw s) = DUSB_RPKT_VIRT_DATA_LAST then Some (r, s, h)
         else rx_loop fuel E est s h)"

definition dusb_recv_data_varsize ::
    "nat \<Rightarrow> 'd calc_env \<Rightarrow> dusb_vtl \<Rightarrow> u32 \<Rightarrow> u32 \<Rightarrow> 'd calc_handle
       \<Rightarrow> (ret \<times> (dusb_vtl \<times> u32) \<times> 'd calc_handle) option" where
  "dusb_recv_data_varsize fuel E vtl declared est h =
     (let (busy, h) = set_busy_if_necessary h;
          (r, h) = fire E CALC_EVENT_TYPE_BEFORE_RECV_DUSB_VPKT None (DUSBVirtualPacketData 0 0 None) h;
          s = \<lparr>rx_raw = raw_zero, rx_vtl = vtl, rx_declared = declared, rx_alloc = 0, rx_first = True\<rparr>
      in (case (case r of Some e \<Rightarrow> Some (Some e, s, h) | None \<Rightarrow> rx_loop fuel E est s h) of
            None \<Rightarrow> None
          | Some (r, s, h) \<Rightarrow>
              (let vtl = rx_vtl s;
                   (r, h) = fire E CALC_EVENT_TYPE_AFTER_RECV_DUSB_VPKT r
                     (DUSBVirtualPacketData (vt_size vtl) (vt_type vtl) (vt_data vtl)) h
               in Some (r, (vtl, rx_declared s), clear_busy_if_necessary busy h))))"

definition dusb_recv_data ::
    "nat \<Rightarrow> 'd calc_env \<Rightarrow> dusb_vtl \<Rightarrow> 'd calc_handle \<Rightarrow> (ret \<times> dusb_vtl \<times> 'd calc_handle) option" where
  "dusb_recv_data fuel E vtl h =
     (case dusb_recv_data_varsize fuel E vtl 0 0 h of
        None \<Rightarrow> None
      | Some (r, (vtl, declared), h) \<Rightarrow>
          Some (if r = None \<and> declared \<noteq> vt_size vtl then Some ERR_INVALID_PACKET else r, vtl, h))"

section \<open>The wire format as a specification\<close>

text \<open>
  A virtual packet is its header followed by its data, cut into pieces of the buffer size;
  every piece travels as a raw packet, the last one with the final type, and every piece is
  acknowledged.
\<close>

fun chop :: "nat \<Rightarrow> 'a list \<Rightarrow> 'a list list" where
  "chop n xs = (if n = 0 \<or> length xs \<le> n then [xs] else take n xs # chop n (drop n xs))"

declare chop.simps [simp del]

fun wire_of :: "bytes list \<Rightarrow> bytes" where
  "wire_of [] = []"
| "wire_of [c] = raw_bytes DUSB_RPKT_VIRT_DATA_LAST c"
| "wire_of (c # d # cs) = raw_bytes DUSB_RPKT_VIRT_DATA c @ wire_of (d # cs)"

definition ack_bytes :: bytes where
  "ack_bytes = raw_bytes DUSB_RPKT_VIRT_DATA_ACK [0xE0, 0x00]"

definition acks :: "nat \<Rightarrow> bytes" where
  "acks n = concat (replicate n ack_bytes)"

definition vtl_pieces :: "u32 \<Rightarrow> dusb_vtl \<Rightarrow> bytes list" where
  "vtl_pieces maxlen vtl = chop (unat maxlen) (vtl_header vtl @ vtl_bytes vtl)"

lemma chop_last: "length xs \<le> n \<Longrightarrow> chop n xs = [xs]"
  by (simp add: chop.simps)

lemma chop_more: "0 < n \<Longrightarrow> n < length xs \<Longrightarrow> chop n xs = take n xs # chop n (drop n xs)"
  by (subst chop.simps) simp

lemma chop_nonempty: "chop n xs \<noteq> []"
  by (subst chop.simps) simp

lemma chop_concat: "concat (chop n xs) = xs"
  by (induction n xs rule: chop.induct) (subst chop.simps, simp)

lemma chop_sizes: "0 < n \<Longrightarrow> c \<in> set (chop n xs) \<Longrightarrow> length c \<le> n"
proof (induction n xs rule: chop.induct)
  case (1 n xs)
  then show ?case by (cases "length xs \<le> n") (auto simp: chop_last chop_more)
qed

lemma wire_of_more: "cs \<noteq> [] \<Longrightarrow> wire_of (c # cs) = raw_bytes DUSB_RPKT_VIRT_DATA c @ wire_of cs"
  by (cases cs) simp_all

lemma wire_of_length: "length (wire_of cs) = length (concat cs) + 5 * length cs"
  by (induction cs rule: wire_of.induct) simp_all

lemma ack_bytes_length [simp]: "length ack_bytes = 7"
  by (simp add: ack_bytes_def)

lemma acks_simps [simp]: "acks 0 = []" "acks (Suc n) = ack_bytes @ acks n" "length (acks n) = 7 * n"
  by (simp_all add: acks_def) (induction n; simp)

lemma vtl_header_length [simp]: "length (vtl_header vtl) = 6"
  by (simp add: vtl_header_def be32_out_read)

section \<open>Sending on a quiet link\<close>

context quiet_link
begin

lemma moved_callbacks [simp]:
  "moved h out n (set_max1 k h') = moved h out n h'" "moved h out n (set_cnt1 k h') = moved h out n h'"
  "moved h out n (ticalcs_update_pbar E h') = moved h out n h'"
  by (simp_all add: moved_def) (simp_all add: set_max1_def set_cnt1_def ticalcs_update_pbar_def)

lemma stepped_moved: "stepped h out n h' \<Longrightarrow> moved h out n h'"
  by (simp add: stepped_def)

lemma moved_keeps:
  "moved h out n h' \<Longrightarrow> ready h' \<and> kh_model h' = kh_model h \<and> kh_maxlen h' = kh_maxlen h
     \<and> c_avail (kh_cable h') = drop n (c_avail (kh_cable h))
     \<and> c_room (kh_cable h') = c_room (kh_cable h) - length out"
  by (simp add: moved_def)

lemma workaround_send_quiet: "ready h \<Longrightarrow> moved h [] 0 (workaround_send E raw vtl h)"
  using send_stepped [of h "[]"] stepped_refl [of h]
  by (auto simp: workaround_send_def Let_def stepped_def)

lemma workaround_recv_quiet: "ready h \<Longrightarrow> moved h [] 0 (workaround_recv E raw h)"
  using recv_stepped [of h 0] stepped_refl [of h]
  by (auto simp: workaround_recv_def Let_def stepped_def)

lemma ack_sent:
  assumes "ready h" "7 \<le> c_room (kh_cable h)"
  shows "\<exists>h'. dusb_send_acknowledge E h = (None, h') \<and> moved h ack_bytes 0 h'"
  using dusb_send_quiet [of h ack_packet "[0xE0, 0x00]"] assms
  by (simp add: dusb_send_acknowledge_def ack_packet_def ack_bytes_def raw_inv_def raw_zero_def
      numeral_2_eq_2)

lemma ack_received:
  assumes "ready h" "c_avail (kh_cable h) = ack_bytes @ rest"
  shows "\<exists>h'. dusb_recv_acknowledge E h = (None, h') \<and> moved h [] 7 h'"
  unfolding dusb_recv_acknowledge_def
  by (rule with_busy_moved)
    (use dusb_recv_quiet [of "h\<lparr>kh_busy := True\<rparr>" raw_zero DUSB_RPKT_VIRT_DATA_ACK "[0xE0, 0x00]" rest] assms
      in \<open>auto simp: ack_bytes_def check_acknowledge_def\<close>)

text \<open>One fragment, with whatever empty transfer the model needs in between.\<close>

lemma fragment_sent:
  assumes "ready h" "raw_inv raw" "rw_size raw = of_nat (length d)" "length d \<le> 1023"
    and "take (length d) (rw_data raw) = d" "length d + 5 \<le> c_room (kh_cable h)"
    and "c_avail (kh_cable h) = ack_bytes @ rest"
    and w: "\<And>h. ready h \<Longrightarrow> moved h [] 0 (w h)"
  shows "\<exists>h'. andthen (dusb_send E raw h) (\<lambda>h. dusb_recv_acknowledge E (w h)) = (None, h')
     \<and> moved h (raw_bytes (rw_type raw) d) 7 h'"
proof -
  obtain h1 where h1: "dusb_send E raw h = (None, h1)" "moved h (raw_bytes (rw_type raw) d) 0 h1"
    using dusb_send_quiet [OF assms(1-6)] by blast
  have h2: "moved h (raw_bytes (rw_type raw) d) 0 (w h1)"
    using moved_trans [OF h1(2) w [of h1]] moved_keeps [OF h1(2)] by simp
  obtain h3 where h3: "dusb_recv_acknowledge E (w h1) = (None, h3)" "moved (w h1) [] 7 h3"
    using ack_received [of "w h1" rest] moved_keeps [OF h2] assms(7) by auto
  show ?thesis using h1(1) h3(1) moved_trans [OF h2 h3(2)] by simp
qed

text \<open>The chunks without a header and the last one: together the rest of the pieces.\<close>

lemma fill_array:
  assumes "raw_inv raw" "length d \<le> 1023"
  shows "memcpy_at (rw_data raw) 0 d = Some (d @ drop (length d) (rw_data raw))"
    "raw_inv (raw\<lparr>rw_size := n, rw_type := ty, rw_data := d @ drop (length d) (rw_data raw)\<rparr>)"
    "take (length d) (rw_data (raw\<lparr>rw_size := n, rw_type := ty, rw_data := d @ drop (length d) (rw_data raw)\<rparr>)) = d"
  using assms by (simp_all add: memcpy_at_def raw_inv_def)

lemma rest_sent:
  assumes "ready h" "raw_inv raw" "kh_maxlen h = maxlen" "unat maxlen = b" "0 < b" "b \<le> 1023"
    and "i + n = q + 1" "m < b" "length (vtl_bytes vtl) = offset + n * b + m"
    and "pieces = (if n * b + m = 0 then [] else chop b (drop offset (vtl_bytes vtl)))"
    and "c_avail (kh_cable h) = acks (length pieces) @ rest"
    and "length (wire_of pieces) \<le> c_room (kh_cable h)"
  shows "\<exists>h'. (let (r, (raw, offset), h) = dusb_send_chunks E vtl q m n i offset raw h
             in (case r of Some e \<Rightarrow> (Some e, h) | None \<Rightarrow> dusb_send_tail E vtl m offset raw h)) = (None, h')
     \<and> moved h (wire_of pieces) (7 * length pieces) h'"
  using assms
proof (induction n arbitrary: i offset raw h pieces)
  case 0
  let ?d = "drop offset (vtl_bytes vtl)"
  have len: "length ?d = m" using 0 by simp
  show ?case
  proof (cases "m = 0")
    case True
    then show ?thesis using 0 stepped_refl [of h] by (simp add: dusb_send_tail_def stepped_def)
  next
    case False
    have p: "pieces = [?d]" using False 0 len by (simp add: chop_last)
    define w where "w = (\<lambda>raw h. if kh_model h \<notin> set dusb_84p_models then workaround_send E raw vtl h else h)"
    have w: "moved h [] 0 (w raw h)" if "ready h" for raw h
      using that workaround_send_quiet stepped_refl by (auto simp: w_def stepped_def)
    let ?raw = "raw\<lparr>rw_size := of_nat m, rw_type := DUSB_RPKT_VIRT_DATA_LAST,
                   rw_data := ?d @ drop (length ?d) (rw_data raw)\<rparr>"
    have small: "length ?d \<le> 1023" using len 0(6,8) by simp
    have av: "c_avail (kh_cable h) = ack_bytes @ rest" and room: "length ?d + 5 \<le> c_room (kh_cable h)"
      using 0(11,12) unfolding p by simp_all
    note fill = fill_array [OF 0(2) small]
    have "memcpy_from (vtl_bytes vtl) offset m = Some ?d"
      using len 0 by (simp add: memcpy_from_def)
    moreover obtain h' where "andthen (dusb_send E ?raw h) (\<lambda>h. dusb_recv_acknowledge E (w ?raw h)) = (None, h')"
        "moved h (raw_bytes DUSB_RPKT_VIRT_DATA_LAST ?d) 7 h'"
      using fragment_sent [of h ?raw ?d rest "w ?raw", OF 0(1) fill(2) _ _ _ room av w] len small by auto
    ultimately show ?thesis
      using False fill(1) p by (auto simp: dusb_send_tail_def w_def)
  qed
next
  case (Suc n)
  let ?D = "vtl_bytes vtl" let ?d = "take b (drop offset ?D)" let ?rest = "drop (offset + b) ?D"
  let ?ty = "if i \<noteq> q \<or> m \<noteq> 0 then DUSB_RPKT_VIRT_DATA else DUSB_RPKT_VIRT_DATA_LAST"
  define more where "more = (if n * b + m = 0 then [] else chop b ?rest)"
  have len: "length ?d = b" using Suc.prems by simp
  have last: "n * b + m = 0 \<longleftrightarrow> i = q \<and> m = 0" using Suc.prems by auto
  have p: "pieces = ?d # more"
  proof (cases "n * b + m = 0")
    case True
    then have "length (drop offset ?D) = b" using Suc.prems by simp
    then show ?thesis using True Suc.prems by (simp add: more_def chop_last)
  next
    case False
    then have "b < length (drop offset ?D)" using Suc.prems by auto
    then show ?thesis using False Suc.prems by (auto simp: more_def chop_more add.commute)
  qed
  have wire: "wire_of pieces = raw_bytes ?ty ?d @ wire_of more"
    using p last by (cases "n * b + m = 0") (auto simp: more_def wire_of_more chop_nonempty)
  let ?raw = "raw\<lparr>rw_size := maxlen, rw_type := ?ty, rw_data := ?d @ drop (length ?d) (rw_data raw)\<rparr>"
  have small: "length ?d \<le> 1023" using len Suc.prems(6) by simp
  note fill = fill_array [OF Suc.prems(2) small]
  have copied: "memcpy_from ?D offset b = Some ?d" using Suc.prems by (simp add: memcpy_from_def)
  have sz: "maxlen = of_nat (length ?d)" using len Suc.prems(4) by (metis of_nat_unat ucast_id)
  have av: "c_avail (kh_cable h) = ack_bytes @ acks (length more) @ rest"
    and room: "length ?d + 5 \<le> c_room (kh_cable h)"
    using Suc.prems(11,12) unfolding wire unfolding p by simp_all
  have raw: "rw_size ?raw = of_nat (length ?d)" "rw_type ?raw = ?ty"
    using sz [symmetric] by (simp_all del: length_take)
  obtain h1 where h1: "andthen (dusb_send E ?raw h) (dusb_recv_acknowledge E) = (None, h1)"
      "moved h (raw_bytes ?ty ?d) 7 h1"
    using fragment_sent [OF Suc.prems(1) fill(2) raw(1) small fill(3) room av stepped_moved [OF stepped_refl]]
    unfolding raw(2) by blast
  define g where "g = ticalcs_update_pbar E (set_cnt1 (up_cnt1 (kh_updat (set_max1 (sint (vt_size vtl)) h1)) + int b)
              (set_max1 (sint (vt_size vtl)) h1))"
  have h2: "moved h (raw_bytes ?ty ?d) 7 g" using h1(2) by (simp add: g_def)
  have g: "ready g" "kh_maxlen g = maxlen" "c_avail (kh_cable g) = acks (length more) @ rest"
    "length (wire_of more) \<le> c_room (kh_cable g)"
    using moved_keeps [OF h2] Suc.prems(3,12) av wire by auto
  have sizes: "(i + 1) + n = q + 1" "length ?D = (offset + b) + n * b + m"
    using Suc.prems(7,9) by simp_all
  obtain h3 where h3: "(let (r, (raw, offset), h) = dusb_send_chunks E vtl q m n (i + 1) (offset + b) ?raw g
             in (case r of Some e \<Rightarrow> (Some e, h) | None \<Rightarrow> dusb_send_tail E vtl m offset raw h)) = (None, h3)"
      "moved g (wire_of more) (7 * length more) h3"
    using Suc.IH [OF g(1) fill(2) g(2) Suc.prems(4-6) sizes(1) Suc.prems(8) sizes(2) more_def g(3,4)] by blast
  have "moved h (wire_of pieces) (7 * length pieces) h3"
    using moved_trans [OF h2 h3(2)] unfolding wire unfolding p by simp
  moreover have "dusb_send_chunks E vtl q m (Suc n) i offset raw h
      = dusb_send_chunks E vtl q m n (i + 1) (offset + b) ?raw g"
    using h1(1) fill(1) copied Suc.prems(3,4) by (simp add: Let_def g_def)
  ultimately show ?case using h3(1) by auto
qed

lemma fill_first_some:
  assumes "unat (vt_size vtl) = length (vtl_bytes vtl)" "n \<le> length (vtl_bytes vtl)" "n \<le> 1017"
  defines "d \<equiv> vtl_header vtl @ take n (vtl_bytes vtl)"
  shows "fill_first raw_zero vtl n = Some (d @ drop (length d) (rw_data raw_zero))"
proof -
  let ?z = "rw_data raw_zero"
  have z: "length ?z = 1023" by (simp add: raw_zero_def)
  have 1: "memcpy_at ?z 0 (vtl_header vtl) = Some (vtl_header vtl @ drop 6 ?z)"
    using z by (simp add: memcpy_at_def)
  have "memcpy_at (vtl_header vtl @ drop 6 ?z) 6 (take n (vtl_bytes vtl))
      = Some (vtl_header vtl @ take n (vtl_bytes vtl) @ drop (6 + n) ?z)"
    using z assms(2,3) by (simp add: memcpy_at_def add.commute)
  then show ?thesis
    using 1 assms(2) by (auto simp: fill_first_def memcpy_from_def d_def vtl_bytes_def)
qed

lemma dusb_send_data_quiet:
  assumes "ready h" "unat (vt_size vtl) = length (vtl_bytes vtl)"
    and "6 \<le> unat (kh_maxlen h)" "unat (kh_maxlen h) \<le> 1023"
    and p: "pieces = vtl_pieces (kh_maxlen h) vtl"
    and av: "c_avail (kh_cable h) = acks (length pieces) @ rest"
    and room: "length (wire_of pieces) \<le> c_room (kh_cable h)"
  shows "\<exists>h'. dusb_send_data E vtl h = (None, h') \<and> moved h (wire_of pieces) (7 * length pieces) h'"
proof -
  let ?h = "h\<lparr>kh_busy := True\<rparr>" let ?D = "vtl_bytes vtl" let ?hd = "vtl_header vtl"
  define b N where "b = unat (kh_maxlen h)" and "N = length ?D"
  have b6: "6 \<le> b" "b \<le> 1023" using assms(3,4) by (simp_all add: b_def)
  have off: "unat (kh_maxlen h - of_nat 6) = b - 6"
  proof -
    have six: "unat (of_nat 6 :: u32) = 6" by simp
    then have "(of_nat 6 :: u32) \<le> kh_maxlen h" unfolding word_le_nat_alt using assms(3) by presburger
    then show ?thesis using six by (simp add: unat_sub b_def del: of_nat_numeral)
  qed
  have le: "vt_size vtl \<le> kh_maxlen h - of_nat 6 \<longleftrightarrow> N + 6 \<le> b"
    unfolding word_le_nat_alt off using assms(2) b6 by (auto simp: N_def)
  have nullok: "\<not> (vt_size vtl \<noteq> 0 \<and> vt_data vtl = None)"
    using assms(2) by (auto simp: vtl_bytes_def unat_eq_0)
  have "\<exists>h'. (if vt_size vtl \<le> kh_maxlen ?h - of_nat 6 then dusb_send_single E vtl ?h
               else dusb_send_multi E vtl ?h) = (None, h') \<and> moved ?h (wire_of pieces) (7 * length pieces) h'"
  proof (cases "N + 6 \<le> b")
    case True
    let ?d = "?hd @ ?D"
    have pc: "pieces = [?d]" using True p by (simp add: vtl_pieces_def chop_last b_def [symmetric] N_def)
    have small: "length ?d \<le> 1023" using True b6 by (simp add: N_def)
    let ?raw = "raw_zero\<lparr>rw_size := vt_size vtl + of_nat 6, rw_type := DUSB_RPKT_VIRT_DATA_LAST,
                  rw_data := ?d @ drop (length ?d) (rw_data raw_zero)\<rparr>"
    note fill = fill_array [OF raw_zero_inv small]
    have ff: "fill_first raw_zero vtl (unat (vt_size vtl)) = Some (?d @ drop (length ?d) (rw_data raw_zero))"
      using fill_first_some [OF assms(2), of N] True b6 assms(2) by (simp add: N_def)
    have "vt_size vtl = of_nat (length ?D)" using assms(2) by (metis of_nat_unat ucast_id)
    then have sz: "rw_size ?raw = of_nat (length ?d)" by simp
    have av': "c_avail (kh_cable ?h) = ack_bytes @ rest" and room': "length ?d + 5 \<le> c_room (kh_cable ?h)"
      using av room unfolding pc by simp_all
    have rd: "ready ?h" using assms(1) by simp
    obtain h' where "andthen (dusb_send E ?raw ?h) (\<lambda>h. dusb_recv_acknowledge E (workaround_send E ?raw vtl h)) = (None, h')"
        "moved ?h (raw_bytes (rw_type ?raw) ?d) 7 h'"
      using fragment_sent [OF rd fill(2) sz small fill(3) room' av', of "workaround_send E ?raw vtl"]
        workaround_send_quiet by blast
    then show ?thesis using True le pc ff by (simp add: dusb_send_single_def)
  next
    case False
    let ?k = "b - 6" let ?d = "?hd @ take ?k ?D"
    define more where "more = chop b (drop ?k ?D)"
    define q m where "q = (N - ?k) div b" and "m = (N - ?k) mod b"
    have len: "length ?d = b" using False b6 by (simp add: N_def)
    have pc: "pieces = ?d # more"
      using False p b6 by (simp add: vtl_pieces_def chop_more b_def [symmetric] N_def more_def)
    have wire: "wire_of pieces = raw_bytes DUSB_RPKT_VIRT_DATA ?d @ wire_of more"
      using pc by (simp add: wire_of_more more_def chop_nonempty)
    have small: "length ?d \<le> 1023" using len b6 by simp
    let ?raw = "raw_zero\<lparr>rw_size := kh_maxlen h, rw_type := DUSB_RPKT_VIRT_DATA,
                  rw_data := ?d @ drop (length ?d) (rw_data raw_zero)\<rparr>"
    note fill = fill_array [OF raw_zero_inv small]
    have ff: "fill_first raw_zero vtl ?k = Some (?d @ drop (length ?d) (rw_data raw_zero))"
      using fill_first_some [OF assms(2), of ?k] False b6 by (simp add: N_def)
    have "kh_maxlen h = of_nat b" by (simp add: b_def)
    then have sz: "rw_size ?raw = of_nat (length ?d)" unfolding len by simp
    have av': "c_avail (kh_cable ?h) = ack_bytes @ acks (length more) @ rest"
      and room': "length ?d + 5 \<le> c_room (kh_cable ?h)"
      using av room unfolding wire unfolding pc by simp_all
    have rd: "ready ?h" using assms(1) by simp
    obtain h1 where "andthen (dusb_send E ?raw ?h) (dusb_recv_acknowledge E) = (None, h1)"
        "moved ?h (raw_bytes (rw_type ?raw) ?d) 7 h1"
      using fragment_sent [OF rd fill(2) sz small fill(3) room' av' stepped_moved [OF stepped_refl]] by blast
    then have h1: "andthen (dusb_send E ?raw ?h) (dusb_recv_acknowledge E) = (None, h1)"
        "moved ?h (raw_bytes DUSB_RPKT_VIRT_DATA ?d) 7 h1" by simp_all
    have g: "ready h1" "kh_maxlen h1 = kh_maxlen h" "c_avail (kh_cable h1) = acks (length more) @ rest"
      "length (wire_of more) \<le> c_room (kh_cable h1)"
      using moved_keeps [OF h1(2)] room av' unfolding wire by auto
    have split: "q * b + m = N - ?k" by (simp add: q_def m_def)
    have tot: "length ?D = ?k + q * b + m" "m < b" "0 < b"
      using split False b6 by (auto simp: N_def m_def)
    have ne: "more = (if q * b + m = 0 then [] else chop b (drop ?k ?D))"
      using split False b6 by (simp add: more_def)
    obtain h2 where h2: "(let (r, (raw, offset), h) = dusb_send_chunks E vtl q m q 1 ?k ?raw h1
             in (case r of Some e \<Rightarrow> (Some e, h) | None \<Rightarrow> dusb_send_tail E vtl m offset raw h)) = (None, h2)"
        "moved h1 (wire_of more) (7 * length more) h2"
      using rest_sent [OF g(1) fill(2) g(2) b_def [symmetric] tot(3) b6(2) add.commute tot(2,1) ne g(3,4)] by blast
    have "moved ?h (wire_of pieces) (7 * length pieces) h2"
      using moved_trans [OF h1(2) h2(2)] unfolding wire unfolding pc by simp
    moreover have "dusb_send_multi E vtl ?h = (None, h2)"
    proof -
      have k: "kh_maxlen ?h = kh_maxlen h" "unat (vt_size vtl) = N" "unat (kh_maxlen h1) = b"
        using assms(2) g(2) by (simp_all add: N_def b_def)
      have nz: "kh_maxlen h1 \<noteq> 0" using k(3) tot(3) by auto
      show ?thesis
        unfolding dusb_send_multi_def Let_def k(1) off ff option.case h1(1) andthen_simps if_not_P [OF nz] k(2,3)
          q_def [symmetric] m_def [symmetric]
        using h2(1) unfolding Let_def .
    qed
    ultimately show ?thesis using False le by auto
  qed
  then show ?thesis
    unfolding dusb_send_data_def if_not_P [OF nullok]
    by (intro with_busy_moved) (auto simp: fire_quiet)
qed

end

section \<open>Reassembly on a quiet link\<close>

text \<open>What a received raw packet with the bytes \<open>d\<close> does to the array of an earlier one.\<close>

definition raw_got :: "dusb_raw \<Rightarrow> u8 \<Rightarrow> bytes \<Rightarrow> dusb_raw" where
  "raw_got raw ty d = raw\<lparr>rw_size := of_nat (length d), rw_type := ty,
     rw_data := d @ drop (length d) (rw_data raw)\<rparr>"

lemma raw_got_simps:
  assumes "raw_inv raw" "length d \<le> 1023"
  shows "raw_inv (raw_got raw ty d)" "rw_type (raw_got raw ty d) = ty"
    "unat (rw_size (raw_got raw ty d)) = length d" "rw_data (raw_got raw ty d) = d @ drop (length d) (rw_data raw)"
    "length (rw_data (raw_got raw ty d)) = 1023"
  using assms by (simp_all add: raw_got_def raw_inv_def unat_of_nat take_bit_eq_mod)

lemma rx_next_ok:
  assumes "raw_inv raw" "length d \<le> 1023" "rx_raw s = raw_got raw ty d"
    and "unat (vt_size (rx_vtl s)) = length (vtl_bytes (rx_vtl s))"
    and "length (vtl_bytes (rx_vtl s)) + length d < 2 ^ 31"
  shows "\<exists>s'. rx_next_packet est s = Inr s' \<and> vtl_bytes (rx_vtl s') = vtl_bytes (rx_vtl s) @ d
     \<and> unat (vt_size (rx_vtl s')) = length (vtl_bytes (rx_vtl s')) \<and> vt_type (rx_vtl s') = vt_type (rx_vtl s)
     \<and> rx_raw s' = rx_raw s \<and> rx_declared s' = rx_declared s \<and> rx_first s' = rx_first s"
proof -
  note got = raw_got_simps [OF assms(1,2), of ty]
  let ?new = "vt_size (rx_vtl s) + rw_size (rx_raw s)"
  have new: "unat ?new = length (vtl_bytes (rx_vtl s)) + length d"
    using assms(3-5) got(3) by (simp add: unat_word_ariths)
  have "unat (w * 2) = 2 * unat w" if "unat w < 2 ^ 31" for w :: u32
    using that by (simp add: unat_word_ariths)
  then have twice: "unat (?new * 2) = 2 * unat ?new" using new assms(5) by metis
  have d: "memcpy_from (rw_data (rx_raw s)) 0 (unat (rw_size (rx_raw s))) = Some d"
    using assms(2,3) got by (simp add: memcpy_from_def)
  define alloc where "alloc = (if rx_alloc s < unat ?new
                   then (if ?new \<le> est then unat est else unat (?new * 2)) else rx_alloc s)"
  have big: "unat ?new \<le> alloc"
    using twice by (auto simp: alloc_def word_le_nat_alt)
  have sum: "unat (vt_size (rx_vtl s)) + unat (rw_size (rx_raw s)) = unat ?new"
    using new assms(3,4) got(3) by simp
  have "rx_next_packet est s = Inr (s\<lparr>rx_alloc := alloc,
      rx_vtl := (rx_vtl s)\<lparr>vt_size := ?new, vt_data := (if alloc = 0 then vt_data (rx_vtl s)
        else Some (vtl_bytes (rx_vtl s) @ d))\<rparr>\<rparr>)"
    using big unfolding rx_next_packet_def Let_def d alloc_def [symmetric] sum by simp
  moreover have "alloc = 0 \<Longrightarrow> d = [] \<and> vtl_bytes (rx_vtl s) = []" using big new by simp
  ultimately show ?thesis using new by (auto simp: vtl_bytes_def)
qed

lemma rx_first_ok:
  assumes "raw_inv raw" "length d \<le> 1017" "rx_raw s = raw_got raw ty (vtl_header v @ d)"
    and "length d \<le> unat (vt_size v)" "vt_type v = 0xEE00 \<longrightarrow> vt_size v \<noteq> 1"
  shows "\<exists>s'. rx_first_packet s = Inr s' \<and> vtl_bytes (rx_vtl s') = d
     \<and> unat (vt_size (rx_vtl s')) = length d \<and> vt_type (rx_vtl s') = vt_type v
     \<and> rx_raw s' = rx_raw s \<and> rx_declared s' = vt_size v \<and> \<not> rx_first s'"
proof -
  let ?x = "rw_data (rx_raw s)"
  have "length (vtl_header v @ d) \<le> 1023" using assms(2) by simp
  note got = raw_got_simps [OF assms(1) this, of ty]
  have n: "unat (rw_size (rx_raw s)) = 6 + length d" "length ?x = 1023"
    using assms(3) got by simp_all
  have x: "?x = [MSB (MSW (vt_size v)), LSB (MSW (vt_size v)), MSB (LSW (vt_size v)), LSB (LSW (vt_size v)),
      MSB (vt_type v), LSB (vt_type v)] @ d @ drop (6 + length d) (rw_data raw)"
    unfolding assms(3) got(4) by (simp add: vtl_header_def be32_out_def numeral_eq_Suc)
  have hdr: "raw_be32 (rx_raw s) = vt_size v" "be16 (?x ! 4) (?x ! 5) = vt_type v"
    unfolding raw_be32_def by (simp_all add: x be32_bytes be16_MSB_LSB)
  have d: "memcpy_from ?x 6 (length d) = Some d" using assms(2) n by (simp add: memcpy_from_def) (simp add: x)
  define alloc where "alloc = rx_alloc_first (vt_size v) (length d)"
  have one: "unat (vt_size v) = 1 \<longleftrightarrow> vt_size v = 1" by (metis unat_1 word_unat_eq_iff)
  have "alloc = 1 \<Longrightarrow> unat (vt_size v) = 1"
    using assms(4) by (auto simp: alloc_def rx_alloc_first_def Let_def word_less_nat_alt split: if_splits)
  then have ub: "\<not> (0 < alloc \<and> alloc < 2 \<and> vt_type v = 0xEE00)" using assms(5) one by auto
  have zero: "alloc = 0 \<Longrightarrow> d = []" by (auto simp: alloc_def rx_alloc_first_def Let_def split: if_splits)
  have sz: "unat (of_nat (length d) :: u32) = length d" using assms(2) by (simp add: unat_of_nat take_bit_eq_mod)
  have "rx_first_packet s = Inr (s\<lparr>rx_declared := vt_size v, rx_alloc := alloc, rx_first := False,
       rx_vtl := \<lparr>vt_size = of_nat (length d), vt_type = vt_type v, vt_data = (if alloc = 0 then None else Some d)\<rparr>\<rparr>)"
    using assms(2) ub unfolding rx_first_packet_def Let_def n hdr
    by (simp add: d alloc_def [symmetric])
  then show ?thesis using zero sz by (auto simp: vtl_bytes_def)
qed

context quiet_link
begin

lemma rx_step_quiet:
  assumes "ready h" "raw_inv (rx_raw s)" "length c \<le> 1023"
    and "c_avail (kh_cable h) = raw_bytes ty c @ rest" "7 \<le> c_room (kh_cable h)"
    and "ty = DUSB_RPKT_VIRT_DATA \<or> ty = DUSB_RPKT_VIRT_DATA_LAST"
    and "(if rx_first s then rx_first_packet (s\<lparr>rx_raw := raw_got (rx_raw s) ty c\<rparr>)
          else rx_next_packet est (s\<lparr>rx_raw := raw_got (rx_raw s) ty c\<rparr>)) = Inr s'"
  shows "\<exists>h'. rx_step E est s h = (None, s', h') \<and> moved h ack_bytes (length c + 5) h'"
proof -
  obtain h1 where h1: "dusb_recv E (rx_raw s) h = (None, raw_got (rx_raw s) ty c, h1)"
      "moved h [] (length c + 5) h1"
    using dusb_recv_quiet [OF assms(1,2,4,3)] unfolding raw_got_def by blast
  define g where "g = ticalcs_update_pbar E (set_cnt1 (sint (vt_size (rx_vtl s')))
      (set_max1 (sint (rx_progress est (rx_first s) s')) h1))"
  let ?w = "workaround_recv E (raw_got (rx_raw s) ty c) g"
  have "moved h [] (length c + 5) g" using h1(2) by (simp add: g_def)
  then have w: "moved h [] (length c + 5) ?w"
    using moved_trans [OF _ workaround_recv_quiet [of g]] moved_keeps by fastforce
  obtain h2 where h2: "dusb_send_acknowledge E ?w = (None, h2)" "moved ?w ack_bytes 0 h2"
    using ack_sent [of ?w] moved_keeps [OF w] assms(5) by auto
  have "rw_type (raw_got (rx_raw s) ty c) = ty" by (simp add: raw_got_def)
  then have "rx_step E est s h = (None, s', h2)"
    using h1(1) h2(1) assms(6,7) by (auto simp: rx_step_def Let_def g_def)
  moreover have "moved h ack_bytes (length c + 5) h2" using moved_trans [OF w h2(2)] by simp
  ultimately show ?thesis by blast
qed

lemma piece_type:
  "(if P then DUSB_RPKT_VIRT_DATA_LAST else DUSB_RPKT_VIRT_DATA) = DUSB_RPKT_VIRT_DATA
   \<or> (if P then DUSB_RPKT_VIRT_DATA_LAST else DUSB_RPKT_VIRT_DATA) = DUSB_RPKT_VIRT_DATA_LAST"
  by simp

lemma rx_rest_quiet:
  assumes "ready h" "raw_inv (rx_raw s)" "\<not> rx_first s" "cs \<noteq> []" "\<And>c. c \<in> set cs \<Longrightarrow> length c \<le> 1023"
    and "unat (vt_size (rx_vtl s)) = length (vtl_bytes (rx_vtl s))"
    and "length (vtl_bytes (rx_vtl s)) + length (concat cs) < 2 ^ 31"
    and "c_avail (kh_cable h) = wire_of cs @ rest" "7 * length cs \<le> c_room (kh_cable h)"
    and "length cs \<le> fuel"
  shows "\<exists>s' h'. rx_loop fuel E est s h = Some (None, s', h')
     \<and> vtl_bytes (rx_vtl s') = vtl_bytes (rx_vtl s) @ concat cs
     \<and> unat (vt_size (rx_vtl s')) = length (vtl_bytes (rx_vtl s')) \<and> vt_type (rx_vtl s') = vt_type (rx_vtl s)
     \<and> rx_declared s' = rx_declared s
     \<and> moved h (acks (length cs)) (length (wire_of cs)) h'"
  using assms
proof (induction cs arbitrary: s h fuel)
  case (Cons c cs)
  obtain k where k: "fuel = Suc k" using Cons.prems(10) by (cases fuel) auto
  let ?ty = "if cs = [] then DUSB_RPKT_VIRT_DATA_LAST else DUSB_RPKT_VIRT_DATA"
  have wire: "wire_of (c # cs) = raw_bytes ?ty c @ wire_of cs"
    by (cases cs) simp_all
  have c: "length c \<le> 1023" using Cons.prems(5) by simp
  let ?s = "s\<lparr>rx_raw := raw_got (rx_raw s) ?ty c\<rparr>"
  obtain s1 where s1: "rx_next_packet est ?s = Inr s1" "vtl_bytes (rx_vtl s1) = vtl_bytes (rx_vtl s) @ c"
      "unat (vt_size (rx_vtl s1)) = length (vtl_bytes (rx_vtl s1))" "vt_type (rx_vtl s1) = vt_type (rx_vtl s)"
      "rx_raw s1 = raw_got (rx_raw s) ?ty c" "rx_declared s1 = rx_declared s" "\<not> rx_first s1"
    using rx_next_ok [OF Cons.prems(2) c, of ?s ?ty est] Cons.prems(3,6,7) by auto
  have av: "c_avail (kh_cable h) = raw_bytes ?ty c @ wire_of cs @ rest" "7 \<le> c_room (kh_cable h)"
    using Cons.prems(8,9) unfolding wire by simp_all
  obtain h1 where h1: "rx_step E est s h = (None, s1, h1)" "moved h ack_bytes (length c + 5) h1"
    using rx_step_quiet [OF Cons.prems(1,2) c av piece_type, of est s1] s1(1) Cons.prems(3) by auto
  have ty: "rw_type (rx_raw s1) = ?ty" "raw_inv (rx_raw s1)"
    using s1(5) raw_got_simps [OF Cons.prems(2) c] by simp_all
  show ?case
  proof (cases "cs = []")
    case True
    then show ?thesis using h1 s1 ty k by (auto simp: wire)
  next
    case False
    have g: "ready h1" "c_avail (kh_cable h1) = wire_of cs @ rest" "7 * length cs \<le> c_room (kh_cable h1)"
      using moved_keeps [OF h1(2)] av Cons.prems(9) by auto
    obtain s2 h2 where s2: "rx_loop k E est s1 h1 = Some (None, s2, h2)"
        "vtl_bytes (rx_vtl s2) = vtl_bytes (rx_vtl s1) @ concat cs"
        "unat (vt_size (rx_vtl s2)) = length (vtl_bytes (rx_vtl s2))" "vt_type (rx_vtl s2) = vt_type (rx_vtl s1)"
        "rx_declared s2 = rx_declared s1" "moved h1 (acks (length cs)) (length (wire_of cs)) h2"
      using Cons.IH [OF g(1) ty(2) s1(7) False _ s1(3) _ g(2,3), of k] Cons.prems(5,7,10) s1(2) k by auto
    have "moved h (acks (length (c # cs))) (length (wire_of (c # cs))) h2"
      using moved_trans [OF h1(2) s2(6)] unfolding wire by simp
    then show ?thesis using h1(1) s1 s2 ty k False by auto
  qed
qed simp

lemma dusb_recv_data_quiet:
  assumes "ready h" "unat (vt_size v) = length (vtl_bytes v)" "length (vtl_bytes v) < 2 ^ 31"
    and "vt_type v = 0xEE00 \<longrightarrow> vt_size v \<noteq> 1" "6 \<le> unat maxlen" "unat maxlen \<le> 1023"
    and p: "pieces = vtl_pieces maxlen v"
    and av: "c_avail (kh_cable h) = wire_of pieces @ rest"
    and room: "7 * length pieces \<le> c_room (kh_cable h)" and fuel: "length pieces \<le> fuel"
  shows "\<exists>w h'. dusb_recv_data fuel E vtl h = Some (None, w, h') \<and> vtl_bytes w = vtl_bytes v
     \<and> vt_size w = vt_size v \<and> vt_type w = vt_type v
     \<and> moved h (acks (length pieces)) (length (wire_of pieces)) h'"
proof -
  let ?b = "unat maxlen" let ?D = "vtl_bytes v" let ?d = "take (?b - 6) ?D" let ?rest = "drop (?b - 6) ?D"
  let ?hd = "vtl_header v @ ?d" let ?h = "h\<lparr>kh_busy := True\<rparr>"
  define more where "more = (if length ?D + 6 \<le> ?b then [] else chop ?b ?rest)"
  have pc: "pieces = ?hd # more"
    using p assms(5) by (auto simp: vtl_pieces_def chop_last chop_more more_def)
  have D: "?d @ concat more = ?D" by (auto simp: more_def chop_concat)
  let ?ty = "if more = [] then DUSB_RPKT_VIRT_DATA_LAST else DUSB_RPKT_VIRT_DATA"
  have wire: "wire_of pieces = raw_bytes ?ty ?hd @ wire_of more"
    using pc by (cases more) simp_all
  define s where "s = \<lparr>rx_raw = raw_zero, rx_vtl = vtl, rx_declared = 0, rx_alloc = 0, rx_first = True\<rparr>"
  have small: "length ?d \<le> 1017" "length ?hd \<le> 1023" "length ?d \<le> unat (vt_size v)"
    using assms(2,6) by auto
  obtain s1 where s1: "rx_first_packet (s\<lparr>rx_raw := raw_got (rx_raw s) ?ty ?hd\<rparr>) = Inr s1"
      "vtl_bytes (rx_vtl s1) = ?d" "unat (vt_size (rx_vtl s1)) = length ?d" "vt_type (rx_vtl s1) = vt_type v"
      "rx_raw s1 = raw_got (rx_raw s) ?ty ?hd" "rx_declared s1 = vt_size v" "\<not> rx_first s1"
    using rx_first_ok [OF raw_zero_inv small(1) _ small(3) assms(4), of "s\<lparr>rx_raw := raw_got (rx_raw s) ?ty ?hd\<rparr>" ?ty]
    by (auto simp: s_def)
  have inv: "raw_inv (rx_raw s)" and first: "rx_first s" by (simp_all add: s_def)
  have av1: "c_avail (kh_cable ?h) = raw_bytes ?ty ?hd @ wire_of more @ rest" "7 \<le> c_room (kh_cable ?h)"
    using av room unfolding wire unfolding pc by simp_all
  have rd: "ready ?h" using assms(1) by simp
  obtain h1 where h1: "rx_step E 0 s ?h = (None, s1, h1)" "moved ?h ack_bytes (length ?hd + 5) h1"
    using rx_step_quiet [OF rd inv small(2) av1 piece_type, of 0 s1] s1(1) first by auto
  have ty: "rw_type (rx_raw s1) = ?ty" "raw_inv (rx_raw s1)"
    using s1(5) raw_got_simps [OF inv small(2)] by simp_all
  obtain k where k: "fuel = Suc k" "length more \<le> k" using fuel pc by (cases fuel) auto
  have "\<exists>s2 h2. rx_loop fuel E 0 s ?h = Some (None, s2, h2) \<and> vtl_bytes (rx_vtl s2) = ?D
     \<and> unat (vt_size (rx_vtl s2)) = length ?D \<and> vt_type (rx_vtl s2) = vt_type v \<and> rx_declared s2 = vt_size v
     \<and> moved ?h (acks (length pieces)) (length (wire_of pieces)) h2"
  proof (cases "more = []")
    case True
    then show ?thesis using h1 s1 ty k D by (auto simp: wire pc)
  next
    case False
    have g: "ready h1" "c_avail (kh_cable h1) = wire_of more @ rest" "7 * length more \<le> c_room (kh_cable h1)"
      using moved_keeps [OF h1(2)] av1 room pc by auto
    have "length c \<le> 1023" if "c \<in> set more" for c
      using that chop_sizes [of ?b c ?rest] assms(5,6) by (auto simp: more_def split: if_splits)
    moreover have "length (vtl_bytes (rx_vtl s1)) + length (concat more) < 2 ^ 31"
      using assms(3) D s1(2) by (metis length_append)
    moreover have "unat (vt_size (rx_vtl s1)) = length (vtl_bytes (rx_vtl s1))" using s1(2,3) by simp
    ultimately obtain s2 h2 where s2: "rx_loop k E 0 s1 h1 = Some (None, s2, h2)"
        "vtl_bytes (rx_vtl s2) = vtl_bytes (rx_vtl s1) @ concat more"
        "unat (vt_size (rx_vtl s2)) = length (vtl_bytes (rx_vtl s2))" "vt_type (rx_vtl s2) = vt_type (rx_vtl s1)"
        "rx_declared s2 = rx_declared s1" "moved h1 (acks (length more)) (length (wire_of more)) h2"
      using rx_rest_quiet [OF g(1) ty(2) s1(7) False _ _ _ g(2,3) k(2), of 0] by blast
    have "moved ?h (acks (length pieces)) (length (wire_of pieces)) h2"
      using moved_trans [OF h1(2) s2(6)] unfolding wire unfolding pc by simp
    then show ?thesis using h1(1) s1 s2 ty k False D by auto
  qed
  then obtain s2 h2 where s2: "rx_loop fuel E 0 s ?h = Some (None, s2, h2)" "vtl_bytes (rx_vtl s2) = ?D"
      "unat (vt_size (rx_vtl s2)) = length ?D" "vt_type (rx_vtl s2) = vt_type v" "rx_declared s2 = vt_size v"
      "moved ?h (acks (length pieces)) (length (wire_of pieces)) h2" by blast
  have sz: "vt_size (rx_vtl s2) = vt_size v" using s2(3) assms(2) by (metis word_unat_eq_iff)
  let ?h' = "clear_busy_if_necessary (kh_busy h) h2"
  have "moved h (acks (length pieces)) (length (wire_of pieces)) ?h'"
    using s2(6) by (auto simp: moved_def clear_busy_if_necessary_def)
  moreover have "dusb_recv_data fuel E vtl h = Some (None, rx_vtl s2, ?h')"
    using s2(1,5) sz by (simp add: dusb_recv_data_def dusb_recv_data_varsize_def busy_taken fire_quiet
        s_def [symmetric])
  ultimately show ?thesis using s2 sz by blast
qed

end

section \<open>The busy flag and the buffer size\<close>

lemma dusb_send_buf_size_alloc_busy [busy_keeps]:
  "dusb_send_buf_size_alloc E n h = (r, h') \<Longrightarrow> kh_busy h' = kh_busy h"
  by (auto simp: dusb_send_buf_size_alloc_def Let_def split: prod.splits dest!: dusb_send_busy)

lemma dusb_recv_acknowledge_busy [busy_keeps]:
  "dusb_recv_acknowledge E h = (r, h') \<Longrightarrow> kh_busy h' = kh_busy h"
  unfolding dusb_recv_acknowledge_def
  by (erule with_busy_keeps [rotated])
    (auto simp: Let_def andthen_def split: option.splits prod.splits if_splits
      dest!: dusb_recv_busy dusb_send_buf_size_alloc_busy)

lemma cable_call_busy: "kh_busy (snd (cable_send E bs h)) = kh_busy h"
  "kh_busy (snd (snd (cable_recv E n h))) = kh_busy h"
  by (auto simp: cable_send_def cable_recv_def split: prod.splits)

lemma workaround_busy [simp]:
  "kh_busy (workaround_send E raw vtl h) = kh_busy h" "kh_busy (workaround_recv E raw h) = kh_busy h"
  by (simp_all add: workaround_send_def workaround_recv_def cable_call_busy)

lemma fragment_busy [busy_keeps]:
  assumes "\<And>h. kh_busy (w h) = kh_busy h"
  shows "andthen (dusb_send E raw h) (\<lambda>h. dusb_recv_acknowledge E (w h)) = (r, h') \<Longrightarrow> kh_busy h' = kh_busy h"
  using assms by (auto simp: andthen_def split: option.splits prod.splits
      dest!: dusb_send_busy dusb_recv_acknowledge_busy)

lemma dusb_send_single_busy [busy_keeps]:
  "dusb_send_single E vtl h = (r, h') \<Longrightarrow> kh_busy h' = kh_busy h"
  by (auto simp: dusb_send_single_def Let_def split: option.splits dest!: fragment_busy [rotated])

lemma dusb_send_chunks_busy [busy_keeps]:
  "dusb_send_chunks E vtl q m n i offset raw h = (r, x, h') \<Longrightarrow> kh_busy h' = kh_busy h"
proof (induction n arbitrary: i offset raw h)
  case (Suc n)
  then show ?case
    by (auto simp: Let_def split: option.splits prod.splits
        dest!: fragment_busy [where w = "\<lambda>h. h", simplified])
qed simp

lemma dusb_send_tail_busy [busy_keeps]:
  "dusb_send_tail E vtl m offset raw h = (r, h') \<Longrightarrow> kh_busy h' = kh_busy h"
  by (auto simp: dusb_send_tail_def Let_def split: option.splits if_splits
      dest!: fragment_busy [rotated])

lemma dusb_send_multi_busy [busy_keeps]:
  "dusb_send_multi E vtl h = (r, h') \<Longrightarrow> kh_busy h' = kh_busy h"
  by (auto simp: dusb_send_multi_def Let_def andthen_def split: option.splits prod.splits if_splits
      dest!: dusb_send_busy dusb_recv_acknowledge_busy dusb_send_chunks_busy dusb_send_tail_busy)

lemma dusb_send_data_busy [busy_keeps]:
  "dusb_send_data E vtl h = (r, h') \<Longrightarrow> kh_busy h' = kh_busy h"
  by (auto simp: dusb_send_data_def Let_def andthen_def split: option.splits prod.splits if_splits
      elim!: with_busy_keeps [rotated] dest!: fire_busy dusb_send_single_busy dusb_send_multi_busy)

lemma rx_step_busy [busy_keeps]: "rx_step E est s h = (r, s', h') \<Longrightarrow> kh_busy h' = kh_busy h"
  by (auto simp: rx_step_def Let_def dusb_send_acknowledge_def
      split: option.splits prod.splits if_splits sum.splits dest!: dusb_recv_busy dusb_send_busy)

lemma rx_loop_busy: "rx_loop fuel E est s h = Some (r, s', h') \<Longrightarrow> kh_busy h' = kh_busy h"
proof (induction fuel arbitrary: s h)
  case (Suc fuel)
  then show ?case by (auto split: prod.splits if_splits dest!: rx_step_busy)
qed simp

lemma dusb_recv_data_varsize_busy:
  "dusb_recv_data_varsize fuel E vtl dc est h = Some (r, x, h') \<Longrightarrow> kh_busy h' = kh_busy h"
  by (auto simp: dusb_recv_data_varsize_def busy_taken clear_busy_if_necessary_def Let_def
      split: option.splits prod.splits if_splits dest!: fire_busy rx_loop_busy)

section \<open>Properties of virtual packets\<close>

text \<open>
  C2: a virtual packet of up to 2 GB crosses the protocol unchanged. With a buffer size
  between 6 and 1023 bytes, \<open>dusb_send_data\<close> cuts header and data into pieces of that size,
  sends them as raw packets (only the last with the final type) and consumes one
  acknowledgement per piece; fed with what it sent, \<open>dusb_recv_data\<close> rebuilds the same type,
  size and data, sends one acknowledgement per piece, and ends after as many rounds.
\<close>

theorem dusb_data_roundtrip:
  assumes "quiet_link send recv sent avail room ok E" "link_ready ok h"
    and "unat (vt_size v) = length (vtl_bytes v)" "length (vtl_bytes v) < 2 ^ 31"
    and "vt_type v = 0xEE00 \<longrightarrow> vt_size v \<noteq> 1"
    and "6 \<le> unat (kh_maxlen h)" "unat (kh_maxlen h) \<le> 1023"
    and "pieces = vtl_pieces (kh_maxlen h) v" "sent (cb_dev (kh_cable h)) = []"
    and "avail (cb_dev (kh_cable h)) = acks (length pieces) @ rest"
    and "length (wire_of pieces) \<le> room (cb_dev (kh_cable h))"
    and "quiet_link send' recv' sent' avail' room' ok' E'" "link_ready ok' g"
    and "7 * length pieces \<le> room' (cb_dev (kh_cable g))" "length pieces \<le> fuel"
    and "dusb_send_data E v h = (r, h')"
    and "avail' (cb_dev (kh_cable g)) = sent (cb_dev (kh_cable h')) @ rest'"
  shows "r = None \<and> transfer sent avail ok h (wire_of pieces) (7 * length pieces) h'
     \<and> (\<exists>w g'. dusb_recv_data fuel E' vtl g = Some (None, w, g')
          \<and> vt_size w = vt_size v \<and> vt_type w = vt_type v \<and> vtl_bytes w = vtl_bytes v
          \<and> transfer sent' avail' ok' g (acks (length pieces)) (length (wire_of pieces)) g')"
proof -
  note q = assms(1) and q' = assms(12)
  have rd: "quiet_link.ready ok h" "quiet_link.ready ok' g"
    using assms(2,13) quiet_link.link_ready_iff [OF q] quiet_link.link_ready_iff [OF q'] by blast+
  have av: "quiet_link.c_avail avail (kh_cable h) = acks (length pieces) @ rest"
    "length (wire_of pieces) \<le> quiet_link.c_room room (kh_cable h)"
    using assms(10,11) by (simp_all add: quiet_link.c_avail_def [OF q] quiet_link.c_room_def [OF q])
  have s: "r = None" "quiet_link.moved sent avail room ok h (wire_of pieces) (7 * length pieces) h'"
    using quiet_link.dusb_send_data_quiet [OF q rd(1) assms(3,6,7,8) av] assms(16) by auto
  then have sent: "sent (cb_dev (kh_cable h')) = wire_of pieces"
    using assms(9) by (simp add: quiet_link.moved_def [OF q] quiet_link.c_sent_def [OF q])
  have av': "quiet_link.c_avail avail' (kh_cable g) = wire_of pieces @ rest'"
    "7 * length pieces \<le> quiet_link.c_room room' (kh_cable g)"
    using assms(14,17) sent by (simp_all add: quiet_link.c_avail_def [OF q'] quiet_link.c_room_def [OF q'])
  show ?thesis
    using s quiet_link.moved_transfer [OF q] quiet_link.moved_transfer [OF q']
      quiet_link.dusb_recv_data_quiet [OF q' rd(2) assms(3,4,5,6,7,8) av' assms(15), of vtl]
    by blast
qed

lemma dusb_data_roundtrip_witness:
  "\<exists>h' w g'. dusb_send_data (vti_env vti_works) \<lparr>vt_size = 2, vt_type = 0x000B, vt_data = Some [7, 8]\<rparr>
       (vti_handle CALC_TI84P_USB (vti_loaded (acks 2))\<lparr>kh_maxlen := 7\<rparr>) = (None, h')
     \<and> dusb_recv_data 2 (vti_env vti_works) dusb_vtl_pkt_new
         (vti_handle CALC_TI84P_USB (vti_loaded (wire_of (vtl_pieces 7
            \<lparr>vt_size = 2, vt_type = 0x000B, vt_data = Some [7, 8]\<rparr>)))) = Some (None, w, g')
     \<and> vtl_bytes w = [7, 8]"
proof -
  let ?v = "\<lparr>vt_size = 2, vt_type = 0x000B, vt_data = Some [7, 8]\<rparr>" let ?E = "vti_env vti_works"
  let ?h = "vti_handle CALC_TI84P_USB (vti_loaded (acks 2))\<lparr>kh_maxlen := 7\<rparr>"
  let ?p = "vtl_pieces 7 ?v"
  have p: "length ?p = 2" "length (wire_of ?p) = 18"
    by (simp_all add: vtl_pieces_def wire_of_length chop_concat chop_more chop_last vtl_bytes_def)
  have a2: "length (acks 2) \<le> 255" by simp
  have rd: "link_ready vti_ok ?h" using a2 by (simp add: link_ready_def vti_handle_def)
  have dev: "cb_dev (kh_cable ?h) = vti_loaded (acks 2)" by simp
  obtain r h' where h': "dusb_send_data ?E ?v ?h = (r, h')" by fastforce
  have "r = None \<and> vti_sent (cb_dev (kh_cable h')) = wire_of ?p"
    using quiet_vti.dusb_send_data_quiet [of ?h ?v ?p "[]" vti_works] h' p rd dev a2
    by (auto simp: quiet_vti.link_ready_iff quiet_vti.moved_def quiet_vti.c_room_def quiet_vti.c_sent_def
        quiet_vti.c_avail_def vtl_bytes_def)
  then show ?thesis
    using dusb_data_roundtrip [OF quiet_vti.quiet_link_axioms [of vti_works] rd _ _ _ _ _ refl _ _ _
        quiet_vti.quiet_link_axioms [of vti_works] _ _ _ h', where rest = "[]" and rest' = "[]" and fuel = 2
        and g = "vti_handle CALC_TI84P_USB (vti_loaded (wire_of ?p))" and vtl = dusb_vtl_pkt_new] h' p dev a2
    by (auto simp: vtl_bytes_def)
qed

text \<open>
  the acknowledgement check accepts a raw packet exactly when it has the acknowledge type
  and one of the two bytes \<open>E0 00\<close> is right: because the source joins the two comparisons
  with a conjunction, a packet with one wrong byte passes.
\<close>

theorem dusb_acknowledge_accepts:
  "check_acknowledge raw = None \<longleftrightarrow>
     rw_type raw = DUSB_RPKT_VIRT_DATA_ACK \<and> (rw_data raw ! 0 = 0xE0 \<or> rw_data raw ! 1 = 0x00)"
  by (simp add: check_acknowledge_def)

text \<open>
  the buffer size that the host takes over never exceeds 1023 bytes when the calculator
  allocates it, and 1018 on the models that allocate more than they support; but when the
  calculator requests a size, as it may in place of an acknowledgement, the host sets up to
  1024, one more than a raw packet holds. With that size a virtual packet of 1018 bytes or
  more makes \<open>dusb_send_data\<close> write behind the array.
\<close>

theorem dusb_buffer_size_bounds:
  "(case dusb_recv_buf_size_alloc E out h of (r, _, h') \<Rightarrow>
      (r = None \<longrightarrow> unat (kh_maxlen h') \<le> 1023
         \<and> (kh_model h' \<in> {CALC_TI83PCE_USB, CALC_TI84PCE_USB, CALC_TI82AEP_USB} \<longrightarrow> unat (kh_maxlen h') \<le> 1018)))
   \<and> (1024 \<le> n \<longrightarrow> kh_maxlen (snd (dusb_send_buf_size_alloc E n h)) = 1024)
   \<and> (ke_hook E = None \<and> kh_maxlen h = 1024 \<and> 1018 \<le> unat (vt_size vtl) \<and> vt_data vtl \<noteq> None \<longrightarrow>
        fst (dusb_send_data E vtl h) = Some UNDEFINED_BEHAVIOUR)"
proof (intro conjI impI)
  show "case dusb_recv_buf_size_alloc E out h of (r, _, h') \<Rightarrow>
      (r = None \<longrightarrow> unat (kh_maxlen h') \<le> 1023
         \<and> (kh_model h' \<in> {CALC_TI83PCE_USB, CALC_TI84PCE_USB, CALC_TI82AEP_USB} \<longrightarrow> unat (kh_maxlen h') \<le> 1018))"
    by (auto simp: dusb_recv_buf_size_alloc_def dusb_model_limits_def Let_def word_less_nat_alt not_less
        split: prod.splits option.splits)
next
  assume "1024 \<le> n"
  then have "clamp_size n = 1024" by (auto simp: clamp_size_def word_less_nat_alt word_le_nat_alt word_unat_eq_iff)
  then show "kh_maxlen (snd (dusb_send_buf_size_alloc E n h)) = 1024"
    by (simp add: dusb_send_buf_size_alloc_def split: prod.splits)
next
  assume a: "ke_hook E = None \<and> kh_maxlen h = 1024 \<and> 1018 \<le> unat (vt_size vtl) \<and> vt_data vtl \<noteq> None"
  have long: "fill_first raw_zero vtl k = None" if "1018 \<le> k" for k
    using that a by (auto simp: fill_first_def memcpy_from_def memcpy_at_def raw_zero_def split: bind_splits)
  have "unat (kh_maxlen h - of_nat 6) = 1018" using a by simp
  then have "dusb_send_single E vtl (h\<lparr>kh_busy := True\<rparr>) = (Some UNDEFINED_BEHAVIOUR, h\<lparr>kh_busy := True\<rparr>)"
    "dusb_send_multi E vtl (h\<lparr>kh_busy := True\<rparr>) = (Some UNDEFINED_BEHAVIOUR, h\<lparr>kh_busy := True\<rparr>)"
    using long a by (simp_all add: dusb_send_single_def dusb_send_multi_def Let_def)
  then show "fst (dusb_send_data E vtl h) = Some UNDEFINED_BEHAVIOUR"
    using a by (simp add: dusb_send_data_def with_busy_def busy_taken fire_def ticalcs_event_send_def
        ticalcs_event_fill_header_def Let_def)
qed

lemma dusb_buffer_size_bounds_witness:
  "kh_maxlen (snd (dusb_send_buf_size_alloc (vti_env vti_works) 4096 (vti_handle CALC_TI84P_USB (vti_loaded [])))) = 1024
   \<and> fst (dusb_send_data (vti_env vti_works) \<lparr>vt_size = 1018, vt_type = 0x000D, vt_data = Some (replicate 1018 0)\<rparr>
            (vti_handle CALC_TI84P_USB (vti_loaded [])\<lparr>kh_maxlen := 1024\<rparr>)) = Some UNDEFINED_BEHAVIOUR"
  using dusb_buffer_size_bounds [of "vti_env vti_works" None "vti_handle CALC_TI84P_USB (vti_loaded [])" 4096]
    dusb_buffer_size_bounds [of "vti_env vti_works" None "vti_handle CALC_TI84P_USB (vti_loaded [])\<lparr>kh_maxlen := 1024\<rparr>"
      0 "\<lparr>vt_size = 1018, vt_type = 0x000D, vt_data = Some (replicate 1018 0)\<rparr>"]
  by (simp add: vti_env_def)

text \<open>
  C28: whatever the hooks, the application, the driver and the peer do, sending a virtual packet
  and receiving one (with any number of rounds) leave the busy flag as they found it.
\<close>

theorem dusb_busy_flag:
  "kh_busy (snd (dusb_send_data E vtl h)) = kh_busy h
   \<and> kh_busy (snd (dusb_recv_acknowledge E h)) = kh_busy h
   \<and> (case dusb_recv_data_varsize fuel E vtl dc est h of None \<Rightarrow> True | Some (_, _, h') \<Rightarrow> kh_busy h' = kh_busy h)"
proof (intro conjI)
  show "kh_busy (snd (dusb_send_data E vtl h)) = kh_busy h"
    by (cases "dusb_send_data E vtl h") (simp add: dusb_send_data_busy)
  show "kh_busy (snd (dusb_recv_acknowledge E h)) = kh_busy h"
    by (cases "dusb_recv_acknowledge E h") (simp add: dusb_recv_acknowledge_busy)
  show "case dusb_recv_data_varsize fuel E vtl dc est h of None \<Rightarrow> True | Some (_, _, h') \<Rightarrow> kh_busy h' = kh_busy h"
    by (auto split: option.splits dest: dusb_recv_data_varsize_busy)
qed

text \<open>
  Growing the block of a virtual packet keeps all its bytes and clears the new ones; the
  block has six bytes more than asked for, as a fresh one has.
\<close>

theorem dusb_realloc_keeps:
  assumes "vt_data vtl = Some d" "length d = unat (vt_size vtl) + 6" "unat (vt_size vtl) \<le> n" "n + 6 < 2 ^ 64"
  shows "\<exists>d'. dusb_vtl_pkt_realloc_data vtl n = Some (vtl\<lparr>vt_data := Some d'\<rparr>)
     \<and> take (length d) d' = d \<and> length d' = length (dusb_vtl_pkt_alloc_data n)
     \<and> (\<forall>b \<in> set (drop (length d) d'). b = 0)"
  using assms by (intro exI [of _ "d @ replicate (n - unat (vt_size vtl)) 0"])
    (simp add: dusb_vtl_pkt_realloc_data_def dusb_vtl_pkt_alloc_data_def)

lemma dusb_realloc_keeps_witness:
  "\<exists>d'. dusb_vtl_pkt_realloc_data \<lparr>vt_size = 1, vt_type = 0, vt_data = Some [1, 2, 3, 4, 5, 6, 7]\<rparr> 3
       = Some \<lparr>vt_size = 1, vt_type = 0, vt_data = Some d'\<rparr>
     \<and> take (length [1, 2, 3, 4, 5, 6, 7 :: u8]) d' = [1, 2, 3, 4, 5, 6, 7]"
  using dusb_realloc_keeps [of "\<lparr>vt_size = 1, vt_type = 0, vt_data = Some [1, 2, 3, 4, 5, 6, 7]\<rparr>"
      "[1, 2, 3, 4, 5, 6, 7]" 3] by auto

end
