(* ===== verification/DusbParam.thy ===== *)
theory DusbParam
  imports DusbVpkt
begin

text \<open>
  The contents of direct USB virtual packets, first half of
  \<^verbatim>\<open>libticalcs/trunk/src/dusb_cmd.cc\<close>: parameters and attributes, the error codes of the
  calculator, the check that a packet's data is well-formed and the dissector that prints it.
\<close>

section \<open>Packet types\<close>

abbreviation "DUSB_VPKT_PING \<equiv> (0x0001 :: u16)"
abbreviation "DUSB_VPKT_OS_BEGIN \<equiv> (0x0002 :: u16)"
abbreviation "DUSB_VPKT_OS_ACK \<equiv> (0x0003 :: u16)"
abbreviation "DUSB_VPKT_OS_HEADER \<equiv> (0x0004 :: u16)"
abbreviation "DUSB_VPKT_OS_DATA \<equiv> (0x0005 :: u16)"
abbreviation "DUSB_VPKT_EOT_ACK \<equiv> (0x0006 :: u16)"
abbreviation "DUSB_VPKT_PARM_REQ \<equiv> (0x0007 :: u16)"
abbreviation "DUSB_VPKT_PARM_DATA \<equiv> (0x0008 :: u16)"
abbreviation "DUSB_VPKT_DIR_REQ \<equiv> (0x0009 :: u16)"
abbreviation "DUSB_VPKT_VAR_HDR \<equiv> (0x000A :: u16)"
abbreviation "DUSB_VPKT_RTS \<equiv> (0x000B :: u16)"
abbreviation "DUSB_VPKT_VAR_REQ \<equiv> (0x000C :: u16)"
abbreviation "DUSB_VPKT_VAR_CNTS \<equiv> (0x000D :: u16)"
abbreviation "DUSB_VPKT_PARM_SET \<equiv> (0x000E :: u16)"
abbreviation "DUSB_VPKT_MODIF_VAR \<equiv> (0x0010 :: u16)"
abbreviation "DUSB_VPKT_EXECUTE \<equiv> (0x0011 :: u16)"
abbreviation "DUSB_VPKT_MODE_SET \<equiv> (0x0012 :: u16)"
abbreviation "DUSB_VPKT_DATA_ACK \<equiv> (0xAA00 :: u16)"
abbreviation "DUSB_VPKT_DELAY_ACK \<equiv> (0xBB00 :: u16)"
abbreviation "DUSB_VPKT_EOT \<equiv> (0xDD00 :: u16)"
abbreviation "DUSB_VPKT_ERROR \<equiv> (0xEE00 :: u16)"

section \<open>Parameters and attributes\<close>

text \<open>
  \<^verbatim>\<open>DUSBCalcParam\<close> and \<^verbatim>\<open>DUSBCalcAttr\<close> are the same structure. \<open>dp_data\<close> is \<open>None\<close> for the null
  pointer, which is what glib's allocator returns for a size of zero. Freeing is not modelled.
\<close>

record dusb_param =
  dp_id :: u16
  dp_ok :: bool
  dp_size :: u16
  dp_data :: "bytes option"

definition g_malloc0 :: "nat \<Rightarrow> bytes option" where
  "g_malloc0 n = (if n = 0 then None else Some (replicate n 0))"

definition dusb_cp_new_ex :: "u16 \<Rightarrow> u16 \<Rightarrow> bytes option \<Rightarrow> dusb_param" where
  "dusb_cp_new_ex i n data = \<lparr>dp_id = i, dp_ok = False, dp_size = n, dp_data = data\<rparr>"

definition dusb_cp_new :: "u16 \<Rightarrow> u16 \<Rightarrow> dusb_param" where
  "dusb_cp_new i n = dusb_cp_new_ex i n (g_malloc0 (unat n))"

definition dusb_cp_fill :: "dusb_param \<Rightarrow> u16 \<Rightarrow> u16 \<Rightarrow> bytes option \<Rightarrow> dusb_param" where
  "dusb_cp_fill cp i n data = cp\<lparr>dp_id := i, dp_ok := False, dp_size := n, dp_data := data\<rparr>"

definition dusb_cp_alloc_data :: "u16 \<Rightarrow> bytes option" where
  "dusb_cp_alloc_data n = g_malloc0 (unat n)"

text \<open>
  Reallocation keeps the old block's bytes and clears from the old size on. The size field is
  not updated; with a size of zero the allocator frees the block and the function fails,
  leaving the freed block behind (\<open>None\<close>).
\<close>

definition dusb_cp_realloc_data :: "dusb_param \<Rightarrow> u16 \<Rightarrow> dusb_param option" where
  "dusb_cp_realloc_data cp n =
     (if n = 0 then None
      else (let old = (case dp_data cp of None \<Rightarrow> [] | Some d \<Rightarrow> d);
                kept = take (min (unat n) (unat (dp_size cp))) old
            in Some (cp\<lparr>dp_data := Some (kept @ replicate (unat n - length kept) 0)\<rparr>)))"

definition dusb_cp_new_array :: "nat \<Rightarrow> dusb_param option list" where
  "dusb_cp_new_array n = replicate (n + 1) None"

definition dusb_cp_new_array2 :: "nat \<Rightarrow> dusb_param list" where
  "dusb_cp_new_array2 n = replicate (n + 1) (dusb_cp_new_ex 0 0 None)"

text \<open>The functions for attributes are copies of those for parameters.\<close>

definition dusb_ca_new_ex :: "u16 \<Rightarrow> u16 \<Rightarrow> bytes option \<Rightarrow> dusb_param" where
  "dusb_ca_new_ex i n data = \<lparr>dp_id = i, dp_ok = False, dp_size = n, dp_data = data\<rparr>"

definition dusb_ca_new :: "u16 \<Rightarrow> u16 \<Rightarrow> dusb_param" where
  "dusb_ca_new i n = dusb_ca_new_ex i n (g_malloc0 (unat n))"

definition dusb_ca_fill :: "dusb_param \<Rightarrow> u16 \<Rightarrow> u16 \<Rightarrow> bytes option \<Rightarrow> dusb_param" where
  "dusb_ca_fill ca i n data = ca\<lparr>dp_id := i, dp_ok := False, dp_size := n, dp_data := data\<rparr>"

definition dusb_ca_alloc_data :: "u16 \<Rightarrow> bytes option" where
  "dusb_ca_alloc_data n = g_malloc0 (unat n)"

definition dusb_ca_realloc_data :: "dusb_param \<Rightarrow> u16 \<Rightarrow> dusb_param option" where
  "dusb_ca_realloc_data ca n =
     (if n = 0 then None
      else (let old = (case dp_data ca of None \<Rightarrow> [] | Some d \<Rightarrow> d);
                kept = take (min (unat n) (unat (dp_size ca))) old
            in Some (ca\<lparr>dp_data := Some (kept @ replicate (unat n - length kept) 0)\<rparr>)))"

definition dusb_ca_new_array :: "nat \<Rightarrow> dusb_param option list" where
  "dusb_ca_new_array n = replicate (n + 1) None"

definition dusb_ca_new_array2 :: "nat \<Rightarrow> dusb_param list" where
  "dusb_ca_new_array2 n = replicate (n + 1) (dusb_ca_new_ex 0 0 None)"

definition dusb_ca_type_model_magic_byte :: "calc_model \<Rightarrow> u8" where
  "dusb_ca_type_model_magic_byte m =
     (if m \<in> {CALC_TI83PCE_USB, CALC_TI84PCE_USB, CALC_TI82AEP_USB} then 0x0F
      else if m = CALC_TI89T_USB then 0x0C
      else if m \<in> {CALC_TI84P_USB, CALC_TI84PC_USB, CALC_TI82A_USB, CALC_TI84PT_USB} then 0x0B
      else 0x07)"

text \<open>Four bytes are written; a shorter block is overrun (\<open>None\<close>).\<close>

definition dusb_ca_type_set_bytes :: "dusb_param \<Rightarrow> u8 \<Rightarrow> u8 \<Rightarrow> dusb_param option" where
  "dusb_ca_type_set_bytes attr magic vartype =
     (case dp_data attr of None \<Rightarrow> None
      | Some d \<Rightarrow> map_option (\<lambda>d. attr\<lparr>dp_data := Some d\<rparr>) (memcpy_at d 0 [0xF0, magic, 0x00, vartype]))"

section \<open>Names\<close>

definition dusb_model_needs_transpose_pua :: "calc_model \<Rightarrow> bool" where
  "dusb_model_needs_transpose_pua m \<longleftrightarrow>
     m \<in> {CALC_TI84P_USB, CALC_TI84PC_USB, CALC_TI83PCE_USB, CALC_TI84PCE_USB, CALC_TI82A_USB,
          CALC_TI84PT_USB, CALC_TI82AEP_USB}"

text \<open>
  A C string is given by its characters without the terminator. The loop over \<^verbatim>\<open>strstr\<close>
  replaces every occurrence of U+22BA, from left to right, by U+F038.
\<close>

function transpose_pua :: "bytes \<Rightarrow> bytes" where
  "transpose_pua s =
     (if take 3 s = [0xE2, 0x8A, 0xBA] then [0xEF, 0x80, 0xB8] @ transpose_pua (drop 3 s)
      else case s of [] \<Rightarrow> [] | c # s \<Rightarrow> c # transpose_pua s)"
  by pat_completeness auto
termination
proof (relation "measure length", goal_cases)
  case (2 s)
  then have "length (take 3 s) = 3" by (simp only: list.size)
  then show ?case by simp
qed simp_all

declare transpose_pua.simps [simp del]

definition dusb_normalize_name_for_send :: "calc_model \<Rightarrow> bytes \<Rightarrow> bytes" where
  "dusb_normalize_name_for_send m s = (if dusb_model_needs_transpose_pua m then transpose_pua s else s)"

lemma transpose_pua_length: "length (transpose_pua s) = length s"
proof (induction s rule: transpose_pua.induct)
  case (1 s)
  show ?case
  proof (cases "take 3 s = [0xE2, 0x8A, 0xBA]")
    case True
    then have "length (take 3 s) = 3" by (simp only: list.size)
    then have "3 \<le> length s" by simp
    then show ?thesis using True 1 by (subst transpose_pua.simps) simp
  next
    case False
    then show ?thesis using 1 by (subst transpose_pua.simps) (auto split: list.split)
  qed
qed

lemma normalize_length: "length (dusb_normalize_name_for_send m s) = length s"
  by (simp add: dusb_normalize_name_for_send_def transpose_pua_length)

section \<open>Error codes\<close>

definition usb_errors :: "(u16 \<times> string) list" where
  "usb_errors =
    [(0x0001, ''UnknownPacket''), (0x0002, ''CannotReceiveOS''), (0x0003, ''Timeout''),
     (0x0004, ''UnknownAttribute''), (0x0005, ''PathDoesNotExist''), (0x0006, ''FileDoesNotExist''),
     (0x0007, ''InvalidPacketLength''), (0x0008, ''UnexpectedPacket''), (0x0009, ''UnknownProtocolID''),
     (0x000A, ''CannotCreateDirectory''), (0x000B, ''CannotCreateNullFile''), (0x000C, ''InsufficientMemory''),
     (0x000D, ''InvalidPath''), (0x000E, ''InvalidFilename''), (0x000F, ''ArchivedFile''),
     (0x0010, ''LockedFile''), (0x0011, ''Forbidden''), (0x0012, ''FileAlreadyExists''),
     (0x0013, ''FileCannotBeArchived''), (0x0014, ''UnsupportedFilter''), (0x0015, ''FilterNotApplicable''),
     (0x0016, ''UnknownFilter''), (0x0017, ''ListElementOutOfRange''), (0x0018, ''ListElementNotApplicable''),
     (0x0019, ''DowngradeNotAllowed''), (0x001A, ''MulipleFilesMatched''),
     (0x001B, ''FileSizeExceedsMaximumAcceptableSize''), (0x001C, ''TimeoutTooShort''),
     (0x001D, ''TimeoutTooLong''), (0x001E, ''UnsupportedProtocolVersion''),
     (0x001F, ''UnsupportedStringCharacter''), (0x0020, ''AttributeCountDoesntMatchRequest''),
     (0x0021, ''AttributeDoesntMatchRequest''), (0x0022, ''InvalidAttributeValue''),
     (0x0023, ''UnsupportedAttribute''), (0x0024, ''UnknownOption''), (0x0025, ''UnsupportedOption''),
     (0x0026, ''InvalidOption''), (0x0027, ''InvalidFilterValue''), (0x0028, ''InsufficientInfoForWrite''),
     (0x0029, ''InvalidPacketField''), (0x002A, ''WaitTimeExceeded''), (0x002B, ''BatteryTooLow''),
     (0x002C, ''InvalidCertificate''), (0x002D, ''NoCertificatePresent''), (0x002E, ''BadSignature''),
     (0x002F, ''ExpiredCertificate''), (0x0030, ''CertificateCannotBeReplaced''),
     (0x0031, ''UnsupportedVersion''), (0x0032, ''NoDataForVariable''), (0x0033, ''BadLoadAddress''),
     (0x0034, ''FileMustBeArchived''), (0x0035, ''CannotSendOS''), (0x0036, ''CalculatorBusy''),
     (0xCCCC, ''Cancel''), (0xCCCD, ''CancelAll''),
     (0xF001, ''MissingDirectoryInfo''), (0xF002, ''MissingDataInfo''), (0xF003, ''UnableToAllocatePacket''),
     (0xF004, ''ShortSendReceive''), (0xF005, ''FailedToCommunicate''), (0xF006, ''DeviceHasBeenDisconnected'')]"

definition ticalcs_dusb_error_code_from_index :: "nat \<Rightarrow> u16" where
  "ticalcs_dusb_error_code_from_index i = (if length usb_errors \<le> i then 0 else fst (usb_errors ! i))"

definition ticalcs_dusb_error_count :: nat where
  "ticalcs_dusb_error_count = length usb_errors"

text \<open>The search loops: the position of a code, from one, or zero; its name.\<close>

fun usb_err_loop :: "u16 \<Rightarrow> (u16 \<times> string) list \<Rightarrow> nat \<Rightarrow> nat" where
  "usb_err_loop code [] i = 0"
| "usb_err_loop code ((c, _) # es) i = (if c = code then i + 1 else usb_err_loop code es (i + 1))"

definition usb_err_code :: "u16 \<Rightarrow> nat" where
  "usb_err_code code = usb_err_loop code usb_errors 0"

definition dusb_error_code_to_name :: "u16 \<Rightarrow> string" where
  "dusb_error_code_to_name code =
     (case find (\<lambda>p. fst p = code) usb_errors of None \<Rightarrow> ''Unknown'' | Some p \<Rightarrow> snd p)"

definition dusb_error_code_is_protocol :: "u16 \<Rightarrow> bool" where
  "dusb_error_code_is_protocol code \<longleftrightarrow>
     code \<in> {0x0001, 0x0007, 0x0008, 0x0009, 0x0029, 0xCCCC, 0xCCCD, 0xEFF0}"

section \<open>Checking\<close>

text \<open>
  The data of a packet as \<open>dusb_check_cmd_data\<close> sees it: \<open>len\<close> bytes at the start of a block
  that may be longer. Reading behind the block is \<open>UNDEFINED_BEHAVIOUR\<close>.
\<close>

definition u16_at :: "bytes \<Rightarrow> nat \<Rightarrow> u16" where
  "u16_at data i = be16 (data ! i) (data ! (i + 1))"

text \<open>
  The loop over the \<open>n\<close> parameters left of \<open>nparams\<close>, at index \<open>j\<close>; its result is whether it
  was left because of an overrun, and the additional size.
\<close>

fun check_params :: "bytes \<Rightarrow> u32 \<Rightarrow> u16 \<Rightarrow> nat \<Rightarrow> nat \<Rightarrow> u32 \<Rightarrow> errcode + bool \<times> u32" where
  "check_params data len nparams 0 j additional = Inr (False, additional)"
| "check_params data len nparams (Suc n) j additional =
     (if length data < j + 3 then Inl UNDEFINED_BEHAVIOUR
      else
        (let ok = data ! (j + 2) = 0; j = j + 3
         in if ok \<and> length data < j + 2 then Inl UNDEFINED_BEHAVIOUR
            else
              (let size = u16_at data j;
                   j = (if ok then j + unat size + 2 else j);
                   additional = (if ok then additional + (ucast size + 2) else additional)
               in if len < 2 + 3 * ucast nparams + additional then Inr (True, additional)
                  else check_params data len nparams n j additional)))"

definition check_param_data :: "bytes \<Rightarrow> u32 \<Rightarrow> ret" where
  "check_param_data data len =
     (let nparams = u16_at data 0 in
      if len < 2 + 3 * ucast nparams then Some ERR_INVALID_PACKET
      else (case check_params data len nparams (unat nparams) 2 0 of
              Inl e \<Rightarrow> Some e
            | Inr (overrun, additional) \<Rightarrow>
                if \<not> overrun \<and> len = 2 + 3 * ucast nparams + additional then None
                else Some ERR_INVALID_PACKET))"

definition valid_if :: "bool \<Rightarrow> ret" where
  "valid_if b = (if b then None else Some ERR_INVALID_PACKET)"

definition dusb_check_cmd_data :: "calc_model \<Rightarrow> bytes \<Rightarrow> u32 \<Rightarrow> u16 \<Rightarrow> ret" where
  "dusb_check_cmd_data model data len vtl_type =
     (if vtl_type = DUSB_VPKT_PING then valid_if (len = 10)
      else if vtl_type = DUSB_VPKT_PARM_REQ then valid_if (2 \<le> len \<and> len = 2 + ucast (u16_at data 0) * 2)
      else if vtl_type = DUSB_VPKT_PARM_DATA then
        (if 2 \<le> len then check_param_data data len else Some ERR_INVALID_PACKET)
      else if vtl_type = DUSB_VPKT_PARM_SET then valid_if (4 < len \<and> len = 4 + ucast (u16_at data 2))
      else if vtl_type = DUSB_VPKT_OS_BEGIN then valid_if (len = 11)
      else if vtl_type = DUSB_VPKT_OS_ACK then valid_if (4 \<le> len)
      else if vtl_type \<in> {DUSB_VPKT_OS_HEADER, DUSB_VPKT_OS_DATA} then
        valid_if (if model = CALC_TI89T_USB then 0 < len else 4 < len)
      else if vtl_type = DUSB_VPKT_DELAY_ACK then valid_if (len = 4)
      else if vtl_type = DUSB_VPKT_ERROR then valid_if (len = 2)
      else valid_if (vtl_type \<in> {DUSB_VPKT_VAR_CNTS, DUSB_VPKT_MODE_SET, DUSB_VPKT_EOT_ACK, DUSB_VPKT_DATA_ACK,
        DUSB_VPKT_EOT, DUSB_VPKT_DIR_REQ, DUSB_VPKT_VAR_HDR, DUSB_VPKT_RTS, DUSB_VPKT_VAR_REQ,
        DUSB_VPKT_MODIF_VAR, DUSB_VPKT_EXECUTE}))"

section \<open>Dissecting\<close>

definition param_types :: "(u16 \<times> string) list" where
  "param_types =
    [(0x0000, ''''), (0x0001, ''Product number''), (0x0002, ''Product name''),
     (0x0003, ''Main part ID''), (0x0004, ''Hardware version''), (0x0005, ''Full ID''),
     (0x0006, ''Language ID''), (0x0007, ''Sub-language ID''), (0x0008, ''Device type''),
     (0x0009, ''Boot version''), (0x000A, ''OS mode''), (0x000B, ''OS version''),
     (0x000C, ''Physical RAM''), (0x000D, ''User RAM''), (0x000E, ''Free RAM''),
     (0x000F, ''Physical Flash''), (0x0010, ''User Flash''), (0x0011, ''Free Flash''),
     (0x0012, ''User pages''), (0x0013, ''Free pages''), (0x0019, ''Has screen''),
     (0x001B, ''Color is available''), (0x001C, ''Color depth''), (0x001D, ''Bits per pixel''),
     (0x001E, ''LCD width''), (0x001F, ''LCD height''), (0x0022, ''Screenshot''),
     (0x0023, ''Classic clock supported''), (0x0024, ''Clock ON''),
     (0x0025, ''Clock sec since 1997''), (0x0026, ''Clock timezone''),
     (0x0027, ''Clock date format''), (0x0028, ''Clock time format''),
     (0x002D, ''Has enough battery for flash operations''), (0x002E, ''Battery level''),
     (0x002F, ''Has external power''), (0x0030, ''User data area 1''), (0x0031, ''FlashApps''),
     (0x0035, ''User data area 2''), (0x0036, ''Main part ID (as string)''),
     (0x0037, ''Home screen''), (0x0038, ''Busy''), (0x0039, ''Screen split mode''),
     (0x003A, ''New clock supported''), (0x003B, ''Clock seconds''), (0x003C, ''Clock minutes''),
     (0x003D, ''Clock hours''), (0x003E, ''Clock day''), (0x003F, ''Clock month''),
     (0x0040, ''Clock year''), (0x0045, ''Ans type''), (0x0046, ''Ans contents''),
     (0x0048, ''OS build number''), (0x0049, ''Boot build number''),
     (0x004A, ''Last error code''), (0x004B, ''Math engine capabilities''),
     (0x004C, ''Boot hash''), (0x004D, ''OS hash''), (0x004F, ''PTT mode set''),
     (0x0052, ''OS version (as string)''), (0x0053, ''Boot version (as string)''),
     (0x0054, ''PTT mode state''), (0x0055, ''PTT mode features''),
     (0x0059, ''Stopwatch start''), (0x005B, ''Stopwatch value 1''),
     (0x005C, ''Stopwatch value 2''), (0x005D, ''Python On Board'')]"

definition dusb_cmd_param_type2name :: "u16 \<Rightarrow> string" where
  "dusb_cmd_param_type2name i =
     (case find (\<lambda>p. fst p = i) param_types of None \<Rightarrow> ''unknown: not listed'' | Some p \<Rightarrow> snd p)"

definition hex16 :: "u16 \<Rightarrow> string" where "hex16 w = hex_pad 4 (unat w)"
definition hex8 :: "u8 \<Rightarrow> string" where "hex8 b = hex_pad 2 (unat b)"

text \<open>The bytes of a parameter value, a line break after every sixteen.\<close>

fun dump_value :: "nat \<Rightarrow> bytes \<Rightarrow> string" where
  "dump_value j [] = []"
| "dump_value j (b # bs) =
     hex8 b @ '' '' @ (if (j + 1) mod 16 = 0 then [newline, tab, tab] else []) @ dump_value (j + 1) bs"

text \<open>
  The loop over the parameters; the text is \<open>None\<close> when it reads behind the block. It stops at
  a value that is longer than the rest of the packet.
\<close>

fun dissect_params :: "bytes \<Rightarrow> u32 \<Rightarrow> u16 \<Rightarrow> nat \<Rightarrow> nat \<Rightarrow> u32 \<Rightarrow> string option" where
  "dissect_params data len nparams 0 j additional = Some []"
| "dissect_params data len nparams (Suc n) j additional =
     (if length data < j + 3 then None
      else
        (let pid = u16_at data j; ok = data ! (j + 2) = 0; j = j + 3;
             line = [tab] @ hex16 pid @ '' ('' @ dusb_cmd_param_type2name pid @ ''): ''
         in if \<not> ok then
              map_option (\<lambda>t. line @ ''NOK !'' @ [newline] @ t) (dissect_params data len nparams n j additional)
            else if length data < j + 2 then None
            else
              (let size = u16_at data j; j = j + 2; additional = additional + (ucast size + 2)
               in if len < 2 + 3 * ucast nparams + additional then Some line
                  else if length data < j + unat size then None
                  else map_option (\<lambda>t. line @ ''OK, size '' @ hex16 size @ [newline, tab, tab]
                           @ dump_value 0 (take (unat size) (drop j data)) @ [newline] @ t)
                         (dissect_params data len nparams n (j + unat size) additional))))"

text \<open>
  The loop that prints the value of a parameter to be set. Its body and its head both increment
  the 16-bit counter.
\<close>

fun dissect_set_loop :: "u16 \<Rightarrow> u16 \<Rightarrow> bytes \<Rightarrow> string option" where
  "dissect_set_loop n i data =
     (if i < n then
        (case data of [] \<Rightarrow> None
         | b # data \<Rightarrow>
             map_option (\<lambda>t. hex8 b @ '' '' @ (if (i + 1) AND 15 = 0 then [newline, tab] else []) @ t)
               (dissect_set_loop n (i + 1 + 1) data))
      else Some [])"

declare dissect_set_loop.simps [simp del]

definition dissect_ids :: "bytes \<Rightarrow> u16 \<Rightarrow> string" where
  "dissect_ids data npids =
     ''Requested '' @ to_dec (unat npids) @ '' ('' @ to_hex (unat npids) @ '') parameter IDs:'' @ [newline]
     @ concat (map (\<lambda>i. let pid = u16_at data (2 + 2 * i)
                        in [tab] @ hex16 pid @ '' ('' @ dusb_cmd_param_type2name pid @ '')'' @ [newline])
                [0..<unat npids]) @ [newline]"

definition decimal_and_hex :: "u32 \<Rightarrow> string" where
  "decimal_and_hex n = to_dec (unat n) @ '' / '' @ hex_pad 8 (unat n) @ [newline]"

definition set_heading :: "u16 \<Rightarrow> u16 \<Rightarrow> string" where
  "set_heading n i =
     ''Sending value of size '' @ hex16 n @ '' for parameter '' @ hex16 i @ [newline, tab]"

definition dissect_text :: "calc_model \<Rightarrow> bytes \<Rightarrow> u32 \<Rightarrow> u16 \<Rightarrow> string option" where
  "dissect_text model data len vtl_type =
     (if vtl_type = DUSB_VPKT_PING then
        Some (''Set mode: { '' @ concat (map (\<lambda>i. to_dec (unat (u16_at data (2 * i))) @ '', '') [0..<4])
              @ ''0x'' @ hex16 (u16_at data 8) @ '' }'' @ [newline])
      else if vtl_type = DUSB_VPKT_PARM_REQ then Some (dissect_ids data (u16_at data 0))
      else if vtl_type = DUSB_VPKT_PARM_DATA then
        (let nparams = u16_at data 0
         in map_option (\<lambda>t. ''Received '' @ to_dec (unat nparams) @ '' ('' @ to_hex (unat nparams)
                @ '') parameter values:'' @ [newline] @ t)
              (dissect_params data len nparams (unat nparams) 2 0))
      else if vtl_type = DUSB_VPKT_PARM_SET then
        (let i = u16_at data 0; size = u16_at data 2
         in map_option (\<lambda>t. set_heading size i @ t) (dissect_set_loop size 0 (drop 4 data)))
      else if vtl_type = DUSB_VPKT_OS_BEGIN then
        Some (''Size: '' @ decimal_and_hex (be32 (data ! 7) (data ! 8) (data ! 9) (data ! 10)))
      else if vtl_type = DUSB_VPKT_OS_ACK then
        Some (''Chunk size: '' @ decimal_and_hex (be32 (data ! 0) (data ! 1) (data ! 2) (data ! 3)))
      else if vtl_type \<in> {DUSB_VPKT_OS_HEADER, DUSB_VPKT_OS_DATA} then
        Some (if model \<in> {CALC_TI83PCE_USB, CALC_TI84PCE_USB, CALC_TI82AEP_USB}
              then ''Address: '' @ hex_pad 8 (unat (be32 (data ! 3) (data ! 2) (data ! 1) (data ! 0))) @ [newline]
              else if model \<noteq> CALC_TI89T_USB
              then ''Address: '' @ hex16 (u16_at data 0) @ [tab] @ ''Page: '' @ hex8 (data ! 2) @ [tab]
                   @ ''Flag: '' @ hex8 (data ! 3) @ [newline]
              else [])
      else if vtl_type = DUSB_VPKT_DELAY_ACK then
        Some (''Delay: '' @ to_dec (unat (be32 (data ! 0) (data ! 1) (data ! 2) (data ! 3))) @ [newline])
      else if vtl_type = DUSB_VPKT_ERROR then
        (let raw = u16_at data 0
         in Some (''Error code: 0x'' @ hex16 raw @ '' ('' @ dusb_error_code_to_name raw @ '')'' @ [newline]))
      else if vtl_type \<in> {DUSB_VPKT_VAR_CNTS, DUSB_VPKT_MODE_SET, DUSB_VPKT_EOT_ACK, DUSB_VPKT_DATA_ACK,
        DUSB_VPKT_EOT} then Some []
      else if vtl_type \<in> {DUSB_VPKT_DIR_REQ, DUSB_VPKT_VAR_HDR, DUSB_VPKT_RTS, DUSB_VPKT_VAR_REQ,
        DUSB_VPKT_MODIF_VAR, DUSB_VPKT_EXECUTE} then Some (''(no extra dissection performed for now)'' @ [newline])
      else Some (''(not performing extra dissection on unknown vpkt type)'' @ [newline]))"

definition dusb_dissect_cmd_data :: "calc_model \<Rightarrow> bytes \<Rightarrow> u32 \<Rightarrow> u16 \<Rightarrow> ret \<times> string" where
  "dusb_dissect_cmd_data model data len vtl_type =
     (case dusb_check_cmd_data model data len vtl_type of
        Some e \<Rightarrow> (Some e, [])
      | None \<Rightarrow> (case dissect_text model data len vtl_type of
                   None \<Rightarrow> (Some UNDEFINED_BEHAVIOUR, [])
                 | Some t \<Rightarrow> (None, t)))"

section \<open>The format of parameter data as a specification\<close>

text \<open>
  An answer to a parameter request is the number of parameters and, for each, its identifier, a
  status byte and, when the status is zero, size and value.
\<close>

type_synonym dusb_reply = "u16 \<times> u8 \<times> bytes"

fun reply_ok :: "dusb_reply \<Rightarrow> bool" where
  "reply_ok (i, st, d) \<longleftrightarrow> (if st = 0 then length d < 65536 else d = [])"

fun reply_bytes :: "dusb_reply \<Rightarrow> bytes" where
  "reply_bytes (i, st, d) =
     [MSB i, LSB i, st] @ (if st = 0 then (let n = of_nat (length d) :: u16 in [MSB n, LSB n]) @ d else [])"

definition param_bytes :: "dusb_reply list \<Rightarrow> bytes" where
  "param_bytes ps = (let n = of_nat (length ps) :: u16 in [MSB n, LSB n]) @ concat (map reply_bytes ps)"

lemma replies_length: "3 * length ps \<le> length (concat (map reply_bytes ps))"
proof (induction ps)
  case (Cons p ps)
  then show ?case by (cases p) auto
qed simp

lemma u16_bound: "unat (n :: u16) < 65536"
  by (rule order_less_le_trans [OF unsigned_less]) simp

lemma unat_of_nat_less: "k < 2 ^ LENGTH('a) \<Longrightarrow> unat (of_nat k :: 'a::len word) = k"
  by (simp add: unat_of_nat)

lemma unat_total:
  assumes "k < 2 ^ 31"
  shows "unat (2 + 3 * ucast (n :: u16) + of_nat k :: u32) = 2 + 3 * unat n + k"
proof -
  have e: "(2 + 3 * ucast n + of_nat k :: u32) = of_nat (2 + 3 * unat n + k)" by simp
  have "unat n < 65536" using u16_bound [of n] by simp
  then have "2 + 3 * unat n + k < 2 ^ LENGTH(32)" using assms by simp
  then show ?thesis unfolding e by (rule unat_of_nat_less)
qed

lemma u16_cons: "be16 a b = be16 (MSB n) (LSB n) \<longleftrightarrow> be16 a b = n"
  by (simp add: byte_simps)

lemma reply_cons_iff:
  "(\<exists>ps. length ps = Suc n \<and> list_all reply_ok ps \<and> b0 # b1 # b2 # r = concat (map reply_bytes ps))
   \<longleftrightarrow> (\<exists>d ps. length ps = n \<and> list_all reply_ok ps
          \<and> (if b2 = 0 then length d < 65536
                \<and> r = (let k = of_nat (length d) :: u16 in [MSB k, LSB k]) @ d @ concat (map reply_bytes ps)
             else r = concat (map reply_bytes ps)))" (is "?L = ?R")
proof
  assume ?L
  then obtain i st d ps where "length ps = n" "list_all reply_ok ps" "reply_ok (i, st, d)"
      "b0 # b1 # b2 # r = reply_bytes (i, st, d) @ concat (map reply_bytes ps)"
    by (auto simp: length_Suc_conv)
  then show ?R by (intro exI [of _ d] exI [of _ ps]) (auto split: if_splits)
next
  assume ?R
  then obtain d ps where *: "length ps = n" "list_all reply_ok ps"
      "if b2 = 0 then length d < 65536
          \<and> r = (let k = of_nat (length d) :: u16 in [MSB k, LSB k]) @ d @ concat (map reply_bytes ps)
       else r = concat (map reply_bytes ps)" by blast
  then show ?L
    by (intro exI [of _ "(be16 b0 b1, b2, if b2 = 0 then d else []) # ps"])
      (auto simp: MSB_be16 LSB_be16 Let_def split: if_splits)
qed

lemma unat_of_nat_u16: "k < 65536 \<Longrightarrow> unat (of_nat k :: u16) = k"
  by (simp add: unat_of_nat_less)

lemma check_params_iff:
  assumes "data = pre @ rest @ slack" "2 \<le> length slack" "unat len = length pre + length rest"
    and "unat len < 2 ^ 31" "length pre + 3 * n = 2 + 3 * unat nparams + k" "3 * n \<le> length rest"
  shows "\<exists>overrun k'. check_params data len nparams n (length pre) (of_nat k) = Inr (overrun, k')
     \<and> (\<not> overrun \<and> len = 2 + 3 * ucast nparams + k' \<longleftrightarrow>
          (\<exists>ps. length ps = n \<and> list_all reply_ok ps \<and> rest = concat (map reply_bytes ps)))"
  using assms
proof (induction n arbitrary: pre rest k)
  case 0
  then have "k < 2 ^ 31" by simp
  from unat_total [OF this, of nparams]
  have "len = 2 + 3 * ucast nparams + of_nat k \<longleftrightarrow> rest = []"
    using 0 by (simp add: word_unat_eq_iff)
  then show ?case by (intro exI [of _ False]) simp
next
  case (Suc n)
  then have "3 \<le> length rest" by simp
  then obtain b0 b1 b2 r where rest: "rest = b0 # b1 # b2 # r"
    by (auto simp: numeral_3_eq_3 Suc_le_length_iff)
  have at: "data ! (length pre + 2) = b2" "\<not> length data < length pre + 3"
    using Suc.prems(1) rest by (simp_all add: nth_append)
  have k31: "k < 2 ^ 31" and room: "3 * n \<le> length r" using Suc.prems rest by simp_all
  show ?case
  proof (cases "b2 = 0")
    case False
    have "unat (2 + 3 * ucast nparams + of_nat k :: u32) \<le> unat len"
      unfolding unat_total [OF k31] using Suc.prems rest by simp
    then have "\<not> len < 2 + 3 * ucast nparams + of_nat k" by (simp add: word_less_nat_alt)
    moreover obtain overrun k' where
        "check_params data len nparams n (length (pre @ [b0, b1, b2])) (of_nat k) = Inr (overrun, k')"
        "\<not> overrun \<and> len = 2 + 3 * ucast nparams + k' \<longleftrightarrow>
          (\<exists>ps. length ps = n \<and> list_all reply_ok ps \<and> r = concat (map reply_bytes ps))"
      using Suc.IH [of "pre @ [b0, b1, b2]" r k] Suc.prems rest room by auto
    ultimately show ?thesis
      unfolding rest reply_cons_iff using False at by (intro exI [of _ overrun] exI [of _ k']) (simp add: Let_def eval_nat_numeral)
  next
    case True
    define w where "w = r @ slack"
    have w: "2 \<le> length w" using Suc.prems(2) by (simp add: w_def)
    then obtain c0 c1 w' where w': "w = c0 # c1 # w'" by (auto simp: numeral_2_eq_2 Suc_le_length_iff)
    define sz where "sz = unat (be16 c0 c1)"
    have data: "data = (pre @ [b0, b1, b2]) @ w" using Suc.prems(1) rest by (simp add: w_def)
    have size: "u16_at data (length pre + 3) = be16 c0 c1" "\<not> length data < length pre + 3 + 2"
      unfolding data w' by (simp_all add: u16_at_def nth_append)
    have szlt: "sz < 65536" unfolding sz_def using u16_bound [of "be16 c0 c1"] by simp
    have add: "of_nat k + (ucast (be16 c0 c1) + 2) = (of_nat (k + (sz + 2)) :: u32)" by (simp add: sz_def)
    have big: "unat (2 + 3 * ucast nparams + of_nat (k + (sz + 2)) :: u32) = 2 + 3 * unat nparams + (k + (sz + 2))"
    proof -
      have e: "(2 + 3 * ucast nparams + of_nat (k + (sz + 2)) :: u32) = of_nat (2 + 3 * unat nparams + (k + (sz + 2)))"
        by simp
      have "unat nparams < 65536" using u16_bound [of nparams] by simp
      then have "2 + 3 * unat nparams + (k + (sz + 2)) < 2 ^ LENGTH(32)" using k31 szlt by simp
      then show ?thesis unfolding e by (rule unat_of_nat_less)
    qed
    have over: "len < 2 + 3 * ucast nparams + of_nat (k + (sz + 2)) \<longleftrightarrow> length r < 3 * n + (sz + 2)"
      unfolding word_less_nat_alt big using Suc.prems rest by auto
    have step: "check_params data len nparams (Suc n) (length pre) (of_nat k) =
        (if length r < 3 * n + (sz + 2) then Inr (True, of_nat (k + (sz + 2)))
         else check_params data len nparams n (length pre + 3 + sz + 2) (of_nat (k + (sz + 2))))"
      by (simp only: check_params.simps Let_def at size True add over sz_def [symmetric] if_True if_False simp_thms
          add.assoc [of "length pre + 3"])
    show ?thesis
    proof (cases "length r < 3 * n + (sz + 2)")
      case over: True
      have no: False if "length d < 65536" "length ps = n"
        "r = [MSB (of_nat (length d) :: u16), LSB (of_nat (length d) :: u16)] @ d @ concat (map reply_bytes ps)" for d ps
      proof -
        have "c0 = MSB (of_nat (length d) :: u16)" "c1 = LSB (of_nat (length d) :: u16)"
          using that(3) w' by (simp_all add: w_def)
        then have "sz = length d" using that(1) by (simp add: sz_def be16_MSB_LSB unat_of_nat_u16)
        then show False using over that replies_length [of ps] by simp
      qed
      then show ?thesis unfolding step rest reply_cons_iff using True over by (auto simp: Let_def)
    next
      case False
      then have "2 + sz \<le> length r" by simp
      then obtain d r' where r: "r = c0 # c1 # d @ r'" "length d = sz"
      proof -
        assume k: "\<And>d r'. r = c0 # c1 # d @ r' \<Longrightarrow> length d = sz \<Longrightarrow> thesis" and l: "2 + sz \<le> length r"
        then obtain x y r'' where r'': "r = x # y # r''" by (cases r; cases "tl r") auto
        then have "x = c0" "y = c1" using w' by (simp_all add: w_def)
        then show thesis using k [of "take sz r''" "drop sz r''"] r'' l by simp
      qed
      have sz: "(of_nat (length d) :: u16) = be16 c0 c1" using r(2) by (simp add: sz_def)
      let ?pre = "pre @ [b0, b1, b2, c0, c1] @ d"
      obtain overrun k' where ih: "check_params data len nparams n (length ?pre) (of_nat (k + (sz + 2))) = Inr (overrun, k')"
          "\<not> overrun \<and> len = 2 + 3 * ucast nparams + k' \<longleftrightarrow>
            (\<exists>ps. length ps = n \<and> list_all reply_ok ps \<and> r' = concat (map reply_bytes ps))"
        using Suc.IH [of ?pre r' "k + (sz + 2)"] Suc.prems rest r False by auto
      have pre: "length pre + 3 + sz + 2 = length ?pre" using r(2) by simp
      have dd: "d' = d \<and> r' = t" if "length d' < 65536"
        "r = [MSB (of_nat (length d') :: u16), LSB (of_nat (length d') :: u16)] @ d' @ t" for d' t
      proof -
        have "c0 = MSB (of_nat (length d') :: u16)" "c1 = LSB (of_nat (length d') :: u16)" "d @ r' = d' @ t"
          using that(2) r by simp_all
        then show ?thesis using that(1) r(2) by (simp add: sz_def be16_MSB_LSB unat_of_nat_u16)
      qed
      have "(\<exists>d ps. length ps = n \<and> list_all reply_ok ps \<and> length d < 65536
            \<and> r = (let k = of_nat (length d) :: u16 in [MSB k, LSB k]) @ d @ concat (map reply_bytes ps))
          \<longleftrightarrow> (\<exists>ps. length ps = n \<and> list_all reply_ok ps \<and> r' = concat (map reply_bytes ps))" (is "?L \<longleftrightarrow> ?R")
      proof
        assume ?L
        then obtain d' ps where *: "length ps = n" "list_all reply_ok ps" "length d' < 65536"
          "r = [MSB (of_nat (length d') :: u16), LSB (of_nat (length d') :: u16)] @ d' @ concat (map reply_bytes ps)"
          unfolding Let_def by blast
        then show ?R using dd [OF *(3,4)] by blast
      next
        assume ?R
        then obtain ps where "length ps = n" "list_all reply_ok ps" "r' = concat (map reply_bytes ps)" by blast
        moreover have "r = (let k = of_nat (length d) :: u16 in [MSB k, LSB k]) @ d @ r'"
          unfolding sz Let_def r(1) by (simp add: MSB_be16 LSB_be16)
        ultimately show ?L using szlt r(2) by blast
      qed
      then show ?thesis
        unfolding step rest reply_cons_iff pre if_not_P [OF False] if_P [OF True] conj_assoc
        using ih(1,2) by (intro exI [of _ overrun] exI [of _ k']) (simp only: simp_thms)
    qed
  qed
qed

lemma low_bits_odd:
  assumes "odd w"
  shows "w AND 15 \<noteq> (0 :: u16)"
proof
  assume "w AND 15 = 0"
  then have "even (w AND 15)" by simp
  then show False using assms by (simp add: even_and_iff)
qed

lemma set_loop_stops:
  assumes "n \<noteq> 0xFFFF" "2 * k \<le> unat n + 1" "unat n \<le> 2 * k + 2 * length d"
  shows "dissect_set_loop n (of_nat (2 * k)) d
     = Some (concat (map (\<lambda>b. hex8 b @ '' '') (take ((unat n + 1) div 2 - k) d)))"
  using assms
proof (induction d arbitrary: k)
  case Nil
  have "unat n \<noteq> 0xFFFF" using assms(1) by (simp add: word_unat_eq_iff)
  then have "unat n < 0xFFFF" using u16_bound [of n] by simp
  then have "unat (of_nat (2 * k) :: u16) = 2 * k" using Nil by (intro unat_of_nat_less) simp
  then have "\<not> of_nat (2 * k) < n" using Nil by (simp add: word_less_nat_alt)
  then show ?case by (subst dissect_set_loop.simps) simp
next
  case (Cons b d)
  have "unat n \<noteq> 0xFFFF" using assms(1) by (simp add: word_unat_eq_iff)
  then have n: "unat n < 0xFFFF" using u16_bound [of n] by simp
  then have k: "unat (of_nat (2 * k) :: u16) = 2 * k" using Cons.prems by (intro unat_of_nat_less) simp
  show ?case
  proof (cases "of_nat (2 * k) < n")
    case True
    then have lt: "2 * k < unat n" using k by (simp add: word_less_nat_alt)
    have odd: "of_nat (2 * k) + 1 AND 15 \<noteq> (0 :: u16)" by (rule low_bits_odd) simp
    have next_i: "(of_nat (2 * k) + 1 + 1 :: u16) = of_nat (2 * Suc k)" by simp
    have "dissect_set_loop n (of_nat (2 * Suc k)) d
        = Some (concat (map (\<lambda>b. hex8 b @ '' '') (take ((unat n + 1) div 2 - Suc k) d)))"
      using Cons.IH [of "Suc k"] Cons.prems lt by simp
    moreover have "(unat n + 1) div 2 - k = Suc ((unat n + 1) div 2 - Suc k)" using lt by simp
    ultimately show ?thesis
      by (subst dissect_set_loop.simps) (simp only: True odd next_i if_True if_False list.case option.map
          take_Suc_Cons list.map concat.simps append_Nil append_assoc)
  next
    case False
    then have "unat n \<le> 2 * k" using k by (simp add: word_less_nat_alt)
    then have "(unat n + 1) div 2 - k = 0" by simp
    then show ?thesis using False by (subst dissect_set_loop.simps) simp
  qed
qed

lemma set_loop_runs_away: "even i \<Longrightarrow> dissect_set_loop 0xFFFF i d = None"
proof (induction d arbitrary: i)
  have lt: "i < 0xFFFF" if "even i" for i :: u16
  proof -
    have "i \<noteq> 0xFFFF" using that by auto
    then have "unat i \<noteq> 0xFFFF" by (simp add: word_unat_eq_iff)
    then show ?thesis using u16_bound [of i] by (simp add: word_less_nat_alt)
  qed
  {
    case Nil
    then show ?case using lt by (subst dissect_set_loop.simps) simp
  next
    case (Cons b d)
    have "dissect_set_loop 0xFFFF (i + 1 + 1) d = None" using Cons by (intro Cons.IH) (simp add: add.assoc)
    then show ?case using lt [OF Cons.prems]
      by (subst dissect_set_loop.simps) (simp only: if_True list.case option.map)
  }
qed

section \<open>Properties of packet contents\<close>

text \<open>
  C38: On a block with two readable bytes behind the packet the check accepts exactly the packets
  that are the encoding of a list of parameters, and refuses every other one as invalid. Without
  them it may read behind the block: the size of a value is read before anything is known about
  the room left for it.
\<close>

theorem dusb_param_data_check:
  assumes "unat len + 2 \<le> length data" "unat len < 2 ^ 31"
  shows "dusb_check_cmd_data model data len DUSB_VPKT_PARM_DATA =
     valid_if (\<exists>ps. length ps < 65536 \<and> list_all reply_ok ps \<and> take (unat len) data = param_bytes ps)
   \<and> dusb_check_cmd_data model [0, 1, a, b, 0] 5 DUSB_VPKT_PARM_DATA = Some UNDEFINED_BEHAVIOUR"
proof (rule conjI)
  let ?ex = "\<exists>ps. length ps < 65536 \<and> list_all reply_ok ps \<and> take (unat len) data = param_bytes ps"
  show "dusb_check_cmd_data model data len DUSB_VPKT_PARM_DATA = valid_if ?ex"
  proof (cases "2 \<le> unat len")
    case False
    then have "\<not> ?ex" by (auto simp: param_bytes_def Let_def dest: arg_cong [of _ _ length])
    then show ?thesis using False by (simp add: dusb_check_cmd_data_def valid_if_def word_le_nat_alt)
  next
    case True
    then obtain c0 c1 rest slack where data: "data = [c0, c1] @ rest @ slack" "unat len = 2 + length rest"
    proof -
      assume k: "\<And>c0 c1 rest slack. data = [c0, c1] @ rest @ slack \<Longrightarrow> unat len = 2 + length rest \<Longrightarrow> thesis"
      assume l: "2 \<le> unat len"
      obtain c0 c1 d where d: "data = c0 # c1 # d" using assms(1) l by (cases data; cases "tl data") auto
      show thesis
        by (rule k [of c0 c1 "take (unat len - 2) d" "drop (unat len - 2) d"]) (use d assms(1) l in auto)
    qed
    define N where "N = be16 c0 c1"
    have n: "u16_at data 0 = N" using data by (simp add: u16_at_def N_def)
    have Nlt: "unat N < 65536" using u16_bound [of N] by simp
    have tk: "take (unat len) data = c0 # c1 # rest" unfolding data by simp
    have ex: "?ex \<longleftrightarrow> (\<exists>ps. length ps = unat N \<and> list_all reply_ok ps \<and> rest = concat (map reply_bytes ps))"
    proof -
      have "c0 # c1 # rest = param_bytes ps \<and> length ps < 65536
          \<longleftrightarrow> length ps = unat N \<and> rest = concat (map reply_bytes ps)" for ps
      proof
        assume a: "c0 # c1 # rest = param_bytes ps \<and> length ps < 65536"
        then have "N = of_nat (length ps)" by (auto simp: param_bytes_def Let_def N_def be16_MSB_LSB)
        then show "length ps = unat N \<and> rest = concat (map reply_bytes ps)"
          using a unat_of_nat_u16 [of "length ps"] by (simp add: param_bytes_def Let_def)
      next
        assume a: "length ps = unat N \<and> rest = concat (map reply_bytes ps)"
        then show "c0 # c1 # rest = param_bytes ps \<and> length ps < 65536"
          using Nlt by (simp add: param_bytes_def Let_def N_def MSB_be16 LSB_be16)
      qed
      then show ?thesis unfolding tk by blast
    qed
    have len2: "2 \<le> len" using True by (simp add: word_le_nat_alt)
    show ?thesis
    proof (cases "3 * unat N \<le> length rest")
      case False
      then have "len < 2 + 3 * ucast N" using unat_total [of 0 N] data by (simp add: word_less_nat_alt)
      moreover have "\<not> ?ex" unfolding ex using False by (metis replies_length)
      ultimately show ?thesis using n len2
        by (simp add: dusb_check_cmd_data_def check_param_data_def Let_def valid_if_def)
    next
      case True
      then have "\<not> len < 2 + 3 * ucast N" using unat_total [of 0 N] data by (simp add: word_less_nat_alt)
      moreover have "2 \<le> length slack" "unat len = length [c0, c1] + length rest"
        using data assms(1) by simp_all
      note check_params_iff [OF data(1) this assms(2), of "unat N" N 0]
      then obtain overrun k' where "check_params data len N (unat N) 2 0 = Inr (overrun, k')"
          "\<not> overrun \<and> len = 2 + 3 * ucast N + k' \<longleftrightarrow> ?ex"
        unfolding ex using True by (auto simp: numeral_2_eq_2)
      ultimately show ?thesis using n len2
        by (simp add: dusb_check_cmd_data_def check_param_data_def Let_def valid_if_def)
    qed
  qed
  show "dusb_check_cmd_data model [0, 1, a, b, 0] 5 DUSB_VPKT_PARM_DATA = Some UNDEFINED_BEHAVIOUR"
    by (simp add: dusb_check_cmd_data_def check_param_data_def u16_at_def Let_def be16_def)
qed

lemma dusb_param_data_check_witness:
  "dusb_check_cmd_data CALC_TI84P_USB [0, 1, 0, 8, 1, 0, 0] 5 DUSB_VPKT_PARM_DATA = None"
proof -
  have "take 5 [0, 1, 0, 8, 1, 0, 0] = param_bytes [(8, 1, [])]"
    by (simp add: param_bytes_def Let_def MSB_def LSB_def)
  then show ?thesis
    using dusb_param_data_check [of 5 "[0, 1, 0, 8, 1, 0, 0]" CALC_TI84P_USB]
    by (force simp: valid_if_def split: if_splits)
qed

text \<open>
  The dissector of a parameter to be set prints the first half of the value only, and never a
  line break, because the counter is incremented twice in a round. With a value of 65535 bytes the
  16-bit counter jumps over the end for ever and the loop leaves every block.
\<close>

theorem dusb_dissect_set_counter:
  assumes "4 < unat len" "unat len \<le> length data" "unat len = 4 + unat n" "n = u16_at data 2"
  shows "dusb_dissect_cmd_data model data len DUSB_VPKT_PARM_SET =
     (if n = 0xFFFF then (Some UNDEFINED_BEHAVIOUR, [])
      else (None, set_heading n (u16_at data 0) @ concat (map (\<lambda>b. hex8 b @ '' '') (take ((unat n + 1) div 2) (drop 4 data)))))"
proof -
  have "unat n < 65536" using u16_bound [of n] by simp
  then have "unat (4 + ucast n :: u32) = 4 + unat n" using unat_of_nat_less [of "4 + unat n", where 'a = 32] by simp
  then have ok: "4 < len \<and> len = 4 + ucast n" using assms(1,3) by (simp add: word_less_nat_alt word_unat_eq_iff)
  have "dissect_set_loop n 0 (drop 4 data) =
      (if n = 0xFFFF then None else Some (concat (map (\<lambda>b. hex8 b @ '' '') (take ((unat n + 1) div 2) (drop 4 data)))))"
    using set_loop_stops [of n 0 "drop 4 data"] set_loop_runs_away [of 0 "drop 4 data"] assms(1-3) by auto
  moreover have "dusb_check_cmd_data model data len DUSB_VPKT_PARM_SET = None"
    using ok [THEN conjunct1] ok [THEN conjunct2]
    by (simp only: dusb_check_cmd_data_def valid_if_def assms(4) [symmetric]) simp
  moreover have "dissect_text model data len DUSB_VPKT_PARM_SET
      = map_option (\<lambda>t. set_heading n (u16_at data 0) @ t) (dissect_set_loop n 0 (drop 4 data))"
    by (simp add: dissect_text_def Let_def assms(4))
  ultimately show ?thesis by (simp add: dusb_dissect_cmd_data_def)
qed

lemma dusb_dissect_set_counter_witness:
  "snd (dusb_dissect_cmd_data CALC_TI84P_USB [0, 0x30, 0, 2, 7, 8] 6 DUSB_VPKT_PARM_SET)
     = set_heading 2 0x30 @ hex8 7 @ '' ''"
proof -
  have n: "u16_at [0, 0x30, 0, 2, 7, 8] 2 = 2" "u16_at [0, 0x30, 0, 2, 7, 8] 0 = 0x30"
    by (simp_all add: u16_at_def be16_def)
  let ?d = "[0, 0x30, 0, 2, 7, 8] :: bytes"
  have "dusb_dissect_cmd_data CALC_TI84P_USB ?d 6 DUSB_VPKT_PARM_SET =
     (if (2 :: u16) = 0xFFFF then (Some UNDEFINED_BEHAVIOUR, [])
      else (None, set_heading 2 (u16_at ?d 0)
              @ concat (map (\<lambda>b. hex8 b @ '' '') (take ((unat (2 :: u16) + 1) div 2) (drop 4 ?d)))))"
    by (rule dusb_dissect_set_counter) (simp_all add: n)
  then show ?thesis by (simp add: n(2))
qed

end
