(* ===== verification/DusbCmd.thy ===== *)
theory DusbCmd
  imports DusbParam
begin

text \<open>
  The commands of the direct USB protocol, \<^verbatim>\<open>libticalcs/trunk/src/dusb_cmd.cc\<close>: building a
  virtual packet and sending it, receiving one and taking it apart, the answers that report an
  error or a delay, and the renegotiation of the mode after a protocol error. The pauses
  themselves are not modelled.
\<close>

section \<open>Writing into a packet\<close>

text \<open>
  A block and the index \<open>j\<close> of the next byte. Writing outside of the block gives \<open>None\<close>. The
  block has six bytes more than the packet, as \<open>dusb_vtl_pkt_alloc_data\<close> allocates them.
\<close>

type_synonym cursor = "(bytes \<times> nat) option"

definition put :: "bytes \<Rightarrow> cursor \<Rightarrow> cursor" where
  "put bs c = Option.bind c (\<lambda>(buf, j). map_option (\<lambda>buf. (buf, j + length bs)) (memcpy_at buf j bs))"

text \<open>Copy without moving the index.\<close>

definition put_stay :: "bytes \<Rightarrow> cursor \<Rightarrow> cursor" where
  "put_stay bs c = Option.bind c (\<lambda>(buf, j). map_option (\<lambda>buf. (buf, j)) (memcpy_at buf j bs))"

definition fresh :: "u32 \<Rightarrow> cursor" where
  "fresh pks = Some (dusb_vtl_pkt_alloc_data (unat pks), 0)"

definition send_filled ::
    "'d calc_env \<Rightarrow> u32 \<Rightarrow> u16 \<Rightarrow> cursor \<Rightarrow> 'd calc_handle \<Rightarrow> ret \<times> 'd calc_handle" where
  "send_filled E pks ty c h =
     (case c of None \<Rightarrow> (Some UNDEFINED_BEHAVIOUR, h)
      | Some (buf, j) \<Rightarrow> dusb_send_data E (dusb_vtl_pkt_new_ex pks ty (Some (take (unat pks) buf))) h)"

text \<open>A string with its length and terminator; a 16-bit and a 32-bit number; an attribute.\<close>

definition put_name :: "bytes \<Rightarrow> cursor \<Rightarrow> cursor" where
  "put_name s c = put (s @ [0]) (put [of_nat (length s)] c)"

definition put_folder :: "bytes \<Rightarrow> cursor \<Rightarrow> cursor" where
  "put_folder s c = (if s \<noteq> [] then put_name s c else put [0] c)"

definition put16 :: "'a::len word \<Rightarrow> cursor \<Rightarrow> cursor" where
  "put16 w = put [MSB w, LSB w]"

definition put32 :: "u32 \<Rightarrow> cursor \<Rightarrow> cursor" where
  "put32 w = put [MSB (MSW w), LSB (MSW w), MSB (LSW w), LSB (LSW w)]"

definition param_value :: "dusb_param \<Rightarrow> bytes option" where
  "param_value p =
     (case dp_data p of None \<Rightarrow> (if dp_size p = 0 then Some [] else None)
      | Some d \<Rightarrow> memcpy_from d 0 (unat (dp_size p)))"

definition put_attribute :: "dusb_param \<Rightarrow> cursor \<Rightarrow> cursor" where
  "put_attribute p c =
     Option.bind (param_value p) (\<lambda>d. put d (put16 (dp_size p) (put16 (dp_id p) c)))"

definition put_attributes :: "nat \<Rightarrow> dusb_param list \<Rightarrow> cursor \<Rightarrow> cursor" where
  "put_attributes n attrs c = fold put_attribute attrs (put16 (of_nat n :: u32) c)"

definition attributes_size :: "dusb_param list \<Rightarrow> u32 \<Rightarrow> u32" where
  "attributes_size attrs pks = fold (\<lambda>p pks. pks + (4 + ucast (dp_size p))) attrs pks"

text \<open>
  The first \<open>n\<close> elements of an array argument, \<open>None\<close> when it has fewer; the null pointer is
  \<open>None\<close> as an argument.
\<close>

definition elements :: "nat \<Rightarrow> 'a list option \<Rightarrow> 'a list option" where
  "elements n arr = (let xs = (case arr of None \<Rightarrow> [] | Some xs \<Rightarrow> xs) in if n \<le> length xs then Some (take n xs) else None)"

section \<open>Receiving a packet\<close>

text \<open>
  \<open>dusb_recv_data\<close> followed by \<^verbatim>\<open>CATCH_DELAY\<close>: after the announcement of a delay another packet
  is received in its place.
\<close>

definition catch_delay ::
    "('d calc_handle \<Rightarrow> (ret \<times> dusb_vtl \<times> 'd calc_handle) option) \<Rightarrow> 'd calc_handle
       \<Rightarrow> (ret \<times> dusb_vtl \<times> 'd calc_handle) option" where
  "catch_delay receive h =
     (case receive h of
        Some (None, pkt, h) \<Rightarrow>
          if vt_type pkt = DUSB_VPKT_DELAY_ACK then
            (if length (vtl_bytes pkt) < 4 then Some (Some UNDEFINED_BEHAVIOUR, pkt, h) else receive h)
          else Some (None, pkt, h)
      | x \<Rightarrow> x)"

definition dusb_handle_error_packet :: "dusb_vtl \<Rightarrow> 'd calc_handle \<Rightarrow> ret \<times> 'd calc_handle" where
  "dusb_handle_error_packet pkt h =
     (if length (vtl_bytes pkt) < 2 then (Some UNDEFINED_BEHAVIOUR, h)
      else
        (let raw = u16_at (vtl_bytes pkt) 0;
             h = (if raw = 0xCCCC \<or> raw = 0xCCCD then h
                  else if dusb_error_code_is_protocol raw then h\<lparr>kh_needs_mode_set := True\<rparr> else h)
         in (Some (ERR_CALC_ERROR2 (usb_err_code raw)), h)))"

text \<open>
  The common shape of the receiving commands: \<open>x\<close> is what the caller's variables are left with
  when the packet is not the one expected.
\<close>

definition expect ::
    "('d calc_handle \<Rightarrow> (ret \<times> dusb_vtl \<times> 'd calc_handle) option) \<Rightarrow> u16 \<Rightarrow> 'x
       \<Rightarrow> (dusb_vtl \<Rightarrow> 'd calc_handle \<Rightarrow> ret \<times> 'x \<times> 'd calc_handle) \<Rightarrow> 'd calc_handle
       \<Rightarrow> (ret \<times> 'x \<times> 'd calc_handle) option" where
  "expect receive ty x k h =
     (case receive h of
        None \<Rightarrow> None
      | Some (Some e, _, h) \<Rightarrow> Some (Some e, x, h)
      | Some (None, pkt, h) \<Rightarrow>
          Some (if vt_type pkt = DUSB_VPKT_ERROR
                then (let (r, h) = dusb_handle_error_packet pkt h in (r, x, h))
                else if vt_type pkt \<noteq> ty then (Some ERR_INVALID_PACKET, x, h)
                else k pkt h))"

definition receive_new :: "nat \<Rightarrow> 'd calc_env \<Rightarrow> 'd calc_handle \<Rightarrow> (ret \<times> dusb_vtl \<times> 'd calc_handle) option" where
  "receive_new fuel E = dusb_recv_data fuel E dusb_vtl_pkt_new"

text \<open>Commands that deliver nothing.\<close>

definition expect_only ::
    "nat \<Rightarrow> 'd calc_env \<Rightarrow> u16 \<Rightarrow> ('d calc_handle \<Rightarrow> 'd calc_handle) \<Rightarrow> 'd calc_handle \<Rightarrow> (ret \<times> 'd calc_handle) option" where
  "expect_only fuel E ty f h =
     map_option (\<lambda>(r, _, h). (r, h)) (expect (catch_delay (receive_new fuel E)) ty () (\<lambda>pkt h. (None, (), f h)) h)"

section \<open>The mode\<close>

record dusb_mode =
  arg1 :: u16  arg2 :: u16  arg3 :: u16  arg4 :: u16  arg5 :: u16

definition DUSB_MODE_STARTUP :: dusb_mode where "DUSB_MODE_STARTUP = \<lparr>arg1 = 1, arg2 = 1, arg3 = 0, arg4 = 0, arg5 = 0x07d0\<rparr>"
definition DUSB_MODE_BASIC :: dusb_mode where "DUSB_MODE_BASIC = \<lparr>arg1 = 2, arg2 = 1, arg3 = 0, arg4 = 0, arg5 = 0x07d0\<rparr>"
definition DUSB_MODE_NORMAL :: dusb_mode where "DUSB_MODE_NORMAL = \<lparr>arg1 = 3, arg2 = 1, arg3 = 0, arg4 = 0, arg5 = 0x07d0\<rparr>"

definition mode_bytes :: "dusb_mode \<Rightarrow> cursor \<Rightarrow> cursor" where
  "mode_bytes m c = put16 (arg5 m) (put16 (arg4 m) (put16 (arg3 m) (put16 (arg2 m) (put16 (arg1 m) c))))"

definition dusb_cmd_s_mode_set :: "'d calc_env \<Rightarrow> dusb_mode \<Rightarrow> 'd calc_handle \<Rightarrow> ret \<times> 'd calc_handle" where
  "dusb_cmd_s_mode_set E m h =
     andthen (dusb_send_buf_size_request E 1024 h) (\<lambda>h.
       (let (r, _, h) = dusb_recv_buf_size_alloc E None h
        in andthen (r, h) (send_filled E 10 DUSB_VPKT_PING (mode_bytes m (fresh 10)))))"

definition dusb_cmd_r_mode_ack :: "nat \<Rightarrow> 'd calc_env \<Rightarrow> 'd calc_handle \<Rightarrow> (ret \<times> 'd calc_handle) option" where
  "dusb_cmd_r_mode_ack fuel E = expect_only fuel E DUSB_VPKT_MODE_SET (\<lambda>h. h\<lparr>kh_needs_mode_set := False\<rparr>)"

definition set_mode :: "nat \<Rightarrow> 'd calc_env \<Rightarrow> dusb_mode \<Rightarrow> 'd calc_handle \<Rightarrow> (ret \<times> 'd calc_handle) option" where
  "set_mode fuel E m h =
     (case dusb_cmd_s_mode_set E m h of
        (Some e, h) \<Rightarrow> Some (Some e, h)
      | (None, h) \<Rightarrow> dusb_cmd_r_mode_ack fuel E h)"

definition dusb_cmd_resync_if_needed :: "nat \<Rightarrow> 'd calc_env \<Rightarrow> 'd calc_handle \<Rightarrow> (ret \<times> 'd calc_handle) option" where
  "dusb_cmd_resync_if_needed fuel E h =
     (if \<not> kh_needs_mode_set h then Some (None, h)
      else Option.bind (set_mode fuel E DUSB_MODE_NORMAL h) (\<lambda>(r, h).
             map_option (\<lambda>(r, h). (r, if r = None then h\<lparr>kh_needs_mode_set := False\<rparr> else h))
               (if r = None then Some (r, h) else set_mode fuel E DUSB_MODE_BASIC h)))"

text \<open>The macro at the start of most of the sending commands.\<close>

definition resynced ::
    "nat \<Rightarrow> 'd calc_env \<Rightarrow> ('d calc_handle \<Rightarrow> ret \<times> 'd calc_handle) \<Rightarrow> 'd calc_handle
       \<Rightarrow> (ret \<times> 'd calc_handle) option" where
  "resynced fuel E k h = map_option (\<lambda>rh. andthen rh k) (dusb_cmd_resync_if_needed fuel E h)"

definition refuse :: "errcode \<Rightarrow> 'd calc_handle \<Rightarrow> (ret \<times> 'd calc_handle) option" where
  "refuse e h = Some (Some e, h)"

section \<open>Commands: operating system\<close>

definition dusb_cmd_s_os_begin :: "nat \<Rightarrow> 'd calc_env \<Rightarrow> u32 \<Rightarrow> 'd calc_handle \<Rightarrow> (ret \<times> 'd calc_handle) option" where
  "dusb_cmd_s_os_begin fuel E n =
     resynced fuel E (send_filled E 11 DUSB_VPKT_OS_BEGIN (put32 n (Some (dusb_vtl_pkt_alloc_data 11, 7))))"

text \<open>The value is the caller's \<open>*size\<close>, \<open>None\<close> when it passes the null pointer.\<close>

definition dusb_cmd_r_os_ack ::
    "nat \<Rightarrow> 'd calc_env \<Rightarrow> u32 option \<Rightarrow> 'd calc_handle \<Rightarrow> (ret \<times> u32 option \<times> 'd calc_handle) option" where
  "dusb_cmd_r_os_ack fuel E out =
     expect (catch_delay (receive_new fuel E)) DUSB_VPKT_OS_ACK out (\<lambda>pkt h.
       (let d = vtl_bytes pkt in
        if out = None then (None, None, h)
        else if length d < 4 then (Some UNDEFINED_BEHAVIOUR, out, h)
        else (None, Some (be32 (d ! 0) (d ! 1) (d ! 2) (d ! 3)), h)))"

text \<open>
  \<open>n\<close> bytes of the caller's data behind a header; the size is a 32-bit sum. \<open>None\<close> is the null
  pointer.
\<close>

definition put_data :: "u32 \<Rightarrow> bytes \<Rightarrow> cursor \<Rightarrow> cursor" where
  "put_data n data c = Option.bind (memcpy_from data 0 (unat n)) (\<lambda>d. put d c)"

definition s_os ::
    "'d calc_env \<Rightarrow> u16 \<Rightarrow> u16 \<Rightarrow> u8 \<Rightarrow> u8 \<Rightarrow> u32 \<Rightarrow> bytes option \<Rightarrow> 'd calc_handle \<Rightarrow> ret \<times> 'd calc_handle" where
  "s_os E ty addr page flag n data h =
     (case data of None \<Rightarrow> (Some ERR_INVALID_PARAMETER, h)
      | Some d \<Rightarrow> send_filled E (4 + n) ty (put_data n d (put [page, flag] (put16 addr (fresh (4 + n))))) h)"

definition dusb_cmd_s_os_header ::
    "'d calc_env \<Rightarrow> u16 \<Rightarrow> u8 \<Rightarrow> u8 \<Rightarrow> u32 \<Rightarrow> bytes option \<Rightarrow> 'd calc_handle \<Rightarrow> ret \<times> 'd calc_handle" where
  "dusb_cmd_s_os_header E = s_os E DUSB_VPKT_OS_HEADER"

definition dusb_cmd_s_os_data ::
    "'d calc_env \<Rightarrow> u16 \<Rightarrow> u8 \<Rightarrow> u8 \<Rightarrow> u32 \<Rightarrow> bytes option \<Rightarrow> 'd calc_handle \<Rightarrow> ret \<times> 'd calc_handle" where
  "dusb_cmd_s_os_data E = s_os E DUSB_VPKT_OS_DATA"

definition dusb_cmd_s_os_header_89 ::
    "nat \<Rightarrow> 'd calc_env \<Rightarrow> u32 \<Rightarrow> bytes option \<Rightarrow> 'd calc_handle \<Rightarrow> (ret \<times> 'd calc_handle) option" where
  "dusb_cmd_s_os_header_89 fuel E n data =
     (case data of None \<Rightarrow> refuse ERR_INVALID_PARAMETER
      | Some d \<Rightarrow> resynced fuel E (send_filled E n DUSB_VPKT_OS_HEADER (put_data n d (fresh n))))"

definition dusb_cmd_s_os_data_89 ::
    "nat \<Rightarrow> 'd calc_env \<Rightarrow> u32 \<Rightarrow> bytes option \<Rightarrow> 'd calc_handle \<Rightarrow> (ret \<times> 'd calc_handle) option" where
  "dusb_cmd_s_os_data_89 fuel E n data =
     (case data of None \<Rightarrow> refuse ERR_INVALID_PARAMETER
      | Some d \<Rightarrow> resynced fuel E (send_filled E n DUSB_VPKT_OS_DATA (put_data n d (fresh n))))"

definition dusb_cmd_s_os_data_834pce ::
    "nat \<Rightarrow> 'd calc_env \<Rightarrow> u32 \<Rightarrow> u32 \<Rightarrow> bytes option \<Rightarrow> 'd calc_handle \<Rightarrow> (ret \<times> 'd calc_handle) option" where
  "dusb_cmd_s_os_data_834pce fuel E addr n data =
     (case data of None \<Rightarrow> refuse ERR_INVALID_PARAMETER
      | Some d \<Rightarrow> resynced fuel E (send_filled E (4 + n) DUSB_VPKT_OS_DATA (put_data n d
          (put [ucast (addr AND 0xFF), ucast (drop_bit 8 addr AND 0xFF), ucast (drop_bit 16 addr AND 0xFF),
                ucast (drop_bit 24 addr AND 0xFF)] (fresh (4 + n))))))"

definition dusb_cmd_r_eot_ack :: "nat \<Rightarrow> 'd calc_env \<Rightarrow> 'd calc_handle \<Rightarrow> (ret \<times> 'd calc_handle) option" where
  "dusb_cmd_r_eot_ack fuel E = expect_only fuel E DUSB_VPKT_EOT_ACK (\<lambda>h. h)"

section \<open>Commands: parameters\<close>

definition dusb_cmd_s_param_request ::
    "nat \<Rightarrow> 'd calc_env \<Rightarrow> nat \<Rightarrow> u16 list option \<Rightarrow> 'd calc_handle \<Rightarrow> (ret \<times> 'd calc_handle) option" where
  "dusb_cmd_s_param_request fuel E npids pids =
     (if npids \<noteq> 0 \<and> pids = None then refuse ERR_INVALID_PARAMETER
      else resynced fuel E
        (let pks = 2 + of_nat npids * 2 in
         send_filled E pks DUSB_VPKT_PARM_REQ
           (Option.bind (elements npids pids) (\<lambda>ids. fold put16 ids (put16 (of_nat npids :: u32) (fresh pks))))))"

text \<open>
  Reading one parameter or attribute at index \<open>j\<close>: the structure, and the index behind it.
  Reading behind the packet gives \<open>None\<close>.
\<close>

definition read_param :: "bytes \<Rightarrow> nat \<Rightarrow> (dusb_param \<times> nat) option" where
  "read_param d j =
     (if length d < j + 3 then None
      else
        (let p = (dusb_cp_new 0 0)\<lparr>dp_id := u16_at d j, dp_ok := d ! (j + 2) = 0\<rparr>; j = j + 3
         in if \<not> dp_ok p then Some (p, j)
            else if length d < j + 2 then None
            else
              (let n = u16_at d j; j = j + 2
               in map_option (\<lambda>v. (p\<lparr>dp_size := n, dp_data := (if n = 0 then None else Some v)\<rparr>, j + unat n))
                    (memcpy_from d j (unat n)))))"

fun read_params :: "bytes \<Rightarrow> nat \<Rightarrow> nat \<Rightarrow> dusb_param list option" where
  "read_params d j 0 = Some []"
| "read_params d j (Suc n) =
     Option.bind (read_param d j) (\<lambda>(p, j). map_option ((#) p) (read_params d j n))"

text \<open>The array of the caller is \<open>None\<close> as long as it has not been written.\<close>

definition params_from :: "u32 \<Rightarrow> bytes \<Rightarrow> ret \<times> dusb_param list option" where
  "params_from nparams d =
     (if length d < 2 then (Some UNDEFINED_BEHAVIOUR, None)
      else if ucast (u16_at d 0) \<noteq> nparams then (Some ERR_INVALID_PACKET, None)
      else (case read_params d 2 (unat nparams) of
              None \<Rightarrow> (Some UNDEFINED_BEHAVIOUR, None)
            | Some ps \<Rightarrow> (None, Some ps)))"

definition dusb_cmd_r_param_data ::
    "nat \<Rightarrow> 'd calc_env \<Rightarrow> u32 \<Rightarrow> 'd calc_handle \<Rightarrow> (ret \<times> dusb_param list option \<times> 'd calc_handle) option" where
  "dusb_cmd_r_param_data fuel E nparams =
     expect (catch_delay (receive_new fuel E)) DUSB_VPKT_PARM_DATA None (\<lambda>pkt h.
       (let (r, ps) = params_from nparams (vtl_bytes pkt) in (r, ps, h)))"

text \<open>
  The screenshot of a TI-84 Plus C comes as the value of one parameter; it is received with an
  estimated size, and the declared one is not compared. \<^verbatim>\<open>g_memdup\<close> of nothing is the null
  pointer; the size of the copy is computed on 32 bits.
\<close>

definition dusb_cmd_r_screenshot ::
    "nat \<Rightarrow> 'd calc_env \<Rightarrow> 'd calc_handle \<Rightarrow> (ret \<times> (u32 \<times> bytes option) option \<times> 'd calc_handle) option" where
  "dusb_cmd_r_screenshot fuel E =
     expect (catch_delay (\<lambda>h. map_option (\<lambda>(r, (vtl, _), h). (r, vtl, h))
               (dusb_recv_data_varsize fuel E dusb_vtl_pkt_new 0 153600 h)))
       DUSB_VPKT_PARM_DATA None (\<lambda>pkt h.
       (let d = vtl_bytes pkt in
        if length d < 5 then (Some UNDEFINED_BEHAVIOUR, None, h)
        else if u16_at d 0 \<noteq> 1 \<or> u16_at d 2 \<noteq> 0x0022 \<or> d ! 4 \<noteq> 0 then (Some ERR_INVALID_PACKET, None, h)
        else (let n = vt_size pkt - 7 in
              case memcpy_from d 7 (unat n) of
                None \<Rightarrow> (Some UNDEFINED_BEHAVIOUR, None, h)
              | Some v \<Rightarrow> (None, Some (n, if n = 0 then None else Some v), h))))"

definition dusb_cmd_s_param_set ::
    "nat \<Rightarrow> 'd calc_env \<Rightarrow> dusb_param option \<Rightarrow> 'd calc_handle \<Rightarrow> (ret \<times> 'd calc_handle) option" where
  "dusb_cmd_s_param_set fuel E param =
     (case param of None \<Rightarrow> refuse ERR_INVALID_PARAMETER
      | Some p \<Rightarrow> resynced fuel E
          (let pks = 2 + 2 + ucast (dp_size p) in
           send_filled E pks DUSB_VPKT_PARM_SET
             (Option.bind (param_value p) (\<lambda>v. put v (put16 (dp_size p) (put16 (dp_id p) (fresh pks)))))))"

section \<open>Commands: variables\<close>

definition dusb_cmd_s_dirlist_request ::
    "nat \<Rightarrow> 'd calc_env \<Rightarrow> nat \<Rightarrow> u16 list option \<Rightarrow> 'd calc_handle \<Rightarrow> (ret \<times> 'd calc_handle) option" where
  "dusb_cmd_s_dirlist_request fuel E naids aids =
     (if naids \<noteq> 0 \<and> aids = None then refuse ERR_INVALID_PARAMETER
      else resynced fuel E
        (let pks = 4 + 2 * of_nat naids + 7 in
         send_filled E pks DUSB_VPKT_DIR_REQ
           (put [0x00, 0x01, 0x00, 0x01, 0x00, 0x01, 0x01]
             (Option.bind (elements naids aids) (\<lambda>ids. fold put16 ids (put32 (of_nat naids) (fresh pks)))))))"

text \<open>
  A received name: a length byte and, when it is not zero, as many characters and a terminator,
  copied to the caller's array. The result is the array and the index behind.
\<close>

definition read_name :: "bytes \<Rightarrow> nat \<Rightarrow> bytes \<Rightarrow> (bytes \<times> nat) option" where
  "read_name d j out =
     (if length d < j + 1 then None
      else (let n = unat (d ! j); j = j + 1
            in if n = 0 then Some (out, j)
               else map_option (\<lambda>out. (out, j + n + 1)) (memcpy out 0 d j (n + 1))))"

text \<open>\<open>attrs\<close> is how many pointers the caller's array has room for.\<close>

definition read_var_header ::
    "bytes \<Rightarrow> bytes \<Rightarrow> bytes \<Rightarrow> nat \<Rightarrow> (bytes \<times> bytes \<times> dusb_param list) option" where
  "read_var_header d folder name attrs =
     Option.bind (read_name d 0 folder) (\<lambda>(folder, j).
     Option.bind (read_name d j name) (\<lambda>(name, j).
       if length d < j + 2 then None
       else (let n = unat (u16_at d j)
             in if attrs < n then None
                else map_option (\<lambda>ps. (folder, name, ps)) (read_params d (j + 2) n))))"

definition dusb_cmd_r_var_header ::
    "nat \<Rightarrow> 'd calc_env \<Rightarrow> bytes option \<Rightarrow> bytes option \<Rightarrow> nat \<Rightarrow> 'd calc_handle
       \<Rightarrow> (ret \<times> (bytes \<times> bytes \<times> dusb_param list) option \<times> 'd calc_handle) option" where
  "dusb_cmd_r_var_header fuel E folder name attrs h =
     (case (folder, name) of
        (Some folder, Some name) \<Rightarrow>
          if folder = [] \<or> name = [] then Some (Some UNDEFINED_BEHAVIOUR, None, h)
          else
            (let folder = folder[0 := 0]; name = name[0 := 0]
             in case catch_delay (receive_new fuel E) h of
                  None \<Rightarrow> None
                | Some (None, pkt, h') \<Rightarrow>
                    if vt_type pkt = DUSB_VPKT_EOT then Some (Some ERR_EOT, Some (folder, name, []), h')
                    else expect (\<lambda>h. Some (None, pkt, h')) DUSB_VPKT_VAR_HDR (Some (folder, name, [])) (\<lambda>pkt h.
                      (case read_var_header (vtl_bytes pkt) folder name attrs of
                         None \<Rightarrow> (Some UNDEFINED_BEHAVIOUR, None, h)
                       | Some x \<Rightarrow> (None, Some x, h))) h'
                | Some (Some e, pkt, h') \<Rightarrow> Some (Some e, Some (folder, name, []), h'))
      | _ \<Rightarrow> Some (Some ERR_INVALID_PARAMETER, None, h))"

text \<open>
  Room for a name that is not empty. The packets are described by their size, a 32-bit sum, and
  by what is written into the block.
\<close>

definition name_size :: "bytes \<Rightarrow> u32 \<Rightarrow> u32" where
  "name_size s pks = (if s \<noteq> [] then pks + (of_nat (length s) + 1) else pks)"

definition rts_size :: "bytes \<Rightarrow> bytes \<Rightarrow> dusb_param list \<Rightarrow> u32" where
  "rts_size wire_folder wire_name as =
     attributes_size as (name_size wire_folder (2 + of_nat (length wire_name) + 1 + 5 + 2))"

definition rts_block ::
    "bytes \<Rightarrow> bytes \<Rightarrow> bytes \<Rightarrow> bytes \<Rightarrow> u32 \<Rightarrow> u8 \<Rightarrow> nat \<Rightarrow> dusb_param list \<Rightarrow> cursor \<Rightarrow> cursor" where
  "rts_block wire_folder wire_name folder name n modeflag nattrs as c =
     (let c = (if wire_folder \<noteq> []
               then put (take (length wire_folder + 1) (folder @ [0])) (put [of_nat (length wire_folder)] c)
               else put [0] c);
          c = put (take (length wire_name + 1) (name @ [0])) (put [of_nat (length wire_name)] c);
          c = put [modeflag] (put32 n c)
      in put_attributes nattrs as c)"

text \<open>
  A request to send. Sizes are those of the normalised names; the bytes that are copied are
  those of the names as the caller passed them.
\<close>

definition dusb_cmd_s_rts2 ::
    "nat \<Rightarrow> 'd calc_env \<Rightarrow> bytes option \<Rightarrow> bytes option \<Rightarrow> u32 \<Rightarrow> nat \<Rightarrow> dusb_param list option \<Rightarrow> u8
       \<Rightarrow> 'd calc_handle \<Rightarrow> (ret \<times> 'd calc_handle) option" where
  "dusb_cmd_s_rts2 fuel E folder name n nattrs attrs modeflag =
     (case (folder, name) of
        (Some folder, Some name) \<Rightarrow>
          if nattrs \<noteq> 0 \<and> attrs = None then refuse ERR_INVALID_PARAMETER
          else resynced fuel E (\<lambda>h.
            (let wire_folder = dusb_normalize_name_for_send (kh_model h) folder;
                 wire_name = dusb_normalize_name_for_send (kh_model h) name
             in case elements nattrs attrs of
                  None \<Rightarrow> (Some UNDEFINED_BEHAVIOUR, h)
                | Some as \<Rightarrow>
                    (let pks = rts_size wire_folder wire_name as
                     in send_filled E pks DUSB_VPKT_RTS
                          (rts_block wire_folder wire_name folder name n modeflag nattrs as (fresh pks)) h)))
      | _ \<Rightarrow> refuse ERR_INVALID_PARAMETER)"

definition dusb_cmd_s_rts ::
    "nat \<Rightarrow> 'd calc_env \<Rightarrow> bytes option \<Rightarrow> bytes option \<Rightarrow> u32 \<Rightarrow> nat \<Rightarrow> dusb_param list option
       \<Rightarrow> 'd calc_handle \<Rightarrow> (ret \<times> 'd calc_handle) option" where
  "dusb_cmd_s_rts fuel E folder name n nattrs attrs = dusb_cmd_s_rts2 fuel E folder name n nattrs attrs 0x01"

definition dusb_cmd_s_rts_ns ::
    "nat \<Rightarrow> 'd calc_env \<Rightarrow> bytes option \<Rightarrow> bytes option \<Rightarrow> u32 \<Rightarrow> nat \<Rightarrow> dusb_param list option
       \<Rightarrow> 'd calc_handle \<Rightarrow> (ret \<times> 'd calc_handle) option" where
  "dusb_cmd_s_rts_ns fuel E folder name n nattrs attrs = dusb_cmd_s_rts2 fuel E folder name n nattrs attrs 0x02"

definition var_request_size :: "bytes \<Rightarrow> bytes \<Rightarrow> nat \<Rightarrow> dusb_param list \<Rightarrow> u32" where
  "var_request_size folder name naids as =
     attributes_size as (name_size folder (2 + of_nat (length name) + 1 + 5 + 2 + 2 * of_nat naids + 2)) + 2"

definition var_request_block ::
    "bytes \<Rightarrow> bytes \<Rightarrow> nat \<Rightarrow> u16 list \<Rightarrow> nat \<Rightarrow> dusb_param list \<Rightarrow> cursor \<Rightarrow> cursor" where
  "var_request_block folder name naids ids nattrs as c =
     (let c = put_name name (put_folder folder c);
          c = put [0x01, 0xFF, 0xFF, 0xFF, 0xFF] c;
          c = fold put16 ids (put16 (of_nat naids :: u32) c)
      in put [0x00, 0x00] (put_attributes nattrs as c))"

definition dusb_cmd_s_var_request ::
    "nat \<Rightarrow> 'd calc_env \<Rightarrow> bytes option \<Rightarrow> bytes option \<Rightarrow> nat \<Rightarrow> u16 list option \<Rightarrow> nat \<Rightarrow> dusb_param list option
       \<Rightarrow> 'd calc_handle \<Rightarrow> (ret \<times> 'd calc_handle) option" where
  "dusb_cmd_s_var_request fuel E folder name naids aids nattrs attrs =
     (case (folder, name) of
        (Some folder, Some name) \<Rightarrow>
          if naids \<noteq> 0 \<and> aids = None \<or> nattrs \<noteq> 0 \<and> attrs = None then refuse ERR_INVALID_PARAMETER
          else resynced fuel E (\<lambda>h.
            (case (elements naids aids, elements nattrs attrs) of
               (Some ids, Some as) \<Rightarrow>
                 (let pks = var_request_size folder name naids as
                  in send_filled E pks DUSB_VPKT_VAR_REQ
                       (var_request_block folder name naids ids nattrs as (fresh pks)) h)
             | _ \<Rightarrow> (Some UNDEFINED_BEHAVIOUR, h)))
      | _ \<Rightarrow> refuse ERR_INVALID_PARAMETER)"

text \<open>
  The contents of a variable. The value is what \<^verbatim>\<open>*size\<close> and \<^verbatim>\<open>*data\<close> are set to; an empty
  allocation is the null pointer, and taken for a lack of memory.
\<close>

definition content_from :: "dusb_vtl \<Rightarrow> ret \<times> (u32 \<times> bytes option) option" where
  "content_from pkt =
     (case g_malloc0 (unat (vt_size pkt)) of
        None \<Rightarrow> (Some ERR_MALLOC, Some (vt_size pkt, None))
      | Some data \<Rightarrow>
          (case memcpy data 0 (vtl_bytes pkt) 0 (unat (vt_size pkt)) of
             None \<Rightarrow> (Some UNDEFINED_BEHAVIOUR, None)
           | Some data \<Rightarrow> (None, Some (vt_size pkt, Some data))))"

definition dusb_cmd_r_var_content ::
    "nat \<Rightarrow> 'd calc_env \<Rightarrow> 'd calc_handle \<Rightarrow> (ret \<times> (u32 \<times> bytes option) option \<times> 'd calc_handle) option" where
  "dusb_cmd_r_var_content fuel E =
     expect (catch_delay (receive_new fuel E)) DUSB_VPKT_VAR_CNTS None (\<lambda>pkt h.
       (let (r, x) = content_from pkt in (r, x, h)))"

definition dusb_cmd_s_var_content ::
    "'d calc_env \<Rightarrow> u32 \<Rightarrow> bytes option \<Rightarrow> 'd calc_handle \<Rightarrow> ret \<times> 'd calc_handle" where
  "dusb_cmd_s_var_content E n data h =
     (case data of None \<Rightarrow> (Some ERR_INVALID_PARAMETER, h)
      | Some d \<Rightarrow> send_filled E n DUSB_VPKT_VAR_CNTS (put_data n d (fresh n)) h)"

text \<open>Modify, rename or delete; the packet is sent only if it was filled exactly.\<close>

definition modify_size :: "bytes \<Rightarrow> bytes \<Rightarrow> dusb_param list \<Rightarrow> bytes \<Rightarrow> bytes \<Rightarrow> dusb_param list \<Rightarrow> u32" where
  "modify_size src_folder src_name sas dst_folder dst_name das =
     (let pks = attributes_size sas (name_size src_folder (2 + of_nat (length src_name) + 1 + 2)) + 5
      in attributes_size das (name_size dst_name (name_size dst_folder pks)))"

definition modify_block ::
    "bytes \<Rightarrow> bytes \<Rightarrow> nat \<Rightarrow> dusb_param list \<Rightarrow> bytes \<Rightarrow> bytes \<Rightarrow> nat \<Rightarrow> dusb_param list \<Rightarrow> cursor \<Rightarrow> cursor" where
  "modify_block src_folder src_name n_src_attrs sas dst_folder dst_name n_dst_attrs das c =
     (let c = put_name src_name (put_folder src_folder c);
          c = put [0x01] (put_attributes n_src_attrs sas c);
          c = put_folder dst_name (put_folder dst_folder c)
      in put_attributes n_dst_attrs das c)"

definition dusb_cmd_s_var_modify ::
    "nat \<Rightarrow> 'd calc_env \<Rightarrow> bytes option \<Rightarrow> bytes option \<Rightarrow> nat \<Rightarrow> dusb_param list option
       \<Rightarrow> bytes option \<Rightarrow> bytes option \<Rightarrow> nat \<Rightarrow> dusb_param list option
       \<Rightarrow> 'd calc_handle \<Rightarrow> (ret \<times> 'd calc_handle) option" where
  "dusb_cmd_s_var_modify fuel E src_folder src_name n_src_attrs src_attrs dst_folder dst_name n_dst_attrs dst_attrs =
     (case (src_folder, src_name, src_attrs, dst_folder, dst_name) of
        (Some src_folder, Some src_name, Some _, Some dst_folder, Some dst_name) \<Rightarrow>
          if n_dst_attrs \<noteq> 0 \<and> dst_attrs = None then refuse ERR_INVALID_PARAMETER
          else resynced fuel E (\<lambda>h.
            (case (elements n_src_attrs src_attrs, elements n_dst_attrs dst_attrs) of
               (Some sas, Some das) \<Rightarrow>
                 (let pks = modify_size src_folder src_name sas dst_folder dst_name das;
                      c = modify_block src_folder src_name n_src_attrs sas dst_folder dst_name n_dst_attrs das
                            (fresh pks)
                  in (case c of
                        None \<Rightarrow> (Some UNDEFINED_BEHAVIOUR, h)
                      | Some (buf, j) \<Rightarrow>
                          if of_nat j = pks then send_filled E pks DUSB_VPKT_MODIF_VAR c h
                          else (Some ERR_INVALID_PACKET, h)))
             | _ \<Rightarrow> (Some UNDEFINED_BEHAVIOUR, h)))
      | _ \<Rightarrow> refuse ERR_INVALID_PARAMETER)"

definition dusb_cmd_s_var_delete ::
    "nat \<Rightarrow> 'd calc_env \<Rightarrow> bytes option \<Rightarrow> bytes option \<Rightarrow> nat \<Rightarrow> dusb_param list option
       \<Rightarrow> 'd calc_handle \<Rightarrow> (ret \<times> 'd calc_handle) option" where
  "dusb_cmd_s_var_delete fuel E folder name nattrs attrs =
     dusb_cmd_s_var_modify fuel E folder name nattrs attrs (Some []) (Some []) 0 None"

section \<open>Commands: remote control and acknowledgements\<close>

text \<open>
  The arguments are copied without moving the index, so that a key code is written over their
  first two bytes. The length byte of a folder is written for every model, the folder itself
  only for the TI-89 Titanium.
\<close>

definition dusb_cmd_s_execute ::
    "nat \<Rightarrow> 'd calc_env \<Rightarrow> bytes option \<Rightarrow> bytes option \<Rightarrow> u8 \<Rightarrow> bytes option \<Rightarrow> u16
       \<Rightarrow> 'd calc_handle \<Rightarrow> (ret \<times> 'd calc_handle) option" where
  "dusb_cmd_s_execute fuel E folder name action args code =
     (case (folder, name) of
        (Some folder, Some name) \<Rightarrow> resynced fuel E (\<lambda>h.
          (let with_folder = (kh_model h = CALC_TI89T_USB \<and> folder \<noteq> []);
               pks = 3;
               pks = (if with_folder then pks + (of_nat (length folder) + 1) else pks);
               pks = (if name \<noteq> [] then pks + (of_nat (length name) + 1) else pks);
               pks = (case args of None \<Rightarrow> pks | Some a \<Rightarrow> pks + of_nat (length a));
               pks = (if action = 0x03 then pks + 2 else pks);
               c = put [of_nat (length folder)] (fresh pks);
               c = (if with_folder then put (folder @ [0]) c else c);
               c = put [of_nat (length name)] c;
               c = (if name \<noteq> [] then put (name @ [0]) c else c);
               c = put [action] c;
               c = (case args of None \<Rightarrow> c | Some a \<Rightarrow> put_stay a c);
               c = (if action = 0x03
                    then (if kh_model h = CALC_TI89T_USB \<or> MSB code = 0 then put16 code c
                          else put [LSB code, MSB code] c)
                    else c)
           in send_filled E pks DUSB_VPKT_EXECUTE c h))
      | _ \<Rightarrow> refuse ERR_INVALID_PARAMETER)"

definition dusb_cmd_r_data_ack :: "nat \<Rightarrow> 'd calc_env \<Rightarrow> 'd calc_handle \<Rightarrow> (ret \<times> 'd calc_handle) option" where
  "dusb_cmd_r_data_ack fuel E = expect_only fuel E DUSB_VPKT_DATA_ACK (\<lambda>h. h)"

definition dusb_cmd_r_delay_ack :: "nat \<Rightarrow> 'd calc_env \<Rightarrow> 'd calc_handle \<Rightarrow> (ret \<times> 'd calc_handle) option" where
  "dusb_cmd_r_delay_ack fuel E h =
     map_option (\<lambda>(r, _, h). (r, h)) (expect (receive_new fuel E) DUSB_VPKT_DELAY_ACK () (\<lambda>pkt h. (None, (), h)) h)"

definition dusb_cmd_s_eot :: "nat \<Rightarrow> 'd calc_env \<Rightarrow> 'd calc_handle \<Rightarrow> (ret \<times> 'd calc_handle) option" where
  "dusb_cmd_s_eot fuel E = resynced fuel E (dusb_send_data E (dusb_vtl_pkt_new_ex 0 DUSB_VPKT_EOT None))"

definition dusb_cmd_r_eot :: "nat \<Rightarrow> 'd calc_env \<Rightarrow> 'd calc_handle \<Rightarrow> (ret \<times> 'd calc_handle) option" where
  "dusb_cmd_r_eot fuel E = expect_only fuel E DUSB_VPKT_EOT (\<lambda>h. h)"

definition dusb_cmd_s_error :: "'d calc_env \<Rightarrow> u16 \<Rightarrow> 'd calc_handle \<Rightarrow> ret \<times> 'd calc_handle" where
  "dusb_cmd_s_error E code = send_filled E 2 DUSB_VPKT_ERROR (put16 code (fresh 2))"

text \<open>A freshly allocated parameter, filled when there is data, set, and its acknowledgement.\<close>

definition dusb_cmd_s_param_set_r_data_ack ::
    "nat \<Rightarrow> 'd calc_env \<Rightarrow> u16 \<Rightarrow> u16 \<Rightarrow> bytes option \<Rightarrow> 'd calc_handle \<Rightarrow> (ret \<times> 'd calc_handle) option" where
  "dusb_cmd_s_param_set_r_data_ack fuel E i n data h =
     (if 0 < n \<and> data = None then refuse ERR_INVALID_PARAMETER h
      else
        (let param = dusb_cp_new i n
         in case (case (data, dp_data param) of
                    (Some d, Some p) \<Rightarrow> map_option (\<lambda>p. param\<lparr>dp_data := Some p\<rparr>) (memcpy p 0 d 0 (unat n))
                  | _ \<Rightarrow> Some param) of
              None \<Rightarrow> refuse UNDEFINED_BEHAVIOUR h
            | Some param \<Rightarrow>
                Option.bind (dusb_cmd_s_param_set fuel E (Some param) h) (\<lambda>(r, h).
                  if r = None then dusb_cmd_r_data_ack fuel E h else Some (r, h))))"

section \<open>What the commands send\<close>

text \<open>
  The specification: a virtual packet that consists of given bytes; names, attributes and paths
  as bytes.
\<close>

definition packet_of :: "u16 \<Rightarrow> bytes \<Rightarrow> dusb_vtl" where
  "packet_of ty d = \<lparr>vt_size = of_nat (length d), vt_type = ty, vt_data = Some d\<rparr>"

definition name_bytes :: "bytes \<Rightarrow> bytes" where
  "name_bytes s = of_nat (length s) # s @ [0]"

definition path_bytes :: "bytes \<Rightarrow> bytes \<Rightarrow> bytes" where
  "path_bytes folder name = (if folder = [] then [0] else name_bytes folder) @ name_bytes name"

definition value_ok :: "dusb_param \<Rightarrow> bool" where
  "value_ok p \<longleftrightarrow> (case dp_data p of None \<Rightarrow> dp_size p = 0 | Some d \<Rightarrow> length d = unat (dp_size p))"

definition value_of :: "dusb_param \<Rightarrow> bytes" where
  "value_of p = (case dp_data p of None \<Rightarrow> [] | Some d \<Rightarrow> d)"

definition attribute_bytes :: "dusb_param \<Rightarrow> bytes" where
  "attribute_bytes p = [MSB (dp_id p), LSB (dp_id p), MSB (dp_size p), LSB (dp_size p)] @ value_of p"

definition attributes_bytes :: "dusb_param list \<Rightarrow> bytes" where
  "attributes_bytes ps =
     (let n = of_nat (length ps) :: u32 in [MSB n, LSB n]) @ concat (map attribute_bytes ps)"

definition ids_bytes :: "u16 list \<Rightarrow> bytes" where
  "ids_bytes ids = concat (map (\<lambda>i. [MSB i, LSB i]) ids)"

text \<open>A block with \<open>d\<close> written into it.\<close>

definition filled :: "nat \<Rightarrow> bytes \<Rightarrow> cursor" where
  "filled n d = Some (d @ replicate (n + 6 - length d) 0, length d)"

lemma fresh_filled: "fresh pks = filled (unat pks) []"
  by (simp add: fresh_def filled_def dusb_vtl_pkt_alloc_data_def)

lemma put_filled: "length d + length bs \<le> n + 6 \<Longrightarrow> put bs (filled n d) = filled n (d @ bs)"
  by (simp add: put_def filled_def memcpy_at_def)

lemma put16_filled: "length d + 2 \<le> n + 6 \<Longrightarrow> put16 w (filled n d) = filled n (d @ [MSB w, LSB w])"
  by (simp add: put16_def put_filled)

lemma put32_filled:
  "length d + 4 \<le> n + 6 \<Longrightarrow> put32 w (filled n d) = filled n (d @ [MSB (MSW w), LSB (MSW w), MSB (LSW w), LSB (LSW w)])"
  by (simp add: put32_def put_filled)

lemma put_name_filled:
  "length d + length (name_bytes s) \<le> n + 6 \<Longrightarrow> put_name s (filled n d) = filled n (d @ name_bytes s)"
  by (simp add: put_name_def put_filled name_bytes_def)

lemma name_bytes_length [simp]: "length (name_bytes s) = length s + 2"
  by (simp add: name_bytes_def)

lemma put_folder_filled:
  "length d + length (if s = [] then [0] else name_bytes s) \<le> n + 6 \<Longrightarrow>
     put_folder s (filled n d) = filled n (d @ (if s = [] then [0] else name_bytes s))"
  by (auto simp: put_folder_def put_name_filled put_filled)

lemma ids_bytes_length [simp]: "length (ids_bytes ids) = 2 * length ids"
  by (induction ids) (simp_all add: ids_bytes_def)

lemma put_ids_filled:
  "length d + 2 * length ids \<le> n + 6 \<Longrightarrow> fold put16 ids (filled n d) = filled n (d @ ids_bytes ids)"
  by (induction ids arbitrary: d) (simp_all add: ids_bytes_def put16_filled)

lemma param_value_ok: "value_ok p \<Longrightarrow> param_value p = Some (value_of p)"
  by (auto simp: value_ok_def param_value_def value_of_def memcpy_from_def split: option.splits)

lemma value_of_length: "value_ok p \<Longrightarrow> length (value_of p) = unat (dp_size p)"
  by (auto simp: value_ok_def value_of_def split: option.splits)

lemma attribute_filled:
  assumes "value_ok p" "length d + length (attribute_bytes p) \<le> n + 6"
  shows "put_attribute p (filled n d) = filled n (d @ attribute_bytes p)"
  using assms by (simp add: put_attribute_def param_value_ok attribute_bytes_def put16_filled put_filled)

lemma attribute_list_filled:
  "list_all value_ok ps \<Longrightarrow> length d + length (concat (map attribute_bytes ps)) \<le> n + 6 \<Longrightarrow>
     fold put_attribute ps (filled n d) = filled n (d @ concat (map attribute_bytes ps))"
  by (induction ps arbitrary: d) (simp_all add: attribute_filled)

lemma attributes_filled:
  assumes "list_all value_ok ps" "length d + length (attributes_bytes ps) \<le> n + 6"
  shows "put_attributes (length ps) ps (filled n d) = filled n (d @ attributes_bytes ps)"
  using assms by (simp add: put_attributes_def put16_filled attribute_list_filled attributes_bytes_def Let_def)

lemma attributes_size_eq:
  "list_all value_ok ps \<Longrightarrow>
     attributes_size ps pks = pks + of_nat (length (concat (map attribute_bytes ps)))"
proof (induction ps arbitrary: pks)
  case (Cons p ps)
  then have "(ucast (dp_size p) :: u32) = of_nat (length (value_of p))" by (simp add: value_of_length)
  then show ?case
    using Cons by (simp add: attributes_size_def attribute_bytes_def algebra_simps)
qed (simp add: attributes_size_def)

lemma attributes_bytes_length: "length (attributes_bytes ps) = 2 + length (concat (map attribute_bytes ps))"
  by (simp add: attributes_bytes_def Let_def)

lemma send_filled_eq:
  assumes "unat pks = length d"
  shows "send_filled E pks ty (filled (unat pks) d) h = dusb_send_data E (packet_of ty d) h"
proof -
  have "pks = of_nat (length d)" using assms by (metis of_nat_unat ucast_id)
  then show ?thesis
    using assms by (simp add: send_filled_def filled_def packet_of_def dusb_vtl_pkt_new_ex_def)
qed

lemma resynced_idle: "\<not> kh_needs_mode_set h \<Longrightarrow> resynced fuel E k h = Some (k h)"
  by (simp add: resynced_def dusb_cmd_resync_if_needed_def)

lemmas filled_simps =
  fresh_filled put_filled put16_filled put32_filled put_name_filled put_folder_filled put_ids_filled
  attributes_filled attributes_bytes_length

lemma name_size_eq: "name_size s pks = pks + of_nat (if s = [] then 0 else length s + 1)"
  by (simp add: name_size_def)

lemma rts_filled:
  assumes "list_all value_ok ps" "length xf = length folder" "length xn = length name"
    and d: "d = path_bytes folder name @ [MSB (MSW n), LSB (MSW n), MSB (LSW n), LSB (LSW n), mode] @ attributes_bytes ps"
  shows "rts_size xf xn ps = of_nat (length d)"
    and "length d \<le> k \<Longrightarrow> rts_block xf xn folder name n mode (length ps) ps (filled k []) = filled k d"
proof -
  show "rts_size xf xn ps = of_nat (length d)"
    using assms(2,3) unfolding rts_size_def attributes_size_eq [OF assms(1)] name_size_eq d
    by (auto simp: path_bytes_def attributes_bytes_length)
  assume "length d \<le> k"
  moreover have "xf = [] \<longleftrightarrow> folder = []" using assms(2) by auto
  then have "rts_block xf xn folder name n mode m ps c
      = put_attributes m ps (put [mode] (put32 n (put_name name (put_folder folder c))))" for m c
    using assms(2,3) by (simp add: rts_block_def put_folder_def put_name_def Let_def)
  ultimately show "rts_block xf xn folder name n mode (length ps) ps (filled k []) = filled k d"
    using assms(1) unfolding d by (simp add: filled_simps path_bytes_def)
qed

lemma var_request_filled:
  assumes "list_all value_ok ps"
    and d: "d = path_bytes folder name @ [0x01, 0xFF, 0xFF, 0xFF, 0xFF]
            @ [MSB (of_nat (length ids) :: u32), LSB (of_nat (length ids) :: u32)] @ ids_bytes ids
            @ attributes_bytes ps @ [0, 0]"
  shows "var_request_size folder name (length ids) ps = of_nat (length d)"
    and "length d \<le> k \<Longrightarrow> var_request_block folder name (length ids) ids (length ps) ps (filled k []) = filled k d"
proof -
  show "var_request_size folder name (length ids) ps = of_nat (length d)"
    unfolding var_request_size_def attributes_size_eq [OF assms(1)] name_size_eq d
    by (auto simp: path_bytes_def attributes_bytes_length)
  show "length d \<le> k \<Longrightarrow> var_request_block folder name (length ids) ids (length ps) ps (filled k []) = filled k d"
    using assms(1) unfolding d by (simp add: var_request_block_def filled_simps path_bytes_def Let_def)
qed

lemma modify_filled:
  assumes "list_all value_ok ps" "list_all value_ok qs"
    and d: "d = path_bytes folder name @ attributes_bytes ps @ [0x01]
            @ (if dst_folder = [] then [0] else name_bytes dst_folder)
            @ (if dst_name = [] then [0] else name_bytes dst_name) @ attributes_bytes qs"
  shows "modify_size folder name ps dst_folder dst_name qs = of_nat (length d)"
    and "length d \<le> k \<Longrightarrow>
      modify_block folder name (length ps) ps dst_folder dst_name (length qs) qs (filled k []) = filled k d"
proof -
  show "modify_size folder name ps dst_folder dst_name qs = of_nat (length d)"
    unfolding modify_size_def attributes_size_eq [OF assms(1)] attributes_size_eq [OF assms(2)] name_size_eq d
    by (auto simp: path_bytes_def attributes_bytes_length Let_def)
  show "length d \<le> k \<Longrightarrow>
      modify_block folder name (length ps) ps dst_folder dst_name (length qs) qs (filled k []) = filled k d"
    using assms(1,2) unfolding d by (simp add: modify_block_def filled_simps path_bytes_def Let_def)
qed

lemma send_exactly:
  assumes "pks = of_nat (length d)" "length d < 2 ^ 32" "c = filled (length d) d"
  shows "send_filled E pks ty c h = dusb_send_data E (packet_of ty d) h"
proof -
  have "unat pks = length d" unfolding assms(1) using assms(2) by (intro unat_of_nat_less) simp
  then show ?thesis using send_filled_eq [of pks d] assms(3) by simp
qed

lemma fresh_exactly: "length d < 2 ^ 32 \<Longrightarrow> fresh (of_nat (length d)) = filled (length d) []"
  unfolding fresh_filled by (subst unat_of_nat_less) simp_all

lemma elements_all [simp]: "elements (length xs) (Some xs) = Some xs"
  by (simp add: elements_def)

section \<open>What the commands receive\<close>

text \<open>
  A parameter or attribute as it is delivered; the contents of a variable header; a link from
  which a packet can be taken, by a peer with a given buffer size.
\<close>

fun param_of :: "dusb_reply \<Rightarrow> dusb_param" where
  "param_of (i, st, d) = \<lparr>dp_id = i, dp_ok = (st = 0), dp_size = of_nat (length d),
     dp_data = (if d = [] then None else Some d)\<rparr>"

definition text_bytes :: "bytes \<Rightarrow> bytes" where
  "text_bytes s = (if s = [] then [0] else of_nat (length s) # s @ [0])"

definition var_header_bytes :: "bytes \<Rightarrow> bytes \<Rightarrow> dusb_reply list \<Rightarrow> bytes" where
  "var_header_bytes folder name ps = text_bytes folder @ text_bytes name @ param_bytes ps"

definition offers ::
    "('d \<Rightarrow> bytes) \<Rightarrow> ('d \<Rightarrow> nat) \<Rightarrow> u32 \<Rightarrow> nat \<Rightarrow> dusb_vtl \<Rightarrow> bytes \<Rightarrow> 'd calc_handle \<Rightarrow> bool" where
  "offers avail room maxlen fuel v rest h \<longleftrightarrow> 6 \<le> unat maxlen \<and> unat maxlen \<le> 1023
     \<and> length (vtl_bytes v) < 2 ^ 31
     \<and> avail (cb_dev (kh_cable h)) = wire_of (vtl_pieces maxlen v) @ rest
     \<and> 7 * length (vtl_pieces maxlen v) \<le> room (cb_dev (kh_cable h))
     \<and> length (vtl_pieces maxlen v) \<le> fuel"

lemma packet_of_simps [simp]:
  "vtl_bytes (packet_of ty d) = d" "vt_type (packet_of ty d) = ty" "vt_size (packet_of ty d) = of_nat (length d)"
  by (simp_all add: packet_of_def vtl_bytes_def)

lemma read_param_ok:
  assumes "reply_ok p"
  shows "read_param (pre @ reply_bytes p @ rest) (length pre) = Some (param_of p, length pre + length (reply_bytes p))"
proof (cases p)
  case (fields i st d)
  define W where "W = pre @ reply_bytes p @ rest"
  have at: "u16_at W (length pre) = i" "W ! (length pre + 2) = st" "\<not> length W < length pre + 3"
    by (simp_all add: W_def fields u16_at_def nth_append be16_MSB_LSB)
  have new: "dusb_cp_new 0 0 = \<lparr>dp_id = 0, dp_ok = False, dp_size = 0, dp_data = None\<rparr>"
    by (simp add: dusb_cp_new_def dusb_cp_new_ex_def g_malloc0_def)
  show ?thesis
  proof (cases "st = 0")
    case False
    then have "read_param W (length pre) = Some (param_of p, length pre + length (reply_bytes p))"
      using assms at by (simp add: read_param_def new fields Let_def)
    then show ?thesis by (simp add: W_def)
  next
    case True
    then have d: "length d < 65536" using assms by (simp add: fields)
    let ?n = "of_nat (length d) :: u16"
    have bytes: "W = (pre @ [MSB i, LSB i, 0]) @ [MSB ?n, LSB ?n] @ d @ rest"
      using True by (simp add: W_def fields Let_def)
    have n: "unat ?n = length d" using d by (rule unat_of_nat_u16)
    then have z: "?n = 0 \<longleftrightarrow> d = []" by (metis length_0_conv unat_eq_0)
    have "u16_at W (length pre + 3) = ?n" "\<not> length W < length pre + 5"
      unfolding bytes by (simp_all add: u16_at_def nth_append be16_MSB_LSB)
    moreover have "memcpy_from W (5 + length pre) (length d) = Some d"
      unfolding bytes by (simp add: memcpy_from_def)
    ultimately have "read_param W (length pre) = Some (param_of p, length pre + 5 + length d)"
      using at True n z by (cases "d = []") (simp_all add: read_param_def new fields Let_def)
    then show ?thesis using True by (simp add: W_def fields Let_def)
  qed
qed

lemma read_params_ok:
  assumes "list_all reply_ok ps"
  shows "read_params (pre @ concat (map reply_bytes ps)) (length pre) (length ps) = Some (map param_of ps)"
  using assms
proof (induction ps arbitrary: pre)
  case (Cons p ps)
  have "read_params ((pre @ reply_bytes p) @ concat (map reply_bytes ps)) (length (pre @ reply_bytes p)) (length ps)
      = Some (map param_of ps)"
    using Cons.prems by (intro Cons.IH) simp
  then show ?case
    using read_param_ok [of p pre "concat (map reply_bytes ps)"] Cons.prems by simp
qed simp

lemma u16_at_count: "u16_at (pre @ param_bytes ps) (length pre) = of_nat (length ps)"
  by (simp add: u16_at_def param_bytes_def Let_def nth_append be16_MSB_LSB)

lemma read_params_count:
  assumes "list_all reply_ok ps"
  shows "read_params (pre @ param_bytes ps) (length pre + 2) (length ps) = Some (map param_of ps)"
  using read_params_ok [OF assms, of "pre @ (let n = of_nat (length ps) :: u16 in [MSB n, LSB n])"]
  by (simp add: param_bytes_def Let_def)

text \<open>A name is read if it fits, with its terminator, into the array.\<close>

lemma read_name_ok:
  assumes "length s < 256" "d = pre @ text_bytes s @ rest"
  shows "read_name d (length pre) out =
    (if s = [] then Some (out, length pre + 1)
     else if length out \<le> length s then None
     else Some (s @ 0 # drop (length s + 1) out, length pre + length (text_bytes s)))"
proof (cases "s = []")
  case True
  then show ?thesis using assms(2) by (simp add: read_name_def text_bytes_def nth_append Let_def)
next
  case False
  have n: "unat (of_nat (length s) :: u8) = length s" using assms(1) by (intro unat_of_nat_less) simp
  have d: "d = (pre @ [of_nat (length s)]) @ (s @ [0]) @ rest"
    using False assms(2) by (simp add: text_bytes_def)
  have at: "d ! length pre = of_nat (length s)" "\<not> length d < length pre + 1" unfolding d by (simp_all add: nth_append)
  have "memcpy out 0 d (length pre + 1) (length s + 1) =
      (if length out \<le> length s then None else Some (s @ 0 # drop (length s + 1) out))"
    unfolding d by (auto simp: memcpy_def memcpy_from_def memcpy_at_def)
  then show ?thesis using False at n by (simp add: read_name_def text_bytes_def Let_def)
qed

context quiet_link
begin

text \<open>A packet other than a delay or an error reaches the continuation of a receiving command.\<close>

lemma receive_offered:
  assumes "ready h" "offers avail room maxlen fuel (packet_of ty d) rest h"
    and "ty \<noteq> DUSB_VPKT_DELAY_ACK" "ty = DUSB_VPKT_ERROR \<longrightarrow> length d \<noteq> 1"
  shows "\<exists>pkt h'. catch_delay (receive_new fuel E) h = Some (None, pkt, h') \<and> vtl_bytes pkt = d
     \<and> vt_size pkt = of_nat (length d) \<and> vt_type pkt = ty
     \<and> moved h (acks (length (vtl_pieces maxlen (packet_of ty d))))
         (length (wire_of (vtl_pieces maxlen (packet_of ty d)))) h'"
proof -
  let ?v = "packet_of ty d"
  have o: "6 \<le> unat maxlen" "unat maxlen \<le> 1023" "length d < 2 ^ 31"
    "c_avail (kh_cable h) = wire_of (vtl_pieces maxlen ?v) @ rest"
    "7 * length (vtl_pieces maxlen ?v) \<le> c_room (kh_cable h)" "length (vtl_pieces maxlen ?v) \<le> fuel"
    using assms(2) by (simp_all add: offers_def c_avail_def c_room_def)
  have size: "unat (vt_size ?v) = length (vtl_bytes ?v)"
    using o(3) unat_of_nat_less [of "length d", where 'a = 32] by simp
  have err: "vt_type ?v = 0xEE00 \<longrightarrow> vt_size ?v \<noteq> 1"
    using assms(4) size by (auto simp: word_unat_eq_iff)
  obtain w h' where "dusb_recv_data fuel E dusb_vtl_pkt_new h = Some (None, w, h')" "vtl_bytes w = vtl_bytes ?v"
      "vt_size w = vt_size ?v" "vt_type w = vt_type ?v"
      "moved h (acks (length (vtl_pieces maxlen ?v))) (length (wire_of (vtl_pieces maxlen ?v))) h'"
    using dusb_recv_data_quiet [OF assms(1) size _ err o(1,2) refl o(4,5,6), of dusb_vtl_pkt_new] o(3) by auto
  then show ?thesis using assms(3) by (auto simp: catch_delay_def receive_new_def)
qed

lemma expect_offered:
  assumes "ready h" "offers avail room maxlen fuel (packet_of ty d) rest h"
    and "ty \<noteq> DUSB_VPKT_DELAY_ACK" "ty \<noteq> DUSB_VPKT_ERROR"
  shows "\<exists>pkt h'. expect (catch_delay (receive_new fuel E)) ty x k h = Some (k pkt h') \<and> vtl_bytes pkt = d
     \<and> vt_size pkt = of_nat (length d)
     \<and> moved h (acks (length (vtl_pieces maxlen (packet_of ty d))))
         (length (wire_of (vtl_pieces maxlen (packet_of ty d)))) h'"
proof -
  obtain pkt h' where *: "catch_delay (receive_new fuel E) h = Some (None, pkt, h')" "vtl_bytes pkt = d"
      "vt_size pkt = of_nat (length d)" "vt_type pkt = ty"
      "moved h (acks (length (vtl_pieces maxlen (packet_of ty d))))
         (length (wire_of (vtl_pieces maxlen (packet_of ty d)))) h'"
    using receive_offered [OF assms(1-3)] assms(4) by blast
  then show ?thesis using assms(4) by (intro exI [of _ pkt] exI [of _ h']) (simp add: expect_def)
qed

end

section \<open>Renegotiating the mode\<close>

definition mode_list :: "dusb_mode \<Rightarrow> bytes" where
  "mode_list m = [MSB (arg1 m), LSB (arg1 m), MSB (arg2 m), LSB (arg2 m), MSB (arg3 m), LSB (arg3 m),
     MSB (arg4 m), LSB (arg4 m), MSB (arg5 m), LSB (arg5 m)]"

definition mode_request :: "dusb_mode \<Rightarrow> bytes" where
  "mode_request m = raw_bytes DUSB_RPKT_BUF_SIZE_REQ [0, 0, 4, 0]
     @ wire_of [vtl_header (packet_of DUSB_VPKT_PING (mode_list m)) @ mode_list m]"

definition mode_answer :: "u32 \<Rightarrow> bytes" where
  "mode_answer n = raw_bytes DUSB_RPKT_BUF_SIZE_ALLOC (be32_out n) @ ack_bytes
     @ wire_of [vtl_header (packet_of DUSB_VPKT_MODE_SET [])]"

lemma mode_packet:
  "send_filled E 10 DUSB_VPKT_PING (mode_bytes m (fresh 10)) h = dusb_send_data E (packet_of DUSB_VPKT_PING (mode_list m)) h"
  by (rule send_exactly)
    (simp_all add: mode_list_def mode_bytes_def fresh_filled put16_filled flip: numeral_eq_Suc,
     simp add: eval_nat_numeral)

lemma mode_lengths:
  "length (mode_list m) = 10" "length (mode_request m) = 30" "length (mode_answer n) = 27"
  by (simp_all add: mode_list_def mode_request_def mode_answer_def be32_out_read)

context quiet_link
begin

lemma size_requested:
  assumes "ready h" "9 \<le> c_room (kh_cable h)"
  shows "\<exists>h'. dusb_send_buf_size_request E 1024 h = (None, h')
     \<and> moved h (raw_bytes DUSB_RPKT_BUF_SIZE_REQ [0, 0, 4, 0]) 0 h'"
proof -
  have "clamp_size 1024 = 1024" by (simp add: clamp_size_def)
  moreover have "size_packet DUSB_RPKT_BUF_SIZE_REQ 1024
      = raw_zero\<lparr>rw_size := 4, rw_type := DUSB_RPKT_BUF_SIZE_REQ, rw_data := [0, 0, 4, 0] @ drop 4 (rw_data raw_zero)\<rparr>"
    by (simp add: size_packet_def drop_bit_eq_div)
  ultimately show ?thesis
    using dusb_send_quiet [of h "size_packet DUSB_RPKT_BUF_SIZE_REQ 1024" "[0, 0, 4, 0]"] assms
    by (simp add: dusb_send_buf_size_request_def raw_inv_def raw_zero_def)
qed

lemma size_allocated:
  assumes "ready h" "c_avail (kh_cable h) = raw_bytes DUSB_RPKT_BUF_SIZE_ALLOC (be32_out n) @ rest" "unat n \<le> 1018"
  shows "\<exists>h'. dusb_recv_buf_size_alloc E None h = (None, None, h'\<lparr>kh_maxlen := n\<rparr>) \<and> moved h [] 9 h'"
proof -
  have be: "be32 (be32_out n ! 0) (be32_out n ! Suc 0) (be32_out n ! 2) (be32_out n ! 3) = n"
    by (simp add: be32_out_read be32_bytes)
  have le: "\<not> 1023 < n" "\<not> 1018 < n" using assms(3) by (simp_all add: word_less_nat_alt)
  show ?thesis
    using dusb_recv_quiet [OF assms(1) raw_zero_inv assms(2)] be le
    by (auto simp: dusb_recv_buf_size_alloc_def raw_be32_def be32_out_read(5) nth_append Let_def)
qed

lemma ready_needs [simp]: "ready (h\<lparr>kh_needs_mode_set := b\<rparr>) = ready h"
  by (simp add: ready_def)

lemma mode_is_set:
  assumes "ready h" "16 \<le> unat n" "unat n \<le> 1018" "0 < fuel"
    and "c_avail (kh_cable h) = mode_answer n @ rest" "37 \<le> c_room (kh_cable h)"
  shows "\<exists>h'. set_mode fuel E m h = Some (None, h') \<and> \<not> kh_needs_mode_set h' \<and> kh_maxlen h' = n \<and> ready h'
     \<and> kh_busy h' = kh_busy h \<and> kh_model h' = kh_model h
     \<and> c_sent (kh_cable h') = c_sent (kh_cable h) @ mode_request m @ ack_bytes \<and> c_avail (kh_cable h') = rest"
proof -
  let ?d = "mode_list m" let ?v = "packet_of DUSB_VPKT_PING ?d" let ?a = "packet_of DUSB_VPKT_MODE_SET []"
  obtain h1 where h1: "dusb_send_buf_size_request E 1024 h = (None, h1)"
      "moved h (raw_bytes DUSB_RPKT_BUF_SIZE_REQ [0, 0, 4, 0]) 0 h1"
    using size_requested [OF assms(1)] assms(6) by auto
  have av1: "ready h1" "c_avail (kh_cable h1) = raw_bytes DUSB_RPKT_BUF_SIZE_ALLOC (be32_out n)
      @ ack_bytes @ wire_of [vtl_header ?a] @ rest"
    using moved_keeps [OF h1(2)] assms(5) by (simp_all add: mode_answer_def)
  obtain h2 where h2: "dusb_recv_buf_size_alloc E None h1 = (None, None, h2\<lparr>kh_maxlen := n\<rparr>)" "moved h1 [] 9 h2"
    using size_allocated [OF av1 assms(3)] by blast
  let ?g = "h2\<lparr>kh_maxlen := n\<rparr>"
  have p: "vtl_pieces n ?v = [vtl_header ?v @ ?d]"
    unfolding vtl_pieces_def using assms(2) by (simp add: chop_last mode_lengths)
  have a: "vtl_pieces n ?a = [vtl_header ?a]" unfolding vtl_pieces_def using assms(2) by (simp add: chop_last)
  have g: "ready ?g" "c_avail (kh_cable ?g) = acks (length (vtl_pieces n ?v)) @ wire_of [vtl_header ?a] @ rest"
    "length (wire_of (vtl_pieces n ?v)) \<le> c_room (kh_cable ?g)"
  proof -
    have "c_avail (kh_cable h2) = drop 9 (c_avail (kh_cable h1))" using moved_keeps [OF h2(2)] by blast
    then have "c_avail (kh_cable h2) = ack_bytes @ wire_of [vtl_header ?a] @ rest"
      unfolding av1(2) by (simp add: be32_out_read)
    then show "c_avail (kh_cable ?g) = acks (length (vtl_pieces n ?v)) @ wire_of [vtl_header ?a] @ rest"
      by (simp add: p)
  qed (use moved_keeps [OF h1(2)] moved_keeps [OF h2(2)] assms(6) in \<open>simp_all add: p mode_lengths\<close>)
  obtain g1 where g1: "dusb_send_data E ?v ?g = (None, g1)" "moved ?g (wire_of (vtl_pieces n ?v)) 7 g1"
    using dusb_send_data_quiet [OF g(1) _ _ _ _ g(2,3), of ?v] assms(2,3) by (auto simp: mode_lengths p)
  have "offers avail room n fuel ?a rest g1"
    using moved_keeps [OF g1(2)] moved_keeps [OF h1(2)] moved_keeps [OF h2(2)] g(2) assms(2-4,6)
    by (simp add: offers_def a p c_avail_def c_room_def mode_lengths)
  moreover have "ready g1" using moved_keeps [OF g1(2)] by blast
  ultimately obtain g2 where g2: "dusb_cmd_r_mode_ack fuel E g1 = Some (None, g2\<lparr>kh_needs_mode_set := False\<rparr>)"
      "moved g1 ack_bytes 11 g2"
    using expect_offered [of g1 n fuel DUSB_VPKT_MODE_SET "[]" rest "()" "\<lambda>pkt h. (None, (), h\<lparr>kh_needs_mode_set := False\<rparr>)"]
    by (auto simp: dusb_cmd_r_mode_ack_def expect_only_def a)
  have "set_mode fuel E m h = Some (None, g2\<lparr>kh_needs_mode_set := False\<rparr>)"
    using h1(1) h2(1) g1(1) g2(1) by (simp add: set_mode_def dusb_cmd_s_mode_set_def mode_packet)
  moreover have "c_avail (kh_cable g2) = drop 27 (c_avail (kh_cable h))"
      "c_sent (kh_cable g2) = c_sent (kh_cable h) @ mode_request m @ ack_bytes"
    using h1(2) h2(2) g1(2) g2(2) p unfolding moved_def mode_request_def by simp_all
  then have "c_avail (kh_cable g2) = rest" "c_sent (kh_cable g2) = c_sent (kh_cable h) @ mode_request m @ ack_bytes"
    by (simp_all add: assms(5) mode_lengths)
  moreover have "ready g2" "kh_busy g2 = kh_busy h" "kh_model g2 = kh_model h" "kh_maxlen g2 = n"
    using h1(2) h2(2) g1(2) g2(2) unfolding moved_def by simp_all
  ultimately show ?thesis by simp
qed

end

section \<open>Properties of the commands\<close>

text \<open>The packet of a change, for attributes that are there and for the null pointer of a deletion.\<close>

lemma modify_sent:
  assumes "\<not> kh_needs_mode_set h" "list_all value_ok ps" "list_all value_ok qs"
    and "elements (length qs) das = Some qs" "das \<noteq> None \<or> qs = []"
    and d: "d = path_bytes folder name @ attributes_bytes ps @ [0x01]
            @ (if dst_folder = [] then [0] else name_bytes dst_folder)
            @ (if dst_name = [] then [0] else name_bytes dst_name) @ attributes_bytes qs"
    and len: "length d < 2 ^ 32"
  shows "dusb_cmd_s_var_modify fuel E (Some folder) (Some name) (length ps) (Some ps)
      (Some dst_folder) (Some dst_name) (length qs) das h = Some (dusb_send_data E (packet_of DUSB_VPKT_MODIF_VAR d) h)"
proof -
  have "filled (length d) d = Some (d @ replicate 6 0, length d)" by (simp add: filled_def)
  then show ?thesis
    using modify_filled [OF assms(2,3) d] send_exactly [OF refl len refl] assms(5)
    by (auto simp: dusb_cmd_s_var_modify_def resynced_idle [OF assms(1)] assms(4) Let_def fresh_exactly [OF len])
qed

text \<open>
  C21: With well-formed attributes and no renegotiation pending, the packets that announce, ask
  for, rename and delete a variable are exactly the path, the counts and the attributes,
  without a byte too many or too few, so that renaming and deleting never stop at their check.
  Deletion is the packet of a change without a new path and without new attributes: a null byte
  for each. The path in a request to send is the caller's: its normalised form is used for
  lengths only.
\<close>

theorem dusb_variable_packets:
  assumes "\<not> kh_needs_mode_set h" "list_all value_ok ps" "list_all value_ok qs"
    and "length folder + length name + length dst_folder + length dst_name + 2 * length ids
           + length (attributes_bytes ps) + length (attributes_bytes qs) + 64 < 2 ^ 32"
  shows "dusb_cmd_s_rts fuel E (Some folder) (Some name) n (length ps) (Some ps) h
      = Some (dusb_send_data E (packet_of DUSB_VPKT_RTS
          (path_bytes folder name @ [MSB (MSW n), LSB (MSW n), MSB (LSW n), LSB (LSW n), 0x01] @ attributes_bytes ps)) h)
    \<and> dusb_cmd_s_var_request fuel E (Some folder) (Some name) (length ids) (Some ids) (length ps) (Some ps) h
      = Some (dusb_send_data E (packet_of DUSB_VPKT_VAR_REQ
          (path_bytes folder name @ [0x01, 0xFF, 0xFF, 0xFF, 0xFF]
            @ [MSB (of_nat (length ids) :: u32), LSB (of_nat (length ids) :: u32)] @ ids_bytes ids
            @ attributes_bytes ps @ [0, 0])) h)
    \<and> dusb_cmd_s_var_modify fuel E (Some folder) (Some name) (length ps) (Some ps)
        (Some dst_folder) (Some dst_name) (length qs) (Some qs) h
      = Some (dusb_send_data E (packet_of DUSB_VPKT_MODIF_VAR
          (path_bytes folder name @ attributes_bytes ps @ [0x01]
            @ (if dst_folder = [] then [0] else name_bytes dst_folder)
            @ (if dst_name = [] then [0] else name_bytes dst_name) @ attributes_bytes qs)) h)
    \<and> dusb_cmd_s_var_delete fuel E (Some folder) (Some name) (length ps) (Some ps) h
      = Some (dusb_send_data E (packet_of DUSB_VPKT_MODIF_VAR
          (path_bytes folder name @ attributes_bytes ps @ [0x01, 0, 0, 0, 0])) h)"
proof (intro conjI)
  note idle = resynced_idle [OF assms(1)]
  note wire = normalize_length [of "kh_model h" folder] normalize_length [of "kh_model h" name]
  define rts where rts: "rts = path_bytes folder name
    @ [MSB (MSW n), LSB (MSW n), MSB (LSW n), LSB (LSW n), 0x01] @ attributes_bytes ps"
  define req where req: "req = path_bytes folder name @ [0x01, 0xFF, 0xFF, 0xFF, 0xFF]
    @ [MSB (of_nat (length ids) :: u32), LSB (of_nat (length ids) :: u32)] @ ids_bytes ids @ attributes_bytes ps @ [0, 0]"
  have len: "length rts < 2 ^ 32" "length req < 2 ^ 32"
    using assms(4) by (simp_all add: path_bytes_def rts req)
  show "dusb_cmd_s_rts fuel E (Some folder) (Some name) n (length ps) (Some ps) h
      = Some (dusb_send_data E (packet_of DUSB_VPKT_RTS rts) h)"
    using rts_filled [OF assms(2) wire rts]
    by (simp add: dusb_cmd_s_rts_def dusb_cmd_s_rts2_def idle Let_def fresh_exactly [OF len(1)]
        send_exactly [OF refl len(1) refl])
  show "dusb_cmd_s_var_request fuel E (Some folder) (Some name) (length ids) (Some ids) (length ps) (Some ps) h
      = Some (dusb_send_data E (packet_of DUSB_VPKT_VAR_REQ req) h)"
    using var_request_filled [OF assms(2) req]
    by (simp add: dusb_cmd_s_var_request_def idle Let_def fresh_exactly [OF len(2)]
        send_exactly [OF refl len(2) refl])
  show "dusb_cmd_s_var_modify fuel E (Some folder) (Some name) (length ps) (Some ps)
        (Some dst_folder) (Some dst_name) (length qs) (Some qs) h
      = Some (dusb_send_data E (packet_of DUSB_VPKT_MODIF_VAR
          (path_bytes folder name @ attributes_bytes ps @ [0x01]
            @ (if dst_folder = [] then [0] else name_bytes dst_folder)
            @ (if dst_name = [] then [0] else name_bytes dst_name) @ attributes_bytes qs)) h)"
    by (rule modify_sent [OF assms(1-3) elements_all _ refl]) (use assms(4) in \<open>simp_all add: path_bytes_def\<close>)
  have "attributes_bytes [] = [0, 0]" by (simp add: attributes_bytes_def MSB_def LSB_def)
  then show "dusb_cmd_s_var_delete fuel E (Some folder) (Some name) (length ps) (Some ps) h
      = Some (dusb_send_data E (packet_of DUSB_VPKT_MODIF_VAR
          (path_bytes folder name @ attributes_bytes ps @ [0x01, 0, 0, 0, 0])) h)"
    using modify_sent [OF assms(1,2), of "[]" None _ folder name "[]" "[]"] assms(4)
    by (simp add: dusb_cmd_s_var_delete_def elements_def path_bytes_def)
qed

lemma read_var_header_ok:
  assumes "length folder < 256" "length name < 256" "farr \<noteq> []" "narr \<noteq> []" "list_all reply_ok ps"
    and "length ps < 65536"
  shows "read_var_header (var_header_bytes folder name ps) (farr[0 := 0]) (narr[0 := 0]) attrs =
    (if length farr \<le> length folder \<or> length narr \<le> length name \<or> attrs < length ps then None
     else Some (folder @ 0 # drop (length folder + 1) farr, name @ 0 # drop (length name + 1) narr, map param_of ps))"
proof -
  let ?d = "var_header_bytes folder name ps" and ?pre = "text_bytes folder @ text_bytes name"
  have z: "a[0 := 0] = 0 # drop 1 a" "drop (Suc k) (a[0 := 0]) = drop (Suc k) a" if "a \<noteq> []" for a :: bytes and k
    using that by (cases a; simp)+
  have f: "read_name ?d 0 (farr[0 := 0]) = (if length farr \<le> length folder then None
      else Some (folder @ 0 # drop (length folder + 1) farr, length (text_bytes folder)))"
    using read_name_ok [OF assms(1), of ?d "[]" "text_bytes name @ param_bytes ps" "farr[0 := 0]"] assms(3) z(1)
    by (auto simp: var_header_bytes_def text_bytes_def z(2))
  have n: "read_name ?d (length (text_bytes folder)) (narr[0 := 0]) = (if length narr \<le> length name then None
      else Some (name @ 0 # drop (length name + 1) narr, length ?pre))"
    using read_name_ok [OF assms(2), of ?d "text_bytes folder" "param_bytes ps" "narr[0 := 0]"] assms(4) z(1)
    by (auto simp: var_header_bytes_def text_bytes_def z(2))
  have "u16_at ?d (length ?pre) = of_nat (length ps)" "\<not> length ?d < length ?pre + 2"
    "read_params ?d (length ?pre + 2) (length ps) = Some (map param_of ps)"
    using u16_at_count [of ?pre ps] read_params_count [OF assms(5), of ?pre]
    by (simp_all add: var_header_bytes_def) (simp add: param_bytes_def Let_def)
  then show ?thesis
    using f n unat_of_nat_u16 [OF assms(6)] by (auto simp: read_var_header_def Let_def)
qed

text \<open>
  An answer to a parameter request is delivered as it was encoded: identifiers, status, sizes
  and values in order, if it has as many parameters as asked for, and refused otherwise.
\<close>

theorem dusb_param_answer:
  assumes "quiet_link send recv sent avail room ok E" "link_ready ok g"
    and "list_all reply_ok ps" "length ps < 65536"
    and "offers avail room maxlen fuel (packet_of DUSB_VPKT_PARM_DATA (param_bytes ps)) rest g"
    and "pieces = vtl_pieces maxlen (packet_of DUSB_VPKT_PARM_DATA (param_bytes ps))"
  shows "\<exists>g'. dusb_cmd_r_param_data fuel E n g =
      Some (if n = of_nat (length ps) then (None, Some (map param_of ps), g') else (Some ERR_INVALID_PACKET, None, g'))
    \<and> transfer sent avail ok g (acks (length pieces)) (length (wire_of pieces)) g'"
proof -
  note q = assms(1)
  let ?d = "param_bytes ps"
  have "quiet_link.ready ok g" using assms(2) quiet_link.link_ready_iff [OF q] by blast
  from quiet_link.expect_offered [OF q this assms(5), of None
      "\<lambda>pkt h. let (r, ps) = params_from n (vtl_bytes pkt) in (r, ps, h)"]
  obtain g' where g': "dusb_cmd_r_param_data fuel E n g = Some (let (r, ps) = params_from n ?d in (r, ps, g'))"
      "quiet_link.moved sent avail room ok g (acks (length pieces)) (length (wire_of pieces)) g'"
    unfolding dusb_cmd_r_param_data_def assms(6) by auto
  have len: "\<not> length ?d < 2" by (simp add: param_bytes_def Let_def)
  have cnt: "ucast (u16_at ?d 0) = (of_nat (length ps) :: u32)"
    using u16_at_count [of "[]" ps] unat_of_nat_u16 [OF assms(4)] by (metis append_Nil list.size(3) of_nat_unat)
  have "unat (of_nat (length ps) :: u32) = length ps" using assms(4) by (intro unat_of_nat_less) simp
  then show ?thesis
    using g' len cnt read_params_count [OF assms(3), of "[]"] quiet_link.moved_transfer [OF q g'(2)]
    by (intro exI [of _ g']) (auto simp: params_from_def numeral_2_eq_2)
qed

lemma offers_single:
  assumes "length d + 6 \<le> unat maxlen" "unat maxlen \<le> 1023" "0 < fuel" "7 \<le> room (cb_dev (kh_cable h))"
    and "avail (cb_dev (kh_cable h)) = wire_of [vtl_header (packet_of ty d) @ d] @ rest"
  shows "offers avail room maxlen fuel (packet_of ty d) rest h"
    "vtl_pieces maxlen (packet_of ty d) = [vtl_header (packet_of ty d) @ d]"
proof -
  show p: "vtl_pieces maxlen (packet_of ty d) = [vtl_header (packet_of ty d) @ d]"
    unfolding vtl_pieces_def using assms(1) by (simp add: chop_last)
  show "offers avail room maxlen fuel (packet_of ty d) rest h"
    unfolding offers_def p using assms by simp
qed

lemma dusb_param_answer_witness:
  "\<exists>g'. dusb_cmd_r_param_data 1 (vti_env vti_works) 1
      (vti_handle CALC_TI84P_USB (vti_loaded (wire_of
        [vtl_header (packet_of DUSB_VPKT_PARM_DATA (param_bytes [(8, 0, [5])])) @ param_bytes [(8, 0, [5])]])))
      = Some (None, Some [\<lparr>dp_id = 8, dp_ok = True, dp_size = 1, dp_data = Some [5]\<rparr>], g')"
proof -
  let ?ps = "[(8, 0, [5])] :: dusb_reply list" let ?d = "param_bytes ?ps"
  let ?w = "wire_of [vtl_header (packet_of DUSB_VPKT_PARM_DATA ?d) @ ?d]"
  let ?g = "vti_handle CALC_TI84P_USB (vti_loaded ?w)"
  have d: "length ?d = 8" by (simp add: param_bytes_def Let_def)
  then have w: "length ?w \<le> 255" by simp
  have "link_ready vti_ok ?g" using w by simp
  moreover have "offers vti_avail vti_room 250 1 (packet_of DUSB_VPKT_PARM_DATA ?d) [] ?g"
    using d w by (intro offers_single(1)) simp_all
  ultimately show ?thesis
    using dusb_param_answer [OF quiet_vti.quiet_link_axioms [of vti_works], of ?g ?ps 250 1 "[]" _ 1, OF _ _ _ _ refl]
    by auto
qed

text \<open>
  A variable header is read into the arrays of the caller exactly when both names, with
  their terminators, and the attributes fit; nothing in the function checks that they do, so that
  with a longer name or with more attributes memory behind an array is overwritten.
\<close>

theorem dusb_var_header_bounds:
  assumes "quiet_link send recv sent avail room ok E" "link_ready ok g"
    and "length folder < 256" "length name < 256" "farr \<noteq> []" "narr \<noteq> []" "list_all reply_ok ps"
    and "length ps < 65536" and v: "v = packet_of DUSB_VPKT_VAR_HDR (var_header_bytes folder name ps)"
    and "offers avail room maxlen fuel v rest g" "pieces = vtl_pieces maxlen v"
  shows "\<exists>g'. dusb_cmd_r_var_header fuel E (Some farr) (Some narr) attrs g =
      Some (if length farr \<le> length folder \<or> length narr \<le> length name \<or> attrs < length ps
            then (Some UNDEFINED_BEHAVIOUR, None, g')
            else (None, Some (folder @ 0 # drop (length folder + 1) farr, name @ 0 # drop (length name + 1) narr,
                              map param_of ps), g'))
    \<and> transfer sent avail ok g (acks (length pieces)) (length (wire_of pieces)) g'"
proof -
  note q = assms(1)
  have "quiet_link.ready ok g" using assms(2) quiet_link.link_ready_iff [OF q] by blast
  from quiet_link.receive_offered [OF q this assms(10) [unfolded v]]
  obtain pkt g' where g': "catch_delay (receive_new fuel E) g = Some (None, pkt, g')"
      "vtl_bytes pkt = var_header_bytes folder name ps" "vt_type pkt = DUSB_VPKT_VAR_HDR"
      "quiet_link.moved sent avail room ok g (acks (length pieces)) (length (wire_of pieces)) g'"
    unfolding assms(11) v by fastforce
  then have "dusb_cmd_r_var_header fuel E (Some farr) (Some narr) attrs g =
      Some (case read_var_header (vtl_bytes pkt) (farr[0 := 0]) (narr[0 := 0]) attrs of
              None \<Rightarrow> (Some UNDEFINED_BEHAVIOUR, None, g') | Some x \<Rightarrow> (None, Some x, g'))"
    using assms(5,6) by (simp add: dusb_cmd_r_var_header_def expect_def Let_def)
  then show ?thesis
    using read_var_header_ok [OF assms(3-8), of attrs] g'(2) quiet_link.moved_transfer [OF q g'(4)]
    by (intro exI [of _ g']) simp
qed

lemma dusb_var_header_bounds_witness:
  "\<exists>g'. dusb_cmd_r_var_header 1 (vti_env vti_works) (Some [7]) (Some [7, 7]) 0
      (vti_handle CALC_TI84P_USB (vti_loaded (wire_of
        [vtl_header (packet_of DUSB_VPKT_VAR_HDR (var_header_bytes [] [0x41] [])) @ var_header_bytes [] [0x41] []])))
      = Some (None, Some ([0], [0x41, 0], []), g')"
proof -
  let ?d = "var_header_bytes [] [0x41] []" let ?v = "packet_of DUSB_VPKT_VAR_HDR ?d"
  let ?w = "wire_of [vtl_header ?v @ ?d]" let ?g = "vti_handle CALC_TI84P_USB (vti_loaded ?w)"
  have d: "length ?d = 6" by (simp add: var_header_bytes_def text_bytes_def param_bytes_def Let_def)
  then have w: "length ?w \<le> 255" by simp
  have "link_ready vti_ok ?g" using w by simp
  moreover have "offers vti_avail vti_room 250 1 ?v [] ?g"
    using d w by (intro offers_single(1)) simp_all
  ultimately show ?thesis
    using dusb_var_header_bounds [OF quiet_vti.quiet_link_axioms [of vti_works], of ?g "[]" "[0x41]" "[7]" "[7, 7]" "[]"
        ?v 250 1 "[]" _ 0, OF _ _ _ _ _ _ _ refl _ refl]
    by auto
qed

lemma dusb_variable_packets_witness:
  "dusb_cmd_s_rts 3 (vti_env vti_works) (Some []) (Some [0x41]) 2 0 (Some []) (vti_handle CALC_TI84P_USB (vti_loaded []))
     = Some (dusb_send_data (vti_env vti_works)
         (packet_of DUSB_VPKT_RTS [0, 1, 0x41, 0, 0, 0, 0, 2, 1, 0, 0]) (vti_handle CALC_TI84P_USB (vti_loaded [])))
   \<and> dusb_cmd_s_var_delete 3 (vti_env vti_works) (Some []) (Some [0x41]) 0 (Some []) (vti_handle CALC_TI84P_USB (vti_loaded []))
     = Some (dusb_send_data (vti_env vti_works)
         (packet_of DUSB_VPKT_MODIF_VAR [0, 1, 0x41, 0, 0, 0, 1, 0, 0, 0, 0]) (vti_handle CALC_TI84P_USB (vti_loaded [])))"
  using dusb_variable_packets [of "vti_handle CALC_TI84P_USB (vti_loaded [])" "[]" "[]" "[]" "[0x41]" "[]" "[]" "[]" 3
      "vti_env vti_works" 2]
  by (simp add: vti_handle_def path_bytes_def name_bytes_def attributes_bytes_def Let_def MSB_def LSB_def MSW_def LSW_def)

text \<open>
  The contents of a variable arrive as they were sent, unless they are empty: then the
  receiver takes the null pointer of an empty allocation for a lack of memory.
\<close>

theorem dusb_content_roundtrip:
  assumes "quiet_link send recv sent avail room ok E" "link_ready ok g"
    and "length d < 2 ^ 31" "offers avail room maxlen fuel (packet_of DUSB_VPKT_VAR_CNTS d) rest g"
    and "pieces = vtl_pieces maxlen (packet_of DUSB_VPKT_VAR_CNTS d)"
  shows "dusb_cmd_s_var_content E' (of_nat (length d)) (Some d) h
      = dusb_send_data E' (packet_of DUSB_VPKT_VAR_CNTS d) h
    \<and> (\<exists>g'. dusb_cmd_r_var_content fuel E g =
          Some (if d = [] then (Some ERR_MALLOC, Some (0, None), g') else (None, Some (of_nat (length d), Some d), g'))
        \<and> transfer sent avail ok g (acks (length pieces)) (length (wire_of pieces)) g')"
proof
  have len: "length d < 2 ^ 32" using assms(3) by simp
  have n: "unat (of_nat (length d) :: u32) = length d" using len by (intro unat_of_nat_less) simp
  have "put_data (of_nat (length d)) d (filled (length d) []) = filled (length d) d"
    by (simp add: put_data_def n memcpy_from_def put_filled)
  then show "dusb_cmd_s_var_content E' (of_nat (length d)) (Some d) h
      = dusb_send_data E' (packet_of DUSB_VPKT_VAR_CNTS d) h"
    by (simp add: dusb_cmd_s_var_content_def fresh_exactly [OF len] send_exactly [OF refl len refl])
  note q = assms(1)
  have "quiet_link.ready ok g" using assms(2) quiet_link.link_ready_iff [OF q] by blast
  from quiet_link.expect_offered [OF q this assms(4), of None "\<lambda>pkt h. let (r, x) = content_from pkt in (r, x, h)"]
  obtain pkt g' where g': "dusb_cmd_r_var_content fuel E g = Some (let (r, x) = content_from pkt in (r, x, g'))"
      "vtl_bytes pkt = d" "vt_size pkt = of_nat (length d)"
      "quiet_link.moved sent avail room ok g (acks (length pieces)) (length (wire_of pieces)) g'"
    unfolding dusb_cmd_r_var_content_def assms(5) by auto
  have "memcpy (replicate (length d) 0) 0 d 0 (length d) = Some d"
    by (simp add: memcpy_eq)
  then show "\<exists>g'. dusb_cmd_r_var_content fuel E g =
          Some (if d = [] then (Some ERR_MALLOC, Some (0, None), g') else (None, Some (of_nat (length d), Some d), g'))
        \<and> transfer sent avail ok g (acks (length pieces)) (length (wire_of pieces)) g'"
    using g' n quiet_link.moved_transfer [OF q g'(4)] by (intro exI [of _ g']) (simp add: content_from_def g_malloc0_def)
qed

lemma dusb_content_roundtrip_witness:
  "\<exists>g'. dusb_cmd_r_var_content 1 (vti_env vti_works)
      (vti_handle CALC_TI84P_USB (vti_loaded (wire_of [vtl_header (packet_of DUSB_VPKT_VAR_CNTS [9, 8]) @ [9, 8]])))
      = Some (None, Some (2, Some [9, 8]), g')"
proof -
  let ?d = "[9, 8] :: bytes" let ?v = "packet_of DUSB_VPKT_VAR_CNTS ?d"
  let ?w = "wire_of [vtl_header ?v @ ?d]" let ?g = "vti_handle CALC_TI84P_USB (vti_loaded ?w)"
  have w: "length ?w \<le> 255" by simp
  have "link_ready vti_ok ?g" using w by simp
  moreover have "offers vti_avail vti_room 250 1 ?v [] ?g"
    using w by (intro offers_single(1)) simp_all
  ultimately show ?thesis
    using dusb_content_roundtrip [OF quiet_vti.quiet_link_axioms [of vti_works], of ?g ?d 250 1 "[]" _ "vti_env vti_works" ?g,
        OF _ _ _ refl]
    by auto
qed

text \<open>
  A packet that runs a program or presses a key. A key code is written over the first bytes of
  the arguments, and two bytes at the end of the packet stay zero; on models other than the
  TI-89 Titanium the length of the folder is sent although the folder is not.
\<close>

theorem dusb_execute_packet:
  assumes "\<not> kh_needs_mode_set h" "length folder + length name + length args + 8 < 2 ^ 32"
    and head: "head = [of_nat (length folder)]
        @ (if kh_model h = CALC_TI89T_USB \<and> folder \<noteq> [] then folder @ [0] else [])
        @ (if name = [] then [0] else name_bytes name)"
    and key: "key = (if kh_model h = CALC_TI89T_USB \<or> MSB code = 0 then [MSB code, LSB code] else [LSB code, MSB code])"
  shows "dusb_cmd_s_execute fuel E (Some folder) (Some name) action (Some args) code h
    = Some (dusb_send_data E (packet_of DUSB_VPKT_EXECUTE
        (head @ [action] @ (if action = 0x03 then key @ drop 2 (args @ [0, 0]) else args))) h)"
proof -
  define over where "over = drop 2 (args @ [0 :: u8, 0])"
  define d where "d = head @ [action] @ (if action = 0x03 then key @ over else args)"
  have key2: "length key = 2" "length over = length args" by (simp_all add: key over_def)
  have len: "length d < 2 ^ 32" using assms(2) by (simp add: d_def head key2 name_bytes_def)
  let ?f = "kh_model h = CALC_TI89T_USB \<and> folder \<noteq> []"
  define pks where "pks = (let p = 3; p = (if ?f then p + (of_nat (length folder) + 1) else p);
     p = (if name \<noteq> [] then p + (of_nat (length name) + 1) else p); p = p + of_nat (length args)
     in if action = 0x03 then p + 2 else p :: u32)"
  have pks: "pks = of_nat (length d)" by (simp add: pks_def d_def head key2 name_bytes_def Let_def)
  let ?n = "length d"
  have 1: "put [action] (let c = put [of_nat (length folder)] (filled ?n []);
       c = (if ?f then put (folder @ [0]) c else c); c = put [of_nat (length name)] c
     in if name \<noteq> [] then put (name @ [0]) c else c) = filled ?n (head @ [action])"
    by (simp add: put_filled head d_def key2 name_bytes_def Let_def)
  have 2: "put_stay args (filled ?n (head @ [action]))
     = Some (head @ [action] @ args @ replicate (?n + 6 - length head - 1 - length args) 0, length head + 1)"
    by (simp add: put_stay_def filled_def memcpy_at_def d_def key2)
  have 3: "put key (put_stay args (filled ?n (head @ [action])))
     = Some (d @ replicate 6 0, length head + 3)" if "action = 0x03"
  proof -
    have "?n + 6 - length head - 1 - length args = 8" using that by (simp add: d_def key2)
    then show ?thesis
      unfolding 2 using key2 that
      by (simp add: put_def memcpy_at_def d_def over_def) (cases args; cases "tl args"; simp add: eval_nat_numeral)
  qed
  have 4: "put_stay args (filled ?n (head @ [action])) = Some (d @ replicate 6 0, length head + 1)" if "action \<noteq> 0x03"
    unfolding 2 using that by (simp add: d_def)
  have send: "send_filled E pks DUSB_VPKT_EXECUTE (Some (d @ replicate 6 0, j)) h
      = dusb_send_data E (packet_of DUSB_VPKT_EXECUTE d) h" for j
    using len unfolding send_filled_def pks
    by (subst unat_of_nat_less) (simp_all add: packet_of_def dusb_vtl_pkt_new_ex_def)
  have fresh: "fresh pks = filled ?n []" unfolding pks by (rule fresh_exactly [OF len])
  have keys: "(if kh_model h = CALC_TI89T_USB \<or> MSB code = 0 then put16 code c else put [LSB code, MSB code] c) = put key c"
    for c by (simp add: key put16_def)
  have "dusb_cmd_s_execute fuel E (Some folder) (Some name) action (Some args) code h
      = Some (send_filled E pks DUSB_VPKT_EXECUTE
          (if action = 0x03 then put key (put_stay args (filled ?n (head @ [action])))
           else put_stay args (filled ?n (head @ [action]))) h)"
    unfolding dusb_cmd_s_execute_def prod.case option.case resynced_idle [OF assms(1)] keys
    unfolding 1 [symmetric] fresh [symmetric] pks_def by (simp add: Let_def)
  then show ?thesis unfolding over_def [symmetric] d_def [symmetric] using 3 4 by (simp add: send)
qed

lemma dusb_execute_packet_witness:
  "dusb_cmd_s_execute 3 (vti_env vti_works) (Some []) (Some []) 0x03 (Some [0x31, 0x32, 0x33]) 0x05
      (vti_handle CALC_TI84P_USB (vti_loaded []))
     = Some (dusb_send_data (vti_env vti_works) (packet_of DUSB_VPKT_EXECUTE [0, 0, 3, 0, 5, 0x33, 0, 0])
         (vti_handle CALC_TI84P_USB (vti_loaded [])))"
  using dusb_execute_packet [of "vti_handle CALC_TI84P_USB (vti_loaded [])" "[]" "[]" "[0x31, 0x32, 0x33]" _ _ 5,
      OF _ _ refl refl, of 3 "vti_env vti_works" 3]
  by (simp add: vti_handle_def MSB_def LSB_def)



end
