(* ===== verification/CmdZ80.thy ===== *)
theory CmdZ80
  imports DbusPkt
begin

text \<open>
  The commands of the Z80 calculators on the link cable, \<^verbatim>\<open>libticalcs/trunk/src/cmdz80.cc\<close>:
  each sending function lays a variable header out in an array of its stack frame and hands
  it to \<open>dbus_send\<close>; each receiving function takes a packet into the handle's buffer, checks
  the command and copies the header out to the caller's variables. Variable names are byte
  arrays, terminator included. The conversions of names to UTF-8 only feed the log and are
  not part of the model; the handle is valid.
\<close>

section \<open>Machines, commands and variable types\<close>

abbreviation "DBUS_MID_PC_TIXX \<equiv> (0x00 :: u8)"
abbreviation "DBUS_MID_PC_TI73 \<equiv> (0x07 :: u8)"
abbreviation "DBUS_MID_PC_TI82 \<equiv> (0x02 :: u8)"
abbreviation "DBUS_MID_PC_TI83 \<equiv> (0x03 :: u8)"
abbreviation "DBUS_MID_PC_TI83p \<equiv> (0x23 :: u8)"
abbreviation "DBUS_MID_PC_TI85 \<equiv> (0x05 :: u8)"
abbreviation "DBUS_MID_PC_TI86 \<equiv> (0x06 :: u8)"

abbreviation "DBUS_CMD_ELD \<equiv> (0x29 :: u8)"
abbreviation "DBUS_CMD_DLD \<equiv> (0x2A :: u8)"
abbreviation "DBUS_CMD_EKE \<equiv> (0x2B :: u8)"
abbreviation "DBUS_CMD_DKE \<equiv> (0x2C :: u8)"
abbreviation "DBUS_CMD_VER \<equiv> (0x2D :: u8)"
abbreviation "DBUS_CMD_GID \<equiv> (0x6E :: u8)"
abbreviation "DBUS_CMD_DMP \<equiv> (0x6F :: u8)"
abbreviation "DBUS_CMD_DEL \<equiv> (0x88 :: u8)"

abbreviation "TI7383p_BKUP \<equiv> (0x13 :: u8)"
abbreviation "TI8586_BKUP \<equiv> (0x1D :: u8)"
abbreviation "TI83p_APPL \<equiv> (0x24 :: u8)"
abbreviation "TI83p_IDLIST \<equiv> (0x26 :: u8)"
abbreviation "TI83p_GETCERT \<equiv> (0x27 :: u8)"
abbreviation "TI86_DIR \<equiv> (0x15 :: u8)"
abbreviation "TI86_ZRCL \<equiv> (0x1B :: u8)"
abbreviation "TI86_BKUP \<equiv> (0x1D :: u8)"
abbreviation "ATTRB_NONE \<equiv> (0 :: u8)"
abbreviation "ATTRB_ARCHIVED \<equiv> (3 :: u8)"

definition tiz80_model_to_dbus_mid :: "calc_model \<Rightarrow> u8" where
  "tiz80_model_to_dbus_mid m =
     (case m of
        CALC_TI73 \<Rightarrow> DBUS_MID_PC_TI73
      | CALC_TI82 \<Rightarrow> DBUS_MID_PC_TI82
      | CALC_TI83 \<Rightarrow> DBUS_MID_PC_TI83
      | CALC_TI83P \<Rightarrow> DBUS_MID_PC_TI83p
      | CALC_TI84P \<Rightarrow> DBUS_MID_PC_TI83p
      | CALC_TI84PC \<Rightarrow> DBUS_MID_PC_TI83p
      | CALC_TI85 \<Rightarrow> DBUS_MID_PC_TI85
      | CALC_TI86 \<Rightarrow> DBUS_MID_PC_TI86
      | _ \<Rightarrow> DBUS_MID_PC_TIXX)"

definition tiz80_handle_to_dbus_mid :: "'d calc_handle \<Rightarrow> u8" where
  "tiz80_handle_to_dbus_mid h = tiz80_model_to_dbus_mid (kh_model h)"

definition mid_7383p :: "calc_model \<Rightarrow> u8" where
  "mid_7383p m = (if m = CALC_TI73 then DBUS_MID_PC_TI73 else DBUS_MID_PC_TI83p)"

definition mid_8283 :: "calc_model \<Rightarrow> u8" where
  "mid_8283 m =
     (if m = CALC_TI82 \<or> m = CALC_CBL \<or> m = CALC_CBR \<or> m = CALC_CBL2 \<or> m = CALC_CBR2
         \<or> m = CALC_LABPRO \<or> m = CALC_TIPRESENTER
      then DBUS_MID_PC_TI82 else DBUS_MID_PC_TI83)"

definition mid_8586 :: "calc_model \<Rightarrow> u8" where
  "mid_8586 m = (if m = CALC_TI85 then DBUS_MID_PC_TI85 else DBUS_MID_PC_TI86)"

text \<open>The macros \<^verbatim>\<open>EXTRAS\<close> (version and attribute bytes) and \<^verbatim>\<open>TI8283_BKUP\<close>.\<close>

definition extras :: "calc_model \<Rightarrow> u16" where
  "extras m = (if m = CALC_TI73 then 0 else 2)"

definition bkup_8283 :: "calc_model \<Rightarrow> u8" where
  "bkup_8283 m = (if m = CALC_TI82 then 0x0F else 0x13)"

section \<open>Sending\<close>

text \<open>The three fields every variable header starts with, and sending an array laid out so far.\<close>

definition put_header :: "u16 \<Rightarrow> u8 \<Rightarrow> bytes \<Rightarrow> bytes" where
  "put_header varsize vartype buf = buf[0 := LSB varsize, 1 := MSB varsize, 2 := vartype]"

definition put_attr :: "u8 \<Rightarrow> u8 \<Rightarrow> bytes \<Rightarrow> bytes" where
  "put_attr version varattr buf =
     buf[11 := version, 12 := (if varattr = ATTRB_ARCHIVED then 0x80 else 0x00)]"

definition send_array ::
    "'d calc_env \<Rightarrow> u8 \<Rightarrow> u8 \<Rightarrow> u16 \<Rightarrow> bytes option \<Rightarrow> 'd calc_handle \<Rightarrow> ret \<times> 'd calc_handle" where
  "send_array E target cmd len buffer h =
     (case buffer of None \<Rightarrow> (Some UNDEFINED_BEHAVIOUR, h)
      | Some buf \<Rightarrow> dbus_send E target cmd len (Some buf) h)"

text \<open>\<^verbatim>\<open>VALIDATE_NONNULL\<close> of a name.\<close>

definition with_name ::
    "bytes option \<Rightarrow> 'd calc_handle \<Rightarrow> (bytes \<Rightarrow> ret \<times> 'd calc_handle) \<Rightarrow> ret \<times> 'd calc_handle" where
  "with_name name h k = (case name of None \<Rightarrow> (Some ERR_INVALID_PARAMETER, h) | Some n \<Rightarrow> k n)"

definition tiz80_send_simple_cmd ::
    "'d calc_env \<Rightarrow> u8 \<Rightarrow> u8 \<Rightarrow> u16 \<Rightarrow> bytes option \<Rightarrow> 'd calc_handle \<Rightarrow> ret \<times> 'd calc_handle" where
  "tiz80_send_simple_cmd E target cmd len data h = dbus_send E target cmd len data h"

definition tiz80_send_bkup_VAR ::
    "'d calc_env \<Rightarrow> bytes \<Rightarrow> bytes \<Rightarrow> u8 \<Rightarrow> 'd calc_handle \<Rightarrow> ret \<times> 'd calc_handle" where
  "tiz80_send_bkup_VAR E buffer varname target h =
     send_array E target DBUS_CMD_VAR 9 (memcpy buffer 3 varname 0 6) h"

definition ti73_send_VAR ::
    "'d calc_env \<Rightarrow> u16 \<Rightarrow> u8 \<Rightarrow> bytes option \<Rightarrow> u8 \<Rightarrow> u8 \<Rightarrow> bytes \<Rightarrow> 'd calc_handle
       \<Rightarrow> ret \<times> 'd calc_handle" where
  "ti73_send_VAR E varsize vartype varname varattr version junk h = with_name varname h (\<lambda>name.
     (let buf = put_header varsize vartype (local_array 16 junk); target = mid_7383p (kh_model h)
      in if vartype \<noteq> TI7383p_BKUP \<or> version \<noteq> 0 then
           send_array E target DBUS_CMD_VAR (11 + extras (kh_model h))
             (map_option (put_attr version varattr) (memcpy buf 3 name 0 8)) h
         else tiz80_send_bkup_VAR E buf name target h))"

definition ti82_send_VAR ::
    "'d calc_env \<Rightarrow> u16 \<Rightarrow> u8 \<Rightarrow> bytes option \<Rightarrow> bytes \<Rightarrow> 'd calc_handle \<Rightarrow> ret \<times> 'd calc_handle" where
  "ti82_send_VAR E varsize vartype varname junk h = with_name varname h (\<lambda>name.
     (let buf = put_header varsize vartype (local_array 16 junk); target = mid_8283 (kh_model h)
      in if vartype \<noteq> bkup_8283 (kh_model h) then
           send_array E target DBUS_CMD_VAR 11 (memcpy buf 3 name 0 8) h
         else tiz80_send_bkup_VAR E buf name target h))"

text \<open>
  The TI-85 and TI-86 prefix the name with its length. \<open>clamped_len\<close> is the length written,
  at most 8.
\<close>

definition clamped_len :: "bytes \<Rightarrow> nat option" where
  "clamped_len name = map_option (min 8) (strlen name)"

definition put_prefixed_name :: "bytes \<Rightarrow> bytes \<Rightarrow> (nat \<times> bytes) option" where
  "put_prefixed_name buf name =
     Option.bind (clamped_len name) (\<lambda>len.
       map_option (Pair len) (memcpy (buf[3 := of_nat len]) 4 name 0 len))"

definition send_prefixed ::
    "'d calc_env \<Rightarrow> u8 \<Rightarrow> u8 \<Rightarrow> (nat \<times> bytes) option \<Rightarrow> 'd calc_handle \<Rightarrow> ret \<times> 'd calc_handle" where
  "send_prefixed E target cmd named h =
     (case named of None \<Rightarrow> (Some UNDEFINED_BEHAVIOUR, h)
      | Some (len, buf) \<Rightarrow> dbus_send E target cmd (of_nat (4 + len)) (Some buf) h)"

definition ti85_send_VAR ::
    "'d calc_env \<Rightarrow> u16 \<Rightarrow> u8 \<Rightarrow> bytes option \<Rightarrow> bytes \<Rightarrow> 'd calc_handle \<Rightarrow> ret \<times> 'd calc_handle" where
  "ti85_send_VAR E varsize vartype varname junk h = with_name varname h (\<lambda>name.
     (let buf = put_header varsize vartype (local_array 16 junk); target = mid_8586 (kh_model h)
      in if vartype \<noteq> TI8586_BKUP then
           send_prefixed E target DBUS_CMD_VAR (put_prefixed_name buf name) h
         else tiz80_send_bkup_VAR E buf name target h))"

definition ti73_send_VAR2 ::
    "'d calc_env \<Rightarrow> u32 \<Rightarrow> u8 \<Rightarrow> u8 \<Rightarrow> u16 \<Rightarrow> u16 \<Rightarrow> bytes \<Rightarrow> 'd calc_handle \<Rightarrow> ret \<times> 'd calc_handle" where
  "ti73_send_VAR2 E len type flag off page junk h =
     (let buf = (local_array 11 junk)[0 := LSB (LSW len), 1 := MSB (LSW len), 2 := type,
                  3 := LSB (MSW len), 4 := MSB (MSW len), 5 := flag, 6 := LSB off, 7 := MSB off,
                  8 := LSB page, 9 := MSB page]
      in dbus_send E (mid_7383p (kh_model h)) DBUS_CMD_VAR 10 (Some buf) h)"

definition tiz80_send_CTS :: "'d calc_env \<Rightarrow> u8 \<Rightarrow> 'd calc_handle \<Rightarrow> ret \<times> 'd calc_handle" where
  "tiz80_send_CTS E target h = tiz80_send_simple_cmd E target DBUS_CMD_CTS 0 None h"

definition tiz80_send_XDP ::
    "'d calc_env \<Rightarrow> u16 \<Rightarrow> bytes option \<Rightarrow> u8 \<Rightarrow> 'd calc_handle \<Rightarrow> ret \<times> 'd calc_handle" where
  "tiz80_send_XDP E len data target h = dbus_send E target DBUS_CMD_XDP len data h"

definition tiz80_send_SKP :: "'d calc_env \<Rightarrow> u8 \<Rightarrow> u8 \<Rightarrow> 'd calc_handle \<Rightarrow> ret \<times> 'd calc_handle" where
  "tiz80_send_SKP E rej_code target h = dbus_send E target DBUS_CMD_SKP 1 (Some [rej_code]) h"

definition tiz80_send_ACK :: "'d calc_env \<Rightarrow> u8 \<Rightarrow> 'd calc_handle \<Rightarrow> ret \<times> 'd calc_handle" where
  "tiz80_send_ACK E target h = tiz80_send_simple_cmd E target DBUS_CMD_ACK 2 None h"

definition tiz80_send_ERR :: "'d calc_env \<Rightarrow> u8 \<Rightarrow> 'd calc_handle \<Rightarrow> ret \<times> 'd calc_handle" where
  "tiz80_send_ERR E target h = tiz80_send_simple_cmd E target DBUS_CMD_ERR 2 None h"

definition ti73_send_RDY :: "'d calc_env \<Rightarrow> 'd calc_handle \<Rightarrow> ret \<times> 'd calc_handle" where
  "ti73_send_RDY E h = tiz80_send_simple_cmd E (mid_7383p (kh_model h)) DBUS_CMD_RDY 2 None h"

definition tiz80_send_SCR :: "'d calc_env \<Rightarrow> u8 \<Rightarrow> 'd calc_handle \<Rightarrow> ret \<times> 'd calc_handle" where
  "tiz80_send_SCR E target h = tiz80_send_simple_cmd E target DBUS_CMD_SCR 2 None h"

definition ti80_send_SCR :: "'d calc_env \<Rightarrow> 'd calc_handle \<Rightarrow> ret \<times> 'd calc_handle" where
  "ti80_send_SCR E h = tiz80_send_simple_cmd E DBUS_MID_PC_TI80 DBUS_CMD_SCR 0 None h"

definition tiz80_send_EOT :: "'d calc_env \<Rightarrow> u8 \<Rightarrow> 'd calc_handle \<Rightarrow> ret \<times> 'd calc_handle" where
  "tiz80_send_EOT E target h = tiz80_send_simple_cmd E target DBUS_CMD_EOT 2 None h"

text \<open>Commands written to the cable directly, with the key code in the place of the length.\<close>

definition send_raw_dbus ::
    "'d calc_env \<Rightarrow> u16 \<Rightarrow> u8 \<Rightarrow> u8 \<Rightarrow> bytes option \<Rightarrow> bytes \<Rightarrow> 'd calc_handle \<Rightarrow> ret \<times> 'd calc_handle" where
  "send_raw_dbus E len target cmd data bs h = with_busy h (\<lambda>h.
     (let ev = DBUSPacketData len target cmd data;
          (r, h) = fire E CALC_EVENT_TYPE_BEFORE_SEND_DBUS_PKT None ev h;
          (r, h) = andthen (r, h) (cable_send E bs)
      in fire E CALC_EVENT_TYPE_AFTER_SEND_DBUS_PKT r ev h))"

definition tiz80_send_KEY :: "'d calc_env \<Rightarrow> u16 \<Rightarrow> u8 \<Rightarrow> 'd calc_handle \<Rightarrow> ret \<times> 'd calc_handle" where
  "tiz80_send_KEY E scancode target h =
     send_raw_dbus E scancode target DBUS_CMD_KEY None
       [target, DBUS_CMD_KEY, LSB scancode, MSB scancode] h"

definition ti73_send_REQ ::
    "'d calc_env \<Rightarrow> u16 \<Rightarrow> u8 \<Rightarrow> bytes option \<Rightarrow> u8 \<Rightarrow> u8 \<Rightarrow> bytes \<Rightarrow> 'd calc_handle
       \<Rightarrow> ret \<times> 'd calc_handle" where
  "ti73_send_REQ E varsize vartype varname varattr version junk h = with_name varname h (\<lambda>name.
     (let buf = map_option (put_attr version varattr)
                  (memcpy (put_header varsize vartype (local_array 16 junk)) 3 name 0 8)
      in if vartype \<noteq> TI83p_IDLIST \<and> vartype \<noteq> TI83p_GETCERT then
           send_array E (mid_7383p (kh_model h)) DBUS_CMD_REQ (11 + extras (kh_model h)) buf h
         else if vartype \<noteq> TI83p_GETCERT \<and> kh_model h \<noteq> CALC_TI73 then
           send_array E (mid_7383p (kh_model h)) DBUS_CMD_REQ 11 buf h
         else send_array E DBUS_MID_PC_TI73 DBUS_CMD_REQ 3 buf h))"

definition ti82_send_REQ ::
    "'d calc_env \<Rightarrow> u16 \<Rightarrow> u8 \<Rightarrow> bytes option \<Rightarrow> bytes \<Rightarrow> 'd calc_handle \<Rightarrow> ret \<times> 'd calc_handle" where
  "ti82_send_REQ E varsize vartype varname junk h = with_name varname h (\<lambda>name.
     send_array E (mid_8283 (kh_model h)) DBUS_CMD_REQ 11
       (memcpy (put_header varsize vartype (local_array 16 junk)) 3 name 0 8) h)"

definition ti85_send_REQ ::
    "'d calc_env \<Rightarrow> u16 \<Rightarrow> u8 \<Rightarrow> bytes option \<Rightarrow> bytes \<Rightarrow> 'd calc_handle \<Rightarrow> ret \<times> 'd calc_handle" where
  "ti85_send_REQ E varsize vartype varname junk h = with_name varname h (\<lambda>name.
     (if kh_model h = CALC_TI86 \<and> TI86_DIR \<le> vartype \<and> vartype \<le> TI86_ZRCL then
        send_array E DBUS_MID_PC_TI86 DBUS_CMD_REQ 5
          (map_option (\<lambda>b. b[2 := vartype]) (memcpy_at (local_array 16 junk) 0 (replicate 6 0))) h
      else if kh_model h = CALC_TI86 \<and> vartype = TI86_BKUP then
        send_array E DBUS_MID_PC_TI86 DBUS_CMD_REQ 11
          (map_option (\<lambda>b. b[2 := vartype]) (memcpy_at (local_array 16 junk) 0 (replicate 12 0))) h
      else
        send_prefixed E (mid_8586 (kh_model h)) DBUS_CMD_REQ
          (put_prefixed_name (put_header varsize vartype (local_array 16 junk)) name) h))"

definition ti73_send_REQ2 ::
    "'d calc_env \<Rightarrow> u16 \<Rightarrow> u8 \<Rightarrow> bytes option \<Rightarrow> bytes \<Rightarrow> 'd calc_handle \<Rightarrow> ret \<times> 'd calc_handle" where
  "ti73_send_REQ2 E appsize apptype appname junk h = with_name appname h (\<lambda>name.
     send_array E (mid_7383p (kh_model h)) DBUS_CMD_REQ 11
       (memcpy (put_header appsize apptype (local_array 16 junk)) 3 name 0 8) h)"

definition ti73_send_RTS ::
    "'d calc_env \<Rightarrow> u16 \<Rightarrow> u8 \<Rightarrow> bytes option \<Rightarrow> u8 \<Rightarrow> u8 \<Rightarrow> bytes \<Rightarrow> 'd calc_handle
       \<Rightarrow> ret \<times> 'd calc_handle" where
  "ti73_send_RTS E varsize vartype varname varattr version junk h = with_name varname h (\<lambda>name.
     (let buf = map_option (put_attr version varattr)
                  (memcpy (put_header varsize vartype (local_array 16 junk)) 3 name 0 8)
      in send_array E (mid_7383p (kh_model h)) DBUS_CMD_RTS
           (if vartype \<noteq> TI7383p_BKUP \<or> version \<noteq> 0 then 11 + extras (kh_model h) else 9) buf h))"

definition ti82_send_RTS ::
    "'d calc_env \<Rightarrow> u16 \<Rightarrow> u8 \<Rightarrow> bytes option \<Rightarrow> bytes \<Rightarrow> 'd calc_handle \<Rightarrow> ret \<times> 'd calc_handle" where
  "ti82_send_RTS E varsize vartype varname junk h = with_name varname h (\<lambda>name.
     send_array E (mid_8283 (kh_model h)) DBUS_CMD_RTS
       (if vartype \<noteq> bkup_8283 (kh_model h) then 11 else 9)
       (memcpy (put_header varsize vartype (local_array 16 junk)) 3 name 0 8) h)"

text \<open>The name field of a TI-85 request is padded with spaces.\<close>

definition ti85_send_RTS ::
    "'d calc_env \<Rightarrow> u16 \<Rightarrow> u8 \<Rightarrow> bytes option \<Rightarrow> bytes \<Rightarrow> 'd calc_handle \<Rightarrow> ret \<times> 'd calc_handle" where
  "ti85_send_RTS E varsize vartype varname junk h = with_name varname h (\<lambda>name.
     send_array E (mid_8586 (kh_model h)) DBUS_CMD_RTS 12
       (Option.bind (clamped_len name) (\<lambda>len.
        Option.bind (memcpy_at ((put_header varsize vartype (local_array 16 junk))[3 := of_nat len])
                       4 (replicate 8 0x20)) (\<lambda>buf.
        memcpy buf 4 name 0 len))) h)"

subsection \<open>Requests to laboratory equipment\<close>

text \<open>
  The name is optional here; the length is zero without one. The arrays have 16, 11, 11 and
  12 bytes, the name is copied at the offset each function has for it, and the rest of the
  array is cleared.
\<close>

definition optional_len :: "bytes option \<Rightarrow> nat option" where
  "optional_len varname = (case varname of None \<Rightarrow> Some 0 | Some name \<Rightarrow> clamped_len name)"

definition put_name_and_clear :: "bytes \<Rightarrow> nat \<Rightarrow> bytes option \<Rightarrow> bytes option" where
  "put_name_and_clear buf off varname =
     Option.bind (optional_len varname) (\<lambda>len.
     Option.bind (memcpy buf off (case varname of None \<Rightarrow> [0] | Some name \<Rightarrow> name) 0 len) (\<lambda>buf.
     memset_rest buf (off + len)))"

definition tiz80_send_RTS_lab_equipment_data ::
    "'d calc_env \<Rightarrow> u16 \<Rightarrow> u8 \<Rightarrow> bytes option \<Rightarrow> bytes \<Rightarrow> 'd calc_handle \<Rightarrow> ret \<times> 'd calc_handle" where
  "tiz80_send_RTS_lab_equipment_data E varsize target varname junk h =
     send_array E target DBUS_CMD_RTS 11
       (put_name_and_clear ((put_header varsize 0x01 (local_array 16 junk))[3 := 0x24]) 4 varname) h"

definition ti73_send_RTS_lab_equipment_data ::
    "'d calc_env \<Rightarrow> u16 \<Rightarrow> u8 \<Rightarrow> bytes option \<Rightarrow> bytes \<Rightarrow> 'd calc_handle \<Rightarrow> ret \<times> 'd calc_handle" where
  "ti73_send_RTS_lab_equipment_data E varsize target varname junk h =
     send_array E target DBUS_CMD_RTS 11
       (put_name_and_clear ((put_header varsize 0x01 (local_array 11 junk))[3 := 0x5D]) 4 varname) h"

definition ti8283_send_RTS_lab_equipment_data ::
    "'d calc_env \<Rightarrow> u16 \<Rightarrow> u8 \<Rightarrow> bytes option \<Rightarrow> bytes \<Rightarrow> 'd calc_handle \<Rightarrow> ret \<times> 'd calc_handle" where
  "ti8283_send_RTS_lab_equipment_data E varsize target varname junk h =
     send_array E target DBUS_CMD_RTS 11
       (put_name_and_clear ((put_header varsize 0x01 (local_array 11 junk))[3 := 0x5D, 4 := 0x01])
          5 varname) h"

text \<open>An empty name becomes ``B''. Byte 4 of the array is never written.\<close>

definition ti8586_send_RTS_lab_equipment_data ::
    "'d calc_env \<Rightarrow> u16 \<Rightarrow> u8 \<Rightarrow> bytes option \<Rightarrow> bytes \<Rightarrow> 'd calc_handle \<Rightarrow> ret \<times> 'd calc_handle" where
  "ti8586_send_RTS_lab_equipment_data E varsize target varname junk h =
     send_array E target DBUS_CMD_RTS 12
       (Option.bind (optional_len varname) (\<lambda>len.
        (let len = (if len = 0 then 1 else len);
             name = (case varname of None \<Rightarrow> [0x42, 0]
                     | Some name \<Rightarrow> if name ! 0 \<noteq> 0 then name else [0x42, 0])
         in Option.bind (memset_rest
                 ((put_header varsize 0x04 (local_array 12 junk))[3 := of_nat len]) 5) (\<lambda>buf.
            memcpy buf 5 name 0 len)))) h"

text \<open>The requests for a variable clear the array first; a missing name is the captured one.\<close>

definition clear_and_put_name :: "bytes \<Rightarrow> nat \<Rightarrow> bytes \<Rightarrow> nat \<Rightarrow> bytes option" where
  "clear_and_put_name buf off name len =
     Option.bind (memset_rest buf off) (\<lambda>buf. memcpy buf off name 0 len)"

definition ti73_send_REQ_lab_equipment_data ::
    "'d calc_env \<Rightarrow> u8 \<Rightarrow> bytes option \<Rightarrow> bytes \<Rightarrow> 'd calc_handle \<Rightarrow> ret \<times> 'd calc_handle" where
  "ti73_send_REQ_lab_equipment_data E target varname junk h =
     (let name = (case varname of None \<Rightarrow> [0x01, 0x41, 0] | Some name \<Rightarrow> name)
      in send_array E target DBUS_CMD_REQ 11 (Option.bind (clamped_len name) (\<lambda>len.
           clear_and_put_name ((local_array 11 junk)[0 := 0x0B, 1 := 0x00, 2 := 0x04]) 3 name len)) h)"

definition ti8283_send_REQ_lab_equipment_data ::
    "'d calc_env \<Rightarrow> u8 \<Rightarrow> bytes option \<Rightarrow> bytes \<Rightarrow> 'd calc_handle \<Rightarrow> ret \<times> 'd calc_handle" where
  "ti8283_send_REQ_lab_equipment_data E target varname junk h =
     (let name = (case varname of None \<Rightarrow> [0x5D, 0x00, 0] | Some name \<Rightarrow> name)
      in send_array E target DBUS_CMD_REQ 11 (Option.bind (clamped_len name) (\<lambda>len.
           clear_and_put_name ((local_array 11 junk)[0 := 0x0B, 1 := 0x00, 2 := 0x00]) 3 name len)) h)"

definition ti8586_send_REQ_lab_equipment_data ::
    "'d calc_env \<Rightarrow> u8 \<Rightarrow> bytes option \<Rightarrow> bytes \<Rightarrow> 'd calc_handle \<Rightarrow> ret \<times> 'd calc_handle" where
  "ti8586_send_REQ_lab_equipment_data E target varname junk h =
     (let name = (case varname of None \<Rightarrow> [0x43, 0] | Some name \<Rightarrow> name)
      in send_array E target DBUS_CMD_REQ 12 (Option.bind (clamped_len name) (\<lambda>len.
           clear_and_put_name
             ((local_array 12 junk)[0 := 0x0C, 1 := 0x00, 2 := 0x04, 3 := of_nat len]) 4 name len)) h)"

subsection \<open>Starting an assembly program\<close>

text \<open>
  A packet with a wrong checksum on purpose: its data overwrites the error handler of the
  TI-82 or TI-85. The addresses are the ones of the two models; \<open>asm_data\<close> is the data of
  the packet for a program of \<open>varsize\<close> bytes whose name starts with \<open>name0\<close>.
\<close>

definition asm_addresses :: "calc_model \<Rightarrow> u16 \<times> u16 \<times> u16 \<times> u16 \<times> u16" where
  "asm_addresses m =
     (if m = CALC_TI82 then (0x81fd, 0x821a, 0x8143, 0x8d0a, 0x8d0c)
      else (0x831e, 0x8338, 0x81bc, 0x8bdd, 0x8bdf))"

definition asm_packet :: "calc_model \<Rightarrow> u8 \<Rightarrow> u32 \<Rightarrow> bytes \<Rightarrow> nat \<times> bytes" where
  "asm_packet m name0 varsize junk =
     (let (ioData, errSP, onSP, tempMem, fpBase) = asm_addresses m;
          len16 = errSP + 2 - ioData; len = unat len16;
          buf = (local_array 50 junk)[0 := (if m = CALC_TI82 then DBUS_MID_PC_TI82 else DBUS_MID_PC_TI85),
                  1 := DBUS_CMD_VAR, 2 := LSB len16, 3 := MSB len16];
          buf = take 4 buf @ replicate len 0 @ drop (4 + len) buf;
          endptr = (if name0 = 0x24 then fpBase else tempMem);
          off16 = ucast (- (varsize - 2)) :: u16;
          buf = buf[4 := 0xed, 5 := 0x7b, 6 := LSB onSP, 7 := MSB onSP,
                    8 := 0x2a, 9 := LSB endptr, 10 := MSB endptr,
                    11 := 0x11, 12 := LSB off16, 13 := MSB off16, 14 := 0x19, 15 := 0xe9];
          es = unat (4 + errSP - ioData);
          buf = buf[es := LSB (errSP - 11), es + 1 := MSB (errSP - 11),
                    es - 4 := (if m = CALC_TI82 then 0x88 else 0),
                    es - 3 := LSB ioData, es - 2 := MSB ioData];
          sum = tifiles_checksum (take len (drop 4 buf)) + 0x5555
      in (len, buf[4 + len := LSB sum, 4 + len + 1 := MSB sum]))"

definition ti82_send_asm_exec ::
    "'d calc_env \<Rightarrow> (u8 \<times> u32) option \<Rightarrow> bytes \<Rightarrow> 'd calc_handle \<Rightarrow> ret \<times> 'd calc_handle" where
  "ti82_send_asm_exec E var junk h =
     (case var of None \<Rightarrow> (Some ERR_INVALID_PARAMETER, h)
      | Some (name0, varsize) \<Rightarrow>
          if kh_model h \<noteq> CALC_TI82 \<and> kh_model h \<noteq> CALC_TI85 then (Some ERR_UNSUPPORTED, h)
          else (let (len, buf) = asm_packet (kh_model h) name0 varsize junk
                in send_raw_dbus E (of_nat len) (buf ! 0) DBUS_CMD_VAR (Some (drop 4 buf))
                     (take (len + 6) buf) h))"

subsection \<open>The commands of the TI-73 family\<close>

definition ti73_send_VER :: "'d calc_env \<Rightarrow> 'd calc_handle \<Rightarrow> ret \<times> 'd calc_handle" where
  "ti73_send_VER E h = tiz80_send_simple_cmd E (mid_7383p (kh_model h)) DBUS_CMD_VER 2 None h"

definition ti73_send_DEL ::
    "'d calc_env \<Rightarrow> u16 \<Rightarrow> u8 \<Rightarrow> bytes option \<Rightarrow> bytes \<Rightarrow> 'd calc_handle \<Rightarrow> ret \<times> 'd calc_handle" where
  "ti73_send_DEL E varsize vartype varname junk h = with_name varname h (\<lambda>name.
     send_array E (mid_7383p (kh_model h)) DBUS_CMD_DEL 11
       (memcpy (put_header varsize (if vartype = TI83p_APPL then 0x14 else vartype)
                  (local_array 16 junk)) 3 name 0 8) h)"

definition ti73_send_DUMP :: "'d calc_env \<Rightarrow> u16 \<Rightarrow> 'd calc_handle \<Rightarrow> ret \<times> 'd calc_handle" where
  "ti73_send_DUMP E page h =
     dbus_send E DBUS_MID_PC_TI83p DBUS_CMD_DMP 8
       (Some [ucast page, 0x00, 0x00, 0x40, 0x00, 0x40, 0x0C, 0x00]) h"

definition ti73_send_EKE :: "'d calc_env \<Rightarrow> 'd calc_handle \<Rightarrow> ret \<times> 'd calc_handle" where
  "ti73_send_EKE E h = tiz80_send_simple_cmd E (mid_7383p (kh_model h)) DBUS_CMD_EKE 2 None h"

definition ti73_send_DKE :: "'d calc_env \<Rightarrow> 'd calc_handle \<Rightarrow> ret \<times> 'd calc_handle" where
  "ti73_send_DKE E h = tiz80_send_simple_cmd E (mid_7383p (kh_model h)) DBUS_CMD_DKE 2 None h"

definition ti73_send_ELD :: "'d calc_env \<Rightarrow> 'd calc_handle \<Rightarrow> ret \<times> 'd calc_handle" where
  "ti73_send_ELD E h = tiz80_send_simple_cmd E (mid_7383p (kh_model h)) DBUS_CMD_ELD 2 None h"

definition ti73_send_DLD :: "'d calc_env \<Rightarrow> 'd calc_handle \<Rightarrow> ret \<times> 'd calc_handle" where
  "ti73_send_DLD E h = tiz80_send_simple_cmd E (mid_7383p (kh_model h)) DBUS_CMD_DLD 2 None h"

definition ti73_send_GID :: "'d calc_env \<Rightarrow> 'd calc_handle \<Rightarrow> ret \<times> 'd calc_handle" where
  "ti73_send_GID E h = tiz80_send_simple_cmd E (mid_7383p (kh_model h)) DBUS_CMD_GID 2 None h"

definition ti73_send_RID :: "'d calc_env \<Rightarrow> 'd calc_handle \<Rightarrow> ret \<times> 'd calc_handle" where
  "ti73_send_RID E h = tiz80_send_simple_cmd E (mid_7383p (kh_model h)) DBUS_CMD_RID 2 None h"

definition ti73_send_SID :: "'d calc_env \<Rightarrow> bytes option \<Rightarrow> 'd calc_handle \<Rightarrow> ret \<times> 'd calc_handle" where
  "ti73_send_SID E data h = tiz80_send_simple_cmd E (mid_7383p (kh_model h)) DBUS_CMD_SID 32 data h"

section \<open>Receiving\<close>

text \<open>The variables of the caller that a variable header is copied out to.\<close>

record var_header =
  vh_size :: u16
  vh_type :: u8
  vh_name :: bytes
  vh_attr :: u8
  vh_version :: u8

text \<open>
  A packet received into the handle's own buffer. The local \<open>host\<close> and \<open>cmd\<close> start at 0,
  the length at \<open>len0\<close>.
\<close>

definition recv_to_buffer ::
    "'d calc_env \<Rightarrow> u16 \<Rightarrow> 'd calc_handle \<Rightarrow> ret \<times> (u8 \<times> u16) \<times> 'd calc_handle" where
  "recv_to_buffer E len0 h =
     (let (r, ((host, cmd, len), data), h) = dbus_recv E (0, 0, len0) (kh_buffer h) h
      in (r, (cmd, len), h\<lparr>kh_buffer := data\<rparr>))"

definition clear_header :: "'d calc_handle \<Rightarrow> 'd calc_handle option" where
  "clear_header h =
     Option.bind (kh_buffer h) (\<lambda>buf. Option.bind (memcpy_at buf 0 (replicate 13 0)) (\<lambda>buf.
       Some (h\<lparr>kh_buffer := Some buf\<rparr>)))"

text \<open>What the answers to a request for a variable mean.\<close>

definition var_reply :: "u8 \<Rightarrow> ret" where
  "var_reply cmd =
     (if cmd = DBUS_CMD_EOT then Some ERR_EOT
      else if cmd = DBUS_CMD_SKP then Some ERR_VAR_REJECTED
      else if cmd \<noteq> DBUS_CMD_VAR then Some ERR_INVALID_CMD else None)"

text \<open>
  Copying the fields out: the size and the type, a name of \<open>n\<close> bytes at index \<open>off\<close> of the
  buffer with a terminator at index \<open>z\<close> of the caller's array, version and attribute.
\<close>

definition get_size_type :: "bytes \<Rightarrow> var_header \<Rightarrow> var_header" where
  "get_size_type buf out = out\<lparr>vh_size := ucast (buf ! 0) OR push_bit 8 (ucast (buf ! 1)), vh_type := buf ! 2\<rparr>"

definition get_name :: "bytes \<Rightarrow> nat \<Rightarrow> nat \<Rightarrow> nat option \<Rightarrow> var_header \<Rightarrow> var_header option" where
  "get_name buf off n z out =
     Option.bind (memcpy (vh_name out) 0 buf off n) (\<lambda>name.
     (case z of None \<Rightarrow> Some (out\<lparr>vh_name := name\<rparr>)
      | Some z \<Rightarrow> if z < length name then Some (out\<lparr>vh_name := name[z := 0]\<rparr>) else None))"

definition get_attr :: "bytes \<Rightarrow> var_header \<Rightarrow> var_header" where
  "get_attr buf out =
     out\<lparr>vh_version := buf ! 11, vh_attr := (if buf ! 12 AND 0x80 \<noteq> 0 then ATTRB_ARCHIVED else ATTRB_NONE)\<rparr>"

definition copied_out ::
    "var_header \<Rightarrow> (bytes \<Rightarrow> var_header option) \<Rightarrow> 'd calc_handle \<Rightarrow> ret \<times> var_header \<times> 'd calc_handle" where
  "copied_out out f h =
     (case Option.bind (kh_buffer h) f of
        None \<Rightarrow> (Some UNDEFINED_BEHAVIOUR, out, h) | Some out \<Rightarrow> (None, out, h))"

definition ti73_recv_VAR ::
    "'d calc_env \<Rightarrow> var_header \<Rightarrow> 'd calc_handle \<Rightarrow> ret \<times> var_header \<times> 'd calc_handle" where
  "ti73_recv_VAR E out h =
     (case clear_header h of None \<Rightarrow> (Some UNDEFINED_BEHAVIOUR, out, h) | Some h \<Rightarrow>
       (let (r, (cmd, len), h) = recv_to_buffer E 0 h
        in (case r of Some e \<Rightarrow> (Some e, out, h) | None \<Rightarrow>
          (case var_reply cmd of Some e \<Rightarrow> (Some e, out, h) | None \<Rightarrow>
            (if len < 9 \<or> 13 < len then (Some ERR_INVALID_PACKET, out, h)
             else copied_out out (\<lambda>buf. map_option (get_attr buf)
                    (get_name buf 3 8 (Some 8) (get_size_type buf out))) h)))))"

definition ti82_recv_VAR ::
    "'d calc_env \<Rightarrow> var_header \<Rightarrow> 'd calc_handle \<Rightarrow> ret \<times> var_header \<times> 'd calc_handle" where
  "ti82_recv_VAR E out h =
     (let (r, (cmd, len), h) = recv_to_buffer E 0 h
      in (case r of Some e \<Rightarrow> (Some e, out, h) | None \<Rightarrow>
        (case var_reply cmd of Some e \<Rightarrow> (Some e, out, h) | None \<Rightarrow>
          (if len \<noteq> 11 \<and> len \<noteq> 9 then (Some ERR_INVALID_PACKET, out, h)
           else copied_out out (\<lambda>buf. get_name buf 3 8 (Some 8) (get_size_type buf out)) h))))"

definition ti85_recv_VAR ::
    "'d calc_env \<Rightarrow> var_header \<Rightarrow> 'd calc_handle \<Rightarrow> ret \<times> var_header \<times> 'd calc_handle" where
  "ti85_recv_VAR E out h =
     (let (r, (cmd, len), h) = recv_to_buffer E 0 h
      in (case r of Some e \<Rightarrow> (Some e, out, h) | None \<Rightarrow>
        (case var_reply cmd of Some e \<Rightarrow> (Some e, out, h) | None \<Rightarrow>
          copied_out out (\<lambda>buf.
            (let out = get_size_type buf out
             in if vh_type out \<noteq> TI8586_BKUP
                then get_name buf 4 (min 8 (unat (buf ! 3))) (Some 8) out
                else get_name buf 3 8 None out)) h)))"

text \<open>The header of a page of Flash memory: the name array gets three bytes and a terminator.\<close>

record var2_header =
  v2_length :: u16
  v2_type :: u8
  v2_name :: bytes
  v2_offset :: u16
  v2_page :: u16

definition ti73_recv_VAR2 ::
    "'d calc_env \<Rightarrow> var2_header \<Rightarrow> 'd calc_handle \<Rightarrow> ret \<times> var2_header \<times> 'd calc_handle" where
  "ti73_recv_VAR2 E out h =
     (let (r, (cmd, len), h) = recv_to_buffer E 0 h
      in (case r of Some e \<Rightarrow> (Some e, out, h) | None \<Rightarrow>
        (case var_reply cmd of Some e \<Rightarrow> (Some e, out, h) | None \<Rightarrow>
          (if len \<noteq> 10 then (Some ERR_INVALID_PACKET, out, h)
           else (case Option.bind (kh_buffer h) (\<lambda>buf.
                   Option.bind (memcpy (v2_name out) 0 buf 3 3) (\<lambda>name.
                     if 3 < length name then Some
                       \<lparr>v2_length = ucast (buf ! 0) OR push_bit 8 (ucast (buf ! 1)), v2_type = buf ! 2,
                        v2_name = name[3 := 0],
                        v2_offset = ucast (buf ! 6) OR push_bit 8 (ucast (buf ! 7)),
                        v2_page = (ucast (buf ! 8) OR push_bit 8 (ucast (buf ! 9))) AND 0xff\<rparr>
                     else None)) of
                   None \<Rightarrow> (Some UNDEFINED_BEHAVIOUR, out, h) | Some out \<Rightarrow> (None, out, h))))))"

definition tiz80_recv_CTS :: "'d calc_env \<Rightarrow> u16 \<Rightarrow> 'd calc_handle \<Rightarrow> ret \<times> 'd calc_handle" where
  "tiz80_recv_CTS E expected h =
     (let (r, (cmd, len), h) = recv_to_buffer E 0 h
      in (case r of Some e \<Rightarrow> (Some e, h) | None \<Rightarrow>
        (if cmd = DBUS_CMD_SKP then Some ERR_VAR_REJECTED
         else if cmd \<noteq> DBUS_CMD_CTS then Some ERR_INVALID_CMD
         else if expected \<noteq> len then Some ERR_CTS_ERROR else None, h)))"

definition tiz80_recv_SKP :: "'d calc_env \<Rightarrow> 'd calc_handle \<Rightarrow> ret \<times> u8 \<times> 'd calc_handle" where
  "tiz80_recv_SKP E h =
     (let (r, (cmd, len), h) = recv_to_buffer E 0 h
      in (case r of Some e \<Rightarrow> (Some e, 0, h) | None \<Rightarrow>
        (if cmd = DBUS_CMD_CTS then (None, 0, h)
         else if cmd \<noteq> DBUS_CMD_SKP then (Some ERR_INVALID_CMD, 0, h)
         else (None, the (kh_buffer h) ! 0, h))))"

text \<open>Data packets go to the caller's array, their length to the caller's variable.\<close>

definition recv_to_caller ::
    "'d calc_env \<Rightarrow> u16 \<Rightarrow> bytes option \<Rightarrow> 'd calc_handle
       \<Rightarrow> ret \<times> (u8 \<times> u16 \<times> bytes option) \<times> 'd calc_handle" where
  "recv_to_caller E len data h =
     (let (r, ((host, cmd, len), data), h) = dbus_recv E (0, 0, len) data h
      in (r, (cmd, len, data), h))"

definition tiz80_recv_XDP ::
    "'d calc_env \<Rightarrow> bool \<Rightarrow> u16 \<Rightarrow> bytes option \<Rightarrow> 'd calc_handle
       \<Rightarrow> ret \<times> (u16 \<times> bytes option) \<times> 'd calc_handle" where
  "tiz80_recv_XDP E is_73 len data h =
     (let (r, (cmd, len, data), h) = recv_to_caller E len data h
      in (case r of Some e \<Rightarrow> (Some e, (len, data), h) | None \<Rightarrow>
        (if is_73 \<and> cmd = DBUS_CMD_EOT then Some ERR_EOT
         else if cmd \<noteq> DBUS_CMD_XDP then Some ERR_INVALID_CMD else None, (len, data), h)))"

definition ti73_recv_SID ::
    "'d calc_env \<Rightarrow> u16 \<Rightarrow> bytes option \<Rightarrow> 'd calc_handle
       \<Rightarrow> ret \<times> (u16 \<times> bytes option) \<times> 'd calc_handle" where
  "ti73_recv_SID E len data h =
     (let (r, (cmd, len, data), h) = recv_to_caller E len data h
      in (case r of Some e \<Rightarrow> (Some e, (len, data), h) | None \<Rightarrow>
        (if cmd = DBUS_CMD_EOT then Some ERR_EOT
         else if cmd \<noteq> DBUS_CMD_SID then Some ERR_INVALID_CMD else None, (len, data), h)))"

text \<open>
  \<open>status\<close> is the caller's variable, \<open>None\<close> when it passes the null pointer. The length field
  of an acknowledgement is a status.
\<close>

definition tiz80_recv_ACK ::
    "'d calc_env \<Rightarrow> u16 option \<Rightarrow> 'd calc_handle \<Rightarrow> ret \<times> u16 option \<times> 'd calc_handle" where
  "tiz80_recv_ACK E status h =
     (let (r, (cmd, len), h) = recv_to_buffer E 0 h
      in (case r of Some e \<Rightarrow> (Some e, status, h) | None \<Rightarrow>
        (if status = None \<and> len \<noteq> 0 then (Some ERR_NACK, None, h)
         else (let status = map_option (\<lambda>_. len) status
               in (if cmd \<noteq> DBUS_CMD_ACK then Some ERR_INVALID_CMD else None, status, h)))))"

definition ti82_recv_ERR ::
    "'d calc_env \<Rightarrow> u16 option \<Rightarrow> 'd calc_handle \<Rightarrow> ret \<times> u16 option \<times> 'd calc_handle" where
  "ti82_recv_ERR E status h =
     (let (r, (cmd, len, _), h) = recv_to_caller E 0 None h
      in if r \<noteq> None \<and> r \<noteq> Some ERR_CHECKSUM then (r, status, h)
         else (let status = map_option (\<lambda>_. len) status
               in (if cmd \<noteq> DBUS_CMD_ERR then Some ERR_INVALID_CMD else None, status, h)))"

text \<open>
  The requests to send pass the caller's \<open>varsize\<close> as the length of the packet, so that a
  refused packet leaves its length there.
\<close>

definition ti73_recv_RTS ::
    "'d calc_env \<Rightarrow> var_header \<Rightarrow> 'd calc_handle \<Rightarrow> ret \<times> var_header \<times> 'd calc_handle" where
  "ti73_recv_RTS E out h =
     (case clear_header h of None \<Rightarrow> (Some UNDEFINED_BEHAVIOUR, out, h) | Some h \<Rightarrow>
       (let (r, (cmd, len), h) = recv_to_buffer E (vh_size out) h;
            out = out\<lparr>vh_size := len\<rparr>
        in (case r of Some e \<Rightarrow> (Some e, out, h) | None \<Rightarrow>
          (if cmd \<noteq> DBUS_CMD_RTS then (Some ERR_INVALID_CMD, out, h)
           else if len < 13 then (Some ERR_INVALID_PACKET, out, h)
           else copied_out out (\<lambda>buf. map_option (get_attr buf)
                  (get_name buf 3 8 (Some 8) (get_size_type buf out))) h))))"

definition ti82_recv_RTS ::
    "'d calc_env \<Rightarrow> var_header \<Rightarrow> 'd calc_handle \<Rightarrow> ret \<times> var_header \<times> 'd calc_handle" where
  "ti82_recv_RTS E out h =
     (let (r, (cmd, len), h) = recv_to_buffer E (vh_size out) h;
          out = out\<lparr>vh_size := len\<rparr>
      in (case r of Some e \<Rightarrow> (Some e, out, h) | None \<Rightarrow>
        (if cmd \<noteq> DBUS_CMD_RTS then (Some ERR_INVALID_CMD, out, h)
         else copied_out out (\<lambda>buf. get_name buf 3 8 (Some 8) (get_size_type buf out)) h)))"

definition ti85_recv_RTS ::
    "'d calc_env \<Rightarrow> var_header \<Rightarrow> 'd calc_handle \<Rightarrow> ret \<times> var_header \<times> 'd calc_handle" where
  "ti85_recv_RTS E out h =
     (let (r, (cmd, len), h) = recv_to_buffer E (vh_size out) h;
          out = out\<lparr>vh_size := len\<rparr>
      in (case r of Some e \<Rightarrow> (Some e, out, h) | None \<Rightarrow>
        (if cmd \<noteq> DBUS_CMD_RTS then (Some ERR_INVALID_CMD, out, h)
         else copied_out out (\<lambda>buf.
                get_name buf 4 (min 8 (unat (buf ! 3))) (Some 8) (get_size_type buf out)) h)))"

section \<open>Layout of the headers\<close>

lemma put_header_eq: "3 \<le> length buf \<Longrightarrow> put_header s t buf = [LSB s, MSB s, t] @ drop 3 buf"
  by (cases buf rule: list.exhaust; cases "tl buf"; cases "tl (tl buf)")
    (auto simp: put_header_def)

lemma put_header4_eq:
  assumes "4 \<le> length buf"
  shows "(put_header s t buf)[3 := b] = [LSB s, MSB s, t, b] @ drop 4 buf"
proof -
  obtain y ys where y: "drop 3 buf = y # ys" using assms by (cases "drop 3 buf") auto
  have "drop 4 buf = ys" using drop_drop [of 1 3 buf] y by simp
  then show ?thesis using assms y by (simp add: put_header_eq)
qed

lemma put_attr_eq:
  assumes "length p = 11" "2 \<le> length q"
  shows "put_attr version varattr (p @ q)
     = p @ [version, if varattr = ATTRB_ARCHIVED then 0x80 else 0x00] @ drop 2 q"
proof -
  obtain x y q' where "q = x # y # q'"
    using assms(2) by (cases q; cases "tl q") auto
  then show ?thesis using assms(1) by (simp add: put_attr_def list_update_append)
qed

text \<open>The standard header, built over an array with unknown contents.\<close>

definition std_header :: "u16 \<Rightarrow> u8 \<Rightarrow> bytes \<Rightarrow> nat \<Rightarrow> bytes" where
  "std_header varsize vartype name n = [LSB varsize, MSB varsize, vartype] @ take n name"

lemma std_header_memcpy:
  assumes "n \<le> length name" "n \<le> 8"
  shows "\<exists>ys. memcpy (put_header s t (local_array 16 junk)) 3 name 0 n = Some (std_header s t name n @ ys)
     \<and> length ys = 13 - n"
  using assms
  by (simp add: put_header_eq std_header_def memcpy_eq)

lemma std_header_length [simp]: "n \<le> length name \<Longrightarrow> length (std_header s t name n) = 3 + n"
  by (simp add: std_header_def)

lemma std_header_attr:
  assumes "8 \<le> length name"
  shows "\<exists>ys. map_option (put_attr version varattr)
       (memcpy (put_header s t (local_array 16 junk)) 3 name 0 8)
     = Some (std_header s t name 8 @ [version, if varattr = ATTRB_ARCHIVED then 0x80 else 0x00] @ ys)
     \<and> length ys = 3"
proof -
  obtain ys where "memcpy (put_header s t (local_array 16 junk)) 3 name 0 8
      = Some (std_header s t name 8 @ ys)" "length ys = 5"
    using std_header_memcpy [of 8 name s t junk] assms by auto
  then show ?thesis using assms by (simp add: put_attr_eq)
qed

text \<open>The other way round: a buffer that starts with a standard header.\<close>

lemma copied_out_std:
  assumes "kh_buffer h = Some ([LSB s, MSB s, t] @ nm @ ys)" "length nm = 8" "9 \<le> length (vh_name out)"
  shows "copied_out out (\<lambda>buf. get_name buf 3 8 (Some 8) (get_size_type buf out)) h
     = (None, out\<lparr>vh_size := s, vh_type := t, vh_name := nm @ 0 # drop 9 (vh_name out)\<rparr>, h)"
proof -
  have "\<exists>z r. drop 8 (vh_name out) = z # r \<and> r = drop 9 (vh_name out)"
    using assms(3) by (metis Cons_nth_drop_Suc Suc_le_eq eval_nat_numeral(3))
  then show ?thesis using assms
    by (auto simp: copied_out_def get_name_def get_size_type_def memcpy_eq le16 be16_MSB_LSB
        list_update_append)
qed

lemma copied_out_attr:
  assumes "kh_buffer h = Some ([LSB s, MSB s, t] @ nm @ [v, a] @ ys)" "length nm = 8"
    and "9 \<le> length (vh_name out)"
  shows "copied_out out (\<lambda>buf. map_option (get_attr buf)
       (get_name buf 3 8 (Some 8) (get_size_type buf out))) h
     = (None, out\<lparr>vh_size := s, vh_type := t, vh_name := nm @ 0 # drop 9 (vh_name out),
                  vh_version := v, vh_attr := (if a AND 0x80 \<noteq> 0 then ATTRB_ARCHIVED else ATTRB_NONE)\<rparr>, h)"
proof -
  have std: "get_name ([LSB s, MSB s, t] @ nm @ [v, a] @ ys) 3 8 (Some 8)
        (get_size_type ([LSB s, MSB s, t] @ nm @ [v, a] @ ys) out)
      = Some (out\<lparr>vh_size := s, vh_type := t, vh_name := nm @ 0 # drop 9 (vh_name out)\<rparr>)"
    using copied_out_std [OF assms(1,2,3)] assms(1) by (auto simp: copied_out_def split: option.splits)
  have "([LSB s, MSB s, t] @ nm @ [v, a] @ ys) ! 11 = v" "([LSB s, MSB s, t] @ nm @ [v, a] @ ys) ! 12 = a"
    using assms(2) by (simp_all add: nth_append nth_Cons')
  then show ?thesis by (simp only: copied_out_def assms(1) bind.bind_lunit std option.map option.case)
      (simp add: get_attr_def)
qed

section \<open>On a quiet link\<close>

context quiet_link
begin

lemma send_array_quiet:
  assumes "ready h" "kh_buffer h = Some hb" "length hb = 65542"
    and "a = Some b" "len \<noteq> 0" "unat len \<le> length b" "unat len + 6 \<le> c_room (kh_cable h)"
  shows "\<exists>h'. send_array E target cmd len a h = (None, h')
     \<and> moved h (dbus_packet target cmd (Some (take (unat len) b))) 0 h'"
  using dbus_send_quiet [OF assms(1-3), of "unat len" len "Some b"
      "dbus_packet target cmd (Some (take (unat len) b))" target cmd] assms(4-7)
  by (simp add: send_array_def dbus_packet_data)

lemma recv_to_buffer_quiet:
  assumes "ready g" "kh_buffer g = Some gb" "length d \<le> length gb" "length d < 65536"
    and "c_avail (kh_cable g) = dbus_packet host cmd (Some d) @ rest"
    and "host \<noteq> 0x80 \<or> cmd = DBUS_CMD_XDP" "cmd \<in> set dbus_data_cmds"
  shows "\<exists>g'. recv_to_buffer E len0 g = (None, (cmd, of_nat (length d)), g')
     \<and> kh_buffer g' = Some (d @ drop (length d) gb) \<and> moved g [] (length d + 6) g'"
proof -
  let ?l = "of_nat (length d) :: u32"
  have "be16 (MSB ?l) (LSB ?l) = of_nat (length d)" "unat (of_nat (length d) :: u16) = length d"
    using LSW_of_nat [OF assms(4)] assms(4)
    by (simp_all add: be16_MSB_LSB_wide unat_of_nat take_bit_eq_mod word_unat_eq_iff)
  then show ?thesis
    using dbus_recv_data_cmd_quiet [OF assms(1) _ assms(6,7), of "LSB ?l" "MSB ?l" d
        "LSB (tifiles_checksum d)" "MSB (tifiles_checksum d)" rest gb "(0, 0, len0)"] assms(2,3,5)
    by (auto simp: recv_to_buffer_def dbus_packet_data be16_MSB_LSB moved_def ready_def)
qed

text \<open>A header of at most 13 bytes over a cleared buffer reads as its 13-byte completion.\<close>

lemma recv_cleared_quiet:
  assumes "ready g" "kh_buffer g = Some gb" "length gb = 65542" "length d \<le> 13"
    and "c_avail (kh_cable g) = dbus_packet host cmd (Some d) @ rest"
    and "host \<noteq> 0x80" "cmd \<in> set dbus_data_cmds"
  shows "\<exists>g0 g'. clear_header g = Some g0
     \<and> recv_to_buffer E len0 g0 = (None, (cmd, of_nat (length d)), g')
     \<and> kh_buffer g' = Some (d @ replicate (13 - length d) 0 @ drop 13 gb)
     \<and> moved g [] (length d + 6) g'"
proof -
  let ?g0 = "g\<lparr>kh_buffer := Some (replicate 13 0 @ drop 13 gb)\<rparr>"
  have clear: "clear_header g = Some ?g0"
    using assms(2,3) by (simp add: clear_header_def memcpy_at_def)
  have drop: "drop (length d) (replicate 13 0 @ drop 13 gb) = replicate (13 - length d) 0 @ drop 13 gb"
    using assms(4) by simp
  obtain g' where "recv_to_buffer E len0 ?g0 = (None, (cmd, of_nat (length d)), g')"
      "kh_buffer g' = Some (d @ drop (length d) (replicate 13 0 @ drop 13 gb))"
      "moved ?g0 [] (length d + 6) g'"
    using recv_to_buffer_quiet [of ?g0 "replicate 13 0 @ drop 13 gb" d host cmd rest len0] assms by auto
  then show ?thesis using clear drop by (auto simp: moved_def)
qed

end

context quiet_link
begin

text \<open>An acknowledgement from one end to the other.\<close>

lemma tiz80_send_ACK_quiet:
  assumes "ready h" "kh_buffer h = Some hb" "length hb = 65542" "target \<noteq> 0"
    and "4 \<le> c_room (kh_cable h)"
  shows "\<exists>h'. tiz80_send_ACK E target h = (None, h') \<and> moved h [target, DBUS_CMD_ACK, 0, 0] 0 h'"
  using dbus_send_quiet [OF assms(1-3), of "unat (2::u16)" 2 None "[target, DBUS_CMD_ACK, 0, 0]" target
      DBUS_CMD_ACK] assms(4,5)
  by (simp add: tiz80_send_ACK_def tiz80_send_simple_cmd_def dbus_packet_def)

lemma tiz80_recv_ACK_quiet:
  assumes "ready g" "c_avail (kh_cable g) = [host, DBUS_CMD_ACK, 0, 0] @ rest" "host \<noteq> 0x80"
  shows "\<exists>g'. tiz80_recv_ACK E None g = (None, None, g') \<and> moved g [] 4 g'"
proof -
  obtain g' where "dbus_recv E (0, 0, 0) (kh_buffer g) g = (None, ((host, DBUS_CMD_ACK, 0), kh_buffer g), g')"
      "moved g [] 4 g'"
    using dbus_recv_short_cmd_quiet [OF assms(1,2,3), of "(0, 0, 0)" "kh_buffer g"]
    by (auto simp: dbus_short_cmds_def be16_def)
  then show ?thesis by (auto simp: tiz80_recv_ACK_def recv_to_buffer_def moved_def ready_def)
qed

end

section \<open>Properties of the commands\<close>

text \<open>
  The header that reaches the receiver of \<open>ti73_send_VAR\<close>: a backup has a name of six bytes
  and no version, a TI-73 sends neither version nor attribute.
\<close>

definition var73_received ::
    "calc_model \<Rightarrow> u16 \<Rightarrow> u8 \<Rightarrow> bytes \<Rightarrow> u8 \<Rightarrow> u8 \<Rightarrow> var_header \<Rightarrow> var_header" where
  "var73_received m varsize vartype name varattr version out =
     (let backup = (vartype = TI7383p_BKUP \<and> version = 0);
          n = (if backup then 6 else 8); plain = (backup \<or> m = CALC_TI73)
      in \<lparr>vh_size = varsize, vh_type = vartype,
          vh_name = take n name @ replicate (9 - n) 0 @ drop 9 (vh_name out),
          vh_attr = (if \<not> plain \<and> varattr = ATTRB_ARCHIVED then ATTRB_ARCHIVED else ATTRB_NONE),
          vh_version = (if plain then 0 else version)\<rparr>)"

lemma small_replicate:
  "replicate 1 x = [x]" "replicate 2 x = [x, x]" "replicate 3 x = [x, x, x]"
  "replicate 4 x = [x, x, x, x]"
  by (simp_all add: eval_nat_numeral)

text \<open>The data of the packet that \<open>ti73_send_VAR\<close> sends.\<close>

definition var73_data :: "calc_model \<Rightarrow> u16 \<Rightarrow> u8 \<Rightarrow> bytes \<Rightarrow> u8 \<Rightarrow> u8 \<Rightarrow> bytes" where
  "var73_data m varsize vartype name varattr version =
     (if vartype = TI7383p_BKUP \<and> version = 0 then std_header varsize vartype name 6
      else std_header varsize vartype name 8
        @ (if m = CALC_TI73 then [] else [version, if varattr = ATTRB_ARCHIVED then 0x80 else 0x00]))"

lemma var73_data_length:
  "8 \<le> length name \<Longrightarrow> length (var73_data m varsize vartype name varattr version) \<in> {9, 11, 13}"
  by (simp add: var73_data_def)

context quiet_link
begin

lemma ti73_send_VAR_quiet:
  assumes "ready h" "kh_buffer h = Some hb" "length hb = 65542" "8 \<le> length name"
    and "19 \<le> c_room (kh_cable h)"
  shows "\<exists>h'. ti73_send_VAR E varsize vartype (Some name) varattr version junk h = (None, h')
     \<and> moved h (dbus_packet (mid_7383p (kh_model h)) DBUS_CMD_VAR
          (Some (var73_data (kh_model h) varsize vartype name varattr version))) 0 h'"
proof (cases "vartype = TI7383p_BKUP \<and> version = 0")
  case True
  obtain ys where "memcpy (put_header varsize vartype (local_array 16 junk)) 3 name 0 6
      = Some (std_header varsize vartype name 6 @ ys)"
    using std_header_memcpy [of 6 name varsize vartype junk] assms(4) by auto
  from send_array_quiet [OF assms(1-3) this, of 9 "mid_7383p (kh_model h)" DBUS_CMD_VAR]
  show ?thesis using True assms(4,5)
    by (simp add: ti73_send_VAR_def with_name_def tiz80_send_bkup_VAR_def Let_def var73_data_def)
next
  case False
  let ?ext = "[version, if varattr = ATTRB_ARCHIVED then 0x80 else 0x00]"
  obtain ys where b: "map_option (put_attr version varattr)
       (memcpy (put_header varsize vartype (local_array 16 junk)) 3 name 0 8)
     = Some (std_header varsize vartype name 8 @ ?ext @ ys)" "length ys = 3"
    using std_header_attr [OF assms(4)] by blast
  have n: "unat (11 + extras (kh_model h)) = (if kh_model h = CALC_TI73 then 11 else 13)"
    "11 + extras (kh_model h) \<noteq> 0" by (simp_all add: extras_def)
  have data: "take (unat (11 + extras (kh_model h))) (std_header varsize vartype name 8 @ ?ext @ ys)
      = var73_data (kh_model h) varsize vartype name varattr version"
    using False assms(4) by (auto simp: var73_data_def n)
  have call: "ti73_send_VAR E varsize vartype (Some name) varattr version junk h
      = send_array E (mid_7383p (kh_model h)) DBUS_CMD_VAR (11 + extras (kh_model h))
          (map_option (put_attr version varattr)
            (memcpy (put_header varsize vartype (local_array 16 junk)) 3 name 0 8)) h"
    using False by (auto simp: ti73_send_VAR_def with_name_def Let_def)
  show ?thesis
    using send_array_quiet [OF assms(1-3) b(1) n(2), of "mid_7383p (kh_model h)" DBUS_CMD_VAR]
      assms(4,5) b(2)
    unfolding call data by (simp add: n)
qed

lemma ti73_recv_VAR_quiet:
  assumes "ready g" "kh_buffer g = Some gb" "length gb = 65542" "8 \<le> length name"
    and "9 \<le> length (vh_name out)"
    and "c_avail (kh_cable g) = dbus_packet host DBUS_CMD_VAR
          (Some (var73_data m varsize vartype name varattr version)) @ rest" "host \<noteq> 0x80"
  shows "\<exists>g'. ti73_recv_VAR E out g =
        (None, var73_received m varsize vartype name varattr version out, g')
     \<and> moved g [] (length (var73_data m varsize vartype name varattr version) + 6) g'
     \<and> (\<exists>gb'. kh_buffer g' = Some gb' \<and> length gb' = 65542)"
proof -
  define d where "d = var73_data m varsize vartype name varattr version"
  have len: "length d \<in> {9, 11, 13}" using var73_data_length [OF assms(4)] by (simp add: d_def)
  define nm v a where
    "nm = (if vartype = TI7383p_BKUP \<and> version = 0 then take 6 name @ [0, 0] else take 8 name)"
    and "v = vh_version (var73_received m varsize vartype name varattr version out)"
    and "a = (if vh_attr (var73_received m varsize vartype name varattr version out) = ATTRB_ARCHIVED
        then 0x80 else (0x00 :: u8))"
  have layout: "d @ replicate (13 - length d) 0 @ drop 13 gb
      = [LSB varsize, MSB varsize, vartype] @ nm @ [v, a] @ drop 13 gb" "length nm = 8"
    using assms(4) by (auto simp: d_def var73_data_def nm_def v_def a_def var73_received_def
        std_header_def small_replicate Let_def)
  obtain g0 g' where g': "clear_header g = Some g0"
      "recv_to_buffer E 0 g0 = (None, (DBUS_CMD_VAR, of_nat (length d)), g')"
      "kh_buffer g' = Some ([LSB varsize, MSB varsize, vartype] @ nm @ [v, a] @ drop 13 gb)"
      "moved g [] (length d + 6) g'"
    using recv_cleared_quiet [OF assms(1-3), of d host DBUS_CMD_VAR rest 0] assms(6,7) len layout(1)
    by (auto simp: d_def dbus_data_cmds_def)
  have ok: "\<not> ((of_nat (length d) :: u16) < 9 \<or> 13 < (of_nat (length d) :: u16))"
    using len by auto
  have "ti73_recv_VAR E out g = (None, out\<lparr>vh_size := varsize, vh_type := vartype,
      vh_name := nm @ 0 # drop 9 (vh_name out), vh_version := v,
      vh_attr := (if a AND 0x80 \<noteq> 0 then ATTRB_ARCHIVED else ATTRB_NONE)\<rparr>, g')"
    using g'(1,2) ok copied_out_attr [OF g'(3) layout(2) assms(5)]
    by (simp add: ti73_recv_VAR_def var_reply_def)
  moreover have "out\<lparr>vh_size := varsize, vh_type := vartype,
      vh_name := nm @ 0 # drop 9 (vh_name out), vh_version := v,
      vh_attr := (if a AND 0x80 \<noteq> 0 then ATTRB_ARCHIVED else ATTRB_NONE)\<rparr>
      = var73_received m varsize vartype name varattr version out"
    by (simp add: var73_received_def nm_def v_def a_def Let_def small_replicate)
  moreover have "length ([LSB varsize, MSB varsize, vartype] @ nm @ [v, a] @ drop 13 gb) = 65542"
    using layout(2) assms(3) by simp
  ultimately show ?thesis using g'(3,4) by (simp add: d_def)
qed

lemma ti73_send_RTS_quiet:
  assumes "ready h" "kh_buffer h = Some hb" "length hb = 65542" "8 \<le> length name"
    and "19 \<le> c_room (kh_cable h)"
  shows "\<exists>h'. ti73_send_RTS E varsize vartype (Some name) varattr version junk h = (None, h')
     \<and> moved h (dbus_packet (mid_7383p (kh_model h)) DBUS_CMD_RTS
          (Some (var73_data (kh_model h) varsize vartype name varattr version))) 0 h'"
proof -
  let ?ext = "[version, if varattr = ATTRB_ARCHIVED then 0x80 else 0x00]"
  define len :: u16 where
    "len = (if vartype \<noteq> TI7383p_BKUP \<or> version \<noteq> 0 then 11 + extras (kh_model h) else 9)"
  obtain ys where b: "map_option (put_attr version varattr)
       (memcpy (put_header varsize vartype (local_array 16 junk)) 3 name 0 8)
     = Some (std_header varsize vartype name 8 @ ?ext @ ys)" "length ys = 3"
    using std_header_attr [OF assms(4)] by blast
  have n: "unat len = length (var73_data (kh_model h) varsize vartype name varattr version)"
    "len \<noteq> 0" "unat len \<le> 13"
    using assms(4) by (auto simp: len_def extras_def var73_data_def)
  have data: "take (unat len) (std_header varsize vartype name 8 @ ?ext @ ys)
      = var73_data (kh_model h) varsize vartype name varattr version"
    using assms(4) unfolding n by (auto simp: var73_data_def std_header_def)
  have call: "ti73_send_RTS E varsize vartype (Some name) varattr version junk h
      = send_array E (mid_7383p (kh_model h)) DBUS_CMD_RTS len
          (map_option (put_attr version varattr)
            (memcpy (put_header varsize vartype (local_array 16 junk)) 3 name 0 8)) h"
    by (simp add: ti73_send_RTS_def with_name_def Let_def len_def)
  show ?thesis
    using send_array_quiet [OF assms(1-3) b(1) n(2), of "mid_7383p (kh_model h)" DBUS_CMD_RTS]
      assms(4,5) b(2) n(3)
    unfolding call data by simp
qed

text \<open>The request with version and attribute is the only one that is taken.\<close>

lemma ti73_recv_RTS_quiet:
  assumes "ready g" "kh_buffer g = Some gb" "length gb = 65542" "8 \<le> length name"
    and "9 \<le> length (vh_name out)"
    and "c_avail (kh_cable g) = dbus_packet host DBUS_CMD_RTS
          (Some (var73_data m varsize vartype name varattr version)) @ rest" "host \<noteq> 0x80"
  shows "\<exists>g'. ti73_recv_RTS E out g =
        (if m = CALC_TI73 \<or> (vartype = TI7383p_BKUP \<and> version = 0)
         then (Some ERR_INVALID_PACKET, out\<lparr>vh_size :=
                 of_nat (length (var73_data m varsize vartype name varattr version))\<rparr>, g')
         else (None, var73_received m varsize vartype name varattr version out, g'))
     \<and> moved g [] (length (var73_data m varsize vartype name varattr version) + 6) g'"
proof -
  define d where "d = var73_data m varsize vartype name varattr version"
  have len: "length d \<in> {9, 11, 13}" using var73_data_length [OF assms(4)] by (simp add: d_def)
  obtain g0 g' where g': "clear_header g = Some g0"
      "recv_to_buffer E (vh_size out) g0 = (None, (DBUS_CMD_RTS, of_nat (length d)), g')"
      "kh_buffer g' = Some (d @ replicate (13 - length d) 0 @ drop 13 gb)"
      "moved g [] (length d + 6) g'"
    using recv_cleared_quiet [OF assms(1-3), of d host DBUS_CMD_RTS rest "vh_size out"] assms(6,7) len
    by (auto simp: d_def dbus_data_cmds_def)
  show ?thesis
  proof (cases "m = CALC_TI73 \<or> (vartype = TI7383p_BKUP \<and> version = 0)")
    case True
    then have "length d \<in> {9, 11}" using assms(4) by (auto simp: d_def var73_data_def)
    then have "(of_nat (length d) :: u16) < 13" by auto
    then show ?thesis using True g' by (simp add: ti73_recv_RTS_def d_def)
  next
    case False
    let ?a = "if varattr = ATTRB_ARCHIVED then 0x80 else 0x00 :: u8"
    let ?out = "out\<lparr>vh_size := 13\<rparr>"
    have d: "d = [LSB varsize, MSB varsize, vartype] @ take 8 name @ [version, ?a]" "length d = 13"
      using False assms(4) by (auto simp: d_def var73_data_def std_header_def)
    have "kh_buffer g' = Some ([LSB varsize, MSB varsize, vartype] @ take 8 name @ [version, ?a] @ drop 13 gb)"
      using g'(3) d by simp
    from copied_out_attr [OF this, of ?out] assms(4,5)
    have "ti73_recv_RTS E out g = (None, var73_received m varsize vartype name varattr version out, g')"
      using g'(1,2) False by (simp add: ti73_recv_RTS_def d(2) var73_received_def Let_def small_replicate)
    then show ?thesis using False g'(4) by (simp add: d_def)
  qed
qed

lemma ti85_send_VAR_quiet:
  assumes "ready h" "kh_buffer h = Some hb" "length hb = 65542" "strlen name = Some n"
    and "18 \<le> c_room (kh_cable h)" "vartype \<noteq> TI8586_BKUP"
  shows "\<exists>h'. ti85_send_VAR E varsize vartype (Some name) junk h = (None, h')
     \<and> moved h (dbus_packet (mid_8586 (kh_model h)) DBUS_CMD_VAR
          (Some ([LSB varsize, MSB varsize, vartype, of_nat (min 8 n)] @ take (min 8 n) name))) 0 h'"
proof -
  let ?k = "min 8 n" let ?b0 = "put_header varsize vartype (local_array 16 junk)"
  have b0: "?b0[3 := of_nat ?k]
      = [LSB varsize, MSB varsize, vartype, of_nat ?k] @ drop 4 (local_array 16 junk)"
    by (simp add: put_header4_eq)
  have k: "?k \<le> length name" "?k \<le> 8" using strlen_bound [OF assms(4)] by auto
  obtain ys where named: "put_prefixed_name ?b0 name
      = Some (?k, ([LSB varsize, MSB varsize, vartype, of_nat ?k] @ take ?k name) @ ys)"
    using k by (simp add: put_prefixed_name_def clamped_len_def assms(4) b0 memcpy_eq)
  have len: "unat (of_nat (4 + ?k) :: u16) = 4 + ?k" "(of_nat (4 + ?k) :: u16) \<noteq> 0"
  proof -
    show u: "unat (of_nat (4 + ?k) :: u16) = 4 + ?k"
      using k by (simp add: unat_of_nat take_bit_eq_mod del: of_nat_add)
    then show "(of_nat (4 + ?k) :: u16) \<noteq> 0" by (metis add_is_0 unat_0 zero_neq_numeral)
  qed
  have "ti85_send_VAR E varsize vartype (Some name) junk h
      = send_array E (mid_8586 (kh_model h)) DBUS_CMD_VAR (of_nat (4 + ?k))
          (Some (([LSB varsize, MSB varsize, vartype, of_nat ?k] @ take ?k name) @ ys)) h"
    using assms(6) named by (simp add: ti85_send_VAR_def with_name_def Let_def send_prefixed_def send_array_def)
  moreover have "take (4 + ?k) (([LSB varsize, MSB varsize, vartype, of_nat ?k] @ take ?k name) @ ys)
      = [LSB varsize, MSB varsize, vartype, of_nat ?k] @ take ?k name"
  proof -
    have "length ([LSB varsize, MSB varsize, vartype, of_nat ?k] @ take ?k name) = 4 + ?k"
      using k by simp
    then show ?thesis by (metis append_eq_conv_conj)
  qed
  ultimately show ?thesis
    using send_array_quiet [OF assms(1-3) refl len(2), where
        b = "([LSB varsize, MSB varsize, vartype, of_nat ?k] @ take ?k name) @ ys"
        and target = "mid_8586 (kh_model h)" and cmd = DBUS_CMD_VAR] assms(5) k
    unfolding len(1) by auto
qed

lemma ti85_recv_VAR_quiet:
  assumes "ready g" "kh_buffer g = Some gb" "length gb = 65542" "k \<le> length name" "k \<le> 8"
    and "9 \<le> length (vh_name out)" "vartype \<noteq> TI8586_BKUP" "host \<noteq> 0x80"
    and "c_avail (kh_cable g) = dbus_packet host DBUS_CMD_VAR
          (Some ([LSB varsize, MSB varsize, vartype, of_nat k] @ take k name)) @ rest"
  shows "\<exists>g'. ti85_recv_VAR E out g = (None, out\<lparr>vh_size := varsize, vh_type := vartype,
         vh_name := (take k name @ drop k (vh_name out))[8 := 0]\<rparr>, g')
     \<and> moved g [] (10 + k) g'"
proof -
  let ?d = "[LSB varsize, MSB varsize, vartype, of_nat k] @ take k name"
  obtain g' where g': "recv_to_buffer E 0 g = (None, (DBUS_CMD_VAR, of_nat (length ?d)), g')"
      "kh_buffer g' = Some (?d @ drop (length ?d) gb)" "moved g [] (length ?d + 6) g'"
    using recv_to_buffer_quiet [OF assms(1,2), of ?d host DBUS_CMD_VAR rest 0] assms
    by (auto simp: dbus_data_cmds_def)
  have k: "unat (of_nat k :: u8) = k" using assms(5) by (simp add: unat_of_nat take_bit_eq_mod)
  have "copied_out out (\<lambda>buf.
            (let out = get_size_type buf out
             in if vh_type out \<noteq> TI8586_BKUP
                then get_name buf 4 (min 8 (unat (buf ! 3))) (Some 8) out
                else get_name buf 3 8 None out)) g'
      = (None, out\<lparr>vh_size := varsize, vh_type := vartype,
         vh_name := (take k name @ drop k (vh_name out))[8 := 0]\<rparr>, g')"
    using g'(2) assms(4-7) k
    by (simp add: copied_out_def get_size_type_def get_name_def memcpy_eq le16 be16_MSB_LSB Let_def)
  then show ?thesis using g'(1,3) assms(4)
    by (simp add: ti85_recv_VAR_def var_reply_def Let_def)
qed

end

text \<open>Two handles, each on a quiet link, the second one reading what the first one sends.\<close>

lemma quiet_ends:
  assumes "quiet_link send recv sent avail room ok E" "link_ready ok h"
    and "n \<le> room (cb_dev (kh_cable h))" "sent (cb_dev (kh_cable h)) = []"
    and "quiet_link send' recv' sent' avail' room' ok' E'" "link_ready ok' g"
  shows "quiet_link.ready ok h" "quiet_link.ready ok' g" "n \<le> quiet_link.c_room room (kh_cable h)"
    and "quiet_link.moved sent avail room ok h p k h' \<Longrightarrow>
       avail' (cb_dev (kh_cable g)) = sent (cb_dev (kh_cable h')) @ rest \<Longrightarrow>
       quiet_link.c_avail avail' (kh_cable g) = p @ rest"
  using assms quiet_link.link_ready_iff [OF assms(1)] quiet_link.link_ready_iff [OF assms(5)]
  by (auto simp: quiet_link.c_room_def [OF assms(1)] quiet_link.c_avail_def [OF assms(5)]
      quiet_link.c_sent_def [OF assms(1)] quiet_link.moved_def [OF assms(1)])

text \<open>
  C5: what \<open>ti73_send_VAR\<close> sends from one handle, \<open>ti73_recv_VAR\<close> reads at the other end,
  whatever the stack array and the receiver's buffer held before: size and type exactly, a
  name of eight bytes with a terminator, version and archive attribute; for a backup six
  bytes of the name and nothing more, for a TI-73 no version and no attribute. The packet and
  nothing behind it is consumed.
\<close>
theorem ti73_var_roundtrip:
  assumes "quiet_link send recv sent avail room ok E" "link_ready ok h"
    and "kh_buffer h = Some hb" "length hb = 65542"
    and "19 \<le> room (cb_dev (kh_cable h))" "sent (cb_dev (kh_cable h)) = []"
    and "quiet_link send' recv' sent' avail' room' ok' E'" "link_ready ok' g"
    and "kh_buffer g = Some gb" "length gb = 65542"
    and "8 \<le> length name" "9 \<le> length (vh_name out)"
    and "ti73_send_VAR E varsize vartype (Some name) varattr version junk h = (r, h')"
    and "avail' (cb_dev (kh_cable g)) = sent (cb_dev (kh_cable h')) @ rest"
  shows "r = None \<and> (\<exists>g'. ti73_recv_VAR E' out g =
            (None, var73_received (kh_model h) varsize vartype name varattr version out, g')
          \<and> transfer sent' avail' ok' g []
              (length (var73_data (kh_model h) varsize vartype name varattr version) + 6) g')"
proof -
  note ends = quiet_ends [OF assms(1,2,5,6,7,8)]
  let ?p = "dbus_packet (mid_7383p (kh_model h)) DBUS_CMD_VAR
      (Some (var73_data (kh_model h) varsize vartype name varattr version))"
  obtain h'' where h'': "ti73_send_VAR E varsize vartype (Some name) varattr version junk h = (None, h'')"
      "quiet_link.moved sent avail room ok h ?p 0 h''"
    using quiet_link.ti73_send_VAR_quiet [OF assms(1) ends(1) assms(3,4,11) ends(3)] by blast
  have av: "quiet_link.c_avail avail' (kh_cable g) = ?p @ rest"
    using ends(4) [OF h''(2)] h''(1) assms(13,14) by simp
  have "mid_7383p (kh_model h) \<noteq> 0x80" by (simp add: mid_7383p_def)
  from quiet_link.ti73_recv_VAR_quiet [OF assms(7) ends(2) assms(9,10,11,12) av this] h''(1) assms(13)
  show ?thesis by (auto dest: quiet_link.moved_transfer [OF assms(7)])
qed

text \<open>
  \<open>ti73_recv_RTS\<close> takes a request of \<open>ti73_send_RTS\<close> exactly when it has version and
  attribute; the requests of a TI-73 and of a backup, which the sending function makes two or
  four bytes shorter, are refused as invalid packets after they have been read.
\<close>
theorem ti73_rts_acceptance:
  assumes "quiet_link send recv sent avail room ok E" "link_ready ok h"
    and "kh_buffer h = Some hb" "length hb = 65542"
    and "19 \<le> room (cb_dev (kh_cable h))" "sent (cb_dev (kh_cable h)) = []"
    and "quiet_link send' recv' sent' avail' room' ok' E'" "link_ready ok' g"
    and "kh_buffer g = Some gb" "length gb = 65542"
    and "8 \<le> length name" "9 \<le> length (vh_name out)"
    and "ti73_send_RTS E varsize vartype (Some name) varattr version junk h = (r, h')"
    and "avail' (cb_dev (kh_cable g)) = sent (cb_dev (kh_cable h')) @ rest"
  shows "r = None \<and> (\<exists>w g'. ti73_recv_RTS E' out g =
            (if kh_model h = CALC_TI73 \<or> (vartype = TI7383p_BKUP \<and> version = 0)
             then Some ERR_INVALID_PACKET else None, w, g')
          \<and> (\<not> (kh_model h = CALC_TI73 \<or> (vartype = TI7383p_BKUP \<and> version = 0)) \<longrightarrow>
               w = var73_received (kh_model h) varsize vartype name varattr version out)
          \<and> transfer sent' avail' ok' g []
              (length (var73_data (kh_model h) varsize vartype name varattr version) + 6) g')"
proof -
  note ends = quiet_ends [OF assms(1,2,5,6,7,8)]
  let ?p = "dbus_packet (mid_7383p (kh_model h)) DBUS_CMD_RTS
      (Some (var73_data (kh_model h) varsize vartype name varattr version))"
  obtain h'' where h'': "ti73_send_RTS E varsize vartype (Some name) varattr version junk h = (None, h'')"
      "quiet_link.moved sent avail room ok h ?p 0 h''"
    using quiet_link.ti73_send_RTS_quiet [OF assms(1) ends(1) assms(3,4,11) ends(3)] by blast
  have av: "quiet_link.c_avail avail' (kh_cable g) = ?p @ rest"
    using ends(4) [OF h''(2)] h''(1) assms(13,14) by simp
  have "mid_7383p (kh_model h) \<noteq> 0x80" by (simp add: mid_7383p_def)
  from quiet_link.ti73_recv_RTS_quiet [OF assms(7) ends(2) assms(9,10,11,12) av this] h''(1) assms(13)
  show ?thesis by (auto dest: quiet_link.moved_transfer [OF assms(7)] split: if_splits)
qed

text \<open>
  \<open>ti85_send_VAR\<close> and \<open>ti85_recv_VAR\<close> exchange a name with its length, cut at eight bytes.
  The receiver writes a terminator at index 8 only: behind a shorter name its array keeps the
  bytes that it had.
\<close>
theorem ti85_var_roundtrip:
  assumes "quiet_link send recv sent avail room ok E" "link_ready ok h"
    and "kh_buffer h = Some hb" "length hb = 65542"
    and "18 \<le> room (cb_dev (kh_cable h))" "sent (cb_dev (kh_cable h)) = []"
    and "quiet_link send' recv' sent' avail' room' ok' E'" "link_ready ok' g"
    and "kh_buffer g = Some gb" "length gb = 65542"
    and "strlen name = Some n" "vartype \<noteq> TI8586_BKUP" "9 \<le> length (vh_name out)"
    and "ti85_send_VAR E varsize vartype (Some name) junk h = (r, h')"
    and "avail' (cb_dev (kh_cable g)) = sent (cb_dev (kh_cable h')) @ rest"
  shows "r = None \<and> (\<exists>g'. ti85_recv_VAR E' out g =
            (None, out\<lparr>vh_size := varsize, vh_type := vartype,
               vh_name := (take (min 8 n) name @ drop (min 8 n) (vh_name out))[8 := 0]\<rparr>, g')
          \<and> transfer sent' avail' ok' g [] (10 + min 8 n) g')"
proof -
  note ends = quiet_ends [OF assms(1,2,5,6,7,8)]
  let ?p = "dbus_packet (mid_8586 (kh_model h)) DBUS_CMD_VAR
      (Some ([LSB varsize, MSB varsize, vartype, of_nat (min 8 n)] @ take (min 8 n) name))"
  obtain h'' where h'': "ti85_send_VAR E varsize vartype (Some name) junk h = (None, h'')"
      "quiet_link.moved sent avail room ok h ?p 0 h''"
    using quiet_link.ti85_send_VAR_quiet [OF assms(1) ends(1) assms(3,4,11) ends(3) assms(12)] by blast
  have av: "quiet_link.c_avail avail' (kh_cable g) = ?p @ rest"
    using ends(4) [OF h''(2)] h''(1) assms(14,15) by simp
  have k: "min 8 n \<le> length name" "min 8 n \<le> 8" using strlen_bound [OF assms(11)] by auto
  have "mid_8586 (kh_model h) \<noteq> 0x80" by (simp add: mid_8586_def)
  from quiet_link.ti85_recv_VAR_quiet [OF assms(7) ends(2) assms(9,10) k assms(13,12) this av] h''(1) assms(14)
  show ?thesis by (auto dest: quiet_link.moved_transfer [OF assms(7)])
qed

lemma memcpy_behind:
  "length hdr = off \<Longrightarrow> n \<le> length name \<Longrightarrow> memcpy (hdr @ ys) off name 0 n =
     (if n \<le> length ys then Some (hdr @ take n name @ drop n ys) else None)"
  by (auto simp: memcpy_def memcpy_from_def memcpy_at_def)

lemma memset_behind:
  "length hdr = off \<Longrightarrow> memset_rest (hdr @ ys) off = Some (hdr @ replicate (length ys) 0)"
  by (auto simp: memset_rest_def)

text \<open>Laying a name out after a header of \<open>off\<close> bytes.\<close>

lemma put_name_and_clear_eq:
  assumes "strlen name = Some n" "length hdr = off"
  shows "put_name_and_clear (hdr @ ys) off (Some name) =
     (if min 8 n \<le> length ys then Some (hdr @ take (min 8 n) name @ replicate (length ys - min 8 n) 0)
      else None)"
proof -
  have "min 8 n \<le> length name" using strlen_bound [OF assms(1)] by simp
  then show ?thesis using assms memcpy_some_iff [of "hdr @ ys" off name 0 "min 8 n"]
    by (auto simp: put_name_and_clear_def optional_len_def clamped_len_def memcpy_eq memset_rest_def)
qed

text \<open>
  the headers of the four functions that announce data to laboratory equipment, for every
  name. Names up to the size of the rest of the array are copied behind the header; but three
  of the arrays are too short for the eight bytes that the length is clamped to, and the copy
  then writes behind the array: from 8 bytes on for the TI-73, from 7 on for the TI-82 and
  TI-83, from 8 on for the TI-85 and TI-86. The header of the latter has the name one byte
  behind the place the length says, and between them a byte that was never written.
\<close>
theorem lab_equipment_headers:
  assumes "strlen name = Some n"
  shows "tiz80_send_RTS_lab_equipment_data E varsize target (Some name) junk h
      = dbus_send E target DBUS_CMD_RTS 11 (Some ([LSB varsize, MSB varsize, 0x01, 0x24]
          @ take (min 8 n) name @ replicate (12 - min 8 n) 0)) h
    \<and> ti73_send_RTS_lab_equipment_data E varsize target (Some name) junk h
      = (if n < 8 then dbus_send E target DBUS_CMD_RTS 11 (Some ([LSB varsize, MSB varsize, 0x01, 0x5D]
             @ take n name @ replicate (7 - n) 0)) h
         else (Some UNDEFINED_BEHAVIOUR, h))
    \<and> ti8283_send_RTS_lab_equipment_data E varsize target (Some name) junk h
      = (if n < 7 then dbus_send E target DBUS_CMD_RTS 11 (Some ([LSB varsize, MSB varsize, 0x01, 0x5D, 0x01]
             @ take n name @ replicate (6 - n) 0)) h
         else (Some UNDEFINED_BEHAVIOUR, h))
    \<and> ti8586_send_RTS_lab_equipment_data E varsize target (Some name) junk h
      = (if n = 0 then dbus_send E target DBUS_CMD_RTS 12 (Some ([LSB varsize, MSB varsize, 0x04, 1,
             local_array 12 junk ! 4, 0x42] @ replicate 6 0)) h
         else if n < 8 then dbus_send E target DBUS_CMD_RTS 12 (Some ([LSB varsize, MSB varsize, 0x04,
             of_nat n, local_array 12 junk ! 4] @ take n name @ replicate (7 - n) 0)) h
         else (Some UNDEFINED_BEHAVIOUR, h))"
proof (intro conjI)
  have name: "min 8 n \<le> length name" "n < length name" "min 8 n \<le> 12"
    using strlen_bound [OF assms] by auto
  show "tiz80_send_RTS_lab_equipment_data E varsize target (Some name) junk h
      = dbus_send E target DBUS_CMD_RTS 11 (Some ([LSB varsize, MSB varsize, 0x01, 0x24]
          @ take (min 8 n) name @ replicate (12 - min 8 n) 0)) h"
    using put_name_and_clear_eq [OF assms, of "[LSB varsize, MSB varsize, 0x01, 0x24]" 4
        "drop 4 (local_array 16 junk)"] name(3)
    by (simp add: tiz80_send_RTS_lab_equipment_data_def send_array_def put_header4_eq)
  show "ti73_send_RTS_lab_equipment_data E varsize target (Some name) junk h
      = (if n < 8 then dbus_send E target DBUS_CMD_RTS 11 (Some ([LSB varsize, MSB varsize, 0x01, 0x5D]
             @ take n name @ replicate (7 - n) 0)) h
         else (Some UNDEFINED_BEHAVIOUR, h))"
    using put_name_and_clear_eq [OF assms, of "[LSB varsize, MSB varsize, 0x01, 0x5D]" 4
        "drop 4 (local_array 11 junk)"]
    by (auto simp: ti73_send_RTS_lab_equipment_data_def send_array_def put_header4_eq min_def)
  have five: "((put_header varsize t (local_array k junk))[3 := x, 4 := y])
      = [LSB varsize, MSB varsize, t, x, y] @ drop 5 (local_array k junk)" if "5 \<le> k" for t x y k
  proof -
    have "drop 4 (local_array k junk) \<noteq> []" using that by simp
    then obtain z zs where z: "drop 4 (local_array k junk) = z # zs" by (meson neq_Nil_conv)
    have "drop 5 (local_array k junk) = zs" using drop_drop [of 1 4 "local_array k junk"] z by simp
    then show ?thesis using that z by (simp add: put_header4_eq)
  qed
  show "ti8283_send_RTS_lab_equipment_data E varsize target (Some name) junk h
      = (if n < 7 then dbus_send E target DBUS_CMD_RTS 11 (Some ([LSB varsize, MSB varsize, 0x01, 0x5D, 0x01]
             @ take n name @ replicate (6 - n) 0)) h
         else (Some UNDEFINED_BEHAVIOUR, h))"
    using put_name_and_clear_eq [OF assms, of "[LSB varsize, MSB varsize, 0x01, 0x5D, 0x01]" 5
        "drop 5 (local_array 11 junk)"]
    by (auto simp: ti8283_send_RTS_lab_equipment_data_def send_array_def five min_def)
  have hdr: "(put_header varsize 4 (local_array 12 junk))[3 := x]
      = [LSB varsize, MSB varsize, 4, x, local_array 12 junk ! 4] @ drop 5 (local_array 12 junk)" for x
    using Cons_nth_drop_Suc [of 4 "local_array 12 junk"] by (simp add: put_header4_eq)
  have body: "Option.bind (memset_rest ((put_header varsize 4 (local_array 12 junk))[3 := x]) 5)
        (\<lambda>buf. memcpy buf 5 nm 0 k)
      = (if k \<le> 7 then Some ([LSB varsize, MSB varsize, 4, x, local_array 12 junk ! 4]
            @ take k nm @ replicate (7 - k) 0) else None)" if "k \<le> length nm" for k nm x
    unfolding hdr using that by (simp add: memset_behind memcpy_behind del: append_Cons)
  have zero: "n = 0 \<longleftrightarrow> name ! 0 = 0"
    using assms name(2) by (cases name) (auto simp: strlen_def split: if_splits)
  show "ti8586_send_RTS_lab_equipment_data E varsize target (Some name) junk h
      = (if n = 0 then dbus_send E target DBUS_CMD_RTS 12 (Some ([LSB varsize, MSB varsize, 0x04, 1,
             local_array 12 junk ! 4, 0x42] @ replicate 6 0)) h
         else if n < 8 then dbus_send E target DBUS_CMD_RTS 12 (Some ([LSB varsize, MSB varsize, 0x04,
             of_nat n, local_array 12 junk ! 4] @ take n name @ replicate (7 - n) 0)) h
         else (Some UNDEFINED_BEHAVIOUR, h))"
    using name zero assms body [of n name "of_nat n"] body [of 8 name 8] body [of 1 "[0x42, 0]" 1]
    by (cases "n < 8") (simp_all add: ti8586_send_RTS_lab_equipment_data_def send_array_def
        optional_len_def clamped_len_def Let_def min_def)
qed

section \<open>Concrete runs\<close>

definition z80_handle :: "calc_model \<Rightarrow> vti_dev calc_handle" where
  "z80_handle m = vti_handle m (vti_loaded [])"

text \<open>The receiving end of the segments that a sender has written to.\<close>

definition z80_receiver :: "calc_model \<Rightarrow> 'z \<times> vti_dev calc_handle \<Rightarrow> vti_dev calc_handle" where
  "z80_receiver m rh = vti_handle m (vti_peer (cb_dev (kh_cable (snd rh))))"

definition empty_header :: var_header where
  "empty_header = \<lparr>vh_size = 0, vh_type = 0, vh_name = replicate 9 0x58, vh_attr = 0, vh_version = 0\<rparr>"

lemma z80_handle_sender [simp]:
  "link_ready vti_ok (z80_handle m)" "kh_buffer (z80_handle m) = Some (replicate 65542 0)"
  "kh_model (z80_handle m) = m" "vti_room (cb_dev (kh_cable (z80_handle m))) = 255"
  "vti_sent (cb_dev (kh_cable (z80_handle m))) = []"
  by (simp_all add: z80_handle_def)

lemma z80_handle_room: "n \<le> 255 \<Longrightarrow> n \<le> vti_room (cb_dev (kh_cable (z80_handle m)))"
  by simp

lemma z80_handle_ready:
  "quiet_vti.ready (z80_handle m)" "n \<le> 255 \<Longrightarrow> n \<le> quiet_vti.c_room (kh_cable (z80_handle m))"
  by (simp_all add: quiet_vti.link_ready_iff [symmetric] quiet_vti.c_room_def)

lemma z80_receiver_ready:
  assumes "quiet_vti.moved (z80_handle m) p 0 (snd rh)"
  shows "link_ready vti_ok (z80_receiver m' rh)"
    and "vti_avail (cb_dev (kh_cable (z80_receiver m' rh))) = vti_sent (cb_dev (kh_cable (snd rh))) @ []"
  using assms
  by (auto simp: z80_receiver_def quiet_vti.moved_def quiet_vti.ready_def quiet_vti.cable_ready_def)

lemma z80_receiver_buffer: "kh_buffer (z80_receiver m rh) = Some (replicate 65542 0)"
  by (simp add: z80_receiver_def)

theorem ti73_var_roundtrip_witness:
  "\<exists>g'. ti73_recv_VAR (vti_env vti_works) empty_header
       (z80_receiver CALC_TI84P (ti73_send_VAR (vti_env vti_works) 0x123 5
          (Some [0x41, 0x42, 0, 0, 0, 0, 0, 0]) ATTRB_ARCHIVED 2 [] (z80_handle CALC_TI83P)))
     = (None, \<lparr>vh_size = 0x123, vh_type = 5, vh_name = [0x41, 0x42, 0, 0, 0, 0, 0, 0, 0],
               vh_attr = ATTRB_ARCHIVED, vh_version = 2\<rparr>, g')"
proof -
  let ?name = "[0x41, 0x42, 0, 0, 0, 0, 0, 0 :: u8]"
  obtain h' where h': "ti73_send_VAR (vti_env vti_works) 0x123 5 (Some ?name) ATTRB_ARCHIVED 2 []
        (z80_handle CALC_TI83P) = (None, h')"
      "quiet_vti.moved (z80_handle CALC_TI83P) (dbus_packet 0x23 DBUS_CMD_VAR
         (Some (var73_data CALC_TI83P 0x123 5 ?name ATTRB_ARCHIVED 2))) 0 h'"
    using quiet_vti.ti73_send_VAR_quiet [OF z80_handle_ready(1) [of CALC_TI83P] z80_handle_sender(2)
        length_replicate _ z80_handle_ready(2), where name = ?name and S = vti_works]
    by (simp add: mid_7383p_def) blast
  note rcv = z80_receiver_ready [of CALC_TI83P _ "(None, h')", simplified snd_conv, OF h'(2), of CALC_TI84P]
  have pre: "8 \<le> length ?name" "9 \<le> length (vh_name empty_header)" "(19::nat) \<le> 255"
    by (simp_all add: empty_header_def)
  from ti73_var_roundtrip [OF quiet_vti.quiet_link_axioms [of vti_works] z80_handle_sender(1,2)
      length_replicate z80_handle_room [OF pre(3)] z80_handle_sender(5)
      quiet_vti.quiet_link_axioms [of vti_works] rcv(1) z80_receiver_buffer length_replicate
      pre(1,2) h'(1) rcv(2)]
  show ?thesis unfolding h'(1)
    by (simp add: var73_received_def empty_header_def small_replicate) blast
qed

theorem ti73_rts_acceptance_witness:
  "\<exists>w g'. ti73_recv_RTS (vti_env vti_works) empty_header
       (z80_receiver CALC_TI73 (ti73_send_RTS (vti_env vti_works) 0x123 5
          (Some [0x41, 0x42, 0, 0, 0, 0, 0, 0]) ATTRB_NONE 0 [] (z80_handle CALC_TI73)))
     = (Some ERR_INVALID_PACKET, w, g')"
proof -
  let ?name = "[0x41, 0x42, 0, 0, 0, 0, 0, 0 :: u8]"
  obtain h' where h': "ti73_send_RTS (vti_env vti_works) 0x123 5 (Some ?name) ATTRB_NONE 0 []
        (z80_handle CALC_TI73) = (None, h')"
      "quiet_vti.moved (z80_handle CALC_TI73) (dbus_packet 0x07 DBUS_CMD_RTS
         (Some (var73_data CALC_TI73 0x123 5 ?name ATTRB_NONE 0))) 0 h'"
    using quiet_vti.ti73_send_RTS_quiet [OF z80_handle_ready(1) [of CALC_TI73] z80_handle_sender(2)
        length_replicate _ z80_handle_ready(2), where name = ?name and S = vti_works]
    by (simp add: mid_7383p_def) blast
  note rcv = z80_receiver_ready [of CALC_TI73 _ "(None, h')", simplified snd_conv, OF h'(2), of CALC_TI73]
  have pre: "8 \<le> length ?name" "9 \<le> length (vh_name empty_header)" "(19::nat) \<le> 255"
    by (simp_all add: empty_header_def)
  from ti73_rts_acceptance [OF quiet_vti.quiet_link_axioms [of vti_works] z80_handle_sender(1,2)
      length_replicate z80_handle_room [OF pre(3)] z80_handle_sender(5)
      quiet_vti.quiet_link_axioms [of vti_works] rcv(1) z80_receiver_buffer length_replicate
      pre(1,2) h'(1) rcv(2)]
  show ?thesis unfolding h'(1) by auto
qed

theorem ti85_var_roundtrip_witness:
  "\<exists>g'. ti85_recv_VAR (vti_env vti_works) empty_header
       (z80_receiver CALC_TI86 (ti85_send_VAR (vti_env vti_works) 7 12 (Some [0x61, 0])
          [] (z80_handle CALC_TI86)))
     = (None, empty_header\<lparr>vh_size := 7, vh_type := 12,
               vh_name := [0x61, 0x58, 0x58, 0x58, 0x58, 0x58, 0x58, 0x58, 0]\<rparr>, g')"
proof -
  have name: "strlen [0x61, 0 :: u8] = Some 1" by (simp add: strlen_def)
  obtain h' p where h': "ti85_send_VAR (vti_env vti_works) 7 12 (Some [0x61, 0]) []
        (z80_handle CALC_TI86) = (None, h')" "quiet_vti.moved (z80_handle CALC_TI86) p 0 h'"
    using quiet_vti.ti85_send_VAR_quiet [OF z80_handle_ready(1) [of CALC_TI86] z80_handle_sender(2)
        length_replicate name z80_handle_ready(2), where S = vti_works and vartype = 12]
    by simp blast
  note rcv = z80_receiver_ready [of CALC_TI86 _ "(None, h')", simplified snd_conv, OF h'(2), of CALC_TI86]
  have pre: "(12::u8) \<noteq> TI8586_BKUP" "9 \<le> length (vh_name empty_header)" "(18::nat) \<le> 255"
    by (simp_all add: empty_header_def)
  from ti85_var_roundtrip [OF quiet_vti.quiet_link_axioms [of vti_works] z80_handle_sender(1,2)
      length_replicate z80_handle_room [OF pre(3)] z80_handle_sender(5)
      quiet_vti.quiet_link_axioms [of vti_works] rcv(1) z80_receiver_buffer length_replicate
      name pre(1,2) h'(1) rcv(2)]
  show ?thesis unfolding h'(1)
    by (auto simp: empty_header_def eval_nat_numeral)
qed

theorem lab_equipment_headers_witness:
  "ti73_send_RTS_lab_equipment_data (vti_env vti_works) 5 0x07
       (Some [0x41, 0x42, 0x43, 0x44, 0x45, 0x46, 0x47, 0x48, 0]) [] (z80_handle CALC_CBL2)
     = (Some UNDEFINED_BEHAVIOUR, z80_handle CALC_CBL2)"
proof -
  have "strlen [0x41, 0x42, 0x43, 0x44, 0x45, 0x46, 0x47, 0x48, 0 :: u8] = Some 8"
    by (simp add: strlen_def)
  from lab_equipment_headers [OF this, of "vti_env vti_works" 5 "0x07" "[]" "z80_handle CALC_CBL2"]
  show ?thesis by simp
qed

end
