(* ===== verification/Cmd68k.thy ===== *)
theory Cmd68k
  imports CmdZ80
begin

text \<open>
  The commands of the TI-92 and of the TI-89 family on the link cable,
  \<^verbatim>\<open>libticalcs/trunk/src/cmd68k.cc\<close>. Against the Z80 commands sizes have four bytes, names are
  prefixed with their length and may have a folder in front, and a rejection carries an error
  code. The helpers of \<open>CmdZ80\<close> for sending an array and for receiving into the handle's buffer
  or the caller's array are used here too.
\<close>

section \<open>Machines, error codes and names\<close>

abbreviation "DBUS_MID_PC_TI89 \<equiv> (0x08 :: u8)"
abbreviation "DBUS_MID_PC_TI92 \<equiv> (0x09 :: u8)"
abbreviation "DBUS_MID_PC_TI92p \<equiv> (0x08 :: u8)"
abbreviation "DBUS_MID_PC_V200 \<equiv> (0x08 :: u8)"
abbreviation "DBUS_MID_PC_TIPRESENTER \<equiv> (0x33 :: u8)"
abbreviation "TI89_CLK \<equiv> (0x18 :: u8)"
abbreviation "TI89_BKUP \<equiv> (0x1D :: u8)"

definition ti68k_model_to_dbus_mid :: "calc_model \<Rightarrow> u8" where
  "ti68k_model_to_dbus_mid m =
     (case m of
        CALC_TI89 \<Rightarrow> DBUS_MID_PC_TI89
      | CALC_TI89T \<Rightarrow> DBUS_MID_PC_TI89
      | CALC_CBL \<Rightarrow> DBUS_MID_PC_TI89
      | CALC_CBR \<Rightarrow> DBUS_MID_PC_TI89
      | CALC_CBL2 \<Rightarrow> DBUS_MID_PC_TI89
      | CALC_CBR2 \<Rightarrow> DBUS_MID_PC_TI89
      | CALC_LABPRO \<Rightarrow> DBUS_MID_PC_TI89
      | CALC_TI92 \<Rightarrow> DBUS_MID_PC_TI92
      | CALC_TI92P \<Rightarrow> DBUS_MID_PC_TI92p
      | CALC_V200 \<Rightarrow> DBUS_MID_PC_V200
      | CALC_TIPRESENTER \<Rightarrow> DBUS_MID_PC_TIPRESENTER
      | _ \<Rightarrow> DBUS_MID_PC_TIXX)"

definition ti68k_handle_to_dbus_mid :: "'d calc_handle \<Rightarrow> u8" where
  "ti68k_handle_to_dbus_mid h = ti68k_model_to_dbus_mid (kh_model h)"

definition dbus_errors :: "u8 list" where
  "dbus_errors = [0x03, 0x25, 0x1e, 0x21, 0x07, 0x24, 0x08]"

definition ticalcs_dbus_error_code_from_index :: "nat \<Rightarrow> u8" where
  "ticalcs_dbus_error_code_from_index i = (if i \<ge> length dbus_errors then 0 else dbus_errors ! i)"

definition ticalcs_dbus_error_count :: nat where
  "ticalcs_dbus_error_count = length dbus_errors"

fun error_number :: "u8 list \<Rightarrow> u8 \<Rightarrow> nat \<Rightarrow> nat" where
  "error_number [] code i = 0"
| "error_number (e # es) code i = (if e = code then i + 1 else error_number es code (i + 1))"

text \<open>The number of an error, \<open>0\<close> for a code that is not in the table.\<close>

definition err_code :: "bytes \<Rightarrow> nat" where
  "err_code data = error_number dbus_errors (data ! 2) 0"

text \<open>
  The length of a name as a 16-bit number, at most 17. The part of a path behind the first
  backslash, as an offset into the path; \<open>None\<close> is the null pointer.
\<close>

definition clamped17 :: "bytes \<Rightarrow> nat option" where
  "clamped17 name = map_option (\<lambda>n. min 17 (n mod 2 ^ 16)) (strlen name)"

definition tifiles_get_varname :: "bytes option \<Rightarrow> nat option" where
  "tifiles_get_varname full_name =
     (case full_name of None \<Rightarrow> None
      | Some s \<Rightarrow>
          (let t = takeWhile (\<lambda>b. b \<noteq> 0) s
           in if 0x5C \<in> set t then Some (length (takeWhile (\<lambda>b. b \<noteq> 0x5C) t) + 1) else Some 0))"

section \<open>Sending\<close>

definition put_size68 :: "u32 \<Rightarrow> bytes \<Rightarrow> bytes" where
  "put_size68 varsize buf =
     buf[0 := LSB (LSW varsize), 1 := MSB (LSW varsize), 2 := LSB (MSW varsize), 3 := MSB (MSW varsize)]"

text \<open>A size, a type and a name with its length in front; the result has the length, too.\<close>

definition put_var68 :: "u32 \<Rightarrow> u8 \<Rightarrow> bytes \<Rightarrow> bytes \<Rightarrow> (nat \<times> bytes) option" where
  "put_var68 varsize vartype name junk =
     Option.bind (clamped17 name) (\<lambda>len.
       map_option (Pair len)
         (memcpy ((put_size68 varsize (local_array 32 junk))[4 := vartype, 5 := of_nat len]) 6 name 0 len))"

definition send_var68 ::
    "'d calc_env \<Rightarrow> u8 \<Rightarrow> u8 \<Rightarrow> u16 \<Rightarrow> (bytes \<Rightarrow> nat \<Rightarrow> bytes) \<Rightarrow> (nat \<times> bytes) option \<Rightarrow> 'd calc_handle
       \<Rightarrow> ret \<times> 'd calc_handle" where
  "send_var68 E target cmd extra finish named h =
     (case named of None \<Rightarrow> (Some UNDEFINED_BEHAVIOUR, h)
      | Some (len, buf) \<Rightarrow>
          dbus_send E target cmd (6 + of_nat len + extra) (Some (finish buf (6 + len))) h)"

definition ti68k_send_simple_cmd ::
    "'d calc_env \<Rightarrow> u8 \<Rightarrow> u8 \<Rightarrow> u16 \<Rightarrow> bytes option \<Rightarrow> 'd calc_handle \<Rightarrow> ret \<times> 'd calc_handle" where
  "ti68k_send_simple_cmd E target cmd len data h = dbus_send E target cmd len data h"

definition ti68k_send_VAR ::
    "'d calc_env \<Rightarrow> u32 \<Rightarrow> u8 \<Rightarrow> bytes option \<Rightarrow> u8 \<Rightarrow> bytes \<Rightarrow> 'd calc_handle \<Rightarrow> ret \<times> 'd calc_handle" where
  "ti68k_send_VAR E varsize vartype varname target junk h =
     (let extra = (if target = DBUS_MID_PC_TI92 then 0 else if vartype = TI89_BKUP then 0 else 1) in
      with_name varname h (\<lambda>name.
        send_var68 E target DBUS_CMD_VAR extra (\<lambda>buf i. buf[i := 0x03])
          (put_var68 varsize vartype name junk) h))"

definition ti68k_send_VAR_lab_equipment_data ::
    "'d calc_env \<Rightarrow> u32 \<Rightarrow> u8 \<Rightarrow> u8 \<Rightarrow> bytes \<Rightarrow> 'd calc_handle \<Rightarrow> ret \<times> 'd calc_handle" where
  "ti68k_send_VAR_lab_equipment_data E varsize vartype target junk h =
     dbus_send E target DBUS_CMD_VAR 8
       (Some ((put_size68 varsize (local_array 16 junk))
                [4 := vartype, 5 := 0x01, 6 := 0xFF, 7 := 0x00])) h"

definition ti68k_send_CTS :: "'d calc_env \<Rightarrow> u8 \<Rightarrow> 'd calc_handle \<Rightarrow> ret \<times> 'd calc_handle" where
  "ti68k_send_CTS E target h = ti68k_send_simple_cmd E target DBUS_CMD_CTS 2 None h"

definition ti68k_send_XDP ::
    "'d calc_env \<Rightarrow> u32 \<Rightarrow> bytes option \<Rightarrow> u8 \<Rightarrow> 'd calc_handle \<Rightarrow> ret \<times> 'd calc_handle" where
  "ti68k_send_XDP E len data target h = dbus_send E target DBUS_CMD_XDP (ucast len) data h"

definition ti89_send_SKP :: "'d calc_env \<Rightarrow> u8 \<Rightarrow> 'd calc_handle \<Rightarrow> ret \<times> 'd calc_handle" where
  "ti89_send_SKP E rej_code h =
     dbus_send E (ti68k_handle_to_dbus_mid h) DBUS_CMD_SKP 3 (Some [rej_code, 0, 0, 0]) h"

definition ti92_send_SKP :: "'d calc_env \<Rightarrow> u8 \<Rightarrow> 'd calc_handle \<Rightarrow> ret \<times> 'd calc_handle" where
  "ti92_send_SKP E rej_code h = dbus_send E DBUS_MID_PC_TI92 DBUS_CMD_SKP 1 (Some [rej_code]) h"

definition ti68k_send_ACK :: "'d calc_env \<Rightarrow> u8 \<Rightarrow> 'd calc_handle \<Rightarrow> ret \<times> 'd calc_handle" where
  "ti68k_send_ACK E target h = ti68k_send_simple_cmd E target DBUS_CMD_ACK 2 None h"

definition ti68k_send_ERR :: "'d calc_env \<Rightarrow> u8 \<Rightarrow> 'd calc_handle \<Rightarrow> ret \<times> 'd calc_handle" where
  "ti68k_send_ERR E target h = ti68k_send_simple_cmd E target DBUS_CMD_ERR 2 None h"

definition ti68k_send_RDY :: "'d calc_env \<Rightarrow> u8 \<Rightarrow> 'd calc_handle \<Rightarrow> ret \<times> 'd calc_handle" where
  "ti68k_send_RDY E target h = ti68k_send_simple_cmd E target DBUS_CMD_RDY 2 None h"

definition ti68k_send_SCR :: "'d calc_env \<Rightarrow> u8 \<Rightarrow> 'd calc_handle \<Rightarrow> ret \<times> 'd calc_handle" where
  "ti68k_send_SCR E target h = ti68k_send_simple_cmd E target DBUS_CMD_SCR 2 None h"

definition ti68k_send_CNT :: "'d calc_env \<Rightarrow> u8 \<Rightarrow> 'd calc_handle \<Rightarrow> ret \<times> 'd calc_handle" where
  "ti68k_send_CNT E target h = ti68k_send_simple_cmd E target DBUS_CMD_CNT 2 None h"

definition ti68k_send_KEY :: "'d calc_env \<Rightarrow> u16 \<Rightarrow> u8 \<Rightarrow> 'd calc_handle \<Rightarrow> ret \<times> 'd calc_handle" where
  "ti68k_send_KEY E scancode target h =
     send_raw_dbus E scancode target DBUS_CMD_KEY None
       [target, DBUS_CMD_KEY, LSB scancode, MSB scancode] h"

definition ti68k_send_EOT :: "'d calc_env \<Rightarrow> u8 \<Rightarrow> 'd calc_handle \<Rightarrow> ret \<times> 'd calc_handle" where
  "ti68k_send_EOT E target h = ti68k_send_simple_cmd E target DBUS_CMD_EOT 2 None h"

definition ti89_send_REQ ::
    "'d calc_env \<Rightarrow> u32 \<Rightarrow> u8 \<Rightarrow> bytes option \<Rightarrow> bytes \<Rightarrow> 'd calc_handle \<Rightarrow> ret \<times> 'd calc_handle" where
  "ti89_send_REQ E varsize vartype varname junk h = with_name varname h (\<lambda>name.
     send_var68 E (ti68k_handle_to_dbus_mid h) DBUS_CMD_REQ (if vartype \<noteq> TI89_CLK then 0 else 1)
       (\<lambda>buf i. buf[i := 0x00]) (put_var68 varsize vartype name junk) h)"

definition ti92_send_REQ ::
    "'d calc_env \<Rightarrow> u32 \<Rightarrow> u8 \<Rightarrow> bytes option \<Rightarrow> bytes \<Rightarrow> 'd calc_handle \<Rightarrow> ret \<times> 'd calc_handle" where
  "ti92_send_REQ E varsize vartype varname junk h = with_name varname h (\<lambda>name.
     send_var68 E DBUS_MID_PC_TI92 DBUS_CMD_REQ 0 (\<lambda>buf i. buf) (put_var68 0 vartype name junk) h)"

definition ti89_send_RTS ::
    "'d calc_env \<Rightarrow> u32 \<Rightarrow> u8 \<Rightarrow> bytes option \<Rightarrow> bytes \<Rightarrow> 'd calc_handle \<Rightarrow> ret \<times> 'd calc_handle" where
  "ti89_send_RTS E varsize vartype varname junk h = with_name varname h (\<lambda>name.
     send_var68 E (ti68k_handle_to_dbus_mid h) DBUS_CMD_RTS 1 (\<lambda>buf i. buf[i := 0x00])
       (put_var68 varsize vartype name junk) h)"

definition ti92_send_RTS ::
    "'d calc_env \<Rightarrow> u32 \<Rightarrow> u8 \<Rightarrow> bytes option \<Rightarrow> bytes \<Rightarrow> 'd calc_handle \<Rightarrow> ret \<times> 'd calc_handle" where
  "ti92_send_RTS E varsize vartype varname junk h = with_name varname h (\<lambda>name.
     send_var68 E DBUS_MID_PC_TI92 DBUS_CMD_RTS 0 (\<lambda>buf i. buf)
       (put_var68 varsize vartype name junk) h)"

definition ti89_send_RTS2 ::
    "'d calc_env \<Rightarrow> u32 \<Rightarrow> u8 \<Rightarrow> u8 \<Rightarrow> bytes \<Rightarrow> 'd calc_handle \<Rightarrow> ret \<times> 'd calc_handle" where
  "ti89_send_RTS2 E varsize vartype hw_id junk h =
     dbus_send E (ti68k_handle_to_dbus_mid h) DBUS_CMD_RTS 9
       (Some ((put_size68 varsize (local_array 9 junk))
                [4 := vartype, 5 := 0x00, 6 := 0x08, 7 := 0x00, 8 := hw_id])) h"

definition ti89_send_VER :: "'d calc_env \<Rightarrow> 'd calc_handle \<Rightarrow> ret \<times> 'd calc_handle" where
  "ti89_send_VER E h = ti68k_send_simple_cmd E (ti68k_handle_to_dbus_mid h) DBUS_CMD_VER 2 None h"

text \<open>The size and the type of a variable to delete are not sent.\<close>

definition ti89_send_DEL ::
    "'d calc_env \<Rightarrow> u32 \<Rightarrow> u8 \<Rightarrow> bytes option \<Rightarrow> bytes \<Rightarrow> 'd calc_handle \<Rightarrow> ret \<times> 'd calc_handle" where
  "ti89_send_DEL E varsize vartype varname junk h = with_name varname h (\<lambda>name.
     send_var68 E (ti68k_handle_to_dbus_mid h) DBUS_CMD_DEL 0 (\<lambda>buf i. buf)
       (put_var68 0 0 name junk) h)"

section \<open>Receiving\<close>

text \<open>The variables of the caller: \<open>v68_name\<close> is the whole array it passes for the name.\<close>

record var68 =
  v68_size :: u32
  v68_type :: u8
  v68_name :: bytes

definition le32 :: "u8 \<Rightarrow> u8 \<Rightarrow> u8 \<Rightarrow> u8 \<Rightarrow> u32" where
  "le32 b0 b1 b2 b3 = ucast b0 OR push_bit 8 (ucast b1) OR push_bit 16 (ucast b2) OR push_bit 24 (ucast b3)"

text \<open>
  Size, type and name; as many bytes are copied as the length byte says, then the terminator
  is written behind them.
\<close>

definition get_var68 :: "var68 \<Rightarrow> bytes \<Rightarrow> var68 option" where
  "get_var68 out buf =
     (let strl = unat (buf ! 5) in
      Option.bind (memcpy (v68_name out) 0 buf 6 strl) (\<lambda>name.
        if strl < length name
        then Some \<lparr>v68_size = le32 (buf ! 0) (buf ! 1) (buf ! 2) (buf ! 3), v68_type = buf ! 4,
                   v68_name = name[strl := 0]\<rparr>
        else None))"

definition name_length :: "var68 \<Rightarrow> nat" where
  "name_length out = length (takeWhile (\<lambda>b. b \<noteq> 0) (v68_name out))"

definition strip_folder :: "var68 \<Rightarrow> var68" where
  "strip_folder out =
     (let name = v68_name out in
      (case tifiles_get_varname (Some name) of
         Some (Suc i) \<Rightarrow>
           (let n = length (takeWhile (\<lambda>b. b \<noteq> 0) (drop (Suc i) name)) + 1
            in out\<lparr>v68_name := take n (drop (Suc i) name) @ drop n name\<rparr>)
       | _ \<Rightarrow> out))"

text \<open>What an answer other than a variable header means; the TI-92 has no error codes.\<close>

definition rejection :: "bool \<Rightarrow> 'd calc_handle \<Rightarrow> errcode" where
  "rejection is_92 h = (if is_92 then ERR_VAR_REJECTED else ERR_CALC_ERROR1 (err_code (the (kh_buffer h))))"

definition var68_reply :: "bool \<Rightarrow> u8 \<Rightarrow> 'd calc_handle \<Rightarrow> ret" where
  "var68_reply is_92 cmd h =
     (if cmd = DBUS_CMD_EOT then Some ERR_EOT
      else if cmd = DBUS_CMD_SKP then Some (rejection is_92 h)
      else if cmd \<noteq> DBUS_CMD_VAR then Some ERR_INVALID_CMD else None)"

text \<open>
  A variable header whose length may be one of \<open>lens n\<close> for a name of \<open>n\<close> bytes. The caller's
  variables are written before the length is checked.
\<close>

definition recv_var68 ::
    "'d calc_env \<Rightarrow> bool \<Rightarrow> (nat \<Rightarrow> nat list) \<Rightarrow> var68 \<Rightarrow> 'd calc_handle \<Rightarrow> ret \<times> var68 \<times> 'd calc_handle" where
  "recv_var68 E is_92 lens out h =
     (let (r, (cmd, len), h) = recv_to_buffer E 0 h
      in (case r of Some e \<Rightarrow> (Some e, out, h) | None \<Rightarrow>
        (case var68_reply is_92 cmd h of Some e \<Rightarrow> (Some e, out, h) | None \<Rightarrow>
          (case Option.bind (kh_buffer h) (get_var68 out) of
             None \<Rightarrow> (Some UNDEFINED_BEHAVIOUR, out, h)
           | Some out \<Rightarrow>
               (if unat len \<notin> set (lens (name_length out)) then Some ERR_INVALID_PACKET else None,
                out, h)))))"

definition ti89_recv_VAR ::
    "'d calc_env \<Rightarrow> var68 \<Rightarrow> 'd calc_handle \<Rightarrow> ret \<times> var68 \<times> 'd calc_handle" where
  "ti89_recv_VAR E out h =
     (let (r, out, h) = recv_var68 E False (\<lambda>n. [6 + n, 7 + n]) out h
      in (r, if r = None then strip_folder out else out, h))"

definition ti92_recv_VAR ::
    "'d calc_env \<Rightarrow> var68 \<Rightarrow> 'd calc_handle \<Rightarrow> ret \<times> var68 \<times> 'd calc_handle" where
  "ti92_recv_VAR E out h = recv_var68 E True (\<lambda>n. [6 + n]) out h"

definition ti68k_recv_CTS :: "'d calc_env \<Rightarrow> bool \<Rightarrow> 'd calc_handle \<Rightarrow> ret \<times> 'd calc_handle" where
  "ti68k_recv_CTS E is_92 h =
     (let (r, (cmd, len), h) = recv_to_buffer E 0 h
      in (case r of Some e \<Rightarrow> (Some e, h) | None \<Rightarrow>
        (if cmd = DBUS_CMD_SKP then Some (rejection is_92 h)
         else if cmd \<noteq> DBUS_CMD_CTS then Some ERR_INVALID_CMD
         else if len \<noteq> 0 then Some ERR_CTS_ERROR else None, h)))"

definition ti89_recv_CTS :: "'d calc_env \<Rightarrow> 'd calc_handle \<Rightarrow> ret \<times> 'd calc_handle" where
  "ti89_recv_CTS E h = ti68k_recv_CTS E False h"

definition ti92_recv_CTS :: "'d calc_env \<Rightarrow> 'd calc_handle \<Rightarrow> ret \<times> 'd calc_handle" where
  "ti92_recv_CTS E h = ti68k_recv_CTS E True h"

definition ti68k_recv_SKP :: "'d calc_env \<Rightarrow> 'd calc_handle \<Rightarrow> ret \<times> u8 \<times> 'd calc_handle" where
  "ti68k_recv_SKP E h =
     (let (r, (cmd, len), h) = recv_to_buffer E 0 h
      in (case r of Some e \<Rightarrow> (Some e, 0, h) | None \<Rightarrow>
        (if cmd = DBUS_CMD_CTS then (None, 0, h)
         else if cmd \<noteq> DBUS_CMD_SKP then (Some ERR_INVALID_CMD, 0, h)
         else (None, the (kh_buffer h) ! 0, h))))"

definition ti68k_recv_XDP ::
    "'d calc_env \<Rightarrow> bytes option \<Rightarrow> 'd calc_handle \<Rightarrow> ret \<times> (u16 \<times> bytes option) \<times> 'd calc_handle" where
  "ti68k_recv_XDP E data h =
     (let (r, (cmd, len, data), h) = recv_to_caller E 0 data h
      in (case r of Some e \<Rightarrow> (Some e, (len, data), h) | None \<Rightarrow>
        (if cmd \<noteq> DBUS_CMD_XDP then Some ERR_INVALID_CMD else None, (len, data), h)))"

definition ti68k_recv_ACK ::
    "'d calc_env \<Rightarrow> u16 option \<Rightarrow> bool \<Rightarrow> 'd calc_handle \<Rightarrow> ret \<times> u16 option \<times> 'd calc_handle" where
  "ti68k_recv_ACK E status is_92 h =
     (let (r, (cmd, len), h) = recv_to_buffer E 0 h
      in (case r of Some e \<Rightarrow> (Some e, status, h) | None \<Rightarrow>
        (if \<not> is_92 \<and> cmd = DBUS_CMD_SKP then (Some (rejection False h), status, h)
         else if status = None \<and> len \<noteq> 0 then (Some ERR_NACK, None, h)
         else (let status = map_option (\<lambda>_. len) status
               in (if cmd \<noteq> DBUS_CMD_ACK then Some ERR_INVALID_CMD else None, status, h)))))"

definition ti89_recv_ACK ::
    "'d calc_env \<Rightarrow> u16 option \<Rightarrow> 'd calc_handle \<Rightarrow> ret \<times> u16 option \<times> 'd calc_handle" where
  "ti89_recv_ACK E status h = ti68k_recv_ACK E status False h"

definition ti92_recv_ACK ::
    "'d calc_env \<Rightarrow> u16 option \<Rightarrow> 'd calc_handle \<Rightarrow> ret \<times> u16 option \<times> 'd calc_handle" where
  "ti92_recv_ACK E status h = ti68k_recv_ACK E status True h"

definition ti68k_recv_CNT :: "'d calc_env \<Rightarrow> 'd calc_handle \<Rightarrow> ret \<times> 'd calc_handle" where
  "ti68k_recv_CNT E h =
     (let (r, (cmd, _, _), h) = recv_to_caller E 0 None h
      in (case r of Some e \<Rightarrow> (Some e, h) | None \<Rightarrow>
        (if cmd = DBUS_CMD_EOT then Some ERR_EOT
         else if cmd \<noteq> DBUS_CMD_CNT then Some ERR_INVALID_CMD else None, h)))"

definition ti68k_recv_EOT :: "'d calc_env \<Rightarrow> 'd calc_handle \<Rightarrow> ret \<times> 'd calc_handle" where
  "ti68k_recv_EOT E h =
     (let (r, (cmd, _, _), h) = recv_to_caller E 0 None h
      in (case r of Some e \<Rightarrow> (Some e, h) | None \<Rightarrow>
        (if cmd \<noteq> DBUS_CMD_EOT then Some ERR_INVALID_CMD else None, h)))"

text \<open>The command that is accepted is VAR, not RTS.\<close>

definition ti68k_recv_RTS ::
    "'d calc_env \<Rightarrow> var68 \<Rightarrow> bool \<Rightarrow> 'd calc_handle \<Rightarrow> ret \<times> var68 \<times> 'd calc_handle" where
  "ti68k_recv_RTS E out is_92 h = recv_var68 E is_92 (\<lambda>n. [6 + n]) out h"

definition ti89_recv_RTS ::
    "'d calc_env \<Rightarrow> var68 \<Rightarrow> 'd calc_handle \<Rightarrow> ret \<times> var68 \<times> 'd calc_handle" where
  "ti89_recv_RTS E out h = ti68k_recv_RTS E out False h"

definition ti92_recv_RTS ::
    "'d calc_env \<Rightarrow> var68 \<Rightarrow> 'd calc_handle \<Rightarrow> ret \<times> var68 \<times> 'd calc_handle" where
  "ti92_recv_RTS E out h = ti68k_recv_RTS E out True h"

section \<open>Layout of the headers\<close>

definition var68_bytes :: "u32 \<Rightarrow> u8 \<Rightarrow> bytes \<Rightarrow> bytes" where
  "var68_bytes s t nm =
     [LSB (LSW s), MSB (LSW s), LSB (MSW s), MSB (MSW s), t, of_nat (length nm)] @ nm"

lemma var68_bytes_length [simp]: "length (var68_bytes s t nm) = 6 + length nm"
  by (simp add: var68_bytes_def)

lemma clamped17_bounds:
  assumes "clamped17 name = Some k"
  shows "k \<le> 17" "k < length name" "0 \<notin> set (take k name)"
proof -
  obtain n where n: "strlen name = Some n" "k = min 17 (n mod 2 ^ 16)"
    using assms by (auto simp: clamped17_def)
  have le: "k \<le> n" unfolding n(2) using mod_less_eq_dividend [of n "2 ^ 16"] by simp
  show "k \<le> 17" using n(2) by simp
  show "k < length name" using le strlen_bound(1) [OF n(1)] by simp
  have "take k name = take k (takeWhile (\<lambda>b. b \<noteq> 0) name)"
    using le strlen_bound(2) [OF n(1)] by (metis min.absorb1 take_take)
  then show "0 \<notin> set (take k name)" using set_takeWhileD in_set_takeD by metis
qed

lemma put_var68_eq:
  assumes "clamped17 name = Some k"
  shows "\<exists>ys. put_var68 s t name junk = Some (k, var68_bytes s t (take k name) @ ys) \<and> length ys = 26 - k"
proof -
  have six: "\<exists>a b c d e f. xs = [a, b, c, d, e, f] @ drop 6 xs" if "6 \<le> length xs" for xs :: bytes
    using that by (cases xs; cases "tl xs"; cases "tl (tl xs)"; cases "tl (tl (tl xs))";
        cases "tl (tl (tl (tl xs)))"; cases "tl (tl (tl (tl (tl xs))))") auto
  let ?r = "drop 6 (local_array 32 junk)"
  have r: "length ?r = 26" by simp
  obtain a b c d e f where l: "local_array 32 junk = [a, b, c, d, e, f] @ ?r"
    using six [of "local_array 32 junk"] by auto
  let ?h = "[LSB (LSW s), MSB (LSW s), LSB (MSW s), MSB (MSW s), t, of_nat k]"
  have "(put_size68 s (local_array 32 junk))[4 := t, 5 := of_nat k] = ?h @ ?r"
    by (subst l) (simp add: put_size68_def)
  moreover have "memcpy (?h @ ?r) 6 name 0 k = Some (?h @ take k name @ drop k ?r)"
    using memcpy_behind [of ?h 6 k name ?r] clamped17_bounds [OF assms] r by simp
  ultimately show ?thesis
    using assms clamped17_bounds [OF assms] r by (simp add: put_var68_def var68_bytes_def)
qed

lemma le32_bytes: "le32 (LSB (LSW s)) (MSB (LSW s)) (LSB (MSW s)) (MSB (MSW s)) = s"
proof -
  have "le32 b0 b1 b2 b3 = be32 b3 b2 b1 b0" for b0 b1 b2 b3
    by (simp add: le32_def be32_def or.commute or.left_commute)
  then show ?thesis by (simp add: byte_simps)
qed

text \<open>Copying out of a buffer that starts with a header.\<close>

lemma get_var68_bytes:
  assumes "length nm \<le> 17"
  shows "get_var68 out (var68_bytes s t nm @ ys)
     = (if length nm < length (v68_name out)
        then Some \<lparr>v68_size = s, v68_type = t,
               v68_name = nm @ 0 # drop (length nm + 1) (v68_name out)\<rparr>
        else None)"
proof -
  have k: "unat (of_nat (length nm) :: u8) = length nm" using assms by (simp add: unat_of_nat take_bit_eq_mod)
  have "memcpy (v68_name out) 0 (var68_bytes s t nm @ ys) 6 (length nm)
      = (if length nm \<le> length (v68_name out) then Some (nm @ drop (length nm) (v68_name out)) else None)"
    by (simp add: memcpy_def memcpy_from_def memcpy_at_def var68_bytes_def)
  then show ?thesis using k
    by (auto simp: get_var68_def Let_def var68_bytes_def le32_bytes list_update_append
        Cons_nth_drop_Suc [symmetric])
qed

lemma name_length_append: "0 \<notin> set nm \<Longrightarrow> v68_name out = nm @ 0 # ys \<Longrightarrow> name_length out = length nm"
proof -
  assume a: "0 \<notin> set nm" "v68_name out = nm @ 0 # ys"
  have "takeWhile (\<lambda>b. b \<noteq> 0) (nm @ 0 # ys) = nm" using a(1) by (induction nm) auto
  then show ?thesis using a(2) by (simp add: name_length_def)
qed

section \<open>On a quiet link\<close>

context quiet_link
begin

lemma send_var68_quiet:
  assumes "ready h" "kh_buffer h = Some hb" "length hb = 65542" "clamped17 name = Some k"
    and "30 \<le> c_room (kh_cable h)" "unat extra = length xs" "length xs \<le> 1"
    and "\<And>ys. length ys = 26 - k \<Longrightarrow> \<exists>zs.
       finish (var68_bytes s t (take k name) @ ys) (6 + k) = var68_bytes s t (take k name) @ xs @ zs"
  shows "\<exists>h'. send_var68 E target cmd extra finish (put_var68 s t name junk) h = (None, h')
     \<and> moved h (dbus_packet target cmd (Some (var68_bytes s t (take k name) @ xs))) 0 h'"
proof -
  obtain ys where ys: "put_var68 s t name junk = Some (k, var68_bytes s t (take k name) @ ys)"
    "length ys = 26 - k" using put_var68_eq [OF assms(4)] by blast
  note k = clamped17_bounds [OF assms(4)]
  obtain zs where zs: "finish (var68_bytes s t (take k name) @ ys) (6 + k)
      = var68_bytes s t (take k name) @ xs @ zs" using assms(8) [OF ys(2)] by blast
  let ?len = "6 + of_nat k + extra" and ?buf = "var68_bytes s t (take k name) @ xs @ zs"
  have len: "unat ?len = 6 + k + length xs"
  proof -
    have "unat (6 + of_nat k :: u16) = 6 + k" using k(1) by (simp add: unat_word_ariths unat_of_nat)
    then show ?thesis using assms(6,7) k(1) by (simp add: unat_word_ariths)
  qed
  have "?len \<noteq> 0" using len by auto
  moreover have "take (unat ?len) ?buf = var68_bytes s t (take k name) @ xs" using len k(2) by simp
  ultimately show ?thesis
    using send_array_quiet [OF assms(1-3) refl, of ?len ?buf target cmd] assms(5,7) len k
    by (simp add: send_var68_def ys(1) zs send_array_def)
qed

lemma recv_var68_quiet:
  assumes "ready g" "kh_buffer g = Some gb" "length gb = 65542" "length nm \<le> 17" "0 \<notin> set nm"
    and "length nm < length (v68_name out)" "length xs \<le> 1" "host \<noteq> 0x80"
    and "cmd = DBUS_CMD_VAR \<or> cmd = DBUS_CMD_RTS"
    and "c_avail (kh_cable g) = dbus_packet host cmd (Some (var68_bytes s t nm @ xs)) @ rest"
  shows "\<exists>g'. recv_var68 E is_92 lens out g
      = (if cmd = DBUS_CMD_VAR
         then (if 6 + length nm + length xs \<in> set (lens (length nm)) then None else Some ERR_INVALID_PACKET,
               \<lparr>v68_size = s, v68_type = t, v68_name = nm @ 0 # drop (length nm + 1) (v68_name out)\<rparr>, g')
         else (Some ERR_INVALID_CMD, out, g'))
     \<and> moved g [] (12 + length nm + length xs) g'"
proof -
  let ?d = "var68_bytes s t nm @ xs"
  define n where "n = 6 + length nm + length xs"
  have d: "length ?d = n" "n < 65536" using assms(4,7) by (simp_all add: n_def)
  obtain g' where g': "recv_to_buffer E 0 g = (None, (cmd, of_nat n), g')"
      "kh_buffer g' = Some (?d @ drop n gb)" "moved g [] (n + 6) g'"
    using recv_to_buffer_quiet [OF assms(1,2), of ?d host cmd rest 0] assms d
    by (auto simp: dbus_data_cmds_def)
  have len: "unat (of_nat n :: u16) = n" using d(2) by (simp add: unat_of_nat take_bit_eq_mod)
  have moved: "moved g [] (12 + length nm + length xs) g'"
    using g'(3) by (simp add: n_def algebra_simps)
  show ?thesis
  proof (cases "cmd = DBUS_CMD_VAR")
    case True
    let ?o = "\<lparr>v68_size = s, v68_type = t, v68_name = nm @ 0 # drop (length nm + 1) (v68_name out)\<rparr>"
    have "Option.bind (kh_buffer g') (get_var68 out) = Some ?o"
      using get_var68_bytes [OF assms(4)] assms(6) by (simp add: g'(2))
    moreover have "name_length ?o = length nm" using name_length_append [OF assms(5)] by simp
    moreover have "var68_reply is_92 cmd g' = None" by (simp add: var68_reply_def True)
    ultimately have "recv_var68 E is_92 lens out g =
        (if n \<notin> set (lens (length nm)) then Some ERR_INVALID_PACKET else None, ?o, g')"
      using g'(1) len by (simp add: recv_var68_def)
    then show ?thesis using moved True by (simp add: n_def)
  next
    case False
    then have "cmd = DBUS_CMD_RTS" using assms(9) by simp
    then have "var68_reply is_92 cmd g' = Some ERR_INVALID_CMD" by (simp add: var68_reply_def)
    then show ?thesis using g'(1) moved False by (simp add: recv_var68_def)
  qed
qed

end

section \<open>Properties of the commands\<close>

text \<open>The name in a path is what follows the first backslash.\<close>

definition base_name :: "bytes \<Rightarrow> bytes" where
  "base_name path = (if 0x5C \<in> set path then tl (dropWhile (\<lambda>b. b \<noteq> 0x5C) path) else path)"

definition text_of :: "bytes \<Rightarrow> bytes" where
  "text_of s = takeWhile (\<lambda>b. b \<noteq> 0) s"

lemma text_of_append: "0 \<notin> set nm \<Longrightarrow> text_of (nm @ 0 # ys) = nm"
  unfolding text_of_def by (induction nm) auto

lemma strip_folder_text:
  assumes "0 \<notin> set nm" "v68_name out = nm @ 0 # ys"
  shows "text_of (v68_name (strip_folder out)) = base_name nm"
    "v68_size (strip_folder out) = v68_size out" "v68_type (strip_folder out) = v68_type out"
proof -
  have whole: "takeWhile (\<lambda>b. b \<noteq> 0) (nm @ 0 # ys) = nm" using text_of_append [OF assms(1)] by (simp add: text_of_def)
  show "text_of (v68_name (strip_folder out)) = base_name nm"
  proof (cases "0x5C \<in> set nm")
    case True
    then obtain f b where nm: "nm = f @ 0x5C # b" "0x5C \<notin> set f" using split_list_first by fastforce
    have f: "takeWhile (\<lambda>b. b \<noteq> 0x5C) nm = f" "dropWhile (\<lambda>b. b \<noteq> 0x5C) nm = 0x5C # b"
      using nm(2) unfolding nm(1) by (induction f) auto
    have b: "0 \<notin> set b" using assms(1) nm(1) by simp
    have "takeWhile (\<lambda>b. b \<noteq> 0) (drop (Suc (length f)) (nm @ 0 # ys)) = b"
      using text_of_append [OF b, of ys] by (simp add: nm(1) text_of_def)
    then have "v68_name (strip_folder out) = b @ 0 # drop (length b + 1) (nm @ 0 # ys)"
      using True f(1) whole by (simp add: strip_folder_def tifiles_get_varname_def assms(2) Let_def nm(1))
    then show ?thesis using text_of_append [OF b] True f(2) by (simp add: base_name_def)
  next
    case False
    then show ?thesis using whole
      by (simp add: strip_folder_def tifiles_get_varname_def assms(2) Let_def base_name_def text_of_def)
  qed
  show "v68_size (strip_folder out) = v68_size out" "v68_type (strip_folder out) = v68_type out"
    by (simp_all add: strip_folder_def Let_def split: option.splits nat.splits)
qed

lemma clamped17_some: "strlen name = Some n \<Longrightarrow> n < 65536 \<Longrightarrow> clamped17 name = Some (min 17 n)"
  by (simp add: clamped17_def)

text \<open>
  C6: What \<open>ti68k_send_VAR\<close> sends, \<open>ti89_recv_VAR\<close> reads at the other end for every type and every
  target but 0x80, the TI-80, which no caller uses: size and type exactly, the first 17 bytes of the name without the folder in front.
  \<open>ti92_recv_VAR\<close> takes the header, with the folder, when it was sent to a TI-92 or is the one
  of a backup; any other is longer by a byte and is refused, after the caller's variables have
  been written.
\<close>

theorem ti68k_var_roundtrip:
  assumes "quiet_link send recv sent avail room ok E" "link_ready ok h"
    and "kh_buffer h = Some hb" "length hb = 65542"
    and "30 \<le> room (cb_dev (kh_cable h))" "sent (cb_dev (kh_cable h)) = []"
    and "quiet_link send' recv' sent' avail' room' ok' E'" "link_ready ok' g"
    and "kh_buffer g = Some gb" "length gb = 65542"
    and "strlen name = Some n" "n < 65536" "min 17 n < length (v68_name out)" "target \<noteq> 0x80"
    and "ti68k_send_VAR E varsize vartype (Some name) target junk h = (r, h')"
    and "avail' (cb_dev (kh_cable g)) = sent (cb_dev (kh_cable h')) @ rest"
    and "plain \<longleftrightarrow> target = DBUS_MID_PC_TI92 \<or> vartype = TI89_BKUP"
    and "len = 12 + min 17 n + (if plain then 0 else 1)"
  shows "r = None
    \<and> (\<exists>w g'. ti89_recv_VAR E' out g = (None, w, g')
          \<and> v68_size w = varsize \<and> v68_type w = vartype \<and> text_of (v68_name w) = base_name (take (min 17 n) name)
          \<and> transfer sent' avail' ok' g [] len g')
    \<and> (\<exists>w g'. ti92_recv_VAR E' out g = (if plain then None else Some ERR_INVALID_PACKET, w, g')
          \<and> v68_size w = varsize \<and> v68_type w = vartype \<and> text_of (v68_name w) = take (min 17 n) name
          \<and> transfer sent' avail' ok' g [] len g')"
proof -
  note ends = quiet_ends [OF assms(1,2,5,6,7,8)]
  note c = clamped17_some [OF assms(11,12)]
  let ?nm = "take (min 17 n) name" and ?xs = "if plain then [] else [0x03 :: u8]"
  have k: "length ?nm = min 17 n" "0 \<notin> set ?nm" using clamped17_bounds [OF c] by auto
  have finish: "\<exists>zs. (var68_bytes varsize vartype ?nm @ ys)[6 + min 17 n := 0x03]
      = var68_bytes varsize vartype ?nm @ ?xs @ zs" if "length ys = 26 - min 17 n" for ys
    using that k(1) by (cases ys) (auto simp: list_update_append)
  have x: "unat (if target = DBUS_MID_PC_TI92 then 0 else if vartype = TI89_BKUP then 0 else 1 :: u16)
      = length ?xs" "length ?xs \<le> 1" using assms(17) by auto
  let ?p = "dbus_packet target DBUS_CMD_VAR (Some (var68_bytes varsize vartype ?nm @ ?xs))"
  obtain h'' where h'': "ti68k_send_VAR E varsize vartype (Some name) target junk h = (None, h'')"
      "quiet_link.moved sent avail room ok h ?p 0 h''"
    using quiet_link.send_var68_quiet [OF assms(1) ends(1) assms(3,4) c ends(3) x,
        where finish = "\<lambda>buf i. buf[i := 0x03]" and target = target and cmd = DBUS_CMD_VAR and junk = junk, OF finish]
    unfolding ti68k_send_VAR_def with_name_def Let_def option.case by blast
  have av: "quiet_link.c_avail avail' (kh_cable g) = ?p @ rest"
    using ends(4) [OF h''(2)] h''(1) assms(15,16) by simp
  let ?o = "\<lparr>v68_size = varsize, v68_type = vartype,
      v68_name = ?nm @ 0 # drop (length ?nm + 1) (v68_name out)\<rparr>"
  have name: "length ?nm \<le> 17" "length ?nm < length (v68_name out)" using k(1) assms(13) by auto
  note recv = quiet_link.recv_var68_quiet [OF assms(7) ends(2) assms(9,10) name(1) k(2) name(2) x(2) assms(14) disjI1 [OF refl] av]
  obtain g' where g': "recv_var68 E' False (\<lambda>n. [6 + n, 7 + n]) out g = (None, ?o, g')"
      "quiet_link.moved sent' avail' room' ok' g [] len g'"
    using recv [of False "\<lambda>n. [6 + n, 7 + n]"] k(1) assms(18) by (cases plain) auto
  obtain g'' where g'': "recv_var68 E' True (\<lambda>n. [6 + n]) out g
        = (if plain then None else Some ERR_INVALID_PACKET, ?o, g'')"
      "quiet_link.moved sent' avail' room' ok' g [] len g''"
    using recv [of True "\<lambda>n. [6 + n]"] k(1) assms(18) by (cases plain) auto
  show ?thesis
    using g' g'' h''(1) assms(15) strip_folder_text [OF k(2), of ?o] text_of_append [OF k(2)]
      quiet_link.moved_transfer [OF assms(7)]
    by (auto simp: ti89_recv_VAR_def ti92_recv_VAR_def)
qed

text \<open>
  The requests to send of the TI-89 and of the TI-92 are never taken: the receiving functions
  expect the command VAR, so that every request is refused as an invalid command.
\<close>

theorem ti68k_rts_refused:
  assumes "quiet_link send recv sent avail room ok E" "link_ready ok h"
    and "kh_buffer h = Some hb" "length hb = 65542"
    and "30 \<le> room (cb_dev (kh_cable h))" "sent (cb_dev (kh_cable h)) = []"
    and "quiet_link send' recv' sent' avail' room' ok' E'" "link_ready ok' g"
    and "kh_buffer g = Some gb" "length gb = 65542"
    and "strlen name = Some n" "n < 65536" "min 17 n < length (v68_name out)"
    and "(r, h') = (if is_92 then ti92_send_RTS E varsize vartype (Some name) junk h
                    else ti89_send_RTS E varsize vartype (Some name) junk h)"
    and "avail' (cb_dev (kh_cable g)) = sent (cb_dev (kh_cable h')) @ rest"
  shows "r = None \<and> (\<exists>g'. ti68k_recv_RTS E' out is_92 g = (Some ERR_INVALID_CMD, out, g')
          \<and> transfer sent' avail' ok' g [] (12 + min 17 n + (if is_92 then 0 else 1)) g')"
proof -
  note ends = quiet_ends [OF assms(1,2,5,6,7,8)]
  note c = clamped17_some [OF assms(11,12)]
  let ?nm = "take (min 17 n) name" and ?xs = "if is_92 then [] else [0x00 :: u8]"
  let ?target = "if is_92 then DBUS_MID_PC_TI92 else ti68k_handle_to_dbus_mid h"
  let ?finish = "\<lambda>buf i. if is_92 then buf else buf[i := 0x00 :: u8]"
  have k: "length ?nm = min 17 n" "0 \<notin> set ?nm" using clamped17_bounds [OF c] by auto
  have finish: "\<exists>zs. ?finish (var68_bytes varsize vartype ?nm @ ys) (6 + min 17 n)
      = var68_bytes varsize vartype ?nm @ ?xs @ zs" if "length ys = 26 - min 17 n" for ys
    using that k(1) by (cases ys) (auto simp: list_update_append)
  have x: "unat (if is_92 then 0 else 1 :: u16) = length ?xs" "length ?xs \<le> 1" by auto
  have target: "?target \<noteq> 0x80"
    by (auto simp: ti68k_handle_to_dbus_mid_def ti68k_model_to_dbus_mid_def split: calc_model.splits)
  let ?p = "dbus_packet ?target DBUS_CMD_RTS (Some (var68_bytes varsize vartype ?nm @ ?xs))"
  have call: "(r, h') = send_var68 E ?target DBUS_CMD_RTS (if is_92 then 0 else 1) ?finish
      (put_var68 varsize vartype name junk) h"
    using assms(14) by (simp add: ti92_send_RTS_def ti89_send_RTS_def with_name_def split: if_splits)
  obtain h'' where h'': "(r, h') = (None, h'')" "quiet_link.moved sent avail room ok h ?p 0 h''"
    using quiet_link.send_var68_quiet [OF assms(1) ends(1) assms(3,4) c ends(3) x,
        where finish = ?finish and target = ?target and cmd = DBUS_CMD_RTS and junk = junk, OF finish]
    unfolding call by blast
  have av: "quiet_link.c_avail avail' (kh_cable g) = ?p @ rest"
    using ends(4) [OF h''(2)] h''(1) assms(15) by simp
  have name: "length ?nm \<le> 17" "length ?nm < length (v68_name out)" using k(1) assms(13) by auto
  have len: "12 + length ?nm + length ?xs = 12 + min 17 n + (if is_92 then 0 else 1)" using k(1) by auto
  obtain g' where "recv_var68 E' is_92 (\<lambda>n. [6 + n]) out g = (Some ERR_INVALID_CMD, out, g')"
      "quiet_link.moved sent' avail' room' ok' g [] (12 + min 17 n + (if is_92 then 0 else 1)) g'"
    using quiet_link.recv_var68_quiet [OF assms(7) ends(2) assms(9,10) name(1) k(2) name(2) x(2) target disjI2 [OF refl] av,
        of is_92 "\<lambda>n. [6 + n]"] unfolding len by auto
  then show ?thesis
    using h''(1) quiet_link.moved_transfer [OF assms(7)] by (auto simp: ti68k_recv_RTS_def)
qed

text \<open>
  The length byte of a name is believed before anything is checked: whatever else a
  variable header contains, and however short it is, the receiving functions write outside of
  the caller's array exactly when the length byte is not smaller than the array.
\<close>

theorem ti68k_name_overflow:
  assumes "quiet_link send recv sent avail room ok E" "link_ready ok g"
    and "kh_buffer g = Some gb" "length gb = 65542"
    and "6 \<le> length d" "length d < 65536" "host \<noteq> 0x80"
    and "avail (cb_dev (kh_cable g)) = dbus_packet host DBUS_CMD_VAR (Some d) @ rest"
    and "f \<in> {ti89_recv_VAR E out, ti92_recv_VAR E out, ti89_recv_RTS E out, ti92_recv_RTS E out}"
  shows "fst (f g) = Some UNDEFINED_BEHAVIOUR \<longleftrightarrow> length (v68_name out) \<le> unat (d ! 5)"
proof -
  have ready: "quiet_link.ready ok g" using assms(2) quiet_link.link_ready_iff [OF assms(1)] by blast
  have av: "quiet_link.c_avail avail (kh_cable g) = dbus_packet host DBUS_CMD_VAR (Some d) @ rest"
    using assms(8) by (simp add: quiet_link.c_avail_def [OF assms(1)])
  obtain g' where g': "recv_to_buffer E 0 g = (None, (DBUS_CMD_VAR, of_nat (length d)), g')"
      "kh_buffer g' = Some (d @ drop (length d) gb)"
    using quiet_link.recv_to_buffer_quiet [OF assms(1) ready assms(3) _ assms(6) av disjI1 [OF assms(7)], of 0]
      assms(4,6) by (auto simp: dbus_data_cmds_def)
  define buf where "buf = d @ drop (length d) gb"
  have "length buf = 65542" "buf ! 5 = d ! 5"
    using assms(4-6) by (simp_all add: buf_def nth_append)
  moreover have "unat (d ! 5) < 256" using unsigned_less [of "d ! 5"] by simp
  ultimately have none: "get_var68 out buf = None \<longleftrightarrow> length (v68_name out) \<le> unat (d ! 5)"
    by (auto simp: get_var68_def Let_def memcpy_def memcpy_from_def memcpy_at_def split: bind_splits)
  have "fst (recv_var68 E is_92 lens out g) = Some UNDEFINED_BEHAVIOUR
      \<longleftrightarrow> length (v68_name out) \<le> unat (d ! 5)" for is_92 lens
    using none by (auto simp: recv_var68_def g' var68_reply_def buf_def [symmetric] split: option.splits)
  then show ?thesis
    using assms(9) by (auto simp: ti89_recv_VAR_def ti92_recv_VAR_def ti89_recv_RTS_def
        ti92_recv_RTS_def ti68k_recv_RTS_def split_def Let_def)
qed

section \<open>Concrete runs\<close>

definition name_array :: var68 where
  "name_array = \<lparr>v68_size = 0, v68_type = 0, v68_name = replicate 18 0x58\<rparr>"

definition sample_path :: bytes where
  "sample_path = [0x6D, 0x61, 0x69, 0x6E, 0x5C, 0x78, 0]"

lemma sample_path_length: "strlen sample_path = Some 6"
  by (simp add: sample_path_def strlen_def)

lemma send_var68_vti:
  assumes "finish = (\<lambda>buf i. buf[i := x])"
  shows "\<exists>h' p. send_var68 (vti_env vti_works) target cmd 1 finish
      (put_var68 s t sample_path []) (z80_handle m) = (None, h') \<and> quiet_vti.moved (z80_handle m) p 0 h'"
proof -
  have c: "clamped17 sample_path = Some 6" using clamped17_some [OF sample_path_length] by simp
  have fin: "\<exists>zs. finish (var68_bytes s t (take 6 sample_path) @ ys) (6 + 6)
      = var68_bytes s t (take 6 sample_path) @ [x] @ zs" if "length ys = 26 - 6" for ys
    using that by (cases ys) (auto simp: assms sample_path_def list_update_append)
  have one: "unat (1 :: u16) = length [x]" "length [x] \<le> 1" by simp_all
  have room: "30 \<le> quiet_vti.c_room (kh_cable (z80_handle m))" by (rule z80_handle_ready(2)) simp
  from quiet_vti.send_var68_quiet [where S = vti_works and finish = finish and s = s and t = t,
      OF z80_handle_ready(1) z80_handle_sender(2) length_replicate c room one fin]
  show ?thesis by blast
qed

theorem ti68k_var_roundtrip_witness:
  "\<exists>r h' w g'. ti68k_send_VAR (vti_env vti_works) 0x12345 5 (Some sample_path) 0x08 [] (z80_handle CALC_TI89)
        = (r, h')
    \<and> ti89_recv_VAR (vti_env vti_works) name_array (z80_receiver CALC_TI89 (r, h')) = (None, w, g')
    \<and> v68_size w = 0x12345 \<and> text_of (v68_name w) = [0x78]"
proof -
  obtain h' p where h': "ti68k_send_VAR (vti_env vti_works) 0x12345 5 (Some sample_path) 0x08 []
        (z80_handle CALC_TI89) = (None, h')" "quiet_vti.moved (z80_handle CALC_TI89) p 0 h'"
    using send_var68_vti [where x = "0x03" and target = "0x08" and cmd = DBUS_CMD_VAR and s = "0x12345" and t = 5
        and m = CALC_TI89, OF refl]
    by (auto simp: ti68k_send_VAR_def with_name_def)
  note rcv = z80_receiver_ready [of CALC_TI89 p "(None, h')", simplified snd_conv, OF h'(2), of CALC_TI89]
  have pre: "(6 :: nat) < 65536" "min 17 6 < length (v68_name name_array)" "(30::nat) \<le> 255" "(0x08 :: u8) \<noteq> 0x80"
    "base_name (take 6 sample_path) = [0x78]"
    by (simp_all add: name_array_def base_name_def sample_path_def)
  from ti68k_var_roundtrip [OF quiet_vti.quiet_link_axioms [of vti_works] z80_handle_sender(1,2)
      length_replicate z80_handle_room [OF pre(3)] z80_handle_sender(5)
      quiet_vti.quiet_link_axioms [of vti_works] rcv(1) z80_receiver_buffer length_replicate
      sample_path_length pre(1,2,4) h'(1) rcv(2) refl refl]
  show ?thesis unfolding h'(1) using pre(5) by auto
qed

theorem ti68k_rts_refused_witness:
  "\<exists>r h' w g'. ti89_send_RTS (vti_env vti_works) 0x12345 5 (Some sample_path) [] (z80_handle CALC_TI89) = (r, h')
    \<and> ti68k_recv_RTS (vti_env vti_works) name_array False (z80_receiver CALC_TI89 (r, h'))
        = (Some ERR_INVALID_CMD, w, g')"
proof -
  obtain h' p where h': "ti89_send_RTS (vti_env vti_works) 0x12345 5 (Some sample_path) []
        (z80_handle CALC_TI89) = (None, h')" "quiet_vti.moved (z80_handle CALC_TI89) p 0 h'"
    using send_var68_vti [where x = "0x00" and target = "ti68k_handle_to_dbus_mid (z80_handle CALC_TI89)"
        and cmd = DBUS_CMD_RTS and s = "0x12345" and t = 5 and m = CALC_TI89, OF refl]
    by (auto simp: ti89_send_RTS_def with_name_def)
  note rcv = z80_receiver_ready [of CALC_TI89 p "(None, h')", simplified snd_conv, OF h'(2), of CALC_TI89]
  have pre: "(6 :: nat) < 65536" "min 17 6 < length (v68_name name_array)" "(30::nat) \<le> 255"
    by (simp_all add: name_array_def)
  have call: "(None, h') = (if False then ti92_send_RTS (vti_env vti_works) 0x12345 5 (Some sample_path) []
        (z80_handle CALC_TI89) else ti89_send_RTS (vti_env vti_works) 0x12345 5 (Some sample_path) []
        (z80_handle CALC_TI89))" using h'(1) by simp
  from ti68k_rts_refused [OF quiet_vti.quiet_link_axioms [of vti_works] z80_handle_sender(1,2)
      length_replicate z80_handle_room [OF pre(3)] z80_handle_sender(5)
      quiet_vti.quiet_link_axioms [of vti_works] rcv(1) z80_receiver_buffer length_replicate
      sample_path_length pre(1,2) call rcv(2)]
  show ?thesis unfolding h'(1) by auto
qed

theorem ti68k_name_overflow_witness:
  "\<exists>g. fst (ti89_recv_VAR (vti_env vti_works) name_array g) = Some UNDEFINED_BEHAVIOUR"
proof -
  let ?d = "[0, 0, 0, 0, 5, 0xFF :: u8]"
  define g where "g = vti_handle CALC_TI89 (vti_loaded (dbus_packet 0x88 DBUS_CMD_VAR (Some ?d)))"
  have "length (dbus_packet 0x88 DBUS_CMD_VAR (Some ?d)) \<le> 255" by (simp add: dbus_packet_data)
  then have g: "link_ready vti_ok g" "kh_buffer g = Some (replicate 65542 0)"
      "vti_avail (cb_dev (kh_cable g)) = dbus_packet 0x88 DBUS_CMD_VAR (Some ?d) @ []"
    by (simp_all add: g_def)
  have pre: "6 \<le> length ?d" "length ?d < 65536" "(0x88 :: u8) \<noteq> 0x80"
    "ti89_recv_VAR (vti_env vti_works) name_array
      \<in> {ti89_recv_VAR (vti_env vti_works) name_array, ti92_recv_VAR (vti_env vti_works) name_array,
         ti89_recv_RTS (vti_env vti_works) name_array, ti92_recv_RTS (vti_env vti_works) name_array}"
    by simp_all
  show ?thesis
    using ti68k_name_overflow [OF quiet_vti.quiet_link_axioms [of vti_works] g(1,2) length_replicate pre(1-3) g(3) pre(4)]
    by (intro exI [of _ g]) (simp add: name_array_def)
qed

end
