(* ===== verification/TiCert.thy ===== *)
theory TiCert
  imports TilibsPrelude
begin

text \<open>
  The certificate fields of calculator headers and applications,
  \<^verbatim>\<open>libtifiles/trunk/src/cert.cc\<close>. A certificate is a sequence of fields; the contents of a
  field may be such a sequence again. A field starts with a 16-bit identifier whose low nibble
  tells how its size is encoded. The functions walk over memory: \<open>mem\<close> is the block that a
  pointer points into, a pointer is an offset into it (\<open>None\<close> for the null pointer), and
  reading outside of the block is the error \<open>UNDEFINED_BEHAVIOUR\<close>. Sizes are 32-bit words.

  The specification is a datatype of certificates with its encoding and the lookup of a path of
  identifiers; the functions of the source are shown to compute this lookup.
\<close>

section \<open>The functions\<close>

type_synonym cert_ptr = "nat option"

definition cert_byte :: "bytes \<Rightarrow> nat \<Rightarrow> u8 option" where
  "cert_byte mem i = (if i < length mem then Some (mem ! i) else None)"

definition cert_additional_len :: "u16 \<Rightarrow> u32" where
  "cert_additional_len field_id =
     (let k = field_id AND 0xF in
      if k = 0xD then 1 else if k = 0xE then 2 else if k = 0xF then 4 else 0)"

definition cert_field_len :: "bytes \<Rightarrow> nat \<Rightarrow> u16 \<Rightarrow> u32 option" where
  "cert_field_len mem data field_id =
     (let k = field_id AND 0xF; at = cert_byte mem in
      if k = 0xD then map_option ucast (at (data + 2))
      else if k = 0xE then
        Option.bind (at (data + 2)) (\<lambda>b2. Option.bind (at (data + 3)) (\<lambda>b3.
          Some (push_bit 8 (ucast b2) OR ucast b3)))
      else if k = 0xF then
        Option.bind (at (data + 2)) (\<lambda>b2. Option.bind (at (data + 3)) (\<lambda>b3.
        Option.bind (at (data + 4)) (\<lambda>b4. Option.bind (at (data + 5)) (\<lambda>b5.
          Some (be32 b2 b3 b4 b5)))))
      else Some (ucast k))"

text \<open>
  \<open>outs\<close> says whether at least one out parameter is not null. On success all three values are
  returned and the caller takes the ones it asked for; on an error none is written.
\<close>

definition tifiles_cert_field_get ::
  "bytes \<Rightarrow> cert_ptr \<Rightarrow> u32 \<Rightarrow> bool \<Rightarrow> errcode + (u16 \<times> nat \<times> u32)" where
  "tifiles_cert_field_get mem data len outs =
     (case data of
        None \<Rightarrow> Inl ERR_INVALID_PARAM
      | Some p \<Rightarrow>
          if \<not> outs then Inl ERR_INVALID_PARAM
          else if len < 2 then Inl ERR_INVALID_PARAM
          else (case (cert_byte mem p, cert_byte mem (p + 1)) of
                  (Some b0, Some b1) \<Rightarrow>
                    (let field_id = be16 b0 b1;
                         additional_len = cert_additional_len field_id in
                     if len < 2 + additional_len then Inl ERR_CERT_TRUNCATED
                     else (case cert_field_len mem p field_id of
                             None \<Rightarrow> Inl UNDEFINED_BEHAVIOUR
                           | Some field_len \<Rightarrow>
                               if len < 2 + additional_len + field_len
                               then Inl ERR_CERT_TRUNCATED
                               else Inr (field_id, p + 2 + unat additional_len, field_len)))
                | _ \<Rightarrow> Inl UNDEFINED_BEHAVIOUR))"

text \<open>The pointer and the length that the caller passes by address; \<open>None\<close> is a null address.\<close>

definition tifiles_cert_field_next ::
  "bytes \<Rightarrow> cert_ptr option \<Rightarrow> u32 option \<Rightarrow> errcode + (cert_ptr \<times> u32)" where
  "tifiles_cert_field_next mem data len =
     (case (data, len) of
        (None, _) \<Rightarrow> Inl ERR_INVALID_PARAM
      | (_, None) \<Rightarrow> Inl ERR_INVALID_PARAM
      | (Some p, Some l) \<Rightarrow>
          (case tifiles_cert_field_get mem p l True of
             Inl e \<Rightarrow> Inl e
           | Inr (_, contents, field_size) \<Rightarrow>
               Inr (Some (contents + unat field_size),
                    l - of_nat (contents + unat field_size - the p))))"

lemma cert_get_gives:
  assumes "tifiles_cert_field_get mem data len outs = Inr (fid, contents, fsize)"
  shows "\<exists>p. data = Some p \<and> p + 1 < length mem \<and> p + 2 \<le> contents"
  using assms
  by (auto simp: tifiles_cert_field_get_def cert_byte_def Let_def
           split: option.splits if_splits)

lemma cert_next_gives:
  assumes "tifiles_cert_field_next mem (Some (Some p)) (Some len) = Inr (data', len')"
  shows "p + 1 < length mem" "\<exists>p'. data' = Some p' \<and> p + 2 \<le> p'"
  using assms cert_get_gives [of mem "Some p" len True]
  by (force simp: tifiles_cert_field_next_def split: sum.splits prod.splits)+

text \<open>
  The loop of \<^verbatim>\<open>tifiles_cert_field_find\<close>. The out parameters hold the contents and the size of
  the field parsed last, whether it is the one looked for or not. The pointer moves forward in
  every round, and a round needs two more bytes of the block.
\<close>

function cert_find_loop ::
  "bytes \<Rightarrow> nat \<Rightarrow> u32 \<Rightarrow> u16 \<Rightarrow> u16 \<Rightarrow> nat \<times> u32 \<Rightarrow> ret \<times> nat \<times> u32" where
  "cert_find_loop mem p len field_type ft out =
     (if ft = field_type then (None, out)
      else (case tifiles_cert_field_get mem (Some p) len True of
              Inl e \<Rightarrow> (Some e, out)
            | Inr (fid, contents, fsize) \<Rightarrow>
                (case tifiles_cert_field_next mem (Some (Some p)) (Some len) of
                   Inl e \<Rightarrow> (Some e, contents, fsize)
                 | Inr (p', len') \<Rightarrow>
                     cert_find_loop mem (the p') len' field_type (fid AND 0xFFF0)
                       (contents, fsize))))"
  by pat_completeness auto

termination
  by (relation "measure (\<lambda>(mem, p, len, field_type, ft, out). length mem - p)")
     (auto dest!: cert_next_gives(2) dest: cert_get_gives)

declare cert_find_loop.simps [simp del]

definition tifiles_cert_field_find ::
  "bytes \<Rightarrow> cert_ptr \<Rightarrow> u32 \<Rightarrow> u16 \<Rightarrow> nat \<times> u32 \<Rightarrow> ret \<times> nat \<times> u32" where
  "tifiles_cert_field_find mem data len field_type out =
     (case data of
        None \<Rightarrow> (Some ERR_INVALID_PARAM, out)
      | Some p \<Rightarrow>
          if len < 2 then (Some ERR_INVALID_PARAM, out)
          else cert_find_loop mem p len (field_type AND 0xFFF0) 0xFFFF out)"

text \<open>
  Each round of \<^verbatim>\<open>find_path\<close> looks inside of what the round before found; the out parameters
  get the position of the last round, also when it failed.
\<close>

fun cert_path_loop :: "bytes \<Rightarrow> nat \<times> u32 \<Rightarrow> u16 list \<Rightarrow> ret \<times> nat \<times> u32" where
  "cert_path_loop mem pos [] = (None, pos)"
| "cert_path_loop mem pos (ft # path) =
     (case tifiles_cert_field_find mem (Some (fst pos)) (snd pos) ft pos of
        (None, pos') \<Rightarrow> cert_path_loop mem pos' path
      | (Some e, pos') \<Rightarrow> (Some e, pos'))"

definition tifiles_cert_field_find_path ::
  "bytes \<Rightarrow> cert_ptr \<Rightarrow> u32 \<Rightarrow> u16 list option \<Rightarrow> nat \<times> u32 \<Rightarrow> ret \<times> nat \<times> u32" where
  "tifiles_cert_field_find_path mem data len field_path out =
     (case (data, field_path) of
        (None, _) \<Rightarrow> (Some ERR_INVALID_PARAM, out)
      | (_, None) \<Rightarrow> (Some ERR_INVALID_PARAM, out)
      | (Some p, Some path) \<Rightarrow>
          if len < 2 then (Some ERR_INVALID_PARAM, out)
          else if path = [] then (Some ERR_INVALID_PARAM, out)
          else cert_path_loop mem (p, len) path)"

section \<open>The specification\<close>

text \<open>
  A certificate is raw contents or a sequence of fields, each with the encoding chosen for its
  size (the same size may be written in several ways), its type and its contents.
\<close>

datatype size_class = In_Id | One_Byte | Two_Bytes | Four_Bytes

datatype cert = Raw bytes | Fields "(size_class \<times> u16 \<times> cert) list"

fun class_nibble :: "size_class \<Rightarrow> nat \<Rightarrow> u16" where
  "class_nibble In_Id n = of_nat n"
| "class_nibble One_Byte n = 0xD"
| "class_nibble Two_Bytes n = 0xE"
| "class_nibble Four_Bytes n = 0xF"

fun class_bytes :: "size_class \<Rightarrow> nat \<Rightarrow> bytes" where
  "class_bytes In_Id n = []"
| "class_bytes One_Byte n = [of_nat n]"
| "class_bytes Two_Bytes n = [MSB (of_nat n :: u16), LSB (of_nat n :: u16)]"
| "class_bytes Four_Bytes n =
     (let w = of_nat n :: u32 in [MSB (MSW w), LSB (MSW w), MSB (LSW w), LSB (LSW w)])"

fun class_max :: "size_class \<Rightarrow> nat" where
  "class_max In_Id = 12"
| "class_max One_Byte = 0xFF"
| "class_max Two_Bytes = 0xFFFF"
| "class_max Four_Bytes = 0xFFFFFFF9"

definition field_ident :: "size_class \<Rightarrow> u16 \<Rightarrow> nat \<Rightarrow> u16" where
  "field_ident c t n = (t AND 0xFFF0) OR class_nibble c n"

definition field_bytes :: "size_class \<Rightarrow> u16 \<Rightarrow> bytes \<Rightarrow> bytes" where
  "field_bytes c t body =
     (let i = field_ident c t (length body) in
      [MSB i, LSB i] @ class_bytes c (length body) @ body)"

fun cert_bytes :: "cert \<Rightarrow> bytes" where
  "cert_bytes (Raw bs) = bs"
| "cert_bytes (Fields fs) = concat (map (\<lambda>(c, t, x). field_bytes c t (cert_bytes x)) fs)"

text \<open>Every size fits the encoding chosen for it.\<close>

fun cert_fits :: "cert \<Rightarrow> bool" where
  "cert_fits (Raw bs) = True"
| "cert_fits (Fields fs) =
     list_all (\<lambda>(c, t, x). length (cert_bytes x) \<le> class_max c \<and> cert_fits x) fs"

fun first_field :: "u16 \<Rightarrow> (size_class \<times> u16 \<times> cert) list \<Rightarrow> cert option" where
  "first_field ft [] = None"
| "first_field ft ((c, t, x) # fs) =
     (if t AND 0xFFF0 = ft AND 0xFFF0 then Some x else first_field ft fs)"

text \<open>
  The lookup of a path: the certificate found, \<open>Missing\<close> when some round finds no field of the
  type, \<open>Unparsed\<close> when the path leads into raw contents, of which the specification says nothing.
\<close>

datatype lookup = Found cert | Missing | Unparsed

fun cert_lookup :: "cert \<Rightarrow> u16 list \<Rightarrow> lookup" where
  "cert_lookup x [] = Found x"
| "cert_lookup (Raw bs) (ft # path) = Unparsed"
| "cert_lookup (Fields fs) (ft # path) =
     (case first_field ft fs of None \<Rightarrow> Missing | Some x \<Rightarrow> cert_lookup x path)"

section \<open>Parsing an encoded field\<close>

lemma class_nibble_mask:
  assumes "n \<le> class_max c"
  shows "class_nibble c n AND 0xF = class_nibble c n" "class_nibble c n AND 0xFFF0 = 0"
proof -
  have "n \<in> {0,1,2,3,4,5,6,7,8,9,10,11,12}" if "c = In_Id" using assms that by simp arith
  then show "class_nibble c n AND 0xF = class_nibble c n" "class_nibble c n AND 0xFFF0 = 0"
    by (cases c; auto)+
qed

lemma field_ident_parts:
  assumes "n \<le> class_max c"
  shows "field_ident c t n AND 0xF = class_nibble c n"
    and "field_ident c t n AND 0xFFF0 = t AND 0xFFF0"
  by (simp_all add: field_ident_def bit.conj_disj_distrib2 class_nibble_mask [OF assms] and.assoc)

lemma class_nibble_In_Id:
  "n \<le> 12 \<Longrightarrow> (of_nat n :: u16) \<noteq> 0xD \<and> (of_nat n :: u16) \<noteq> 0xE \<and> (of_nat n :: u16) \<noteq> 0xF"
  by (auto simp: word_unat_eq_iff unat_of_nat)

lemma additional_len_class:
  "n \<le> class_max c \<Longrightarrow>
     cert_additional_len (field_ident c t n) = of_nat (length (class_bytes c n))"
  by (cases c) (auto simp: cert_additional_len_def field_ident_parts class_nibble_In_Id Let_def)

lemma ucast_of_nat_small: "n < 256 \<Longrightarrow> (ucast (of_nat n :: u8) :: u32) = of_nat n"
  by (simp add: word_unat_eq_iff unat_of_nat unsigned_ucast_eq take_bit_nat_eq_self)

lemma shift_or_of_nat:
  assumes "n < 65536"
  shows "push_bit 8 (ucast (MSB (of_nat n :: u16))) OR ucast (LSB (of_nat n :: u16)) = (of_nat n :: u32)"
proof -
  have "push_bit 8 (ucast (MSB w)) OR ucast (LSB w) = (ucast w :: u32)" for w :: u16
    unfolding MSB_ucast LSB_ucast by (rule bit_word_eqI) (auto simp: bit_simps dest: bit_imp_le_length)
  then show ?thesis using assms by (simp add: word_unat_eq_iff unat_of_nat unsigned_ucast_eq take_bit_nat_eq_self)
qed

lemma cert_byte_at:
  "length pre = p \<Longrightarrow> i < length bs \<Longrightarrow> cert_byte (pre @ bs @ post) (p + i) = Some (bs ! i)"
  by (simp add: cert_byte_def nth_append)

lemma cert_byte_append:
  "cert_byte (pre @ rest) (length pre + i) = cert_byte rest i"
  by (simp add: cert_byte_def nth_append)

lemma field_len_class:
  assumes n: "n \<le> class_max c"
  shows "cert_field_len (pre @ a # b # class_bytes c n @ rest) (length pre) (field_ident c t n)
    = Some (of_nat n)"
proof (cases c)
  case In_Id
  then have "(ucast (of_nat n :: u16) :: u32) = of_nat n"
    using n by (simp add: word_unat_eq_iff unat_of_nat unsigned_ucast_eq take_bit_nat_eq_self)
  then show ?thesis using In_Id n
    by (simp add: cert_field_len_def field_ident_parts class_nibble_In_Id)
next
  case One_Byte
  then show ?thesis using n
    by (simp add: cert_field_len_def field_ident_parts cert_byte_append)
       (simp add: cert_byte_def nth_append ucast_of_nat_small)
next
  case Two_Bytes
  then show ?thesis using n
    by (simp add: cert_field_len_def field_ident_parts cert_byte_append)
       (simp add: cert_byte_def nth_append shift_or_of_nat)
next
  case Four_Bytes
  then show ?thesis using n
    by (simp add: cert_field_len_def field_ident_parts cert_byte_append Let_def)
       (simp add: cert_byte_def nth_append be32_bytes)
qed

lemma unat_header_len:
  assumes "n \<le> class_max c"
  shows "unat (2 + of_nat (length (class_bytes c n)) :: u32) = 2 + length (class_bytes c n)"
    and "unat (2 + of_nat (length (class_bytes c n)) + of_nat n :: u32)
      = 2 + length (class_bytes c n) + n"
proof -
  have k: "length (class_bytes c n) \<le> 4" "2 + length (class_bytes c n) + n < 2 ^ 32"
    using assms by (cases c; simp add: Let_def)+
  have "(2 + of_nat (length (class_bytes c n)) :: u32) = of_nat (2 + length (class_bytes c n))"
    "(2 + of_nat (length (class_bytes c n)) + of_nat n :: u32)
      = of_nat (2 + length (class_bytes c n) + n)" by simp_all
  then show "unat (2 + of_nat (length (class_bytes c n)) :: u32) = 2 + length (class_bytes c n)"
    "unat (2 + of_nat (length (class_bytes c n)) + of_nat n :: u32)
      = 2 + length (class_bytes c n) + n"
    using k by (simp_all only: unat_of_nat) simp_all
qed

lemma field_bytes_length:
  "length (field_bytes c t body) = 2 + length (class_bytes c (length body)) + length body"
  by (simp add: field_bytes_def Let_def)

lemma cert_get_field:
  assumes n: "length body \<le> class_max c" and len: "length (field_bytes c t body) \<le> unat len"
  shows "tifiles_cert_field_get (pre @ field_bytes c t body @ post) (Some (length pre)) len True
    = Inr (field_ident c t (length body),
           length pre + 2 + length (class_bytes c (length body)), of_nat (length body))"
proof -
  let ?i = "field_ident c t (length body)"
  have mem: "pre @ field_bytes c t body @ post
      = pre @ MSB ?i # LSB ?i # class_bytes c (length body) @ body @ post"
    by (simp add: field_bytes_def Let_def)
  have l: "2 + length (class_bytes c (length body)) + length body \<le> unat len"
    using len by (simp add: field_bytes_length)
  have "\<not> len < 2" using l by (simp add: word_less_nat_alt)
  moreover have "\<not> len < 2 + of_nat (length (class_bytes c (length body)))"
    "\<not> len < 2 + of_nat (length (class_bytes c (length body))) + of_nat (length body)"
    using l by (simp_all only: word_less_nat_alt unat_header_len [OF n] not_less)
  moreover have "cert_byte (pre @ MSB ?i # LSB ?i # rest) (length pre) = Some (MSB ?i)"
    "cert_byte (pre @ MSB ?i # LSB ?i # rest) (length pre + 1) = Some (LSB ?i)" for rest
    by (simp_all add: cert_byte_def nth_append)
  moreover have "length (class_bytes c (length body)) < 2 ^ 32"
    by (cases c) (simp_all add: Let_def)
  then have "unat (of_nat (length (class_bytes c (length body))) :: u32)
      = length (class_bytes c (length body))"
    by (simp add: unat_of_nat take_bit_nat_eq_self)
  ultimately show ?thesis
    unfolding mem tifiles_cert_field_get_def
    by (simp add: be16_MSB_LSB additional_len_class [OF n] field_len_class [OF n]
        del: One_nat_def of_nat_add)
qed

lemma cert_next_field:
  assumes n: "length body \<le> class_max c" and len: "length (field_bytes c t body) \<le> unat len"
  shows "tifiles_cert_field_next (pre @ field_bytes c t body @ post)
      (Some (Some (length pre))) (Some len)
    = Inr (Some (length pre + length (field_bytes c t body)),
           len - of_nat (length (field_bytes c t body)))"
proof -
  have "length body < 2 ^ 32" using n by (cases c) simp_all
  then have "unat (of_nat (length body) :: u32) = length body"
    by (simp add: unat_of_nat take_bit_nat_eq_self)
  then show ?thesis
    by (simp add: tifiles_cert_field_next_def cert_get_field [OF n len] field_bytes_length)
qed

section \<open>Finding fields\<close>

lemma masked_differs: "(field_type :: u16) AND 0xFFF0 \<noteq> 0xFFFF"
proof
  assume "field_type AND 0xFFF0 = 0xFFFF"
  then have "bit (field_type AND 0xFFF0) 0 = bit (0xFFFF :: u16) 0" by simp
  then show False by (simp add: bit_simps)
qed

lemma cert_find_fields:
  assumes "cert_fits (Fields fs)" "length (cert_bytes (Fields fs)) < 2 ^ 32"
    and "ft' \<noteq> ft AND 0xFFF0" and "len = of_nat (length (cert_bytes (Fields fs)))"
  shows "case first_field ft fs of
      None \<Rightarrow> \<exists>out'. cert_find_loop (pre @ cert_bytes (Fields fs) @ post) (length pre) len
               (ft AND 0xFFF0) ft' out = (Some ERR_INVALID_PARAM, out')
    | Some x \<Rightarrow> \<exists>pre' post'. pre @ cert_bytes (Fields fs) @ post = pre' @ cert_bytes x @ post'
        \<and> cert_find_loop (pre @ cert_bytes (Fields fs) @ post) (length pre) len
            (ft AND 0xFFF0) ft' out = (None, length pre', of_nat (length (cert_bytes x)))"
  using assms
proof (induction fs arbitrary: pre ft' len out)
  case Nil
  then show ?case
    by (simp add: cert_find_loop.simps [of _ _ 0] tifiles_cert_field_get_def)
next
  case (Cons f fs)
  obtain c t x where f: "f = (c, t, x)" by (cases f)
  let ?F = "field_bytes c t (cert_bytes x)" and ?R = "cert_bytes (Fields fs)"
  have fits: "length (cert_bytes x) \<le> class_max c" "cert_fits (Fields fs)"
    using Cons.prems(1) by (simp_all add: f)
  have all: "cert_bytes (Fields (f # fs)) = ?F @ ?R" by (simp add: f)
  have total: "length ?F + length ?R < 2 ^ 32" using Cons.prems(2) unfolding all by simp
  have len: "unat len = length ?F + length ?R"
    using Cons.prems(4) total unfolding all by (simp add: unat_of_nat take_bit_nat_eq_self del: of_nat_add)
  have len': "len - of_nat (length ?F) = of_nat (length ?R)"
    using Cons.prems(4) unfolding all by simp
  have get: "tifiles_cert_field_get (pre @ ?F @ ?R @ post) (Some (length pre)) len True
    = Inr (field_ident c t (length (cert_bytes x)),
        length pre + 2 + length (class_bytes c (length (cert_bytes x))), of_nat (length (cert_bytes x)))"
    by (rule cert_get_field) (use fits len in simp_all)
  have nxt: "tifiles_cert_field_next (pre @ ?F @ ?R @ post) (Some (Some (length pre))) (Some len)
    = Inr (Some (length pre + length ?F), of_nat (length ?R))"
    unfolding len' [symmetric] by (rule cert_next_field) (use fits len in simp_all)
  have round: "cert_find_loop (pre @ ?F @ ?R @ post) (length pre) len (ft AND 0xFFF0) ft' out
    = cert_find_loop (pre @ ?F @ ?R @ post) (length (pre @ ?F)) (of_nat (length ?R)) (ft AND 0xFFF0)
        (t AND 0xFFF0) (length pre + 2 + length (class_bytes c (length (cert_bytes x))),
          of_nat (length (cert_bytes x)))"
    using Cons.prems(3)
    by (subst cert_find_loop.simps) (simp add: get nxt field_ident_parts [OF fits(1)] del: cert_bytes.simps)
  show ?case
  proof (cases "t AND 0xFFF0 = ft AND 0xFFF0")
    case True
    let ?i = "field_ident c t (length (cert_bytes x))"
    have "pre @ ?F @ ?R @ post
        = (pre @ [MSB ?i, LSB ?i] @ class_bytes c (length (cert_bytes x))) @ cert_bytes x @ ?R @ post"
      by (simp add: field_bytes_def Let_def)
    moreover have "cert_find_loop (pre @ ?F @ ?R @ post) (length pre) len (ft AND 0xFFF0) ft' out
        = (None, length (pre @ [MSB ?i, LSB ?i] @ class_bytes c (length (cert_bytes x))),
           of_nat (length (cert_bytes x)))"
      unfolding round by (subst cert_find_loop.simps) (simp add: True)
    ultimately have "\<exists>pre' post'. pre @ ?F @ ?R @ post = pre' @ cert_bytes x @ post'
        \<and> cert_find_loop (pre @ ?F @ ?R @ post) (length pre) len (ft AND 0xFFF0) ft' out
            = (None, length pre', of_nat (length (cert_bytes x)))" by blast
    then show ?thesis unfolding all by (simp add: f True)
  next
    case False
    show ?thesis
      using Cons.IH [of "t AND 0xFFF0" "of_nat (length ?R)" "pre @ ?F"] fits(2) total False
      unfolding all append_assoc round by (simp add: f)
  qed
qed

lemma cert_find_in_fields:
  assumes "cert_fits (Fields fs)" "length (cert_bytes (Fields fs)) < 2 ^ 32"
    and "mem = pre @ cert_bytes (Fields fs) @ post"
    and "len = of_nat (length (cert_bytes (Fields fs)))"
  shows "case first_field ft fs of
      None \<Rightarrow> \<exists>out'. tifiles_cert_field_find mem (Some (length pre)) len ft out
                = (Some ERR_INVALID_PARAM, out')
    | Some x \<Rightarrow> \<exists>pre' post'. mem = pre' @ cert_bytes x @ post'
        \<and> tifiles_cert_field_find mem (Some (length pre)) len ft out
            = (None, length pre', of_nat (length (cert_bytes x)))"
proof (cases fs)
  case Nil
  then show ?thesis using assms(4) by (simp add: tifiles_cert_field_find_def)
next
  case (Cons f fs')
  obtain c t x where f: "f = (c, t, x)" by (cases f)
  have "2 \<le> length (cert_bytes (Fields fs))"
    unfolding Cons f by (simp add: field_bytes_length)
  then have "\<not> len < 2" using assms(2,4) by (simp add: word_less_nat_alt unat_of_nat take_bit_nat_eq_self)
  then show ?thesis
    using cert_find_fields [OF assms(1,2) not_sym [OF masked_differs [of ft]] assms(4), where pre = pre and post = post and out = out]
    by (simp add: tifiles_cert_field_find_def assms(3) split: option.splits
        del: cert_bytes.simps)
qed

lemma first_field_length:
  "first_field ft fs = Some x \<Longrightarrow> length (cert_bytes x) \<le> length (cert_bytes (Fields fs))"
  by (induction fs rule: first_field.induct [of _ ft])
     (auto simp: field_bytes_length split: if_splits)

lemma first_field_fits:
  "first_field ft fs = Some x \<Longrightarrow> cert_fits (Fields fs) \<Longrightarrow> cert_fits x"
  by (induction fs rule: first_field.induct [of _ ft]) (auto split: if_splits)

lemma cert_path_fields:
  assumes "cert_fits x" "length (cert_bytes x) < 2 ^ 32" "mem = pre @ cert_bytes x @ post"
  shows "case cert_lookup x path of
      Found y \<Rightarrow> \<exists>pre' post'. mem = pre' @ cert_bytes y @ post'
        \<and> cert_path_loop mem (length pre, of_nat (length (cert_bytes x))) path
            = (None, length pre', of_nat (length (cert_bytes y)))
    | Missing \<Rightarrow> \<exists>pos'. cert_path_loop mem (length pre, of_nat (length (cert_bytes x))) path
            = (Some ERR_INVALID_PARAM, pos')
    | Unparsed \<Rightarrow> True"
  using assms
proof (induction path arbitrary: x pre post)
  case Nil
  then show ?case by auto
next
  case (Cons ft path)
  show ?case
  proof (cases x)
    case (Raw bs)
    then show ?thesis by simp
  next
    case (Fields fs)
    let ?pos = "(length pre, of_nat (length (cert_bytes x)) :: u32)"
    note found = cert_find_in_fields [OF Cons.prems(1,2,3) [unfolded Fields] refl,
        of ft "?pos", folded Fields]
    show ?thesis
    proof (cases "first_field ft fs")
      case None
      then show ?thesis using found by (auto simp: Fields simp del: cert_bytes.simps)
    next
      case (Some y)
      then obtain pre' post' where mem: "mem = pre' @ cert_bytes y @ post'"
        and find: "tifiles_cert_field_find mem (Some (length pre))
            (of_nat (length (cert_bytes x))) ft ?pos
          = (None, length pre', of_nat (length (cert_bytes y)))"
        using found by auto
      have "cert_fits y" using first_field_fits [OF Some] Cons.prems(1) Fields by simp
      moreover have "length (cert_bytes y) < 2 ^ 32"
        using Cons.prems(2) first_field_length [OF Some] by (simp add: Fields del: cert_bytes.simps)
      ultimately have "case cert_lookup y path of
          Found z \<Rightarrow> \<exists>pre'' post''. mem = pre'' @ cert_bytes z @ post''
            \<and> cert_path_loop mem (length pre', of_nat (length (cert_bytes y))) path
                = (None, length pre'', of_nat (length (cert_bytes z)))
        | Missing \<Rightarrow> \<exists>pos'. cert_path_loop mem (length pre', of_nat (length (cert_bytes y))) path
                = (Some ERR_INVALID_PARAM, pos')
        | Unparsed \<Rightarrow> True"
        by (rule Cons.IH [OF _ _ mem])
      moreover have "cert_path_loop mem ?pos (ft # path)
          = cert_path_loop mem (length pre', of_nat (length (cert_bytes y))) path"
        by (simp add: find)
      ultimately show ?thesis by (simp add: Fields Some split: lookup.splits del: cert_bytes.simps)
    qed
  qed
qed

section \<open>Properties\<close>

text \<open>
  C23: \<open>tifiles_cert_field_find_path\<close> computes the lookup of the specification: on the encoding of
  a certificate, wherever it lies in memory and however its sizes are encoded, the function
  returns success with the position and the size of exactly the contents that the path leads
  to, taking the first field of a type when there are several; and it returns the
  invalid-parameter error when some field on the path is missing.
\<close>

theorem cert_find_path_lookup:
  assumes "cert_fits x" "length (cert_bytes x) < 2 ^ 32" "2 \<le> length (cert_bytes x)"
    and "path \<noteq> []"
  shows "case cert_lookup x path of
      Found y \<Rightarrow> \<exists>pre' post'. pre @ cert_bytes x @ post = pre' @ cert_bytes y @ post'
        \<and> tifiles_cert_field_find_path (pre @ cert_bytes x @ post) (Some (length pre))
            (of_nat (length (cert_bytes x))) (Some path) out
          = (None, length pre', of_nat (length (cert_bytes y)))
    | Missing \<Rightarrow> \<exists>pos'. tifiles_cert_field_find_path (pre @ cert_bytes x @ post)
            (Some (length pre)) (of_nat (length (cert_bytes x))) (Some path) out
          = (Some ERR_INVALID_PARAM, pos')
    | Unparsed \<Rightarrow> True"
proof -
  have "\<not> (of_nat (length (cert_bytes x)) :: u32) < 2"
    using assms(2,3) by (simp add: word_less_nat_alt unat_of_nat take_bit_nat_eq_self)
  then show ?thesis
    using cert_path_fields [OF assms(1,2) refl, of pre post path] assms(4)
    by (simp add: tifiles_cert_field_find_path_def split: lookup.splits del: cert_bytes.simps)
qed

lemma cert_additional_len_cases:
  "cert_additional_len fid \<in> {0, 1, 2} \<or> cert_additional_len fid = 4"
  by (simp add: cert_additional_len_def Let_def)

lemma unat_wider:
  "unat (ucast (v :: u8) :: u32) = unat v" "unat (ucast (w :: u16) :: u32) = unat w"
proof -
  have "unat v < 2 ^ LENGTH(8)" "unat w < 2 ^ LENGTH(16)" by (rule unsigned_less)+
  then show "unat (ucast v :: u32) = unat v" "unat (ucast w :: u32) = unat w"
    by (simp_all add: unsigned_ucast_eq take_bit_nat_eq_self)
qed

lemma unat_narrow_bound: "unat (v :: u8) < 65536" "unat (w :: u16) < 65536"
proof -
  have "unat v < 2 ^ LENGTH(8)" "unat w < 2 ^ LENGTH(16)" by (rule unsigned_less)+
  then show "unat v < 65536" "unat w < 65536" by simp_all
qed

lemma cert_field_len_size:
  assumes "cert_field_len mem p fid = Some fl" "cert_additional_len fid \<noteq> 4"
  shows "unat fl < 65536"
proof -
  have "(push_bit 8 (ucast a) OR ucast b :: u32) = ucast (be16 a b)" for a b
    unfolding be16_def by (rule bit_word_eqI) (auto simp: bit_simps dest: bit_imp_le_length)
  then show ?thesis
    using assms
    by (auto simp: cert_field_len_def cert_additional_len_def Let_def unat_wider unat_narrow_bound
        split: if_splits bind_splits)
qed

lemma cert_sum_exact:
  assumes "\<not> len < 2 + a" "\<not> len < 2 + a + fl" "a \<noteq> 4 \<Longrightarrow> unat fl < 65536"
    and "a \<in> {0, 1, 2} \<or> a = (4 :: u32)"
  shows "2 + unat a + unat fl \<le> unat len \<longleftrightarrow> fl < 0xFFFFFFFA" "2 + unat a \<le> unat len"
proof -
  have a: "unat a \<le> 4" using assms(4) by auto
  have two: "unat (2 + a) = 2 + unat a" using a by (simp add: unat_word_ariths)
  then show le: "2 + unat a \<le> unat len" using assms(1) by (simp add: word_less_nat_alt)
  have sum: "(2 + unat a + unat fl) mod 2 ^ 32 \<le> unat len"
    using assms(2) unfolding word_less_nat_alt unat_word_ariths(1) [of "2 + a" fl] two by simp
  have len: "unat len < 2 ^ 32" using unsigned_less [of len] by simp
  have fl: "fl < 0xFFFFFFFA \<longleftrightarrow> unat fl < 0xFFFFFFFA" by (simp add: word_less_nat_alt)
  show "2 + unat a + unat fl \<le> unat len \<longleftrightarrow> fl < 0xFFFFFFFA"
  proof (cases "a = 4")
    case True
    then show ?thesis unfolding fl using sum len by auto
  next
    case False
    then have "unat fl < 65536" using assms(3) by simp
    moreover from this have "(2 + unat a + unat fl) mod 2 ^ 32 = 2 + unat a + unat fl" using a by simp
    ultimately show ?thesis unfolding fl using sum by simp
  qed
qed

lemma cert_field_len_inside:
  assumes "p + 2 + unat (cert_additional_len fid) \<le> length mem"
  shows "cert_field_len mem p fid \<noteq> None"
  using assms
  by (auto simp: cert_field_len_def cert_additional_len_def Let_def cert_byte_def split: if_splits)

definition sample_cert :: cert where
  "sample_cert = Fields [(In_Id, 0x010, Raw [1]),
     (One_Byte, 0x300, Fields [(Two_Bytes, 0x020, Raw [0xCA, 0xFE]), (In_Id, 0x020, Raw [])])]"

lemma sample_cert_bytes:
  "cert_bytes sample_cert = [0, 0x11, 1, 3, 0x0D, 8, 0, 0x2E, 0, 2, 0xCA, 0xFE, 0, 0x20]"
  by (simp add: sample_cert_def field_bytes_def field_ident_def MSB_def LSB_def)

theorem cert_find_path_lookup_witness:
  "\<exists>pre' post'. [0, 0, 0] @ cert_bytes sample_cert @ [9] = pre' @ [0xCA, 0xFE] @ post'
     \<and> tifiles_cert_field_find_path ([0, 0, 0] @ cert_bytes sample_cert @ [9]) (Some 3) 14
         (Some [0x30F, 0x020]) (0, 0) = (None, length pre', 2)"
proof -
  have "cert_lookup sample_cert [0x30F, 0x020] = Found (Raw [0xCA, 0xFE])" "cert_fits sample_cert"
    by (simp_all add: sample_cert_def field_bytes_length)
  then show ?thesis
    using cert_find_path_lookup [of sample_cert "[0x30F, 0x020]" "[0, 0, 0]" "[9]" "(0, 0)"]
    by (simp add: sample_cert_bytes numeral_3_eq_3)
qed

text \<open>
  C39: A field that was parsed lies inside of the bytes the caller announced exactly when its size
  is below \<open>2^32 - 6\<close>: the sum of header and size is a 32-bit number, so the size check of a
  larger field wraps around and accepts contents that reach 4 GB behind the block. Nothing
  outside of the announced bytes is read by the parser itself.
\<close>

theorem cert_field_bounds:
  assumes "p + unat len \<le> length mem"
  shows "(case tifiles_cert_field_get mem (Some p) len outs of
      Inl e \<Rightarrow> e = ERR_INVALID_PARAM \<or> e = ERR_CERT_TRUNCATED
    | Inr (fid, contents, fsize) \<Rightarrow>
        p + 2 \<le> contents \<and> contents \<le> p + unat len
        \<and> (contents + unat fsize \<le> p + unat len \<longleftrightarrow> fsize < 0xFFFFFFFA))"
proof (cases "outs \<and> \<not> len < 2")
  case False
  then show ?thesis by (auto simp: tifiles_cert_field_get_def)
next
  case True
  then have l: "2 \<le> unat len" by (simp add: word_less_nat_alt)
  let ?fid = "be16 (mem ! p) (mem ! Suc p)"
  let ?a = "cert_additional_len ?fid"
  have get: "tifiles_cert_field_get mem (Some p) len outs =
     (if len < 2 + ?a then Inl ERR_CERT_TRUNCATED
      else case cert_field_len mem p ?fid of
        None \<Rightarrow> Inl UNDEFINED_BEHAVIOUR
      | Some fl \<Rightarrow> if len < 2 + ?a + fl then Inl ERR_CERT_TRUNCATED
                   else Inr (?fid, p + 2 + unat ?a, fl))"
    using True l assms by (simp add: tifiles_cert_field_get_def cert_byte_def Let_def)
  show ?thesis
  proof (cases "len < 2 + ?a")
    case True
    then show ?thesis by (simp add: get)
  next
    case False
    have "unat (2 + ?a) = 2 + unat ?a"
      using cert_additional_len_cases [of ?fid] by auto
    then have "p + 2 + unat ?a \<le> length mem"
      using False assms by (simp add: word_less_nat_alt)
    then obtain fl where fl: "cert_field_len mem p ?fid = Some fl"
      using cert_field_len_inside by blast
    show ?thesis
      using False cert_sum_exact [OF False _ _ cert_additional_len_cases, of fl]
        cert_field_len_size [OF fl]
      by (auto simp: get fl add.assoc)
  qed
qed

theorem cert_field_bounds_witness:
  "tifiles_cert_field_get [0, 0x0F, 0xFF, 0xFF, 0xFF, 0xFA] (Some 0) 6 True
      = Inr (0x000F, 6, 0xFFFFFFFA)
   \<and> \<not> 6 + unat (0xFFFFFFFA :: u32) \<le> unat (6 :: u32)"
proof
  show get: "tifiles_cert_field_get [0, 0x0F, 0xFF, 0xFF, 0xFF, 0xFA] (Some 0) 6 True
      = Inr (0x000F, 6, 0xFFFFFFFA)"
    by (simp add: tifiles_cert_field_get_def cert_byte_def cert_field_len_def
        cert_additional_len_def be16_def be32_def Let_def)
  show "\<not> 6 + unat (0xFFFFFFFA :: u32) \<le> unat (6 :: u32)"
    using cert_field_bounds [of 0 6 "[0, 0x0F, 0xFF, 0xFF, 0xFF, 0xFA]" True, unfolded get] by simp
qed

end
