(* ===== verification/EvoCbor.thy ===== *)
theory EvoCbor
  imports TilibsPrelude "HOL-Library.While_Combinator"
begin

text \<open>
  The growing buffer and the CBOR reader and writer of the Evo protocol,
  \<^verbatim>\<open>libticalcs/trunk/src/evo_cbor.cc\<close>. Whether an allocation of a number of bytes succeeds is
  the argument \<open>alloc\<close>; freshly allocated memory holds \<open>junk\<close>. The recursion of the parser is
  bounded by its depth limit as in the source; its two \<open>while\<close> loops take fuel, and
  \<open>evo_cbor_parse_terminates\<close> shows that one unit per byte of the input is always enough.
  The specification is the relation \<open>encodes\<close> between a value and its encodings.
\<close>

section \<open>The buffer\<close>

text \<open>
  \<open>evo_data\<close> is the allocated block, so that its length is the capacity; the null pointer is
  the empty block.
\<close>

record evo_buffer =
  evo_data :: bytes
  evo_size :: "64 word"
  evo_capacity :: "64 word"

definition evo_buffer_init :: evo_buffer where
  "evo_buffer_init = \<lparr>evo_data = [], evo_size = 0, evo_capacity = 0\<rparr>"

text \<open>The loop that doubles the capacity; \<open>None\<close> when it does not end.\<close>

definition evo_grow :: "64 word \<Rightarrow> 64 word \<Rightarrow> 64 word option" where
  "evo_grow capacity needed = while_option (\<lambda>c. c < needed) (\<lambda>c. c * 2) capacity"

text \<open>The outer option is \<open>None\<close> when the call does not return.\<close>

definition evo_buffer_reserve ::
  "(nat \<Rightarrow> bool) \<Rightarrow> bytes \<Rightarrow> evo_buffer \<Rightarrow> 64 word \<Rightarrow> (ret \<times> evo_buffer) option" where
  "evo_buffer_reserve alloc junk b needed =
     (if needed \<le> evo_capacity b then Some (None, b)
      else Option.bind (evo_grow (if evo_capacity b \<noteq> 0 then evo_capacity b else 64) needed)
        (\<lambda>capacity.
           if \<not> alloc (unat capacity) then Some (Some ERR_MALLOC, b)
           else Some (None, b\<lparr>evo_data := local_array (unat capacity) (evo_data b @ junk),
                              evo_capacity := capacity\<rparr>)))"

definition evo_buffer_append ::
  "(nat \<Rightarrow> bool) \<Rightarrow> bytes \<Rightarrow> evo_buffer \<Rightarrow> bytes \<Rightarrow> (ret \<times> evo_buffer) option" where
  "evo_buffer_append alloc junk b data =
     (let len = of_nat (length data) in
      if len = 0 then Some (None, b)
      else Option.bind (evo_buffer_reserve alloc junk b (evo_size b + len)) (\<lambda>(r, b).
        if r \<noteq> None then Some (r, b)
        else (case memcpy (evo_data b) (unat (evo_size b)) data 0 (length data) of
                None \<Rightarrow> Some (Some UNDEFINED_BEHAVIOUR, b)
              | Some d \<Rightarrow> Some (None, b\<lparr>evo_data := d, evo_size := evo_size b + len\<rparr>))))"

definition evo_buffer_append_byte ::
  "(nat \<Rightarrow> bool) \<Rightarrow> bytes \<Rightarrow> evo_buffer \<Rightarrow> u8 \<Rightarrow> (ret \<times> evo_buffer) option" where
  "evo_buffer_append_byte alloc junk b byte = evo_buffer_append alloc junk b [byte]"

section \<open>Values\<close>

text \<open>
  \<^verbatim>\<open>EvoCborValue\<close>, its kind being the constructor and its length that of the list. A text and a
  key are the bytes in front of the terminator that the parser appends.
\<close>

datatype evo_value =
    EVO_CBOR_NONE
  | EVO_CBOR_UINT "64 word"
  | EVO_CBOR_NEG int
  | EVO_CBOR_BYTES bytes
  | EVO_CBOR_TEXT bytes
  | EVO_CBOR_ARRAY "evo_value list"
  | EVO_CBOR_MAP "(bytes \<times> evo_value) list"
  | EVO_CBOR_BOOL bool

text \<open>\<^verbatim>\<open>strcmp\<close> compares up to the first terminator.\<close>

definition c_string :: "bytes \<Rightarrow> bytes" where
  "c_string s = takeWhile (\<lambda>b. b \<noteq> 0) s"

fun evo_cbor_get :: "evo_value option \<Rightarrow> bytes \<Rightarrow> evo_value option" where
  "evo_cbor_get (Some (EVO_CBOR_MAP m)) key = map_of (map (apfst c_string) m) (c_string key)"
| "evo_cbor_get _ key = None"

section \<open>The parser\<close>

text \<open>
  What the parser returns: the value and the offset behind it; \<open>Malformed\<close> for its result zero,
  whose out parameters no caller reads; \<open>Running\<close> when the fuel of a loop is used up.
\<close>

datatype 'a parsed = Parsed 'a nat | Malformed | Running

fun and_parse :: "'a parsed \<Rightarrow> ('a \<Rightarrow> nat \<Rightarrow> 'b parsed) \<Rightarrow> 'b parsed" where
  "and_parse (Parsed x off) k = k x off"
| "and_parse Malformed k = Malformed"
| "and_parse Running k = Running"

definition cbor_byte :: "bytes \<Rightarrow> nat \<Rightarrow> nat" where
  "cbor_byte data off = unat (data ! off)"

definition cbor_len :: "bytes \<Rightarrow> nat \<Rightarrow> nat \<Rightarrow> nat parsed" where
  "cbor_len data off addl =
     (let b = cbor_byte data in
      if addl < 24 then Parsed addl off
      else if addl = 24 \<and> off < length data then Parsed (b off) (off + 1)
      else if addl = 25 \<and> off + 1 < length data
        then Parsed (b off * 2 ^ 8 + b (off + 1)) (off + 2)
      else if addl = 26 \<and> off + 3 < length data
        then Parsed (b off * 2 ^ 24 + b (off + 1) * 2 ^ 16 + b (off + 2) * 2 ^ 8 + b (off + 3)) (off + 4)
      else Malformed)"

text \<open>The sizes of the structures that the arrays hold, on a 64-bit platform.\<close>

definition sizeof_value :: nat where "sizeof_value = 24"
definition sizeof_pair :: nat where "sizeof_pair = 32"

fun cbor_take_text_key :: "evo_value \<Rightarrow> bytes option" where
  "cbor_take_text_key (EVO_CBOR_TEXT s) = Some s"
| "cbor_take_text_key _ = None"

text \<open>The loops over the elements of a container; \<open>p\<close> parses one element.\<close>

fun evo_array_indefinite ::
  "(nat \<Rightarrow> bool) \<Rightarrow> (nat \<Rightarrow> evo_value parsed) \<Rightarrow> bytes \<Rightarrow> nat \<Rightarrow> nat \<Rightarrow> evo_value list
     \<Rightarrow> evo_value parsed" where
  "evo_array_indefinite alloc p data fuel off acc =
     (if off < length data \<and> data ! off \<noteq> 0xFF then
        (case fuel of
           0 \<Rightarrow> Running
         | Suc fuel' \<Rightarrow>
             and_parse (p off) (\<lambda>item off.
               if alloc ((length acc + 1) * sizeof_value)
               then evo_array_indefinite alloc p data fuel' off (acc @ [item])
               else Malformed))
      else Parsed (EVO_CBOR_ARRAY acc) (if off < length data then off + 1 else off))"

fun evo_map_indefinite ::
  "(nat \<Rightarrow> bool) \<Rightarrow> (nat \<Rightarrow> evo_value parsed) \<Rightarrow> bytes \<Rightarrow> nat \<Rightarrow> nat
     \<Rightarrow> (bytes \<times> evo_value) list \<Rightarrow> evo_value parsed" where
  "evo_map_indefinite alloc p data fuel off acc =
     (if off < length data \<and> data ! off \<noteq> 0xFF then
        (case fuel of
           0 \<Rightarrow> Running
         | Suc fuel' \<Rightarrow>
             and_parse (p off) (\<lambda>key off.
             and_parse (p off) (\<lambda>item off.
               (case cbor_take_text_key key of
                  None \<Rightarrow> Malformed
                | Some text \<Rightarrow>
                    if alloc ((length acc + 1) * sizeof_pair)
                    then evo_map_indefinite alloc p data fuel' off (acc @ [(text, item)])
                    else Malformed))))
      else Parsed (EVO_CBOR_MAP acc) (if off < length data then off + 1 else off))"

fun evo_array_counted ::
  "(nat \<Rightarrow> evo_value parsed) \<Rightarrow> nat \<Rightarrow> nat \<Rightarrow> evo_value list \<Rightarrow> evo_value parsed" where
  "evo_array_counted p 0 off acc = Parsed (EVO_CBOR_ARRAY acc) off"
| "evo_array_counted p (Suc n) off acc =
     and_parse (p off) (\<lambda>item off. evo_array_counted p n off (acc @ [item]))"

fun evo_map_counted ::
  "(nat \<Rightarrow> evo_value parsed) \<Rightarrow> nat \<Rightarrow> nat \<Rightarrow> (bytes \<times> evo_value) list \<Rightarrow> evo_value parsed" where
  "evo_map_counted p 0 off acc = Parsed (EVO_CBOR_MAP acc) off"
| "evo_map_counted p (Suc n) off acc =
     and_parse (p off) (\<lambda>key off.
       (case cbor_take_text_key key of
          None \<Rightarrow> Malformed
        | Some text \<Rightarrow>
            and_parse (p off) (\<lambda>item off. evo_map_counted p n off (acc @ [(text, item)]))))"

declare evo_array_indefinite.simps [simp del] evo_map_indefinite.simps [simp del]

text \<open>Everything behind the head of an item, by its major type.\<close>

definition evo_parse_body ::
  "(nat \<Rightarrow> bool) \<Rightarrow> bytes \<Rightarrow> (nat \<Rightarrow> evo_value parsed) \<Rightarrow> nat \<Rightarrow> nat \<Rightarrow> nat \<Rightarrow> evo_value parsed" where
  "evo_parse_body alloc data p major len off =
     (if major = 0 then Parsed (EVO_CBOR_UINT (of_nat len)) off
      else if major = 1 then Parsed (EVO_CBOR_NEG (-1 - int len)) off
      else if major = 2 \<or> major = 3 then
        (if off + len > length data then Malformed
         else if major = 2 then
           (if alloc (max len 1) then Parsed (EVO_CBOR_BYTES (take len (drop off data))) (off + len)
            else Malformed)
         else
           (if alloc (len + 1) then Parsed (EVO_CBOR_TEXT (take len (drop off data))) (off + len)
            else Malformed))
      else if major = 4 then
        (if len > length data - off \<or> len > (2 ^ 64 - 1) div sizeof_value then Malformed
         else if \<not> alloc (max len 1 * sizeof_value) then Malformed
         else evo_array_counted p len off [])
      else if major = 5 then
        (if len > (length data - off) div 2 \<or> len > (2 ^ 64 - 1) div sizeof_pair then Malformed
         else if \<not> alloc (max len 1 * sizeof_pair) then Malformed
         else evo_map_counted p len off [])
      else Malformed)"

definition evo_parse_item ::
  "(nat \<Rightarrow> bool) \<Rightarrow> bytes \<Rightarrow> (nat \<Rightarrow> evo_value parsed) \<Rightarrow> nat \<Rightarrow> evo_value parsed" where
  "evo_parse_item alloc data p off =
     (let initial = data ! off; off = off + 1;
          major = unat (drop_bit 5 initial); addl = unat (initial AND 0x1F) in
      if major = 7 then
        (if addl = 20 \<or> addl = 21 \<or> addl = 22 \<or> addl = 23
         then Parsed (EVO_CBOR_BOOL (addl = 21)) off else Malformed)
      else if addl = 31 \<and> major = 4 then evo_array_indefinite alloc p data (length data) off []
      else if addl = 31 \<and> major = 5 then evo_map_indefinite alloc p data (length data) off []
      else and_parse (cbor_len data off addl) (evo_parse_body alloc data p major))"

definition EVO_CBOR_MAX_DEPTH :: nat where "EVO_CBOR_MAX_DEPTH = 64"

function evo_cbor_parse_at :: "(nat \<Rightarrow> bool) \<Rightarrow> bytes \<Rightarrow> nat \<Rightarrow> nat \<Rightarrow> evo_value parsed" where
  "evo_cbor_parse_at alloc data depth off =
     (if off \<ge> length data \<or> depth > EVO_CBOR_MAX_DEPTH then Malformed
      else evo_parse_item alloc data (\<lambda>off. evo_cbor_parse_at alloc data (depth + 1) off) off)"
  by pat_completeness auto

termination
  by (relation "measure (\<lambda>(alloc, data, depth, off). 65 - depth)")
     (auto simp: EVO_CBOR_MAX_DEPTH_def)

declare evo_cbor_parse_at.simps [simp del]

definition evo_cbor_parse :: "(nat \<Rightarrow> bool) \<Rightarrow> bytes \<Rightarrow> nat \<Rightarrow> evo_value parsed" where
  "evo_cbor_parse alloc data off = evo_cbor_parse_at alloc data 0 off"

section \<open>The writer\<close>

definition EVO_CBOR_HEAD :: "nat \<Rightarrow> nat \<Rightarrow> u8" where
  "EVO_CBOR_HEAD major addl = of_nat (major * 2 ^ 5) OR of_nat addl"

definition evo_cbor_text_append ::
  "(nat \<Rightarrow> bool) \<Rightarrow> bytes \<Rightarrow> evo_buffer \<Rightarrow> bytes \<Rightarrow> (ret \<times> evo_buffer) option" where
  "evo_cbor_text_append alloc junk out s =
     (let s = c_string s in
      if length s \<ge> 24 then Some (Some ERR_INVALID_PARAMETER, out)
      else Option.bind (evo_buffer_append_byte alloc junk out (EVO_CBOR_HEAD 3 (length s)))
        (\<lambda>(r, out). if r \<noteq> None then Some (r, out) else evo_buffer_append alloc junk out s))"

definition evo_cbor_uint_append ::
  "(nat \<Rightarrow> bool) \<Rightarrow> bytes \<Rightarrow> evo_buffer \<Rightarrow> u32 \<Rightarrow> (ret \<times> evo_buffer) option" where
  "evo_cbor_uint_append alloc junk out n =
     (if n < 24 then evo_buffer_append_byte alloc junk out (ucast n)
      else if n < 256 then evo_buffer_append alloc junk out [EVO_CBOR_HEAD 0 24, ucast n]
      else evo_buffer_append alloc junk out
        [EVO_CBOR_HEAD 0 26, ucast (drop_bit 24 n), ucast (drop_bit 16 n), ucast (drop_bit 8 n), ucast n])"

definition evo_cbor_bytes_append ::
  "(nat \<Rightarrow> bool) \<Rightarrow> bytes \<Rightarrow> evo_buffer \<Rightarrow> bytes \<Rightarrow> (ret \<times> evo_buffer) option" where
  "evo_cbor_bytes_append alloc junk out data =
     (let len = length data; n = of_nat len :: 64 word in
      Option.bind
        (if len < 24 then evo_buffer_append_byte alloc junk out (EVO_CBOR_HEAD 2 len)
         else if len < 256 then evo_buffer_append alloc junk out [EVO_CBOR_HEAD 2 24, ucast n]
         else evo_buffer_append alloc junk out
           [EVO_CBOR_HEAD 2 26, ucast (drop_bit 24 n), ucast (drop_bit 16 n), ucast (drop_bit 8 n), ucast n])
        (\<lambda>(r, out). if r \<noteq> None then Some (r, out) else evo_buffer_append alloc junk out data))"

section \<open>What the parser returns\<close>

text \<open>
  The nesting of a value, and the number of bytes that any encoding of it has at least; the
  values the parser can produce.
\<close>

fun value_height :: "evo_value \<Rightarrow> nat" where
  "value_height (EVO_CBOR_ARRAY xs) = Suc (Max (insert 0 (set (map value_height xs))))"
| "value_height (EVO_CBOR_MAP m) = Suc (Max (insert 0 (set (map (\<lambda>(k, x). value_height x) m))))"
| "value_height _ = 1"

fun value_weight :: "evo_value \<Rightarrow> nat" where
  "value_weight (EVO_CBOR_BYTES bs) = 1 + length bs"
| "value_weight (EVO_CBOR_TEXT bs) = 1 + length bs"
| "value_weight (EVO_CBOR_ARRAY xs) = 1 + sum_list (map value_weight xs)"
| "value_weight (EVO_CBOR_MAP m) = 1 + sum_list (map (\<lambda>(k, x). 1 + length k + value_weight x) m)"
| "value_weight _ = 1"

fun value_ok :: "evo_value \<Rightarrow> bool" where
  "value_ok EVO_CBOR_NONE = False"
| "value_ok (EVO_CBOR_UINT n) = (n < 2 ^ 32)"
| "value_ok (EVO_CBOR_NEG i) = (- (2 ^ 32) \<le> i \<and> i < 0)"
| "value_ok (EVO_CBOR_ARRAY xs) = list_all value_ok xs"
| "value_ok (EVO_CBOR_MAP m) = list_all (\<lambda>(k, x). value_ok x) m"
| "value_ok _ = True"

text \<open>
  \<open>result_ok d lo n w r\<close>: the result \<open>r\<close> of parsing from \<open>lo\<close> on in \<open>n\<close> bytes has ended, at an
  offset behind \<open>lo\<close> inside of the input; the value is well formed, nested at most \<open>d\<close> deep and
  not larger than what was read.
\<close>

fun result_ok :: "nat \<Rightarrow> nat \<Rightarrow> nat \<Rightarrow> evo_value parsed \<Rightarrow> bool" where
  "result_ok d lo n (Parsed v off) =
     (lo < off \<and> off \<le> n \<and> value_ok v \<and> value_height v \<le> d \<and> lo + value_weight v \<le> off)"
| "result_ok d lo n Malformed = True"
| "result_ok d lo n Running = False"

lemma height_array_le:
  "value_height (EVO_CBOR_ARRAY xs) \<le> Suc d \<longleftrightarrow> (\<forall>x\<in>set xs. value_height x \<le> d)"
  by auto

lemma height_map_le:
  "value_height (EVO_CBOR_MAP m) \<le> Suc d \<longleftrightarrow> (\<forall>(k, x)\<in>set m. value_height x \<le> d)"
  by auto

lemmas height_le = height_array_le height_map_le

lemma text_key_weight: "cbor_take_text_key v = Some s \<Longrightarrow> value_weight v = 1 + length s"
  by (cases v) auto

lemma array_indefinite_ok:
  assumes p: "\<And>off. result_ok d off (length data) (p off)"
  shows "lo < off \<Longrightarrow> off \<le> length data \<Longrightarrow> length data \<le> off + fuel \<Longrightarrow>
    result_ok (Suc d) lo off (Parsed (EVO_CBOR_ARRAY acc) off) \<Longrightarrow>
    result_ok (Suc d) lo (length data) (evo_array_indefinite alloc p data fuel off acc)"
proof (induction fuel arbitrary: off acc)
  case 0
  then show ?case by (simp add: evo_array_indefinite.simps height_le del: value_height.simps)
next
  case (Suc fuel)
  show ?case
  proof (cases "off < length data \<and> data ! off \<noteq> 0xFF")
    case False
    then show ?thesis using Suc.prems
      by (auto simp: evo_array_indefinite.simps [of _ _ _ "Suc fuel"] simp del: value_height.simps)
  next
    case True
    then show ?thesis using Suc.prems p [of off]
      by (cases "p off")
         (auto simp: evo_array_indefinite.simps [of _ _ _ "Suc fuel"] height_le
            simp del: value_height.simps intro!: Suc.IH)
  qed
qed

lemma map_indefinite_ok:
  assumes p: "\<And>off. result_ok d off (length data) (p off)"
  shows "lo < off \<Longrightarrow> off \<le> length data \<Longrightarrow> length data \<le> off + fuel \<Longrightarrow>
    result_ok (Suc d) lo off (Parsed (EVO_CBOR_MAP acc) off) \<Longrightarrow>
    result_ok (Suc d) lo (length data) (evo_map_indefinite alloc p data fuel off acc)"
proof (induction fuel arbitrary: off acc)
  case 0
  then show ?case by (simp add: evo_map_indefinite.simps height_le del: value_height.simps)
next
  case (Suc fuel)
  show ?case
  proof (cases "off < length data \<and> data ! off \<noteq> 0xFF")
    case False
    then show ?thesis using Suc.prems
      by (auto simp: evo_map_indefinite.simps [of _ _ _ "Suc fuel"] simp del: value_height.simps)
  next
    case True
    show ?thesis
    proof (cases "p off")
      case (Parsed key off1)
      then show ?thesis using True Suc.prems p [of off] p [of off1]
        by (cases "p off1")
           (auto simp: evo_map_indefinite.simps [of _ _ _ "Suc fuel"] height_le
              simp del: value_height.simps intro!: Suc.IH dest: text_key_weight split: option.split)
    qed (use True p [of off] in \<open>auto simp: evo_map_indefinite.simps [of _ _ _ "Suc fuel"]\<close>)
  qed
qed

lemma array_counted_ok:
  assumes p: "\<And>off. result_ok d off (length data) (p off)"
  shows "off \<le> length data \<Longrightarrow> result_ok (Suc d) lo off (Parsed (EVO_CBOR_ARRAY acc) off) \<Longrightarrow>
    result_ok (Suc d) lo (length data) (evo_array_counted p n off acc)"
proof (induction n arbitrary: off acc)
  case (Suc n)
  then show ?case using p [of off]
    by (cases "p off") (auto simp: height_le simp del: value_height.simps intro!: Suc.IH)
qed auto

lemma map_counted_ok:
  assumes p: "\<And>off. result_ok d off (length data) (p off)"
  shows "off \<le> length data \<Longrightarrow> result_ok (Suc d) lo off (Parsed (EVO_CBOR_MAP acc) off) \<Longrightarrow>
    result_ok (Suc d) lo (length data) (evo_map_counted p n off acc)"
proof (induction n arbitrary: off acc)
  case (Suc n)
  show ?case
  proof (cases "p off")
    case (Parsed key off1)
    then show ?thesis using Suc.prems p [of off] p [of off1]
      by (cases "p off1")
         (auto simp: height_le simp del: value_height.simps
            intro!: Suc.IH dest: text_key_weight split: option.split)
  qed (use p [of off] in auto)
qed auto

lemma cbor_byte_less: "cbor_byte data i < 256"
proof -
  have "unat (data ! i) < 2 ^ LENGTH(8)" by (rule unsigned_less)
  then show ?thesis by (simp add: cbor_byte_def)
qed

lemma cbor_len_ok:
  assumes "cbor_len data off addl = Parsed len off'" "off \<le> length data"
  shows "off \<le> off'" "off' \<le> length data" "len < 2 ^ 32"
  using assms cbor_byte_less [of data off] cbor_byte_less [of data "off + 1"]
    cbor_byte_less [of data "off + 2"] cbor_byte_less [of data "off + 3"]
  by (auto simp: cbor_len_def Let_def split: if_splits)

lemma cbor_len_not_running: "cbor_len data off addl \<noteq> Running"
  by (simp add: cbor_len_def Let_def)

lemma parse_body_ok:
  assumes p: "\<And>off. result_ok d off (length data) (p off)"
    and "lo < off" "off \<le> length data" "len < 2 ^ 32"
  shows "result_ok (Suc d) lo (length data) (evo_parse_body alloc data p major len off)"
proof -
  have "(of_nat len :: 64 word) < 2 ^ 32"
    using assms(4) by (simp add: word_less_nat_alt unat_of_nat take_bit_nat_eq_self)
  moreover have "result_ok (Suc d) lo (length data) (evo_array_counted p len off [])"
    "result_ok (Suc d) lo (length data) (evo_map_counted p len off [])"
    using assms by (auto intro!: array_counted_ok map_counted_ok)
  ultimately show ?thesis
    using assms(2-4) by (simp add: evo_parse_body_def)
qed

lemma parse_item_ok:
  assumes p: "\<And>off. result_ok d off (length data) (p off)" and "off < length data"
  shows "result_ok (Suc d) off (length data) (evo_parse_item alloc data p off)"
proof -
  let ?addl = "unat (data ! off AND 0x1F)" and ?major = "unat (drop_bit 5 (data ! off))"
  have "result_ok (Suc d) off (length data)
      (and_parse (cbor_len data (off + 1) ?addl) (evo_parse_body alloc data p ?major))"
  proof (cases "cbor_len data (off + 1) ?addl")
    case (Parsed len off')
    then show ?thesis
      using cbor_len_ok [OF Parsed] assms(2) by (simp add: parse_body_ok [OF p])
  qed (use cbor_len_not_running in auto)
  moreover have "result_ok (Suc d) off (length data)
      (evo_array_indefinite alloc p data (length data) (off + 1) [])"
    "result_ok (Suc d) off (length data) (evo_map_indefinite alloc p data (length data) (off + 1) [])"
    using assms(2) by (auto intro!: array_indefinite_ok [OF p] map_indefinite_ok [OF p])
  ultimately show ?thesis
    using assms(2) by (simp add: evo_parse_item_def Let_def)
qed

lemma parse_at_ok: "result_ok (65 - depth) off (length data) (evo_cbor_parse_at alloc data depth off)"
proof (induction "65 - depth" arbitrary: depth off)
  case 0
  then show ?case by (simp add: evo_cbor_parse_at.simps EVO_CBOR_MAX_DEPTH_def)
next
  case (Suc d)
  then have d: "d = 65 - (depth + 1)" and s: "65 - depth = Suc d" by simp_all
  show ?case
    unfolding evo_cbor_parse_at.simps [of _ _ depth] s
    using Suc(1) [OF d] parse_item_ok [of d data "\<lambda>off. evo_cbor_parse_at alloc data (depth + 1) off"]
    unfolding d [symmetric] by simp
qed

text \<open>One level of the parser, for evaluation: the levels below stay folded until they are applied.\<close>

lemma parse_at_step:
  "off < length data \<Longrightarrow> depth \<le> 64 \<Longrightarrow>
     evo_cbor_parse_at alloc data depth off
       = evo_parse_item alloc data (evo_cbor_parse_at alloc data (depth + 1)) off"
  by (subst evo_cbor_parse_at.simps) (simp add: EVO_CBOR_MAX_DEPTH_def)

lemma indefinite_step:
  assumes "off < length data" "data ! off \<noteq> 0xFF" "fuel \<noteq> 0"
  shows "evo_array_indefinite alloc p data fuel off acc =
     and_parse (p off) (\<lambda>item off.
       if alloc ((length acc + 1) * sizeof_value)
       then evo_array_indefinite alloc p data (fuel - 1) off (acc @ [item]) else Malformed)"
    and "evo_map_indefinite alloc p data fuel off acc' =
     and_parse (p off) (\<lambda>key off. and_parse (p off) (\<lambda>item off.
       (case cbor_take_text_key key of
          None \<Rightarrow> Malformed
        | Some text \<Rightarrow>
            if alloc ((length acc' + 1) * sizeof_pair)
            then evo_map_indefinite alloc p data (fuel - 1) off (acc' @ [(text, item)])
            else Malformed)))"
proof -
  obtain k where "fuel = Suc k" using assms(3) by (cases fuel) auto
  show "evo_array_indefinite alloc p data fuel off acc =
     and_parse (p off) (\<lambda>item off.
       if alloc ((length acc + 1) * sizeof_value)
       then evo_array_indefinite alloc p data (fuel - 1) off (acc @ [item]) else Malformed)"
    unfolding evo_array_indefinite.simps [of _ _ _ fuel]
    unfolding \<open>fuel = Suc k\<close> diff_Suc_1
    using assms(1,2) by simp
  show "evo_map_indefinite alloc p data fuel off acc' =
     and_parse (p off) (\<lambda>key off. and_parse (p off) (\<lambda>item off.
       (case cbor_take_text_key key of
          None \<Rightarrow> Malformed
        | Some text \<Rightarrow>
            if alloc ((length acc' + 1) * sizeof_pair)
            then evo_map_indefinite alloc p data (fuel - 1) off (acc' @ [(text, item)])
            else Malformed)))"
    unfolding evo_map_indefinite.simps [of _ _ _ fuel]
    unfolding \<open>fuel = Suc k\<close> diff_Suc_1
    using assms(1,2) by simp
qed

lemma indefinite_stop:
  assumes "off < length data" "data ! off = 0xFF"
  shows "evo_array_indefinite alloc p data fuel off acc = Parsed (EVO_CBOR_ARRAY acc) (off + 1)"
    and "evo_map_indefinite alloc p data fuel off acc' = Parsed (EVO_CBOR_MAP acc') (off + 1)"
  using assms by (simp_all add: evo_array_indefinite.simps evo_map_indefinite.simps)

lemma and_parse_weak: "r = r' \<Longrightarrow> and_parse r k = and_parse r' k"
  by simp

lemmas parse_eval = evo_cbor_parse_def parse_at_step evo_parse_item_def Let_def cbor_len_def
  evo_parse_body_def cbor_byte_def
  indefinite_step indefinite_stop sizeof_value_def sizeof_pair_def

text \<open>
  C24: The parser ends on every input, whatever the allocator does: the fuel of its loops, one
  unit for each byte of the input, is never used up. When it succeeds it has read at least one
  byte and stops inside of the input, so that a caller that parses one item after another comes
  to an end as well.
\<close>

theorem evo_cbor_parse_terminates:
  "evo_cbor_parse alloc data off \<noteq> Running
   \<and> (\<forall>v off'. evo_cbor_parse alloc data off = Parsed v off' \<longrightarrow> off < off' \<and> off' \<le> length data)"
  using parse_at_ok [of 0 off data alloc]
  by (cases "evo_cbor_parse_at alloc data 0 off") (simp_all add: evo_cbor_parse_def)

theorem evo_cbor_parse_terminates_witness:
  "evo_cbor_parse (\<lambda>n. True) [0x9F, 1, 0x20, 0xFF, 7] 0
     = Parsed (EVO_CBOR_ARRAY [EVO_CBOR_UINT 1, EVO_CBOR_NEG (-1)]) 4
   \<and> (4 :: nat) \<le> 5"
proof
  show parse: "evo_cbor_parse (\<lambda>n. True) [0x9F, 1, 0x20, 0xFF, 7] 0
      = Parsed (EVO_CBOR_ARRAY [EVO_CBOR_UINT 1, EVO_CBOR_NEG (-1)]) 4"
    by (simp add: parse_eval cong: and_parse_weak)
  show "(4 :: nat) \<le> 5"
    using evo_cbor_parse_terminates [of "\<lambda>n. True" "[0x9F, 1, 0x20, 0xFF, 7]" 0] parse by simp
qed

text \<open>
  C32: A parsed value is a well-formed value: it contains no uninitialised part, its integers are
  those of a 32-bit head, it is nested at most 65 deep, and its structures and strings together
  are not larger than the bytes that were read for it.
\<close>

theorem evo_cbor_parse_well_formed:
  assumes "evo_cbor_parse alloc data off = Parsed v off'"
  shows "value_ok v \<and> value_height v \<le> 65 \<and> value_weight v \<le> off' - off"
  using parse_at_ok [of 0 off data alloc] assms by (auto simp: evo_cbor_parse_def)

theorem evo_cbor_parse_well_formed_witness:
  "value_ok (EVO_CBOR_MAP [([0x61], EVO_CBOR_BOOL True)])
   \<and> value_weight (EVO_CBOR_MAP [([0x61], EVO_CBOR_BOOL True)]) \<le> 4 - 0"
proof -
  have "evo_cbor_parse (\<lambda>n. True) [0xA1, 0x61, 0x61, 0xF5] 0
      = Parsed (EVO_CBOR_MAP [([0x61], EVO_CBOR_BOOL True)]) 4"
    by (simp add: parse_eval cong: and_parse_weak)
  from evo_cbor_parse_well_formed [OF this] show ?thesis by blast
qed

section \<open>The encodings of a value\<close>

text \<open>
  \<open>cbor_head m n h\<close>: \<open>h\<close> is a head of major type \<open>m\<close> for the number \<open>n\<close>, in any width that
  is large enough. \<open>encodes d v bs\<close>: \<open>bs\<close> is an encoding of \<open>v\<close>, nested at most \<open>d\<close> deep;
  containers have a counted and an indefinite form, \<open>False\<close> three encodings.
\<close>

inductive cbor_head :: "nat \<Rightarrow> nat \<Rightarrow> bytes \<Rightarrow> bool" where
  head_small: "n < 24 \<Longrightarrow> cbor_head m n [EVO_CBOR_HEAD m n]"
| head_8: "n < 2 ^ 8 \<Longrightarrow> cbor_head m n [EVO_CBOR_HEAD m 24, of_nat n]"
| head_16: "n < 2 ^ 16 \<Longrightarrow> cbor_head m n [EVO_CBOR_HEAD m 25, of_nat (n div 2 ^ 8), of_nat n]"
| head_32: "n < 2 ^ 32 \<Longrightarrow> cbor_head m n
    [EVO_CBOR_HEAD m 26, of_nat (n div 2 ^ 24), of_nat (n div 2 ^ 16), of_nat (n div 2 ^ 8), of_nat n]"

inductive encodes :: "nat \<Rightarrow> evo_value \<Rightarrow> bytes \<Rightarrow> bool" where
  enc_uint: "cbor_head 0 n h \<Longrightarrow> encodes (Suc d) (EVO_CBOR_UINT (of_nat n)) h"
| enc_neg: "cbor_head 1 n h \<Longrightarrow> encodes (Suc d) (EVO_CBOR_NEG (-1 - int n)) h"
| enc_bytes: "cbor_head 2 (length b) h \<Longrightarrow> encodes (Suc d) (EVO_CBOR_BYTES b) (h @ b)"
| enc_text: "cbor_head 3 (length b) h \<Longrightarrow> encodes (Suc d) (EVO_CBOR_TEXT b) (h @ b)"
| enc_array: "cbor_head 4 (length xs) h \<Longrightarrow> list_all2 (encodes d) xs bss \<Longrightarrow>
    encodes (Suc d) (EVO_CBOR_ARRAY xs) (h @ concat bss)"
| enc_array_indefinite: "list_all2 (encodes d) xs bss \<Longrightarrow>
    encodes (Suc d) (EVO_CBOR_ARRAY xs) (EVO_CBOR_HEAD 4 31 # concat bss @ [0xFF])"
| enc_map: "cbor_head 5 (length m) h \<Longrightarrow>
    list_all2 (encodes d) (map (\<lambda>(k, x). EVO_CBOR_TEXT k) m) kss \<Longrightarrow>
    list_all2 (encodes d) (map snd m) xss \<Longrightarrow>
    encodes (Suc d) (EVO_CBOR_MAP m) (h @ concat (map2 (@) kss xss))"
| enc_map_indefinite:
   "list_all2 (encodes d) (map (\<lambda>(k, x). EVO_CBOR_TEXT k) m) kss \<Longrightarrow>
    list_all2 (encodes d) (map snd m) xss \<Longrightarrow>
    encodes (Suc d) (EVO_CBOR_MAP m) (EVO_CBOR_HEAD 5 31 # concat (map2 (@) kss xss) @ [0xFF])"
| enc_bool: "a = (if b then 21 else 20) \<or> \<not> b \<and> (a = 22 \<or> a = 23) \<Longrightarrow>
    encodes (Suc d) (EVO_CBOR_BOOL b) [EVO_CBOR_HEAD 7 a]"

lemma head_byte_parts:
  assumes "m < 8" "a < 32"
  shows "unat (drop_bit 5 (EVO_CBOR_HEAD m a)) = m" "unat (EVO_CBOR_HEAD m a AND 0x1F) = a"
proof -
  let ?m = "of_nat m :: u8" and ?a = "of_nat a :: u8"
  have m: "take_bit 3 ?m = ?m" and a: "take_bit 5 ?a = ?a"
    using assms by (simp_all add: word_unat_eq_iff unat_of_nat unsigned_take_bit_eq take_bit_nat_eq_self)
  have "EVO_CBOR_HEAD m a = push_bit 5 ?m OR ?a"
    by (simp add: EVO_CBOR_HEAD_def push_bit_eq_mult)
  then have head: "EVO_CBOR_HEAD m a = push_bit 5 (take_bit 3 ?m) OR take_bit 5 ?a"
    unfolding m a .
  have "drop_bit 5 (EVO_CBOR_HEAD m a) = take_bit 3 ?m"
    unfolding head by (rule bit_word_eqI) (auto simp: bit_simps)
  moreover have "EVO_CBOR_HEAD m a AND mask 5 = take_bit 5 ?a"
    unfolding head by (rule bit_word_eqI) (auto simp: bit_simps)
  moreover have "(mask 5 :: u8) = 0x1F" by (simp add: mask_eq_exp_minus_1)
  ultimately show "unat (drop_bit 5 (EVO_CBOR_HEAD m a)) = m" "unat (EVO_CBOR_HEAD m a AND 0x1F) = a"
    unfolding m a using assms by (simp_all add: unat_of_nat take_bit_nat_eq_self)
qed

lemma unat_byte_of_nat: "unat (of_nat n :: u8) = n mod 2 ^ 8"
  by (simp add: unat_of_nat take_bit_eq_mod)

lemma four_digits:
  "n div 16777216 * 16777216 + n div 65536 mod 256 * 65536 + n div 256 mod 256 * 256 + n mod 256
    = (n :: nat)"
proof -
  have join: "c * 16777216 + r2 * 65536 + r1 * 256 + r0 = n"
    if "c * 256 + r2 = b" "b * 256 + r1 = a" "a * 256 + r0 = n" for a b c r0 r1 r2 :: nat
    using that by auto
  have "n div 65536 = n div 256 div 256" "n div 16777216 = n div 256 div 256 div 256"
    by (simp_all flip: div_mult2_eq)
  then show ?thesis by (simp only:) (rule join; rule div_mult_mod_eq)
qed

lemma cbor_head_parts:
  assumes "cbor_head m n h" "m < 8"
  obtains a r where "h = EVO_CBOR_HEAD m a # r" "a < 31" "n < 2 ^ 32"
    "\<And>pre post. cbor_len (pre @ h @ post) (length pre + 1) a = Parsed n (length pre + length h)"
  using assms(1)
proof (cases rule: cbor_head.cases)
  case head_small
  then show ?thesis by (intro that [of n "[]"]) (simp_all add: cbor_len_def)
next
  case head_8
  then show ?thesis
    by (intro that [of 24 "[of_nat n]"])
       (simp_all add: cbor_len_def cbor_byte_def nth_append unat_byte_of_nat)
next
  case head_16
  have "n div 256 mod 256 * 256 + n mod 256 = n" using head_16 by simp
  then show ?thesis using head_16
    by (intro that [of 25 "[of_nat (n div 2 ^ 8), of_nat n]"])
       (simp_all add: cbor_len_def cbor_byte_def nth_append unat_byte_of_nat)
next
  case head_32
  show ?thesis using head_32 four_digits [of n]
    by (intro that [of 26 "[of_nat (n div 2 ^ 24), of_nat (n div 2 ^ 16), of_nat (n div 2 ^ 8), of_nat n]"])
       (simp_all add: cbor_len_def cbor_byte_def nth_append unat_byte_of_nat)
qed

definition reads :: "(nat \<Rightarrow> evo_value parsed) \<Rightarrow> bytes \<Rightarrow> evo_value \<Rightarrow> bytes \<Rightarrow> bool" where
  "reads p data x bs \<longleftrightarrow>
     (\<forall>pre post. data = pre @ bs @ post \<longrightarrow> p (length pre) = Parsed x (length pre + length bs))"

lemma readsD: "reads p data x bs \<Longrightarrow> data = pre @ bs @ post \<Longrightarrow>
    p (length pre) = Parsed x (length pre + length bs)"
  by (simp add: reads_def)

lemma array_counted_reads:
  assumes "list_all2 (reads p data) xs bss" "data = pre @ concat bss @ post"
  shows "evo_array_counted p (length xs) (length pre) acc
    = Parsed (EVO_CBOR_ARRAY (acc @ xs)) (length pre + length (concat bss))"
  using assms
proof (induction xs bss arbitrary: pre acc rule: list_all2_induct)
  case (Cons x xs bs bss)
  then show ?case
    using readsD [OF Cons(1), of pre "concat bss @ post"] Cons.IH [of "pre @ bs" "acc @ [x]"]
    by simp
qed simp

lemma map_counted_reads:
  assumes "list_all2 (reads p data) (map (\<lambda>(k, x). EVO_CBOR_TEXT k) m) kss"
    and "list_all2 (reads p data) (map snd m) xss"
    and "data = pre @ concat (map2 (@) kss xss) @ post"
  shows "evo_map_counted p (length m) (length pre) acc
    = Parsed (EVO_CBOR_MAP (acc @ m)) (length pre + length (concat (map2 (@) kss xss)))"
  using assms
proof (induction m arbitrary: pre acc kss xss)
  case (Cons f m)
  obtain k x where f: "f = (k, x)" by (cases f)
  obtain kb kss' xb xss' where [simp]: "kss = kb # kss'" "xss = xb # xss'"
    using Cons.prems(1,2) by (auto simp: list_all2_Cons1)
  let ?rest = "concat (map2 (@) kss' xss') @ post"
  have data: "data = pre @ kb @ xb @ ?rest" using Cons.prems(3) by simp
  have "reads p data (EVO_CBOR_TEXT k) kb" "reads p data x xb"
    using Cons.prems(1,2) by (simp_all add: f)
  then have "p (length pre) = Parsed (EVO_CBOR_TEXT k) (length pre + length kb)"
    "p (length pre + length kb) = Parsed x (length pre + length kb + length xb)"
    using readsD [of p data _ kb pre "xb @ ?rest"] readsD [of p data _ xb "pre @ kb" ?rest] data
    by simp_all
  then show ?case
    using Cons.IH [of kss' xss' "pre @ kb @ xb" "acc @ [(k, x)]"] Cons.prems data
    by (simp add: f add.assoc)
qed simp

definition no_break :: "bytes \<Rightarrow> bool" where
  "no_break bs \<longleftrightarrow> bs \<noteq> [] \<and> hd bs \<noteq> 0xFF"

lemma no_break_at:
  "no_break bs \<Longrightarrow> length pre < length (pre @ bs @ post) \<and> (pre @ bs @ post) ! length pre \<noteq> 0xFF"
  by (cases bs) (auto simp: no_break_def)

lemma array_indefinite_reads:
  assumes "list_all2 (\<lambda>x bs. reads p data x bs \<and> no_break bs) xs bss"
    and "data = pre @ concat bss @ 0xFF # post" "length xs \<le> fuel"
  shows "evo_array_indefinite (\<lambda>n. True) p data fuel (length pre) acc
    = Parsed (EVO_CBOR_ARRAY (acc @ xs)) (length pre + length (concat bss) + 1)"
  using assms
proof (induction xs bss arbitrary: pre acc fuel rule: list_all2_induct)
  case Nil
  then show ?case by (simp add: indefinite_stop)
next
  case (Cons x xs bs bss)
  have data: "data = pre @ bs @ concat bss @ 0xFF # post" using Cons.prems by simp
  have "length pre < length data" "data ! length pre \<noteq> 0xFF"
    using no_break_at [of bs pre "concat bss @ 0xFF # post"] Cons(1) data by simp_all
  moreover have "p (length pre) = Parsed x (length pre + length bs)"
    using readsD [OF conjunct1 [OF Cons(1)] data] .
  ultimately show ?case
    using Cons.IH [of "pre @ bs" "fuel - 1" "acc @ [x]"] Cons.prems data
    by (simp add: indefinite_step add.assoc)
qed

lemma map_indefinite_reads:
  assumes "list_all2 (\<lambda>x bs. reads p data x bs \<and> no_break bs) (map (\<lambda>(k, x). EVO_CBOR_TEXT k) m) kss"
    and "list_all2 (\<lambda>x bs. reads p data x bs \<and> no_break bs) (map snd m) xss"
    and "data = pre @ concat (map2 (@) kss xss) @ 0xFF # post" "length m \<le> fuel"
  shows "evo_map_indefinite (\<lambda>n. True) p data fuel (length pre) acc
    = Parsed (EVO_CBOR_MAP (acc @ m)) (length pre + length (concat (map2 (@) kss xss)) + 1)"
  using assms
proof (induction m arbitrary: pre acc kss xss fuel)
  case Nil
  then show ?case by (simp add: indefinite_stop)
next
  case (Cons f m)
  obtain k x where f: "f = (k, x)" by (cases f)
  obtain kb kss' xb xss' where [simp]: "kss = kb # kss'" "xss = xb # xss'"
    using Cons.prems(1,2) by (auto simp: list_all2_Cons1)
  let ?rest = "concat (map2 (@) kss' xss') @ 0xFF # post"
  have data: "data = pre @ kb @ xb @ ?rest" using Cons.prems(3) by simp
  have "reads p data (EVO_CBOR_TEXT k) kb" "reads p data x xb" "no_break kb"
    using Cons.prems(1,2) by (simp_all add: f)
  then have "p (length pre) = Parsed (EVO_CBOR_TEXT k) (length pre + length kb)"
    "p (length pre + length kb) = Parsed x (length pre + length kb + length xb)"
    "length pre < length data" "data ! length pre \<noteq> 0xFF"
    using readsD [of p data _ kb pre "xb @ ?rest"] readsD [of p data _ xb "pre @ kb" ?rest] data
      no_break_at [of kb pre "xb @ ?rest"]
    by simp_all
  then show ?case
    using Cons.IH [of kss' xss' "pre @ kb @ xb" "fuel - 1" "acc @ [(k, x)]"] Cons.prems data
    by (simp add: f indefinite_step add.assoc)
qed

lemma item_with_head:
  assumes "data = pre @ h @ post" "cbor_head m n h" "m < 7"
  shows "evo_parse_item alloc data p (length pre) = evo_parse_body alloc data p m n (length pre + length h)"
proof -
  have "m < 8" using assms(3) by simp
  with assms(2) obtain a r where h: "h = EVO_CBOR_HEAD m a # r" "a < 31"
    and len: "\<And>pre post. cbor_len (pre @ h @ post) (length pre + 1) a = Parsed n (length pre + length h)"
    by (rule cbor_head_parts [of m n h]) blast
  have "data ! length pre = EVO_CBOR_HEAD m a" using assms(1) h(1) by simp
  then show ?thesis
    using head_byte_parts [of m a] len [of pre post] assms(1,3) h(2)
    by (simp add: evo_parse_item_def)
qed

lemma item_indefinite:
  assumes "data = pre @ EVO_CBOR_HEAD m 31 # rest"
  shows "m = 4 \<Longrightarrow> evo_parse_item alloc data p (length pre)
      = evo_array_indefinite alloc p data (length data) (length pre + 1) []"
    and "m = 5 \<Longrightarrow> evo_parse_item alloc data p (length pre)
      = evo_map_indefinite alloc p data (length data) (length pre + 1) []"
  using assms head_byte_parts [of m 31] by (simp_all add: evo_parse_item_def Let_def)

lemma head_no_break:
  assumes "m < 8" "a < 32" "m \<noteq> 7 \<or> a \<noteq> 31"
  shows "no_break (EVO_CBOR_HEAD m a # r)"
proof -
  have "EVO_CBOR_HEAD m a \<noteq> 0xFF"
    using head_byte_parts [OF assms(1,2)] assms(3) by auto
  then show ?thesis by (simp add: no_break_def)
qed

lemma cbor_head_no_break:
  assumes "cbor_head m n h" "m < 8"
  shows "no_break (h @ r)"
proof -
  from assms obtain a s where "h = EVO_CBOR_HEAD m a # s" "a < 31"
    by (rule cbor_head_parts [of m n h]) simp_all
  then show ?thesis using head_no_break [of m a] assms(2) by simp
qed

lemma encodes_no_break: "encodes d v bs \<Longrightarrow> no_break bs"
  by (cases rule: encodes.cases)
     (auto intro: cbor_head_no_break [where r = "[]", simplified] cbor_head_no_break
        simp: head_no_break)

lemma concat_length_ge:
  "list_all2 (\<lambda>x bs. P x bs \<and> no_break bs) xs bss \<Longrightarrow> length xs \<le> length (concat bss)"
  by (induction xs bss rule: list_all2_induct) (auto simp: no_break_def neq_Nil_conv)

lemma concat_pairs_length_ge:
  "list_all2 (\<lambda>x bs. P x bs \<and> no_break bs) xs kss \<Longrightarrow> list_all2 (\<lambda>x bs. Q x bs \<and> no_break bs) ys xss
    \<Longrightarrow> length xs = length ys \<Longrightarrow> 2 * length xs \<le> length (concat (map2 (@) kss xss))"
proof (induction xs kss arbitrary: ys xss rule: list_all2_induct)
  case (Cons x xs k kss)
  then obtain y ys' z xss' where [simp]: "ys = y # ys'" "xss = z # xss'"
    by (cases ys; cases xss) auto
  have "k \<noteq> []" "z \<noteq> []" using Cons(1) Cons.prems(1) by (auto simp: no_break_def)
  then have "1 \<le> length k" "1 \<le> length z" by (simp_all add: Suc_le_eq)
  then show ?case using Cons.IH [of ys' xss'] Cons.prems by simp
qed simp

lemma readsI:
  assumes "no_break bs" "depth \<le> 64"
    and "\<And>pre post. data = pre @ bs @ post \<Longrightarrow>
      evo_parse_item alloc data (evo_cbor_parse_at alloc data (Suc depth)) (length pre)
        = Parsed v (length pre + length bs)"
  shows "reads (evo_cbor_parse_at alloc data depth) data v bs"
  using assms no_break_at [OF assms(1)] by (simp add: reads_def parse_at_step)

lemma list_all2_readable:
  assumes "list_all2 (\<lambda>x bs. encodes d x bs \<and> (\<forall>depth data. depth + d \<le> 65 \<longrightarrow>
      reads (evo_cbor_parse_at (\<lambda>n. True) data depth) data x bs)) xs bss"
    and "Suc depth + d \<le> 65"
  shows "list_all2 (\<lambda>x bs. reads (evo_cbor_parse_at (\<lambda>n. True) data (Suc depth)) data x bs \<and> no_break bs)
      xs bss"
  using assms encodes_no_break by (force elim: list_all2_mono)

lemma list_all2_conj1: "list_all2 (\<lambda>x y. P x y \<and> Q x y) xs ys \<Longrightarrow> list_all2 P xs ys"
  by (auto elim: list_all2_mono)

lemma encodes_reads:
  "encodes d v bs \<Longrightarrow> depth + d \<le> 65 \<Longrightarrow>
     reads (evo_cbor_parse_at (\<lambda>n. True) data depth) data v bs"
proof (induction arbitrary: depth data rule: encodes.induct)
  case (enc_uint n h d)
  show ?case
    by (rule readsI) (use enc_uint cbor_head_no_break [of 0 n h "[]"] in
      \<open>simp_all add: item_with_head [OF _ enc_uint(1)] evo_parse_body_def\<close>)
next
  case (enc_neg n h d)
  show ?case
    by (rule readsI) (use enc_neg cbor_head_no_break [of 1 n h "[]"] in
      \<open>simp_all add: item_with_head [OF _ enc_neg(1)] evo_parse_body_def\<close>)
next
  case (enc_bytes b h d)
  show ?case
    by (rule readsI) (use enc_bytes cbor_head_no_break [OF enc_bytes(1)] in
      \<open>simp_all add: item_with_head [OF _ enc_bytes(1)] evo_parse_body_def\<close>)
next
  case (enc_text b h d)
  show ?case
    by (rule readsI) (use enc_text cbor_head_no_break [OF enc_text(1)] in
      \<open>simp_all add: item_with_head [OF _ enc_text(1)] evo_parse_body_def\<close>)
next
  case (enc_bool a b d)
  then have a: "a < 24" by auto
  show ?case
    by (rule readsI) (use enc_bool a head_byte_parts [of 7 a] in
      \<open>auto simp: evo_parse_item_def Let_def head_no_break split: if_splits\<close>)
next
  case (enc_array xs h d bss)
  let ?p = "\<lambda>data. evo_cbor_parse_at (\<lambda>n. True) data (Suc depth)"
  have xs: "list_all2 (\<lambda>x bs. reads (?p data) data x bs \<and> no_break bs) xs bss"
    by (rule list_all2_readable) (use enc_array in auto)
  have n: "length xs < 2 ^ 32" using enc_array(1) by (auto elim: cbor_head_parts)
  show ?case
  proof (rule readsI)
    fix pre post assume data: "data = pre @ (h @ concat bss) @ post"
    then have "data = (pre @ h) @ concat bss @ post" by simp
    from array_counted_reads [OF list_all2_conj1 [OF xs] this]
    show "evo_parse_item (\<lambda>n. True) data (?p data) (length pre)
        = Parsed (EVO_CBOR_ARRAY xs) (length pre + length (h @ concat bss))"
      using concat_length_ge [OF xs] data n
      by (simp add: item_with_head [OF _ enc_array(1)] evo_parse_body_def sizeof_value_def add.assoc)
  qed (use enc_array cbor_head_no_break [OF enc_array(1)] in auto)
next
  case (enc_array_indefinite d xs bss)
  let ?p = "\<lambda>data. evo_cbor_parse_at (\<lambda>n. True) data (Suc depth)"
  have xs: "list_all2 (\<lambda>x bs. reads (?p data) data x bs \<and> no_break bs) xs bss"
    by (rule list_all2_readable) (use enc_array_indefinite in auto)
  show ?case
  proof (rule readsI)
    fix pre post assume data: "data = pre @ (EVO_CBOR_HEAD 4 31 # concat bss @ [0xFF]) @ post"
    then have "data = (pre @ [EVO_CBOR_HEAD 4 31]) @ concat bss @ 0xFF # post" by simp
    from array_indefinite_reads [OF xs this]
    show "evo_parse_item (\<lambda>n. True) data (?p data) (length pre)
        = Parsed (EVO_CBOR_ARRAY xs) (length pre + length (EVO_CBOR_HEAD 4 31 # concat bss @ [0xFF]))"
      using concat_length_ge [OF xs] data
      by (simp add: item_indefinite(1))
  qed (use enc_array_indefinite in \<open>auto simp: head_no_break\<close>)
next
  case (enc_map m h d kss xss)
  let ?p = "\<lambda>data. evo_cbor_parse_at (\<lambda>n. True) data (Suc depth)"
  have ks: "list_all2 (\<lambda>x bs. reads (?p data) data x bs \<and> no_break bs)
      (map (\<lambda>(k, x). EVO_CBOR_TEXT k) m) kss"
    and xs: "list_all2 (\<lambda>x bs. reads (?p data) data x bs \<and> no_break bs) (map snd m) xss"
    by (rule list_all2_readable; use enc_map in auto)+
  have n: "length m < 2 ^ 32" using enc_map(1) by (auto elim: cbor_head_parts)
  show ?case
  proof (rule readsI)
    fix pre post assume data: "data = pre @ (h @ concat (map2 (@) kss xss)) @ post"
    then have "data = (pre @ h) @ concat (map2 (@) kss xss) @ post" by simp
    from map_counted_reads [OF list_all2_conj1 [OF ks] list_all2_conj1 [OF xs] this]
    show "evo_parse_item (\<lambda>n. True) data (?p data) (length pre)
        = Parsed (EVO_CBOR_MAP m) (length pre + length (h @ concat (map2 (@) kss xss)))"
      using concat_pairs_length_ge [OF ks xs] data n
      by (simp add: item_with_head [OF _ enc_map(1)] evo_parse_body_def sizeof_pair_def add.assoc)
  qed (use enc_map cbor_head_no_break [OF enc_map(1)] in auto)
next
  case (enc_map_indefinite d m kss xss)
  let ?p = "\<lambda>data. evo_cbor_parse_at (\<lambda>n. True) data (Suc depth)"
  have ks: "list_all2 (\<lambda>x bs. reads (?p data) data x bs \<and> no_break bs)
      (map (\<lambda>(k, x). EVO_CBOR_TEXT k) m) kss"
    and xs: "list_all2 (\<lambda>x bs. reads (?p data) data x bs \<and> no_break bs) (map snd m) xss"
    by (rule list_all2_readable; use enc_map_indefinite in auto)+
  show ?case
  proof (rule readsI)
    fix pre post
    assume data: "data = pre @ (EVO_CBOR_HEAD 5 31 # concat (map2 (@) kss xss) @ [0xFF]) @ post"
    then have "data = (pre @ [EVO_CBOR_HEAD 5 31]) @ concat (map2 (@) kss xss) @ 0xFF # post" by simp
    from map_indefinite_reads [OF ks xs this]
    show "evo_parse_item (\<lambda>n. True) data (?p data) (length pre)
        = Parsed (EVO_CBOR_MAP m)
            (length pre + length (EVO_CBOR_HEAD 5 31 # concat (map2 (@) kss xss) @ [0xFF]))"
      using concat_pairs_length_ge [OF ks xs] data
      by (simp add: item_indefinite(2))
  qed (use enc_map_indefinite in \<open>auto simp: head_no_break\<close>)
qed

text \<open>
  C31: The parser reads every encoding of a value in the forms that it supports back, wherever it
  stands in the input: heads of up to 32 bits, strings of known length, counted and indefinite containers, nested up to the
  depth limit of 65. It stops exactly behind the encoding.
\<close>

theorem evo_cbor_reads_encodings:
  assumes "encodes 65 v bs"
  shows "evo_cbor_parse (\<lambda>n. True) (pre @ bs @ post) (length pre) = Parsed v (length pre + length bs)"
  using encodes_reads [OF assms, where depth = 0 and data = "pre @ bs @ post"] by (simp add: reads_def evo_cbor_parse_def)

theorem evo_cbor_reads_encodings_witness:
  "evo_cbor_parse (\<lambda>n. True)
      ([7] @ (EVO_CBOR_HEAD 4 31 # concat [[EVO_CBOR_HEAD 0 3], [EVO_CBOR_HEAD 7 22]] @ [0xFF]) @ [9]) 1
     = Parsed (EVO_CBOR_ARRAY [EVO_CBOR_UINT 3, EVO_CBOR_BOOL False]) 5"
proof -
  have "encodes 64 (EVO_CBOR_UINT (of_nat 3)) [EVO_CBOR_HEAD 0 3]"
    "encodes 64 (EVO_CBOR_BOOL False) [EVO_CBOR_HEAD 7 22]"
    using enc_uint [OF head_small, of 3, where d = 63] enc_bool [of 22 False, where d = 63]
    by simp_all
  then have "encodes (Suc 64) (EVO_CBOR_ARRAY [EVO_CBOR_UINT 3, EVO_CBOR_BOOL False])
      (EVO_CBOR_HEAD 4 31 # concat [[EVO_CBOR_HEAD 0 3], [EVO_CBOR_HEAD 7 22]] @ [0xFF])"
    by (intro enc_array_indefinite) simp
  then have "encodes 65 (EVO_CBOR_ARRAY [EVO_CBOR_UINT 3, EVO_CBOR_BOOL False])
      (EVO_CBOR_HEAD 4 31 # concat [[EVO_CBOR_HEAD 0 3], [EVO_CBOR_HEAD 7 22]] @ [0xFF])"
    by simp
  from evo_cbor_reads_encodings [OF this, of "[7]" "[9]"] show ?thesis by simp
qed

section \<open>The buffer as a list of bytes\<close>

definition evo_bytes :: "evo_buffer \<Rightarrow> bytes" where
  "evo_bytes b = take (unat (evo_size b)) (evo_data b)"

text \<open>The invariant: the capacity is a power of two from 64 on, or there is no block yet.\<close>

definition evo_ok :: "evo_buffer \<Rightarrow> bool" where
  "evo_ok b \<longleftrightarrow> unat (evo_size b) \<le> length (evo_data b)
     \<and> length (evo_data b) = unat (evo_capacity b)
     \<and> (evo_capacity b = 0 \<or> (\<exists>k. 6 \<le> k \<and> k \<le> 63 \<and> evo_capacity b = 2 ^ k))"

lemma evo_grow_unfold:
  "evo_grow c needed = (if c < needed then evo_grow (c * 2) needed else Some c)"
  by (simp add: evo_grow_def while_option_unfold [of _ _ c])

lemma evo_grow_reaches:
  assumes "k \<le> 63" "needed \<le> 2 ^ 63"
  shows "\<exists>j. k \<le> j \<and> j \<le> 63 \<and> evo_grow (2 ^ k) needed = Some (2 ^ j) \<and> needed \<le> 2 ^ j"
  using assms(1)
proof (induction "63 - k" arbitrary: k)
  case 0
  then have "k = 63" by simp
  then show ?case
    using assms(2) by (subst evo_grow_unfold) (auto simp: not_less)
next
  case (Suc n)
  show ?case
  proof (cases "2 ^ k < needed")
    case True
    then have "evo_grow (2 ^ k) needed = evo_grow (2 ^ Suc k) needed"
      by (subst evo_grow_unfold) (simp add: mult.commute)
    moreover have "n = 63 - Suc k" "Suc k \<le> 63" using Suc.hyps(2) by simp_all
    ultimately obtain j where "Suc k \<le> j" "j \<le> 63" "needed \<le> 2 ^ j"
      "evo_grow (2 ^ k) needed = Some (2 ^ j)" using Suc.hyps(1) [of "Suc k"] by auto
    then show ?thesis using Suc_leD by blast
  next
    case False
    then show ?thesis using Suc.prems by (subst evo_grow_unfold) (auto simp: not_less)
  qed
qed

lemma unat_power_of_two: "m < 64 \<Longrightarrow> unat ((2 :: 64 word) ^ m) = 2 ^ m"
proof -
  assume m: "m < 64"
  have "(2 :: 64 word) ^ m = of_nat (2 ^ m)" by simp
  moreover have "(2 :: nat) ^ m < 2 ^ 64" using m by (rule power_strict_increasing) simp
  ultimately show ?thesis by (simp add: unat_of_nat take_bit_nat_eq_self del: of_nat_power)
qed

lemma power_of_two_le: "(2 :: 64 word) ^ m \<le> 2 ^ 63"
proof (cases "m < 64")
  case True
  then have "unat ((2 :: 64 word) ^ m) \<le> unat ((2 :: 64 word) ^ 63)"
    using unat_power_of_two [of m] unat_power_of_two [of 63] power_increasing [of m 63 "2 :: nat"]
    by simp
  then show ?thesis by (simp add: word_le_nat_alt)
next
  case False
  then have "(2 :: 64 word) ^ m = 0" by (simp add: exp_eq_zero_iff)
  then show ?thesis by (simp only: word_coorder.extremum)
qed

lemma evo_grow_diverges:
  assumes "2 ^ 63 < needed"
  shows "evo_grow (2 ^ k) needed = None"
proof (rule ccontr)
  assume "evo_grow (2 ^ k) needed \<noteq> None"
  then obtain t where "evo_grow (2 ^ k) needed = Some t" by auto
  then obtain n where "t = ((\<lambda>c. c * 2) ^^ n) (2 ^ k)" and t: "\<not> t < needed"
    unfolding evo_grow_def using while_option_stop2 by metis
  moreover have "((\<lambda>c. c * 2) ^^ n) (2 ^ k) = (2 :: 64 word) ^ (k + n)"
    by (induction n) (simp_all add: mult.commute)
  ultimately have "t \<le> 2 ^ 63" using power_of_two_le by simp
  then show False using t assms by simp
qed

lemma evo_capacity_power:
  assumes "evo_ok b"
  shows "\<exists>k. k \<le> 63 \<and> (if evo_capacity b \<noteq> 0 then evo_capacity b else 64) = 2 ^ k \<and> 6 \<le> k"
  using assms exI [of "\<lambda>k. k \<le> 63 \<and> (64 :: 64 word) = 2 ^ k \<and> 6 \<le> k" 6]
  by (auto simp: evo_ok_def)

lemma reserve_gives:
  assumes "evo_ok b" "needed \<le> 2 ^ 63"
  obtains b' where "evo_buffer_reserve (\<lambda>n. True) junk b needed = Some (None, b')" "evo_ok b'"
    "evo_size b' = evo_size b" "evo_bytes b' = evo_bytes b" "unat needed \<le> length (evo_data b')"
proof (cases "needed \<le> evo_capacity b")
  case True
  then show ?thesis
    using assms by (intro that [of b]) (auto simp: evo_buffer_reserve_def evo_ok_def word_le_nat_alt)
next
  case False
  obtain k where k: "k \<le> 63" "(if evo_capacity b \<noteq> 0 then evo_capacity b else 64) = 2 ^ k" "6 \<le> k"
    using evo_capacity_power [OF assms(1)] by auto
  obtain j where j: "k \<le> j" "j \<le> 63" "evo_grow (2 ^ k) needed = Some (2 ^ j)" "needed \<le> 2 ^ j"
    using evo_grow_reaches [OF k(1) assms(2)] by auto
  let ?b = "b\<lparr>evo_data := local_array (unat ((2 :: 64 word) ^ j)) (evo_data b @ junk),
      evo_capacity := 2 ^ j\<rparr>"
  have "evo_capacity b < 2 ^ j" using False j(4) by simp
  then have larger: "length (evo_data b) < unat ((2 :: 64 word) ^ j)"
    using assms(1) by (simp add: evo_ok_def word_less_nat_alt)
  show ?thesis
  proof (rule that)
    show "evo_buffer_reserve (\<lambda>n. True) junk b needed = Some (None, ?b)"
      using False by (simp add: evo_buffer_reserve_def k(2) j(3))
    have "\<exists>k. 6 \<le> k \<and> k \<le> 63 \<and> (2 :: 64 word) ^ j = 2 ^ k"
      using j k(3) by (intro exI [of _ j]) simp
    then show "evo_ok ?b" using assms(1) larger by (simp add: evo_ok_def)
    show "evo_bytes ?b = evo_bytes b"
      using assms(1) larger by (simp add: evo_bytes_def evo_ok_def local_array_def min_def)
  qed (use j(4) in \<open>simp_all add: word_le_nat_alt\<close>)
qed

text \<open>
  Reserving space returns exactly when the space needed is at most \<open>2^63\<close> bytes or already
  there. Above, the doubled capacity overflows to zero and the loop never ends.
\<close>

theorem evo_buffer_reserve_returns:
  assumes "evo_ok b"
  shows "evo_buffer_reserve (\<lambda>n. True) junk b needed \<noteq> None
    \<longleftrightarrow> needed \<le> evo_capacity b \<or> needed \<le> 2 ^ 63"
proof (cases "needed \<le> 2 ^ 63")
  case True
  obtain b' where "evo_buffer_reserve (\<lambda>n. True) junk b needed = Some (None, b')"
    using reserve_gives [OF assms True, of junk] by metis
  then show ?thesis using True by simp
next
  case False
  obtain k where "(if evo_capacity b \<noteq> 0 then evo_capacity b else 64) = 2 ^ k"
    using evo_capacity_power [OF assms] by auto
  then show ?thesis
    using False evo_grow_diverges [of needed k] by (simp add: evo_buffer_reserve_def)
qed

theorem evo_buffer_reserve_returns_witness:
  "evo_buffer_reserve (\<lambda>n. True) [] evo_buffer_init (2 ^ 63 + 1) = None
   \<and> evo_buffer_reserve (\<lambda>n. True) [] evo_buffer_init 100 \<noteq> None"
proof -
  have "evo_ok evo_buffer_init" by (simp add: evo_ok_def evo_buffer_init_def)
  then show ?thesis
    using evo_buffer_reserve_returns [of evo_buffer_init "[]" "2 ^ 63 + 1"]
      evo_buffer_reserve_returns [of evo_buffer_init "[]" 100]
    by (simp add: evo_buffer_init_def del: not_None_eq)
qed

lemma append_gives:
  assumes "evo_ok b" "unat (evo_size b) + length d \<le> 2 ^ 63"
  obtains b' where "evo_buffer_append (\<lambda>n. True) junk b d = Some (None, b')" "evo_ok b'"
    "evo_bytes b' = evo_bytes b @ d" "unat (evo_size b') = unat (evo_size b) + length d"
proof (cases "d = []")
  case True
  then show ?thesis using assms by (intro that [of b]) (simp_all add: evo_buffer_append_def)
next
  case False
  let ?n = "of_nat (length d) :: 64 word"
  have n: "unat ?n = length d" using assms(2) by (simp add: unat_of_nat take_bit_nat_eq_self)
  then have n0: "?n \<noteq> 0" using False by auto
  have sum: "unat (evo_size b + ?n) = unat (evo_size b) + length d"
    using assms(2) n by (simp add: unat_word_ariths)
  then have "evo_size b + ?n \<le> 2 ^ 63" using assms(2) by (simp add: word_le_nat_alt)
  then obtain b' where
    r: "evo_buffer_reserve (\<lambda>n. True) junk b (evo_size b + ?n) = Some (None, b')" "evo_ok b'"
      "evo_size b' = evo_size b" "evo_bytes b' = evo_bytes b"
      "unat (evo_size b + ?n) \<le> length (evo_data b')"
    by (rule reserve_gives [OF assms(1)])
  let ?d = "take (unat (evo_size b)) (evo_data b') @ d
      @ drop (unat (evo_size b) + length d) (evo_data b')"
  have copy: "memcpy (evo_data b') (unat (evo_size b)) d 0 (length d) = Some ?d"
    using r(5) sum by (simp add: memcpy_eq)
  let ?b = "b'\<lparr>evo_data := ?d, evo_size := evo_size b + ?n\<rparr>"
  show ?thesis
  proof (rule that)
    show "evo_buffer_append (\<lambda>n. True) junk b d = Some (None, ?b)"
      using r(1,3) n0 copy by (simp add: evo_buffer_append_def Let_def)
    show "evo_ok ?b" using r(2,5) sum by (auto simp: evo_ok_def)
    have "unat (evo_size b) \<le> length (evo_data b)" using assms(1) by (simp add: evo_ok_def)
    then show "evo_bytes ?b = evo_bytes b @ d"
      using r(3,4,5) sum by (simp add: evo_bytes_def)
  qed (simp add: sum)
qed

lemma append_byte_gives:
  assumes "evo_ok b" "unat (evo_size b) + 1 \<le> 2 ^ 63"
  obtains b' where "evo_buffer_append_byte (\<lambda>n. True) junk b x = Some (None, b')" "evo_ok b'"
    "evo_bytes b' = evo_bytes b @ [x]" "unat (evo_size b') = unat (evo_size b) + 1"
  using append_gives [OF assms(1), of "[x]" junk] assms(2)
  unfolding evo_buffer_append_byte_def by (metis One_nat_def length_Cons list.size(3))

section \<open>The writer and the parser\<close>

text \<open>The bytes that the writer appends.\<close>

definition uint_bytes :: "u32 \<Rightarrow> bytes" where
  "uint_bytes n =
     (if n < 24 then [ucast n] else if n < 256 then [EVO_CBOR_HEAD 0 24, ucast n]
      else [EVO_CBOR_HEAD 0 26, ucast (drop_bit 24 n), ucast (drop_bit 16 n), ucast (drop_bit 8 n), ucast n])"

lemma ucast_of_nat_unat: "(ucast (w :: 'a::len word) :: u8) = of_nat (unat w)"
  by simp

lemma ucast_drop_of_nat: "(ucast (drop_bit k (w :: 'a::len word)) :: u8) = of_nat (unat w div 2 ^ k)"
  by (simp add: word_unat_eq_iff unsigned_ucast_eq unat_of_nat unat_drop_bit_eq)
     (simp add: drop_bit_eq_div take_bit_eq_mod)

lemma uint_bytes_head: "cbor_head 0 (unat n) (uint_bytes n)"
proof -
  have "unat n < 2 ^ 32" using unsigned_less [of n] by simp
  moreover have "EVO_CBOR_HEAD 0 k = of_nat k" for k by (simp add: EVO_CBOR_HEAD_def)
  ultimately show ?thesis
    using head_small [of "unat n" 0] head_8 [of "unat n" 0] head_32 [of "unat n" 0]
    by (auto simp: uint_bytes_def word_less_nat_alt ucast_drop_of_nat)
qed

lemma bytes_head:
  assumes "len < 2 ^ 32"
  shows "cbor_head 2 len
    (if len < 24 then [EVO_CBOR_HEAD 2 len]
     else if len < 256 then [EVO_CBOR_HEAD 2 24, ucast (of_nat len :: 64 word)]
     else [EVO_CBOR_HEAD 2 26, ucast (drop_bit 24 (of_nat len :: 64 word)),
       ucast (drop_bit 16 (of_nat len :: 64 word)), ucast (drop_bit 8 (of_nat len :: 64 word)),
       ucast (of_nat len :: 64 word)])"
proof -
  have "unat (of_nat len :: 64 word) = len"
    using assms by (simp add: unat_of_nat take_bit_nat_eq_self)
  then show ?thesis
    unfolding ucast_drop_of_nat unfolding ucast_of_nat_unat
    using assms head_small [of len 2] head_8 [of len 2] head_32 [of len 2] by simp
qed

text \<open>
  What an append function achieves: it succeeds, and the bytes it appended are an encoding of
  the value.
\<close>

definition appended :: "evo_buffer \<Rightarrow> evo_value \<Rightarrow> (ret \<times> evo_buffer) option \<Rightarrow> bool" where
  "appended b v r \<longleftrightarrow> (\<exists>b'. r = Some (None, b') \<and> evo_ok b'
     \<and> (\<exists>bs. encodes 1 v bs \<and> evo_bytes b' = evo_bytes b @ bs))"

lemma appended_uint:
  assumes "evo_ok b" "unat (evo_size b) + 5 \<le> 2 ^ 63"
  shows "appended b (EVO_CBOR_UINT (ucast n)) (evo_cbor_uint_append (\<lambda>n. True) junk b n)"
proof -
  have "length (uint_bytes n) \<le> 5" by (simp add: uint_bytes_def)
  then have "unat (evo_size b) + length (uint_bytes n) \<le> 2 ^ 63" using assms(2) by simp
  then obtain b' where
    "evo_buffer_append (\<lambda>n. True) junk b (uint_bytes n) = Some (None, b')" "evo_ok b'"
    "evo_bytes b' = evo_bytes b @ uint_bytes n" by (rule append_gives [OF assms(1)])
  moreover have "evo_cbor_uint_append (\<lambda>n. True) junk b n
      = evo_buffer_append (\<lambda>n. True) junk b (uint_bytes n)"
    by (simp add: evo_cbor_uint_append_def uint_bytes_def evo_buffer_append_byte_def)
  moreover have "encodes (Suc 0) (EVO_CBOR_UINT (of_nat (unat n))) (uint_bytes n)"
    by (rule enc_uint) (rule uint_bytes_head)
  ultimately show ?thesis by (auto simp: appended_def)
qed

lemma append_two_gives:
  assumes "evo_ok b" "unat (evo_size b) + length h + length d \<le> 2 ^ 63"
  obtains b' where "Option.bind (evo_buffer_append (\<lambda>n. True) junk b h)
      (\<lambda>(r, b). if r \<noteq> None then Some (r, b) else evo_buffer_append (\<lambda>n. True) junk b d)
        = Some (None, b')" "evo_ok b'" "evo_bytes b' = evo_bytes b @ h @ d"
proof -
  have "unat (evo_size b) + length h \<le> 2 ^ 63" using assms(2) by simp
  then obtain b1 where
    b1: "evo_buffer_append (\<lambda>n. True) junk b h = Some (None, b1)" "evo_ok b1"
      "evo_bytes b1 = evo_bytes b @ h" "unat (evo_size b1) = unat (evo_size b) + length h"
    by (rule append_gives [OF assms(1)])
  have "unat (evo_size b1) + length d \<le> 2 ^ 63" using assms(2) b1(4) by simp
  then obtain b2 where
    "evo_buffer_append (\<lambda>n. True) junk b1 d = Some (None, b2)" "evo_ok b2"
      "evo_bytes b2 = evo_bytes b1 @ d" by (rule append_gives [OF b1(2)])
  then show ?thesis using b1 by (intro that [of b2]) simp_all
qed

lemma appended_text:
  assumes "evo_ok b" "unat (evo_size b) + 24 \<le> 2 ^ 63" "length (c_string t) < 24"
  shows "appended b (EVO_CBOR_TEXT (c_string t)) (evo_cbor_text_append (\<lambda>n. True) junk b t)"
proof -
  let ?h = "[EVO_CBOR_HEAD 3 (length (c_string t))]"
  have "unat (evo_size b) + length ?h + length (c_string t) \<le> 2 ^ 63" using assms(2,3) by simp
  then obtain b' where
    "Option.bind (evo_buffer_append (\<lambda>n. True) junk b ?h)
      (\<lambda>(r, b). if r \<noteq> None then Some (r, b) else evo_buffer_append (\<lambda>n. True) junk b (c_string t))
        = Some (None, b')" "evo_ok b'" "evo_bytes b' = evo_bytes b @ ?h @ c_string t"
    by (rule append_two_gives [OF assms(1)])
  moreover from this(1) have "evo_cbor_text_append (\<lambda>n. True) junk b t = Some (None, b')"
    using assms(3) by (simp add: evo_cbor_text_append_def evo_buffer_append_byte_def Let_def)
  moreover have "encodes (Suc 0) (EVO_CBOR_TEXT (c_string t)) (?h @ c_string t)"
    by (rule enc_text, rule head_small) (rule assms(3))
  ultimately show ?thesis by (simp add: appended_def)
qed

lemma appended_bytes:
  assumes "evo_ok b" "length d < 2 ^ 32" "unat (evo_size b) + 5 + length d \<le> 2 ^ 63"
  shows "appended b (EVO_CBOR_BYTES d) (evo_cbor_bytes_append (\<lambda>n. True) junk b d)"
proof -
  define h where "h = (if length d < 24 then [EVO_CBOR_HEAD 2 (length d)]
     else if length d < 256 then [EVO_CBOR_HEAD 2 24, ucast (of_nat (length d) :: 64 word)]
     else [EVO_CBOR_HEAD 2 26, ucast (drop_bit 24 (of_nat (length d) :: 64 word)),
       ucast (drop_bit 16 (of_nat (length d) :: 64 word)),
       ucast (drop_bit 8 (of_nat (length d) :: 64 word)), ucast (of_nat (length d) :: 64 word)])"
  have "length h \<le> 5" by (simp add: h_def)
  then have "unat (evo_size b) + length h + length d \<le> 2 ^ 63" using assms(3) by simp
  then obtain b' where
    two: "Option.bind (evo_buffer_append (\<lambda>n. True) junk b h)
      (\<lambda>(r, b). if r \<noteq> None then Some (r, b) else evo_buffer_append (\<lambda>n. True) junk b d)
        = Some (None, b')" "evo_ok b'" "evo_bytes b' = evo_bytes b @ h @ d"
    by (rule append_two_gives [OF assms(1)])
  have "evo_cbor_bytes_append (\<lambda>n. True) junk b d = Some (None, b')"
    using two(1) by (simp add: evo_cbor_bytes_append_def evo_buffer_append_byte_def Let_def h_def
        split: if_splits)
  moreover have "encodes (Suc 0) (EVO_CBOR_BYTES d) (h @ d)"
    unfolding h_def by (rule enc_bytes) (rule bytes_head [OF assms(2)])
  ultimately show ?thesis using two(2,3) by (simp add: appended_def)
qed

lemma appended_parses:
  assumes "appended b v r"
  shows "\<exists>b'. r = Some (None, b') \<and> evo_ok b' \<and> take (length (evo_bytes b)) (evo_bytes b') = evo_bytes b
    \<and> evo_cbor_parse (\<lambda>n. True) (evo_bytes b') (length (evo_bytes b))
        = Parsed v (length (evo_bytes b'))"
proof -
  from assms obtain b' bs where "r = Some (None, b')" "evo_ok b'" "encodes 1 v bs"
    "evo_bytes b' = evo_bytes b @ bs" by (auto simp: appended_def)
  moreover have "evo_cbor_parse (\<lambda>n. True) (evo_bytes b @ bs) (length (evo_bytes b))
      = Parsed v (length (evo_bytes b @ bs))"
    using encodes_reads [OF \<open>encodes 1 v bs\<close>, where depth = 0 and data = "evo_bytes b @ bs"]
      readsD [of _ _ v bs "evo_bytes b" "[]"] by (simp add: evo_cbor_parse_def)
  ultimately show ?thesis by auto
qed

text \<open>
  What the three append functions write, the parser reads: into any buffer, behind anything,
  a number of 32 bits, a text of less than 24 bytes or a byte string is appended with success
  and the parser, started where the buffer ended before, gives it back and stops at the new end.
\<close>

theorem evo_cbor_write_read:
  assumes "evo_ok b" "unat (evo_size b) + 24 \<le> 2 ^ 62"
  shows "(\<exists>b'. evo_cbor_uint_append (\<lambda>n. True) junk b n = Some (None, b') \<and> evo_ok b'
      \<and> take (length (evo_bytes b)) (evo_bytes b') = evo_bytes b
      \<and> evo_cbor_parse (\<lambda>n. True) (evo_bytes b') (length (evo_bytes b))
          = Parsed (EVO_CBOR_UINT (ucast n)) (length (evo_bytes b')))
    \<and> (length (c_string t) < 24 \<longrightarrow> (\<exists>b'. evo_cbor_text_append (\<lambda>n. True) junk b t = Some (None, b')
      \<and> evo_ok b' \<and> take (length (evo_bytes b)) (evo_bytes b') = evo_bytes b
      \<and> evo_cbor_parse (\<lambda>n. True) (evo_bytes b') (length (evo_bytes b))
          = Parsed (EVO_CBOR_TEXT (c_string t)) (length (evo_bytes b'))))
    \<and> (length d < 2 ^ 32 \<longrightarrow> (\<exists>b'. evo_cbor_bytes_append (\<lambda>n. True) junk b d = Some (None, b')
      \<and> evo_ok b' \<and> take (length (evo_bytes b)) (evo_bytes b') = evo_bytes b
      \<and> evo_cbor_parse (\<lambda>n. True) (evo_bytes b') (length (evo_bytes b))
          = Parsed (EVO_CBOR_BYTES d) (length (evo_bytes b'))))"
  using assms
  by (intro conjI impI appended_parses appended_uint appended_text appended_bytes) simp_all

theorem evo_cbor_write_read_witness:
  "\<exists>b'. evo_cbor_bytes_append (\<lambda>n. True) [] evo_buffer_init [1, 2] = Some (None, b')
     \<and> evo_cbor_parse (\<lambda>n. True) (evo_bytes b') 0
         = Parsed (EVO_CBOR_BYTES [1, 2]) (length (evo_bytes b'))"
proof -
  have "evo_ok evo_buffer_init" "unat (evo_size evo_buffer_init) + 24 \<le> 2 ^ 62"
    "evo_bytes evo_buffer_init = []"
    by (simp_all add: evo_ok_def evo_buffer_init_def evo_bytes_def)
  then show ?thesis
    using evo_cbor_write_read [of evo_buffer_init "[]" 0 "[]" "[1, 2]"] by auto
qed

end
