(* ===== verification/EvoKermit.thy ===== *)
theory EvoKermit
  imports CalcHandle EvoCbor
begin

text \<open>
  The data formats of the Kermit transport of the Evo calculators, in
  \<^verbatim>\<open>libticalcs/trunk/src/evo_cmd.cc\<close>: packets with their block checks, the quoting and run-length
  encoding of data and where encoded data may be cut.

  An \<^verbatim>\<open>EvoBuffer\<close> is represented by its contents (\<^verbatim>\<open>EvoCbor\<close> shows that the buffer behaves like
  a list of bytes); an append fails when \<open>alloc\<close> refuses the new size.
\<close>

section \<open>Buffers, characters and sessions\<close>

definition buf_append :: "(nat \<Rightarrow> bool) \<Rightarrow> bytes \<Rightarrow> bytes \<Rightarrow> ret \<times> bytes" where
  "buf_append alloc d b =
     (if d = [] \<or> alloc (length b + length d) then (None, b @ d) else (Some ERR_MALLOC, b))"

definition buf_reserve :: "(nat \<Rightarrow> bool) \<Rightarrow> nat \<Rightarrow> ret" where
  "buf_reserve alloc n = (if alloc n then None else Some ERR_MALLOC)"

fun buf_append_all :: "(nat \<Rightarrow> bool) \<Rightarrow> bytes list \<Rightarrow> bytes \<Rightarrow> ret \<times> bytes" where
  "buf_append_all alloc [] b = (None, b)"
| "buf_append_all alloc (d # ds) b = andthen (buf_append alloc d b) (buf_append_all alloc ds)"

definition EVO_SOH :: u8 where "EVO_SOH = 0x01"
definition EVO_CR :: u8 where "EVO_CR = 0x0D"
definition EVO_QCTL :: u8 where "EVO_QCTL = 0x23"
definition EVO_REPT :: u8 where "EVO_REPT = 0x7E"
definition EVO_SHORT_BODY_MAX :: nat where "EVO_SHORT_BODY_MAX = 94"
definition EVO_MAX_RUN :: nat where "EVO_MAX_RUN = 94"
definition EVO_MAX_PACKET_LEN :: nat where "EVO_MAX_PACKET_LEN = 2040"
definition EVO_PUT_CHUNK_SIZE :: nat where "EVO_PUT_CHUNK_SIZE = 2000"

definition tochar :: "u32 \<Rightarrow> u8" where "tochar x = ucast (x + 0x20)"
definition unchar :: "u8 \<Rightarrow> u32" where "unchar x = ucast x - 0x20"
definition ctl :: "u8 \<Rightarrow> u8" where "ctl x = x XOR 0x40"

record evo_session =
  es_check_type :: nat
  es_control_quote :: u8
  es_binary_quote :: "u8 option"
  es_repeat_quote :: u8
  es_max_packet_len :: nat

definition evo_session_init :: evo_session where
  "evo_session_init =
     \<lparr>es_check_type = 1, es_control_quote = EVO_QCTL, es_binary_quote = None,
      es_repeat_quote = EVO_REPT, es_max_packet_len = EVO_MAX_PACKET_LEN\<rparr>"

definition evo_session_data_chunk_size :: "evo_session \<Rightarrow> nat" where
  "evo_session_data_chunk_size s =
     (let overhead = es_check_type s + 8 in
      if es_max_packet_len s \<le> overhead then 1
      else min (es_max_packet_len s - overhead) EVO_PUT_CHUNK_SIZE)"

definition evo_session_update_from_sinit :: "bytes \<Rightarrow> evo_session \<Rightarrow> evo_session" where
  "evo_session_update_from_sinit data s =
     (let len = length data;
          s = (if len > 5 \<and> data ! 5 \<noteq> 0x20 then s\<lparr>es_control_quote := data ! 5\<rparr> else s);
          s = (if len > 6 \<and> data ! 6 \<noteq> 0x59 \<and> data ! 6 \<noteq> 0x4E \<and> data ! 6 \<noteq> 0x20
               then s\<lparr>es_binary_quote := Some (data ! 6)\<rparr> else s);
          s = (if len > 7 \<and> 0x31 \<le> data ! 7 \<and> data ! 7 \<le> 0x33
               then s\<lparr>es_check_type := unat (data ! 7 - 0x30)\<rparr> else s);
          s = (if len > 8 \<and> data ! 8 \<noteq> 0x20 then s\<lparr>es_repeat_quote := data ! 8\<rparr> else s)
      in if len > 12 then
           (let m = unat (unchar (data ! 11) * 95 + unchar (data ! 12))
            in if m \<ge> 60 then s\<lparr>es_max_packet_len := min m EVO_MAX_PACKET_LEN\<rparr> else s)
         else s)"

section \<open>Block checks\<close>

definition body_sum :: "bytes \<Rightarrow> u32" where
  "body_sum body = foldl (\<lambda>s b. s + ucast b) 0 body"

definition evo_checksum :: "bytes \<Rightarrow> u8" where
  "evo_checksum body = (let s = body_sum body in tochar ((s + (drop_bit 6 s AND 3)) AND 0x3F))"

definition evo_checksum2_sum :: "bytes \<Rightarrow> u16" where
  "evo_checksum2_sum body = ucast (body_sum body AND 0xFFFF)"

definition kermit_nibble :: "u16 \<Rightarrow> u16 \<Rightarrow> u16" where
  "kermit_nibble crc x = (let q = (crc XOR x) AND 0x0F in drop_bit 4 crc XOR (q * 0x1081))"

definition evo_crc16_kermit :: "bytes \<Rightarrow> u16" where
  "evo_crc16_kermit body =
     foldl (\<lambda>crc b. kermit_nibble (kermit_nibble crc (ucast b)) (ucast (drop_bit 4 b))) 0 body"

definition evo_block_check :: "(nat \<Rightarrow> bool) \<Rightarrow> bytes \<Rightarrow> nat \<Rightarrow> bytes \<Rightarrow> ret \<times> bytes" where
  "evo_block_check alloc body check_type out =
     (if check_type = 1 then buf_append_all alloc [[evo_checksum body]] out
      else if check_type = 2 then
        (let sum = ucast (evo_checksum2_sum body)
         in buf_append_all alloc [[tochar (drop_bit 6 sum AND 0x3F)], [tochar (sum AND 0x3F)]] out)
      else if check_type = 3 then
        (let crc = ucast (evo_crc16_kermit body)
         in buf_append_all alloc
              [[tochar (drop_bit 12 crc AND 0x0F)], [tochar (drop_bit 6 crc AND 0x3F)],
               [tochar (crc AND 0x3F)]] out)
      else (Some ERR_INVALID_PACKET, out))"

definition evo_check_block_check :: "(nat \<Rightarrow> bool) \<Rightarrow> bytes \<Rightarrow> nat \<Rightarrow> bool" where
  "evo_check_block_check alloc body check_type =
     (if check_type < 1 \<or> check_type > 3 \<or> length body < check_type then False
      else (let n = length body - check_type;
                (r, expected) = evo_block_check alloc (take n body) check_type []
            in r = None \<and> length expected = check_type \<and> drop n body = expected))"

section \<open>Packets\<close>

definition evo_make_packet ::
  "(nat \<Rightarrow> bool) \<Rightarrow> u8 \<Rightarrow> u8 \<Rightarrow> bytes \<Rightarrow> evo_session option \<Rightarrow> bytes \<Rightarrow> ret \<times> bytes" where
  "evo_make_packet alloc seq type data session pkt =
     (let check_type = (case session of None \<Rightarrow> 1 | Some s \<Rightarrow> es_check_type s);
          n = length data + 2 + check_type;
          c = (\<lambda>x. [tochar x]);
          (r, body) =
            (if n \<le> EVO_SHORT_BODY_MAX then
               buf_append_all alloc [c (of_nat n), c (ucast (seq mod 64)), [type], data] []
             else
               (let dlen = length data + check_type in
                andthen (buf_append_all alloc
                    [c 0, c (ucast (seq mod 64)), [type], c (of_nat (dlen div 95)),
                     c (of_nat (dlen mod 95))] [])
                  (\<lambda>body. buf_append_all alloc [[evo_checksum body], data] body)))
      in case r of Some e \<Rightarrow> (Some e, pkt)
         | None \<Rightarrow>
             andthen (buf_append_all alloc [[EVO_SOH], body] pkt) (\<lambda>pkt.
             andthen (evo_block_check alloc body check_type pkt) (\<lambda>pkt.
               buf_append alloc [EVO_CR] pkt)))"

definition evo_kermit_length_char_valid :: "u8 \<Rightarrow> bool" where
  "evo_kermit_length_char_valid v \<longleftrightarrow> 0x20 \<le> v \<and> v \<le> tochar (of_nat EVO_SHORT_BODY_MAX)"

definition evo_kermit_packet_remainder :: "u8 \<Rightarrow> (u8 \<times> u8) option \<Rightarrow> errcode + nat" where
  "evo_kermit_packet_remainder len extended_length =
     (if \<not> evo_kermit_length_char_valid len then Inl ERR_INVALID_PACKET
      else if len \<noteq> tochar 0 then
        (let body_len = unat (unchar len)
         in if body_len < 3 then Inl ERR_INVALID_PACKET else Inr (body_len + 1))
      else (case extended_length of
              None \<Rightarrow> Inl ERR_INVALID_PACKET
            | Some (e0, e1) \<Rightarrow>
                if \<not> evo_kermit_length_char_valid e0 \<or> \<not> evo_kermit_length_char_valid e1
                then Inl ERR_INVALID_PACKET
                else (let data_len = unat (unchar e0 * 95 + unchar e1)
                      in if data_len = 0 \<or> data_len > EVO_MAX_PACKET_LEN
                         then Inl ERR_INVALID_PACKET else Inr (data_len + 2))))"

datatype evo_sequence_state =
    EVO_KERMIT_SEQUENCE_CURRENT | EVO_KERMIT_SEQUENCE_DUPLICATE | EVO_KERMIT_SEQUENCE_UNEXPECTED

definition evo_kermit_sequence_state :: "bool \<Rightarrow> u8 \<Rightarrow> u8 \<Rightarrow> evo_sequence_state" where
  "evo_kermit_sequence_state have_previous previous received =
     (if \<not> have_previous \<or> received = of_nat ((unat previous + 1) mod 64)
      then EVO_KERMIT_SEQUENCE_CURRENT
      else if received = previous then EVO_KERMIT_SEQUENCE_DUPLICATE
      else EVO_KERMIT_SEQUENCE_UNEXPECTED)"

definition evo_kermit_duplicate_retry_allowed :: "nat \<Rightarrow> bool" where
  "evo_kermit_duplicate_retry_allowed n \<longleftrightarrow> n \<le> 3"

definition evo_kermit_size_within_limit :: "nat \<Rightarrow> nat \<Rightarrow> nat \<Rightarrow> bool" where
  "evo_kermit_size_within_limit current additional limit \<longleftrightarrow>
     current \<le> limit \<and> additional \<le> limit - current"

text \<open>The fields of a packet that was received completely: sequence number, type and data.\<close>

definition evo_parse_packet ::
  "(nat \<Rightarrow> bool) \<Rightarrow> bytes \<Rightarrow> evo_session option \<Rightarrow> errcode + (u8 \<times> u8 \<times> bytes)" where
  "evo_parse_packet alloc raw session =
     (if length raw < 5 \<or> raw ! 0 \<noteq> EVO_SOH \<or> raw ! (length raw - 1) \<noteq> EVO_CR
      then Inl ERR_INVALID_PACKET
      else
        (let check_type = (case session of None \<Rightarrow> 1 | Some s \<Rightarrow> es_check_type s);
             body = take (length raw - 2) (drop 1 raw);
             ext = body ! 0 = tochar 0
         in if length body < (if ext then 6 + check_type else 3 + check_type)
            then Inl ERR_INVALID_PACKET
            else if ext \<and> body ! 5 \<noteq> evo_checksum (take 5 body) then Inl ERR_INVALID_PACKET
            else if \<not> evo_check_block_check alloc body check_type then Inl ERR_INVALID_PACKET
            else if body ! 1 < 0x20 \<or> body ! 1 \<ge> 0x20 + 64 then Inl ERR_INVALID_PACKET
            else (let off = (if ext then 6 else 3);
                      (r, data) = buf_append alloc (drop off (take (length body - check_type) body)) []
                  in case r of Some e \<Rightarrow> Inl e
                     | None \<Rightarrow> Inr (ucast (unchar (body ! 1)), body ! 2, data))))"

section \<open>Encoding of data\<close>

definition encode_byte :: "(nat \<Rightarrow> bool) \<Rightarrow> u8 \<Rightarrow> bytes \<Rightarrow> ret \<times> bytes" where
  "encode_byte alloc b out =
     (if b AND 0x7F < 0x20 \<or> b AND 0x7F = 0x7F then buf_append_all alloc [[EVO_QCTL], [ctl b]] out
      else if b = EVO_QCTL \<or> b = EVO_REPT then buf_append_all alloc [[EVO_QCTL], [b]] out
      else buf_append alloc [b] out)"

text \<open>The length of the run of equal bytes that starts at \<open>i\<close>, at most 94.\<close>

function evo_run :: "bytes \<Rightarrow> nat \<Rightarrow> nat \<Rightarrow> nat" where
  "evo_run data i run =
     (if i + run < length data \<and> data ! (i + run) = data ! i \<and> run < EVO_MAX_RUN
      then evo_run data i (run + 1) else run)"
  by pat_completeness auto

termination by (relation "measure (\<lambda>(data, i, run). length data - (i + run))") auto

declare evo_run.simps [simp del]

fun encode_times :: "(nat \<Rightarrow> bool) \<Rightarrow> nat \<Rightarrow> u8 \<Rightarrow> bytes \<Rightarrow> ret \<times> bytes" where
  "encode_times alloc 0 b out = (None, out)"
| "encode_times alloc (Suc n) b out = andthen (encode_byte alloc b out) (encode_times alloc n b)"

lemma evo_run_ge: "run \<le> evo_run data i run"
  by (induction data i run rule: evo_run.induct) (subst evo_run.simps, auto)

function evo_encode_from :: "(nat \<Rightarrow> bool) \<Rightarrow> bytes \<Rightarrow> nat \<Rightarrow> bytes \<Rightarrow> ret \<times> bytes" where
  "evo_encode_from alloc data i out =
     (if i < length data then
        (let run = evo_run data i 1 in
         andthen
           (if run \<ge> 3 then
              andthen (buf_append_all alloc [[EVO_REPT], [tochar (of_nat run)]] out)
                (encode_byte alloc (data ! i))
            else encode_times alloc run (data ! i) out)
           (evo_encode_from alloc data (i + run)))
      else (None, out))"
  by pat_completeness auto

termination
proof (relation "measure (\<lambda>(alloc, data, i, out). length data - i)", goal_cases)
  case (2 alloc data i out run out')
  then show ?case using evo_run_ge [of 1 data i] by simp
qed simp

declare evo_encode_from.simps [simp del]

definition evo_encode :: "(nat \<Rightarrow> bool) \<Rightarrow> bytes \<Rightarrow> bytes \<Rightarrow> ret \<times> bytes" where
  "evo_encode alloc data out =
     (case buf_reserve alloc (length out + length data * 2) of
        Some e \<Rightarrow> (Some e, out) | None \<Rightarrow> evo_encode_from alloc data 0 out)"

text \<open>Where encoded data may be cut: the length of the element at \<open>off\<close>, and of a chunk.\<close>

definition evo_encoded_element_len :: "bytes \<Rightarrow> nat \<Rightarrow> nat" where
  "evo_encoded_element_len data off =
     (let size = length data in
      if off \<ge> size then 0
      else if data ! off = EVO_REPT \<and> off + 2 < size then
        (let pos = off + 2 in
         if data ! pos = EVO_QCTL \<and> pos + 1 < size then pos + 2 - off else pos + 1 - off)
      else if data ! off = EVO_QCTL \<and> off + 1 < size then 2
      else 1)"

function evo_chunk_loop :: "bytes \<Rightarrow> nat \<Rightarrow> nat \<Rightarrow> nat \<Rightarrow> nat" where
  "evo_chunk_loop wire off max_chunk len =
     (if off + len < length wire \<and> len < max_chunk then
        (let elem = evo_encoded_element_len wire (off + len) in
         if elem = 0 then len
         else if len > 0 \<and> len + elem > max_chunk then len
         else evo_chunk_loop wire off max_chunk (len + elem))
      else len)"
  by pat_completeness auto

termination by (relation "measure (\<lambda>(wire, off, m, len). length wire - (off + len))") auto

declare evo_chunk_loop.simps [simp del]

definition evo_put_chunk_len :: "bytes \<Rightarrow> nat \<Rightarrow> nat \<Rightarrow> nat" where
  "evo_put_chunk_len wire off max_chunk =
     (let len = evo_chunk_loop wire off (if max_chunk = 0 then 1 else max_chunk) 0
      in if len \<noteq> 0 then len else length wire - off)"

definition evo_unctl :: "u8 \<Rightarrow> u8" where
  "evo_unctl b = (if b AND 0x7F = 0x3F \<or> b AND 0x60 = 0x40 then b XOR 0x40 else b)"

fun append_times :: "(nat \<Rightarrow> bool) \<Rightarrow> nat \<Rightarrow> u8 \<Rightarrow> bytes \<Rightarrow> ret \<times> bytes" where
  "append_times alloc 0 b out = (None, out)"
| "append_times alloc (Suc n) b out = andthen (buf_append alloc [b] out) (append_times alloc n b)"

text \<open>One element of encoded data: repeat count, high bit, the byte and the offset behind it.\<close>

definition decode_prefix :: "evo_session option \<Rightarrow> bytes \<Rightarrow> nat \<Rightarrow> nat \<times> u8 \<times> nat" where
  "decode_prefix session data i =
     (let repeat_quote = (case session of None \<Rightarrow> EVO_REPT | Some s \<Rightarrow> es_repeat_quote s);
          binary_quote = (case session of None \<Rightarrow> None | Some s \<Rightarrow> es_binary_quote s);
          (count, i) = (if data ! i = repeat_quote \<and> i + 2 < length data
                        then (unat (unchar (data ! (i + 1))), i + 2) else (1, i));
          (high_bit, i) = (if binary_quote \<noteq> None \<and> i < length data \<and> Some (data ! i) = binary_quote
                           then (0x80, i + 1) else (0, i))
      in (count, high_bit, i))"

definition decode_char :: "evo_session option \<Rightarrow> bytes \<Rightarrow> nat \<Rightarrow> u8 \<times> nat" where
  "decode_char session data i =
     (let control_quote = (case session of None \<Rightarrow> EVO_QCTL | Some s \<Rightarrow> es_control_quote s);
          b = data ! i; i = i + 1
      in if b = control_quote \<and> i < length data then (evo_unctl (data ! i), i + 1) else (b, i))"

lemma decode_progress:
  "i \<le> snd (snd (decode_prefix session data i))" "i < snd (decode_char session data i)"
  by (simp_all add: decode_prefix_def decode_char_def Let_def)

function evo_decode_from ::
  "(nat \<Rightarrow> bool) \<Rightarrow> evo_session option \<Rightarrow> nat \<Rightarrow> bytes \<Rightarrow> nat \<Rightarrow> bytes \<Rightarrow> ret \<times> bytes" where
  "evo_decode_from alloc session max_output_len data i out =
     (if i < length data then
        (let p = decode_prefix session data i; count = fst p; high_bit = fst (snd p);
             j = snd (snd p) in
         if j \<ge> length data then (None, out)
         else
           (let c = decode_char session data j; b = fst c OR high_bit in
            if \<not> evo_kermit_size_within_limit (length out) count max_output_len
            then (Some ERR_INVALID_PACKET, out)
            else (case buf_reserve alloc (length out + count) of
                    Some e \<Rightarrow> (Some e, out)
                  | None \<Rightarrow>
                      andthen (append_times alloc count b out)
                        (evo_decode_from alloc session max_output_len data (snd c)))))
      else (None, out))"
  by pat_completeness auto

termination
proof (relation "measure (\<lambda>(alloc, session, m, data, i, out). length data - i)", goal_cases)
  case (2 alloc session m data i out p count high j c b)
  then have "i \<le> j" "j < snd c" using decode_progress by metis+
  then show ?case using 2 by simp
qed simp

declare evo_decode_from.simps [simp del]

definition evo_decode ::
  "(nat \<Rightarrow> bool) \<Rightarrow> evo_session option \<Rightarrow> nat \<Rightarrow> bytes \<Rightarrow> bytes \<Rightarrow> ret \<times> bytes" where
  "evo_decode alloc session max_output_len data out =
     evo_decode_from alloc session max_output_len data 0 out"

lemma element_len_pos: "off < length data \<Longrightarrow> 0 < evo_encoded_element_len data off"
  by (simp add: evo_encoded_element_len_def Let_def)

lemma chunk_len_pos: "off < length wire \<Longrightarrow> 0 < evo_put_chunk_len wire off m"
  by (simp add: evo_put_chunk_len_def Let_def)

section \<open>Encoded data\<close>

text \<open>With memory for everything the appends just append.\<close>

abbreviation enough :: "nat \<Rightarrow> bool" where "enough \<equiv> \<lambda>n. True"

lemma buf_append_enough [simp]: "buf_append enough d b = (None, b @ d)"
  by (simp add: buf_append_def)

lemma buf_append_all_enough [simp]: "buf_append_all enough ds b = (None, b @ concat ds)"
  by (induction ds arbitrary: b) auto

lemma append_times_enough [simp]: "append_times enough n b out = (None, out @ replicate n b)"
  by (induction n arbitrary: out) (auto simp: replicate_append_same)

text \<open>
  The specification: encoded data are a sequence of elements, an element being a byte with a
  repeat count of one or from 3 to 94, written as \<open>elem_bytes\<close>.
\<close>

definition quoted :: "u8 \<Rightarrow> bytes" where
  "quoted b =
     (if b AND 0x7F < 0x20 \<or> b AND 0x7F = 0x7F then [EVO_QCTL, ctl b]
      else if b = EVO_QCTL \<or> b = EVO_REPT then [EVO_QCTL, b] else [b])"

fun elem_bytes :: "nat \<times> u8 \<Rightarrow> bytes" where
  "elem_bytes (n, b) = (if n = 1 then quoted b else EVO_REPT # tochar (of_nat n) # quoted b)"

fun elem_ok :: "nat \<times> u8 \<Rightarrow> bool" where
  "elem_ok (n, b) \<longleftrightarrow> n = 1 \<or> 3 \<le> n \<and> n \<le> 94"

definition expand :: "(nat \<times> u8) list \<Rightarrow> bytes" where
  "expand es = concat (map (\<lambda>(n, b). replicate n b) es)"

definition wire_bytes :: "(nat \<times> u8) list \<Rightarrow> bytes" where
  "wire_bytes es = concat (map elem_bytes es)"

lemma expand_simps [simp]:
  "expand [] = []" "expand (e # es) = replicate (fst e) (snd e) @ expand es"
  "expand (es @ fs) = expand es @ expand fs"
  by (simp_all add: expand_def split_beta)

lemma wire_simps [simp]:
  "wire_bytes [] = []" "wire_bytes (e # es) = elem_bytes e @ wire_bytes es"
  "wire_bytes (es @ fs) = wire_bytes es @ wire_bytes fs"
  by (simp_all add: wire_bytes_def)

lemma encode_byte_enough [simp]: "encode_byte enough b out = (None, out @ quoted b)"
  by (simp add: encode_byte_def quoted_def)

lemma encode_times_enough:
  "encode_times enough n b out = (None, out @ wire_bytes (replicate n (1, b)))"
  by (induction n arbitrary: out) (auto simp: replicate_append_same)

lemma evo_run_spec:
  assumes "i + run \<le> length data" "run \<le> EVO_MAX_RUN" "take run (drop i data) = replicate run (data ! i)"
  shows "i + evo_run data i run \<le> length data \<and> evo_run data i run \<le> EVO_MAX_RUN
    \<and> take (evo_run data i run) (drop i data) = replicate (evo_run data i run) (data ! i)"
  using assms
proof (induction data i run rule: evo_run.induct)
  case (1 data i run)
  show ?case
  proof (cases "i + run < length data \<and> data ! (i + run) = data ! i \<and> run < EVO_MAX_RUN")
    case True
    then have "take (Suc run) (drop i data) = take run (drop i data) @ [drop i data ! run]"
      by (intro take_Suc_conv_app_nth) auto
    then have "take (run + 1) (drop i data) = replicate (run + 1) (data ! i)"
      using 1(4) True by (simp add: replicate_append_same)
    then show ?thesis
      using 1(1) [OF True] True by (subst (1 2 3 4) evo_run.simps) (simp del: One_nat_def add: True)
  next
    case False
    then have "evo_run data i run = run" by (subst evo_run.simps) (simp only: if_False)
    then show ?thesis using 1(2,3,4) by simp
  qed
qed

lemma expand_singles: "expand (replicate n (Suc 0, b)) = replicate n b"
  by (induction n) auto

lemma encode_gives_elements:
  "\<exists>es. list_all elem_ok es \<and> expand es = drop i data
      \<and> evo_encode_from enough data i out = (None, out @ wire_bytes es)"
proof (induction "length data - i" arbitrary: i out rule: less_induct)
  case less
  show ?case
  proof (cases "i < length data")
    case False
    then show ?thesis by (intro exI [of _ "[]"]) (simp add: evo_encode_from.simps [of _ _ i])
  next
    case True
    define run where "run = evo_run data i 1"
    have run: "i + run \<le> length data" "run \<le> 94" "take run (drop i data) = replicate run (data ! i)"
      using evo_run_spec [of i 1 data] True
      by (auto simp: run_def EVO_MAX_RUN_def take_Suc_conv_app_nth [of 0, simplified])
    have pos: "1 \<le> run" using evo_run_ge [of 1 data i] by (simp add: run_def)
    have split: "drop i data = replicate run (data ! i) @ drop (i + run) data"
      using append_take_drop_id [of run "drop i data"] run(3) by (simp add: add.commute)
    define es where "es = (if run \<ge> 3 then [(run, data ! i)] else replicate run (1, data ! i))"
    have es: "list_all elem_ok es" "expand es = replicate run (data ! i)"
      using pos run(2) by (auto simp: es_def expand_singles list_all_iff)
    have shorter: "length data - (i + run) < length data - i" using True pos by simp
    obtain es' where es': "list_all elem_ok es'" "expand es' = drop (i + run) data"
      "evo_encode_from enough data (i + run) (out @ wire_bytes es) = (None, (out @ wire_bytes es) @ wire_bytes es')"
      using less [of "i + run" "out @ wire_bytes es"] shorter by auto
    have "evo_encode_from enough data i out = evo_encode_from enough data (i + run) (out @ wire_bytes es)"
      using True by (subst evo_encode_from.simps)
        (auto simp: run_def [symmetric, unfolded One_nat_def] Let_def es_def encode_times_enough)
    then show ?thesis
      using es es' split by (intro exI [of _ "es @ es'"]) simp
  qed
qed

lemma byte_eqI:
  fixes a b :: u8
  assumes "bit a 0 = bit b 0" "bit a 1 = bit b 1" "bit a 2 = bit b 2" "bit a 3 = bit b 3"
    "bit a 4 = bit b 4" "bit a 5 = bit b 5" "bit a 6 = bit b 6" "bit a 7 = bit b 7"
  shows "a = b"
proof (rule bit_word_eqI)
  fix n assume "n < LENGTH(8)"
  then have "n = 0 \<or> n = 1 \<or> n = 2 \<or> n = 3 \<or> n = 4 \<or> n = 5 \<or> n = 6 \<or> n = 7" by simp arith
  then show "bit a n = bit b n" using assms by auto
qed

lemma small_take_bit: "unat (w :: 'a::len word) < 2 ^ k \<Longrightarrow> take_bit k w = w"
  by (simp add: word_unat_eq_iff unsigned_take_bit_eq take_bit_nat_eq_self)

lemma unctl_ctl:
  assumes "b AND 0x7F < 0x20 \<or> b AND 0x7F = 0x7F"
  shows "evo_unctl (ctl b) = b"
proof -
  have undo: "evo_unctl (ctl b) = b" if "ctl b AND 0x7F = 0x3F \<or> ctl b AND 0x60 = 0x40"
    using that by (simp add: evo_unctl_def ctl_def xor.assoc)
  from assms show ?thesis
  proof
    assume "b AND 0x7F < 0x20"
    then have "unat (b AND 0x7F) < 2 ^ 5" by (simp add: word_less_nat_alt)
    then have "take_bit 5 (b AND 0x7F) = b AND 0x7F" by (rule small_take_bit)
    then have "bit (b AND 0x7F) k = bit (take_bit 5 (b AND 0x7F)) k" for k by simp
    from this [of 5] this [of 6] have "\<not> bit b 5" "\<not> bit b 6" by (simp_all add: bit_simps)
    then have "ctl b AND 0x60 = 0x40" by (intro byte_eqI) (simp_all add: ctl_def bit_simps)
    then show ?thesis by (rule undo [OF disjI2])
  next
    assume "b AND 0x7F = 0x7F"
    then have "bit (b AND 0x7F) k = bit (0x7F :: u8) k" for k by simp
    from this [of 0] this [of 1] this [of 2] this [of 3] this [of 4] this [of 5] this [of 6]
    have "ctl b AND 0x7F = 0x3F"
      by (intro byte_eqI) (simp_all add: ctl_def bit_simps)
    then show ?thesis by (rule undo [OF disjI1])
  qed
qed

lemma quoted_cases:
  obtains (plain) "quoted b = [b]" "b \<noteq> EVO_QCTL" "b \<noteq> EVO_REPT"
  | (quote) x where "quoted b = [EVO_QCTL, x]" "evo_unctl x = b"
proof (cases "b AND 0x7F < 0x20 \<or> b AND 0x7F = 0x7F")
  case True
  then show ?thesis using unctl_ctl [OF True] by (intro quote) (simp_all add: quoted_def)
next
  case False
  note plain_byte = False
  show ?thesis
  proof (cases "b = EVO_QCTL \<or> b = EVO_REPT")
    case True
    then have "evo_unctl b = b" by (auto simp: evo_unctl_def EVO_QCTL_def EVO_REPT_def)
    then show ?thesis using plain_byte True by (intro quote) (simp_all add: quoted_def)
  next
    case False
    then show ?thesis using plain_byte by (intro plain) (auto simp: quoted_def)
  qed
qed

definition default_quoting :: "evo_session \<Rightarrow> bool" where
  "default_quoting s \<longleftrightarrow> es_control_quote s = EVO_QCTL \<and> es_binary_quote s = None
     \<and> es_repeat_quote s = EVO_REPT"

lemma unchar_tochar: "n \<le> 94 \<Longrightarrow> unat (unchar (tochar (of_nat n))) = n"
proof -
  assume n: "n \<le> 94"
  have narrow: "(ucast (of_nat m :: u32) :: u8) = of_nat m" for m
    by (simp add: word_unat_eq_iff unsigned_ucast_eq unat_of_nat take_bit_eq_mod mod_mod_cancel)
  have "tochar (of_nat n) = of_nat (n + 0x20)"
    unfolding tochar_def narrow [symmetric] by simp
  moreover have "(ucast (of_nat (n + 0x20) :: u8) :: u32) = of_nat (n + 0x20)"
    using n by (simp add: word_unat_eq_iff unat_of_nat unsigned_ucast_eq take_bit_nat_eq_self del: of_nat_add)
  ultimately have "unchar (tochar (of_nat n)) = of_nat n" by (simp add: unchar_def)
  then show ?thesis using n by (simp add: unat_of_nat take_bit_nat_eq_self)
qed

lemma decode_char_quoted:
  assumes "default_quoting s" "data = pre @ quoted b @ post"
  shows "decode_char (Some s) data (length pre) = (b, length pre + length (quoted b))"
  by (rule quoted_cases [of b])
     (use assms in \<open>simp_all add: decode_char_def default_quoting_def nth_append\<close>)

lemma quoted_nonempty: "quoted b \<noteq> []" "hd (quoted b) \<noteq> EVO_REPT"
  by (rule quoted_cases [of b]; simp add: EVO_QCTL_def EVO_REPT_def)+

lemma decode_prefix_element:
  assumes "default_quoting s" "data = pre @ elem_bytes (n, b) @ post" "elem_ok (n, b)"
  shows "decode_prefix (Some s) data (length pre)
    = (n, 0, length pre + (if n = 1 then 0 else 2))"
proof (cases "n = 1")
  case True
  then show ?thesis using assms quoted_nonempty [of b]
    by (cases "quoted b") (simp_all add: decode_prefix_def default_quoting_def nth_append)
next
  case False
  then have "n \<le> 94" using assms(3) by simp
  then show ?thesis using assms quoted_nonempty [of b] False unchar_tochar [of n]
    by (cases "quoted b") (simp_all add: decode_prefix_def default_quoting_def nth_append)
qed

lemma decode_element:
  assumes "default_quoting s" "data = pre @ elem_bytes (n, b) @ post" "elem_ok (n, b)"
    and "length out + n \<le> m"
  shows "evo_decode_from enough (Some s) m data (length pre) out
    = evo_decode_from enough (Some s) m data (length pre + length (elem_bytes (n, b)))
        (out @ replicate n b)"
proof -
  let ?q = "if n = 1 then [] else [EVO_REPT, tochar (of_nat n)]"
  have "data = (pre @ ?q) @ quoted b @ post" using assms(2) by simp
  from decode_char_quoted [OF assms(1) this]
  have char: "decode_char (Some s) data (length pre + length ?q)
      = (b, length pre + length (elem_bytes (n, b)))" by simp
  have "length pre + length ?q < length data"
    using assms(2) quoted_nonempty(1) [of b] by (cases "quoted b") auto
  then show ?thesis
    using decode_prefix_element [OF assms(1-3)] char assms(4)
    by (subst evo_decode_from.simps)
       (simp add: Let_def evo_kermit_size_within_limit_def buf_reserve_def le_diff_conv2 add.commute
        del: elem_bytes.simps split: if_splits)
qed

lemma decode_elements:
  assumes "default_quoting s" "list_all elem_ok es" "length out + length (expand es) \<le> m"
    and "data = pre @ wire_bytes es"
  shows "evo_decode_from enough (Some s) m data (length pre) out = (None, out @ expand es)"
  using assms(2-)
proof (induction es arbitrary: pre out)
  case Nil
  then show ?case by (simp add: evo_decode_from.simps)
next
  case (Cons e es)
  obtain n b where e: "e = (n, b)" by (cases e)
  have "data = pre @ elem_bytes (n, b) @ wire_bytes es" using Cons.prems(3) e by simp
  from decode_element [OF assms(1) this, of out m]
  show ?case using Cons.IH [of "out @ replicate n b" "pre @ elem_bytes (n, b)"] Cons.prems
    by (simp add: e del: elem_bytes.simps)
qed

section \<open>Cutting encoded data\<close>

lemma element_len_boundary:
  assumes "data = pre @ elem_bytes (n, b) @ post" "elem_ok (n, b)"
  shows "evo_encoded_element_len data (length pre) = length (elem_bytes (n, b))"
  by (rule quoted_cases [of b])
     (use assms in \<open>auto simp: evo_encoded_element_len_def Let_def nth_append EVO_QCTL_def EVO_REPT_def\<close>)

lemma elem_bytes_length: "1 \<le> length (elem_bytes e)" "length (elem_bytes e) \<le> 4"
  by (cases e; rule quoted_cases [of "snd e"]; simp)+

lemma chunk_loop_boundary:
  assumes "wire = wire_bytes (es @ fs @ gs)" "list_all elem_ok gs" "0 < m"
  shows "\<exists>us vs. gs = us @ vs \<and> evo_chunk_loop wire (length (wire_bytes es)) m (length (wire_bytes fs))
      = length (wire_bytes (fs @ us)) \<and> (fs = [] \<and> gs \<noteq> [] \<longrightarrow> us \<noteq> [])
    \<and> (length (wire_bytes fs) \<le> max m 4 \<longrightarrow> length (wire_bytes (fs @ us)) \<le> max m 4)"
  using assms(1,2)
proof (induction gs arbitrary: fs)
  case Nil
  then show ?case by (intro exI [of _ "[]"]) (simp add: evo_chunk_loop.simps)
next
  case (Cons g gs)
  obtain n b where g: "g = (n, b)" by (cases g)
  have boundary: "evo_encoded_element_len wire (length (wire_bytes es) + length (wire_bytes fs))
      = length (elem_bytes g)"
    using element_len_boundary [of wire "wire_bytes (es @ fs)" n b "wire_bytes gs"] Cons.prems g
    by (simp del: elem_bytes.simps)
  have g1: "1 \<le> length (elem_bytes g)" "length (elem_bytes g) \<le> 4" by (rule elem_bytes_length)+
  have inside: "length (wire_bytes es) + length (wire_bytes fs) < length wire"
    using Cons.prems(1) g1(1) by (cases "elem_bytes g") simp_all
  have fs0: "length (wire_bytes fs) = 0 \<longleftrightarrow> fs = []"
    using elem_bytes_length(1) by (cases fs) (auto simp: Suc_le_eq)
  show ?case
  proof (cases "length (wire_bytes fs) < m \<and> (length (wire_bytes fs) = 0
      \<or> length (wire_bytes fs) + length (elem_bytes g) \<le> m)")
    case True
    have "evo_chunk_loop wire (length (wire_bytes es)) m (length (wire_bytes fs))
        = evo_chunk_loop wire (length (wire_bytes es)) m (length (wire_bytes (fs @ [g])))"
      using True inside g1 by (subst evo_chunk_loop.simps) (auto simp: boundary Let_def)
    moreover obtain us vs where "gs = us @ vs"
      "evo_chunk_loop wire (length (wire_bytes es)) m (length (wire_bytes (fs @ [g])))
        = length (wire_bytes ((fs @ [g]) @ us))"
      "length (wire_bytes (fs @ [g])) \<le> max m 4 \<longrightarrow> length (wire_bytes ((fs @ [g]) @ us)) \<le> max m 4"
      using Cons.IH [of "fs @ [g]"] Cons.prems by auto
    moreover have "length (wire_bytes (fs @ [g])) \<le> max m 4" using True g1 by auto
    ultimately show ?thesis by (intro exI [of _ "g # us"] exI [of _ vs]) simp
  next
    case False
    then have "evo_chunk_loop wire (length (wire_bytes es)) m (length (wire_bytes fs))
        = length (wire_bytes fs)"
      using inside g1 by (subst evo_chunk_loop.simps) (auto simp: boundary Let_def)
    moreover have "fs \<noteq> []" using False assms(3) fs0 by auto
    ultimately show ?thesis by (intro exI [of _ "[]"] exI [of _ "g # gs"]) simp
  qed
qed

text \<open>The chunks in which \<open>evo_put_chunks\<close> sends encoded data.\<close>

function evo_chunks :: "bytes \<Rightarrow> nat \<Rightarrow> nat \<Rightarrow> bytes list" where
  "evo_chunks wire m off =
     (if off < length wire then
        take (evo_put_chunk_len wire off m) (drop off wire)
          # evo_chunks wire m (off + evo_put_chunk_len wire off m)
      else [])"
  by pat_completeness auto

termination
proof (relation "measure (\<lambda>(wire, m, off). length wire - off)", goal_cases)
  case (2 wire m off)
  then show ?case using chunk_len_pos [of off wire m] by (simp add: diff_less_mono2)
qed simp

declare evo_chunks.simps [simp del]

lemma chunks_elements:
  assumes "wire = wire_bytes (es @ gs)" "list_all elem_ok gs"
  shows "\<exists>gss. concat gss = gs \<and> evo_chunks wire m (length (wire_bytes es)) = map wire_bytes gss
    \<and> (\<forall>fs\<in>set gss. length (wire_bytes fs) \<le> max m 4)"
  using assms
proof (induction "length gs" arbitrary: es gs rule: less_induct)
  case less
  show ?case
  proof (cases gs)
    case Nil
    then show ?thesis using less.prems(1) by (intro exI [of _ "[]"]) (simp add: evo_chunks.simps)
  next
    case (Cons g gs')
    define m' where "m' = (if m = 0 then 1 else m)"
    then have m': "0 < m'" "max m' 4 = max m 4" by auto
    obtain us vs where us: "gs = us @ vs" "us \<noteq> []" "length (wire_bytes us) \<le> max m 4"
      "evo_chunk_loop wire (length (wire_bytes es)) m' 0 = length (wire_bytes us)"
      using chunk_loop_boundary [of wire es "[]" gs m'] less.prems m' Cons
      by (auto simp del: wire_simps(2))
    have pos: "0 < length (wire_bytes us)"
      using us(2) elem_bytes_length(1) by (cases us) (auto simp: Suc_le_eq)
    have chunk: "evo_put_chunk_len wire (length (wire_bytes es)) m = length (wire_bytes us)"
      using us(4) pos by (simp add: evo_put_chunk_len_def Let_def m'_def)
    have "length vs < length gs" using us(1,2) by simp
    then obtain vss where vss: "concat vss = vs"
      "evo_chunks wire m (length (wire_bytes (es @ us))) = map wire_bytes vss"
      "\<forall>fs\<in>set vss. length (wire_bytes fs) \<le> max m 4"
      using less.hyps [of vs "es @ us"] less.prems us(1) by auto
    have "evo_chunks wire m (length (wire_bytes es)) = map wire_bytes (us # vss)"
      using pos us(1) less.prems(1) vss(2) chunk
      by (subst evo_chunks.simps) (simp add: chunk)
    then show ?thesis
      using vss(1,3) us(1,3) by (intro exI [of _ "us # vss"]) (auto split: if_splits)
  qed
qed

text \<open>
  Encoded data as elements (\<open>es\<close>), and the chunks as groups of elements (\<open>gss\<close>), each of which
  the decoder expands.
\<close>

lemma encode_chunks:
  assumes "default_quoting s" "length data \<le> m"
  shows "\<exists>es gss. evo_encode enough data [] = (None, wire_bytes es) \<and> expand es = data
    \<and> evo_decode enough (Some s) m (wire_bytes es) [] = (None, data)
    \<and> concat gss = es \<and> concat (map wire_bytes gss) = wire_bytes es
    \<and> evo_chunks (wire_bytes es) c 0 = map wire_bytes gss
    \<and> (\<forall>fs\<in>set gss. length (wire_bytes fs) \<le> max c 4
          \<and> evo_decode enough (Some s) m (wire_bytes fs) [] = (None, expand fs))"
proof -
  obtain es where es: "list_all elem_ok es" "expand es = data"
    "evo_encode_from enough data 0 [] = (None, wire_bytes es)"
    using encode_gives_elements [of 0 data "[]"] by auto
  obtain gss where gss: "concat gss = es" "evo_chunks (wire_bytes es) c 0 = map wire_bytes gss"
    "\<forall>fs\<in>set gss. length (wire_bytes fs) \<le> max c 4"
    using chunks_elements [of "wire_bytes es" "[]" es c] es(1) by auto
  have part: "evo_decode enough (Some s) m (wire_bytes fs) [] = (None, expand fs)"
    if "list_all elem_ok fs" "length (expand fs) \<le> m" for fs
    using decode_elements [OF assms(1) that(1), of "[]" m _ "[]"] that(2) by (simp add: evo_decode_def)
  have parts: "list_all elem_ok fs \<and> length (expand fs) \<le> m" if fs: "fs \<in> set gss" for fs
  proof -
    obtain a b where "gss = a @ fs # b" using split_list [OF fs] by auto
    then have "es = concat a @ fs @ concat b" using gss(1) by simp
    then show ?thesis using es(1,2) assms(2) by auto
  qed
  have concat_wire: "concat (map wire_bytes gss) = wire_bytes (concat gss)" for gss
    by (induction gss) simp_all
  have "evo_encode enough data [] = (None, wire_bytes es)"
    by (simp add: evo_encode_def buf_reserve_def es(3))
  then show ?thesis
    using part [of es] es(1,2) assms(2) gss part parts concat_wire [of gss]
    by (intro exI [of _ es] exI [of _ gss] conjI) simp_all
qed

text \<open>
  C27: The encoding of data is undone by the decoder, and it may be cut for transmission: for
  every block of data that is within the limit of the receiver, and every session with the
  default quoting, the chunks in which the encoded data are sent are at most as long as
  allowed (an element of four bytes excepted), together they are the encoded data, each of them
  can be decoded on its own, and the results together are the block.
\<close>

theorem evo_encode_decode:
  assumes "default_quoting s" "length data \<le> m"
  shows "\<exists>wire. evo_encode enough data [] = (None, wire)
    \<and> evo_decode enough (Some s) m wire [] = (None, data)
    \<and> concat (evo_chunks wire c 0) = wire
    \<and> (\<forall>chunk\<in>set (evo_chunks wire c 0). length chunk \<le> max c 4
          \<and> fst (evo_decode enough (Some s) m chunk []) = None)
    \<and> concat (map (\<lambda>chunk. snd (evo_decode enough (Some s) m chunk [])) (evo_chunks wire c 0)) = data"
proof -
  obtain es gss where w: "evo_encode enough data [] = (None, wire_bytes es)" "expand es = data"
      "evo_decode enough (Some s) m (wire_bytes es) [] = (None, data)" "concat gss = es"
      "concat (map wire_bytes gss) = wire_bytes es" "evo_chunks (wire_bytes es) c 0 = map wire_bytes gss"
      "\<forall>fs\<in>set gss. length (wire_bytes fs) \<le> max c 4
         \<and> evo_decode enough (Some s) m (wire_bytes fs) [] = (None, expand fs)"
    using encode_chunks [OF assms, of c] by blast
  have "concat (map expand gss) = expand (concat gss)" for gss
    by (induction gss) simp_all
  then have expanded: "concat (map expand gss) = data" using w(2,4) by simp
  have parts: "map (\<lambda>chunk. snd (evo_decode enough (Some s) m chunk [])) (map wire_bytes gss)
      = map expand gss"
    using w(7) by simp
  have "concat (map (\<lambda>chunk. snd (evo_decode enough (Some s) m chunk []))
      (evo_chunks (wire_bytes es) c 0)) = data"
    unfolding w(6) parts by (rule expanded)
  then show ?thesis using w by (intro exI [of _ "wire_bytes es"] conjI) auto
qed

theorem evo_encode_decode_witness:
  "\<exists>wire. evo_encode enough [0x41, 0x41, 0x41, 0x41, 0x0D, 0x23] [] = (None, wire)
     \<and> evo_decode enough (Some evo_session_init) 10 wire [] = (None, [0x41, 0x41, 0x41, 0x41, 0x0D, 0x23])"
proof -
  have "default_quoting evo_session_init"
    by (simp add: default_quoting_def evo_session_init_def)
  from evo_encode_decode [OF this, of "[0x41, 0x41, 0x41, 0x41, 0x0D, 0x23]" 10 4]
  show ?thesis by auto
qed

section \<open>Packets as the specification has them\<close>

definition check_ok :: "evo_session \<Rightarrow> bool" where
  "check_ok s \<longleftrightarrow> 1 \<le> es_check_type s \<and> es_check_type s \<le> 3"

definition check_bytes :: "nat \<Rightarrow> bytes \<Rightarrow> bytes" where
  "check_bytes k body = snd (evo_block_check enough body k [])"

definition packet_head :: "nat \<Rightarrow> u8 \<Rightarrow> u8 \<Rightarrow> nat \<Rightarrow> bytes" where
  "packet_head k seq type len =
     (if len + 2 + k \<le> 94 then [tochar (of_nat (len + 2 + k)), tochar (ucast (seq mod 64)), type]
      else (let h = [tochar 0, tochar (ucast (seq mod 64)), type, tochar (of_nat ((len + k) div 95)),
                     tochar (of_nat ((len + k) mod 95))]
            in h @ [evo_checksum h]))"

definition packet_bytes :: "evo_session \<Rightarrow> u8 \<Rightarrow> u8 \<Rightarrow> bytes \<Rightarrow> bytes" where
  "packet_bytes s seq type data =
     (let k = es_check_type s; body = packet_head k seq type (length data) @ data
      in EVO_SOH # body @ check_bytes k body @ [EVO_CR])"

lemma block_check_enough:
  assumes "1 \<le> k" "k \<le> 3"
  shows "evo_block_check enough body k out = (None, out @ check_bytes k body)"
    and "length (check_bytes k body) = k"
proof -
  have "k = 1 \<or> k = 2 \<or> k = 3" using assms by auto
  then show "evo_block_check enough body k out = (None, out @ check_bytes k body)"
    "length (check_bytes k body) = k"
    by (auto simp: check_bytes_def evo_block_check_def Let_def)
qed

lemma check_valid_iff:
  assumes "1 \<le> k" "k \<le> 3" "length c = k"
  shows "evo_check_block_check enough (b @ c) k \<longleftrightarrow> c = check_bytes k b"
  using assms block_check_enough(1) [OF assms(1,2), of b "[]"]
    block_check_enough(2) [OF assms(1,2), of b]
  by (auto simp: evo_check_block_check_def)

lemma make_packet_enough:
  assumes "check_ok s"
  shows "evo_make_packet enough seq type data (Some s) pkt = (None, pkt @ packet_bytes s seq type data)"
  using assms block_check_enough(1) [of "es_check_type s"]
  by (simp add: evo_make_packet_def packet_bytes_def packet_head_def check_ok_def Let_def
      EVO_SHORT_BODY_MAX_def)

lemma tochar_unat: "n \<le> 94 \<Longrightarrow> unat (tochar (of_nat n)) = n + 32"
proof -
  assume n: "n \<le> 94"
  have narrow: "(ucast (of_nat m :: u32) :: u8) = of_nat m" for m
    by (simp add: word_unat_eq_iff unsigned_ucast_eq unat_of_nat take_bit_eq_mod mod_mod_cancel)
  have "tochar (of_nat n) = of_nat (n + 32)"
    unfolding tochar_def narrow [symmetric] by simp
  then show ?thesis using n by (simp add: unat_of_nat take_bit_nat_eq_self del: of_nat_add)
qed

lemma tochar_valid: "n \<le> 94 \<Longrightarrow> evo_kermit_length_char_valid (tochar (of_nat n))"
  using tochar_unat [of n] tochar_unat [of 94]
  by (simp add: evo_kermit_length_char_valid_def EVO_SHORT_BODY_MAX_def word_le_nat_alt)

lemma tochar_zero_iff: "n \<le> 94 \<Longrightarrow> tochar (of_nat n) = tochar 0 \<longleftrightarrow> n = 0"
  using tochar_unat [of n] tochar_unat [of 0] by (auto simp: word_unat_eq_iff)

lemma seq_char:
  "ucast (unchar (tochar (ucast (seq mod 64 :: u8)))) = seq mod 64"
  "0x20 \<le> tochar (ucast (seq mod 64 :: u8))" "tochar (ucast (seq mod 64 :: u8)) < 0x60"
proof -
  define n where "n = unat (seq mod 64)"
  have "unat (64 :: u8) = 64" by simp
  then have n: "n < 64" by (simp add: n_def unat_mod)
  have w: "(ucast (seq mod 64) :: u32) = of_nat n" by (simp add: n_def)
  show "0x20 \<le> tochar (ucast (seq mod 64 :: u8))" "tochar (ucast (seq mod 64 :: u8)) < 0x60"
    unfolding w using n tochar_unat [of n] by (simp_all add: word_le_nat_alt word_less_nat_alt)
  have "unat (unchar (tochar (of_nat n))) = n" using n by (intro unchar_tochar) simp
  then have "unchar (tochar (of_nat n)) = of_nat n" by (metis of_nat_unat ucast_id)
  then have "ucast (unchar (tochar (ucast (seq mod 64)))) = (of_nat n :: u8)"
    unfolding w by (simp add: word_unat_eq_iff unsigned_ucast_eq unat_of_nat take_bit_eq_mod mod_mod_cancel)
  then show "ucast (unchar (tochar (ucast (seq mod 64 :: u8)))) = seq mod 64" by (simp add: n_def)
qed

lemma packet_head_parts:
  fixes k len :: nat and seq type :: u8
  assumes "1 \<le> k" "k \<le> 3" "len + k \<le> 2040"
  defines "h \<equiv> packet_head k seq type len"
  shows "h ! 0 = tochar 0 \<longleftrightarrow> 94 < len + 2 + k" "h ! 1 = tochar (ucast (seq mod 64))" "h ! 2 = type"
    and "length h = (if len + 2 + k \<le> 94 then 3 else 6)"
    and "94 < len + 2 + k \<Longrightarrow> h ! 5 = evo_checksum (take 5 h)"
  using assms tochar_zero_iff [of "len + 2 + k"]
  by (auto simp: packet_head_def Let_def)

lemma parse_packet:
  assumes "check_ok s" "length data + es_check_type s \<le> 2040"
  shows "evo_parse_packet enough (packet_bytes s seq type data) (Some s) = Inr (seq mod 64, type, data)"
proof -
  define k where "k = es_check_type s"
  define h where "h = packet_head k seq type (length data)"
  have k: "1 \<le> k" "k \<le> 3" using assms(1) by (simp_all add: check_ok_def k_def)
  have len: "length data + k \<le> 2040" using assms(2) by (simp add: k_def)
  note head = packet_head_parts [OF k len, of seq type, folded h_def]
  let ?check = "check_bytes k (h @ data)"
  have check: "length ?check = k" by (rule block_check_enough(2) [OF k])
  have raw: "packet_bytes s seq type data = EVO_SOH # (h @ data @ ?check) @ [EVO_CR]"
    by (simp add: packet_bytes_def h_def k_def Let_def)
  have h3: "3 \<le> length h" by (simp add: head(4))
  have valid: "evo_check_block_check enough (h @ data @ ?check) k"
    using check_valid_iff [OF k check, of "h @ data"] by simp
  have at: "(h @ r) ! i = h ! i" if "i < 3" for i r using that h3 by (simp add: nth_append)
  have elems: "(h @ r) ! 0 = h ! 0" "(h @ r) ! 1 = h ! 1" "(h @ r) ! 2 = h ! 2" for r
    by (rule at; simp)+
  have ext: "(h @ r) ! 5 = h ! 5" "take 5 (h @ r) = take 5 h" if "94 < length data + 2 + k" for r
    using that head(4) by (simp_all add: nth_append)
  have "\<not> tochar (ucast (seq mod 64)) < 0x20" "\<not> 0x60 \<le> tochar (ucast (seq mod 64))"
    using seq_char(2,3) [of seq] by auto
  then show ?thesis
    unfolding evo_parse_packet_def raw
    using h3 head check valid elems ext k seq_char(1) [of seq]
    by (simp add: Let_def nth_append k_def [symmetric])
qed

section \<open>The cyclic redundancy check\<close>

text \<open>The reference: the polynomial \<open>x^16 + x^12 + x^5 + 1\<close>, reflected, one bit at a time.\<close>

definition crc_bit :: "u16 \<Rightarrow> u16" where
  "crc_bit c = drop_bit 1 c XOR (if bit c 0 then 0x8408 else 0)"

definition crc_reference :: "bytes \<Rightarrow> u16" where
  "crc_reference body = foldl (\<lambda>c b. (crc_bit ^^ 8) (c XOR ucast b)) 0 body"

lemma word16_eqI:
  fixes a b :: u16
  assumes "\<And>n. n \<in> {0,1,2,3,4,5,6,7,8,9,10,11,12,13,14,15} \<Longrightarrow> bit a n = bit b n"
  shows "a = b"
proof (rule bit_word_eqI)
  fix n assume "n < LENGTH(16)"
  then have "n \<in> {0,1,2,3,4,5,6,7,8,9,10,11,12,13,14,15}" by simp arith
  then show "bit a n = bit b n" by (rule assms)
qed

lemma nibble_cases:
  fixes c :: "16 word"
  assumes "\<And>q. q \<in> {0,1,2,3,4,5,6,7,8,9,10,11,12,13,14,15} \<Longrightarrow> P q"
  shows "P (c AND 0xF)"
proof (rule assms)
  have "c AND 0xF = take_bit 4 c" by (simp add: take_bit_eq_mask mask_eq_exp_minus_1)
  moreover have "unat (take_bit 4 c) = take_bit 4 (unat c)" by (rule unsigned_take_bit_eq)
  moreover have "take_bit 4 (unat c) < 2 ^ 4" by (rule take_bit_nat_less_exp)
  ultimately have "unat (c AND 0xF) < 16" by simp
  then have "unat (c AND 0xF) \<in> {0,1,2,3,4,5,6,7,8,9,10,11,12,13,14,15}" by simp arith
  then show "c AND 0xF \<in> {0,1,2,3,4,5,6,7,8,9,10,11,12,13,14,15}"
    by (auto simp: word_unat_eq_iff)
qed

lemma table_bits:
  "((c :: u16) AND 0xF) * 0x1081 = push_bit 12 (c AND 0xF) XOR push_bit 7 (c AND 0xF) XOR (c AND 0xF)"
  by (rule nibble_cases [of "\<lambda>q. q * 0x1081 = push_bit 12 q XOR push_bit 7 q XOR q"]) auto

lemma funpow_four: "(f ^^ 4) x = f (f (f (f x)))"
  by (simp add: numeral_eq_Suc)

lemma polynomial_bits: "bit (0x8408 :: u16) n \<longleftrightarrow> n = 3 \<or> n = 10 \<or> n = 15"
proof (cases "n < 16")
  case True
  then have "n \<in> {0,1,2,3,4,5,6,7,8,9,10,11,12,13,14,15}" by simp arith
  then show ?thesis by auto
next
  case False
  then have "\<not> bit (0x8408 :: u16) n" using bit_imp_le_length [of "0x8408 :: u16" n] by auto
  then show ?thesis using False by auto
qed

definition in_polynomial :: "nat \<Rightarrow> bool" where
  "in_polynomial n \<longleftrightarrow> n = 3 \<or> n = 10 \<or> n = 15"

lemma crc_bit_bits:
  "bit (crc_bit c) n \<longleftrightarrow> bit c (Suc n) \<noteq> (bit c 0 \<and> in_polynomial n)"
  unfolding crc_bit_def bit_xor_iff bit_drop_bit_eq if_distrib [of "\<lambda>w. bit w n"] polynomial_bits
  by (simp add: in_polynomial_def)

lemma four_crc_bits:
  "bit ((crc_bit ^^ 4) c) n \<longleftrightarrow>
     ((((bit c (n + 4) \<noteq> (bit c 0 \<and> in_polynomial (n + 3))) \<noteq> (bit c 1 \<and> in_polynomial (n + 2)))
       \<noteq> (bit c 2 \<and> in_polynomial (n + 1))) \<noteq> (bit c 3 \<and> in_polynomial n))"
proof -
  have low: "\<not> in_polynomial 0" "\<not> in_polynomial (Suc 0)" "\<not> in_polynomial (Suc (Suc 0))"
    by (simp_all add: in_polynomial_def)
  show ?thesis
    unfolding funpow_four crc_bit_bits by (simp add: low eval_nat_numeral)
qed

lemma nibble_bits:
  assumes "n < 16"
  shows "bit (drop_bit 4 c XOR ((c AND 0xF) * 0x1081) :: u16) n \<longleftrightarrow>
     bit c (4 + n) \<noteq> ((12 \<le> n \<and> bit c (n - 12)) \<noteq> ((7 \<le> n \<and> n < 11 \<and> bit c (n - 7)) \<noteq> (n < 4 \<and> bit c n)))"
proof -
  have q: "bit (c AND 0xF) k \<longleftrightarrow> k < 4 \<and> bit c k" for k
  proof -
    have "(0xF :: u16) = mask 4" by (simp add: mask_eq_exp_minus_1)
    then show ?thesis by (auto simp only: bit_and_iff bit_mask_iff) simp
  qed
  have a: "bit (push_bit 12 (c AND 0xF)) n \<longleftrightarrow> 12 \<le> n \<and> bit c (n - 12)"
    using assms by (auto simp only: bit_push_bit_iff q) simp_all
  have b: "bit (push_bit 7 (c AND 0xF)) n \<longleftrightarrow> 7 \<le> n \<and> n < 11 \<and> bit c (n - 7)"
    using assms by (auto simp only: bit_push_bit_iff q) simp_all
  show ?thesis
    unfolding table_bits bit_xor_iff bit_drop_bit_eq o_def a b q ..
qed

lemma four_bits: "(crc_bit ^^ 4) c = drop_bit 4 c XOR ((c AND 0xF) * 0x1081)"
proof (rule word16_eqI)
  fix n :: nat assume n: "n \<in> {0,1,2,3,4,5,6,7,8,9,10,11,12,13,14,15}"
  then have "n < 16" by auto
  then show "bit ((crc_bit ^^ 4) c) n = bit (drop_bit 4 c XOR ((c AND 0xF) * 0x1081)) n"
    unfolding nibble_bits [OF \<open>n < 16\<close>] four_crc_bits
    using n by (elim insertE emptyE; hypsubst) (simp_all add: in_polynomial_def)
qed

lemma kermit_nibble_eq: "kermit_nibble c x = drop_bit 4 c XOR (((c XOR x) AND 0xF) * 0x1081)"
  by (simp add: kermit_nibble_def Let_def)

lemma drop_byte: "drop_bit 4 (drop_bit 4 (ucast (b :: u8) :: u16)) = 0"
  by (rule bit_word_eqI) (auto simp: bit_simps dest: bit_imp_le_length)

lemma byte_step:
  "kermit_nibble (kermit_nibble c (ucast b)) (ucast (drop_bit 4 b)) = (crc_bit ^^ 8) (c XOR ucast (b :: u8))"
proof -
  let ?b = "ucast b :: u16"
  have high: "(ucast (drop_bit 4 b) :: u16) = drop_bit 4 ?b"
    by (rule bit_word_eqI) (auto simp: bit_simps dest: bit_imp_le_length)
  have "(crc_bit ^^ 8) (c XOR ?b) = (crc_bit ^^ (4 + 4)) (c XOR ?b)" by simp
  also have "\<dots> = (crc_bit ^^ 4) ((crc_bit ^^ 4) (c XOR ?b))" by (simp only: funpow_add o_def)
  also have "(crc_bit ^^ 4) (c XOR ?b) = kermit_nibble c ?b XOR drop_bit 4 ?b"
    unfolding four_bits kermit_nibble_eq drop_bit_xor by (simp only: xor.assoc xor.commute xor.left_commute)
  also have "(crc_bit ^^ 4) \<dots> = kermit_nibble (kermit_nibble c ?b) (drop_bit 4 ?b)"
    unfolding four_bits kermit_nibble_eq [of "kermit_nibble c ?b"] drop_bit_xor drop_byte xor.right_neutral ..
  finally show ?thesis unfolding high ..
qed

lemma crc_is_reference: "evo_crc16_kermit body = crc_reference body"
  unfolding evo_crc16_kermit_def crc_reference_def byte_step ..

text \<open>The step of the reference is injective, so that a wrong byte is never made good.\<close>

lemma crc_bit_injective: "inj crc_bit"
proof (rule injI)
  fix u v assume eq: "crc_bit u = crc_bit v"
  have "bit u 0 = bit v 0"
    using arg_cong [OF eq, of "\<lambda>w. bit w 15"] bit_imp_le_length [of u 16] bit_imp_le_length [of v 16]
    by (auto simp: crc_bit_bits in_polynomial_def)
  moreover have "bit u (Suc n) = bit v (Suc n)" for n
    using arg_cong [OF eq, of "\<lambda>w. bit w n"] calculation by (auto simp: crc_bit_bits)
  ultimately have "bit u n = bit v n" for n by (cases n) simp_all
  then show "u = v" by (intro bit_word_eqI)
qed

lemma reference_step_injective:
  "(crc_bit ^^ 8) (c XOR x) = (crc_bit ^^ 8) (c' XOR x') \<Longrightarrow> c XOR x = c' XOR x'"
  using inj_fn [OF crc_bit_injective, of 8] by (simp add: inj_eq)

lemma crc_from_injective:
  "foldl (\<lambda>c b. (crc_bit ^^ 8) (c XOR ucast b)) c bs
     = foldl (\<lambda>c b. (crc_bit ^^ 8) (c XOR ucast b)) c' (bs :: bytes) \<Longrightarrow> c = c'"
proof (induction bs arbitrary: c c')
  case (Cons b bs)
  from Cons.IH [of "(crc_bit ^^ 8) (c XOR ucast b)" "(crc_bit ^^ 8) (c' XOR ucast b)"] Cons.prems
  have "c XOR ucast b = c' XOR ucast b" by (intro reference_step_injective) simp
  then show ?case using xor_cancel(2) [of "ucast b" c c'] by (simp add: xor.commute)
qed simp

lemma crc_detects_byte:
  assumes "evo_crc16_kermit (us @ b # vs) = evo_crc16_kermit (us @ b' # vs)"
  shows "b = b'"
proof -
  let ?c = "foldl (\<lambda>c b. (crc_bit ^^ 8) (c XOR ucast b)) 0 us"
  have "(crc_bit ^^ 8) (?c XOR ucast b) = (crc_bit ^^ 8) (?c XOR ucast b')"
    by (rule crc_from_injective [of _ vs])
       (use assms in \<open>simp add: crc_is_reference crc_reference_def\<close>)
  then have "(ucast b :: u16) = ucast b'" using reference_step_injective xor_cancel(2) by blast
  moreover have "unat (ucast x :: u16) = unat x" for x :: u8
  proof -
    have "unat x < 2 ^ LENGTH(8)" by (rule unsigned_less)
    then show ?thesis by (simp add: unsigned_ucast_eq take_bit_nat_eq_self)
  qed
  ultimately show "b = b'" by (metis word_unat_eq_iff)
qed

lemma tochar_masked:
  assumes "tochar (x AND 0x3F) = tochar (y AND 0x3F)"
  shows "x AND 0x3F = (y :: u32) AND 0x3F"
proof -
  have small: "\<exists>n\<le>94. v AND 0x3F = of_nat n" for v :: u32
  proof -
    have "v AND 0x3F = take_bit 6 v" by (simp add: take_bit_eq_mask mask_eq_exp_minus_1)
    moreover have "unat (take_bit 6 v) = take_bit 6 (unat v)" by (rule unsigned_take_bit_eq)
    moreover have "take_bit 6 (unat v) < 2 ^ 6" by (rule take_bit_nat_less_exp)
    ultimately have "unat (v AND 0x3F) \<le> 94" by simp
    then show ?thesis by (intro exI [of _ "unat (v AND 0x3F)"]) simp
  qed
  obtain m n where "m \<le> 94" "x AND 0x3F = of_nat m" "n \<le> 94" "y AND 0x3F = of_nat n"
    using small [of x] small [of y] by auto
  note mn = this
  have "unat (tochar (of_nat m)) = unat (tochar (of_nat n))"
    using assms unfolding mn(2,4) by (rule arg_cong)
  then have "m = n" unfolding tochar_unat [OF mn(1)] tochar_unat [OF mn(3)] by simp
  then show ?thesis unfolding mn(2,4) by (rule arg_cong)
qed

lemma crc_chars_injective:
  assumes "check_bytes 3 body = check_bytes 3 body'"
  shows "evo_crc16_kermit body = evo_crc16_kermit body'"
proof -
  let ?w = "\<lambda>body. ucast (evo_crc16_kermit body) :: u32"
  have masks: "(0xF :: u32) = mask 4" "(0x3F :: u32) = mask 6" by (simp_all add: mask_eq_exp_minus_1)
  have four: "drop_bit 12 (ucast (w :: u16) :: u32) AND 0xF = drop_bit 12 (ucast w) AND 0x3F" for w
    unfolding masks by (rule bit_word_eqI) (auto simp: bit_simps dest: bit_imp_le_length)
  have "check_bytes 3 body = [tochar (drop_bit 12 (?w body) AND 0x3F), tochar (drop_bit 6 (?w body) AND 0x3F),
      tochar (?w body AND 0x3F)]" for body
    by (simp add: check_bytes_def evo_block_check_def Let_def four)
  then have eq: "drop_bit 12 (?w body) AND mask 6 = drop_bit 12 (?w body') AND mask 6"
    "drop_bit 6 (?w body) AND mask 6 = drop_bit 6 (?w body') AND mask 6"
    "?w body AND mask 6 = ?w body' AND mask 6"
    using assms unfolding masks [symmetric] by (auto dest: tochar_masked)
  show ?thesis
  proof (rule bit_word_eqI)
    fix n assume n: "n < LENGTH(16)"
    have bits: "bit (drop_bit k (ucast (w :: u16) :: u32) AND mask 6) (n - k) \<longleftrightarrow> bit w n"
      if "k \<le> n" "n < k + 6" for k w using that n by (auto simp: bit_simps)
    have "n < 6 \<or> 6 \<le> n \<and> n < 12 \<or> 12 \<le> n \<and> n < 18" using n by auto
    then show "bit (evo_crc16_kermit body) n = bit (evo_crc16_kermit body') n"
      using bits [of 12 "evo_crc16_kermit body"] bits [of 12 "evo_crc16_kermit body'"]
        bits [of 6 "evo_crc16_kermit body"] bits [of 6 "evo_crc16_kermit body'"]
        bits [of 0 "evo_crc16_kermit body"] bits [of 0 "evo_crc16_kermit body'"] eq
      by (elim disjE) simp_all
  qed
qed

lemma block_corruption:
  assumes "j < length body + 3" "x \<noteq> (body @ check_bytes 3 body) ! j"
  shows "\<not> evo_check_block_check enough ((body @ check_bytes 3 body)[j := x]) 3"
proof (cases "j < length body")
  case True
  let ?check = "check_bytes 3 body" and ?body' = "take j body @ x # drop (Suc j) body"
  have check: "length ?check = 3" by (rule block_check_enough(2)) simp_all
  have body: "body = take j body @ body ! j # drop (Suc j) body"
    using True by (rule id_take_nth_drop)
  have upd_body: "(body @ ?check)[j := x] = ?body' @ ?check"
    using True by (simp add: list_update_append upd_conv_take_nth_drop)
  have "x \<noteq> body ! j" using assms(2) True by (simp add: nth_append)
  then have "check_bytes 3 ?body' \<noteq> ?check"
    using crc_detects_byte [of "take j body" x "drop (Suc j) body" "body ! j"]
      crc_chars_injective [of ?body' body] body by metis
  then show ?thesis unfolding upd_body using check check_valid_iff [of 3 ?check ?body'] by simp
next
  case False
  let ?check = "check_bytes 3 body" and ?j = "j - length body"
  have check: "length ?check = 3" by (rule block_check_enough(2)) simp_all
  have "(body @ ?check)[j := x] = body @ ?check[?j := x]" using False by (simp add: list_update_append)
  moreover have "?check[?j := x] ! ?j \<noteq> ?check ! ?j"
    using False assms check by (simp add: nth_append)
  then have "?check[?j := x] \<noteq> ?check" by metis
  ultimately show ?thesis using check check_valid_iff [of 3 "?check[?j := x]" body] by simp
qed

text \<open>
  C36: The check of type 3 is the CRC with the polynomial \<open>x^16 + x^12 + x^5 + 1\<close> computed bit by
  bit, and with it a packet that was changed on the way in one byte, in its header, its data or
  its check, is never accepted.
\<close>

theorem evo_packet_corruption:
  assumes "es_check_type s = 3" "length data + 3 \<le> 2040"
    and "raw = packet_bytes s seq type data" "0 < i" "i < length raw - 1" "x \<noteq> raw ! i"
  shows "evo_crc16_kermit body = crc_reference body
    \<and> evo_parse_packet enough (raw[i := x]) (Some s) = Inl ERR_INVALID_PACKET"
proof -
  define body where "body = packet_head 3 seq type (length data) @ data"
  let ?check = "check_bytes 3 body" and ?n = "length body"
  have check: "length ?check = 3" by (rule block_check_enough(2)) simp_all
  have raw: "raw = EVO_SOH # (body @ ?check) @ [EVO_CR]"
    unfolding assms(3) by (simp add: packet_bytes_def body_def assms(1) Let_def)
  define j where "j = i - 1"
  have i: "i = Suc j" and j: "j < ?n + 3" using assms(4,5) check by (simp_all add: j_def raw)
  let ?b = "(body @ ?check)[j := x]"
  have "raw ! i = (body @ ?check) ! j"
    unfolding raw i nth_Cons_Suc using j check by (subst nth_append) simp
  then have x: "x \<noteq> (body @ ?check) ! j" using assms(6) by simp
  have upd: "raw[i := x] = EVO_SOH # ?b @ [EVO_CR]"
  proof -
    have "((body @ ?check) @ [EVO_CR])[j := x] = ?b @ [EVO_CR]"
      by (rule list_update_append1) (use j check in simp)
    then show ?thesis unfolding raw i list_update.simps nat.case by (rule arg_cong)
  qed
  have "\<not> evo_check_block_check enough ?b 3" using block_corruption [OF j x] .
  then have "evo_parse_packet enough (raw[i := x]) (Some s) = Inl ERR_INVALID_PACKET"
    using check by (simp add: upd evo_parse_packet_def Let_def nth_append assms(1))
  then show ?thesis using crc_is_reference by simp
qed

theorem evo_packet_corruption_witness:
  "\<exists>s. es_check_type s = 3 \<and> (\<exists>raw. raw = packet_bytes s 0 0x44 [1, 2]
     \<and> evo_parse_packet enough raw (Some s) = Inr (0, 0x44, [1, 2])
     \<and> evo_parse_packet enough (raw[4 := raw ! 4 + 1]) (Some s) = Inl ERR_INVALID_PACKET)"
proof -
  let ?s = "evo_session_init\<lparr>es_check_type := 3\<rparr>"
  let ?raw = "packet_bytes ?s 0 0x44 [1, 2]"
  have "4 < length ?raw - 1" "?raw ! 4 + 1 \<noteq> ?raw ! 4"
    by (simp_all add: packet_bytes_def packet_head_def block_check_enough(2) Let_def)
  then have "evo_parse_packet enough (?raw[4 := ?raw ! 4 + 1]) (Some ?s) = Inl ERR_INVALID_PACKET"
    using evo_packet_corruption [of ?s "[1, 2]" ?raw 0 "0x44" 4 "?raw ! 4 + 1" "[]"] by simp
  moreover have "evo_parse_packet enough ?raw (Some ?s) = Inr (0, 0x44, [1, 2])"
    using parse_packet [of ?s "[1, 2]" 0 "0x44"] by (simp add: check_ok_def)
  ultimately show ?thesis by (intro exI [of _ ?s]) simp
qed

end
