(* ===== verification/EvoLink.thy ===== *)
theory EvoLink
  imports EvoKermit
begin

text \<open>
  The Kermit transport on the cable, the second part of \<^verbatim>\<open>libticalcs/trunk/src/evo_cmd.cc\<close>:
  receiving a packet, sending one until it is acknowledged, and the two requests. The loops
  that wait for a packet to start and for the end of a transfer take fuel, as the peer decides
  how long they run; when it is used up the outcome is \<open>OUT_OF_FUEL\<close>. The theorems say how much
  is enough: one unit more than there are bytes in front of the packet, and one round per packet.
\<close>

section \<open>On the cable\<close>

definition cable_reset :: "'d calc_env \<Rightarrow> 'd calc_handle \<Rightarrow> 'd calc_handle" where
  "cable_reset E h = h\<lparr>kh_cable := snd (ticables_cable_reset E (kh_cable h))\<rparr>"

definition evo_recv_append ::
  "(nat \<Rightarrow> bool) \<Rightarrow> 'd calc_env \<Rightarrow> bytes \<Rightarrow> nat \<Rightarrow> 'd calc_handle \<Rightarrow> ret \<times> bytes \<times> 'd calc_handle" where
  "evo_recv_append alloc E raw len h =
     (case buf_reserve alloc (length raw + len) of
        Some e \<Rightarrow> (Some e, raw, h)
      | None \<Rightarrow>
          (let (r, bs, h) = cable_recv E len h
           in (case r of Some e \<Rightarrow> (Some e, raw, h) | None \<Rightarrow> (None, raw @ bs, h))))"

definition evo_recv_byte ::
  "(nat \<Rightarrow> bool) \<Rightarrow> 'd calc_env \<Rightarrow> bytes \<Rightarrow> u8 \<Rightarrow> 'd calc_handle
     \<Rightarrow> ret \<times> (bytes \<times> u8) \<times> 'd calc_handle" where
  "evo_recv_byte alloc E raw byte h =
     (let (r, bs, h) = cable_recv E 1 h
      in (case r of Some e \<Rightarrow> (Some e, (raw, byte), h)
          | None \<Rightarrow> (let (r, raw) = buf_append alloc [bs ! 0] raw in (r, (raw, bs ! 0), h))))"

text \<open>Skipping what precedes a packet; the buffer is emptied after every other byte.\<close>

fun evo_find_soh ::
  "nat \<Rightarrow> (nat \<Rightarrow> bool) \<Rightarrow> 'd calc_env \<Rightarrow> u8 \<Rightarrow> 'd calc_handle \<Rightarrow> ret \<times> bytes \<times> 'd calc_handle" where
  "evo_find_soh 0 alloc E b h = (Some OUT_OF_FUEL, [], h)"
| "evo_find_soh (Suc fuel) alloc E b h =
     (let (r, (raw, b), h) = evo_recv_byte alloc E [] b h
      in (case r of Some e \<Rightarrow> (Some e, raw, h)
          | None \<Rightarrow> if b = EVO_SOH then (None, raw, h) else evo_find_soh fuel alloc E b h))"

definition evo_recv_raw ::
  "nat \<Rightarrow> (nat \<Rightarrow> bool) \<Rightarrow> 'd calc_env \<Rightarrow> 'd calc_handle \<Rightarrow> ret \<times> bytes \<times> 'd calc_handle" where
  "evo_recv_raw fuel alloc E h =
     andthen_val (evo_find_soh fuel alloc E 0 h) (\<lambda>raw h.
       (let (r, (raw, b), h) = evo_recv_byte alloc E raw EVO_SOH h in
        andthen_val (r, raw, h) (\<lambda>raw h.
        andthen_val
          (if b \<noteq> tochar 0 then
             (case evo_kermit_packet_remainder b None of
                Inl e \<Rightarrow> (Some e, raw, h)
              | Inr remainder \<Rightarrow> evo_recv_append alloc E raw remainder h)
           else
             andthen_val (evo_recv_append alloc E raw 4 h) (\<lambda>raw h.
               (case evo_kermit_packet_remainder b (Some (raw ! 4, raw ! 5)) of
                  Inl e \<Rightarrow> (Some e, raw, h)
                | Inr remainder \<Rightarrow> evo_recv_append alloc E raw remainder h)))
          (\<lambda>raw h. (if length raw > 0 \<and> raw ! (length raw - 1) = EVO_CR then None
                    else Some ERR_INVALID_PACKET, raw, h)))))"

text \<open>
  An error packet. The index of the message and the two letters are kept in static variables
  for the texts of the error messages.
\<close>

definition evo_results :: "u8 list list" where
  "evo_results = map (map (\<lambda>c. of_nat (of_char c)))
     [''OK'', ''ER'', ''PM'', ''NP'', ''NM'', ''FL'', ''IN'', ''NC'', ''NF'', ''CN'', ''TO'', ''DI'',
      ''UN'', ''NV'', ''VE'', ''DP'', ''BZ'', ''LB'', ''WT'', ''OW'', ''OA'', ''OM'', ''QU'', ''NR'',
      ''DR'']"

definition ticalcs_evo_error_set :: "bytes \<Rightarrow> errcode \<times> bytes \<times> nat option" where
  "ticalcs_evo_error_set data =
     (if length data = 2 \<and> (\<forall>b\<in>set data. 0x20 \<le> b \<and> b \<le> 0x7E)
      then (ERR_EVO_ERROR, data, List.find (\<lambda>i. evo_results ! i = data) [0..<length evo_results])
      else (ERR_EVO_ERROR, [], None))"

text \<open>
  Reading answers after a transmission: the packet is acknowledged, an error ends the
  transfer, at most three stale acknowledgements are passed over; after anything else the
  packet is sent again.
\<close>

datatype evo_answer = Acknowledged evo_session | Failed errcode | Resend

definition EVO_Y :: u8 where "EVO_Y = 0x59"
definition EVO_E :: u8 where "EVO_E = 0x45"
definition EVO_S :: u8 where "EVO_S = 0x53"

fun evo_responses ::
  "nat \<Rightarrow> nat \<Rightarrow> (nat \<Rightarrow> bool) \<Rightarrow> 'd calc_env \<Rightarrow> evo_session \<Rightarrow> u8 \<Rightarrow> u8 \<Rightarrow> 'd calc_handle
     \<Rightarrow> evo_answer \<times> 'd calc_handle" where
  "evo_responses 0 fuel alloc E session expected_seq type h = (Resend, h)"
| "evo_responses (Suc n) fuel alloc E session expected_seq type h =
     (let (r, raw, h) = evo_recv_raw fuel alloc E h
      in (case r of Some e \<Rightarrow> (Failed e, h)
          | None \<Rightarrow>
            (case evo_parse_packet alloc raw (Some session) of
               Inl e \<Rightarrow> (Failed e, h)
             | Inr (rseq, rtype, rdata) \<Rightarrow>
                 if rtype = EVO_Y \<and> rseq = expected_seq then
                   (Acknowledged (if type = EVO_S then evo_session_update_from_sinit rdata session
                                  else session), h)
                 else if rtype = EVO_E then (Failed (fst (ticalcs_evo_error_set rdata)), h)
                 else if rtype = EVO_Y \<and> rseq \<noteq> expected_seq
                   then evo_responses n fuel alloc E session expected_seq type h
                 else (Resend, h))))"

fun evo_attempts ::
  "nat \<Rightarrow> nat \<Rightarrow> (nat \<Rightarrow> bool) \<Rightarrow> 'd calc_env \<Rightarrow> bytes \<Rightarrow> u8 \<Rightarrow> u8 \<Rightarrow> evo_session \<Rightarrow> 'd calc_handle
     \<Rightarrow> ret \<times> evo_session \<times> 'd calc_handle" where
  "evo_attempts 0 fuel alloc E pkt expected_seq type session h = (Some ERR_NACK, session, h)"
| "evo_attempts (Suc n) fuel alloc E pkt expected_seq type session h =
     (let (r, h) = cable_send E pkt h
      in (case r of Some e \<Rightarrow> (Some e, session, h)
          | None \<Rightarrow>
            (let (a, h) = evo_responses 3 fuel alloc E session expected_seq type h
             in (case a of
                   Acknowledged session \<Rightarrow> (None, session, h)
                 | Failed e \<Rightarrow> (Some e, session, h)
                 | Resend \<Rightarrow> evo_attempts n fuel alloc E pkt expected_seq type session h))))"

definition evo_send_packet ::
  "nat \<Rightarrow> (nat \<Rightarrow> bool) \<Rightarrow> 'd calc_env \<Rightarrow> u8 \<Rightarrow> u8 \<Rightarrow> bytes \<Rightarrow> evo_session \<Rightarrow> 'd calc_handle
     \<Rightarrow> ret \<times> evo_session \<times> 'd calc_handle" where
  "evo_send_packet fuel alloc E seq type data session h =
     (let (r, pkt) = evo_make_packet alloc seq type data (Some session) []
      in (case r of Some e \<Rightarrow> (Some e, session, h)
          | None \<Rightarrow> evo_attempts 3 fuel alloc E pkt (seq mod 64) type session h))"

definition evo_ack ::
  "(nat \<Rightarrow> bool) \<Rightarrow> 'd calc_env \<Rightarrow> evo_session \<Rightarrow> u8 \<Rightarrow> bytes \<Rightarrow> 'd calc_handle \<Rightarrow> ret \<times> 'd calc_handle" where
  "evo_ack alloc E session seq data h =
     (let (r, pkt) = evo_make_packet alloc seq EVO_Y data (Some session) []
      in (case r of Some e \<Rightarrow> (Some e, h) | None \<Rightarrow> cable_send E pkt h))"

section \<open>Requests\<close>

definition evo_file_attr :: "(nat \<Rightarrow> bool) \<Rightarrow> u8 \<Rightarrow> bytes \<Rightarrow> bytes \<Rightarrow> ret \<times> bytes" where
  "evo_file_attr alloc tag val out =
     buf_append_all alloc [[tag], [tochar (of_nat (length val))], val] out"

text \<open>The digits that \<^verbatim>\<open>%zu\<close> prints.\<close>

fun decimal :: "nat \<Rightarrow> bytes" where
  "decimal n = (if n < 10 then [] else decimal (n div 10)) @ [0x30 + of_nat (n mod 10)]"

declare decimal.simps [simp del]

definition evo_sinit :: bytes where
  "evo_sinit = [0x7e, 0x30, 0x20, 0x40, 0x2d, 0x23, 0x59, 0x31, 0x7e, 0x2e, 0x22, 0x35, 0x4d]"

definition evo_attrs :: "(nat \<Rightarrow> bool) \<Rightarrow> bytes \<Rightarrow> ret \<times> bytes" where
  "evo_attrs alloc size_text =
     andthen (evo_file_attr alloc 0x22 [0x42, 0x38] []) (\<lambda>attrs.
     andthen (evo_file_attr alloc 0x31 size_text attrs) (\<lambda>attrs.
       evo_file_attr alloc 0x40 [] attrs))"

text \<open>The packets of a request are sent one after the other until one fails.\<close>

fun evo_send_packets ::
  "nat \<Rightarrow> (nat \<Rightarrow> bool) \<Rightarrow> 'd calc_env \<Rightarrow> u8 \<Rightarrow> (u8 \<times> bytes) list \<Rightarrow> evo_session \<Rightarrow> 'd calc_handle
     \<Rightarrow> ret \<times> evo_session \<times> 'd calc_handle" where
  "evo_send_packets fuel alloc E seq [] session h = (None, session, h)"
| "evo_send_packets fuel alloc E seq ((type, data) # ps) session h =
     andthen_val (evo_send_packet fuel alloc E seq type data session h) (\<lambda>session h.
       evo_send_packets fuel alloc E (seq + 1) ps session h)"

definition EVO_MAX_GET_PAYLOAD_LEN :: nat where "EVO_MAX_GET_PAYLOAD_LEN = 128 * 2 ^ 20"
definition EVO_MAX_GET_ENCODED_LEN :: nat where "EVO_MAX_GET_ENCODED_LEN = EVO_MAX_GET_PAYLOAD_LEN * 2"

record evo_get =
  eg_previous :: "u8 option"
  eg_duplicates :: nat
  eg_chunks :: bytes

text \<open>
  What a received packet does: the transfer goes on, or it ends with a return code and, on
  success, the payload.
\<close>

datatype evo_progress = Go_On evo_get | Done ret "bytes option"

definition EVO_D :: u8 where "EVO_D = 0x44"
definition EVO_B :: u8 where "EVO_B = 0x42"

definition evo_get_packet ::
  "(nat \<Rightarrow> bool) \<Rightarrow> evo_session \<Rightarrow> evo_sequence_state \<Rightarrow> u8 \<Rightarrow> u8 \<Rightarrow> bytes \<Rightarrow> evo_get \<Rightarrow> evo_progress" where
  "evo_get_packet alloc session state rseq rtype rdata g =
     (if state = EVO_KERMIT_SEQUENCE_DUPLICATE then
        (let n = eg_duplicates g + 1 in
         if \<not> evo_kermit_duplicate_retry_allowed n then Done (Some ERR_NACK) None
         else Go_On (g\<lparr>eg_duplicates := n\<rparr>))
      else
        (let g = g\<lparr>eg_duplicates := 0, eg_previous := Some rseq\<rparr> in
         if rtype = EVO_E then Done (Some (fst (ticalcs_evo_error_set rdata))) None
         else if rtype = EVO_D then
           (if \<not> evo_kermit_size_within_limit (length (eg_chunks g)) (length rdata)
                  EVO_MAX_GET_ENCODED_LEN
            then Done (Some ERR_INVALID_PACKET) None
            else (case buf_append alloc rdata (eg_chunks g) of
                    (Some e, _) \<Rightarrow> Done (Some e) None
                  | (None, chunks) \<Rightarrow> Go_On (g\<lparr>eg_chunks := chunks\<rparr>)))
         else if rtype = EVO_B then
           (case evo_decode alloc (Some session) EVO_MAX_GET_PAYLOAD_LEN (eg_chunks g) [] of
              (Some e, _) \<Rightarrow> Done (Some e) None
            | (None, decoded) \<Rightarrow> Done None (Some decoded))
         else Go_On g))"

definition evo_get_round ::
  "nat \<Rightarrow> (nat \<Rightarrow> bool) \<Rightarrow> 'd calc_env \<Rightarrow> evo_session \<Rightarrow> evo_get \<Rightarrow> 'd calc_handle
     \<Rightarrow> evo_progress \<times> 'd calc_handle" where
  "evo_get_round fuel alloc E session g h =
     (let (r, raw, h) = evo_recv_raw fuel alloc E h
      in (case r of Some e \<Rightarrow> (Done (Some e) None, h)
          | None \<Rightarrow>
            (case evo_parse_packet alloc raw (Some session) of
               Inl e \<Rightarrow> (Done (Some e) None, h)
             | Inr (rseq, rtype, rdata) \<Rightarrow>
                 (let state = evo_kermit_sequence_state (eg_previous g \<noteq> None)
                        (case eg_previous g of None \<Rightarrow> 0 | Some p \<Rightarrow> p) rseq
                  in if state = EVO_KERMIT_SEQUENCE_UNEXPECTED
                     then (Done (Some ERR_INVALID_PACKET) None, h)
                     else
                       (let (r, h) = evo_ack alloc E session rseq
                              (if rtype = EVO_S then rdata else []) h
                        in (case r of Some e \<Rightarrow> (Done (Some e) None, h)
                            | None \<Rightarrow> (evo_get_packet alloc session state rseq rtype rdata g, h)))))))"

fun evo_get_loop ::
  "nat \<Rightarrow> nat \<Rightarrow> (nat \<Rightarrow> bool) \<Rightarrow> 'd calc_env \<Rightarrow> evo_session \<Rightarrow> evo_get \<Rightarrow> 'd calc_handle
     \<Rightarrow> ret \<times> bytes option \<times> 'd calc_handle" where
  "evo_get_loop 0 fuel alloc E session g h = (Some OUT_OF_FUEL, None, h)"
| "evo_get_loop (Suc rounds) fuel alloc E session g h =
     (case evo_get_round fuel alloc E session g h of
        (Done r payload, h) \<Rightarrow> (r, payload, h)
      | (Go_On g, h) \<Rightarrow> evo_get_loop rounds fuel alloc E session g h)"

text \<open>\<open>outs\<close>: both out parameters are given.\<close>

definition evo_get_request ::
  "nat \<Rightarrow> nat \<Rightarrow> (nat \<Rightarrow> bool) \<Rightarrow> 'd calc_env \<Rightarrow> bool \<Rightarrow> bytes \<Rightarrow> 'd calc_handle
     \<Rightarrow> ret \<times> bytes option \<times> 'd calc_handle" where
  "evo_get_request rounds fuel alloc E outs url h =
     (if \<not> outs then (Some ERR_INVALID_PARAMETER, None, h)
      else
        (let h = cable_reset E h; (r, attrs) = evo_attrs alloc [0x31]
         in (case r of Some e \<Rightarrow> (Some e, None, h)
             | None \<Rightarrow>
               (let (r, session, h) = evo_send_packets fuel alloc E 0
                      [(EVO_S, evo_sinit), (0x46, c_string url), (0x41, attrs), (EVO_D, [0x68]),
                       (0x5A, []), (EVO_B, [])] evo_session_init h
                in (case r of Some e \<Rightarrow> (Some e, None, h)
                    | None \<Rightarrow> evo_get_loop rounds fuel alloc E session
                        \<lparr>eg_previous = None, eg_duplicates = 0, eg_chunks = []\<rparr> h)))))"

text \<open>
  Progress while sending. \<open>muldiv a b c\<close> stands for the truncated value of \<open>a * b / c\<close> in
  floating-point arithmetic.
\<close>

definition evo_progress_count :: "(nat \<Rightarrow> nat \<Rightarrow> nat \<Rightarrow> nat) \<Rightarrow> nat \<Rightarrow> nat \<Rightarrow> int \<Rightarrow> int" where
  "evo_progress_count muldiv done goal mx =
     (if goal = 0 \<or> mx \<le> 0 then 0 else if done \<ge> goal then mx
      else int (muldiv done (nat mx) goal))"

definition EVO_PROGRESS_MIN_SIZE :: nat where "EVO_PROGRESS_MIN_SIZE = 2048"

definition evo_progress_start :: "'d calc_env \<Rightarrow> nat \<Rightarrow> 'd calc_handle \<Rightarrow> 'd calc_handle" where
  "evo_progress_start E goal h =
     (let h = set_max1 (min (int goal) (2 ^ 31 - 1)) (set_cnt1 0 (progress_reset h))
      in if goal > EVO_PROGRESS_MIN_SIZE then ticalcs_update_pbar E h else h)"

definition evo_progress_update ::
  "(nat \<Rightarrow> nat \<Rightarrow> nat \<Rightarrow> nat) \<Rightarrow> 'd calc_env \<Rightarrow> nat \<Rightarrow> nat \<Rightarrow> bool \<Rightarrow> 'd calc_handle \<Rightarrow> ret \<times> 'd calc_handle"
  where
  "evo_progress_update muldiv E done goal refresh h =
     (let h = set_cnt1 (evo_progress_count muldiv done goal (up_max1 (kh_updat h))) h;
          h = (if refresh \<and> goal > EVO_PROGRESS_MIN_SIZE then ticalcs_update_pbar E h else h)
      in check_cancel h)"

function evo_put_chunks ::
  "(nat \<Rightarrow> nat \<Rightarrow> nat \<Rightarrow> nat) \<Rightarrow> nat \<Rightarrow> (nat \<Rightarrow> bool) \<Rightarrow> 'd calc_env \<Rightarrow> bytes \<Rightarrow> nat \<Rightarrow> nat \<Rightarrow> u8 \<Rightarrow> nat
     \<Rightarrow> evo_session \<Rightarrow> 'd calc_handle \<Rightarrow> ret \<times> (u8 \<times> evo_session) \<times> 'd calc_handle" where
  "evo_put_chunks muldiv fuel alloc E wire payload_len off seq chunk_count session h =
     (if off < length wire then
        (let chunk = evo_put_chunk_len wire off (evo_session_data_chunk_size session);
             (r, session, h) = evo_send_packet fuel alloc E seq EVO_D (take chunk (drop off wire)) session h;
             off' = off + chunk; chunk_count = chunk_count + 1; seq = seq + 1
         in case r of Some e \<Rightarrow> (Some e, (seq, session), h)
            | None \<Rightarrow>
                (let done = muldiv off' payload_len (length wire);
                     refresh = (chunk_count mod 32 = 0 \<or> off' \<ge> length wire);
                     (r, h) = evo_progress_update muldiv E done payload_len refresh h
                 in case r of Some e \<Rightarrow> (Some e, (seq, session), h)
                    | None \<Rightarrow> evo_put_chunks muldiv fuel alloc E wire payload_len off' seq chunk_count
                                session h))
      else (None, (seq, session), h))"
  by pat_completeness auto

termination
proof (relation "measure (\<lambda>(m, f, a, E, wire, p, off, s, c, se, h). length wire - off)", goal_cases)
  case (2 muldiv fuel alloc E wire payload_len off seq chunk_count session h)
  then show ?case using chunk_len_pos [of off wire] by (simp add: diff_less_mono2)
qed simp

declare evo_put_chunks.simps [simp del]

definition evo_put_request_internal ::
  "(nat \<Rightarrow> nat \<Rightarrow> nat \<Rightarrow> nat) \<Rightarrow> nat \<Rightarrow> (nat \<Rightarrow> bool) \<Rightarrow> 'd calc_env \<Rightarrow> bytes \<Rightarrow> bytes \<Rightarrow> bool
     \<Rightarrow> 'd calc_handle \<Rightarrow> ret \<times> 'd calc_handle" where
  "evo_put_request_internal muldiv fuel alloc E url payload ignore_final_status h =
     (let h = cable_reset E h;
          (r, wire) = evo_encode alloc payload [];
          (r, attrs) = andthen (r, []) (\<lambda>_. evo_attrs alloc (decimal (length payload)))
      in (case r of Some e \<Rightarrow> (Some e, h)
          | None \<Rightarrow>
            (let (r, session, h) = evo_send_packets fuel alloc E 0
                   [(EVO_S, evo_sinit), (0x46, c_string url), (0x41, attrs)] evo_session_init h
             in andthen (r, h) (\<lambda>h.
               (let h = evo_progress_start E (length payload) h;
                    (r, (seq, session), h) =
                      evo_put_chunks muldiv fuel alloc E wire (length payload) 0 3 0 session h
                in andthen (r, h) (\<lambda>h.
                   andthen (if length payload > 0
                            then evo_progress_update muldiv E (length payload) (length payload) True h
                            else (None, h)) (\<lambda>h.
                     (let (r, session, h) = evo_send_packet fuel alloc E seq 0x5A [] session h
                      in andthen (r, h) (\<lambda>h.
                        (let (final_ret, session, h) =
                               evo_send_packet fuel alloc E (seq + 1) EVO_B [] session h
                         in (if ignore_final_status \<and> final_ret \<noteq> Some OUT_OF_FUEL
                               \<and> final_ret \<noteq> Some UNDEFINED_BEHAVIOUR
                             then None else final_ret, h)))))))))))"

definition evo_put_request where
  "evo_put_request muldiv fuel alloc E url payload h =
     evo_put_request_internal muldiv fuel alloc E url payload False h"

definition evo_put_request_ignore_final_status where
  "evo_put_request_ignore_final_status muldiv fuel alloc E url payload h =
     evo_put_request_internal muldiv fuel alloc E url payload True h"


section \<open>Transfers on a quiet link\<close>

text \<open>The packets of a transfer as bytes, and the acknowledgements of \<open>n\<close> of them.\<close>

fun packet_stream :: "evo_session \<Rightarrow> u8 \<Rightarrow> (u8 \<times> bytes) list \<Rightarrow> bytes" where
  "packet_stream s seq [] = []"
| "packet_stream s seq ((type, data) # ps) = packet_bytes s seq type data @ packet_stream s (seq + 1) ps"

fun ack_stream :: "evo_session \<Rightarrow> u8 \<Rightarrow> nat \<Rightarrow> bytes" where
  "ack_stream s seq 0 = []"
| "ack_stream s seq (Suc n) = packet_bytes s seq EVO_Y [] @ ack_stream s (seq + 1) n"

definition packet_fits :: "evo_session \<Rightarrow> bytes \<Rightarrow> bool" where
  "packet_fits s data \<longleftrightarrow> length data + es_check_type s \<le> 2040"

text \<open>What \<open>evo_recv_raw\<close> reads off the link is cut out by the length characters.\<close>

lemma packet_split:
  assumes "check_ok s" "packet_fits s data"
  shows "length data + 2 + es_check_type s \<le> 94 \<Longrightarrow> \<exists>body. packet_bytes s seq type data
      = [EVO_SOH, tochar (of_nat (length data + 2 + es_check_type s))] @ body @ [EVO_CR]
        \<and> length body = length data + 2 + es_check_type s"
    and "94 < length data + 2 + es_check_type s \<Longrightarrow> \<exists>body. packet_bytes s seq type data
      = [EVO_SOH, tochar 0, tochar (ucast (seq mod 64)), type,
          tochar (of_nat ((length data + es_check_type s) div 95)),
          tochar (of_nat ((length data + es_check_type s) mod 95))] @ body @ [EVO_CR]
        \<and> length body = length data + es_check_type s + 1"
  using assms block_check_enough(2) [of "es_check_type s"]
  by (auto simp: packet_bytes_def packet_head_def Let_def check_ok_def)

lemma remainder_short:
  assumes "3 \<le> n" "n \<le> 94"
  shows "evo_kermit_packet_remainder (tochar (of_nat n)) ext = Inr (n + 1)"
  using assms tochar_valid [of n] tochar_zero_iff [of n] unchar_tochar [of n]
  by (simp add: evo_kermit_packet_remainder_def)

lemma remainder_extended:
  assumes "n \<le> 2040" "0 < n"
  shows "evo_kermit_packet_remainder (tochar 0) (Some (tochar (of_nat (n div 95)), tochar (of_nat (n mod 95))))
    = Inr (n + 2)"
proof -
  have small: "n div 95 \<le> 94" "n mod 95 \<le> 94" using assms by (simp_all add: less_Suc_eq_le [symmetric])
  have "unchar (tochar (of_nat k)) = of_nat k" if "k \<le> 94" for k
    using unchar_tochar [OF that] by (metis of_nat_unat ucast_id)
  then have "unchar (tochar (of_nat (n div 95))) * 95 + unchar (tochar (of_nat (n mod 95)))
      = of_nat (n div 95 * 95 + n mod 95)"
    using small by (simp only: of_nat_add of_nat_mult of_nat_numeral)
  then have sum: "unchar (tochar (of_nat (n div 95))) * 95 + unchar (tochar (of_nat (n mod 95))) = of_nat n"
    by simp
  have n: "unat (of_nat n :: u32) = n" using assms(1) by (simp add: unat_of_nat take_bit_nat_eq_self)
  have "evo_kermit_length_char_valid (tochar 0)" using tochar_valid [of 0] by simp
  then show ?thesis
    using assms small [THEN tochar_valid] n
    by (simp add: evo_kermit_packet_remainder_def sum EVO_MAX_PACKET_LEN_def Let_def)
qed

lemma packet_stream_append:
  "packet_stream s seq (ps @ qs) = packet_stream s seq ps @ packet_stream s (seq + of_nat (length ps)) qs"
  by (induction ps arbitrary: seq) (auto simp: algebra_simps)

lemma ack_stream_append:
  "ack_stream s seq (m + n) = ack_stream s seq m @ ack_stream s (seq + of_nat m) n"
  by (induction m arbitrary: seq) (auto simp: algebra_simps)

lemma update_check_ok: "check_ok s \<Longrightarrow> check_ok (evo_session_update_from_sinit d s)"
proof -
  have "1 \<le> unat (v - 0x30 :: u8) \<and> unat (v - 0x30) \<le> 3" if "0x31 \<le> v" "v \<le> 0x33" for v :: u8
  proof -
    have "unat v \<in> {49, 50, 51}" using that by (auto simp: word_le_nat_alt)
    then have "v = 49 \<or> v = 50 \<or> v = 51" by (auto simp: word_unat_eq_iff)
    then show ?thesis by auto
  qed
  then show "check_ok s \<Longrightarrow> check_ok (evo_session_update_from_sinit d s)"
    by (simp add: evo_session_update_from_sinit_def check_ok_def Let_def)
qed

lemma sequence_next: "evo_kermit_sequence_state True (p mod 64) ((p + 1) mod 64) = EVO_KERMIT_SEQUENCE_CURRENT"
proof -
  have "unat ((p + 1) mod 64) = (unat p + 1) mod 64"
    by (simp add: unat_mod unat_word_ariths mod_mod_cancel)
  moreover have "unat (of_nat ((unat (p mod 64) + 1) mod 64) :: u8) = (unat p + 1) mod 64"
    by (simp add: unat_mod unat_of_nat take_bit_nat_eq_self mod_Suc_eq)
  ultimately have "(p + 1) mod 64 = of_nat ((unat (p mod 64) + 1) mod 64)"
    by (simp only: word_unat_eq_iff)
  then show ?thesis by (simp add: evo_kermit_sequence_state_def)
qed

lemma sequence_first: "evo_kermit_sequence_state False p q = EVO_KERMIT_SEQUENCE_CURRENT"
  by (simp add: evo_kermit_sequence_state_def)

definition data_of :: "(u8 \<times> bytes) list \<Rightarrow> bytes" where
  "data_of ps = concat (map snd (filter (\<lambda>p. fst p = EVO_D) ps))"

definition evo_attr_bytes :: "bytes \<Rightarrow> bytes" where
  "evo_attr_bytes text = [0x22, tochar 2, 0x42, 0x38, 0x31, tochar (of_nat (length text))] @ text @ [0x40, tochar 0]"

lemma attrs_enough: "evo_attrs enough text = (None, evo_attr_bytes text)"
  by (simp add: evo_attrs_def evo_file_attr_def evo_attr_bytes_def)

context quiet_link
begin

lemma recv_byte_quiet:
  assumes "ready h" "c_avail (kh_cable h) = x # rest"
  shows "\<exists>h'. evo_recv_byte enough E raw b h = (None, (raw @ [x], x), h') \<and> moved h [] 1 h'"
  using recv_stepped [of h 1] assms by (auto simp: evo_recv_byte_def stepped_def)

lemma recv_append_quiet:
  assumes "ready h" "n \<le> length (c_avail (kh_cable h))"
  shows "\<exists>h'. evo_recv_append enough E raw n h = (None, raw @ take n (c_avail (kh_cable h)), h')
    \<and> moved h [] n h'"
  using recv_stepped [of h n] assms by (auto simp: evo_recv_append_def buf_reserve_def stepped_def)

lemma find_soh_quiet:
  assumes "ready h" "c_avail (kh_cable h) = junk @ EVO_SOH # rest" "EVO_SOH \<notin> set junk"
    and "length junk < fuel"
  shows "\<exists>h'. evo_find_soh fuel enough E b h = (None, [EVO_SOH], h') \<and> moved h [] (length junk + 1) h'"
  using assms
proof (induction junk arbitrary: h b fuel)
  case Nil
  then obtain f where "fuel = Suc f" by (cases fuel) auto
  then show ?case using recv_byte_quiet [of h EVO_SOH rest "[]" b] Nil by auto
next
  case (Cons x junk)
  then obtain f where f: "fuel = Suc f" by (cases fuel) auto
  obtain h1 where h1: "evo_recv_byte enough E [] b h = (None, ([x], x), h1)" "moved h [] 1 h1"
    using recv_byte_quiet [of h x "junk @ EVO_SOH # rest" "[]" b] Cons.prems by auto
  have "ready h1" "c_avail (kh_cable h1) = junk @ EVO_SOH # rest"
    using h1(2) Cons.prems(2) by (auto simp: moved_def)
  then obtain h2 where "evo_find_soh f enough E x h1 = (None, [EVO_SOH], h2)"
    "moved h1 [] (length junk + 1) h2"
    using Cons.IH [of h1 f x] Cons.prems f by auto
  then show ?case using h1 f Cons.prems(3) moved_trans [OF h1(2), of "[]" _ h2] by auto
qed

lemma recv_raw_quiet:
  assumes "ready h" "c_avail (kh_cable h) = junk @ packet_bytes s seq type data @ rest"
    and "EVO_SOH \<notin> set junk" "length junk < fuel" "check_ok s" "packet_fits s data"
  shows "\<exists>h'. evo_recv_raw fuel enough E h = (None, packet_bytes s seq type data, h')
    \<and> moved h [] (length junk + length (packet_bytes s seq type data)) h'"
proof (cases "length data + 2 + es_check_type s \<le> 94")
  case True
  let ?n = "length data + 2 + es_check_type s"
  obtain body where body: "packet_bytes s seq type data
      = [EVO_SOH, tochar (of_nat ?n)] @ body @ [EVO_CR]" "length body = ?n"
    using packet_split(1) [OF assms(5,6) True, of seq type] by auto
  have n: "3 \<le> ?n" using assms(5) by (simp add: check_ok_def)
  obtain h1 where h1: "evo_find_soh fuel enough E 0 h = (None, [EVO_SOH], h1)"
      "moved h [] (length junk + 1) h1"
    using find_soh_quiet [OF assms(1) _ assms(3,4)] assms(2) body(1) by auto
  have a1: "ready h1" "c_avail (kh_cable h1) = tochar (of_nat ?n) # body @ EVO_CR # rest"
    using h1(2) assms(2) body(1) by (auto simp: moved_def)
  obtain h2 where h2: "evo_recv_byte enough E [EVO_SOH] EVO_SOH h1
      = (None, ([EVO_SOH, tochar (of_nat ?n)], tochar (of_nat ?n)), h2)" "moved h1 [] 1 h2"
    using recv_byte_quiet [OF a1, of "[EVO_SOH]" EVO_SOH] by auto
  have a2: "ready h2" "c_avail (kh_cable h2) = (body @ [EVO_CR]) @ rest"
    using h2(2) a1 by (auto simp: moved_def)
  obtain h3 where h3: "evo_recv_append enough E [EVO_SOH, tochar (of_nat ?n)] (?n + 1) h2
      = (None, packet_bytes s seq type data, h3)" "moved h2 [] (?n + 1) h3"
    using recv_append_quiet [OF a2(1), of "?n + 1" "[EVO_SOH, tochar (of_nat ?n)]"] a2(2) body by auto
  have "moved h [] (length junk + length (packet_bytes s seq type data)) h3"
    using moved_trans [OF moved_trans [OF h1(2) h2(2)] h3(2)] body by (simp add: add.assoc)
  moreover have "tochar (of_nat ?n) \<noteq> tochar 0" using tochar_zero_iff [OF True] n by simp
  ultimately show ?thesis
    using h1(1) h2(1) h3(1) remainder_short [OF n True, of None] body
    by (simp add: evo_recv_raw_def nth_append)
next
  case False
  let ?n = "length data + es_check_type s"
  let ?e = "[tochar (ucast (seq mod 64)), type, tochar (of_nat (?n div 95)), tochar (of_nat (?n mod 95))]"
  obtain body where body: "packet_bytes s seq type data = [EVO_SOH, tochar 0] @ ?e @ body @ [EVO_CR]"
      "length body = ?n + 1"
    using packet_split(2) [OF assms(5,6), of seq type] False by auto
  have n: "0 < ?n" "?n \<le> 2040" using assms(5,6) by (simp_all add: check_ok_def packet_fits_def)
  obtain h1 where h1: "evo_find_soh fuel enough E 0 h = (None, [EVO_SOH], h1)"
      "moved h [] (length junk + 1) h1"
    using find_soh_quiet [OF assms(1) _ assms(3,4)] assms(2) body(1) by auto
  have a1: "ready h1" "c_avail (kh_cable h1) = tochar 0 # ?e @ body @ EVO_CR # rest"
    using h1(2) assms(2) body(1) by (auto simp: moved_def)
  obtain h2 where h2: "evo_recv_byte enough E [EVO_SOH] EVO_SOH h1
      = (None, ([EVO_SOH, tochar 0], tochar 0), h2)" "moved h1 [] 1 h2"
    using recv_byte_quiet [OF a1, of "[EVO_SOH]" EVO_SOH] by auto
  have a2: "ready h2" "c_avail (kh_cable h2) = ?e @ (body @ [EVO_CR]) @ rest"
    using h2(2) a1 by (auto simp: moved_def)
  obtain h3 where h3: "evo_recv_append enough E [EVO_SOH, tochar 0] 4 h2
      = (None, [EVO_SOH, tochar 0] @ ?e, h3)" "moved h2 [] 4 h3"
    using recv_append_quiet [OF a2(1), of 4 "[EVO_SOH, tochar 0]"] a2(2) by auto
  have a3: "ready h3" "c_avail (kh_cable h3) = (body @ [EVO_CR]) @ rest"
    using h3(2) a2 by (auto simp: moved_def)
  obtain h4 where h4: "evo_recv_append enough E ([EVO_SOH, tochar 0] @ ?e) (?n + 2) h3
      = (None, packet_bytes s seq type data, h4)" "moved h3 [] (?n + 2) h4"
    using recv_append_quiet [OF a3(1), of "?n + 2" "[EVO_SOH, tochar 0] @ ?e"] a3(2) body by auto
  have "length junk + 1 + 1 + 4 + (?n + 2) = length junk + length (packet_bytes s seq type data)"
    using body by simp
  then have "moved h [] (length junk + length (packet_bytes s seq type data)) h4"
    using moved_trans [OF moved_trans [OF moved_trans [OF h1(2) h2(2)] h3(2)] h4(2)]
    by (simp only: append_Nil)
  then show ?thesis
    using h1(1) h2(1) h3(1) h4(1) remainder_extended [OF n(2,1)] body
    by (simp add: evo_recv_raw_def nth_append)
qed

text \<open>Answers to a transmission: any number below the limit of stale acknowledgements, then the right one.\<close>

lemma responses_ack:
  assumes "ready h" "check_ok s" "packet_fits s d" "0 < fuel" "length stale < n"
    and "\<forall>(q, e)\<in>set stale. packet_fits s e \<and> q mod 64 \<noteq> seq mod 64"
    and "c_avail (kh_cable h) = concat (map (\<lambda>(q, e). packet_bytes s q EVO_Y e) stale)
           @ packet_bytes s seq EVO_Y d @ rest"
  shows "\<exists>h'. evo_responses n fuel enough E s (seq mod 64) type h
      = (Acknowledged (if type = EVO_S then evo_session_update_from_sinit d s else s), h')
    \<and> moved h [] (length (concat (map (\<lambda>(q, e). packet_bytes s q EVO_Y e) stale))
                    + length (packet_bytes s seq EVO_Y d)) h'"
  using assms(1,5,6,7)
proof (induction stale arbitrary: h n)
  case Nil
  then obtain k where k: "n = Suc k" by (cases n) auto
  obtain h1 where "evo_recv_raw fuel enough E h = (None, packet_bytes s seq EVO_Y d, h1)"
    "moved h [] (length (packet_bytes s seq EVO_Y d)) h1"
    using recv_raw_quiet [of h "[]" s seq EVO_Y d rest fuel] Nil assms(2-4) by auto
  then show ?case
    using k parse_packet [OF assms(2), of d seq EVO_Y] assms(3) by (simp add: packet_fits_def)
next
  case (Cons x stale)
  obtain q e where x: "x = (q, e)" by (cases x)
  obtain k where k: "n = Suc k" using Cons.prems by (cases n) auto
  have fits: "packet_fits s e" "q mod 64 \<noteq> seq mod 64" using Cons.prems x by auto
  let ?more = "concat (map (\<lambda>(q, e). packet_bytes s q EVO_Y e) stale) @ packet_bytes s seq EVO_Y d @ rest"
  obtain h1 where h1: "evo_recv_raw fuel enough E h = (None, packet_bytes s q EVO_Y e, h1)"
    "moved h [] (length (packet_bytes s q EVO_Y e)) h1"
    using recv_raw_quiet [of h "[]" s q EVO_Y e ?more fuel] Cons.prems x fits assms(2,4) by auto
  have "ready h1" "c_avail (kh_cable h1) = ?more"
    using h1(2) Cons.prems x by (auto simp: moved_def)
  then obtain h2 where h2: "evo_responses k fuel enough E s (seq mod 64) type h1
      = (Acknowledged (if type = EVO_S then evo_session_update_from_sinit d s else s), h2)"
    "moved h1 [] (length (concat (map (\<lambda>(q, e). packet_bytes s q EVO_Y e) stale))
                    + length (packet_bytes s seq EVO_Y d)) h2"
    using Cons.IH [of h1 k] Cons.prems k by auto
  moreover have "evo_responses n fuel enough E s (seq mod 64) type h
      = evo_responses k fuel enough E s (seq mod 64) type h1"
    using h1(1) parse_packet [OF assms(2), of e q EVO_Y] fits
    by (simp add: k packet_fits_def EVO_Y_def EVO_E_def)
  ultimately show ?case
    using moved_trans [OF h1(2) h2(2)] x by (simp add: add.assoc)
qed

text \<open>A packet that is neither an acknowledgement nor an error asks for the packet again.\<close>

lemma responses_reject:
  assumes "ready h" "check_ok s" "packet_fits s d" "0 < fuel"
    and "rtype \<noteq> EVO_Y" "rtype \<noteq> EVO_E"
    and "c_avail (kh_cable h) = packet_bytes s q rtype d @ rest"
  shows "\<exists>h'. evo_responses (Suc n) fuel enough E s expected type h = (Resend, h')
    \<and> moved h [] (length (packet_bytes s q rtype d)) h'"
proof -
  obtain h1 where "evo_recv_raw fuel enough E h = (None, packet_bytes s q rtype d, h1)"
    "moved h [] (length (packet_bytes s q rtype d)) h1"
    using recv_raw_quiet [of h "[]" s q rtype d rest fuel] assms by auto
  then show ?thesis
    using parse_packet [OF assms(2), of d q rtype] assms(3,5,6) by (simp add: packet_fits_def)
qed

lemma attempts_quiet:
  assumes "ready h" "check_ok s" "packet_fits s d" "0 < fuel" "rtype \<noteq> EVO_Y" "rtype \<noteq> EVO_E"
    and "packet_fits s e" "length stale < 3"
    and "\<forall>(q, e)\<in>set stale. packet_fits s e \<and> q mod 64 \<noteq> seq mod 64"
    and "c_avail (kh_cable h) = concat (replicate k (packet_bytes s q rtype e))
      @ concat (map (\<lambda>(q, e). packet_bytes s q EVO_Y e) stale) @ packet_bytes s seq EVO_Y d @ rest"
    and "k < n" "length (concat (replicate (Suc k) pkt)) \<le> c_room (kh_cable h)"
  shows "\<exists>h'. evo_attempts n fuel enough E pkt (seq mod 64) type s h
      = (None, if type = EVO_S then evo_session_update_from_sinit d s else s, h')
    \<and> moved h (concat (replicate (Suc k) pkt))
        (length (concat (replicate k (packet_bytes s q rtype e)))
          + length (concat (map (\<lambda>(q, e). packet_bytes s q EVO_Y e) stale))
          + length (packet_bytes s seq EVO_Y d)) h'"
  using assms(1,10-12)
proof (induction k arbitrary: h n)
  case 0
  then obtain m where n: "n = Suc m" by (cases n) auto
  obtain h1 where h1: "cable_send E pkt h = (None, h1)" "moved h pkt 0 h1"
    using send_stepped [of h pkt] 0 by (auto simp: stepped_def)
  have "ready h1" "c_avail (kh_cable h1) = concat (map (\<lambda>(q, e). packet_bytes s q EVO_Y e) stale)
      @ packet_bytes s seq EVO_Y d @ rest"
    using h1(2) 0 by (auto simp: moved_def)
  from responses_ack [OF this(1) assms(2-4,8,9) this(2), of type] obtain h2 where
    "evo_responses 3 fuel enough E s (seq mod 64) type h1
      = (Acknowledged (if type = EVO_S then evo_session_update_from_sinit d s else s), h2)"
    "moved h1 [] (length (concat (map (\<lambda>(q, e). packet_bytes s q EVO_Y e) stale))
                    + length (packet_bytes s seq EVO_Y d)) h2" by blast
  then show ?case using h1 n moved_trans [OF h1(2), of "[]" _ h2] by auto
next
  case (Suc k)
  then obtain m where n: "n = Suc m" by (cases n) auto
  let ?more = "concat (replicate k (packet_bytes s q rtype e))
      @ concat (map (\<lambda>(q, e). packet_bytes s q EVO_Y e) stale) @ packet_bytes s seq EVO_Y d @ rest"
  obtain h1 where h1: "cable_send E pkt h = (None, h1)" "moved h pkt 0 h1"
    using send_stepped [of h pkt] Suc.prems by (auto simp: stepped_def)
  have "ready h1" "c_avail (kh_cable h1) = packet_bytes s q rtype e @ ?more"
    using h1(2) Suc.prems by (auto simp: moved_def)
  from responses_reject [OF this(1) assms(2,7,4,5,6) this(2), of 2 "seq mod 64" type]
  obtain h2 where h2: "evo_responses 3 fuel enough E s (seq mod 64) type h1 = (Resend, h2)"
    "moved h1 [] (length (packet_bytes s q rtype e)) h2" by (auto simp: numeral_3_eq_3)
  have both: "moved h pkt (length (packet_bytes s q rtype e)) h2"
    using moved_trans [OF h1(2) h2(2)] by simp
  have "ready h2" "c_avail (kh_cable h2) = ?more"
    "length (concat (replicate (Suc k) pkt)) \<le> c_room (kh_cable h2)"
    using both Suc.prems by (auto simp: moved_def)
  then obtain h3 where h3: "evo_attempts m fuel enough E pkt (seq mod 64) type s h2
      = (None, if type = EVO_S then evo_session_update_from_sinit d s else s, h3)"
    "moved h2 (concat (replicate (Suc k) pkt))
        (length (concat (replicate k (packet_bytes s q rtype e)))
          + length (concat (map (\<lambda>(q, e). packet_bytes s q EVO_Y e) stale))
          + length (packet_bytes s seq EVO_Y d)) h3"
    using Suc.IH [of h2 m] Suc.prems n by auto
  show ?case using h1 h2 h3 n moved_trans [OF both h3(2)] by (simp add: add.assoc)
qed

lemma attempts_give_up:
  assumes "ready h" "check_ok s" "0 < fuel" "rtype \<noteq> EVO_Y" "rtype \<noteq> EVO_E" "packet_fits s e"
    and "c_avail (kh_cable h) = concat (replicate n (packet_bytes s q rtype e)) @ rest"
    and "length (concat (replicate n pkt)) \<le> c_room (kh_cable h)"
  shows "\<exists>h'. evo_attempts n fuel enough E pkt expected type s h = (Some ERR_NACK, s, h')
    \<and> moved h (concat (replicate n pkt)) (length (concat (replicate n (packet_bytes s q rtype e)))) h'"
  using assms(1,7,8)
proof (induction n arbitrary: h)
  case 0
  then show ?case by (simp add: moved_def)
next
  case (Suc n)
  let ?more = "concat (replicate n (packet_bytes s q rtype e)) @ rest"
  obtain h1 where h1: "cable_send E pkt h = (None, h1)" "moved h pkt 0 h1"
    using send_stepped [of h pkt] Suc.prems by (auto simp: stepped_def)
  have "ready h1" "c_avail (kh_cable h1) = packet_bytes s q rtype e @ ?more"
    using h1(2) Suc.prems by (auto simp: moved_def)
  from responses_reject [OF this(1) assms(2,6,3,4,5) this(2), of 2 expected type]
  obtain h2 where h2: "evo_responses 3 fuel enough E s expected type h1 = (Resend, h2)"
    "moved h1 [] (length (packet_bytes s q rtype e)) h2" by (auto simp: numeral_3_eq_3)
  have both: "moved h pkt (length (packet_bytes s q rtype e)) h2"
    using moved_trans [OF h1(2) h2(2)] by simp
  have "ready h2" "c_avail (kh_cable h2) = ?more" "length (concat (replicate n pkt)) \<le> c_room (kh_cable h2)"
    using both Suc.prems by (auto simp: moved_def)
  then obtain h3 where "evo_attempts n fuel enough E pkt expected type s h2 = (Some ERR_NACK, s, h3)"
    "moved h2 (concat (replicate n pkt)) (length (concat (replicate n (packet_bytes s q rtype e)))) h3"
    using Suc.IH [of h2] by auto
  then show ?case using h1 h2 moved_trans [OF both] by auto
qed

lemma send_packet_quiet:
  assumes "ready h" "check_ok s" "packet_fits s d" "0 < fuel"
    and "c_avail (kh_cable h) = packet_bytes s seq EVO_Y d @ rest"
    and "length (packet_bytes s seq type data) \<le> c_room (kh_cable h)"
  shows "\<exists>h'. evo_send_packet fuel enough E seq type data s h
      = (None, if type = EVO_S then evo_session_update_from_sinit d s else s, h')
    \<and> moved h (packet_bytes s seq type data) (length (packet_bytes s seq EVO_Y d)) h'"
  using attempts_quiet [of h s d fuel 0 "[]" "[]" seq 0 0 rest 3 "packet_bytes s seq type data" type]
    assms make_packet_enough [OF assms(2), of seq type data "[]"]
  by (simp add: evo_send_packet_def packet_fits_def EVO_Y_def EVO_E_def)

lemma send_packets_quiet:
  assumes "ready h" "check_ok s" "0 < fuel" "\<forall>p\<in>set ps. fst p \<noteq> EVO_S"
    and "c_avail (kh_cable h) = ack_stream s seq (length ps) @ rest"
    and "length (packet_stream s seq ps) \<le> c_room (kh_cable h)"
  shows "\<exists>h'. evo_send_packets fuel enough E seq ps s h = (None, s, h')
    \<and> moved h (packet_stream s seq ps) (length (ack_stream s seq (length ps))) h'"
  using assms(1,4-6)
proof (induction ps arbitrary: h seq)
  case Nil
  then show ?case by (simp add: moved_def)
next
  case (Cons p ps)
  obtain type data where p: "p = (type, data)" by (cases p)
  have empty: "packet_fits s []" using assms(2) by (simp add: packet_fits_def check_ok_def)
  obtain h1 where h1: "evo_send_packet fuel enough E seq type data s h = (None, s, h1)"
    "moved h (packet_bytes s seq type data) (length (packet_bytes s seq EVO_Y [])) h1"
    using send_packet_quiet [OF _ assms(2) empty assms(3), of h seq _ type data] Cons.prems p by auto
  have "ready h1" "c_avail (kh_cable h1) = ack_stream s (seq + 1) (length ps) @ rest"
    "length (packet_stream s (seq + 1) ps) \<le> c_room (kh_cable h1)"
    using h1(2) Cons.prems p by (auto simp: moved_def)
  then obtain h2 where h2: "evo_send_packets fuel enough E (seq + 1) ps s h1 = (None, s, h2)"
    "moved h1 (packet_stream s (seq + 1) ps) (length (ack_stream s (seq + 1) (length ps))) h2"
    using Cons.IH [of h1 "seq + 1"] Cons.prems(2) by auto
  then show ?case using h1 p moved_trans [OF h1(2) h2(2)] by simp
qed

lemma progress_update_quiet:
  "ready h \<Longrightarrow> \<exists>h'. evo_progress_update muldiv E k n refresh h = (None, h') \<and> moved h [] 0 h'"
  by (auto simp: evo_progress_update_def Let_def check_cancel_def ready_def moved_def set_cnt1_def
      ticalcs_update_pbar_def pbar_quiet)

lemma progress_start_quiet: "ready h \<Longrightarrow> moved h [] 0 (evo_progress_start E n h)"
  by (auto simp: evo_progress_start_def Let_def ready_def moved_def set_cnt1_def set_max1_def
      ticalcs_update_pbar_def pbar_quiet progress_reset_quiet c_sent_def c_avail_def c_room_def)
     (simp_all add: progress_reset_def ticables_progress_reset_def cable_ready_def)

lemma put_chunks_quiet:
  assumes "check_ok s" "0 < fuel" "ready h"
    and "chunks = evo_chunks wire (evo_session_data_chunk_size s) off"
    and "c_avail (kh_cable h) = ack_stream s seq (length chunks) @ rest"
    and "length (packet_stream s seq (map (Pair EVO_D) chunks)) \<le> c_room (kh_cable h)"
  shows "\<exists>h'. evo_put_chunks muldiv fuel enough E wire n off seq count s h
      = (None, (seq + of_nat (length chunks), s), h')
    \<and> moved h (packet_stream s seq (map (Pair EVO_D) chunks)) (length (ack_stream s seq (length chunks))) h'"
  using assms(3-6)
proof (induction chunks arbitrary: h off seq count)
  case Nil
  then have "\<not> off < length wire" by (subst (asm) evo_chunks.simps) (auto split: if_splits)
  then show ?case using Nil by (subst evo_put_chunks.simps) (simp add: moved_def)
next
  case (Cons c chunks)
  let ?k = "evo_put_chunk_len wire off (evo_session_data_chunk_size s)"
  have off: "off < length wire" "c = take ?k (drop off wire)"
    "chunks = evo_chunks wire (evo_session_data_chunk_size s) (off + ?k)"
    using Cons.prems(2) by (subst (asm) evo_chunks.simps; auto split: if_splits)+
  have empty: "packet_fits s []" using assms(1) by (simp add: packet_fits_def check_ok_def)
  obtain h1 where h1: "evo_send_packet fuel enough E seq EVO_D c s h = (None, s, h1)"
    "moved h (packet_bytes s seq EVO_D c) (length (packet_bytes s seq EVO_Y [])) h1"
    using send_packet_quiet [OF Cons.prems(1) assms(1) empty assms(2), of seq _ EVO_D c] Cons.prems(3,4)
    by (auto simp: EVO_D_def EVO_S_def)
  let ?done = "muldiv (off + ?k) n (length wire)"
  let ?refresh = "(count + 1) mod 32 = 0 \<or> length wire \<le> off + ?k"
  obtain h2 where h2: "evo_progress_update muldiv E ?done n ?refresh h1 = (None, h2)" "moved h1 [] 0 h2"
    using progress_update_quiet [OF moved_ready [OF h1(2)]] by blast
  have both: "moved h (packet_bytes s seq EVO_D c) (length (packet_bytes s seq EVO_Y [])) h2"
    using moved_trans [OF h1(2) h2(2)] by simp
  have "ready h2" "c_avail (kh_cable h2) = ack_stream s (seq + 1) (length chunks) @ rest"
    "length (packet_stream s (seq + 1) (map (Pair EVO_D) chunks)) \<le> c_room (kh_cable h2)"
    using both Cons.prems(3,4) by (auto simp: moved_def)
  then obtain h3 where h3: "evo_put_chunks muldiv fuel enough E wire n (off + ?k) (seq + 1) (count + 1) s h2
      = (None, (seq + 1 + of_nat (length chunks), s), h3)"
    "moved h2 (packet_stream s (seq + 1) (map (Pair EVO_D) chunks))
        (length (ack_stream s (seq + 1) (length chunks))) h3"
    using Cons.IH [of h2 "off + ?k" "seq + 1" "count + 1"] off(3) by auto
  have "evo_put_chunks muldiv fuel enough E wire n off seq count s h
      = evo_put_chunks muldiv fuel enough E wire n (off + ?k) (seq + 1) (count + 1) s h2"
    using off(1) h1(1) h2(1) unfolding off(2) by (subst evo_put_chunks.simps) (simp add: Let_def)
  then show ?case
    using h3 moved_trans [OF both h3(2)] by (simp add: algebra_simps)
qed

text \<open>The stream of packets of a whole request, and the acknowledgements it waits for.\<close>

lemma put_request_quiet:
  fixes payload url :: bytes and d0 :: bytes
  defines "s \<equiv> evo_session_update_from_sinit d0 evo_session_init"
  assumes "ready (cable_reset E h)" "0 < fuel" "packet_fits evo_session_init d0"
    and "evo_encode enough payload [] = (None, wire)"
    and "chunks = evo_chunks wire (evo_session_data_chunk_size s) 0"
    and "c_avail (kh_cable (cable_reset E h)) = packet_bytes evo_session_init 0 EVO_Y d0
           @ ack_stream s 1 (2 + length chunks + 2) @ rest"
    and "stream = packet_bytes evo_session_init 0 EVO_S evo_sinit
           @ packet_stream s 1 ([(0x46, c_string url), (0x41, evo_attr_bytes (decimal (length payload)))]
               @ map (Pair EVO_D) chunks @ [(0x5A, []), (EVO_B, [])])"
    and "length stream \<le> c_room (kh_cable (cable_reset E h))"
  shows "\<exists>h'. evo_put_request_internal muldiv fuel enough E url payload ignore h = (None, h')
    \<and> moved (cable_reset E h) stream
        (length (packet_bytes evo_session_init 0 EVO_Y d0 @ ack_stream s 1 (2 + length chunks + 2))) h'"
proof -
  let ?s0 = evo_session_init and ?h = "cable_reset E h"
  let ?ps = "[(0x46, c_string url), (0x41, evo_attr_bytes (decimal (length payload)))] :: (u8 \<times> bytes) list"
  have s0: "check_ok ?s0" by (simp add: check_ok_def evo_session_init_def)
  have s: "check_ok s" unfolding s_def by (rule update_check_ok [OF s0])
  have empty: "packet_fits s []" using s by (simp add: packet_fits_def check_ok_def)
  let ?n = "length chunks" and ?q = "1 + of_nat 2 + of_nat (length chunks) :: u8"
  have acks: "c_avail (kh_cable ?h) = packet_bytes ?s0 0 EVO_Y d0 @ ack_stream s 1 2
      @ ack_stream s (1 + of_nat 2) ?n @ packet_bytes s ?q EVO_Y [] @ packet_bytes s (?q + 1) EVO_Y [] @ rest"
    unfolding assms(7) ack_stream_append by (simp add: algebra_simps numeral_2_eq_2)
  have stream: "stream = packet_bytes ?s0 0 EVO_S evo_sinit @ packet_stream s 1 ?ps
      @ packet_stream s (1 + of_nat 2) (map (Pair EVO_D) chunks)
      @ packet_bytes s ?q 0x5A [] @ packet_bytes s (?q + 1) EVO_B []"
    unfolding assms(8) packet_stream_append by (simp add: algebra_simps)
  have room: "length (packet_bytes ?s0 0 EVO_S evo_sinit) + length (packet_stream s 1 ?ps)
      + length (packet_stream s (1 + of_nat 2) (map (Pair EVO_D) chunks))
      + length (packet_bytes s ?q 0x5A []) + length (packet_bytes s (?q + 1) EVO_B [])
      \<le> c_room (kh_cable ?h)"
    using assms(9) unfolding stream by simp
  obtain h1 where h1: "evo_send_packet fuel enough E 0 EVO_S evo_sinit ?s0 ?h = (None, s, h1)"
    "moved ?h (packet_bytes ?s0 0 EVO_S evo_sinit) (length (packet_bytes ?s0 0 EVO_Y d0)) h1"
    using send_packet_quiet [OF assms(2) s0 assms(4,3) acks, of EVO_S evo_sinit] room
    by (auto simp: s_def)
  have r1: "ready h1" "c_avail (kh_cable h1) = ack_stream s 1 (length ?ps)
      @ ack_stream s (1 + of_nat 2) ?n @ packet_bytes s ?q EVO_Y [] @ packet_bytes s (?q + 1) EVO_Y [] @ rest"
    "c_room (kh_cable h1) = c_room (kh_cable ?h) - length (packet_bytes ?s0 0 EVO_S evo_sinit)"
    using h1(2) acks by (simp_all add: moved_def numeral_2_eq_2)
  have types: "\<forall>p\<in>set ?ps. fst p \<noteq> EVO_S" by (simp add: EVO_S_def)
  have "length (packet_stream s 1 ?ps) \<le> c_room (kh_cable h1)" using room r1(3) by simp
  from send_packets_quiet [OF r1(1) s assms(3) types r1(2) this]
  obtain h2 where h2: "evo_send_packets fuel enough E 1 ?ps s h1 = (None, s, h2)"
    "moved h1 (packet_stream s 1 ?ps) (length (ack_stream s 1 (length ?ps))) h2" by blast
  let ?h2 = "evo_progress_start E (length payload) h2"
  have h2': "moved h1 (packet_stream s 1 ?ps) (length (ack_stream s 1 (length ?ps))) ?h2"
    using moved_trans [OF h2(2) progress_start_quiet [OF moved_ready [OF h2(2)]]] by simp
  have r2: "ready ?h2" "c_avail (kh_cable ?h2) = ack_stream s (1 + of_nat 2) ?n
      @ packet_bytes s ?q EVO_Y [] @ packet_bytes s (?q + 1) EVO_Y [] @ rest"
    "c_room (kh_cable ?h2) = c_room (kh_cable ?h) - length (packet_bytes ?s0 0 EVO_S evo_sinit)
        - length (packet_stream s 1 ?ps)"
    using h2' r1 by (simp_all add: moved_def)
  have "length (packet_stream s (1 + of_nat 2) (map (Pair EVO_D) chunks)) \<le> c_room (kh_cable ?h2)"
    using room r2(3) by simp
  from put_chunks_quiet [OF s assms(3) r2(1) assms(6) r2(2) this, of muldiv "length payload" 0]
  obtain h3 where h3: "evo_put_chunks muldiv fuel enough E wire (length payload) 0 3 0 s ?h2
      = (None, (?q, s), h3)"
    "moved ?h2 (packet_stream s (1 + of_nat 2) (map (Pair EVO_D) chunks))
        (length (ack_stream s (1 + of_nat 2) ?n)) h3" by auto
  have r3: "ready h3" "c_avail (kh_cable h3) = packet_bytes s ?q EVO_Y [] @ packet_bytes s (?q + 1) EVO_Y [] @ rest"
    "c_room (kh_cable h3) = c_room (kh_cable ?h) - length (packet_bytes ?s0 0 EVO_S evo_sinit)
        - length (packet_stream s 1 ?ps) - length (packet_stream s (1 + of_nat 2) (map (Pair EVO_D) chunks))"
    using h3(2) r2 by (simp_all add: moved_def)
  let ?fin = "if length payload > 0
      then evo_progress_update muldiv E (length payload) (length payload) True h3 else (None, h3)"
  obtain h4 where h4: "?fin = (None, h4)" "moved h3 [] 0 h4"
    using progress_update_quiet [OF r3(1), of muldiv "length payload" "length payload" True] r3(1)
    by (cases payload) (auto simp: moved_def)
  have r4: "ready h4" "c_avail (kh_cable h4) = packet_bytes s ?q EVO_Y [] @ packet_bytes s (?q + 1) EVO_Y [] @ rest"
    "c_room (kh_cable h4) = c_room (kh_cable h3)"
    using h4(2) r3 by (simp_all add: moved_def)
  have "length (packet_bytes s ?q 0x5A []) \<le> c_room (kh_cable h4)" using room r4(3) r3(3) by simp
  from send_packet_quiet [OF r4(1) s empty assms(3) r4(2) this]
  obtain h5 where h5: "evo_send_packet fuel enough E ?q 0x5A [] s h4 = (None, s, h5)"
    "moved h4 (packet_bytes s ?q 0x5A []) (length (packet_bytes s ?q EVO_Y [])) h5"
    by (auto simp: EVO_S_def)
  have r5: "ready h5" "c_avail (kh_cable h5) = packet_bytes s (?q + 1) EVO_Y [] @ rest"
    "c_room (kh_cable h5) = c_room (kh_cable h4) - length (packet_bytes s ?q 0x5A [])"
    using h5(2) r4 by (simp_all add: moved_def)
  have "length (packet_bytes s (?q + 1) EVO_B []) \<le> c_room (kh_cable h5)"
    using room r5(3) r4(3) r3(3) by simp
  from send_packet_quiet [OF r5(1) s empty assms(3) r5(2) this]
  obtain h6 where h6: "evo_send_packet fuel enough E (?q + 1) EVO_B [] s h5 = (None, s, h6)"
    "moved h5 (packet_bytes s (?q + 1) EVO_B []) (length (packet_bytes s (?q + 1) EVO_Y [])) h6"
    by (auto simp: EVO_S_def EVO_B_def)
  have "moved ?h stream (length (packet_bytes ?s0 0 EVO_Y d0 @ ack_stream s 1 (2 + ?n + 2))) h6"
    using moved_trans [OF moved_trans [OF moved_trans [OF moved_trans [OF moved_trans
      [OF h1(2) h2'] h3(2)] h4(2)] h5(2)] h6(2)]
    unfolding stream ack_stream_append by (simp add: algebra_simps numeral_2_eq_2)
  moreover have "evo_send_packets fuel enough E 0 ((EVO_S, evo_sinit) # ?ps) ?s0 ?h = (None, s, h2)"
    using h1(1) h2(1) by simp
  ultimately show ?thesis
    using h3(1) h4(1) h5(1) h6(1) assms(5)
    by (auto simp: evo_put_request_internal_def Let_def attrs_enough)
qed

text \<open>Receiving a transfer: each packet is acknowledged, the data packets are collected.\<close>

lemma get_round_quiet:
  assumes "ready h" "check_ok s" "packet_fits s data" "0 < fuel" "type \<noteq> EVO_S"
    and "eg_previous g = None \<or> (\<exists>p. eg_previous g = Some (p mod 64) \<and> seq = p + 1)"
    and "c_avail (kh_cable h) = packet_bytes s seq type data @ rest"
    and "length (packet_bytes s seq EVO_Y []) \<le> c_room (kh_cable h)"
  shows "\<exists>h'. evo_get_round fuel enough E s g h
      = (evo_get_packet enough s EVO_KERMIT_SEQUENCE_CURRENT (seq mod 64) type data g, h')
    \<and> moved h (packet_bytes s seq EVO_Y []) (length (packet_bytes s seq type data)) h'"
proof -
  obtain h1 where h1: "evo_recv_raw fuel enough E h = (None, packet_bytes s seq type data, h1)"
    "moved h [] (length (packet_bytes s seq type data)) h1"
    using recv_raw_quiet [of h "[]" s seq type data rest fuel] assms by auto
  have "seq mod 64 mod 64 = seq mod 64" by (simp add: word_unat_eq_iff unat_mod)
  then have same: "packet_bytes s (seq mod 64) EVO_Y [] = packet_bytes s seq EVO_Y []"
    by (simp add: packet_bytes_def packet_head_def Let_def)
  have "length (packet_bytes s seq EVO_Y []) \<le> c_room (kh_cable h1)"
    using h1(2) assms(8) by (simp add: moved_def)
  then obtain h2 where h2: "evo_ack enough E s (seq mod 64) [] h1 = (None, h2)"
    "moved h1 (packet_bytes s seq EVO_Y []) 0 h2"
    using send_stepped [OF moved_ready [OF h1(2)], of "packet_bytes s seq EVO_Y []"]
      make_packet_enough [OF assms(2), of "seq mod 64" EVO_Y "[]" "[]"] same
    by (auto simp: evo_ack_def stepped_def)
  have state: "evo_kermit_sequence_state (eg_previous g \<noteq> None)
      (case eg_previous g of None \<Rightarrow> 0 | Some p \<Rightarrow> p) (seq mod 64) = EVO_KERMIT_SEQUENCE_CURRENT"
    using assms(6) by (elim disjE exE conjE) (simp_all add: sequence_first sequence_next)
  show ?thesis
    using h1(1) h2(1) moved_trans [OF h1(2) h2(2)] parse_packet [OF assms(2), of data seq type]
      assms(3,5) state
    by (simp add: evo_get_round_def packet_fits_def)
qed

lemma get_loop_quiet:
  assumes "check_ok s" "0 < fuel" "ready h" "length ps < rounds"
    and "\<forall>p\<in>set ps. packet_fits s (snd p) \<and> fst p \<notin> {EVO_S, EVO_E, EVO_B}"
    and "eg_previous g = None \<or> (\<exists>p. eg_previous g = Some (p mod 64) \<and> seq = p + 1)"
    and "c_avail (kh_cable h) = packet_stream s seq (ps @ [(EVO_B, [])]) @ rest"
    and "length (ack_stream s seq (length ps + 1)) \<le> c_room (kh_cable h)"
    and "length (eg_chunks g @ data_of ps) \<le> EVO_MAX_GET_ENCODED_LEN"
    and "evo_decode enough (Some s) EVO_MAX_GET_PAYLOAD_LEN (eg_chunks g @ data_of ps) [] = (None, payload)"
  shows "\<exists>h'. evo_get_loop rounds fuel enough E s g h = (None, Some payload, h')
    \<and> moved h (ack_stream s seq (length ps + 1))
        (length (packet_stream s seq (ps @ [(EVO_B, [])]))) h'"
  using assms(3-)
proof (induction ps arbitrary: h seq g rounds)
  case Nil
  then obtain k where k: "rounds = Suc k" by (cases rounds) auto
  have empty: "packet_fits s []" using assms(1) by (simp add: packet_fits_def check_ok_def)
  obtain h1 where h1: "evo_get_round fuel enough E s g h
      = (evo_get_packet enough s EVO_KERMIT_SEQUENCE_CURRENT (seq mod 64) EVO_B [] g, h1)"
    "moved h (packet_bytes s seq EVO_Y []) (length (packet_bytes s seq EVO_B [])) h1"
    using get_round_quiet [OF Nil(1) assms(1) empty assms(2), of EVO_B g seq rest] Nil
    by (auto simp: EVO_B_def EVO_S_def)
  then show ?case
    using Nil by (simp add: k evo_get_packet_def data_of_def EVO_B_def EVO_D_def EVO_E_def Let_def)
next
  case (Cons p ps)
  obtain type data where p: "p = (type, data)" by (cases p)
  obtain k where k: "rounds = Suc k" using Cons.prems by (cases rounds) auto
  have fits: "packet_fits s data" "type \<noteq> EVO_S" "type \<noteq> EVO_E" "type \<noteq> EVO_B"
    using Cons.prems(3) p by auto
  let ?rest = "packet_stream s (seq + 1) (ps @ [(EVO_B, [])]) @ rest"
  have av: "c_avail (kh_cable h) = packet_bytes s seq type data @ ?rest" using Cons.prems(5) p by simp
  have room: "length (packet_bytes s seq EVO_Y []) \<le> c_room (kh_cable h)" using Cons.prems(6) by simp
  obtain h1 where h1: "evo_get_round fuel enough E s g h
      = (evo_get_packet enough s EVO_KERMIT_SEQUENCE_CURRENT (seq mod 64) type data g, h1)"
    "moved h (packet_bytes s seq EVO_Y []) (length (packet_bytes s seq type data)) h1"
    using get_round_quiet [OF Cons.prems(1) assms(1) fits(1) assms(2) fits(2) Cons.prems(4) av room] by blast
  let ?g = "g\<lparr>eg_duplicates := 0, eg_previous := Some (seq mod 64),
      eg_chunks := eg_chunks g @ data_of [(type, data)]\<rparr>"
  have "length (eg_chunks g) + length data \<le> EVO_MAX_GET_ENCODED_LEN" if "type = EVO_D"
    using Cons.prems(7) p that by (simp add: data_of_def)
  then have packet: "evo_get_packet enough s EVO_KERMIT_SEQUENCE_CURRENT (seq mod 64) type data g = Go_On ?g"
    using fits by (auto simp: evo_get_packet_def Let_def evo_kermit_size_within_limit_def data_of_def)
  have r1: "ready h1" "c_avail (kh_cable h1) = ?rest"
    "length (ack_stream s (seq + 1) (length ps + 1)) \<le> c_room (kh_cable h1)"
    using h1(2) av Cons.prems(6) by (auto simp: moved_def)
  have data: "data_of (p # ps) = data_of [(type, data)] @ data_of ps" by (simp add: data_of_def p)
  have "\<exists>q. eg_previous ?g = Some (q mod 64) \<and> seq + 1 = q + 1" by auto
  then obtain h2 where h2: "evo_get_loop k fuel enough E s ?g h1 = (None, Some payload, h2)"
    "moved h1 (ack_stream s (seq + 1) (length ps + 1))
        (length (packet_stream s (seq + 1) (ps @ [(EVO_B, [])]))) h2"
    using Cons.IH [of h1 k ?g "seq + 1"] r1 Cons.prems(2,3,7,8) k data by auto
  show ?case
    using h1 h2 k packet moved_trans [OF h1(2) h2(2)] p by simp
qed

end

section \<open>Properties of the transport\<close>

text \<open>The packets of an object before the last one: they fit, and their data are the encoded object.\<close>

lemma object_packets:
  fixes url payload :: bytes
  defines "s \<equiv> evo_session_init"
  defines "ps \<equiv> \<lambda>wire. [(0x46, c_string url), (0x41, evo_attr_bytes (decimal (length payload)))]
      @ map (Pair EVO_D) (evo_chunks wire (evo_session_data_chunk_size s) 0) @ [(0x5A, [])]"
  assumes "evo_encode enough payload [] = (None, wire)" "length payload \<le> EVO_MAX_GET_PAYLOAD_LEN"
    and "length (c_string url) \<le> 2039" "length (decimal (length payload)) \<le> 2000"
  shows "\<forall>p\<in>set (ps wire). packet_fits s (snd p) \<and> fst p \<notin> {EVO_S, EVO_E, EVO_B}"
    and "data_of (ps wire) = wire"
    and "evo_decode enough (Some s) EVO_MAX_GET_PAYLOAD_LEN wire [] = (None, payload)"
proof -
  let ?chunks = "evo_chunks wire (evo_session_data_chunk_size s) 0"
  have s: "default_quoting s" by (simp add: s_def default_quoting_def evo_session_init_def)
  obtain es gss where "evo_encode enough payload [] = (None, wire_bytes es)"
      "evo_decode enough (Some s) EVO_MAX_GET_PAYLOAD_LEN (wire_bytes es) [] = (None, payload)"
      "concat (map wire_bytes gss) = wire_bytes es"
      "evo_chunks (wire_bytes es) (evo_session_data_chunk_size s) 0 = map wire_bytes gss"
      "\<forall>fs\<in>set gss. length (wire_bytes fs) \<le> max (evo_session_data_chunk_size s) 4"
    using encode_chunks [OF s assms(4), of "evo_session_data_chunk_size s"] by blast
  then have w: "evo_decode enough (Some s) EVO_MAX_GET_PAYLOAD_LEN wire [] = (None, payload)"
    "concat ?chunks = wire" "\<forall>c\<in>set ?chunks. length c \<le> max (evo_session_data_chunk_size s) 4"
    using assms(3) by auto
  show "evo_decode enough (Some s) EVO_MAX_GET_PAYLOAD_LEN wire [] = (None, payload)" by (rule w(1))
  have types: "(0x46 :: u8) \<notin> {EVO_S, EVO_E, EVO_B}" "(0x41 :: u8) \<notin> {EVO_S, EVO_E, EVO_B}"
    "(0x5A :: u8) \<notin> {EVO_S, EVO_E, EVO_B}" "EVO_D \<notin> {EVO_S, EVO_E, EVO_B}"
    by (simp_all add: EVO_S_def EVO_E_def EVO_B_def EVO_D_def)
  have "length c \<le> 2039" if "c \<in> set ?chunks" for c
    using w(3) that by (fastforce simp: s_def evo_session_data_chunk_size_def evo_session_init_def
        EVO_MAX_PACKET_LEN_def EVO_PUT_CHUNK_SIZE_def)
  then show "\<forall>p\<in>set (ps wire). packet_fits s (snd p) \<and> fst p \<notin> {EVO_S, EVO_E, EVO_B}"
    using types assms(5,6) by (auto simp: ps_def packet_fits_def s_def evo_session_init_def evo_attr_bytes_def)
  have "filter (\<lambda>p. fst p = EVO_D) (map (Pair EVO_D) cs) = map (Pair EVO_D) cs" for cs :: "bytes list"
    by (induction cs) simp_all
  then show "data_of (ps wire) = wire"
    using w(2) by (simp add: ps_def data_of_def EVO_D_def o_def)
qed

text \<open>
  C4: What \<open>evo_put_request\<close> sends, the receiving loop of \<open>evo_get_request\<close> takes: an object of
  up to 128 MB, sent to a peer that acknowledges every packet, leaves the link as the packets of
  one Kermit transfer, quoted, compressed, cut into packets and numbered; the loop on a link
  that carries the packets behind the first one delivers the object unchanged, acknowledges
  every packet and consumes exactly the transfer, in as many rounds as there are packets.
\<close>

theorem evo_put_then_get:
  assumes "quiet_link send recv sent avail room ok E" "link_ready ok h0" "h0 = cable_reset E h"
    and "quiet_link send' recv' sent' avail' room' ok' E'" "link_ready ok' g"
    and "0 < fuel" "length payload \<le> EVO_MAX_GET_PAYLOAD_LEN" "length (c_string url) \<le> 2039"
    and "length (decimal (length payload)) \<le> 2000"
    and "evo_encode enough payload [] = (None, wire)" "length wire \<le> EVO_MAX_GET_ENCODED_LEN"
    and "n = length (evo_chunks wire (evo_session_data_chunk_size evo_session_init) 0)"
    and "avail (cb_dev (kh_cable h0)) = ack_stream evo_session_init 0 (n + 5) @ late"
    and "length first + length stream \<le> room (cb_dev (kh_cable h0))"
    and "first = packet_bytes evo_session_init 0 EVO_S evo_sinit"
    and "stream = packet_stream evo_session_init 1 ([(0x46, c_string url),
        (0x41, evo_attr_bytes (decimal (length payload)))]
        @ map (Pair EVO_D) (evo_chunks wire (evo_session_data_chunk_size evo_session_init) 0)
        @ [(0x5A, []), (EVO_B, [])])"
    and "avail' (cb_dev (kh_cable g)) = stream @ rest" "n + 4 \<le> rounds"
    and "length (ack_stream evo_session_init 1 (n + 4)) \<le> room' (cb_dev (kh_cable g))"
  shows "(\<exists>h'. evo_put_request muldiv fuel enough E url payload h = (None, h')
      \<and> transfer sent avail ok h0 (first @ stream) (length (ack_stream evo_session_init 0 (n + 5))) h')
    \<and> (\<exists>g'. evo_get_loop rounds fuel enough E' evo_session_init
          \<lparr>eg_previous = None, eg_duplicates = 0, eg_chunks = []\<rparr> g = (None, Some payload, g')
      \<and> transfer sent' avail' ok' g (ack_stream evo_session_init 1 (n + 4)) (length stream) g')"
proof -
  let ?s = evo_session_init and ?chunks = "evo_chunks wire (evo_session_data_chunk_size evo_session_init) 0"
  let ?ps = "[(0x46, c_string url), (0x41, evo_attr_bytes (decimal (length payload)))]
      @ map (Pair EVO_D) ?chunks @ [(0x5A, [])]"
  have s: "check_ok ?s" "evo_session_update_from_sinit [] ?s = ?s"
    by (simp_all add: check_ok_def evo_session_init_def evo_session_update_from_sinit_def)
  have ready: "quiet_link.ready ok h0" "quiet_link.ready ok' g"
    using assms(2,5) quiet_link.link_ready_iff [OF assms(1)] quiet_link.link_ready_iff [OF assms(4)] by blast+
  have acks: "ack_stream ?s 0 (n + 5) = packet_bytes ?s 0 EVO_Y [] @ ack_stream ?s 1 (2 + n + 2)"
    by (simp add: add.commute [of n] eval_nat_numeral)
  have av: "quiet_link.c_avail avail (kh_cable h0)
      = packet_bytes ?s 0 EVO_Y [] @ ack_stream ?s 1 (2 + n + 2) @ late"
    using assms(13) acks by (simp add: quiet_link.c_avail_def [OF assms(1)])
  have empty: "packet_fits ?s []" by (simp add: packet_fits_def evo_session_init_def)
  have "length (first @ stream) \<le> quiet_link.c_room room (kh_cable h0)"
    using assms(14) by (simp add: quiet_link.c_room_def [OF assms(1)])
  from quiet_link.put_request_quiet [OF assms(1), of h fuel "[]" payload wire ?chunks late "first @ stream" url,
      folded assms(3), unfolded s(2), OF ready(1) assms(6) empty assms(10) refl _ _ this, folded assms(12), OF av]
  have put: "\<exists>h'. evo_put_request muldiv fuel enough E url payload h = (None, h')
      \<and> quiet_link.moved sent avail room ok h0 (first @ stream)
          (length (ack_stream ?s 0 (n + 5))) h'"
    unfolding acks evo_put_request_def assms(15,16) by blast
  note object = object_packets [OF assms(10,7,8,9)]
  let ?all = "?ps @ [(EVO_B, [])]"
  let ?g = "\<lparr>eg_previous = None, eg_duplicates = 0, eg_chunks = []\<rparr>"
  have len: "length ?ps + 1 = n + 4" "length ?ps < rounds"
    using assms(12,18) by simp_all
  have avail_g: "quiet_link.c_avail avail' (kh_cable g) = packet_stream ?s 1 ?all @ rest"
    using assms(17) unfolding assms(16) by (simp add: quiet_link.c_avail_def [OF assms(4)])
  have room_g: "length (ack_stream ?s 1 (length ?ps + 1)) \<le> quiet_link.c_room room' (kh_cable g)"
    unfolding len(1) using assms(19) by (simp add: quiet_link.c_room_def [OF assms(4)])
  have eg: "eg_chunks ?g @ xs = xs" for xs by simp
  have chunks_g: "length (eg_chunks ?g @ data_of ?ps) \<le> EVO_MAX_GET_ENCODED_LEN"
    "evo_decode enough (Some ?s) EVO_MAX_GET_PAYLOAD_LEN (eg_chunks ?g @ data_of ?ps) [] = (None, payload)"
    unfolding eg object(2) using object(3) assms(11) by simp_all
  have prev: "eg_previous ?g = None \<or> (\<exists>p. eg_previous ?g = Some (p mod 64) \<and> 1 = p + 1)" by simp
  from quiet_link.get_loop_quiet [OF assms(4) s(1) assms(6) ready(2) len(2) object(1) prev avail_g room_g chunks_g]
  have "\<exists>g'. evo_get_loop rounds fuel enough E' ?s ?g g = (None, Some payload, g')
      \<and> quiet_link.moved sent' avail' room' ok' g (ack_stream ?s 1 (n + 4)) (length stream) g'"
    unfolding len(1) assms(16) by simp
  then show ?thesis
    using put quiet_link.moved_transfer [OF assms(1)] quiet_link.moved_transfer [OF assms(4)] by blast
qed

text \<open>Two handles on virtual links whose driver is not asked to reset the buffers.\<close>

definition evo_env :: "vti_dev calc_env" where
  "evo_env = (vti_env vti_works)\<lparr>ce_fncts := (cable_vti vti_works)\<lparr>cf_reset := None\<rparr>\<rparr>"

definition evo_handle :: "bytes \<Rightarrow> vti_dev calc_handle" where
  "evo_handle bs = vti_handle CALC_TI84EVO_USB (vti_loaded bs)"

lemma evo_env_quiet: "quiet_link vti_put vti_get vti_sent vti_avail vti_room vti_ok evo_env"
  by unfold_locales (simp_all add: evo_env_def vti_env_def cable_vti_def)

lemma evo_handle_reset: "cable_reset evo_env (evo_handle bs) = evo_handle bs"
  by (simp add: cable_reset_def evo_handle_def vti_handle_def ticables_cable_reset_def guarded_def
      ticables_event_send_simple_def ticables_event_send_simple_generic_def ticables_event_send_def
      ticables_event_fill_header_def evo_env_def vti_env_def cable_vti_def Let_def)

lemma packet_length:
  assumes "check_ok s" "length data + 2 + es_check_type s \<le> 94"
  shows "length (packet_bytes s seq type data) = length data + es_check_type s + 5"
  using assms block_check_enough(2) [of "es_check_type s"]
  by (simp add: packet_bytes_def packet_head_def Let_def check_ok_def)

lemma init_packet_length:
  "length data \<le> 91 \<Longrightarrow> length (packet_bytes evo_session_init seq type data) = length data + 6"
  by (subst packet_length) (simp_all add: check_ok_def evo_session_init_def)

lemma ack_stream_length: "length (ack_stream evo_session_init seq n) = 6 * n"
  by (induction n arbitrary: seq) (simp_all add: init_packet_length)

theorem evo_put_then_get_witness:
  "\<exists>stream acks. length stream \<le> 255
    \<and> (\<exists>h'. evo_put_request (\<lambda>a b c. a) 1 enough evo_env [0x2F] [0x41] (evo_handle acks) = (None, h'))
    \<and> (\<exists>g'. evo_get_loop 9 1 enough evo_env evo_session_init
          \<lparr>eg_previous = None, eg_duplicates = 0, eg_chunks = []\<rparr> (evo_handle stream)
        = (None, Some [0x41], g'))"
proof -
  let ?s = evo_session_init
  have run: "evo_run [0x41] 0 (Suc 0) = Suc 0" by (simp add: evo_run.simps)
  have wire: "evo_encode enough [0x41] [] = (None, [0x41])"
    by (simp add: evo_encode_def buf_reserve_def evo_encode_from.simps run quoted_def EVO_QCTL_def EVO_REPT_def)
  have size: "evo_session_data_chunk_size ?s = 2000"
    by (simp add: evo_session_data_chunk_size_def evo_session_init_def EVO_MAX_PACKET_LEN_def EVO_PUT_CHUNK_SIZE_def)
  have loop: "evo_chunk_loop [0x41] 0 2000 0 = 1"
    by (simp add: evo_chunk_loop.simps evo_encoded_element_len_def EVO_QCTL_def EVO_REPT_def)
  have chunks: "evo_chunks [0x41] (evo_session_data_chunk_size ?s) 0 = [[0x41]]"
    unfolding size by (simp add: evo_chunks.simps evo_put_chunk_len_def loop)
  let ?d = "decimal (length [0x41 :: u8])"
  have one: "decimal (Suc 0) = [0x31]" by (simp add: decimal.simps)
  have dec: "?d = [0x31]" by (simp add: one)
  define stream where "stream = packet_stream ?s 1 ([(0x46, c_string [0x2F]), (0x41, evo_attr_bytes ?d)]
      @ map (Pair EVO_D) (evo_chunks [0x41] (evo_session_data_chunk_size ?s) 0) @ [(0x5A, []), (EVO_B, [])])"
  let ?first = "packet_bytes ?s 0 EVO_S evo_sinit"
  have len: "length ?first + length stream \<le> 255"
    by (simp add: stream_def one chunks init_packet_length evo_attr_bytes_def c_string_def evo_sinit_def)
  define acks where "acks = ack_stream ?s 0 (1 + 5)"
  have acks: "length acks \<le> 255" by (simp add: acks_def ack_stream_length del: ack_stream.simps)
  have ready: "link_ready vti_ok (evo_handle acks)" "link_ready vti_ok (evo_handle stream)"
    using acks len by (simp_all add: evo_handle_def)
  have avail: "vti_avail (cb_dev (kh_cable (evo_handle acks))) = ack_stream ?s 0 (1 + 5) @ []"
    "vti_avail (cb_dev (kh_cable (evo_handle stream))) = stream @ []"
    using acks len by (simp_all add: evo_handle_def acks_def)
  have room: "length ?first + length stream \<le> vti_room (cb_dev (kh_cable (evo_handle acks)))"
    "length (ack_stream ?s 1 (1 + 4)) \<le> vti_room (cb_dev (kh_cable (evo_handle stream)))"
    using acks len by (simp_all add: evo_handle_def ack_stream_length del: ack_stream.simps)
  have small: "length [0x41 :: u8] \<le> EVO_MAX_GET_PAYLOAD_LEN" "length (c_string [0x2F]) \<le> 2039"
    "length ?d \<le> 2000" "length [0x41 :: u8] \<le> EVO_MAX_GET_ENCODED_LEN"
    "1 = length (evo_chunks [0x41] (evo_session_data_chunk_size ?s) 0)" "1 + 4 \<le> (9 :: nat)"
    by (simp_all add: EVO_MAX_GET_PAYLOAD_LEN_def EVO_MAX_GET_ENCODED_LEN_def one chunks c_string_def)
  have "(\<exists>h'. evo_put_request (\<lambda>a b c. a) 1 enough evo_env [0x2F] [0x41] (evo_handle acks) = (None, h'))
    \<and> (\<exists>g'. evo_get_loop 9 1 enough evo_env ?s
          \<lparr>eg_previous = None, eg_duplicates = 0, eg_chunks = []\<rparr> (evo_handle stream)
        = (None, Some [0x41], g'))"
    using evo_put_then_get [OF evo_env_quiet ready(1) evo_handle_reset [of acks, symmetric] evo_env_quiet
        ready(2) zero_less_one small(1-3) wire small(4,5) avail(1) room(1) refl stream_def avail(2) small(6)
        room(2), where muldiv = "\<lambda>a b c. a"]
    by blast
  then show ?thesis using len by (intro exI [of _ stream] exI [of _ acks]) simp
qed

text \<open>
  C37: Every packet the sender builds is one the receiver understands: whatever bytes other than
  the start mark precede it on the link, the receiver skips them, takes exactly the packet off
  the link by its length characters, for short and for extended packets and for each of the
  three block checks, and the parser gives back the sequence number, the type and the data.
\<close>

theorem evo_packet_roundtrip:
  assumes "quiet_link send recv sent avail room ok E" "link_ready ok h"
    and "es_check_type s \<in> {1, 2, 3}" "length data + es_check_type s \<le> 2040"
    and "evo_make_packet enough seq type data (Some s) [] = (None, pkt)"
    and "avail (cb_dev (kh_cable h)) = junk @ pkt @ rest" "EVO_SOH \<notin> set junk" "length junk < fuel"
  shows "(\<exists>h'. evo_recv_raw fuel enough E h = (None, pkt, h')
      \<and> transfer sent avail ok h [] (length junk + length pkt) h')
    \<and> evo_parse_packet enough pkt (Some s) = Inr (seq mod 64, type, data)"
proof -
  have s: "check_ok s" "packet_fits s data" using assms(3,4) by (auto simp: check_ok_def packet_fits_def)
  have pkt: "pkt = packet_bytes s seq type data"
    using make_packet_enough [OF s(1), of seq type data "[]"] assms(5) by simp
  have "quiet_link.ready ok h" using assms(2) quiet_link.link_ready_iff [OF assms(1)] by blast
  moreover have "quiet_link.c_avail avail (kh_cable h) = junk @ packet_bytes s seq type data @ rest"
    using assms(6) pkt by (simp add: quiet_link.c_avail_def [OF assms(1)])
  ultimately obtain h' where "evo_recv_raw fuel enough E h = (None, pkt, h')"
    "quiet_link.moved sent avail room ok h [] (length junk + length pkt) h'"
    using quiet_link.recv_raw_quiet [OF assms(1) _ _ assms(7,8) s] pkt by blast
  then show ?thesis
    using quiet_link.moved_transfer [OF assms(1)] parse_packet [OF s(1) assms(4)] pkt by blast
qed

theorem evo_packet_roundtrip_witness:
  "\<exists>pkt. evo_make_packet enough 5 0x44 [0x41, 0x42] (Some evo_session_init) [] = (None, pkt)
    \<and> evo_parse_packet enough pkt (Some evo_session_init) = Inr (5, 0x44, [0x41, 0x42])"
proof -
  let ?s = evo_session_init
  define pkt where "pkt = packet_bytes ?s 5 0x44 [0x41, 0x42]"
  have made: "evo_make_packet enough 5 0x44 [0x41, 0x42] (Some ?s) [] = (None, pkt)"
    using make_packet_enough [of ?s 5 "0x44" "[0x41, 0x42]" "[]"]
    by (simp add: pkt_def check_ok_def evo_session_init_def)
  have len: "length pkt = 8" by (simp add: pkt_def init_packet_length)
  have ready: "link_ready vti_ok (evo_handle ([0x00] @ pkt))" using len by (simp add: evo_handle_def)
  have avail: "vti_avail (cb_dev (kh_cable (evo_handle ([0x00] @ pkt)))) = [0x00] @ pkt @ []"
    using len by (simp add: evo_handle_def)
  have fits: "es_check_type ?s \<in> {1, 2, 3}" "length [0x41, 0x42 :: u8] + es_check_type ?s \<le> 2040"
    "EVO_SOH \<notin> set [0x00]" "length [0x00 :: u8] < 2"
    by (simp_all add: evo_session_init_def EVO_SOH_def)
  show ?thesis
    using evo_packet_roundtrip [OF evo_env_quiet ready fits(1,2) made avail fits(3,4)] made by auto
qed

text \<open>The answers of a peer that refuses a packet \<open>k\<close> times and acknowledges others late.\<close>

definition refusals :: "evo_session \<Rightarrow> nat \<Rightarrow> u8 \<Rightarrow> u8 \<Rightarrow> bytes \<Rightarrow> bytes" where
  "refusals s k q rtype e = concat (replicate k (packet_bytes s q rtype e))"

definition late_acks :: "evo_session \<Rightarrow> (u8 \<times> bytes) list \<Rightarrow> bytes" where
  "late_acks s stale = concat (map (\<lambda>(q, e). packet_bytes s q EVO_Y e) stale)"

text \<open>
  C26: A packet gets through to a peer that answers in the end: up to two refusals (packets that
  are neither an acknowledgement nor an error) and up to two acknowledgements of other packets
  may precede the right one. The sender then returns success, having sent the packet once more
  than it was refused, having read every answer, and with the peer's parameters taken over when
  the packet was the session's first.
\<close>

theorem evo_send_packet_delivers:
  assumes "quiet_link send recv sent avail room ok E" "link_ready ok h"
    and "es_check_type s \<in> {1, 2, 3}" "0 < fuel" "rtype \<notin> {EVO_Y, EVO_E}"
    and "length d + es_check_type s \<le> 2040" "length e + es_check_type s \<le> 2040"
    and "k \<le> 2" "length stale \<le> 2"
    and "\<forall>(q, x)\<in>set stale. length x + es_check_type s \<le> 2040 \<and> q mod 64 \<noteq> seq mod 64"
    and "evo_make_packet enough seq type data (Some s) [] = (None, pkt)"
    and "answers = refusals s k q rtype e @ late_acks s stale @ packet_bytes s seq EVO_Y d"
    and "avail (cb_dev (kh_cable h)) = answers @ rest"
    and "Suc k * length pkt \<le> room (cb_dev (kh_cable h))"
  shows "\<exists>h'. evo_send_packet fuel enough E seq type data s h
      = (None, if type = EVO_S then evo_session_update_from_sinit d s else s, h')
    \<and> transfer sent avail ok h (concat (replicate (Suc k) pkt)) (length answers) h'"
proof -
  have s: "check_ok s" "packet_fits s d" "packet_fits s e"
    using assms(3,6,7) by (auto simp: check_ok_def packet_fits_def)
  have stale: "length stale < 3" "\<forall>(q, x)\<in>set stale. packet_fits s x \<and> q mod 64 \<noteq> seq mod 64"
    using assms(9,10) by (auto simp: packet_fits_def)
  have ready: "quiet_link.ready ok h" using assms(2) quiet_link.link_ready_iff [OF assms(1)] by blast
  have av: "quiet_link.c_avail avail (kh_cable h) = concat (replicate k (packet_bytes s q rtype e))
      @ concat (map (\<lambda>(q, e). packet_bytes s q EVO_Y e) stale) @ packet_bytes s seq EVO_Y d @ rest"
    using assms(12,13) by (simp add: quiet_link.c_avail_def [OF assms(1)] refusals_def late_acks_def)
  have room: "length (concat (replicate (Suc k) pkt)) \<le> quiet_link.c_room room (kh_cable h)"
    using assms(14) by (simp add: quiet_link.c_room_def [OF assms(1)] length_concat sum_list_replicate
        del: replicate.simps)
  have types: "rtype \<noteq> EVO_Y" "rtype \<noteq> EVO_E" "k < 3" using assms(5,8) by auto
  have n: "length answers = length (concat (replicate k (packet_bytes s q rtype e)))
      + length (concat (map (\<lambda>(q, e). packet_bytes s q EVO_Y e) stale)) + length (packet_bytes s seq EVO_Y d)"
    by (simp add: assms(12) refusals_def late_acks_def)
  show ?thesis
    using quiet_link.attempts_quiet [OF assms(1) ready s(1,2) assms(4) types(1,2) s(3) stale av types(3) room, of type]
      quiet_link.moved_transfer [OF assms(1)] assms(11) unfolding n evo_send_packet_def
    by (auto simp del: replicate.simps)
qed

theorem evo_send_packet_delivers_witness:
  "\<exists>answers pkt h'. evo_send_packet 1 enough evo_env 5 0x44 [0x41] evo_session_init (evo_handle answers)
      = (None, evo_session_init, h')
    \<and> vti_sent (cb_dev (kh_cable h')) = pkt @ pkt \<and> length pkt = 7"
proof -
  let ?s = evo_session_init
  define pkt where "pkt = packet_bytes ?s 5 0x44 [0x41]"
  have made: "evo_make_packet enough 5 0x44 [0x41] (Some ?s) [] = (None, pkt)"
    using make_packet_enough [of ?s 5 "0x44" "[0x41]" "[]"]
    by (simp add: pkt_def check_ok_def evo_session_init_def)
  define answers where "answers = refusals ?s 1 5 0x4E [] @ late_acks ?s [(4, [])] @ packet_bytes ?s 5 EVO_Y []"
  have len: "length pkt = 7" "length answers = 18"
    by (simp_all add: pkt_def answers_def refusals_def late_acks_def init_packet_length)
  have ready: "link_ready vti_ok (evo_handle answers)" using len by (simp add: evo_handle_def)
  have avail: "vti_avail (cb_dev (kh_cable (evo_handle answers))) = answers @ []"
    using len by (simp add: evo_handle_def)
  have room: "Suc 1 * length pkt \<le> vti_room (cb_dev (kh_cable (evo_handle answers)))"
    using len by (simp add: evo_handle_def)
  have fits: "es_check_type ?s \<in> {1, 2, 3}" "0x4E \<notin> {EVO_Y, EVO_E}"
    "length [] + es_check_type ?s \<le> 2040" "1 \<le> (2 :: nat)" "length [(4 :: u8, [] :: bytes)] \<le> 2"
    "\<forall>(q, x)\<in>set [(4, [])]. length x + es_check_type ?s \<le> 2040 \<and> q mod 64 \<noteq> (5 :: u8) mod 64"
    by (simp_all add: evo_session_init_def EVO_Y_def EVO_E_def)
  have type: "(0x44 :: u8) \<noteq> EVO_S" by (simp add: EVO_S_def)
  from evo_send_packet_delivers [OF evo_env_quiet ready fits(1) zero_less_one fits(2,3,3-6) made answers_def avail room]
  obtain h' where "evo_send_packet 1 enough evo_env 5 0x44 [0x41] ?s (evo_handle answers) = (None, ?s, h')"
    "transfer vti_sent vti_avail vti_ok (evo_handle answers) (concat (replicate (Suc 1) pkt)) (length answers) h'"
    using type by auto
  moreover have "vti_sent (cb_dev (kh_cable (evo_handle answers))) = []" using len by (simp add: evo_handle_def)
  ultimately show ?thesis
    using len by (intro exI [of _ answers] exI [of _ pkt] exI [of _ h']) (simp add: transfer_def)
qed

text \<open>
  A packet that is refused three times is given up: the sender has then sent it exactly
  three times, returns ERR_NACK, keeps the session as it was and reads nothing behind the third
  refusal.
\<close>

theorem evo_send_packet_gives_up:
  assumes "quiet_link send recv sent avail room ok E" "link_ready ok h"
    and "es_check_type s \<in> {1, 2, 3}" "0 < fuel" "rtype \<notin> {EVO_Y, EVO_E}"
    and "length e + es_check_type s \<le> 2040"
    and "evo_make_packet enough seq type data (Some s) [] = (None, pkt)"
    and "avail (cb_dev (kh_cable h)) = refusals s 3 q rtype e @ rest"
    and "3 * length pkt \<le> room (cb_dev (kh_cable h))"
  shows "\<exists>h'. evo_send_packet fuel enough E seq type data s h = (Some ERR_NACK, s, h')
    \<and> transfer sent avail ok h (pkt @ pkt @ pkt) (length (refusals s 3 q rtype e)) h'"
proof -
  have s: "check_ok s" "packet_fits s e" using assms(3,6) by (auto simp: check_ok_def packet_fits_def)
  have ready: "quiet_link.ready ok h" using assms(2) quiet_link.link_ready_iff [OF assms(1)] by blast
  have av: "quiet_link.c_avail avail (kh_cable h) = concat (replicate 3 (packet_bytes s q rtype e)) @ rest"
    using assms(8) by (simp add: quiet_link.c_avail_def [OF assms(1)] refusals_def)
  have three: "pkt @ pkt @ pkt = concat (replicate 3 pkt)" by (simp add: numeral_3_eq_3)
  have room: "length (concat (replicate 3 pkt)) \<le> quiet_link.c_room room (kh_cable h)"
    using assms(9) by (simp add: quiet_link.c_room_def [OF assms(1)] length_concat sum_list_replicate)
  have types: "rtype \<noteq> EVO_Y" "rtype \<noteq> EVO_E" using assms(5) by auto
  show ?thesis
    using quiet_link.attempts_give_up [OF assms(1) ready s(1) assms(4) types s(2) av room, of "seq mod 64" type]
      quiet_link.moved_transfer [OF assms(1)] assms(7) unfolding three refusals_def evo_send_packet_def
    by auto
qed

theorem evo_send_packet_gives_up_witness:
  "\<exists>answers h'. evo_send_packet 1 enough evo_env 5 0x44 [0x41] evo_session_init (evo_handle answers)
      = (Some ERR_NACK, evo_session_init, h') \<and> length (vti_sent (cb_dev (kh_cable h'))) = 21"
proof -
  let ?s = evo_session_init
  define pkt where "pkt = packet_bytes ?s 5 0x44 [0x41]"
  have made: "evo_make_packet enough 5 0x44 [0x41] (Some ?s) [] = (None, pkt)"
    using make_packet_enough [of ?s 5 "0x44" "[0x41]" "[]"]
    by (simp add: pkt_def check_ok_def evo_session_init_def)
  define answers where "answers = refusals ?s 3 5 0x4E []"
  have len: "length pkt = 7" "length answers = 18"
    by (simp_all add: pkt_def answers_def refusals_def init_packet_length numeral_3_eq_3)
  have ready: "link_ready vti_ok (evo_handle answers)" using len by (simp add: evo_handle_def)
  have avail: "vti_avail (cb_dev (kh_cable (evo_handle answers))) = refusals ?s 3 5 0x4E [] @ []"
    using len by (simp add: evo_handle_def answers_def)
  have room: "3 * length pkt \<le> vti_room (cb_dev (kh_cable (evo_handle answers)))"
    using len by (simp add: evo_handle_def)
  have fits: "es_check_type ?s \<in> {1, 2, 3}" "0x4E \<notin> {EVO_Y, EVO_E}" "length [] + es_check_type ?s \<le> 2040"
    by (simp_all add: evo_session_init_def EVO_Y_def EVO_E_def)
  from evo_send_packet_gives_up [OF evo_env_quiet ready fits(1) zero_less_one fits(2,3) made avail room]
  obtain h' where "evo_send_packet 1 enough evo_env 5 0x44 [0x41] ?s (evo_handle answers) = (Some ERR_NACK, ?s, h')"
    "transfer vti_sent vti_avail vti_ok (evo_handle answers) (pkt @ pkt @ pkt) (length answers) h'"
    unfolding answers_def by blast
  moreover have "vti_sent (cb_dev (kh_cable (evo_handle answers))) = []" using len by (simp add: evo_handle_def)
  ultimately show ?thesis using len by (intro exI [of _ answers] exI [of _ h']) (simp add: transfer_def)
qed

end
