(* ===== verification/NspNnse.thy ===== *)
theory NspNnse
  imports CalcHandle
begin

text \<open>
  \<^verbatim>\<open>libticalcs/trunk/src/nsp_nnse.cc\<close>, the framing of the TI-Nspire CX II on USB. Packets of the
  NavNet protocol travel in messages with a header of 12 bytes, a checksum and a sequence number
  of their own; messages are acknowledged and sent again up to five times, and the calculator's
  requests for an address and for the time are answered whenever they come. The receiver looks
  for the next message byte by byte, so that it finds its way back after bytes were lost. The
  texts of the log are not modelled.
\<close>

section \<open>Environment\<close>

text \<open>
  Beside the environment of a calculator handle there are the monotonic clock in microseconds
  (\<^verbatim>\<open>g_get_monotonic_time\<close>), a pause of a millisecond, the time of day, and the environment
  variable that asks for plain NavNet framing. Clock and pause work on the device's state, in
  which a driver may let the time pass.
\<close>

record 'd nsp_env =
  ne_calc :: "'d calc_env"
  ne_now :: "'d \<Rightarrow> int"
  ne_pause :: "'d \<Rightarrow> 'd"
  ne_time :: "'d \<Rightarrow> u32"
  ne_legacy :: "bytes option"

definition upd_nsp :: "(nsp_state \<Rightarrow> nsp_state) \<Rightarrow> 'd calc_handle \<Rightarrow> 'd calc_handle" where
  "upd_nsp f h = h\<lparr>kh_nsp := f (kh_nsp h)\<rparr>"

definition now :: "'d nsp_env \<Rightarrow> 'd calc_handle \<Rightarrow> int" where
  "now N h = ne_now N (cb_dev (kh_cable h))"

definition pause_1ms :: "'d nsp_env \<Rightarrow> 'd calc_handle \<Rightarrow> 'd calc_handle" where
  "pause_1ms N h = h\<lparr>kh_cable := (kh_cable h)\<lparr>cb_dev := ne_pause N (cb_dev (kh_cable h))\<rparr>\<rparr>"

definition set_timeout :: "'d nsp_env \<Rightarrow> u32 \<Rightarrow> 'd calc_handle \<Rightarrow> u32 \<times> 'd calc_handle" where
  "set_timeout N t h =
     (let (old, c) = ticables_options_set_timeout (ne_calc N) t (kh_cable h) in (old, h\<lparr>kh_cable := c\<rparr>))"

text \<open>A call between setting another timeout and setting back what was returned then.\<close>

definition at_timeout ::
    "'d nsp_env \<Rightarrow> u32 \<Rightarrow> ('d calc_handle \<Rightarrow> ret \<times> 'x \<times> 'd calc_handle) \<Rightarrow> 'd calc_handle
       \<Rightarrow> ret \<times> 'x \<times> 'd calc_handle" where
  "at_timeout N t f h =
     (let (old, h) = set_timeout N t h; (r, x, h) = f h in (r, x, snd (set_timeout N old h)))"

section \<open>Mode, ports, history\<close>

abbreviation (input) NNSE_LEGACY :: nat where "NNSE_LEGACY \<equiv> 1"
abbreviation (input) NNSE_FRAMING :: nat where "NNSE_FRAMING \<equiv> 2"

definition cxii_found :: "'d nsp_env \<Rightarrow> 'd calc_handle \<Rightarrow> bool \<times> 'd calc_handle" where
  "cxii_found N h =
     (let (r, info, c) = ticables_cable_get_device_info (ne_calc N)
            \<lparr>di_family = CABLE_FAMILY_UNKNOWN, di_variant = CABLE_VARIANT_UNKNOWN\<rparr> (kh_cable h)
      in (r = None \<and> di_family info = CABLE_FAMILY_USB_NSPIRE_CXII, h\<lparr>kh_cable := c\<rparr>))"

definition legacy_wanted :: "bytes option \<Rightarrow> bool" where
  "legacy_wanted env = (case env of Some (c # _) \<Rightarrow> c \<noteq> 0 \<and> c \<noteq> 0x30 | _ \<Rightarrow> False)"

definition nsp_nnse_enabled :: "'d nsp_env \<Rightarrow> 'd calc_handle \<Rightarrow> bool \<times> 'd calc_handle" where
  "nsp_nnse_enabled N h =
     (if ns_nnse_mode (kh_nsp h) = 0 then
        if kh_attached h \<and> kh_open h then
          (let (cxii, h) = cxii_found N h;
               mode = (if cxii \<and> \<not> legacy_wanted (ne_legacy N) then NNSE_FRAMING else NNSE_LEGACY)
           in (mode = NNSE_FRAMING, upd_nsp (\<lambda>s. s\<lparr>ns_nnse_mode := mode\<rparr>) h))
        else (False, h)
      else (ns_nnse_mode (kh_nsp h) = NNSE_FRAMING, h))"

definition nnse_clear_buffers :: "'d calc_handle \<Rightarrow> 'd calc_handle" where
  "nnse_clear_buffers = upd_nsp (\<lambda>s. s\<lparr>ns_pending := [], ns_rx_buffer := []\<rparr>)"

abbreviation (input) NSP_PORT_LOGIN :: u16 where "NSP_PORT_LOGIN \<equiv> 0x4050"
abbreviation (input) NSP_PORT_KEYPRESSES :: u16 where "NSP_PORT_KEYPRESSES \<equiv> 0x4042"

definition nnse_port_matches :: "u16 \<Rightarrow> u16 \<Rightarrow> u16 \<Rightarrow> bool" where
  "nnse_port_matches current_port passive_port dst_port \<longleftrightarrow>
     dst_port = current_port \<or> dst_port = NSP_PORT_LOGIN \<or> (passive_port \<noteq> 0 \<and> dst_port = passive_port)"

definition nsp_nnse_port_matches :: "'d calc_handle \<Rightarrow> u16 \<Rightarrow> bool" where
  "nsp_nnse_port_matches h dst_port =
     nnse_port_matches (ns_src_port (kh_nsp h)) (ns_passive_port (kh_nsp h)) dst_port"

text \<open>The sixteen bits at a position, high byte first.\<close>

definition word_at :: "bytes \<Rightarrow> nat \<Rightarrow> u16" where
  "word_at d i = be16 (d ! i) (d ! (i + 1))"

definition nnse_stream_is_for_current_port :: "'d calc_handle \<Rightarrow> bytes \<Rightarrow> bool" where
  "nnse_stream_is_for_current_port h payload =
     (length payload < 16 \<or> nsp_nnse_port_matches h (word_at payload 8))"

definition nnse_stream_requires_ack :: "bytes \<Rightarrow> bool" where
  "nnse_stream_requires_ack data =
     (length data < 16 \<or> data ! 0 \<noteq> 0x54 \<or> data ! 1 \<noteq> 0xFD \<or> word_at data 8 \<noteq> NSP_PORT_KEYPRESSES)"

record nnse_header =
  nh_misc :: u8
  nh_service :: u8
  nh_src :: u8
  nh_dest :: u8
  nh_unknown :: u8
  nh_reqack :: u8
  nh_length :: u16
  nh_seqno :: u16
  nh_csum :: u16

definition nnse_clear_stream_history :: "'d calc_handle \<Rightarrow> 'd calc_handle" where
  "nnse_clear_stream_history =
     upd_nsp (\<lambda>s. s\<lparr>ns_has_last_stream_seqno := False, ns_last_stream_seqno := 0\<rparr>)"

definition nnse_stream_is_duplicate :: "'d calc_handle \<Rightarrow> nnse_header \<Rightarrow> bool" where
  "nnse_stream_is_duplicate h hdr =
     (nh_reqack hdr AND 0x08 \<noteq> 0 \<and> ns_has_last_stream_seqno (kh_nsp h)
      \<and> ns_last_stream_seqno (kh_nsp h) = nh_seqno hdr)"

definition nnse_note_stream_delivered :: "nnse_header \<Rightarrow> 'd calc_handle \<Rightarrow> 'd calc_handle" where
  "nnse_note_stream_delivered hdr =
     upd_nsp (\<lambda>s. s\<lparr>ns_last_stream_seqno := nh_seqno hdr, ns_has_last_stream_seqno := True\<rparr>)"

definition nsp_nnse_reset :: "'d calc_handle \<Rightarrow> 'd calc_handle" where
  "nsp_nnse_reset h =
     nnse_clear_stream_history
       (upd_nsp (\<lambda>s. s\<lparr>ns_nnse_mode := 0, ns_handshake_done := False, ns_seqno := 0, ns_passive_port := 0\<rparr>)
          (nnse_clear_buffers h))"

definition nnse_next_seqno :: "'d calc_handle \<Rightarrow> u16 \<times> 'd calc_handle" where
  "nnse_next_seqno h = (ns_seqno (kh_nsp h), upd_nsp (\<lambda>s. s\<lparr>ns_seqno := ns_seqno s + 1\<rparr>) h)"

section \<open>Checksum\<close>

fun nnse_checksum_acc :: "bytes \<Rightarrow> u32 \<Rightarrow> u32" where
  "nnse_checksum_acc (a # b # bs) acc = nnse_checksum_acc bs (acc + ucast (be16 a b))"
| "nnse_checksum_acc [a] acc = acc + push_bit 8 (ucast a)"
| "nnse_checksum_acc [] acc = acc"

lemma word_halves:
  fixes x :: u32
  shows "unat (drop_bit 16 x) = unat x div 65536" "unat (x AND 0xFFFF) = unat x mod 65536"
proof -
  have "unat (drop_bit 16 x) = drop_bit 16 (unat x)" by (rule unat_drop_bit_eq)
  also have "\<dots> = unat x div 65536" by (simp add: drop_bit_eq_div)
  finally show "unat (drop_bit 16 x) = unat x div 65536" .
  have "x AND mask 16 = take_bit 16 x" by (simp add: take_bit_eq_mask)
  moreover have "(mask 16 :: u32) = 0xFFFF" by (simp add: mask_eq_exp_minus_1)
  ultimately have "x AND 0xFFFF = take_bit 16 x" by simp
  then have "unat (x AND 0xFFFF) = take_bit 16 (unat x)" by (simp only: unsigned_take_bit_eq)
  then show "unat (x AND 0xFFFF) = unat x mod 65536" by (simp add: take_bit_eq_mod)
qed

lemma word_halves_sum:
  fixes x :: u32
  shows "unat (drop_bit 16 x + (x AND 0xFFFF)) = unat x div 65536 + unat x mod 65536"
proof -
  have "unat x < 2 ^ 32" using unsigned_less [of x] by simp
  then have "unat x div 65536 < 65536" by simp
  moreover have "unat x mod 65536 < 65536" by simp
  ultimately show ?thesis by (simp add: unat_word_ariths word_halves)
qed

function nnse_checksum_fold :: "u32 \<Rightarrow> u16" where
  "nnse_checksum_fold acc =
     (if drop_bit 16 acc \<noteq> 0 then nnse_checksum_fold (drop_bit 16 acc + (acc AND 0xFFFF)) else ucast acc)"
  by pat_completeness auto

lemma fold_decreases:
  fixes acc :: u32
  assumes "drop_bit 16 acc \<noteq> 0"
  shows "unat (drop_bit 16 acc + (acc AND 0xFFFF)) < unat acc"
proof -
  have "unat (drop_bit 16 acc) \<noteq> 0" using assms by (simp add: unat_eq_zero)
  then have "unat acc div 65536 \<noteq> 0" using word_halves(1) [of acc] by argo
  then show ?thesis using word_halves_sum [of acc] div_mult_mod_eq [of "unat acc" 65536] by linarith
qed

termination nnse_checksum_fold
  by (relation "measure unat") (simp_all add: fold_decreases)

declare nnse_checksum_fold.simps [simp del]

text \<open>The frame without its leading zero, which the checksum counts.\<close>

definition nnse_compact_stream_control_checksum :: "bytes \<Rightarrow> u16" where
  "nnse_compact_stream_control_checksum d =
     (if 1484 < length d + 1 then 0 else nnse_checksum_fold (nnse_checksum_acc (0 # d) 0))"

section \<open>What may be the start of a message\<close>

abbreviation (input) NSP_NNSE_ADDR_ALL :: u8 where "NSP_NNSE_ADDR_ALL \<equiv> 0xFF"
abbreviation (input) NSP_NNSE_ADDR_PC :: u8 where "NSP_NNSE_ADDR_PC \<equiv> 0xFE"
abbreviation (input) NSP_NNSE_ADDR_CALC :: u8 where "NSP_NNSE_ADDR_CALC \<equiv> 0x01"
abbreviation (input) NSP_NNSE_SRV_ADDR_REQ :: u8 where "NSP_NNSE_SRV_ADDR_REQ \<equiv> 0x01"
abbreviation (input) NSP_NNSE_SRV_TIME :: u8 where "NSP_NNSE_SRV_TIME \<equiv> 0x02"
abbreviation (input) NSP_NNSE_SRV_STREAM :: u8 where "NSP_NNSE_SRV_STREAM \<equiv> 0x04"
abbreviation (input) NSP_NNSE_SRV_STREAM_CTRL :: u8 where "NSP_NNSE_SRV_STREAM_CTRL \<equiv> 0x08"
abbreviation (input) NSP_NNSE_SRV_ACK_FLAG :: u8 where "NSP_NNSE_SRV_ACK_FLAG \<equiv> 0x80"
abbreviation (input) NSP_NNSE_STREAM_CTRL_STATUS :: u8 where "NSP_NNSE_STREAM_CTRL_STATUS \<equiv> 0x00"
abbreviation (input) NSP_NNSE_STREAM_CTRL_START :: u8 where "NSP_NNSE_STREAM_CTRL_START \<equiv> 0x01"
abbreviation (input) NSP_NNSE_STREAM_CTRL_RESET :: u8 where "NSP_NNSE_STREAM_CTRL_RESET \<equiv> 0x02"

definition nnse_service_plausible :: "u8 \<Rightarrow> bool" where
  "nnse_service_plausible service \<longleftrightarrow>
     service AND (NOT NSP_NNSE_SRV_ACK_FLAG) \<in> {0x01, 0x02, 0x03, 0x04, 0x05, 0x06, 0x07, 0x08}"

definition nnse_reqack_plausible :: "u8 \<Rightarrow> bool" where
  "nnse_reqack_plausible reqack \<longleftrightarrow> reqack AND (NOT 0x09) = 0"

text \<open>The size of what follows a header of the given length.\<close>

definition payload_of_length :: "u16 \<Rightarrow> nat" where
  "payload_of_length len = (if 12 \<le> len then unat len - 12 else 0)"

definition to_computer :: "u8 \<Rightarrow> bool" where
  "to_computer dest \<longleftrightarrow> dest = NSP_NNSE_ADDR_PC \<or> dest = NSP_NNSE_ADDR_ALL"

definition nnse_header_plausible :: "bytes \<Rightarrow> nat \<Rightarrow> bool" where
  "nnse_header_plausible header maxpayload \<longleftrightarrow>
     (let len = word_at header 6; service = header ! 1; payload_size = payload_of_length len
      in header ! 0 = 0 \<and> header ! 4 = 0
       \<and> nnse_service_plausible service \<and> nnse_reqack_plausible (header ! 5)
       \<and> header ! 2 = NSP_NNSE_ADDR_CALC \<and> to_computer (header ! 3)
       \<and> 12 \<le> len \<and> payload_size \<le> maxpayload
       \<and> \<not> (service AND NSP_NNSE_SRV_ACK_FLAG \<noteq> 0 \<and> (payload_size \<noteq> 0 \<or> header ! 5 AND 1 \<noteq> 0)))"

definition nnse_compact_stream_control_plausible :: "bytes \<Rightarrow> nat \<Rightarrow> bool" where
  "nnse_compact_stream_control_plausible header maxpayload \<longleftrightarrow>
     (let len = word_at header 5; payload_size = payload_of_length len
      in header ! 0 = NSP_NNSE_SRV_STREAM_CTRL \<and> header ! 3 = 0 \<and> to_computer (header ! 2)
       \<and> 12 \<le> len \<and> payload_size \<le> maxpayload)"

definition nnse_partial_header_possible :: "bytes \<Rightarrow> bool" where
  "nnse_partial_header_possible header \<longleftrightarrow>
     (let size = length header
      in size = 0
       \<or> header ! 0 = 0
         \<and> \<not> (2 \<le> size \<and> \<not> nnse_service_plausible (header ! 1))
         \<and> \<not> (3 \<le> size \<and> header ! 2 \<noteq> NSP_NNSE_ADDR_CALC)
         \<and> \<not> (4 \<le> size \<and> \<not> to_computer (header ! 3))
         \<and> \<not> (5 \<le> size \<and> header ! 4 \<noteq> 0)
         \<and> \<not> (6 \<le> size \<and> \<not> nnse_reqack_plausible (header ! 5))
         \<and> \<not> (8 \<le> size \<and> word_at header 6 < 12)
       \<or> header ! 0 = NSP_NNSE_SRV_STREAM_CTRL
         \<and> \<not> (3 \<le> size \<and> \<not> to_computer (header ! 2))
         \<and> \<not> (4 \<le> size \<and> header ! 3 \<noteq> 0)
         \<and> \<not> (7 \<le> size \<and> word_at header 5 < 12))"

text \<open>What is left of a buffer; the difference of the lengths is what the source returns.\<close>

fun nnse_discard_impossible_prefix :: "bytes \<Rightarrow> bytes" where
  "nnse_discard_impossible_prefix [] = []"
| "nnse_discard_impossible_prefix (b # bs) =
     (if length (b # bs) < 12 \<and> \<not> nnse_partial_header_possible (b # bs)
      then nnse_discard_impossible_prefix bs else b # bs)"

section \<open>Reading ahead\<close>

text \<open>
  \<open>rx h\<close> is the buffer of bytes taken off the link and not yet used. A byte is only read when
  the cable reports that there is one.
\<close>

definition rx :: "'d calc_handle \<Rightarrow> bytes" where
  "rx h = ns_rx_buffer (kh_nsp h)"

definition set_rx :: "bytes \<Rightarrow> 'd calc_handle \<Rightarrow> 'd calc_handle" where
  "set_rx bs = upd_nsp (\<lambda>s. s\<lparr>ns_rx_buffer := bs\<rparr>)"

definition cable_check :: "'d nsp_env \<Rightarrow> 'd calc_handle \<Rightarrow> ret \<times> bool \<times> 'd calc_handle" where
  "cable_check N h =
     (let (r, status, c) = ticables_cable_check (ne_calc N) (Some 0) (kh_cable h)
      in (r, odd (the status), h\<lparr>kh_cable := c\<rparr>))"

text \<open>
  The loop of \<open>nnse_buffer_read_polled\<close>. Its fuel counts rounds: a calculator that never stops
  sending bytes that cannot start a message keeps it busy for ever, since each of them is
  dropped and moves the deadline.
\<close>

abbreviation (input) NSP_NNSE_RESYNC_TIMEOUT :: u32 where "NSP_NNSE_RESYNC_TIMEOUT \<equiv> 1"

definition deadline_after :: "u32 \<Rightarrow> int \<Rightarrow> int" where
  "deadline_after t n = n + uint t * 100000"

definition byte_read ::
    "'d nsp_env \<Rightarrow> bool \<Rightarrow> bool \<Rightarrow> int \<Rightarrow> u8 \<Rightarrow> 'd calc_handle \<Rightarrow> bool \<times> int \<times> 'd calc_handle" where
  "byte_read N resync had_partial deadline b h =
     (let h = set_rx (rx h @ [b]) h;
          deadline = (if \<not> had_partial \<and> resync then deadline_after NSP_NNSE_RESYNC_TIMEOUT (now N h)
                      else deadline)
      in if resync \<and> length (rx h) < 12 then
           (let left = nnse_discard_impossible_prefix (rx h)
            in if length left < length (rx h)
               then (left \<noteq> [], deadline_after NSP_NNSE_RESYNC_TIMEOUT (now N h), set_rx left h)
               else (True, deadline, h))
         else (True, deadline, h))"

fun nnse_poll :: "nat \<Rightarrow> 'd nsp_env \<Rightarrow> nat \<Rightarrow> bool \<Rightarrow> bool \<Rightarrow> int \<Rightarrow> 'd calc_handle \<Rightarrow> ret \<times> 'd calc_handle" where
  "nnse_poll 0 N wanted resync had_partial deadline h = (Some OUT_OF_FUEL, h)"
| "nnse_poll (Suc fuel) N wanted resync had_partial deadline h =
     (if wanted \<le> length (rx h) then (None, h)
      else (let (r, is_rx, h) = cable_check N h
            in case r of Some e \<Rightarrow> (Some e, h) | None \<Rightarrow>
                 if is_rx then
                   (let (r, bs, h) = cable_recv (ne_calc N) 1 h
                    in case r of Some e \<Rightarrow> (Some e, h) | None \<Rightarrow>
                         (let (had_partial, deadline, h) = byte_read N resync had_partial deadline (hd bs) h
                          in nnse_poll fuel N wanted resync had_partial deadline h))
                 else if deadline \<le> now N h then (Some ERR_READ_TIMEOUT, h)
                 else nnse_poll fuel N wanted resync had_partial deadline (pause_1ms N h)))"

definition nnse_buffer_read_polled ::
    "nat \<Rightarrow> 'd nsp_env \<Rightarrow> nat \<Rightarrow> bool \<Rightarrow> 'd calc_handle \<Rightarrow> ret \<times> 'd calc_handle" where
  "nnse_buffer_read_polled fuel N wanted resync h =
     nnse_poll fuel N wanted resync (rx h \<noteq> [])
       (deadline_after (if resync \<and> rx h \<noteq> [] then NSP_NNSE_RESYNC_TIMEOUT else cb_timeout (kh_cable h)) (now N h)) h"

text \<open>At most eleven bytes are fetched after a message; the first argument is what is missing to that.\<close>

fun prefetch_bytes :: "nat \<Rightarrow> 'd nsp_env \<Rightarrow> 'd calc_handle \<Rightarrow> 'd calc_handle" where
  "prefetch_bytes 0 N h = h"
| "prefetch_bytes (Suc n) N h =
     (let (r, is_rx, h) = cable_check N h
      in if r \<noteq> None \<or> \<not> is_rx then h
         else (let (r, bs, h) = cable_recv (ne_calc N) 1 h
               in if r \<noteq> None then h else prefetch_bytes n N (set_rx (rx h @ [hd bs]) h)))"

definition nnse_prefetch_immediate :: "'d nsp_env \<Rightarrow> 'd calc_handle \<Rightarrow> 'd calc_handle" where
  "nnse_prefetch_immediate N h =
     (let h = prefetch_bytes (11 - length (rx h)) N h in set_rx (nnse_discard_impossible_prefix (rx h)) h)"

definition nnse_buffer_read :: "nat \<Rightarrow> 'd nsp_env \<Rightarrow> nat \<Rightarrow> 'd calc_handle \<Rightarrow> ret \<times> 'd calc_handle" where
  "nnse_buffer_read fuel N wanted h = nnse_buffer_read_polled fuel N wanted (wanted \<le> 12) h"

definition nnse_buffer_read_with_timeout ::
    "nat \<Rightarrow> 'd nsp_env \<Rightarrow> nat \<Rightarrow> u32 \<Rightarrow> 'd calc_handle \<Rightarrow> ret \<times> 'd calc_handle" where
  "nnse_buffer_read_with_timeout fuel N wanted t h =
     (let (r, _, h) = at_timeout N t (\<lambda>h. let (r, h) = nnse_buffer_read fuel N wanted h in (r, (), h)) h
      in (r, h))"

section \<open>Messages\<close>

definition nnse_message :: "u8 \<Rightarrow> u8 \<Rightarrow> u8 \<Rightarrow> u8 \<Rightarrow> u8 \<Rightarrow> u8 \<Rightarrow> u16 \<Rightarrow> bytes \<Rightarrow> bytes" where
  "nnse_message misc service src dest unknown reqack seqno data =
     (let len = 12 + of_nat (length data) :: u16;
          head = [misc, service, src, dest, unknown, reqack, MSB len, LSB len, MSB seqno, LSB seqno];
          csum = nnse_checksum_fold (nnse_checksum_acc (head @ [0, 0] @ data) 0) XOR 0xFFFF
      in head @ [MSB csum, LSB csum] @ data)"

definition nnse_send_message ::
    "'d nsp_env \<Rightarrow> u8 \<Rightarrow> u8 \<Rightarrow> u8 \<Rightarrow> u8 \<Rightarrow> u8 \<Rightarrow> u8 \<Rightarrow> u16 \<Rightarrow> bytes \<Rightarrow> 'd calc_handle \<Rightarrow> ret \<times> 'd calc_handle" where
  "nnse_send_message N misc service src dest unknown reqack seqno data h =
     (if 1472 < length data then (Some ERR_INVALID_PACKET, h)
      else cable_send (ne_calc N) (nnse_message misc service src dest unknown reqack seqno data) h)"

text \<open>Taking a message off the buffer: the header's fields from the bytes at \<open>k\<close> on, and the payload.\<close>

definition header_from :: "u8 \<Rightarrow> bytes \<Rightarrow> nat \<Rightarrow> nnse_header" where
  "header_from misc f k =
     \<lparr>nh_misc = misc, nh_service = f ! k, nh_src = f ! (k + 1), nh_dest = f ! (k + 2),
      nh_unknown = f ! (k + 3), nh_reqack = f ! (k + 4), nh_length = word_at f (k + 5),
      nh_seqno = word_at f (k + 7), nh_csum = word_at f (k + 9)\<rparr>"

definition take_message ::
    "'d nsp_env \<Rightarrow> nnse_header \<Rightarrow> nat \<Rightarrow> nat \<Rightarrow> 'd calc_handle \<Rightarrow> (nnse_header \<times> bytes) option \<times> 'd calc_handle" where
  "take_message N hdr start wire_length h =
     (Some (hdr, take (payload_of_length (nh_length hdr)) (drop start (rx h))),
      nnse_prefetch_immediate N (set_rx (drop wire_length (rx h)) h))"

text \<open>Reading more of a message that looks right; \<open>Inl\<close> is the end of receiving.\<close>

definition read_rest :: "nat \<Rightarrow> 'd nsp_env \<Rightarrow> nat \<Rightarrow> 'd calc_handle \<Rightarrow> errcode option \<times> 'd calc_handle" where
  "read_rest fuel N wanted h =
     (let (r, h) = nnse_buffer_read fuel N wanted h
      in if r = Some ERR_READ_TIMEOUT \<and> 12 \<le> length (rx h) then (Some ERR_INVALID_PACKET, set_rx [] h)
         else (r, h))"

text \<open>
  The message at the front of the buffer, if there is one with a right checksum: \<open>None\<close> as
  second result otherwise.
\<close>

definition candidate ::
    "nat \<Rightarrow> 'd nsp_env \<Rightarrow> nat \<Rightarrow> 'd calc_handle \<Rightarrow> ret \<times> (nnse_header \<times> bytes) option \<times> 'd calc_handle" where
  "candidate fuel N maxpayload h =
     (if nnse_header_plausible (rx h) maxpayload then
        (let len = unat (word_at (rx h) 6); (r, h) = read_rest fuel N len h
         in if r \<noteq> None then (r, None, h)
            else if nnse_checksum_fold (nnse_checksum_acc (take len (rx h)) 0) = 0xFFFF
            then (None, take_message N (header_from (rx h ! 0) (rx h) 1) 12 len h)
            else (None, None, h))
      else if nnse_compact_stream_control_plausible (rx h) maxpayload then
        (let len = unat (word_at (rx h) 5) - 1; (r, h) = read_rest fuel N len h
         in if r \<noteq> None then (r, None, h)
            else if nnse_compact_stream_control_checksum (take len (rx h)) = 0xFFFF
            then (None, take_message N (header_from 0 (rx h) 0) 11 len h)
            else (None, None, h))
      else (None, None, h))"

text \<open>Making sure that there are twelve bytes after one was dropped.\<close>

definition resync :: "nat \<Rightarrow> 'd nsp_env \<Rightarrow> 'd calc_handle \<Rightarrow> ret \<times> 'd calc_handle" where
  "resync fuel N h =
     (if 12 \<le> length (rx h) then (None, h)
      else (let (r, h) = nnse_buffer_read_with_timeout fuel N 12 NSP_NNSE_RESYNC_TIMEOUT h
            in if r = Some ERR_READ_TIMEOUT \<and> rx h \<noteq> [] then (Some ERR_INVALID_PACKET, set_rx [] h)
               else (r, h)))"

text \<open>
  The search for a message, at most \<open>n\<close> bytes further on. Its rounds read on with the normal
  timeout when twelve bytes are not there, which after \<open>resync\<close> does not happen.
\<close>

fun search ::
    "nat \<Rightarrow> nat \<Rightarrow> 'd nsp_env \<Rightarrow> nat \<Rightarrow> 'd calc_handle \<Rightarrow> ret \<times> (nnse_header \<times> bytes) option \<times> 'd calc_handle" where
  "search n fuel N maxpayload h =
     (let (r, h) = (if length (rx h) < 12 then nnse_buffer_read fuel N 12 h else (None, h))
      in if r \<noteq> None then (r, None, h)
         else
           (let (r, m, h) = candidate fuel N maxpayload h
            in if r \<noteq> None \<or> m \<noteq> None then (r, m, h)
               else (case n of
                   0 \<Rightarrow> (Some ERR_INVALID_PACKET, None, h)
                 | Suc n \<Rightarrow>
                     (let (r, h) = resync fuel N (set_rx (tl (rx h)) h)
                      in if r \<noteq> None then (r, None, h) else search n fuel N maxpayload h))))"

definition nnse_recv_message ::
    "nat \<Rightarrow> 'd nsp_env \<Rightarrow> nat \<Rightarrow> 'd calc_handle \<Rightarrow> ret \<times> (nnse_header \<times> bytes) option \<times> 'd calc_handle" where
  "nnse_recv_message fuel N maxpayload h =
     (let (r, h) = nnse_buffer_read fuel N 12 h
      in if r = Some ERR_READ_TIMEOUT \<and> rx h \<noteq> [] then (Some ERR_INVALID_PACKET, None, set_rx [] h)
         else if r \<noteq> None then (r, None, h)
         else search (12 + maxpayload) fuel N maxpayload h)"

section \<open>Answering\<close>

text \<open>A message with the next sequence number.\<close>

definition send_next ::
    "'d nsp_env \<Rightarrow> u8 \<Rightarrow> u8 \<Rightarrow> u8 \<Rightarrow> bytes \<Rightarrow> 'd calc_handle \<Rightarrow> ret \<times> 'd calc_handle" where
  "send_next N service dest reqack data h =
     (let (seqno, h) = nnse_next_seqno h
      in nnse_send_message N 0 service NSP_NNSE_ADDR_PC dest 0 reqack seqno data h)"

definition nnse_send_addr_response_twice :: "'d nsp_env \<Rightarrow> 'd calc_handle \<Rightarrow> ret \<times> 'd calc_handle" where
  "nnse_send_addr_response_twice N h =
     andthen (send_next N NSP_NNSE_SRV_ADDR_REQ NSP_NNSE_ADDR_CALC 0 [0x80] h)
       (send_next N NSP_NNSE_SRV_ADDR_REQ NSP_NNSE_ADDR_CALC 0 [0x80])"

definition nnse_send_stream_control_status ::
    "'d nsp_env \<Rightarrow> u8 \<Rightarrow> u8 \<Rightarrow> u8 \<Rightarrow> 'd calc_handle \<Rightarrow> ret \<times> 'd calc_handle" where
  "nnse_send_stream_control_status N dest control status h =
     send_next N NSP_NNSE_SRV_STREAM_CTRL dest 0 [control OR 0x80, status] h"

definition nnse_send_stream_control_reset :: "'d nsp_env \<Rightarrow> u16 \<Rightarrow> 'd calc_handle \<Rightarrow> ret \<times> 'd calc_handle" where
  "nnse_send_stream_control_reset N seqno h =
     nnse_send_message N 0 NSP_NNSE_SRV_STREAM_CTRL NSP_NNSE_ADDR_PC 0x01 0 1 seqno [NSP_NNSE_STREAM_CTRL_RESET] h"

definition nnse_effective_stream_timeout :: "'d calc_handle \<Rightarrow> u32" where
  "nnse_effective_stream_timeout h =
     (let t = cb_timeout (kh_cable h) in if kh_attached h \<and> 0 < t \<and> t < 80 then t else 80)"

definition time_response :: "u32 \<Rightarrow> bytes" where
  "time_response t =
     [0x80, ucast (drop_bit 24 t), ucast (drop_bit 16 t), ucast (drop_bit 8 t), ucast t] @ replicate 12 0"

definition set_handshake :: "bool \<Rightarrow> 'd calc_handle \<Rightarrow> 'd calc_handle" where
  "set_handshake b = upd_nsp (\<lambda>s. s\<lparr>ns_handshake_done := b\<rparr>)"

definition answer_addr_req :: "'d nsp_env \<Rightarrow> bytes \<Rightarrow> 'd calc_handle \<Rightarrow> ret \<times> 'd calc_handle" where
  "answer_addr_req N payload h =
     (if payload = [] \<or> payload ! 0 \<noteq> 0 then (None, h)
      else (let (r, h) = nnse_send_addr_response_twice N h in (r, set_handshake False h)))"

definition answer_time :: "'d nsp_env \<Rightarrow> bytes \<Rightarrow> 'd calc_handle \<Rightarrow> ret \<times> 'd calc_handle" where
  "answer_time N payload h =
     (if payload = [] \<or> payload ! 0 \<noteq> 0 then (None, h)
      else andthen (send_next N NSP_NNSE_SRV_TIME NSP_NNSE_ADDR_CALC 0
                      (time_response (ne_time N (cb_dev (kh_cable h)))) h)
             (\<lambda>h. (None, set_handshake True h)))"

definition answer_stream_ctrl :: "'d nsp_env \<Rightarrow> u8 \<Rightarrow> bytes \<Rightarrow> 'd calc_handle \<Rightarrow> ret \<times> 'd calc_handle" where
  "answer_stream_ctrl N src payload h =
     (if payload = [NSP_NNSE_STREAM_CTRL_START]
      then nnse_send_stream_control_status N src NSP_NNSE_STREAM_CTRL_START 0x03 h
      else if payload = [NSP_NNSE_STREAM_CTRL_RESET]
      then nnse_send_stream_control_status N src NSP_NNSE_STREAM_CTRL_RESET 0x00
             (nnse_clear_stream_history (nnse_clear_buffers h))
      else if payload = [NSP_NNSE_STREAM_CTRL_STATUS]
      then nnse_send_stream_control_status N src NSP_NNSE_STREAM_CTRL_STATUS 0x00 h
      else (None, h))"

definition nnse_handle_message ::
    "'d nsp_env \<Rightarrow> nnse_header \<Rightarrow> bytes \<Rightarrow> 'd calc_handle \<Rightarrow> ret \<times> bool \<times> 'd calc_handle" where
  "nnse_handle_message N hdr payload h =
     (if \<not> to_computer (nh_dest hdr) \<or> nh_service hdr AND NSP_NNSE_SRV_ACK_FLAG \<noteq> 0 then (None, False, h)
      else
        (let (r, h) =
           (if nh_reqack hdr AND 1 \<noteq> 0
            then nnse_send_message N (nh_misc hdr) (nh_service hdr OR NSP_NNSE_SRV_ACK_FLAG) (nh_dest hdr)
                   (nh_src hdr) (nh_unknown hdr) (nh_reqack hdr AND 0xFE) (nh_seqno hdr) [] h
            else (None, h))
         in if r \<noteq> None then (r, False, h)
            else if nh_service hdr = NSP_NNSE_SRV_STREAM then (None, True, h)
            else
              (let (r, h) =
                 (if nh_service hdr = NSP_NNSE_SRV_ADDR_REQ then answer_addr_req N payload h
                  else if nh_service hdr = NSP_NNSE_SRV_TIME then answer_time N payload h
                  else if nh_service hdr = NSP_NNSE_SRV_STREAM_CTRL then answer_stream_ctrl N (nh_src hdr) payload h
                  else (None, h))
               in (r, False, h))))"

text \<open>Errors of a message that the callers skip.\<close>

definition skipped :: "ret \<Rightarrow> bool" where
  "skipped r \<longleftrightarrow> r = Some ERR_INVALID_PACKET \<or> r = Some ERR_CHECKSUM"

definition recv_message ::
    "nat \<Rightarrow> 'd nsp_env \<Rightarrow> 'd calc_handle \<Rightarrow> ret \<times> (nnse_header \<times> bytes) option \<times> 'd calc_handle" where
  "recv_message fuel N h = nnse_recv_message fuel N 1472 h"

text \<open>\<open>n\<close> rounds are left; \<open>r0\<close> is the result so far.\<close>

fun handshake_rounds ::
    "nat \<Rightarrow> ret \<Rightarrow> nat \<Rightarrow> 'd nsp_env \<Rightarrow> u32 \<Rightarrow> 'd calc_handle \<Rightarrow> ret \<times> 'd calc_handle" where
  "handshake_rounds 0 r0 fuel N t h = (r0, h)"
| "handshake_rounds (Suc n) r0 fuel N t h =
     (if ns_handshake_done (kh_nsp h) then (r0, h)
      else (let (r, m, h) = at_timeout N t (recv_message fuel N) h
            in if skipped r then handshake_rounds n r fuel N t h
               else if r \<noteq> None then (r, h)
               else (let (r, is_stream, h) = nnse_handle_message N (fst (the m)) (snd (the m)) h
                     in if r \<noteq> None then (r, h) else handshake_rounds n None fuel N t h)))"

definition nnse_process_handshake_messages ::
    "nat \<Rightarrow> 'd nsp_env \<Rightarrow> u32 \<Rightarrow> 'd calc_handle \<Rightarrow> ret \<times> 'd calc_handle" where
  "nnse_process_handshake_messages fuel N t h = handshake_rounds 10 None fuel N t h"

fun reset_rounds ::
    "nat \<Rightarrow> bool \<Rightarrow> bool \<Rightarrow> nat \<Rightarrow> 'd nsp_env \<Rightarrow> u16 \<Rightarrow> 'd calc_handle \<Rightarrow> ret \<times> 'd calc_handle" where
  "reset_rounds 0 saw_ack saw_restart fuel N reset_seqno h = (Some ERR_READ_TIMEOUT, h)"
| "reset_rounds (Suc n) saw_ack saw_restart fuel N reset_seqno h =
     (let (r, m, h) = at_timeout N 15 (recv_message fuel N) h
      in if skipped r then reset_rounds n saw_ack saw_restart fuel N reset_seqno h
         else if r \<noteq> None then (if saw_ack then None else r, h)
         else
           (let (hdr, payload) = the m
            in if to_computer (nh_dest hdr)
                \<and> nh_service hdr = NSP_NNSE_SRV_STREAM_CTRL OR NSP_NNSE_SRV_ACK_FLAG \<and> nh_seqno hdr = reset_seqno
               then reset_rounds n True saw_restart fuel N reset_seqno h
               else
                 (let saw_restart = (saw_restart \<or> nh_service hdr = NSP_NNSE_SRV_STREAM_CTRL
                                       \<and> payload = [NSP_NNSE_STREAM_CTRL_START]);
                      (r, is_stream, h) = nnse_handle_message N hdr payload h
                  in if r \<noteq> None then (r, h)
                     else if saw_ack \<and> saw_restart \<and> ns_handshake_done (kh_nsp h)
                     then (None, nnse_clear_stream_history (nnse_clear_buffers h))
                     else reset_rounds n saw_ack saw_restart fuel N reset_seqno h)))"

definition nnse_wait_stream_control_reset ::
    "nat \<Rightarrow> 'd nsp_env \<Rightarrow> u16 \<Rightarrow> 'd calc_handle \<Rightarrow> ret \<times> 'd calc_handle" where
  "nnse_wait_stream_control_reset fuel N reset_seqno h =
     reset_rounds 20 False False fuel N reset_seqno (set_handshake False h)"

definition nsp_nnse_reassociate_next :: "nat \<Rightarrow> 'd nsp_env \<Rightarrow> 'd calc_handle \<Rightarrow> 'd calc_handle" where
  "nsp_nnse_reassociate_next fuel N h =
     (let h = nnse_clear_stream_history (nnse_clear_buffers h)
      in if ns_nnse_mode (kh_nsp h) = NNSE_FRAMING \<and> kh_attached h \<and> kh_open h then
           (let (reset_seqno, h) = nnse_next_seqno h; (r, h) = nnse_send_stream_control_reset N reset_seqno h
            in if r \<noteq> None then h else snd (nnse_wait_stream_control_reset fuel N reset_seqno h))
         else set_handshake False h)"

section \<open>Payloads waiting to be delivered\<close>

abbreviation (input) NSP_NNSE_MAX_PENDING :: nat where "NSP_NNSE_MAX_PENDING \<equiv> 64"

text \<open>The second result tells whether the payload was queued.\<close>

definition nnse_queue_payload_ex :: "bytes \<Rightarrow> 'd calc_handle \<Rightarrow> ret \<times> bool \<times> 'd calc_handle" where
  "nnse_queue_payload_ex payload h =
     (if \<not> nnse_stream_is_for_current_port h payload then (None, False, h)
      else if NSP_NNSE_MAX_PENDING \<le> length (ns_pending (kh_nsp h)) then (Some ERR_BUSY, False, h)
      else (None, True, upd_nsp (\<lambda>s. s\<lparr>ns_pending := ns_pending s @ [payload]\<rparr>) h))"

definition nsp_nnse_queue_stream :: "bytes \<Rightarrow> 'd calc_handle \<Rightarrow> ret \<times> 'd calc_handle" where
  "nsp_nnse_queue_stream data h = (let (r, _, h) = nnse_queue_payload_ex data h in (r, h))"

definition nsp_nnse_drop_queued_streams :: "'d calc_handle \<Rightarrow> 'd calc_handle" where
  "nsp_nnse_drop_queued_streams = upd_nsp (\<lambda>s. s\<lparr>ns_pending := []\<rparr>)"

section \<open>Association\<close>

text \<open>The driver's function is called directly, past the checks and events of the cable layer.\<close>

definition driver_reset :: "'d nsp_env \<Rightarrow> 'd calc_handle \<Rightarrow> ret \<times> 'd calc_handle" where
  "driver_reset N h =
     (case cf_reset (ce_fncts (ne_calc N)) of
        None \<Rightarrow> (Some UNDEFINED_BEHAVIOUR, h)
      | Some f \<Rightarrow> (let (r, d) = f (cb_dev (kh_cable h)) in (r, h\<lparr>kh_cable := (kh_cable h)\<lparr>cb_dev := d\<rparr>\<rparr>)))"

definition no_timeout :: "ret \<Rightarrow> ret" where
  "no_timeout r = (if r = Some ERR_READ_TIMEOUT then None else r)"

text \<open>A round of messages; running into the timeout is no error.\<close>

definition handshake_within :: "nat \<Rightarrow> 'd nsp_env \<Rightarrow> u32 \<Rightarrow> 'd calc_handle \<Rightarrow> ret \<times> 'd calc_handle" where
  "handshake_within fuel N t h =
     (let (r, h) = nnse_process_handshake_messages fuel N t h in (no_timeout r, h))"

definition handshake_at :: "nat \<Rightarrow> 'd nsp_env \<Rightarrow> u32 \<Rightarrow> 'd calc_handle \<Rightarrow> ret \<times> 'd calc_handle" where
  "handshake_at fuel N t h =
     (let (r, _, h) = at_timeout N t (\<lambda>h. let (r, h) = nnse_process_handshake_messages fuel N t h in (r, (), h)) h
      in (no_timeout r, h))"

text \<open>The attempts after the first one: a reset of the USB device, and another prompt.\<close>

definition unless_done ::
    "('d calc_handle \<Rightarrow> ret \<times> 'd calc_handle) \<Rightarrow> 'd calc_handle \<Rightarrow> ret \<times> 'd calc_handle" where
  "unless_done k h = (if ns_handshake_done (kh_nsp h) then (None, h) else k h)"

definition nsp_nnse_ensure_ready :: "nat \<Rightarrow> 'd nsp_env \<Rightarrow> 'd calc_handle \<Rightarrow> ret \<times> 'd calc_handle" where
  "nsp_nnse_ensure_ready fuel N h =
     unless_done (\<lambda>h.
       andthen (andthen (andthen (andthen (nnse_send_addr_response_twice N h)
         (handshake_at fuel N 3))
         (unless_done (\<lambda>h. andthen (driver_reset N h) (handshake_at fuel N 40))))
         (unless_done (\<lambda>h. andthen (nnse_send_addr_response_twice N h) (handshake_within fuel N 40))))
         (\<lambda>h. (None, set_handshake True h))) h"

section \<open>Streams\<close>

text \<open>
  Waiting for the acknowledgement of the message \<open>seqno\<close>: \<open>Waited r retry done h\<close> is the state
  after the rounds. A payload for the current port counts as the acknowledgement.
\<close>

datatype 'h waited = Waited ret bool bool 'h

definition queue_stream :: "nnse_header \<Rightarrow> bytes \<Rightarrow> bool \<Rightarrow> 'd calc_handle \<Rightarrow> ret \<times> bool \<times> 'd calc_handle" where
  "queue_stream hdr payload reassociated h =
     (if reassociated \<or> nnse_stream_is_duplicate h hdr then (None, False, h)
      else (let (r, queued, h) = nnse_queue_payload_ex payload h
            in if r = None \<and> queued then (None, True, nnse_note_stream_delivered hdr h) else (r, False, h)))"

fun ack_rounds ::
    "nat \<Rightarrow> bool \<Rightarrow> nat \<Rightarrow> 'd nsp_env \<Rightarrow> u16 \<Rightarrow> 'd calc_handle \<Rightarrow> 'd calc_handle waited" where
  "ack_rounds 0 reassociated fuel N seqno h = Waited None False False h"
| "ack_rounds (Suc n) reassociated fuel N seqno h =
     (let (r, m, h) = at_timeout N (nnse_effective_stream_timeout h) (recv_message fuel N) h
      in if skipped r then ack_rounds n reassociated fuel N seqno h
         else if r = Some ERR_READ_TIMEOUT then Waited None True False h
         else if r \<noteq> None then Waited r False False h
         else
           (let (hdr, payload) = the m
            in if to_computer (nh_dest hdr)
                \<and> nh_service hdr = NSP_NNSE_SRV_STREAM OR NSP_NNSE_SRV_ACK_FLAG \<and> nh_seqno hdr = seqno
               then Waited None False True h
               else
                 (let reassociated = (reassociated \<or> nh_service hdr = NSP_NNSE_SRV_ADDR_REQ);
                      (r, is_stream, h) = nnse_handle_message N hdr payload h;
                      (r, finished, h) = (if r = None \<and> is_stream then queue_stream hdr payload reassociated h
                                      else (r, False, h));
                      retry = (r = None \<and> reassociated \<and> ns_handshake_done (kh_nsp h))
                  in if r \<noteq> None \<or> retry \<or> finished then Waited r retry finished h
                     else ack_rounds n reassociated fuel N seqno h)))"

fun send_attempts ::
    "nat \<Rightarrow> nat \<Rightarrow> 'd nsp_env \<Rightarrow> u16 \<Rightarrow> bytes \<Rightarrow> 'd calc_handle \<Rightarrow> ret \<times> bool \<times> 'd calc_handle" where
  "send_attempts 0 fuel N seqno data h = (None, False, h)"
| "send_attempts (Suc n) fuel N seqno data h =
     (let (r, h) = nnse_send_message N 0 NSP_NNSE_SRV_STREAM NSP_NNSE_ADDR_PC NSP_NNSE_ADDR_CALC 0 1 seqno data h
      in if r \<noteq> None then (r, False, h)
         else (case ack_rounds 10 False fuel N seqno h of Waited r retry finished h \<Rightarrow>
                 if r \<noteq> None \<or> finished then (r, finished, h)
                 else send_attempts n fuel N seqno data h))"

definition nsp_nnse_send_stream :: "nat \<Rightarrow> 'd nsp_env \<Rightarrow> bytes \<Rightarrow> 'd calc_handle \<Rightarrow> ret \<times> 'd calc_handle" where
  "nsp_nnse_send_stream fuel N data h =
     andthen (nsp_nnse_ensure_ready fuel N h) (\<lambda>h.
       let (seqno, h) = nnse_next_seqno h
       in if \<not> nnse_stream_requires_ack data
          then nnse_send_message N 0 NSP_NNSE_SRV_STREAM NSP_NNSE_ADDR_PC NSP_NNSE_ADDR_CALC 0 0 seqno data h
          else (let (r, finished, h) = send_attempts 5 fuel N seqno data h
                in (if r = None \<and> \<not> finished then Some ERR_NACK else r, h)))"

text \<open>
  The payloads queued before the first one for the current port are dropped; \<open>None\<close> as first
  result when there is none.
\<close>

fun take_queued :: "bytes list \<Rightarrow> 'd calc_handle \<Rightarrow> bytes option \<times> 'd calc_handle" where
  "take_queued [] h = (None, h)"
| "take_queued (p # ps) h =
     (let h = upd_nsp (\<lambda>s. s\<lparr>ns_pending := ps\<rparr>) h
      in if nnse_stream_is_for_current_port h p then (Some p, h) else take_queued ps h)"

text \<open>Rounds of receiving with \<open>bad\<close> messages skipped so far.\<close>

fun stream_rounds ::
    "nat \<Rightarrow> bool \<Rightarrow> nat \<Rightarrow> nat \<Rightarrow> 'd nsp_env \<Rightarrow> nat \<Rightarrow> 'd calc_handle \<Rightarrow> ret \<times> bytes option \<times> 'd calc_handle" where
  "stream_rounds 0 reassociated bad fuel N maxsize h =
     (Some (if bad \<noteq> 0 then ERR_READ_TIMEOUT else ERR_INVALID_PACKET), None, h)"
| "stream_rounds (Suc n) reassociated bad fuel N maxsize h =
     (let (r, m, h) = recv_message fuel N h
      in if skipped r then
           (if 2 \<le> bad + 1 then (Some ERR_READ_TIMEOUT, None, h)
            else stream_rounds n reassociated (bad + 1) fuel N maxsize h)
         else if r \<noteq> None then (r, None, h)
         else
           (let (hdr, payload) = the m; (r, is_stream, h) = nnse_handle_message N hdr payload h
            in if r \<noteq> None then (r, None, h)
               else
                 (let reassociated = (reassociated \<or> nh_service hdr = NSP_NNSE_SRV_ADDR_REQ)
                  in if is_stream then
                       (if reassociated \<or> nnse_stream_is_duplicate h hdr
                        then stream_rounds n reassociated bad fuel N maxsize h
                        else if maxsize < length payload then (Some ERR_INVALID_PACKET, None, h)
                        else (None, Some payload, nnse_note_stream_delivered hdr h))
                     else if reassociated \<and> ns_handshake_done (kh_nsp h) then (Some ERR_READ_TIMEOUT, None, h)
                     else stream_rounds n reassociated bad fuel N maxsize h)))"

definition nsp_nnse_recv_stream ::
    "nat \<Rightarrow> 'd nsp_env \<Rightarrow> nat \<Rightarrow> 'd calc_handle \<Rightarrow> ret \<times> bytes option \<times> 'd calc_handle" where
  "nsp_nnse_recv_stream fuel N maxsize h =
     (let (r, h) = nsp_nnse_ensure_ready fuel N h
      in if r \<noteq> None then (r, None, h)
         else (let (queued, h) = take_queued (ns_pending (kh_nsp h)) h
               in case queued of
                    Some p \<Rightarrow> if maxsize < length p then (Some ERR_INVALID_PACKET, None, h) else (None, Some p, h)
                  | None \<Rightarrow> at_timeout N (nnse_effective_stream_timeout h)
                              (stream_rounds 10 False 0 fuel N maxsize) h))"

end
