(* ===== verification/NspFraming.thy ===== *)
theory NspFraming
  imports NspNnse
begin

text \<open>
  What the NNSE framing of \<open>NspNnse\<close> does: its checksum, what the receiver drops while it looks
  for a message, and the exchange of messages on a link.
\<close>

section \<open>The checksum\<close>

text \<open>The sum of the sixteen-bit words, and what folding makes of it: the value modulo 65535.\<close>

fun word_sum :: "bytes \<Rightarrow> nat" where
  "word_sum (a # b # bs) = unat (be16 a b) + word_sum bs"
| "word_sum [a] = 256 * unat a"
| "word_sum [] = 0"

lemma u16_less: "unat (w :: u16) < 65536"
  using unsigned_less [of w] by simp

lemma u8_less: "unat (b :: u8) < 256"
  using unsigned_less [of b] by simp

lemma unat_widened:
  "unat (ucast (w :: u16) :: u32) = unat w" "unat (ucast (b :: u8) :: u32) = unat b"
  "unat (ucast (b :: u8) :: u16) = unat b"
  using u16_less [of w] u8_less [of b] by (simp_all add: unsigned_ucast_eq take_bit_nat_eq_self)

lemma unat_be16: "unat (be16 a b) = 256 * unat a + unat b"
proof -
  have "be16 a b = push_bit 8 (ucast a) + ucast b" unfolding be16_def
    by (rule disjunctive_add_eq_or [symmetric], rule bit_word_eqI) (auto simp: bit_simps dest: bit_imp_le_length)
  also have "unat \<dots> = 256 * unat a + unat b"
    using u8_less [of a] u8_less [of b]
    by (simp only: unat_word_ariths unsigned_push_bit_eq unat_widened) (simp add: push_bit_eq_mult take_bit_nat_eq_self)
  finally show ?thesis .
qed

lemma word_sum_bound: "word_sum bs \<le> 65535 * ((length bs + 1) div 2)"
proof (induction bs rule: word_sum.induct)
  case (1 a b bs)
  then show ?case using u16_less [of "be16 a b"] by simp
next
  case (2 a)
  then show ?case using u8_less [of a] by simp
qed simp

lemma checksum_acc_sum:
  assumes "unat acc + word_sum bs < 2 ^ 32"
  shows "unat (nnse_checksum_acc bs acc) = unat acc + word_sum bs"
  using assms
proof (induction bs acc rule: nnse_checksum_acc.induct)
  case (1 a b bs acc)
  have "unat (ucast (be16 a b) :: u32) = unat (be16 a b)" by (rule unat_widened)
  then have "unat (acc + ucast (be16 a b)) = unat acc + unat (be16 a b)"
    using 1(2) by (simp add: unat_word_ariths)
  then show ?case using 1 by simp
next
  case (2 a acc)
  have a: "unat a < 256" by (rule u8_less)
  then have "unat (push_bit 8 (ucast a) :: u32) = 256 * unat a"
    by (simp only: unsigned_push_bit_eq unat_widened) (simp add: push_bit_eq_mult take_bit_nat_eq_self)
  then show ?case using 2 a by (simp add: unat_word_ariths)
qed simp

lemma fold_value:
  "unat (nnse_checksum_fold x) = (if x = 0 then 0 else (unat x - 1) mod 65535 + 1)"
proof (induction x rule: nnse_checksum_fold.induct)
  case (1 x)
  show ?case
  proof (cases "drop_bit 16 x = 0")
    case True
    then have "unat x div 65536 = 0" using word_halves(1) [of x] by simp
    then have "unat x < 65536" by simp
    then have "unat (nnse_checksum_fold x) = unat x"
      using True by (simp add: nnse_checksum_fold.simps [of x] unsigned_ucast_eq take_bit_nat_eq_self)
    moreover have "x \<noteq> 0 \<Longrightarrow> 0 < unat x" by (simp add: unat_gt_0)
    ultimately show ?thesis using \<open>unat x < 65536\<close> by auto
  next
    case False
    let ?y = "drop_bit 16 x + (x AND 0xFFFF)"
    define q r where "q = unat x div 65536" and "r = unat x mod 65536"
    have "q \<noteq> 0" using False word_halves(1) [of x] unat_eq_zero q_def by metis
    moreover have y: "unat ?y = q + r" using word_halves_sum [of x] by (simp add: q_def r_def)
    moreover have "unat x = 65536 * q + r" by (simp add: q_def r_def)
    ultimately have "unat x - 1 = (unat ?y - 1) + 65535 * q" by simp
    then have "(unat x - 1) mod 65535 = (unat ?y - 1) mod 65535" by simp
    moreover have "?y \<noteq> 0" "x \<noteq> 0" using y \<open>q \<noteq> 0\<close> False by auto
    ultimately show ?thesis using 1 False by (simp add: nnse_checksum_fold.simps [of x])
  qed
qed

lemma fold_accepts:
  assumes "word_sum bs < 2 ^ 32"
  shows "nnse_checksum_fold (nnse_checksum_acc bs 0) = 0xFFFF \<longleftrightarrow> word_sum bs \<noteq> 0 \<and> word_sum bs mod 65535 = 0"
proof -
  let ?x = "nnse_checksum_acc bs 0"
  have x: "unat ?x = word_sum bs" using checksum_acc_sum [of 0 bs] assms by simp
  have "nnse_checksum_fold ?x = 0xFFFF \<longleftrightarrow> unat (nnse_checksum_fold ?x) = 65535"
    by (simp add: word_unat_eq_iff)
  also have "\<dots> \<longleftrightarrow> word_sum bs \<noteq> 0 \<and> (word_sum bs - 1) mod 65535 = 65534"
    using x by (auto simp: fold_value unat_eq_zero)
  also have "\<dots> \<longleftrightarrow> word_sum bs \<noteq> 0 \<and> word_sum bs mod 65535 = 0"
    using mod_Suc [of "word_sum bs - 1" 65535] by (cases "word_sum bs") auto
  finally show ?thesis .
qed

lemma word_sum_append: "even (length bs) \<Longrightarrow> word_sum (bs @ cs) = word_sum bs + word_sum cs"
  by (induction bs rule: word_sum.induct) auto

lemma word_sum_update:
  assumes "i < length bs"
  shows "word_sum (bs[i := b]) + unat (bs ! i) * (if even i then 256 else 1)
    = word_sum bs + unat b * (if even i then 256 else 1)"
  using assms
proof (induction bs arbitrary: i rule: word_sum.induct)
  case (1 x y bs)
  then show ?case by (cases i; cases "i - 1") (auto simp: unat_be16)
qed (auto simp: less_Suc_eq_0_disj)

text \<open>A sum of two words of the checksum's kind that agree modulo 65535.\<close>

lemma no_multiple:
  fixes a b n m k :: nat
  assumes "n + a * k = m + b * k" "m mod 65535 = 0" "n mod 65535 = 0" "a < 256" "b < 256" "k = 1 \<or> k = 256"
  shows "a = b"
proof -
  obtain p q where "m = 65535 * p" "n = 65535 * q" using assms(2,3) by (metis mod_0_imp_dvd dvd_def)
  then have "int a * int k - int b * int k = 65535 * (int p - int q)"
    using assms(1) by (simp add: algebra_simps flip: of_nat_mult of_nat_add)
  then have e: "(int a - int b) * int k = 65535 * (int p - int q)" by (simp add: algebra_simps)
  have "\<bar>(int a - int b) * int k\<bar> < 65535" 
  proof -
    have "\<bar>int a - int b\<bar> \<le> 255" using assms(4,5) by linarith
    then show ?thesis using assms(6) by (auto simp: abs_mult)
  qed
  then have "\<bar>int p - int q\<bar> < 1" unfolding e by (simp add: abs_mult)
  then show "a = b" using e assms(6) by auto
qed

lemma unat_xor_mask: "unat (w XOR 0xFFFF :: u16) = 65535 - unat w"
proof -
  have m: "(- 1 :: u16) = 0xFFFF" by simp
  have "w XOR 0xFFFF = NOT w" unfolding m [symmetric] by (rule bit_word_eqI) (simp only: bit_xor_iff bit_not_iff bit_minus_1_iff, simp)
  also have "\<dots> = 0xFFFF - w" by (simp add: not_eq_complement)
  finally have "w XOR 0xFFFF = 0xFFFF - w" .
  moreover have "w \<le> 0xFFFF" using u16_less [of w] by (simp add: word_le_nat_alt)
  ultimately show ?thesis by (simp add: unat_sub)
qed

lemma nnse_message_length [simp]: "length (nnse_message m s sr d u a q data) = 12 + length data"
  by (simp add: nnse_message_def Let_def)

lemma nnse_message_sum:
  assumes "length data \<le> 1472"
  shows "word_sum (nnse_message m s sr d u a q data) \<noteq> 0"
    and "word_sum (nnse_message m s sr d u a q data) mod 65535 = 0"
proof -
  define len where "len = (12 + of_nat (length data) :: u16)"
  define hd where "hd = [m, s, sr, d, u, a, MSB len, LSB len, MSB q, LSB q]"
  define f where "f = nnse_checksum_fold (nnse_checksum_acc (hd @ [0, 0] @ data) 0)"
  define n where "n = word_sum hd + word_sum data"
  have even: "even (length hd)" by (simp add: hd_def)
  have n0: "word_sum (hd @ [0, 0] @ data) = n"
    using even by (simp add: n_def word_sum_append unat_be16)
  have "n \<le> 65535 * ((length (hd @ [0, 0] @ data) + 1) div 2)" using word_sum_bound [of "hd @ [0, 0] @ data"] n0 by simp
  then have "n < 2 ^ 32" using assms by (simp add: hd_def)
  then have x: "unat (nnse_checksum_acc (hd @ [0, 0] @ data) 0) = n"
    using checksum_acc_sum [of 0 "hd @ [0, 0] @ data"] n0 by simp
  have f: "unat f = (if n = 0 then 0 else (n - 1) mod 65535 + 1)"
    unfolding f_def fold_value using x by (simp add: unat_gt_0 flip: unat_eq_zero)
  have "nnse_message m s sr d u a q data = hd @ [MSB (f XOR 0xFFFF), LSB (f XOR 0xFFFF)] @ data"
    by (simp add: nnse_message_def Let_def hd_def len_def f_def)
  then have "word_sum (nnse_message m s sr d u a q data) = n + unat (f XOR 0xFFFF)"
    using even by (simp add: word_sum_append n_def be16_MSB_LSB)
  then have sum: "word_sum (nnse_message m s sr d u a q data) = n + (65535 - unat f)"
    by (simp add: unat_xor_mask)
  have "unat f \<le> 65535" using u16_less [of f] by simp
  show "word_sum (nnse_message m s sr d u a q data) \<noteq> 0" using sum f by (auto split: if_splits)
  show "word_sum (nnse_message m s sr d u a q data) mod 65535 = 0"
  proof (cases "n = 0")
    case True
    then show ?thesis using sum f by simp
  next
    case False
    have "n = 65535 * ((n - 1) div 65535) + unat f"
      using False f div_mult_mod_eq [of "n - 1" 65535] by simp
    then have "n + (65535 - unat f) = 65535 * ((n - 1) div 65535) + 65535" using \<open>unat f \<le> 65535\<close> by linarith
    then show ?thesis using sum by simp
  qed
qed



section \<open>What is dropped\<close>

text \<open>Every start of a message that will be accepted is possible.\<close>

lemma prefix_possible:
  assumes "12 \<le> length m"
    and "nnse_header_plausible m maxpayload \<or> nnse_compact_stream_control_plausible m maxpayload"
  shows "nnse_partial_header_possible (take k m)"
proof -
  have nth: "i < k \<Longrightarrow> take k m ! i = m ! i" for i by simp
  have word: "i + 1 < k \<Longrightarrow> word_at (take k m) i = word_at m i" for i by (simp add: word_at_def)
  show ?thesis
  proof (cases "take k m = []")
    case False
    then have "0 < k" by auto
    then show ?thesis
      using assms
      by (auto simp: nnse_partial_header_possible_def nnse_header_plausible_def
          nnse_compact_stream_control_plausible_def Let_def nth word not_less)
  qed (auto simp: nnse_partial_header_possible_def)
qed

text \<open>What remains, and why nothing more was dropped.\<close>

definition droppable :: "bytes \<Rightarrow> bool" where
  "droppable bs \<longleftrightarrow> bs \<noteq> [] \<and> length bs < 12 \<and> \<not> nnse_partial_header_possible bs"

lemma discard_spec:
  "\<exists>j\<le>length bs. nnse_discard_impossible_prefix bs = drop j bs \<and> \<not> droppable (drop j bs)
     \<and> (\<forall>i<j. droppable (drop i bs))"
proof (induction bs)
  case Nil
  then show ?case by (auto simp: droppable_def)
next
  case (Cons b bs)
  show ?case
  proof (cases "droppable (b # bs)")
    case True
    then obtain j where "j \<le> length bs" "nnse_discard_impossible_prefix (b # bs) = drop j bs"
        "\<not> droppable (drop j bs)" "\<forall>i<j. droppable (drop i bs)"
      using Cons by (auto simp: droppable_def)
    then show ?thesis using True
      by (intro exI [of _ "Suc j"]) (auto simp: less_Suc_eq_0_disj)
  next
    case False
    then show ?thesis by (intro exI [of _ 0]) (auto simp: droppable_def)
  qed
qed



section \<open>Messages of the calculator\<close>

definition incoming :: "u8 \<Rightarrow> u8 \<Rightarrow> u8 \<Rightarrow> u16 \<Rightarrow> bytes \<Rightarrow> bytes" where
  "incoming service dest reqack seqno data = nnse_message 0 service NSP_NNSE_ADDR_CALC dest 0 reqack seqno data"

definition incoming_ok :: "u8 \<Rightarrow> u8 \<Rightarrow> u8 \<Rightarrow> bytes \<Rightarrow> bool" where
  "incoming_ok service dest reqack data \<longleftrightarrow>
     nnse_service_plausible service \<and> to_computer dest \<and> nnse_reqack_plausible reqack \<and> length data \<le> 1472
     \<and> (service AND NSP_NNSE_SRV_ACK_FLAG \<noteq> 0 \<longrightarrow> data = [] \<and> reqack AND 1 = 0)"

text \<open>Nothing of what follows is dropped, whatever part of it is there.\<close>

definition clean :: "bytes \<Rightarrow> bool" where
  "clean bs \<longleftrightarrow> (\<forall>k. \<not> droppable (take k bs))"

lemma clean_Nil [simp]: "clean []"
  by (simp add: clean_def droppable_def)

lemma length_word:
  assumes "n \<le> 1472"
  shows "unat (12 + of_nat n :: u16) = 12 + n" "(12 :: u16) \<le> 12 + of_nat n"
    "payload_of_length (12 + of_nat n) = n"
proof -
  have "unat (of_nat (12 + n) :: u16) = 12 + n" using assms by (simp add: unat_of_nat take_bit_nat_eq_self del: of_nat_add)
  then show a: "unat (12 + of_nat n :: u16) = 12 + n" by simp
  show b: "(12 :: u16) \<le> 12 + of_nat n" using a by (simp add: word_le_nat_alt)
  show "payload_of_length (12 + of_nat n) = n" using a b by (simp add: payload_of_length_def)
qed

lemma incoming_plausible:
  assumes "incoming_ok service dest reqack data"
  shows "nnse_header_plausible (incoming service dest reqack seqno data @ rest) 1472"
  using assms length_word [of "length data"]
  by (auto simp: incoming_ok_def incoming_def nnse_header_plausible_def nnse_message_def Let_def
      word_at_def be16_MSB_LSB)

lemma length_incoming [simp]: "length (incoming service dest reqack seqno data) = 12 + length data"
  by (simp add: incoming_def)

lemma clean_incoming:
  "incoming_ok service dest reqack data \<Longrightarrow> clean (incoming service dest reqack seqno data @ rest)"
  using prefix_possible [OF _ disjI1 [OF incoming_plausible]]
  by (auto simp: clean_def droppable_def)

text \<open>Its header as the receiver reports it.\<close>

definition incoming_header :: "u8 \<Rightarrow> u8 \<Rightarrow> u8 \<Rightarrow> u16 \<Rightarrow> bytes \<Rightarrow> nnse_header" where
  "incoming_header service dest reqack seqno data =
     header_from 0 (incoming service dest reqack seqno data) 1"

lemma incoming_header_simps [simp]:
  "nh_misc (incoming_header service dest reqack seqno data) = 0"
  "nh_service (incoming_header service dest reqack seqno data) = service"
  "nh_src (incoming_header service dest reqack seqno data) = NSP_NNSE_ADDR_CALC"
  "nh_dest (incoming_header service dest reqack seqno data) = dest"
  "nh_unknown (incoming_header service dest reqack seqno data) = 0"
  "nh_reqack (incoming_header service dest reqack seqno data) = reqack"
  "nh_seqno (incoming_header service dest reqack seqno data) = seqno"
  "nh_length (incoming_header service dest reqack seqno data) = 12 + of_nat (length data)"
  by (simp_all add: incoming_header_def header_from_def incoming_def nnse_message_def Let_def
      word_at_def be16_MSB_LSB)

text \<open>The acknowledgement that the computer sends, and the message it waits for one of.\<close>

definition stream_ack :: "u8 \<Rightarrow> u8 \<Rightarrow> u16 \<Rightarrow> bytes" where
  "stream_ack dest reqack seqno = nnse_message 0 0x84 dest NSP_NNSE_ADDR_CALC 0 (reqack AND 0xFE) seqno []"

definition stream_message :: "u8 \<Rightarrow> u16 \<Rightarrow> bytes \<Rightarrow> bytes" where
  "stream_message reqack seqno data =
     nnse_message 0 NSP_NNSE_SRV_STREAM NSP_NNSE_ADDR_PC NSP_NNSE_ADDR_CALC 0 reqack seqno data"

section \<open>On a link\<close>

text \<open>
  A quiet link whose driver can tell whether there is a byte, and for which a timeout is nothing
  to act on. What is to be read is the buffer of the handle and what the link has.
\<close>

lemma discard_kept: "\<not> droppable bs \<Longrightarrow> nnse_discard_impossible_prefix bs = bs"
  by (cases bs) (auto simp: droppable_def)

lemma upd_nsp_simps [simp]:
  "kh_nsp (upd_nsp f h) = f (kh_nsp h)" "kh_cable (upd_nsp f h) = kh_cable h"
  "kh_busy (upd_nsp f h) = kh_busy h" "kh_updat (upd_nsp f h) = kh_updat h"
  "kh_attached (upd_nsp f h) = kh_attached h" "kh_open (upd_nsp f h) = kh_open h"
  by (simp_all add: upd_nsp_def)

lemma set_rx_simps [simp]:
  "rx (set_rx bs h) = bs" "kh_cable (set_rx bs h) = kh_cable h"
  "kh_nsp (set_rx bs h) = (kh_nsp h)\<lparr>ns_rx_buffer := bs\<rparr>" "kh_busy (set_rx bs h) = kh_busy h"
  "kh_updat (set_rx bs h) = kh_updat h" "kh_attached (set_rx bs h) = kh_attached h"
  "kh_open (set_rx bs h) = kh_open h"
  by (simp_all add: set_rx_def rx_def)

text \<open>
  A session in which the message with sequence number \<open>q\<close> was the last to be delivered; the results
  of several receptions one after the other.
\<close>

definition settled :: "u16 \<Rightarrow> nsp_state \<Rightarrow> bool" where
  "settled q s \<longleftrightarrow> ns_handshake_done s \<and> ns_pending s = [] \<and> ns_has_last_stream_seqno s \<and> ns_last_stream_seqno s = q"

lemma settled_buffer [simp]: "settled q (s\<lparr>ns_rx_buffer := b\<rparr>) = settled q s"
  by (simp add: settled_def)

fun receptions :: "nat \<Rightarrow> nat \<Rightarrow> 'd nsp_env \<Rightarrow> 'd calc_handle \<Rightarrow> (ret \<times> bytes option) list \<times> 'd calc_handle" where
  "receptions 0 fuel N h = ([], h)"
| "receptions (Suc n) fuel N h =
     (let (r, p, h) = nsp_nnse_recv_stream fuel N 1472 h; (xs, h) = receptions n fuel N h in ((r, p) # xs, h))"

locale polled_link = quiet_link send recv sent avail room ok E
  for send :: "'d \<Rightarrow> bytes \<Rightarrow> ret \<times> 'd" and recv :: "'d \<Rightarrow> nat \<Rightarrow> ret \<times> bytes \<times> 'd"
    and sent avail :: "'d \<Rightarrow> bytes" and room :: "'d \<Rightarrow> nat" and ok :: "'d \<Rightarrow> bool"
    and E :: "'d calc_env" +
  fixes N :: "'d nsp_env" and check :: "'d \<Rightarrow> ret \<times> int \<times> 'd"
  assumes calc_env: "ne_calc N = E"
    and driver_check: "cf_check (ce_fncts E) = Some check"
    and check_eq: "ok d \<Longrightarrow> check d = (None, if avail d = [] then 0 else 1, d)"
    and no_timeout_call: "cf_timeout (ce_fncts E) = None"
begin

definition input :: "'d calc_handle \<Rightarrow> bytes" where
  "input h = rx h @ c_avail (kh_cable h)"

text \<open>The effect of reading: nothing is sent, and of the state only the buffer differs.\<close>

definition got :: "'d calc_handle \<Rightarrow> 'd calc_handle \<Rightarrow> bool" where
  "got h h' \<longleftrightarrow> ready h' \<and> c_sent (kh_cable h') = c_sent (kh_cable h)
     \<and> c_room (kh_cable h') = c_room (kh_cable h) \<and> kh_nsp h' = (kh_nsp h)\<lparr>ns_rx_buffer := rx h'\<rparr>
     \<and> cb_timeout (kh_cable h') = cb_timeout (kh_cable h) \<and> kh_busy h' = kh_busy h
     \<and> kh_attached h' = kh_attached h \<and> kh_open h' = kh_open h"

lemma got_refl: "ready h \<Longrightarrow> got h h"
  by (simp add: got_def rx_def)

lemma got_trans: "got h h1 \<Longrightarrow> got h1 h2 \<Longrightarrow> got h h2"
  by (auto simp: got_def)

lemma got_set_rx: "got h h' \<Longrightarrow> got h (set_rx bs h')"
  by (auto simp: got_def ready_def)

lemma cable_check_quiet:
  assumes "ready h"
  shows "cable_check N h = (None, c_avail (kh_cable h) \<noteq> [], h)"
proof -
  have "kh_cable h\<lparr>cb_busy := False\<rparr> = kh_cable h" using assms by (simp add: ready_def cable_ready_def)
  then show ?thesis
    using assms check_eq [of "cb_dev (kh_cable h)"]
    by (simp add: cable_check_def ticables_cable_check_def calc_env driver_check driver_call_def
        ticables_event_send_def no_cable_hook ticables_event_fill_header_def ready_def cable_ready_def
        c_avail_def Let_def)
qed

lemma byte_taken:
  assumes "ready h" "c_avail (kh_cable h) \<noteq> []"
  shows "\<exists>h1. cable_recv (ne_calc N) 1 h = (None, [hd (c_avail (kh_cable h))], h1)
     \<and> got h h1 \<and> rx h1 = rx h \<and> c_avail (kh_cable h1) = tl (c_avail (kh_cable h))"
proof -
  have "1 \<le> length (c_avail (kh_cable h))" using assms(2) by (simp add: Suc_leI)
  moreover have "take 1 (c_avail (kh_cable h)) = [hd (c_avail (kh_cable h))]"
    using assms(2) by (cases "c_avail (kh_cable h)") simp_all
  moreover have "drop 1 (c_avail (kh_cable h)) = tl (c_avail (kh_cable h))" by (simp add: drop_Suc)
  moreover have "cb_timeout (c_get (kh_cable h) 1) = cb_timeout (kh_cable h)" by (simp add: c_get_def)
  ultimately show ?thesis
    using assms(1) cable_recv_quiet [of h 1] c_get_simps [of "kh_cable h" 1]
    by (auto simp: calc_env ready_def got_def rx_def)
qed

lemma poll_fills:
  assumes "ready h" "wanted \<le> length (input h)" "wanted - length (rx h) < fuel"
    and "rs \<longrightarrow> (\<forall>k. \<not> droppable (take k (input h)))"
  shows "\<exists>h'. nnse_poll fuel N wanted rs hp dl h = (None, h') \<and> got h h' \<and> input h' = input h
     \<and> wanted \<le> length (rx h')"
  using assms
proof (induction fuel arbitrary: h hp dl)
  case (Suc fuel)
  show ?case
  proof (cases "wanted \<le> length (rx h)")
    case True
    then show ?thesis using Suc.prems(1) got_refl by auto
  next
    case False
    then have ne: "c_avail (kh_cable h) \<noteq> []" using Suc.prems(2) by (auto simp: input_def)
    obtain h1 where h1: "cable_recv (ne_calc N) 1 h = (None, [hd (c_avail (kh_cable h))], h1)"
        "got h h1" "rx h1 = rx h" "c_avail (kh_cable h1) = tl (c_avail (kh_cable h))"
      using byte_taken [OF Suc.prems(1) ne] by blast
    define h2 where "h2 = set_rx (rx h @ [hd (c_avail (kh_cable h))]) h1"
    have in2: "input h2 = input h" and rx2: "rx h2 = rx h @ [hd (c_avail (kh_cable h))]"
      using h1(4) ne by (simp_all add: input_def h2_def)
    have "rx h2 = take (Suc (length (rx h))) (input h)"
      using rx2 ne by (cases "c_avail (kh_cable h)") (simp_all add: input_def)
    then have keep: "rs \<longrightarrow> nnse_discard_impossible_prefix (rx h2) = rx h2"
      using Suc.prems(4) discard_kept by metis
    have "\<exists>hp' dl'. byte_read N rs hp dl (hd (c_avail (kh_cable h))) h1 = (hp', dl', h2)"
      using keep unfolding byte_read_def Let_def h1(3) h2_def [symmetric] by (cases rs) auto
    then obtain hp' dl' where b: "byte_read N rs hp dl (hd (c_avail (kh_cable h))) h1 = (hp', dl', h2)" by blast
    have g2: "got h h2" using got_set_rx [OF h1(2)] by (simp add: h2_def)
    have "\<exists>h'. nnse_poll fuel N wanted rs hp' dl' h2 = (None, h') \<and> got h2 h' \<and> input h' = input h2
        \<and> wanted \<le> length (rx h')"
    proof (rule Suc.IH)
      show "ready h2" using g2 by (simp add: got_def)
      show "wanted \<le> length (input h2)" "rs \<longrightarrow> (\<forall>k. \<not> droppable (take k (input h2)))"
        using Suc.prems in2 by simp_all
      show "wanted - length (rx h2) < fuel" using Suc.prems(3) False rx2 by simp
    qed
    then show ?thesis
      using False ne h1(1) b in2 got_trans [OF g2]
      by (auto simp: cable_check_quiet [OF Suc.prems(1)])
  qed
qed simp

lemma buffer_fills:
  assumes "ready h" "wanted \<le> length (input h)" "wanted < fuel" "\<forall>k. \<not> droppable (take k (input h))"
  shows "\<exists>h'. nnse_buffer_read fuel N wanted h = (None, h') \<and> got h h' \<and> input h' = input h
     \<and> wanted \<le> length (rx h')"
  using assms poll_fills [of h wanted fuel "wanted \<le> 12"]
  by (auto simp: nnse_buffer_read_def nnse_buffer_read_polled_def)

lemma prefetch_fills:
  assumes "ready h"
  shows "got h (prefetch_bytes n N h) \<and> input (prefetch_bytes n N h) = input h"
  using assms
proof (induction n arbitrary: h)
  case (Suc n)
  show ?case
  proof (cases "c_avail (kh_cable h) = []")
    case False
    obtain h1 where h1: "cable_recv (ne_calc N) 1 h = (None, [hd (c_avail (kh_cable h))], h1)"
        "got h h1" "rx h1 = rx h" "c_avail (kh_cable h1) = tl (c_avail (kh_cable h))"
      using byte_taken [OF Suc.prems False] by blast
    define h2 where "h2 = set_rx (rx h @ [hd (c_avail (kh_cable h))]) h1"
    have "input h2 = input h" using h1(4) False by (simp add: input_def h2_def)
    moreover have g2: "got h h2" using got_set_rx [OF h1(2)] by (simp add: h2_def)
    moreover have "prefetch_bytes (Suc n) N h = prefetch_bytes n N h2"
      using h1(1,3) False by (simp add: cable_check_quiet [OF Suc.prems] h2_def)
    ultimately show ?thesis using Suc.IH [of h2] got_trans [OF g2] by (auto simp: got_def)
  qed (simp add: cable_check_quiet [OF Suc.prems] got_refl Suc.prems)
qed (simp add: got_refl)

lemma rx_front:
  "n \<le> length (rx g) \<Longrightarrow> take n (rx g) = take n (input g)"
  "i < length (rx g) \<Longrightarrow> rx g ! i = input g ! i"
  "i + 1 < length (rx g) \<Longrightarrow> word_at (rx g) i = word_at (input g) i"
  by (simp_all add: input_def nth_append word_at_def)

lemma plausible_front:
  assumes "12 \<le> length (rx g)"
  shows "nnse_header_plausible (rx g) n = nnse_header_plausible (input g) n"
proof -
  have "0 < length (rx g)" using assms by linarith
  then have "rx g ! 0 = input g ! 0" by (rule rx_front)
  then show ?thesis using assms by (simp add: nnse_header_plausible_def rx_front Let_def)
qed

lemma header_front:
  "12 \<le> n \<Longrightarrow> header_from (f ! 0) f 1 = header_from (take n f ! 0) (take n f) 1"
  by (simp add: header_from_def word_at_def)

lemma drop_incoming: "drop 12 (incoming service dest reqack seqno data) = data"
  by (simp add: incoming_def nnse_message_def Let_def)

lemma set_rx_same: "set_rx (rx h) h = h"
  by (simp add: set_rx_def upd_nsp_def rx_def)

lemma prefetch_keeps:
  assumes "ready h" "clean (input h)"
  shows "\<exists>h'. nnse_prefetch_immediate N h = h' \<and> got h h' \<and> input h' = input h"
proof -
  let ?g = "prefetch_bytes (11 - length (rx h)) N h"
  have g: "got h ?g" "input ?g = input h" using prefetch_fills [OF assms(1)] by blast+
  have "rx ?g = take (length (rx ?g)) (input h)" using g(2) rx_front(1) [of "length (rx ?g)" ?g] by simp
  then have "nnse_discard_impossible_prefix (rx ?g) = rx ?g"
    using assms(2) discard_kept by (metis clean_def)
  then have "nnse_prefetch_immediate N h = ?g" by (simp add: nnse_prefetch_immediate_def Let_def set_rx_same)
  then show ?thesis using g by blast
qed

text \<open>A message at the front is taken, and nothing behind it.\<close>

lemma takes_message:
  assumes "ready h" "incoming_ok service dest reqack data"
    and h: "input h = incoming service dest reqack seqno data @ rest" and "clean rest"
    and "12 + length data < fuel"
  shows "\<exists>h'. recv_message fuel N h = (None, Some (incoming_header service dest reqack seqno data, data), h')
     \<and> got h h' \<and> input h' = rest"
proof -
  let ?m = "incoming service dest reqack seqno data"
  have len: "length data \<le> 1472" using assms(2) by (simp add: incoming_ok_def)
  have cl: "\<forall>k. \<not> droppable (take k (input h))"
    using clean_incoming [OF assms(2)] h by (simp add: clean_def)
  obtain h1 where h1: "nnse_buffer_read fuel N 12 h = (None, h1)" "got h h1" "input h1 = input h" "12 \<le> length (rx h1)"
    using buffer_fills [OF assms(1) _ _ cl, of 12 fuel] assms(5) h by auto
  have plaus: "nnse_header_plausible (rx h1) 1472"
    using plausible_front [OF h1(4), of 1472] h1(3) h incoming_plausible [OF assms(2)] by simp
  have w6: "word_at (input h1) 6 = 12 + of_nat (length data)"
    unfolding h1(3) h by (simp add: word_at_def incoming_def nnse_message_def Let_def be16_MSB_LSB)
  have at6: "unat (word_at (rx h1) 6) = 12 + length data"
    using h1(4) by (simp add: rx_front w6 length_word [OF len])
  have "ready h1" using h1(2) by (simp add: got_def)
  then obtain h2 where h2: "nnse_buffer_read fuel N (12 + length data) h1 = (None, h2)" "got h1 h2"
      "input h2 = input h1" "12 + length data \<le> length (rx h2)"
    using buffer_fills [of h1 "12 + length data" fuel] cl h1(3) assms(5) h by auto
  have m: "take (12 + length data) (rx h2) = ?m"
    using rx_front(1) [OF h2(4)] h2(3) h1(3) h by simp
  have sum: "nnse_checksum_fold (nnse_checksum_acc ?m 0) = 0xFFFF"
    unfolding incoming_def
  proof (subst fold_accepts)
    let ?i = "nnse_message 0 service 1 dest 0 reqack seqno data"
    have "word_sum ?i \<le> 65535 * ((length ?i + 1) div 2)" by (rule word_sum_bound)
    moreover have "(length ?i + 1) div 2 \<le> 742" using len by simp
    ultimately have "word_sum ?i \<le> 48626970" by linarith
    then show "word_sum ?i < 2 ^ 32" by simp
  qed (use nnse_message_sum [OF len] in simp)
  have hdr: "header_from (rx h2 ! 0) (rx h2) 1 = incoming_header service dest reqack seqno data"
    using header_front [of "12 + length data" "rx h2"] m
    by (simp add: incoming_header_def) (simp add: incoming_def nnse_message_def Let_def)
  have pay: "take (length data) (drop 12 (rx h2)) = data"
    using m drop_incoming [of service dest reqack seqno data] by (metis add_diff_cancel_left' drop_take)
  define h3 where "h3 = set_rx (drop (12 + length data) (rx h2)) h2"
  have h3: "got h h3" "input h3 = rest"
    using got_set_rx got_trans h1(2) h2(2) h2(3,4) h1(3) h m
    by (auto simp: h3_def input_def intro: got_set_rx got_trans)
      (metis append_eq_append_conv append_take_drop_id append_assoc same_append_eq)
  then obtain h4 where h4: "nnse_prefetch_immediate N h3 = h4" "got h3 h4" "input h4 = rest"
    using prefetch_keeps [of h3] assms(4) by (auto simp: got_def)
  have "candidate fuel N 1472 h1 = (None, Some (incoming_header service dest reqack seqno data, data), h4)"
    using h2(1) sum m h4(1)
    by (simp add: candidate_def plaus at6 read_rest_def hdr [unfolded One_nat_def] take_message_def length_word [OF len] pay flip: h3_def)
  then have "recv_message fuel N h = (None, Some (incoming_header service dest reqack seqno data, data), h4)"
    using h1(1,4) by (simp add: recv_message_def nnse_recv_message_def)
  then show ?thesis using h3(1) h4(2,3) got_trans by blast
qed

text \<open>What was sent; the flags and the timeout are as before.\<close>

definition did :: "'d calc_handle \<Rightarrow> bytes \<Rightarrow> 'd calc_handle \<Rightarrow> bool" where
  "did h out h' \<longleftrightarrow> ready h' \<and> c_sent (kh_cable h') = c_sent (kh_cable h) @ out
     \<and> length out \<le> c_room (kh_cable h) \<and> c_room (kh_cable h') = c_room (kh_cable h) - length out
     \<and> cb_timeout (kh_cable h') = cb_timeout (kh_cable h) \<and> kh_busy h' = kh_busy h
     \<and> kh_attached h' = kh_attached h \<and> kh_open h' = kh_open h"

lemma got_did: "got h h' \<Longrightarrow> did h [] h'"
  by (simp add: got_def did_def)

lemma did_trans: "did h out h1 \<Longrightarrow> did h1 out' h2 \<Longrightarrow> did h (out @ out') h2"
  by (auto simp: did_def)

lemma did_upd: "did h out h' \<Longrightarrow> did h out (upd_nsp f h')"
  by (simp add: did_def ready_def)

lemma did_ready: "did h out h' \<Longrightarrow> ready h'"
  by (simp add: did_def)

lemma message_sent:
  assumes "ready h" "length data \<le> 1472" "12 + length data \<le> c_room (kh_cable h)"
  shows "\<exists>h'. nnse_send_message N m s sr d u a q data h = (None, h') \<and> did h (nnse_message m s sr d u a q data) h'
     \<and> input h' = input h \<and> kh_nsp h' = kh_nsp h"
proof -
  let ?m = "nnse_message m s sr d u a q data"
  have "cb_timeout (c_put (kh_cable h) ?m) = cb_timeout (kh_cable h)" by (simp add: c_put_def)
  then show ?thesis
    using assms cable_send_quiet [of h ?m] c_put_simps [of "kh_cable h" ?m]
    by (simp add: nnse_send_message_def calc_env did_def ready_def input_def rx_def)
qed

abbreviation with_timeout :: "u32 \<Rightarrow> 'd calc_handle \<Rightarrow> 'd calc_handle" where
  "with_timeout t h \<equiv> h\<lparr>kh_cable := (kh_cable h)\<lparr>cb_timeout := t\<rparr>\<rparr>"

lemma with_timeout_simps [simp]:
  "ready (with_timeout t h) = ready h" "rx (with_timeout t h) = rx h" "input (with_timeout t h) = input h"
  "c_sent ((kh_cable h)\<lparr>cb_timeout := t\<rparr>) = c_sent (kh_cable h)"
  "c_room ((kh_cable h)\<lparr>cb_timeout := t\<rparr>) = c_room (kh_cable h)"
  by (simp_all add: ready_def cable_ready_def rx_def input_def c_avail_def c_sent_def c_room_def)

lemma set_timeout_quiet:
  "ready h \<Longrightarrow> set_timeout N t h = (cb_timeout (kh_cable h), with_timeout t h)"
  by (simp add: set_timeout_def ticables_options_set_timeout_def calc_env no_timeout_call ready_def
      cable_ready_def Let_def)

lemma at_timeout_did:
  assumes "ready h" "f (with_timeout t h) = (r, x, h')" "did (with_timeout t h) out h'"
  shows "\<exists>h''. at_timeout N t f h = (r, x, h'') \<and> did h out h'' \<and> input h'' = input h' \<and> kh_nsp h'' = kh_nsp h'
     \<and> rx h'' = rx h'"
  using assms by (auto simp: at_timeout_def set_timeout_quiet did_def)

lemma takes_at_timeout:
  assumes "ready h" "incoming_ok service dest reqack data"
    and "input h = incoming service dest reqack seqno data @ rest" "clean rest" "12 + length data < fuel"
  shows "\<exists>h'. at_timeout N t (recv_message fuel N) h
      = (None, Some (incoming_header service dest reqack seqno data, data), h')
     \<and> did h [] h' \<and> input h' = rest \<and> kh_nsp h' = (kh_nsp h)\<lparr>ns_rx_buffer := rx h'\<rparr>"
proof -
  obtain h1 where h1: "recv_message fuel N (with_timeout t h)
        = (None, Some (incoming_header service dest reqack seqno data, data), h1)"
      "got (with_timeout t h) h1" "input h1 = rest"
    using takes_message [of "with_timeout t h" service dest reqack data seqno rest fuel] assms by auto
  obtain h2 where h2: "at_timeout N t (recv_message fuel N) h
        = (None, Some (incoming_header service dest reqack seqno data, data), h2)"
      "did h [] h2" "input h2 = input h1" "kh_nsp h2 = kh_nsp h1" "rx h2 = rx h1"
    using at_timeout_did [where f = "recv_message fuel N" and t = t, OF assms(1) h1(1) got_did [OF h1(2)]] by blast
  then show ?thesis using h1(2,3) by (auto simp: got_def)
qed

text \<open>A packet handed to the framing is sent once if the acknowledgement comes.\<close>

lemma stream_acknowledged:
  assumes "ready h" "ns_handshake_done (kh_nsp h)" "nnse_stream_requires_ack data"
    and "incoming_ok 0x84 dest reqack []" "clean rest"
    and h: "input h = incoming 0x84 dest reqack (ns_seqno (kh_nsp h)) [] @ rest"
    and "length data \<le> 1472" "12 + length data \<le> c_room (kh_cable h)" "12 < fuel"
  shows "\<exists>h'. nsp_nnse_send_stream fuel N data h = (None, h')
     \<and> did h (stream_message 1 (ns_seqno (kh_nsp h)) data) h' \<and> input h' = rest
     \<and> kh_nsp h' = (kh_nsp h)\<lparr>ns_seqno := ns_seqno (kh_nsp h) + 1, ns_rx_buffer := rx h'\<rparr>"
proof -
  let ?q = "ns_seqno (kh_nsp h)"
  define h0 where "h0 = upd_nsp (\<lambda>s. s\<lparr>ns_seqno := ns_seqno s + 1\<rparr>) h"
  have h0: "ready h0" "input h0 = input h" "kh_cable h0 = kh_cable h"
    using assms(1) by (simp_all add: h0_def ready_def input_def rx_def)
  obtain h1 where h1: "nnse_send_message N 0 NSP_NNSE_SRV_STREAM NSP_NNSE_ADDR_PC NSP_NNSE_ADDR_CALC 0 1 ?q data h0 = (None, h1)"
      "did h0 (stream_message 1 ?q data) h1" "input h1 = input h0" "kh_nsp h1 = kh_nsp h0"
    using message_sent [OF h0(1)] assms(7,8) h0(3) unfolding stream_message_def by metis
  obtain h2 where h2: "at_timeout N (nnse_effective_stream_timeout h1) (recv_message fuel N) h1
        = (None, Some (incoming_header 0x84 dest reqack ?q [], []), h2)"
      "did h1 [] h2" "input h2 = rest" "kh_nsp h2 = (kh_nsp h1)\<lparr>ns_rx_buffer := rx h2\<rparr>"
    using takes_at_timeout [OF did_ready [OF h1(2)] assms(4) _ assms(5), of ?q fuel] h1(3) h0(2) h assms(9) by auto
  have "to_computer dest" using assms(4) by (simp add: incoming_ok_def)
  then have acked: "ack_rounds 10 False fuel N ?q h1 = Waited None False True h2"
    using h2(1) by (simp add: numeral_eq_Suc skipped_def)
  have "nsp_nnse_send_stream fuel N data h = (None, h2)"
    using assms(2,3) h1(1) acked
    by (simp add: nsp_nnse_send_stream_def nsp_nnse_ensure_ready_def unless_done_def nnse_next_seqno_def
        flip: h0_def) (simp add: numeral_eq_Suc)
  moreover have "did h (stream_message 1 ?q data) h2"
    using did_trans [OF h1(2) h2(2)] by (simp add: did_def h0_def)
  moreover have "kh_nsp h2 = (kh_nsp h)\<lparr>ns_seqno := ?q + 1, ns_rx_buffer := rx h2\<rparr>"
    using h2(4) h1(4) by (simp add: h0_def)
  ultimately show ?thesis using h2(3) by blast
qed

text \<open>A stream message is acknowledged if it asks for that.\<close>

lemma stream_handled:
  assumes "ready h" "to_computer dest" "12 \<le> c_room (kh_cable h)" "reqack AND 1 \<noteq> 0"
  shows "\<exists>h'. nnse_handle_message N (incoming_header NSP_NNSE_SRV_STREAM dest reqack seqno data) payload h
      = (None, True, h') \<and> did h (stream_ack dest reqack seqno) h' \<and> input h' = input h \<and> kh_nsp h' = kh_nsp h"
  using message_sent [where h = h and data = "[]" and m = 0 and s = "0x84" and sr = dest
      and d = NSP_NNSE_ADDR_CALC and u = 0 and a = "reqack AND 0xFE" and q = seqno] assms
  by (auto simp: nnse_handle_message_def stream_ack_def)

text \<open>
  A retransmission of the message delivered last is acknowledged and dropped; another message
  is acknowledged and delivered.
\<close>

lemma stream_round:
  assumes "ready h" "incoming_ok NSP_NNSE_SRV_STREAM dest reqack payload" "reqack AND 1 \<noteq> 0" "clean rest"
    and "input h = incoming NSP_NNSE_SRV_STREAM dest reqack seqno payload @ rest"
    and "12 \<le> c_room (kh_cable h)" "12 + length payload < fuel" "length payload \<le> maxsize"
  shows "\<exists>h'. did h (stream_ack dest reqack seqno) h' \<and> input h' = rest
     \<and> kh_nsp h' = (kh_nsp h)\<lparr>ns_rx_buffer := rx h'\<rparr>
     \<and> stream_rounds (Suc n) False bad fuel N maxsize h =
         (if nnse_stream_is_duplicate h (incoming_header NSP_NNSE_SRV_STREAM dest reqack seqno payload)
          then stream_rounds n False bad fuel N maxsize h'
          else (None, Some payload,
                nnse_note_stream_delivered (incoming_header NSP_NNSE_SRV_STREAM dest reqack seqno payload) h'))"
proof -
  let ?hdr = "incoming_header NSP_NNSE_SRV_STREAM dest reqack seqno payload"
  obtain h1 where h1: "recv_message fuel N h = (None, Some (?hdr, payload), h1)" "got h h1" "input h1 = rest"
    using takes_message [OF assms(1,2,5,4,7)] by blast
  have d1: "did h [] h1" using got_did [OF h1(2)] .
  have "to_computer dest" using assms(2) by (simp add: incoming_ok_def)
  then obtain h2 where h2: "nnse_handle_message N ?hdr payload h1 = (None, True, h2)"
      "did h1 (stream_ack dest reqack seqno) h2" "input h2 = input h1" "kh_nsp h2 = kh_nsp h1"
    using stream_handled [of h1 dest reqack seqno payload payload] d1 assms(3,6) by (auto simp: did_def)
  have nsp: "kh_nsp h2 = (kh_nsp h)\<lparr>ns_rx_buffer := rx h2\<rparr>"
    using h2(4) h1(2) by (simp add: got_def rx_def)
  then have "nnse_stream_is_duplicate h2 ?hdr = nnse_stream_is_duplicate h ?hdr"
    by (simp add: nnse_stream_is_duplicate_def)
  then have "stream_rounds (Suc n) False bad fuel N maxsize h =
      (if nnse_stream_is_duplicate h ?hdr then stream_rounds n False bad fuel N maxsize h2
       else (None, Some payload, nnse_note_stream_delivered ?hdr h2))"
    using h1(1) h2(1) assms(8) by (simp add: skipped_def)
  then show ?thesis using did_trans [OF d1 h2(2)] h2(3) h1(3) nsp by fastforce
qed

lemma repetitions_skipped:
  assumes "ready h" "incoming_ok NSP_NNSE_SRV_STREAM dest again old" "again AND 1 \<noteq> 0" "again AND 8 \<noteq> 0"
    and "settled prev (kh_nsp h)" "clean behind"
    and "input h = concat (replicate k (incoming NSP_NNSE_SRV_STREAM dest again prev old)) @ behind"
    and "12 * k \<le> c_room (kh_cable h)" "1484 < fuel" "length old \<le> maxsize"
  shows "\<exists>h'. stream_rounds (k + n) False bad fuel N maxsize h = stream_rounds n False bad fuel N maxsize h'
     \<and> did h (concat (replicate k (stream_ack dest again prev))) h' \<and> input h' = behind
     \<and> kh_nsp h' = (kh_nsp h)\<lparr>ns_rx_buffer := rx h'\<rparr>"
  using assms
proof (induction k arbitrary: h)
  case 0
  then have "did h [] h" by (simp add: did_def)
  then show ?case using 0 by (intro exI [of _ h]) (simp add: rx_def)
next
  case (Suc k)
  let ?hdr = "incoming_header NSP_NNSE_SRV_STREAM dest again prev old"
  let ?rest = "concat (replicate k (incoming NSP_NNSE_SRV_STREAM dest again prev old)) @ behind"
  have cl: "clean ?rest" using clean_incoming [OF Suc.prems(2)] Suc.prems(6) by (cases k) simp_all
  have "12 + length old < fuel" using Suc.prems by (simp add: incoming_ok_def)
  then obtain h1 where h1: "did h (stream_ack dest again prev) h1" "input h1 = ?rest"
      "kh_nsp h1 = (kh_nsp h)\<lparr>ns_rx_buffer := rx h1\<rparr>"
      "stream_rounds (Suc (k + n)) False bad fuel N maxsize h =
         (if nnse_stream_is_duplicate h ?hdr then stream_rounds (k + n) False bad fuel N maxsize h1
          else (None, Some old, nnse_note_stream_delivered ?hdr h1))"
    using stream_round [of h dest again old ?rest prev fuel maxsize "k + n" bad] cl Suc.prems by auto
  have dup: "nnse_stream_is_duplicate h ?hdr" using Suc.prems by (simp add: nnse_stream_is_duplicate_def settled_def)
  have "12 * k \<le> c_room (kh_cable h1)" using h1(1) Suc.prems(8) by (simp add: did_def stream_ack_def)
  then obtain h' where "stream_rounds (k + n) False bad fuel N maxsize h1 = stream_rounds n False bad fuel N maxsize h'"
     "did h1 (concat (replicate k (stream_ack dest again prev))) h'" "input h' = behind"
     "kh_nsp h' = (kh_nsp h1)\<lparr>ns_rx_buffer := rx h'\<rparr>"
    using Suc.IH [OF did_ready [OF h1(1)] Suc.prems(2-4) _ Suc.prems(6) h1(2) _ Suc.prems(9,10)] Suc.prems(5) h1(3) by auto
  then show ?case using h1(3,4) dup did_trans [OF h1(1)] by fastforce
qed

text \<open>A new message ends the reception.\<close>

lemma new_message:
  assumes "ready h" "incoming_ok NSP_NNSE_SRV_STREAM dest reqack payload" "reqack AND 1 \<noteq> 0" "clean rest"
    and "reqack AND 8 = 0 \<or> ns_has_last_stream_seqno (kh_nsp h) \<and> ns_last_stream_seqno (kh_nsp h) \<noteq> seqno"
    and "input h = incoming NSP_NNSE_SRV_STREAM dest reqack seqno payload @ rest"
    and "12 \<le> c_room (kh_cable h)" "1484 < fuel" "length payload \<le> maxsize"
  shows "\<exists>h'. stream_rounds (Suc n) False bad fuel N maxsize h = (None, Some payload, h')
     \<and> did h (stream_ack dest reqack seqno) h' \<and> input h' = rest
     \<and> kh_nsp h' = (kh_nsp h)\<lparr>ns_rx_buffer := rx h', ns_last_stream_seqno := seqno, ns_has_last_stream_seqno := True\<rparr>"
proof -
  let ?hdr = "incoming_header NSP_NNSE_SRV_STREAM dest reqack seqno payload"
  have fuel: "12 + length payload < fuel" using assms(2,8) by (simp add: incoming_ok_def)
  obtain h' where h': "did h (stream_ack dest reqack seqno) h'" "input h' = rest"
      "kh_nsp h' = (kh_nsp h)\<lparr>ns_rx_buffer := rx h'\<rparr>"
      "stream_rounds (Suc n) False bad fuel N maxsize h =
         (if nnse_stream_is_duplicate h ?hdr then stream_rounds n False bad fuel N maxsize h'
          else (None, Some payload, nnse_note_stream_delivered ?hdr h'))"
    using stream_round [OF assms(1-4,6,7) fuel assms(9), of n bad] by blast
  have "\<not> nnse_stream_is_duplicate h ?hdr" using assms(5) by (auto simp: nnse_stream_is_duplicate_def)
  moreover have "did h (stream_ack dest reqack seqno) (nnse_note_stream_delivered ?hdr h')"
    unfolding nnse_note_stream_delivered_def by (rule did_upd [OF h'(1)])
  moreover have "input (nnse_note_stream_delivered ?hdr h') = rest" "rx (nnse_note_stream_delivered ?hdr h') = rx h'"
    using h'(2) by (simp_all add: nnse_note_stream_delivered_def input_def rx_def)
  ultimately show ?thesis using h'(3,4) by (simp add: nnse_note_stream_delivered_def)
qed

text \<open>A reception is its rounds, with the timeout that it sets.\<close>

lemma received:
  assumes "ready h" "ns_handshake_done (kh_nsp h)" "ns_pending (kh_nsp h) = []"
    and "\<And>g. ready g \<Longrightarrow> input g = input h \<Longrightarrow> kh_nsp g = kh_nsp h \<Longrightarrow> c_room (kh_cable g) = c_room (kh_cable h) \<Longrightarrow>
      \<exists>g'. stream_rounds 10 False 0 fuel N 1472 g = (r, x, g') \<and> did g out g' \<and> Q (input g') (kh_nsp g') (rx g')"
  shows "\<exists>h'. nsp_nnse_recv_stream fuel N 1472 h = (r, x, h') \<and> did h out h' \<and> Q (input h') (kh_nsp h') (rx h')"
proof -
  let ?t = "nnse_effective_stream_timeout h" let ?g = "with_timeout ?t h"
  obtain g where g: "stream_rounds 10 False 0 fuel N 1472 ?g = (r, x, g)" "did ?g out g" "Q (input g) (kh_nsp g) (rx g)"
    using assms(4) [of ?g] assms(1) by auto
  obtain h' where "at_timeout N ?t (stream_rounds 10 False 0 fuel N 1472) h = (r, x, h')" "did h out h'"
      "input h' = input g" "kh_nsp h' = kh_nsp g" "rx h' = rx g"
    using at_timeout_did [where f = "stream_rounds 10 False 0 fuel N 1472" and h = h, OF assms(1) g(1,2)] by blast
  then show ?thesis
    using g(3) assms(2,3) by (simp add: nsp_nnse_recv_stream_def nsp_nnse_ensure_ready_def unless_done_def)
qed

text \<open>A reception with ten repetitions ends with an error; one with fewer takes the message behind them.\<close>

lemma repetitions_exhaust:
  assumes "ready h" "incoming_ok NSP_NNSE_SRV_STREAM dest again old" "again AND 1 \<noteq> 0" "again AND 8 \<noteq> 0"
    and "settled prev (kh_nsp h)" "clean behind" "120 \<le> c_room (kh_cable h)" "1484 < fuel"
    and "input h = concat (replicate 10 (incoming NSP_NNSE_SRV_STREAM dest again prev old)) @ behind"
  shows "\<exists>h'. nsp_nnse_recv_stream fuel N 1472 h = (Some ERR_INVALID_PACKET, None, h')
     \<and> did h (concat (replicate 10 (stream_ack dest again prev))) h' \<and> input h' = behind \<and> settled prev (kh_nsp h')"
proof (rule received [where Q = "\<lambda>i s b. i = behind \<and> settled prev s"])
  fix g assume g: "ready g" "input g = input h" "kh_nsp g = kh_nsp h" "c_room (kh_cable g) = c_room (kh_cable h)"
  have "length old \<le> 1472" using assms(2) by (simp add: incoming_ok_def)
  moreover have "settled prev (kh_nsp g)" "12 * 10 \<le> c_room (kh_cable g)" using g assms(5,7) by simp_all
  ultimately obtain g' where "stream_rounds (10 + 0) False 0 fuel N 1472 g = stream_rounds 0 False 0 fuel N 1472 g'"
      "did g (concat (replicate 10 (stream_ack dest again prev))) g'" "input g' = behind"
      "kh_nsp g' = (kh_nsp g)\<lparr>ns_rx_buffer := rx g'\<rparr>"
    using repetitions_skipped [OF g(1) assms(2-4) _ assms(6) g(2) [unfolded assms(9)] _ assms(8)] by blast
  then show "\<exists>g'. stream_rounds 10 False 0 fuel N 1472 g = (Some ERR_INVALID_PACKET, None, g')
      \<and> did g (concat (replicate 10 (stream_ack dest again prev))) g' \<and> input g' = behind \<and> settled prev (kh_nsp g')"
    using \<open>settled prev (kh_nsp g)\<close> by (intro exI [of _ g']) simp
qed (use assms in \<open>simp_all add: settled_def\<close>)

lemma next_delivered:
  assumes "ready h" "incoming_ok NSP_NNSE_SRV_STREAM dest again old" "again AND 1 \<noteq> 0" "again AND 8 \<noteq> 0"
    and "incoming_ok NSP_NNSE_SRV_STREAM dest reqack payload" "reqack AND 1 \<noteq> 0" "prev \<noteq> seqno"
    and "settled prev (kh_nsp h)" "clean rest" "12 * (k + 1) \<le> c_room (kh_cable h)" "1484 < fuel" "k < 10"
    and "input h = concat (replicate k (incoming NSP_NNSE_SRV_STREAM dest again prev old))
                     @ incoming NSP_NNSE_SRV_STREAM dest reqack seqno payload @ rest"
  shows "\<exists>h'. nsp_nnse_recv_stream fuel N 1472 h = (None, Some payload, h')
     \<and> did h (concat (replicate k (stream_ack dest again prev)) @ stream_ack dest reqack seqno) h' \<and> input h' = rest"
proof (rule received [where Q = "\<lambda>i s b. i = rest"])
  fix g assume g: "ready g" "input g = input h" "kh_nsp g = kh_nsp h" "c_room (kh_cable g) = c_room (kh_cable h)"
  have len: "length old \<le> 1472" "length payload \<le> 1472" using assms(2,5) by (simp_all add: incoming_ok_def)
  obtain m where m: "10 = k + Suc m" using assms(12) by (metis less_imp_Suc_add add_Suc_right)
  obtain g1 where g1: "stream_rounds (k + Suc m) False 0 fuel N 1472 g = stream_rounds (Suc m) False 0 fuel N 1472 g1"
      "did g (concat (replicate k (stream_ack dest again prev))) g1"
      "input g1 = incoming NSP_NNSE_SRV_STREAM dest reqack seqno payload @ rest"
      "kh_nsp g1 = (kh_nsp g)\<lparr>ns_rx_buffer := rx g1\<rparr>"
    using repetitions_skipped [of g dest again old prev "incoming NSP_NNSE_SRV_STREAM dest reqack seqno payload @ rest" k
        fuel 1472 "Suc m" 0] g assms len clean_incoming [OF assms(5)] by auto
  have "12 \<le> c_room (kh_cable g1)"
    using g1(2) g(4) assms(10) by (simp add: did_def stream_ack_def length_concat sum_list_replicate)
  moreover have "ns_has_last_stream_seqno (kh_nsp g1) \<and> ns_last_stream_seqno (kh_nsp g1) \<noteq> seqno"
    using assms(7,8) g(3) g1(4) by (simp add: settled_def)
  ultimately obtain g2 where "stream_rounds (Suc m) False 0 fuel N 1472 g1 = (None, Some payload, g2)"
      "did g1 (stream_ack dest reqack seqno) g2" "input g2 = rest"
    using new_message [OF did_ready [OF g1(2)] assms(5,6,9) disjI2 g1(3) _ assms(11) len(2)] by blast
  then show "\<exists>g'. stream_rounds 10 False 0 fuel N 1472 g = (None, Some payload, g')
      \<and> did g (concat (replicate k (stream_ack dest again prev)) @ stream_ack dest reqack seqno) g' \<and> input g' = rest"
    unfolding m g1(1) using did_trans [OF g1(2)] by blast
qed (use assms in \<open>simp_all add: settled_def\<close>)

text \<open>Any number of repetitions: a failed reception for every ten of them.\<close>

lemma repetitions_received:
  assumes "ready h" "incoming_ok NSP_NNSE_SRV_STREAM dest again old" "again AND 1 \<noteq> 0" "again AND 8 \<noteq> 0"
    and "incoming_ok NSP_NNSE_SRV_STREAM dest reqack payload" "reqack AND 1 \<noteq> 0" "prev \<noteq> seqno"
    and "settled prev (kh_nsp h)" "clean rest" "12 * (10 * t + j + 1) \<le> c_room (kh_cable h)" "1484 < fuel" "j < 10"
    and "input h = concat (replicate (10 * t + j) (incoming NSP_NNSE_SRV_STREAM dest again prev old))
                     @ incoming NSP_NNSE_SRV_STREAM dest reqack seqno payload @ rest"
  shows "\<exists>h'. receptions (Suc t) fuel N h = (replicate t (Some ERR_INVALID_PACKET, None) @ [(None, Some payload)], h')
     \<and> did h (concat (replicate (10 * t + j) (stream_ack dest again prev)) @ stream_ack dest reqack seqno) h'
     \<and> input h' = rest"
  using assms
proof (induction t arbitrary: h)
  case 0
  then show ?case using next_delivered [of h dest again old reqack payload prev seqno rest j fuel] by auto
next
  case (Suc t)
  let ?i = "incoming NSP_NNSE_SRV_STREAM dest again prev old" let ?a = "stream_ack dest again prev"
  let ?more = "concat (replicate (10 * t + j) ?i) @ incoming NSP_NNSE_SRV_STREAM dest reqack seqno payload @ rest"
  have cut: "replicate (10 * Suc t + j) y = replicate 10 y @ replicate (10 * t + j) y" for y :: bytes
    by (simp only: replicate_add [symmetric]) simp
  have cl: "clean ?more"
    using clean_incoming [OF Suc.prems(2)] clean_incoming [OF Suc.prems(5)] by (cases "10 * t + j") simp_all
  have inp: "input h = concat (replicate 10 ?i) @ ?more"
    using Suc.prems(13) unfolding cut by (simp only: concat_append append_assoc)
  have "120 \<le> c_room (kh_cable h)" using Suc.prems(10) by simp
  from repetitions_exhaust [OF Suc.prems(1-4,8) cl this Suc.prems(11) inp] obtain h1 where
      h1: "nsp_nnse_recv_stream fuel N 1472 h = (Some ERR_INVALID_PACKET, None, h1)"
      "did h (concat (replicate 10 ?a)) h1" "input h1 = ?more" "settled prev (kh_nsp h1)" by blast
  have "length (concat (replicate 10 ?a)) = 120" by (simp add: stream_ack_def length_concat sum_list_replicate)
  then have "12 * (10 * t + j + 1) \<le> c_room (kh_cable h1)" using h1(2) Suc.prems(10) by (simp only: did_def) simp
  from Suc.IH [OF did_ready [OF h1(2)] Suc.prems(2-7) h1(4) Suc.prems(9) this Suc.prems(11,12) h1(3)] obtain h' where
      h': "receptions (Suc t) fuel N h1 = (replicate t (Some ERR_INVALID_PACKET, None) @ [(None, Some payload)], h')"
      "did h1 (concat (replicate (10 * t + j) ?a) @ stream_ack dest reqack seqno) h'" "input h' = rest" by blast
  have "receptions (Suc (Suc t)) fuel N h
      = (replicate (Suc t) (Some ERR_INVALID_PACKET, None) @ [(None, Some payload)], h')"
    unfolding receptions.simps(2) [of "Suc t"] h1(1) by (simp add: h'(1) del: receptions.simps)
  then show ?case
    using did_trans [OF h1(2) h'(2)] h'(3) unfolding cut by (auto simp only: concat_append append_assoc)
qed

text \<open>Two deliveries, with repetitions of the first message between them.\<close>

lemma delivered_once:
  assumes "ready h" "ns_handshake_done (kh_nsp h)" "ns_pending (kh_nsp h) = []"
    and "incoming_ok NSP_NNSE_SRV_STREAM dest r1 p1" "incoming_ok NSP_NNSE_SRV_STREAM dest r2 p1"
    and "incoming_ok NSP_NNSE_SRV_STREAM dest r3 p2" "clean rest"
    and "r1 AND 1 \<noteq> 0" "r2 AND 1 \<noteq> 0" "r3 AND 1 \<noteq> 0" "r1 AND 8 = 0" "r2 AND 8 \<noteq> 0" "q1 \<noteq> q2"
    and h: "input h = incoming NSP_NNSE_SRV_STREAM dest r1 q1 p1
        @ concat (replicate k (incoming NSP_NNSE_SRV_STREAM dest r2 q1 p1))
        @ incoming NSP_NNSE_SRV_STREAM dest r3 q2 p2 @ rest"
    and room: "12 * (k + 2) \<le> c_room (kh_cable h)" and fuel: "1484 < fuel"
  shows "\<exists>h'. receptions (2 + k div 10) fuel N h
      = ((None, Some p1) # replicate (k div 10) (Some ERR_INVALID_PACKET, None) @ [(None, Some p2)], h')
     \<and> did h (stream_ack dest r1 q1 @ concat (replicate k (stream_ack dest r2 q1)) @ stream_ack dest r3 q2) h'
     \<and> input h' = rest"
proof -
  let ?i2 = "incoming NSP_NNSE_SRV_STREAM dest r2 q1 p1" let ?i3 = "incoming NSP_NNSE_SRV_STREAM dest r3 q2 p2"
  let ?rest = "concat (replicate k ?i2) @ ?i3 @ rest"
  have len: "length p1 \<le> 1472" using assms(4) by (simp add: incoming_ok_def)
  have cl: "clean ?rest" using clean_incoming [OF assms(5)] clean_incoming [OF assms(6)] by (cases k) simp_all
  have "\<exists>g'. stream_rounds 10 False 0 fuel N 1472 g = (None, Some p1, g') \<and> did g (stream_ack dest r1 q1) g'
      \<and> input g' = ?rest \<and> settled q1 (kh_nsp g')"
    if g: "ready g" "input g = input h" "kh_nsp g = kh_nsp h" "c_room (kh_cable g) = c_room (kh_cable h)" for g
  proof -
    have ten: "(10 :: nat) = Suc 9" and "12 \<le> c_room (kh_cable g)" using g(4) room by simp_all
    from new_message [OF g(1) assms(4,8) cl disjI1 [OF assms(11)] g(2) [unfolded h] this(2) fuel len, of 9 0]
    obtain g' where "stream_rounds (Suc 9) False 0 fuel N 1472 g = (None, Some p1, g')" "did g (stream_ack dest r1 q1) g'"
        "input g' = ?rest" "kh_nsp g' = (kh_nsp g)\<lparr>ns_rx_buffer := rx g', ns_last_stream_seqno := q1, ns_has_last_stream_seqno := True\<rparr>"
      by blast
    then show ?thesis unfolding ten using g(3) assms(2,3) by (intro exI [of _ g']) (simp add: settled_def)
  qed
  from received [OF assms(1-3), where Q = "\<lambda>i s b. i = ?rest \<and> settled q1 s", OF this]
  obtain h1 where h1: "nsp_nnse_recv_stream fuel N 1472 h = (None, Some p1, h1)" "did h (stream_ack dest r1 q1) h1"
      "input h1 = ?rest" "settled q1 (kh_nsp h1)" by blast
  have k: "10 * (k div 10) + k mod 10 = k" by simp
  have "12 * (10 * (k div 10) + k mod 10 + 1) \<le> c_room (kh_cable h1)"
    using h1(2) room unfolding k by (simp add: did_def stream_ack_def)
  moreover have "input h1 = concat (replicate (10 * (k div 10) + k mod 10) ?i2) @ ?i3 @ rest" unfolding k by (rule h1(3))
  ultimately obtain h' where h': "receptions (Suc (k div 10)) fuel N h1
        = (replicate (k div 10) (Some ERR_INVALID_PACKET, None) @ [(None, Some p2)], h')"
      "did h1 (concat (replicate k (stream_ack dest r2 q1)) @ stream_ack dest r3 q2) h'" "input h' = rest"
    using repetitions_received [OF did_ready [OF h1(2)] assms(5,9,12,6,10,13) h1(4) assms(7) _ fuel, of "k div 10" "k mod 10"]
    unfolding k by fastforce
  have two: "2 + k div 10 = Suc (Suc (k div 10))" by simp
  have "receptions (2 + k div 10) fuel N h
      = ((None, Some p1) # replicate (k div 10) (Some ERR_INVALID_PACKET, None) @ [(None, Some p2)], h')"
    unfolding two receptions.simps(2) [of "Suc (k div 10)"] h1(1) by (simp add: h'(1) del: receptions.simps)
  then show ?thesis using did_trans [OF h1(2) h'(2)] h'(3) by blast
qed

end

text \<open>What the handle will read next: what it has read ahead, and what is on the link.\<close>

definition to_read :: "('d \<Rightarrow> bytes) \<Rightarrow> 'd calc_handle \<Rightarrow> bytes" where
  "to_read avail h = rx h @ avail (cb_dev (kh_cable h))"

section \<open>On the virtual link\<close>

definition vti_nsp_env :: "vti_dev nsp_env" where
  "vti_nsp_env = \<lparr>ne_calc = vti_env vti_works, ne_now = (\<lambda>_. 0), ne_pause = (\<lambda>d. d), ne_time = (\<lambda>_. 0),
     ne_legacy = None\<rparr>"

interpretation nnse_vti: polled_link vti_put vti_get vti_sent vti_avail vti_room vti_ok "vti_env vti_works"
  vti_nsp_env vti_check
proof
  show "ne_calc vti_nsp_env = vti_env vti_works" by (simp add: vti_nsp_env_def)
  show "cf_check (ce_fncts (vti_env vti_works)) = Some vti_check"
    "cf_timeout (ce_fncts (vti_env vti_works)) = None" by (simp_all add: vti_env_def cable_vti_def)
  show "vti_check d = (None, if vti_avail d = [] then 0 else 1, d)" if "vti_ok d" for d
    using that lb_empty_iff [of "recv_buf d"] by (simp add: vti_check_def vti_avail_def vti_ok_def recv_buf_def)
qed

text \<open>A handle of a calculator that has been associated, with bytes to read.\<close>

definition nnse_handle :: "bytes \<Rightarrow> vti_dev calc_handle" where
  "nnse_handle bs = set_handshake True (vti_handle CALC_NSPIRE_CXII (vti_loaded bs))"

lemma nnse_handle_simps [simp]:
  "length bs \<le> 255 \<Longrightarrow> link_ready vti_ok (nnse_handle bs)" "kh_cable (nnse_handle bs) = kh_cable (vti_handle CALC_NSPIRE_CXII (vti_loaded bs))"
  "kh_nsp (nnse_handle bs) = nsp_reset_state\<lparr>ns_handshake_done := True\<rparr>" "rx (nnse_handle bs) = []"
  by (simp_all add: nnse_handle_def set_handshake_def link_ready_def upd_nsp_def vti_handle_def nsp_reset_state_def rx_def)

text \<open>
  C20: With an association in place, a packet handed to the framing is sent as one message with
  the next sequence number, and the acknowledgement of the calculator, whatever follows it, ends
  the sending: nothing is sent again, and nothing that follows is lost.
\<close>

theorem nnse_stream_sent_once:
  assumes "polled_link send recv sent avail room ok E N check" "link_ready ok h"
    and "ns_handshake_done (kh_nsp h)" "nnse_stream_requires_ack data" "length data \<le> 1472"
    and "incoming_ok 0x84 dest reqack []" "clean rest" "12 < fuel"
    and "to_read avail h = incoming 0x84 dest reqack (ns_seqno (kh_nsp h)) [] @ rest"
    and "12 + length data \<le> room (cb_dev (kh_cable h))"
  shows "\<exists>h'. nsp_nnse_send_stream fuel N data h = (None, h') \<and> link_ready ok h' \<and> to_read avail h' = rest
     \<and> sent (cb_dev (kh_cable h')) = sent (cb_dev (kh_cable h)) @ stream_message 1 (ns_seqno (kh_nsp h)) data
     \<and> ns_seqno (kh_nsp h') = ns_seqno (kh_nsp h) + 1"
proof -
  note p = assms(1)
  note q = polled_link.axioms(1) [OF p]
  have inp: "polled_link.input avail h = to_read avail h" for h
    by (simp add: polled_link.input_def [OF p] to_read_def quiet_link.c_avail_def [OF q])
  have "quiet_link.ready ok h" using assms(2) quiet_link.link_ready_iff [OF q] by blast
  moreover have "12 + length data \<le> quiet_link.c_room room (kh_cable h)"
    using assms(10) by (simp add: quiet_link.c_room_def [OF q])
  ultimately obtain h' where "nsp_nnse_send_stream fuel N data h = (None, h')"
      "polled_link.did sent room ok h (stream_message 1 (ns_seqno (kh_nsp h)) data) h'" "to_read avail h' = rest"
      "kh_nsp h' = (kh_nsp h)\<lparr>ns_seqno := ns_seqno (kh_nsp h) + 1, ns_rx_buffer := rx h'\<rparr>"
    using polled_link.stream_acknowledged [OF p _ assms(3,4,6,7) _ assms(5) _ assms(8)] assms(9) inp by metis
  then show ?thesis
    using quiet_link.link_ready_iff [OF q] by (auto simp: polled_link.did_def [OF p] quiet_link.c_sent_def [OF q])
qed

lemma nnse_stream_sent_once_witness:
  "\<exists>h'. nsp_nnse_send_stream 20 vti_nsp_env [1, 2] (nnse_handle (incoming 0x84 0xFE 0 0 [])) = (None, h')
     \<and> vti_sent (cb_dev (kh_cable h')) = stream_message 1 0 [1, 2]"
proof -
  let ?h = "nnse_handle (incoming 0x84 0xFE 0 0 [])"
  have "incoming_ok 0x84 0xFE 0 []"
    by (simp add: incoming_ok_def nnse_service_plausible_def to_computer_def nnse_reqack_plausible_def)
  then show ?thesis
    using nnse_stream_sent_once [OF nnse_vti.polled_link_axioms, of ?h "[1, 2]" "0xFE" 0 "[]" 20]
    by (auto simp: nnse_stream_requires_ack_def to_read_def nsp_reset_state_def)
qed

text \<open>
  C19: A message that the calculator sends again because it missed the acknowledgement is delivered
  once, however often it is repeated, if the repetitions are marked as such: every one of them is
  acknowledged and none is delivered. A reception takes at most ten of them; for each ten
  one more reception ends with the error of an invalid packet, which delivers nothing and loses nothing, and
  the next one delivers the message that follows.
\<close>

theorem nnse_delivered_once:
  assumes "polled_link send recv sent avail room ok E N check" "link_ready ok h"
    and "ns_handshake_done (kh_nsp h)" "ns_pending (kh_nsp h) = []"
    and "incoming_ok 4 dest r1 p1" "incoming_ok 4 dest r2 p1" "incoming_ok 4 dest r3 p2" "clean rest"
    and "r1 AND 1 \<noteq> 0" "r2 AND 1 \<noteq> 0" "r3 AND 1 \<noteq> 0" "r1 AND 8 = 0" "r2 AND 8 \<noteq> 0" "q1 \<noteq> q2"
    and "1484 < fuel" "12 * (k + 2) \<le> room (cb_dev (kh_cable h))"
    and "to_read avail h = incoming 4 dest r1 q1 p1 @ concat (replicate k (incoming 4 dest r2 q1 p1))
            @ incoming 4 dest r3 q2 p2 @ rest"
  shows "\<exists>h'. receptions (2 + k div 10) fuel N h
       = ((None, Some p1) # replicate (k div 10) (Some ERR_INVALID_PACKET, None) @ [(None, Some p2)], h')
     \<and> link_ready ok h' \<and> to_read avail h' = rest
     \<and> sent (cb_dev (kh_cable h')) = sent (cb_dev (kh_cable h))
         @ stream_ack dest r1 q1 @ concat (replicate k (stream_ack dest r2 q1)) @ stream_ack dest r3 q2"
proof -
  note p = assms(1)
  note q = polled_link.axioms(1) [OF p]
  have inp: "polled_link.input avail h = to_read avail h" for h
    by (simp add: polled_link.input_def [OF p] to_read_def quiet_link.c_avail_def [OF q])
  have "quiet_link.ready ok h" using assms(2) quiet_link.link_ready_iff [OF q] by blast
  moreover have "12 * (k + 2) \<le> quiet_link.c_room room (kh_cable h)"
    using assms(16) by (simp add: quiet_link.c_room_def [OF q])
  ultimately obtain h' where "receptions (2 + k div 10) fuel N h
        = ((None, Some p1) # replicate (k div 10) (Some ERR_INVALID_PACKET, None) @ [(None, Some p2)], h')"
      "to_read avail h' = rest" "polled_link.did sent room ok h
        (stream_ack dest r1 q1 @ concat (replicate k (stream_ack dest r2 q1)) @ stream_ack dest r3 q2) h'"
    using polled_link.delivered_once [OF p _ assms(3-14) _ _ assms(15)] assms(17) inp by metis
  then show ?thesis
    using quiet_link.link_ready_iff [OF q] by (auto simp: polled_link.did_def [OF p] quiet_link.c_sent_def [OF q])
qed

lemma nnse_delivered_once_witness:
  "\<exists>h'. receptions 3 1500 vti_nsp_env
        (nnse_handle (incoming 4 0xFE 1 7 [1] @ concat (replicate 11 (incoming 4 0xFE 9 7 [1])) @ incoming 4 0xFE 1 8 [2]))
      = ([(None, Some [1]), (Some ERR_INVALID_PACKET, None), (None, Some [2])], h')"
proof -
  let ?h = "nnse_handle (incoming 4 0xFE 1 7 [1] @ concat (replicate 11 (incoming 4 0xFE 9 7 [1])) @ incoming 4 0xFE 1 8 [2])"
  have ok: "incoming_ok 4 0xFE r [b]" if "r = 1 \<or> r = 9" for r b
    using that by (auto simp: incoming_ok_def nnse_service_plausible_def to_computer_def nnse_reqack_plausible_def)
  have "link_ready vti_ok ?h" "240 \<le> vti_room (cb_dev (kh_cable ?h))" "to_read vti_avail ?h = incoming 4 0xFE 1 7 [1]
      @ concat (replicate 11 (incoming 4 0xFE 9 7 [1])) @ incoming 4 0xFE 1 8 [2] @ []"
    by (simp_all add: to_read_def length_concat sum_list_replicate)
  then show ?thesis
    using nnse_delivered_once [OF nnse_vti.polled_link_axioms, of ?h "0xFE" 1 "[1]" 9 1 "[2]" "[]" 7 8 1500 11] ok
    by (simp add: nsp_reset_state_def del: receptions.simps) blast
qed

end
