(* ===== verification/NspRpkt.thy ===== *)
theory NspRpkt
  imports NspNnse Checksum
begin

text \<open>
  \<^verbatim>\<open>libticalcs/trunk/src/nsp_rpkt.cc\<close>, the raw packets of the NSpire protocol (NavNet): a header of
  sixteen bytes with a checksum, a CRC of the data, and up to 254 bytes of data. On the CX II the
  packets travel in the streams of \<open>NspNnse\<close>, where a packet may be longer; it is split into
  packets of the usual size when it is received. The texts of the log are not modelled.
\<close>

section \<open>Packets\<close>

record nsp_raw =
  np_unused :: u16
  np_src_addr :: u16
  np_src_port :: u16
  np_dst_addr :: u16
  np_dst_port :: u16
  np_data_sum :: u16
  np_data_size :: u8
  np_ack :: u8
  np_seq :: u8
  np_hdr_sum :: u8
  np_data :: bytes

text \<open>A packet cleared with \<^verbatim>\<open>memset\<close>.\<close>

definition nsp_zero :: nsp_raw where
  "nsp_zero = \<lparr>np_unused = 0, np_src_addr = 0, np_src_port = 0, np_dst_addr = 0, np_dst_port = 0,
     np_data_sum = 0, np_data_size = 0, np_ack = 0, np_seq = 0, np_hdr_sum = 0, np_data = replicate 254 0\<rparr>"

section \<open>Names\<close>

fun name_of :: "(u16 \<times> string) list \<Rightarrow> u16 \<Rightarrow> string" where
  "name_of [] k = ''''"
| "name_of ((i, name) # xs) k = (if k = i then name else name_of xs k)"

definition nspaddrs :: "(u16 \<times> string) list" where
  "nspaddrs = [(0x0000, ''TI''), (0x6400, ''PC''), (0x6401, ''TI'')]"

definition nspsids :: "(u16 \<times> string) list" where
  "nspsids =
    [(0x00FE, ''Reception Acknowledgment''),
     (0x00FF, ''Reception Ack''),
     (0x4001, ''Null''),
     (0x4002, ''Echo''),
     (0x4003, ''Device Address Request/Assignment''),
     (0x4020, ''Device Information''),
     (0x4021, ''Screen Capture''),
     (0x4024, ''Screen Capture w/ RLE''),
     (0x4042, ''Keypresses''),
     (0x4050, ''Login''),
     (0x4051, ''Messages''),
     (0x4060, ''File Management''),
     (0x4070, ''TI-Robot''),
     (0x4080, ''OS Installation''),
     (0x4090, ''Remote Management''),
     (0x40DE, ''Service Disconnect''),
     (0x8003, ''8003''), (0x8004, ''8004''), (0x8005, ''8005''),
     (0x8006, ''8006''), (0x8007, ''8007''), (0x8009, ''8009'')]"

definition nsp_addr2name :: "u16 \<Rightarrow> string" where
  "nsp_addr2name = name_of nspaddrs"

definition nsp_sid2name :: "u16 \<Rightarrow> string" where
  "nsp_sid2name = name_of nspsids"

section \<open>Building packets\<close>

definition nsp_init_reply :: "nsp_raw \<Rightarrow> nsp_raw" where
  "nsp_init_reply request =
     nsp_zero\<lparr>np_src_addr := np_dst_addr request, np_src_port := np_dst_port request,
              np_dst_addr := np_src_addr request, np_dst_port := np_src_port request\<rparr>"

definition nsp_header_checksum :: "bytes \<Rightarrow> u8" where
  "nsp_header_checksum data = ucast (tifiles_checksum (take 15 data) AND 0xff)"

text \<open>The header, written out three times in the sources.\<close>

definition nsp_pack_header :: "u16 \<Rightarrow> u16 \<Rightarrow> u16 \<Rightarrow> u16 \<Rightarrow> u16 \<Rightarrow> u8 \<Rightarrow> u8 \<Rightarrow> u8 \<Rightarrow> bytes" where
  "nsp_pack_header src_addr src_port dst_addr dst_port data_sum data_size ack seq =
     (let buf = [0x54, 0xFD, MSB src_addr, LSB src_addr, MSB src_port, LSB src_port,
                 MSB dst_addr, LSB dst_addr, MSB dst_port, LSB dst_port,
                 MSB data_sum, LSB data_sum, data_size, ack, seq]
      in buf @ [nsp_header_checksum buf])"

definition nsp_pack_raw_message :: "nsp_raw \<Rightarrow> bytes \<Rightarrow> bytes" where
  "nsp_pack_raw_message pkt data =
     nsp_pack_header (np_src_addr pkt) (np_src_port pkt) (np_dst_addr pkt) (np_dst_port pkt)
       (compute_crc data) (of_nat (length data)) (np_ack pkt) (np_seq pkt) @ data"

section \<open>Splitting\<close>

text \<open>
  The data of an extended packet, \<open>n\<close> bytes that should be at \<open>data\<close>, in packets of at most 253
  bytes and the command byte; one without data ends the list when the last one is full.
\<close>

function queue_chunks :: "nsp_raw \<Rightarrow> u8 \<Rightarrow> bytes \<Rightarrow> nat \<Rightarrow> 'd calc_handle \<Rightarrow> ret \<times> 'd calc_handle" where
  "queue_chunks pkt cmd data n h =
     (if n = 0 then (None, h)
      else (let k = min 253 n
            in if length data < k then (Some UNDEFINED_BEHAVIOUR, h)
               else andthen (nsp_nnse_queue_stream (nsp_pack_raw_message pkt (cmd # take k data)) h)
                      (queue_chunks pkt cmd (drop k data) (n - k))))"
  by pat_completeness auto
termination by (relation "measure (\<lambda>(pkt, cmd, data, n, h). n)") auto

declare queue_chunks.simps [simp del]

definition nsp_queue_nnse_split_packet ::
    "nsp_raw \<Rightarrow> u8 \<Rightarrow> bytes \<Rightarrow> nat \<Rightarrow> 'd calc_handle \<Rightarrow> ret \<times> 'd calc_handle" where
  "nsp_queue_nnse_split_packet pkt cmd data n h =
     andthen (queue_chunks pkt cmd data n h) (\<lambda>h.
       if 0 < n \<and> n mod 253 = 0 then nsp_nnse_queue_stream (nsp_pack_raw_message pkt [cmd]) h
       else (None, h))"

section \<open>Sending\<close>

abbreviation (input) NSP_PORT_PKT_NACK :: u16 where "NSP_PORT_PKT_NACK \<equiv> 0x00D3"
abbreviation (input) NSP_PORT_PKT_ACK1 :: u16 where "NSP_PORT_PKT_ACK1 \<equiv> 0x00FE"
abbreviation (input) NSP_PORT_PKT_ACK2 :: u16 where "NSP_PORT_PKT_ACK2 \<equiv> 0x00FF"

definition ack_port :: "u16 \<Rightarrow> bool" where
  "ack_port port \<longleftrightarrow> port = NSP_PORT_PKT_ACK1 \<or> port = NSP_PORT_PKT_ACK2"

definition control_port :: "u16 \<Rightarrow> bool" where
  "control_port port \<longleftrightarrow> ack_port port \<or> port = NSP_PORT_PKT_NACK"

definition raw_event :: "nsp_raw \<Rightarrow> calc_event_data" where
  "raw_event pkt = NSPRawPacketData (np_src_addr pkt) (np_src_port pkt) (np_dst_addr pkt) (np_dst_port pkt)
     (np_data_sum pkt) (np_data_size pkt) (np_ack pkt) (np_seq pkt) (np_hdr_sum pkt) (np_data pkt)"

text \<open>Sums, acknowledgement flag and sequence number of a packet about to be sent.\<close>

definition numbered :: "bool \<Rightarrow> nsp_raw \<Rightarrow> 'd calc_handle \<Rightarrow> nsp_raw \<times> 'd calc_handle" where
  "numbered is_nnse pkt h =
     (let pkt = pkt\<lparr>np_data_sum := compute_crc (take (unat (np_data_size pkt)) (np_data pkt))\<rparr>
      in if control_port (np_src_port pkt) then (pkt\<lparr>np_ack := 0x0a, np_seq := ns_seq (kh_nsp h)\<rparr>, h)
         else if is_nnse then (pkt\<lparr>np_seq := 0\<rparr>, h)
         else
           (let h = (if ns_seq_pc (kh_nsp h) = 0 then upd_nsp (\<lambda>s. s\<lparr>ns_seq_pc := 1\<rparr>) h else h)
            in (pkt\<lparr>np_seq := ns_seq_pc (kh_nsp h)\<rparr>, h)))"

definition raw_header :: "nsp_raw \<Rightarrow> bytes" where
  "raw_header pkt =
     nsp_pack_header (np_src_addr pkt) (np_src_port pkt) (np_dst_addr pkt) (np_dst_port pkt)
       (np_data_sum pkt) (np_data_size pkt) (np_ack pkt) (np_seq pkt)"

definition nsp_send ::
    "nat \<Rightarrow> 'd nsp_env \<Rightarrow> nsp_raw \<Rightarrow> 'd calc_handle \<Rightarrow> ret \<times> nsp_raw \<times> 'd calc_handle" where
  "nsp_send fuel N pkt h = with_busy_val h (\<lambda>h.
     (let (is_nnse, h) = nsp_nnse_enabled N h
      in if is_nnse \<and> ack_port (np_src_port pkt) then (None, pkt, h)
         else
           (let (r, h) = fire (ne_calc N) CALC_EVENT_TYPE_BEFORE_SEND_NSP_RPKT None (raw_event pkt) h;
                (r, pkt, h) =
                  (if r \<noteq> None then (r, pkt, h)
                   else if length (np_data pkt) < unat (np_data_size pkt) then (Some UNDEFINED_BEHAVIOUR, pkt, h)
                   else
                     (let (pkt, h) = numbered is_nnse pkt h; header = raw_header pkt;
                          pkt = pkt\<lparr>np_hdr_sum := header ! 15\<rparr>;
                          buf = header @ take (unat (np_data_size pkt)) (np_data pkt); h = progress_reset h;
                          (r, h) = andthen (if is_nnse then nsp_nnse_send_stream fuel N buf h
                                            else cable_send (ne_calc N) buf h) check_cancel
                      in (r, pkt, h)));
                (r, h) = fire (ne_calc N) CALC_EVENT_TYPE_AFTER_SEND_NSP_RPKT r (raw_event pkt) h
            in (r, pkt, h))))"

section \<open>Receiving\<close>

definition header_fields :: "bytes \<Rightarrow> nsp_raw \<Rightarrow> nsp_raw" where
  "header_fields buf pkt =
     pkt\<lparr>np_unused := word_at buf 0, np_src_addr := word_at buf 2, np_src_port := word_at buf 4,
         np_dst_addr := word_at buf 6, np_dst_port := word_at buf 8, np_data_sum := word_at buf 10,
         np_data_size := buf ! 12, np_ack := buf ! 13, np_seq := buf ! 14, np_hdr_sum := buf ! 15\<rparr>"

definition count_seq :: "u16 \<Rightarrow> u8 \<Rightarrow> 'd calc_handle \<Rightarrow> 'd calc_handle" where
  "count_seq src_port seq =
     upd_nsp (\<lambda>s. if control_port src_port then s\<lparr>ns_seq_pc := ns_seq_pc s + 1\<rparr> else s\<lparr>ns_seq := seq\<rparr>)"

definition store_data :: "bytes \<Rightarrow> nsp_raw \<Rightarrow> nsp_raw" where
  "store_data bs pkt = pkt\<lparr>np_data := bs @ drop (length bs) (np_data pkt)\<rparr>"

text \<open>
  The contents of an extended packet. The size in the packet is added to 20 in 32 bits before it
  is compared with the size of the message.
\<close>

definition extended_contents :: "bytes \<Rightarrow> nsp_raw \<Rightarrow> 'd calc_handle \<Rightarrow> ret \<times> nsp_raw \<times> 'd calc_handle" where
  "extended_contents msg pkt h =
     (if length msg < 20 then (Some ERR_INVALID_PACKET, pkt, h)
      else
        (let ext_size = be32 (msg ! 16) (msg ! 17) (msg ! 18) (msg ! 19)
         in if ext_size < 1 \<or> of_nat (length msg) < ext_size + 16 + 4 then (Some ERR_INVALID_PACKET, pkt, h)
            else
              (let n = unat ext_size - 1; first = min 253 n
               in if length msg < 21 + first then (Some UNDEFINED_BEHAVIOUR, pkt, h)
                  else
                    (let cmd = msg ! 20; ext_data = drop 21 msg;
                         pkt = store_data (cmd # take first ext_data) pkt;
                         pkt = pkt\<lparr>np_data_size := of_nat (first + 1),
                                   np_data_sum := compute_crc (take (first + 1) (np_data pkt))\<rparr>;
                         (r, h) = (if first < n
                                   then nsp_queue_nnse_split_packet pkt cmd (drop first ext_data) (n - first) h
                                   else if first + 1 = 254
                                   then nsp_nnse_queue_stream (nsp_pack_raw_message pkt [cmd]) h
                                   else (None, h))
                     in (r, pkt, h)))))"

definition nnse_contents :: "bytes \<Rightarrow> nsp_raw \<Rightarrow> 'd calc_handle \<Rightarrow> ret \<times> nsp_raw \<times> 'd calc_handle" where
  "nnse_contents msg pkt h =
     (if np_data_size pkt = 0xFF then extended_contents msg pkt h
      else if length msg < unat (np_data_size pkt) + 16 then (Some ERR_INVALID_PACKET, pkt, h)
      else (None, store_data (take (unat (np_data_size pkt)) (drop 16 msg)) pkt, h))"

text \<open>The rounds skip packets for other ports, with everything queued; their number is limited by fuel.\<close>

fun nsp_recv_nnse ::
    "nat \<Rightarrow> nat \<Rightarrow> 'd nsp_env \<Rightarrow> nsp_raw \<Rightarrow> 'd calc_handle \<Rightarrow> ret \<times> nsp_raw \<times> 'd calc_handle" where
  "nsp_recv_nnse 0 fuel N pkt h = (Some OUT_OF_FUEL, pkt, h)"
| "nsp_recv_nnse (Suc n) fuel N pkt h =
     (let (r, msg, h) = nsp_nnse_recv_stream fuel N 1472 h
      in case (r, msg) of
           (None, Some msg) \<Rightarrow>
             if length msg < 16 then (Some ERR_INVALID_PACKET, pkt, h)
             else
               (let pkt = header_fields msg pkt
                in if \<not> nsp_nnse_port_matches h (np_dst_port pkt)
                   then nsp_recv_nnse n fuel N pkt (nsp_nnse_drop_queued_streams h)
                   else
                     (let (r, pkt, h) = nnse_contents msg pkt h
                      in if r \<noteq> None then (r, pkt, h)
                         else (let (r, h) = check_cancel (count_seq (np_src_port pkt) (np_seq pkt) h)
                               in (r, pkt, h))))
         | _ \<Rightarrow> (r, pkt, h))"

definition nsp_recv_legacy :: "'d nsp_env \<Rightarrow> nsp_raw \<Rightarrow> 'd calc_handle \<Rightarrow> ret \<times> nsp_raw \<times> 'd calc_handle" where
  "nsp_recv_legacy N pkt h =
     (let (r, buf, h) = cable_recv (ne_calc N) 16 h
      in if r \<noteq> None then (r, pkt, h)
         else
           (let pkt = header_fields buf pkt
            in if 254 < np_data_size pkt then (Some ERR_INVALID_PACKET, pkt, h)
               else
                 (let h = count_seq (np_src_port pkt) (np_seq pkt) h;
                      (r, pkt, h) =
                        (if np_data_size pkt = 0 then (None, pkt, h)
                         else (let (r, bs, h) = cable_recv (ne_calc N) (unat (np_data_size pkt)) h
                               in (r, store_data bs pkt, h)))
                  in if r \<noteq> None then (r, pkt, h)
                     else (let (r, h) = check_cancel h in (r, pkt, h)))))"

definition nsp_recv ::
    "nat \<Rightarrow> 'd nsp_env \<Rightarrow> nsp_raw \<Rightarrow> 'd calc_handle \<Rightarrow> ret \<times> nsp_raw \<times> 'd calc_handle" where
  "nsp_recv fuel N pkt h = with_busy_val h (\<lambda>h.
     (let (r, h) = fire (ne_calc N) CALC_EVENT_TYPE_BEFORE_RECV_NSP_RPKT None
            (NSPRawPacketData 0 0 0 0 0 0 0 0 0 (np_data pkt)) h;
          (r, pkt, h) =
            (if r \<noteq> None then (r, pkt, h)
             else
               (let (is_nnse, h) = nsp_nnse_enabled N (progress_reset h)
                in if is_nnse then nsp_recv_nnse fuel fuel N pkt h else nsp_recv_legacy N pkt h));
          (r, h) = fire (ne_calc N) CALC_EVENT_TYPE_AFTER_RECV_NSP_RPKT r (raw_event pkt) h
      in (r, pkt, h)))"

section \<open>Printing\<close>

definition ep_way :: "u8 \<Rightarrow> string" where
  "ep_way ep = (if ep = 1 then ''TI>PC'' else if ep = 2 then ''PC>TI'' else ''XX>XX'')"

definition hex_u16 :: "u16 \<Rightarrow> string" where "hex_u16 w = hex_pad 4 (unat w)"
definition hex_u8 :: "u8 \<Rightarrow> string" where "hex_u8 b = hex_pad 2 (unat b)"

text \<open>Bytes with a space after each and a line break after every sixteenth; \<open>i\<close> have been printed.\<close>

fun dump_bytes :: "nat \<Rightarrow> bytes \<Rightarrow> string" where
  "dump_bytes i [] = []"
| "dump_bytes i (b # bs) =
     hex_u8 b @ '' '' @ (if (i + 1) mod 16 = 0 then [newline, tab, tab] else []) @ dump_bytes (i + 1) bs"

definition place_text :: "u16 \<Rightarrow> u16 \<Rightarrow> string" where
  "place_text addr port =
     hex_u16 addr @ '' - '' @ nsp_addr2name addr @ '' ('' @ hex_u16 port @ '' - '' @ nsp_sid2name port @ '')''"

definition dissect_heading :: "bytes \<Rightarrow> u32 \<Rightarrow> u8 \<Rightarrow> string" where
  "dissect_heading data len ep =
     hex_pad 8 (unat len) @ [tab] @ ''| '' @ ep_way ep @ '': ''
       @ place_text (word_at data 2) (word_at data 4) @ '' -> ''
       @ place_text (word_at data 6) (word_at data 8) @ [newline, tab] @ ''  unused='' @ hex_u16 (word_at data 0)
       @ '' ack='' @ hex_u8 (data ! 13) @ '' seq='' @ hex_u8 (data ! 14) @ '' header_checksum='' @ hex_u8 (data ! 15)
       @ '' data_checksum='' @ hex_u16 (word_at data 10) @ '' ('' @ to_dec (unat (data ! 12)) @ '' bytes)''
       @ [newline, tab] @ ''  cmd='' @ hex_u8 (data ! 16) @ [newline]"

definition dissect_sums :: "bytes \<Rightarrow> u32 \<Rightarrow> string" where
  "dissect_sums data len =
     (let hdr_sum = ucast (tifiles_checksum (take 15 data)) :: u8;
          data_sum = tifiles_checksum (take (unat len) data)
      in [tab] @ ''  computed_hdr_sum='' @ hex_u8 hdr_sum @ '' computed_data_sum='' @ hex_u16 data_sum @ [newline]
         @ (if hdr_sum \<noteq> data ! 15 \<or> data_sum \<noteq> word_at data 10
            then [tab] @ ''  (NOTE: header and/or data sum do not match header)'' @ [newline] else []))"

definition nsp_dissect :: "bytes \<Rightarrow> u32 \<Rightarrow> u8 \<Rightarrow> ret \<times> string" where
  "nsp_dissect data len ep =
     (if len < 17 \<or> 271 < len then (Some ERR_INVALID_PACKET, [])
      else if length data < unat len then (Some UNDEFINED_BEHAVIOUR, [])
      else
        (let head = dissect_heading data len ep
         in if 254 < data ! 12 \<or> len \<noteq> ucast (data ! 12) + 16 then (Some ERR_INVALID_PACKET, head)
            else (None, head @ dissect_sums data len @ [tab, tab]
                          @ dump_bytes 0 (drop 17 (take (unat len) data)) @ [newline])))"

end
