(* ===== verification/NspVpkt.thy ===== *)
theory NspVpkt
  imports NspRpkt
begin

text \<open>
  \<^verbatim>\<open>libticalcs/trunk/src/nsp_vpkt.cc\<close>: virtual packets of any size, in raw packets of 254 bytes
  that are acknowledged one by one, or on the CX II in packets of up to 1440 bytes; sessions,
  addresses, acknowledgements and disconnections. The texts of the log are not modelled.
\<close>

section \<open>Packets in streams\<close>

record nsp_parsed =
  pp_src_addr :: u16
  pp_src_port :: u16
  pp_dst_addr :: u16
  pp_dst_port :: u16
  pp_data_sum :: u16
  pp_data_size :: u8
  pp_ack :: u8
  pp_seq :: u8
  pp_hdr_sum :: u8
  pp_data :: bytes
  pp_logical_data_size :: nat
  pp_wire_data_size :: nat
  pp_raw_size :: nat

abbreviation (input) NSP_NNSE_DATA_SIZE :: nat where "NSP_NNSE_DATA_SIZE \<equiv> 1440"

text \<open>
  Where the data begins and how many bytes of it there should be. A size in the packet is used
  after it was compared with the limit, so that nothing wraps around.
\<close>

definition data_place :: "bytes \<Rightarrow> (nat \<times> u32) option" where
  "data_place msg =
     (if msg ! 12 = 0xFF then
        if length msg < 20 then None else Some (20, be32 (msg ! 16) (msg ! 17) (msg ! 18) (msg ! 19))
      else Some (16, ucast (msg ! 12)))"

definition nsp_parse_raw_packet :: "bytes \<Rightarrow> ret \<times> nsp_parsed option" where
  "nsp_parse_raw_packet msg =
     (if length msg < 16 then (Some ERR_INVALID_PACKET, None)
      else if msg ! 0 \<noteq> 0x54 \<or> msg ! 1 \<noteq> 0xFD \<or> msg ! 15 \<noteq> nsp_header_checksum msg
      then (Some ERR_INVALID_PACKET, None)
      else
        (case data_place msg of
           None \<Rightarrow> (Some ERR_INVALID_PACKET, None)
         | Some (start, logical) \<Rightarrow>
             if logical < 1 \<or> 1440 < logical then (Some ERR_INVALID_PACKET, None)
             else
               (let wire = unat logical + (start - 16)
                in if length msg < 16 + wire then (Some ERR_INVALID_PACKET, None)
                   else if word_at msg 10 \<noteq> nsp_compute_crc (take wire (drop 16 msg))
                   then (Some ERR_CHECKSUM, None)
                   else
                     (None, Some
                        \<lparr>pp_src_addr = word_at msg 2, pp_src_port = word_at msg 4, pp_dst_addr = word_at msg 6,
                         pp_dst_port = word_at msg 8, pp_data_sum = word_at msg 10, pp_data_size = msg ! 12,
                         pp_ack = msg ! 13, pp_seq = msg ! 14, pp_hdr_sum = msg ! 15,
                         pp_data = drop start msg, pp_logical_data_size = unat logical,
                         pp_wire_data_size = wire, pp_raw_size = 16 + wire\<rparr>))))"

text \<open>The first place from \<open>i\<close> on where a packet can be parsed; \<open>saw\<close> tells of one with a wrong CRC.\<close>

fun find_boundary :: "bytes \<Rightarrow> nat \<Rightarrow> bool \<Rightarrow> ret \<times> (nsp_parsed \<times> nat) option" where
  "find_boundary [] i saw = (Some (if saw then ERR_CHECKSUM else ERR_INVALID_PACKET), None)"
| "find_boundary (b # bs) i saw =
     (if length (b # bs) < 16 then (Some (if saw then ERR_CHECKSUM else ERR_INVALID_PACKET), None)
      else if b \<noteq> 0x54 \<or> bs ! 0 \<noteq> 0xFD then find_boundary bs (i + 1) saw
      else (case nsp_parse_raw_packet (b # bs) of
              (None, Some pkt) \<Rightarrow> (None, Some (pkt, i))
            | (r, _) \<Rightarrow> find_boundary bs (i + 1) (saw \<or> r = Some ERR_CHECKSUM)))"

definition nsp_find_raw_packet_boundary :: "bytes \<Rightarrow> ret \<times> (nsp_parsed \<times> nat) option" where
  "nsp_find_raw_packet_boundary msg = find_boundary msg 0 False"

abbreviation (input) NSP_SRC_ADDR :: u16 where "NSP_SRC_ADDR \<equiv> 0x6400"
abbreviation (input) NSP_DEV_ADDR :: u16 where "NSP_DEV_ADDR \<equiv> 0x6401"
abbreviation (input) NSP_PORT_ADDR_REQUEST :: u16 where "NSP_PORT_ADDR_REQUEST \<equiv> 0x4003"
abbreviation (input) NSP_PORT_ADDR_ASSIGN :: u16 where "NSP_PORT_ADDR_ASSIGN \<equiv> 0x4003"
abbreviation (input) NSP_PORT_DISCONNECT :: u16 where "NSP_PORT_DISCONNECT \<equiv> 0x40DE"

text \<open>The packet that goes into a stream; with 255 bytes of data or more it has an extended size.\<close>

definition nnse_raw_message :: "nsp_raw \<Rightarrow> bytes \<Rightarrow> bytes" where
  "nnse_raw_message raw data =
     (let n = of_nat (length data) :: u32;
          wire_data = (if 0xFF \<le> length data
            then [ucast (drop_bit 24 n), ucast (drop_bit 16 n), ucast (drop_bit 8 n), ucast n] @ data else data);
          header_data_size = (if 0xFF \<le> length data then 0xFF else of_nat (length data))
      in nsp_pack_header (np_src_addr raw) (np_src_port raw) (np_dst_addr raw) (np_dst_port raw)
           (nsp_compute_crc wire_data) header_data_size (np_ack raw) (np_seq raw) @ wire_data)"

definition nsp_nnse_send_raw_data ::
    "nat \<Rightarrow> 'd nsp_env \<Rightarrow> nsp_raw \<Rightarrow> bytes \<Rightarrow> 'd calc_handle \<Rightarrow> ret \<times> 'd calc_handle" where
  "nsp_nnse_send_raw_data fuel N raw data h =
     (if data = [] \<or> NSP_NNSE_DATA_SIZE < length data then (Some ERR_INVALID_PARAMETER, h)
      else nsp_nnse_send_stream fuel N (nnse_raw_message raw data) h)"

definition nsp_nnse_send_control_for_parsed ::
    "nat \<Rightarrow> 'd nsp_env \<Rightarrow> nsp_parsed \<Rightarrow> u16 \<Rightarrow> 'd calc_handle \<Rightarrow> ret \<times> 'd calc_handle" where
  "nsp_nnse_send_control_for_parsed fuel N packet port h =
     nsp_nnse_send_raw_data fuel N
       (nsp_zero\<lparr>np_src_addr := NSP_SRC_ADDR, np_src_port := port, np_dst_addr := NSP_DEV_ADDR,
                 np_dst_port := pp_src_port packet, np_ack := 0x0A, np_seq := pp_seq packet\<rparr>)
       [MSB (pp_dst_port packet), LSB (pp_dst_port packet)] h"

definition nsp_nnse_send_ack_for_parsed ::
    "nat \<Rightarrow> 'd nsp_env \<Rightarrow> nsp_parsed \<Rightarrow> 'd calc_handle \<Rightarrow> ret \<times> 'd calc_handle" where
  "nsp_nnse_send_ack_for_parsed fuel N packet h =
     nsp_nnse_send_control_for_parsed fuel N packet
       (if pp_seq packet = 0 then NSP_PORT_PKT_ACK1 else NSP_PORT_PKT_ACK2) h"

definition nsp_nnse_send_noapp_for_parsed ::
    "nat \<Rightarrow> 'd nsp_env \<Rightarrow> nsp_parsed \<Rightarrow> 'd calc_handle \<Rightarrow> ret \<times> 'd calc_handle" where
  "nsp_nnse_send_noapp_for_parsed fuel N packet h =
     nsp_nnse_send_control_for_parsed fuel N packet NSP_PORT_PKT_NACK h"

definition nsp_nnse_handle_stale_packet ::
    "nat \<Rightarrow> 'd nsp_env \<Rightarrow> nsp_parsed \<Rightarrow> 'd calc_handle \<Rightarrow> ret \<times> 'd calc_handle" where
  "nsp_nnse_handle_stale_packet fuel N packet h =
     (if pp_ack packet \<noteq> 0 \<or> pp_logical_data_size packet = 0 then (None, h)
      else if pp_src_port packet = NSP_PORT_DISCONNECT \<or> pp_dst_port packet = NSP_PORT_DISCONNECT
            \<or> 0x8000 \<le> pp_dst_port packet
      then nsp_nnse_send_ack_for_parsed fuel N packet h
      else nsp_nnse_send_noapp_for_parsed fuel N packet h)"

text \<open>
  The packets in the rest of a message, \<open>n\<close> of them at most; every round takes sixteen bytes or
  more, so that the length of the message is enough.
\<close>

fun queue_trailing :: "nat \<Rightarrow> nat \<Rightarrow> 'd nsp_env \<Rightarrow> bytes \<Rightarrow> 'd calc_handle \<Rightarrow> ret \<times> 'd calc_handle" where
  "queue_trailing 0 fuel N msg h = (if msg = [] then None else Some OUT_OF_FUEL, h)"
| "queue_trailing (Suc n) fuel N msg h =
     (if msg = [] then (None, h)
      else
        (case nsp_find_raw_packet_boundary msg of
           (None, Some (tail, boundary)) \<Rightarrow>
             (let msg = drop boundary msg
              in andthen
                   (if nsp_nnse_port_matches h (pp_dst_port tail)
                    then nsp_nnse_queue_stream (take (pp_raw_size tail) msg) h
                    else nsp_nnse_handle_stale_packet fuel N tail h)
                   (queue_trailing n fuel N (drop (pp_raw_size tail) msg)))
         | _ \<Rightarrow> (None, h)))"

definition nsp_nnse_queue_trailing_packets ::
    "nat \<Rightarrow> 'd nsp_env \<Rightarrow> bytes \<Rightarrow> 'd calc_handle \<Rightarrow> ret \<times> 'd calc_handle" where
  "nsp_nnse_queue_trailing_packets fuel N msg h = queue_trailing (length msg) fuel N msg h"

text \<open>Rounds until there is a packet for the current port; their number is limited by the first argument.\<close>

fun recv_raw_rounds ::
    "nat \<Rightarrow> nat \<Rightarrow> 'd nsp_env \<Rightarrow> 'd calc_handle \<Rightarrow> ret \<times> nsp_parsed option \<times> 'd calc_handle" where
  "recv_raw_rounds 0 fuel N h = (Some OUT_OF_FUEL, None, h)"
| "recv_raw_rounds (Suc n) fuel N h =
     (case nsp_nnse_recv_stream fuel N 1472 h of
        (None, Some msg, h) \<Rightarrow>
          (case nsp_find_raw_packet_boundary msg of
             (None, Some (pkt, offset)) \<Rightarrow>
               (let last = offset + pp_raw_size pkt;
                    (r, h) = (if last < length msg
                              then nsp_nnse_queue_trailing_packets fuel N (drop last msg) h else (None, h))
                in if r \<noteq> None then (r, None, h)
                   else if nsp_nnse_port_matches h (pp_dst_port pkt)
                   then (None, Some pkt, count_seq (pp_src_port pkt) (pp_seq pkt) h)
                   else
                     (let (r, h) = nsp_nnse_handle_stale_packet fuel N pkt h
                      in if r \<noteq> None then (r, None, h)
                         else if pp_ack pkt = 0 \<and> 0 < pp_logical_data_size pkt then recv_raw_rounds n fuel N h
                         else recv_raw_rounds n fuel N (nsp_nnse_drop_queued_streams h)))
           | _ \<Rightarrow> recv_raw_rounds n fuel N h)
      | (r, _, h) \<Rightarrow> (r, None, h))"

definition nsp_nnse_recv_raw_packet ::
    "nat \<Rightarrow> 'd nsp_env \<Rightarrow> 'd calc_handle \<Rightarrow> ret \<times> nsp_parsed option \<times> 'd calc_handle" where
  "nsp_nnse_recv_raw_packet fuel N h = recv_raw_rounds fuel fuel N h"

fun drain_rounds :: "nat \<Rightarrow> nat \<Rightarrow> 'd nsp_env \<Rightarrow> 'd calc_handle \<Rightarrow> ret \<times> unit \<times> 'd calc_handle" where
  "drain_rounds 0 fuel N h = (None, (), h)"
| "drain_rounds (Suc n) fuel N h =
     (let (r, pkt, h) = nsp_nnse_recv_raw_packet fuel N h
      in if r = Some ERR_READ_TIMEOUT then (None, (), h)
         else if skipped r then drain_rounds n fuel N h
         else if r \<noteq> None then (r, (), h)
         else (let (r, h) = nsp_nnse_handle_stale_packet fuel N (the pkt) h
               in if r \<noteq> None then (r, (), h) else drain_rounds n fuel N h))"

definition nsp_nnse_drain_after_close :: "nat \<Rightarrow> 'd nsp_env \<Rightarrow> 'd calc_handle \<Rightarrow> ret \<times> 'd calc_handle" where
  "nsp_nnse_drain_after_close fuel N h =
     (let (r, _, h) = at_timeout N 1 (drain_rounds 3 fuel N) h in (r, h))"

section \<open>Virtual packets\<close>

record nsp_vtl =
  nv_src_addr :: u16
  nv_src_port :: u16
  nv_dst_addr :: u16
  nv_dst_port :: u16
  nv_cmd :: u8
  nv_size :: u32
  nv_data :: "bytes option"

definition nsp_vtl_pkt_new_ex :: "u32 \<Rightarrow> u16 \<Rightarrow> u16 \<Rightarrow> u16 \<Rightarrow> u16 \<Rightarrow> u8 \<Rightarrow> bytes option \<Rightarrow> nsp_vtl" where
  "nsp_vtl_pkt_new_ex n src_addr src_port dst_addr dst_port cmd data =
     \<lparr>nv_src_addr = src_addr, nv_src_port = src_port, nv_dst_addr = dst_addr, nv_dst_port = dst_port,
      nv_cmd = cmd, nv_size = n, nv_data = data\<rparr>"

definition nsp_vtl_pkt_new :: nsp_vtl where
  "nsp_vtl_pkt_new = nsp_vtl_pkt_new_ex 0 0 0 0 0 0 None"

definition nsp_vtl_pkt_fill ::
    "nsp_vtl \<Rightarrow> u32 \<Rightarrow> u16 \<Rightarrow> u16 \<Rightarrow> u16 \<Rightarrow> u16 \<Rightarrow> u8 \<Rightarrow> bytes option \<Rightarrow> nsp_vtl" where
  "nsp_vtl_pkt_fill vtl n src_addr src_port dst_addr dst_port cmd data =
     vtl\<lparr>nv_src_addr := src_addr, nv_src_port := src_port, nv_dst_addr := dst_addr, nv_dst_port := dst_port,
         nv_cmd := cmd, nv_size := n, nv_data := data\<rparr>"

text \<open>One byte more than asked for; of \<^verbatim>\<open>SIZE_MAX\<close> bytes that are none.\<close>

definition nsp_vtl_pkt_alloc_data :: "64 word \<Rightarrow> bytes option" where
  "nsp_vtl_pkt_alloc_data n = (if n + 1 = 0 then None else Some (replicate (unat (n + 1)) 0))"

text \<open>
  Enlarging or shrinking; the size in the packet stays, as the caller sets it. Bytes that the
  source leaves as the allocator had them are zeros here.
\<close>

definition nsp_vtl_pkt_realloc_data :: "64 word \<Rightarrow> nsp_vtl \<Rightarrow> nsp_vtl option" where
  "nsp_vtl_pkt_realloc_data n vtl =
     (if n < n + 1 then
        (let old = (case nv_data vtl of None \<Rightarrow> [] | Some d \<Rightarrow> d); k = unat (nv_size vtl) + 1
         in Some (vtl\<lparr>nv_data := Some (if ucast (nv_size vtl) < n
                   then take k (old @ replicate (k - length old) 0) @ replicate (unat n + 1 - k) 0
                   else take (unat n + 1) (old @ replicate (unat n + 1 - length old) 0))\<rparr>))
      else None)"

section \<open>Sessions\<close>

definition nsp_session_open :: "u16 \<Rightarrow> 'd calc_handle \<Rightarrow> ret \<times> 'd calc_handle" where
  "nsp_session_open port h =
     (None, upd_nsp (\<lambda>s. s\<lparr>ns_src_port := (if ns_src_port s < 0x8000 \<or> 0x8FFF \<le> ns_src_port s then 0x8000
                                        else ns_src_port s + 1), ns_dst_port := port\<rparr>) h)"

text \<open>A packet for which only the result of sending matters.\<close>

definition send_raw :: "nat \<Rightarrow> 'd nsp_env \<Rightarrow> nsp_raw \<Rightarrow> 'd calc_handle \<Rightarrow> ret \<times> 'd calc_handle" where
  "send_raw fuel N pkt h = (let (r, _, h) = nsp_send fuel N pkt h in (r, h))"

text \<open>A packet of the computer to the calculator with the given data.\<close>

definition pc_packet :: "u16 \<Rightarrow> u16 \<Rightarrow> bytes \<Rightarrow> nsp_raw" where
  "pc_packet src_port dst_port data =
     store_data data (nsp_zero\<lparr>np_src_addr := NSP_SRC_ADDR, np_src_port := src_port,
       np_dst_addr := NSP_DEV_ADDR, np_dst_port := dst_port, np_data_size := of_nat (length data)\<rparr>)"

definition nsp_addr_assign :: "nat \<Rightarrow> 'd nsp_env \<Rightarrow> u16 \<Rightarrow> 'd calc_handle \<Rightarrow> ret \<times> 'd calc_handle" where
  "nsp_addr_assign fuel N addr h =
     send_raw fuel N (pc_packet NSP_PORT_ADDR_ASSIGN NSP_PORT_ADDR_ASSIGN [MSB addr, LSB addr, 0xFF, 0x00]) h"

definition nsp_addr_request :: "nat \<Rightarrow> 'd nsp_env \<Rightarrow> 'd calc_handle \<Rightarrow> ret \<times> 'd calc_handle" where
  "nsp_addr_request fuel N h =
     (let (is_nnse, h) = nsp_nnse_enabled N h
      in if is_nnse then nsp_nnse_ensure_ready fuel N (upd_nsp (\<lambda>s. s\<lparr>ns_seq_pc := 1\<rparr>) h)
         else andthen (driver_reset N h) (\<lambda>h.
           let (r, pkt, h) = nsp_recv fuel N nsp_zero (upd_nsp (\<lambda>s. s\<lparr>ns_seq_pc := 1\<rparr>) h)
           in (if r = None \<and> (np_src_port pkt \<noteq> NSP_PORT_ADDR_ASSIGN \<or> np_dst_port pkt \<noteq> NSP_PORT_ADDR_REQUEST)
               then Some ERR_INVALID_PACKET else r, h)))"

section \<open>Acknowledgements\<close>

definition nsp_send_ack :: "nat \<Rightarrow> 'd nsp_env \<Rightarrow> 'd calc_handle \<Rightarrow> ret \<times> 'd calc_handle" where
  "nsp_send_ack fuel N h =
     send_raw fuel N (pc_packet NSP_PORT_PKT_ACK2 (ns_dst_port (kh_nsp h))
       [MSB (ns_src_port (kh_nsp h)), LSB (ns_src_port (kh_nsp h))]) h"

definition nsp_send_ack_for_raw :: "nat \<Rightarrow> 'd nsp_env \<Rightarrow> nsp_raw \<Rightarrow> 'd calc_handle \<Rightarrow> ret \<times> 'd calc_handle" where
  "nsp_send_ack_for_raw fuel N packet h =
     send_raw fuel N (pc_packet (if np_seq packet = 0 then NSP_PORT_PKT_ACK1 else NSP_PORT_PKT_ACK2)
       (np_src_port packet) [MSB (np_dst_port packet), LSB (np_dst_port packet)]) h"

definition nsp_send_nack_ex :: "nat \<Rightarrow> 'd nsp_env \<Rightarrow> u16 \<Rightarrow> 'd calc_handle \<Rightarrow> ret \<times> 'd calc_handle" where
  "nsp_send_nack_ex fuel N port h =
     send_raw fuel N (pc_packet NSP_PORT_PKT_NACK port [MSB NSP_PORT_LOGIN, LSB NSP_PORT_LOGIN]) h"

definition nsp_send_nack :: "nat \<Rightarrow> 'd nsp_env \<Rightarrow> 'd calc_handle \<Rightarrow> ret \<times> 'd calc_handle" where
  "nsp_send_nack fuel N h = nsp_send_nack_ex fuel N (ns_dst_port (kh_nsp h)) h"

text \<open>The errors that the calculator reports, and their numbers.\<close>

definition nsp_usb_errors :: "u8 list" where
  "nsp_usb_errors = [0x02, 0x04, 0x07, 0x0a, 0x0f, 0x10, 0x11, 0x12, 0x13, 0x14, 0x15, 0x16, 0x20, 0x80]"

definition ticalcs_nsp_error_code_from_index :: "nat \<Rightarrow> u8" where
  "ticalcs_nsp_error_code_from_index i = (if length nsp_usb_errors \<le> i then 0 else nsp_usb_errors ! i)"

definition ticalcs_nsp_error_count :: nat where
  "ticalcs_nsp_error_count = length nsp_usb_errors"

fun error_index :: "u8 list \<Rightarrow> nat \<Rightarrow> u8 \<Rightarrow> nat" where
  "error_index [] i code = 0"
| "error_index (e # es) i code = (if e = code then i + 1 else error_index es (i + 1) code)"

definition nsp_err_code :: "u8 \<Rightarrow> nat" where
  "nsp_err_code code = error_index nsp_usb_errors 0 code"

abbreviation (input) NSP_CMD_OS_OK :: u8 where "NSP_CMD_OS_OK \<equiv> 0x04"
abbreviation (input) NSP_CMD_STATUS :: u8 where "NSP_CMD_STATUS \<equiv> 0xff"

text \<open>
  A status that comes while an acknowledgement is waited for is kept in the handle and
  acknowledged, unless it is an error; \<open>Some\<close> ends the waiting.
\<close>

definition pending_status ::
    "nat \<Rightarrow> 'd nsp_env \<Rightarrow> nsp_raw \<Rightarrow> 'd calc_handle \<Rightarrow> ret \<times> 'd calc_handle" where
  "pending_status fuel N pkt h =
     (let cmd = np_data pkt ! 0; status = np_data pkt ! 1;
          h = upd_nsp (\<lambda>s. s\<lparr>ns_pending_cmd := cmd, ns_has_pending_status := False, ns_pending_status := 0\<rparr>) h
      in if cmd = NSP_CMD_OS_OK then nsp_send_ack_for_raw fuel N pkt h
         else if 2 \<le> np_data_size pkt then
           (let h = upd_nsp (\<lambda>s. s\<lparr>ns_pending_status := status, ns_has_pending_status := True\<rparr>) h
            in if status = 0 then nsp_send_ack_for_raw fuel N pkt h
               else (Some (ERR_CALC_ERROR3 (nsp_err_code status)), h))
         else (None, h))"

definition expected_ack :: "nsp_raw \<Rightarrow> nsp_state \<Rightarrow> bool" where
  "expected_ack pkt s \<longleftrightarrow>
     (let ack2 = (np_src_port pkt = NSP_PORT_PKT_ACK2)
      in (ack2 \<or> np_src_port pkt = ns_dst_port s) \<and> np_dst_port pkt = ns_src_port s \<and> 2 \<le> np_data_size pkt
       \<and> word_at (np_data pkt) 0 = (if ack2 then ns_dst_port s else ns_src_port s) \<and> np_ack pkt = 0x0A)"

fun recv_ack_rounds :: "nat \<Rightarrow> nat \<Rightarrow> 'd nsp_env \<Rightarrow> 'd calc_handle \<Rightarrow> ret \<times> 'd calc_handle" where
  "recv_ack_rounds 0 fuel N h = (Some OUT_OF_FUEL, h)"
| "recv_ack_rounds (Suc n) fuel N h =
     (let (r, pkt, h) = nsp_recv fuel N nsp_zero h
      in if r \<noteq> None then (r, h)
         else if 1 \<le> np_data_size pkt \<and> (np_data pkt ! 0 = NSP_CMD_OS_OK \<or> np_data pkt ! 0 = NSP_CMD_STATUS)
         then andthen (pending_status fuel N pkt h) (recv_ack_rounds n fuel N)
         else if np_ack pkt = 0 \<and> 0 < np_data_size pkt
         then andthen (nsp_send_ack_for_raw fuel N pkt h) (recv_ack_rounds n fuel N)
         else if expected_ack pkt (kh_nsp h) then (None, h)
         else recv_ack_rounds n fuel N h)"

definition nsp_recv_ack :: "nat \<Rightarrow> 'd nsp_env \<Rightarrow> 'd calc_handle \<Rightarrow> ret \<times> 'd calc_handle" where
  "nsp_recv_ack fuel N h =
     (let (is_nnse, h) = nsp_nnse_enabled N h
      in if is_nnse then (None, h) else recv_ack_rounds fuel fuel N h)"

section \<open>Disconnecting\<close>

definition nsp_send_disconnect :: "nat \<Rightarrow> 'd nsp_env \<Rightarrow> 'd calc_handle \<Rightarrow> ret \<times> 'd calc_handle" where
  "nsp_send_disconnect fuel N h =
     send_raw fuel N (pc_packet NSP_PORT_DISCONNECT (ns_dst_port (kh_nsp h))
       [MSB (ns_src_port (kh_nsp h)), LSB (ns_src_port (kh_nsp h))]) h"

definition nsp_session_close :: "nat \<Rightarrow> 'd nsp_env \<Rightarrow> 'd calc_handle \<Rightarrow> ret \<times> 'd calc_handle" where
  "nsp_session_close fuel N h = with_busy h (\<lambda>h.
     andthen (andthen (nsp_send_disconnect fuel N h) (\<lambda>h.
       let (is_nnse, h) = nsp_nnse_enabled N h
       in if is_nnse then nsp_nnse_drain_after_close fuel N h else nsp_recv_ack fuel N h))
       (\<lambda>h. (None, upd_nsp (\<lambda>s. s\<lparr>ns_dst_port := NSP_PORT_ADDR_REQUEST\<rparr>) h)))"

definition nsp_recv_disconnect :: "nat \<Rightarrow> 'd nsp_env \<Rightarrow> 'd calc_handle \<Rightarrow> ret \<times> 'd calc_handle" where
  "nsp_recv_disconnect fuel N h = with_busy h (\<lambda>h.
     let (r, pkt, h) = nsp_recv fuel N nsp_zero h
     in if r \<noteq> None then (r, h)
        else if np_src_port pkt \<noteq> NSP_PORT_DISCONNECT then (Some ERR_INVALID_PACKET, h)
        else
          (let h = upd_nsp (\<lambda>s. s\<lparr>ns_dst_port := word_at (np_data pkt) 0\<rparr>) h; addr = np_dst_port pkt
           in send_raw fuel N (store_data [MSB addr, LSB addr]
                (pkt\<lparr>np_unused := 0, np_data_size := 2, np_src_addr := NSP_SRC_ADDR,
                     np_src_port := NSP_PORT_PKT_ACK2, np_dst_addr := NSP_DEV_ADDR,
                     np_dst_port := ns_dst_port (kh_nsp h), np_data_sum := 0, np_ack := 0, np_seq := 0,
                     np_hdr_sum := 0\<rparr>)) h))"

section \<open>Fragmentation: sending\<close>

definition vtl_event :: "nsp_vtl \<Rightarrow> calc_event_data" where
  "vtl_event vtl = NSPVirtualPacketData (nv_src_addr vtl) (nv_src_port vtl) (nv_dst_addr vtl) (nv_dst_port vtl)
     (nv_cmd vtl) (nv_size vtl) (nv_data vtl)"

text \<open>One raw packet with its acknowledgement; the packet is used again for the next one.\<close>

definition send_acked ::
    "nat \<Rightarrow> 'd nsp_env \<Rightarrow> u8 \<Rightarrow> bytes \<Rightarrow> nsp_raw \<Rightarrow> 'd calc_handle \<Rightarrow> ret \<times> nsp_raw \<times> 'd calc_handle" where
  "send_acked fuel N cmd data raw h =
     (let raw = store_data (cmd # data) (raw\<lparr>np_data_size := of_nat (length data + 1)\<rparr>);
          (r, raw, h) = nsp_send fuel N raw h
      in if r = None \<and> np_src_port raw \<noteq> NSP_PORT_ADDR_ASSIGN \<and> np_dst_port raw \<noteq> NSP_PORT_ADDR_REQUEST
         then (let (r, h) = nsp_recv_ack fuel N h in (r, raw, h)) else (r, raw, h))"

fun send_full ::
    "nat \<Rightarrow> nat \<Rightarrow> 'd nsp_env \<Rightarrow> u8 \<Rightarrow> u32 \<Rightarrow> bytes \<Rightarrow> nsp_raw \<Rightarrow> 'd calc_handle \<Rightarrow> ret \<times> nsp_raw \<times> 'd calc_handle"
  where
  "send_full 0 fuel N cmd tot data raw h = (None, raw, h)"
| "send_full (Suc q) fuel N cmd tot data raw h =
     (let (r, raw, h) = send_acked fuel N cmd (take 253 data) raw h
      in if r \<noteq> None then (r, raw, h)
         else send_full q fuel N cmd tot (drop 253 data) raw
                (ticalcs_update_pbar (ne_calc N) (set_cnt1 (up_cnt1 (kh_updat h) + 254) (set_max1 (uint tot) h))))"

definition send_legacy ::
    "nat \<Rightarrow> 'd nsp_env \<Rightarrow> u8 \<Rightarrow> u32 \<Rightarrow> bytes \<Rightarrow> nsp_raw \<Rightarrow> 'd calc_handle \<Rightarrow> ret \<times> 'd calc_handle" where
  "send_legacy fuel N cmd tot data raw h =
     (let q = unat tot div 253; rest = unat tot mod 253;
          (r, raw, h) = send_full q fuel N cmd tot data raw h
      in if r = None \<and> (rest \<noteq> 0 \<or> tot = 0)
         then (let (r, _, h) = send_acked fuel N cmd (take rest (drop (253 * q) data)) raw h in (r, h))
         else (r, h))"

text \<open>The first chunk is sent even if there is no data; \<open>offset\<close> bytes have been sent.\<close>

function send_nnse ::
    "nat \<Rightarrow> 'd nsp_env \<Rightarrow> u8 \<Rightarrow> u32 \<Rightarrow> nat \<Rightarrow> bytes \<Rightarrow> nsp_raw \<Rightarrow> 'd calc_handle \<Rightarrow> ret \<times> 'd calc_handle" where
  "send_nnse fuel N cmd tot offset data raw h =
     andthen (nsp_nnse_send_raw_data fuel N raw (cmd # take 1439 data) h) (\<lambda>h.
       let offset = offset + min 1439 (length data);
           h = ticalcs_update_pbar (ne_calc N) (set_cnt1 (int offset) (set_max1 (uint tot) h))
       in if 1439 < length data then send_nnse fuel N cmd tot offset (drop 1439 data) raw h else (None, h))"
  by pat_completeness auto
termination by (relation "measure (\<lambda>(fuel, N, cmd, tot, offset, data, raw, h). length data)") auto

declare send_nnse.simps [simp del]

definition nsp_send_data :: "nat \<Rightarrow> 'd nsp_env \<Rightarrow> nsp_vtl \<Rightarrow> 'd calc_handle \<Rightarrow> ret \<times> 'd calc_handle" where
  "nsp_send_data fuel N vtl h =
     (if nv_size vtl \<noteq> 0 \<and> nv_data vtl = None then (Some ERR_INVALID_PARAMETER, h)
      else with_busy h (\<lambda>h.
        (let (r, h) = fire (ne_calc N) CALC_EVENT_TYPE_BEFORE_SEND_NSP_VPKT None (vtl_event vtl) h;
             data = (case nv_data vtl of None \<Rightarrow> [] | Some d \<Rightarrow> d);
             raw = nsp_zero\<lparr>np_src_addr := nv_src_addr vtl, np_src_port := nv_src_port vtl,
                            np_dst_addr := nv_dst_addr vtl, np_dst_port := nv_dst_port vtl\<rparr>;
             (r, h) =
               (if r \<noteq> None then (r, h)
                else if length data < unat (nv_size vtl) then (Some UNDEFINED_BEHAVIOUR, h)
                else
                  (let (is_nnse, h) = nsp_nnse_enabled N h; data = take (unat (nv_size vtl)) data
                   in if is_nnse then send_nnse fuel N (nv_cmd vtl) (nv_size vtl) 0 data raw h
                      else send_legacy fuel N (nv_cmd vtl) (nv_size vtl) data raw h))
         in fire (ne_calc N) CALC_EVENT_TYPE_AFTER_SEND_NSP_VPKT r (vtl_event vtl) h)))"

section \<open>Fragmentation: receiving\<close>

text \<open>
  What has been put together so far. With a size \<open>want\<close> other than zero, bytes beyond it are
  dropped. The sizes are those of a packet below 4 GB.
\<close>

definition put_together :: "nat \<Rightarrow> bytes \<Rightarrow> bytes \<Rightarrow> bytes" where
  "put_together want acc payload =
     acc @ take (if want \<noteq> 0 \<and> want < length acc + length payload then want - length acc else length payload) payload"

definition progress :: "'d nsp_env \<Rightarrow> nat \<Rightarrow> bytes \<Rightarrow> int \<Rightarrow> 'd calc_handle \<Rightarrow> 'd calc_handle" where
  "progress N want acc cnt h =
     ticalcs_update_pbar (ne_calc N) (set_cnt1 cnt (set_max1 (int (if want \<noteq> 0 then want else length acc)) h))"

definition answer_raw :: "nat \<Rightarrow> 'd nsp_env \<Rightarrow> nsp_raw \<Rightarrow> 'd calc_handle \<Rightarrow> ret \<times> 'd calc_handle" where
  "answer_raw fuel N raw h =
     (if np_dst_port raw = NSP_PORT_LOGIN then nsp_send_nack_ex fuel N (np_src_port raw) h
      else if np_src_port raw \<noteq> NSP_PORT_ADDR_ASSIGN \<and> np_dst_port raw \<noteq> NSP_PORT_ADDR_REQUEST
      then nsp_send_ack fuel N h else (None, h))"

text \<open>
  The result has the last raw packet, the command and the data so far; the byte that is allocated
  behind the data is not part of it.
\<close>

fun recv_legacy ::
    "nat \<Rightarrow> nat \<Rightarrow> 'd nsp_env \<Rightarrow> nat \<Rightarrow> nsp_raw \<Rightarrow> u8 \<Rightarrow> bytes \<Rightarrow> 'd calc_handle
       \<Rightarrow> ret \<times> (nsp_raw \<times> u8 \<times> bytes) \<times> 'd calc_handle" where
  "recv_legacy 0 fuel N want raw cmd acc h = (Some OUT_OF_FUEL, (raw, cmd, acc), h)"
| "recv_legacy (Suc n) fuel N want raw cmd acc h =
     (let (r, raw, h) = nsp_recv fuel N raw h
      in if r \<noteq> None then (r, (raw, cmd, acc), h)
         else
           (let k = unat (np_data_size raw);
                (cmd, acc, h) = (if 0 < k
                  then (let acc = put_together want acc (take (k - 1) (drop 1 (np_data raw)))
                        in (np_data raw ! 0, acc, progress N want acc (up_cnt1 (kh_updat h) + 254) h))
                  else (cmd, acc, h));
                (r, h) = answer_raw fuel N raw h
            in if r \<noteq> None then (r, (raw, cmd, acc), h)
               else if want \<noteq> 0 \<and> want \<le> length acc \<or> k < 254 then (None, (raw, cmd, acc), h)
               else recv_legacy n fuel N want raw cmd acc h))"

definition raw_of_parsed :: "nsp_parsed \<Rightarrow> nsp_raw \<Rightarrow> nsp_raw" where
  "raw_of_parsed p raw =
     raw\<lparr>np_src_addr := pp_src_addr p, np_src_port := pp_src_port p, np_dst_addr := pp_dst_addr p,
         np_dst_port := pp_dst_port p, np_data_sum := pp_data_sum p, np_data_size := pp_data_size p,
         np_ack := pp_ack p, np_seq := pp_seq p, np_hdr_sum := pp_hdr_sum p\<rparr>"

fun recv_nnse ::
    "nat \<Rightarrow> nat \<Rightarrow> 'd nsp_env \<Rightarrow> nat \<Rightarrow> nsp_raw \<Rightarrow> u8 \<Rightarrow> bytes \<Rightarrow> 'd calc_handle
       \<Rightarrow> ret \<times> (nsp_raw \<times> u8 \<times> bytes) \<times> 'd calc_handle" where
  "recv_nnse 0 fuel N want raw cmd acc h = (Some OUT_OF_FUEL, (raw, cmd, acc), h)"
| "recv_nnse (Suc n) fuel N want raw cmd acc h =
     (case nsp_nnse_recv_raw_packet fuel N h of
        (None, Some p, h) \<Rightarrow>
          (let k = pp_logical_data_size p;
               acc = put_together want acc (take (k - 1) (drop 1 (pp_data p)));
               h = progress N want acc (int (length acc)) h; raw = raw_of_parsed p raw; cmd = pp_data p ! 0
           in if want \<noteq> 0 \<and> want \<le> length acc \<or> k < NSP_NNSE_DATA_SIZE then (None, (raw, cmd, acc), h)
              else recv_nnse n fuel N want raw cmd acc h)
      | (r, _, h) \<Rightarrow> (r, (raw, cmd, acc), h))"

definition nsp_recv_data ::
    "nat \<Rightarrow> 'd nsp_env \<Rightarrow> nsp_vtl \<Rightarrow> 'd calc_handle \<Rightarrow> ret \<times> nsp_vtl \<times> 'd calc_handle" where
  "nsp_recv_data fuel N vtl h = with_busy_val h (\<lambda>h.
     (let (r, h) = fire (ne_calc N) CALC_EVENT_TYPE_BEFORE_RECV_NSP_VPKT None
            (NSPVirtualPacketData 0 0 0 0 0 0 None) h;
          (r, vtl, h) =
            (if r \<noteq> None then (r, vtl, h)
             else
               (let (is_nnse, h) = nsp_nnse_enabled N h; want = unat (nv_size vtl);
                    (r, (raw, cmd, acc), h) =
                      (if is_nnse then recv_nnse fuel fuel N want nsp_zero (nv_cmd vtl) [] h
                       else recv_legacy fuel fuel N want nsp_zero (nv_cmd vtl) [] h)
                in (r, vtl\<lparr>nv_cmd := cmd, nv_size := of_nat (length acc), nv_data := Some acc,
                           nv_src_addr := np_src_addr raw, nv_src_port := np_src_port raw,
                           nv_dst_addr := np_dst_addr raw, nv_dst_port := np_dst_port raw\<rparr>, h)));
          (r, h) = fire (ne_calc N) CALC_EVENT_TYPE_AFTER_RECV_NSP_VPKT r (vtl_event vtl) h
      in (r, vtl, h)))"

end
