(* ===== verification/NspPackets.thy ===== *)
theory NspPackets
  imports NspVpkt NspFraming
begin

text \<open>
  The packets of the NSpire protocol: what is packed is parsed again, a changed byte is found,
  packets are found in a stream, extended packets are split and put together, and the ports of
  sessions.
\<close>

section \<open>Packing and parsing\<close>

definition wire_data :: "bytes \<Rightarrow> bytes" where
  "wire_data data =
     (let n = of_nat (length data) :: u32
      in if 0xFF \<le> length data
         then [ucast (drop_bit 24 n), ucast (drop_bit 16 n), ucast (drop_bit 8 n), ucast n] @ data else data)"

definition wire_size :: "bytes \<Rightarrow> u8" where
  "wire_size data = (if 0xFF \<le> length data then 0xFF else of_nat (length data))"

definition wire_start :: "bytes \<Rightarrow> nat" where
  "wire_start data = (if 0xFF \<le> length data then 20 else 16)"

definition wire_header :: "nsp_raw \<Rightarrow> bytes \<Rightarrow> bytes" where
  "wire_header raw data =
     nsp_pack_header (np_src_addr raw) (np_src_port raw) (np_dst_addr raw) (np_dst_port raw)
       (nsp_compute_crc (wire_data data)) (wire_size data) (np_ack raw) (np_seq raw)"

lemma raw_message_parts: "nnse_raw_message raw data = wire_header raw data @ wire_data data"
  by (simp add: nnse_raw_message_def wire_header_def wire_data_def wire_size_def Let_def)

lemma header_length [simp]: "length (wire_header raw data) = 16"
  by (simp add: wire_header_def nsp_pack_header_def Let_def)

lemma wire_length: "length (wire_data data) = length data + (wire_start data - 16)"
  by (simp add: wire_data_def wire_start_def Let_def)

lemma wire_contents: "drop (wire_start data - 16) (wire_data data) = data"
  by (simp add: wire_data_def wire_start_def Let_def)

lemma be32_of_bytes:
  "be32 (ucast (drop_bit 24 n)) (ucast (drop_bit 16 n)) (ucast (drop_bit 8 n)) (ucast n) = (n :: u32)"
proof (rule bit_word_eqI)
  fix k
  assume "k < LENGTH(32)"
  then consider "k < 8" | "8 \<le> k" "k < 16" | "16 \<le> k" "k < 24" | "24 \<le> k" "k < 32" by fastforce
  then show "bit (be32 (ucast (drop_bit 24 n)) (ucast (drop_bit 16 n)) (ucast (drop_bit 8 n)) (ucast n)) k = bit n k"
    by cases (auto simp: be32_def bit_simps)
qed

text \<open>What is at the places of the header, in a message that begins with it.\<close>

lemma header_places:
  fixes rest raw data
  defines "m \<equiv> wire_header raw data @ rest"
  shows "m ! 0 = 0x54" "m ! Suc 0 = 0xFD" "m ! 12 = wire_size data" "m ! 13 = np_ack raw" "m ! 14 = np_seq raw"
    "m ! 15 = nsp_header_checksum m" "word_at m 2 = np_src_addr raw" "word_at m 4 = np_src_port raw"
    "word_at m 6 = np_dst_addr raw" "word_at m 8 = np_dst_port raw"
    "word_at m 10 = nsp_compute_crc (wire_data data)"
  by (simp_all add: m_def wire_header_def nsp_pack_header_def Let_def nsp_header_checksum_def word_at_def
      be16_MSB_LSB)

lemma place_of_data:
  assumes "length data \<le> 1440"
  shows "data_place (nnse_raw_message raw data @ rest) = Some (wire_start data, of_nat (length data))"
proof (cases "0xFF \<le> length data")
  case True
  let ?m = "nnse_raw_message raw data @ rest" and ?n = "of_nat (length data) :: u32"
  have "?m ! 12 = 0xFF" using header_places(3) [of raw data "wire_data data @ rest"] True
    by (simp add: raw_message_parts wire_size_def)
  moreover have "?m ! 16 = ucast (drop_bit 24 ?n)" "?m ! 17 = ucast (drop_bit 16 ?n)"
      "?m ! 18 = ucast (drop_bit 8 ?n)" "?m ! 19 = ucast ?n"
    using True by (simp_all add: raw_message_parts nth_append wire_data_def Let_def)
  moreover have "20 \<le> length ?m" using True by (simp add: raw_message_parts wire_length wire_start_def)
  ultimately show ?thesis using True by (simp add: data_place_def be32_of_bytes wire_start_def)
next
  case False
  let ?m = "nnse_raw_message raw data @ rest"
  have s: "?m ! 12 = of_nat (length data)" using header_places(3) [of raw data "wire_data data @ rest"] False
    by (simp add: raw_message_parts wire_size_def)
  have u: "unat (of_nat (length data) :: u8) = length data"
    using False by (simp add: unat_of_nat take_bit_nat_eq_self)
  then have "(of_nat (length data) :: u8) \<noteq> 0xFF" using False by (auto dest: arg_cong [of _ _ unat])
  moreover have "ucast (of_nat (length data) :: u8) = (of_nat (length data) :: u32)"
    using False u by (simp add: word_unat_eq_iff unsigned_ucast_eq unat_of_nat take_bit_nat_eq_self)
  ultimately show ?thesis using s False by (simp add: data_place_def wire_start_def)
qed

definition parsed_of :: "nsp_raw \<Rightarrow> bytes \<Rightarrow> bytes \<Rightarrow> nsp_parsed" where
  "parsed_of raw data rest =
     \<lparr>pp_src_addr = np_src_addr raw, pp_src_port = np_src_port raw, pp_dst_addr = np_dst_addr raw,
      pp_dst_port = np_dst_port raw, pp_data_sum = nsp_compute_crc (wire_data data), pp_data_size = wire_size data,
      pp_ack = np_ack raw, pp_seq = np_seq raw, pp_hdr_sum = wire_header raw data ! 15,
      pp_data = data @ rest, pp_logical_data_size = length data, pp_wire_data_size = length (wire_data data),
      pp_raw_size = length (nnse_raw_message raw data)\<rparr>"

lemma parse_packed:
  assumes "data \<noteq> []" "length data \<le> 1440"
  shows "nsp_parse_raw_packet (nnse_raw_message raw data @ rest) = (None, Some (parsed_of raw data rest))"
proof -
  let ?m = "nnse_raw_message raw data @ rest"
  have m: "?m = wire_header raw data @ (wire_data data @ rest)" by (simp add: raw_message_parts)
  note at = header_places [of raw data "wire_data data @ rest", folded m]
  have n: "unat (of_nat (length data) :: u32) = length data"
    using assms(2) by (simp add: unat_of_nat take_bit_nat_eq_self)
  then have "\<not> (of_nat (length data) :: u32) < 1" "\<not> (1440 :: u32) < of_nat (length data)"
    using assms by (auto simp: word_less_nat_alt Suc_le_eq)
  moreover have "length (wire_data data) = length data + (wire_start data - 16)" by (rule wire_length)
  moreover have "drop 16 ?m = wire_data data @ rest" "wire_header raw data ! 15 = ?m ! 15"
    by (simp_all add: m nth_append)
  moreover have "drop (wire_start data) (wire_header raw data) = []" by (simp add: wire_start_def)
  ultimately show ?thesis
    using place_of_data [OF assms(2), of raw rest] at n
    by (simp add: nsp_parse_raw_packet_def parsed_of_def raw_message_parts Let_def wire_contents)
qed

section \<open>Changed bytes\<close>

text \<open>The checksum of the header is the sum of its bytes, and finds a changed one.\<close>

lemma ucast_byte_add: "(ucast (x + y :: u16) :: u8) = ucast x + ucast y"
  by (simp add: word_unat_eq_iff unsigned_ucast_eq unat_word_ariths take_bit_eq_mod mod_mod_cancel mod_add_eq)

lemma low_byte_sum: "(ucast (tifiles_checksum bs AND 0xff) :: u8) = sum_list bs"
proof -
  have "(ucast (w AND 0xff :: u16) :: u8) = ucast w" for w
    unfolding crc_masks by (rule bit_word_eqI) (auto simp: bit_simps)
  then have "(ucast (tifiles_checksum bs AND 0xff) :: u8) = ucast (\<Sum>b\<leftarrow>bs. ucast b :: u16)"
    by (simp add: tifiles_checksum_sum)
  also have "\<dots> = sum_list bs"
  proof (induction bs)
    case (Cons b bs)
    have "ucast (ucast b :: u16) = b" by (rule bit_word_eqI) (simp add: bit_simps)
    then show ?case using Cons by (simp add: ucast_byte_add)
  qed simp
  finally show ?thesis .
qed

lemma header_sum_changed:
  assumes "length m \<ge> 16" "m ! 15 = nsp_header_checksum m" "i < 16" "b \<noteq> m ! i"
  shows "(m[i := b]) ! 15 \<noteq> nsp_header_checksum (m[i := b])"
proof (cases "i = 15")
  case True
  then show ?thesis using assms by (simp add: nsp_header_checksum_def)
next
  case False
  then have i: "i < 15" using assms(3) by simp
  define t where "t = take 15 m"
  have t: "i < length t" "t ! i = m ! i" using assms(1) i by (simp_all add: t_def)
  have "sum_list (t[i := b]) + t ! i = sum_list t + b"
    using t(1) by (simp add: upd_conv_take_nth_drop sum_list_append
        flip: id_take_nth_drop [of i t]) (subst (3) id_take_nth_drop [of i t], simp_all)
  then have "sum_list (t[i := b]) \<noteq> sum_list t" using t(2) assms(4) by auto
  then show ?thesis using assms(2) i by (simp add: nsp_header_checksum_def low_byte_sum t_def take_update_swap)
qed

lemma crc_update:
  assumes "i < length bs" "b \<noteq> bs ! i"
  shows "nsp_compute_crc (bs[i := b]) \<noteq> nsp_compute_crc bs"
  using assms crc_byte_inj [of "take i bs" b "drop (Suc i) bs" "bs ! i"]
  by (metis id_take_nth_drop upd_conv_take_nth_drop)

text \<open>A size with one of its upper bytes set is too large.\<close>

lemma be32_upper:
  assumes "b0 \<noteq> 0 \<or> b1 \<noteq> 0"
  shows "1440 < be32 b0 b1 b2 b3"
proof -
  obtain k where k: "16 \<le> k" "bit (be32 b0 b1 b2 b3) k"
  proof -
    have "\<exists>n. bit b n" if "b \<noteq> 0" for b :: u8
    proof (rule ccontr)
      assume "\<nexists>n. bit b n"
      then have "b = 0" by (intro bit_word_eqI) simp
      then show False using that by simp
    qed
    then obtain n where "bit b0 n \<or> bit b1 n" using assms by blast
    then have n: "bit b0 n \<or> bit b1 n" "n < 8" by (auto dest: bit_imp_le_length)
    show thesis
    proof (cases "bit b0 n")
      case True
      then have "bit (be32 b0 b1 b2 b3) (24 + n)" using n(2) by (simp add: be32_def bit_simps)
      then show thesis using that [of "24 + n"] by simp
    next
      case False
      then have "bit (be32 b0 b1 b2 b3) (16 + n)" using n by (simp add: be32_def bit_simps)
      then show thesis using that [of "16 + n"] by simp
    qed
  qed
  then have "bit (unat (be32 b0 b1 b2 b3)) k" by (simp add: bit_unsigned_iff bit_imp_possible_bit)
  then have "2 ^ k \<le> unat (be32 b0 b1 b2 b3)"
    by (metis bit_iff_odd div_less even_zero not_le)
  moreover have "(2::nat) ^ 16 \<le> 2 ^ k" using k(1) by (intro power_increasing) simp_all
  ultimately show ?thesis by (simp add: word_less_nat_alt)
qed

text \<open>
  C33: A packet of up to 1440 bytes in a stream is parsed as it was packed, whatever follows it,
  and with one changed byte it is refused, unless the byte is one of the two low bytes of the
  size of an extended packet: a smaller size makes the receiver take the CRC of other data.
\<close>

theorem nsp_stream_packet:
  assumes "data \<noteq> []" "length data \<le> 1440" "m = nnse_raw_message raw data"
    and "i < length m" "b \<noteq> m ! i" "\<not> (255 \<le> length data \<and> i \<in> {18, 19})"
  shows "nsp_parse_raw_packet (m @ rest) = (None, Some (parsed_of raw data rest))
    \<and> nsp_parse_raw_packet (m[i := b]) \<in> {(Some ERR_INVALID_PACKET, None), (Some ERR_CHECKSUM, None)}"
proof
  show "nsp_parse_raw_packet (m @ rest) = (None, Some (parsed_of raw data rest))"
    unfolding assms(3) by (rule parse_packed [OF assms(1,2)])
  let ?m = "m[i := b]"
  have m: "m = wire_header raw data @ wire_data data" using assms(3) by (simp add: raw_message_parts)
  then have len: "16 \<le> length m" by simp
  note at = header_places [of raw data "wire_data data", folded m]
  show "nsp_parse_raw_packet ?m \<in> {(Some ERR_INVALID_PACKET, None), (Some ERR_CHECKSUM, None)}"
  proof (cases "i < 16")
    case True
    then have "?m ! 15 \<noteq> nsp_header_checksum ?m" using header_sum_changed [OF len at(6) _ assms(5)] by simp
    then show ?thesis using len by (simp add: nsp_parse_raw_packet_def)
  next
    case False
    then have keep: "?m ! k = m ! k" if "k < 16" for k using that by simp
    have place: "data_place m = Some (wire_start data, of_nat (length data))"
      using place_of_data [OF assms(2), of raw "[]"] assms(3) by simp
    show ?thesis
    proof (cases "i < wire_start data")
      case True
      then have ext: "255 \<le> length data" "i = 16 \<or> i = 17"
        using False assms(6) by (auto simp: wire_start_def split: if_splits)
      have "m ! 12 = 0xFF" "20 \<le> length m" using at(3) ext(1) m by (simp_all add: wire_size_def wire_length wire_start_def)
      moreover have "m ! 16 = 0" "m ! 17 = 0"
      proof -
        have n: "unat (of_nat (length data) :: u32) = length data"
          using assms(2) by (simp add: unat_of_nat take_bit_nat_eq_self)
        have "drop_bit k (of_nat (length data) :: u32) = 0" if "k \<in> {16, 24}" for k
        proof -
          have "unat (drop_bit k (of_nat (length data) :: u32)) = drop_bit k (length data)"
            using n by (simp only: unat_drop_bit_eq)
          also have "\<dots> = 0" using that assms(2) by (auto simp: drop_bit_eq_div)
          finally show ?thesis by (simp add: unat_eq_zero)
        qed
        then show "m ! 16 = 0" "m ! 17 = 0" using m ext(1) by (simp_all add: nth_append wire_data_def Let_def)
      qed
      ultimately have "data_place ?m = Some (20, be32 (?m ! 16) (?m ! 17) (?m ! 18) (?m ! 19))"
          "?m ! 16 \<noteq> 0 \<or> ?m ! 17 \<noteq> 0"
        using ext(2) assms(5) by (auto simp: data_place_def)
      then show ?thesis using be32_upper [of "?m ! 16" "?m ! 17" "?m ! 18" "?m ! 19"]
        by (auto simp: nsp_parse_raw_packet_def)
    next
      case False
      then have out: "wire_start data \<le> i" by simp
      then have "16 \<le> i" by (auto simp: wire_start_def split: if_splits)
      have pl: "data_place ?m = Some (wire_start data, of_nat (length data))"
      proof -
        have "?m ! 12 = m ! 12" using \<open>16 \<le> i\<close> by simp
        moreover have "wire_start data = 20 \<Longrightarrow> ?m ! k = m ! k" if "k < 20" for k using that out by simp
        ultimately show ?thesis using place
          by (auto simp: data_place_def wire_start_def split: if_splits)
      qed
      have n: "unat (of_nat (length data) :: u32) = length data"
        using assms(2) by (simp add: unat_of_nat take_bit_nat_eq_self)
      have all: "length data + (wire_start data - 16) = length (wire_data data)" by (simp add: wire_length)
      have d: "drop 16 ?m = (wire_data data)[i - 16 := b]"
        using \<open>16 \<le> i\<close> m by (simp add: drop_update_swap)
      have "i - 16 < length (wire_data data)" "b \<noteq> wire_data data ! (i - 16)"
        using assms(4,5) \<open>16 \<le> i\<close> m by (auto simp: nth_append)
      then have "nsp_compute_crc (drop 16 ?m) \<noteq> nsp_compute_crc (wire_data data)"
        unfolding d by (rule crc_update)
      moreover have "word_at ?m 10 = nsp_compute_crc (wire_data data)"
        using at(11) \<open>16 \<le> i\<close> by (simp add: word_at_def)
      ultimately have "word_at ?m 10 \<noteq> nsp_compute_crc (take (length (wire_data data)) (drop 16 ?m))"
        using d by simp
      then show ?thesis using pl n all m by (auto simp: nsp_parse_raw_packet_def Let_def)
    qed
  qed
qed

lemma nsp_stream_packet_witness:
  "nsp_parse_raw_packet ((nnse_raw_message nsp_zero [7, 8])[17 := 9])
     \<in> {(Some ERR_INVALID_PACKET, None), (Some ERR_CHECKSUM, None)}"
proof -
  have "nnse_raw_message nsp_zero [7, 8] ! 17 = 8" by (simp add: raw_message_parts nth_append wire_data_def)
  moreover have "length (nnse_raw_message nsp_zero [7, 8]) = 18" by (simp add: raw_message_parts wire_data_def)
  ultimately show ?thesis
    using nsp_stream_packet [of "[7, 8]" "nnse_raw_message nsp_zero [7, 8]" nsp_zero 17 9 "[]"] by simp
qed

section \<open>Finding packets\<close>

lemma boundary_after_junk:
  assumes "0x54 \<notin> set junk" "data \<noteq> []" "length data \<le> 1440"
  shows "find_boundary (junk @ nnse_raw_message raw data @ rest) i saw = (None, Some (parsed_of raw data rest, i + length junk))"
  using assms(1)
proof (induction junk arbitrary: i saw)
  case Nil
  let ?m = "nnse_raw_message raw data @ rest"
  obtain b bs where m: "?m = b # bs" by (cases ?m) (auto simp: raw_message_parts dest: arg_cong [of _ _ length])
  have "?m ! 0 = 0x54" "?m ! Suc 0 = 0xFD" "16 \<le> length ?m"
    using header_places(1,2) [of raw data "wire_data data @ rest"] by (simp_all add: raw_message_parts)
  then have "b = 0x54" "bs ! 0 = 0xFD" "16 \<le> length (b # bs)" unfolding m by simp_all
  then show ?case using parse_packed [OF assms(2,3), of raw rest] m by simp
next
  case (Cons b junk)
  have "16 \<le> length (nnse_raw_message raw data)" by (simp add: raw_message_parts)
  then show ?case using Cons by simp
qed

section \<open>Splitting extended packets\<close>

text \<open>The data of the packets: full ones, and one that is not full at the end.\<close>

function frames :: "bytes \<Rightarrow> bytes list" where
  "frames xs = (if length xs < 253 then [xs] else take 253 xs # frames (drop 253 xs))"
  by pat_completeness auto
termination by (relation "measure length") auto

declare frames.simps [simp del]

lemma frames_spec:
  "concat (frames xs) = xs" "length (last (frames xs)) < 253" "\<forall>d\<in>set (butlast (frames xs)). length d = 253"
proof (induction xs rule: frames.induct)
  case (1 xs)
  have ne: "frames ys \<noteq> []" for ys by (subst frames.simps) simp
  have small: "length xs < 253 \<Longrightarrow> frames xs = [xs]"
    and large: "\<not> length xs < 253 \<Longrightarrow> frames xs = take 253 xs # frames (drop 253 xs)"
    by (subst frames.simps, simp)+
  show "concat (frames xs) = xs" using "1.IH"(1) small large by (cases "length xs < 253") simp_all
  show "length (last (frames xs)) < 253" using "1.IH"(2) small large ne by (cases "length xs < 253") simp_all
  show "\<forall>d\<in>set (butlast (frames xs)). length d = 253"
  proof (cases "length xs < 253")
    case False
    then have "set (butlast (frames xs)) = insert (take 253 xs) (set (butlast (frames (drop 253 xs))))"
      using large [OF False] ne by simp
    moreover have "length (take 253 xs) = 253" using False by simp
    ultimately show ?thesis using "1.IH"(3) [OF False] by (metis insert_iff)
  qed (simp add: small)
qed

lemma current_packet:
  "nnse_stream_is_for_current_port h (nsp_pack_raw_message pkt data) = nsp_nnse_port_matches h (np_dst_port pkt)"
  by (simp add: nnse_stream_is_for_current_port_def nsp_pack_raw_message_def nsp_pack_header_def Let_def word_at_def
      be16_MSB_LSB)

definition queued :: "bytes list \<Rightarrow> 'd calc_handle \<Rightarrow> 'd calc_handle" where
  "queued ps = upd_nsp (\<lambda>s. s\<lparr>ns_pending := ns_pending s @ ps\<rparr>)"

lemma queued_simps [simp]:
  "ns_pending (kh_nsp (queued ps h)) = ns_pending (kh_nsp h) @ ps" "queued qs (queued ps h) = queued (ps @ qs) h"
  "nsp_nnse_port_matches (queued ps h) port = nsp_nnse_port_matches h port" "queued [] h = h"
  by (simp_all add: queued_def upd_nsp_def nsp_nnse_port_matches_def)

lemma queue_one:
  assumes "nsp_nnse_port_matches h (np_dst_port pkt)" "length (ns_pending (kh_nsp h)) < 64"
  shows "nsp_nnse_queue_stream (nsp_pack_raw_message pkt data) h = (None, queued [nsp_pack_raw_message pkt data] h)"
  using assms by (simp add: nsp_nnse_queue_stream_def nnse_queue_payload_ex_def current_packet queued_def)

lemma queue_frames:
  assumes "nsp_nnse_port_matches h (np_dst_port pkt)" "n \<le> length data"
    and "length (ns_pending (kh_nsp h)) + n div 253 < 64"
  shows "andthen (queue_chunks pkt cmd data n h)
      (\<lambda>h. if n mod 253 = 0 then nsp_nnse_queue_stream (nsp_pack_raw_message pkt [cmd]) h else (None, h))
    = (None, queued (map (\<lambda>d. nsp_pack_raw_message pkt (cmd # d)) (frames (take n data))) h)"
  using assms
proof (induction n arbitrary: data h rule: less_induct)
  case (less n)
  show ?case
  proof (cases "n < 253")
    case True
    then have f: "frames (take n data) = [take n data]" using less.prems(2) by (subst frames.simps) simp
    have z: "queue_chunks pkt cmd data 0 g = (None, g)" for data and g :: "'a calc_handle"
      by (subst queue_chunks.simps) simp
    show ?thesis
    proof (cases "n = 0")
      case False
      then have "queue_chunks pkt cmd data n h = (None, queued [nsp_pack_raw_message pkt (cmd # take n data)] h)"
        using True less.prems queue_one [of h pkt "cmd # take n data"]
        by (subst queue_chunks.simps) (simp add: Let_def min_def z)
      then show ?thesis using f False True by simp
    qed (use f z less.prems queue_one [of h pkt "[cmd]"] in simp)
  next
    case False
    let ?h = "queued [nsp_pack_raw_message pkt (cmd # take 253 data)] h"
    have div: "n div 253 = Suc ((n - 253) div 253)" "n mod 253 = (n - 253) mod 253"
      using False by (simp_all add: le_div_geq le_mod_geq)
    have "queue_chunks pkt cmd data n h = queue_chunks pkt cmd (drop 253 data) (n - 253) ?h"
      using False less.prems queue_one [of h pkt "cmd # take 253 data"] by (subst queue_chunks.simps) simp
    moreover have "andthen (queue_chunks pkt cmd (drop 253 data) (n - 253) ?h)
        (\<lambda>h. if (n - 253) mod 253 = 0 then nsp_nnse_queue_stream (nsp_pack_raw_message pkt [cmd]) h else (None, h))
      = (None, queued (map (\<lambda>d. nsp_pack_raw_message pkt (cmd # d)) (frames (take (n - 253) (drop 253 data)))) ?h)"
      using less.prems False div(1) by (intro less.IH) auto
    moreover have "frames (take n data) = take 253 data # frames (take (n - 253) (drop 253 data))"
      using False less.prems by (subst frames.simps) (simp add: min_def drop_take)
    ultimately show ?thesis using div(2) by simp
  qed
qed

text \<open>With a size far beyond the data the loop reads behind it before the queue is full.\<close>

lemma queue_runs_away:
  assumes "nsp_nnse_port_matches h (np_dst_port pkt)" "length data < n"
    and "length (ns_pending (kh_nsp h)) + length data div 253 < 64"
  shows "fst (queue_chunks pkt cmd data n h) = Some UNDEFINED_BEHAVIOUR"
  using assms
proof (induction n arbitrary: data h rule: less_induct)
  case (less n)
  show ?case
  proof (cases "length data < 253")
    case True
    then show ?thesis using less.prems by (subst queue_chunks.simps) (simp add: Let_def min_def)
  next
    case False
    let ?h = "queued [nsp_pack_raw_message pkt (cmd # take 253 data)] h"
    have "length data div 253 = Suc ((length data - 253) div 253)" using False by (simp add: le_div_geq)
    then have "fst (queue_chunks pkt cmd (drop 253 data) (n - 253) ?h) = Some UNDEFINED_BEHAVIOUR"
      using less.prems False by (intro less.IH) auto
    moreover have "queue_chunks pkt cmd data n h = queue_chunks pkt cmd (drop 253 data) (n - 253) ?h"
      using False less.prems queue_one [of h pkt "cmd # take 253 data"] by (subst queue_chunks.simps) simp
    ultimately show ?thesis by simp
  qed
qed

text \<open>
  An extended packet in a message, with an empty queue. With a size that fits, the data comes
  out in packets of the usual size, the first one directly and the others through the queue, the
  last of them not full, so that a receiver that does not know the size sees the end. A size too
  large for the message is refused, except for the last twenty sizes below 4 GB: there the 32-bit
  sum wraps around, and the receiver reads behind the message.
\<close>

theorem nsp_extended_packet:
  assumes "20 \<le> length msg" "length msg \<le> 1472" "np_data_size pkt = 0xFF" "length (np_data pkt) = 254"
    and "ns_pending (kh_nsp h) = []" "nsp_nnse_port_matches h (np_dst_port pkt)"
    and e: "e = be32 (msg ! 16) (msg ! 17) (msg ! 18) (msg ! 19)"
    and run: "nnse_contents msg pkt h = (r, pkt', h')"
  shows "if 2 ^ 32 \<le> unat e + 20 then r = Some UNDEFINED_BEHAVIOUR
    else if e = 0 \<or> length msg < unat e + 20 then r = Some ERR_INVALID_PACKET \<and> h' = h
    else r = None \<and> (\<exists>first ds. frames (take (unat e - 1) (drop 21 msg)) = first # ds
        \<and> take (unat (np_data_size pkt')) (np_data pkt') = msg ! 20 # first
        \<and> ns_pending (kh_nsp h') = map (\<lambda>d. nsp_pack_raw_message pkt' (msg ! 20 # d)) ds)"
proof -
  have run': "extended_contents msg pkt h = (r, pkt', h')" using run assms(3) by (simp add: nnse_contents_def)
  have len: "unat (of_nat (length msg) :: u32) = length msg"
    using assms(2) by (simp add: unat_of_nat take_bit_nat_eq_self)
  have e32: "unat e < 2 ^ 32" using unsigned_less [of e] by simp
  have plus: "e + 16 + 4 = e + 20" by simp
  show ?thesis
  proof (cases "2 ^ 32 \<le> unat e + 20")
    case True
    then have wrap: "unat (e + 20) = unat e + 20 - 2 ^ 32" using e32 by (simp add: unat_word_ariths mod_if)
    have "\<not> e < 1" using True by (auto simp: word_less_nat_alt)
    moreover have "\<not> of_nat (length msg) < e + 16 + 4"
      using wrap e32 assms(1) len unfolding plus by (simp add: word_less_nat_alt)
    moreover have big: "253 < unat e - 1" "2000 < unat e - 1 - 253" using True by simp_all
    ultimately have "fst (extended_contents msg pkt h) = Some UNDEFINED_BEHAVIOUR"
    proof (cases "length msg < 274")
      case False
      let ?p = "(store_data (msg ! 20 # take 253 (drop 21 msg)) pkt)"
      let ?q = "?p\<lparr>np_data_size := of_nat (253 + 1), np_data_sum := compute_crc (take (253 + 1) (np_data ?p))\<rparr>"
      have "fst (queue_chunks ?q (msg ! 20) (drop 253 (drop 21 msg)) (unat e - 1 - 253) h) = Some UNDEFINED_BEHAVIOUR"
        using assms(2,5,6) big(2) by (intro queue_runs_away) (auto simp: store_data_def)
      then have "fst (nsp_queue_nnse_split_packet ?q (msg ! 20) (drop 253 (drop 21 msg)) (unat e - 1 - 253) h) = Some UNDEFINED_BEHAVIOUR"
        by (auto simp: nsp_queue_nnse_split_packet_def andthen_def split: prod.splits option.splits)
      moreover have "\<not> length msg < 20" "\<not> length msg < 21 + 253" "min 253 (unat e - 1) = 253"
        using assms(1) False big(1) by simp_all
      ultimately show ?thesis
        using \<open>\<not> e < 1\<close> \<open>\<not> of_nat (length msg) < e + 16 + 4\<close> big(1) unfolding extended_contents_def e [symmetric] Let_def
        by (auto split: prod.splits)
    qed (use assms(1) \<open>\<not> e < 1\<close> \<open>\<not> of_nat (length msg) < e + 16 + 4\<close> big in
          \<open>simp add: extended_contents_def e [symmetric] Let_def\<close>)
    then show ?thesis using run' True by simp
  next
    case False
    then have sum: "unat (e + 16 + 4) = unat e + 20" unfolding plus by (simp add: unat_word_ariths)
    show ?thesis
    proof (cases "e = 0 \<or> length msg < unat e + 20")
      case True
      then have "e < 1 \<or> of_nat (length msg) < e + 16 + 4" using sum len by (auto simp: word_less_nat_alt)
      then show ?thesis using run' assms(1) False True by (auto simp: extended_contents_def e [symmetric] Let_def)
    next
      case fits: False
      then have ok: "\<not> e < 1" "\<not> of_nat (length msg) < e + 16 + 4"
        using sum len by (auto simp: word_less_nat_alt unat_gt_0 Suc_le_eq)
      define n where "n = unat e - 1"
      define X where "X = take n (drop 21 msg)"
      define k where "k = min 253 n"
      have n: "unat e = n + 1" "n \<le> length (drop 21 msg)" "length X = n" "n \<le> 1451" "n + 21 \<le> length msg"
        using fits assms(2) unat_gt_0 [of e] by (auto simp: n_def X_def)
      define p where "p = store_data (msg ! 20 # take k (drop 21 msg)) pkt"
      define q where "q = p\<lparr>np_data_size := of_nat (k + 1), np_data_sum := compute_crc (take (k + 1) (np_data p))\<rparr>"
      have k: "k \<le> 253" "k \<le> n" by (simp_all add: k_def)
      have size: "unat (of_nat (k + 1) :: u8) = k + 1" 
        using k unat_of_nat [of "k + 1", where 'a = 8] by (simp add: take_bit_nat_eq_self del: of_nat_add of_nat_Suc)
      have first: "take (unat (np_data_size q)) (np_data q) = msg ! 20 # take k X"
        using n(2) k size by (simp add: q_def p_def store_data_def X_def min_def)
      have port: "nsp_nnse_port_matches h (np_dst_port q)" using assms(6) by (simp add: q_def p_def store_data_def)
      have code: "extended_contents msg pkt h =
          (let (r, h) = (if k < n then nsp_queue_nnse_split_packet q (msg ! 20) (drop k (drop 21 msg)) (n - k) h
                         else if k + 1 = 254 then nsp_nnse_queue_stream (nsp_pack_raw_message q [msg ! 20]) h
                         else (None, h)) in (r, q, h))"
        using assms(1) ok n(5) k unfolding extended_contents_def e [symmetric] Let_def n_def [symmetric]
          k_def [symmetric] p_def [symmetric] q_def [symmetric] by simp
      consider "n < 253" | "n = 253" | "253 < n" by linarith
      then show ?thesis
      proof cases
        case 1
        then have "frames X = [take k X]" using n(3) by (subst frames.simps) (simp add: k_def)
        moreover have "r = None" "pkt' = q" "h' = h" using code run' 1 by (simp_all add: k_def)
        ultimately show ?thesis using False fits first assms(5) by (auto simp: X_def n_def)
      next
        case 2
        have "frames [] = [[]]" by (subst frames.simps) simp
        then have "frames X = [take k X, []]" using n(3) 2 by (subst frames.simps) (simp add: k_def)
        moreover have "r = None" "pkt' = q" "h' = queued [nsp_pack_raw_message q [msg ! 20]] h"
          using code run' 2 queue_one [OF port, of "[msg ! 20]"] assms(5) by (simp_all add: k_def)
        ultimately show ?thesis using False fits first assms(5) by (auto simp: X_def n_def)
      next
        case 3
        then have k253: "k = 253" by (simp add: k_def)
        have "frames X = take k X # frames (take (n - k) (drop k (drop 21 msg)))"
          using n(3) 3 k253 by (subst frames.simps) (simp add: X_def drop_take)
        moreover have "nsp_queue_nnse_split_packet q (msg ! 20) (drop k (drop 21 msg)) (n - k) h
            = (None, queued (map (\<lambda>d. nsp_pack_raw_message q (msg ! 20 # d)) (frames (take (n - k) (drop k (drop 21 msg))))) h)"
          using queue_frames [OF port, of "n - k" "drop k (drop 21 msg)" "msg ! 20"] n k253 3 assms(5)
          by (simp add: nsp_queue_nnse_split_packet_def)
        then have "r = None" "pkt' = q"
          "h' = queued (map (\<lambda>d. nsp_pack_raw_message q (msg ! 20 # d)) (frames (take (n - k) (drop k (drop 21 msg))))) h"
          using code run' 3 k253 by simp_all
        ultimately show ?thesis using False fits first assms(5) by (auto simp: X_def n_def)
      qed
    qed
  qed
qed

lemma nsp_extended_packet_witness:
  "fst (nnse_contents (replicate 16 0 @ [0xFF, 0xFF, 0xFF, 0xFF]) (nsp_zero\<lparr>np_data_size := 0xFF\<rparr>) (nnse_handle []))
     = Some UNDEFINED_BEHAVIOUR"
proof -
  let ?msg = "replicate 16 0 @ [0xFF, 0xFF, 0xFF, 0xFF] :: bytes"
  obtain r pkt' h' where run: "nnse_contents ?msg (nsp_zero\<lparr>np_data_size := 0xFF\<rparr>) (nnse_handle []) = (r, pkt', h')"
    by (meson prod_cases3)
  have "be32 0xFF 0xFF 0xFF 0xFF = 0xFFFFFFFF" by (simp add: be32_def)
  then show ?thesis
    using nsp_extended_packet [OF _ _ _ _ _ _ refl run] run
    by (simp add: nsp_zero_def nsp_nnse_port_matches_def nnse_port_matches_def nsp_reset_state_def nth_append)
qed

end
