(* ===== verification/NspExchange.thy ===== *)
theory NspExchange
  imports NspPackets
begin

text \<open>
  The NSpire protocol on a link with plain NavNet framing: raw packets, acknowledgements, and
  virtual packets in fragments, on both sides of the link.
\<close>

section \<open>Sessions\<close>

lemma session_opened:
  "unat (ns_src_port (kh_nsp (snd (nsp_session_open port h))))
     = (if unat (ns_src_port (kh_nsp h)) \<in> {0x8000..<0x8FFF} then unat (ns_src_port (kh_nsp h)) + 1 else 0x8000)"
  by (auto simp: nsp_session_open_def word_less_nat_alt word_le_nat_alt unat_word_ariths)

text \<open>
  Every session gets a port of its own: from a port outside of the range for clients the
  ports go through the range of 4096 ports in order and start again behind its end.
\<close>

theorem nsp_session_ports:
  assumes "unat (ns_src_port (kh_nsp h)) \<notin> {0x8000..<0x8FFF}"
  shows "unat (ns_src_port (kh_nsp (((\<lambda>h. snd (nsp_session_open port h)) ^^ Suc k) h))) = 0x8000 + k mod 4096"
proof (induction k)
  case (Suc k)
  let ?g = "((\<lambda>h. snd (nsp_session_open port h)) ^^ Suc k) h"
  have "unat (ns_src_port (kh_nsp (snd (nsp_session_open port ?g))))
      = (if k mod 4096 < 4095 then 0x8001 + k mod 4096 else 0x8000)"
    unfolding session_opened Suc by auto
  moreover have "Suc k mod 4096 = (if k mod 4096 < 4095 then Suc (k mod 4096) else 0)"
    using mod_less_divisor [of 4096 k] by (auto simp: mod_Suc)
  ultimately show ?case by simp
qed (use assms in \<open>simp add: session_opened\<close>)

lemma nsp_session_ports_witness:
  "unat (ns_src_port (kh_nsp (((\<lambda>h. snd (nsp_session_open 0x4060 h)) ^^ Suc 4096) (nnse_handle [])))) = 0x8000"
  using nsp_session_ports [where h = "nnse_handle []" and port = "0x4060" and k = 4096] by (simp add: nsp_reset_state_def)

section \<open>What is on the link\<close>

text \<open>
  The pieces of the data of a virtual packet; the sequence numbers, which leave out zero; a piece as
  the sender puts it into a raw packet, and the acknowledgement that the receiver answers with.
\<close>

function pieces :: "bytes \<Rightarrow> bytes list" where
  "pieces data = (if length data \<le> 253 then [data] else take 253 data # pieces (drop 253 data))"
  by pat_completeness auto
termination by (relation "measure length") auto

declare pieces.simps [simp del]

definition seq_used :: "u8 \<Rightarrow> u8" where
  "seq_used k = (if k = 0 then 1 else k)"

definition piece_wire :: "nsp_vtl \<Rightarrow> u8 \<Rightarrow> bytes \<Rightarrow> bytes" where
  "piece_wire v k piece =
     nsp_pack_header (nv_src_addr v) (nv_src_port v) (nv_dst_addr v) (nv_dst_port v)
       (compute_crc (nv_cmd v # piece)) (of_nat (length piece + 1)) 0 (seq_used k) @ nv_cmd v # piece"

definition ack_wire :: "u16 \<Rightarrow> u16 \<Rightarrow> u8 \<Rightarrow> bytes" where
  "ack_wire src dst k =
     nsp_pack_header 0x6400 0x00FF 0x6401 dst (compute_crc [MSB src, LSB src]) 2 0x0A k @ [MSB src, LSB src]"

fun pieces_wire :: "nsp_vtl \<Rightarrow> u8 \<Rightarrow> bytes list \<Rightarrow> bytes" where
  "pieces_wire v k [] = []"
| "pieces_wire v k (c # cs) = piece_wire v k c @ pieces_wire v (seq_used k + 1) cs"

fun acks_wire :: "u16 \<Rightarrow> u16 \<Rightarrow> u8 \<Rightarrow> bytes list \<Rightarrow> bytes" where
  "acks_wire src dst k [] = []"
| "acks_wire src dst k (c # cs) = ack_wire src dst (seq_used k) @ acks_wire src dst (seq_used k + 1) cs"

fun seq_after :: "u8 \<Rightarrow> bytes list \<Rightarrow> u8" where
  "seq_after k [] = k"
| "seq_after k (c # cs) = seq_after (seq_used k + 1) cs"

text \<open>A raw packet that is used for the pieces of a packet, and ports of a session that data is sent on.\<close>

definition carries :: "nsp_vtl \<Rightarrow> nsp_raw \<Rightarrow> bool" where
  "carries v raw \<longleftrightarrow> np_src_addr raw = nv_src_addr v \<and> np_src_port raw = nv_src_port v
     \<and> np_dst_addr raw = nv_dst_addr v \<and> np_dst_port raw = nv_dst_port v \<and> np_ack raw = 0 \<and> length (np_data raw) = 254"

definition data_ports :: "u16 \<Rightarrow> u16 \<Rightarrow> bool" where
  "data_ports p q \<longleftrightarrow> \<not> control_port p \<and> p \<noteq> 0x4003 \<and> q \<noteq> 0x4003 \<and> q \<noteq> 0x4050 \<and> MSB q \<noteq> 0x04 \<and> MSB q \<noteq> 0xFF"

lemma pieces_wire_append:
  "pieces_wire v k (cs @ ds) = pieces_wire v k cs @ pieces_wire v (seq_after k cs) ds"
  "acks_wire src dst k (cs @ ds) = acks_wire src dst k cs @ acks_wire src dst (seq_after k cs) ds"
  "seq_after k (cs @ ds) = seq_after (seq_after k cs) ds"
  by (induction cs arbitrary: k) auto

text \<open>The pieces as the sender makes them: the full ones, and the rest.\<close>

primrec full :: "nat \<Rightarrow> bytes \<Rightarrow> bytes list" where
  "full 0 data = []"
| "full (Suc q) data = take 253 data # full q (drop 253 data)"

lemma pieces_full:
  "pieces data = full (length data div 253) data
     @ (if length data mod 253 \<noteq> 0 \<or> data = [] then [drop (253 * (length data div 253)) data] else [])"
proof (induction data rule: pieces.induct)
  case (1 data)
  show ?case
  proof (cases "length data \<le> 253")
    case True
    then show ?thesis by (cases "length data = 253") (auto simp: pieces.simps [of data] div_if)
  next
    case False
    then have q: "length data div 253 = Suc ((length data - 253) div 253)"
      by (simp add: le_div_geq)
    have "length data mod 253 = (length data - 253) mod 253"
      using False by (simp add: le_mod_geq)
    moreover have "data \<noteq> []" "drop 253 data \<noteq> []" using False by auto
    ultimately show ?thesis using 1 False q by (simp add: pieces.simps [of data] add.commute)
  qed
qed

lemma pack_header_length [simp]: "length (nsp_pack_header a b c d e f g i) = 16"
  by (simp add: nsp_pack_header_def Let_def)

lemma wire_lengths [simp]: "length (ack_wire src dst k) = 18" "length (piece_wire v k c) = length c + 17"
  by (simp_all add: ack_wire_def piece_wire_def)

lemma acks_length: "length (acks_wire src dst k cs) = 18 * length cs"
  by (induction cs arbitrary: k) simp_all

text \<open>A header read back.\<close>

lemma header_read:
  "header_fields (nsp_pack_header a b c d e f g i @ bs) pkt =
     pkt\<lparr>np_unused := 0x54FD, np_src_addr := a, np_src_port := b, np_dst_addr := c, np_dst_port := d,
         np_data_sum := e, np_data_size := f, np_ack := g, np_seq := i,
         np_hdr_sum := nsp_pack_header a b c d e f g i ! 15\<rparr>"
proof -
  have "be16 0x54 0xFD = 0x54FD" by code_simp
  then show ?thesis
    by (simp add: header_fields_def nsp_pack_header_def Let_def word_at_def be16_MSB_LSB)
qed

section \<open>Raw packets on a link\<close>

locale navnet_link = quiet_link send recv sent avail room ok E
  for send :: "'d \<Rightarrow> bytes \<Rightarrow> ret \<times> 'd" and recv :: "'d \<Rightarrow> nat \<Rightarrow> ret \<times> bytes \<times> 'd"
    and sent avail :: "'d \<Rightarrow> bytes" and room :: "'d \<Rightarrow> nat" and ok :: "'d \<Rightarrow> bool"
    and E :: "'d calc_env" +
  fixes N :: "'d nsp_env"
  assumes calc_env: "ne_calc N = E"
begin

definition navnet :: "'d calc_handle \<Rightarrow> bool" where
  "navnet h \<longleftrightarrow> ready h \<and> ns_nnse_mode (kh_nsp h) = 1"

text \<open>The effect of a call, with the state it leaves for the protocol.\<close>

definition went :: "'d calc_handle \<Rightarrow> bytes \<Rightarrow> nat \<Rightarrow> nsp_state \<Rightarrow> 'd calc_handle \<Rightarrow> bool" where
  "went h out n s h' \<longleftrightarrow> moved h out n h' \<and> kh_nsp h' = s"

lemma went_trans: "went h out n s h1 \<Longrightarrow> went h1 out' n' s' h2 \<Longrightarrow> went h (out @ out') (n + n') s' h2"
  using moved_trans by (auto simp: went_def)

lemma moved_start:
  "moved (progress_reset h) out n h' = moved h out n h'" "moved (upd_nsp f h) out n h' = moved h out n h'"
  by (simp_all add: moved_def progress_reset_quiet upd_nsp_def) (simp add: progress_reset_def)

lemma moved_end: "moved h out n (upd_nsp f h') = moved h out n h'"
  by (simp add: moved_def ready_def upd_nsp_def)

lemma busy_val_went:
  assumes "body (h\<lparr>kh_busy := True\<rparr>) = (r, x, g)" "moved (h\<lparr>kh_busy := True\<rparr>) out n g"
  shows "\<exists>h'. with_busy_val h body = (r, x, h') \<and> went h out n (kh_nsp g) h'"
  using assms by (auto simp: with_busy_val_def busy_taken clear_busy_if_necessary_def moved_def ready_def went_def)

lemma busy_went:
  assumes "body (h\<lparr>kh_busy := True\<rparr>) = (r, g)" "moved (h\<lparr>kh_busy := True\<rparr>) out n g"
  shows "\<exists>h'. with_busy h body = (r, h') \<and> went h out n (kh_nsp g) h'"
  using assms by (auto simp: with_busy_def busy_taken clear_busy_if_necessary_def moved_def ready_def went_def)

lemma plain_mode: "navnet h \<Longrightarrow> nsp_nnse_enabled N h = (False, h)"
  by (simp add: navnet_def nsp_nnse_enabled_def)

lemma raw_sent:
  assumes "navnet h" "length (np_data pkt) = 254" "np_data_size pkt \<le> 254"
    and "numbered False pkt (h\<lparr>kh_busy := True\<rparr>) = (pkt1, h1)" "16 + unat (np_data_size pkt) \<le> c_room (kh_cable h)"
  shows "\<exists>h'. nsp_send fuel N pkt h = (None, pkt1\<lparr>np_hdr_sum := raw_header pkt1 ! 15\<rparr>, h')
     \<and> went h (raw_header pkt1 @ take (unat (np_data_size pkt)) (np_data pkt)) 0 (kh_nsp h1) h'"
proof -
  let ?h = "h\<lparr>kh_busy := True\<rparr>" let ?n = "unat (np_data_size pkt)"
  let ?out = "raw_header pkt1 @ take ?n (np_data pkt)"
  obtain f where h1: "h1 = upd_nsp f ?h"
    using assms(4) unfolding numbered_def Let_def
    by (auto split: if_splits simp: upd_nsp_def intro: that [of "\<lambda>s. s"] that [of "\<lambda>s. s\<lparr>ns_seq_pc := 1\<rparr>"])
  have same: "np_data pkt1 = np_data pkt" "np_data_size pkt1 = np_data_size pkt"
    using assms(4) by (auto simp: numbered_def Let_def split: if_splits)
  have n: "?n \<le> 254" using assms(3) by (simp add: word_le_nat_alt)
  have out: "length ?out = 16 + ?n"
    using n assms(2) by (simp add: raw_header_def nsp_pack_header_def Let_def)
  have "ready h1" using assms(1) by (simp add: navnet_def h1 ready_def upd_nsp_def)
  then have rd: "ready (progress_reset h1)" by simp
  have room: "c_room (kh_cable (progress_reset h1)) = c_room (kh_cable h)" by (simp add: h1 progress_reset_quiet)
  obtain h2 where h2: "cable_send E ?out (progress_reset h1) = (None, h2)" "stepped (progress_reset h1) ?out 0 h2"
    using send_stepped [OF rd, of ?out] out room assms(5) by auto
  have h2': "moved ?h ?out 0 h2" "kh_nsp h2 = kh_nsp h1" "ready h2"
    using h2(2) by (auto simp: stepped_def moved_start h1 dest: moved_ready) (simp_all add: progress_reset_def)
  have "check_cancel h2 = (None, h2)" using h2'(3) by (simp add: check_cancel_quiet ready_def)
  moreover have "nsp_nnse_enabled N ?h = (False, ?h)" using assms(1) by (simp add: plain_mode navnet_def)
  ultimately show ?thesis
    unfolding nsp_send_def h2'(2) [symmetric]
    by (intro busy_val_went [OF _ h2'(1)]) (use h2(1) n assms(2,4) same in \<open>simp add: calc_env fire_quiet Let_def\<close>)
qed

lemma raw_received:
  assumes "navnet h" "c_avail (kh_cable h) = nsp_pack_header a b c d e n i j @ bs @ rest" "length bs = unat n" "n \<le> 254"
  shows "\<exists>h'. nsp_recv fuel N pkt h = (None, store_data bs (pkt\<lparr>np_unused := 0x54FD, np_src_addr := a, np_src_port := b,
         np_dst_addr := c, np_dst_port := d, np_data_sum := e, np_data_size := n, np_ack := i, np_seq := j,
         np_hdr_sum := nsp_pack_header a b c d e n i j ! 15\<rparr>), h')
     \<and> went h [] (16 + unat n) (kh_nsp (count_seq b j h)) h'"
proof -
  let ?h = "progress_reset (h\<lparr>kh_busy := True\<rparr>)" let ?hdr = "nsp_pack_header a b c d e n i j"
  let ?pkt = "pkt\<lparr>np_unused := 0x54FD, np_src_addr := a, np_src_port := b,
         np_dst_addr := c, np_dst_port := d, np_data_sum := e, np_data_size := n, np_ack := i, np_seq := j,
         np_hdr_sum := ?hdr ! 15\<rparr>"
  have av: "c_avail (kh_cable ?h) = ?hdr @ bs @ rest" using assms(2) by (simp add: progress_reset_quiet)
  have "ready ?h" using assms(1) by (simp add: navnet_def)
  then obtain h1 where h1: "cable_recv E 16 ?h = (None, ?hdr, h1)" "stepped ?h [] 16 h1"
    using recv_stepped [of ?h 16] av by auto
  let ?h1 = "count_seq b j h1"
  have av1: "c_avail (kh_cable ?h1) = bs @ rest"
    using h1(2) av by (simp add: stepped_def moved_def count_seq_def upd_nsp_def)
  have m1: "moved ?h [] 16 ?h1" using h1(2) by (simp add: stepped_def count_seq_def moved_end)
  then have rd: "ready ?h1" by (rule moved_ready)
  have nsp1: "kh_nsp ?h1 = kh_nsp (count_seq b j h)"
    using h1(2) by (simp add: stepped_def count_seq_def upd_nsp_def progress_reset_def)
  have hf: "header_fields ?hdr pkt = ?pkt" using header_read [of a b c d e n i j "[]"] by simp
  obtain h2 where h2: "nsp_recv_legacy N pkt ?h = (None, store_data bs ?pkt, h2)" "moved ?h [] (16 + unat n) h2"
      "kh_nsp h2 = kh_nsp ?h1"
  proof (cases "n = 0")
    case True
    then show ?thesis
      using that [of ?h1] m1 rd h1(1) hf assms(3)
      by (auto simp: nsp_recv_legacy_def calc_env check_cancel_quiet ready_def store_data_def)
  next
    case False
    obtain h2 where h2: "cable_recv E (unat n) ?h1 = (None, bs, h2)" "stepped ?h1 [] (unat n) h2"
      using recv_stepped [OF rd, of "unat n"] av1 assms(3) by auto
    have "ready h2" using h2(2) moved_ready by (auto simp: stepped_def)
    moreover have "moved ?h [] (16 + unat n) h2" "kh_nsp h2 = kh_nsp ?h1"
      using moved_trans [OF m1, of "[]" "unat n" h2] h2(2) by (simp_all add: stepped_def)
    ultimately show ?thesis
      using that [of h2] False h1(1) h2(1) hf assms(4)
      by (simp add: nsp_recv_legacy_def calc_env check_cancel_quiet ready_def word_less_nat_alt word_le_nat_alt Let_def)
  qed
  have m2: "moved (h\<lparr>kh_busy := True\<rparr>) [] (16 + unat n) h2" using h2(2) by (simp add: moved_start)
  have "nsp_nnse_enabled N ?h = (False, ?h)"
    using assms(1) by (simp add: plain_mode navnet_def) (simp add: progress_reset_def nsp_nnse_enabled_def)
  then show ?thesis
    unfolding nsp_recv_def h2(3) [unfolded nsp1, symmetric]
    by (intro busy_val_went [OF _ m2]) (use h2(1) in \<open>simp add: calc_env fire_quiet Let_def\<close>)
qed

lemma navnet_went: "went h out n s h' \<Longrightarrow> ns_nnse_mode s = 1 \<Longrightarrow> navnet h'"
  by (auto simp: went_def navnet_def dest: moved_ready)

lemma numbered_control:
  "control_port (np_src_port pkt) \<Longrightarrow> numbered b pkt h =
     (pkt\<lparr>np_data_sum := compute_crc (take (unat (np_data_size pkt)) (np_data pkt)), np_ack := 0x0a,
          np_seq := ns_seq (kh_nsp h)\<rparr>, h)"
  by (simp add: numbered_def Let_def)

lemma reply_sent:
  assumes "navnet h" "18 \<le> c_room (kh_cable h)" "kh_nsp h = s"
  shows "\<exists>h'. nsp_send_ack fuel N h = (None, h') \<and> went h (ack_wire (ns_src_port s) (ns_dst_port s) (ns_seq s)) 0 s h'"
proof -
  let ?bs = "[MSB (ns_src_port s), LSB (ns_src_port s)]"
  let ?pkt = "pc_packet 0x00FF (ns_dst_port s) ?bs"
  have d: "np_data_size ?pkt = 2" "length (np_data ?pkt) = 254" "take 2 (np_data ?pkt) = ?bs"
    "control_port (np_src_port ?pkt)"
    by (simp_all add: pc_packet_def store_data_def nsp_zero_def control_port_def ack_port_def)
  let ?pkt1 = "?pkt\<lparr>np_data_sum := compute_crc ?bs, np_ack := 0x0a, np_seq := ns_seq s\<rparr>"
  have "numbered False ?pkt (h\<lparr>kh_busy := True\<rparr>) = (?pkt1, h\<lparr>kh_busy := True\<rparr>)"
    using d numbered_control [of ?pkt False "h\<lparr>kh_busy := True\<rparr>"] assms(3) by simp
  moreover have "raw_header ?pkt1 @ ?bs = ack_wire (ns_src_port s) (ns_dst_port s) (ns_seq s)"
    by (simp add: raw_header_def ack_wire_def pc_packet_def store_data_def)
  moreover have "np_data_size ?pkt \<le> 254" "16 + unat (np_data_size ?pkt) \<le> c_room (kh_cable h)"
    "unat (np_data_size ?pkt) = 2" using d(1) assms(2) by simp_all
  ultimately obtain h' where "nsp_send fuel N ?pkt h = (None, ?pkt1\<lparr>np_hdr_sum := raw_header ?pkt1 ! 15\<rparr>, h')"
      "went h (ack_wire (ns_src_port s) (ns_dst_port s) (ns_seq s)) 0 (kh_nsp (h\<lparr>kh_busy := True\<rparr>)) h'"
    using raw_sent [OF assms(1) d(2)] d(3) by metis
  then show ?thesis using assms(3) by (auto simp: nsp_send_ack_def send_raw_def)
qed

lemma reply_received:
  assumes "navnet h" "c_avail (kh_cable h) = ack_wire q p k @ rest" "kh_nsp h = s"
    and "ns_src_port s = p" "ns_dst_port s = q" "MSB q \<noteq> 0x04" "MSB q \<noteq> 0xFF"
  shows "\<exists>h'. nsp_recv_ack (Suc fuel) N h = (None, h') \<and> went h [] 18 (s\<lparr>ns_seq_pc := ns_seq_pc s + 1\<rparr>) h'"
proof -
  obtain pkt' h' where h': "nsp_recv (Suc fuel) N nsp_zero h = (None, pkt', h')"
      "went h [] 18 (kh_nsp (count_seq 0x00FF k h)) h'"
      "np_data_size pkt' = 2" "np_ack pkt' = 0x0A" "np_src_port pkt' = 0x00FF" "np_dst_port pkt' = p"
      "take 2 (np_data pkt') = [MSB q, LSB q]"
    using raw_received [where a = "0x6400" and b = "0x00FF" and c = "0x6401" and d = p and n = 2 and i = "0x0A" and j = k
        and e = "compute_crc [MSB q, LSB q]" and bs = "[MSB q, LSB q]" and fuel = "Suc fuel" and pkt = nsp_zero, OF assms(1)]
      assms(2) by (auto simp: ack_wire_def store_data_def)
  have data: "np_data pkt' ! 0 = MSB q" "np_data pkt' ! 1 = LSB q"
    using h'(7) by (metis nth_take nth_Cons_0 zero_less_numeral, metis nth_take nth_Cons_0 nth_Cons_Suc One_nat_def one_less_numeral_iff semiring_norm(76))
  have s': "kh_nsp (count_seq 0x00FF k h) = s\<lparr>ns_seq_pc := ns_seq_pc s + 1\<rparr>"
    using assms(3) by (simp add: count_seq_def upd_nsp_def control_port_def ack_port_def)
  then have "kh_nsp h' = s\<lparr>ns_seq_pc := ns_seq_pc s + 1\<rparr>" using h'(2) by (simp add: went_def)
  then have "expected_ack pkt' (kh_nsp h')"
    using h' data assms(4,5) by (simp add: expected_ack_def word_at_def be16_MSB_LSB)
  then have "nsp_recv_ack (Suc fuel) N h = (None, h')"
    using h'(1,3,4) data assms(6,7) plain_mode [OF assms(1)] by (simp add: nsp_recv_ack_def)
  then show ?thesis using h'(2) s' by auto
qed

lemma piece_sent:
  assumes "navnet h" "kh_nsp h = s" "carries v raw" "data_ports (nv_src_port v) (nv_dst_port v)"
    and "ns_src_port s = nv_src_port v" "ns_dst_port s = nv_dst_port v" "length c \<le> 253"
    and "c_avail (kh_cable h) = ack_wire (nv_dst_port v) (nv_src_port v) k @ rest" "17 + length c \<le> c_room (kh_cable h)"
  shows "\<exists>raw' h'. send_acked (Suc fuel) N (nv_cmd v) c raw h = (None, raw', h') \<and> carries v raw'
     \<and> went h (piece_wire v (ns_seq_pc s) c) 18 (s\<lparr>ns_seq_pc := seq_used (ns_seq_pc s) + 1\<rparr>) h'"
proof -
  define n :: u8 where "n = of_nat (length c + 1)"
  let ?raw = "store_data (nv_cmd v # c) (raw\<lparr>np_data_size := n\<rparr>)"
  let ?k = "seq_used (ns_seq_pc s)" let ?crc = "compute_crc (nv_cmd v # c)"
  have n: "unat n = length c + 1"
    using assms(7) unfolding n_def by (simp only: unat_of_nat) (simp add: take_bit_nat_eq_self)
  have d: "unat (np_data_size ?raw) = length c + 1"
    "length (np_data ?raw) = 254" "take (length c + 1) (np_data ?raw) = nv_cmd v # c" "\<not> control_port (np_src_port ?raw)"
    using n assms(3,4,7) by (simp_all add: store_data_def carries_def data_ports_def)
  let ?raw1 = "?raw\<lparr>np_data_sum := ?crc, np_seq := ?k\<rparr>"
  let ?s1 = "s\<lparr>ns_seq_pc := ?k\<rparr>"
  obtain h0 where h0: "numbered False ?raw (h\<lparr>kh_busy := True\<rparr>) = (?raw1, h0)" "kh_nsp h0 = ?s1"
    using d assms(2) by (cases "ns_seq_pc s = 0") (auto simp: numbered_def upd_nsp_def seq_used_def Let_def)
  have wire: "raw_header ?raw1 @ nv_cmd v # c = piece_wire v (ns_seq_pc s) c"
    using assms(3) by (simp add: raw_header_def piece_wire_def store_data_def carries_def n_def)
  have "np_data_size ?raw \<le> 254" "16 + unat (np_data_size ?raw) \<le> c_room (kh_cable h)"
    using d(1) assms(7,9) by (simp_all add: word_le_nat_alt)
  then obtain h1 where h1: "nsp_send (Suc fuel) N ?raw h = (None, ?raw1\<lparr>np_hdr_sum := raw_header ?raw1 ! 15\<rparr>, h1)"
      "went h (piece_wire v (ns_seq_pc s) c) 0 ?s1 h1"
    using raw_sent [OF assms(1) d(2) _ h0(1), of "Suc fuel"] d(1,3) h0(2) wire by auto
  have "navnet h1" using assms(1,2) navnet_went [OF h1(2)] by (simp add: navnet_def)
  moreover have "c_avail (kh_cable h1) = ack_wire (nv_dst_port v) (nv_src_port v) k @ rest"
    using h1(2) assms(8) by (simp add: went_def moved_def)
  moreover have "kh_nsp h1 = ?s1" using h1(2) by (simp add: went_def)
  ultimately obtain h2 where h2: "nsp_recv_ack (Suc fuel) N h1 = (None, h2)" "went h1 [] 18 (?s1\<lparr>ns_seq_pc := ?k + 1\<rparr>) h2"
    using reply_received [of h1 "nv_dst_port v" "nv_src_port v" k rest ?s1 fuel] assms(4-6) by (auto simp: data_ports_def)
  let ?raw2 = "?raw1\<lparr>np_hdr_sum := raw_header ?raw1 ! 15\<rparr>"
  have c2: "carries v ?raw2" using assms(3) d(2) by (simp add: carries_def store_data_def)
  then have "np_src_port ?raw2 \<noteq> 0x4003" "np_dst_port ?raw2 \<noteq> 0x4003" using assms(4) by (auto simp: carries_def data_ports_def)
  then have "send_acked (Suc fuel) N (nv_cmd v) c raw h = (None, ?raw2, h2)"
    unfolding send_acked_def n_def [symmetric] Let_def using h1(1) h2(1) by simp
  moreover have "went h (piece_wire v (ns_seq_pc s) c) 18 (s\<lparr>ns_seq_pc := ?k + 1\<rparr>) h2"
    using went_trans [OF h1(2) h2(2)] by simp
  ultimately show ?thesis using c2 by blast
qed

lemma went_progress:
  "went h out n s (ticalcs_update_pbar E (set_cnt1 a (set_max1 b h'))) = went h out n s h'"
proof -
  have "ready (ticalcs_update_pbar E (set_cnt1 a (set_max1 b h'))) = ready h'" by simp
  then show ?thesis by (simp add: went_def moved_def) (simp add: ticalcs_update_pbar_def set_cnt1_def set_max1_def)
qed

text \<open>The sender's side of the exchange for some pieces.\<close>

definition can_send :: "nsp_vtl \<Rightarrow> nsp_state \<Rightarrow> bytes list \<Rightarrow> bytes \<Rightarrow> 'd calc_handle \<Rightarrow> bool" where
  "can_send v s cs rest h \<longleftrightarrow> navnet h \<and> kh_nsp h = s \<and> data_ports (nv_src_port v) (nv_dst_port v)
     \<and> ns_src_port s = nv_src_port v \<and> ns_dst_port s = nv_dst_port v
     \<and> c_avail (kh_cable h) = acks_wire (nv_dst_port v) (nv_src_port v) (ns_seq_pc s) cs @ rest
     \<and> length (pieces_wire v (ns_seq_pc s) cs) \<le> c_room (kh_cable h)"

abbreviation (input) sent_seq :: "nsp_state \<Rightarrow> bytes list \<Rightarrow> nsp_state" where
  "sent_seq s cs \<equiv> s\<lparr>ns_seq_pc := seq_after (ns_seq_pc s) cs\<rparr>"

definition has_sent :: "nsp_vtl \<Rightarrow> nsp_state \<Rightarrow> bytes list \<Rightarrow> 'd calc_handle \<Rightarrow> 'd calc_handle \<Rightarrow> bool" where
  "has_sent v s cs h h' \<longleftrightarrow> went h (pieces_wire v (ns_seq_pc s) cs) (18 * length cs) (sent_seq s cs) h'"

lemma can_send_rest:
  assumes "can_send v s (cs @ ds) rest h" "has_sent v s cs h h'"
  shows "can_send v (sent_seq s cs) ds rest h'"
  using assms navnet_went [of h _ _ "sent_seq s cs" h']
  by (auto simp: can_send_def has_sent_def went_def moved_def pieces_wire_append navnet_def acks_length)

lemma has_sent_trans:
  "has_sent v s cs h h1 \<Longrightarrow> has_sent v (sent_seq s cs) ds h1 h2 \<Longrightarrow> has_sent v s (cs @ ds) h h2"
  using went_trans by (auto simp: has_sent_def pieces_wire_append algebra_simps)

lemma one_sent:
  assumes "can_send v s [c] rest h" "carries v raw" "length c \<le> 253"
  shows "\<exists>raw' h'. send_acked (Suc fuel) N (nv_cmd v) c raw h = (None, raw', h') \<and> carries v raw' \<and> has_sent v s [c] h h'"
  using assms piece_sent [of h s v raw c "seq_used (ns_seq_pc s)" rest fuel]
  by (auto simp: can_send_def has_sent_def)

lemma full_sent:
  assumes "can_send v s (full q data @ ds) rest h" "carries v raw" "253 * q \<le> length data"
  shows "\<exists>raw' h'. send_full q (Suc fuel) N (nv_cmd v) tot data raw h = (None, raw', h') \<and> carries v raw'
     \<and> has_sent v s (full q data) h h'"
  using assms
proof (induction q arbitrary: data raw h s)
  case 0
  then show ?case by (auto simp: has_sent_def can_send_def went_def navnet_def moved_def)
next
  case (Suc q)
  let ?c = "take 253 data" let ?more = "full q (drop 253 data) @ ds"
  have "can_send v s [?c] (acks_wire (nv_dst_port v) (nv_src_port v) (seq_used (ns_seq_pc s) + 1) ?more @ rest) h"
    using Suc.prems(1) by (simp add: can_send_def)
  then obtain raw1 h1 where h1: "send_acked (Suc fuel) N (nv_cmd v) ?c raw h = (None, raw1, h1)" "carries v raw1"
      "has_sent v s [?c] h h1"
    using one_sent Suc.prems(2) by (metis length_take min.cobounded2)
  let ?h1 = "ticalcs_update_pbar (ne_calc N) (set_cnt1 (up_cnt1 (kh_updat h1) + 254) (set_max1 (uint tot) h1))"
  have h1': "has_sent v s [?c] h ?h1" using h1(3) by (simp add: has_sent_def went_progress calc_env)
  have "can_send v (sent_seq s [?c]) ?more rest ?h1"
    using can_send_rest [OF _ h1', of ?more rest] Suc.prems(1) by simp
  moreover have "253 * q \<le> length (drop 253 data)" using Suc.prems(3) by auto
  ultimately obtain raw2 h2 where
      "send_full q (Suc fuel) N (nv_cmd v) tot (drop 253 data) raw1 ?h1 = (None, raw2, h2)" "carries v raw2"
      "has_sent v (sent_seq s [?c]) (full q (drop 253 data)) ?h1 h2"
    using Suc.IH [OF _ h1(2)] by blast
  then show ?case using h1(1) has_sent_trans [OF h1', of "full q (drop 253 data)" h2] by auto
qed

lemma legacy_sent:
  assumes "can_send v s (pieces data) rest h" "carries v raw" "length data < 2 ^ 32"
  shows "\<exists>h'. send_legacy (Suc fuel) N (nv_cmd v) (of_nat (length data)) data raw h = (None, h')
     \<and> has_sent v s (pieces data) h h'"
proof -
  let ?q = "length data div 253" let ?rest = "length data mod 253" let ?last = "drop (253 * ?q) data"
  have n: "unat (of_nat (length data) :: u32) = length data"
    using assms(3) by (simp add: unat_of_nat take_bit_nat_eq_self)
  then have zero: "(of_nat (length data) :: u32) = 0 \<longleftrightarrow> data = []" by (metis length_0_conv unat_eq_zero)
  have last: "take ?rest ?last = ?last" "length ?last \<le> 253"
    using minus_mult_div_eq_mod [of "length data" 253] by simp_all
  define ds where "ds = (if ?rest \<noteq> 0 \<or> data = [] then [?last] else [])"
  have cs: "pieces data = full ?q data @ ds" by (simp add: pieces_full ds_def)
  have "253 * ?q \<le> length data" by simp
  then obtain raw1 h1 where h1: "send_full ?q (Suc fuel) N (nv_cmd v) (of_nat (length data)) data raw h = (None, raw1, h1)"
      "carries v raw1" "has_sent v s (full ?q data) h h1"
    using full_sent [OF _ assms(2)] assms(1) unfolding cs by blast
  show ?thesis
  proof (cases "?rest \<noteq> 0 \<or> data = []")
    case False
    then show ?thesis using h1 n zero cs by (simp add: send_legacy_def ds_def Let_def)
  next
    case True
    then have ds: "ds = [?last]" by (simp add: ds_def)
    have "can_send v (sent_seq s (full ?q data)) [?last] rest h1"
      using can_send_rest [OF _ h1(3)] assms(1) cs ds by simp
    from one_sent [OF this h1(2) last(2), of fuel] obtain raw2 h2 where
        "send_acked (Suc fuel) N (nv_cmd v) ?last raw1 h1 = (None, raw2, h2)"
        "has_sent v (sent_seq s (full ?q data)) [?last] h1 h2" by blast
    then show ?thesis
      using has_sent_trans [OF h1(3)] h1(1) n zero cs ds True last(1) by (auto simp: send_legacy_def Let_def)
  qed
qed

lemma data_sent:
  assumes "can_send v s (pieces data) rest h" "nv_size v = of_nat (length data)" "nv_data v = Some (data @ slack)"
    and "length data < 2 ^ 32"
  shows "\<exists>h'. nsp_send_data (Suc fuel) N v h = (None, h') \<and> has_sent v s (pieces data) h h'"
proof -
  let ?raw = "nsp_zero\<lparr>np_src_addr := nv_src_addr v, np_src_port := nv_src_port v,
                            np_dst_addr := nv_dst_addr v, np_dst_port := nv_dst_port v\<rparr>"
  let ?h = "h\<lparr>kh_busy := True\<rparr>"
  have n: "unat (nv_size v) = length data"
    using assms(2,4) by (simp add: unat_of_nat take_bit_nat_eq_self)
  have nav: "navnet ?h" using assms(1) by (auto simp: can_send_def navnet_def)
  have "can_send v s (pieces data) rest ?h" using assms(1) nav by (simp add: can_send_def)
  moreover have "carries v ?raw" by (simp add: carries_def nsp_zero_def)
  ultimately obtain h1 where h1: "send_legacy (Suc fuel) N (nv_cmd v) (nv_size v) data ?raw ?h = (None, h1)"
      "has_sent v s (pieces data) ?h h1"
    using legacy_sent assms(2,4) by metis
  then have m: "moved ?h (pieces_wire v (ns_seq_pc s) (pieces data)) (18 * length (pieces data)) h1"
      "kh_nsp h1 = sent_seq s (pieces data)" by (simp_all add: has_sent_def went_def)
  have "nv_size v \<noteq> 0 \<and> nv_data v = None \<longleftrightarrow> False" using assms(3) by simp
  then show ?thesis
    unfolding nsp_send_data_def has_sent_def m(2) [symmetric] if_False
    by (simp only: if_False, intro busy_went [OF _ m(1)])
       (use h1(1) assms(3) n plain_mode [OF nav] in \<open>simp add: calc_env fire_quiet Let_def\<close>)
qed

text \<open>The receiver's side. The sequence number in the state is the one of the last piece.\<close>

definition can_receive :: "nsp_vtl \<Rightarrow> u8 \<Rightarrow> bytes list \<Rightarrow> bytes \<Rightarrow> 'd calc_handle \<Rightarrow> bool" where
  "can_receive v k cs rest h \<longleftrightarrow> navnet h \<and> data_ports (nv_src_port v) (nv_dst_port v)
     \<and> ns_src_port (kh_nsp h) = nv_dst_port v \<and> ns_dst_port (kh_nsp h) = nv_src_port v
     \<and> c_avail (kh_cable h) = pieces_wire v k cs @ rest \<and> 18 * length cs \<le> c_room (kh_cable h)"

definition has_received :: "nsp_vtl \<Rightarrow> u8 \<Rightarrow> bytes list \<Rightarrow> 'd calc_handle \<Rightarrow> 'd calc_handle \<Rightarrow> bool" where
  "has_received v k cs h h' \<longleftrightarrow> (\<exists>x. went h (acks_wire (nv_dst_port v) (nv_src_port v) k cs)
     (length (pieces_wire v k cs)) ((kh_nsp h)\<lparr>ns_seq := x\<rparr>) h')"

lemma can_receive_rest:
  assumes "can_receive v k (c # cs) rest h" "has_received v k [c] h h'"
  shows "can_receive v (seq_used k + 1) cs rest h'"
  using assms by (auto simp: can_receive_def has_received_def went_def moved_def navnet_def)

lemma has_received_trans:
  assumes "has_received v k [c] h h1" "has_received v (seq_used k + 1) cs h1 h2"
  shows "has_received v k (c # cs) h h2"
proof -
  let ?s = "kh_nsp h"
  obtain x where x: "went h (acks_wire (nv_dst_port v) (nv_src_port v) k [c]) (length (pieces_wire v k [c])) (?s\<lparr>ns_seq := x\<rparr>) h1"
    using assms(1) by (auto simp: has_received_def)
  obtain y where y: "went h1 (acks_wire (nv_dst_port v) (nv_src_port v) (seq_used k + 1) cs)
      (length (pieces_wire v (seq_used k + 1) cs)) ((kh_nsp h1)\<lparr>ns_seq := y\<rparr>) h2"
    using assms(2) by (auto simp: has_received_def)
  have "(kh_nsp h1)\<lparr>ns_seq := y\<rparr> = ?s\<lparr>ns_seq := y\<rparr>" using x by (simp add: went_def)
  then show ?thesis using went_trans [OF x y] by (auto simp: has_received_def)
qed

definition from_sender :: "nsp_vtl \<Rightarrow> nsp_raw \<Rightarrow> bool" where
  "from_sender v raw \<longleftrightarrow> np_src_addr raw = nv_src_addr v \<and> np_src_port raw = nv_src_port v
     \<and> np_dst_addr raw = nv_dst_addr v \<and> np_dst_port raw = nv_dst_port v"

lemma one_received:
  assumes "can_receive v k (c # cs) rest h" "length c \<le> 253"
  shows "\<exists>raw' h1 h'. nsp_recv fuel N raw h = (None, raw', h1) \<and> from_sender v raw'
     \<and> unat (np_data_size raw') = length c + 1 \<and> take (length c + 1) (np_data raw') = nv_cmd v # c
     \<and> (\<forall>want acc cnt. \<exists>h'. answer_raw fuel N raw' (progress N want acc (cnt (kh_updat h1)) h1) = (None, h')
          \<and> has_received v k [c] h h')"
proof -
  define n :: u8 where "n = of_nat (length c + 1)"
  have n: "unat n = length c + 1"
    using assms(2) unfolding n_def by (simp only: unat_of_nat) (simp add: take_bit_nat_eq_self)
  let ?p = "nv_src_port v" and ?q = "nv_dst_port v" let ?s = "(kh_nsp h)\<lparr>ns_seq := seq_used k\<rparr>"
  have nav: "navnet h" and ports: "data_ports ?p ?q" "ns_src_port (kh_nsp h) = ?q" "ns_dst_port (kh_nsp h) = ?p"
    and room: "18 \<le> c_room (kh_cable h)" using assms(1) by (auto simp: can_receive_def)
  have av: "c_avail (kh_cable h) = nsp_pack_header (nv_src_addr v) ?p (nv_dst_addr v) ?q (compute_crc (nv_cmd v # c)) n 0 (seq_used k)
      @ (nv_cmd v # c) @ pieces_wire v (seq_used k + 1) cs @ rest"
    using assms(1) by (simp add: can_receive_def piece_wire_def n_def)
  have "length (nv_cmd v # c) = unat n" "n \<le> 254" using n assms(2) by (simp_all add: word_le_nat_alt)
  then obtain raw' h1 where h1: "nsp_recv fuel N raw h = (None, raw', h1)" "from_sender v raw'"
      "unat (np_data_size raw') = length c + 1" "take (length c + 1) (np_data raw') = nv_cmd v # c"
      "went h [] (length c + 17) (kh_nsp (count_seq ?p (seq_used k) h)) h1"
    using raw_received [OF nav av, of fuel raw] n by (auto simp: from_sender_def store_data_def add.commute)
  have "kh_nsp (count_seq ?p (seq_used k) h) = ?s"
    using ports(1) by (simp add: count_seq_def upd_nsp_def data_ports_def)
  then have w1: "went h [] (length c + 17) ?s h1" using h1(5) by simp
  have "\<exists>h'. answer_raw fuel N raw' (progress N want acc (cnt (kh_updat h1)) h1) = (None, h') \<and> has_received v k [c] h h'"
    for want acc cnt
  proof -
    let ?h1 = "progress N want acc (cnt (kh_updat h1)) h1"
    have w2: "went h [] (length c + 17) ?s ?h1" using w1 by (simp add: progress_def went_progress calc_env)
    then have "kh_nsp ?h1 = ?s" "18 \<le> c_room (kh_cable ?h1)" using room by (simp_all add: went_def moved_def)
    moreover have "navnet ?h1" using navnet_went [OF w2] nav by (simp add: navnet_def)
    ultimately obtain h' where h': "nsp_send_ack fuel N ?h1 = (None, h')" "went ?h1 (ack_wire ?q ?p (seq_used k)) 0 ?s h'"
      using reply_sent [of ?h1 ?s fuel] ports(2,3) by auto
    moreover have "answer_raw fuel N raw' ?h1 = nsp_send_ack fuel N ?h1"
      using h1(2) ports(1) by (simp add: answer_raw_def from_sender_def data_ports_def)
    ultimately show ?thesis using went_trans [OF w2 h'(2)] by (auto simp: has_received_def)
  qed
  then show ?thesis using h1(1-4) by blast
qed

lemma legacy_received:
  assumes "can_receive v k (pieces data) rest h" "want = 0 \<or> want = length acc + length data"
    and "want \<noteq> 0 \<or> data = [] \<or> length data mod 253 \<noteq> 0" "length data div 253 < n"
  shows "\<exists>raw' h'. recv_legacy n fuel N want raw cmd acc h = (None, (raw', nv_cmd v, acc @ data), h')
     \<and> from_sender v raw' \<and> has_received v k (pieces data) h h'"
  using assms
proof (induction n arbitrary: k data acc raw cmd h)
  case (Suc n)
  define c cs where "c = take 253 data" and "cs = (if length data \<le> 253 then [] else pieces (drop 253 data))"
  have cs: "pieces data = c # cs" "length c \<le> 253" by (simp_all add: pieces.simps [of data] c_def cs_def)
  obtain raw' h1 where h1: "nsp_recv fuel N raw h = (None, raw', h1)" "from_sender v raw'"
      "unat (np_data_size raw') = length c + 1" "take (length c + 1) (np_data raw') = nv_cmd v # c"
      "\<And>want acc cnt. \<exists>h'. answer_raw fuel N raw' (progress N want acc (cnt (kh_updat h1)) h1) = (None, h')
          \<and> has_received v k [c] h h'"
    using one_received [of v k c cs rest h fuel raw] Suc.prems(1) cs by auto
  have d: "np_data raw' ! 0 = nv_cmd v" "take (length c) (drop 1 (np_data raw')) = c"
    using h1(4) by (metis nth_take nth_Cons_0 zero_less_Suc Suc_eq_plus1, simp add: take_drop)
  have "length acc + length c \<le> want" if "want \<noteq> 0" using Suc.prems(2) that by (auto simp: c_def)
  then have acc: "put_together want acc c = acc @ c" by (auto simp: put_together_def)
  obtain h2 where h2: "answer_raw fuel N raw' (progress N want (acc @ c) (up_cnt1 (kh_updat h1) + 254) h1) = (None, h2)"
      "has_received v k [c] h h2" using h1(5) [of want "acc @ c" "\<lambda>u. up_cnt1 u + 254"] by auto
  have step: "recv_legacy (Suc n) fuel N want raw cmd acc h =
      (if want \<noteq> 0 \<and> want \<le> length (acc @ c) \<or> length c + 1 < 254 then (None, (raw', nv_cmd v, acc @ c), h2)
       else recv_legacy n fuel N want raw' (nv_cmd v) (acc @ c) h2)"
    using h1(1,3) d acc h2(1) by (simp add: Let_def)
  show ?case
  proof (cases "length data \<le> 253")
    case True
    then have "want \<noteq> 0 \<and> want \<le> length (acc @ c) \<or> length c + 1 < 254" "c = data" "cs = []"
      using Suc.prems(2,3) by (cases "length data = 253"; auto simp: c_def cs_def)+
    then show ?thesis using step h1(2) h2(2) cs(1) by auto
  next
    case False
    then have more: "\<not> (want \<noteq> 0 \<and> want \<le> length (acc @ c) \<or> length c + 1 < 254)" "cs = pieces (drop 253 data)"
      "c @ drop 253 data = data" using Suc.prems(2) by (auto simp: c_def cs_def)
    have len: "length (drop 253 data) mod 253 = length data mod 253" "length (drop 253 data) div 253 < n"
      using False Suc.prems(4) le_mod_geq [of 253 "length data"] by (auto simp: le_div_geq)
    have "can_receive v (seq_used k + 1) (pieces (drop 253 data)) rest h2"
      using can_receive_rest [of v k c cs rest h h2] Suc.prems(1) h2(2) cs more(2) by simp
    moreover have "want = 0 \<or> want = length (acc @ c) + length (drop 253 data)"
      using Suc.prems(2) more(3) by (metis add.assoc length_append)
    moreover have "want \<noteq> 0 \<or> drop 253 data = [] \<or> length (drop 253 data) mod 253 \<noteq> 0"
      using Suc.prems(3) False len(1) by auto
    ultimately obtain raw2 h3 where
        "recv_legacy n fuel N want raw' (nv_cmd v) (acc @ c) h2 = (None, (raw2, nv_cmd v, (acc @ c) @ drop 253 data), h3)"
        "from_sender v raw2" "has_received v (seq_used k + 1) (pieces (drop 253 data)) h2 h3"
      using Suc.IH len(2) by blast
    then show ?thesis using step more cs(1) has_received_trans [OF h2(2)] by auto
  qed
qed simp

lemma data_received:
  assumes "can_receive v k (pieces data) rest h" "unat (nv_size w) = 0 \<or> unat (nv_size w) = length data"
    and "nv_size w \<noteq> 0 \<or> data = [] \<or> length data mod 253 \<noteq> 0" "length data div 253 < fuel"
  shows "\<exists>h'. nsp_recv_data fuel N w h =
        (None, w\<lparr>nv_cmd := nv_cmd v, nv_size := of_nat (length data), nv_data := Some data, nv_src_addr := nv_src_addr v,
                nv_src_port := nv_src_port v, nv_dst_addr := nv_dst_addr v, nv_dst_port := nv_dst_port v\<rparr>, h')
     \<and> has_received v k (pieces data) h h'"
proof -
  let ?h = "h\<lparr>kh_busy := True\<rparr>"
  have nav: "navnet ?h" using assms(1) by (auto simp: can_receive_def navnet_def)
  have "can_receive v k (pieces data) rest ?h" using assms(1) nav by (simp add: can_receive_def)
  moreover have "unat (nv_size w) \<noteq> 0 \<or> data = [] \<or> length data mod 253 \<noteq> 0" using assms(3) by (auto simp: unat_eq_zero)
  ultimately obtain raw' h1 where h1: "from_sender v raw'" "has_received v k (pieces data) ?h h1"
      "recv_legacy fuel fuel N (unat (nv_size w)) nsp_zero (nv_cmd w) [] ?h = (None, (raw', nv_cmd v, data), h1)"
    using legacy_received [of v k data rest ?h "unat (nv_size w)" "[]" fuel fuel nsp_zero "nv_cmd w"] assms(2,4) by auto
  obtain x where m: "moved ?h (acks_wire (nv_dst_port v) (nv_src_port v) k (pieces data)) (length (pieces_wire v k (pieces data))) h1"
      "kh_nsp h1 = (kh_nsp h)\<lparr>ns_seq := x\<rparr>"
    using h1(2) by (auto simp: has_received_def went_def)
  let ?w = "w\<lparr>nv_cmd := nv_cmd v, nv_size := of_nat (length data), nv_data := Some data, nv_src_addr := nv_src_addr v,
                nv_src_port := nv_src_port v, nv_dst_addr := nv_dst_addr v, nv_dst_port := nv_dst_port v\<rparr>"
  have "\<exists>h'. nsp_recv_data fuel N w h = (None, ?w, h')
     \<and> went h (acks_wire (nv_dst_port v) (nv_src_port v) k (pieces data)) (length (pieces_wire v k (pieces data))) (kh_nsp h1) h'"
    unfolding nsp_recv_data_def
    by (intro busy_val_went [OF _ m(1)])
       (use h1(1,3) plain_mode [OF nav] in \<open>simp add: calc_env fire_quiet from_sender_def Let_def\<close>)
  then show ?thesis using m(2) by (auto simp: has_received_def)
qed

end

section \<open>On the virtual link\<close>

interpretation navnet_vti: navnet_link vti_put vti_get vti_sent vti_avail vti_room vti_ok "vti_env vti_works" vti_nsp_env
  by unfold_locales (simp add: vti_nsp_env_def)

text \<open>The two ends of a session: what each needs for the exchange of a packet.\<close>

definition session_ends :: "nsp_vtl \<Rightarrow> nsp_state \<Rightarrow> nsp_state \<Rightarrow> bool" where
  "session_ends v s t \<longleftrightarrow> data_ports (nv_src_port v) (nv_dst_port v) \<and> ns_nnse_mode s = 1 \<and> ns_nnse_mode t = 1
     \<and> ns_src_port s = nv_src_port v \<and> ns_dst_port s = nv_dst_port v
     \<and> ns_src_port t = nv_dst_port v \<and> ns_dst_port t = nv_src_port v"

text \<open>The two ends of the link when a packet with this data is to be sent from one to the other.\<close>

definition command_link :: "('d \<Rightarrow> bytes) \<Rightarrow> ('d \<Rightarrow> nat) \<Rightarrow> nsp_vtl \<Rightarrow> bytes \<Rightarrow> bytes \<Rightarrow> bytes \<Rightarrow> 'd calc_handle \<Rightarrow> 'd calc_handle \<Rightarrow> bool"
  where
  "command_link avail room v data rest rest' h g \<longleftrightarrow>
     session_ends v (kh_nsp h) (kh_nsp g)
     \<and> avail (cb_dev (kh_cable h)) = acks_wire (nv_dst_port v) (nv_src_port v) (ns_seq_pc (kh_nsp h)) (pieces data) @ rest
     \<and> avail (cb_dev (kh_cable g)) = pieces_wire v (ns_seq_pc (kh_nsp h)) (pieces data) @ rest'
     \<and> length (pieces_wire v (ns_seq_pc (kh_nsp h)) (pieces data)) \<le> room (cb_dev (kh_cable h))
     \<and> 18 * length (pieces data) \<le> room (cb_dev (kh_cable g))"

lemma virtual_packet_exchanged:
  assumes "navnet_link send recv sent avail room ok E N" "link_ready ok h" "link_ready ok g"
    and "command_link avail room v data rest rest' h g" "nv_data v = Some (data @ slack)" "nv_size v = of_nat (length data)"
    and "length data < 2 ^ 32" "length data div 253 < fuel" "nv_size w = 0 \<or> nv_size w = nv_size v"
    and "nv_size w \<noteq> 0 \<or> data = [] \<or> length data mod 253 \<noteq> 0"
  shows "\<exists>h' w' g'. nsp_send_data fuel N v h = (None, h') \<and> nsp_recv_data fuel N w g = (None, w', g')
     \<and> nv_data w' = Some data \<and> nv_cmd w' = nv_cmd v \<and> nv_size w' = nv_size v
     \<and> transfer sent avail ok h (pieces_wire v (ns_seq_pc (kh_nsp h)) (pieces data)) (18 * length (pieces data)) h'
     \<and> transfer sent avail ok g (acks_wire (nv_dst_port v) (nv_src_port v) (ns_seq_pc (kh_nsp h)) (pieces data))
         (length (pieces_wire v (ns_seq_pc (kh_nsp h)) (pieces data))) g'
     \<and> avail (cb_dev (kh_cable h')) = rest \<and> avail (cb_dev (kh_cable g')) = rest'"
proof -
  let ?k = "ns_seq_pc (kh_nsp h)"
  note p = assms(1) and c = assms(4) [unfolded command_link_def]
  note q = navnet_link.axioms(1) [OF p]
  note link = quiet_link.link_ready_iff [OF q] quiet_link.c_avail_def [OF q] quiet_link.c_room_def [OF q]
  obtain f where fuel: "fuel = Suc f" using assms(8) by (cases fuel) auto
  have size: "unat (nv_size v) = length data" using assms(6,7) by (simp add: unat_of_nat take_bit_nat_eq_self)
  have "navnet_link.can_send avail room ok v (kh_nsp h) (pieces data) rest h"
    using assms(2) c by (simp add: navnet_link.can_send_def [OF p] navnet_link.navnet_def [OF p] session_ends_def link)
  then obtain h' where h': "nsp_send_data fuel N v h = (None, h')"
      "navnet_link.has_sent sent avail room ok v (kh_nsp h) (pieces data) h h'"
    using navnet_link.data_sent [OF p _ assms(6,5,7)] fuel by metis
  have "navnet_link.can_receive avail room ok v ?k (pieces data) rest' g"
    using assms(3) c by (simp add: navnet_link.can_receive_def [OF p] navnet_link.navnet_def [OF p] session_ends_def link)
  moreover have "unat (nv_size w) = 0 \<or> unat (nv_size w) = length data" using assms(9) size by auto
  ultimately obtain w' g' where g': "nsp_recv_data fuel N w g = (None, w', g')" "nv_data w' = Some data" "nv_cmd w' = nv_cmd v"
      "nv_size w' = nv_size v" "navnet_link.has_received sent avail room ok v ?k (pieces data) g g'"
    using navnet_link.data_received [OF p _ _ assms(10,8)] assms(6) by fastforce
  have t: "transfer sent avail ok h (pieces_wire v ?k (pieces data)) (18 * length (pieces data)) h'"
    "transfer sent avail ok g (acks_wire (nv_dst_port v) (nv_src_port v) ?k (pieces data)) (length (pieces_wire v ?k (pieces data))) g'"
    using h'(2) g'(5) quiet_link.moved_transfer [OF q]
    by (auto simp: navnet_link.has_sent_def [OF p] navnet_link.has_received_def [OF p] navnet_link.went_def [OF p])
  then have "avail (cb_dev (kh_cable h')) = rest" "avail (cb_dev (kh_cable g')) = rest'"
    using c by (simp_all add: transfer_def acks_length)
  then show ?thesis using h'(1) g'(1-4) t by blast
qed

text \<open>
  C7: A virtual packet of any size goes over a link with plain framing: the sender puts its pieces
  of at most 253 bytes on the link, with sequence numbers that leave out zero, and takes the
  acknowledgement of each; the receiver takes the pieces, puts exactly these acknowledgements on
  the link and has command and data of the sender. Without the size the receiver needs a last
  piece that is not full, so that the data must not be a multiple of 253 bytes then.
\<close>

theorem nsp_virtual_packet:
  assumes "navnet_link send recv sent avail room ok E N" "link_ready ok h" "link_ready ok g"
    and "session_ends v (kh_nsp h) (kh_nsp g)" "nv_data v = Some (data @ slack)" "nv_size v = of_nat (length data)"
    and "length data < 2 ^ 32" "length data div 253 < fuel" "nv_size w = 0 \<or> nv_size w = nv_size v"
    and "nv_size w \<noteq> 0 \<or> data = [] \<or> length data mod 253 \<noteq> 0" "k = ns_seq_pc (kh_nsp h)"
    and "avail (cb_dev (kh_cable h)) = acks_wire (nv_dst_port v) (nv_src_port v) k (pieces data) @ rest"
    and "avail (cb_dev (kh_cable g)) = pieces_wire v k (pieces data) @ rest'"
    and "length (pieces_wire v k (pieces data)) \<le> room (cb_dev (kh_cable h))"
    and "18 * length (pieces data) \<le> room (cb_dev (kh_cable g))"
  shows "\<exists>h' w' g'. nsp_send_data fuel N v h = (None, h') \<and> nsp_recv_data fuel N w g = (None, w', g')
     \<and> nv_data w' = Some data \<and> nv_cmd w' = nv_cmd v \<and> nv_size w' = nv_size v
     \<and> transfer sent avail ok h (pieces_wire v k (pieces data)) (18 * length (pieces data)) h'
     \<and> transfer sent avail ok g (acks_wire (nv_dst_port v) (nv_src_port v) k (pieces data))
         (length (pieces_wire v k (pieces data))) g'"
  using virtual_packet_exchanged [OF assms(1-3) _ assms(5-10), of rest rest'] assms(4,11-15)
  by (auto simp: command_link_def)

definition session_handle :: "u16 \<Rightarrow> u16 \<Rightarrow> bytes \<Rightarrow> vti_dev calc_handle" where
  "session_handle p q bs = upd_nsp (\<lambda>s. s\<lparr>ns_nnse_mode := 1, ns_src_port := p, ns_dst_port := q\<rparr>)
     (vti_handle CALC_NSPIRE (vti_loaded bs))"

lemma session_handle_simps:
  "length bs \<le> 255 \<Longrightarrow> link_ready vti_ok (session_handle p q bs)"
  "cb_dev (kh_cable (session_handle p q bs)) = vti_loaded bs"
  "kh_nsp (session_handle p q bs) = nsp_reset_state\<lparr>ns_nnse_mode := 1, ns_src_port := p, ns_dst_port := q\<rparr>"
  by (simp_all add: session_handle_def upd_nsp_def link_ready_def vti_handle_def)

lemma nsp_virtual_packet_witness:
  "\<exists>v h' w' g'. v = nsp_vtl_pkt_new_ex 2 0x6400 0x8000 0x6401 0x4060 7 (Some [1, 2])
     \<and> nsp_send_data 1 vti_nsp_env v (session_handle 0x8000 0x4060 (acks_wire 0x4060 0x8000 0 [[1, 2]])) = (None, h')
     \<and> nsp_recv_data 1 vti_nsp_env nsp_vtl_pkt_new (session_handle 0x4060 0x8000 (pieces_wire v 0 [[1, 2]])) = (None, w', g')
     \<and> nv_data w' = Some [1, 2] \<and> nv_cmd w' = 7"
proof -
  let ?v = "nsp_vtl_pkt_new_ex 2 0x6400 0x8000 0x6401 0x4060 7 (Some [1, 2])"
  let ?h = "session_handle 0x8000 0x4060 (acks_wire 0x4060 0x8000 0 [[1, 2]])"
  let ?g = "session_handle 0x4060 0x8000 (pieces_wire ?v 0 [[1, 2]])"
  have v: "nv_src_port ?v = 0x8000" "nv_dst_port ?v = 0x4060" "nv_size ?v = 2" "nv_data ?v = Some [1, 2]"
    "nv_cmd ?v = 7" "pieces [1, 2] = [[1, 2]]"
    by (simp_all add: nsp_vtl_pkt_new_ex_def pieces.simps [of "[1, 2]"])
  have "data_ports 0x8000 0x4060" unfolding data_ports_def control_port_def ack_port_def by code_simp
  then have "session_ends ?v (kh_nsp ?h) (kh_nsp ?g)"
    by (simp add: session_ends_def v session_handle_simps nsp_reset_state_def)
  then show ?thesis
    using nsp_virtual_packet [OF navnet_vti.navnet_link_axioms, of ?h ?g ?v "[1, 2]" "[]" 1 nsp_vtl_pkt_new 0 "[]" "[]"]
    by (auto simp: v session_handle_simps nsp_reset_state_def nsp_vtl_pkt_new_def nsp_vtl_pkt_new_ex_def [of 0])
qed

end
