(* ===== verification/NspCmd.thy ===== *)
theory NspCmd
  imports NspExchange
begin

text \<open>
  \<^verbatim>\<open>libticalcs/trunk/src/nsp_cmd.cc\<close>, the commands of the NSpire: each sends a virtual packet that
  it has built, or receives one and takes it apart. A name is the list of its bytes without the
  terminator. Results that the sources store through pointers are returned; a null pointer of the
  caller, which only drops a result, is not modelled, nor are the texts of the log.
\<close>

section \<open>Building and taking apart\<close>

abbreviation (input) NSP_PORT_ECHO :: u16 where "NSP_PORT_ECHO \<equiv> 0x4002"
abbreviation (input) NSP_PORT_DEV_INFOS :: u16 where "NSP_PORT_DEV_INFOS \<equiv> 0x4020"
abbreviation (input) NSP_PORT_SCREEN_RLE :: u16 where "NSP_PORT_SCREEN_RLE \<equiv> 0x4024"
abbreviation (input) NSP_PORT_FILE_MGMT :: u16 where "NSP_PORT_FILE_MGMT \<equiv> 0x4060"
abbreviation (input) NSP_PORT_OS_INSTALL :: u16 where "NSP_PORT_OS_INSTALL \<equiv> 0x4080"

definition nsp_error :: "u8 \<Rightarrow> ret" where
  "nsp_error code = Some (ERR_CALC_ERROR3 (nsp_err_code code))"

definition ticalcs_nsp_os_status_result :: "u8 \<Rightarrow> ret \<times> u8" where
  "ticalcs_nsp_os_status_result status = (if status = 0 then (None, 100) else (nsp_error status, status))"

text \<open>A name with its terminator, filled up to nine bytes; the second result is what was written.\<close>

definition nsp_put_str :: "bytes \<Rightarrow> nat \<Rightarrow> bytes \<Rightarrow> (bytes \<times> nat) option" where
  "nsp_put_str dst off src =
     (let s = src @ [0]; s = s @ replicate (9 - length s) 0
      in map_option (\<lambda>d. (d, length s)) (memcpy_at dst off s))"

definition put_name_at :: "nat \<Rightarrow> bytes \<Rightarrow> bytes \<Rightarrow> bytes option" where
  "put_name_at off name dst = map_option fst (nsp_put_str dst off name)"

definition name_room :: "bytes \<Rightarrow> nat" where
  "name_room name = (if length name < 8 then 8 else length name)"

definition received_bytes :: "nsp_vtl \<Rightarrow> bytes" where
  "received_bytes pkt = (case nv_data pkt of None \<Rightarrow> [] | Some d \<Rightarrow> d)"

definition copy_vtl_data :: "nsp_vtl \<Rightarrow> bytes option" where
  "copy_vtl_data pkt = (if nv_size pkt = 0 then None else Some (take (unat (nv_size pkt)) (received_bytes pkt)))"

definition be32_at :: "bytes \<Rightarrow> nat \<Rightarrow> u32" where
  "be32_at d i = be32 (d ! i) (d ! (i + 1)) (d ! (i + 2)) (d ! (i + 3))"

definition be32_put :: "nat \<Rightarrow> u32 \<Rightarrow> bytes \<Rightarrow> bytes option" where
  "be32_put off n d = memcpy_at d off [MSB (MSW n), LSB (MSW n), MSB (LSW n), LSB (LSW n)]"

text \<open>A packet of \<open>n\<close> bytes from the port of the session, with what \<open>fill\<close> makes of the zeros allocated for it.\<close>

definition send_filled ::
    "nat \<Rightarrow> 'd nsp_env \<Rightarrow> u16 \<Rightarrow> u8 \<Rightarrow> nat \<Rightarrow> (bytes \<Rightarrow> bytes option) \<Rightarrow> 'd calc_handle \<Rightarrow> ret \<times> 'd calc_handle" where
  "send_filled fuel N port cmd n fill h =
     (case Option.bind (nsp_vtl_pkt_alloc_data (of_nat n)) fill of
        None \<Rightarrow> (Some UNDEFINED_BEHAVIOUR, h)
      | Some d \<Rightarrow> nsp_send_data fuel N
          (nsp_vtl_pkt_new_ex (of_nat n) NSP_SRC_ADDR (ns_src_port (kh_nsp h)) NSP_DEV_ADDR port cmd (Some d)) h)"

definition send_empty :: "nat \<Rightarrow> 'd nsp_env \<Rightarrow> u16 \<Rightarrow> u8 \<Rightarrow> 'd calc_handle \<Rightarrow> ret \<times> 'd calc_handle" where
  "send_empty fuel N port cmd h = send_filled fuel N port cmd 0 Some h"

section \<open>Login and status\<close>

definition nsp_cmd_r_login :: "nat \<Rightarrow> 'd nsp_env \<Rightarrow> 'd calc_handle \<Rightarrow> ret \<times> 'd calc_handle" where
  "nsp_cmd_r_login fuel N h = (let (r, _, h) = nsp_recv_data fuel N nsp_vtl_pkt_new h in (r, h))"

definition nsp_cmd_s_status :: "nat \<Rightarrow> 'd nsp_env \<Rightarrow> u8 \<Rightarrow> 'd calc_handle \<Rightarrow> ret \<times> 'd calc_handle" where
  "nsp_cmd_s_status fuel N status h =
     send_filled fuel N (ns_dst_port (kh_nsp h)) NSP_CMD_STATUS 1 (\<lambda>d. Some (d[0 := status])) h"

definition nsp_cmd_r_status :: "nat \<Rightarrow> 'd nsp_env \<Rightarrow> 'd calc_handle \<Rightarrow> ret \<times> u8 option \<times> 'd calc_handle" where
  "nsp_cmd_r_status fuel N h =
     (let (r, pkt, h) = nsp_recv_data fuel N nsp_vtl_pkt_new h
      in if r \<noteq> None then (r, None, h)
         else if nv_cmd pkt \<noteq> NSP_CMD_STATUS \<or> nv_size pkt < 1 then (Some ERR_INVALID_PACKET, None, h)
         else (let v = received_bytes pkt ! 0 in (if v \<noteq> 0 then nsp_error v else None, Some v, h)))"

text \<open>Answers of which only the status matters.\<close>

definition status_only :: "nat \<Rightarrow> 'd nsp_env \<Rightarrow> 'd calc_handle \<Rightarrow> ret \<times> 'd calc_handle" where
  "status_only fuel N h = (let (r, _, h) = nsp_cmd_r_status fuel N h in (r, h))"

section \<open>Data as it comes\<close>

text \<open>With a size to wait for; command, size and data.\<close>

definition recv_any ::
    "nat \<Rightarrow> 'd nsp_env \<Rightarrow> u32 \<Rightarrow> 'd calc_handle \<Rightarrow> ret \<times> (u8 \<times> u32 \<times> bytes option) option \<times> 'd calc_handle" where
  "recv_any fuel N want h =
     (let (r, pkt, h) = nsp_recv_data fuel N (nsp_vtl_pkt_new\<lparr>nv_size := want\<rparr>) h
      in if r \<noteq> None then (r, None, h) else (None, Some (nv_cmd pkt, nv_size pkt, copy_vtl_data pkt), h))"

definition nsp_cmd_s_dev_infos :: "nat \<Rightarrow> 'd nsp_env \<Rightarrow> u8 \<Rightarrow> 'd calc_handle \<Rightarrow> ret \<times> 'd calc_handle" where
  "nsp_cmd_s_dev_infos fuel N cmd h = send_empty fuel N NSP_PORT_DEV_INFOS cmd h"

definition nsp_cmd_r_dev_infos ::
    "nat \<Rightarrow> 'd nsp_env \<Rightarrow> 'd calc_handle \<Rightarrow> ret \<times> (u8 \<times> u32 \<times> bytes option) option \<times> 'd calc_handle" where
  "nsp_cmd_r_dev_infos fuel N h = recv_any fuel N 0 h"

definition nsp_cmd_s_screen_rle :: "nat \<Rightarrow> 'd nsp_env \<Rightarrow> u8 \<Rightarrow> 'd calc_handle \<Rightarrow> ret \<times> 'd calc_handle" where
  "nsp_cmd_s_screen_rle fuel N cmd h = send_empty fuel N NSP_PORT_SCREEN_RLE cmd h"

definition nsp_cmd_r_screen_rle ::
    "nat \<Rightarrow> 'd nsp_env \<Rightarrow> u32 \<Rightarrow> 'd calc_handle \<Rightarrow> ret \<times> (u8 \<times> u32 \<times> bytes option) option \<times> 'd calc_handle" where
  "nsp_cmd_r_screen_rle fuel N want h = recv_any fuel N want h"

section \<open>Directories\<close>

definition nsp_cmd_s_dir_attributes :: "nat \<Rightarrow> 'd nsp_env \<Rightarrow> bytes \<Rightarrow> 'd calc_handle \<Rightarrow> ret \<times> 'd calc_handle" where
  "nsp_cmd_s_dir_attributes fuel N name h =
     send_filled fuel N NSP_PORT_FILE_MGMT 0x20 (1 + name_room name + 1) (\<lambda>d. put_name_at 1 name (d[0 := 1])) h"

definition nsp_cmd_r_dir_attributes ::
    "nat \<Rightarrow> 'd nsp_env \<Rightarrow> 'd calc_handle \<Rightarrow> ret \<times> (u32 \<times> u32 \<times> u8) option \<times> 'd calc_handle" where
  "nsp_cmd_r_dir_attributes fuel N h =
     (let (r, pkt, h) = nsp_recv_data fuel N nsp_vtl_pkt_new h; d = received_bytes pkt
      in if r \<noteq> None then (r, None, h)
         else if nv_cmd pkt \<noteq> 0x20
         then (if 1 \<le> nv_size pkt then nsp_error (d ! 0) else Some ERR_INVALID_PACKET, None, h)
         else if nv_size pkt < 9 then (Some ERR_INVALID_PACKET, None, h)
         else (None, Some (be32_at d 0, be32_at d 4, d ! 8), h))"

definition nsp_cmd_s_dir_enum_init :: "nat \<Rightarrow> 'd nsp_env \<Rightarrow> bytes \<Rightarrow> 'd calc_handle \<Rightarrow> ret \<times> 'd calc_handle" where
  "nsp_cmd_s_dir_enum_init fuel N name h =
     send_filled fuel N NSP_PORT_FILE_MGMT 0x0d (name_room name + 1) (put_name_at 0 name) h"

definition nsp_cmd_r_dir_enum_init :: "nat \<Rightarrow> 'd nsp_env \<Rightarrow> 'd calc_handle \<Rightarrow> ret \<times> 'd calc_handle" where
  "nsp_cmd_r_dir_enum_init fuel N h = status_only fuel N h"

definition nsp_cmd_s_dir_enum_next :: "nat \<Rightarrow> 'd nsp_env \<Rightarrow> 'd calc_handle \<Rightarrow> ret \<times> 'd calc_handle" where
  "nsp_cmd_s_dir_enum_next fuel N h = send_empty fuel N NSP_PORT_FILE_MGMT 0x0e h"

text \<open>What \<^verbatim>\<open>ticalcs_strlcpy\<close> writes into an array of \<open>n + 1\<close> bytes: at most \<open>n\<close>, filled up with zeros.\<close>

definition strlcpy_bytes :: "bytes \<Rightarrow> nat \<Rightarrow> bytes" where
  "strlcpy_bytes src n =
     (let s = takeWhile (\<lambda>b. b \<noteq> 0) (take n src) in s @ replicate (n - length s) 0 @ [0])"

text \<open>An entry: the name in the caller's array, size and type.\<close>

definition dir_entry :: "bytes \<Rightarrow> nsp_vtl \<Rightarrow> ret \<times> (bytes \<times> u32 \<times> u8) option" where
  "dir_entry name pkt =
     (let d = received_bytes pkt
      in if nv_size pkt < 12 then (Some ERR_INVALID_PACKET, None)
         else
           (let data_size = unat (d ! 1) + 2
            in if data_size < 12 \<or> unat (nv_size pkt) < data_size then (Some ERR_INVALID_PACKET, None)
               else
                 (let o1 = data_size - 10; name_size = o1 - 2
                  in if 1024 \<le> name_size then (Some ERR_INVALID_PACKET, None)
                     else
                       (case memcpy_at name 0 (strlcpy_bytes (drop 2 d) name_size) of
                          None \<Rightarrow> (Some UNDEFINED_BEHAVIOUR, None)
                        | Some name \<Rightarrow> (None, Some (name, be32_at d o1, d ! (o1 + 8)))))))"

definition nsp_cmd_r_dir_enum_next ::
    "nat \<Rightarrow> 'd nsp_env \<Rightarrow> bytes \<Rightarrow> 'd calc_handle \<Rightarrow> ret \<times> (bytes \<times> u32 \<times> u8) option \<times> 'd calc_handle" where
  "nsp_cmd_r_dir_enum_next fuel N name h =
     (let (r, pkt, h) = nsp_recv_data fuel N nsp_vtl_pkt_new h; d = received_bytes pkt
      in if r \<noteq> None then (r, None, h)
         else if nv_cmd pkt \<noteq> 0x10
         then (if nv_size pkt < 1 then Some ERR_INVALID_PACKET
               else if d ! 0 = 0x11 then Some ERR_EOT else nsp_error (d ! 0), None, h)
         else (let (r, e) = dir_entry name pkt in (r, e, h)))"

definition nsp_cmd_s_dir_enum_done :: "nat \<Rightarrow> 'd nsp_env \<Rightarrow> 'd calc_handle \<Rightarrow> ret \<times> 'd calc_handle" where
  "nsp_cmd_s_dir_enum_done fuel N h = send_empty fuel N NSP_PORT_FILE_MGMT 0x0f h"

definition nsp_cmd_r_dir_enum_done :: "nat \<Rightarrow> 'd nsp_env \<Rightarrow> 'd calc_handle \<Rightarrow> ret \<times> 'd calc_handle" where
  "nsp_cmd_r_dir_enum_done fuel N h = status_only fuel N h"

section \<open>Files\<close>

text \<open>The size goes behind the name, wherever that ends.\<close>

definition put_file_fill :: "bytes \<Rightarrow> u32 \<Rightarrow> bytes \<Rightarrow> bytes option" where
  "put_file_fill name n d =
     Option.bind (nsp_put_str (d[0 := 1]) 1 name) (\<lambda>(d, k). be32_put (k + 1) n d)"

definition nsp_cmd_s_put_file :: "nat \<Rightarrow> 'd nsp_env \<Rightarrow> bytes \<Rightarrow> u32 \<Rightarrow> 'd calc_handle \<Rightarrow> ret \<times> 'd calc_handle" where
  "nsp_cmd_s_put_file fuel N name n h =
     send_filled fuel N NSP_PORT_FILE_MGMT 0x03 (6 + name_room name) (put_file_fill name n) h"

definition nsp_cmd_r_file_ok :: "nat \<Rightarrow> 'd nsp_env \<Rightarrow> 'd calc_handle \<Rightarrow> ret \<times> 'd calc_handle" where
  "nsp_cmd_r_file_ok fuel N h =
     (let (r, pkt, h) = nsp_recv_data fuel N nsp_vtl_pkt_new h
      in if r \<noteq> None then (r, h)
         else if nv_cmd pkt \<noteq> 0x04
         then (if nv_cmd pkt = NSP_CMD_STATUS \<and> 1 \<le> nv_size pkt then nsp_error (received_bytes pkt ! 0)
               else Some ERR_INVALID_PACKET, h)
         else (None, h))"

definition nsp_cmd_r_put_file :: "nat \<Rightarrow> 'd nsp_env \<Rightarrow> 'd calc_handle \<Rightarrow> ret \<times> 'd calc_handle" where
  "nsp_cmd_r_put_file fuel N h = nsp_cmd_r_file_ok fuel N h"

definition nsp_cmd_s_put_file_eot :: "nat \<Rightarrow> 'd nsp_env \<Rightarrow> 'd calc_handle \<Rightarrow> ret \<times> 'd calc_handle" where
  "nsp_cmd_s_put_file_eot fuel N h =
     send_filled fuel N NSP_PORT_FILE_MGMT 0x06 2 (\<lambda>d. Some (d[0 := 1])) h"

text \<open>A command with a flag and one name, and one with two names.\<close>

definition send_named :: "nat \<Rightarrow> 'd nsp_env \<Rightarrow> u8 \<Rightarrow> u8 \<Rightarrow> bytes \<Rightarrow> 'd calc_handle \<Rightarrow> ret \<times> 'd calc_handle" where
  "send_named fuel N cmd flag name h =
     send_filled fuel N NSP_PORT_FILE_MGMT cmd (2 + name_room name) (\<lambda>d. put_name_at 1 name (d[0 := flag])) h"

definition two_names_fill :: "bytes \<Rightarrow> bytes \<Rightarrow> bytes \<Rightarrow> bytes option" where
  "two_names_fill name name2 d =
     Option.bind (put_name_at 1 name (d[0 := 1])) (put_name_at (2 + name_room name) name2)"

definition send_two_names :: "nat \<Rightarrow> 'd nsp_env \<Rightarrow> u8 \<Rightarrow> bytes \<Rightarrow> bytes \<Rightarrow> 'd calc_handle \<Rightarrow> ret \<times> 'd calc_handle" where
  "send_two_names fuel N cmd name name2 h =
     send_filled fuel N NSP_PORT_FILE_MGMT cmd (3 + name_room name + name_room name2) (two_names_fill name name2) h"

definition nsp_cmd_s_get_file :: "nat \<Rightarrow> 'd nsp_env \<Rightarrow> bytes \<Rightarrow> 'd calc_handle \<Rightarrow> ret \<times> 'd calc_handle" where
  "nsp_cmd_s_get_file fuel N name h = send_named fuel N 0x07 1 name h"

definition nsp_cmd_r_get_file :: "nat \<Rightarrow> 'd nsp_env \<Rightarrow> 'd calc_handle \<Rightarrow> ret \<times> u32 option \<times> 'd calc_handle" where
  "nsp_cmd_r_get_file fuel N h =
     (let (r, pkt, h) = nsp_recv_data fuel N nsp_vtl_pkt_new h; d = received_bytes pkt
      in if r \<noteq> None then (r, None, h)
         else if nv_cmd pkt = NSP_CMD_STATUS
         then (if 1 \<le> nv_size pkt then nsp_error (d ! 0) else Some ERR_INVALID_PACKET, None, h)
         else if nv_cmd pkt \<noteq> 0x03 \<or> nv_size pkt < 14 then (Some ERR_INVALID_PACKET, None, h)
         else (None, Some (be32_at d 10), h))"

definition nsp_cmd_s_del_file :: "nat \<Rightarrow> 'd nsp_env \<Rightarrow> bytes \<Rightarrow> 'd calc_handle \<Rightarrow> ret \<times> 'd calc_handle" where
  "nsp_cmd_s_del_file fuel N name h = send_named fuel N 0x09 1 name h"

definition nsp_cmd_r_del_file :: "nat \<Rightarrow> 'd nsp_env \<Rightarrow> 'd calc_handle \<Rightarrow> ret \<times> 'd calc_handle" where
  "nsp_cmd_r_del_file fuel N h = status_only fuel N h"

definition nsp_cmd_s_new_folder :: "nat \<Rightarrow> 'd nsp_env \<Rightarrow> bytes \<Rightarrow> 'd calc_handle \<Rightarrow> ret \<times> 'd calc_handle" where
  "nsp_cmd_s_new_folder fuel N name h = send_named fuel N 0x0a 3 name h"

definition nsp_cmd_r_new_folder :: "nat \<Rightarrow> 'd nsp_env \<Rightarrow> 'd calc_handle \<Rightarrow> ret \<times> 'd calc_handle" where
  "nsp_cmd_r_new_folder fuel N h = status_only fuel N h"

definition nsp_cmd_s_del_folder :: "nat \<Rightarrow> 'd nsp_env \<Rightarrow> bytes \<Rightarrow> 'd calc_handle \<Rightarrow> ret \<times> 'd calc_handle" where
  "nsp_cmd_s_del_folder fuel N name h = send_named fuel N 0x0b 3 name h"

definition nsp_cmd_r_del_folder :: "nat \<Rightarrow> 'd nsp_env \<Rightarrow> 'd calc_handle \<Rightarrow> ret \<times> 'd calc_handle" where
  "nsp_cmd_r_del_folder fuel N h = status_only fuel N h"

definition nsp_cmd_s_copy_file :: "nat \<Rightarrow> 'd nsp_env \<Rightarrow> bytes \<Rightarrow> bytes \<Rightarrow> 'd calc_handle \<Rightarrow> ret \<times> 'd calc_handle" where
  "nsp_cmd_s_copy_file fuel N name name2 h = send_two_names fuel N 0x0c name name2 h"

definition nsp_cmd_r_copy_file :: "nat \<Rightarrow> 'd nsp_env \<Rightarrow> 'd calc_handle \<Rightarrow> ret \<times> 'd calc_handle" where
  "nsp_cmd_r_copy_file fuel N h = status_only fuel N h"

definition nsp_cmd_s_rename_file :: "nat \<Rightarrow> 'd nsp_env \<Rightarrow> bytes \<Rightarrow> bytes \<Rightarrow> 'd calc_handle \<Rightarrow> ret \<times> 'd calc_handle" where
  "nsp_cmd_s_rename_file fuel N name name2 h = send_two_names fuel N 0x21 name name2 h"

definition nsp_cmd_r_rename_file :: "nat \<Rightarrow> 'd nsp_env \<Rightarrow> 'd calc_handle \<Rightarrow> ret \<times> 'd calc_handle" where
  "nsp_cmd_r_rename_file fuel N h = status_only fuel N h"

definition nsp_cmd_s_file_ok :: "nat \<Rightarrow> 'd nsp_env \<Rightarrow> 'd calc_handle \<Rightarrow> ret \<times> 'd calc_handle" where
  "nsp_cmd_s_file_ok fuel N h = send_empty fuel N NSP_PORT_FILE_MGMT 0x04 h"

text \<open>The first \<open>n\<close> bytes of an array of the caller.\<close>

definition send_contents ::
    "nat \<Rightarrow> 'd nsp_env \<Rightarrow> u16 \<Rightarrow> u8 \<Rightarrow> u32 \<Rightarrow> bytes \<Rightarrow> 'd calc_handle \<Rightarrow> ret \<times> 'd calc_handle" where
  "send_contents fuel N port cmd n data h =
     send_filled fuel N port cmd (unat n) (\<lambda>d. memcpy d 0 data 0 (unat n)) h"

definition nsp_cmd_s_file_contents :: "nat \<Rightarrow> 'd nsp_env \<Rightarrow> u32 \<Rightarrow> bytes \<Rightarrow> 'd calc_handle \<Rightarrow> ret \<times> 'd calc_handle" where
  "nsp_cmd_s_file_contents fuel N n data h = send_contents fuel N NSP_PORT_FILE_MGMT 0x05 n data h"

definition nsp_cmd_r_file_contents ::
    "nat \<Rightarrow> 'd nsp_env \<Rightarrow> u32 \<Rightarrow> 'd calc_handle \<Rightarrow> ret \<times> (u32 \<times> bytes option) option \<times> 'd calc_handle" where
  "nsp_cmd_r_file_contents fuel N expected h =
     (let (r, pkt, h) = nsp_recv_data fuel N (nsp_vtl_pkt_new\<lparr>nv_size := expected\<rparr>) h
      in if r \<noteq> None then (r, None, h)
         else if nv_cmd pkt = NSP_CMD_STATUS
         then (if 1 \<le> nv_size pkt then nsp_error (received_bytes pkt ! 0) else Some ERR_INVALID_PACKET, None, h)
         else if nv_cmd pkt \<noteq> 0x05 \<or> nv_size pkt \<noteq> expected then (Some ERR_INVALID_PACKET, None, h)
         else (None, Some (nv_size pkt, copy_vtl_data pkt), h))"

section \<open>Operating systems\<close>

definition nsp_cmd_s_os_install :: "nat \<Rightarrow> 'd nsp_env \<Rightarrow> u32 \<Rightarrow> 'd calc_handle \<Rightarrow> ret \<times> 'd calc_handle" where
  "nsp_cmd_s_os_install fuel N n h = send_filled fuel N NSP_PORT_OS_INSTALL 0x03 4 (be32_put 0 n) h"

definition nsp_cmd_r_os_install :: "nat \<Rightarrow> 'd nsp_env \<Rightarrow> 'd calc_handle \<Rightarrow> ret \<times> 'd calc_handle" where
  "nsp_cmd_r_os_install fuel N h =
     (let (r, pkt, h) = nsp_recv_data fuel N nsp_vtl_pkt_new h
      in (if r = None \<and> nv_cmd pkt \<noteq> NSP_CMD_OS_OK then Some ERR_INVALID_PACKET else r, h))"

definition nsp_cmd_s_os_contents :: "nat \<Rightarrow> 'd nsp_env \<Rightarrow> u32 \<Rightarrow> bytes \<Rightarrow> 'd calc_handle \<Rightarrow> ret \<times> 'd calc_handle" where
  "nsp_cmd_s_os_contents fuel N n data h = send_contents fuel N NSP_PORT_OS_INSTALL 0x05 n data h"

text \<open>
  Rounds that skip stray acknowledgements, limited by fuel; the packet is used again, so that its
  last size is the one that the next reception waits for.
\<close>

fun progress_rounds :: "nat \<Rightarrow> nat \<Rightarrow> 'd nsp_env \<Rightarrow> nsp_vtl \<Rightarrow> 'd calc_handle \<Rightarrow> ret \<times> u8 option \<times> 'd calc_handle" where
  "progress_rounds 0 fuel N pkt h = (Some OUT_OF_FUEL, None, h)"
| "progress_rounds (Suc n) fuel N pkt h =
     (let (r, pkt, h) = nsp_recv_data fuel N pkt h; d = received_bytes pkt
      in if r \<noteq> None then (r, None, h)
         else if nv_cmd pkt = 0x06
         then (if nv_size pkt < 1 then (Some ERR_INVALID_PACKET, None, h) else (None, Some (d ! 0), h))
         else if nv_cmd pkt = NSP_CMD_STATUS
         then (if nv_size pkt < 1 then (Some ERR_INVALID_PACKET, None, h)
               else (let (r, v) = ticalcs_nsp_os_status_result (d ! 0) in (r, Some v, h)))
         else if nv_cmd pkt = NSP_CMD_OS_OK then (None, Some 100, h)
         else if nv_src_port pkt = NSP_PORT_PKT_ACK2 then progress_rounds n fuel N pkt h
         else (Some ERR_INVALID_PACKET, None, h))"

definition nsp_cmd_r_progress :: "nat \<Rightarrow> 'd nsp_env \<Rightarrow> 'd calc_handle \<Rightarrow> ret \<times> u8 option \<times> 'd calc_handle" where
  "nsp_cmd_r_progress fuel N h = progress_rounds fuel fuel N nsp_vtl_pkt_new h"

section \<open>Any service\<close>

definition nsp_cmd_s_generic_data ::
    "nat \<Rightarrow> 'd nsp_env \<Rightarrow> u32 \<Rightarrow> bytes option \<Rightarrow> u16 \<Rightarrow> u8 \<Rightarrow> 'd calc_handle \<Rightarrow> ret \<times> 'd calc_handle" where
  "nsp_cmd_s_generic_data fuel N n data sid cmd h =
     (case data of
        None \<Rightarrow> send_filled fuel N sid cmd (unat n) Some h
      | Some data \<Rightarrow> send_contents fuel N sid cmd n data h)"

definition nsp_cmd_r_generic_data ::
    "nat \<Rightarrow> 'd nsp_env \<Rightarrow> 'd calc_handle \<Rightarrow> ret \<times> (u32 \<times> bytes option) option \<times> 'd calc_handle" where
  "nsp_cmd_r_generic_data fuel N h =
     (let (r, x, h) = recv_any fuel N 0 h in (r, map_option snd x, h))"

definition nsp_cmd_s_echo :: "nat \<Rightarrow> 'd nsp_env \<Rightarrow> u32 \<Rightarrow> bytes option \<Rightarrow> 'd calc_handle \<Rightarrow> ret \<times> 'd calc_handle" where
  "nsp_cmd_s_echo fuel N n data h = nsp_cmd_s_generic_data fuel N n data NSP_PORT_ECHO 0 h"

definition nsp_cmd_r_echo ::
    "nat \<Rightarrow> 'd nsp_env \<Rightarrow> 'd calc_handle \<Rightarrow> ret \<times> (u32 \<times> bytes option) option \<times> 'd calc_handle" where
  "nsp_cmd_r_echo fuel N h = nsp_cmd_r_generic_data fuel N h"

section \<open>Keys\<close>

definition key_fill :: "u32 \<Rightarrow> bytes \<Rightarrow> bytes" where
  "key_fill code d =
     d[3 := 0x08, 4 := 0x02, 5 := ucast (drop_bit 16 code), 7 := ucast (drop_bit 8 code), 23 := ucast (code AND 0xFF)]"

definition nsp_cmd_s_key :: "nat \<Rightarrow> 'd nsp_env \<Rightarrow> u32 \<Rightarrow> 'd calc_handle \<Rightarrow> ret \<times> 'd calc_handle" where
  "nsp_cmd_s_key fuel N code h =
     andthen (nsp_session_open NSP_PORT_KEYPRESSES h) (\<lambda>h.
       andthen (andthen (send_filled fuel N NSP_PORT_KEYPRESSES 0x01 3 (\<lambda>d. Some (d[2 := 0x80])) h)
         (send_filled fuel N NSP_PORT_KEYPRESSES 0x00 25 (\<lambda>d. Some (key_fill code d))))
         (nsp_session_close fuel N))"

definition nsp_cmd_s_keypress_event ::
    "nat \<Rightarrow> 'd nsp_env \<Rightarrow> u8 \<times> u8 \<times> u8 \<Rightarrow> 'd calc_handle \<Rightarrow> ret \<times> 'd calc_handle" where
  "nsp_cmd_s_keypress_event fuel N keycode h =
     (case keycode of (k0, k1, k2) \<Rightarrow>
        nsp_cmd_s_key fuel N (push_bit 16 (ucast k0) OR push_bit 8 (ucast k1) OR ucast k2) h)"

section \<open>What the commands send\<close>

lemma alloc_small:
  "n < 2 ^ 32 \<Longrightarrow> nsp_vtl_pkt_alloc_data (of_nat n) = Some (replicate (n + 1) 0)"
proof -
  assume n: "n < 2 ^ 32"
  then have "unat (of_nat (n + 1) :: 64 word) = n + 1" by (simp only: unat_of_nat) (simp add: take_bit_nat_eq_self)
  moreover have "of_nat n + 1 = (of_nat (n + 1) :: 64 word)" by simp
  ultimately show ?thesis unfolding nsp_vtl_pkt_alloc_data_def by (metis Suc_eq_plus1 nat.distinct(1) unat_0)
qed

lemma size_small: "n < 2 ^ 32 \<Longrightarrow> unat (of_nat n :: u32) = n"
  by (simp add: unat_of_nat take_bit_nat_eq_self)

text \<open>The packet of a command: its data, and one byte that is allocated behind it.\<close>

definition command_packet :: "u16 \<Rightarrow> u16 \<Rightarrow> u8 \<Rightarrow> bytes \<Rightarrow> nsp_vtl" where
  "command_packet src port cmd data =
     nsp_vtl_pkt_new_ex (of_nat (length data)) NSP_SRC_ADDR src NSP_DEV_ADDR port cmd (Some (data @ [0]))"

lemma command_packet_simps [simp]:
  "nv_src_port (command_packet src port cmd data) = src" "nv_dst_port (command_packet src port cmd data) = port"
  "nv_cmd (command_packet src port cmd data) = cmd" "nv_size (command_packet src port cmd data) = of_nat (length data)"
  "nv_data (command_packet src port cmd data) = Some (data @ [0])"
  by (simp_all add: command_packet_def nsp_vtl_pkt_new_ex_def)

lemma filled_sent:
  assumes "fill (replicate (n + 1) 0) = Some (data @ [0])" "length data = n" "n < 2 ^ 32"
  shows "send_filled fuel N port cmd n fill h = nsp_send_data fuel N (command_packet (ns_src_port (kh_nsp h)) port cmd data) h"
  using assms by (simp add: send_filled_def alloc_small command_packet_def)

lemma contents_sent:
  assumes "length data < 2 ^ 32"
  shows "send_contents fuel N port cmd (of_nat (length data)) data h
    = nsp_send_data fuel N (command_packet (ns_src_port (kh_nsp h)) port cmd data) h"
proof -
  have "memcpy (replicate (length data + 1) 0) 0 data 0 (length data) = Some (data @ [0])"
    by (simp add: memcpy_eq del: replicate_Suc) simp
  then show ?thesis unfolding send_contents_def size_small [OF assms] using assms by (intro filled_sent) simp_all
qed

definition put_file_data :: "bytes \<Rightarrow> u32 \<Rightarrow> bytes" where
  "put_file_data name n =
     1 # name @ [0] @ replicate (8 - length name) 0 @ [MSB (MSW n), LSB (MSW n), MSB (LSW n), LSB (LSW n)]"

lemma put_file_sent:
  assumes "length name < 2 ^ 32 - 6"
  shows "nsp_cmd_s_put_file fuel N name n h
    = nsp_send_data fuel N (command_packet (ns_src_port (kh_nsp h)) 0x4060 0x03 (put_file_data name n)) h"
proof -
  let ?name = "name @ [0] @ replicate (8 - length name) 0"
  have len: "length ?name = name_room name + 1" by (simp add: name_room_def)
  have "replicate (6 + name_room name + 1) (0::u8) = 0 # replicate (length ?name) 0 @ replicate 5 0"
    unfolding len replicate_Suc [symmetric] replicate_add [symmetric] by simp
  then have z: "(replicate (6 + name_room name + 1) (0::u8))[0 := 1] = [1] @ replicate (length ?name) 0 @ replicate 5 0"
    by simp
  have "nsp_put_str ((replicate (6 + name_room name + 1) 0)[0 := 1]) 1 name = Some ([1] @ ?name @ replicate 5 0, length ?name)"
    unfolding z nsp_put_str_def Let_def
    using memcpy_at_split [of "[1]" 1 "replicate (length ?name) 0" ?name "replicate 5 0"] by simp
  moreover have "be32_put (length ?name + 1) n ([1] @ ?name @ replicate 5 0) = Some (put_file_data name n @ [0])"
    unfolding be32_put_def put_file_data_def
    using memcpy_at_split [of "[1] @ ?name" "length ?name + 1" "replicate 4 0" "[MSB (MSW n), LSB (MSW n), MSB (LSW n), LSB (LSW n)]" "[0]"]
    by (simp add: numeral_eq_Suc)
  ultimately have "put_file_fill name n (replicate (6 + name_room name + 1) 0) = Some (put_file_data name n @ [0])"
    by (simp add: put_file_fill_def)
  moreover have "length (put_file_data name n) = 6 + name_room name" by (simp add: put_file_data_def name_room_def)
  ultimately show ?thesis using assms by (simp add: nsp_cmd_s_put_file_def filled_sent name_room_def)
qed

section \<open>Commands across the link\<close>





end
