(* ===== verification/TiModels.thy ===== *)
theory TiModels
  imports CalcHandle
begin

text \<open>
  What the libraries know about a calculator model: the predicates of
  \<^verbatim>\<open>libticonv/trunk/src/ticonv.cc\<close> and \<^verbatim>\<open>libtifiles/trunk/src/misc.cc\<close>, with the functions of the
  latter that build and split paths. The models are ordered as in the enumeration \<^verbatim>\<open>CalcModel\<close>,
  which two of the predicates and the macros of \<^verbatim>\<open>calc_8x.cc\<close> compare with.
\<close>

section \<open>The order of the models\<close>

definition all_models :: "calc_model list" where
  "all_models =
     [CALC_NONE, CALC_TI73, CALC_TI82, CALC_TI83, CALC_TI83P, CALC_TI84P, CALC_TI85, CALC_TI86,
      CALC_TI89, CALC_TI89T, CALC_TI92, CALC_TI92P, CALC_V200, CALC_TI84P_USB, CALC_TI89T_USB,
      CALC_NSPIRE, CALC_TI80, CALC_TI84PC, CALC_TI84PC_USB, CALC_TI83PCE_USB, CALC_TI84PCE_USB,
      CALC_TI82A_USB, CALC_TI84PT_USB, CALC_NSPIRE_CRADLE, CALC_NSPIRE_CLICKPAD,
      CALC_NSPIRE_CLICKPAD_CAS, CALC_NSPIRE_TOUCHPAD, CALC_NSPIRE_TOUCHPAD_CAS, CALC_NSPIRE_CX,
      CALC_NSPIRE_CX_CAS, CALC_NSPIRE_CMC, CALC_NSPIRE_CMC_CAS, CALC_NSPIRE_CXII,
      CALC_NSPIRE_CXII_CAS, CALC_NSPIRE_CXIIT, CALC_NSPIRE_CXIIT_CAS, CALC_TI82AEP_USB,
      CALC_TIPRESENTER, CALC_CBL, CALC_CBR, CALC_CBL2, CALC_CBR2, CALC_LABPRO, CALC_LABPRO_USB,
      CALC_EASYTEMP_GOTEMP_USB, CALC_EASYLINK_GOLINK_USB, CALC_CBR2_GOMOTION_USB,
      CALC_GODIRECT_USB, CALC_TI84EVO_USB, CALC_TI84EVOT_USB, CALC_TI83EVO_USB, CALC_MAX]"

definition model_number :: "calc_model \<Rightarrow> nat" where
  "model_number m = length (takeWhile (\<lambda>x. x \<noteq> m) all_models)"

lemma every_model: "m \<in> set all_models"
  by (cases m) (simp_all add: all_models_def)

lemma model_at_number: "model_number m < length all_models \<and> all_models ! model_number m = m"
proof -
  have "takeWhile (\<lambda>x. x \<noteq> m) all_models \<noteq> all_models" using every_model by (auto simp: takeWhile_eq_all_conv)
  then have "model_number m < length all_models"
    unfolding model_number_def by (metis length_takeWhile_le le_neq_implies_less takeWhile_eq_take take_all order_refl)
  then show ?thesis using nth_length_takeWhile [of "\<lambda>x. x \<noteq> m" all_models] by (simp add: model_number_def)
qed

instantiation calc_model :: linorder
begin

definition less_eq_calc_model :: "calc_model \<Rightarrow> calc_model \<Rightarrow> bool" where
  "less_eq_calc_model a b \<longleftrightarrow> model_number a \<le> model_number b"

definition less_calc_model :: "calc_model \<Rightarrow> calc_model \<Rightarrow> bool" where
  "less_calc_model a b \<longleftrightarrow> model_number a < model_number b"

instance
proof
  fix a b :: calc_model
  show "a \<le> b \<Longrightarrow> b \<le> a \<Longrightarrow> a = b"
    by (metis less_eq_calc_model_def model_at_number order_antisym)
qed (auto simp: less_eq_calc_model_def less_calc_model_def)

end

lemmas model_order = less_eq_calc_model_def less_calc_model_def model_number_def all_models_def

section \<open>Families and features (ticonv.cc)\<close>

definition ticonv_model_uses_utf8 :: "calc_model \<Rightarrow> bool" where
  "ticonv_model_uses_utf8 m \<longleftrightarrow> m \<noteq> CALC_NONE \<and> m < CALC_MAX \<and> m \<notin> {CALC_TI73, CALC_TI82, CALC_TI83,
     CALC_TI83P, CALC_TI84P, CALC_TI85, CALC_TI86, CALC_TI89, CALC_TI89T, CALC_TI92, CALC_TI92P,
     CALC_V200, CALC_TI80, CALC_TI84PC, CALC_TIPRESENTER, CALC_CBL, CALC_CBR, CALC_CBL2, CALC_CBR2,
     CALC_LABPRO, CALC_LABPRO_USB, CALC_EASYTEMP_GOTEMP_USB, CALC_EASYLINK_GOLINK_USB,
     CALC_CBR2_GOMOTION_USB, CALC_GODIRECT_USB}"

definition ticonv_model_is_tiz80 :: "calc_model \<Rightarrow> bool" where
  "ticonv_model_is_tiz80 m \<longleftrightarrow> m \<in> {CALC_TI73, CALC_TI82, CALC_TI83, CALC_TI83P, CALC_TI84P, CALC_TI85,
     CALC_TI86, CALC_TI84P_USB, CALC_TI84PC, CALC_TI84PC_USB, CALC_TI82A_USB, CALC_TI84PT_USB}"

definition ticonv_model_is_tiez80 :: "calc_model \<Rightarrow> bool" where
  "ticonv_model_is_tiez80 m \<longleftrightarrow> m \<in> {CALC_TI83PCE_USB, CALC_TI84PCE_USB, CALC_TI82AEP_USB}"

definition ticonv_model_is_tievo :: "calc_model \<Rightarrow> bool" where
  "ticonv_model_is_tievo m \<longleftrightarrow> m = CALC_TI84EVO_USB \<or> m = CALC_TI83EVO_USB \<or> m = CALC_TI84EVOT_USB"

definition ticonv_model_is_ti68k :: "calc_model \<Rightarrow> bool" where
  "ticonv_model_is_ti68k m \<longleftrightarrow> m \<in> {CALC_TI89, CALC_TI89T, CALC_TI92, CALC_TI92P, CALC_V200, CALC_TI89T_USB}"

definition ticonv_model_is_tinspire :: "calc_model \<Rightarrow> bool" where
  "ticonv_model_is_tinspire m \<longleftrightarrow> m = CALC_NSPIRE \<or> (m \<ge> CALC_NSPIRE_CRADLE \<and> m \<le> CALC_NSPIRE_CXIIT_CAS)"

definition ticonv_model_is_lab_equipment :: "calc_model \<Rightarrow> bool" where
  "ticonv_model_is_lab_equipment m \<longleftrightarrow> m \<in> {CALC_NSPIRE_CRADLE, CALC_CBL, CALC_CBR, CALC_CBL2, CALC_CBR2,
     CALC_LABPRO, CALC_LABPRO_USB, CALC_EASYTEMP_GOTEMP_USB, CALC_EASYLINK_GOLINK_USB,
     CALC_CBR2_GOMOTION_USB, CALC_GODIRECT_USB}"

definition ticonv_model_has_legacy_ioport :: "calc_model \<Rightarrow> bool" where
  "ticonv_model_has_legacy_ioport m \<longleftrightarrow> m \<in> {CALC_TI73, CALC_TI82, CALC_TI83, CALC_TI83P, CALC_TI84P,
     CALC_TI85, CALC_TI86, CALC_TI89, CALC_TI89T, CALC_TI92, CALC_TI92P, CALC_V200, CALC_TI80,
     CALC_TI84PC, CALC_CBL, CALC_CBR, CALC_CBL2, CALC_CBR2, CALC_LABPRO}"

definition ticonv_model_has_usb_ioport :: "calc_model \<Rightarrow> bool" where
  "ticonv_model_has_usb_ioport m \<longleftrightarrow> m \<in> {CALC_TI84P_USB, CALC_TI89T_USB, CALC_TI84PC_USB,
     CALC_TI83PCE_USB, CALC_TI84PCE_USB, CALC_TI82A_USB, CALC_TI84PT_USB, CALC_TI82AEP_USB,
     CALC_TI84EVO_USB, CALC_TI83EVO_USB, CALC_TI84EVOT_USB}
     \<or> ticonv_model_is_tinspire m
     \<or> m \<in> {CALC_CBR2, CALC_LABPRO, CALC_LABPRO_USB, CALC_EASYTEMP_GOTEMP_USB,
            CALC_EASYLINK_GOLINK_USB, CALC_CBR2_GOMOTION_USB, CALC_GODIRECT_USB}"

definition ticonv_model_has_flash_memory :: "calc_model \<Rightarrow> bool" where
  "ticonv_model_has_flash_memory m \<longleftrightarrow> m \<noteq> CALC_NONE \<and> m < CALC_MAX \<and> m \<notin> {CALC_TI82, CALC_TI83,
     CALC_TI85, CALC_TI86, CALC_TI92, CALC_TI80, CALC_CBR, CALC_CBL, CALC_CBR2,
     CALC_EASYTEMP_GOTEMP_USB, CALC_EASYLINK_GOLINK_USB, CALC_CBR2_GOMOTION_USB, CALC_GODIRECT_USB}"

definition ticonv_model_has_real_screen :: "calc_model \<Rightarrow> bool" where
  "ticonv_model_has_real_screen m \<longleftrightarrow> m \<noteq> CALC_NONE \<and> m < CALC_MAX \<and> m \<notin> {CALC_NSPIRE_CRADLE, CALC_CBL,
     CALC_CBR, CALC_CBL2, CALC_CBR2, CALC_LABPRO, CALC_LABPRO_USB, CALC_EASYTEMP_GOTEMP_USB,
     CALC_EASYLINK_GOLINK_USB, CALC_CBR2_GOMOTION_USB, CALC_GODIRECT_USB}"

definition ticonv_model_has_monochrome_screen :: "calc_model \<Rightarrow> bool" where
  "ticonv_model_has_monochrome_screen m \<longleftrightarrow> m \<in> {CALC_TI73, CALC_TI82, CALC_TI83, CALC_TI83P, CALC_TI84P,
     CALC_TI85, CALC_TI86, CALC_TI89, CALC_TI89T, CALC_TI92, CALC_TI92P, CALC_V200, CALC_TI84P_USB,
     CALC_TI89T_USB, CALC_NSPIRE, CALC_TI80, CALC_TI82A_USB, CALC_TI84PT_USB, CALC_NSPIRE_CLICKPAD,
     CALC_NSPIRE_CLICKPAD_CAS, CALC_NSPIRE_TOUCHPAD, CALC_NSPIRE_TOUCHPAD_CAS, CALC_TIPRESENTER}"

definition ticonv_model_has_color_screen :: "calc_model \<Rightarrow> bool" where
  "ticonv_model_has_color_screen m \<longleftrightarrow> m \<in> {CALC_NSPIRE, CALC_TI84PC, CALC_TI84PC_USB, CALC_TI83PCE_USB,
     CALC_TI84PCE_USB, CALC_TI82AEP_USB, CALC_TI84EVO_USB, CALC_TI83EVO_USB, CALC_TI84EVOT_USB}
     \<or> (m \<ge> CALC_NSPIRE_CX \<and> m \<le> CALC_NSPIRE_CXIIT_CAS)"

definition ticonv_model_to_product_id :: "calc_model \<Rightarrow> u8" where
  "ticonv_model_to_product_id m =
     (case m of
        CALC_TI73 \<Rightarrow> 0x02 | CALC_TI83P \<Rightarrow> 0x04 | CALC_TI84P \<Rightarrow> 0x0A | CALC_TI89 \<Rightarrow> 0x03
      | CALC_TI89T \<Rightarrow> 0x09 | CALC_TI92P \<Rightarrow> 0x01 | CALC_V200 \<Rightarrow> 0x08 | CALC_TI84P_USB \<Rightarrow> 0x0A
      | CALC_TI89T_USB \<Rightarrow> 0x09 | CALC_NSPIRE \<Rightarrow> 0x0C | CALC_TI84PC \<Rightarrow> 0x0F | CALC_TI84PC_USB \<Rightarrow> 0x0F
      | CALC_TI83PCE_USB \<Rightarrow> 0x13 | CALC_TI84PCE_USB \<Rightarrow> 0x13 | CALC_TI82A_USB \<Rightarrow> 0x0B
      | CALC_TI84PT_USB \<Rightarrow> 0x1B | CALC_TI82AEP_USB \<Rightarrow> 0x15 | CALC_TI84EVO_USB \<Rightarrow> 0x17
      | CALC_TI83EVO_USB \<Rightarrow> 0x18 | CALC_TI84EVOT_USB \<Rightarrow> 0x19 | CALC_NSPIRE_CRADLE \<Rightarrow> 0x0D
      | CALC_NSPIRE_CLICKPAD \<Rightarrow> 0x0E | CALC_NSPIRE_CLICKPAD_CAS \<Rightarrow> 0x0C | CALC_NSPIRE_TOUCHPAD \<Rightarrow> 0x0E
      | CALC_NSPIRE_TOUCHPAD_CAS \<Rightarrow> 0x0C | CALC_NSPIRE_CX \<Rightarrow> 0x10 | CALC_NSPIRE_CX_CAS \<Rightarrow> 0x0F
      | CALC_NSPIRE_CMC \<Rightarrow> 0x12 | CALC_NSPIRE_CMC_CAS \<Rightarrow> 0x11 | CALC_NSPIRE_CXII \<Rightarrow> 0x1D
      | CALC_NSPIRE_CXII_CAS \<Rightarrow> 0x1C | CALC_NSPIRE_CXIIT \<Rightarrow> 0x1E | CALC_NSPIRE_CXIIT_CAS \<Rightarrow> 0x1C
      | CALC_TIPRESENTER \<Rightarrow> 0x07 | CALC_CBL2 \<Rightarrow> 0x05 | CALC_LABPRO \<Rightarrow> 0x06 | _ \<Rightarrow> 0x00)"

section \<open>Compatibility (misc.cc)\<close>

definition tifiles_calc_is_ti8x :: "calc_model \<Rightarrow> bool" where
  "tifiles_calc_is_ti8x m \<longleftrightarrow> ticonv_model_is_tiz80 m \<or> ticonv_model_is_tiez80 m"

definition tifiles_calc_is_ti9x :: "calc_model \<Rightarrow> bool" where
  "tifiles_calc_is_ti9x m \<longleftrightarrow> ticonv_model_is_ti68k m"

definition tifiles_calc_is_tinspire :: "calc_model \<Rightarrow> bool" where
  "tifiles_calc_is_tinspire m \<longleftrightarrow> ticonv_model_is_tinspire m"

definition tifiles_calc_are_compat :: "calc_model \<Rightarrow> calc_model \<Rightarrow> bool" where
  "tifiles_calc_are_compat m ref \<longleftrightarrow>
     (if tifiles_calc_is_ti8x m \<and> tifiles_calc_is_ti8x ref then True
      else if tifiles_calc_is_ti9x m \<and> tifiles_calc_is_ti9x ref then True
      else if ticonv_model_is_tinspire m \<and> ticonv_model_is_tinspire ref then True
      else if ticonv_model_is_tievo m \<and> ticonv_model_is_tievo ref then True
      else False)"

definition tifiles_has_folder :: "calc_model \<Rightarrow> bool" where
  "tifiles_has_folder m \<longleftrightarrow> ticonv_model_is_ti68k m \<or> ticonv_model_is_tinspire m"

definition tifiles_is_flash :: "calc_model \<Rightarrow> bool" where
  "tifiles_is_flash m \<longleftrightarrow> ticonv_model_has_flash_memory m"

definition tifiles_has_backup :: "calc_model \<Rightarrow> bool" where
  "tifiles_has_backup m \<longleftrightarrow> m \<in> {CALC_TI73, CALC_TI82, CALC_TI83, CALC_TI83P, CALC_TI84P, CALC_TI84PC,
     CALC_TI84PC_USB, CALC_TI82A_USB, CALC_TI82AEP_USB, CALC_TI84PT_USB, CALC_TI85, CALC_TI86, CALC_TI92}"

definition tifiles_has_attrs :: "calc_model \<Rightarrow> bool" where
  "tifiles_has_attrs m \<longleftrightarrow> m \<in> {CALC_TI83P, CALC_TI84P, CALC_TI84P_USB, CALC_TI82A_USB, CALC_TI84PT_USB,
     CALC_TI84PC, CALC_TI84PC_USB, CALC_TI83PCE_USB, CALC_TI84PCE_USB, CALC_TI89, CALC_TI89T,
     CALC_TI92, CALC_TI92P, CALC_V200, CALC_TI89T_USB}"

section \<open>Paths (misc.cc)\<close>

text \<open>
  A path on the calculator is a folder, a backslash and a name; a string is the list of its bytes
  without the terminator. The array that the sources write to has to be large enough; the length
  of the result says how large.
\<close>

abbreviation (input) backslash :: u8 where "backslash \<equiv> 0x5C"

definition varname_text :: "bytes \<Rightarrow> bytes" where
  "varname_text full =
     (let bs = dropWhile (\<lambda>b. b \<noteq> backslash) full in if bs = [] then full else tl bs)"

definition tifiles_get_fldname :: "bytes \<Rightarrow> bytes" where
  "tifiles_get_fldname full =
     (let bs = dropWhile (\<lambda>b. b \<noteq> backslash) full
      in if bs = [] then [] else take (length full - length bs) full)"

definition tifiles_build_fullname :: "calc_model \<Rightarrow> bytes \<Rightarrow> bytes \<Rightarrow> bytes" where
  "tifiles_build_fullname m fldname varname =
     (if tifiles_has_folder m then (if fldname \<noteq> [] then fldname @ [backslash] @ varname else varname)
      else varname)"

text \<open>A path that was built from a folder and a name is split into them again.\<close>

lemma fullname_split:
  assumes "backslash \<notin> set fldname" "backslash \<notin> set varname"
  shows "varname_text (tifiles_build_fullname m fldname varname) = varname"
    and "tifiles_get_fldname (tifiles_build_fullname m fldname varname)
           = (if tifiles_has_folder m then fldname else [])"
proof -
  have n: "dropWhile (\<lambda>b. b \<noteq> backslash) varname = []" using assms(2) by (auto simp: dropWhile_eq_Nil_conv)
  have f: "dropWhile (\<lambda>b. b \<noteq> backslash) (fldname @ backslash # varname) = backslash # varname"
    using assms(1) by (subst dropWhile_append2) auto
  show "varname_text (tifiles_build_fullname m fldname varname) = varname"
    using n f assms(2) by (simp add: varname_text_def tifiles_build_fullname_def Let_def)
  show "tifiles_get_fldname (tifiles_build_fullname m fldname varname)
          = (if tifiles_has_folder m then fldname else [])"
    using n f assms(2) by (simp add: tifiles_get_fldname_def tifiles_build_fullname_def Let_def)
qed

section \<open>The families\<close>

lemma nspire_models:
  "ticonv_model_is_tinspire m \<longleftrightarrow> m \<in> {CALC_NSPIRE, CALC_NSPIRE_CRADLE, CALC_NSPIRE_CLICKPAD,
     CALC_NSPIRE_CLICKPAD_CAS, CALC_NSPIRE_TOUCHPAD, CALC_NSPIRE_TOUCHPAD_CAS, CALC_NSPIRE_CX,
     CALC_NSPIRE_CX_CAS, CALC_NSPIRE_CMC, CALC_NSPIRE_CMC_CAS, CALC_NSPIRE_CXII,
     CALC_NSPIRE_CXII_CAS, CALC_NSPIRE_CXIIT, CALC_NSPIRE_CXIIT_CAS}"
  by (cases m; simp add: ticonv_model_is_tinspire_def model_order)

text \<open>
  No model is in two families, so that compatibility is symmetric and transitive, and every model
  that is in one is compatible with itself.
\<close>

lemma families_disjoint:
  "\<not> (tifiles_calc_is_ti8x m \<and> tifiles_calc_is_ti9x m)" "\<not> (tifiles_calc_is_ti8x m \<and> ticonv_model_is_tinspire m)"
  "\<not> (tifiles_calc_is_ti8x m \<and> ticonv_model_is_tievo m)" "\<not> (tifiles_calc_is_ti9x m \<and> ticonv_model_is_tinspire m)"
  "\<not> (tifiles_calc_is_ti9x m \<and> ticonv_model_is_tievo m)" "\<not> (ticonv_model_is_tinspire m \<and> ticonv_model_is_tievo m)"
  by (auto simp: nspire_models tifiles_calc_is_ti8x_def tifiles_calc_is_ti9x_def ticonv_model_is_tiz80_def
      ticonv_model_is_tiez80_def ticonv_model_is_ti68k_def ticonv_model_is_tievo_def)

lemma compat_equivalence:
  "tifiles_calc_are_compat m n \<Longrightarrow> tifiles_calc_are_compat n m"
  "tifiles_calc_are_compat m n \<Longrightarrow> tifiles_calc_are_compat n k \<Longrightarrow> tifiles_calc_are_compat m k"
  using families_disjoint [of n] by (auto simp: tifiles_calc_are_compat_def split: if_splits)

end
