(* ===== verification/TiContent.thy ===== *)
theory TiContent
  imports TiModels Checksum
begin

text \<open>
  Contents of files in memory: the entries of \<^verbatim>\<open>libtifiles/trunk/src/ve_fp.cc\<close> and the grouping of
  \<^verbatim>\<open>grouped.cc\<close>. Memory that has been allocated is a list; an allocation of zero bytes is the null
  pointer, as in GLib. Entries are values: the model has no aliasing between two of them, so that
  releasing one has no effect to show. Bytes that a reallocation adds have the contents \<open>junk\<close>.
\<close>

section \<open>Entries (ve_fp.cc)\<close>

record var_entry =
  ve_folder :: bytes
  ve_name :: bytes
  ve_type :: u8
  ve_attr :: u8
  ve_version :: u8
  ve_size :: u32
  ve_data :: "bytes option"
  ve_action :: nat

definition zeroed_block :: "nat \<Rightarrow> bytes option" where
  "zeroed_block n = (if n = 0 then None else Some (replicate n 0))"

definition tifiles_ve_create :: var_entry where
  "tifiles_ve_create = \<lparr>ve_folder = replicate 1024 0, ve_name = replicate 1024 0, ve_type = 0,
     ve_attr = 0, ve_version = 0, ve_size = 0, ve_data = None, ve_action = 0\<rparr>"

definition tifiles_ve_create_alloc_data :: "u32 \<Rightarrow> var_entry" where
  "tifiles_ve_create_alloc_data n = tifiles_ve_create\<lparr>ve_data := zeroed_block (unat n)\<rparr>"

definition tifiles_ve_create_with_data :: "u32 \<Rightarrow> var_entry" where
  "tifiles_ve_create_with_data n = tifiles_ve_create_alloc_data n"

definition tifiles_ve_create_with_data2 :: "u32 \<Rightarrow> bytes option \<Rightarrow> var_entry" where
  "tifiles_ve_create_with_data2 n data = tifiles_ve_create\<lparr>ve_data := data, ve_size := n\<rparr>"

definition tifiles_ve_alloc_data :: "nat \<Rightarrow> bytes" where
  "tifiles_ve_alloc_data n = replicate (n + 1) 0"

text \<open>Clearing from the old size on; the size itself is left to the caller.\<close>

definition tifiles_ve_realloc_data :: "bytes \<Rightarrow> var_entry \<Rightarrow> nat \<Rightarrow> var_entry" where
  "tifiles_ve_realloc_data junk ve n =
     (let old = (case ve_data ve of None \<Rightarrow> [] | Some d \<Rightarrow> d); d = take (n + 1) (old @ local_array (n + 1) junk);
          m = unat (ve_size ve)
      in ve\<lparr>ve_data := Some (if m < n then take m d @ replicate (n - m) 0 @ drop n d else d)\<rparr>)"

text \<open>
  Copies: \<open>tifiles_ve_dup\<close> gives the copy data of its own. \<open>tifiles_ve_copy\<close> does so only when the
  target has none: otherwise it overwrites the pointer with the one of the source and copies the
  data onto itself. \<open>None\<close> stands for reading outside of the data; the flag tells whether the result
  is the target or the null pointer.
\<close>

definition tifiles_ve_dup :: "var_entry \<Rightarrow> var_entry option" where
  "tifiles_ve_dup src =
     (let n = unat (ve_size src)
      in case ve_data src of
           None \<Rightarrow> Some (src\<lparr>ve_data := zeroed_block n\<rparr>)
         | Some d \<Rightarrow> if n = 0 then Some (src\<lparr>ve_data := None\<rparr>)
                     else map_option (\<lambda>d. src\<lparr>ve_data := Some d\<rparr>) (memcpy (replicate n 0) 0 d 0 n))"

definition tifiles_ve_copy :: "var_entry \<Rightarrow> var_entry \<Rightarrow> (var_entry \<times> bool) option" where
  "tifiles_ve_copy dst src =
     (let n = unat (ve_size src)
      in if ve_data dst = None
         then (if n = 0 then Some (src\<lparr>ve_data := None\<rparr>, False)
               else case ve_data src of None \<Rightarrow> None
                    | Some d \<Rightarrow> map_option (\<lambda>d. (src\<lparr>ve_data := Some d\<rparr>, True)) (memcpy (replicate n 0) 0 d 0 n))
         else (case ve_data src of
                 None \<Rightarrow> if n = 0 then Some (src, True) else None
               | Some d \<Rightarrow> map_option (\<lambda>d. (src\<lparr>ve_data := Some d\<rparr>, True)) (memcpy d 0 d 0 n)))"

text \<open>Arrays of entries that a null pointer ends.\<close>

definition tifiles_ve_create_array :: "nat \<Rightarrow> var_entry option list" where
  "tifiles_ve_create_array n = replicate (n + 1) None"

definition tifiles_ve_resize_array ::
    "var_entry option list \<Rightarrow> var_entry option list \<Rightarrow> nat \<Rightarrow> var_entry option list" where
  "tifiles_ve_resize_array junk a n = (take (n + 1) (a @ take (n + 1) (junk @ replicate (n + 1) None)))[n := None]"

section \<open>Flash pages (ve_fp.cc)\<close>

record flash_page =
  fp_addr :: u16
  fp_page :: u16
  fp_flag :: u8
  fp_size :: u16
  fp_data :: "bytes option"

definition tifiles_fp_create :: flash_page where
  "tifiles_fp_create = \<lparr>fp_addr = 0, fp_page = 0, fp_flag = 0, fp_size = 0, fp_data = None\<rparr>"

definition tifiles_fp_alloc_data :: "nat \<Rightarrow> bytes" where
  "tifiles_fp_alloc_data n = replicate n 0xFF @ [0]"

definition tifiles_fp_realloc_data :: "bytes \<Rightarrow> flash_page \<Rightarrow> nat \<Rightarrow> flash_page" where
  "tifiles_fp_realloc_data junk fp n =
     (let old = (case fp_data fp of None \<Rightarrow> [] | Some d \<Rightarrow> d); d = take (n + 1) (old @ local_array (n + 1) junk);
          m = unat (fp_size fp)
      in fp\<lparr>fp_data := Some (if m < n then take m d @ replicate (n - m) 0xFF @ drop n d else d)\<rparr>)"

definition tifiles_fp_create_alloc_data :: "u32 \<Rightarrow> flash_page" where
  "tifiles_fp_create_alloc_data n = tifiles_fp_create\<lparr>fp_data := zeroed_block (unat n)\<rparr>"

definition tifiles_fp_create_with_data :: "u32 \<Rightarrow> flash_page" where
  "tifiles_fp_create_with_data n = tifiles_fp_create_alloc_data n"

definition tifiles_fp_create_with_data2 :: "u32 \<Rightarrow> bytes option \<Rightarrow> flash_page" where
  "tifiles_fp_create_with_data2 n data = tifiles_fp_create\<lparr>fp_data := data, fp_size := ucast n\<rparr>"

section \<open>Contents (grouped.cc)\<close>

text \<open>\<open>fc_entries\<close> is the array with the null pointer behind the last of \<open>fc_num_entries\<close> entries.\<close>

record file_content =
  fc_model :: calc_model
  fc_default_folder :: bytes
  fc_comment :: bytes
  fc_num_entries :: nat
  fc_entries :: "var_entry option list"
  fc_checksum :: u16
  fc_model_dst :: calc_model
  fc_stored_checksum :: u16

definition cstring :: "bytes \<Rightarrow> bytes" where
  "cstring s = takeWhile (\<lambda>b. b \<noteq> 0) s"

definition dup_entry :: "var_entry option \<Rightarrow> var_entry option option" where
  "dup_entry e = (case e of None \<Rightarrow> Some None | Some e \<Rightarrow> map_option Some (tifiles_ve_dup e))"

text \<open>The first \<open>n\<close> entries of an array, each duplicated; \<open>None\<close> when the array has fewer.\<close>

fun dup_entries :: "nat \<Rightarrow> var_entry option list \<Rightarrow> var_entry option list option" where
  "dup_entries 0 a = Some []"
| "dup_entries (Suc n) [] = None"
| "dup_entries (Suc n) (e # a) =
     Option.bind (dup_entry e) (\<lambda>e. Option.bind (dup_entries n a) (\<lambda>es. Some (e # es)))"

fun dup_contents :: "file_content list \<Rightarrow> var_entry option list option" where
  "dup_contents [] = Some []"
| "dup_contents (c # cs) =
     Option.bind (dup_entries (fc_num_entries c) (fc_entries c)) (\<lambda>es.
     Option.bind (dup_contents cs) (\<lambda>rest. Some (es @ rest)))"

definition empty_content :: file_content where
  "empty_content = \<lparr>fc_model = CALC_NONE, fc_default_folder = replicate 1024 0, fc_comment = replicate 43 0,
     fc_num_entries = 0, fc_entries = [], fc_checksum = 0, fc_model_dst = CALC_NONE, fc_stored_checksum = 0\<rparr>"

definition tifiles_group_contents :: "file_content list \<Rightarrow> errcode + file_content" where
  "tifiles_group_contents src =
     (if \<exists>c\<in>set src. ticonv_model_is_tinspire (fc_model c) then Inl ERR_BAD_CALC
      else
        (let dst = (case src of [] \<Rightarrow> empty_content | c # _ \<Rightarrow> c); n = sum_list (map fc_num_entries src)
         in case dup_contents src of
              None \<Rightarrow> Inl UNDEFINED_BEHAVIOUR
            | Some es \<Rightarrow> Inr (dst\<lparr>fc_num_entries := n, fc_entries := es @ [None]\<rparr>)))"

text \<open>
  One content for each entry; the checksum of the group is added to the sums of the first
  fifteen bytes of the entry, which are bytes of the name of its folder, and of its data.
\<close>

definition single_content :: "file_content \<Rightarrow> var_entry option \<Rightarrow> file_content option" where
  "single_content src e =
     Option.bind (dup_entry e) (\<lambda>d. Option.bind d (\<lambda>d.
     Some (src\<lparr>fc_num_entries := 1, fc_entries := [Some d, None],
       fc_checksum := fc_checksum src + tifiles_checksum (take 15 (ve_folder d))
         + (case ve_data d of None \<Rightarrow> 0 | Some bs \<Rightarrow> tifiles_checksum (take (unat (ve_size d)) bs))\<rparr>)))"

fun single_contents :: "file_content \<Rightarrow> nat \<Rightarrow> var_entry option list \<Rightarrow> file_content list option" where
  "single_contents src 0 a = Some []"
| "single_contents src (Suc n) [] = None"
| "single_contents src (Suc n) (e # a) =
     Option.bind (single_content src e) (\<lambda>c. Option.bind (single_contents src n a) (\<lambda>cs. Some (c # cs)))"

definition tifiles_ungroup_content :: "file_content \<Rightarrow> errcode + file_content list" where
  "tifiles_ungroup_content src =
     (if ticonv_model_is_tinspire (fc_model src) then Inl ERR_BAD_CALC
      else case single_contents src (fc_num_entries src) (fc_entries src) of
             None \<Rightarrow> Inl UNDEFINED_BEHAVIOUR | Some cs \<Rightarrow> Inr cs)"

definition tifiles_content_add_entry ::
    "var_entry option list \<Rightarrow> file_content \<Rightarrow> var_entry option \<Rightarrow> nat \<times> file_content" where
  "tifiles_content_add_entry junk c ve =
     (let n = fc_num_entries c
      in (n + 1, c\<lparr>fc_entries := (tifiles_ve_resize_array junk (fc_entries c) (n + 1))[n := ve],
                  fc_num_entries := n + 1\<rparr>))"

definition same_name :: "var_entry \<Rightarrow> var_entry \<Rightarrow> bool" where
  "same_name ve s \<longleftrightarrow> cstring (ve_folder s) = cstring (ve_folder ve) \<and> cstring (ve_name s) = cstring (ve_name ve)"

fun find_entry :: "var_entry \<Rightarrow> nat \<Rightarrow> var_entry option list \<Rightarrow> nat option" where
  "find_entry ve 0 a = Some 0"
| "find_entry ve (Suc n) [] = None"
| "find_entry ve (Suc n) (None # a) = None"
| "find_entry ve (Suc n) (Some s # a) = (if same_name ve s then Some 0 else map_option Suc (find_entry ve n a))"

text \<open>Shifting the entries behind the removed one down, the null pointer at the end included.\<close>

definition shift_down :: "nat \<Rightarrow> nat \<Rightarrow> var_entry option list \<Rightarrow> var_entry option list" where
  "shift_down i n a = (take i a @ take (n - i) (drop (i + 1) a) @ drop n a)[n := None]"

definition tifiles_content_del_entry ::
    "var_entry option list \<Rightarrow> file_content \<Rightarrow> var_entry option \<Rightarrow> (int \<times> file_content) option" where
  "tifiles_content_del_entry junk c ve =
     (case ve of
        None \<Rightarrow> Some (int (fc_num_entries c), c)
      | Some ve \<Rightarrow>
          (let n = fc_num_entries c
           in map_option (\<lambda>i. if i = n then (-1, c)
                else (int n - 1, c\<lparr>fc_entries := tifiles_ve_resize_array junk (shift_down i n (fc_entries c)) (n - 1),
                                  fc_num_entries := n - 1\<rparr>))
              (find_entry ve n (fc_entries c))))"

section \<open>What the operations do\<close>

text \<open>
  A content is well-formed when its array holds \<open>fc_num_entries\<close> entries with complete data and the
  null pointer behind them; \<open>entries_of\<close> is the list it stands for.
\<close>

definition entry_ok :: "var_entry \<Rightarrow> bool" where
  "entry_ok e \<longleftrightarrow> (case ve_data e of None \<Rightarrow> ve_size e = 0 | Some d \<Rightarrow> unat (ve_size e) \<le> length d)"

definition content_of :: "var_entry list \<Rightarrow> file_content \<Rightarrow> bool" where
  "content_of es c \<longleftrightarrow> fc_num_entries c = length es \<and> fc_entries c = map Some es @ [None]"

text \<open>The copy of an entry has the data that its size says, and no more.\<close>

definition stored :: "var_entry \<Rightarrow> var_entry" where
  "stored e = e\<lparr>ve_data := (if ve_size e = 0 then None else map_option (take (unat (ve_size e))) (ve_data e))\<rparr>"

lemma dup_stored: "entry_ok e \<Longrightarrow> tifiles_ve_dup e = Some (stored e)"
  by (auto simp: tifiles_ve_dup_def stored_def entry_ok_def zeroed_block_def memcpy_eq unat_eq_0 Let_def
      split: option.splits)

lemma stored_idem: "entry_ok e \<Longrightarrow> entry_ok (stored e) \<and> stored (stored e) = stored e"
  by (cases "ve_data e") (auto simp: stored_def entry_ok_def)

lemma dup_entries_all:
  "\<forall>e\<in>set es. entry_ok e \<Longrightarrow> dup_entries (length es) (map Some es @ r) = Some (map (\<lambda>e. Some (stored e)) es)"
  by (induction es) (simp_all add: dup_entry_def dup_stored)

lemma resize_array_longer:
  "tifiles_ve_resize_array junk (map Some es @ [None]) (length es + 1) = map Some es @ [x, None]
     \<or> tifiles_ve_resize_array junk (map Some es @ [None]) (length es + 1) = map Some es @ [None, None]"
proof -
  define p where "p = take (length es + 2) (junk @ replicate (length es + 2) (None :: var_entry option))"
  have "length p = length es + 2" by (simp add: p_def)
  then obtain x ps where p: "p = x # ps" by (cases p) auto
  have "tifiles_ve_resize_array junk (map Some es @ [None]) (length es + 1)
      = (take (length es + 2) (map Some es @ None # p))[length es + 1 := None]"
    by (simp add: tifiles_ve_resize_array_def p_def)
  then show ?thesis by (simp add: p list_update_append)
qed

lemma content_add:
  assumes "content_of es c"
  shows "content_of (es @ [ve]) (snd (tifiles_content_add_entry junk c (Some ve)))"
    "fst (tifiles_content_add_entry junk c (Some ve)) = length es + 1"
  using assms resize_array_longer [of junk es None]
  by (auto simp: content_of_def tifiles_content_add_entry_def Let_def list_update_append)

text \<open>Removing takes out the first entry of the name, if there is one.\<close>

lemma find_entry_all:
  "find_entry ve (length es) (map Some es @ r) = Some (length (takeWhile (\<lambda>s. \<not> same_name ve s) es))"
  by (induction es) auto

lemma shift_down_eq:
  "shift_down (length xs) (length xs + 1 + length ys) (map Some xs @ Some y # map Some ys @ [None])
     = map Some xs @ map Some ys @ [None, None]"
  by (simp add: shift_down_def list_update_append)

lemma resize_array_shorter:
  "tifiles_ve_resize_array junk (map Some es @ [None, None]) (length es) = map Some es @ [None]"
  by (simp add: tifiles_ve_resize_array_def list_update_append)

definition remove_named :: "var_entry \<Rightarrow> var_entry list \<Rightarrow> var_entry list" where
  "remove_named ve es = takeWhile (\<lambda>s. \<not> same_name ve s) es @ drop 1 (dropWhile (\<lambda>s. \<not> same_name ve s) es)"

lemma content_del_none:
  assumes "content_of es c" "\<forall>s\<in>set es. \<not> same_name ve s"
  shows "tifiles_content_del_entry junk c (Some ve) = Some (-1, c)"
proof -
  have "length (takeWhile (\<lambda>s. \<not> same_name ve s) es) = length es"
    using assms(2) by (metis takeWhile_eq_all_conv)
  then show ?thesis using assms(1) by (simp add: tifiles_content_del_entry_def content_of_def find_entry_all Let_def)
qed

lemma content_del:
  assumes "content_of es c"
  shows "\<exists>c'. tifiles_content_del_entry junk c (Some ve)
       = Some (if \<exists>s\<in>set es. same_name ve s then int (length es) - 1 else -1, c') \<and> content_of (remove_named ve es) c'"
proof (cases "dropWhile (\<lambda>s. \<not> same_name ve s) es")
  case Nil
  then have none: "\<not> (\<exists>s\<in>set es. same_name ve s)" "takeWhile (\<lambda>s. \<not> same_name ve s) es = es"
    by (auto simp: dropWhile_eq_Nil_conv takeWhile_eq_all_conv)
  then have "tifiles_content_del_entry junk c (Some ve) = Some (-1, c)"
    using assms content_del_none by blast
  moreover have "remove_named ve es = es" by (simp only: remove_named_def none(2) Nil) simp
  ultimately show ?thesis using assms none(1) by simp
next
  case (Cons y ys)
  let ?xs = "takeWhile (\<lambda>s. \<not> same_name ve s) es"
  have es: "es = ?xs @ y # ys" using takeWhile_dropWhile_id [of "\<lambda>s. \<not> same_name ve s" es] Cons by simp
  have "same_name ve y" using Cons by (metis dropWhile_eq_Cons_conv)
  moreover have "y \<in> set es" using es by (metis in_set_conv_decomp)
  ultimately have some: "\<exists>s\<in>set es. same_name ve s" by blast
  have len: "length es = length ?xs + 1 + length ys" using arg_cong [OF es, of length] by simp
  have arr: "fc_entries c = map Some ?xs @ Some y # map Some ys @ [None]" "fc_num_entries c = length es"
    using assms arg_cong [OF es, of "map Some"] by (simp_all add: content_of_def)
  have "find_entry ve (length es) (fc_entries c) = Some (length ?xs)"
    using assms by (simp add: content_of_def find_entry_all)
  moreover have "shift_down (length ?xs) (length es) (fc_entries c) = map Some (?xs @ ys) @ [None, None]"
    unfolding len arr(1) by (simp only: shift_down_eq map_append append_assoc)
  moreover have "tifiles_ve_resize_array junk (map Some (?xs @ ys) @ [None, None]) (length es - 1) = map Some (?xs @ ys) @ [None]"
    using resize_array_shorter [of junk "?xs @ ys"] len by simp
  ultimately show ?thesis
    using some len arr(2) Cons by (simp add: tifiles_content_del_entry_def content_of_def remove_named_def Let_def)
qed

text \<open>Grouping and taking apart.\<close>

lemma dup_contents_all:
  "list_all2 content_of ess cs \<Longrightarrow> \<forall>es\<in>set ess. \<forall>e\<in>set es. entry_ok e \<Longrightarrow>
     dup_contents cs = Some (map (\<lambda>e. Some (stored e)) (concat ess))"
  by (induction ess cs rule: list_all2_induct) (simp_all add: content_of_def dup_entries_all)

lemma sum_entries: "list_all2 content_of ess cs \<Longrightarrow> sum_list (map fc_num_entries cs) = length (concat ess)"
  by (induction ess cs rule: list_all2_induct) (simp_all add: content_of_def)

definition single_of :: "file_content \<Rightarrow> var_entry \<Rightarrow> file_content \<Rightarrow> bool" where
  "single_of g e c \<longleftrightarrow> content_of [e] c \<and> fc_model c = fc_model g \<and> fc_comment c = fc_comment g
     \<and> fc_default_folder c = fc_default_folder g
     \<and> fc_checksum c = fc_checksum g + tifiles_checksum (take 15 (ve_folder e))
         + (case ve_data e of None \<Rightarrow> 0 | Some bs \<Rightarrow> tifiles_checksum bs)"

lemma stored_data: "ve_data (stored e) = Some bs \<Longrightarrow> take (unat (ve_size e)) bs = bs"
  by (auto simp: stored_def split: if_splits)

lemma stored_simps [simp]: "ve_size (stored e) = ve_size e" "ve_folder (stored e) = ve_folder e"
  by (simp_all add: stored_def)

lemma single_contents_all:
  assumes "\<forall>e\<in>set es. entry_ok e"
  shows "\<exists>cs. single_contents g (length es) (map (\<lambda>e. Some (stored e)) es @ r) = Some cs
     \<and> list_all2 (single_of g) (map stored es) cs"
  using assms
proof (induction es)
  case (Cons e es)
  then obtain cs where cs: "single_contents g (length es) (map (\<lambda>e. Some (stored e)) es @ r) = Some cs"
      "list_all2 (single_of g) (map stored es) cs" by auto
  have "tifiles_ve_dup (stored e) = Some (stored e)"
    using dup_stored [of "stored e"] stored_idem [of e] Cons.prems by simp
  then have "\<exists>c. single_content g (Some (stored e)) = Some c \<and> single_of g (stored e) c"
    using stored_data [of e]
    by (auto simp: single_content_def dup_entry_def single_of_def content_of_def split: option.splits)
  then show ?case using cs by auto
qed simp

section \<open>Properties\<close>

text \<open>
  C13: Contents that are grouped and taken apart again give one content for each entry, in order:
  the entry with its own copy of the data its size says, and the model, comment and folder of the
  first of the contents; a content for an NSpire is refused.
\<close>

theorem group_then_ungroup:
  assumes "list_all2 content_of ess cs" "\<forall>es\<in>set ess. \<forall>e\<in>set es. entry_ok e" "cs \<noteq> []"
  shows "if \<exists>c\<in>set cs. ticonv_model_is_tinspire (fc_model c) then tifiles_group_contents cs = Inl ERR_BAD_CALC
     else \<exists>g cs'. tifiles_group_contents cs = Inr g \<and> content_of (map stored (concat ess)) g
        \<and> fc_model g = fc_model (hd cs) \<and> tifiles_ungroup_content g = Inr cs'
        \<and> list_all2 (single_of g) (map stored (concat ess)) cs'"
proof (cases "\<exists>c\<in>set cs. ticonv_model_is_tinspire (fc_model c)")
  case False
  let ?es = "concat ess"
  obtain c cs0 where cs: "cs = c # cs0" using assms(3) by (cases cs) auto
  let ?g = "c\<lparr>fc_num_entries := length ?es, fc_entries := map (\<lambda>e. Some (stored e)) ?es @ [None]\<rparr>"
  have g: "tifiles_group_contents cs = Inr ?g"
    using False dup_contents_all [OF assms(1,2)] sum_entries [OF assms(1)] cs
    by (simp add: tifiles_group_contents_def)
  have "\<forall>e\<in>set ?es. entry_ok e" using assms(2) by auto
  then obtain cs' where cs': "single_contents ?g (length ?es) (map (\<lambda>e. Some (stored e)) ?es @ [None]) = Some cs'"
      "list_all2 (single_of ?g) (map stored ?es) cs'" using single_contents_all [of ?es ?g "[None]"] by blast
  then have "tifiles_ungroup_content ?g = Inr cs'"
    using False cs by (simp add: tifiles_ungroup_content_def)
  moreover have "content_of (map stored ?es) ?g" by (simp add: content_of_def)
  ultimately show ?thesis using False g cs'(2) cs by auto
qed (simp add: tifiles_group_contents_def)

definition sample_entry :: "u8 \<Rightarrow> bytes \<Rightarrow> var_entry" where
  "sample_entry c d = tifiles_ve_create\<lparr>ve_name := [c, 0], ve_folder := replicate 20 0, ve_size := of_nat (length d), ve_data := Some d\<rparr>"

definition sample_content :: "var_entry list \<Rightarrow> file_content" where
  "sample_content es = empty_content\<lparr>fc_model := CALC_TI83P, fc_num_entries := length es, fc_entries := map Some es @ [None]\<rparr>"

lemma group_then_ungroup_witness:
  "\<exists>g cs'. tifiles_group_contents [sample_content [sample_entry 65 [1, 2]], sample_content [sample_entry 66 [3], sample_entry 67 [4]]] = Inr g
     \<and> tifiles_ungroup_content g = Inr cs' \<and> length cs' = 3"
  using group_then_ungroup [of "[[sample_entry 65 [1, 2]], [sample_entry 66 [3], sample_entry 67 [4]]]"
      "[sample_content [sample_entry 65 [1, 2]], sample_content [sample_entry 66 [3], sample_entry 67 [4]]]"]
  by (auto simp: sample_content_def sample_entry_def content_of_def entry_ok_def nspire_models empty_content_def
      dest: list_all2_lengthD)

text \<open>
  C14: Adding an entry to a content and removing the entry of its name again leaves the entries as
  they were, unless an entry of that name was there before: then that one is removed. Without an
  entry of the name removing reports -1 and changes nothing.
\<close>

theorem content_add_then_del:
  assumes "content_of es c"
  shows "\<exists>c'. tifiles_content_del_entry junk (snd (tifiles_content_add_entry junk' c (Some ve))) (Some ve)
         = Some (int (length es), c') \<and> content_of (remove_named ve (es @ [ve])) c'
     \<and> ((\<forall>s\<in>set es. \<not> same_name ve s) \<longrightarrow> content_of es c' \<and> tifiles_content_del_entry junk c (Some ve) = Some (-1, c))"
proof -
  have "same_name ve ve" by (simp add: same_name_def)
  then have "\<exists>s\<in>set (es @ [ve]). same_name ve s" by simp
  then obtain c' where c': "tifiles_content_del_entry junk (snd (tifiles_content_add_entry junk' c (Some ve))) (Some ve)
      = Some (int (length es), c')" "content_of (remove_named ve (es @ [ve])) c'"
    using content_del [OF content_add(1) [OF assms, of ve junk'], of junk ve] by auto
  have "remove_named ve (es @ [ve]) = es" if "\<forall>s\<in>set es. \<not> same_name ve s"
    using that \<open>same_name ve ve\<close> by (simp add: remove_named_def)
  then show ?thesis using c' content_del_none [OF assms] by auto
qed

lemma content_add_then_del_witness:
  "\<exists>c'. tifiles_content_del_entry [] (snd (tifiles_content_add_entry [] (sample_content []) (Some (sample_entry 65 [1])))) (Some (sample_entry 65 [1]))
     = Some (0, c')"
  using content_add_then_del [of "[]" "sample_content []" "[]" "[]" "sample_entry 65 [1]"]
  by (auto simp: sample_content_def content_of_def)

end
