(* ===== verification/Screen.thy ===== *)
theory Screen
  imports TilibsPrelude
begin

text \<open>
  \<^verbatim>\<open>libticalcs/trunk/src/screen.cc\<close>: conversion of screenshots to 24 bits a pixel, and the two
  run-length decoders, of the NSpire and of the TI-84 Plus C. An array of the caller is a list; a
  decoder returns the target array as it left it, in the case of an error too.
\<close>

section \<open>Conversions\<close>

datatype calc_pixel_format =
    CALC_PIXFMT_MONO | CALC_PIXFMT_GRAY_4 | CALC_PIXFMT_RGB_565_LE | CALC_PIXFMT_UNKNOWN

definition screen_size_ok :: "u32 \<Rightarrow> u32 \<Rightarrow> bool" where
  "screen_size_ok width height \<longleftrightarrow> \<not> 320 < width \<and> \<not> 240 < height"

text \<open>The eight pixels of a byte, from the highest bit.\<close>

definition bit_pixels :: "bytes \<Rightarrow> bytes \<Rightarrow> u8 \<Rightarrow> bytes" where
  "bit_pixels on off data = concat (map (\<lambda>i. if data AND drop_bit i 0x80 \<noteq> 0 then on else off) [0..<8])"

definition gs4_pixels :: "u8 \<Rightarrow> bytes" where
  "gs4_pixels data =
     (let hi = drop_bit 4 data; lo = data AND 0x0F
      in replicate 3 (push_bit 4 hi) @ replicate 3 (push_bit 4 lo))"

definition rgb565_pixel :: "u8 \<Rightarrow> u8 \<Rightarrow> bytes" where
  "rgb565_pixel b0 b1 =
     (let data = push_bit 8 (ucast b1) OR ucast b0 :: u16
      in [ucast (push_bit 3 (drop_bit 11 (data AND 0xF800))), ucast (push_bit 2 (drop_bit 5 (data AND 0x07E0))),
          ucast (push_bit 3 (data AND 0x001F))])"

fun rgb565_pixels :: "bytes \<Rightarrow> bytes" where
  "rgb565_pixels (b0 # b1 # r) = rgb565_pixel b0 b1 @ rgb565_pixels r"
| "rgb565_pixels r = []"

text \<open>Both pointers only move forward: \<open>n\<close> bytes are read, and what \<open>f\<close> makes of them is written.\<close>

definition convert_screen :: "(bytes \<Rightarrow> bytes) \<Rightarrow> nat \<Rightarrow> bytes \<Rightarrow> u32 \<Rightarrow> u32 \<Rightarrow> bytes \<Rightarrow> ret \<times> bytes" where
  "convert_screen f n src width height dst =
     (if \<not> screen_size_ok width height then (Some ERR_INVALID_PARAMETER, dst)
      else case Option.bind (memcpy_from src 0 n) (\<lambda>bs. memcpy_at dst 0 (f bs)) of
             None \<Rightarrow> (Some UNDEFINED_BEHAVIOUR, dst) | Some dst \<Rightarrow> (None, dst))"

definition ticalcs_screen_convert_bw_to_rgb888 :: "bytes \<Rightarrow> u32 \<Rightarrow> u32 \<Rightarrow> bytes \<Rightarrow> ret \<times> bytes" where
  "ticalcs_screen_convert_bw_to_rgb888 src width height dst =
     convert_screen (\<lambda>bs. concat (map (bit_pixels [0, 0, 0] [0xFF, 0xFF, 0xFF]) bs))
       (unat height * unat (drop_bit 3 width)) src width height dst"

definition ticalcs_screen_convert_bw_to_blurry_rgb888 :: "bytes \<Rightarrow> u32 \<Rightarrow> u32 \<Rightarrow> bytes \<Rightarrow> ret \<times> bytes" where
  "ticalcs_screen_convert_bw_to_blurry_rgb888 src width height dst =
     convert_screen (\<lambda>bs. concat (map (bit_pixels [0, 0, 0x34] [0xA8, 0xB4, 0xA8]) bs))
       (unat height * unat (drop_bit 3 width)) src width height dst"

definition ticalcs_screen_convert_gs4_to_rgb888 :: "bytes \<Rightarrow> u32 \<Rightarrow> u32 \<Rightarrow> bytes \<Rightarrow> ret \<times> bytes" where
  "ticalcs_screen_convert_gs4_to_rgb888 src width height dst =
     convert_screen (\<lambda>bs. concat (map gs4_pixels bs)) (unat height * unat (width div 2)) src width height dst"

definition ticalcs_screen_convert_rgb565le_to_rgb888 :: "bytes \<Rightarrow> u32 \<Rightarrow> u32 \<Rightarrow> bytes \<Rightarrow> ret \<times> bytes" where
  "ticalcs_screen_convert_rgb565le_to_rgb888 src width height dst =
     convert_screen rgb565_pixels (unat height * unat width * 2) src width height dst"

definition ticalcs_screen_convert_native_to_rgb888 ::
    "calc_pixel_format \<Rightarrow> bytes \<Rightarrow> u32 \<Rightarrow> u32 \<Rightarrow> bytes \<Rightarrow> ret \<times> bytes" where
  "ticalcs_screen_convert_native_to_rgb888 fmt src width height dst =
     (case fmt of
        CALC_PIXFMT_MONO \<Rightarrow> ticalcs_screen_convert_bw_to_rgb888 src width height dst
      | CALC_PIXFMT_GRAY_4 \<Rightarrow> ticalcs_screen_convert_gs4_to_rgb888 src width height dst
      | CALC_PIXFMT_RGB_565_LE \<Rightarrow> ticalcs_screen_convert_rgb565le_to_rgb888 src width height dst
      | CALC_PIXFMT_UNKNOWN \<Rightarrow> (Some ERR_INVALID_PARAMETER, dst))"

section \<open>The decoder of the NSpire\<close>

text \<open>
  A positive count repeats one unit, a negative one copies units; units are bytes on screens in
  grey and four bytes on screens in colour. \<open>i\<close> and \<open>j\<close> count what was read and written on 32
  bits, \<open>q\<close> is the index that the target pointer has reached. The space is checked after reading
  the value in the first decoder, before it in the second. The number of rounds is limited.
\<close>

fun rle_gray :: "nat \<Rightarrow> bytes \<Rightarrow> u32 \<Rightarrow> u32 \<Rightarrow> u32 \<Rightarrow> u32 \<Rightarrow> nat \<Rightarrow> bytes \<Rightarrow> ret \<times> bytes" where
  "rle_gray 0 src n mx i j q dst = (if i < n then Some OUT_OF_FUEL else None, dst)"
| "rle_gray (Suc k) src n mx i j q dst =
     (if \<not> i < n then (None, dst)
      else if length src \<le> unat i then (Some UNDEFINED_BEHAVIOUR, dst)
      else
        (let rec = src ! unat i; i = i + 1
         in if rec < 0x80
            then (let cnt = unat rec + 1
                  in if length src \<le> unat i then (Some UNDEFINED_BEHAVIOUR, dst)
                     else if mx < j + of_nat cnt then (Some ERR_INVALID_SCREENSHOT, dst)
                     else case memcpy_at dst q (replicate cnt (src ! unat i)) of
                            None \<Rightarrow> (Some UNDEFINED_BEHAVIOUR, dst)
                          | Some dst \<Rightarrow> rle_gray k src n mx (i + 1) (j + of_nat cnt) (q + cnt) dst)
            else (let cnt = unat (- rec) + 1
                  in if mx < j + of_nat cnt then (Some ERR_INVALID_SCREENSHOT, dst)
                     else case memcpy dst q src (unat i) cnt of
                            None \<Rightarrow> (Some UNDEFINED_BEHAVIOUR, dst)
                          | Some dst \<Rightarrow> rle_gray k src n mx (i + of_nat cnt) (j + of_nat cnt) (q + cnt) dst)))"

fun rle_colour :: "nat \<Rightarrow> bytes \<Rightarrow> u32 \<Rightarrow> u32 \<Rightarrow> u32 \<Rightarrow> u32 \<Rightarrow> nat \<Rightarrow> bytes \<Rightarrow> ret \<times> bytes" where
  "rle_colour 0 src n mx i j q dst = (if i < n then Some OUT_OF_FUEL else None, dst)"
| "rle_colour (Suc k) src n mx i j q dst =
     (if \<not> i < n then (None, dst)
      else if length src \<le> unat i then (Some UNDEFINED_BEHAVIOUR, dst)
      else
        (let rec = src ! unat i; i = i + 1
         in if rec < 0x80
            then (let cnt = unat rec + 1
                  in if mx < j + of_nat (cnt * 4) then (Some ERR_INVALID_SCREENSHOT, dst)
                     else case Option.bind (memcpy_from src (unat i) 4)
                                 (\<lambda>v. memcpy_at dst q (concat (replicate cnt v))) of
                            None \<Rightarrow> (Some UNDEFINED_BEHAVIOUR, dst)
                          | Some dst \<Rightarrow> rle_colour k src n mx (i + 4) (j + of_nat (cnt * 4)) (q + cnt * 4) dst)
            else (let cnt = unat (- rec) + 1
                  in if mx < j + of_nat (cnt * 4) then (Some ERR_INVALID_SCREENSHOT, dst)
                     else case memcpy dst q src (unat i) (cnt * 4) of
                            None \<Rightarrow> (Some UNDEFINED_BEHAVIOUR, dst)
                          | Some dst \<Rightarrow> rle_colour k src n mx (i + of_nat (cnt * 4)) (j + of_nat (cnt * 4))
                              (q + cnt * 4) dst)))"

definition ticalcs_screen_nspire_rle_uncompress ::
    "calc_pixel_format \<Rightarrow> bytes \<Rightarrow> u32 \<Rightarrow> bytes \<Rightarrow> u32 \<Rightarrow> ret \<times> bytes" where
  "ticalcs_screen_nspire_rle_uncompress fmt src n dst mx =
     (case fmt of
        CALC_PIXFMT_GRAY_4 \<Rightarrow> rle_gray (unat n) src n mx 0 0 0 dst
      | CALC_PIXFMT_RGB_565_LE \<Rightarrow> rle_colour (unat n) src n mx 0 0 0 dst
      | _ \<Rightarrow> (Some ERR_INVALID_PARAMETER, dst))"

section \<open>The decoder of the TI-84 Plus C\<close>

text \<open>
  \<open>p\<close> and \<open>l\<close> are where the source has got to and how much of it is left, \<open>q\<close> and \<open>m\<close> the same of
  the target. Colour \<open>c\<close> of the palette, which starts with colour 1 at \<open>base\<close>.
\<close>

definition put_pixels :: "bytes \<Rightarrow> nat \<Rightarrow> nat \<times> nat \<times> bytes \<Rightarrow> (errcode \<times> bytes) + (nat \<times> nat \<times> bytes)" where
  "put_pixels px n t =
     (let (q, m, dst) = t
      in if m < 2 * n then Inl (ERR_INVALID_SCREENSHOT, dst)
         else case memcpy_at dst q (concat (replicate n px)) of
                None \<Rightarrow> Inl (UNDEFINED_BEHAVIOUR, dst) | Some dst \<Rightarrow> Inr (q + 2 * n, m - 2 * n, dst))"

definition put_colour :: "bytes \<Rightarrow> nat \<Rightarrow> nat \<Rightarrow> nat \<Rightarrow> nat \<Rightarrow> nat \<times> nat \<times> bytes \<Rightarrow> (errcode \<times> bytes) + (nat \<times> nat \<times> bytes)" where
  "put_colour src base ps c n t =
     (if ps < c then Inl (ERR_INVALID_SCREENSHOT, snd (snd t))
      else case memcpy_from src (base + 2 * (c - 1)) 2 of
             None \<Rightarrow> Inl (UNDEFINED_BEHAVIOUR, snd (snd t)) | Some px \<Rightarrow> put_pixels px n t)"

definition finish :: "nat \<times> nat \<times> bytes \<Rightarrow> ret \<times> bytes" where
  "finish t = (let (q, m, dst) = t in (if m \<noteq> 0 then Some ERR_INVALID_SCREENSHOT else None, dst))"

definition or_fail :: "(errcode \<times> bytes) + 't \<Rightarrow> ('t \<Rightarrow> ret \<times> bytes) \<Rightarrow> ret \<times> bytes" where
  "or_fail r k = (case r of Inl (e, dst) \<Rightarrow> (Some e, dst) | Inr t \<Rightarrow> k t)"

lemma or_fail_cong [fundef_cong]:
  "r = r' \<Longrightarrow> (\<And>t. r' = Inr t \<Longrightarrow> k t = k' t) \<Longrightarrow> or_fail r k = or_fail r' k'"
  by (auto simp: or_fail_def split: sum.splits)

function word_mode :: "bytes \<Rightarrow> nat \<Rightarrow> nat \<Rightarrow> nat \<times> nat \<times> bytes \<Rightarrow> ret \<times> bytes" where
  "word_mode src p l t =
     (if l = 0 then finish t
      else if l < 2 then (Some ERR_INVALID_SCREENSHOT, snd (snd t))
      else if src ! p \<noteq> 0x01 \<or> src ! (p + 1) \<noteq> 0x00
      then or_fail (put_pixels [src ! p, src ! (p + 1)] 1 t) (word_mode src (p + 2) (l - 2))
      else if l < 5 then (Some ERR_INVALID_SCREENSHOT, snd (snd t))
      else or_fail (put_pixels [src ! (p + 2), src ! (p + 3)] (unat (src ! (p + 4))) t)
             (word_mode src (p + 5) (l - 5)))"
  by pat_completeness auto
termination by (relation "measure (\<lambda>(src, p, l, t). l)") auto

function byte_mode :: "bytes \<Rightarrow> nat \<Rightarrow> nat \<Rightarrow> nat \<Rightarrow> nat \<Rightarrow> nat \<times> nat \<times> bytes \<Rightarrow> ret \<times> bytes" where
  "byte_mode src base ps p l t =
     (if l = 0 then finish t
      else if src ! p \<noteq> 0
      then or_fail (put_colour src base ps (unat (src ! p)) 1 t) (byte_mode src base ps (p + 1) (l - 1))
      else if 3 \<le> l \<and> src ! (p + 1) \<noteq> 0
      then or_fail (put_colour src base ps (unat (src ! (p + 1))) (unat (src ! (p + 2))) t)
             (byte_mode src base ps (p + 3) (l - 3))
      else if 3 \<le> l \<and> src ! p = 0 \<and> src ! (p + 1) = 0 \<and> src ! (p + 2) = 0
      then word_mode src (p + 3) (l - 3) t
      else (Some ERR_INVALID_SCREENSHOT, snd (snd t)))"
  by pat_completeness auto
termination by (relation "measure (\<lambda>(src, base, ps, p, l, t). l)") auto

text \<open>One or two pixels in a byte: a second nibble of zero is none.\<close>

definition put_nibbles :: "bytes \<Rightarrow> nat \<Rightarrow> nat \<Rightarrow> u8 \<Rightarrow> nat \<times> nat \<times> bytes \<Rightarrow> (errcode \<times> bytes) + (nat \<times> nat \<times> bytes)" where
  "put_nibbles src base ps b t =
     (case put_colour src base ps (unat (drop_bit 4 b)) 1 t of
        Inl e \<Rightarrow> Inl e
      | Inr t \<Rightarrow> if b AND 0x0F = 0 then Inr t else put_colour src base ps (unat (b AND 0x0F)) 1 t)"

function nibble_mode :: "bytes \<Rightarrow> nat \<Rightarrow> nat \<Rightarrow> nat \<Rightarrow> nat \<Rightarrow> nat \<times> nat \<times> bytes \<Rightarrow> ret \<times> bytes" where
  "nibble_mode src base ps p l t =
     (if l = 0 then finish t
      else if src ! p AND 0xF0 \<noteq> 0
      then or_fail (put_nibbles src base ps (src ! p) t) (nibble_mode src base ps (p + 1) (l - 1))
      else if 2 \<le> l \<and> src ! p AND 0x0F \<noteq> 0
      then or_fail (put_colour src base ps (unat (src ! p)) (unat (src ! (p + 1))) t)
             (nibble_mode src base ps (p + 2) (l - 2))
      else if 2 \<le> l \<and> src ! p = 0 \<and> src ! (p + 1) = 0 then byte_mode src base ps (p + 2) (l - 2) t
      else (Some ERR_INVALID_SCREENSHOT, snd (snd t)))"
  by pat_completeness auto
termination by (relation "measure (\<lambda>(src, base, ps, p, l, t). l)") auto

text \<open>
  \<open>src\<close> holds exactly the bytes that its length says. With fewer than two the last byte is looked
  for outside of it.
\<close>

definition ticalcs_screen_84pcse_rle_uncompress :: "bytes \<Rightarrow> bytes \<Rightarrow> u32 \<Rightarrow> ret \<times> bytes" where
  "ticalcs_screen_84pcse_rle_uncompress src dst dst_length =
     (if src = [] then (Some UNDEFINED_BEHAVIOUR, dst)
      else if src ! 0 \<noteq> 1 then (Some ERR_INVALID_SCREENSHOT, dst)
      else if length src = 1 then (Some UNDEFINED_BEHAVIOUR, dst)
      else
        (let n = length src - 1; ps = unat (src ! n)
         in if n \<le> ps * 2 + 1 then (Some ERR_INVALID_SCREENSHOT, dst)
            else (let l = n - (ps * 2 + 1) in nibble_mode src (1 + l) ps 1 l (0, unat dst_length, dst))))"

declare word_mode.simps [simp del] byte_mode.simps [simp del] nibble_mode.simps [simp del]

section \<open>Run-length codes of the NSpire\<close>

text \<open>What a compressed screenshot is: runs of a unit of \<open>w\<close> bytes, and units as they are.\<close>

datatype run = Repeat nat bytes | Verbatim "bytes list"

fun run_ok :: "nat \<Rightarrow> run \<Rightarrow> bool" where
  "run_ok w (Repeat k u) \<longleftrightarrow> 1 \<le> k \<and> k \<le> 128 \<and> length u = w"
| "run_ok w (Verbatim us) \<longleftrightarrow> 2 \<le> length us \<and> length us \<le> 129 \<and> (\<forall>u\<in>set us. length u = w)"

fun run_code :: "run \<Rightarrow> bytes" where
  "run_code (Repeat k u) = of_nat (k - 1) # u"
| "run_code (Verbatim us) = - of_nat (length us - 1) # concat us"

fun run_out :: "run \<Rightarrow> bytes" where
  "run_out (Repeat k u) = concat (replicate k u)"
| "run_out (Verbatim us) = concat us"

lemma length_concat_units: "\<forall>u\<in>set us. length u = w \<Longrightarrow> length (concat us) = length us * w"
  by (induction us) auto

lemma run_out_length: "run_ok w r \<Longrightarrow> length (run_out r) \<le> 129 * w"
proof (cases r)
  case (Verbatim us)
  assume "run_ok w r"
  then show ?thesis using Verbatim length_concat_units [of us w] by simp
qed (simp add: length_concat sum_list_replicate)

lemma unat_byte: "n < 256 \<Longrightarrow> unat (of_nat n :: u8) = n"
  by (simp only: unat_of_nat) (simp add: take_bit_nat_eq_self)

lemma unat_index: "n < 2 ^ 32 \<Longrightarrow> unat (of_nat n :: u32) = n"
  by (simp only: unat_of_nat) (simp add: take_bit_nat_eq_self)

lemma index_less: "a < b \<Longrightarrow> b < 2 ^ 32 \<Longrightarrow> (of_nat a :: u32) < of_nat b"
  by (simp only: word_less_nat_alt unat_index order_less_trans)

lemma limit_less: "n < 2 ^ 32 \<Longrightarrow> mx < of_nat n \<longleftrightarrow> unat (mx :: u32) < n"
  by (simp only: word_less_nat_alt unat_index)

lemma repeat_byte:
  assumes "1 \<le> k" "k \<le> 128"
  shows "(of_nat (k - 1) :: u8) < 0x80" "unat (of_nat (k - 1) :: u8) = k - 1"
proof -
  show u: "unat (of_nat (k - 1) :: u8) = k - 1" by (rule unat_byte) (use assms in simp)
  show "(of_nat (k - 1) :: u8) < 0x80" using assms by (simp only: word_less_nat_alt u) simp
qed

lemma verbatim_byte:
  assumes "2 \<le> k" "k \<le> 129"
  shows "\<not> - (of_nat (k - 1) :: u8) < 0x80" "unat (of_nat (k - 1) :: u8) = k - 1"
proof -
  show "unat (of_nat (k - 1) :: u8) = k - 1" by (rule unat_byte) (use assms in simp)
  have "(of_nat (k - 1) :: u8) + of_nat (256 - (k - 1)) = of_nat 256"
    using assms by (simp only: of_nat_add [symmetric]) simp
  then have "- (of_nat (k - 1) :: u8) = of_nat (256 - (k - 1))" by (simp add: minus_unique)
  moreover have "unat (of_nat (256 - (k - 1)) :: u8) = 256 - (k - 1)" by (rule unat_byte) (use assms in simp)
  ultimately show "\<not> - (of_nat (k - 1) :: u8) < 0x80" using assms by (simp only: word_less_nat_alt) simp
qed

text \<open>What both decoders do with a run; \<open>w\<close> is the size of their unit.\<close>

locale rle_decoder =
  fixes dec :: "nat \<Rightarrow> bytes \<Rightarrow> u32 \<Rightarrow> u32 \<Rightarrow> u32 \<Rightarrow> u32 \<Rightarrow> nat \<Rightarrow> bytes \<Rightarrow> ret \<times> bytes" and w :: nat
  assumes at_end: "\<not> i < n \<Longrightarrow> dec k src n mx i j q dst = (None, dst)"
    and one_run: "run_ok w r \<Longrightarrow> length (pre @ run_code r @ post) < 2 ^ 32 \<Longrightarrow> of_nat (length pre) < n \<Longrightarrow>
      length done + length (run_out r) < 2 ^ 32 \<Longrightarrow>
      dec (Suc k) (pre @ run_code r @ post) n mx (of_nat (length pre)) (of_nat (length done)) (length done) (done @ rest)
        = (if mx < of_nat (length done + length (run_out r)) then (Some ERR_INVALID_SCREENSHOT, done @ rest)
           else if length rest < length (run_out r) then (Some UNDEFINED_BEHAVIOUR, done @ rest)
           else dec k (pre @ run_code r @ post) n mx (of_nat (length (pre @ run_code r)))
                  (of_nat (length (done @ run_out r))) (length (done @ run_out r))
                  ((done @ run_out r) @ drop (length (run_out r)) rest))"
    and cut_off: "c < 0x80 \<Longrightarrow> length (pre @ [c]) < 2 ^ 32 \<Longrightarrow> of_nat (length pre) < n \<Longrightarrow>
      length done + 512 \<le> unat mx \<Longrightarrow> unat mx + 516 < 2 ^ 32 \<Longrightarrow>
      fst (dec (Suc k) (pre @ [c]) n mx (of_nat (length pre)) (of_nat (length done)) (length done) dst) = Some UNDEFINED_BEHAVIOUR"
    and unit_size: "w \<le> 4"
begin

lemma runs_decoded:
  assumes "\<forall>r\<in>set rs. run_ok w r" "length (pre @ concat (map run_code rs) @ post) < 2 ^ 32"
    and "length done + length (concat (map run_out rs)) \<le> unat mx" "length (concat (map run_out rs)) \<le> length rest"
  shows "dec (length rs + k) (pre @ concat (map run_code rs) @ post) (of_nat (length (pre @ concat (map run_code rs) @ post))) mx
      (of_nat (length pre)) (of_nat (length done)) (length done) (done @ rest)
    = dec k (pre @ concat (map run_code rs) @ post) (of_nat (length (pre @ concat (map run_code rs) @ post))) mx
      (of_nat (length (pre @ concat (map run_code rs)))) (of_nat (length (done @ concat (map run_out rs))))
      (length (done @ concat (map run_out rs)))
      ((done @ concat (map run_out rs)) @ drop (length (concat (map run_out rs))) rest)"
  using assms
proof (induction rs arbitrary: pre "done" rest)
  case (Cons r rs)
  let ?post = "concat (map run_code rs) @ post" let ?n = "of_nat (length (pre @ run_code r @ ?post)) :: u32"
  let ?k = "length rs + k"
  have "length (run_code r) \<noteq> 0" by (cases r) simp_all
  then have lt: "of_nat (length pre) < ?n"
    by (intro index_less) (use Cons.prems(2) in simp_all)
  have mx: "unat mx < 2 ^ 32" using unsigned_less [of mx] by simp
  have fits: "\<not> mx < of_nat (length done + length (run_out r))"
    using Cons.prems(3) mx by (subst limit_less) simp_all
  have "dec (Suc ?k) (pre @ run_code r @ ?post) ?n mx (of_nat (length pre)) (of_nat (length done)) (length done) (done @ rest)
      = dec ?k ((pre @ run_code r) @ ?post) (of_nat (length ((pre @ run_code r) @ ?post))) mx (of_nat (length (pre @ run_code r)))
          (of_nat (length (done @ run_out r))) (length (done @ run_out r)) ((done @ run_out r) @ drop (length (run_out r)) rest)"
    using one_run [of r pre ?post ?n "done" ?k mx rest] Cons.prems lt fits mx by simp
  also have "\<dots> = dec k ((pre @ run_code r) @ ?post) (of_nat (length ((pre @ run_code r) @ ?post))) mx
      (of_nat (length ((pre @ run_code r) @ concat (map run_code rs))))
      (of_nat (length ((done @ run_out r) @ concat (map run_out rs)))) (length ((done @ run_out r) @ concat (map run_out rs)))
      (((done @ run_out r) @ concat (map run_out rs)) @ drop (length (concat (map run_out rs))) (drop (length (run_out r)) rest))"
    by (rule Cons.IH) (use Cons.prems in auto)
  finally show ?case by (simp add: add.commute add.left_commute)
qed simp

text \<open>The first run for which there is no more space ends the decoding.\<close>

lemma run_refused:
  assumes "\<forall>r\<in>set rs. run_ok w r" "length (pre @ concat (map run_code rs)) < 2 ^ 32"
    and "unat mx < length done + length (concat (map run_out rs))" "length done \<le> unat mx"
    and "unat mx \<le> length (done @ rest)" "length rs \<le> k" "unat mx + 516 < 2 ^ 32"
  shows "fst (dec k (pre @ concat (map run_code rs)) (of_nat (length (pre @ concat (map run_code rs)))) mx
      (of_nat (length pre)) (of_nat (length done)) (length done) (done @ rest)) = Some ERR_INVALID_SCREENSHOT"
  using assms
proof (induction rs arbitrary: pre "done" rest k)
  case (Cons r rs)
  let ?post = "concat (map run_code rs)" let ?n = "of_nat (length (pre @ run_code r @ ?post)) :: u32"
  obtain k' where k: "k = Suc k'" using Cons.prems(6) by (cases k) auto
  have "length (run_code r) \<noteq> 0" by (cases r) simp_all
  then have lt: "of_nat (length pre) < ?n"
    by (intro index_less) (use Cons.prems(2) in simp_all)
  have "length (run_out r) \<le> 129 * w"
    using Cons.prems(1) run_out_length by simp
  then have len: "length (run_out r) \<le> 516" using unit_size by linarith
  then have small: "length done + length (run_out r) < 2 ^ 32" using Cons.prems(4,7) by simp
  then have iff: "mx < of_nat (length done + length (run_out r)) \<longleftrightarrow> unat mx < length done + length (run_out r)"
    by (rule limit_less)
  note one = one_run [of r pre ?post ?n "done" k' mx rest, unfolded iff]
  show ?case
  proof (cases "unat mx < length done + length (run_out r)")
    case True
    then show ?thesis unfolding k using one Cons.prems lt small by simp
  next
    case False
    then have "length (run_out r) \<le> length rest" using Cons.prems(5) by simp
    then have "dec k (pre @ run_code r @ ?post) ?n mx (of_nat (length pre)) (of_nat (length done)) (length done) (done @ rest)
      = dec k' ((pre @ run_code r) @ ?post) (of_nat (length ((pre @ run_code r) @ ?post))) mx (of_nat (length (pre @ run_code r)))
          (of_nat (length (done @ run_out r))) (length (done @ run_out r)) ((done @ run_out r) @ drop (length (run_out r)) rest)"
      unfolding k using one Cons.prems lt False small by simp
    moreover have "fst (dec k' ((pre @ run_code r) @ ?post) (of_nat (length ((pre @ run_code r) @ ?post))) mx (of_nat (length (pre @ run_code r)))
          (of_nat (length (done @ run_out r))) (length (done @ run_out r)) ((done @ run_out r) @ drop (length (run_out r)) rest))
        = Some ERR_INVALID_SCREENSHOT"
      by (rule Cons.IH) (use Cons.prems k False in auto)
    ultimately show ?thesis by simp
  qed
qed simp

lemma decodes:
  assumes "\<forall>r\<in>set rs. run_ok w r" "length (concat (map run_code rs)) + 1 < 2 ^ 32"
    and "unat mx + 516 < 2 ^ 32" "unat mx \<le> length dst"
  defines "code \<equiv> concat (map run_code rs)" and "out \<equiv> concat (map run_out rs)"
  shows "length out \<le> unat mx \<Longrightarrow> dec (unat (of_nat (length code) :: u32)) code (of_nat (length code)) mx 0 0 0 dst
      = (None, out @ drop (length out) dst)"
    and "c < 0x80 \<Longrightarrow> length out + 512 \<le> unat mx \<Longrightarrow>
      fst (dec (unat (of_nat (length (code @ [c])) :: u32)) (code @ [c]) (of_nat (length (code @ [c]))) mx 0 0 0 dst)
        = Some UNDEFINED_BEHAVIOUR"
    and "unat mx < length out \<Longrightarrow> fst (dec (unat (of_nat (length code) :: u32)) code (of_nat (length code)) mx 0 0 0 dst)
      = Some ERR_INVALID_SCREENSHOT"
proof -
  have "length rs \<le> length code" unfolding code_def
  proof (induction rs)
    case (Cons r rs) then show ?case by (cases r) simp_all
  qed simp
  then obtain k where k: "length code = length rs + k" using le_Suc_ex by blast
  have len: "length code + 1 < 2 ^ 32" using assms(2) by (simp add: code_def)
  have fuel: "unat (of_nat (length code) :: u32) = length rs + k"
    "unat (of_nat (length (code @ [c])) :: u32) = length rs + Suc k"
    using unat_index [of "length code"] unat_index [of "length (code @ [c])"] len k by simp_all
  have step: "dec (length rs + m) (code @ post) (of_nat (length (code @ post))) mx 0 0 0 dst
      = dec m (code @ post) (of_nat (length (code @ post))) mx (of_nat (length code)) (of_nat (length out)) (length out)
          (out @ drop (length out) dst)"
    if "length out \<le> unat mx" "length (code @ post) < 2 ^ 32" for m post
    using runs_decoded [of rs "[]" post "[]" mx dst m] assms(1,4) that by (simp add: code_def out_def)
  show "length out \<le> unat mx \<Longrightarrow> dec (unat (of_nat (length code) :: u32)) code (of_nat (length code)) mx 0 0 0 dst
      = (None, out @ drop (length out) dst)"
    unfolding fuel using step [of "[]" k] len by (simp add: at_end)
  have "(of_nat (length code) :: u32) < of_nat (length (code @ [c]))" by (rule index_less) (use len in simp_all)
  then show "c < 0x80 \<Longrightarrow> length out + 512 \<le> unat mx \<Longrightarrow>
      fst (dec (unat (of_nat (length (code @ [c])) :: u32)) (code @ [c]) (of_nat (length (code @ [c]))) mx 0 0 0 dst)
        = Some UNDEFINED_BEHAVIOUR"
    unfolding fuel using step [of "[c]" "Suc k"] len cut_off [of c code "of_nat (length (code @ [c]))" out mx k] assms(3) by simp
  show "unat mx < length out \<Longrightarrow> fst (dec (unat (of_nat (length code) :: u32)) code (of_nat (length code)) mx 0 0 0 dst)
      = Some ERR_INVALID_SCREENSHOT"
    unfolding fuel using run_refused [of rs "[]" mx "[]" dst "length rs + k"] assms(1,3,4) len by (simp add: code_def out_def)
qed

end

lemma run_code_bytes:
  assumes "run_ok w r"
  obtains (repeated) c u m where "r = Repeat (Suc m) u" "run_code r = c # u" "c < 0x80" "unat c = m" "length u = w"
      "run_out r = concat (replicate (Suc m) u)"
  | (copied) c us m where "run_code r = c # concat us" "\<not> c < 0x80" "unat (- c) = m"
      "length us = Suc m" "length (concat us) = Suc m * w" "run_out r = concat us"
proof (cases r)
  case (Repeat k u)
  then have "1 \<le> k" "k \<le> 128" "length u = w" using assms by simp_all
  then show ?thesis using repeated [of "k - 1" u "of_nat (k - 1)"] Repeat repeat_byte [of k] by simp
next
  case (Verbatim us)
  then have us: "2 \<le> length us" "length us \<le> 129" "\<forall>u\<in>set us. length u = w" using assms by simp_all
  then show ?thesis
    using copied [of "- of_nat (length us - 1)" us "length us - 1"] Verbatim verbatim_byte [of "length us"]
      length_concat_units [of us w] by simp
qed

lemma split_at: "(pre @ c # u @ post) ! length pre = c" "take (length u) (drop (Suc (length pre)) (pre @ c # u @ post)) = u"
  by simp_all

lemma write_at:
  "memcpy_at (done @ rest) (length done) bs
     = (if length rest < length bs then None else Some ((done @ bs) @ drop (length bs) rest))"
  by (simp add: memcpy_at_def)

lemma read_at: "memcpy_from (pre @ c # u @ post) (Suc (length pre)) (length u) = Some u"
  by (simp add: memcpy_from_def)

interpretation gray: rle_decoder rle_gray 1
proof (unfold_locales, goal_cases)
  case (1 i n k src mx j q dst)
  then show ?case by (cases k) simp_all
next
  case (2 r pre post n "done" k mx rest)
  have i: "unat (of_nat (length pre) :: u32) = length pre" by (rule unat_index) (use 2(2) in simp)
  have i1: "unat (of_nat (length pre) + 1 :: u32) = Suc (length pre)"
    using unat_index [of "Suc (length pre)"] 2(2) by (cases r) (simp_all add: add.commute)
  show ?case
    using 2(1)
  proof (cases rule: run_code_bytes)
    case (repeated c u m)
    then obtain v where u: "u = [v]" by (auto simp: length_Suc_conv)
    have out: "concat (replicate m [v]) = replicate m v" for m by (induction m) simp_all
    show ?thesis
      using 2(3) i i1 write_at [of "done" rest "replicate (Suc m) v"] repeated(3,4)
      by (simp add: repeated(2,6) u out Let_def nth_append ac_simps del: replicate_Suc)
  next
    case (copied c us m)
    show ?thesis
      using 2(3) i i1 write_at [of "done" rest "concat us"] read_at [of pre c "concat us" post] copied(2,3,5)
      by (simp add: copied(1,6) Let_def memcpy_def ac_simps)
  qed
next
  case (3 c pre n "done" mx k dst)
  have at: "unat (of_nat (length pre) :: u32) = length pre" "unat (of_nat (length pre) + 1 :: u32) = Suc (length pre)"
    using unat_index [of "length pre"] unat_index [of "Suc (length pre)"] 3(2) by (simp_all add: add.commute)
  have "unat c < 128" using 3(1) by (simp add: word_less_nat_alt)
  then have "\<not> mx < of_nat (length done) + of_nat (unat c + 1)"
    by (subst of_nat_add [symmetric], subst limit_less) (use 3(4,5) in simp_all)
  then show ?case using 3(1,3) at by (simp add: Let_def nth_append memcpy_from_def)
qed simp

interpretation colour: rle_decoder rle_colour 4
proof (unfold_locales, goal_cases)
  case (1 i n k src mx j q dst)
  then show ?case by (cases k) simp_all
next
  case (2 r pre post n "done" k mx rest)
  have i: "unat (of_nat (length pre) :: u32) = length pre" by (rule unat_index) (use 2(2) in simp)
  have i1: "unat (of_nat (length pre) + 1 :: u32) = Suc (length pre)"
    using unat_index [of "Suc (length pre)"] 2(2) by (cases r) (simp_all add: add.commute)
  show ?case
    using 2(1)
  proof (cases rule: run_code_bytes)
    case (repeated c u m)
    have out: "length (concat (replicate (Suc m) u)) = 4 + m * 4"
      using repeated(5) by (simp add: length_concat sum_list_replicate)
    show ?thesis
      using 2(3) i i1 write_at [of "done" rest "concat (replicate (Suc m) u)"] read_at [of pre c u post] repeated(3,4,5)
      by (simp only: repeated(2,6) out) (simp add: Let_def ac_simps out del: replicate_Suc)
  next
    case (copied c us m)
    show ?thesis
      using 2(3) i i1 write_at [of "done" rest "concat us"] read_at [of pre c "concat us" post] copied(2,3,5)
      by (simp add: copied(1,6) Let_def memcpy_def ac_simps)
  qed
next
  case (3 c pre n "done" mx k dst)
  have at: "unat (of_nat (length pre) :: u32) = length pre" "unat (of_nat (length pre) + 1 :: u32) = Suc (length pre)"
    using unat_index [of "length pre"] unat_index [of "Suc (length pre)"] 3(2) by (simp_all add: add.commute)
  have "unat c < 128" using 3(1) by (simp add: word_less_nat_alt)
  then have "\<not> mx < of_nat (length done) + of_nat ((unat c + 1) * 4)"
    by (subst of_nat_add [symmetric], subst limit_less) (use 3(4,5) in simp_all)
  then show ?case using 3(1,3) at by (simp add: Let_def nth_append memcpy_from_def)
qed simp

text \<open>
  C15: Both decoders of the NSpire undo run-length coding: whatever the runs, the target starts with
  what they stand for and is untouched behind it, and if that is more than the space given, the
  screenshot is refused. A stream that ends behind the count of a repetition makes the decoder
  read behind its input, which is nowhere checked, if 512 bytes of the target are left, the room
  that the longest repetition takes.
\<close>

theorem nspire_rle_decodes:
  assumes "(fmt, w) \<in> {(CALC_PIXFMT_GRAY_4, 1), (CALC_PIXFMT_RGB_565_LE, 4)}" "\<forall>r\<in>set rs. run_ok w r"
    and "length (concat (map run_code rs)) + 1 < 2 ^ 32" "unat mx + 516 < 2 ^ 32" "unat mx \<le> length dst"
  defines "code \<equiv> concat (map run_code rs)" and "out \<equiv> concat (map run_out rs)"
  shows "if length out \<le> unat mx
     then ticalcs_screen_nspire_rle_uncompress fmt code (of_nat (length code)) dst mx = (None, out @ drop (length out) dst)
       \<and> (c < 0x80 \<and> length out + 512 \<le> unat mx \<longrightarrow>
          fst (ticalcs_screen_nspire_rle_uncompress fmt (code @ [c]) (of_nat (length (code @ [c]))) dst mx) = Some UNDEFINED_BEHAVIOUR)
     else fst (ticalcs_screen_nspire_rle_uncompress fmt code (of_nat (length code)) dst mx) = Some ERR_INVALID_SCREENSHOT"
proof -
  note gray = gray.decodes [of rs mx dst, folded code_def out_def]
  note colour = colour.decodes [of rs mx dst, folded code_def out_def]
  from assms(1) consider "fmt = CALC_PIXFMT_GRAY_4" "w = 1" | "fmt = CALC_PIXFMT_RGB_565_LE" "w = 4" by auto
  then show ?thesis
  proof cases
    case 1
    then show ?thesis using gray(1,2,3) assms(2-5) unfolding code_def [symmetric]
      by (simp only: ticalcs_screen_nspire_rle_uncompress_def calc_pixel_format.case not_le split: if_split) blast
  next
    case 2
    then show ?thesis using colour(1,2,3) assms(2-5) unfolding code_def [symmetric]
      by (simp only: ticalcs_screen_nspire_rle_uncompress_def calc_pixel_format.case not_le split: if_split) blast
  qed
qed

lemma nspire_rle_decodes_witness:
  "ticalcs_screen_nspire_rle_uncompress CALC_PIXFMT_GRAY_4 [1, 9, 0xFF, 5, 6] 5 [0, 0, 0, 0, 0] 5 = (None, [9, 9, 5, 6, 0])"
proof -
  let ?rs = "[Repeat 2 [9], Verbatim [[5], [6]]]"
  have code: "concat (map run_code ?rs) = [1, 9, 0xFF, 5, 6]" by code_simp
  have out: "concat (map run_out ?rs) = [9, 9, 5, 6]" by code_simp
  have "\<forall>r\<in>set ?rs. run_ok 1 r" by code_simp
  then show ?thesis
    using nspire_rle_decodes [of CALC_PIXFMT_GRAY_4 1 ?rs 5 "[0, 0, 0, 0, 0]" 0, unfolded code out] by simp
qed

section \<open>Run-length codes of the TI-84 Plus C\<close>

text \<open>
  A compressed screenshot starts with pixels of the first fifteen colours of the palette, one or
  two in a byte, and runs of them; then, after a zero, may come pixels of all colours and their
  runs, and after another one, pixels that are not in the palette. At the end are the palette and
  its size.
\<close>

datatype nibble_item = One nat | Two nat nat | Many nat u8
datatype byte_item = Colour nat | Colours nat u8
datatype word_item = Pixel u8 u8 | Pixels u8 u8 u8

abbreviation (input) colour_ok :: "bytes list \<Rightarrow> nat \<Rightarrow> nat \<Rightarrow> bool" where
  "colour_ok pal b c \<equiv> 1 \<le> c \<and> c \<le> length pal \<and> c \<le> b"

fun nibble_ok :: "bytes list \<Rightarrow> nibble_item \<Rightarrow> bool" where
  "nibble_ok pal (One c) \<longleftrightarrow> colour_ok pal 15 c"
| "nibble_ok pal (Two c d) \<longleftrightarrow> colour_ok pal 15 c \<and> colour_ok pal 15 d"
| "nibble_ok pal (Many c n) \<longleftrightarrow> colour_ok pal 15 c"

fun nibble_code :: "nibble_item \<Rightarrow> bytes" where
  "nibble_code (One c) = [push_bit 4 (of_nat c)]"
| "nibble_code (Two c d) = [push_bit 4 (of_nat c) OR of_nat d]"
| "nibble_code (Many c n) = [of_nat c, n]"

fun nibble_out :: "bytes list \<Rightarrow> nibble_item \<Rightarrow> bytes" where
  "nibble_out pal (One c) = pal ! (c - 1)"
| "nibble_out pal (Two c d) = pal ! (c - 1) @ pal ! (d - 1)"
| "nibble_out pal (Many c n) = concat (replicate (unat n) (pal ! (c - 1)))"

fun byte_ok :: "bytes list \<Rightarrow> byte_item \<Rightarrow> bool" where
  "byte_ok pal (Colour c) \<longleftrightarrow> colour_ok pal 255 c"
| "byte_ok pal (Colours c n) \<longleftrightarrow> colour_ok pal 255 c"

fun byte_code :: "byte_item \<Rightarrow> bytes" where
  "byte_code (Colour c) = [of_nat c]"
| "byte_code (Colours c n) = [0, of_nat c, n]"

fun byte_out :: "bytes list \<Rightarrow> byte_item \<Rightarrow> bytes" where
  "byte_out pal (Colour c) = pal ! (c - 1)"
| "byte_out pal (Colours c n) = concat (replicate (unat n) (pal ! (c - 1)))"

fun word_ok :: "word_item \<Rightarrow> bool" where
  "word_ok (Pixel a b) \<longleftrightarrow> \<not> (a = 1 \<and> b = 0)"
| "word_ok (Pixels a b n) \<longleftrightarrow> True"

fun word_code :: "word_item \<Rightarrow> bytes" where
  "word_code (Pixel a b) = [a, b]"
| "word_code (Pixels a b n) = [1, 0, a, b, n]"

fun word_out :: "word_item \<Rightarrow> bytes" where
  "word_out (Pixel a b) = [a, b]"
| "word_out (Pixels a b n) = concat (replicate (unat n) [a, b])"

lemma length_pixels: "length px = 2 \<Longrightarrow> length (concat (replicate n px)) = 2 * n"
  by (simp add: length_concat sum_list_replicate)

lemma put_pixels_at:
  assumes "length px = 2" "m \<le> length rest"
  shows "put_pixels px n (length done, m, done @ rest)
     = (if m < 2 * n then Inl (ERR_INVALID_SCREENSHOT, done @ rest)
        else Inr (length done + 2 * n, m - 2 * n, (done @ concat (replicate n px)) @ drop (2 * n) rest))"
  using assms write_at [of "done" rest "concat (replicate n px)"] by (simp add: put_pixels_def length_pixels)

definition palette_at :: "bytes list \<Rightarrow> nat \<Rightarrow> bytes \<Rightarrow> bool" where
  "palette_at pal base src \<longleftrightarrow> (\<forall>px\<in>set pal. length px = 2)
     \<and> (\<forall>c. 1 \<le> c \<longrightarrow> c \<le> length pal \<longrightarrow> memcpy_from src (base + 2 * (c - 1)) 2 = Some (pal ! (c - 1)))"

lemma put_colour_at:
  assumes "palette_at pal base src" "1 \<le> c" "c \<le> length pal" "m \<le> length rest"
  shows "put_colour src base (length pal) c n (length done, m, done @ rest)
     = (if m < 2 * n then Inl (ERR_INVALID_SCREENSHOT, done @ rest)
        else Inr (length done + 2 * n, m - 2 * n, (done @ concat (replicate n (pal ! (c - 1)))) @ drop (2 * n) rest))"
  using assms put_pixels_at [of "pal ! (c - 1)" m rest n "done"]
  by (simp add: put_colour_def palette_at_def)

text \<open>What the three modes have in common: a step takes an item, or ends for lack of space.\<close>

locale cse_mode =
  fixes mode :: "bytes \<Rightarrow> nat \<Rightarrow> nat \<Rightarrow> nat \<times> nat \<times> bytes \<Rightarrow> ret \<times> bytes"
    and ok :: "'i \<Rightarrow> bool" and code out :: "'i \<Rightarrow> bytes" and source :: "bytes \<Rightarrow> bool"
  assumes takes: "ok x \<Longrightarrow> source (pre @ code x @ post) \<Longrightarrow> m \<le> length rest \<Longrightarrow> length (out x) \<le> m \<Longrightarrow>
      mode (pre @ code x @ post) (length pre) (length (code x) + l) (length done, m, done @ rest)
        = mode (pre @ code x @ post) (length (pre @ code x)) l
            (length (done @ out x), m - length (out x), (done @ out x) @ drop (length (out x)) rest)"
    and refuses: "ok x \<Longrightarrow> source (pre @ code x @ post) \<Longrightarrow> m \<le> length rest \<Longrightarrow> m < length (out x) \<Longrightarrow>
      fst (mode (pre @ code x @ post) (length pre) (length (code x) + l) (length done, m, done @ rest)) = Some ERR_INVALID_SCREENSHOT"
begin

lemma items_taken:
  assumes "\<forall>x\<in>set xs. ok x" "source (pre @ concat (map code xs) @ post)" "m \<le> length rest"
    and "length (concat (map out xs)) \<le> m"
  shows "mode (pre @ concat (map code xs) @ post) (length pre) (length (concat (map code xs)) + l) (length done, m, done @ rest)
      = mode (pre @ concat (map code xs) @ post) (length (pre @ concat (map code xs))) l
          (length (done @ concat (map out xs)), m - length (concat (map out xs)),
           (done @ concat (map out xs)) @ drop (length (concat (map out xs))) rest)"
  using assms
proof (induction xs arbitrary: pre "done" m rest)
  case (Cons x xs)
  have "mode (pre @ code x @ concat (map code xs) @ post) (length pre)
        (length (code x) + (length (concat (map code xs)) + l)) (length done, m, done @ rest)
      = mode ((pre @ code x) @ concat (map code xs) @ post) (length (pre @ code x)) (length (concat (map code xs)) + l)
          (length (done @ out x), m - length (out x), (done @ out x) @ drop (length (out x)) rest)"
    using takes [of x pre "concat (map code xs) @ post" m rest "length (concat (map code xs)) + l" "done"] Cons.prems by simp
  also have "\<dots> = mode ((pre @ code x) @ concat (map code xs) @ post) (length ((pre @ code x) @ concat (map code xs))) l
      (length ((done @ out x) @ concat (map out xs)), (m - length (out x)) - length (concat (map out xs)),
       ((done @ out x) @ concat (map out xs)) @ drop (length (concat (map out xs))) (drop (length (out x)) rest))"
    by (rule Cons.IH) (use Cons.prems in auto)
  finally show ?case by (simp add: add.assoc add.commute add.left_commute)
qed simp

lemma items_refused:
  assumes "\<forall>x\<in>set xs. ok x" "source (pre @ concat (map code xs) @ post)" "m \<le> length rest"
    and "m < length (concat (map out xs))"
  shows "fst (mode (pre @ concat (map code xs) @ post) (length pre) (length (concat (map code xs)) + l) (length done, m, done @ rest))
      = Some ERR_INVALID_SCREENSHOT"
  using assms
proof (induction xs arbitrary: pre "done" m rest)
  case (Cons x xs)
  note t = takes [of x pre "concat (map code xs) @ post" m rest "length (concat (map code xs)) + l" "done"]
  note r = refuses [of x pre "concat (map code xs) @ post" m rest "length (concat (map code xs)) + l" "done"]
  show ?case
  proof (cases "m < length (out x)")
    case True
    then show ?thesis using r Cons.prems by (simp add: add.assoc)
  next
    case False
    have "fst (mode ((pre @ code x) @ concat (map code xs) @ post) (length (pre @ code x)) (length (concat (map code xs)) + l)
        (length (done @ out x), m - length (out x), (done @ out x) @ drop (length (out x)) rest)) = Some ERR_INVALID_SCREENSHOT"
      by (rule Cons.IH) (use Cons.prems False in auto)
    then show ?thesis using t Cons.prems False by (simp add: add.assoc)
  qed
qed simp

end

interpretation words: cse_mode word_mode word_ok word_code word_out "\<lambda>src. True"
proof (unfold_locales, goal_cases)
  case (1 x pre post m rest l "done")
  then show ?case
    by (cases x; subst word_mode.simps)
      (auto simp: nth_append or_fail_def put_pixels_at length_pixels put_pixels_at [where n = 1, simplified] add.commute numeral_eq_Suc)
next
  case (2 x pre post m rest l "done")
  then show ?case
    by (cases x; subst word_mode.simps)
      (auto simp: nth_append or_fail_def put_pixels_at length_pixels put_pixels_at [where n = 1, simplified])
qed

lemma nibble_byte_bits:
  assumes "1 \<le> c" "c \<le> 15" "d \<le> 15"
  shows "(push_bit 4 (of_nat c) OR of_nat d :: u8) AND 0xF0 \<noteq> 0"
    "unat (drop_bit 4 (push_bit 4 (of_nat c) OR of_nat d :: u8)) = c"
    "(push_bit 4 (of_nat c) OR of_nat d :: u8) AND 0x0F = of_nat d" "unat (of_nat d :: u8) = d"
    "(of_nat d :: u8) AND 0xF0 = 0" "(of_nat d :: u8) AND 0x0F = of_nat d"
proof -
  have c: "c = 1 \<or> c = 2 \<or> c = 3 \<or> c = 4 \<or> c = 5 \<or> c = 6 \<or> c = 7 \<or> c = 8 \<or> c = 9 \<or> c = 10 \<or> c = 11 \<or> c = 12 \<or> c = 13 \<or> c = 14 \<or> c = 15"
    using assms by arith
  have d: "d = 0 \<or> d = 1 \<or> d = 2 \<or> d = 3 \<or> d = 4 \<or> d = 5 \<or> d = 6 \<or> d = 7 \<or> d = 8 \<or> d = 9 \<or> d = 10 \<or> d = 11 \<or> d = 12 \<or> d = 13 \<or> d = 14 \<or> d = 15"
    using assms by arith
  show u: "unat (of_nat d :: u8) = d" by (rule unat_byte) (use assms in simp)
  have uc: "unat (of_nat c :: u8) = c" by (rule unat_byte) (use assms in simp)
  show low: "(of_nat d :: u8) AND 0xF0 = 0" using d by auto
  show lown: "(of_nat d :: u8) AND 0x0F = of_nat d" using d by auto
  have high: "(push_bit 4 (of_nat c) :: u8) AND 0x0F = 0" "(push_bit 4 (of_nat c) :: u8) AND 0xF0 = push_bit 4 (of_nat c)"
    "drop_bit 4 (push_bit 4 (of_nat c) :: u8) = of_nat c" "(push_bit 4 (of_nat c) :: u8) \<noteq> 0" using c by auto
  have dd: "drop_bit 4 (of_nat d :: u8) = 0" using d by auto
  show "(push_bit 4 (of_nat c) OR of_nat d :: u8) AND 0xF0 \<noteq> 0" by (simp add: bit.conj_disj_distrib2 high low)
  show "(push_bit 4 (of_nat c) OR of_nat d :: u8) AND 0x0F = of_nat d" by (simp add: bit.conj_disj_distrib2 high lown)
  show "unat (drop_bit 4 (push_bit 4 (of_nat c) OR of_nat d :: u8)) = c" by (simp add: high dd uc)
qed

lemmas nibble_bits_one = nibble_byte_bits [where d = 0, simplified]

lemma add_few: "n + 2 = Suc (Suc n)" "n + 3 = Suc (Suc (Suc n))" "3 + n = Suc (Suc (Suc n))" "2 + n = Suc (Suc n)"
  by simp_all

lemma colour_facts:
  assumes "colour_ok pal b c" "b \<le> 255" "palette_at pal base src"
  shows "unat (of_nat c :: u8) = c" "(of_nat c :: u8) \<noteq> 0" "length (pal ! (c - 1)) = 2" "1 \<le> c" "c \<le> length pal"
proof -
  show u: "unat (of_nat c :: u8) = c" by (rule unat_byte) (use assms in simp)
  then show "(of_nat c :: u8) \<noteq> 0" using assms(1) by (metis not_one_le_zero unat_0)
qed (use assms in \<open>auto simp: palette_at_def\<close>)

interpretation bytes: cse_mode "\<lambda>src. byte_mode src base (length pal)" "byte_ok pal" byte_code "byte_out pal" "palette_at pal base"
  for pal base
proof (unfold_locales, goal_cases)
  case (1 x pre post m rest l "done")
  show ?case
  proof (cases x)
    case (Colour c)
    note c = colour_facts [of c pal 255 base "pre @ of_nat c # post"]
    show ?thesis using 1 c put_colour_at [of pal base "pre @ of_nat c # post" c m rest 1 "done"]
      by (subst byte_mode.simps) (simp add: Colour or_fail_def)
  next
    case (Colours c n)
    note c = colour_facts [of c pal 255 base "pre @ 0 # of_nat c # n # post"]
    show ?thesis using 1 c put_colour_at [of pal base "pre @ 0 # of_nat c # n # post" c m rest "unat n" "done"]
      by (subst byte_mode.simps) (simp add: Colours or_fail_def nth_append length_pixels add_few)
  qed
next
  case (2 x pre post m rest l "done")
  show ?case
  proof (cases x)
    case (Colour c)
    note c = colour_facts [of c pal 255 base "pre @ of_nat c # post"]
    show ?thesis using 2 c put_colour_at [of pal base "pre @ of_nat c # post" c m rest 1 "done"]
      by (subst byte_mode.simps) (simp add: Colour or_fail_def)
  next
    case (Colours c n)
    note c = colour_facts [of c pal 255 base "pre @ 0 # of_nat c # n # post"]
    show ?thesis using 2 c put_colour_at [of pal base "pre @ 0 # of_nat c # n # post" c m rest "unat n" "done"]
      by (subst byte_mode.simps) (simp add: Colours or_fail_def nth_append length_pixels add_few)
  qed
qed

lemma put_nibbles_at:
  assumes "colour_ok pal 15 c" "d = 0 \<or> colour_ok pal 15 d" "palette_at pal base src" "m \<le> length rest"
  defines "px \<equiv> pal ! (c - 1) @ (if d = 0 then [] else pal ! (d - 1))"
  shows "length px \<le> m \<Longrightarrow> put_nibbles src base (length pal) (push_bit 4 (of_nat c) OR of_nat d) (length done, m, done @ rest)
       = Inr (length done + length px, m - length px, (done @ px) @ drop (length px) rest)"
    and "m < length px \<Longrightarrow> \<exists>dst. put_nibbles src base (length pal) (push_bit 4 (of_nat c) OR of_nat d) (length done, m, done @ rest)
       = Inl (ERR_INVALID_SCREENSHOT, dst)"
proof -
  have c: "1 \<le> c" "c \<le> 15" "d \<le> 15" "c \<le> length pal" using assms(1,2) by (simp, simp, arith, simp)
  have lc: "length (pal ! (c - 1)) = 2" using colour_facts(3) [of c pal 15 base src] assms(1,3) by simp
  have ld: "length (pal ! (d - 1)) = 2" if "d \<noteq> 0" using colour_facts(3) [of d pal 15 base src] assms(2,3) that by simp
  have zero: "(of_nat d :: u8) = 0 \<longleftrightarrow> d = 0"
  proof
    assume "(of_nat d :: u8) = 0"
    then have "unat (of_nat d :: u8) = 0" by (simp only: unat_0)
    then show "d = 0" by (simp only: nibble_byte_bits(4) [OF c(1-3)])
  qed simp
  have eq: "put_nibbles src base (length pal) (push_bit 4 (of_nat c) OR of_nat d) t
      = (case put_colour src base (length pal) c 1 t of Inl e \<Rightarrow> Inl e
         | Inr t \<Rightarrow> if d = 0 then Inr t else put_colour src base (length pal) d 1 t)" for t
    by (simp only: put_nibbles_def nibble_byte_bits [OF c(1-3)] zero)
  note one = put_colour_at [OF assms(3) c(1) c(4) assms(4), of 1 "done"]
  have two: "put_colour src base (length pal) d 1 (length (done @ pal ! (c - 1)), m - 2, (done @ pal ! (c - 1)) @ drop 2 rest)
      = (if m - 2 < 2 then Inl (ERR_INVALID_SCREENSHOT, (done @ pal ! (c - 1)) @ drop 2 rest)
         else Inr (length (done @ pal ! (c - 1)) + 2, m - 2 - 2, ((done @ pal ! (c - 1)) @ pal ! (d - 1)) @ drop 2 (drop 2 rest)))"
    if "d \<noteq> 0"
    using put_colour_at [OF assms(3), of d "m - 2" "drop 2 rest" 1 "done @ pal ! (c - 1)"] assms(2,4) that by simp
  show "length px \<le> m \<Longrightarrow> put_nibbles src base (length pal) (push_bit 4 (of_nat c) OR of_nat d) (length done, m, done @ rest)
       = Inr (length done + length px, m - length px, (done @ px) @ drop (length px) rest)"
    unfolding eq one px_def using two lc ld by (cases "d = 0") simp_all
  show "m < length px \<Longrightarrow> \<exists>dst. put_nibbles src base (length pal) (push_bit 4 (of_nat c) OR of_nat d) (length done, m, done @ rest)
       = Inl (ERR_INVALID_SCREENSHOT, dst)"
    unfolding eq one px_def using two lc ld by (cases "d = 0") (simp, simp, arith)
qed

interpretation nibbles: cse_mode "\<lambda>src. nibble_mode src base (length pal)" "nibble_ok pal" nibble_code "nibble_out pal" "palette_at pal base"
  for pal base
proof (unfold_locales, goal_cases)
  case (1 x pre post m rest l "done")
  show ?case
  proof (cases x)
    case (One c)
    then show ?thesis using 1 put_nibbles_at(1) [of c pal 0 base "pre @ nibble_code x @ post" m rest "done"]
        nibble_byte_bits [of c 0]
      by (subst nibble_mode.simps) (simp add: or_fail_def)
  next
    case (Two c d)
    then show ?thesis using 1 put_nibbles_at(1) [of c pal d base "pre @ nibble_code x @ post" m rest "done"]
        nibble_byte_bits [of c d]
      by (subst nibble_mode.simps) (simp add: or_fail_def)
  next
    case (Many c n)
    note c = colour_facts [of c pal 15 base "pre @ of_nat c # n # post"]
    show ?thesis using 1 c put_colour_at [of pal base "pre @ of_nat c # n # post" c m rest "unat n" "done"] nibble_byte_bits(5,6) [of 1 c]
      by (subst nibble_mode.simps) (simp add: Many or_fail_def nth_append length_pixels add_few)
  qed
next
  case (2 x pre post m rest l "done")
  show ?case
  proof (cases x)
    case (One c)
    then show ?thesis using 2 put_nibbles_at(2) [of c pal 0 base "pre @ nibble_code x @ post" m rest "done"]
        nibble_byte_bits [of c 0]
      by (subst nibble_mode.simps) (auto simp: or_fail_def)
  next
    case (Two c d)
    then show ?thesis using 2 put_nibbles_at(2) [of c pal d base "pre @ nibble_code x @ post" m rest "done"]
        nibble_byte_bits [of c d]
      by (subst nibble_mode.simps) (auto simp: or_fail_def)
  next
    case (Many c n)
    note c = colour_facts [of c pal 15 base "pre @ of_nat c # n # post"]
    show ?thesis using 2 c put_colour_at [of pal base "pre @ of_nat c # n # post" c m rest "unat n" "done"] nibble_byte_bits(5,6) [of 1 c]
      by (subst nibble_mode.simps) (simp add: Many or_fail_def nth_append length_pixels add_few)
  qed
qed

text \<open>A whole screenshot, and what it stands for.\<close>

type_synonym cse_parts = "nibble_item list \<times> (byte_item list \<times> word_item list option) option"

fun parts_ok :: "bytes list \<Rightarrow> cse_parts \<Rightarrow> bool" where
  "parts_ok pal (ns, r) \<longleftrightarrow> (\<forall>x\<in>set ns. nibble_ok pal x) \<and>
     (case r of None \<Rightarrow> True
      | Some (bs, r) \<Rightarrow> (\<forall>x\<in>set bs. byte_ok pal x) \<and> (case r of None \<Rightarrow> True | Some ws \<Rightarrow> \<forall>x\<in>set ws. word_ok x))"

definition word_part :: "word_item list option \<Rightarrow> bytes" where
  "word_part r = (case r of None \<Rightarrow> [] | Some ws \<Rightarrow> [0, 0, 0] @ concat (map word_code ws))"

definition byte_part :: "(byte_item list \<times> word_item list option) option \<Rightarrow> bytes" where
  "byte_part r = (case r of None \<Rightarrow> [] | Some (bs, r) \<Rightarrow> [0, 0] @ concat (map byte_code bs) @ word_part r)"

fun parts_code :: "cse_parts \<Rightarrow> bytes" where
  "parts_code (ns, r) = concat (map nibble_code ns) @ byte_part r"

definition words_out :: "word_item list option \<Rightarrow> bytes" where
  "words_out r = (case r of None \<Rightarrow> [] | Some ws \<Rightarrow> concat (map word_out ws))"

definition bytes_out :: "bytes list \<Rightarrow> (byte_item list \<times> word_item list option) option \<Rightarrow> bytes" where
  "bytes_out pal r = (case r of None \<Rightarrow> [] | Some (bs, r) \<Rightarrow> concat (map (byte_out pal) bs) @ words_out r)"

fun parts_out :: "bytes list \<Rightarrow> cse_parts \<Rightarrow> bytes" where
  "parts_out pal (ns, r) = concat (map (nibble_out pal) ns) @ bytes_out pal r"

text \<open>The target is filled exactly, or the screenshot is refused.\<close>

definition decoded :: "bytes \<Rightarrow> nat \<Rightarrow> bytes \<Rightarrow> bytes \<Rightarrow> ret \<times> bytes \<Rightarrow> bool" where
  "decoded done m rest out r \<longleftrightarrow>
     (if length out = m then r = (None, (done @ out) @ drop m rest) else fst r = Some ERR_INVALID_SCREENSHOT)"

lemma decoded_end: "decoded done m rest [] (finish (length done, m, done @ rest))"
  by (auto simp: decoded_def finish_def)

lemma decoded_more:
  assumes "length out \<le> m" "decoded (done @ out) (m - length out) (drop (length out) rest) out' r"
  shows "decoded done m rest (out @ out') r"
  using assms by (auto simp: decoded_def)

lemma decoded_refused: "m < length out \<Longrightarrow> fst r = Some ERR_INVALID_SCREENSHOT \<Longrightarrow> decoded done m rest (out @ out') r"
  by (simp add: decoded_def)

lemma words_decoded:
  assumes "\<forall>x\<in>set ws. word_ok x" "m \<le> length rest"
  shows "decoded done m rest (concat (map word_out ws))
     (word_mode (pre @ concat (map word_code ws) @ post) (length pre) (length (concat (map word_code ws))) (length done, m, done @ rest))"
proof (cases "m < length (concat (map word_out ws))")
  case True
  then show ?thesis using words.items_refused [of ws m rest pre post 0 "done"] assms
    by (intro decoded_refused [where out' = "[]", simplified]) simp_all
next
  case False
  let ?out = "concat (map word_out ws)"
  have "word_mode (pre @ concat (map word_code ws) @ post) (length pre) (length (concat (map word_code ws))) (length done, m, done @ rest)
      = finish (length (done @ ?out), m - length ?out, (done @ ?out) @ drop (length ?out) rest)"
    using words.items_taken [of ws m rest pre post 0 "done"] assms False by (simp add: word_mode.simps [of _ _ 0])
  moreover have "decoded done m rest (?out @ []) (finish (length (done @ ?out), m - length ?out, (done @ ?out) @ drop (length ?out) rest))"
    by (rule decoded_more [OF _ decoded_end]) (use False in simp)
  ultimately show ?thesis by simp
qed

lemma bytes_decoded:
  assumes "\<forall>x\<in>set bs. byte_ok pal x" "case r of None \<Rightarrow> True | Some ws \<Rightarrow> \<forall>x\<in>set ws. word_ok x" "m \<le> length rest"
    and "palette_at pal base (pre @ (concat (map byte_code bs) @ word_part r) @ post)"
  shows "decoded done m rest (concat (map (byte_out pal) bs) @ words_out r)
     (byte_mode (pre @ (concat (map byte_code bs) @ word_part r) @ post) base (length pal) (length pre)
        (length (concat (map byte_code bs) @ word_part r)) (length done, m, done @ rest))"
proof (cases "m < length (concat (map (byte_out pal) bs))")
  case True
  then show ?thesis
    using bytes.items_refused [of bs pal base pre "word_part r @ post" m rest "length (word_part r)" "done"] assms
    by (intro decoded_refused) simp_all
next
  case False
  let ?out = "concat (map (byte_out pal) bs)" let ?src = "pre @ (concat (map byte_code bs) @ word_part r) @ post"
  let ?pre = "pre @ concat (map byte_code bs)" let ?t = "(length (done @ ?out), m - length ?out, (done @ ?out) @ drop (length ?out) rest)"
  have step: "byte_mode ?src base (length pal) (length pre) (length (concat (map byte_code bs) @ word_part r)) (length done, m, done @ rest)
      = byte_mode ?src base (length pal) (length ?pre) (length (word_part r)) ?t"
    using bytes.items_taken [of bs pal base pre "word_part r @ post" m rest "length (word_part r)" "done"] assms False by simp
  have "decoded (done @ ?out) (m - length ?out) (drop (length ?out) rest) (words_out r)
      (byte_mode ?src base (length pal) (length ?pre) (length (word_part r)) ?t)"
  proof (cases r)
    case None
    then show ?thesis using decoded_end [of "done @ ?out" "m - length ?out" "drop (length ?out) rest"]
      by (simp add: words_out_def word_part_def byte_mode.simps [of _ _ _ _ 0])
  next
    case (Some ws)
    have "byte_mode ?src base (length pal) (length ?pre) (length (word_part r)) ?t
        = word_mode ((?pre @ [0, 0, 0]) @ concat (map word_code ws) @ post) (length (?pre @ [0, 0, 0])) (length (concat (map word_code ws))) ?t"
      by (subst byte_mode.simps) (simp add: Some word_part_def nth_append add_few)
    then show ?thesis
      using words_decoded [of ws "m - length ?out" "drop (length ?out) rest" "done @ ?out" "?pre @ [0, 0, 0]" post] assms(2,3) Some
      by (simp add: words_out_def)
  qed
  then show ?thesis unfolding step using False by (intro decoded_more) simp_all
qed

lemma parts_decoded:
  assumes "parts_ok pal (ns, r)" "m \<le> length rest"
    and "palette_at pal base (pre @ parts_code (ns, r) @ post)"
  shows "decoded done m rest (parts_out pal (ns, r))
     (nibble_mode (pre @ parts_code (ns, r) @ post) base (length pal) (length pre) (length (parts_code (ns, r))) (length done, m, done @ rest))"
proof (cases "m < length (concat (map (nibble_out pal) ns))")
  case True
  then show ?thesis
    using nibbles.items_refused [of ns pal base pre "byte_part r @ post" m rest "length (byte_part r)" "done"] assms
    by (simp only: parts_out.simps, intro decoded_refused) simp_all
next
  case False
  let ?out = "concat (map (nibble_out pal) ns)" let ?src = "pre @ parts_code (ns, r) @ post"
  let ?pre = "pre @ concat (map nibble_code ns)" let ?t = "(length (done @ ?out), m - length ?out, (done @ ?out) @ drop (length ?out) rest)"
  have step: "nibble_mode ?src base (length pal) (length pre) (length (parts_code (ns, r))) (length done, m, done @ rest)
      = nibble_mode ?src base (length pal) (length ?pre) (length (byte_part r)) ?t"
    using nibbles.items_taken [of ns pal base pre "byte_part r @ post" m rest "length (byte_part r)" "done"] assms False by simp
  have "decoded (done @ ?out) (m - length ?out) (drop (length ?out) rest) (bytes_out pal r)
      (nibble_mode ?src base (length pal) (length ?pre) (length (byte_part r)) ?t)"
  proof (cases r)
    case None
    then show ?thesis using decoded_end [of "done @ ?out" "m - length ?out" "drop (length ?out) rest"]
      by (simp add: bytes_out_def byte_part_def nibble_mode.simps [of _ _ _ _ 0])
  next
    case (Some br)
    obtain bs r' where br: "br = (bs, r')" by (cases br)
    have "nibble_mode ?src base (length pal) (length ?pre) (length (byte_part r)) ?t
        = byte_mode ((?pre @ [0, 0]) @ (concat (map byte_code bs) @ word_part r') @ post) base (length pal) (length (?pre @ [0, 0]))
            (length (concat (map byte_code bs) @ word_part r')) ?t"
      by (subst nibble_mode.simps) (simp add: Some br byte_part_def nth_append add_few)
    then show ?thesis
      using bytes_decoded [of bs pal r' "m - length ?out" "drop (length ?out) rest" base "?pre @ [0, 0]" post "done @ ?out"] assms Some br
      by (simp add: bytes_out_def byte_part_def)
  qed
  then show ?thesis unfolding step parts_out.simps using False by (intro decoded_more) simp_all
qed

lemma palette_behind:
  assumes "\<forall>px\<in>set pal. length px = 2"
  shows "palette_at pal (length front) (front @ concat pal @ post)"
proof -
  have "memcpy_from (front @ concat pal @ post) (length front + 2 * c) 2 = Some (pal ! c)" if "c < length pal" for c
    using that assms
  proof (induction pal arbitrary: c front)
    case (Cons px pal)
    show ?case
    proof (cases c)
      case 0 then show ?thesis using Cons.prems by (simp add: memcpy_from_def)
    next
      case (Suc d)
      then show ?thesis using Cons.IH [of d "front @ px"] Cons.prems by (simp add: algebra_simps)
    qed
  qed simp
  then show ?thesis using assms by (auto simp: palette_at_def)
qed

text \<open>
  C12: The decoder of the TI-84 Plus C undoes its compression: whatever the items of the three
  modes, a target of exactly the size of the picture is filled with it and untouched behind, and
  with any other size the screenshot is refused.
\<close>

theorem cse_rle_decodes:
  assumes "parts_ok pal parts" "parts_code parts \<noteq> []" "\<forall>px\<in>set pal. length px = 2" "length pal \<le> 255"
    and "unat n \<le> length dst"
  defines "src \<equiv> [1] @ parts_code parts @ concat pal @ [of_nat (length pal)]"
  shows "if length (parts_out pal parts) = unat n
     then ticalcs_screen_84pcse_rle_uncompress src dst n = (None, parts_out pal parts @ drop (unat n) dst)
     else fst (ticalcs_screen_84pcse_rle_uncompress src dst n) = Some ERR_INVALID_SCREENSHOT"
proof -
  obtain ns r where parts: "parts = (ns, r)" by (cases parts)
  let ?body = "parts_code parts"
  have lp: "length (concat pal) = 2 * length pal" using length_concat_units [OF assms(3)] by simp
  have ps: "unat (of_nat (length pal) :: u8) = length pal" by (rule unat_byte) (use assms(4) in simp)
  have len: "length src = length ?body + 2 * length pal + 2" "length ?body \<noteq> 0" using lp assms(2) by (simp_all add: src_def)
  have last_byte: "src ! (length ?body + 2 * length pal + 1) = of_nat (length pal)"
    using nth_append_length [of "[1] @ ?body @ concat pal" "of_nat (length pal) :: u8" "[]"] lp by (simp add: src_def)
  have pal: "palette_at pal (1 + length ?body) src"
    using palette_behind [OF assms(3), of "[1] @ ?body" "[of_nat (length pal)]"] by (simp add: src_def)
  have "ticalcs_screen_84pcse_rle_uncompress src dst n
      = nibble_mode src (1 + length ?body) (length pal) 1 (length ?body) (0, unat n, dst)"
    using len last_byte ps by (simp add: ticalcs_screen_84pcse_rle_uncompress_def Let_def) (simp add: src_def)
  moreover have "decoded [] (unat n) dst (parts_out pal parts)
      (nibble_mode src (1 + length ?body) (length pal) 1 (length ?body) (0, unat n, dst))"
    using parts_decoded [of pal ns r "unat n" dst "1 + length ?body" "[1]" "concat pal @ [of_nat (length pal)]" "[]"] assms(1,5) pal
    by (simp add: parts src_def)
  ultimately show ?thesis by (simp add: decoded_def)
qed

lemma cse_rle_decodes_witness:
  "ticalcs_screen_84pcse_rle_uncompress [1, 0x12, 0x00, 0x00, 0x00, 0x01, 0x02, 0xA, 0xB, 0xC, 0xD, 2] (replicate 8 0) 8
     = (None, [0xA, 0xB, 0xC, 0xD, 0xA, 0xB, 0xA, 0xB])"
proof -
  let ?parts = "([Two 1 2], Some ([Colours 1 2], None))" let ?pal = "[[0xA, 0xB], [0xC, 0xD]] :: bytes list"
  have code: "parts_code ?parts = [0x12, 0x00, 0x00, 0x00, 0x01, 0x02]" by code_simp
  have out: "parts_out ?pal ?parts = [0xA, 0xB, 0xC, 0xD, 0xA, 0xB, 0xA, 0xB]" by code_simp
  have "parts_ok ?pal ?parts" by code_simp
  then show ?thesis using cse_rle_decodes [of ?pal ?parts 8 "replicate 8 0", unfolded code out] by simp
qed

end
