(* ===== verification/Calc8x.thy ===== *)
theory Calc8x
  imports TiContent CmdZ80
begin

text \<open>
  \<^verbatim>\<open>libticalcs/trunk/src/calc_8x.cc\<close>: the operations of the TI-80, TI-82, TI-83, TI-85 and TI-86 on the
  link cable, over the commands of \<^verbatim>\<open>CmdZ80\<close>. Texts of the progress structure, its second counter
  and pauses are not modelled; the calls that show a text are, since the application may cancel in
  them. A directory is the list of its entries. Loops that wait for the user, or go on until the
  calculator ends the transmission, have fuel.
\<close>

section \<open>The environment and the macros\<close>

text \<open>
  \<open>oe_label\<close> is the callback that shows a text, \<open>oe_stack\<close> the contents of an automatic array of
  a command, \<open>oe_keys83\<close> the table of key codes of \<^verbatim>\<open>keys83.cc\<close>.
\<close>

record 'd op_env =
  oe_env :: "'d calc_env"
  oe_label :: "calc_updat \<Rightarrow> calc_updat"
  oe_stack :: "'d calc_handle \<Rightarrow> bytes"
  oe_keys83 :: "u8 \<Rightarrow> u16"

type_synonym 'd op = "'d calc_handle \<Rightarrow> ret \<times> 'd calc_handle"

definition ticalcs_update_label :: "'d op_env \<Rightarrow> 'd calc_handle \<Rightarrow> 'd calc_handle" where
  "ticalcs_update_label P h =
     h\<lparr>kh_updat := oe_label P ((kh_updat h)\<lparr>up_calls := up_calls (kh_updat h) + 1\<rparr>)\<rparr>"

definition target_8x :: "'d calc_handle \<Rightarrow> u8" where
  "target_8x h = (if kh_model h < CALC_TI85 then mid_8283 (kh_model h) else mid_8586 (kh_model h))"

definition SEND_RDY :: "'d op_env \<Rightarrow> 'd op" where "SEND_RDY P h = ti73_send_RDY (oe_env P) h"
definition SEND_KEY :: "'d op_env \<Rightarrow> u16 \<Rightarrow> 'd op" where "SEND_KEY P k h = tiz80_send_KEY (oe_env P) k (target_8x h) h"
definition SEND_SCR :: "'d op_env \<Rightarrow> 'd op" where "SEND_SCR P h = tiz80_send_SCR (oe_env P) (target_8x h) h"
definition SEND_ACK :: "'d op_env \<Rightarrow> 'd op" where "SEND_ACK P h = tiz80_send_ACK (oe_env P) (target_8x h) h"
definition SEND_CTS :: "'d op_env \<Rightarrow> 'd op" where "SEND_CTS P h = tiz80_send_CTS (oe_env P) (target_8x h) h"
definition SEND_EOT :: "'d op_env \<Rightarrow> 'd op" where "SEND_EOT P h = tiz80_send_EOT (oe_env P) (target_8x h) h"

definition SEND_XDP :: "'d op_env \<Rightarrow> u16 \<Rightarrow> bytes option \<Rightarrow> 'd op" where
  "SEND_XDP P len data h = tiz80_send_XDP (oe_env P) len data (target_8x h) h"

definition SEND_VAR :: "'d op_env \<Rightarrow> u16 \<Rightarrow> u8 \<Rightarrow> bytes \<Rightarrow> 'd op" where
  "SEND_VAR P varsize vartype name h =
     (if kh_model h < CALC_TI85 then ti82_send_VAR (oe_env P) varsize vartype (Some name) (oe_stack P h) h
      else ti85_send_VAR (oe_env P) varsize vartype (Some name) (oe_stack P h) h)"

definition SEND_REQ :: "'d op_env \<Rightarrow> u16 \<Rightarrow> u8 \<Rightarrow> bytes \<Rightarrow> 'd op" where
  "SEND_REQ P varsize vartype name h =
     (if kh_model h < CALC_TI85 then ti82_send_REQ (oe_env P) varsize vartype (Some name) (oe_stack P h) h
      else ti85_send_REQ (oe_env P) varsize vartype (Some name) (oe_stack P h) h)"

definition SEND_RTS :: "'d op_env \<Rightarrow> u16 \<Rightarrow> u8 \<Rightarrow> bytes \<Rightarrow> 'd op" where
  "SEND_RTS P varsize vartype name h =
     (if kh_model h < CALC_TI85 then ti82_send_RTS (oe_env P) varsize vartype (Some name) (oe_stack P h) h
      else ti85_send_RTS (oe_env P) varsize vartype (Some name) (oe_stack P h) h)"

text \<open>An acknowledgement whose status is wanted, and one whose status has to be zero.\<close>

definition RECV_ACK_status :: "'d op_env \<Rightarrow> 'd calc_handle \<Rightarrow> ret \<times> u16 \<times> 'd calc_handle" where
  "RECV_ACK_status P h =
     (let (r, status, h) = tiz80_recv_ACK (oe_env P) (Some 0) h in (r, (case status of None \<Rightarrow> 0 | Some s \<Rightarrow> s), h))"

definition RECV_ACK_any :: "'d op_env \<Rightarrow> 'd op" where
  "RECV_ACK_any P h = (let (r, _, h) = RECV_ACK_status P h in (r, h))"

definition RECV_ACK_clean :: "'d op_env \<Rightarrow> 'd op" where
  "RECV_ACK_clean P h = (let (r, _, h) = tiz80_recv_ACK (oe_env P) None h in (r, h))"

definition RECV_VAR :: "'d op_env \<Rightarrow> var_header \<Rightarrow> 'd calc_handle \<Rightarrow> ret \<times> var_header \<times> 'd calc_handle" where
  "RECV_VAR P out h =
     (if kh_model h < CALC_TI85 then ti82_recv_VAR (oe_env P) out h else ti85_recv_VAR (oe_env P) out h)"

definition RECV_XDP :: "'d op_env \<Rightarrow> u16 \<Rightarrow> bytes option \<Rightarrow> 'd calc_handle \<Rightarrow> ret \<times> (u16 \<times> bytes option) \<times> 'd calc_handle" where
  "RECV_XDP P len data h = tiz80_recv_XDP (oe_env P) False len data h"

definition RECV_SKP :: "'d op_env \<Rightarrow> 'd calc_handle \<Rightarrow> ret \<times> u8 \<times> 'd calc_handle" where
  "RECV_SKP P h = tiz80_recv_SKP (oe_env P) h"

definition RECV_ERR :: "'d op_env \<Rightarrow> 'd op" where
  "RECV_ERR P h = (let (r, _, h) = ti82_recv_ERR (oe_env P) (Some 0) h in (r, h))"

section \<open>Readiness, keys, programs\<close>

definition is_ready_8x :: "'d op_env \<Rightarrow> 'd op" where
  "is_ready_8x P h = andthen (SEND_RDY P h) (\<lambda>h.
     (let (r, status, h) = RECV_ACK_status P h
      in (if r = None \<and> MSB status AND 0x01 \<noteq> 0 then Some ERR_NOT_READY else r, h)))"

definition send_key_8x :: "'d op_env \<Rightarrow> u32 \<Rightarrow> 'd op" where
  "send_key_8x P key h = andthen (SEND_KEY P (ucast key) h) (\<lambda>h.
     andthen (RECV_ACK_any P h) (\<lambda>h. if kh_model h \<noteq> CALC_TI83 then RECV_ACK_any P h else (None, h)))"

fun send_keys_8x :: "'d op_env \<Rightarrow> u32 list \<Rightarrow> 'd op" where
  "send_keys_8x P [] h = (None, h)"
| "send_keys_8x P (k # ks) h = andthen (send_key_8x P k h) (send_keys_8x P ks)"

definition execute_8x :: "'d op_env \<Rightarrow> var_entry \<Rightarrow> 'd op" where
  "execute_8x P ve h =
     andthen (send_keys_8x P [0x40, 0x09, 0x09] h) (\<lambda>h.
     andthen (if ve_type ve = 0x06 then send_keys_8x P [0xFE63, 0x97] h else (None, h)) (\<lambda>h.
     andthen (send_key_8x P 0xDA h) (\<lambda>h.
     andthen (send_keys_8x P (map (\<lambda>c. ucast (oe_keys83 P c)) (cstring (ve_name ve))) h) (send_key_8x P 0x05))))"

definition toupper :: "u8 \<Rightarrow> u8" where
  "toupper c = (if 0x61 \<le> c \<and> c \<le> 0x7A then c - 0x20 else c)"

definition del_key :: "u8 \<Rightarrow> u32" where
  "del_key b =
     (let c = toupper b
      in if 0x30 \<le> c \<and> c \<le> 0x39 then 0x008E + scast c - 0x30 else 0x009A + scast c - 0x41)"

definition del_var_8x :: "'d op_env \<Rightarrow> var_entry \<Rightarrow> 'd op" where
  "del_var_8x P vr h =
     andthen (send_keys_8x P [0x40, 0x09, 0x09, 0x3E, 0x9D, 0x04, 0x04, 0x04, 0x05] (ticalcs_update_label P h)) (\<lambda>h.
     andthen (send_keys_8x P (map del_key (cstring (ve_name vr))) h) (send_key_8x P 0x0005))"

section \<open>Screens\<close>

record screen_coord =
  sc_width :: nat
  sc_height :: nat
  sc_clipped_width :: nat
  sc_clipped_height :: nat

definition coord :: "nat \<Rightarrow> nat \<Rightarrow> screen_coord" where
  "coord w h = \<lparr>sc_width = w, sc_height = h, sc_clipped_width = w, sc_clipped_height = h\<rparr>"

text \<open>The screen of a TI-80 comes in stripes of eight columns, from the right.\<close>

definition unstripe :: "bytes \<Rightarrow> bytes \<Rightarrow> bytes" where
  "unstripe buffer bitmap =
     fold (\<lambda>i bm. bm[(i mod 48) * 8 + (7 - i div 48) := buffer ! i]) [0..<384] bitmap"

definition recv_screen_80 :: "'d op_env \<Rightarrow> bytes \<Rightarrow> 'd calc_handle \<Rightarrow> ret \<times> (screen_coord \<times> bytes) option \<times> 'd calc_handle" where
  "recv_screen_80 P junk h =
     (let (r, h) = andthen (ti80_send_SCR (oe_env P) h) (RECV_ACK_clean P)
      in case r of Some e \<Rightarrow> (Some e, None, h)
         | None \<Rightarrow>
             (let (r, (_, data), h) = RECV_XDP P 0 (kh_buffer h) h; h = h\<lparr>kh_buffer := data\<rparr>
              in case r of Some e \<Rightarrow> (Some e, None, h)
                 | None \<Rightarrow> (None, map_option (\<lambda>b. (coord 64 48, unstripe b (local_array 384 junk))) data, h)))"

text \<open>
  The bitmap is cut to the size of the screen, however much was received; a wrong checksum is
  ignored.
\<close>

definition recv_screen_8x :: "'d op_env \<Rightarrow> bytes \<Rightarrow> 'd calc_handle \<Rightarrow> ret \<times> (screen_coord \<times> bytes) option \<times> 'd calc_handle" where
  "recv_screen_8x P junk h =
     (let sc = (if kh_model h = CALC_TI82 \<or> kh_model h = CALC_TI83 then coord 96 64 else coord 128 64);
          (r, h) = andthen (SEND_SCR P h) (RECV_ACK_clean P)
      in case r of Some e \<Rightarrow> (Some e, None, h)
         | None \<Rightarrow>
             (let (r, (_, bitmap), h) = RECV_XDP P 0 (Some (local_array 65537 junk)) h
              in if r = None \<or> r = Some ERR_CHECKSUM
                 then (let n = (if kh_model h < CALC_TI85 then 96 * 64 div 8 else 128 * 64 div 8); (r, h) = SEND_ACK P h
                       in (r, if r = None then map_option (\<lambda>b. (sc, take n b)) bitmap else None, h))
                 else (r, None, h)))"

section \<open>Directories\<close>

text \<open>A request for the directory and its answer, in \<^verbatim>\<open>handle->buffer2\<close>.\<close>

definition request_dir :: "'d op_env \<Rightarrow> bytes \<Rightarrow> 'd calc_handle \<Rightarrow> ret \<times> bytes option \<times> 'd calc_handle" where
  "request_dir P buffer2 h =
     (let (r, h) = andthen (SEND_REQ P 0x0000 (if kh_model h = CALC_TI83 then 0x19 else TI86_DIR) (replicate 8 0) h) (RECV_ACK_any P)
      in case r of Some e \<Rightarrow> (Some e, Some buffer2, h)
         | None \<Rightarrow> (let (r, (_, data), h) = RECV_XDP P 0 (Some buffer2) h in (r, data, h)))"

definition mem_free :: "calc_model \<Rightarrow> bytes \<Rightarrow> u32" where
  "mem_free m mem =
     (if m = CALC_TI83 then push_bit 8 (ucast (mem ! 1)) OR ucast (mem ! 0)
      else push_bit 16 (ucast (mem ! 0)) OR push_bit 8 (ucast (mem ! 1)) OR ucast (mem ! 2))"

definition permanent_entries :: "calc_model \<Rightarrow> var_entry list" where
  "permanent_entries m = map (\<lambda>t. tifiles_ve_create\<lparr>ve_type := t\<rparr>)
     (if m = CALC_TI83 then [0x0F, 0x10, 0x11] else [0x17, 0x18, 0x19, 0x1A, 0x1B])"

definition header_of :: "var_entry \<Rightarrow> var_header" where
  "header_of ve = \<lparr>vh_size = 0, vh_type = ve_type ve, vh_name = ve_name ve, vh_attr = 0, vh_version = 0\<rparr>"

definition take_header :: "var_header \<Rightarrow> var_entry \<Rightarrow> var_entry" where
  "take_header v ve = ve\<lparr>ve_size := ucast (vh_size v), ve_type := vh_type v, ve_name := vh_name v\<rparr>"

fun dir_entries :: "nat \<Rightarrow> 'd op_env \<Rightarrow> var_entry list \<Rightarrow> 'd calc_handle \<Rightarrow> ret \<times> var_entry list \<times> 'd calc_handle" where
  "dir_entries 0 P es h = (Some OUT_OF_FUEL, es, h)"
| "dir_entries (Suc n) P es h =
     (let (r, v, h) = RECV_VAR P (header_of tifiles_ve_create) h; ve = take_header v tifiles_ve_create;
          (r2, h) = SEND_ACK P h
      in if r \<noteq> None then (if r = Some ERR_EOT then None else r, es, h)
         else if r2 \<noteq> None then (r2, es, h)
         else dir_entries n P (es @ [ve]) (ticalcs_update_label P h))"

definition get_dirlist_8x ::
    "nat \<Rightarrow> 'd op_env \<Rightarrow> bytes \<Rightarrow> 'd calc_handle \<Rightarrow> ret \<times> (u32 \<times> var_entry list) option \<times> 'd calc_handle" where
  "get_dirlist_8x fuel P buffer2 h =
     (let (r, mem, h) = request_dir P buffer2 h; (r, h) = andthen (r, h) (SEND_ACK P)
      in case r of Some e \<Rightarrow> (Some e, None, h)
         | None \<Rightarrow> (let (r, es, h) = dir_entries fuel P (permanent_entries (kh_model h)) h
                    in (r, map_option (\<lambda>m. (mem_free (kh_model h) m, es)) mem, h)))"

definition get_memfree_8x :: "'d op_env \<Rightarrow> bytes \<Rightarrow> 'd calc_handle \<Rightarrow> ret \<times> u32 \<times> u32 \<times> 'd calc_handle" where
  "get_memfree_8x P buffer2 h =
     (let (r, mem, h) = request_dir P buffer2 h; (r, h) = andthen (r, h) (SEND_EOT P)
      in (r, if r = None then (case mem of None \<Rightarrow> -1 | Some m \<Rightarrow> mem_free (kh_model h) m) else -1, -1, h))"

section \<open>Sending variables\<close>

text \<open>Waiting for the user, who may accept, refuse, or cancel in the application.\<close>

fun wait_user :: "nat \<Rightarrow> 'd op_env \<Rightarrow> 'd calc_handle \<Rightarrow> ret \<times> u8 \<times> 'd calc_handle" where
  "wait_user 0 P h = (Some OUT_OF_FUEL, 0, h)"
| "wait_user (Suc n) P h =
     (let h = ticalcs_update_refresh (oe_env P) h
      in if up_cancel (kh_updat h) then (Some ERR_ABORT, 0, h)
         else (let (r, rej, h) = RECV_SKP P h in if r = Some ERR_READ_TIMEOUT then wait_user n P h else (r, rej, h)))"

definition clamped_size :: "var_entry \<Rightarrow> u16" where
  "clamped_size e = (if 65536 \<le> ve_size e then 65535 else ucast (ve_size e))"

text \<open>What becomes of an entry: the data may be sent, the entry is skipped, or the loop ends.\<close>

definition var_rejection :: "u8 \<Rightarrow> ret" where
  "var_rejection rej =
     (if rej = 1 then Some ERR_ABORT else if rej = 3 then Some ERR_OUT_OF_MEMORY
      else if rej = 0 then None else Some ERR_VAR_REJECTED)"

definition sendable :: "var_entry option \<Rightarrow> bool" where
  "sendable e = (case e of None \<Rightarrow> False | Some e \<Rightarrow> ve_action e \<noteq> 3)"

abbreviation (input) MODE_SEND_ONE_VAR :: u32 where "MODE_SEND_ONE_VAR \<equiv> 2"
abbreviation (input) MODE_SEND_LAST_VAR :: u32 where "MODE_SEND_LAST_VAR \<equiv> 4"
abbreviation (input) MODE_SEND_EXEC_ASM :: u32 where "MODE_SEND_EXEC_ASM \<equiv> 8"

definition send_entry_ns :: "nat \<Rightarrow> 'd op_env \<Rightarrow> u32 \<Rightarrow> var_entry \<Rightarrow> 'd op" where
  "send_entry_ns fuel P mode e h =
     (let (r, h) = andthen (SEND_VAR P (clamped_size e) (ve_type e) (ve_name e) h) (RECV_ACK_any P)
      in case r of Some er \<Rightarrow> (Some er, h)
         | None \<Rightarrow>
             (let (r, rej, h) = wait_user fuel P (ticalcs_update_label P h); (r, h) = andthen (r, h) (SEND_ACK P)
              in case r of Some er \<Rightarrow> (Some er, h)
                 | None \<Rightarrow>
                     if rej = 2 then (if mode AND MODE_SEND_EXEC_ASM \<noteq> 0 then Some ERR_ABORT else None, h)
                     else (case var_rejection rej of Some er \<Rightarrow> (Some er, h)
                           | None \<Rightarrow>
                               andthen (andthen (SEND_XDP P (clamped_size e) (ve_data e) (ticalcs_update_label P h)) (RECV_ACK_any P))
                                 (\<lambda>h. (None, ticalcs_update_pbar (oe_env P) h)))))"

fun send_entries :: "(var_entry \<Rightarrow> 'd op) \<Rightarrow> var_entry option list \<Rightarrow> 'd op" where
  "send_entries f [] h = (None, h)"
| "send_entries f (e # es) h =
     (case e of
        Some v \<Rightarrow> if sendable e then andthen (f v h) (send_entries f es) else send_entries f es h
      | None \<Rightarrow> send_entries f es h)"

definition send_var_ns_8x :: "nat \<Rightarrow> 'd op_env \<Rightarrow> u32 \<Rightarrow> var_entry option list \<Rightarrow> 'd op" where
  "send_var_ns_8x fuel P mode es h =
     (if mode AND MODE_SEND_EXEC_ASM \<noteq> 0 \<and> length es \<noteq> 1 then (Some (ERR_OTHER (-1)), h)
      else
        (let (r, h) = send_entries (send_entry_ns fuel P mode) es h
         in if mode AND MODE_SEND_EXEC_ASM \<noteq> 0
            then andthen (ti82_send_asm_exec (oe_env P) (map_option (\<lambda>e. (ve_name e ! 0, ve_size e)) (es ! 0)) (oe_stack P h) h)
                   (\<lambda>h. andthen (RECV_ERR P h) (SEND_ACK P))
            else if mode AND MODE_SEND_ONE_VAR \<noteq> 0 \<or> mode AND MODE_SEND_LAST_VAR \<noteq> 0
            then andthen (SEND_EOT P h) (RECV_ACK_clean P)
            else (r, h)))"

definition send_var_8285 :: "nat \<Rightarrow> 'd op_env \<Rightarrow> u32 \<Rightarrow> var_entry option list \<Rightarrow> 'd op" where
  "send_var_8285 fuel P mode es h = send_var_ns_8x fuel P mode es h"

definition send_entry_8386 :: "'d op_env \<Rightarrow> var_entry \<Rightarrow> 'd op" where
  "send_entry_8386 P e h =
     (let (r, rej, h) =
            (let (r, h) = andthen (SEND_RTS P (clamped_size e) (ve_type e) (ve_name e) h) (RECV_ACK_any P)
             in case r of Some er \<Rightarrow> (Some er, 0, h) | None \<Rightarrow> RECV_SKP P h);
          (r, h) = andthen (r, h) (SEND_ACK P)
      in case r of Some er \<Rightarrow> (Some er, h)
         | None \<Rightarrow>
             if rej = 2 then (None, h)
             else (case var_rejection rej of Some er \<Rightarrow> (Some er, h)
                   | None \<Rightarrow>
                       andthen (SEND_XDP P (clamped_size e) (ve_data e) (ticalcs_update_label P h)) (\<lambda>h.
                       andthen (RECV_ACK_any P h) (\<lambda>h.
                       andthen (SEND_EOT P h) (\<lambda>h. (None, ticalcs_update_pbar (oe_env P) h))))))"

definition send_var_8386 :: "'d op_env \<Rightarrow> u32 \<Rightarrow> var_entry option list \<Rightarrow> 'd op" where
  "send_var_8386 P mode es h = send_entries (send_entry_8386 P) es h"

section \<open>Receiving variables\<close>

text \<open>The contents go to an array of the size that the header announced, and a byte more.\<close>

definition recv_contents :: "'d op_env \<Rightarrow> var_entry \<Rightarrow> 'd calc_handle \<Rightarrow> ret \<times> var_entry \<times> 'd calc_handle" where
  "recv_contents P ve h =
     (let data = tifiles_ve_alloc_data (unat (ve_size ve)); (r, (n, d), h) = RECV_XDP P (ucast (ve_size ve)) (Some data) h
      in if r \<noteq> None then (r, ve\<lparr>ve_data := d\<rparr>, h)
         else (let (r, h) = SEND_ACK P h in (r, ve\<lparr>ve_data := d, ve_size := ucast n\<rparr>, h)))"

definition accept_header :: "'d op_env \<Rightarrow> 'd op" where
  "accept_header P h = andthen (SEND_CTS P h) (RECV_ACK_clean P)"

definition recv_var_8x :: "'d op_env \<Rightarrow> var_entry \<Rightarrow> 'd calc_handle \<Rightarrow> ret \<times> var_entry \<times> 'd calc_handle" where
  "recv_var_8x P vr h =
     (let (r, h) = andthen (SEND_REQ P (ucast (ve_size vr)) (ve_type vr) (ve_name vr) (ticalcs_update_label P h)) (RECV_ACK_any P)
      in case r of Some e \<Rightarrow> (Some e, vr, h)
         | None \<Rightarrow>
             (let (r, v, h) = RECV_VAR P (header_of vr) h
              in case r of Some e \<Rightarrow> (Some e, vr\<lparr>ve_type := vh_type v, ve_name := vh_name v\<rparr>, h)
                 | None \<Rightarrow>
                     (let ve = take_header v vr; (r, h) = andthen (SEND_ACK P h) (accept_header P)
                      in case r of Some e \<Rightarrow> (Some e, ve, h) | None \<Rightarrow> recv_contents P ve h)))"

fun wait_var :: "nat \<Rightarrow> 'd op_env \<Rightarrow> var_entry \<Rightarrow> 'd calc_handle \<Rightarrow> (ret \<times> var_entry) option \<times> 'd calc_handle" where
  "wait_var 0 P ve h = (Some (Some OUT_OF_FUEL, ve), h)"
| "wait_var (Suc n) P ve h =
     (let h = ticalcs_update_refresh (oe_env P) h
      in if up_cancel (kh_updat h) then (None, h)
         else (let (r, v, h) = RECV_VAR P (header_of ve) h; ve = take_header v ve
               in if r = Some ERR_READ_TIMEOUT then wait_var n P ve h else (Some (r, ve), h)))"

text \<open>
  The variables that the calculator sends until it ends the transmission. A cancellation leaves
  the loop without an acknowledgement.
\<close>

fun recv_vars :: "nat \<Rightarrow> nat \<Rightarrow> 'd op_env \<Rightarrow> var_entry list \<Rightarrow> 'd calc_handle \<Rightarrow> ret \<times> var_entry list \<times> 'd calc_handle" where
  "recv_vars 0 fuel P es h = (Some OUT_OF_FUEL, es, h)"
| "recv_vars (Suc n) fuel P es h =
     (let (x, h) = wait_var fuel P tifiles_ve_create h
      in case x of None \<Rightarrow> (Some ERR_ABORT, es, h)
         | Some (r, ve) \<Rightarrow>
             (let (r2, h) = SEND_ACK P h
              in if r \<noteq> None then (if r = Some ERR_EOT then None else r, es, h)
                 else if r2 \<noteq> None then (r2, es, h)
                 else
                   (let (r, h) = accept_header P h
                    in if r \<noteq> None then (r, es, h)
                       else (let (r, ve, h) = recv_contents P ve (ticalcs_update_label P h)
                             in if r \<noteq> None then (r, es, h) else recv_vars n fuel P (es @ [ve]) h))))"

definition recv_var_ns_8x ::
    "nat \<Rightarrow> 'd op_env \<Rightarrow> 'd calc_handle \<Rightarrow> ret \<times> (var_entry list \<times> var_entry option option) \<times> 'd calc_handle" where
  "recv_var_ns_8x fuel P h =
     (let (r, es, h) = recv_vars fuel fuel P [] (ticalcs_update_label P h)
      in (r, (es, if length es = 1 then Some (tifiles_ve_dup (es ! 0)) else Some None), h))"

section \<open>Backups\<close>

record backup_content =
  bc_mem_address :: u16
  bc_type :: u8
  bc_version :: u8
  bc_length1 :: u16
  bc_part1 :: "bytes option"
  bc_length2 :: u16
  bc_part2 :: "bytes option"
  bc_length3 :: u16
  bc_part3 :: "bytes option"
  bc_length4 :: u16
  bc_part4 :: "bytes option"

definition backup_name :: "calc_model \<Rightarrow> backup_content \<Rightarrow> bytes" where
  "backup_name m c =
     (let x = (if m \<noteq> CALC_TI86 then bc_mem_address c else bc_length4 c)
      in [LSB (bc_length2 c), MSB (bc_length2 c), LSB (bc_length3 c), MSB (bc_length3 c), LSB x, MSB x, 0, 0, 0])"

definition backup_rejection :: "u8 \<Rightarrow> ret" where
  "backup_rejection rej =
     (if rej = 1 \<or> rej = 2 then Some ERR_ABORT else if rej = 3 then Some ERR_OUT_OF_MEMORY
      else if rej = 0 then None else Some ERR_VAR_REJECTED)"

definition send_part :: "'d op_env \<Rightarrow> u16 \<Rightarrow> bytes option \<Rightarrow> 'd op" where
  "send_part P len data h = andthen (SEND_XDP P len data h) (RECV_ACK_any P)"

definition progressed :: "'d op_env \<Rightarrow> 'd op" where
  "progressed P h = (None, ticalcs_update_pbar (oe_env P) h)"

definition send_backup_8x :: "nat \<Rightarrow> 'd op_env \<Rightarrow> backup_content \<Rightarrow> 'd op" where
  "send_backup_8x fuel P c h =
     (let name = backup_name (kh_model h) c;
          (r, h) = andthen
            (if kh_model h = CALC_TI83 then SEND_RTS P (bc_length1 c) 0x13 name h
             else SEND_VAR P (bc_length1 c) (if kh_model h = CALC_TI82 then 0x0F else 0x1D) name h) (RECV_ACK_any P)
      in case r of Some e \<Rightarrow> (Some e, h)
         | None \<Rightarrow>
             (let (r, rej, h) = (if kh_model h = CALC_TI83 then RECV_SKP P h else wait_user fuel P (ticalcs_update_label P h));
                  (r, h) = andthen (r, h) (SEND_ACK P)
              in case r of Some e \<Rightarrow> (Some e, h)
                 | None \<Rightarrow>
                     (case backup_rejection rej of Some e \<Rightarrow> (Some e, h)
                      | None \<Rightarrow>
                          andthen (progressed P (ticalcs_update_label P h)) (\<lambda>h.
                          andthen (send_part P (bc_length1 c) (bc_part1 c) h) (\<lambda>h.
                          andthen (progressed P h) (\<lambda>h.
                          andthen (send_part P (bc_length2 c) (bc_part2 c) h) (\<lambda>h.
                          andthen (progressed P h) (\<lambda>h.
                          andthen (if bc_length3 c \<noteq> 0 then send_part P (bc_length3 c) (bc_part3 c) h else (None, h)) (\<lambda>h.
                          andthen (progressed P h) (\<lambda>h.
                          andthen (if kh_model h = CALC_TI86
                                   then andthen (send_part P (bc_length4 c) (bc_part4 c) h) (progressed P) else (None, h)) (\<lambda>h.
                          if kh_model h = CALC_TI83 then SEND_ACK P h
                          else if kh_model h = CALC_TI85 then SEND_EOT P h else (None, h))))))))))))"

text \<open>A part is received into an array of 65536 bytes and one, and its length taken from the packet.\<close>

definition recv_part :: "'d op_env \<Rightarrow> u16 \<Rightarrow> 'd calc_handle \<Rightarrow> ret \<times> (u16 \<times> bytes option) \<times> 'd calc_handle" where
  "recv_part P len h =
     (let (r, x, h) = RECV_XDP P len (Some (tifiles_ve_alloc_data 65536)) h; (r, h) = andthen (r, h) (SEND_ACK P) in (r, x, h))"

definition name_word :: "bytes \<Rightarrow> nat \<Rightarrow> u16" where
  "name_word name i = ucast (name ! i) OR push_bit 8 (ucast (name ! (i + 1)))"

definition recv_backup_8x :: "'d op_env \<Rightarrow> bytes \<Rightarrow> backup_content \<Rightarrow> 'd calc_handle \<Rightarrow> ret \<times> backup_content \<times> 'd calc_handle" where
  "recv_backup_8x P junk c h =
     (let (r, h) = (if kh_model h = CALC_TI83
                    then andthen (SEND_REQ P 0x0000 0x13 (replicate 8 0) h) (RECV_ACK_clean P)
                    else (None, ticalcs_update_label P h))
      in case r of Some e \<Rightarrow> (Some e, c, h)
         | None \<Rightarrow>
     (let (r, v, h) = RECV_VAR P \<lparr>vh_size = bc_length1 c, vh_type = bc_type c, vh_name = (local_array 9 junk)[0 := 0],
                                vh_attr = 0, vh_version = 0\<rparr> h;
          c = c\<lparr>bc_length1 := vh_size v, bc_type := vh_type v\<rparr>
      in case r of Some e \<Rightarrow> (Some e, c, h)
         | None \<Rightarrow>
     (let x = name_word (vh_name v) 4;
          c = c\<lparr>bc_length2 := name_word (vh_name v) 0, bc_length3 := name_word (vh_name v) 2\<rparr>;
          c = (if kh_model h \<noteq> CALC_TI86 then c\<lparr>bc_mem_address := x\<rparr> else c\<lparr>bc_length4 := x\<rparr>);
          (r, h) = andthen (SEND_ACK P h) (accept_header P)
      in case r of Some e \<Rightarrow> (Some e, c, h)
         | None \<Rightarrow>
     (let (_, h) = progressed P (ticalcs_update_label P h);
          (r, (n, d), h) = recv_part P (bc_length1 c) h; c = c\<lparr>bc_length1 := n, bc_part1 := d\<rparr>
      in case r of Some e \<Rightarrow> (Some e, c, h)
         | None \<Rightarrow>
     (let (_, h) = progressed P h; (r, (n, d), h) = recv_part P (bc_length2 c) h; c = c\<lparr>bc_length2 := n, bc_part2 := d\<rparr>
      in case r of Some e \<Rightarrow> (Some e, c, h)
         | None \<Rightarrow>
     (let (_, h) = progressed P h;
          (r, (n, d), h) = (if bc_length3 c \<noteq> 0 then recv_part P (bc_length3 c) h else (None, (bc_length3 c, None), h));
          c = c\<lparr>bc_length3 := n, bc_part3 := d\<rparr>
      in case r of Some e \<Rightarrow> (Some e, c, h)
         | None \<Rightarrow>
     (let (_, h) = progressed P h
      in if kh_model h \<noteq> CALC_TI86 then (None, c\<lparr>bc_part4 := None\<rparr>, h)
         else (let (r, (n, d), h) = recv_part P (bc_length4 c) h; c = c\<lparr>bc_length4 := n, bc_part4 := d\<rparr>
               in case r of Some e \<Rightarrow> (Some e, c, h)
                  | None \<Rightarrow> (let (r, h) = progressed P h in (r, c, h))))))))))"

section \<open>The buffer of the handle\<close>

text \<open>No operation changes the size of the buffer, in any environment.\<close>

definition buffer_len :: "'d calc_handle \<Rightarrow> nat option" where
  "buffer_len h = map_option length (kh_buffer h)"

lemma buffer_len_update [simp]:
  "buffer_len (ticalcs_update_pbar E h) = buffer_len h" "buffer_len (ticalcs_update_refresh E h) = buffer_len h"
  "buffer_len (set_cnt1 n h) = buffer_len h" "buffer_len (set_max1 n h) = buffer_len h"
  "buffer_len (progress_reset h) = buffer_len h" "buffer_len (ticalcs_update_label P h) = buffer_len h"
  "buffer_len (h\<lparr>kh_busy := b\<rparr>) = buffer_len h" "buffer_len (h\<lparr>kh_min_size := m\<rparr>) = buffer_len h"
  "buffer_len (h\<lparr>kh_blk_size := m\<rparr>) = buffer_len h" "buffer_len (h\<lparr>kh_send_ref := m\<rparr>) = buffer_len h"
  "buffer_len (h\<lparr>kh_recv_ref := m\<rparr>) = buffer_len h" "buffer_len (h\<lparr>kh_buffer := Some bs\<rparr>) = Some (length bs)"
  by (simp_all add: buffer_len_def ticalcs_update_pbar_def ticalcs_update_refresh_def ticalcs_update_label_def
      set_cnt1_def set_max1_def progress_reset_def)

lemma fire_buffer: "fire E ty r0 d h = (r, h') \<Longrightarrow> buffer_len h' = buffer_len h"
  by (auto simp: fire_def ticalcs_event_send_def Let_def buffer_len_def split: option.splits)

lemma cable_send_buffer: "cable_send E bs h = (r, h') \<Longrightarrow> buffer_len h' = buffer_len h"
  by (auto simp: cable_send_def buffer_len_def split: prod.splits)

lemma check_cancel_buffer: "check_cancel h = (r, h') \<Longrightarrow> buffer_len h' = buffer_len h"
  by (auto simp: check_cancel_def split: if_splits)

lemma chunk_done_buffer: "chunk_done E n k h = (r, h') \<Longrightarrow> buffer_len h' = buffer_len h"
  by (auto simp: chunk_done_def Let_def split: if_splits dest!: check_cancel_buffer)

lemma chunk_call_buffer: "andthen (cable_send E bs h) (chunk_done E n k) = (r, h') \<Longrightarrow> buffer_len h' = buffer_len h"
  by (cases "cable_send E bs h"; cases "fst (cable_send E bs h)")
    (auto dest!: cable_send_buffer chunk_done_buffer)

lemma dbus_send_chunks_buffer: "dbus_send_chunks E buf n q i h = (r, j, h') \<Longrightarrow> buffer_len h' = buffer_len h"
proof (induction q arbitrary: i h)
  case (Suc q)
  then show ?case
    by (auto simp: Let_def split: prod.splits option.splits dest!: chunk_call_buffer)
qed simp

lemma dbus_send_std_buffer: "dbus_send_std E buf n h = (r, h') \<Longrightarrow> buffer_len h' = buffer_len h"
  by (auto simp: dbus_send_std_def Let_def split: prod.splits option.splits
      dest!: chunk_call_buffer dbus_send_chunks_buffer)

lemma fill_buffer_length: "dbus_fill_buffer buf t c n d = Some b \<Longrightarrow> length b = length buf"
  by (auto simp: dbus_fill_buffer_def Let_def split: bind_splits dest!: memcpy_at_length)

lemma dbus_send_packet_buffer:
  "dbus_send_packet E buf t c n d h = (r, h') \<Longrightarrow> buffer_len h = Some (length buf) \<Longrightarrow> buffer_len h' = buffer_len h"
  by (auto simp: dbus_send_packet_def split: option.splits
      dest!: cable_send_buffer dbus_send_std_buffer memcpy_at_length fill_buffer_length)

lemma with_busy_buffer:
  assumes "\<And>h' r. body (h\<lparr>kh_busy := True\<rparr>) = (r, h') \<Longrightarrow> buffer_len h' = buffer_len h"
  shows "with_busy h body = (r, h') \<Longrightarrow> buffer_len h' = buffer_len h"
  using assms by (auto simp: with_busy_def busy_taken clear_busy_if_necessary_def buffer_len_def
      split: prod.splits if_splits)

lemma dbus_send_buffer:
  assumes "dbus_send E t c len d h = (r, h')"
  shows "buffer_len h' = buffer_len h"
proof (cases "kh_buffer h")
  case None then show ?thesis using assms by (simp add: dbus_send_def)
next
  case (Some buf)
  then have len: "buffer_len h = Some (length buf)" by (simp add: buffer_len_def)
  show ?thesis
    using assms unfolding dbus_send_def Let_def Some option.case
  proof (rule with_busy_buffer [rotated], goal_cases)
    case (1 h2 r2)
    then show ?case
      using len
      by (auto simp: andthen_def Let_def split: option.splits prod.splits if_splits dest!: fire_buffer)
        (auto dest!: dbus_send_packet_buffer)
  qed
qed

section \<open>Commands on a quiet link\<close>

text \<open>What the calculator answers to a header: it wants the data, or it does not.\<close>

definition skp_answer :: "u8 \<Rightarrow> u8 \<Rightarrow> bytes" where
  "skp_answer host rej = (if rej = 0 then [host, 0x09, 0, 0] else dbus_packet host 0x36 (Some [rej]))"

text \<open>A variable that the link can carry: a full name, contents as long as its size, and no backup.\<close>

definition carried :: "calc_model \<Rightarrow> var_entry \<Rightarrow> bool" where
  "carried m e \<longleftrightarrow> ve_action e \<noteq> 3 \<and> ve_type e \<noteq> bkup_8283 m \<and> 8 \<le> length (ve_name e)
     \<and> 0 < unat (ve_size e) \<and> unat (ve_size e) < 65536 \<and> (case ve_data e of None \<Rightarrow> False | Some d \<Rightarrow> unat (ve_size e) \<le> length d)"

definition contents :: "var_entry \<Rightarrow> bytes" where
  "contents e = take (unat (ve_size e)) (the (ve_data e))"

definition host_ack :: "u8 \<Rightarrow> bytes" where
  "host_ack host = [host, 0x56, 0, 0]"

lemma length_host_ack [simp]: "length (host_ack host) = 4"
  by (simp add: host_ack_def)

text \<open>What the two ends say for a variable that is announced with a request to send.\<close>

definition rts_answers :: "u8 \<Rightarrow> u8 \<Rightarrow> bytes" where
  "rts_answers host rej = host_ack host @ skp_answer host rej @ (if rej = 0 then host_ack host else [])"

definition rts_wire :: "calc_model \<Rightarrow> var_entry \<Rightarrow> u8 \<Rightarrow> bytes" where
  "rts_wire m e rej =
     (let t = mid_8283 m
      in dbus_packet t 0xC9 (Some (std_header (clamped_size e) (ve_type e) (ve_name e) 8)) @ [t, 0x56, 0, 0]
         @ (if rej = 0 then dbus_packet t 0x15 (Some (contents e)) @ [t, 0x92, 0, 0] else []))"

definition rts_wires :: "calc_model \<Rightarrow> (var_entry \<times> u8) list \<Rightarrow> bytes" where
  "rts_wires m xs = concat (map (\<lambda>x. rts_wire m (fst x) (snd x)) xs)"

definition rts_replies :: "u8 \<Rightarrow> (var_entry \<times> u8) list \<Rightarrow> bytes" where
  "rts_replies host xs = concat (map (\<lambda>x. rts_answers host (snd x)) xs)"

lemma rts_simps [simp]:
  "rts_wires m [] = []" "rts_replies host [] = []"
  "rts_wires m ((e, rej) # xs) = rts_wire m e rej @ rts_wires m xs"
  "rts_replies host ((e, rej) # xs) = rts_answers host rej @ rts_replies host xs"
  by (simp_all add: rts_wires_def rts_replies_def)

text \<open>
  What an answer means for the operation, and the variables up to the first that is refused: those
  behind it are not announced any more.
\<close>

definition answer_outcome :: "u8 \<Rightarrow> ret" where
  "answer_outcome rej =
     (if rej = 0 \<or> rej = 2 then None else if rej = 1 then Some ERR_ABORT
      else if rej = 3 then Some ERR_OUT_OF_MEMORY else Some ERR_VAR_REJECTED)"

fun until_refused :: "(var_entry \<times> u8) list \<Rightarrow> (var_entry \<times> u8) list" where
  "until_refused [] = []"
| "until_refused ((e, rej) # xs) = (e, rej) # (if answer_outcome rej = None then until_refused xs else [])"

fun list_outcome :: "(var_entry \<times> u8) list \<Rightarrow> ret" where
  "list_outcome [] = None"
| "list_outcome ((e, rej) # xs) = (if answer_outcome rej = None then list_outcome xs else answer_outcome rej)"

text \<open>And for one that is announced with a header and left to the user.\<close>

definition var_wire :: "calc_model \<Rightarrow> var_entry \<Rightarrow> bytes" where
  "var_wire m e =
     (let t = mid_8283 m
      in dbus_packet t 0x06 (Some (std_header (clamped_size e) (ve_type e) (ve_name e) 8)) @ [t, 0x56, 0, 0])"

text \<open>A handle that is ready and has its buffer; what commands do with it.\<close>

locale quiet_ops = quiet_link send recv sent avail room ok E
  for send :: "'d \<Rightarrow> bytes \<Rightarrow> ret \<times> 'd" and recv :: "'d \<Rightarrow> nat \<Rightarrow> ret \<times> bytes \<times> 'd"
    and sent avail :: "'d \<Rightarrow> bytes" and room :: "'d \<Rightarrow> nat" and ok :: "'d \<Rightarrow> bool" and E :: "'d calc_env" +
  fixes P :: "'d op_env"
  assumes env: "oe_env P = E" and label_quiet: "up_cancel (oe_label P u) = up_cancel u"
begin

definition prepared :: "'d calc_handle \<Rightarrow> bool" where
  "prepared h \<longleftrightarrow> ready h \<and> buffer_len h = Some 65542"

definition went :: "'d calc_handle \<Rightarrow> bytes \<Rightarrow> nat \<Rightarrow> 'd calc_handle \<Rightarrow> bool" where
  "went h out n h' \<longleftrightarrow> moved h out n h' \<and> prepared h'"

lemma went_trans: "went h out n h1 \<Longrightarrow> went h1 out' n' h2 \<Longrightarrow> went h (out @ out') (n + n') h2"
  by (auto simp: went_def dest: moved_trans)

lemma went_refl: "prepared h \<Longrightarrow> went h [] 0 h"
  by (simp add: went_def prepared_def moved_def)

lemma went_prepared: "went h out n h' \<Longrightarrow> prepared h'"
  by (simp add: went_def)

lemma went_room: "went h out n h' \<Longrightarrow> c_room (kh_cable h') = c_room (kh_cable h) - length out"
  by (simp add: went_def moved_def)

lemma went_avail: "went h out n h' \<Longrightarrow> c_avail (kh_cable h') = drop n (c_avail (kh_cable h))"
  by (simp add: went_def moved_def)

lemma went_model: "went h out n h' \<Longrightarrow> kh_model h' = kh_model h"
  by (simp add: went_def moved_def)

lemmas went_facts = went_prepared went_room went_avail went_model

lemma label_went: "prepared h \<Longrightarrow> went h [] 0 (ticalcs_update_label P h)"
  by (simp add: went_def prepared_def moved_def ready_def ticalcs_update_label_def label_quiet buffer_len_def)

lemma refresh_went: "prepared h \<Longrightarrow> went h [] 0 (ticalcs_update_refresh E h)"
  by (simp add: went_def prepared_def moved_def ready_def ticalcs_update_refresh_def refresh_quiet buffer_len_def)

lemma pbar_went: "prepared h \<Longrightarrow> went h [] 0 (ticalcs_update_pbar E h)"
  by (simp add: went_def prepared_def moved_def ready_def ticalcs_update_pbar_def pbar_quiet buffer_len_def)

lemma dbus_send_went:
  assumes "prepared h" "nlen = (if len = 0 then 65536 else unat len)" "\<And>d. data = Some d \<Longrightarrow> nlen \<le> length d"
    and "pkt = dbus_packet target cmd (map_option (take nlen) data)" "length pkt \<le> c_room (kh_cable h)"
  shows "\<exists>h'. dbus_send E target cmd len data h = (None, h') \<and> went h pkt 0 h'"
proof -
  obtain buf where "kh_buffer h = Some buf" "length buf = 65542"
    using assms(1) by (auto simp: prepared_def buffer_len_def)
  then obtain h' where h': "dbus_send E target cmd len data h = (None, h')" "moved h pkt 0 h'"
    using dbus_send_quiet [OF _ _ _ assms(2-5)] assms(1) by (auto simp: prepared_def)
  then show ?thesis
    using dbus_send_buffer [OF h'(1)] moved_ready [OF h'(2)] assms(1) by (auto simp: went_def prepared_def)
qed

lemma target_8x_nz: "target_8x h \<noteq> 0"
  by (simp add: target_8x_def mid_8283_def mid_8586_def)

lemma short_went:
  assumes "prepared h" "4 \<le> c_room (kh_cable h)"
  shows "\<exists>h'. SEND_ACK P h = (None, h') \<and> went h [target_8x h, 0x56, 0, 0] 0 h'"
    and "\<exists>h'. SEND_CTS P h = (None, h') \<and> went h [target_8x h, 0x09, 0, 0] 0 h'"
    and "\<exists>h'. SEND_EOT P h = (None, h') \<and> went h [target_8x h, 0x92, 0, 0] 0 h'"
    and "\<exists>h'. SEND_SCR P h = (None, h') \<and> went h [target_8x h, 0x6D, 0, 0] 0 h'"
proof -
  have one: "\<exists>h'. dbus_send E (target_8x h) cmd len None h = (None, h') \<and> went h [target_8x h, cmd, 0, 0] 0 h'" for cmd len
    by (rule dbus_send_went [OF assms(1) refl, where data = None]) (use assms(2) target_8x_nz in \<open>simp_all add: dbus_packet_def\<close>)
  show "\<exists>h'. SEND_ACK P h = (None, h') \<and> went h [target_8x h, 0x56, 0, 0] 0 h'"
    "\<exists>h'. SEND_CTS P h = (None, h') \<and> went h [target_8x h, 0x09, 0, 0] 0 h'"
    "\<exists>h'. SEND_EOT P h = (None, h') \<and> went h [target_8x h, 0x92, 0, 0] 0 h'"
    "\<exists>h'. SEND_SCR P h = (None, h') \<and> went h [target_8x h, 0x6D, 0, 0] 0 h'"
    unfolding SEND_ACK_def SEND_CTS_def SEND_EOT_def SEND_SCR_def tiz80_send_ACK_def tiz80_send_CTS_def
      tiz80_send_EOT_def tiz80_send_SCR_def tiz80_send_simple_cmd_def env by (rule one)+
qed

lemma RECV_ACK_any_went:
  assumes "prepared g" "c_avail (kh_cable g) = [host, 0x56, a, b] @ rest" "host \<noteq> 0x80"
  shows "\<exists>g'. RECV_ACK_any P g = (None, g') \<and> went g [] 4 g'"
proof -
  obtain g' where g': "dbus_recv E (0, 0, 0) (kh_buffer g) g = (None, ((host, DBUS_CMD_ACK, be16 b a), kh_buffer g), g')"
      "moved g [] 4 g'"
    using dbus_recv_short_cmd_quiet [of g host DBUS_CMD_ACK a b rest "(0, 0, 0)" "kh_buffer g"] assms
    by (auto simp: dbus_short_cmds_def prepared_def)
  then show ?thesis
    using assms(1)
    by (auto simp: RECV_ACK_any_def RECV_ACK_status_def tiz80_recv_ACK_def recv_to_buffer_def env went_def prepared_def
        moved_def ready_def buffer_len_def)
qed

lemma RECV_ACK_clean_went:
  assumes "prepared g" "c_avail (kh_cable g) = [host, 0x56, 0, 0] @ rest" "host \<noteq> 0x80"
  shows "\<exists>g'. RECV_ACK_clean P g = (None, g') \<and> went g [] 4 g'"
proof -
  obtain g' where g': "dbus_recv E (0, 0, 0) (kh_buffer g) g = (None, ((host, DBUS_CMD_ACK, 0), kh_buffer g), g')"
      "moved g [] 4 g'"
    using dbus_recv_short_cmd_quiet [of g host DBUS_CMD_ACK 0 0 rest "(0, 0, 0)" "kh_buffer g"] assms
    by (auto simp: dbus_short_cmds_def prepared_def be16_def)
  then show ?thesis
    using assms(1)
    by (auto simp: RECV_ACK_clean_def tiz80_recv_ACK_def recv_to_buffer_def env went_def prepared_def
        moved_def ready_def buffer_len_def)
qed

lemma RECV_SKP_went:
  assumes "prepared g" "c_avail (kh_cable g) = skp_answer host rej @ rest" "host \<noteq> 0x80"
  shows "\<exists>g'. RECV_SKP P g = (None, rej, g') \<and> went g [] (length (skp_answer host rej)) g'"
proof (cases "rej = 0")
  case True
  obtain g' where g': "dbus_recv E (0, 0, 0) (kh_buffer g) g = (None, ((host, DBUS_CMD_CTS, be16 0 0), kh_buffer g), g')"
      "moved g [] 4 g'"
    using dbus_recv_short_cmd_quiet [of g host DBUS_CMD_CTS 0 0 rest "(0, 0, 0)" "kh_buffer g"] assms True
    by (auto simp: dbus_short_cmds_def prepared_def skp_answer_def)
  have len: "length (skp_answer host rej) = 4" using True by (simp add: skp_answer_def)
  show ?thesis
    unfolding len using g' assms(1) True
    by (auto simp: RECV_SKP_def tiz80_recv_SKP_def recv_to_buffer_def env went_def prepared_def
        moved_def ready_def buffer_len_def)
next
  case False
  obtain gb where gb: "kh_buffer g = Some gb" "length gb = 65542"
    using assms(1) by (auto simp: prepared_def buffer_len_def)
  have avail: "c_avail (kh_cable g) = dbus_packet host DBUS_CMD_SKP (Some [rej]) @ rest"
    using assms(2) False by (simp add: skp_answer_def)
  obtain g' where g': "recv_to_buffer E 0 g = (None, (DBUS_CMD_SKP, of_nat (length [rej])), g')"
      "kh_buffer g' = Some ([rej] @ drop (length [rej]) gb)" "moved g [] (length [rej] + 6) g'"
    using recv_to_buffer_quiet [of g gb "[rej]" host DBUS_CMD_SKP rest 0] assms(1,3) gb avail
    by (auto simp: dbus_data_cmds_def prepared_def)
  have len: "length (skp_answer host rej) = length [rej] + 6"
    using False by (simp add: skp_answer_def dbus_packet_def)
  show ?thesis
    unfolding len using g' gb False moved_ready [OF g'(3)]
    by (auto simp: RECV_SKP_def tiz80_recv_SKP_def env went_def prepared_def buffer_len_def)
qed

lemma SEND_XDP_went:
  assumes "prepared h" "0 < unat n" "unat n \<le> length d" "unat n + 6 \<le> c_room (kh_cable h)"
  shows "\<exists>h'. SEND_XDP P n (Some d) h = (None, h') \<and> went h (dbus_packet (target_8x h) 0x15 (Some (take (unat n) d))) 0 h'"
proof -
  have "n \<noteq> 0" using assms(2) by auto
  then show ?thesis
    using dbus_send_went [OF assms(1), of "unat n" n "Some d" "dbus_packet (target_8x h) 0x15 (Some (take (unat n) d))"] assms(3,4)
    by (simp add: SEND_XDP_def tiz80_send_XDP_def env dbus_packet_data)
qed

text \<open>Headers of the TI-82 and TI-83.\<close>

lemma header_82_went:
  assumes "prepared h" "kh_model h < CALC_TI85" "vartype \<noteq> bkup_8283 (kh_model h)" "8 \<le> length name" "17 \<le> c_room (kh_cable h)"
  shows "\<exists>h'. SEND_VAR P varsize vartype name h = (None, h')
      \<and> went h (dbus_packet (target_8x h) 0x06 (Some (std_header varsize vartype name 8))) 0 h'"
    and "\<exists>h'. SEND_RTS P varsize vartype name h = (None, h')
      \<and> went h (dbus_packet (target_8x h) 0xC9 (Some (std_header varsize vartype name 8))) 0 h'"
    and "\<exists>h'. SEND_REQ P varsize vartype name h = (None, h')
      \<and> went h (dbus_packet (target_8x h) 0xA2 (Some (std_header varsize vartype name 8))) 0 h'"
proof -
  obtain b where b: "memcpy (put_header varsize vartype (local_array 16 (oe_stack P h))) 3 name 0 8 = Some b"
    "take 11 b = std_header varsize vartype name 8" "length b = 16"
    using std_header_memcpy [of 8 name varsize vartype "oe_stack P h"] assms(4) by auto
  note s = dbus_send_went [OF assms(1), of 11 11 "Some b" "dbus_packet (target_8x h) _ (Some (std_header varsize vartype name 8))"]
  have len: "length (dbus_packet t c (Some (std_header varsize vartype name 8))) = 17" for t c
    using assms(4) by (simp add: dbus_packet_data std_header_def)
  show "\<exists>h'. SEND_VAR P varsize vartype name h = (None, h')
      \<and> went h (dbus_packet (target_8x h) 0x06 (Some (std_header varsize vartype name 8))) 0 h'"
    using s b assms(2,3,5) len
    by (simp add: SEND_VAR_def ti82_send_VAR_def with_name_def env send_array_def Let_def target_8x_def)
  show "\<exists>h'. SEND_RTS P varsize vartype name h = (None, h')
      \<and> went h (dbus_packet (target_8x h) 0xC9 (Some (std_header varsize vartype name 8))) 0 h'"
    using s b assms(2,3,5) len
    by (simp add: SEND_RTS_def ti82_send_RTS_def with_name_def env send_array_def Let_def target_8x_def)
  show "\<exists>h'. SEND_REQ P varsize vartype name h = (None, h')
      \<and> went h (dbus_packet (target_8x h) 0xA2 (Some (std_header varsize vartype name 8))) 0 h'"
    using s b assms(2,5) len
    by (simp add: SEND_REQ_def ti82_send_REQ_def with_name_def env send_array_def Let_def target_8x_def)
qed

text \<open>One variable over the link.\<close>

lemma carried_size:
  assumes "carried m e" shows "unat (clamped_size e) = unat (ve_size e)"
proof -
  have "\<not> 65536 \<le> ve_size e" using assms by (simp add: carried_def word_le_nat_alt)
  then show ?thesis using assms by (simp add: clamped_size_def carried_def unsigned_ucast_eq take_bit_eq_mod)
qed

lemma carried_target: "kh_model h < CALC_TI85 \<Longrightarrow> target_8x h = mid_8283 (kh_model h)"
  by (simp add: target_8x_def)

lemma data_went:
  assumes "prepared h" "kh_model h < CALC_TI85" "carried (kh_model h) e" "length (contents e) + 6 \<le> c_room (kh_cable h)"
  shows "\<exists>h'. SEND_XDP P (clamped_size e) (ve_data e) h = (None, h')
    \<and> went h (dbus_packet (mid_8283 (kh_model h)) 0x15 (Some (contents e))) 0 h'"
proof -
  obtain d where d: "ve_data e = Some d" "unat (ve_size e) \<le> length d" using assms(3) by (auto simp: carried_def split: option.splits)
  then show ?thesis
    using SEND_XDP_went [OF assms(1), of "clamped_size e" d] assms(3,4) carried_size [OF assms(3)] carried_target [OF assms(2)]
    by (simp add: contents_def carried_def)
qed

lemma rts_wire_length:
  assumes "carried m e"
  shows "length (rts_wire m e rej) = 21 + (if rej = 0 then length (contents e) + 10 else 0)"
  using assms by (simp add: rts_wire_def Let_def dbus_packet_data std_header_def carried_def)

lemma announced_rts:
  assumes "prepared h" "kh_model h < CALC_TI85" "carried (kh_model h) e" "host \<noteq> 0x80" "21 \<le> c_room (kh_cable h)"
    and "c_avail (kh_cable h) = host_ack host @ skp_answer host rej @ rest"
  obtains h1 h2 h3 where
    "andthen (SEND_RTS P (clamped_size e) (ve_type e) (ve_name e) h) (RECV_ACK_any P) = (None, h1)"
    "RECV_SKP P h1 = (None, rej, h2)" "SEND_ACK P h2 = (None, h3)"
    "went h (rts_wire (kh_model h) e 1) (length (host_ack host @ skp_answer host rej)) h3"
proof -
  let ?m = "kh_model h"
  let ?p = "dbus_packet (mid_8283 ?m) 0xC9 (Some (std_header (clamped_size e) (ve_type e) (ve_name e) 8))"
  have len: "length ?p = 17" using assms(3) by (simp add: dbus_packet_data std_header_def carried_def)
  obtain a where a: "SEND_RTS P (clamped_size e) (ve_type e) (ve_name e) h = (None, a)" "went h ?p 0 a"
    using header_82_went(2) [OF assms(1,2), of "ve_type e" "ve_name e" "clamped_size e"] assms(3,5) carried_target [OF assms(2)]
    by (auto simp: carried_def)
  obtain h1 where h1: "RECV_ACK_any P a = (None, h1)" "went a [] 4 h1"
    using RECV_ACK_any_went [of a host 0 0] went_facts [OF a(2)] assms(4,6) by (auto simp: host_ack_def)
  note w1 = went_trans [OF a(2) h1(2)]
  obtain h2 where h2: "RECV_SKP P h1 = (None, rej, h2)" "went h1 [] (length (skp_answer host rej)) h2"
    using RECV_SKP_went [of h1 host rej rest] went_facts [OF w1] assms(4,6) by (auto simp: host_ack_def)
  note w2 = went_trans [OF w1 h2(2)]
  have t2: "target_8x h2 = mid_8283 ?m" using went_model [OF w2] carried_target [of h2] assms(2) by simp
  have "4 \<le> c_room (kh_cable h2)" using went_room [OF w2] assms(5) len by simp
  then obtain h3 where h3: "SEND_ACK P h2 = (None, h3)" "went h2 [mid_8283 ?m, 0x56, 0, 0] 0 h3"
    using short_went(1) [of h2] went_prepared [OF w2] t2 by auto
  show ?thesis
  proof (rule that [OF _ h2(1) h3(1)])
    show "andthen (SEND_RTS P (clamped_size e) (ve_type e) (ve_name e) h) (RECV_ACK_any P) = (None, h1)"
      using a(1) h1(1) by simp
    show "went h (rts_wire ?m e 1) (length (host_ack host @ skp_answer host rej)) h3"
      using went_trans [OF w2 h3(2)] by (simp add: rts_wire_def Let_def)
  qed
qed

lemma entry_8386_went:
  assumes "prepared h" "kh_model h < CALC_TI85" "carried (kh_model h) e" "host \<noteq> 0x80"
    and "length (rts_wire (kh_model h) e rej) \<le> c_room (kh_cable h)"
    and "c_avail (kh_cable h) = rts_answers host rej @ rest"
  shows "\<exists>h'. send_entry_8386 P e h = (answer_outcome rej, h') \<and> went h (rts_wire (kh_model h) e rej) (length (rts_answers host rej)) h'"
proof -
  let ?m = "kh_model h"
  let ?more = "if rej = 0 then host_ack host else []"
  have room: "21 \<le> c_room (kh_cable h)" using assms(5) rts_wire_length [OF assms(3), of rej] by simp
  have avail: "c_avail (kh_cable h) = host_ack host @ skp_answer host rej @ (?more @ rest)"
    using assms(6) by (simp add: rts_answers_def)
  obtain h1 h2 h3 where
      h1: "andthen (SEND_RTS P (clamped_size e) (ve_type e) (ve_name e) h) (RECV_ACK_any P) = (None, h1)"
      and h2: "RECV_SKP P h1 = (None, rej, h2)" and h3: "SEND_ACK P h2 = (None, h3)"
      and w3: "went h (rts_wire ?m e 1) (length (host_ack host @ skp_answer host rej)) h3"
    using announced_rts [OF assms(1-4) room avail] by blast
  show ?thesis
  proof (cases "rej = 0")
    case False
    then show ?thesis
      using h1 h2 h3 w3
      by (auto simp: send_entry_8386_def rts_answers_def rts_wire_def Let_def answer_outcome_def var_rejection_def)
  next
    case rej: True
    have l1: "length (rts_wire ?m e 1) = 21" using rts_wire_length [OF assms(3), of 1] by simp
    have room3: "length (contents e) + 10 \<le> c_room (kh_cable h3)"
      using went_room [OF w3] assms(5) rts_wire_length [OF assms(3), of rej] l1 rej by simp
    have avail3: "c_avail (kh_cable h3) = host_ack host @ rest"
      using went_avail [OF w3] avail rej by simp
    note w4 = went_trans [OF w3 label_went [OF went_prepared [OF w3]]]
    let ?l = "ticalcs_update_label P h3"
    obtain h5 where h5: "SEND_XDP P (clamped_size e) (ve_data e) ?l = (None, h5)"
        "went ?l (dbus_packet (mid_8283 ?m) 0x15 (Some (contents e))) 0 h5"
      using data_went [of ?l e] went_facts [OF w4] assms(2,3) room3 went_room [OF w3] by auto
    note w5 = went_trans [OF w4 h5(2)]
    have room5: "4 \<le> c_room (kh_cable h5)"
      using went_room [OF w5] room3 went_room [OF w3] l1 by (simp add: dbus_packet_data)
    obtain h6 where h6: "RECV_ACK_any P h5 = (None, h6)" "went h5 [] 4 h6"
      using RECV_ACK_any_went [of h5 host 0 0 rest] went_facts [OF w5] went_avail [OF w3] avail3 assms(4)
      by (auto simp: host_ack_def)
    note w6 = went_trans [OF w5 h6(2)]
    have t6: "target_8x h6 = mid_8283 ?m" using went_model [OF w6] carried_target [of h6] assms(2) by simp
    obtain h7 where h7: "SEND_EOT P h6 = (None, h7)" "went h6 [mid_8283 ?m, 0x92, 0, 0] 0 h7"
      using short_went(3) [of h6] went_facts [OF h6(2)] room5 t6 by auto
    note w8 = went_trans [OF went_trans [OF w6 h7(2)] pbar_went [OF went_prepared [OF h7(2)]]]
    have call: "send_entry_8386 P e h = (answer_outcome rej, ticalcs_update_pbar E h7)"
      using h1 h2 h3 h5(1) h6(1) h7(1) rej by (simp add: send_entry_8386_def Let_def var_rejection_def answer_outcome_def env)
    have n: "length (rts_answers host rej) = length (host_ack host @ skp_answer host rej) + 0 + 0 + 4 + 0 + 0"
      using rej by (simp add: rts_answers_def)
    show ?thesis
      unfolding call n using w8 rej by (simp add: rts_wire_def Let_def)
  qed
qed

text \<open>A list of variables, each with the answer of the calculator.\<close>

lemma entries_8386_went:
  assumes "prepared h" "kh_model h < CALC_TI85" "host \<noteq> 0x80" "\<forall>x \<in> set xs. carried (kh_model h) (fst x)"
    and "length (rts_wires (kh_model h) (until_refused xs)) \<le> c_room (kh_cable h)"
    and "c_avail (kh_cable h) = rts_replies host (until_refused xs) @ rest"
  shows "\<exists>h'. send_entries (send_entry_8386 P) (map (\<lambda>x. Some (fst x)) xs) h = (list_outcome xs, h')
    \<and> went h (rts_wires (kh_model h) (until_refused xs)) (length (rts_replies host (until_refused xs))) h'"
  using assms
proof (induction xs arbitrary: h)
  case Nil then show ?case by (simp add: went_refl)
next
  case (Cons x xs)
  obtain e rej where x: "x = (e, rej)" by (cases x)
  let ?m = "kh_model h" and ?ys = "if answer_outcome rej = None then until_refused xs else []"
  have "carried ?m e" "length (rts_wire ?m e rej) \<le> c_room (kh_cable h)"
    "c_avail (kh_cable h) = rts_answers host rej @ (rts_replies host ?ys @ rest)"
    using Cons.prems(4-6) by (simp_all add: x)
  from entry_8386_went [OF Cons.prems(1,2) this(1) Cons.prems(3) this(2,3)] obtain h1 where
      h1: "send_entry_8386 P e h = (answer_outcome rej, h1)" "went h (rts_wire ?m e rej) (length (rts_answers host rej)) h1" by blast
  have sends: "sendable (Some e)" using \<open>carried ?m e\<close> by (simp add: sendable_def carried_def)
  show ?case
  proof (cases "answer_outcome rej")
    case (Some er)
    then show ?thesis using h1 sends by (simp add: x)
  next
    case None
    have m1: "kh_model h1 = ?m" by (rule went_model [OF h1(2)])
    have "length (rts_wires ?m (until_refused xs)) \<le> c_room (kh_cable h1)"
      "c_avail (kh_cable h1) = rts_replies host (until_refused xs) @ rest"
      using Cons.prems(5,6) went_room [OF h1(2)] went_avail [OF h1(2)] None by (simp_all add: x)
    then obtain h2 where h2: "send_entries (send_entry_8386 P) (map (\<lambda>x. Some (fst x)) xs) h1 = (list_outcome xs, h2)"
        "went h1 (rts_wires ?m (until_refused xs)) (length (rts_replies host (until_refused xs))) h2"
      using Cons.IH [of h1] went_prepared [OF h1(2)] Cons.prems(2-4) m1 by auto
    show ?thesis using h1(1) h2(1) sends went_trans [OF h1(2) h2(2)] None by (simp add: x)
  qed
qed

text \<open>A variable that is left to the user, who refuses it.\<close>

lemma announced_var:
  assumes "prepared h" "kh_model h < CALC_TI85" "carried (kh_model h) e" "host \<noteq> 0x80" "21 \<le> c_room (kh_cable h)"
    and "c_avail (kh_cable h) = host_ack host @ skp_answer host rej @ rest"
  obtains h1 h2 h3 where
    "andthen (SEND_VAR P (clamped_size e) (ve_type e) (ve_name e) h) (RECV_ACK_any P) = (None, h1)"
    "wait_user (Suc n) P (ticalcs_update_label P h1) = (None, rej, h2)" "SEND_ACK P h2 = (None, h3)"
    "went h (var_wire (kh_model h) e) (length (host_ack host @ skp_answer host rej)) h3"
proof -
  let ?m = "kh_model h"
  let ?p = "dbus_packet (mid_8283 ?m) 0x06 (Some (std_header (clamped_size e) (ve_type e) (ve_name e) 8))"
  have len: "length ?p = 17" using assms(3) by (simp add: dbus_packet_data std_header_def carried_def)
  obtain a where a: "SEND_VAR P (clamped_size e) (ve_type e) (ve_name e) h = (None, a)" "went h ?p 0 a"
    using header_82_went(1) [OF assms(1,2), of "ve_type e" "ve_name e" "clamped_size e"] assms(3,5) carried_target [OF assms(2)]
    by (auto simp: carried_def)
  obtain h1 where h1: "RECV_ACK_any P a = (None, h1)" "went a [] 4 h1"
    using RECV_ACK_any_went [of a host 0 0] went_facts [OF a(2)] assms(4,6) by (auto simp: host_ack_def)
  let ?l = "ticalcs_update_refresh E (ticalcs_update_label P h1)"
  note w0 = went_trans [OF went_trans [OF a(2) h1(2)] label_went [OF went_prepared [OF h1(2)]]]
  note w1 = went_trans [OF w0 refresh_went [OF went_prepared [OF w0]]]
  obtain h2 where h2: "RECV_SKP P ?l = (None, rej, h2)" "went ?l [] (length (skp_answer host rej)) h2"
    using RECV_SKP_went [of ?l host rej rest] went_prepared [OF w1] went_avail [OF w1] assms(4,6)
    by (auto simp: host_ack_def)
  note w2 = went_trans [OF w1 h2(2)]
  have "target_8x h2 = mid_8283 ?m" using went_model [OF w2] carried_target [of h2] assms(2) by simp
  moreover have "4 \<le> c_room (kh_cable h2)" using went_room [OF w2] assms(5) len by simp
  ultimately obtain h3 where h3: "SEND_ACK P h2 = (None, h3)" "went h2 [mid_8283 ?m, 0x56, 0, 0] 0 h3"
    using short_went(1) [of h2] went_prepared [OF w2] by auto
  have "\<not> up_cancel (kh_updat ?l)" using went_prepared [OF w1] by (simp add: prepared_def ready_def)
  then have "wait_user (Suc n) P (ticalcs_update_label P h1) = (None, rej, h2)" using h2(1) by (simp add: env)
  moreover have "went h (var_wire ?m e) (length (host_ack host @ skp_answer host rej)) h3"
    using went_trans [OF w2 h3(2)] by (simp add: var_wire_def Let_def)
  ultimately show ?thesis using that [OF _ _ h3(1)] a(1) h1(1) by simp
qed

lemma entry_ns_refused:
  assumes "prepared h" "kh_model h < CALC_TI85" "carried (kh_model h) e" "host \<noteq> 0x80" "rej \<notin> {0, 2}"
    and "21 \<le> c_room (kh_cable h)" "c_avail (kh_cable h) = host_ack host @ skp_answer host rej @ rest"
  shows "\<exists>er h'. var_rejection rej = Some er \<and> send_entry_ns (Suc n) P mode e h = (Some er, h')
    \<and> went h (var_wire (kh_model h) e) (length (host_ack host @ skp_answer host rej)) h'"
proof -
  obtain h1 h2 h3 where
      h: "andthen (SEND_VAR P (clamped_size e) (ve_type e) (ve_name e) h) (RECV_ACK_any P) = (None, h1)"
        "wait_user (Suc n) P (ticalcs_update_label P h1) = (None, rej, h2)" "SEND_ACK P h2 = (None, h3)"
      and w: "went h (var_wire (kh_model h) e) (length (host_ack host @ skp_answer host rej)) h3"
    using announced_var [OF assms(1-4,6,7)] by blast
  obtain er where er: "var_rejection rej = Some er" using assms(5) by (cases "var_rejection rej") (auto simp: var_rejection_def split: if_splits)
  have "send_entry_ns (Suc n) P mode e h = (Some er, h3)"
    using h assms(5) er by (simp add: send_entry_ns_def Let_def del: wait_user.simps)
  with er w show ?thesis by blast
qed

lemma refusal_ns_went:
  assumes "prepared h" "kh_model h < CALC_TI85" "carried (kh_model h) e" "host \<noteq> 0x80" "rej \<notin> {0, 2}"
    and "25 \<le> c_room (kh_cable h)"
    and "c_avail (kh_cable h) = host_ack host @ skp_answer host rej @ host_ack host @ rest"
    and "mode AND MODE_SEND_EXEC_ASM = 0" "mode AND MODE_SEND_ONE_VAR \<noteq> 0 \<or> mode AND MODE_SEND_LAST_VAR \<noteq> 0"
  shows "\<exists>h1 h'. send_entries (send_entry_ns (Suc n) P mode) (Some e # es) h = (var_rejection rej, h1) \<and> var_rejection rej \<noteq> None
    \<and> send_var_ns_8x (Suc n) P mode (Some e # es) h = (None, h')
    \<and> went h (var_wire (kh_model h) e @ [mid_8283 (kh_model h), 0x92, 0, 0]) (length (host_ack host @ skp_answer host rej @ host_ack host)) h'"
proof -
  let ?m = "kh_model h"
  have "21 \<le> c_room (kh_cable h)" using assms(6) by simp
  from entry_ns_refused [OF assms(1-5) this assms(7), of n mode] obtain er h1 where
      er: "var_rejection rej = Some er" and h1: "send_entry_ns (Suc n) P mode e h = (Some er, h1)"
      and w1: "went h (var_wire ?m e) (length (host_ack host @ skp_answer host rej)) h1" by blast
  have len: "length (var_wire ?m e) = 21" using assms(3) by (simp add: var_wire_def Let_def dbus_packet_data std_header_def carried_def)
  have "target_8x h1 = mid_8283 ?m" using went_model [OF w1] carried_target [of h1] assms(2) by simp
  moreover have "4 \<le> c_room (kh_cable h1)" using went_room [OF w1] assms(6) len by simp
  ultimately obtain h2 where h2: "SEND_EOT P h1 = (None, h2)" "went h1 [mid_8283 ?m, 0x92, 0, 0] 0 h2"
    using short_went(3) [of h1] went_prepared [OF w1] by auto
  have "c_avail (kh_cable h2) = [host, 0x56, 0, 0] @ rest"
    using went_avail [OF h2(2)] went_avail [OF w1] assms(7) by (simp add: host_ack_def)
  then obtain h3 where h3: "RECV_ACK_clean P h2 = (None, h3)" "went h2 [] 4 h3"
    using RECV_ACK_clean_went [of h2 host rest] went_prepared [OF h2(2)] assms(4) by auto
  have "sendable (Some e)" using assms(3) by (simp add: sendable_def carried_def)
  then have loop: "send_entries (send_entry_ns (Suc n) P mode) (Some e # es) h = (Some er, h1)" using h1 by simp
  have len2: "length (host_ack host @ skp_answer host rej @ host_ack host) = length (host_ack host @ skp_answer host rej) + 0 + 4" by simp
  have w3: "went h (var_wire ?m e @ [mid_8283 ?m, 0x92, 0, 0]) (length (host_ack host @ skp_answer host rej @ host_ack host)) h3"
    unfolding len2 using went_trans [OF went_trans [OF w1 h2(2)] h3(2)] by simp
  have "send_var_ns_8x (Suc n) P mode (Some e # es) h = (None, h3)"
    using loop assms(8,9) h2(1) h3(1) by (simp add: send_var_ns_8x_def del: send_entries.simps)
  then show ?thesis using loop er w3 by (metis option.distinct(1))
qed

text \<open>The same for a caller that knows nothing of this theory.\<close>

lemma prepared_iff: "prepared h \<longleftrightarrow> link_ready ok h \<and> buffer_len h = Some 65542"
  by (auto simp: prepared_def link_ready_iff)

lemma went_transfer: "went h out n h' \<Longrightarrow> transfer sent avail ok h out n h'"
  by (auto simp: went_def dest: moved_transfer)

lemma send_var_8386_transfer:
  assumes "link_ready ok h" "buffer_len h = Some 65542" "kh_model h < CALC_TI85" "host \<noteq> 0x80"
    and "\<forall>x \<in> set xs. carried (kh_model h) (fst x)"
    and "length (rts_wires (kh_model h) (until_refused xs)) \<le> room (cb_dev (kh_cable h))"
    and "avail (cb_dev (kh_cable h)) = rts_replies host (until_refused xs) @ rest"
  shows "\<exists>h'. send_var_8386 P mode (map (\<lambda>x. Some (fst x)) xs) h = (list_outcome xs, h')
    \<and> transfer sent avail ok h (rts_wires (kh_model h) (until_refused xs)) (length (rts_replies host (until_refused xs))) h'"
proof -
  have pre: "prepared h" "length (rts_wires (kh_model h) (until_refused xs)) \<le> c_room (kh_cable h)"
    "c_avail (kh_cable h) = rts_replies host (until_refused xs) @ rest"
    using assms(1,2,6,7) by (simp_all add: prepared_iff c_room_def c_avail_def)
  from entries_8386_went [OF pre(1) assms(3-5) pre(2,3)] show ?thesis
    unfolding send_var_8386_def using went_transfer by blast
qed

lemma refusal_ns_transfer:
  assumes "link_ready ok h" "buffer_len h = Some 65542" "kh_model h < CALC_TI85" "carried (kh_model h) e"
    and "host \<noteq> 0x80" "rej \<notin> {0, 2}" "25 \<le> room (cb_dev (kh_cable h))"
    and "avail (cb_dev (kh_cable h)) = host_ack host @ skp_answer host rej @ host_ack host @ rest"
    and "mode AND MODE_SEND_EXEC_ASM = 0" "mode AND MODE_SEND_ONE_VAR \<noteq> 0 \<or> mode AND MODE_SEND_LAST_VAR \<noteq> 0"
  shows "\<exists>h1 h'. send_entries (send_entry_ns (Suc n) P mode) (Some e # es) h = (var_rejection rej, h1) \<and> var_rejection rej \<noteq> None
    \<and> send_var_8285 (Suc n) P mode (Some e # es) h = (None, h')
    \<and> transfer sent avail ok h (var_wire (kh_model h) e @ [mid_8283 (kh_model h), 0x92, 0, 0])
        (length (host_ack host @ skp_answer host rej @ host_ack host)) h'"
proof -
  have pre: "prepared h" "25 \<le> c_room (kh_cable h)"
    "c_avail (kh_cable h) = host_ack host @ skp_answer host rej @ host_ack host @ rest"
    using assms(1,2,7,8) by (simp_all add: prepared_iff c_room_def c_avail_def)
  from refusal_ns_went [OF pre(1) assms(3-6) pre(2,3) assms(9,10), of n es] show ?thesis
    unfolding send_var_8285_def using went_transfer by blast
qed

end

section \<open>The link in memory\<close>

definition vti_ops :: "vti_sys \<Rightarrow> (vti_dev calc_handle \<Rightarrow> bytes) \<Rightarrow> (u8 \<Rightarrow> u16) \<Rightarrow> vti_dev op_env" where
  "vti_ops S st keys = \<lparr>oe_env = vti_env S, oe_label = id, oe_stack = st, oe_keys83 = keys\<rparr>"

interpretation vti_8x: quiet_ops vti_put vti_get vti_sent vti_avail vti_room vti_ok "vti_env S" "vti_ops S st keys"
  for S st keys
  by unfold_locales (simp_all add: vti_ops_def)

section \<open>Properties\<close>


definition sample_var :: "u8 \<Rightarrow> bytes \<Rightarrow> var_entry" where
  "sample_var ty d = tifiles_ve_create\<lparr>ve_name := [0x41, 0, 0, 0, 0, 0, 0, 0], ve_type := ty,
     ve_size := of_nat (length d), ve_data := Some d\<rparr>"

lemma old_models: "CALC_TI82 < CALC_TI85" "CALC_TI83 < CALC_TI85"
  by code_simp+

lemma sample_var_carried:
  assumes "ty \<noteq> bkup_8283 m" "0 < length d" "length d < 65536"
  shows "carried m (sample_var ty d)"
proof -
  have "take_bit 32 (length d) = length d" using assms(3) by (simp add: take_bit_nat_eq_self_iff)
  then show ?thesis using assms by (simp add: carried_def sample_var_def tifiles_ve_create_def unsigned_of_nat)
qed


text \<open>
  C16: a refused variable is not reported. Sending to a TI-82 for the last or the only variable, when the
  first variable is refused with any code but the one that skips it (by the user, or because the memory
  is full), the loop ends with the error of the refusal and none of the variables behind it is
  announced, but the end of the transmission is sent after it and its result is the result of the operation:
  success. The mode must have one of the two flags and not ask for a program to be started; the
  variable is one that the link can carry.
\<close>

theorem send_var_82_refusal_lost:
  assumes "quiet_ops send recv sent avail room ok E P"
    and "link_ready ok h" "buffer_len h = Some 65542" "kh_model h < CALC_TI85" "carried (kh_model h) e"
    and "host \<noteq> 0x80" "rej \<notin> {0, 2}" "25 \<le> room (cb_dev (kh_cable h))"
    and "avail (cb_dev (kh_cable h)) = host_ack host @ skp_answer host rej @ host_ack host @ rest"
    and "mode AND MODE_SEND_EXEC_ASM = 0" "mode AND MODE_SEND_ONE_VAR \<noteq> 0 \<or> mode AND MODE_SEND_LAST_VAR \<noteq> 0"
  shows "\<exists>h1 h'. send_entries (send_entry_ns (Suc n) P mode) (Some e # es) h = (var_rejection rej, h1) \<and> var_rejection rej \<noteq> None
    \<and> send_var_8285 (Suc n) P mode (Some e # es) h = (None, h')
    \<and> transfer sent avail ok h (var_wire (kh_model h) e @ [mid_8283 (kh_model h), 0x92, 0, 0])
        (length (host_ack host @ skp_answer host rej @ host_ack host)) h'"
  by (rule quiet_ops.refusal_ns_transfer [OF assms])

lemma send_var_82_refusal_lost_witness:
  "\<exists>h'. send_var_8285 3 (vti_ops vti_works (\<lambda>_. []) (\<lambda>_. 0)) 4 [Some (sample_var 0 [1, 2, 3]), Some (sample_var 1 [4])]
        (vti_handle CALC_TI82 (vti_loaded (host_ack 0x82 @ skp_answer 0x82 3 @ host_ack 0x82))) = (None, h')"
proof -
  let ?r = "host_ack 0x82 @ skp_answer 0x82 3 @ host_ack 0x82" let ?h = "vti_handle CALC_TI82 (vti_loaded ?r)"
  have entry: "carried CALC_TI82 (sample_var 0 [1, 2, 3])" by (simp add: sample_var_carried bkup_8283_def)
  have replies: "length ?r \<le> 255" by code_simp
  have pre: "link_ready vti_ok ?h" "buffer_len ?h = Some 65542" "kh_model ?h < CALC_TI85"
    "carried (kh_model ?h) (sample_var 0 [1, 2, 3])" "(0x82 :: u8) \<noteq> 0x80" "(3 :: u8) \<notin> {0, 2}"
    "25 \<le> vti_room (cb_dev (kh_cable ?h))"
    "vti_avail (cb_dev (kh_cable ?h)) = host_ack 0x82 @ skp_answer 0x82 3 @ host_ack 0x82 @ []"
    "(4 :: u32) AND MODE_SEND_EXEC_ASM = 0" "(4 :: u32) AND MODE_SEND_ONE_VAR \<noteq> 0 \<or> (4 :: u32) AND MODE_SEND_LAST_VAR \<noteq> 0"
    using replies entry by (simp_all add: buffer_len_def old_models)
  show ?thesis
    using send_var_82_refusal_lost [OF vti_8x.quiet_ops_axioms [of vti_works "\<lambda>_. []" "\<lambda>_. 0"] pre, of 2 "[Some (sample_var 1 [4])]"]
    by (auto simp: numeral_3_eq_3 numeral_2_eq_2)
qed

end
