(* ===== verification/Calc73.thy ===== *)
theory Calc73
  imports Calc8x Screen
begin

text \<open>
  \<^verbatim>\<open>libticalcs/trunk/src/calc_73.cc\<close>: the operations of the TI-73, TI-83 Plus, TI-84 Plus and TI-84
  Plus C on the link cable. Beside what \<^verbatim>\<open>Calc8x\<close> leaves out, the tree of the directory is two lists,
  of variables and of applications; loops that the calculator ends have fuel. The names of keys and
  the calendar of the C library are parameters.
\<close>

section \<open>The macros\<close>

definition target_73 :: "'d calc_handle \<Rightarrow> u8" where
  "target_73 h = mid_7383p (kh_model h)"

definition SEND_KEY_73 :: "'d op_env \<Rightarrow> u16 \<Rightarrow> 'd op" where
  "SEND_KEY_73 P k h = tiz80_send_KEY (oe_env P) k (target_73 h) h"
definition SEND_SCR_73 :: "'d op_env \<Rightarrow> 'd op" where "SEND_SCR_73 P h = tiz80_send_SCR (oe_env P) (target_73 h) h"
definition SEND_ACK_73 :: "'d op_env \<Rightarrow> 'd op" where "SEND_ACK_73 P h = tiz80_send_ACK (oe_env P) (target_73 h) h"
definition SEND_CTS_73 :: "'d op_env \<Rightarrow> 'd op" where "SEND_CTS_73 P h = tiz80_send_CTS (oe_env P) (target_73 h) h"
definition SEND_EOT_73 :: "'d op_env \<Rightarrow> 'd op" where "SEND_EOT_73 P h = tiz80_send_EOT (oe_env P) (target_73 h) h"

definition SEND_XDP_73 :: "'d op_env \<Rightarrow> u16 \<Rightarrow> bytes option \<Rightarrow> 'd op" where
  "SEND_XDP_73 P len data h = tiz80_send_XDP (oe_env P) len data (target_73 h) h"

definition SEND_REQ_73 :: "'d op_env \<Rightarrow> u16 \<Rightarrow> u8 \<Rightarrow> bytes \<Rightarrow> u8 \<Rightarrow> u8 \<Rightarrow> 'd op" where
  "SEND_REQ_73 P n ty name attr ver h = ti73_send_REQ (oe_env P) n ty (Some name) attr ver (oe_stack P h) h"

definition SEND_REQ2_73 :: "'d op_env \<Rightarrow> u16 \<Rightarrow> u8 \<Rightarrow> bytes \<Rightarrow> 'd op" where
  "SEND_REQ2_73 P n ty name h = ti73_send_REQ2 (oe_env P) n ty (Some name) (oe_stack P h) h"

definition SEND_RTS_73 :: "'d op_env \<Rightarrow> u16 \<Rightarrow> u8 \<Rightarrow> bytes \<Rightarrow> u8 \<Rightarrow> u8 \<Rightarrow> 'd op" where
  "SEND_RTS_73 P n ty name attr ver h = ti73_send_RTS (oe_env P) n ty (Some name) attr ver (oe_stack P h) h"

definition SEND_VAR2_73 :: "'d op_env \<Rightarrow> u32 \<Rightarrow> u8 \<Rightarrow> u8 \<Rightarrow> u16 \<Rightarrow> u16 \<Rightarrow> 'd op" where
  "SEND_VAR2_73 P n ty flag off page h = ti73_send_VAR2 (oe_env P) n ty flag off page (oe_stack P h) h"

definition SEND_DEL_73 :: "'d op_env \<Rightarrow> u16 \<Rightarrow> u8 \<Rightarrow> bytes \<Rightarrow> 'd op" where
  "SEND_DEL_73 P n ty name h = ti73_send_DEL (oe_env P) n ty (Some name) (oe_stack P h) h"

definition RECV_VAR_73 :: "'d op_env \<Rightarrow> var_header \<Rightarrow> 'd calc_handle \<Rightarrow> ret \<times> var_header \<times> 'd calc_handle" where
  "RECV_VAR_73 P out h = ti73_recv_VAR (oe_env P) out h"

definition RECV_XDP_73 :: "'d op_env \<Rightarrow> u16 \<Rightarrow> bytes option \<Rightarrow> 'd calc_handle \<Rightarrow> ret \<times> (u16 \<times> bytes option) \<times> 'd calc_handle" where
  "RECV_XDP_73 P len data h = tiz80_recv_XDP (oe_env P) True len data h"

definition RECV_CTS_73 :: "'d op_env \<Rightarrow> u16 \<Rightarrow> 'd op" where
  "RECV_CTS_73 P n h = tiz80_recv_CTS (oe_env P) n h"

section \<open>Readiness, keys, programs\<close>

definition is_ready_73 :: "'d op_env \<Rightarrow> 'd op" where
  "is_ready_73 P h = andthen (ti73_send_RDY (oe_env P) h) (\<lambda>h.
     (let (r, status, h) = RECV_ACK_status P h
      in (if r = None \<and> MSB status AND 0x01 \<noteq> 0 then Some ERR_NOT_READY else r, h)))"

definition send_key_73 :: "'d op_env \<Rightarrow> u32 \<Rightarrow> 'd op" where
  "send_key_73 P key h =
     andthen (SEND_KEY_73 P (ucast key) h) (\<lambda>h. andthen (RECV_ACK_any P h) (RECV_ACK_clean P))"

fun send_keys_73 :: "'d op_env \<Rightarrow> u32 list \<Rightarrow> 'd op" where
  "send_keys_73 P [] h = (None, h)"
| "send_keys_73 P (k # ks) h = andthen (send_key_73 P k h) (send_keys_73 P ks)"

text \<open>\<open>keys\<close> is the table of \<^verbatim>\<open>keys83p.cc\<close>.\<close>

definition execute_73 :: "'d op_env \<Rightarrow> (u8 \<Rightarrow> u16) \<Rightarrow> var_entry \<Rightarrow> 'd op" where
  "execute_73 P keys ve h =
     (if kh_model h = CALC_TI73 \<and> ve_type ve = 0x06 then (Some ERR_VOID_FUNCTION, h)
      else
        andthen (send_keys_73 P [0x40, 0x09, 0x09] h) (\<lambda>h.
        andthen (if ve_type ve = 0x06 then send_key_73 P 0xFC9C h else (None, h)) (\<lambda>h.
        andthen (send_key_73 P 0xDA h) (\<lambda>h.
        andthen (send_keys_73 P (map (\<lambda>c. ucast (keys c)) (cstring (ve_name ve))) h) (send_key_73 P 0x05)))))"

definition del_var_73 :: "'d op_env \<Rightarrow> var_entry \<Rightarrow> 'd op" where
  "del_var_73 P vr h =
     andthen (SEND_DEL_73 P (ucast (ve_size vr)) (ve_type vr) (ve_name vr) (ticalcs_update_label P h)) (\<lambda>h.
     andthen (RECV_ACK_clean P h) (RECV_ACK_clean P))"

section \<open>Screens\<close>

text \<open>
  The first packet of a TI-84 Plus C is followed by others until the calculator ends the
  transmission. Only the end is looked for: after any other error the length and the contents
  of \<open>buf\<close>, which is \<^verbatim>\<open>buffer2\<close> of the handle, are appended all the same.
\<close>

fun screen_rounds :: "nat \<Rightarrow> 'd op_env \<Rightarrow> bytes \<Rightarrow> u16 \<Rightarrow> u32 \<Rightarrow> bytes \<Rightarrow> 'd calc_handle \<Rightarrow> ret \<times> u32 \<times> bytes \<times> 'd calc_handle" where
  "screen_rounds 0 P buf pk n data h = (Some OUT_OF_FUEL, n, data, h)"
| "screen_rounds (Suc k) P buf pk n data h =
     (let (r, (pk, b), h) = RECV_XDP_73 P pk (Some buf) h; buf = (case b of None \<Rightarrow> buf | Some b \<Rightarrow> b)
      in if r = Some ERR_EOT then (let (r, h) = SEND_ACK_73 P h in (r, n, data, h))
         else if n + ucast pk = 0 then (Some ERR_MALLOC, n, data, h)
         else case memcpy (take (unat n) data @ replicate (unat pk) 0) (unat n) buf 0 (unat pk) of
                None \<Rightarrow> (Some UNDEFINED_BEHAVIOUR, n, data, h)
              | Some data \<Rightarrow>
                  (let n = n + ucast pk; (r, h) = SEND_ACK_73 P h
                   in if r \<noteq> None then (r, n, data, h)
                      else screen_rounds k P buf pk n data
                             (ticalcs_update_pbar (oe_env P) (set_cnt1 (uint n) (set_max1 153600 h)))))"

text \<open>\<open>pk\<close> stands for the length before the first packet, \<open>junk\<close> for memory that is not cleared.\<close>

definition recv_screen_73 ::
    "nat \<Rightarrow> 'd op_env \<Rightarrow> bytes \<Rightarrow> bytes \<Rightarrow> u16 \<Rightarrow> 'd calc_handle
       \<Rightarrow> ret \<times> (screen_coord \<times> calc_pixel_format \<times> bytes) option \<times> 'd calc_handle" where
  "recv_screen_73 fuel P buf junk pk h =
     (let (r, h) = andthen (SEND_SCR_73 P h) (RECV_ACK_clean P)
      in case r of Some e \<Rightarrow> (Some e, None, h)
         | None \<Rightarrow>
     (let (r, (pk, data), h) = RECV_XDP_73 P pk (Some (local_array 65542 junk)) h
      in if r \<noteq> None \<and> r \<noteq> Some ERR_CHECKSUM then (r, None, h)
         else
     (let (r, h) = SEND_ACK_73 P h; data = (case data of None \<Rightarrow> [] | Some d \<Rightarrow> d)
      in case r of Some e \<Rightarrow> (Some e, None, h)
         | None \<Rightarrow>
             if pk = 768 then (None, Some (coord 96 64, CALC_PIXFMT_MONO, take 768 data), h)
             else
               (let (r, n, data, h) = screen_rounds fuel P buf pk (ucast pk) data h
                in case r of Some e \<Rightarrow> (Some e, None, h)
                   | None \<Rightarrow>
                       (let (r, bitmap) = ticalcs_screen_84pcse_rle_uncompress (take (unat n) data) (local_array 153600 junk) 153600
                        in case r of Some e \<Rightarrow> (Some e, None, h)
                           | None \<Rightarrow> (None, Some (coord 320 240, CALC_PIXFMT_RGB_565_LE, bitmap), h))))))"

section \<open>Directory and memory\<close>

definition request_dir_73 :: "'d op_env \<Rightarrow> bytes \<Rightarrow> 'd calc_handle \<Rightarrow> ret \<times> bytes option \<times> 'd calc_handle" where
  "request_dir_73 P buf h =
     (let (r, h) = andthen (SEND_REQ_73 P 0 0x19 (replicate 8 0) 0 0 h) (RECV_ACK_any P)
      in case r of Some e \<Rightarrow> (Some e, Some buf, h)
         | None \<Rightarrow> (let (r, (_, mem), h) = RECV_XDP_73 P 0 (Some buf) h in (r, mem, h)))"

definition mem_free_73 :: "bytes \<Rightarrow> u32" where
  "mem_free_73 mem = push_bit 8 (ucast (mem ! 1)) OR ucast (mem ! 0)"

definition typed_entry :: "u8 \<Rightarrow> var_entry" where
  "typed_entry ty = tifiles_ve_create\<lparr>ve_type := ty\<rparr>"

definition permanent_entries_73 :: "calc_model \<Rightarrow> var_entry list" where
  "permanent_entries_73 m = map typed_entry ([0x0F] @ (if m \<noteq> CALC_TI73 then [0x10] else []) @ [0x11])"

definition take_header_73 :: "var_header \<Rightarrow> var_entry \<Rightarrow> var_entry" where
  "take_header_73 v ve = (take_header v ve)\<lparr>ve_attr := vh_attr v, ve_version := vh_version v\<rparr>"

text \<open>An application is announced with the number of its pages instead of its size.\<close>

fun dir_entries_73 ::
    "nat \<Rightarrow> 'd op_env \<Rightarrow> var_entry list \<Rightarrow> var_entry list \<Rightarrow> 'd calc_handle \<Rightarrow> ret \<times> (var_entry list \<times> var_entry list) \<times> 'd calc_handle" where
  "dir_entries_73 0 P vars apps h = (Some OUT_OF_FUEL, (vars, apps), h)"
| "dir_entries_73 (Suc n) P vars apps h =
     (let (r, v, h) = RECV_VAR_73 P (header_of tifiles_ve_create) h; ve = take_header_73 v tifiles_ve_create;
          (r2, h) = SEND_ACK_73 P h
      in if r \<noteq> None then (if r = Some ERR_EOT then None else r, (vars, apps), h)
         else if r2 \<noteq> None then (r2, (vars, apps), h)
         else if ve_type ve = 0x24
         then dir_entries_73 n P vars (apps @ [ve\<lparr>ve_size := (ve_size ve AND 0xFF) * 0x4000\<rparr>]) (ticalcs_update_label P h)
         else dir_entries_73 n P (vars @ [ve]) apps (ticalcs_update_label P h))"

definition get_dirlist_73 ::
    "nat \<Rightarrow> 'd op_env \<Rightarrow> bytes \<Rightarrow> 'd calc_handle \<Rightarrow> ret \<times> (u32 \<times> var_entry list \<times> var_entry list) option \<times> 'd calc_handle" where
  "get_dirlist_73 fuel P buf h =
     (let (r, mem, h) = request_dir_73 P buf h; (r, h) = andthen (r, h) (SEND_ACK_73 P)
      in case r of Some e \<Rightarrow> (Some e, None, h)
         | None \<Rightarrow> (let (r, t, h) = dir_entries_73 fuel P (permanent_entries_73 (kh_model h)) [] h
                    in (r, map_option (\<lambda>m. (mem_free_73 m, t)) mem, h)))"

definition get_memfree_73 :: "'d op_env \<Rightarrow> bytes \<Rightarrow> 'd calc_handle \<Rightarrow> ret \<times> u32 \<times> u32 \<times> 'd calc_handle" where
  "get_memfree_73 P buf h =
     (let (r, mem, h) = request_dir_73 P buf h; (r, h) = andthen (r, h) (SEND_EOT_73 P)
      in (r, if r = None then (case mem of None \<Rightarrow> -1 | Some m \<Rightarrow> mem_free_73 m) else -1, -1, h))"

section \<open>Variables\<close>

definition rts_answer_73 :: "'d op_env \<Rightarrow> 'd op \<Rightarrow> 'd calc_handle \<Rightarrow> ret \<times> u8 \<times> 'd calc_handle" where
  "rts_answer_73 P send h =
     (let (r, h) = andthen (send h) (RECV_ACK_any P)
      in case r of Some e \<Rightarrow> (Some e, 0, h)
         | None \<Rightarrow> (let (r, rej, h) = RECV_SKP P h; (r, h) = andthen (r, h) (SEND_ACK_73 P) in (r, rej, h)))"

definition rejection_73 :: "u8 \<Rightarrow> ret" where
  "rejection_73 rej =
     (if rej = 1 then Some ERR_ABORT else if rej = 3 then Some ERR_OUT_OF_MEMORY
      else if rej = 4 then Some ERR_VAR_VERSION else if rej = 0 then None else Some ERR_VAR_REJECTED)"

definition send_entry_73 :: "'d op_env \<Rightarrow> var_entry \<Rightarrow> 'd op" where
  "send_entry_73 P e h =
     (let (r, rej, h) =
            rts_answer_73 P (SEND_RTS_73 P (clamped_size e) (ve_type e) (ve_name e) (ve_attr e) (ve_version e)) h
      in case r of Some er \<Rightarrow> (Some er, h)
         | None \<Rightarrow>
             if rej = 2 then (None, h)
             else (case rejection_73 rej of Some er \<Rightarrow> (Some er, h)
                   | None \<Rightarrow>
                       andthen (SEND_XDP_73 P (clamped_size e) (ve_data e) (ticalcs_update_label P h)) (\<lambda>h.
                       andthen (RECV_ACK_any P h) (\<lambda>h.
                       andthen (SEND_EOT_73 P h) (\<lambda>h. (None, ticalcs_update_pbar (oe_env P) h))))))"

definition send_var_73 :: "'d op_env \<Rightarrow> var_entry option list \<Rightarrow> 'd op" where
  "send_var_73 P es h = send_entries (send_entry_73 P) es h"

definition header73_of :: "var_entry \<Rightarrow> var_header" where
  "header73_of ve = (header_of ve)\<lparr>vh_attr := ve_attr ve, vh_version := ve_version ve\<rparr>"

definition accept_73 :: "'d op_env \<Rightarrow> 'd op" where
  "accept_73 P h = andthen (SEND_ACK_73 P h) (\<lambda>h. andthen (SEND_CTS_73 P h) (RECV_ACK_clean P))"

text \<open>The model of the contents, for a picture decided by its version.\<close>

definition content_model :: "calc_model \<Rightarrow> var_entry \<Rightarrow> calc_model" where
  "content_model m ve =
     (if m \<noteq> CALC_TI73 \<and> ve_type ve = 0x07 then (if 0xA \<le> ve_version ve then CALC_TI84PC else CALC_TI83P) else m)"

definition recv_var_73 :: "'d op_env \<Rightarrow> var_entry \<Rightarrow> 'd calc_handle \<Rightarrow> ret \<times> (calc_model \<times> var_entry) \<times> 'd calc_handle" where
  "recv_var_73 P vr h =
     (let m = kh_model h;
          (r, h) = andthen (SEND_REQ_73 P (ucast (ve_size vr)) (ve_type vr) (ve_name vr) (ve_attr vr) (ve_version vr)
                              (ticalcs_update_label P h)) (RECV_ACK_any P)
      in case r of Some e \<Rightarrow> (Some e, (m, vr), h)
         | None \<Rightarrow>
     (let (r, v, h) = RECV_VAR_73 P (header73_of vr) h
      in case r of Some e \<Rightarrow> (Some e, (m, (take_header_73 v vr)\<lparr>ve_size := ve_size vr\<rparr>), h)
         | None \<Rightarrow>
     (let ve = take_header_73 v vr; (r, h) = accept_73 P h
      in case r of Some e \<Rightarrow> (Some e, (m, ve), h)
         | None \<Rightarrow>
     (let (r, (n, d), h) = RECV_XDP_73 P (ucast (ve_size ve)) (Some (tifiles_ve_alloc_data (unat (ve_size ve)))) h
      in case r of Some e \<Rightarrow> (Some e, (m, ve\<lparr>ve_data := d\<rparr>), h)
         | None \<Rightarrow>
             (let ve = ve\<lparr>ve_data := d, ve_size := ucast n\<rparr>; (r, h) = SEND_ACK_73 P h in (r, (content_model m ve, ve), h))))))"

section \<open>Backups\<close>

definition backup_name_73 :: "backup_content \<Rightarrow> bytes" where
  "backup_name_73 c =
     [LSB (bc_length2 c), MSB (bc_length2 c), LSB (bc_length3 c), MSB (bc_length3 c),
      LSB (bc_mem_address c), MSB (bc_mem_address c), 0, 0, 0]"

definition send_part_73 :: "'d op_env \<Rightarrow> u16 \<Rightarrow> bytes option \<Rightarrow> 'd op" where
  "send_part_73 P len data h = andthen (SEND_XDP_73 P len data h) (\<lambda>h. andthen (RECV_ACK_any P h) (progressed P))"

definition send_backup_73 :: "'d op_env \<Rightarrow> backup_content \<Rightarrow> 'd op" where
  "send_backup_73 P c h =
     (let (r, rej, h) = rts_answer_73 P (SEND_RTS_73 P (bc_length1 c) 0x13 (backup_name_73 c) 0 (bc_version c)) h
      in case r of Some e \<Rightarrow> (Some e, h)
         | None \<Rightarrow>
             (case (if rej = 2 then Some ERR_ABORT else rejection_73 rej) of Some e \<Rightarrow> (Some e, h)
              | None \<Rightarrow>
                  andthen (progressed P h) (\<lambda>h.
                  andthen (send_part_73 P (bc_length1 c) (bc_part1 c) h) (\<lambda>h.
                  andthen (send_part_73 P (bc_length2 c) (bc_part2 c) h) (\<lambda>h.
                  andthen (send_part_73 P (bc_length3 c) (bc_part3 c) h) (SEND_ACK_73 P))))))"

definition recv_part_73 :: "'d op_env \<Rightarrow> u16 \<Rightarrow> 'd calc_handle \<Rightarrow> ret \<times> (u16 \<times> bytes option) \<times> 'd calc_handle" where
  "recv_part_73 P len h =
     (let (r, x, h) = RECV_XDP_73 P len (Some (tifiles_ve_alloc_data 65536)) h;
          (r, h) = andthen (andthen (r, h) (SEND_ACK_73 P)) (progressed P) in (r, x, h))"

definition recv_backup_73 :: "'d op_env \<Rightarrow> bytes \<Rightarrow> backup_content \<Rightarrow> 'd calc_handle \<Rightarrow> ret \<times> backup_content \<times> 'd calc_handle" where
  "recv_backup_73 P junk c h =
     (let (r, h) = andthen (SEND_REQ_73 P 0 0x13 (replicate 8 0) 0 0 h) (RECV_ACK_clean P)
      in case r of Some e \<Rightarrow> (Some e, c, h)
         | None \<Rightarrow>
     (let (r, v, h) = RECV_VAR_73 P \<lparr>vh_size = bc_length1 c, vh_type = bc_type c, vh_name = (local_array 9 junk)[0 := 0],
                                   vh_attr = 0, vh_version = 0\<rparr> h;
          c = c\<lparr>bc_length1 := vh_size v, bc_type := vh_type v\<rparr>
      in case r of Some e \<Rightarrow> (Some e, c, h)
         | None \<Rightarrow>
     (let c = c\<lparr>bc_length2 := name_word (vh_name v) 0, bc_length3 := name_word (vh_name v) 2,
                bc_mem_address := name_word (vh_name v) 4, bc_version := vh_version v\<rparr>; (r, h) = accept_73 P h
      in case r of Some e \<Rightarrow> (Some e, c, h)
         | None \<Rightarrow>
     (let (_, h) = progressed P h; (r, (n, d), h) = recv_part_73 P (bc_length1 c) h; c = c\<lparr>bc_length1 := n, bc_part1 := d\<rparr>
      in case r of Some e \<Rightarrow> (Some e, c, h)
         | None \<Rightarrow>
     (let (r, (n, d), h) = recv_part_73 P (bc_length2 c) h; c = c\<lparr>bc_length2 := n, bc_part2 := d\<rparr>
      in case r of Some e \<Rightarrow> (Some e, c, h)
         | None \<Rightarrow>
     (let (r, (n, d), h) = recv_part_73 P (bc_length3 c) h; c = c\<lparr>bc_length3 := n, bc_part3 := d\<rparr>
      in case r of Some e \<Rightarrow> (Some e, c, h) | None \<Rightarrow> (None, c\<lparr>bc_part4 := None\<rparr>, h)))))))"

section \<open>The version\<close>

record calc_infos =
  ci_os_version :: string
  ci_boot_version :: string
  ci_battery :: bool
  ci_hw_version :: u16
  ci_model :: calc_model
  ci_language_id :: u8
  ci_sub_lang_id :: u8
  ci_mask :: "64 word"

definition no_infos :: calc_infos where
  "no_infos = \<lparr>ci_os_version = [], ci_boot_version = [], ci_battery = False, ci_hw_version = 0, ci_model = CALC_NONE,
     ci_language_id = 0, ci_sub_lang_id = 0, ci_mask = 0\<rparr>"

text \<open>What \<^verbatim>\<open>%x\<close> and \<^verbatim>\<open>%02x\<close>, \<^verbatim>\<open>%i\<close> and \<^verbatim>\<open>%02i\<close> make of a byte.\<close>

definition hex_small :: "nat \<Rightarrow> char" where
  "hex_small n = (if n < 10 then char_of (48 + n) else char_of (87 + n))"

definition hex_two :: "u8 \<Rightarrow> string" where
  "hex_two b = [hex_small (unat b div 16), hex_small (unat b mod 16)]"

definition hex_one :: "u8 \<Rightarrow> string" where
  "hex_one b = (if b < 16 then [hex_small (unat b)] else hex_two b)"

definition dec_two :: "u8 \<Rightarrow> string" where
  "dec_two b = (if b < 10 then ''0'' else []) @ to_dec (unat b)"

definition version_text :: "calc_model \<Rightarrow> u8 \<Rightarrow> u8 \<Rightarrow> string" where
  "version_text m a b =
     (if m = CALC_TI73 then hex_one a @ ''.'' @ hex_two b else to_dec (unat a) @ ''.'' @ dec_two b)"

definition version_infos :: "calc_model \<Rightarrow> bytes \<Rightarrow> calc_infos" where
  "version_infos m b =
     \<lparr>ci_os_version = version_text m (b ! 0) (b ! 1), ci_boot_version = version_text m (b ! 2) (b ! 3),
      ci_battery = (b ! 4 AND 1 = 0), ci_hw_version = ucast (b ! 5),
      ci_model = (if b ! 5 \<le> 1 then CALC_TI83P else if b ! 5 \<le> 3 then CALC_TI84P else CALC_TI84PC),
      ci_language_id = b ! 6, ci_sub_lang_id = b ! 7, ci_mask = 0x800201B8\<rparr>"

definition get_version_73 :: "'d op_env \<Rightarrow> bytes \<Rightarrow> 'd calc_handle \<Rightarrow> ret \<times> calc_infos option \<times> 'd calc_handle" where
  "get_version_73 P buf h =
     (let (r, h) = andthen (ti73_send_VER (oe_env P) h) (\<lambda>h.
                   andthen (RECV_ACK_clean P h) (\<lambda>h. andthen (SEND_CTS_73 P h) (RECV_ACK_clean P)))
      in case r of Some e \<Rightarrow> (Some e, None, h)
         | None \<Rightarrow>
             (let (r, (n, data), h) = RECV_XDP_73 P 0 (Some buf) h; (r, h) = andthen (r, h) (SEND_ACK_73 P)
              in (r, if r \<noteq> None then None
                     else Some (case data of None \<Rightarrow> no_infos
                                | Some d \<Rightarrow> if 11 \<le> n then version_infos (kh_model h) d else no_infos), h)))"

section \<open>Applications, operating systems, certificates\<close>

text \<open>The linked list of contents is a list.\<close>

record flash_content =
  fl_name :: bytes
  fl_data_type :: u8
  fl_device_type :: u8
  fl_data_length :: u32
  fl_data_part :: "bytes option"
  fl_num_pages :: nat
  fl_pages :: "flash_page list"

definition flash_of_type :: "u8 list \<Rightarrow> flash_content list \<Rightarrow> flash_content option" where
  "flash_of_type tys cs = find (\<lambda>c. fl_data_type c \<in> set tys) cs"

definition block_size_73 :: "u8 \<Rightarrow> nat" where
  "block_size_73 ty = (if ty = 0x23 then 0x100 else 0x80)"

text \<open>A block is taken from the data of the page at the offset \<open>j\<close>, whether or not it is complete.\<close>

definition send_block_73 :: "'d op_env \<Rightarrow> u8 \<Rightarrow> flash_page \<Rightarrow> nat \<Rightarrow> 'd op" where
  "send_block_73 P ty fp j h =
     (let n = block_size_73 ty
      in andthen (SEND_VAR2_73 P (of_nat n) ty (fp_flag fp) (fp_addr fp + of_nat j) (fp_page fp) h) (\<lambda>h.
         andthen (RECV_ACK_clean P h) (\<lambda>h.
         andthen (RECV_CTS_73 P (if kh_model h = CALC_TI73 \<and> ty = 0x24 then 0 else 10) h) (\<lambda>h.
         andthen (SEND_ACK_73 P h) (\<lambda>h.
         andthen (SEND_XDP_73 P (of_nat n) (map_option (drop j) (fp_data fp)) h) (\<lambda>h.
         andthen (RECV_ACK_clean P h) (progressed P)))))))"

fun in_turn :: "('a \<Rightarrow> 'd op) \<Rightarrow> 'a list \<Rightarrow> 'd op" where
  "in_turn f [] h = (None, h)"
| "in_turn f (x # xs) h = andthen (f x h) (in_turn f xs)"

definition block_offsets :: "nat \<Rightarrow> nat \<Rightarrow> nat list" where
  "block_offsets n len = map (\<lambda>i. i * n) [0..<(len + n - 1) div n]"

text \<open>The second page of an operating system gets the address 0x4000.\<close>

definition send_page_73 :: "'d op_env \<Rightarrow> u8 \<Rightarrow> nat \<times> flash_page \<Rightarrow> 'd op" where
  "send_page_73 P ty x h =
     (let (i, fp) = x; fp = (if ty = 0x23 \<and> i = 1 then fp\<lparr>fp_addr := 0x4000\<rparr> else fp)
      in in_turn (send_block_73 P ty fp) (block_offsets (block_size_73 ty) (unat (fp_size fp))) h)"

definition send_flash_73 :: "'d op_env \<Rightarrow> bytes \<Rightarrow> flash_content list \<Rightarrow> 'd op" where
  "send_flash_73 P buf cs h =
     (case flash_of_type [0x23, 0x24] cs of
        None \<Rightarrow> (Some (ERR_OTHER (-1)), h)
      | Some c \<Rightarrow>
          (let ty = fl_data_type c;
               (r, h) = (if kh_model h \<noteq> CALC_TI73 \<and> ty = 0x24
                         then (let (r, infos, h) = get_version_73 P buf h
                               in case infos of None \<Rightarrow> (r, h)
                                  | Some x \<Rightarrow> if ci_battery x then (r, h) else (Some (ERR_OTHER (-1)), h))
                         else (None, h))
           in case r of Some e \<Rightarrow> (Some e, h)
              | None \<Rightarrow>
                  if length (fl_pages c) < fl_num_pages c then (Some UNDEFINED_BEHAVIOUR, h)
                  else andthen (in_turn (send_page_73 P ty) (enumerate 0 (take (fl_num_pages c) (fl_pages c)))
                                  (ticalcs_update_label P h)) (\<lambda>h.
                       andthen (SEND_EOT_73 P h) (RECV_ACK_clean P))))"

text \<open>
  Receiving an application: \<open>fx_buffer\<close> collects the blocks of the page that is received, which is
  stored when a block of another page is announced and once more at the end.
\<close>

record flash_rx =
  fx_pages :: "flash_page list"
  fx_fp :: flash_page
  fx_old_page :: u16
  fx_head :: var2_header
  fx_first :: bool
  fx_offset :: u16
  fx_buffer :: bytes

definition store_page :: "flash_rx \<Rightarrow> flash_rx option" where
  "store_page x = map_option (\<lambda>d.
       x\<lparr>fx_pages := fx_pages x @ [(fx_fp x)\<lparr>fp_addr := v2_offset (fx_head x) AND 0x4000, fp_page := fx_old_page x,
            fp_flag := 0x80, fp_size := fx_offset x, fp_data := Some d\<rparr>]\<rparr>)
     (memcpy (tifiles_fp_alloc_data 16384) 0 (fx_buffer x) 0 (unat (fx_offset x)))"

definition next_page :: "flash_rx \<Rightarrow> flash_rx option" where
  "next_page x = Option.bind (store_page x) (\<lambda>x.
     if 2048 < length (fx_pages x) then None
     else Some (x\<lparr>fx_fp := tifiles_fp_create, fx_offset := 0, fx_old_page := v2_page (fx_head x)\<rparr>))"

definition page_for_block :: "flash_rx \<Rightarrow> flash_rx option" where
  "page_for_block x =
     (let x = (if fx_first x then x\<lparr>fx_old_page := v2_page (fx_head x)\<rparr> else x)
      in if fx_old_page x \<noteq> v2_page (fx_head x) then next_page x else Some x)"

definition recv_block_73 :: "'d op_env \<Rightarrow> flash_rx \<Rightarrow> 'd calc_handle \<Rightarrow> ret \<times> flash_rx \<times> 'd calc_handle" where
  "recv_block_73 P x h =
     (let (r, h) = andthen (SEND_CTS_73 P h) (RECV_ACK_clean P); off = unat (fx_offset x)
      in case r of Some e \<Rightarrow> (Some e, x, h)
         | None \<Rightarrow>
             if length (fx_buffer x) < off then (Some UNDEFINED_BEHAVIOUR, x, h)
             else
               (let (r, (n, d), h) = RECV_XDP_73 P (v2_length (fx_head x)) (Some (drop off (fx_buffer x))) h;
                    x = x\<lparr>fx_buffer := take off (fx_buffer x) @ (case d of None \<Rightarrow> [] | Some d \<Rightarrow> d)\<rparr>;
                    (r, h) = andthen (r, h) (SEND_ACK_73 P)
                in case r of Some e \<Rightarrow> (Some e, x, h)
                   | None \<Rightarrow> (None, x\<lparr>fx_first := False, fx_offset := fx_offset x + n\<rparr>, ticalcs_update_pbar (oe_env P) h)))"

fun recv_blocks_73 :: "nat \<Rightarrow> 'd op_env \<Rightarrow> flash_rx \<Rightarrow> 'd calc_handle \<Rightarrow> ret \<times> flash_rx \<times> 'd calc_handle" where
  "recv_blocks_73 0 P x h = (Some OUT_OF_FUEL, x, h)"
| "recv_blocks_73 (Suc k) P x h =
     (let (r, v, h) = ti73_recv_VAR2 (oe_env P) (fx_head x) h; x = x\<lparr>fx_head := v\<rparr>; (r2, h) = SEND_ACK_73 P h
      in if r \<noteq> None then (if r = Some ERR_EOT then None else r, x, h)
         else if r2 \<noteq> None then (r2, x, h)
         else case page_for_block x of
                None \<Rightarrow> (Some UNDEFINED_BEHAVIOUR, x, h)
              | Some x \<Rightarrow>
                  (let (r, x, h) = recv_block_73 P x h in if r \<noteq> None then (r, x, h) else recv_blocks_73 k P x h))"

text \<open>\<open>junk\<close> is what the automatic variables hold before anything is received.\<close>

definition recv_flash_73 ::
    "nat \<Rightarrow> 'd op_env \<Rightarrow> bytes \<Rightarrow> var2_header \<Rightarrow> var_entry \<Rightarrow> 'd calc_handle \<Rightarrow> ret \<times> flash_content option \<times> 'd calc_handle" where
  "recv_flash_73 fuel P junk junk_head vr h =
     (let c = \<lparr>fl_name = ve_name vr, fl_data_type = ve_type vr, fl_device_type = (if kh_model h = CALC_TI73 then 0x74 else 0x73),
               fl_data_length = 0, fl_data_part = None, fl_num_pages = 2048, fl_pages = [tifiles_fp_create]\<rparr>;
          (r, h) = andthen (SEND_REQ2_73 P 0 0x24 (ve_name vr) (ticalcs_update_label P h)) (RECV_ACK_clean P)
      in case r of Some e \<Rightarrow> (Some e, Some c, h)
         | None \<Rightarrow>
             (let (r, x, h) = recv_blocks_73 fuel P
                    \<lparr>fx_pages = [], fx_fp = tifiles_fp_create, fx_old_page = 0, fx_head = junk_head, fx_first = True,
                     fx_offset = 0, fx_buffer = local_array 16388 junk\<rparr> h
              in case store_page x of
                   None \<Rightarrow> (Some UNDEFINED_BEHAVIOUR, None, h)
                 | Some x \<Rightarrow> (r, Some (c\<lparr>fl_num_pages := length (fx_pages x), fl_pages := fx_pages x\<rparr>), h)))"

text \<open>
  Sending a certificate: one block more than fits into the data is sent. Receiving one: every block
  goes to the start of the data, and the loop ends with the error that the calculator's end of the
  transmission is.
\<close>

definition send_cert_block :: "'d op_env \<Rightarrow> bytes option \<Rightarrow> nat \<Rightarrow> 'd op" where
  "send_cert_block P data i h =
     andthen (SEND_XDP_73 P 0xE8 (case data of None \<Rightarrow> None | Some d \<Rightarrow> Some (drop (0xE8 * i) d)) h) (\<lambda>h.
     andthen (RECV_ACK_clean P h) (\<lambda>h.
     andthen (RECV_CTS_73 P 0xE8 h) (\<lambda>h. andthen (SEND_ACK_73 P h) (progressed P))))"

definition send_cert_73 :: "'d op_env \<Rightarrow> flash_content list \<Rightarrow> 'd op" where
  "send_cert_73 P cs h =
     (case flash_of_type [0x25] cs of
        None \<Rightarrow> (None, h)
      | Some c \<Rightarrow>
          andthen (SEND_VAR2_73 P 0xE8 (fl_data_type c) 0x04 0x4000 0 h) (\<lambda>h.
          andthen (RECV_ACK_clean P h) (\<lambda>h.
          andthen (RECV_CTS_73 P 10 h) (\<lambda>h.
          andthen (SEND_ACK_73 P h) (\<lambda>h.
          andthen (in_turn (send_cert_block P (fl_data_part c)) [0..<Suc (unat (fl_data_length c) div 0xE8)] h)
            (SEND_EOT_73 P))))))"

fun recv_cert_blocks :: "nat \<Rightarrow> 'd op_env \<Rightarrow> u32 \<Rightarrow> bytes option \<Rightarrow> 'd calc_handle \<Rightarrow> ret \<times> (u32 \<times> bytes option) \<times> 'd calc_handle" where
  "recv_cert_blocks 0 P n data h = (Some OUT_OF_FUEL, (n, data), h)"
| "recv_cert_blocks (Suc k) P n data h =
     (let (r, h) = andthen (SEND_CTS_73 P h) (RECV_ACK_clean P)
      in case r of Some e \<Rightarrow> (Some e, (n, data), h)
         | None \<Rightarrow>
             (let (r, (len, data), h) = RECV_XDP_73 P 0 data h; (r, h) = andthen (r, h) (SEND_ACK_73 P)
              in case r of Some e \<Rightarrow> (Some e, (n, data), h)
                 | None \<Rightarrow> recv_cert_blocks k P (n + ucast len) data (ticalcs_update_pbar (oe_env P) h)))"

definition recv_cert_73 :: "nat \<Rightarrow> 'd op_env \<Rightarrow> 'd calc_handle \<Rightarrow> ret \<times> (u32 \<times> bytes option) \<times> 'd calc_handle" where
  "recv_cert_73 fuel P h =
     (let data = Some (tifiles_ve_alloc_data (2 * 1024 * 1024));
          (r, h) = andthen (SEND_REQ2_73 P 0 0x27 (replicate 8 0) (ticalcs_update_label P h)) (RECV_ACK_clean P)
      in case r of Some e \<Rightarrow> (Some e, (0, data), h)
         | None \<Rightarrow>
     (let (r, _, h) = cable_recv (oe_env P) 4 h; (r, h) = andthen (r, h) (SEND_ACK_73 P)
      in case r of Some e \<Rightarrow> (Some e, (0, data), h) | None \<Rightarrow> recv_cert_blocks fuel P 0 data h))"

section \<open>Identifier and clock\<close>

definition id_digits :: "bytes \<Rightarrow> nat \<Rightarrow> bytes \<Rightarrow> bytes option" where
  "id_digits data n ids =
     fold (\<lambda>i acc. Option.bind acc (\<lambda>ids.
             if i < length data then memcpy_at ids (2 * (i - 4)) (map (\<lambda>c. of_char c) (hex_two (data ! i)) @ [0]) else None))
       [4..<n] (Some ids)"

text \<open>The array on the stack has 16 bytes. \<open>ids\<close> is the caller's array.\<close>

definition recv_idlist_73 :: "'d op_env \<Rightarrow> bytes \<Rightarrow> bytes \<Rightarrow> 'd calc_handle \<Rightarrow> ret \<times> bytes \<times> 'd calc_handle" where
  "recv_idlist_73 P junk ids h =
     (let (r, h) = andthen (SEND_REQ_73 P 0 0x26 (replicate 8 0) 0 0 (ticalcs_update_label P h)) (RECV_ACK_any P)
      in case r of Some e \<Rightarrow> (Some e, ids, h)
         | None \<Rightarrow>
     (let (r, v, h) = RECV_VAR_73 P \<lparr>vh_size = 0, vh_type = 0, vh_name = local_array 9 junk, vh_attr = 0, vh_version = 0\<rparr> h;
          (r, h) = andthen (r, h) (accept_73 P)
      in case r of Some e \<Rightarrow> (Some e, ids, h)
         | None \<Rightarrow>
     (let (r, (n, data), h) = RECV_XDP_73 P (vh_size v) (Some (local_array 16 junk)) h; (r, h) = andthen (r, h) (SEND_ACK_73 P)
      in case r of Some e \<Rightarrow> (Some e, ids, h)
         | None \<Rightarrow>
             (case Option.bind data (\<lambda>d. Option.bind (id_digits (d[9 := d ! 10, 10 := d ! 9]) (unat n) ids)
                     (\<lambda>ids. memcpy_at ids 14 [0])) of
                None \<Rightarrow> (Some UNDEFINED_BEHAVIOUR, ids, h) | Some ids \<Rightarrow> (None, ids, h)))))"

record calc_clock =
  ck_year :: u16
  ck_month :: u8
  ck_day :: u8
  ck_hours :: u8
  ck_minutes :: u8
  ck_seconds :: u8
  ck_time_format :: u8
  ck_date_format :: u8

text \<open>
  The name in the requests is written as \<open>"\0x08..."\<close> in C: a null byte, and the letters \<open>x08\<close>.
  \<open>since\<close> is the number of seconds since the first of January 1997 in local time, \<open>at_time\<close> its inverse.
\<close>

definition clock_name :: bytes where
  "clock_name = [0x00, 0x78, 0x30, 0x38] @ replicate 8 0"

definition clock_bytes :: "u32 \<Rightarrow> calc_clock \<Rightarrow> bytes" where
  "clock_bytes t c = [0, 0, MSB (MSW t), LSB (MSW t), MSB (LSW t), LSB (LSW t), ck_date_format c, ck_time_format c, 0xFF]"

definition set_clock_73 :: "'d op_env \<Rightarrow> (calc_clock \<Rightarrow> u32) \<Rightarrow> calc_clock \<Rightarrow> 'd op" where
  "set_clock_73 P since c h =
     andthen (SEND_RTS_73 P 13 0x29 clock_name 0 0 (ticalcs_update_label P h)) (\<lambda>h.
     andthen (RECV_ACK_clean P h) (\<lambda>h.
     andthen (RECV_CTS_73 P 13 h) (\<lambda>h.
     andthen (SEND_ACK_73 P h) (\<lambda>h.
     andthen (SEND_XDP_73 P 9 (Some (clock_bytes (since c) c)) h) (\<lambda>h.
     andthen (RECV_ACK_clean P h) (SEND_EOT_73 P))))))"

definition clock_of_bytes :: "(u32 \<Rightarrow> calc_clock) \<Rightarrow> bytes \<Rightarrow> calc_clock" where
  "clock_of_bytes at_time b =
     (at_time (be32 (b ! 2) (b ! 3) (b ! 4) (b ! 5)))\<lparr>ck_date_format := b ! 6, ck_time_format := b ! 7\<rparr>"

definition get_clock_73 :: "'d op_env \<Rightarrow> (u32 \<Rightarrow> calc_clock) \<Rightarrow> bytes \<Rightarrow> bytes \<Rightarrow> 'd calc_handle \<Rightarrow> ret \<times> calc_clock option \<times> 'd calc_handle" where
  "get_clock_73 P at_time buf junk h =
     (let (r, h) = andthen (SEND_REQ_73 P 0 0x29 clock_name 0 0 (ticalcs_update_label P h)) (RECV_ACK_clean P)
      in case r of Some e \<Rightarrow> (Some e, None, h)
         | None \<Rightarrow>
     (let (r, v, h) = RECV_VAR_73 P \<lparr>vh_size = 0, vh_type = 0, vh_name = local_array 9 junk, vh_attr = 0, vh_version = 0\<rparr> h;
          (r, h) = andthen (r, h) (accept_73 P)
      in case r of Some e \<Rightarrow> (Some e, None, h)
         | None \<Rightarrow>
     (let (r, (n, data), h) = RECV_XDP_73 P (vh_size v) (Some buf) h; (r, h) = andthen (r, h) (SEND_ACK_73 P)
      in (r, if r \<noteq> None then None else map_option (clock_of_bytes at_time) data, h))))"

section \<open>Receiving a certificate on a quiet link\<close>

text \<open>Receiving keeps the size of the buffer of the handle too, in any environment.\<close>

lemma cable_recv_buffer: "cable_recv E n h = (r, bs, h') \<Longrightarrow> buffer_len h' = buffer_len h"
  by (auto simp: cable_recv_def buffer_len_def split: prod.splits)

lemma clear_busy_buffer [simp]: "buffer_len (clear_busy_if_necessary busy h) = buffer_len h"
  by (simp add: clear_busy_if_necessary_def)

lemma set_busy_buffer: "set_busy_if_necessary h = (busy, h') \<Longrightarrow> buffer_len h' = buffer_len h"
  by (auto simp: set_busy_if_necessary_def split: if_splits)

lemma with_busy_val_buffer:
  assumes "\<And>g r x g'. body g = (r, x, g') \<Longrightarrow> buffer_len g' = buffer_len g"
  shows "with_busy_val h body = (r, x, h') \<Longrightarrow> buffer_len h' = buffer_len h"
  using assms by (auto simp: with_busy_val_def Let_def split: prod.splits dest!: set_busy_buffer)

lemma chunk_done_after_buffer: "andthen (r, h) (chunk_done E n k) = (r', h') \<Longrightarrow> buffer_len h' = buffer_len h"
  by (cases r) (auto dest!: chunk_done_buffer)

lemma recv_header_buffer: "dbus_recv_header E hcl h = (r, x, h') \<Longrightarrow> buffer_len h' = buffer_len h"
  unfolding dbus_recv_header_def
  by (erule with_busy_val_buffer [rotated])
    (auto simp: Let_def split: prod.splits option.splits if_splits dest!: fire_buffer cable_recv_buffer)

lemma recv_chunks_buffer: "dbus_recv_chunks E n q i data h = (r, x, h') \<Longrightarrow> buffer_len h' = buffer_len h"
proof (induction q arbitrary: i data h)
  case (Suc q)
  then show ?case
    by (auto simp: Let_def split: prod.splits option.splits dest!: cable_recv_buffer chunk_done_after_buffer)
qed simp

lemma recv_last_buffer: "dbus_recv_last E n m i data h = (r, x, h') \<Longrightarrow> buffer_len h' = buffer_len h"
  by (auto simp: dbus_recv_last_def Let_def split: prod.splits option.splits if_splits
      dest!: cable_recv_buffer chunk_done_after_buffer)

lemma recv_data_buffer: "dbus_recv_data E len data h = (r, x, h') \<Longrightarrow> buffer_len h' = buffer_len h"
  unfolding dbus_recv_data_def
  by (erule with_busy_val_buffer [rotated])
    (auto simp: Let_def split: prod.splits option.splits dest!: fire_buffer recv_chunks_buffer recv_last_buffer)

lemma dbus_recv_buffer:
  assumes "dbus_recv E hcl data h = (r, x, h')"
  shows "buffer_len h' = buffer_len h"
proof -
  obtain busy h0 where 0: "set_busy_if_necessary h = (busy, h0)" by fastforce
  obtain r1 host cmd len h1 where 1: "dbus_recv_header E hcl h0 = (r1, (host, cmd, len), h1)" by (metis prod_cases3)
  have b: "buffer_len h1 = buffer_len h" using set_busy_buffer [OF 0] recv_header_buffer [OF 1] by simp
  show ?thesis
  proof (cases data)
    case None
    then show ?thesis using assms b by (auto simp: dbus_recv_def 0 1 Let_def split: option.splits if_splits)
  next
    case (Some d)
    obtain r2 d2 h2 where 2: "dbus_recv_data E len d h1 = (r2, d2, h2)" by (metis prod_cases3)
    then show ?thesis
      using assms b recv_data_buffer [OF 2] Some
      by (cases r2) (auto simp: dbus_recv_def 0 1 Let_def split: option.splits if_splits)
  qed
qed

text \<open>
  What the two ends say: a request for the certificate, and an invitation for each block; the
  calculator answers with four bytes, with the blocks and with the end of the transmission. Every
  block goes over the start of what is there.
\<close>

definition cert_block_answer :: "u8 \<Rightarrow> bytes \<Rightarrow> bytes" where
  "cert_block_answer host b = host_ack host @ dbus_packet host 0x15 (Some b)"

definition cert_answers :: "u8 \<Rightarrow> bytes \<Rightarrow> bytes list \<Rightarrow> bytes" where
  "cert_answers host hdr bs =
     host_ack host @ hdr @ concat (map (cert_block_answer host) bs) @ host_ack host @ [host, 0x92, 0, 0]"

definition cert_invitations :: "u8 \<Rightarrow> nat \<Rightarrow> bytes" where
  "cert_invitations t k = concat (replicate k [t, 0x09, 0, 0, t, 0x56, 0, 0]) @ [t, 0x09, 0, 0]"

definition cert_wire :: "u8 \<Rightarrow> nat \<Rightarrow> bytes" where
  "cert_wire t k =
     dbus_packet t 0xA2 (Some (std_header 0 0x27 (replicate 8 0) 8)) @ [t, 0x56, 0, 0] @ cert_invitations t k"

definition laid_over :: "bytes list \<Rightarrow> bytes \<Rightarrow> bytes" where
  "laid_over bs d = fold (\<lambda>b d. b @ drop (length b) d) bs d"

lemma laid_over_simps [simp]:
  "laid_over [] d = d" "laid_over (b # bs) d = laid_over bs (b @ drop (length b) d)"
  by (simp_all add: laid_over_def)

lemma cert_invitations_length [simp]: "length (cert_invitations t k) = 8 * k + 4"
  by (simp add: cert_invitations_def length_concat sum_list_replicate)

lemma cert_wire_length: "length (cert_wire t k) = 8 * k + 25"
  by (simp add: cert_wire_def dbus_packet_data)

context quiet_ops
begin

lemma target_73_nz: "target_73 h \<noteq> 0"
  by (simp add: target_73_def mid_7383p_def)

lemma went_target: "went h out n h' \<Longrightarrow> target_73 h' = target_73 h"
  by (simp add: target_73_def went_model)

lemma cable_recv_went:
  "prepared h \<Longrightarrow> n \<le> length (c_avail (kh_cable h)) \<Longrightarrow>
     \<exists>h'. cable_recv E n h = (None, take n (c_avail (kh_cable h)), h') \<and> went h [] n h'"
  using recv_stepped [of h n] by (auto simp: went_def prepared_def stepped_def moved_def buffer_len_def)

lemma short_73_went:
  assumes "prepared h" "4 \<le> c_room (kh_cable h)"
  shows "\<exists>h'. SEND_ACK_73 P h = (None, h') \<and> went h [target_73 h, 0x56, 0, 0] 0 h'"
    and "\<exists>h'. SEND_CTS_73 P h = (None, h') \<and> went h [target_73 h, 0x09, 0, 0] 0 h'"
proof -
  have one: "\<exists>h'. dbus_send E (target_73 h) cmd len None h = (None, h') \<and> went h [target_73 h, cmd, 0, 0] 0 h'" for cmd len
    by (rule dbus_send_went [OF assms(1) refl, where data = None]) (use assms(2) target_73_nz in \<open>simp_all add: dbus_packet_def\<close>)
  show "\<exists>h'. SEND_ACK_73 P h = (None, h') \<and> went h [target_73 h, 0x56, 0, 0] 0 h'"
    "\<exists>h'. SEND_CTS_73 P h = (None, h') \<and> went h [target_73 h, 0x09, 0, 0] 0 h'"
    unfolding SEND_ACK_73_def SEND_CTS_73_def tiz80_send_ACK_def tiz80_send_CTS_def tiz80_send_simple_cmd_def env by (rule one)+
qed

lemma cert_request_went:
  assumes "prepared h" "17 \<le> c_room (kh_cable h)"
  shows "\<exists>h'. SEND_REQ2_73 P 0 0x27 (replicate 8 0) h = (None, h')
      \<and> went h (dbus_packet (target_73 h) 0xA2 (Some (std_header 0 0x27 (replicate 8 0) 8))) 0 h'"
proof -
  obtain b where b: "memcpy (put_header 0 0x27 (local_array 16 (oe_stack P h))) 3 (replicate 8 0) 0 8 = Some b"
    "take 11 b = std_header 0 0x27 (replicate 8 0) 8" "length b = 16"
    using std_header_memcpy [of 8 "replicate 8 0" 0 "0x27" "oe_stack P h"] by auto
  have "length (dbus_packet t c (Some (std_header 0 0x27 (replicate 8 0) 8))) = 17" for t c
    by (simp add: dbus_packet_data)
  then show ?thesis
    using dbus_send_went [of h 11 11 "Some b" "dbus_packet (target_73 h) 0xA2 (Some (std_header 0 0x27 (replicate 8 0) 8))"] assms b
    by (simp add: SEND_REQ2_73_def ti73_send_REQ2_def with_name_def env send_array_def target_73_def)
qed

text \<open>A block goes to the start of the data; the end of the transmission is an error of its own.\<close>

lemma recv_to_caller_went:
  assumes "dbus_recv E (0, 0, len) d g = (None, ((host, cmd, len'), d'), g')" "moved g [] n g'" "prepared g"
  shows "recv_to_caller E len d g = (None, (cmd, len', d'), g') \<and> went g [] n g'"
  using assms dbus_recv_buffer [OF assms(1)] by (auto simp: recv_to_caller_def went_def prepared_def dest: moved_ready)

lemma RECV_XDP_73_went:
  assumes "prepared g" "c_avail (kh_cable g) = dbus_packet host 0x15 (Some b) @ rest" "length b < 65536" "length b \<le> length d"
  shows "\<exists>g'. RECV_XDP_73 P 0 (Some d) g = (None, (of_nat (length b), Some (b @ drop (length b) d)), g')
    \<and> went g [] (length b + 6) g'"
proof -
  let ?l = "of_nat (length b) :: u32"
  have len: "be16 (MSB ?l) (LSB ?l) = of_nat (length b)" "unat (of_nat (length b) :: u16) = length b"
    using LSW_of_nat [OF assms(3)] assms(3)
    by (simp_all add: be16_MSB_LSB_wide unat_of_nat take_bit_eq_mod word_unat_eq_iff)
  obtain g' where "dbus_recv E (0, 0, 0) (Some d) g
      = (None, ((host, DBUS_CMD_XDP, of_nat (length b)), Some (b @ drop (length b) d)), g')" "moved g [] (length b + 6) g'"
    using dbus_recv_data_cmd_quiet [of g host DBUS_CMD_XDP "LSB ?l" "MSB ?l" b
        "LSB (tifiles_checksum b)" "MSB (tifiles_checksum b)" rest d "(0, 0, 0)"] assms len
    by (auto simp: dbus_packet_data be16_MSB_LSB prepared_def dbus_data_cmds_def)
  from recv_to_caller_went [OF this assms(1)] show ?thesis
    by (auto simp: RECV_XDP_73_def tiz80_recv_XDP_def env)
qed

lemma RECV_EOT_73_went:
  assumes "prepared g" "c_avail (kh_cable g) = [host, 0x92, 0, 0] @ rest" "host \<noteq> 0x80"
  shows "\<exists>g'. RECV_XDP_73 P 0 d g = (Some ERR_EOT, (0, d), g') \<and> went g [] 4 g'"
proof -
  obtain g' where "dbus_recv E (0, 0, 0) d g = (None, ((host, DBUS_CMD_EOT, 0), d), g')" "moved g [] 4 g'"
    using dbus_recv_short_cmd_quiet [of g host DBUS_CMD_EOT 0 0 rest "(0, 0, 0)" d] assms
    by (auto simp: dbus_short_cmds_def prepared_def be16_def)
  from recv_to_caller_went [OF this assms(1)] show ?thesis
    by (auto simp: RECV_XDP_73_def tiz80_recv_XDP_def env)
qed

text \<open>An invitation and its acknowledgement.\<close>

lemma invited_went:
  assumes "prepared h" "4 \<le> c_room (kh_cable h)" "c_avail (kh_cable h) = host_ack host @ rest" "host \<noteq> 0x80"
  shows "\<exists>h'. andthen (SEND_CTS_73 P h) (RECV_ACK_clean P) = (None, h') \<and> went h [target_73 h, 0x09, 0, 0] 4 h'"
proof -
  obtain h1 where h1: "SEND_CTS_73 P h = (None, h1)" "went h [target_73 h, 0x09, 0, 0] 0 h1"
    using short_73_went(2) [OF assms(1,2)] by blast
  obtain h2 where h2: "RECV_ACK_clean P h1 = (None, h2)" "went h1 [] 4 h2"
    using RECV_ACK_clean_went [of h1 host rest] went_facts [OF h1(2)] assms(3,4) by (auto simp: host_ack_def)
  show ?thesis using h1(1) h2(1) went_trans [OF h1(2) h2(2)] by simp
qed

text \<open>A round of the loop: a block goes over the start of the data and is acknowledged.\<close>

lemma cert_block_went:
  assumes "prepared h" "host \<noteq> 0x80" "length b < 65536" "length b \<le> length d" "8 \<le> c_room (kh_cable h)"
    and avail: "c_avail (kh_cable h) = host_ack host @ dbus_packet host 0x15 (Some b) @ behind"
  shows "\<exists>h'. (\<forall>k n. recv_cert_blocks (Suc k) P n (Some d) h
        = recv_cert_blocks k P (n + of_nat (length b)) (Some (b @ drop (length b) d)) h')
    \<and> went h [target_73 h, 0x09, 0, 0, target_73 h, 0x56, 0, 0] (length (cert_block_answer host b)) h'
    \<and> c_avail (kh_cable h') = behind"
proof -
  let ?t = "target_73 h" and ?d = "b @ drop (length b) d"
  have len: "length (dbus_packet host 0x15 (Some b)) = length b + 6" by (simp add: dbus_packet_data)
  obtain h1 where h1: "andthen (SEND_CTS_73 P h) (RECV_ACK_clean P) = (None, h1)" "went h [?t, 0x09, 0, 0] 4 h1"
    using invited_went [OF assms(1) _ avail assms(2)] assms(5) by auto
  have av1: "c_avail (kh_cable h1) = dbus_packet host 0x15 (Some b) @ behind" using went_avail [OF h1(2)] avail by (simp add: host_ack_def)
  from RECV_XDP_73_went [OF went_prepared [OF h1(2)] this assms(3,4)] obtain h2 where
      h2: "RECV_XDP_73 P 0 (Some d) h1 = (None, (of_nat (length b), Some ?d), h2)" "went h1 [] (length b + 6) h2" by blast
  note w2 = went_trans [OF h1(2) h2(2)]
  have av2: "c_avail (kh_cable h2) = behind" unfolding went_avail [OF h2(2)] av1 using len by (simp only: drop_append) simp
  have "4 \<le> c_room (kh_cable h2)" using went_room [OF w2] assms(5) by simp
  then obtain h3 where h3: "SEND_ACK_73 P h2 = (None, h3)" "went h2 [?t, 0x56, 0, 0] 0 h3"
    using short_73_went(1) [OF went_prepared [OF w2]] went_target [OF w2] by auto
  let ?h4 = "ticalcs_update_pbar E h3"
  note w4 = went_trans [OF went_trans [OF w2 h3(2)] pbar_went [OF went_prepared [OF h3(2)]]]
  have "(ucast (of_nat (length b) :: u16) :: u32) = of_nat (length b)"
    using assms(3) by (simp add: word_unat_eq_iff unsigned_ucast_eq unat_of_nat take_bit_eq_mod)
  then have "recv_cert_blocks (Suc k) P n (Some d) h = recv_cert_blocks k P (n + of_nat (length b)) (Some ?d) ?h4" for k n
    using h1(1) h2(1) h3(1) by (simp add: env)
  moreover have "went h [?t, 0x09, 0, 0, ?t, 0x56, 0, 0] (length (cert_block_answer host b)) ?h4"
    using w4 len by (simp add: cert_block_answer_def algebra_simps)
  moreover have "c_avail (kh_cable ?h4) = behind"
    using went_avail [OF h3(2)] went_avail [OF pbar_went [OF went_prepared [OF h3(2)]]] av2 by simp
  ultimately show ?thesis by blast
qed

lemma cert_blocks_went:
  assumes "prepared h" "host \<noteq> 0x80" "length bs < fuel" "\<forall>b \<in> set bs. length b < 65536 \<and> length b \<le> length d"
    and "8 * length bs + 4 \<le> c_room (kh_cable h)"
    and "c_avail (kh_cable h) = concat (map (cert_block_answer host) bs) @ host_ack host @ [host, 0x92, 0, 0] @ rest"
  shows "\<exists>h'. recv_cert_blocks fuel P n (Some d) h
      = (Some ERR_EOT, (n + of_nat (length (concat bs)), Some (laid_over bs d)), h')
    \<and> went h (cert_invitations (target_73 h) (length bs)) (length (concat (map (cert_block_answer host) bs)) + 8) h'"
  using assms
proof (induction bs arbitrary: h n d fuel)
  case Nil
  then obtain k where k: "fuel = Suc k" by (metis less_imp_Suc_add)
  obtain h1 where h1: "andthen (SEND_CTS_73 P h) (RECV_ACK_clean P) = (None, h1)" "went h [target_73 h, 0x09, 0, 0] 4 h1"
    using invited_went [of h host "[host, 0x92, 0, 0] @ rest"] Nil.prems by auto
  have "c_avail (kh_cable h1) = [host, 0x92, 0, 0] @ rest" using went_avail [OF h1(2)] Nil.prems(6) by (simp add: host_ack_def)
  from RECV_EOT_73_went [OF went_prepared [OF h1(2)] this Nil.prems(2)] obtain h2 where
      h2: "RECV_XDP_73 P 0 (Some d) h1 = (Some ERR_EOT, (0, Some d), h2)" "went h1 [] 4 h2" by blast
  show ?case using h1(1) h2(1) went_trans [OF h1(2) h2(2)] by (simp add: k cert_invitations_def)
next
  case (Cons b bs)
  obtain k where k: "fuel = Suc k" "length bs < k" using Cons.prems(3) by (cases fuel) auto
  let ?t = "target_73 h" and ?d = "b @ drop (length b) d"
  let ?behind = "concat (map (cert_block_answer host) bs) @ host_ack host @ [host, 0x92, 0, 0] @ rest"
  have "length b < 65536" "length b \<le> length d" "8 \<le> c_room (kh_cable h)"
    "c_avail (kh_cable h) = host_ack host @ dbus_packet host 0x15 (Some b) @ ?behind"
    using Cons.prems(4-6) by (auto simp: cert_block_answer_def [of host b])
  from cert_block_went [OF Cons.prems(1,2) this] obtain h1 where
      h1: "recv_cert_blocks (Suc k) P n (Some d) h = recv_cert_blocks k P (n + of_nat (length b)) (Some ?d) h1"
      "went h [?t, 0x09, 0, 0, ?t, 0x56, 0, 0] (length (cert_block_answer host b)) h1" "c_avail (kh_cable h1) = ?behind"
    by blast
  have "\<forall>x \<in> set bs. length x < 65536 \<and> length x \<le> length ?d" using Cons.prems(4) by auto
  moreover have "8 * length bs + 4 \<le> c_room (kh_cable h1)" using went_room [OF h1(2)] Cons.prems(5) by simp
  ultimately obtain h' where
      h': "recv_cert_blocks k P (n + of_nat (length b)) (Some ?d) h1
        = (Some ERR_EOT, (n + of_nat (length b) + of_nat (length (concat bs)), Some (laid_over bs ?d)), h')"
      "went h1 (cert_invitations (target_73 h1) (length bs)) (length (concat (map (cert_block_answer host) bs)) + 8) h'"
    using Cons.IH [OF went_prepared [OF h1(2)] Cons.prems(2) k(2) _ _ h1(3)] by blast
  have "cert_invitations ?t (length (b # bs)) = [?t, 0x09, 0, 0, ?t, 0x56, 0, 0] @ cert_invitations ?t (length bs)"
    by (simp add: cert_invitations_def)
  then show ?case
    using h1(1) h'(1) went_trans [OF h1(2) h'(2)] went_target [OF h1(2)] k(1) by (simp add: algebra_simps del: recv_cert_blocks.simps)
qed

lemma recv_cert_went:
  assumes "prepared h" "host \<noteq> 0x80" "length hdr = 4" "length bs < fuel" "\<forall>b \<in> set bs. length b < 65536"
    and "length (cert_wire (target_73 h) (length bs)) \<le> c_room (kh_cable h)"
    and "c_avail (kh_cable h) = cert_answers host hdr bs @ rest"
  shows "\<exists>h'. recv_cert_73 fuel P h
      = (Some ERR_EOT, (of_nat (length (concat bs)), Some (laid_over bs (tifiles_ve_alloc_data (2 * 1024 * 1024)))), h')
    \<and> went h (cert_wire (target_73 h) (length bs)) (length (cert_answers host hdr bs)) h'"
proof -
  let ?t = "target_73 h" and ?l = "ticalcs_update_label P h" and ?d = "tifiles_ve_alloc_data (2 * 1024 * 1024)"
  let ?q = "dbus_packet (target_73 h) 0xA2 (Some (std_header 0 0x27 (replicate 8 0) 8))"
  let ?behind = "concat (map (cert_block_answer host) bs) @ host_ack host @ [host, 0x92, 0, 0] @ rest"
  note w0 = label_went [OF assms(1)]
  have room: "8 * length bs + 25 \<le> c_room (kh_cable h)" using assms(6) by (simp add: cert_wire_length)
  have avail: "c_avail (kh_cable h) = host_ack host @ hdr @ ?behind" using assms(7) by (simp add: cert_answers_def)
  obtain h1 where h1: "SEND_REQ2_73 P 0 0x27 (replicate 8 0) ?l = (None, h1)" "went ?l ?q 0 h1"
    using cert_request_went [OF went_prepared [OF w0]] went_target [OF w0] went_room [OF w0] room by auto
  note w1 = went_trans [OF w0 h1(2)]
  obtain h2 where h2: "RECV_ACK_clean P h1 = (None, h2)" "went h1 [] 4 h2"
    using RECV_ACK_clean_went [of h1 host "hdr @ ?behind"] went_prepared [OF w1] went_avail [OF w1] avail assms(2)
    by (auto simp: host_ack_def)
  note w2 = went_trans [OF w1 h2(2)]
  have "c_avail (kh_cable h2) = hdr @ ?behind" using went_avail [OF w2] avail by (simp add: host_ack_def)
  then obtain h3 where h3: "cable_recv E 4 h2 = (None, hdr, h3)" "went h2 [] 4 h3"
    using cable_recv_went [OF went_prepared [OF w2], of 4] assms(3) by auto
  note w3 = went_trans [OF w2 h3(2)]
  have q: "length ?q = 17" by (simp add: dbus_packet_data)
  have "4 \<le> c_room (kh_cable h3)" using went_room [OF w3] room q by simp
  then obtain h4 where h4: "SEND_ACK_73 P h3 = (None, h4)" "went h3 [?t, 0x56, 0, 0] 0 h4"
    using short_73_went(1) [OF went_prepared [OF w3]] went_target [OF w3] by auto
  note w4 = went_trans [OF w3 h4(2)]
  have "length ?d = 2097153" unfolding tifiles_ve_alloc_data_def length_replicate by simp
  then have "\<forall>b \<in> set bs. length b < 65536 \<and> length b \<le> length ?d" using assms(5) by fastforce
  moreover have "8 * length bs + 4 \<le> c_room (kh_cable h4)" using went_room [OF w4] room q by simp
  moreover have "c_avail (kh_cable h4) = ?behind" using went_avail [OF w4] avail assms(3) by (simp add: host_ack_def)
  ultimately obtain h' where
      h': "recv_cert_blocks fuel P 0 (Some ?d) h4 = (Some ERR_EOT, (0 + of_nat (length (concat bs)), Some (laid_over bs ?d)), h')"
      "went h4 (cert_invitations (target_73 h4) (length bs)) (length (concat (map (cert_block_answer host) bs)) + 8) h'"
    using cert_blocks_went [OF went_prepared [OF w4] assms(2,4)] by blast
  have "recv_cert_73 fuel P h = (Some ERR_EOT, (of_nat (length (concat bs)), Some (laid_over bs ?d)), h')"
    using h1(1) h2(1) h3(1) h4(1) h'(1) by (simp add: recv_cert_73_def env)
  moreover have "went h (cert_wire ?t (length bs)) (length (cert_answers host hdr bs)) h'"
    using went_trans [OF w4 h'(2)] went_target [OF w4] assms(3) by (simp add: cert_wire_def cert_answers_def algebra_simps)
  ultimately show ?thesis by blast
qed

lemma recv_cert_transfer:
  assumes "link_ready ok h" "buffer_len h = Some 65542" "host \<noteq> 0x80" "length hdr = 4" "length bs < fuel"
    and "\<forall>b \<in> set bs. length b < 65536"
    and "length (cert_wire (target_73 h) (length bs)) \<le> room (cb_dev (kh_cable h))"
    and "avail (cb_dev (kh_cable h)) = cert_answers host hdr bs @ rest"
  shows "\<exists>h'. recv_cert_73 fuel P h
      = (Some ERR_EOT, (of_nat (length (concat bs)), Some (laid_over bs (tifiles_ve_alloc_data (2 * 1024 * 1024)))), h')
    \<and> transfer sent avail ok h (cert_wire (target_73 h) (length bs)) (length (cert_answers host hdr bs)) h'"
proof -
  have pre: "prepared h" "length (cert_wire (target_73 h) (length bs)) \<le> c_room (kh_cable h)"
    "c_avail (kh_cable h) = cert_answers host hdr bs @ rest"
    using assms(1,2,7,8) by (simp_all add: prepared_iff c_room_def c_avail_def)
  from recv_cert_went [OF pre(1) assms(3-6) pre(2,3)] show ?thesis using went_transfer by blast
qed

end

section \<open>Certificates never arrive\<close>

text \<open>Without a hook the result of a packet is its own, and a packet that is longer than its data is not sent.\<close>

lemma fire_result: "ke_hook E = None \<Longrightarrow> fst (fire E ty r d h) = r"
  by (simp add: fire_def ticalcs_event_send_def ticalcs_event_fill_header_def Let_def)

lemma with_busy_fails: "(\<And>h. fst (body h) \<noteq> None) \<Longrightarrow> fst (with_busy h body) \<noteq> None"
  by (simp add: with_busy_def Let_def case_prod_beta)

lemma andthen_fails: "(\<And>h. fst (k h) \<noteq> None) \<Longrightarrow> fst (andthen x k) \<noteq> None"
  by (cases x; cases "fst x") auto

lemma andthen_fails_first: "fst x \<noteq> None \<Longrightarrow> fst (andthen x k) \<noteq> None"
  by (cases x; cases "fst x") auto

lemma short_data_refused:
  assumes "ke_hook E = None" "length d < unat len"
  shows "fst (dbus_send E t c len (Some d) h) \<noteq> None"
proof -
  have len: "len \<noteq> 0" using assms(2) by auto
  have fill: "dbus_fill_buffer buf t c (unat len) d = None" for buf
    using assms(2) by (simp add: dbus_fill_buffer_def memcpy_from_def Let_def split: option.splits bind_splits)
  have body: "fst (andthen (fire E ty None ev h) (\<lambda>h. andthen (dbus_send_packet E buf t c (unat len) (Some d) h) k)) \<noteq> None"
    for buf ty ev h k
    by (intro andthen_fails andthen_fails_first) (simp add: dbus_send_packet_def fill)
  show ?thesis
  proof (cases "kh_buffer h")
    case (Some buf)
    show ?thesis
      unfolding dbus_send_def Let_def Some option.case if_not_P [OF len] case_prod_beta fire_result [OF assms(1)]
      by (intro with_busy_fails) (simp only: fire_result [OF assms(1)] body not_False_eq_True)
  qed (simp add: dbus_send_def)
qed

lemma in_turn_fails: "\<exists>x\<in>set xs. \<forall>h. fst (f x h) \<noteq> None \<Longrightarrow> fst (in_turn f xs h) \<noteq> None"
proof (induction xs arbitrary: h)
  case (Cons x xs)
  show ?case
  proof (cases "fst (f x h)")
    case None
    then have "\<exists>x\<in>set xs. \<forall>h. fst (f x h) \<noteq> None" using Cons.prems by (metis set_ConsD)
    then show ?thesis unfolding in_turn.simps by (intro andthen_fails Cons.IH)
  next
    case (Some e) then show ?thesis by (cases "f x h") simp
  qed
qed simp

text \<open>
  C18: receiving a certificate ends with an error when all went well. On a working link the request
  is answered, every block (of up to 65535 bytes) is invited, received and acknowledged, whatever
  the number of blocks, and the end of the transmission after the last block comes back as the
  result of the operation, \<open>ERR_EOT\<close>. The length is that of all blocks, but every block was
  stored at the start of the data, over the one before.
\<close>

theorem recv_cert_ends_in_error:
  assumes "quiet_ops send recv sent avail room ok E P"
    and "link_ready ok h" "buffer_len h = Some 65542" "host \<noteq> 0x80" "length hdr = 4" "length bs < fuel"
    and "\<forall>b \<in> set bs. length b < 65536"
    and "length (cert_wire (target_73 h) (length bs)) \<le> room (cb_dev (kh_cable h))"
    and "avail (cb_dev (kh_cable h)) = cert_answers host hdr bs @ rest"
  shows "\<exists>h'. recv_cert_73 fuel P h
      = (Some ERR_EOT, (of_nat (length (concat bs)), Some (laid_over bs (tifiles_ve_alloc_data (2 * 1024 * 1024)))), h')
    \<and> transfer sent avail ok h (cert_wire (target_73 h) (length bs)) (length (cert_answers host hdr bs)) h'"
  by (rule quiet_ops.recv_cert_transfer [OF assms])

lemma recv_cert_ends_in_error_witness:
  "\<exists>h' d. recv_cert_73 3 (vti_ops vti_works (\<lambda>_. []) (\<lambda>_. 0))
        (vti_handle CALC_TI83P (vti_loaded (cert_answers 0x73 [0x73, 6, 0, 0] [[1, 2, 3], [4]]))) = (Some ERR_EOT, (4, Some d), h')
     \<and> take 3 d = [4, 2, 3]"
proof -
  let ?bs = "[[1, 2, 3], [4]] :: bytes list" let ?r = "cert_answers 0x73 [0x73, 6, 0, 0] ?bs"
  let ?h = "vti_handle CALC_TI83P (vti_loaded ?r)"
  have replies: "length ?r \<le> 255" by code_simp
  have "link_ready vti_ok ?h" "buffer_len ?h = Some 65542" "vti_avail (cb_dev (kh_cable ?h)) = ?r @ []"
    "255 \<le> vti_room (cb_dev (kh_cable ?h))"
    using replies by (simp_all add: buffer_len_def)
  then show ?thesis
    using recv_cert_ends_in_error [OF vti_8x.quiet_ops_axioms [of vti_works "\<lambda>_. []" "\<lambda>_. 0"], of ?h "0x73" "[0x73, 6, 0, 0]" ?bs 3 "[]"]
    by (auto simp: cert_wire_length)
qed

text \<open>
  C17: sending a certificate never succeeds without reading behind its data: the loop over the
  blocks goes one block too far, and no whole block is left there. The handle has no event hook, which
  could replace the result; a read behind the data is an error of the model.
\<close>

theorem send_cert_never_succeeds:
  assumes "ke_hook (oe_env P) = None" "flash_of_type [0x25] cs = Some c" "fl_data_part c = Some d" "length d = unat (fl_data_length c)"
  shows "fst (send_cert_73 P cs h) \<noteq> None"
proof -
  let ?n = "unat (fl_data_length c) div 0xE8"
  have "length (drop (0xE8 * ?n) d) < unat (0xE8 :: u16)" using assms(4) by (simp add: modulo_nat_def [symmetric] minus_mult_div_eq_mod)
  then have "fst (send_cert_block P (Some d) ?n h) \<noteq> None" for h
    unfolding send_cert_block_def SEND_XDP_73_def tiz80_send_XDP_def option.case
    by (intro andthen_fails_first short_data_refused assms(1))
  then have "fst (in_turn (send_cert_block P (Some d)) [0..<Suc ?n] h) \<noteq> None" for h
    by (intro in_turn_fails bexI [of _ ?n]) auto
  then show ?thesis
    unfolding send_cert_73_def assms(2,3) option.case by (intro andthen_fails andthen_fails_first)
qed

definition sample_cert73 :: flash_content where
  "sample_cert73 = \<lparr>fl_name = [], fl_data_type = 0x25, fl_device_type = 0x73, fl_data_length = 3, fl_data_part = Some [1, 2, 3],
     fl_num_pages = 0, fl_pages = []\<rparr>"

lemma send_cert_never_succeeds_witness:
  "fst (send_cert_73 (vti_ops vti_works (\<lambda>_. []) (\<lambda>_. 0)) [sample_cert73] (z80_handle CALC_TI83P)) \<noteq> None"
  by (rule send_cert_never_succeeds [where c = sample_cert73 and d = "[1, 2, 3]"])
    (simp_all add: vti_ops_def vti_env_def flash_of_type_def sample_cert73_def)

end
