(* ===== verification/CalcNsp.thy ===== *)
theory CalcNsp
  imports NspCmd Calc8x Screen TiModels
begin

text \<open>
  \<^verbatim>\<open>libticalcs/trunk/src/calc_nsp.cc\<close>: the operations of the NSpire, each of which opens a session
  with a service, exchanges commands of \<^verbatim>\<open>NspCmd\<close> and closes the session; and the reception of an
  operating system, in which the calculator takes the lead. Names are lists of bytes without
  terminator unless they are arrays of a structure. Texts shown and the second progress counter
  are not modelled, the callbacks are.
\<close>

section \<open>Paths\<close>

abbreviation (input) NSP_TNS :: u8 where "NSP_TNS \<equiv> 0"
abbreviation (input) NSP_DIR :: u8 where "NSP_DIR \<equiv> 1"

definition nsp_byte2fext :: "u8 \<Rightarrow> bytes" where
  "nsp_byte2fext ty = (if ty < 2 then [[0x74, 0x6E, 0x73], [0x3F, 0x3F, 0x3F]] ! unat ty else [0x74, 0x6E, 0x3F])"

definition folder_path :: "bytes \<Rightarrow> bytes" where
  "folder_path folder = 0x2F # folder"

definition build_path :: "var_entry \<Rightarrow> bytes" where
  "build_path vr =
     (let ty = ve_type vr; dot = (if ty \<ge> 2 \<or> ty = NSP_DIR then [] else [0x2E]);
          fext = (if ty = NSP_DIR then [] else nsp_byte2fext ty);
          folder = cstring (ve_folder vr); name = cstring (ve_name vr)
      in if folder = [] then [0x2F] @ name @ dot @ fext else [0x2F] @ folder @ [0x2F] @ name @ dot @ fext)"

section \<open>Sessions\<close>

text \<open>Closing a session without hiding an error, with and without a result.\<close>

definition close_session :: "nat \<Rightarrow> 'd nsp_env \<Rightarrow> ret \<times> 'd calc_handle \<Rightarrow> ret \<times> 'd calc_handle" where
  "close_session fuel N rh = (case rh of (r, h) \<Rightarrow>
     (let (c, h) = nsp_session_close fuel N h in (if r = None then c else r, h)))"

definition close_session_val :: "nat \<Rightarrow> 'd nsp_env \<Rightarrow> ret \<times> 'x \<times> 'd calc_handle \<Rightarrow> ret \<times> 'x \<times> 'd calc_handle" where
  "close_session_val fuel N rxh = (case rxh of (r, x, h) \<Rightarrow>
     (let (r, h) = close_session fuel N (r, h) in (r, x, h)))"

definition nsp_nnse_reopen_session :: "nat \<Rightarrow> 'd nsp_env \<Rightarrow> u16 \<Rightarrow> 'd op" where
  "nsp_nnse_reopen_session fuel N sid h =
     nsp_session_open sid (nsp_nnse_reassociate_next fuel N (snd (nsp_session_close fuel N h)))"

definition nsp_nnse_recover_after_failed_session :: "nat \<Rightarrow> 'd nsp_env \<Rightarrow> 'd calc_handle \<Rightarrow> 'd calc_handle" where
  "nsp_nnse_recover_after_failed_session fuel N h =
     (let (nnse, h) = nsp_nnse_enabled N h in if nnse then nsp_nnse_reassociate_next fuel N h else h)"

definition recovered :: "nat \<Rightarrow> 'd nsp_env \<Rightarrow> ret \<times> 'd calc_handle \<Rightarrow> ret \<times> 'd calc_handle" where
  "recovered fuel N rh = (case rh of (r, h) \<Rightarrow>
     (r, if r \<noteq> None then nsp_nnse_recover_after_failed_session fuel N h else h))"

section \<open>Readiness and keys\<close>

definition echo_text :: bytes where
  "echo_text = [0x72, 0x65, 0x61, 0x64, 0x79, 0]"

definition address_again :: "nat \<Rightarrow> 'd nsp_env \<Rightarrow> 'd op" where
  "address_again fuel N h = andthen (nsp_addr_request fuel N h) (nsp_addr_assign fuel N NSP_DEV_ADDR)"

text \<open>Models before the Touchpad may ask for a login, which older systems do not.\<close>

definition await_login :: "nat \<Rightarrow> 'd nsp_env \<Rightarrow> 'd op" where
  "await_login fuel N h =
     (if kh_model h < CALC_NSPIRE_TOUCHPAD then
        (let (old, h) = set_timeout N 40 h; (r, h) = nsp_cmd_r_login fuel N h; h = snd (set_timeout N old h)
         in if r \<noteq> None then address_again fuel N h else (None, snd (nsp_recv_disconnect fuel N h)))
      else (None, h))"

definition is_ready_nsp :: "nat \<Rightarrow> 'd nsp_env \<Rightarrow> 'd op" where
  "is_ready_nsp fuel N h =
     andthen (address_again fuel N h) (\<lambda>h.
     andthen (await_login fuel N h) (\<lambda>h.
     andthen (nsp_session_open NSP_PORT_ECHO h) (\<lambda>h.
     andthen (nsp_cmd_s_echo fuel N (of_nat (length echo_text)) (Some echo_text) h) (\<lambda>h.
       let (r, _, h) = nsp_cmd_r_echo fuel N h in (r, h)))))"

definition send_key_nsp :: "nat \<Rightarrow> 'd nsp_env \<Rightarrow> u32 \<Rightarrow> 'd op" where
  "send_key_nsp fuel N key h = nsp_cmd_s_key fuel N key h"

section \<open>Information on the device\<close>

text \<open>What the sources take from the answer, in their order.\<close>

record nsp_infos =
  ni_product_name :: bytes
  ni_flash_free :: "64 word"
  ni_flash_phys :: "64 word"
  ni_ram_free :: "64 word"
  ni_ram_phys :: "64 word"
  ni_battery :: u8
  ni_clock_speed :: u16
  ni_os_version :: string
  ni_boot_version :: string
  ni_boot2_version :: string
  ni_hw_version :: u16
  ni_run_level :: u8
  ni_lcd_width :: u16
  ni_lcd_height :: u16
  ni_bits_per_pixel :: u16
  ni_device_type :: u16
  ni_product_id :: bytes
  ni_model :: calc_model

text \<open>
  The name of the product. The macro \<^verbatim>\<open>ticalcs_strlcpy\<close> does not put its third parameter in
  parentheses, so that the subtraction in it applies to the second branch of the argument only: of
  a short answer one byte more than it has is copied, and the terminator goes behind that. What
  is behind the answer in memory, and whether it is mapped, is not known.
\<close>

definition strncpy_into :: "bytes \<Rightarrow> bytes \<Rightarrow> nat \<Rightarrow> bytes option" where
  "strncpy_into dst src n =
     (let s = takeWhile (\<lambda>b. b \<noteq> 0) (take n src)
      in if length s < n \<and> length s = length src then None else memcpy_at dst 0 (s @ replicate (n - length s) 0))"

definition store_at :: "nat \<Rightarrow> u8 \<Rightarrow> bytes \<Rightarrow> bytes option" where
  "store_at i b a = (if i < length a then Some (a[i := b]) else None)"

definition store_product_name :: "u32 \<Rightarrow> bytes option \<Rightarrow> bytes \<Rightarrow> bytes option" where
  "store_product_name n data dst =
     (let k = (if n < 64 then unat n + 1 else 64 - 1)
      in Option.bind data (\<lambda>d. Option.bind (strncpy_into dst d k) (store_at k 0)))"

definition be64_at :: "bytes \<Rightarrow> nat \<Rightarrow> 64 word" where
  "be64_at d i = fold (\<lambda>b w. push_bit 8 w OR ucast b) (take 8 (drop i d)) 0"

definition be16_at :: "bytes \<Rightarrow> nat \<Rightarrow> u16" where
  "be16_at d i = be16 (d ! i) (d ! (i + 1))"

definition dec_four :: "nat \<Rightarrow> string" where
  "dec_four n = replicate (4 - length (to_dec n)) CHR ''0'' @ to_dec n"

definition nsp_version_text :: "bytes \<Rightarrow> nat \<Rightarrow> string" where
  "nsp_version_text d i =
     to_dec (unat (d ! i)) @ ''.'' @ to_dec (unat (d ! (i + 1))) @ ''.'' @ dec_four (unat (be16_at d (i + 2)))"

definition product_id_of :: "bytes \<Rightarrow> bytes" where
  "product_id_of d = take 28 (strlcpy_bytes (drop 82 d) 28) @ [0, 0, 0, 0]"

definition nsp_model_of :: "bytes \<Rightarrow> calc_model" where
  "nsp_model_of pid =
     (if pid ! 0 = 0x30 then
        (if pid ! 1 = 0x43 then CALC_NSPIRE_TOUCHPAD_CAS else if pid ! 1 = 0x44 then CALC_NSPIRE_CRADLE
         else if pid ! 1 = 0x45 then CALC_NSPIRE_TOUCHPAD else if pid ! 1 = 0x46 then CALC_NSPIRE_CX_CAS
         else CALC_NSPIRE)
      else if pid ! 0 = 0x31 then
        (if pid ! 1 = 0x30 then CALC_NSPIRE_CX else if pid ! 1 = 0x31 then CALC_NSPIRE_CMC_CAS
         else if pid ! 1 = 0x32 then CALC_NSPIRE_CMC else if pid ! 1 = 0x43 then CALC_NSPIRE_CXII_CAS
         else if pid ! 1 = 0x44 then CALC_NSPIRE_CXII else if pid ! 1 = 0x45 then CALC_NSPIRE_CXIIT
         else CALC_NSPIRE)
      else CALC_NSPIRE)"

definition nsp_version_infos :: "bytes \<Rightarrow> nsp_infos \<Rightarrow> nsp_infos" where
  "nsp_version_infos d infos =
     infos\<lparr>ni_flash_free := be64_at d 0, ni_flash_phys := be64_at d 8, ni_ram_free := be64_at d 16,
       ni_ram_phys := be64_at d 24, ni_battery := (if d ! 32 = 1 then 0 else 1), ni_clock_speed := ucast (d ! 35),
       ni_os_version := nsp_version_text d 36, ni_boot_version := nsp_version_text d 40,
       ni_boot2_version := nsp_version_text d 44, ni_hw_version := be16_at d 50, ni_run_level := d ! 53,
       ni_lcd_width := be16_at d 58, ni_lcd_height := be16_at d 60, ni_bits_per_pixel := ucast (d ! 62),
       ni_device_type := ucast (d ! 64), ni_product_id := product_id_of d, ni_model := nsp_model_of (product_id_of d)\<rparr>"

definition ask_dev_infos :: "nat \<Rightarrow> 'd nsp_env \<Rightarrow> u8 \<Rightarrow> 'd calc_handle \<Rightarrow> ret \<times> (u32 \<times> bytes option) option \<times> 'd calc_handle" where
  "ask_dev_infos fuel N cmd h =
     (let (r, h) = nsp_cmd_s_dev_infos fuel N cmd h
      in case r of Some e \<Rightarrow> (Some e, None, h)
         | None \<Rightarrow> (let (r, x, h) = nsp_cmd_r_dev_infos fuel N h in (r, map_option snd x, h)))"

text \<open>The two questions of a session; the structure of the caller is filled as far as they get.\<close>

definition version_session :: "nat \<Rightarrow> 'd nsp_env \<Rightarrow> nsp_infos \<Rightarrow> 'd calc_handle \<Rightarrow> ret \<times> nsp_infos \<times> 'd calc_handle" where
  "version_session fuel N infos h =
     (let (r, x, h) = ask_dev_infos fuel N 2 h
      in case (r, x) of
           (Some e, _) \<Rightarrow> (Some e, infos, h)
         | (None, None) \<Rightarrow> (Some UNDEFINED_BEHAVIOUR, infos, h)
         | (None, Some (n, d)) \<Rightarrow>
             (case store_product_name n d (ni_product_name infos) of
                None \<Rightarrow> (Some UNDEFINED_BEHAVIOUR, infos, h)
              | Some name \<Rightarrow>
                  (let infos = infos\<lparr>ni_product_name := name\<rparr>; (r, x, h) = ask_dev_infos fuel N 1 h
                   in case (r, x) of
                        (None, Some (n, Some d)) \<Rightarrow>
                          if n < 110 then (Some ERR_INVALID_PACKET, infos, h) else (None, nsp_version_infos d infos, h)
                      | (None, _) \<Rightarrow> (Some ERR_INVALID_PACKET, infos, h)
                      | (Some e, _) \<Rightarrow> (Some e, infos, h))))"

text \<open>On the newer framing the session is tried up to three times; \<open>left\<close> counts the retries that are left.\<close>

fun version_attempts :: "nat \<Rightarrow> nat \<Rightarrow> 'd nsp_env \<Rightarrow> nsp_infos \<Rightarrow> 'd calc_handle \<Rightarrow> ret \<times> nsp_infos \<times> 'd calc_handle" where
  "version_attempts left fuel N infos h =
     (let (r, h) = nsp_session_open NSP_PORT_DEV_INFOS h
      in case r of Some e \<Rightarrow> (Some e, infos, h)
         | None \<Rightarrow>
             (let (r, infos, h) = close_session_val fuel N (version_session fuel N infos h);
                  again = (r \<in> {Some ERR_READ_TIMEOUT, Some ERR_INVALID_PACKET, Some ERR_CHECKSUM});
                  (nnse, h) = (if again then nsp_nnse_enabled N h else (False, h))
              in if again \<and> nnse \<and> 0 < left
                 then version_attempts (left - 1) fuel N infos (nsp_nnse_reassociate_next fuel N h)
                 else (let (r, h) = recovered fuel N (r, h) in (r, infos, h))))"

definition get_version_nsp :: "nat \<Rightarrow> 'd nsp_env \<Rightarrow> nsp_infos \<Rightarrow> 'd calc_handle \<Rightarrow> ret \<times> nsp_infos \<times> 'd calc_handle" where
  "get_version_nsp fuel N infos h = version_attempts 2 fuel N infos h"

section \<open>Memory, identifier\<close>

text \<open>
  An answer that is too short is an error that is noticed before the session is closed; \<open>use\<close> is
  what is made of the data.
\<close>

definition with_dev_infos ::
    "nat \<Rightarrow> 'd nsp_env \<Rightarrow> u32 \<Rightarrow> (bytes \<Rightarrow> 'x) \<Rightarrow> 'x \<Rightarrow> 'd calc_handle \<Rightarrow> ret \<times> 'x option \<times> 'd calc_handle" where
  "with_dev_infos fuel N least f short h =
     (let (r, h) = nsp_session_open NSP_PORT_DEV_INFOS h
      in case r of Some e \<Rightarrow> (Some e, None, h)
         | None \<Rightarrow> close_session_val fuel N
             (let (r, x, h) = ask_dev_infos fuel N 1 h
              in case (r, x) of
                   (None, Some (n, Some d)) \<Rightarrow> if least \<le> n then (None, Some (f d), h) else (Some ERR_INVALID_PACKET, Some short, h)
                 | (None, _) \<Rightarrow> (Some ERR_INVALID_PACKET, Some short, h)
                 | (Some e, _) \<Rightarrow> (Some e, None, h)))"

text \<open>The free RAM, the free flash.\<close>

definition get_memfree_nsp :: "nat \<Rightarrow> 'd nsp_env \<Rightarrow> 'd calc_handle \<Rightarrow> ret \<times> (u32 \<times> u32) option \<times> 'd calc_handle" where
  "get_memfree_nsp fuel N h = with_dev_infos fuel N 24 (\<lambda>d. (be32_at d 20, be32_at d 4)) (0, 0) h"

definition recv_idlist_nsp :: "nat \<Rightarrow> 'd nsp_env \<Rightarrow> 'd calc_handle \<Rightarrow> ret \<times> bytes option \<times> 'd calc_handle" where
  "recv_idlist_nsp fuel N h = with_dev_infos fuel N 110 (\<lambda>d. strlcpy_bytes (drop 82 d) 28) [0] h"

definition dump_rom_1_nsp :: "'d op" where "dump_rom_1_nsp h = (None, h)"

definition dump_rom_2_nsp :: "'d op" where "dump_rom_2_nsp h = (Some ERR_UNSUPPORTED, h)"

section \<open>Screens\<close>

text \<open>The picture, of which \<open>junk\<close> was in memory before.\<close>

definition decode_screen ::
    "calc_pixel_format \<Rightarrow> u16 \<Rightarrow> u16 \<Rightarrow> u16 \<Rightarrow> u32 \<times> bytes option \<Rightarrow> bytes \<Rightarrow> ret \<times> bytes option" where
  "decode_screen fmt w ht bpp x junk =
     (let n = unat w * unat ht * unat bpp div 8
      in if n = 0 then (Some ERR_MALLOC, None)
         else case x of (sz, data) \<Rightarrow>
           (let (r, dst) = ticalcs_screen_nspire_rle_uncompress fmt (case data of None \<Rightarrow> [] | Some d \<Rightarrow> d) sz
                             (local_array n junk) (of_nat n)
            in (r, if r = None then Some dst else None)))"

text \<open>The first answer has the sizes of the picture and of what follows, whether or not it is long enough.\<close>

definition screen_exchange ::
    "nat \<Rightarrow> 'd op_env \<Rightarrow> 'd nsp_env \<Rightarrow> calc_pixel_format \<Rightarrow> u16 \<Rightarrow> bytes \<Rightarrow> 'd calc_handle
       \<Rightarrow> ret \<times> (screen_coord \<times> bytes) option \<times> 'd calc_handle" where
  "screen_exchange fuel P N fmt bpp junk h =
     (let (r, h) = nsp_cmd_s_screen_rle fuel N 0 h
      in case r of Some e \<Rightarrow> (Some e, None, h)
         | None \<Rightarrow>
     (let (r, x, h) = nsp_cmd_r_screen_rle fuel N 0 h
      in case (r, x) of
           (Some e, _) \<Rightarrow> (Some e, None, h)
         | (None, Some (_, _, Some d)) \<Rightarrow>
             if length d < 12 then (Some UNDEFINED_BEHAVIOUR, None, h)
             else
               (let w = be16_at d 8; ht = be16_at d 10; n = be32_at d 0
                in if 320 < w \<or> 240 < ht \<or> 2 * unat w * unat ht < unat n then (Some ERR_INVALID_PACKET, None, h)
                   else
                     (let h = ticalcs_update_pbar (ne_calc N) (ticalcs_update_label P (set_max1 (sint n) (set_cnt1 0 h)));
                          (r, x, h) = nsp_cmd_r_screen_rle fuel N n h
                      in case (r, x) of
                           (None, Some (_, y)) \<Rightarrow>
                             (let (r, pic) = decode_screen fmt w ht bpp y junk
                              in (r, map_option (\<lambda>p. (coord (unat w) (unat ht), p)) pic, h))
                         | (r, _) \<Rightarrow> (r, None, h)))
         | (None, _) \<Rightarrow> (Some UNDEFINED_BEHAVIOUR, None, h)))"

fun screen_attempts ::
    "nat \<Rightarrow> nat \<Rightarrow> 'd op_env \<Rightarrow> 'd nsp_env \<Rightarrow> calc_pixel_format \<Rightarrow> u16 \<Rightarrow> bytes \<Rightarrow> 'd calc_handle
       \<Rightarrow> ret \<times> (screen_coord \<times> bytes) option \<times> 'd calc_handle" where
  "screen_attempts left fuel P N fmt bpp junk h =
     (let (r, x, h) = screen_exchange fuel P N fmt bpp junk h;
          (nnse, h) = (if r = Some ERR_READ_TIMEOUT then nsp_nnse_enabled N h else (False, h))
      in if nnse \<and> 0 < left
         then (let (r, h) = nsp_nnse_reopen_session fuel N NSP_PORT_SCREEN_RLE h
               in if r = None then screen_attempts (left - 1) fuel P N fmt bpp junk h
                  else close_session_val fuel N (r, None, h))
         else close_session_val fuel N (r, x, h))"

definition recv_screen_nsp ::
    "nat \<Rightarrow> 'd op_env \<Rightarrow> 'd nsp_env \<Rightarrow> nsp_infos \<Rightarrow> bytes \<Rightarrow> 'd calc_handle
       \<Rightarrow> ret \<times> (screen_coord \<times> bytes) option \<times> 'd calc_handle" where
  "recv_screen_nsp fuel P N infos junk h =
     (let (r, infos, h) = get_version_nsp fuel N infos h; bpp = ni_bits_per_pixel infos
      in if r \<noteq> None then (r, None, h)
         else if bpp \<noteq> 4 \<and> bpp \<noteq> 16 then (Some ERR_UNSUPPORTED, None, h)
         else
           (let (r, h) = nsp_session_open NSP_PORT_SCREEN_RLE h
            in case r of Some e \<Rightarrow> (Some e, None, h)
               | None \<Rightarrow> screen_attempts 2 fuel P N (if bpp = 4 then CALC_PIXFMT_GRAY_4 else CALC_PIXFMT_RGB_565_LE) bpp junk h))"

section \<open>Directories\<close>

text \<open>A node of the tree of the directory; the nodes below the root are a list.\<close>

datatype dir_node = Dir_Node (dn_entry: var_entry) (dn_children: "dir_node list")

text \<open>A document loses its extension, in the array that holds the name.\<close>

definition cut_extension :: "bytes \<Rightarrow> bytes" where
  "cut_extension a =
     (let s = cstring a; ext = takeWhile (\<lambda>b. b \<noteq> 0x2E) (rev s)
      in if ext \<noteq> [] \<and> length ext < length s then a[length s - length ext - 1 := 0] else a)"

definition listed_entry :: "bytes \<Rightarrow> bytes \<Rightarrow> u32 \<Rightarrow> u8 \<Rightarrow> var_entry" where
  "listed_entry folder name n ty =
     tifiles_ve_create\<lparr>ve_folder := strlcpy_bytes (drop 1 folder) 1023, ve_name := strlcpy_bytes (cstring name) 1023,
       ve_type := ty, ve_attr := 0, ve_size := n\<rparr>"

fun enum_rounds ::
    "nat \<Rightarrow> nat \<Rightarrow> 'd nsp_env \<Rightarrow> bytes \<Rightarrow> bytes \<Rightarrow> var_entry list \<Rightarrow> 'd calc_handle \<Rightarrow> ret \<times> var_entry list \<times> 'd calc_handle" where
  "enum_rounds 0 fuel N folder name es h = (Some OUT_OF_FUEL, es, h)"
| "enum_rounds (Suc n) fuel N folder name es h =
     (let (r, h) = nsp_cmd_s_dir_enum_next fuel N h
      in case r of Some e \<Rightarrow> (Some e, es, h)
         | None \<Rightarrow>
     (let (r, x, h) = nsp_cmd_r_dir_enum_next fuel N name h
      in case (r, x) of
           (None, Some (name, sz, ty)) \<Rightarrow>
             (let name = (if ty = NSP_TNS then cut_extension name else name);
                  h = set_cnt1 (up_cnt1 (kh_updat h) + 1) h
              in enum_rounds n fuel N folder name (es @ [listed_entry folder name sz ty]) (ticalcs_update_pbar (ne_calc N) h))
         | (r, _) \<Rightarrow> (if r = Some ERR_EOT then None else r, es, h)))"

text \<open>
  The end of an enumeration that was announced, except after a timeout on the newer framing. \<open>junk\<close>
  is what the array for the names holds at first.
\<close>

definition enum_done :: "nat \<Rightarrow> 'd nsp_env \<Rightarrow> ret \<times> 'd calc_handle \<Rightarrow> ret \<times> 'd calc_handle" where
  "enum_done fuel N rh = (case rh of (r, h) \<Rightarrow>
     (let (nnse, h) = (if r = Some ERR_READ_TIMEOUT then nsp_nnse_enabled N h else (False, h))
      in if nnse then (r, h)
         else (let (c, h) = andthen (nsp_cmd_s_dir_enum_done fuel N h) (nsp_cmd_r_dir_enum_done fuel N)
               in (if r = None then c else r, h))))"

definition enumerate_folder_entries ::
    "nat \<Rightarrow> 'd op_env \<Rightarrow> 'd nsp_env \<Rightarrow> bytes \<Rightarrow> bytes \<Rightarrow> 'd calc_handle \<Rightarrow> ret \<times> var_entry list \<times> 'd calc_handle" where
  "enumerate_folder_entries fuel P N junk folder h =
     (let h = ticalcs_update_pbar (ne_calc N) (ticalcs_update_label P h); (r, h) = nsp_cmd_s_dir_enum_init fuel N folder h
      in case r of Some e \<Rightarrow> (Some e, [], h)
         | None \<Rightarrow>
             (let (r, h) = nsp_cmd_r_dir_enum_init fuel N h;
                  (r, es, h) = (if r = None then enum_rounds fuel fuel N folder (local_array 1024 junk) [] h else (r, [], h));
                  (r, h) = enum_done fuel N (r, h)
              in (r, es, h)))"

text \<open>A retry starts with an empty folder.\<close>

fun nnse_entries ::
    "nat \<Rightarrow> nat \<Rightarrow> 'd op_env \<Rightarrow> 'd nsp_env \<Rightarrow> bytes \<Rightarrow> bytes \<Rightarrow> 'd calc_handle \<Rightarrow> ret \<times> var_entry list \<times> 'd calc_handle" where
  "nnse_entries left fuel P N junk folder h =
     (let (r, h) = nsp_session_open NSP_PORT_FILE_MGMT h;
          (r, es, h) = (if r = None then close_session_val fuel N (enumerate_folder_entries fuel P N junk folder h) else (r, [], h))
      in if r = Some ERR_READ_TIMEOUT \<and> 0 < left
         then nnse_entries (left - 1) fuel P N junk folder (nsp_nnse_reassociate_next fuel N h)
         else (r, es, h))"

definition sub_folder :: "bytes \<Rightarrow> var_entry \<Rightarrow> bytes" where
  "sub_folder folder ve = take 1024 (folder @ (if folder = [0x2F] then [] else [0x2F]) @ cstring (ve_name ve))"

text \<open>The entries of a folder one after the other, the first error ends it; the others have no children then.\<close>

fun each_entry ::
    "(var_entry \<Rightarrow> 'd calc_handle \<Rightarrow> ret \<times> dir_node list \<times> 'd calc_handle) \<Rightarrow> var_entry list \<Rightarrow> 'd calc_handle
       \<Rightarrow> ret \<times> dir_node list \<times> 'd calc_handle" where
  "each_entry f [] h = (None, [], h)"
| "each_entry f (e # es) h =
     (let (r, cs, h) = (if ve_type e = NSP_TNS then (None, [], h) else f e h)
      in if r \<noteq> None then (r, Dir_Node e cs # map (\<lambda>e. Dir_Node e []) es, h)
         else (let (r, ns, h) = each_entry f es h in (r, Dir_Node e cs # ns, h)))"

text \<open>\<open>depth\<close> is fuel for the depth of the tree; \<open>nnse\<close> gives every folder a session of its own.\<close>

fun enumerate_folder ::
    "nat \<Rightarrow> bool \<Rightarrow> nat \<Rightarrow> 'd op_env \<Rightarrow> 'd nsp_env \<Rightarrow> bytes \<Rightarrow> bytes \<Rightarrow> 'd calc_handle \<Rightarrow> ret \<times> dir_node list \<times> 'd calc_handle" where
  "enumerate_folder 0 nnse fuel P N junk folder h = (Some OUT_OF_FUEL, [], h)"
| "enumerate_folder (Suc depth) nnse fuel P N junk folder h =
     (let (r, es, h) = (if nnse then nnse_entries 2 fuel P N junk folder h else enumerate_folder_entries fuel P N junk folder h)
      in if r \<noteq> None then (r, map (\<lambda>e. Dir_Node e []) es, h)
         else each_entry (\<lambda>e. enumerate_folder depth nnse fuel P N junk (sub_folder folder e)) es h)"

definition get_dirlist_nsp ::
    "nat \<Rightarrow> 'd op_env \<Rightarrow> 'd nsp_env \<Rightarrow> bytes \<Rightarrow> 'd calc_handle \<Rightarrow> ret \<times> dir_node list \<times> 'd calc_handle" where
  "get_dirlist_nsp fuel P N junk h =
     (let h = ticalcs_update_pbar (ne_calc N) (ticalcs_update_label P (set_max1 0 (set_cnt1 0 h)));
          (r, h) = andthen (nsp_session_open NSP_PORT_FILE_MGMT h) (\<lambda>h.
            close_session fuel N (andthen (nsp_cmd_s_dir_attributes fuel N [0x2F] h) (\<lambda>h.
              let (r, _, h) = nsp_cmd_r_dir_attributes fuel N h in (r, h))))
      in if r \<noteq> None then (r, [], h)
         else
           (let (nnse, h) = nsp_nnse_enabled N h
            in if nnse then enumerate_folder fuel True fuel P N junk [0x2F] h
               else
                 (let (r, h) = nsp_session_open NSP_PORT_FILE_MGMT h
                  in case r of Some e \<Rightarrow> (Some e, [], h)
                     | None \<Rightarrow> close_session_val fuel N (enumerate_folder fuel False fuel P N junk [0x2F] h))))"

section \<open>Files\<close>

definition start_transfer :: "'d nsp_env \<Rightarrow> u32 \<Rightarrow> 'd calc_handle \<Rightarrow> 'd calc_handle" where
  "start_transfer N n h = ticalcs_update_pbar (ne_calc N) (set_max1 (sint n) (set_cnt1 0 h))"

text \<open>The contents, the answer to them, and the end of the file whatever became of both.\<close>

definition put_contents :: "nat \<Rightarrow> 'd nsp_env \<Rightarrow> u32 \<Rightarrow> bytes option \<Rightarrow> 'd op" where
  "put_contents fuel N n data h =
     (let (r, h) = (case data of None \<Rightarrow> (if n = 0 then nsp_cmd_s_file_contents fuel N n [] h else (Some UNDEFINED_BEHAVIOUR, h))
                    | Some d \<Rightarrow> nsp_cmd_s_file_contents fuel N n d h);
          (r, h) = andthen (r, h) (\<lambda>h. let (r, _, h) = nsp_cmd_r_status fuel N h in (r, h));
          (e, h) = nsp_cmd_s_put_file_eot fuel N h
      in (if r = None then e else r, h))"

definition send_var_nsp :: "nat \<Rightarrow> 'd op_env \<Rightarrow> 'd nsp_env \<Rightarrow> var_entry option list \<Rightarrow> 'd op" where
  "send_var_nsp fuel P N entries h =
     (let h = ticalcs_update_pbar (ne_calc N) (set_max1 0 (set_cnt1 0 h))
      in case entries of
           [] \<Rightarrow> (Some UNDEFINED_BEHAVIOUR, h)
         | None # _ \<Rightarrow> (Some ERR_INVALID_PARAMETER, h)
         | Some e # _ \<Rightarrow>
             if ve_action e = 3 then (None, h)
             else andthen (nsp_session_open NSP_PORT_FILE_MGMT h) (\<lambda>h.
               (let (r, h) = close_session fuel N
                      (andthen (nsp_cmd_s_put_file fuel N (build_path e) (ve_size e) (ticalcs_update_label P h)) (\<lambda>h.
                       andthen (nsp_cmd_r_put_file fuel N h) (\<lambda>h.
                         put_contents fuel N (ve_size e) (ve_data e) (start_transfer N (ve_size e) h))));
                    (nnse, h) = (if r = None then (False, h) else nsp_nnse_enabled N h)
                in (r, if nnse then nsp_nnse_reassociate_next fuel N h else h))))"

text \<open>
  The first part of a reception: size, contents. The second result tells whether the contents were
  begun, the third is the request with the size that was announced.
\<close>

definition get_contents ::
    "nat \<Rightarrow> 'd op_env \<Rightarrow> 'd nsp_env \<Rightarrow> var_entry \<Rightarrow> 'd calc_handle
       \<Rightarrow> ret \<times> (bool \<times> var_entry \<times> bytes option) \<times> 'd calc_handle" where
  "get_contents fuel P N vr h =
     (let (r, h) = nsp_cmd_s_get_file fuel N (build_path vr) (ticalcs_update_label P h)
      in case r of Some e \<Rightarrow> (Some e, (False, vr, None), h)
         | None \<Rightarrow>
     (let (r, n, h) = nsp_cmd_r_get_file fuel N h; vr = (case n of None \<Rightarrow> vr | Some n \<Rightarrow> vr\<lparr>ve_size := n\<rparr>);
          (r, h) = andthen (r, h) (nsp_cmd_s_file_ok fuel N)
      in if r \<noteq> None then (r, (False, vr, None), h)
         else
           (let begun = (ve_size vr \<noteq> 0);
                (r, x, h) = (if begun then nsp_cmd_r_file_contents fuel N (ve_size vr) (start_transfer N (ve_size vr) h)
                             else (None, None, h));
                (r, h) = andthen (r, h) (nsp_cmd_s_status fuel N 0)
            in (r, (begun, vr, Option.bind x snd), h))))"

definition received_content :: "calc_model \<Rightarrow> var_entry \<Rightarrow> bytes option \<Rightarrow> calc_model \<times> var_entry" where
  "received_content m vr data =
     (let own = tifiles_ve_alloc_data (unat (ve_size vr))
      in (m, vr\<lparr>ve_data := Some (case data of None \<Rightarrow> own | Some d \<Rightarrow> take (unat (ve_size vr)) d @ drop (unat (ve_size vr)) own)\<rparr>))"

text \<open>\<open>full\<close> tells whether the content of the caller has entries already.\<close>

fun get_attempts ::
    "nat \<Rightarrow> nat \<Rightarrow> 'd op_env \<Rightarrow> 'd nsp_env \<Rightarrow> bool \<Rightarrow> var_entry \<Rightarrow> 'd calc_handle
       \<Rightarrow> ret \<times> (calc_model \<times> var_entry) option \<times> 'd calc_handle" where
  "get_attempts left fuel P N filled vr h =
     (let (r, (begun, vr, data), h) = get_contents fuel P N vr h;
          got = (if r = None then Some (received_content (kh_model h) vr data) else None);
          (nnse, h) = (if r \<noteq> None \<and> begun then nsp_nnse_enabled N h else (False, h));
          h = (if nnse then snd (nsp_cmd_s_status fuel N 0x10 h) else h);
          (nnse, h) = (if r = Some ERR_READ_TIMEOUT then nsp_nnse_enabled N h else (False, h))
      in if nnse \<and> \<not> filled \<and> \<not> begun \<and> 0 < left
         then (let (r, h) = nsp_nnse_reopen_session fuel N NSP_PORT_FILE_MGMT h
               in if r = None then get_attempts (left - 1) fuel P N filled vr h else (r, None, h))
         else (r, got, h))"

definition recv_var_nsp ::
    "nat \<Rightarrow> 'd op_env \<Rightarrow> 'd nsp_env \<Rightarrow> bool \<Rightarrow> var_entry \<Rightarrow> 'd calc_handle
       \<Rightarrow> ret \<times> (calc_model \<times> var_entry) option \<times> 'd calc_handle" where
  "recv_var_nsp fuel P N filled vr h =
     (let (r, h) = nsp_session_open NSP_PORT_FILE_MGMT h
      in case r of Some e \<Rightarrow> (Some e, None, h)
         | None \<Rightarrow>
     (let (r, got, h) = get_attempts 2 fuel P N filled vr h; (c, h) = nsp_session_close fuel N h;
          h = (if c \<noteq> None then nsp_nnse_recover_after_failed_session fuel N h else h)
      in (r, got, if r \<noteq> None then nsp_nnse_recover_after_failed_session fuel N h else h)))"

section \<open>Files and folders by name\<close>

definition file_session :: "nat \<Rightarrow> 'd op_env \<Rightarrow> 'd nsp_env \<Rightarrow> 'd op \<Rightarrow> 'd op \<Rightarrow> 'd op" where
  "file_session fuel P N ask answer h =
     andthen (nsp_session_open NSP_PORT_FILE_MGMT h) (\<lambda>h.
       recovered fuel N (close_session fuel N (andthen (ask (ticalcs_update_label P h)) answer)))"

definition del_var_nsp :: "nat \<Rightarrow> 'd op_env \<Rightarrow> 'd nsp_env \<Rightarrow> var_entry \<Rightarrow> 'd op" where
  "del_var_nsp fuel P N vr h =
     file_session fuel P N (nsp_cmd_s_del_file fuel N (build_path vr)) (nsp_cmd_r_del_file fuel N) h"

definition new_folder_nsp :: "nat \<Rightarrow> 'd op_env \<Rightarrow> 'd nsp_env \<Rightarrow> var_entry \<Rightarrow> 'd op" where
  "new_folder_nsp fuel P N vr h =
     file_session fuel P N (nsp_cmd_s_new_folder fuel N (folder_path (cstring (ve_folder vr)))) (nsp_cmd_r_new_folder fuel N) h"

definition rename_var_nsp :: "nat \<Rightarrow> 'd op_env \<Rightarrow> 'd nsp_env \<Rightarrow> var_entry \<Rightarrow> var_entry \<Rightarrow> 'd op" where
  "rename_var_nsp fuel P N vr new h =
     file_session fuel P N (nsp_cmd_s_rename_file fuel N (build_path vr) (build_path new)) (nsp_cmd_r_rename_file fuel N) h"

definition del_folder_nsp :: "nat \<Rightarrow> 'd op_env \<Rightarrow> 'd nsp_env \<Rightarrow> var_entry \<Rightarrow> 'd op" where
  "del_folder_nsp fuel P N vr h =
     file_session fuel P N (nsp_cmd_s_del_folder fuel N (folder_path (cstring (ve_folder vr)))) (nsp_cmd_r_del_folder fuel N) h"

section \<open>Sending an operating system\<close>

text \<open>
  The answer to the first piece: one that came while the acknowledgement was waited for, or the next
  packet.
\<close>

definition os_status :: "u8 \<Rightarrow> ret" where
  "os_status status = (if status = 0 then None else nsp_error status)"

definition clear_pending :: "'d calc_handle \<Rightarrow> 'd calc_handle" where
  "clear_pending = upd_nsp (\<lambda>s. s\<lparr>ns_pending_cmd := 0, ns_pending_status := 0, ns_has_pending_status := False\<rparr>)"

definition first_answer :: "nat \<Rightarrow> 'd nsp_env \<Rightarrow> 'd op" where
  "first_answer fuel N h =
     (let s = kh_nsp h
      in if ns_pending_cmd s = NSP_CMD_STATUS \<and> ns_has_pending_status s then (os_status (ns_pending_status s), clear_pending h)
         else if ns_pending_cmd s = NSP_CMD_OS_OK then (None, upd_nsp (\<lambda>s. s\<lparr>ns_pending_cmd := 0\<rparr>) h)
         else
           (let (r, pkt, h) = nsp_recv_data fuel N nsp_vtl_pkt_new h
            in if r \<noteq> None then (r, h)
               else if nv_cmd pkt = NSP_CMD_OS_OK then (None, h)
               else if nv_cmd pkt = NSP_CMD_STATUS
               then (case received_bytes pkt of [] \<Rightarrow> (Some UNDEFINED_BEHAVIOUR, h) | b # _ \<Rightarrow> (os_status b, h))
               else (Some ERR_INVALID_PACKET, h)))"

definition os_pieces :: "nat \<Rightarrow> 'd nsp_env \<Rightarrow> u32 \<Rightarrow> bytes \<Rightarrow> 'd op" where
  "os_pieces fuel N n data h =
     andthen (nsp_cmd_s_os_contents fuel N 253 data h) (\<lambda>h.
     andthen (first_answer fuel N h) (nsp_cmd_s_os_contents fuel N (n - 253) (drop 253 data)))"

text \<open>A late timeout is no error.\<close>

fun os_progress :: "nat \<Rightarrow> nat \<Rightarrow> 'd nsp_env \<Rightarrow> bool \<Rightarrow> 'd op" where
  "os_progress 0 fuel N saw h = (Some OUT_OF_FUEL, h)"
| "os_progress (Suc n) fuel N saw h =
     (let (r, v, h) = nsp_cmd_r_progress fuel N h
      in if r = Some ERR_READ_TIMEOUT \<and> saw then (None, h)
         else case (r, v) of
                (None, Some v) \<Rightarrow>
                  (let h = ticalcs_update_pbar (ne_calc N) h in if v < 100 then os_progress n fuel N True h else (None, h))
              | _ \<Rightarrow> (r, h))"

text \<open>
  A failure of the pieces leaves the session open. A refusal of the installation is forgotten: the
  progress is waited for all the same, and its result is the one that counts.
\<close>

definition send_os_nsp :: "nat \<Rightarrow> 'd nsp_env \<Rightarrow> u32 \<Rightarrow> bytes \<Rightarrow> 'd op" where
  "send_os_nsp fuel N n data h =
     andthen (nsp_session_open NSP_PORT_OS_INSTALL (clear_pending h)) (\<lambda>h.
     andthen (nsp_cmd_s_os_install fuel N n h) (\<lambda>h.
       let (r, h) = nsp_cmd_r_os_install fuel N h;
           (r, h) = (if r = None then os_pieces fuel N n data h else (None, h))
       in if r \<noteq> None then (r, h)
          else
            (let h = ticalcs_update_pbar (ne_calc N) h;
                 (old, h) = set_timeout N (max (ticables_get_timeout (kh_cable h)) 300) h;
                 (r, h) = os_progress fuel fuel N False h
             in close_session fuel N (r, snd (set_timeout N old h)))))"

section \<open>Receiving an operating system\<close>

text \<open>Replies to a raw packet: an acknowledgement, a command with a few bytes.\<close>

definition nsp_send_ack_for_packet :: "nat \<Rightarrow> 'd nsp_env \<Rightarrow> nsp_raw \<Rightarrow> 'd op" where
  "nsp_send_ack_for_packet fuel N packet h =
     send_raw fuel N (store_data [MSB (np_dst_port packet), LSB (np_dst_port packet)]
       ((nsp_init_reply packet)\<lparr>np_data_size := 2, np_src_port := (if np_seq packet = 0 then NSP_PORT_PKT_ACK1 else NSP_PORT_PKT_ACK2)\<rparr>)) h"

definition nsp_send_simple_reply :: "nat \<Rightarrow> 'd nsp_env \<Rightarrow> nsp_raw \<Rightarrow> u16 \<Rightarrow> u16 \<Rightarrow> u8 \<Rightarrow> bytes \<Rightarrow> 'd op" where
  "nsp_send_simple_reply fuel N request src dst cmd payload h =
     send_raw fuel N (store_data (cmd # payload)
       ((nsp_init_reply request)\<lparr>np_data_size := of_nat (length payload) + 1, np_src_port := src, np_dst_port := dst\<rparr>)) h"

definition device_info_blob :: bytes where
  "device_info_blob =
    [0x01, 0x00, 0x00, 0x00, 0x00, 0x06, 0x62, 0xC8, 0x00, 0x00, 0x00, 0x00, 0x00, 0x07, 0x34, 0x00,
     0x00, 0x00, 0x00, 0x00, 0x00, 0x02, 0xA7, 0x9F, 0x74, 0x00, 0x00, 0x00, 0x00, 0x03, 0x39, 0x61,
     0xC0, 0xFF, 0x01, 0x00, 0x84, 0x03, 0x02, 0x07, 0x01, 0x03, 0x00, 0x00, 0x63, 0x03, 0x02, 0x00,
     0x8D, 0x00, 0x00, 0x00, 0x00, 0x00, 0x02, 0x00, 0x00, 0x00, 0x00, 0x01, 0x40, 0x00, 0xF0, 0x10,
     0x01, 0x1F, 0x38, 0x30, 0x30, 0x30, 0x30, 0x30, 0x30, 0x31, 0x30, 0x35, 0x32, 0x31, 0x46, 0x33,
     0x43, 0x30, 0x00, 0x31, 0x30, 0x30, 0x38, 0x30, 0x30, 0x30, 0x30, 0x30, 0x30, 0x31, 0x30, 0x35,
     0x32, 0x31, 0x46, 0x33, 0x43, 0x30, 0x36, 0x34, 0x34, 0x45, 0x30, 0x33, 0x30, 0x43, 0x00]"

definition nsp_send_device_info :: "nat \<Rightarrow> 'd nsp_env \<Rightarrow> nsp_raw \<Rightarrow> 'd op" where
  "nsp_send_device_info fuel N request h =
     nsp_send_simple_reply fuel N request NSP_PORT_DEV_INFOS (np_src_port request) (hd device_info_blob) (tl device_info_blob) h"

definition nsp_send_device_name :: "nat \<Rightarrow> 'd nsp_env \<Rightarrow> nsp_raw \<Rightarrow> 'd op" where
  "nsp_send_device_name fuel N request h =
     nsp_send_simple_reply fuel N request NSP_PORT_DEV_INFOS (np_src_port request) 2
       (map (\<lambda>c. of_char c) ''TI-Nspire(tm) Handheld'' @ [0]) h"

definition nsp_send_supported_fext :: "nat \<Rightarrow> 'd nsp_env \<Rightarrow> nsp_raw \<Rightarrow> 'd op" where
  "nsp_send_supported_fext fuel N request h =
     nsp_send_simple_reply fuel N request NSP_PORT_DEV_INFOS (np_src_port request) 3 [0x74, 0x6E, 0x63, 0] h"

text \<open>\<^verbatim>\<open>nsp_limits.h\<close>\<close>

definition nsp_os_receive_size_valid :: "u32 \<Rightarrow> bool" where
  "nsp_os_receive_size_valid n \<longleftrightarrow> 0 < n \<and> n < 0x8000000"

definition nsp_os_receive_packet_boundary_valid :: "u32 \<Rightarrow> bool \<Rightarrow> bool \<Rightarrow> bool" where
  "nsp_os_receive_packet_boundary_valid remaining short is_nnse \<longleftrightarrow> remaining = 0 \<or> \<not> short \<or> is_nnse"

text \<open>
  What is received: whether an installation has started, whether its first piece was answered, how
  many bytes are missing, how many are there, and the data of the content, as long as was announced.
\<close>

record os_rx =
  or_started :: bool
  or_sent_status :: bool
  or_remaining :: u32
  or_written :: u32
  or_data :: bytes

definition os_announced :: "nat \<Rightarrow> 'd nsp_env \<Rightarrow> nsp_raw \<Rightarrow> os_rx \<Rightarrow> 'd calc_handle \<Rightarrow> ret \<times> os_rx \<times> 'd calc_handle" where
  "os_announced fuel N pkt st h =
     (let n = be32_at (np_data pkt) 1
      in if np_data_size pkt < 5 \<or> \<not> nsp_os_receive_size_valid n then (Some ERR_INVALID_PACKET, st, h)
         else
           (let st = \<lparr>or_started = True, or_sent_status = False, or_remaining = n, or_written = 0, or_data = replicate (unat n) 0\<rparr>;
                (r, h) = nsp_send_simple_reply fuel N pkt NSP_PORT_OS_INSTALL (np_src_port pkt) NSP_CMD_OS_OK [] (start_transfer N n h)
            in (r, st, h)))"

definition store_piece :: "nsp_raw \<Rightarrow> os_rx \<Rightarrow> ret \<times> os_rx" where
  "store_piece pkt st =
     (let k = unat (np_data_size pkt) - 1
      in if k = 0 then (None, st)
         else if unat (or_remaining st) < k then (Some ERR_INVALID_PACKET, st)
         else case memcpy (or_data st) (unat (or_written st)) (np_data pkt) 1 k of
                None \<Rightarrow> (Some UNDEFINED_BEHAVIOUR, st)
              | Some d \<Rightarrow> (None, st\<lparr>or_data := d, or_written := or_written st + of_nat k, or_remaining := or_remaining st - of_nat k\<rparr>))"

definition piece_counted :: "'d nsp_env \<Rightarrow> nsp_raw \<Rightarrow> 'd calc_handle \<Rightarrow> 'd calc_handle" where
  "piece_counted N pkt h =
     (if 1 < np_data_size pkt then ticalcs_update_pbar (ne_calc N) (set_cnt1 (up_cnt1 (kh_updat h) + uint (np_data_size pkt) - 1) h)
      else h)"

text \<open>The first piece is answered with a status, the last one with the progress that ends the transfer.\<close>

definition os_piece ::
    "nat \<Rightarrow> 'd nsp_env \<Rightarrow> bool \<Rightarrow> nsp_raw \<Rightarrow> os_rx \<Rightarrow> 'd calc_handle \<Rightarrow> ret \<times> (bool \<times> os_rx) \<times> 'd calc_handle" where
  "os_piece fuel N is_nnse pkt st h =
     (if \<not> or_started st then (Some ERR_INVALID_PACKET, (False, st), h)
      else
        (let (r, st) = store_piece pkt st
         in if r \<noteq> None then (r, (False, st), h)
            else
              (let h = piece_counted N pkt h; valid = nsp_os_receive_packet_boundary_valid (or_remaining st) (np_data_size pkt < 254) is_nnse
               in if \<not> valid then (Some ERR_INVALID_PACKET, (False, st), h)
                  else
                    (let (r, h) = (if or_sent_status st then (None, h)
                                   else nsp_send_simple_reply fuel N pkt NSP_PORT_OS_INSTALL (np_src_port pkt) NSP_CMD_STATUS [0] h);
                         st = st\<lparr>or_sent_status := True\<rparr>
                     in if r = None \<and> or_remaining st = 0
                        then (let (r, h) = nsp_send_simple_reply fuel N pkt NSP_PORT_OS_INSTALL NSP_PORT_OS_INSTALL 0x06 [0x64] h
                              in (r, (r = None, st), h))
                        else (r, (False, st), h)))))"

definition os_question :: "nat \<Rightarrow> 'd nsp_env \<Rightarrow> nsp_raw \<Rightarrow> 'd op" where
  "os_question fuel N pkt h =
     (let cmd = np_data pkt ! 0
      in if np_data_size pkt < 1 then (None, h)
         else if cmd = 1 then nsp_send_device_info fuel N pkt h
         else if cmd = 2 then nsp_send_device_name fuel N pkt h
         else if cmd = 3 then nsp_send_supported_fext fuel N pkt h
         else if cmd = 4 then nsp_send_simple_reply fuel N pkt NSP_PORT_DEV_INFOS (np_src_port pkt) cmd [] h
         else (None, h))"

text \<open>One packet; the flag tells whether the transfer is complete.\<close>

definition os_packet ::
    "nat \<Rightarrow> 'd nsp_env \<Rightarrow> bool \<Rightarrow> nsp_raw \<Rightarrow> os_rx \<Rightarrow> 'd calc_handle \<Rightarrow> ret \<times> (bool \<times> os_rx) \<times> 'd calc_handle" where
  "os_packet fuel N is_nnse pkt st h =
     (let same = (\<lambda>(r, h). (r, (False, st), h)); dst = np_dst_port pkt
      in if np_ack pkt = 0x0A then (None, (False, st), h)
         else if np_src_port pkt = NSP_PORT_DISCONNECT then same (nsp_send_ack_for_packet fuel N pkt h)
         else if dst = NSP_PORT_ADDR_ASSIGN
         then same (andthen (nsp_send_ack_for_packet fuel N pkt h) (nsp_addr_assign fuel N NSP_DEV_ADDR))
         else if dst = NSP_PORT_LOGIN then same (nsp_send_nack_ex fuel N (np_src_port pkt) h)
         else if dst = NSP_PORT_DEV_INFOS
         then same (andthen (nsp_send_ack_for_packet fuel N pkt h) (os_question fuel N pkt))
         else if dst \<noteq> NSP_PORT_OS_INSTALL then (None, (False, st), h)
         else
           (let (r, h) = nsp_send_ack_for_packet fuel N pkt h
            in if r \<noteq> None then (r, (False, st), h)
               else if np_data_size pkt < 1 then (Some ERR_INVALID_PACKET, (False, st), h)
               else if np_data pkt ! 0 = 0x03
               then (let (r, st, h) = os_announced fuel N pkt st h in (r, (False, st), h))
               else if np_data pkt ! 0 = 0x05 then os_piece fuel N is_nnse pkt st h
               else (None, (False, st), h)))"

fun os_rounds ::
    "nat \<Rightarrow> nat \<Rightarrow> 'd nsp_env \<Rightarrow> bool \<Rightarrow> os_rx \<Rightarrow> 'd calc_handle \<Rightarrow> ret \<times> os_rx \<times> 'd calc_handle" where
  "os_rounds 0 fuel N is_nnse st h = (Some OUT_OF_FUEL, st, h)"
| "os_rounds (Suc n) fuel N is_nnse st h =
     (let (r, pkt, h) = nsp_recv fuel N nsp_zero h; (r, h) = andthen (r, h) check_cancel
      in if r \<noteq> None then (r, st, h)
         else
           (let (r, (completed, st), h) = os_packet fuel N is_nnse pkt st h
            in if r \<noteq> None \<or> completed then (r, st, h) else os_rounds n fuel N is_nnse st h))"

definition no_os :: os_rx where
  "no_os = \<lparr>or_started = False, or_sent_status = False, or_remaining = 0, or_written = 0, or_data = []\<rparr>"

definition recv_os_nsp :: "nat \<Rightarrow> 'd nsp_env \<Rightarrow> 'd calc_handle \<Rightarrow> ret \<times> bytes \<times> 'd calc_handle" where
  "recv_os_nsp fuel N h =
     (let old = ns_passive_port (kh_nsp h); (is_nnse, h) = nsp_nnse_enabled N h;
          h = ticalcs_update_pbar (ne_calc N) (set_max1 0 (set_cnt1 0 h));
          h = (if is_nnse then upd_nsp (\<lambda>s. s\<lparr>ns_passive_port := NSP_PORT_OS_INSTALL\<rparr>) h else h);
          (r, st, h) = os_rounds fuel fuel N is_nnse no_os h
      in (r, or_data st, upd_nsp (\<lambda>s. s\<lparr>ns_passive_port := old\<rparr>) h))"


section \<open>The exchange of an operating system\<close>

text \<open>
  What the calculator sends after it has announced an operating system: acknowledgements of the
  replies, and the pieces. Its packets come from the port \<open>p\<close>.
\<close>

datatype os_event = Calc_Ack u8 | Calc_Piece u8 bytes

definition calc_packet :: "u16 \<Rightarrow> u8 \<Rightarrow> bytes \<Rightarrow> bytes" where
  "calc_packet p k bs = nsp_pack_header 0x6401 p 0x6400 0x4080 (compute_crc bs) (of_nat (length bs)) 0 k @ bs"

primrec event_wire :: "u16 \<Rightarrow> os_event \<Rightarrow> bytes" where
  "event_wire p (Calc_Ack k) = nsp_pack_header 0x6401 0x00FF 0x6400 0x4080 (compute_crc [MSB p, LSB p]) 2 0x0A k @ [MSB p, LSB p]"
| "event_wire p (Calc_Piece k c) = calc_packet p k (0x05 # c)"

definition os_announcement :: "nat \<Rightarrow> bytes" where
  "os_announcement n = (let w = of_nat n :: u32 in [0x03, MSB (MSW w), LSB (MSW w), MSB (LSW w), LSB (LSW w)])"

text \<open>The pieces are full but for the last one, with which the data ends.\<close>

fun well_cut :: "nat \<Rightarrow> os_event list \<Rightarrow> bool" where
  "well_cut n [] = False"
| "well_cut n (Calc_Ack k # es) = well_cut n es"
| "well_cut n (Calc_Piece k c # es) =
     (c \<noteq> [] \<and> length c \<le> 253 \<and> (if length c = n then es = [] else length c = 253 \<and> 253 < n \<and> well_cut (n - 253) es))"

fun os_data :: "os_event list \<Rightarrow> bytes" where
  "os_data [] = []"
| "os_data (Calc_Ack k # es) = os_data es"
| "os_data (Calc_Piece k c # es) = c @ os_data es"

text \<open>What the computer answers: \<open>q\<close> is its next sequence number, \<open>told\<close> whether it has sent the status.\<close>

definition os_ack :: "u16 \<Rightarrow> u8 \<Rightarrow> bytes" where
  "os_ack p k = nsp_pack_header 0x6400 (if k = 0 then 0x00FE else 0x00FF) 0x6401 p (compute_crc [0x40, 0x80]) 2 0x0A k @ [0x40, 0x80]"

definition os_reply :: "u16 \<Rightarrow> u8 \<Rightarrow> bytes \<Rightarrow> bytes" where
  "os_reply dst q bs = nsp_pack_header 0x6400 0x4080 0x6401 dst (compute_crc bs) (of_nat (length bs)) 0 (seq_used q) @ bs"

fun os_answers :: "u16 \<Rightarrow> u8 \<Rightarrow> bool \<Rightarrow> os_event list \<Rightarrow> bytes" where
  "os_answers p q told [] = []"
| "os_answers p q told (Calc_Ack k # es) = os_answers p (q + 1) told es"
| "os_answers p q told (Calc_Piece k c # es) =
     os_ack p k @ (if told then [] else os_reply p q [0xFF, 0]) @ (if es = [] then os_reply 0x4080 q [0x06, 0x64] else [])
       @ os_answers p (if told then q else seq_used q) True es"

definition piece_answers :: "u16 \<Rightarrow> u8 \<Rightarrow> u8 \<Rightarrow> bool \<Rightarrow> bool \<Rightarrow> bytes" where
  "piece_answers p q k told final = os_ack p k @ (if told then [] else os_reply p q [0xFF, 0])
     @ (if final then os_reply 0x4080 q [0x06, 0x64] else [])"

lemma answer_lengths [simp]: "length (os_ack p k) = 18" "length (os_reply dst q bs) = 16 + length bs"
  by (simp_all add: os_ack_def os_reply_def)

lemma seq_used_twice [simp]: "seq_used (seq_used q) = seq_used q"
  by (simp add: seq_used_def)

lemma install_port: "MSB (0x4080 :: u16) = 0x40" "LSB (0x4080 :: u16) = 0x80" "\<not> control_port 0x4080"
  unfolding control_port_def ack_port_def by code_simp+

lemma well_cut_data: "well_cut n es \<Longrightarrow> length (os_data es) = n \<and> 0 < n"
  by (induction n es rule: well_cut.induct) (auto split: if_splits)

text \<open>A packet of the calculator that has been received.\<close>

definition from_calc :: "u16 \<Rightarrow> u8 \<Rightarrow> bytes \<Rightarrow> nsp_raw \<Rightarrow> bool" where
  "from_calc p k bs pkt \<longleftrightarrow> np_src_addr pkt = 0x6401 \<and> np_src_port pkt = p \<and> np_dst_addr pkt = 0x6400
     \<and> np_dst_port pkt = 0x4080 \<and> np_ack pkt = 0 \<and> np_seq pkt = k \<and> unat (np_data_size pkt) = length bs
     \<and> take (length bs) (np_data pkt) = bs \<and> length (np_data pkt) = 254"

text \<open>The pieces so far, and room for the rest.\<close>

definition os_state :: "bool \<Rightarrow> bytes \<Rightarrow> nat \<Rightarrow> os_rx \<Rightarrow> bool" where
  "os_state told got n st \<longleftrightarrow> or_started st \<and> or_sent_status st = told \<and> or_remaining st = of_nat n
     \<and> or_written st = of_nat (length got) \<and> or_data st = got @ replicate n 0 \<and> length got + n < 2 ^ 27"

lemma piece_stored:
  assumes "os_state told got n st" "from_calc p k (0x05 # c) pkt" "c \<noteq> []" "length c \<le> n"
  shows "\<exists>st'. store_piece pkt st = (None, st') \<and> os_state told (got @ c) (n - length c) st'"
proof -
  note st = assms(1) [unfolded os_state_def] and pkt = assms(2) [unfolded from_calc_def]
  have small: "unat (of_nat m :: u32) = m" if "m < 2 ^ 27" for m using that by (simp add: unat_of_nat take_bit_nat_eq_self)
  have "take (Suc (length c)) (np_data pkt) = 0x05 # c" using pkt by simp
  then have "take (length c) (drop 1 (np_data pkt)) = c" by (cases "np_data pkt") auto
  moreover have "1 + length c \<le> length (np_data pkt)"
    using \<open>take (Suc (length c)) (np_data pkt) = 0x05 # c\<close> by (metis length_Cons length_take min.cobounded1 plus_1_eq_Suc)
  ultimately have "memcpy (or_data st) (unat (or_written st)) (np_data pkt) 1 (length c) = Some ((got @ c) @ replicate (n - length c) 0)"
    using st assms(4) small [of "length got"] by (simp add: memcpy_def memcpy_from_def memcpy_at_def)
  moreover have "of_nat n - of_nat (length c) = (of_nat (n - length c) :: u32)" using assms(4) by simp
  ultimately show ?thesis
    using st pkt assms(3,4) small [of n] by (simp add: store_piece_def os_state_def Let_def)
qed

context navnet_link
begin

lemma went_pbar:
  "went h out n s (ticalcs_update_pbar E h') = went h out n s h'" "went h out n s (set_cnt1 a h') = went h out n s h'"
  "went h out n s (set_max1 a h') = went h out n s h'"
proof -
  have "ready (ticalcs_update_pbar E h') = ready h'" "ready (set_cnt1 a h') = ready h'" "ready (set_max1 a h') = ready h'"
    by simp_all
  then show "went h out n s (ticalcs_update_pbar E h') = went h out n s h'" "went h out n s (set_cnt1 a h') = went h out n s h'"
    "went h out n s (set_max1 a h') = went h out n s h'"
    by (simp_all add: went_def moved_def) (simp_all add: ticalcs_update_pbar_def set_cnt1_def set_max1_def)
qed

lemma simple_reply_sent:
  assumes "navnet h" "kh_nsp h = s" "np_src_addr pkt = 0x6401" "np_dst_addr pkt = 0x6400"
    and "length payload \<le> 252" "17 + length payload \<le> c_room (kh_cable h)"
  shows "\<exists>h'. nsp_send_simple_reply fuel N pkt 0x4080 dst cmd payload h = (None, h')
     \<and> went h (os_reply dst (ns_seq_pc s) (cmd # payload)) 0 (s\<lparr>ns_seq_pc := seq_used (ns_seq_pc s)\<rparr>) h'"
proof -
  let ?n = "of_nat (length payload) + 1 :: u8" and ?bs = "cmd # payload"
  let ?pkt = "store_data ?bs ((nsp_init_reply pkt)\<lparr>np_data_size := ?n, np_src_port := 0x4080, np_dst_port := dst\<rparr>)"
  have n: "unat ?n = length payload + 1" "?n = of_nat (length ?bs)"
    using assms(5) by (simp_all add: unat_word_ariths unat_of_nat take_bit_nat_eq_self)
  have d: "length (np_data ?pkt) = 254" "take (length payload + 1) (np_data ?pkt) = ?bs" "np_data_size ?pkt = ?n"
    using assms(5) by (simp_all add: store_data_def nsp_init_reply_def nsp_zero_def)
  let ?k = "seq_used (ns_seq_pc s)"
  let ?pkt1 = "?pkt\<lparr>np_data_sum := compute_crc ?bs, np_seq := ?k\<rparr>"
  obtain h0 where h0: "numbered False ?pkt (h\<lparr>kh_busy := True\<rparr>) = (?pkt1, h0)" "kh_nsp h0 = s\<lparr>ns_seq_pc := ?k\<rparr>"
    using d n(1) assms(2) install_port(3)
    by (cases "ns_seq_pc s = 0") (auto simp: numbered_def upd_nsp_def seq_used_def Let_def store_data_def)
  have wire: "raw_header ?pkt1 @ ?bs = os_reply dst (ns_seq_pc s) ?bs"
    using assms(3,4) n(2) by (simp add: raw_header_def os_reply_def store_data_def nsp_init_reply_def nsp_zero_def add.commute)
  have "np_data_size ?pkt \<le> 254" "16 + unat (np_data_size ?pkt) \<le> c_room (kh_cable h)"
    unfolding d(3) using n(1) assms(5,6) by (simp_all add: word_le_nat_alt)
  then obtain h' where "nsp_send fuel N ?pkt h = (None, ?pkt1\<lparr>np_hdr_sum := raw_header ?pkt1 ! 15\<rparr>, h')"
      "went h (os_reply dst (ns_seq_pc s) ?bs) 0 (s\<lparr>ns_seq_pc := ?k\<rparr>) h'"
    using raw_sent [OF assms(1) d(1) _ h0(1), of fuel] h0(2) d(2,3) n(1) wire by auto
  then show ?thesis by (auto simp: nsp_send_simple_reply_def send_raw_def)
qed

lemma packet_acked:
  assumes "navnet h" "kh_nsp h = s" "np_src_addr pkt = 0x6401" "np_dst_addr pkt = 0x6400" "np_dst_port pkt = 0x4080"
    and "ns_seq s = np_seq pkt" "18 \<le> c_room (kh_cable h)"
  shows "\<exists>h'. nsp_send_ack_for_packet fuel N pkt h = (None, h') \<and> went h (os_ack (np_src_port pkt) (np_seq pkt)) 0 s h'"
proof -
  let ?bs = "[MSB (np_dst_port pkt), LSB (np_dst_port pkt)]"
  let ?port = "if np_seq pkt = 0 then 0x00FE else 0x00FF"
  let ?pkt = "store_data ?bs ((nsp_init_reply pkt)\<lparr>np_data_size := 2, np_src_port := ?port\<rparr>)"
  have d: "np_data_size ?pkt = 2" "length (np_data ?pkt) = 254" "take 2 (np_data ?pkt) = ?bs" "control_port (np_src_port ?pkt)"
    by (simp_all add: store_data_def nsp_init_reply_def nsp_zero_def control_port_def ack_port_def)
  let ?pkt1 = "?pkt\<lparr>np_data_sum := compute_crc ?bs, np_ack := 0x0a, np_seq := np_seq pkt\<rparr>"
  have "numbered False ?pkt (h\<lparr>kh_busy := True\<rparr>) = (?pkt1, h\<lparr>kh_busy := True\<rparr>)"
    using d numbered_control [of ?pkt False "h\<lparr>kh_busy := True\<rparr>"] assms(2,6) by simp
  moreover have "raw_header ?pkt1 @ ?bs = os_ack (np_src_port pkt) (np_seq pkt)"
    using assms(3-5) install_port by (simp add: raw_header_def os_ack_def store_data_def nsp_init_reply_def nsp_zero_def)
  moreover have "np_data_size ?pkt \<le> 254" "16 + unat (np_data_size ?pkt) \<le> c_room (kh_cable h)"
    "unat (np_data_size ?pkt) = 2" using d(1) assms(7) by simp_all
  ultimately obtain h' where "nsp_send fuel N ?pkt h = (None, ?pkt1\<lparr>np_hdr_sum := raw_header ?pkt1 ! 15\<rparr>, h')"
      "went h (os_ack (np_src_port pkt) (np_seq pkt)) 0 (kh_nsp (h\<lparr>kh_busy := True\<rparr>)) h'"
    using raw_sent [OF assms(1) d(2)] d(3) by metis
  then show ?thesis using assms(2) by (auto simp: nsp_send_ack_for_packet_def send_raw_def)
qed

lemma calc_packet_received:
  assumes "navnet h" "kh_nsp h = s" "c_avail (kh_cable h) = calc_packet p k bs @ rest" "length bs \<le> 254" "\<not> control_port p"
  shows "\<exists>pkt h'. nsp_recv fuel N nsp_zero h = (None, pkt, h') \<and> from_calc p k bs pkt
     \<and> went h [] (16 + length bs) (s\<lparr>ns_seq := k\<rparr>) h'"
proof -
  let ?n = "of_nat (length bs) :: u8"
  have n: "unat ?n = length bs" using assms(4) by (simp add: unat_of_nat take_bit_nat_eq_self)
  have "?n \<le> 254" using n assms(4) by (simp add: word_le_nat_alt)
  moreover have "kh_nsp (count_seq p k h) = s\<lparr>ns_seq := k\<rparr>" using assms(2,5) by (simp add: count_seq_def upd_nsp_def)
  ultimately show ?thesis
    using raw_received [where a = "0x6401" and b = p and c = "0x6400" and d = "0x4080" and n = ?n and i = 0 and j = k
        and e = "compute_crc bs" and bs = bs and rest = rest and fuel = fuel and pkt = nsp_zero, OF assms(1)] n assms(3,4)
    by (auto simp: calc_packet_def from_calc_def store_data_def nsp_zero_def)
qed

lemma calc_ack_received:
  assumes "navnet h" "kh_nsp h = s" "c_avail (kh_cable h) = event_wire p (Calc_Ack k) @ rest"
  shows "\<exists>pkt h'. nsp_recv fuel N nsp_zero h = (None, pkt, h') \<and> np_ack pkt = 0x0A
     \<and> went h [] 18 (s\<lparr>ns_seq_pc := ns_seq_pc s + 1\<rparr>) h'"
proof -
  have "kh_nsp (count_seq 0x00FF k h) = s\<lparr>ns_seq_pc := ns_seq_pc s + 1\<rparr>"
    using assms(2) by (simp add: count_seq_def upd_nsp_def control_port_def ack_port_def)
  then show ?thesis
    using raw_received [where a = "0x6401" and b = "0x00FF" and c = "0x6400" and d = "0x4080" and n = 2 and i = "0x0A" and j = k
        and e = "compute_crc [MSB p, LSB p]" and bs = "[MSB p, LSB p]" and rest = rest and fuel = fuel and pkt = nsp_zero, OF assms(1)]
      assms(3) by (auto simp: store_data_def)
qed

lemma announcement_taken:
  assumes "navnet h" "kh_nsp h = s" "ns_seq s = k" "from_calc p k (os_announcement n) pkt" "0 < n" "n < 2 ^ 27" "p \<noteq> NSP_PORT_DISCONNECT"
    and "35 \<le> c_room (kh_cable h)"
  shows "\<exists>st' h'. os_packet fuel N False pkt st h = (None, (False, st'), h') \<and> os_state False [] n st'
     \<and> went h (os_ack p k @ os_reply p (ns_seq_pc s) [0x04]) 0 (s\<lparr>ns_seq_pc := seq_used (ns_seq_pc s)\<rparr>) h'"
proof -
  note pkt = assms(4) [unfolded from_calc_def]
  let ?st = "\<lparr>or_started = True, or_sent_status = False, or_remaining = of_nat n, or_written = 0, or_data = replicate n 0\<rparr>"
  have n: "unat (of_nat n :: u32) = n" using assms(6) by (simp add: unat_of_nat take_bit_nat_eq_self)
  then have valid: "nsp_os_receive_size_valid (of_nat n)"
    using assms(5,6) by (simp add: nsp_os_receive_size_valid_def word_less_nat_alt unat_gt_0 [symmetric] del: unat_gt_0)
  have len: "length (os_announcement n) = 5" by (simp add: os_announcement_def Let_def)
  then have d: "np_data pkt ! i = os_announcement n ! i" if "i < 5" for i using pkt that by (metis nth_take)
  then have cmd: "np_data pkt ! 0 = 0x03" "be32_at (np_data pkt) 1 = of_nat n" "\<not> np_data_size pkt < 5" "\<not> np_data_size pkt < 1"
    using pkt len by (simp_all add: os_announcement_def Let_def be32_at_def be32_bytes word_less_nat_alt)
  obtain h1 where h1: "nsp_send_ack_for_packet fuel N pkt h = (None, h1)" "went h (os_ack p k) 0 s h1"
    using packet_acked [OF assms(1,2), of pkt fuel] assms(3,8) pkt by auto
  let ?h1 = "start_transfer N (of_nat n) h1"
  have w1: "went h (os_ack p k) 0 s ?h1" using h1(2) by (simp add: start_transfer_def calc_env went_pbar)
  have "navnet ?h1" "kh_nsp ?h1 = s" "17 \<le> c_room (kh_cable ?h1)"
    using w1 assms(1,2,8) navnet_went [OF w1] by (auto simp: navnet_def went_def moved_def os_ack_def)
  then obtain h2 where h2: "nsp_send_simple_reply fuel N pkt 0x4080 p 0x04 [] ?h1 = (None, h2)"
      "went ?h1 (os_reply p (ns_seq_pc s) [0x04]) 0 (s\<lparr>ns_seq_pc := seq_used (ns_seq_pc s)\<rparr>) h2"
    using simple_reply_sent [of ?h1 s pkt "[]" fuel p "0x04"] pkt by auto
  have "os_packet fuel N False pkt st h = (None, (False, ?st), h2)"
    using h1(1) h2(1) pkt cmd valid n assms(7) by (simp add: os_packet_def os_announced_def)
  moreover have "os_state False [] n ?st" using assms(6) by (simp add: os_state_def)
  ultimately show ?thesis using went_trans [OF w1 h2(2)] by auto
qed

lemma reply_if:
  assumes "navnet h" "kh_nsp h = s" "from_calc p k bs pkt" "b \<or> 18 \<le> c_room (kh_cable h)"
  shows "\<exists>h'. (if b then (None, h) else nsp_send_simple_reply fuel N pkt 0x4080 dst cmd [x] h) = (None, h')
     \<and> went h (if b then [] else os_reply dst (ns_seq_pc s) [cmd, x]) 0 (if b then s else s\<lparr>ns_seq_pc := seq_used (ns_seq_pc s)\<rparr>) h'"
proof (cases b)
  case True
  then show ?thesis using assms by (auto simp: went_def moved_def navnet_def)
next
  case False
  then show ?thesis
    using simple_reply_sent [OF assms(1,2), of pkt "[x]" fuel dst cmd] assms(3,4) by (auto simp: from_calc_def)
qed

lemma piece_taken:
  assumes "navnet h" "kh_nsp h = s" "ns_seq s = k" "os_state told got n st" "from_calc p k (0x05 # c) pkt" "c \<noteq> []"
    and "length c \<le> n" "length c = n \<or> length c = 253" "p \<noteq> NSP_PORT_DISCONNECT"
    and "length (piece_answers p (ns_seq_pc s) k told (length c = n)) \<le> c_room (kh_cable h)"
  shows "\<exists>st' h'. os_packet fuel N False pkt st h = (None, (length c = n, st'), h') \<and> os_state True (got @ c) (n - length c) st'
     \<and> went h (piece_answers p (ns_seq_pc s) k told (length c = n)) 0
         (s\<lparr>ns_seq_pc := (if told \<and> length c \<noteq> n then ns_seq_pc s else seq_used (ns_seq_pc s))\<rparr>) h'"
proof -
  note pkt = assms(5) [unfolded from_calc_def]
  let ?q = "ns_seq_pc s" and ?fin = "length c = n"
  let ?s1 = "if told then s else s\<lparr>ns_seq_pc := seq_used ?q\<rparr>"
  have cmd: "np_data pkt ! 0 = 0x05" "\<not> np_data_size pkt < 1" "np_ack pkt = 0" "np_dst_port pkt = 0x4080" "np_src_port pkt = p"
    using pkt by (cases "np_data pkt"; simp add: word_less_nat_alt)+
  obtain st1 where st1: "store_piece pkt st = (None, st1)" "os_state told (got @ c) (n - length c) st1"
    using piece_stored [OF assms(4-7)] by blast
  have left: "or_remaining st1 = 0 \<longleftrightarrow> ?fin"
  proof -
    have "or_remaining st1 = of_nat (n - length c)" using st1(2) unfolding os_state_def by (elim conjE)
    moreover have "n - length c < 2 ^ 32" using st1(2) by (simp add: os_state_def del: of_nat_diff)
    ultimately have "unat (or_remaining st1) = n - length c" by (simp only: size_small)
    then show ?thesis using assms(7) unfolding unat_eq_zero [symmetric] by auto
  qed
  have "length c = 253 \<longrightarrow> \<not> np_data_size pkt < 254" using pkt by (simp add: word_less_nat_alt)
  then have valid: "nsp_os_receive_packet_boundary_valid (or_remaining st1) (np_data_size pkt < 254) False"
    using left assms(8) by (auto simp: nsp_os_receive_packet_boundary_valid_def)
  have started: "or_started st" "or_sent_status st1 = told" "or_started st1"
    using assms(4) st1(2) by (simp_all add: os_state_def)
  obtain h1 where h1: "nsp_send_ack_for_packet fuel N pkt h = (None, h1)" "went h (os_ack p k) 0 s h1"
    using packet_acked [OF assms(1,2), of pkt fuel] assms(3,10) pkt by (auto simp: piece_answers_def os_ack_def)
  let ?h1 = "piece_counted N pkt h1"
  have w1: "went h (os_ack p k) 0 s ?h1" using h1(2) by (simp add: piece_counted_def calc_env went_pbar)
  note room = assms(10) [unfolded piece_answers_def]
  have h1': "navnet ?h1" "kh_nsp ?h1 = s" "c_room (kh_cable ?h1) = c_room (kh_cable h) - 18"
    using w1 assms(1,2) navnet_went [OF w1] by (auto simp: navnet_def went_def moved_def os_ack_def)
  have "told \<or> 18 \<le> c_room (kh_cable ?h1)" using room h1'(3) by (cases told) auto
  with h1' obtain h2 where h2: "(if told then (None, ?h1) else nsp_send_simple_reply fuel N pkt 0x4080 p 0xFF [0] ?h1) = (None, h2)"
      "went ?h1 (if told then [] else os_reply p ?q [0xFF, 0]) 0 ?s1 h2"
    using reply_if [of ?h1 s p k "0x05 # c" pkt told fuel p "0xFF" 0] assms(5) by auto
  have h2': "navnet h2" "kh_nsp h2 = ?s1" "c_room (kh_cable h2) = c_room (kh_cable h) - (if told then 18 else 36)"
    using h2(2) h1' navnet_went [OF h2(2)] by (auto simp: navnet_def went_def moved_def os_reply_def)
  have "\<not> ?fin \<or> 18 \<le> c_room (kh_cable h2)" using room h2'(3) by (cases told) auto
  with h2' obtain h3 where h3: "(if \<not> ?fin then (None, h2) else nsp_send_simple_reply fuel N pkt 0x4080 0x4080 0x06 [0x64] h2) = (None, h3)"
      "went h2 (if \<not> ?fin then [] else os_reply 0x4080 (ns_seq_pc ?s1) [0x06, 0x64]) 0
         (if \<not> ?fin then ?s1 else ?s1\<lparr>ns_seq_pc := seq_used (ns_seq_pc ?s1)\<rparr>) h3"
    using reply_if [of h2 ?s1 p k "0x05 # c" pkt "\<not> ?fin" fuel "0x4080" "0x06" "0x64"] assms(5) by blast
  let ?st = "st1\<lparr>or_sent_status := True\<rparr>"
  have run: "os_packet fuel N False pkt st h = (None, (?fin, ?st), h3)"
    using h1(1) h2(1) h3(1) cmd valid left started st1(1) assms(9)
    by (cases "?fin"; cases told) (simp_all add: os_packet_def os_piece_def Let_def)
  have same: "os_reply 0x4080 (ns_seq_pc ?s1) = os_reply 0x4080 ?q" by (intro ext) (simp add: os_reply_def)
  have "went h (piece_answers p ?q k told ?fin) 0
      (s\<lparr>ns_seq_pc := (if told \<and> \<not> ?fin then ?q else seq_used ?q)\<rparr>) h3"
    using went_trans [OF went_trans [OF w1 h2(2)] h3(2)] unfolding piece_answers_def same
    by (cases told; cases "?fin") simp_all
  moreover have "os_state True (got @ c) (n - length c) ?st" using st1(2) by (simp add: os_state_def)
  ultimately show ?thesis using run by blast
qed

lemma os_events_taken:
  assumes "navnet h" "os_state told got n st" "well_cut n es" "c_avail (kh_cable h) = concat (map (event_wire p) es) @ rest"
    and "length (os_answers p (ns_seq_pc (kh_nsp h)) told es) \<le> c_room (kh_cable h)" "length es < m"
    and "\<not> control_port p" "p \<noteq> NSP_PORT_DISCONNECT"
  shows "\<exists>st' h'. os_rounds m fuel N False st h = (None, st', h') \<and> or_data st' = got @ os_data es
     \<and> moved h (os_answers p (ns_seq_pc (kh_nsp h)) told es) (length (concat (map (event_wire p) es))) h'"
  using assms
proof (induction es arbitrary: told got n st h m)
  case (Cons e es)
  let ?q = "ns_seq_pc (kh_nsp h)"
  obtain m' where m: "m = Suc m'" using Cons.prems(6) by (cases m) auto
  show ?case
  proof (cases e)
    case (Calc_Ack k)
    obtain pkt h1 where h1: "nsp_recv fuel N nsp_zero h = (None, pkt, h1)" "np_ack pkt = 0x0A"
        "went h [] 18 ((kh_nsp h)\<lparr>ns_seq_pc := ?q + 1\<rparr>) h1"
      using calc_ack_received [OF Cons.prems(1) refl, of p k _ fuel] Cons.prems(4) Calc_Ack by auto
    have nav: "navnet h1" using Cons.prems(1) navnet_went [OF h1(3)] by (simp add: navnet_def)
    then have go: "os_rounds m fuel N False st h = os_rounds m' fuel N False st h1"
      using h1(1,2) m by (simp add: check_cancel_quiet navnet_def ready_def os_packet_def)
    have "c_avail (kh_cable h1) = concat (map (event_wire p) es) @ rest"
      "c_room (kh_cable h1) = c_room (kh_cable h)" "ns_seq_pc (kh_nsp h1) = ?q + 1"
      using h1(3) Cons.prems(4) Calc_Ack by (simp_all add: went_def moved_def)
    then obtain st' h' where "os_rounds m' fuel N False st h1 = (None, st', h')" "or_data st' = got @ os_data es"
        "moved h1 (os_answers p (?q + 1) told es) (length (concat (map (event_wire p) es))) h'"
      using Cons.IH [OF nav Cons.prems(2), of m'] Cons.prems(3,5-8) Calc_Ack m by auto
    then show ?thesis using go h1(3) Calc_Ack moved_trans [of h "[]" 18 h1] by (auto simp: went_def)
  next
    case (Calc_Piece k c)
    have c: "c \<noteq> []" "length c \<le> 253" "length c \<le> n" "length c = n \<or> length c = 253" "length c = n \<longleftrightarrow> es = []"
      "length c = n \<or> well_cut (n - 253) es"
      using Cons.prems(3) Calc_Piece by (auto split: if_splits)
    let ?out = "piece_answers p ?q k told (length c = n)" and ?q' = "if told then ?q else seq_used ?q"
    have out: "os_answers p ?q told (e # es) = ?out @ os_answers p ?q' True es"
      using Calc_Piece c(5) by (simp add: piece_answers_def)
    obtain pkt h1 where h1: "nsp_recv fuel N nsp_zero h = (None, pkt, h1)" "from_calc p k (0x05 # c) pkt"
        "went h [] (17 + length c) ((kh_nsp h)\<lparr>ns_seq := k\<rparr>) h1"
      using calc_packet_received [OF Cons.prems(1) refl, of p k "0x05 # c" "concat (map (event_wire p) es) @ rest" fuel]
        Cons.prems(4,7) Calc_Piece c(2) by auto
    have nav: "navnet h1" using Cons.prems(1) navnet_went [OF h1(3)] by (simp add: navnet_def)
    have h1': "kh_nsp h1 = (kh_nsp h)\<lparr>ns_seq := k\<rparr>" "c_room (kh_cable h1) = c_room (kh_cable h)"
      "c_avail (kh_cable h1) = concat (map (event_wire p) es) @ rest"
      using h1(3) Cons.prems(4) Calc_Piece by (simp_all add: went_def moved_def calc_packet_def)
    have q1: "ns_seq_pc (kh_nsp h1) = ?q" by (simp add: h1'(1))
    have "length ?out \<le> c_room (kh_cable h1)" "ns_seq (kh_nsp h1) = k" using Cons.prems(5) h1' out by simp_all
    then obtain st1 h2 where h2: "os_packet fuel N False pkt st h1 = (None, (length c = n, st1), h2)" "os_state True (got @ c) (n - length c) st1"
        "went h1 ?out 0 ((kh_nsp h1)\<lparr>ns_seq_pc := (if told \<and> length c \<noteq> n then ?q else seq_used ?q)\<rparr>) h2"
      using piece_taken [OF nav refl _ Cons.prems(2) h1(2) c(1,3,4) Cons.prems(8), of fuel, unfolded q1] by blast
    have w: "went h ?out (17 + length c) ((kh_nsp h1)\<lparr>ns_seq_pc := (if told \<and> length c \<noteq> n then ?q else seq_used ?q)\<rparr>) h2"
      using went_trans [OF h1(3) h2(3)] by simp
    have go: "os_rounds m fuel N False st h = (if length c = n then (None, st1, h2) else os_rounds m' fuel N False st1 h2)"
      using h1(1) h2(1) m nav by (simp add: check_cancel_quiet navnet_def ready_def)
    show ?thesis
    proof (cases "length c = n")
      case True
      then show ?thesis using go w h2(2) c(5) out Calc_Piece by (auto simp: os_state_def went_def calc_packet_def)
    next
      case False
      have nav2: "navnet h2" using nav navnet_went [OF h2(3)] by (simp add: navnet_def)
      have h2': "ns_seq_pc (kh_nsp h2) = ?q'" "c_avail (kh_cable h2) = concat (map (event_wire p) es) @ rest"
        "c_room (kh_cable h2) = c_room (kh_cable h) - length ?out"
        using h2(3) h1' False by (auto simp: went_def moved_def)
      have "length (os_answers p (ns_seq_pc (kh_nsp h2)) True es) \<le> c_room (kh_cable h2)"
        using Cons.prems(5) unfolding out h2' by simp
      then obtain st' h' where "os_rounds m' fuel N False st1 h2 = (None, st', h')" "or_data st' = (got @ c) @ os_data es"
          "moved h2 (os_answers p ?q' True es) (length (concat (map (event_wire p) es))) h'"
        using Cons.IH [OF nav2 h2(2) _ h2'(2), of m'] c(4,6) False Cons.prems(6-8) m h2'(1) by auto
      then show ?thesis
        using go False w moved_trans [of h ?out "17 + length c" h2] unfolding out
        by (auto simp: went_def Calc_Piece calc_packet_def add.assoc)
    qed
  qed
qed simp

lemma os_received:
  assumes "navnet h" "well_cut n es" "n < 2 ^ 27" "length es + 1 < fuel" "\<not> control_port p" "p \<noteq> NSP_PORT_DISCONNECT"
    and "c_avail (kh_cable h) = calc_packet p k (os_announcement n) @ concat (map (event_wire p) es) @ rest"
    and "out = os_ack p k @ os_reply p (ns_seq_pc (kh_nsp h)) [0x04] @ os_answers p (seq_used (ns_seq_pc (kh_nsp h))) False es"
    and "length out \<le> c_room (kh_cable h)"
  shows "\<exists>h'. recv_os_nsp fuel N h = (None, os_data es, h')
     \<and> moved h out (length (calc_packet p k (os_announcement n) @ concat (map (event_wire p) es))) h'"
proof -
  let ?q = "ns_seq_pc (kh_nsp h)" and ?h = "ticalcs_update_pbar (ne_calc N) (set_max1 0 (set_cnt1 0 h))"
  obtain m where m: "fuel = Suc m" "length es < m" using assms(4) by (cases fuel) auto
  have n: "0 < n" using well_cut_data [OF assms(2)] by blast
  have len: "length (os_announcement n) = 5" by (simp add: os_announcement_def Let_def)
  have w0: "went h [] 0 (kh_nsp h) ?h" unfolding calc_env went_pbar using assms(1) by (simp add: went_def moved_def navnet_def)
  have h0: "navnet ?h" "kh_nsp ?h = kh_nsp h" "c_room (kh_cable ?h) = c_room (kh_cable h)"
    "c_avail (kh_cable ?h) = calc_packet p k (os_announcement n) @ concat (map (event_wire p) es) @ rest"
    using w0 assms(1,7) navnet_went [OF w0] by (simp_all add: navnet_def went_def moved_def)
  obtain pkt h1 where h1: "nsp_recv fuel N nsp_zero ?h = (None, pkt, h1)" "from_calc p k (os_announcement n) pkt"
      "went ?h [] 21 ((kh_nsp h)\<lparr>ns_seq := k\<rparr>) h1"
    using calc_packet_received [OF h0(1,2,4) _ assms(5), of fuel] len by auto
  have nav1: "navnet h1" using h0(1,2) navnet_went [OF h1(3)] by (simp add: navnet_def)
  have h1': "kh_nsp h1 = (kh_nsp h)\<lparr>ns_seq := k\<rparr>" "c_room (kh_cable h1) = c_room (kh_cable h)"
    "c_avail (kh_cable h1) = concat (map (event_wire p) es) @ rest"
    using h1(3) h0 len by (simp_all add: went_def moved_def calc_packet_def)
  have "35 \<le> c_room (kh_cable h1)" using assms(8,9) h1'(2) by simp
  then obtain st h2 where h2: "os_packet fuel N False pkt no_os h1 = (None, (False, st), h2)" "os_state False [] n st"
      "went h1 (os_ack p k @ os_reply p ?q [0x04]) 0 ((kh_nsp h)\<lparr>ns_seq := k, ns_seq_pc := seq_used ?q\<rparr>) h2"
    using announcement_taken [OF nav1 h1'(1) _ h1(2) n assms(3,6), of fuel no_os] by auto
  have nav2: "navnet h2" using h0(1,2) navnet_went [OF h2(3)] by (simp add: navnet_def)
  have h2': "ns_seq_pc (kh_nsp h2) = seq_used ?q" "c_avail (kh_cable h2) = concat (map (event_wire p) es) @ rest"
    "c_room (kh_cable h2) = c_room (kh_cable h) - 35"
    using h2(3) h1' by (simp_all add: went_def moved_def)
  have "length (os_answers p (ns_seq_pc (kh_nsp h2)) False es) \<le> c_room (kh_cable h2)"
    using assms(8,9) unfolding h2' by simp
  then obtain st' h3 where h3: "os_rounds m fuel N False st h2 = (None, st', h3)" "or_data st' = os_data es"
      "moved h2 (os_answers p (seq_used ?q) False es) (length (concat (map (event_wire p) es))) h3"
    using os_events_taken [OF nav2 h2(2) assms(2) h2'(2) _ m(2) assms(5,6), of fuel] h2'(1) by auto
  let ?h3 = "upd_nsp (\<lambda>s. s\<lparr>ns_passive_port := ns_passive_port (kh_nsp h)\<rparr>) h3"
  have "os_rounds fuel fuel N False no_os ?h = (None, st', h3)"
    using h1(1) h2(1) h3(1) m(1) nav1 by (simp add: check_cancel_quiet navnet_def ready_def)
  then have "recv_os_nsp fuel N h = (None, os_data es, ?h3)"
    using h3(2) plain_mode [OF assms(1)] by (simp add: recv_os_nsp_def)
  moreover have steps: "moved h [] 0 ?h" "moved ?h [] 21 h1" "moved h1 (os_ack p k @ os_reply p ?q [0x04]) 0 h2"
    using w0 h1(3) h2(3) by (simp_all add: went_def)
  have "moved h out (length (calc_packet p k (os_announcement n) @ concat (map (event_wire p) es))) h3"
    using moved_trans [OF moved_trans [OF moved_trans [OF steps(1,2)] steps(3)] h3(3)] len
    by (simp add: assms(8) calc_packet_def)
  ultimately show ?thesis by (auto simp: moved_end)
qed

end

text \<open>
  C10: An operating system of less than 128 MB that the calculator announces and sends in pieces over
  plain framing arrives complete and in order, wherever acknowledgements come between the pieces:
  every packet is acknowledged, the announcement is accepted, the first piece is answered with a
  status and the last one, with which the reception ends, with the progress that says so.
\<close>

theorem nsp_os_received:
  assumes "navnet_link send recv sent avail room ok E N" "link_ready ok h" "ns_nnse_mode (kh_nsp h) = 1" "q = ns_seq_pc (kh_nsp h)"
    and "well_cut n es" "n < 2 ^ 27" "length es + 1 < fuel" "\<not> control_port p" "p \<noteq> 0x40DE"
    and "inc = calc_packet p k (os_announcement n) @ concat (map (event_wire p) es)"
    and "out = os_ack p k @ os_reply p q [0x04] @ os_answers p (seq_used q) False es"
    and "avail (cb_dev (kh_cable h)) = inc @ rest" "length out \<le> room (cb_dev (kh_cable h))"
  shows "\<exists>h'. recv_os_nsp fuel N h = (None, os_data es, h') \<and> length (os_data es) = n
     \<and> transfer sent avail ok h out (length inc) h'"
proof -
  note p = assms(1)
  note q = navnet_link.axioms(1) [OF p]
  note link = quiet_link.link_ready_iff [OF q] quiet_link.c_avail_def [OF q] quiet_link.c_room_def [OF q]
  have "navnet_link.navnet ok h" using assms(2,3) by (simp add: navnet_link.navnet_def [OF p] link)
  then obtain h' where "recv_os_nsp fuel N h = (None, os_data es, h')" "quiet_link.moved sent avail room ok h out (length inc) h'"
    using navnet_link.os_received [OF p _ assms(5-9), of h k rest out] assms(4,10-13) by (auto simp: link)
  then show ?thesis using quiet_link.moved_transfer [OF q] well_cut_data [OF assms(5)] by blast
qed

lemma nsp_os_received_witness:
  "\<exists>es h'. es = [Calc_Ack 1, Calc_Piece 2 [7, 8, 9]] \<and> recv_os_nsp 4 vti_nsp_env
     (session_handle 0 0 (calc_packet 0x8001 1 (os_announcement 3) @ concat (map (event_wire 0x8001) es))) = (None, [7, 8, 9], h')"
proof -
  let ?es = "[Calc_Ack 1, Calc_Piece 2 [7, 8, 9]]"
  let ?inc = "calc_packet 0x8001 1 (os_announcement 3) @ concat (map (event_wire 0x8001) ?es)"
  let ?h = "session_handle 0 0 ?inc"
  have len: "length ?inc = 59" by (simp add: calc_packet_def os_announcement_def Let_def)
  have port: "\<not> control_port 0x8001" unfolding control_port_def ack_port_def by code_simp
  have ready: "link_ready vti_ok ?h" "ns_nnse_mode (kh_nsp ?h) = 1" "vti_avail (cb_dev (kh_cable ?h)) = ?inc @ []"
    "vti_room (cb_dev (kh_cable ?h)) = 255"
    using len by (simp_all only: session_handle_simps) (simp_all add: nsp_reset_state_def)
  show ?thesis
    using nsp_os_received [OF navnet_vti.navnet_link_axioms ready(1,2) refl, of 3 ?es 4 "0x8001" ?inc 1 _ "[]"] port ready(3,4)
    by (simp del: event_wire.simps list.map) blast
qed

section \<open>The name of the product\<close>

lemma cstring_take: "takeWhile (\<lambda>b. b \<noteq> 0) (take k d) = take k (cstring d)"
  unfolding cstring_def by (induction d arbitrary: k) (auto simp: take_Cons split: nat.split)

lemma cstring_put: "cstring (take k (cstring d) @ 0 # xs) = take k (cstring d)"
proof -
  have "cstring (s @ 0 # xs) = s" if "0 \<notin> set s" for s using that unfolding cstring_def by (induction s) auto
  moreover have "0 \<notin> set (take k (cstring d))" unfolding cstring_def by (auto dest: in_set_takeD set_takeWhileD)
  ultimately show ?thesis by blast
qed

lemma cstring_length: "length (cstring d) < length d \<longleftrightarrow> 0 \<in> set d" "length (cstring d) \<le> length d"
  unfolding cstring_def by (induction d) auto

text \<open>A copy of at most \<open>k\<close> bytes and a terminator behind it, in an array that is long enough.\<close>

lemma copied_and_ended:
  assumes "k < length dst" "k \<le> length d \<or> 0 \<in> set d"
  shows "\<exists>a. Option.bind (strncpy_into dst d k) (store_at k 0) = Some a \<and> cstring a = take k (cstring d)"
proof -
  let ?s = "take k (cstring d)"
  have len: "length ?s \<le> k" by simp
  have "\<not> (length ?s < k \<and> length ?s = length d)" using assms(2) cstring_length [of d] by auto
  then have "strncpy_into dst d k = Some ((?s @ replicate (k - length ?s) 0) @ drop k dst)"
    using assms(1) unfolding strncpy_into_def cstring_take by (simp add: memcpy_at_def Let_def)
  moreover have "((?s @ replicate (k - length ?s) 0) @ drop k dst)[k := 0] = ?s @ replicate (k - length ?s) 0 @ 0 # drop (Suc k) dst"
    using assms(1) len by (simp add: list_update_append Cons_nth_drop_Suc [symmetric])
  moreover have "\<exists>xs. replicate m 0 @ 0 # ys = (0 :: u8) # xs" for m ys by (cases m) auto
  ultimately show ?thesis using assms(1) by (auto simp: store_at_def) (metis cstring_put)
qed

text \<open>
  C40: The name of the product is stored in its array of 64 bytes without an access outside of an
  array exactly when the answer has 64 bytes or more, or has a terminator and not exactly 63 bytes;
  what is stored is then the first 63 bytes of the name.
\<close>

theorem nsp_product_name_bounds:
  assumes "length dst = 64" "length d = unat n"
  shows "case store_product_name n (Some d) dst of
      None \<Rightarrow> n < 64 \<and> (n = 63 \<or> 0 \<notin> set d)
    | Some a \<Rightarrow> (64 \<le> n \<or> n \<noteq> 63 \<and> 0 \<in> set d) \<and> cstring a = take 63 (cstring d)"
proof -
  have n: "n < 64 \<longleftrightarrow> unat n < 64" "64 \<le> n \<longleftrightarrow> 64 \<le> unat n" "n = 63 \<longleftrightarrow> unat n = 63"
    using word_unat_eq_iff [of n 63] by (simp_all add: word_less_nat_alt word_le_nat_alt)
  let ?k = "if n < 64 then unat n + 1 else 63"
  show ?thesis
  proof (cases "n < 64 \<and> (n = 63 \<or> 0 \<notin> set d)")
    case True
    then have "store_product_name n (Some d) dst = None"
      using assms n cstring_length [of d]
      by (auto simp: store_product_name_def strncpy_into_def store_at_def memcpy_at_def cstring_take Let_def split: bind_splits)
    then show ?thesis using True by simp
  next
    case False
    then obtain a where "store_product_name n (Some d) dst = Some a" "cstring a = take ?k (cstring d)"
      using copied_and_ended [of ?k dst d] assms n by (auto simp: store_product_name_def)
    moreover have "take ?k (cstring d) = take 63 (cstring d)"
      using False assms n cstring_length [of d] by auto
    ultimately show ?thesis using False by auto
  qed
qed

lemma nsp_product_name_bounds_witness:
  "case store_product_name 3 (Some [65, 66, 0]) (replicate 64 7) of None \<Rightarrow> False | Some a \<Rightarrow> cstring a = [65, 66]"
  using nsp_product_name_bounds [of "replicate 64 7" "[65, 66, 0]" 3]
  by (auto simp: cstring_def split: option.splits)

end
