(* ===== verification/Spec2Isabelle.thy ===== *)
theory Spec2Isabelle
  imports TilibsPrelude CableLayer LinkVti Checksum CalcHandle DbusPkt DusbRpkt DusbVpkt DusbParam
    DusbCmd CmdZ80 Cmd68k TiCert EvoCbor EvoKermit EvoLink
    NspNnse NspFraming NspRpkt NspVpkt NspPackets NspExchange NspCmd TiModels TiContent Screen Calc8x
    Calc73 CalcNsp
begin

text \<open>
  A verification development for \<^bold>\<open>tilibs\<close>, the libraries that link Texas Instruments
  calculators to a computer.

  \<^bold>\<open>The program.\<close> A calculator handle (\<^verbatim>\<open>libticalcs\<close>) has a cable attached to it
  (\<^verbatim>\<open>libticables\<close>). The cable layer checks the state of the cable, reports events to the
  application and calls a driver. Above it libticalcs has a packet layer per protocol (D-BUS
  for link cables, DUSB for USB calculators, NSP for the NSpire) and, on each packet layer,
  a layer of commands. \<^verbatim>\<open>libtifiles\<close> and \<^verbatim>\<open>libticonv\<close> handle file formats and names. Every
  function returns zero or an error code; here \<open>ret\<close> is \<open>None\<close> or \<open>Some\<close> of an \<open>errcode\<close>,
  and an access outside of an array is the error \<open>UNDEFINED_BEHAVIOUR\<close>.

  \<^bold>\<open>The theories\<close>, in the order of the calls from the bottom up:
  \<^item> \<^verbatim>\<open>TilibsPrelude\<close>: machine types, the byte macros of \<^verbatim>\<open>macros.h\<close>, error codes, array
    copies, \<^verbatim>\<open>strlen\<close>; lemmas that joining undoes splitting.
  \<^item> \<^verbatim>\<open>CableLayer\<close>: \<^verbatim>\<open>libticables/trunk/src/link_xxx.cc\<close> and the event functions of its
    \<^verbatim>\<open>internal.h\<close>. \<open>cable_handle\<close> is \<^verbatim>\<open>CableHandle\<close>, \<open>cable_fncts\<close> is \<^verbatim>\<open>CableFncts\<close>. The
    properties are about the guards, the flags in every reachable state, and probing.
  \<^item> \<^verbatim>\<open>LinkVti\<close>: the locale \<open>byte_link\<close> (what a driver promises) and the driver
    \<^verbatim>\<open>linux/link_vti.cc\<close>, with its circular buffers, as an interpretation of it; the two
    processes on one buffer as a step relation whose steps are single memory accesses.
  \<^item> \<^verbatim>\<open>Checksum\<close>: \<^verbatim>\<open>tifiles_checksum\<close> (\<^verbatim>\<open>misc.cc\<close>) and the CRC of the NSpire layers.
  \<^item> \<^verbatim>\<open>CalcHandle\<close>: \<open>calc_handle\<close> is \<^verbatim>\<open>CalcHandle\<close>, with events, busy flag and progress
    callbacks of \<^verbatim>\<open>libticalcs/trunk/src/internal.h\<close>; the locale \<open>quiet_link\<close>, an environment
    without hooks and cancellation on a driver that is a \<open>byte_link\<close>, interpreted on the
    virtual link. \<open>moved h out n h'\<close> is the effect of an operation there: \<open>out\<close> sent, \<open>n\<close>
    bytes consumed.
  \<^item> \<^verbatim>\<open>DbusPkt\<close>: \<^verbatim>\<open>dbus_pkt.cc\<close>, with \<open>dbus_packet\<close> as the specification of the wire.
  \<^item> \<^verbatim>\<open>DusbRpkt\<close> and \<^verbatim>\<open>DusbVpkt\<close>: \<^verbatim>\<open>dusb_rpkt.cc\<close> and \<^verbatim>\<open>dusb_vpkt.cc\<close>, with \<open>wire_of\<close> and
    \<open>vtl_pieces\<close> as the specification of fragmentation.
  \<^item> \<^verbatim>\<open>DusbParam\<close>: the contents of virtual packets in \<^verbatim>\<open>dusb_cmd.cc\<close>: parameters and
    attributes, error codes, the check and the dissector; \<open>param_bytes\<close> and \<open>attributes_bytes\<close>
    are the specification of both kinds of lists.
  \<^item> \<^verbatim>\<open>DusbCmd\<close>: the commands of \<^verbatim>\<open>dusb_cmd.cc\<close>, each of which builds a virtual packet and
    sends it, or receives one and takes it apart, with delays and the renegotiated mode.
  \<^item> \<^verbatim>\<open>CmdZ80\<close>: \<^verbatim>\<open>cmdz80.cc\<close>, the commands of the Z80 calculators on D-BUS.
  \<^item> \<^verbatim>\<open>Cmd68k\<close>: \<^verbatim>\<open>cmd68k.cc\<close>, the commands of the 68k calculators on D-BUS.
  \<^item> \<^verbatim>\<open>TiCert\<close>: \<^verbatim>\<open>libtifiles/trunk/src/cert.cc\<close>, the search in certificates, refined to a
    lookup in a tree of fields (\<open>cert\<close>, \<open>cert_lookup\<close>).
  \<^item> \<^verbatim>\<open>EvoCbor\<close>: \<^verbatim>\<open>evo_cbor.cc\<close>. \<open>evo_value\<close> is \<^verbatim>\<open>EvoCborValue\<close>; the relation \<open>encodes\<close> is the
    specification of the format.
  \<^item> \<^verbatim>\<open>EvoKermit\<close> and \<^verbatim>\<open>EvoLink\<close>: \<^verbatim>\<open>evo_cmd.cc\<close>, the Kermit dialect of the TI-84 Evo. The
    first has packets, block checks and the encoding of data, the second what happens on the
    cable: receiving, the attempts of a transmission, getting and putting an object.
  \<^item> \<^verbatim>\<open>NspNnse\<close> and \<^verbatim>\<open>NspFraming\<close>: \<^verbatim>\<open>nsp_nnse.cc\<close>, the framing of the NSpire CX II: messages with
    checksums, resynchronisation, association, streams. The first has the definitions, the second
    what they do: the locale \<open>polled_link\<close> is a quiet link that can be asked for bytes.
  \<^item> \<^verbatim>\<open>NspRpkt\<close> and \<^verbatim>\<open>NspVpkt\<close>: \<^verbatim>\<open>nsp_rpkt.cc\<close> and \<^verbatim>\<open>nsp_vpkt.cc\<close>, raw and virtual packets on plain
    framing and in streams, sessions, acknowledgements. \<^verbatim>\<open>NspPackets\<close> is about packets in streams
    (\<open>frames\<close> specifies how an extended packet is split), \<^verbatim>\<open>NspExchange\<close> about the exchange of a
    virtual packet on plain framing (\<open>pieces_wire\<close>, \<open>acks_wire\<close>), over the locale \<open>navnet_link\<close>.
  \<^item> \<^verbatim>\<open>NspCmd\<close>: \<^verbatim>\<open>nsp_cmd.cc\<close>, the commands of the NSpire: directories, files, installation of an
    operating system, keys; the properties are about files that cross the link.

  \<^item> \<^verbatim>\<open>TiModels\<close>: what \<^verbatim>\<open>libticonv/trunk/src/ticonv.cc\<close> and \<^verbatim>\<open>libtifiles/trunk/src/misc.cc\<close> know
    of every model, with the order of the models, and names with folders.
  \<^item> \<^verbatim>\<open>TiContent\<close>: entries and contents of files in memory (\<^verbatim>\<open>ve_fp.cc\<close>, \<^verbatim>\<open>grouped.cc\<close>);
    \<open>content_of\<close> relates a content to the list of its entries.
  \<^item> \<^verbatim>\<open>Screen\<close>: \<^verbatim>\<open>screen.cc\<close>, pixel formats and the decoders of compressed screenshots; runs and
    items specify the compressed forms, the locales \<open>rle_decoder\<close> and \<open>cse_mode\<close> what the loops share.
  \<^item> \<^verbatim>\<open>Calc8x\<close>: \<^verbatim>\<open>calc_8x.cc\<close>, the operations of the TI-80 to TI-86 over \<^verbatim>\<open>CmdZ80\<close>; the locale \<open>quiet_ops\<close>
    is a quiet link with the callbacks of an application, \<open>rts_wire\<close> and \<open>var_wire\<close> what goes over it.
  \<^item> \<^verbatim>\<open>Calc73\<close>: \<^verbatim>\<open>calc_73.cc\<close>, the operations of the TI-73, TI-83 Plus and TI-84 Plus on a link cable:
    variables, backups, applications page by page, certificates, the clock.
  \<^item> \<^verbatim>\<open>CalcNsp\<close>: \<^verbatim>\<open>calc_nsp.cc\<close>, the operations of the NSpire over \<^verbatim>\<open>NspCmd\<close>; \<open>os_event\<close> is what the calculator
    sends when it passes on an operating system, \<open>os_answers\<close> what the computer has to answer.

  \<^bold>\<open>How the state corresponds.\<close> The state of the device below the cable is a type parameter
  \<open>'d\<close>; the application (hooks, callbacks) is a record of functions, so that a property
  without a \<open>quiet_link\<close> hypothesis holds for every application and driver. Function-static
  counters are fields of the handle. Automatic arrays start with contents that the caller of
  the definition chooses (\<open>junk\<close>), so that a byte that is sent without having been written
  shows as one. Arithmetic that the sources do on 8, 16 or 32 bits is on words.

  \<^bold>\<open>Fuel.\<close> Three loops end when the peer decides so and take fuel: \<open>rx_loop\<close> (the loop of
  \<^verbatim>\<open>dusb_recv_data_varsize\<close>, and with it every command that receives), \<open>evo_find_soh\<close> (skipping to the start of a packet) and
  \<open>evo_get_loop\<close> (the packets of an object). \<open>dusb_data_roundtrip\<close>, \<open>evo_packet_roundtrip\<close> and
  \<open>evo_put_then_get\<close> show what is enough: as many rounds as there are fragments, more than
  there are bytes to skip, as many as there are packets. The properties about flags hold for
  every fuel. The loops over the elements of a CBOR container have a fuel of one unit for each
  byte of the input, and \<open>evo_cbor_parse_terminates\<close> shows that it is never used up. The
  capacity of a growing buffer may be doubled for ever; \<open>evo_grow\<close> is \<open>None\<close> then. The NSpire
  layers read byte by byte until a deadline that the peer can move, and skip packets for other
  ports; \<open>OUT_OF_FUEL\<close> is the error when the fuel of such a loop ends. \<open>nnse_delivered_once\<close> needs
  a unit for every byte of the longest message, \<open>nsp_virtual_packet\<close> one for every piece. The loops of
  \<^verbatim>\<open>calc_8x.cc\<close> and \<^verbatim>\<open>calc_73.cc\<close> that wait for the user or receive until the calculator ends the transmission have
  fuel too (\<open>recv_cert_ends_in_error\<close> needs a unit more than there are blocks), and so has the depth of the directory of a NSpire; \<open>nsp_os_received\<close> needs a unit for each packet. The decoders of screenshots have a unit for each byte of their input, of which every
  round takes at least one.

  \<^bold>\<open>Not modelled.\<close> The data log, transfer rates and the texts written to the log; the null
  check of the handle itself; physical drivers (a driver is a parameter); the operations of the other models, dumps of memory, file formats on disk and
  character sets, which are the plan for the development's extension, in this order.
\<close>

section \<open>Two handles on one virtual link\<close>

text \<open>A handle whose cable is attached to given segments; the two ends of an exchange.\<close>

definition plug :: "vti_dev \<Rightarrow> vti_dev calc_handle \<Rightarrow> vti_dev calc_handle" where
  "plug d h = h\<lparr>kh_cable := (kh_cable h)\<lparr>cb_dev := d\<rparr>\<rparr>"

abbreviation dev :: "vti_dev calc_handle \<Rightarrow> vti_dev" where
  "dev h \<equiv> cb_dev (kh_cable h)"

lemma plug_simps [simp]:
  "dev (plug d h) = d" "kh_buffer (plug d h) = kh_buffer h" "kh_model (plug d h) = kh_model h"
  by (simp_all add: plug_def)

lemma plug_ready:
  "quiet_vti.ready h \<Longrightarrow> quiet_vti.ready h' \<Longrightarrow> quiet_vti.ready (plug (vti_peer (dev h')) h)"
  by (simp add: quiet_vti.ready_def quiet_vti.cable_ready_def plug_def)

lemma vti_room_eq: "vti_room d = 255 - length (vti_sent d)"
  by (simp add: vti_room_def vti_sent_def)

lemmas vti_effect = quiet_vti.moved_def quiet_vti.c_sent_def quiet_vti.c_avail_def quiet_vti.c_room_def

text \<open>
  C1: A variable header crosses the whole stack and is acknowledged: \<open>ti73_send_VAR\<close> on one
  handle, through the packet layer, the cable layer and the driver into the shared segment;
  \<open>ti73_recv_VAR\<close> and \<open>tiz80_send_ACK\<close> on a handle at the other end; \<open>tiz80_recv_ACK\<close> back
  on the first one. All four calls succeed, the header arrives, both segments are empty and
  the first handle is ready for the next exchange.
\<close>
theorem vti_variable_exchange:
  assumes "link_ready vti_ok h" "kh_buffer h = Some hb" "length hb = 65542"
    and "vti_sent (dev h) = []" "vti_avail (dev h) = []"
    and "link_ready vti_ok g" "kh_buffer g = Some gb" "length gb = 65542"
    and "8 \<le> length name" "9 \<le> length (vh_name out)" "target \<noteq> 0" "target \<noteq> 0x80"
  shows "\<exists>h1 g1 g2 h2.
       ti73_send_VAR (vti_env S) varsize vartype (Some name) varattr version junk h = (None, h1)
     \<and> ti73_recv_VAR (vti_env S) out (plug (vti_peer (dev h1)) g)
         = (None, var73_received (kh_model h) varsize vartype name varattr version out, g1)
     \<and> tiz80_send_ACK (vti_env S) target g1 = (None, g2)
     \<and> tiz80_recv_ACK (vti_env S) None (plug (vti_peer (dev g2)) h1) = (None, None, h2)
     \<and> link_ready vti_ok h2 \<and> vti_sent (dev h2) = [] \<and> vti_avail (dev h2) = []"
proof -
  define d where "d = var73_data (kh_model h) varsize vartype name varattr version"
  let ?p = "dbus_packet (mid_7383p (kh_model h)) DBUS_CMD_VAR (Some d)"
  have rd: "quiet_vti.ready h" "quiet_vti.ready g"
    using assms(1,6) quiet_vti.link_ready_iff by blast+
  obtain h1 where h1: "ti73_send_VAR (vti_env S) varsize vartype (Some name) varattr version junk h
      = (None, h1)" "quiet_vti.moved h ?p 0 h1"
    using quiet_vti.ti73_send_VAR_quiet [OF rd(1) assms(2,3,9)] assms(4)
    unfolding d_def by (force simp: quiet_vti.c_room_def vti_room_eq)
  have r1: "quiet_vti.ready h1" "vti_sent (dev h1) = ?p" "vti_avail (dev h1) = []"
    using h1(2) assms(4,5) by (auto simp: vti_effect)
  let ?g = "plug (vti_peer (dev h1)) g"
  have "quiet_vti.c_avail (kh_cable ?g) = ?p @ []" using r1 by (simp add: vti_effect)
  moreover have "mid_7383p (kh_model h) \<noteq> 0x80" by (simp add: mid_7383p_def)
  ultimately obtain g1 gb1 where g1: "ti73_recv_VAR (vti_env S) out ?g
        = (None, var73_received (kh_model h) varsize vartype name varattr version out, g1)"
      "quiet_vti.moved ?g [] (length d + 6) g1" "kh_buffer g1 = Some gb1" "length gb1 = 65542"
    using quiet_vti.ti73_recv_VAR_quiet [OF plug_ready [OF rd(2) r1(1)] trans [OF plug_simps(2) assms(7)]
        assms(8,9,10), where host = "mid_7383p (kh_model h)" and m = "kh_model h" and varsize = varsize
        and vartype = vartype and varattr = varattr and version = version and rest = "[]" and S = S]
    unfolding d_def by blast
  have r2: "quiet_vti.ready g1" "vti_sent (dev g1) = []" "vti_avail (dev g1) = []"
    using g1(2) r1 by (simp_all add: vti_effect dbus_packet_data)
  obtain g2 where g2: "tiz80_send_ACK (vti_env S) target g1 = (None, g2)"
      "quiet_vti.moved g1 [target, DBUS_CMD_ACK, 0, 0] 0 g2"
    using quiet_vti.tiz80_send_ACK_quiet [OF r2(1) g1(3,4) assms(11), of S] r2(2)
    by (auto simp: quiet_vti.c_room_def vti_room_eq)
  have r3: "quiet_vti.ready g2" "vti_sent (dev g2) = [target, DBUS_CMD_ACK, 0, 0]"
      "vti_avail (dev g2) = []"
    using g2(2) r2 by (simp_all add: vti_effect)
  let ?h = "plug (vti_peer (dev g2)) h1"
  have "quiet_vti.c_avail (kh_cable ?h) = [target, DBUS_CMD_ACK, 0, 0] @ []"
    using r3 by (simp add: vti_effect)
  from quiet_vti.tiz80_recv_ACK_quiet [OF plug_ready [OF r1(1) r3(1)] this assms(12), of S]
  obtain h2 where h2: "tiz80_recv_ACK (vti_env S) None ?h = (None, None, h2)"
      "quiet_vti.moved ?h [] 4 h2" by blast
  have "quiet_vti.ready h2" "vti_sent (dev h2) = []" "vti_avail (dev h2) = []"
    using h2(2) r3 by (simp_all add: vti_effect)
  then show ?thesis using h1(1) g1(1) g2(1) h2(1) quiet_vti.link_ready_iff by blast
qed

theorem vti_variable_exchange_witness:
  "\<exists>h1 g1. ti73_send_VAR (vti_env vti_works) 0x123 5 (Some [0x41, 0x42, 0, 0, 0, 0, 0, 0])
       ATTRB_ARCHIVED 2 [] (z80_handle CALC_TI83P) = (None, h1)
     \<and> ti73_recv_VAR (vti_env vti_works) empty_header (plug (vti_peer (dev h1)) (z80_handle CALC_TI84P))
         = (None, \<lparr>vh_size = 0x123, vh_type = 5, vh_name = [0x41, 0x42, 0, 0, 0, 0, 0, 0, 0],
               vh_attr = ATTRB_ARCHIVED, vh_version = 2\<rparr>, g1)"
proof -
  let ?name = "[0x41, 0x42, 0, 0, 0, 0, 0, 0 :: u8]"
  have pre: "8 \<le> length ?name" "9 \<le> length (vh_name empty_header)" "(0x23 :: u8) \<noteq> 0"
    "(0x23 :: u8) \<noteq> 0x80" "vti_avail (dev (z80_handle CALC_TI83P)) = []"
    by (simp_all add: empty_header_def z80_handle_def)
  from vti_variable_exchange [OF z80_handle_sender(1) [of CALC_TI83P] z80_handle_sender(2) length_replicate
      z80_handle_sender(5) pre(5)
      z80_handle_sender(1) [of CALC_TI84P] z80_handle_sender(2) length_replicate pre(1-4),
      of vti_works "0x123" 5 ATTRB_ARCHIVED 2 "[]"]
  show ?thesis
    by (simp add: var73_received_def empty_header_def small_replicate) blast
qed

end
